(* ===== verification/Prelude.thy ===== *)
theory Prelude
  imports Complex_Main "HOL-Library.Multiset" "HOL-Library.AList"
begin

text \<open>
  Shared vocabulary of the development: how Python values are represented
  (floats as exact reals, timestamps as seconds, exceptions as values of a sum
  type), the string operations the code uses (\<open>upper\<close>, \<open>lower\<close>, \<open>strip\<close>,
  \<open>startswith\<close> on ASCII text), Python's \<open>round\<close> (half to even), and the generic
  lemmas on lists and sums that several components use.
\<close>

named_theorems fsm_simps \<open>definitions of the order state machines\<close>
named_theorems side_simps \<open>facts about order sides\<close>
named_theorems db_simps \<open>lookups after an update of the store\<close>

section \<open>Values\<close>

text \<open>
  A Python \<open>float\<close> is modelled by the real number it stands for: sums and products
  are exact, there is no NaN and no infinity. A \<open>datetime\<close> is its UTC second count.
\<close>

type_synonym flt = real
type_synonym time = real
type_synonym symbol = string

text \<open>
  Exceptions. The text of a message is kept only as a tag that tells the raising
  sites of a function apart.
\<close>

datatype py_error =
    ValueError string
  | KeyError string
  | RuntimeError string
  | ZeroDivisionError
  | OverReserveError
  | IntegrityError string
  | AlreadyClaimed
  | HTTPException int string
  | TypeError string
  | AttributeError string
  | OverflowError
  | IndexError
  | ConnectionError string

type_synonym 'a result = "py_error + 'a"

definition is_ok :: "'a result \<Rightarrow> bool" where
  "is_ok r = (case r of Inl _ \<Rightarrow> False | Inr _ \<Rightarrow> True)"

lemma is_ok_simps [simp]: "is_ok (Inr x)" "\<not> is_ok (Inl e)"
  by (simp_all add: is_ok_def)

text \<open>Run a fallible function over a list, stopping at the first exception.\<close>

fun map_result :: "('a \<Rightarrow> 'b result) \<Rightarrow> 'a list \<Rightarrow> 'b list result" where
  "map_result f [] = Inr []"
| "map_result f (x # xs) =
     (case f x of Inl e \<Rightarrow> Inl e
      | Inr y \<Rightarrow> (case map_result f xs of Inl e \<Rightarrow> Inl e | Inr ys \<Rightarrow> Inr (y # ys)))"

lemma map_result_length: "map_result f xs = Inr ys \<Longrightarrow> length ys = length xs"
  by (induction xs arbitrary: ys) (auto split: sum.splits)

lemma map_result_nth:
  "map_result f xs = Inr ys \<Longrightarrow> i < length xs \<Longrightarrow> f (xs ! i) = Inr (ys ! i)"
  by (induction xs arbitrary: ys i) (auto split: sum.splits simp: nth_Cons split: nat.splits)

lemma map_result_total:
  "(\<And>x. x \<in> set xs \<Longrightarrow> f x = Inr (g x)) \<Longrightarrow> map_result f xs = Inr (map g xs)"
  by (induction xs) auto

section \<open>Strings\<close>

definition char_upper :: "char \<Rightarrow> char" where
  "char_upper c =
     (let n = of_char c :: nat in if 97 \<le> n \<and> n \<le> 122 then char_of (n - 32) else c)"

definition char_lower :: "char \<Rightarrow> char" where
  "char_lower c =
     (let n = of_char c :: nat in if 65 \<le> n \<and> n \<le> 90 then char_of (n + 32) else c)"

definition is_space :: "char \<Rightarrow> bool" where
  "is_space c = (let n = of_char c :: nat in n = 32 \<or> (9 \<le> n \<and> n \<le> 13) \<or> (28 \<le> n \<and> n \<le> 31))"

definition py_upper :: "string \<Rightarrow> string" where
  "py_upper s = map char_upper s"

definition py_lower :: "string \<Rightarrow> string" where
  "py_lower s = map char_lower s"

definition py_strip :: "string \<Rightarrow> string" where
  "py_strip s = rev (dropWhile is_space (rev (dropWhile is_space s)))"

definition py_startswith :: "string \<Rightarrow> string \<Rightarrow> bool" where
  "py_startswith s p = (take (length p) s = p)"

text \<open>\<open>x or ''\<close> on an optional string.\<close>

definition str_or :: "string option \<Rightarrow> string" where
  "str_or x = (case x of None \<Rightarrow> [] | Some s \<Rightarrow> s)"

text \<open>\<open>x or None\<close> on a string: the empty string becomes None.\<close>

definition or_none :: "string \<Rightarrow> string option" where
  "or_none s = (if s = [] then None else Some s)"

lemma str_or_simps [simp]: "str_or None = []" "str_or (Some s) = s"
  by (simp_all add: str_or_def)

text \<open>\<open>x or 0.0\<close> on an optional float, \<open>x or 0\<close> on an optional int.\<close>

definition flt_or0 :: "flt option \<Rightarrow> flt" where
  "flt_or0 x = (case x of None \<Rightarrow> 0 | Some v \<Rightarrow> v)"

lemma flt_or0_simps [simp]: "flt_or0 None = 0" "flt_or0 (Some v) = v"
  by (simp_all add: flt_or0_def)

abbreviation BUY :: string where "BUY \<equiv> ''BUY''"
abbreviation SELL :: string where "SELL \<equiv> ''SELL''"

definition opposite :: "string \<Rightarrow> string option" where
  "opposite s = (if s = BUY then Some SELL else if s = SELL then Some BUY else None)"

lemma py_upper_BUY [simp, side_simps]: "py_upper BUY = BUY"
  by code_simp

lemma py_upper_SELL [simp, side_simps]: "py_upper SELL = SELL"
  by code_simp

lemma py_upper_buy [simp]: "py_upper ''buy'' = BUY"
  by code_simp

lemma py_upper_sell [simp]: "py_upper ''sell'' = SELL"
  by code_simp

lemma opposite_simps [simp, side_simps]:
  "opposite BUY = Some SELL" "opposite SELL = Some BUY"
  by (simp_all add: opposite_def)

lemma opposite_involution: "opposite s = Some t \<Longrightarrow> opposite t = Some s"
  by (auto simp: opposite_def split: if_splits)

lemma opposite_neq: "opposite s = Some t \<Longrightarrow> s \<noteq> t"
  by (auto simp: opposite_def split: if_splits)

section \<open>JSON values\<close>

text \<open>What the code puts in a \<open>details\<close> dictionary or an event payload.\<close>

datatype pval = PNone | PInt int | PFlt flt | PStr string | PBool bool | PInts "int list"
  | PStrs "string list" | PObj "(string \<times> pval) list"

type_synonym payload = "(string \<times> pval) list"

definition p_opt_str :: "string option \<Rightarrow> pval" where
  "p_opt_str x = (case x of None \<Rightarrow> PNone | Some s \<Rightarrow> PStr s)"

definition p_opt_flt :: "flt option \<Rightarrow> pval" where
  "p_opt_flt x = (case x of None \<Rightarrow> PNone | Some v \<Rightarrow> PFlt v)"

definition p_opt_int :: "int option \<Rightarrow> pval" where
  "p_opt_int x = (case x of None \<Rightarrow> PNone | Some v \<Rightarrow> PInt v)"

section \<open>Python's round\<close>

definition round_half_even :: "flt \<Rightarrow> int" where
  "round_half_even x =
     (let f = \<lfloor>x\<rfloor>; d = x - of_int f
      in if d < 1/2 then f else if 1/2 < d then f + 1 else if even f then f else f + 1)"

definition py_round :: "nat \<Rightarrow> flt \<Rightarrow> flt" where
  "py_round n x = of_int (round_half_even (x * 10 ^ n)) / 10 ^ n"

lemma round_half_even_of_int [simp]: "round_half_even (of_int k) = k"
  by (simp add: round_half_even_def)

lemma round_half_even_0 [simp]: "round_half_even 0 = 0"
  using round_half_even_of_int [of 0] by simp

lemma round_half_even_close: "\<bar>of_int (round_half_even x) - x\<bar> \<le> 1/2"
proof -
  have "of_int \<lfloor>x\<rfloor> \<le> x" "x < of_int \<lfloor>x\<rfloor> + 1" by linarith+
  then show ?thesis unfolding round_half_even_def Let_def by (auto split: if_splits)
qed

lemma round_half_even_mono: "x \<le> y \<Longrightarrow> round_half_even x \<le> round_half_even y"
proof -
  assume le: "x \<le> y"
  have fl: "\<lfloor>x\<rfloor> \<le> \<lfloor>y\<rfloor>" using le by (rule floor_mono)
  have lo: "\<lfloor>y\<rfloor> \<le> round_half_even y" and hi: "round_half_even x \<le> \<lfloor>x\<rfloor> + 1"
    unfolding round_half_even_def Let_def by auto
  show ?thesis
  proof (cases "\<lfloor>x\<rfloor> = \<lfloor>y\<rfloor>")
    case True
    then show ?thesis using le unfolding round_half_even_def Let_def by auto
  qed (use fl lo hi in linarith)
qed

lemma round_half_even_nonneg: "0 \<le> x \<Longrightarrow> 0 \<le> round_half_even x"
  unfolding round_half_even_def Let_def by (auto split: if_splits)

lemma round_half_even_nonpos: "x \<le> 0 \<Longrightarrow> round_half_even x \<le> 0"
proof -
  assume "x \<le> 0"
  have "of_int (round_half_even x) \<le> x + 1/2"
    using round_half_even_close [of x] by linarith
  with \<open>x \<le> 0\<close> have "real_of_int (round_half_even x) < 1" by linarith
  then show ?thesis by linarith
qed

text \<open>Rounding half to even is odd, which rounding half up is not.\<close>

lemma round_half_even_minus: "round_half_even (- x) = - round_half_even x"
proof (cases "x = of_int \<lfloor>x\<rfloor>")
  case True
  then have "round_half_even x = \<lfloor>x\<rfloor>" by (metis round_half_even_of_int)
  moreover have "round_half_even (- x) = - \<lfloor>x\<rfloor>"
    by (metis True of_int_minus round_half_even_of_int)
  ultimately show ?thesis by simp
next
  case False
  then have f: "\<lfloor>- x\<rfloor> = - \<lfloor>x\<rfloor> - 1" by linarith
  show ?thesis unfolding round_half_even_def Let_def f by auto
qed

lemma py_round_minus: "py_round n (- x) = - py_round n x"
  by (simp add: py_round_def round_half_even_minus)

lemma py_round_of_int [simp]: "py_round n (of_int k) = of_int k"
proof -
  have "round_half_even (of_int (k * 10 ^ n)) = k * 10 ^ n" by (rule round_half_even_of_int)
  then show ?thesis by (simp add: py_round_def)
qed

lemma py_round_close: "\<bar>py_round n x - x\<bar> \<le> 1 / (2 * 10 ^ n)"
proof -
  let ?k = "of_int (round_half_even (x * 10 ^ n)) :: real"
  have "py_round n x - x = (?k - x * 10 ^ n) / 10 ^ n"
    by (simp add: py_round_def diff_divide_distrib)
  then have "\<bar>py_round n x - x\<bar> = \<bar>?k - x * 10 ^ n\<bar> / 10 ^ n"
    by simp
  also have "\<dots> \<le> (1/2) / 10 ^ n"
    by (rule divide_right_mono [OF round_half_even_close]) simp
  finally show ?thesis by simp
qed

lemma py_round_0 [simp]: "py_round n 0 = 0"
  by (simp add: py_round_def)

lemma py_round_idem [simp]: "py_round n (py_round n x) = py_round n x"
  by (simp add: py_round_def)

lemma py_round_nonneg: "0 \<le> x \<Longrightarrow> 0 \<le> py_round n x"
  by (simp add: py_round_def round_half_even_nonneg)

text \<open>A rounded value is a multiple of the grid step.\<close>

lemma py_round_grid: "\<exists>k. py_round n x = of_int k / 10 ^ n"
  by (auto simp: py_round_def)

section \<open>Lists and sums\<close>

lemma sum_list_map_append: "sum_list (map f (xs @ ys)) = sum_list (map f xs) + sum_list (map f ys)"
  by simp

lemma sum_list_map_nonneg:
  "(\<And>x. x \<in> set xs \<Longrightarrow> 0 \<le> (f x :: 'b :: ordered_comm_monoid_add)) \<Longrightarrow> 0 \<le> sum_list (map f xs)"
  by (rule sum_list_nonneg) auto

lemma sum_list_map_remove_dup_perm:
  "mset xs = mset ys \<Longrightarrow> sum_list (map f xs) = (sum_list (map f ys) :: 'b :: comm_monoid_add)"
  by (metis mset_map sum_mset_sum_list)

lemma map_filter_update_id:
  "(\<And>x. x \<in> set xs \<Longrightarrow> f x = x) \<Longrightarrow> map f xs = xs"
  by (induction xs) auto

end
