(* ===== verification/Fills.thy ===== *)
theory Fills
  imports Prelude
begin

text \<open>
  Fill aggregation and execution prices: \<open>core/execution/fills.py\<close> (the aggregates an
  order carries, recomputed from its whole fill stream) and
  \<open>core/execution/slippage.py\<close> (limit price, signed slippage). Field names carry the
  prefix \<open>fe_\<close> (fill event) or \<open>ag_\<close> (order aggregate).
\<close>

section \<open>Slippage and limit price\<close>

definition compute_limit_price :: "flt \<Rightarrow> string \<Rightarrow> flt \<Rightarrow> flt result" where
  "compute_limit_price preview_price side slippage_tolerance_pct =
     (if preview_price \<le> 0 then Inl (ValueError ''preview_price must be positive'')
      else if slippage_tolerance_pct < 0 then Inl (ValueError ''slippage_tolerance_pct must be >= 0'')
      else
        let side_u = py_upper side; factor = slippage_tolerance_pct / 100 in
        if side_u = BUY then Inr (preview_price * (1 + factor))
        else if side_u = SELL then Inr (preview_price * (1 - factor))
        else Inl (ValueError ''side must be BUY or SELL''))"

definition compute_slippage_per_contract :: "flt \<Rightarrow> flt \<Rightarrow> string \<Rightarrow> flt result" where
  "compute_slippage_per_contract preview_price avg_fill_price side =
     (let side_u = py_upper side in
      if side_u = BUY then Inr (avg_fill_price - preview_price)
      else if side_u = SELL then Inr (preview_price - avg_fill_price)
      else Inl (ValueError ''side must be BUY or SELL''))"

section \<open>Aggregates\<close>

record fill_event =
  fe_execution_id :: string
  fe_qty_filled :: int
  fe_fill_price :: flt
  fe_commission_usd :: flt

record order_aggregate =
  ag_qty_filled :: int
  ag_avg_fill_price :: "flt option"
  ag_total_commission_usd :: flt
  ag_slippage_per_contract :: "flt option"
  ag_total_slippage_usd :: "flt option"
  ag_fully_filled :: bool

definition apply_fill_idempotent :: "string list \<Rightarrow> string \<Rightarrow> bool" where
  "apply_fill_idempotent seen_execution_ids new_id = (new_id \<notin> set seen_execution_ids)"

definition qty_total :: "fill_event list \<Rightarrow> int" where
  "qty_total fs = sum_list (map fe_qty_filled fs)"

definition notional :: "fill_event list \<Rightarrow> flt" where
  "notional fs = sum_list (map (\<lambda>f. of_int (fe_qty_filled f) * fe_fill_price f) fs)"

definition commission_total :: "fill_event list \<Rightarrow> flt" where
  "commission_total fs = sum_list (map fe_commission_usd fs)"

definition update_order_aggregates ::
  "fill_event list \<Rightarrow> int \<Rightarrow> string \<Rightarrow> flt option \<Rightarrow> order_aggregate result" where
  "update_order_aggregates fills_list target_qty side preview_price =
     (if qty_total fills_list = 0 then
        Inr \<lparr>ag_qty_filled = 0, ag_avg_fill_price = None, ag_total_commission_usd = 0,
             ag_slippage_per_contract = None, ag_total_slippage_usd = None,
             ag_fully_filled = False\<rparr>
      else
        let qt = qty_total fills_list;
            avg = notional fills_list / of_int qt;
            slip = (case preview_price of
                      None \<Rightarrow> Inr None
                    | Some p \<Rightarrow>
                        if p \<le> 0 then Inr None
                        else (case compute_slippage_per_contract p avg side of
                                Inl e \<Rightarrow> Inl e | Inr s \<Rightarrow> Inr (Some s)))
        in case slip of
             Inl e \<Rightarrow> Inl e
           | Inr slip_per \<Rightarrow>
               Inr \<lparr>ag_qty_filled = qt, ag_avg_fill_price = Some avg,
                    ag_total_commission_usd = commission_total fills_list,
                    ag_slippage_per_contract = slip_per,
                    ag_total_slippage_usd = map_option (\<lambda>s. s * of_int qt) slip_per,
                    ag_fully_filled = (target_qty \<le> qt)\<rparr>)"

section \<open>Facts about the aggregates\<close>

lemma qty_total_simps [simp]:
  "qty_total [] = 0" "qty_total (f # fs) = fe_qty_filled f + qty_total fs"
  "qty_total (fs @ gs) = qty_total fs + qty_total gs"
  by (simp_all add: qty_total_def)

lemma notional_simps [simp]:
  "notional [] = 0" "notional (f # fs) = of_int (fe_qty_filled f) * fe_fill_price f + notional fs"
  by (simp_all add: notional_def)

lemma qty_total_nonneg: "(\<And>f. f \<in> set fs \<Longrightarrow> 0 \<le> fe_qty_filled f) \<Longrightarrow> 0 \<le> qty_total fs"
  by (simp add: qty_total_def sum_list_map_nonneg)

lemma qty_total_pos:
  assumes "fs \<noteq> []" "\<And>f. f \<in> set fs \<Longrightarrow> 0 < fe_qty_filled f"
  shows "0 < qty_total fs"
proof -
  obtain g gs where fs: "fs = g # gs" using assms(1) by (cases fs) auto
  have "0 < fe_qty_filled g" using assms(2) fs by simp
  moreover have "0 \<le> qty_total gs"
    by (rule qty_total_nonneg) (metis assms(2) fs less_imp_le list.set_intros(2))
  ultimately show ?thesis by (simp add: fs)
qed

text \<open>The aggregates see the fills as a multiset.\<close>

lemma aggregates_perm:
  assumes "mset fs = mset gs"
  shows "update_order_aggregates fs q s p = update_order_aggregates gs q s p"
proof -
  have "qty_total fs = qty_total gs" "notional fs = notional gs" "commission_total fs = commission_total gs"
    unfolding qty_total_def notional_def commission_total_def
    by (rule sum_list_map_remove_dup_perm [OF assms])+
  then show ?thesis by (simp add: update_order_aggregates_def)
qed

lemma notional_ge:
  assumes "\<And>f. f \<in> set fs \<Longrightarrow> 0 \<le> fe_qty_filled f \<and> lo \<le> fe_fill_price f"
  shows "lo * of_int (qty_total fs) \<le> notional fs"
  using assms
proof (induction fs)
  case Nil
  then show ?case by simp
next
  case (Cons f fs)
  have "lo * of_int (fe_qty_filled f) \<le> fe_fill_price f * of_int (fe_qty_filled f)"
    using Cons.prems by (simp add: mult_right_mono)
  with Cons.IH Cons.prems show ?case by (simp add: algebra_simps)
qed

lemma notional_le:
  assumes "\<And>f. f \<in> set fs \<Longrightarrow> 0 \<le> fe_qty_filled f \<and> fe_fill_price f \<le> hi"
  shows "notional fs \<le> hi * of_int (qty_total fs)"
  using assms
proof (induction fs)
  case Nil
  then show ?case by simp
next
  case (Cons f fs)
  have "fe_fill_price f * of_int (fe_qty_filled f) \<le> hi * of_int (fe_qty_filled f)"
    using Cons.prems by (simp add: mult_right_mono)
  with Cons.IH Cons.prems show ?case by (simp add: algebra_simps)
qed

text \<open>With a valid side the aggregation never raises.\<close>

lemma aggregates_total:
  "py_upper side \<in> {BUY, SELL} \<Longrightarrow> is_ok (update_order_aggregates fs q side p)"
  by (auto simp: update_order_aggregates_def compute_slippage_per_contract_def Let_def
      split: option.splits)

lemma aggregates_qty:
  "update_order_aggregates fs q side p = Inr ag \<Longrightarrow> ag_qty_filled ag = qty_total fs"
  by (auto simp: update_order_aggregates_def Let_def split: if_splits sum.splits)

lemma aggregates_fully_filled:
  "update_order_aggregates fs q side p = Inr ag \<Longrightarrow>
     ag_fully_filled ag \<longleftrightarrow> qty_total fs \<noteq> 0 \<and> q \<le> qty_total fs"
  by (auto simp: update_order_aggregates_def Let_def split: if_splits sum.splits)

lemma aggregates_avg:
  "update_order_aggregates fs q side p = Inr ag \<Longrightarrow>
     ag_avg_fill_price ag =
       (if qty_total fs = 0 then None else Some (notional fs / of_int (qty_total fs)))"
  by (auto simp: update_order_aggregates_def Let_def split: if_splits sum.splits)

lemma notional_slippage:
  "notional fs - p * of_int (qty_total fs) =
     sum_list (map (\<lambda>f. of_int (fe_qty_filled f) * (fe_fill_price f - p)) fs)"
  by (induction fs) (simp_all add: algebra_simps)

section \<open>Properties\<close>

text \<open>
  A fill at or better than the limit price of its order costs at most the tolerated
  slippage: for a price that respects the limit, the slippage per contract is bounded by
  the tolerance percentage of the preview price, on both sides of the market.
\<close>

theorem limit_price_bounds_slippage:
  assumes "compute_limit_price p side tol = Inr lmt"
    and "py_upper side = BUY \<Longrightarrow> avg \<le> lmt"
    and "py_upper side = SELL \<Longrightarrow> lmt \<le> avg"
  shows "\<exists>s. compute_slippage_per_contract p avg side = Inr s \<and> s \<le> p * tol / 100"
proof -
  consider (buy) "py_upper side = BUY" "lmt = p * (1 + tol / 100)"
    | (sell) "py_upper side = SELL" "lmt = p * (1 - tol / 100)"
    using assms(1) by (auto simp: compute_limit_price_def Let_def split: if_splits)
  then show ?thesis
  proof cases
    case buy
    then show ?thesis using assms(2)
      by (intro exI [of _ "avg - p"]) (simp add: compute_slippage_per_contract_def algebra_simps)
  next
    case sell
    then show ?thesis using assms(3)
      by (intro exI [of _ "p - avg"]) (simp add: compute_slippage_per_contract_def algebra_simps)
  qed
qed

theorem limit_price_bounds_slippage_witness:
  "\<exists>s. compute_slippage_per_contract 4 4 ''buy'' = Inr s \<and> s \<le> 4 * (1/2) / 100"
  by (rule limit_price_bounds_slippage [of 4 "''buy''" "1/2" "4 * (1 + (1/2) / 100)"])
     (simp_all add: compute_limit_price_def py_upper_buy)

text \<open>
  The volume-weighted average fill price lies between the lowest and the highest
  fill price whenever every fill has a positive quantity, and the recorded quantity is
  the sum of the fills.
\<close>

theorem vwap_between_prices:
  assumes "update_order_aggregates fs q side p = Inr ag" and "fs \<noteq> []"
    and "\<And>f. f \<in> set fs \<Longrightarrow> 0 < fe_qty_filled f \<and> lo \<le> fe_fill_price f \<and> fe_fill_price f \<le> hi"
  shows "\<exists>avg. ag_avg_fill_price ag = Some avg \<and> lo \<le> avg \<and> avg \<le> hi \<and>
    ag_qty_filled ag = qty_total fs"
proof -
  have pos: "0 < qty_total fs" by (rule qty_total_pos [OF assms(2)]) (use assms(3) in auto)
  have b: "lo * of_int (qty_total fs) \<le> notional fs" "notional fs \<le> hi * of_int (qty_total fs)"
    using notional_ge [of fs lo] notional_le [of fs hi] assms(3) by force+
  show ?thesis
    using aggregates_avg [OF assms(1)] aggregates_qty [OF assms(1)] pos b
    by (simp add: pos_le_divide_eq pos_divide_le_eq)
qed

theorem vwap_between_prices_witness:
  "let fs = [\<lparr>fe_execution_id = ''e1'', fe_qty_filled = 4, fe_fill_price = 3, fe_commission_usd = 1\<rparr>,
             \<lparr>fe_execution_id = ''e2'', fe_qty_filled = 6, fe_fill_price = 5, fe_commission_usd = 1\<rparr>]
   in \<exists>ag. update_order_aggregates fs 10 BUY None = Inr ag \<and>
        (\<exists>avg. ag_avg_fill_price ag = Some avg \<and> 3 \<le> avg \<and> avg \<le> 5 \<and> ag_qty_filled ag = qty_total fs)"
proof -
  let ?fs = "[\<lparr>fe_execution_id = ''e1'', fe_qty_filled = 4, fe_fill_price = 3, fe_commission_usd = 1\<rparr>,
             \<lparr>fe_execution_id = ''e2'', fe_qty_filled = 6, fe_fill_price = 5, fe_commission_usd = 1\<rparr>] :: fill_event list"
  obtain ag where ag: "update_order_aggregates ?fs 10 BUY None = Inr ag"
    by (simp add: update_order_aggregates_def Let_def)
  have "\<exists>avg. ag_avg_fill_price ag = Some avg \<and> 3 \<le> avg \<and> avg \<le> 5 \<and> ag_qty_filled ag = qty_total ?fs"
    by (rule vwap_between_prices [OF ag]) auto
  with ag show ?thesis by (simp add: Let_def)
qed

end
