(* ===== verification/Projection.thy ===== *)
theory Projection
  imports Fills
begin

text \<open>
  The forward projection of a leg (\<open>core/execution/projection.py\<close>): the position of a
  leg is the signed fold of that leg's own executions, nothing else.
\<close>

record leg_fill =
  lf_side :: string
  lf_qty :: flt
  lf_price :: flt

record leg_fold =
  open_qty :: flt
  avg_price :: "flt option"
  filled_qty :: flt

definition signed :: "string \<Rightarrow> flt \<Rightarrow> flt" where
  "signed side qty = (if py_upper side = BUY then qty else - qty)"

definition fold_fills :: "leg_fill list \<Rightarrow> leg_fold" where
  "fold_fills items =
     (let oq = sum_list (map (\<lambda>f. signed (lf_side f) (lf_qty f)) items);
          fq = sum_list (map lf_qty items)
      in if fq = 0 then \<lparr>open_qty = oq, avg_price = None, filled_qty = fq\<rparr>
         else let notl = sum_list (map (\<lambda>f. lf_qty f * lf_price f) items)
              in \<lparr>open_qty = oq, avg_price = Some (notl / fq), filled_qty = fq\<rparr>)"

section \<open>Facts about the fold\<close>

lemma signed_simps [simp]: "signed BUY q = q" "signed SELL q = - q"
  by (simp_all add: signed_def)

lemma abs_signed: "\<bar>signed s q\<bar> = \<bar>q\<bar>"
  by (simp add: signed_def)

lemma open_qty_fold:
  "open_qty (fold_fills fs) = sum_list (map (\<lambda>f. signed (lf_side f) (lf_qty f)) fs)"
  by (simp add: fold_fills_def Let_def)

lemma filled_qty_fold: "filled_qty (fold_fills fs) = sum_list (map lf_qty fs)"
  by (simp add: fold_fills_def Let_def)

lemma open_qty_append: "open_qty (fold_fills (fs @ gs)) = open_qty (fold_fills fs) + open_qty (fold_fills gs)"
  by (simp add: open_qty_fold)

lemma filled_qty_append:
  "filled_qty (fold_fills (fs @ gs)) = filled_qty (fold_fills fs) + filled_qty (fold_fills gs)"
  by (simp add: filled_qty_fold)

text \<open>Replaying the executions in another order gives the same position.\<close>

lemma fold_fills_perm:
  assumes "mset fs = mset gs"
  shows "fold_fills fs = fold_fills gs"
proof -
  have "sum_list (map g fs) = sum_list (map g gs)" for g :: "leg_fill \<Rightarrow> flt"
    by (rule sum_list_map_remove_dup_perm [OF assms])
  then show ?thesis unfolding fold_fills_def by metis
qed

lemma open_qty_le_filled:
  assumes "\<And>f. f \<in> set fs \<Longrightarrow> 0 \<le> lf_qty f"
  shows "\<bar>open_qty (fold_fills fs)\<bar> \<le> filled_qty (fold_fills fs)"
  using assms
proof (induction fs)
  case Nil
  then show ?case by (simp add: open_qty_fold filled_qty_fold)
next
  case (Cons f fs)
  have "\<bar>open_qty (fold_fills (f # fs))\<bar> \<le> \<bar>signed (lf_side f) (lf_qty f)\<bar> + \<bar>open_qty (fold_fills fs)\<bar>"
    by (simp add: open_qty_fold abs_triangle_ineq)
  also have "\<bar>signed (lf_side f) (lf_qty f)\<bar> = lf_qty f"
    using Cons.prems by (simp add: abs_signed)
  finally show ?case using Cons by (simp add: filled_qty_fold)
qed

lemma open_qty_one_side:
  assumes "\<And>f. f \<in> set fs \<Longrightarrow> py_upper (lf_side f) = BUY"
  shows "open_qty (fold_fills fs) = filled_qty (fold_fills fs)"
  using assms by (induction fs) (simp_all add: open_qty_fold filled_qty_fold signed_def)

end
