(* ===== verification/Ledger.thy ===== *)
theory Ledger
  imports Projection
begin

text \<open>
  The average-cost ledger (\<open>core/ledger.py\<close>): positions and realised profit folded from
  the append-only fill log. Field names carry the prefix \<open>l_\<close> (fill) or \<open>cl_\<close>
  (contract ledger). Opening a position with a fill of quantity 0 divides by zero in the
  code; that is an error value here.
\<close>

record ledger_fill =
  l_contract :: symbol
  l_side :: string
  l_qty :: flt
  l_price :: flt
  l_commission :: flt
  l_multiplier :: flt

record contract_ledger =
  cl_contract :: symbol
  cl_net_qty :: flt
  cl_avg_cost :: flt
  cl_realized_pnl :: flt
  cl_commission :: flt
  cl_multiplier :: flt

definition new_ledger :: "symbol \<Rightarrow> flt \<Rightarrow> contract_ledger" where
  "new_ledger c m = \<lparr>cl_contract = c, cl_net_qty = 0, cl_avg_cost = 0, cl_realized_pnl = 0,
     cl_commission = 0, cl_multiplier = m\<rparr>"

definition l_signed :: "ledger_fill \<Rightarrow> flt" where
  "l_signed f = (if l_side f = BUY then l_qty f else - l_qty f)"

definition apply_fill :: "contract_ledger \<Rightarrow> ledger_fill \<Rightarrow> contract_ledger result" where
  "apply_fill led0 f =
     (let sgn = l_signed f;
          led = led0\<lparr>cl_commission := cl_commission led0 + l_commission f,
                     cl_realized_pnl := cl_realized_pnl led0 - l_commission f,
                     cl_multiplier := l_multiplier f\<rparr>;
          old = cl_net_qty led
      in if old = 0 \<or> ((0 < old) = (0 < sgn)) then
           (let new_abs = \<bar>old\<bar> + l_qty f in
            if new_abs = 0 then Inl ZeroDivisionError
            else Inr (led\<lparr>cl_avg_cost := (cl_avg_cost led * \<bar>old\<bar> + l_price f * l_qty f) / new_abs,
                          cl_net_qty := old + sgn\<rparr>))
         else
           (let close_qty = min (l_qty f) \<bar>old\<bar>;
                gain = (if 0 < old
                        then (l_price f - cl_avg_cost led) * close_qty * l_multiplier f
                        else (cl_avg_cost led - l_price f) * close_qty * l_multiplier f);
                led1 = led\<lparr>cl_realized_pnl := cl_realized_pnl led + gain,
                           cl_net_qty := old + sgn\<rparr>
            in if cl_net_qty led1 = 0 then Inr (led1\<lparr>cl_avg_cost := 0\<rparr>)
               else if (0 < cl_net_qty led1) \<noteq> (0 < old) then Inr (led1\<lparr>cl_avg_cost := l_price f\<rparr>)
               else Inr led1))"

text \<open>\<open>fold_fills\<close> of the ledger: the dictionary of ledgers, keyed by contract.\<close>

fun fold_ledger :: "(symbol \<Rightarrow> contract_ledger option) \<Rightarrow> ledger_fill list \<Rightarrow>
    (symbol \<Rightarrow> contract_ledger option) result" where
  "fold_ledger out [] = Inr out"
| "fold_ledger out (f # fs) =
     (let led = (case out (l_contract f) of
                   None \<Rightarrow> new_ledger (l_contract f) (l_multiplier f)
                 | Some l \<Rightarrow> l)
      in case apply_fill led f of
           Inl e \<Rightarrow> Inl e
         | Inr led' \<Rightarrow> fold_ledger (out(l_contract f \<mapsto> led')) fs)"

definition ledger_fold_fills :: "ledger_fill list \<Rightarrow> (symbol \<Rightarrow> contract_ledger option) result" where
  "ledger_fold_fills fs = fold_ledger Map.empty fs"

definition unrealized_pnl :: "contract_ledger \<Rightarrow> flt option \<Rightarrow> flt option" where
  "unrealized_pnl led mark =
     (if cl_net_qty led = 0 then Some 0
      else case mark of None \<Rightarrow> None
         | Some m \<Rightarrow> Some ((m - cl_avg_cost led) * cl_net_qty led * cl_multiplier led))"

section \<open>One contract\<close>

text \<open>The same fold over the fills of a single contract.\<close>

fun apply_fills :: "contract_ledger \<Rightarrow> ledger_fill list \<Rightarrow> contract_ledger result" where
  "apply_fills led [] = Inr led"
| "apply_fills led (f # fs) =
     (case apply_fill led f of Inl e \<Rightarrow> Inl e | Inr led' \<Rightarrow> apply_fills led' fs)"

definition l_cash :: "ledger_fill list \<Rightarrow> flt" where
  "l_cash fs = sum_list (map (\<lambda>f. l_signed f * l_price f) fs)"

definition l_net :: "ledger_fill list \<Rightarrow> flt" where
  "l_net fs = sum_list (map l_signed fs)"

definition l_comm :: "ledger_fill list \<Rightarrow> flt" where
  "l_comm fs = sum_list (map l_commission fs)"

lemma l_sums [simp]:
  "l_cash [] = 0" "l_net [] = 0" "l_comm [] = 0"
  "l_cash (f # fs) = l_signed f * l_price f + l_cash fs"
  "l_net (f # fs) = l_signed f + l_net fs"
  "l_comm (f # fs) = l_commission f + l_comm fs"
  by (simp_all add: l_cash_def l_net_def l_comm_def)

lemma apply_fill_total: "0 < l_qty f \<Longrightarrow> \<exists>led'. apply_fill led f = Inr led'"
  by (auto simp: apply_fill_def Let_def)

lemma apply_fill_frame:
  "apply_fill led f = Inr led' \<Longrightarrow>
     cl_net_qty led' = cl_net_qty led + l_signed f \<and>
     cl_commission led' = cl_commission led + l_commission f \<and>
     cl_contract led' = cl_contract led \<and> cl_multiplier led' = l_multiplier f"
  by (auto simp: apply_fill_def Let_def split: if_splits)

text \<open>
  The accounting identity of one step: realised profit, less what the open position cost
  at its average, moves by exactly the cash of the fill and its commission.
\<close>

definition equity0 :: "flt \<Rightarrow> contract_ledger \<Rightarrow> flt" where
  "equity0 m led = cl_realized_pnl led - m * (cl_avg_cost led * cl_net_qty led)"

lemma apply_fill_equity:
  assumes "apply_fill led f = Inr led'" "0 < l_qty f" "l_multiplier f = m"
  shows "equity0 m led' = equity0 m led - m * (l_signed f * l_price f) - l_commission f"
proof -
  let ?o = "cl_net_qty led"
  consider (add) "?o = 0 \<or> ((0 < ?o) = (0 < l_signed f))"
    | (long) "0 < ?o" "\<not> 0 < l_signed f" | (short) "?o < 0" "0 < l_signed f"
    by linarith
  then show ?thesis
  proof cases
    case add
    have nz: "\<bar>?o\<bar> + l_qty f \<noteq> 0" using assms(2) by linarith
    have "(cl_avg_cost led * \<bar>?o\<bar> + l_price f * l_qty f) * (?o + l_signed f)
        = (cl_avg_cost led * ?o + l_price f * l_signed f) * (\<bar>?o\<bar> + l_qty f)"
      using add assms(2) by (auto simp: l_signed_def algebra_simps split: if_splits)
    then have "(cl_avg_cost led * \<bar>?o\<bar> + l_price f * l_qty f) / (\<bar>?o\<bar> + l_qty f) * (?o + l_signed f)
        = cl_avg_cost led * ?o + l_price f * l_signed f"
      using nz by (simp add: field_simps)
    moreover have "cl_avg_cost led' * cl_net_qty led' =
        (cl_avg_cost led * \<bar>?o\<bar> + l_price f * l_qty f) / (\<bar>?o\<bar> + l_qty f) * (?o + l_signed f)"
      "cl_realized_pnl led' = cl_realized_pnl led - l_commission f"
      using assms(1) add nz by (auto simp: apply_fill_def Let_def split: if_splits)
    ultimately show ?thesis by (simp add: equity0_def algebra_simps)
  next
    case long
    then have s: "l_signed f = - l_qty f" using assms(2) by (auto simp: l_signed_def split: if_splits)
    show ?thesis
      using assms(1) long s assms(2,3)
      by (auto simp: apply_fill_def equity0_def Let_def min_def algebra_simps split: if_splits)
  next
    case short
    then have s: "l_signed f = l_qty f" using assms(2) by (auto simp: l_signed_def split: if_splits)
    obtain k where k: "cl_net_qty led = - k" "0 < k"
      using short by (metis minus_minus neg_0_less_iff_less)
    show ?thesis
      using assms(1) k s assms(2,3)
      by (auto simp: apply_fill_def equity0_def Let_def min_def algebra_simps split: if_splits)
  qed
qed

lemma apply_fills_sums:
  assumes "apply_fills led fs = Inr led'"
  shows "cl_net_qty led' = cl_net_qty led + l_net fs \<and> cl_commission led' = cl_commission led + l_comm fs"
  using assms
  by (induction fs arbitrary: led) (auto split: sum.splits dest!: apply_fill_frame)

lemma apply_fills_equity:
  assumes "apply_fills led fs = Inr led'" "\<And>f. f \<in> set fs \<Longrightarrow> 0 < l_qty f \<and> l_multiplier f = m"
  shows "equity0 m led' = equity0 m led - m * l_cash fs - l_comm fs"
  using assms
proof (induction fs arbitrary: led)
  case Nil
  then show ?case by simp
next
  case (Cons f fs)
  obtain l1 where l1: "apply_fill led f = Inr l1" and rest: "apply_fills l1 fs = Inr led'"
    using Cons.prems(1) by (auto split: sum.splits)
  have "equity0 m l1 = equity0 m led - m * (l_signed f * l_price f) - l_commission f"
    by (rule apply_fill_equity [OF l1]) (use Cons.prems(2) in auto)
  with Cons.IH [OF rest] Cons.prems(2) show ?case by (simp add: algebra_simps)
qed

lemma apply_fill_flat:
  assumes "apply_fill led f = Inr led'" "0 < l_qty f" "cl_net_qty led' = 0"
  shows "cl_avg_cost led' = 0"
proof -
  have "\<bar>cl_net_qty led\<bar> + l_qty f \<noteq> 0" using assms(2) by linarith
  then show ?thesis
    using assms
    by (auto simp: apply_fill_def Let_def l_signed_def split: if_splits)
qed

section \<open>All contracts\<close>

text \<open>
  The contract is the netting key: the dictionary entry of a contract is the fold of the
  fills of that contract, whatever is interleaved between them.
\<close>

lemma fold_ledger_filter:
  assumes "fold_ledger out fs = Inr out'"
  shows "case out' c of
      None \<Rightarrow> out c = None \<and> filter (\<lambda>f. l_contract f = c) fs = []
    | Some led' \<Rightarrow>
        (case out c of
           Some led \<Rightarrow> apply_fills led (filter (\<lambda>f. l_contract f = c) fs) = Inr led'
         | None \<Rightarrow> (\<exists>m. apply_fills (new_ledger c m) (filter (\<lambda>f. l_contract f = c) fs) = Inr led'))"
  using assms
proof (induction fs arbitrary: out)
  case Nil
  then show ?case by (auto split: option.splits intro: exI)
next
  case (Cons f fs)
  let ?led = "case out (l_contract f) of None \<Rightarrow> new_ledger (l_contract f) (l_multiplier f) | Some l \<Rightarrow> l"
  obtain l1 where l1: "apply_fill ?led f = Inr l1"
    and rest: "fold_ledger (out(l_contract f \<mapsto> l1)) fs = Inr out'"
    using Cons.prems by (auto simp: Let_def split: sum.splits)
  note IH = Cons.IH [OF rest]
  show ?case
  proof (cases "l_contract f = c")
    case True
    show ?thesis
    proof (cases "out c")
      case None
      with IH l1 True show ?thesis
        by (auto split: option.splits intro!: exI [of _ "l_multiplier f"])
    next
      case (Some led)
      with IH l1 True show ?thesis by (auto split: option.splits)
    qed
  next
    case False
    with IH show ?thesis by (auto split: option.splits)
  qed
qed

lemma ledger_entry:
  assumes "ledger_fold_fills fs = Inr out" "out c = Some led"
  obtains m where "apply_fills (new_ledger c m) (filter (\<lambda>f. l_contract f = c) fs) = Inr led"
  using fold_ledger_filter [OF assms(1) [unfolded ledger_fold_fills_def], of c] assms(2)
  by (auto split: option.splits)

lemma apply_fills_multiplier:
  "apply_fills led fs = Inr led' \<Longrightarrow> fs \<noteq> [] \<Longrightarrow> (\<And>f. f \<in> set fs \<Longrightarrow> l_multiplier f = m) \<Longrightarrow>
     cl_multiplier led' = m"
proof (induction fs arbitrary: led)
  case Nil
  then show ?case by simp
next
  case (Cons f fs)
  obtain l1 where l1: "apply_fill led f = Inr l1" and rest: "apply_fills l1 fs = Inr led'"
    using Cons.prems(1) by (auto split: sum.splits)
  show ?case
  proof (cases "fs = []")
    case True
    with rest apply_fill_frame [OF l1] Cons.prems(3) show ?thesis by simp
  next
    case False
    with Cons.IH [OF rest] Cons.prems(3) show ?thesis by simp
  qed
qed

lemma equity_at_mark:
  "l_cash fs = p * l_net fs - sum_list (map (\<lambda>f. l_signed f * (p - l_price f)) fs)"
  by (induction fs) (simp_all add: algebra_simps)

section \<open>Properties\<close>

text \<open>
  C2. The ledger conserves profit and loss. For every contract whose fills carry one
  multiplier, realised plus unrealised profit at any mark \<open>p\<close> is exactly what each
  execution gained by \<open>p\<close>, times the multiplier, less the commissions: no sequence of
  opening, adding, reducing, closing and flipping fills creates or loses money.
\<close>

theorem ledger_conserves_pnl:
  assumes "ledger_fold_fills fs = Inr out" and "out c = Some led"
    and "\<And>f. f \<in> set fs \<Longrightarrow> 0 < l_qty f \<and> (l_contract f = c \<longrightarrow> l_multiplier f = m)"
    and "cl_multiplier led = m"
  shows "\<exists>u. unrealized_pnl led (Some p) = Some u \<and>
    cl_realized_pnl led + u =
      m * sum_list (map (\<lambda>f. l_signed f * (p - l_price f)) (filter (\<lambda>f. l_contract f = c) fs))
      - sum_list (map l_commission (filter (\<lambda>f. l_contract f = c) fs))"
proof -
  let ?fs = "filter (\<lambda>f. l_contract f = c) fs"
  obtain m0 where fold: "apply_fills (new_ledger c m0) ?fs = Inr led"
    by (rule ledger_entry [OF assms(1,2)])
  have eq: "equity0 m led = equity0 m (new_ledger c m0) - m * l_cash ?fs - l_comm ?fs"
    by (rule apply_fills_equity [OF fold]) (use assms(3) in auto)
  have net: "cl_net_qty led = l_net ?fs"
    using apply_fills_sums [OF fold] by (simp add: new_ledger_def)
  have "cl_realized_pnl led + (p - cl_avg_cost led) * cl_net_qty led * m
      = m * (p * l_net ?fs - l_cash ?fs) - l_comm ?fs"
    using eq net by (simp add: equity0_def new_ledger_def algebra_simps)
  also have "p * l_net ?fs - l_cash ?fs = sum_list (map (\<lambda>f. l_signed f * (p - l_price f)) ?fs)"
    by (simp add: equity_at_mark [of _ p])
  finally show ?thesis using assms(4)
    by (cases "cl_net_qty led = 0") (simp_all add: unrealized_pnl_def l_comm_def)
qed

theorem ledger_conserves_pnl_witness:
  "let f1 = \<lparr>l_contract = ''A'', l_side = BUY, l_qty = 10, l_price = 3, l_commission = 1, l_multiplier = 2\<rparr>;
       f2 = \<lparr>l_contract = ''A'', l_side = SELL, l_qty = 15, l_price = 5, l_commission = 1, l_multiplier = 2\<rparr>
   in \<exists>out led u. ledger_fold_fills [f1, f2] = Inr out \<and> out ''A'' = Some led \<and>
        cl_net_qty led = -5 \<and> cl_realized_pnl led = 38 \<and>
        unrealized_pnl led (Some 4) = Some u \<and> cl_realized_pnl led + u = 48"
proof -
  let ?f1 = "\<lparr>l_contract = ''A'', l_side = BUY, l_qty = 10, l_price = 3, l_commission = 1, l_multiplier = 2\<rparr> :: ledger_fill"
  let ?f2 = "\<lparr>l_contract = ''A'', l_side = SELL, l_qty = 15, l_price = 5, l_commission = 1, l_multiplier = 2\<rparr> :: ledger_fill"
  obtain out where out: "ledger_fold_fills [?f1, ?f2] = Inr out"
    by (simp add: ledger_fold_fills_def apply_fill_def new_ledger_def l_signed_def Let_def)
  then obtain led where led: "out ''A'' = Some led"
    "cl_net_qty led = -5" "cl_realized_pnl led = 38" "cl_multiplier led = 2"
    by (auto simp: ledger_fold_fills_def apply_fill_def new_ledger_def l_signed_def Let_def)
  have "\<exists>u. unrealized_pnl led (Some 4) = Some u \<and> cl_realized_pnl led + u =
      2 * sum_list (map (\<lambda>f. l_signed f * (4 - l_price f)) (filter (\<lambda>f. l_contract f = ''A'') [?f1, ?f2]))
      - sum_list (map l_commission (filter (\<lambda>f. l_contract f = ''A'') [?f1, ?f2]))"
    by (rule ledger_conserves_pnl [OF out led(1)]) (use led in auto)
  then show ?thesis using out led by (simp add: l_signed_def)
qed

text \<open>
  The ledger and the forward projection agree on the position: the net quantity of
  a contract in the ledger is the open quantity the projection folds from the same
  executions, however the fills of several contracts are interleaved.
\<close>

definition leg_fill_of :: "ledger_fill \<Rightarrow> leg_fill" where
  "leg_fill_of f = \<lparr>lf_side = l_side f, lf_qty = l_qty f, lf_price = l_price f\<rparr>"

theorem ledger_agrees_with_projection:
  assumes "ledger_fold_fills fs = Inr out" and "out c = Some led"
    and "\<And>f. f \<in> set fs \<Longrightarrow> l_side f = BUY \<or> l_side f = SELL"
  shows "cl_net_qty led = open_qty (fold_fills (map leg_fill_of (filter (\<lambda>f. l_contract f = c) fs)))"
proof -
  obtain m0 where fold: "apply_fills (new_ledger c m0) (filter (\<lambda>f. l_contract f = c) fs) = Inr led"
    by (rule ledger_entry [OF assms(1,2)])
  have "l_net gs = open_qty (fold_fills (map leg_fill_of gs))"
    if "set gs \<subseteq> set fs" for gs
    using that
  proof (induction gs)
    case Nil
    show ?case by (simp add: open_qty_fold)
  next
    case (Cons g gs)
    have "l_side g = BUY \<or> l_side g = SELL" using Cons.prems assms(3) by simp
    then have "l_signed g = signed (l_side g) (l_qty g)" by (auto simp: l_signed_def)
    with Cons show ?case by (simp add: open_qty_fold leg_fill_of_def)
  qed
  then show ?thesis
    using apply_fills_sums [OF fold] by (simp add: new_ledger_def)
qed

theorem ledger_agrees_with_projection_witness:
  "let f1 = \<lparr>l_contract = ''A'', l_side = BUY, l_qty = 10, l_price = 3, l_commission = 1, l_multiplier = 2\<rparr>;
       f2 = \<lparr>l_contract = ''B'', l_side = SELL, l_qty = 15, l_price = 5, l_commission = 1, l_multiplier = 2\<rparr>
   in \<exists>out led. ledger_fold_fills [f1, f2] = Inr out \<and> out ''A'' = Some led \<and>
        cl_net_qty led = open_qty (fold_fills [leg_fill_of f1])"
proof -
  let ?f1 = "\<lparr>l_contract = ''A'', l_side = BUY, l_qty = 10, l_price = 3, l_commission = 1, l_multiplier = 2\<rparr> :: ledger_fill"
  let ?f2 = "\<lparr>l_contract = ''B'', l_side = SELL, l_qty = 15, l_price = 5, l_commission = 1, l_multiplier = 2\<rparr> :: ledger_fill"
  obtain out where out: "ledger_fold_fills [?f1, ?f2] = Inr out"
    by (simp add: ledger_fold_fills_def apply_fill_def new_ledger_def l_signed_def Let_def)
  then obtain led where led: "out ''A'' = Some led"
    by (auto simp: ledger_fold_fills_def apply_fill_def new_ledger_def l_signed_def Let_def)
  have "cl_net_qty led = open_qty (fold_fills (map leg_fill_of (filter (\<lambda>f. l_contract f = ''A'') [?f1, ?f2])))"
    by (rule ledger_agrees_with_projection [OF out led]) auto
  then show ?thesis using out led by (simp add: Let_def)
qed

end
