(* ===== verification/Revalidation.thy ===== *)
theory Revalidation
  imports Prelude
begin

text \<open>
  The checks re-run between arming and submitting a trade
  (\<open>core/execution/revalidation.py\<close>). Field names carry the prefix \<open>rv_\<close>. The two
  surface ages the function takes and ignores are kept as arguments.
\<close>

record revalidation_input =
  rv_preview_state :: string
  rv_preview_user_action :: "string option"
  rv_preview_expires_at :: time
  rv_now :: time
  rv_armed_z :: "flt option"
  rv_current_z :: "flt option"
  rv_z_threshold_min :: flt
  rv_surface_age_seconds :: flt
  rv_max_iv_age_seconds :: flt
  rv_current_regime :: "string option"

record revalidation_result =
  rv_passed :: bool
  rv_reason :: "string option"
  rv_details :: payload

definition rv_fail :: "string \<Rightarrow> payload \<Rightarrow> revalidation_result" where
  "rv_fail r d = \<lparr>rv_passed = False, rv_reason = Some r, rv_details = d\<rparr>"

definition revalidate_preview :: "revalidation_input \<Rightarrow> revalidation_result" where
  "revalidate_preview i =
     (case rv_preview_user_action i of
        Some a \<Rightarrow> rv_fail ''preview_already_actioned'' [(''user_action'', PStr a)]
      | None \<Rightarrow>
        if rv_preview_state i \<noteq> ''valid_for_submit'' then
          rv_fail ''preview_state_not_valid'' [(''state'', PStr (rv_preview_state i))]
        else if rv_preview_expires_at i < rv_now i then
          rv_fail ''preview_expired''
            [(''expires_at'', PFlt (rv_preview_expires_at i)), (''now'', PFlt (rv_now i))]
        else
          let signal =
            (case (rv_armed_z i, rv_current_z i) of
               (Some az, Some cz) \<Rightarrow>
                 if \<bar>cz\<bar> < rv_z_threshold_min i then
                   Some (rv_fail ''signal_no_longer_actionable''
                     [(''current_z'', PFlt cz), (''threshold'', PFlt (rv_z_threshold_min i))])
                 else if (0 < az) \<noteq> (0 < cz) then
                   Some (rv_fail ''signal_flipped'' [(''armed_z'', PFlt az), (''current_z'', PFlt cz)])
                 else None
             | _ \<Rightarrow> None)
          in case signal of
               Some r \<Rightarrow> r
             | None \<Rightarrow>
               if rv_current_regime i = Some ''pre_event'' then
                 rv_fail ''regime_pre_event'' [(''regime'', PStr ''pre_event'')]
               else \<lparr>rv_passed = True, rv_reason = None, rv_details = []\<rparr>)"

text \<open>The gates as the module's documentation lists them, one predicate each.\<close>

definition signal_gate :: "revalidation_input \<Rightarrow> bool" where
  "signal_gate i =
     (case (rv_armed_z i, rv_current_z i) of
        (Some az, Some cz) \<Rightarrow> rv_z_threshold_min i \<le> \<bar>cz\<bar> \<and> ((0 < az) = (0 < cz))
      | _ \<Rightarrow> True)"

definition freshness_gate :: "revalidation_input \<Rightarrow> bool" where
  "freshness_gate i = (rv_surface_age_seconds i \<le> rv_max_iv_age_seconds i)"

section \<open>Properties\<close>

text \<open>
  Revalidation passes exactly when every gate holds: the preview is untouched, in
  state valid_for_submit, unexpired, its signal still actionable with the armed sign, and
  the regime is not pre_event. A refusal always carries a reason; a pass never does. The
  age of the surface has no influence on the outcome.
\<close>

theorem revalidation_gates:
  "(rv_passed (revalidate_preview i) \<longleftrightarrow>
      rv_preview_user_action i = None \<and> rv_preview_state i = ''valid_for_submit'' \<and>
      rv_now i \<le> rv_preview_expires_at i \<and> signal_gate i \<and>
      rv_current_regime i \<noteq> Some ''pre_event'') \<and>
   (rv_passed (revalidate_preview i) \<longleftrightarrow> rv_reason (revalidate_preview i) = None) \<and>
   revalidate_preview (i\<lparr>rv_surface_age_seconds := a, rv_max_iv_age_seconds := m\<rparr>) = revalidate_preview i"
  by (auto simp: revalidate_preview_def signal_gate_def rv_fail_def Let_def split: option.splits)

end
