(* ===== verification/Tables.thy ===== *)
theory Tables
  imports Prelude
begin

text \<open>
  Database tables. A table is the list of its rows in the order they were inserted,
  each with its primary key; \<open>db.get\<close>, \<open>select .. where\<close>, a row mutated through the
  session and \<open>db.add\<close> are \<open>tget\<close>, \<open>twhere\<close>, \<open>tupd\<close> and \<open>tins\<close>. A query without
  \<open>ORDER BY\<close> is taken in insertion order. The interface the engines rely on (what a
  lookup returns after an update or an insert) is the locale \<open>keyed_store\<close>.
\<close>

type_synonym 'r table = "(int \<times> 'r) list"

definition tget :: "'r table \<Rightarrow> int \<Rightarrow> 'r option" where
  "tget t k = map_of t k"

definition tupd :: "int \<Rightarrow> ('r \<Rightarrow> 'r) \<Rightarrow> 'r table \<Rightarrow> 'r table" where
  "tupd k f t = map (\<lambda>(i, r). (i, if i = k then f r else r)) t"

text \<open>\<open>update(model).where(P).values(..)\<close>: every row that satisfies \<open>P\<close>.\<close>

definition tupd_where :: "(int \<Rightarrow> 'r \<Rightarrow> bool) \<Rightarrow> ('r \<Rightarrow> 'r) \<Rightarrow> 'r table \<Rightarrow> 'r table" where
  "tupd_where P f t = map (\<lambda>(i, r). (i, if P i r then f r else r)) t"

text \<open>The sequence behind the primary key hands out a fresh key.\<close>

definition next_id :: "'r table \<Rightarrow> int" where
  "next_id t = foldr (\<lambda>(i, r) m. max (i + 1) m) t 1"

definition tins :: "'r \<Rightarrow> 'r table \<Rightarrow> 'r table" where
  "tins r t = t @ [(next_id t, r)]"

definition twhere :: "('r \<Rightarrow> bool) \<Rightarrow> 'r table \<Rightarrow> (int \<times> 'r) list" where
  "twhere P t = filter (\<lambda>(i, r). P r) t"

definition keys_of :: "'r table \<Rightarrow> int list" where
  "keys_of t = map fst t"

definition table_ok :: "'r table \<Rightarrow> bool" where
  "table_ok t = distinct (keys_of t)"

section \<open>The interface of a keyed store\<close>

locale keyed_store =
  fixes get :: "'s \<Rightarrow> int \<Rightarrow> 'r option"
    and upd :: "int \<Rightarrow> ('r \<Rightarrow> 'r) \<Rightarrow> 's \<Rightarrow> 's"
    and ins :: "'r \<Rightarrow> 's \<Rightarrow> 's"
    and fresh :: "'s \<Rightarrow> int"
    and ok :: "'s \<Rightarrow> bool"
  assumes get_upd: "get (upd k f s) j = (if j = k then map_option f (get s k) else get s j)"
    and get_ins: "get (ins r s) j = (if j = fresh s then Some r else get s j)"
    and get_fresh: "get s (fresh s) = None"
    and ok_upd: "ok s \<Longrightarrow> ok (upd k f s)"
    and ok_ins: "ok s \<Longrightarrow> ok (ins r s)"
begin

lemma get_upd_same [simp]: "get (upd k f s) k = map_option f (get s k)"
  by (simp add: get_upd)

lemma get_upd_other: "j \<noteq> k \<Longrightarrow> get (upd k f s) j = get s j"
  by (simp add: get_upd)

lemma get_ins_other: "get s j = Some x \<Longrightarrow> get (ins r s) j = Some x"
  using get_fresh by (auto simp: get_ins)

lemma upd_absent: "get s k = None \<Longrightarrow> get (upd k f s) = get s"
  by (auto simp: get_upd)

lemma upd_upd: "get (upd k g (upd k f s)) = get (upd k (g \<circ> f) s)"
  by (auto simp: get_upd option.map_comp)

lemma upd_commute: "j \<noteq> k \<Longrightarrow> get (upd j g (upd k f s)) = get (upd k f (upd j g s))"
  by (auto simp: get_upd)

text \<open>A pass that updates the rows of a list of keys touches no other row.\<close>

lemma get_foldl_upd_other:
  "j \<notin> set ks \<Longrightarrow> get (foldl (\<lambda>s k. upd k (f k) s) s ks) j = get s j"
  by (induction ks arbitrary: s) (auto simp: get_upd)

lemma get_foldl_upd:
  "distinct ks \<Longrightarrow> j \<in> set ks \<Longrightarrow>
     get (foldl (\<lambda>s k. upd k (f k) s) s ks) j = map_option (f j) (get s j)"
proof (induction ks arbitrary: s)
  case Nil
  then show ?case by simp
next
  case (Cons k ks)
  show ?case
  proof (cases "j = k")
    case True
    with Cons.prems show ?thesis by (simp add: get_foldl_upd_other)
  next
    case False
    with Cons show ?thesis by (simp add: get_upd)
  qed
qed

lemma ok_foldl_upd: "ok s \<Longrightarrow> ok (foldl (\<lambda>s k. upd k (f k) s) s ks)"
  by (induction ks arbitrary: s) (auto simp: ok_upd)

end

section \<open>The row list provides it\<close>

lemma map_of_tupd: "map_of (tupd k f t) j = (if j = k then map_option f (map_of t k) else map_of t j)"
  by (induction t) (auto simp: tupd_def)

lemma next_id_gt: "(i, r) \<in> set t \<Longrightarrow> i < next_id t"
  by (induction t) (fastforce simp: next_id_def)+

lemma tget_next_id: "tget t (next_id t) = None"
proof (rule ccontr)
  assume "tget t (next_id t) \<noteq> None"
  then obtain r where "(next_id t, r) \<in> set t"
    by (auto simp: tget_def dest: map_of_SomeD)
  then show False using next_id_gt by fastforce
qed

lemma keys_of_tupd [simp]: "keys_of (tupd k f t) = keys_of t"
  by (induction t) (auto simp: keys_of_def tupd_def)

lemma next_id_notin: "next_id t \<notin> set (keys_of t)"
  using next_id_gt by (fastforce simp: keys_of_def)

lemma table_ok_tupd [simp]: "table_ok (tupd k f t) = table_ok t"
  by (simp add: table_ok_def)

lemma table_ok_tins: "table_ok t \<Longrightarrow> table_ok (tins r t)"
  using next_id_notin [of t] by (simp add: table_ok_def tins_def keys_of_def)

interpretation tbl: keyed_store tget tupd tins next_id table_ok
proof
  fix k j :: int and f :: "'a \<Rightarrow> 'a" and s :: "'a table" and r :: 'a
  show "tget (tupd k f s) j = (if j = k then map_option f (tget s k) else tget s j)"
    by (simp add: tget_def map_of_tupd)
  show "tget (tins r s) j = (if j = next_id s then Some r else tget s j)"
    using tget_next_id [of s]
    by (auto simp: tget_def tins_def map_add_def split: option.splits)
  show "tget s (next_id s) = None" by (rule tget_next_id)
  show "table_ok s \<Longrightarrow> table_ok (tupd k f s)" by simp
  show "table_ok s \<Longrightarrow> table_ok (tins r s)" by (rule table_ok_tins)
qed

lemmas tget_simps [db_simps] = tbl.get_upd tbl.get_ins

section \<open>Rows and queries\<close>

lemma tget_in: "tget t k = Some r \<Longrightarrow> (k, r) \<in> set t"
  by (auto simp: tget_def dest: map_of_SomeD)

lemma in_tget: "table_ok t \<Longrightarrow> (k, r) \<in> set t \<Longrightarrow> tget t k = Some r"
  by (simp add: tget_def table_ok_def keys_of_def)

lemma in_tget_some: "(k, r) \<in> set t \<Longrightarrow> tget t k \<noteq> None"
  using weak_map_of_SomeI by (fastforce simp: tget_def)

lemma set_tupd: "set (tupd k f t) = (\<lambda>(i, r). (i, if i = k then f r else r)) ` set t"
  by (simp add: tupd_def)

lemma tupd_in_iff:
  "(i, r) \<in> set (tupd k f t) \<longleftrightarrow> (\<exists>r0. (i, r0) \<in> set t \<and> r = (if i = k then f r0 else r0))"
  by (induction t) (auto simp: tupd_def)

lemma set_tins: "set (tins r t) = insert (next_id t, r) (set t)"
  by (simp add: tins_def)

lemma twhere_in [simp]: "(i, r) \<in> set (twhere P t) \<longleftrightarrow> (i, r) \<in> set t \<and> P r"
  by (auto simp: twhere_def)

lemma twhere_tins: "twhere P (tins r t) = twhere P t @ (if P r then [(next_id t, r)] else [])"
  by (simp add: twhere_def tins_def)

lemma twhere_tupd_frame:
  assumes "\<And>r. P (f r) = P r"
  shows "twhere P (tupd k f t) = tupd k f (twhere P t)"
  using assms by (induction t) (simp_all add: twhere_def tupd_def split_beta)

lemma map_snd_tupd_frame:
  assumes "\<And>r. g (f r) = g r"
  shows "map (\<lambda>(i, r). g r) (tupd k f t) = map (\<lambda>(i, r). g r) t"
  using assms by (induction t) (simp_all add: tupd_def split_beta)

lemma tupd_absent: "k \<notin> set (keys_of t) \<Longrightarrow> tupd k f t = t"
  by (induction t) (auto simp: tupd_def keys_of_def)

lemma tupd_idem: "(\<And>r. f (f r) = f r) \<Longrightarrow> tupd k f (tupd k f t) = tupd k f t"
  by (induction t) (auto simp: tupd_def)

lemma tupd_id:
  assumes "table_ok t" "\<And>r. tget t k = Some r \<Longrightarrow> f r = r"
  shows "tupd k f t = t"
  unfolding tupd_def
proof (rule map_filter_update_id)
  fix x
  assume x: "x \<in> set t"
  obtain i r where ir: "x = (i, r)" by (cases x)
  with x have "tget t i = Some r" using in_tget [OF assms(1)] by simp
  with assms(2) ir show "(\<lambda>(i, r). (i, if i = k then f r else r)) x = x"
    by (cases "i = k") auto
qed

text \<open>A row that was just added and is then changed.\<close>

lemma tupd_tins_fresh: "tupd (next_id t) f (tins r t) = tins (f r) t"
  using tupd_absent [OF next_id_notin, of t f] by (simp add: tins_def tupd_def)

lemma tget_foldl_tupd:
  "tget (foldl (\<lambda>t k. tupd k f t) t ks) j =
     (if j \<in> set ks then map_option (f ^^ count_list ks j) (tget t j) else tget t j)"
proof (induction ks arbitrary: t)
  case (Cons k ks)
  show ?case
    by (auto simp: Cons.IH tbl.get_upd option.map_comp count_notin comp_def funpow_swap1 intro!: map_option_cong)
qed simp

end
