(* ===== verification/Order_States.thy ===== *)
theory Order_States
  imports Prelude
begin

text \<open>
  The order life cycle: \<open>core/execution/order_states.py\<close> (what an IB status does to a
  row), \<open>core/execution/reaper_policy.py\<close> (when a stale order is terminalised, what
  that means for its structure) and \<open>state_from_recorded_fills\<close> of
  \<open>core/execution/fills.py\<close> (repair of a state from the recorded fills).
\<close>

section \<open>States and the IB status table\<close>

text \<open>The values the column \<open>trade_order.state\<close> may hold.\<close>

datatype order_state =
    Pending | Submitted | Acknowledged | Partially_filled
  | Filled | Rejected | Cancelled | Expired

definition TERMINAL_STATES :: "order_state list" where
  "TERMINAL_STATES = [Filled, Cancelled, Rejected, Expired]"

definition terminal :: "order_state \<Rightarrow> bool" where
  "terminal s = (s \<in> set TERMINAL_STATES)"

datatype ib_target = T_submitted | T_filled | T_cancelled | T_inactive

definition IB_STATUS_TO_STATE :: "(string \<times> ib_target) list" where
  "IB_STATUS_TO_STATE =
    [(''PendingSubmit'', T_submitted),
     (''ApiPending'', T_submitted),
     (''PreSubmitted'', T_submitted),
     (''Submitted'', T_submitted),
     (''PendingCancel'', T_submitted),
     (''Filled'', T_filled),
     (''Cancelled'', T_cancelled),
     (''ApiCancelled'', T_cancelled),
     (''Inactive'', T_inactive)]"

text \<open>The row state a target names (\<open>inactive\<close> is no row state).\<close>

fun target_state :: "ib_target \<Rightarrow> order_state option" where
  "target_state T_submitted = Some Submitted"
| "target_state T_filled = Some Filled"
| "target_state T_cancelled = Some Cancelled"
| "target_state T_inactive = None"

datatype transition_kind = Advance | Noop | Ignored_terminal | Unknown | Held | Fill_pending

text \<open>The note of a transition, as the values its message interpolates.\<close>

datatype transition_note =
    N_unknown_status string
  | N_already_terminal
  | N_on_terminal string order_state
  | N_waiting_for_executions
  | N_inactive_error
  | N_inactive_held
  | N_cancelled_error
  | N_status string

record transition =
  new_state :: "order_state option"
  tr_kind :: transition_kind
  tr_note :: transition_note

definition mk_transition :: "order_state option \<Rightarrow> transition_kind \<Rightarrow> transition_note \<Rightarrow> transition" where
  "mk_transition s k n = \<lparr>new_state = s, tr_kind = k, tr_note = n\<rparr>"

definition next_state :: "order_state \<Rightarrow> string option \<Rightarrow> bool \<Rightarrow> transition" where
  "next_state current ib_status has_error_reason =
     (let status = py_strip (str_or ib_status) in
      case map_of IB_STATUS_TO_STATE status of
        None \<Rightarrow> mk_transition None Unknown (N_unknown_status status)
      | Some target \<Rightarrow>
          if current \<in> set TERMINAL_STATES then
            (if target_state target = Some current
             then mk_transition None Noop N_already_terminal
             else mk_transition None Ignored_terminal (N_on_terminal status current))
          else (case target of
              T_filled \<Rightarrow> mk_transition None Fill_pending N_waiting_for_executions
            | T_inactive \<Rightarrow>
                (if has_error_reason
                 then mk_transition (Some Rejected) Advance N_inactive_error
                 else mk_transition None Held N_inactive_held)
            | T_submitted \<Rightarrow>
                (if current = Pending
                 then mk_transition (Some Submitted) Advance (N_status status)
                 else mk_transition None Noop (N_status status))
            | T_cancelled \<Rightarrow>
                (if has_error_reason
                 then mk_transition (Some Rejected) Advance N_cancelled_error
                 else mk_transition (Some Cancelled) Advance (N_status status))))"

lemma transition_sel [simp]:
  "new_state (mk_transition s k n) = s"
  "tr_kind (mk_transition s k n) = k"
  "tr_note (mk_transition s k n) = n"
  by (simp_all add: mk_transition_def)

text \<open>What the status does to the row.\<close>

type_synonym status_event = "string option \<times> bool"

definition status_step :: "order_state \<Rightarrow> status_event \<Rightarrow> order_state" where
  "status_step s e =
     (case new_state (next_state s (fst e) (snd e)) of None \<Rightarrow> s | Some s' \<Rightarrow> s')"

section \<open>The reaper's policy\<close>

definition REAPABLE_STATES :: "order_state list" where
  "REAPABLE_STATES = [Submitted, Acknowledged, Partially_filled]"

definition decide_reap ::
  "order_state \<Rightarrow> flt \<Rightarrow> flt \<Rightarrow> bool \<Rightarrow> bool \<Rightarrow> order_state option" where
  "decide_reap state age_s tau_s held_at_ib matches_contract =
     (if state \<notin> set REAPABLE_STATES then None
      else if age_s \<le> tau_s then None
      else if held_at_ib \<and> matches_contract then Some Filled
      else Some Expired)"

text \<open>The values the column \<open>trade_structure.state\<close> may hold.\<close>

datatype structure_state =
    S_submitted | S_partial_fill | S_fully_filled | S_partial_fail | S_fully_failed | S_closed

definition plan_structure_terminal_state :: "order_state list \<Rightarrow> structure_state option" where
  "plan_structure_terminal_state order_states =
     (if order_states = [] \<or> (\<exists>s \<in> set order_states. s \<notin> set TERMINAL_STATES) then None
      else
        let filled = length (filter (\<lambda>s. s = Filled) order_states) in
        if filled = length order_states then Some S_fully_filled
        else if filled = 0 then Some S_fully_failed else Some S_partial_fail)"

section \<open>Repair from the recorded fills\<close>

definition state_from_recorded_fills :: "int \<Rightarrow> int \<Rightarrow> order_state \<Rightarrow> order_state option" where
  "state_from_recorded_fills recorded_filled target_qty current_state =
     (if recorded_filled \<le> 0 then None
      else if target_qty \<le> recorded_filled \<and> current_state \<noteq> Filled then Some Filled
      else if current_state = Submitted then Some Partially_filled
      else None)"

section \<open>The interface: a machine with absorbing states\<close>

text \<open>
  Every component that moves an order's state promises not to leave an absorbing
  state. A machine with a rank also promises that each change makes progress.
\<close>

locale absorbing_fsm =
  fixes step :: "'s \<Rightarrow> 'e \<Rightarrow> 's" and absorbed :: "'s \<Rightarrow> bool"
  assumes absorbing: "absorbed s \<Longrightarrow> step s e = s"
begin

lemma run_absorbed: "absorbed s \<Longrightarrow> foldl step s es = s"
  by (induction es) (simp_all add: absorbing)

lemma run_prefix_decides:
  "absorbed (foldl step s es) \<Longrightarrow> foldl step s (es @ fs) = foldl step s es"
  by (simp add: run_absorbed)

text \<open>Two extensions of a run that was already absorbed agree.\<close>

lemma run_agree:
  "absorbed (foldl step s es) \<Longrightarrow> foldl step s (es @ fs) = foldl step s (es @ gs)"
  by (simp add: run_absorbed)

end

locale ranked_fsm = absorbing_fsm step absorbed
  for step :: "'s \<Rightarrow> 'e \<Rightarrow> 's" and absorbed :: "'s \<Rightarrow> bool" +
  fixes rank :: "'s \<Rightarrow> nat"
  assumes progress: "step s e \<noteq> s \<Longrightarrow> rank s < rank (step s e)"
begin

lemma rank_step: "rank s \<le> rank (step s e)"
  using progress [of s e] by (cases "step s e = s") auto

lemma rank_run: "rank s \<le> rank (foldl step s es)"
proof (induction es arbitrary: s)
  case Nil
  show ?case by simp
next
  case (Cons e es)
  have "rank s \<le> rank (step s e)" by (rule rank_step)
  also have "\<dots> \<le> rank (foldl step (step s e) es)" by (rule Cons.IH)
  finally show ?case by simp
qed

text \<open>A run that comes back to its start never left it.\<close>

lemma no_cycle: "foldl step s (es @ fs) = s \<Longrightarrow> foldl step s es = s"
proof (induction es arbitrary: s)
  case Nil
  then show ?case by simp
next
  case (Cons e es)
  let ?t = "step s e"
  have "rank ?t \<le> rank (foldl step ?t (es @ fs))" by (rule rank_run)
  with Cons.prems have "rank ?t \<le> rank s" by simp
  then have "?t = s" using progress [of s e] by fastforce
  with Cons.prems Cons.IH show ?case by simp
qed

end

section \<open>The status machine\<close>

lemma terminal_simps [simp, fsm_simps]:
  "\<not> terminal Pending" "\<not> terminal Submitted" "\<not> terminal Acknowledged"
  "\<not> terminal Partially_filled" "terminal Filled" "terminal Rejected"
  "terminal Cancelled" "terminal Expired"
  by (simp_all add: terminal_def TERMINAL_STATES_def)

lemma in_TERMINAL_STATES [simp]: "s \<in> set TERMINAL_STATES \<longleftrightarrow> terminal s"
  by (simp add: terminal_def)

definition order_rank :: "order_state \<Rightarrow> nat" where
  "order_rank s = (case s of Pending \<Rightarrow> 0 | Submitted \<Rightarrow> 1 | Acknowledged \<Rightarrow> 1
     | Partially_filled \<Rightarrow> 2 | _ \<Rightarrow> 3)"

lemma next_state_cases:
  obtains (unknown) "map_of IB_STATUS_TO_STATE (py_strip (str_or st)) = None"
    "next_state s st e = mk_transition None Unknown (N_unknown_status (py_strip (str_or st)))"
  | (known) t where "map_of IB_STATUS_TO_STATE (py_strip (str_or st)) = Some t"
  by (cases "map_of IB_STATUS_TO_STATE (py_strip (str_or st))")
     (auto simp: next_state_def Let_def)

lemma next_state_new_state:
  "new_state (next_state s st e) = Some s' \<Longrightarrow>
     \<not> terminal s \<and> s' \<in> {Submitted, Rejected, Cancelled} \<and> (s' = Submitted \<longrightarrow> s = Pending)"
  by (auto simp: next_state_def Let_def split: option.splits if_splits ib_target.splits)

lemma status_step_changes:
  "status_step s e \<noteq> s \<Longrightarrow>
     \<not> terminal s \<and> ((s = Pending \<and> status_step s e = Submitted) \<or> status_step s e \<in> {Rejected, Cancelled})"
  unfolding status_step_def
  by (auto split: option.splits dest!: next_state_new_state)

interpretation ib: ranked_fsm status_step terminal order_rank
proof
  fix s e
  show "terminal s \<Longrightarrow> status_step s e = s"
    using status_step_changes by blast
  show "status_step s e \<noteq> s \<Longrightarrow> order_rank s < order_rank (status_step s e)"
    by (drule status_step_changes) (cases s; auto simp: order_rank_def)
qed

lemma run_not_filled: "s \<noteq> Filled \<Longrightarrow> foldl status_step s es \<noteq> Filled"
proof (induction es arbitrary: s)
  case Nil
  then show ?case by simp
next
  case (Cons e es)
  have "status_step s e \<noteq> Filled"
    using Cons.prems status_step_changes [of s e] by auto
  with Cons.IH show ?case by simp
qed

section \<open>The reaper's machine\<close>

type_synonym reap_event = "flt \<times> flt \<times> bool \<times> bool"

definition reap_step :: "order_state \<Rightarrow> reap_event \<Rightarrow> order_state" where
  "reap_step s e =
     (case e of (age, tau, held, same) \<Rightarrow>
        (case decide_reap s age tau held same of None \<Rightarrow> s | Some s' \<Rightarrow> s'))"

lemma decide_reap_Some:
  "decide_reap s a t h m = Some s' \<Longrightarrow>
     s \<in> {Submitted, Acknowledged, Partially_filled} \<and> t < a \<and>
     s' = (if h \<and> m then Filled else Expired)"
  by (auto simp: decide_reap_def REAPABLE_STATES_def split: if_splits)

lemma reap_step_changes:
  "reap_step s e \<noteq> s \<Longrightarrow> s \<in> {Submitted, Acknowledged, Partially_filled} \<and> reap_step s e \<in> {Filled, Expired}"
proof -
  assume ch: "reap_step s e \<noteq> s"
  obtain a t h m where e: "e = (a, t, h, m)" by (cases e)
  from ch e obtain s' where d: "decide_reap s a t h m = Some s'"
    by (auto simp: reap_step_def split: option.splits)
  with e have "reap_step s e = s'" by (simp add: reap_step_def)
  with decide_reap_Some [OF d] show ?thesis by auto
qed

interpretation reaper: ranked_fsm reap_step terminal order_rank
proof
  fix s e
  show "terminal s \<Longrightarrow> reap_step s e = s"
    using reap_step_changes [of s e] by (cases s) auto
  show "reap_step s e \<noteq> s \<Longrightarrow> order_rank s < order_rank (reap_step s e)"
    by (drule reap_step_changes) (auto simp: order_rank_def)
qed

lemma state_from_recorded_fills_Some:
  "state_from_recorded_fills r q s = Some s' \<Longrightarrow>
     0 < r \<and> (s' = Filled \<and> q \<le> r \<or> s' = Partially_filled \<and> s = Submitted)"
  by (auto simp: state_from_recorded_fills_def split: if_splits)

lemma count_filled_all:
  "(length (filter (\<lambda>s. s = Filled) ss) = length ss) = (\<forall>s \<in> set ss. s = Filled)"
  by (induction ss) (auto simp: le_imp_less_Suc less_imp_neq)

lemma count_filled_none:
  "(length (filter (\<lambda>s. s = Filled) ss) = 0) = (\<forall>s \<in> set ss. s \<noteq> Filled)"
  by (induction ss) auto

end
