(* ===== verification/Reconciliation.thy ===== *)
theory Reconciliation
  imports Prelude "HOL-Library.Char_ord" "HOL-Library.List_Lexorder"
begin

text \<open>
  Book against broker (\<open>core/execution/reconciliation.py\<close>): the classification of a
  difference and the list of open breaks. The two dictionaries are association lists
  with distinct keys; symbols are ordered as Python orders strings.
\<close>

definition BREAK_EPS :: flt where
  "BREAK_EPS = 1 / 10000"

datatype break_type = Missing_at_ib | Unbooked_at_ib | Direction | Quantity

record book_break =
  br_contract :: symbol
  br_book_qty :: flt
  br_broker_qty :: flt
  br_diff :: flt
  br_type :: break_type

definition classify_break :: "flt \<Rightarrow> flt \<Rightarrow> break_type option" where
  "classify_break book_qty broker_qty =
     (let book = py_round 4 book_qty; broker = py_round 4 broker_qty in
      if \<bar>py_round 4 (book - broker)\<bar> \<le> BREAK_EPS then None
      else if broker = 0 then Some Missing_at_ib
      else if book = 0 then Some Unbooked_at_ib
      else if (0 < book) \<noteq> (0 < broker) then Some Direction
      else Some Quantity)"

type_synonym qty_map = "(symbol \<times> flt) list"

definition get_qty :: "qty_map \<Rightarrow> symbol \<Rightarrow> flt" where
  "get_qty m sy = (case map_of m sy of None \<Rightarrow> 0 | Some q \<Rightarrow> q)"

definition break_of :: "qty_map \<Rightarrow> qty_map \<Rightarrow> symbol \<Rightarrow> book_break option" where
  "break_of book broker sy =
     (let b = py_round 4 (get_qty book sy); k = py_round 4 (get_qty broker sy) in
      map_option (\<lambda>t. \<lparr>br_contract = sy, br_book_qty = b, br_broker_qty = k,
                       br_diff = py_round 4 (b - k), br_type = t\<rparr>)
        (classify_break b k))"

definition compute_breaks :: "qty_map \<Rightarrow> qty_map \<Rightarrow> book_break list" where
  "compute_breaks book broker =
     List.map_filter (break_of book broker) (sort (remdups (map fst book @ map fst broker)))"

section \<open>Facts\<close>

definition mirror_type :: "break_type \<Rightarrow> break_type" where
  "mirror_type t = (case t of Missing_at_ib \<Rightarrow> Unbooked_at_ib | Unbooked_at_ib \<Rightarrow> Missing_at_ib
     | Direction \<Rightarrow> Direction | Quantity \<Rightarrow> Quantity)"

lemma classify_break_None_iff:
  "classify_break b k = None \<longleftrightarrow> \<bar>py_round 4 (py_round 4 b - py_round 4 k)\<bar> \<le> BREAK_EPS"
  by (simp add: classify_break_def Let_def)

lemma classify_break_same: "classify_break q q = None"
  by (simp add: classify_break_None_iff BREAK_EPS_def)

lemma py_round4_diff: "py_round 4 (py_round 4 a - py_round 4 b) = py_round 4 a - py_round 4 b"
proof -
  obtain i j where "py_round 4 a = of_int i / 10 ^ 4" "py_round 4 b = of_int j / 10 ^ 4"
    using py_round_grid by meson
  then have "py_round 4 a - py_round 4 b = of_int (i - j) / 10 ^ 4"
    by (simp add: diff_divide_distrib)
  then show ?thesis by (simp add: py_round_def del: of_int_diff)
qed

lemma classify_break_exact:
  "classify_break b k =
     (if \<bar>py_round 4 b - py_round 4 k\<bar> \<le> BREAK_EPS then None
      else if py_round 4 k = 0 then Some Missing_at_ib
      else if py_round 4 b = 0 then Some Unbooked_at_ib
      else if (0 < py_round 4 b) \<noteq> (0 < py_round 4 k) then Some Direction else Some Quantity)"
  by (simp add: classify_break_def Let_def py_round4_diff)

lemma set_compute_breaks:
  "br \<in> set (compute_breaks book broker) \<longleftrightarrow>
     (\<exists>sy. sy \<in> set (map fst book) \<union> set (map fst broker) \<and> break_of book broker sy = Some br)"
proof -
  have "br \<in> set (List.map_filter f ss) \<longleftrightarrow> (\<exists>sy \<in> set ss. f sy = Some br)" for f and ss :: "symbol list"
    by (induction ss) (auto simp: List.map_filter_simps split: option.splits)
  then show ?thesis by (auto simp: compute_breaks_def)
qed

lemma break_of_contract: "break_of book broker sy = Some br \<Longrightarrow> br_contract br = sy"
  by (auto simp: break_of_def Let_def)

lemma contracts_compute_breaks:
  "map br_contract (compute_breaks book broker) =
     filter (\<lambda>s. break_of book broker s \<noteq> None) (sort (remdups (map fst book @ map fst broker)))"
proof -
  have "map br_contract (List.map_filter (break_of book broker) ss) =
      filter (\<lambda>s. break_of book broker s \<noteq> None) ss" for ss
    by (induction ss) (auto simp: List.map_filter_simps dest: break_of_contract)
  then show ?thesis by (simp add: compute_breaks_def)
qed

lemma break_of_iff:
  "break_of book broker sy \<noteq> None \<longleftrightarrow>
     BREAK_EPS < \<bar>py_round 4 (get_qty book sy) - py_round 4 (get_qty broker sy)\<bar>"
  by (simp add: break_of_def Let_def classify_break_exact)

lemma break_of_absent:
  assumes "sy \<notin> set (map fst book) \<union> set (map fst broker)"
  shows "break_of book broker sy = None"
proof -
  have "get_qty book sy = 0" "get_qty broker sy = 0"
    using assms by (simp_all add: get_qty_def map_of_eq_None_iff [THEN iffD2])
  then show ?thesis by (simp add: break_of_def Let_def classify_break_same)
qed

lemma breaks_contracts:
  "sy \<in> br_contract ` set (compute_breaks book broker) \<longleftrightarrow>
     BREAK_EPS < \<bar>py_round 4 (get_qty book sy) - py_round 4 (get_qty broker sy)\<bar>"
proof -
  have "sy \<in> br_contract ` set (compute_breaks book broker) \<longleftrightarrow>
      sy \<in> set (map br_contract (compute_breaks book broker))" by simp
  also have "\<dots> \<longleftrightarrow> sy \<in> set (map fst book) \<union> set (map fst broker) \<and> break_of book broker sy \<noteq> None"
    unfolding contracts_compute_breaks by auto
  also have "\<dots> \<longleftrightarrow> break_of book broker sy \<noteq> None" 
    by (cases "sy \<in> set (map fst book) \<union> set (map fst broker)") (simp_all add: break_of_absent)
  finally show ?thesis unfolding break_of_iff .
qed

lemma breaks_sorted: "sorted_wrt (<) (map br_contract (compute_breaks book broker))"
  unfolding contracts_compute_breaks strict_sorted_iff
  by (intro conjI sorted_wrt_filter distinct_filter) simp_all

lemma breaks_distinct: "distinct (map br_contract (compute_breaks book broker))"
  using breaks_sorted [of book broker] by (simp add: strict_sorted_iff)

section \<open>Properties\<close>

text \<open>
  Reconciliation is complete and silent exactly on agreement: the list has one break
  per contract, in strictly increasing contract order, and a contract has a break if and
  only if its two quantities, rounded to four decimals, differ by more than the tolerance.
\<close>

theorem compute_breaks_complete:
  "sorted_wrt (<) (map br_contract (compute_breaks book broker)) \<and>
   (\<forall>sy. sy \<in> br_contract ` set (compute_breaks book broker) \<longleftrightarrow>
      BREAK_EPS < \<bar>py_round 4 (get_qty book sy) - py_round 4 (get_qty broker sy)\<bar>)"
  using breaks_sorted breaks_contracts by blast

text \<open>
  The classification is symmetric: exchanging book and broker turns "missing at the
  broker" into "unbooked", keeps a direction or quantity break, and keeps agreement.
\<close>

theorem classify_break_symmetric:
  "classify_break k b = map_option mirror_type (classify_break b k)"
proof -
  have "\<bar>py_round 4 k - py_round 4 b\<bar> = \<bar>py_round 4 b - py_round 4 k\<bar>" by (rule abs_minus_commute)
  then show ?thesis
    unfolding classify_break_exact mirror_type_def by (auto simp: BREAK_EPS_def)
qed

end
