(* ===== verification/Exec_DB.thy ===== *)
theory Exec_DB
  imports Tables Order_States Fills Projection Reconciliation
begin

text \<open>
  The database the execution engine works on (\<open>persistence/models.py\<close>): one record per
  table with the columns the modelled operations read or write, and the record \<open>db\<close>
  of all tables. Columns carry a prefix per table. A handler is a function on \<open>db\<close>;
  a session that raises before its commit leaves \<open>db\<close> as it was. The human-readable
  \<open>description\<close> of a trade event is left out, its discriminator, severity, references and
  payload are kept.
\<close>

section \<open>Dates\<close>

datatype date = Date (d_year: nat) (d_month: nat) (d_day: nat)

definition leap_year :: "nat \<Rightarrow> bool" where
  "leap_year y = (y mod 4 = 0 \<and> (y mod 100 \<noteq> 0 \<or> y mod 400 = 0))"

definition days_in_month :: "nat \<Rightarrow> nat \<Rightarrow> nat" where
  "days_in_month y m = (if m = 2 then (if leap_year y then 29 else 28) else if m \<in> {4, 6, 9, 11} then 30 else 31)"

definition valid_date :: "nat \<Rightarrow> nat \<Rightarrow> nat \<Rightarrow> bool" where
  "valid_date y m dd = (1 \<le> y \<and> 1 \<le> m \<and> m \<le> 12 \<and> 1 \<le> dd \<and> dd \<le> days_in_month y m)"

text \<open>\<open>date.toordinal\<close>.\<close>

definition ordinal :: "date \<Rightarrow> int" where
  "ordinal e =
     (let y = d_year e - 1
      in int (365 * y + y div 4 - y div 100 + y div 400
              + sum_list (map (days_in_month (d_year e)) [1..<d_month e]) + d_day e))"

section \<open>trade\_order\<close>

datatype order_role = Entry | Closing | Unwind | Hedge

record order_row =
  o_structure_id :: int
  o_leg_idx :: int
  o_order_role :: order_role
  o_ib_order_id :: "string option"
  o_ib_perm_id :: "string option"
  o_ib_local_symbol :: "string option"
  o_contract_symbol :: string
  o_contract_type :: string
  o_contract_expiry :: "date option"
  o_contract_strike :: "flt option"
  o_contract_exchange :: string
  o_contract_currency :: string
  o_side :: string
  o_qty :: int
  o_order_type :: string
  o_limit_price :: "flt option"
  o_preview_iv_pct :: "flt option"
  o_preview_price :: "flt option"
  o_state :: order_state
  o_state_updated_at :: time
  o_submitted_at :: "time option"
  o_submit_claimed_at :: "time option"
  o_acknowledged_at :: "time option"
  o_rejected_at :: "time option"
  o_rejection_text :: "string option"
  o_qty_filled :: int
  o_avg_fill_price :: "flt option"
  o_total_commission_usd :: "flt option"
  o_fully_filled_at :: "time option"
  o_slippage_per_contract :: "flt option"
  o_total_slippage_usd :: "flt option"
  o_trace_id :: "string option"
  o_closes_order_id :: "int option"

text \<open>A row with the column defaults; the arguments are the columns without one.\<close>

definition new_order_row ::
  "time \<Rightarrow> int \<Rightarrow> int \<Rightarrow> order_role \<Rightarrow> string \<Rightarrow> string \<Rightarrow> int \<Rightarrow> order_state \<Rightarrow> order_row" where
  "new_order_row now sid leg_idx role contract_type side qty state =
     \<lparr>o_structure_id = sid, o_leg_idx = leg_idx, o_order_role = role, o_ib_order_id = None,
      o_ib_perm_id = None, o_ib_local_symbol = None, o_contract_symbol = ''EUR'',
      o_contract_type = contract_type, o_contract_expiry = None, o_contract_strike = None,
      o_contract_exchange = ''CME'', o_contract_currency = ''USD'', o_side = side, o_qty = qty,
      o_order_type = ''LMT'', o_limit_price = None, o_preview_iv_pct = None, o_preview_price = None, o_state = state,
      o_state_updated_at = now, o_submitted_at = None, o_submit_claimed_at = None,
      o_acknowledged_at = None, o_rejected_at = None, o_rejection_text = None, o_qty_filled = 0,
      o_avg_fill_price = None, o_total_commission_usd = Some 0, o_fully_filled_at = None,
      o_slippage_per_contract = None, o_total_slippage_usd = None, o_trace_id = None,
      o_closes_order_id = None\<rparr>"

lemma new_order_row_sel [simp]:
  "o_structure_id (new_order_row now sid i role ct side q st) = sid"
  "o_order_role (new_order_row now sid i role ct side q st) = role"
  "o_side (new_order_row now sid i role ct side q st) = side"
  "o_qty (new_order_row now sid i role ct side q st) = q"
  "o_state (new_order_row now sid i role ct side q st) = st"
  "o_qty_filled (new_order_row now sid i role ct side q st) = 0"
  "o_ib_order_id (new_order_row now sid i role ct side q st) = None"
  "o_ib_perm_id (new_order_row now sid i role ct side q st) = None"
  "o_submitted_at (new_order_row now sid i role ct side q st) = None"
  "o_closes_order_id (new_order_row now sid i role ct side q st) = None"
  "o_leg_idx (new_order_row now sid i role ct side q st) = i"
  "o_contract_type (new_order_row now sid i role ct side q st) = ct"
  "o_contract_symbol (new_order_row now sid i role ct side q st) = ''EUR''"
  "o_contract_exchange (new_order_row now sid i role ct side q st) = ''CME''"
  "o_contract_currency (new_order_row now sid i role ct side q st) = ''USD''"
  "o_order_type (new_order_row now sid i role ct side q st) = ''LMT''"
  "o_submit_claimed_at (new_order_row now sid i role ct side q st) = None"
  "o_preview_price (new_order_row now sid i role ct side q st) = None"
  "o_preview_iv_pct (new_order_row now sid i role ct side q st) = None"
  "o_limit_price (new_order_row now sid i role ct side q st) = None"
  "o_contract_strike (new_order_row now sid i role ct side q st) = None"
  "o_contract_expiry (new_order_row now sid i role ct side q st) = None"
  by (simp_all add: new_order_row_def)

section \<open>trade\_fill, leg\_position\<close>

record fill_row =
  f_order_id :: int
  f_ib_execution_id :: string
  f_timestamp :: time
  f_qty_filled :: int
  f_fill_price :: flt
  f_commission_usd :: flt
  f_currency :: "string option"
  f_exchange :: "string option"
  f_side :: string
  f_trace_id :: "string option"

record leg_row =
  lp_order_id :: int
  lp_open_qty :: flt
  lp_reserved_qty :: flt
  lp_avg_price :: "flt option"
  lp_realized_pnl_usd :: flt
  lp_rebuilt_at :: time

section \<open>trade\_structure, booked\_position\<close>

record structure_row =
  s_structure_type :: string
  s_state :: structure_state
  s_state_updated_at :: time
  s_total_premium_paid_usd :: "flt option"
  s_total_slippage_usd :: "flt option"
  s_total_commission_usd :: "flt option"
  s_total_entry_cost_usd :: "flt option"
  s_first_fill_at :: "time option"
  s_fully_filled_at :: "time option"
  s_submit_claimed_at :: "time option"
  s_rollback_started_at :: "time option"
  s_package_id :: "int option"
  s_product_label :: "string option"
  s_reference_tenor :: string
  s_expiry_date :: "date option"
  s_base_qty :: int
  s_execution_mode :: string
  s_triggering_pc :: "int option"
  s_armed_z_score :: "flt option"
  s_armed_signal_label :: "string option"
  s_preview_id :: "string option"
  s_pca_signal_id :: "int option"

text \<open>A row with the column defaults; the arguments are the columns without one.\<close>

definition new_structure_row :: "time \<Rightarrow> string \<Rightarrow> string \<Rightarrow> int \<Rightarrow> structure_state \<Rightarrow> structure_row" where
  "new_structure_row now ty tenor base_qty state =
     \<lparr>s_structure_type = ty, s_state = state, s_state_updated_at = now, s_total_premium_paid_usd = None,
      s_total_slippage_usd = None, s_total_commission_usd = None, s_total_entry_cost_usd = None,
      s_first_fill_at = None, s_fully_filled_at = None, s_submit_claimed_at = None,
      s_rollback_started_at = None, s_package_id = None, s_product_label = None, s_reference_tenor = tenor,
      s_expiry_date = None, s_base_qty = base_qty, s_execution_mode = ''mock'', s_triggering_pc = None,
      s_armed_z_score = None, s_armed_signal_label = None, s_preview_id = None, s_pca_signal_id = None\<rparr>"

datatype position_state = P_open | P_closing | P_closed | P_expired

record position_row =
  b_structure_id :: int
  b_opened_at :: time
  b_entry_premium_usd :: flt
  b_entry_total_cost_usd :: flt
  b_state :: position_state
  b_entry_vega_usd_per_volpt :: "flt option"
  b_entry_gamma_usd_per_pip2 :: "flt option"
  b_entry_theta_usd_per_day :: "flt option"
  b_closed_at :: "time option"
  b_close_reason :: "string option"
  b_exit_premium_usd :: "flt option"
  b_exit_total_cost_usd :: "flt option"
  b_gross_pnl_usd :: "flt option"
  b_net_pnl_usd :: "flt option"
  b_ib_reconciled_at :: "time option"
  b_ib_qty_total :: "int option"
  b_ib_qty_diff :: "int option"
  b_state_updated_at :: time
  b_entry_spot :: "flt option"
  b_entry_iv_avg :: "flt option"

section \<open>open\_position (the broker mirror), reconciliation\_break\<close>

record open_position_row =
  op_structure :: symbol
  op_trade_id :: "int option"
  op_side :: string
  op_quantity :: "flt option"
  op_market_price :: "flt option"
  op_product_label :: "string option"
  op_contract_id :: "int option"
  op_package_id :: "int option"
  op_tenor :: "string option"
  op_expiry :: "date option"
  op_nominal_eur :: "flt option"
  op_contract_price_entry :: "flt option"
  op_entry_timestamp :: time

record break_row =
  rk_local_symbol :: symbol
  rk_book_qty :: flt
  rk_broker_qty :: flt
  rk_diff :: flt
  rk_break_type :: break_type
  rk_detected_at :: time
  rk_last_seen_at :: time
  rk_resolved_at :: "time option"

section \<open>exit\_alert, hedge\_order, trade\_event, config\_scalar, book\_state\_snapshots\<close>

datatype alert_status = A_in_progress | A_done | A_failed | A_overridden

record alert_row =
  ea_position_id :: int
  ea_rule_triggered :: "string option"
  ea_execution_status :: "alert_status option"
  ea_closing_structure_id :: "int option"
  ea_timestamp :: time
  ea_action_recommended :: string
  ea_priority :: int
  ea_rule_detail :: payload
  ea_auto_executed :: bool

datatype hedge_state = H_pending | H_submitted | H_filled | H_failed

record hedge_row =
  h_position_id :: int
  h_triggered_at :: time
  h_submitted_at :: "time option"
  h_submit_claimed_at :: "time option"
  h_filled_at :: "time option"
  h_delta_imbalance_at_trigger :: flt
  h_rebalance_threshold_used :: flt
  h_hedge_qty :: int
  h_side :: string
  h_ib_order_id :: "string option"
  h_fill_price :: "flt option"
  h_commission_usd :: "flt option"
  h_spread_paid_usd :: "flt option"
  h_total_cost_usd :: "flt option"
  h_state :: hedge_state

datatype severity = Sev_debug | Sev_info | Sev_warning | Sev_error | Sev_critical

record event_row =
  ev_event_type :: string
  ev_severity :: severity
  ev_structure_id :: "int option"
  ev_order_id :: "int option"
  ev_position_id :: "int option"
  ev_payload :: payload

record scalar_row =
  c_namespace :: string
  c_name :: string
  c_value :: flt
  c_is_active :: bool

record snapshot_row =
  bs_symbol :: string
  bs_timestamp :: time
  bs_total_vega_usd :: flt
  bs_total_gamma_usd :: flt
  bs_total_theta_usd :: flt
  bs_total_delta :: flt
  bs_n_open_structures :: nat
  bs_n_open_legs :: nat
  bs_notional_engaged_usd :: flt
  bs_capital_total_usd :: "flt option"
  bs_margin_used_usd :: "flt option"
  bs_is_current :: bool

section \<open>The store\<close>

record db =
  t_orders :: "order_row table"
  t_fills :: "fill_row table"
  t_legs :: "leg_row table"
  t_structures :: "structure_row table"
  t_positions :: "position_row table"
  t_open_positions :: "open_position_row table"
  t_breaks :: "break_row table"
  t_alerts :: "alert_row table"
  t_hedges :: "hedge_row table"
  t_events :: "event_row table"
  t_scalars :: "scalar_row table"
  t_snapshots :: "snapshot_row table"

definition empty_db :: db where
  "empty_db = \<lparr>t_orders = [], t_fills = [], t_legs = [], t_structures = [], t_positions = [],
     t_open_positions = [], t_breaks = [], t_alerts = [], t_hedges = [], t_events = [],
     t_scalars = [], t_snapshots = []\<rparr>"

text \<open>An event on the channel \<open>orders:<structure_id>\<close>, after the commit.\<close>

type_synonym published = "int \<times> payload"

definition upd_order :: "int \<Rightarrow> (order_row \<Rightarrow> order_row) \<Rightarrow> db \<Rightarrow> db" where
  "upd_order k f d = d\<lparr>t_orders := tupd k f (t_orders d)\<rparr>"

definition upd_structure :: "int \<Rightarrow> (structure_row \<Rightarrow> structure_row) \<Rightarrow> db \<Rightarrow> db" where
  "upd_structure k f d = d\<lparr>t_structures := tupd k f (t_structures d)\<rparr>"

definition add_event :: "event_row \<Rightarrow> db \<Rightarrow> db" where
  "add_event e d = d\<lparr>t_events := tins e (t_events d)\<rparr>"

text \<open>\<open>_audit\<close> of the fills handler.\<close>

definition audit :: "int \<Rightarrow> order_row \<Rightarrow> string \<Rightarrow> severity \<Rightarrow> payload \<Rightarrow> db \<Rightarrow> db" where
  "audit oid row event_type sev pl d =
     add_event \<lparr>ev_event_type = event_type, ev_severity = sev, ev_structure_id = Some (o_structure_id row),
       ev_order_id = Some oid, ev_position_id = None, ev_payload = pl\<rparr> d"

lemma upd_order_simps [simp, db_simps]:
  "t_orders (upd_order k f d) = tupd k f (t_orders d)" "t_fills (upd_order k f d) = t_fills d"
  "t_legs (upd_order k f d) = t_legs d" "t_structures (upd_order k f d) = t_structures d"
  "t_positions (upd_order k f d) = t_positions d" "t_events (upd_order k f d) = t_events d"
  "t_open_positions (upd_order k f d) = t_open_positions d" "t_breaks (upd_order k f d) = t_breaks d"
  "t_alerts (upd_order k f d) = t_alerts d" "t_hedges (upd_order k f d) = t_hedges d"
  "t_scalars (upd_order k f d) = t_scalars d" "t_snapshots (upd_order k f d) = t_snapshots d"
  by (simp_all add: upd_order_def)

lemma upd_structure_simps [simp, db_simps]:
  "t_orders (upd_structure k f d) = t_orders d" "t_fills (upd_structure k f d) = t_fills d"
  "t_legs (upd_structure k f d) = t_legs d" "t_structures (upd_structure k f d) = tupd k f (t_structures d)"
  "t_positions (upd_structure k f d) = t_positions d" "t_events (upd_structure k f d) = t_events d"
  "t_open_positions (upd_structure k f d) = t_open_positions d" "t_breaks (upd_structure k f d) = t_breaks d"
  "t_alerts (upd_structure k f d) = t_alerts d" "t_hedges (upd_structure k f d) = t_hedges d"
  "t_scalars (upd_structure k f d) = t_scalars d" "t_snapshots (upd_structure k f d) = t_snapshots d"
  by (simp_all add: upd_structure_def)

lemma add_event_simps [simp, db_simps]:
  "t_orders (add_event e d) = t_orders d" "t_fills (add_event e d) = t_fills d"
  "t_legs (add_event e d) = t_legs d" "t_structures (add_event e d) = t_structures d"
  "t_positions (add_event e d) = t_positions d" "t_events (add_event e d) = tins e (t_events d)"
  "t_open_positions (add_event e d) = t_open_positions d" "t_breaks (add_event e d) = t_breaks d"
  "t_alerts (add_event e d) = t_alerts d" "t_hedges (add_event e d) = t_hedges d"
  "t_scalars (add_event e d) = t_scalars d" "t_snapshots (add_event e d) = t_snapshots d"
  by (simp_all add: add_event_def)

lemma audit_simps [simp, db_simps]:
  "t_orders (audit i r e v p d) = t_orders d" "t_fills (audit i r e v p d) = t_fills d"
  "t_legs (audit i r e v p d) = t_legs d" "t_structures (audit i r e v p d) = t_structures d"
  "t_positions (audit i r e v p d) = t_positions d"
  "t_open_positions (audit i r e v p d) = t_open_positions d" "t_breaks (audit i r e v p d) = t_breaks d"
  "t_alerts (audit i r e v p d) = t_alerts d" "t_hedges (audit i r e v p d) = t_hedges d"
  "t_scalars (audit i r e v p d) = t_scalars d" "t_snapshots (audit i r e v p d) = t_snapshots d"
  by (simp_all add: audit_def)

end
