(* ===== verification/Reservation.thy ===== *)
theory Reservation
  imports Prelude
begin

text \<open>
  Admission of closing orders (\<open>core/execution/reservation.py\<close>): the quantity being
  closed is reserved on the leg, and a request beyond the headroom is refused.
\<close>

definition available :: "flt \<Rightarrow> flt \<Rightarrow> flt" where
  "available oq rq = \<bar>oq\<bar> - rq"

definition RESERVE_SLACK :: flt where
  "RESERVE_SLACK = 1 / 10 ^ 9"

definition try_reserve :: "flt \<Rightarrow> flt \<Rightarrow> flt \<Rightarrow> flt result" where
  "try_reserve oq rq requested =
     (if requested < 0 then Inl (ValueError ''requested must be >= 0'')
      else if available oq rq + RESERVE_SLACK < requested then Inl OverReserveError
      else Inr (rq + requested))"

text \<open>Requests in the order they arrive; a refused one leaves the ledger as it was.\<close>

fun reserve_all :: "flt \<Rightarrow> flt \<Rightarrow> flt list \<Rightarrow> flt \<times> flt list" where
  "reserve_all oq rq [] = (rq, [])"
| "reserve_all oq rq (q # qs) =
     (case try_reserve oq rq q of
        Inl e \<Rightarrow> reserve_all oq rq qs
      | Inr rq' \<Rightarrow> (case reserve_all oq rq' qs of (r, granted) \<Rightarrow> (r, q # granted)))"

section \<open>The interface: bounded admission\<close>

locale admission =
  fixes headroom :: "'s \<Rightarrow> flt" and admit :: "'s \<Rightarrow> flt \<Rightarrow> 's result" and slack :: flt
  assumes admit_uses: "admit s q = Inr s' \<Longrightarrow> headroom s' = headroom s - q"
    and admit_guard: "admit s q = Inr s' \<Longrightarrow> 0 \<le> q \<and> q \<le> headroom s + slack"
    and slack_nonneg: "0 \<le> slack"
begin

lemma admit_keeps_headroom: "admit s q = Inr s' \<Longrightarrow> - slack \<le> headroom s'"
  using admit_uses [of s q s'] admit_guard [of s q s'] by linarith

lemma admit_monotone: "admit s q = Inr s' \<Longrightarrow> headroom s' \<le> headroom s"
  using admit_uses [of s q s'] admit_guard [of s q s'] by linarith

text \<open>A chain of admissions, oldest first.\<close>

lemma chain_bound:
  assumes "length ss = Suc (length qs)"
    and "\<And>i. i < length qs \<Longrightarrow> admit (ss ! i) (qs ! i) = Inr (ss ! Suc i)"
  shows "headroom (ss ! length qs) = headroom (ss ! 0) - sum_list qs \<and>
    (qs \<noteq> [] \<longrightarrow> sum_list qs \<le> headroom (ss ! 0) + slack)"
  using assms
proof (induction qs arbitrary: ss)
  case Nil
  then show ?case by simp
next
  case (Cons q qs)
  obtain s0 ss' where ss: "ss = s0 # ss'" using Cons.prems(1) by (cases ss) auto
  have step: "admit s0 q = Inr (ss' ! 0)" using Cons.prems(2) [of 0] ss by simp
  have rest: "\<And>i. i < length qs \<Longrightarrow> admit (ss' ! i) (qs ! i) = Inr (ss' ! Suc i)"
    using Cons.prems(2) ss by fastforce
  have len: "length ss' = Suc (length qs)" using Cons.prems(1) ss by simp
  note IH = Cons.IH [OF len rest]
  have "headroom (ss' ! 0) = headroom s0 - q" "q \<le> headroom s0 + slack"
    using admit_uses [OF step] admit_guard [OF step] by auto
  with IH ss show ?case by (cases "qs = []") auto
qed

end

interpretation rsv: admission "\<lambda>(oq, rq). available oq rq"
  "\<lambda>(oq, rq) q. map_sum id (\<lambda>r. (oq, r)) (try_reserve oq rq q)" RESERVE_SLACK
  by unfold_locales
    (auto simp: try_reserve_def available_def RESERVE_SLACK_def split: if_splits)

lemma try_reserve_Inr:
  "try_reserve oq rq q = Inr r \<longleftrightarrow> r = rq + q \<and> 0 \<le> q \<and> q \<le> available oq rq + RESERVE_SLACK"
  by (auto simp: try_reserve_def)

lemma try_reserve_keeps:
  "try_reserve oq rq q = Inr r \<Longrightarrow> - RESERVE_SLACK \<le> available oq r"
  using rsv.admit_keeps_headroom [of "(oq, rq)" q "(oq, r)"] by simp

lemma reserve_all_total:
  "reserve_all oq rq qs = (r, granted) \<Longrightarrow> r = rq + sum_list granted"
proof (induction qs arbitrary: rq r granted)
  case Nil
  then show ?case by simp
next
  case (Cons q qs)
  show ?case
  proof (cases "try_reserve oq rq q")
    case (Inl e)
    with Cons show ?thesis by simp
  next
    case (Inr rq')
    then obtain g where g: "reserve_all oq rq' qs = (r, g)" "granted = q # g"
      using Cons.prems by (auto split: prod.splits)
    from Inr have "rq' = rq + q" by (simp add: try_reserve_Inr)
    with Cons.IH [OF g(1)] g(2) show ?thesis by simp
  qed
qed

lemma reserve_all_granted:
  "reserve_all oq rq qs = (r, granted) \<Longrightarrow> granted \<noteq> [] \<Longrightarrow> - RESERVE_SLACK \<le> available oq r"
proof (induction qs arbitrary: rq r granted)
  case Nil
  then show ?case by simp
next
  case (Cons q qs)
  show ?case
  proof (cases "try_reserve oq rq q")
    case (Inl e)
    with Cons show ?thesis by simp
  next
    case (Inr rq')
    then obtain g where g: "reserve_all oq rq' qs = (r, g)" "granted = q # g"
      using Cons.prems by (auto split: prod.splits)
    show ?thesis
    proof (cases "g = []")
      case True
      with g reserve_all_total have "r = rq'" by fastforce
      with try_reserve_keeps [OF Inr] show ?thesis by simp
    next
      case False
      with Cons.IH [OF g(1)] show ?thesis by simp
    qed
  qed
qed

lemma reserve_all_nonneg:
  "reserve_all oq rq qs = (r, granted) \<Longrightarrow> \<forall>g \<in> set granted. 0 \<le> g"
  by (induction qs arbitrary: rq r granted) (auto simp: try_reserve_Inr split: sum.splits prod.splits)

section \<open>Properties\<close>

text \<open>
  No over-close: whatever closing requests race for one leg, in whatever order they
  arrive, the quantities granted add up to at most the open quantity not already
  reserved, plus the single rounding slack (not one slack per request), and the reserved
  total is exactly the old one plus what was granted.
\<close>

theorem no_over_close:
  assumes "0 \<le> available oq rq" and "reserve_all oq rq qs = (r, granted)"
  shows "r = rq + sum_list granted \<and> sum_list granted \<le> available oq rq + RESERVE_SLACK \<and>
    (\<forall>g \<in> set granted. 0 \<le> g)"
proof (cases "granted = []")
  case True
  with assms reserve_all_total [OF assms(2)] show ?thesis by (simp add: RESERVE_SLACK_def)
next
  case False
  have "- RESERVE_SLACK \<le> available oq r" by (rule reserve_all_granted [OF assms(2) False])
  with reserve_all_total [OF assms(2)] reserve_all_nonneg [OF assms(2)] show ?thesis
    by (simp add: available_def)
qed

theorem no_over_close_witness:
  "reserve_all 10 2 [5, 4, 3] = (10, [5, 3]) \<and> sum_list [5, 3] \<le> available 10 2 + RESERVE_SLACK"
proof -
  have r: "reserve_all 10 2 [5, 4, 3] = (10, [5, 3])"
    by (simp add: try_reserve_def available_def RESERVE_SLACK_def)
  have "0 \<le> available 10 2" by (simp add: available_def)
  from no_over_close [OF this r] r show ?thesis by simp
qed

end
