(* ===== verification/Book_Ops.thy ===== *)
theory Book_Ops
  imports Exec_DB Reservation
begin

text \<open>
  The writers of the book: \<open>persistence/projection.py\<close> (the open quantity of a leg,
  folded from its fills), \<open>persistence/reservation.py\<close> (the quantity its closing orders
  still hold) and \<open>persistence/book_state.py\<close> (the aggregate snapshot). The contract that
  the first two writers never touch each other's column is the locale \<open>leg_columns\<close>.
\<close>

section \<open>The leg table\<close>

definition new_leg :: "int \<Rightarrow> time \<Rightarrow> leg_row" where
  "new_leg oid now = \<lparr>lp_order_id = oid, lp_open_qty = 0, lp_reserved_qty = 0,
     lp_avg_price = None, lp_realized_pnl_usd = 0, lp_rebuilt_at = now\<rparr>"

definition leg_of :: "leg_row table \<Rightarrow> int \<Rightarrow> leg_row option" where
  "leg_of t oid = map_option snd (List.find (\<lambda>(k, l). lp_order_id l = oid) t)"

text \<open>
  Read the leg's row, or add one with the column defaults, and update it; the order id
  is unique in the table.
\<close>

definition upsert_leg :: "int \<Rightarrow> time \<Rightarrow> (leg_row \<Rightarrow> leg_row) \<Rightarrow> leg_row table \<Rightarrow> leg_row table" where
  "upsert_leg oid now f t =
     (case leg_of t oid of
        None \<Rightarrow> tins (f (new_leg oid now)) t
      | Some l \<Rightarrow> tupd_where (\<lambda>k r. lp_order_id r = oid) f t)"

section \<open>The projection\<close>

definition order_fills :: "db \<Rightarrow> int \<Rightarrow> fill_row list" where
  "order_fills d oid = map snd (twhere (\<lambda>f. f_order_id f = oid) (t_fills d))"

definition fill_of_row :: "fill_row \<Rightarrow> leg_fill" where
  "fill_of_row f = \<lparr>lf_side = f_side f, lf_qty = of_int (f_qty_filled f), lf_price = f_fill_price f\<rparr>"

definition leg_truth :: "db \<Rightarrow> int \<Rightarrow> leg_fold" where
  "leg_truth d oid = fold_fills (map fill_of_row (order_fills d oid))"

definition rebuild_leg :: "time \<Rightarrow> int \<Rightarrow> db \<Rightarrow> db" where
  "rebuild_leg now oid d =
     (let fold' = leg_truth d oid in
      d\<lparr>t_legs := upsert_leg oid now
          (\<lambda>l. l\<lparr>lp_open_qty := open_qty fold', lp_avg_price := avg_price fold', lp_rebuilt_at := now\<rparr>)
          (t_legs d)\<rparr>)"

definition rebuild_all :: "time \<Rightarrow> db \<Rightarrow> db \<times> nat" where
  "rebuild_all now d =
     (let oids = remdups (map (\<lambda>(k, f). f_order_id f) (t_fills d))
      in (foldl (\<lambda>d oid. rebuild_leg now oid d) d oids, length oids))"

section \<open>The reservation\<close>

definition NON_TERMINAL :: "order_state list" where
  "NON_TERMINAL = [Pending, Submitted, Acknowledged, Partially_filled]"

definition reserved_demand :: "db \<Rightarrow> int \<Rightarrow> int" where
  "reserved_demand d eid =
     sum_list (map (\<lambda>(k, r). max (o_qty r - o_qty_filled r) 0)
       (twhere (\<lambda>r. o_closes_order_id r = Some eid \<and> o_order_role r = Closing \<and>
                    o_state r \<in> set NON_TERMINAL) (t_orders d)))"

definition recompute_reservation :: "time \<Rightarrow> int \<Rightarrow> db \<Rightarrow> db" where
  "recompute_reservation now eid d =
     d\<lparr>t_legs := upsert_leg eid now
         (\<lambda>l. l\<lparr>lp_reserved_qty := of_int (reserved_demand d eid)\<rparr>) (t_legs d)\<rparr>"

section \<open>The book-state snapshot\<close>

definition open_booked :: "db \<Rightarrow> position_row list" where
  "open_booked d =
     map snd (twhere (\<lambda>p. b_state p = P_open \<and> tget (t_structures d) (b_structure_id p) \<noteq> None)
       (t_positions d))"

definition current_snapshot :: "string \<Rightarrow> db \<Rightarrow> snapshot_row option" where
  "current_snapshot sy d =
     (case twhere (\<lambda>r. bs_symbol r = sy \<and> bs_is_current r) (t_snapshots d) of
        [] \<Rightarrow> None | (k, r) # _ \<Rightarrow> Some r)"

definition refresh_book_state :: "time \<Rightarrow> string \<Rightarrow> flt \<Rightarrow> db \<Rightarrow> db" where
  "refresh_book_state now sy capital_default d =
     (let rows = open_booked d;
          n = length (remdups (map b_structure_id rows));
          prev = current_snapshot sy d;
          capital = (case prev of None \<Rightarrow> capital_default
                     | Some r \<Rightarrow> (case bs_capital_total_usd r of None \<Rightarrow> capital_default | Some c \<Rightarrow> c));
          flipped = tupd_where (\<lambda>k r. bs_symbol r = sy \<and> bs_is_current r)
                      (\<lambda>r. r\<lparr>bs_is_current := False\<rparr>) (t_snapshots d);
          row = \<lparr>bs_symbol = sy, bs_timestamp = now,
                 bs_total_vega_usd = py_round 4 (sum_list (map (flt_or0 \<circ> b_entry_vega_usd_per_volpt) rows)),
                 bs_total_gamma_usd = py_round 4 (sum_list (map (flt_or0 \<circ> b_entry_gamma_usd_per_pip2) rows)),
                 bs_total_theta_usd = py_round 4 (sum_list (map (flt_or0 \<circ> b_entry_theta_usd_per_day) rows)),
                 bs_total_delta = 0,
                 bs_n_open_structures = n, bs_n_open_legs = n,
                 bs_notional_engaged_usd = py_round 2 (sum_list (map b_entry_premium_usd rows)),
                 bs_capital_total_usd = Some capital,
                 bs_margin_used_usd = (case prev of None \<Rightarrow> Some 0 | Some r \<Rightarrow> bs_margin_used_usd r),
                 bs_is_current = True\<rparr>
      in d\<lparr>t_snapshots := tins row flipped\<rparr>)"

section \<open>Lookups in the leg table\<close>

lemma leg_of_Nil [simp]: "leg_of [] oid = None"
  by (simp add: leg_of_def)

lemma leg_of_Cons [simp]:
  "leg_of ((k, l) # t) oid = (if lp_order_id l = oid then Some l else leg_of t oid)"
  by (simp add: leg_of_def)

lemma leg_of_append: "leg_of (t @ u) oid = (case leg_of t oid of None \<Rightarrow> leg_of u oid | Some l \<Rightarrow> Some l)"
  by (induction t) auto

lemma leg_of_tins:
  "leg_of (tins l t) oid =
     (case leg_of t oid of None \<Rightarrow> if lp_order_id l = oid then Some l else None | Some x \<Rightarrow> Some x)"
  by (auto simp: tins_def leg_of_append split: option.split)

lemma leg_of_order_id: "leg_of t oid = Some l \<Longrightarrow> lp_order_id l = oid"
  by (induction t) (auto split: if_splits)

lemma leg_of_tupd_where:
  assumes "\<And>l. lp_order_id (f l) = lp_order_id l"
  shows "leg_of (tupd_where (\<lambda>k r. lp_order_id r = oid) f t) j =
    (if j = oid then map_option f (leg_of t j) else leg_of t j)"
  by (induction t) (auto simp: tupd_where_def assms)

lemma leg_of_upsert:
  assumes "\<And>l. lp_order_id (f l) = lp_order_id l"
  shows "leg_of (upsert_leg oid now f t) j =
    (if j = oid then Some (f (case leg_of t oid of None \<Rightarrow> new_leg oid now | Some l \<Rightarrow> l)) else leg_of t j)"
  using leg_of_tupd_where [of f oid t j] assms
  by (auto simp: upsert_leg_def leg_of_tins new_leg_def split: option.splits)

definition open_of :: "db \<Rightarrow> int \<Rightarrow> flt" where
  "open_of d oid = (case leg_of (t_legs d) oid of None \<Rightarrow> 0 | Some l \<Rightarrow> lp_open_qty l)"

definition reserved_of :: "db \<Rightarrow> int \<Rightarrow> flt" where
  "reserved_of d oid = (case leg_of (t_legs d) oid of None \<Rightarrow> 0 | Some l \<Rightarrow> lp_reserved_qty l)"

section \<open>The interface: two writers of one row\<close>

text \<open>
  A projector and a reserver share a row per leg. Each sets its own column to a function
  of the rest of the store and leaves the other column, and that function, alone.
\<close>

locale leg_columns =
  fixes opn :: "'s \<Rightarrow> int \<Rightarrow> flt" and res :: "'s \<Rightarrow> int \<Rightarrow> flt"
    and truth :: "'s \<Rightarrow> int \<Rightarrow> flt" and demand :: "'s \<Rightarrow> int \<Rightarrow> flt"
    and project :: "int \<Rightarrow> 's \<Rightarrow> 's" and reserve :: "int \<Rightarrow> 's \<Rightarrow> 's"
  assumes opn_project: "opn (project i s) j = (if j = i then truth s i else opn s j)"
    and res_project: "res (project i s) = res s"
    and res_reserve: "res (reserve i s) j = (if j = i then demand s i else res s j)"
    and opn_reserve: "opn (reserve i s) = opn s"
    and truth_project: "truth (project i s) = truth s"
    and truth_reserve: "truth (reserve i s) = truth s"
    and demand_project: "demand (project i s) = demand s"
    and demand_reserve: "demand (reserve i s) = demand s"
begin

lemma project_fixed: "opn (project i (project i s)) = opn (project i s)"
  by (auto simp: opn_project truth_project)

lemma writers_commute:
  "opn (project i (reserve k s)) = opn (reserve k (project i s)) \<and>
   res (project i (reserve k s)) = res (reserve k (project i s))"
  by (auto simp: opn_project res_project res_reserve opn_reserve truth_reserve demand_project)

lemma truth_projects: "truth (foldl (\<lambda>s i. project i s) s is) = truth s"
  by (induction "is" arbitrary: s) (auto simp: truth_project)

lemma opn_projects:
  "opn (foldl (\<lambda>s i. project i s) s is) j = (if j \<in> set is then truth s j else opn s j)"
proof (induction "is" arbitrary: s)
  case Nil
  then show ?case by simp
next
  case (Cons i "is")
  then show ?case by (auto simp: opn_project truth_project)
qed

lemma res_projects: "res (foldl (\<lambda>s i. project i s) s is) = res s"
  by (induction "is" arbitrary: s) (auto simp: res_project)

text \<open>A store whose open column is already right is not changed by a rebuild.\<close>

lemma projects_settled:
  "(\<And>j. opn s j = truth s j) \<Longrightarrow> opn (foldl (\<lambda>s i. project i s) s is) = opn s"
  by (auto simp: opn_projects)

end

lemma open_of_rebuild:
  "open_of (rebuild_leg now i d) j = (if j = i then open_qty (leg_truth d i) else open_of d j)"
  by (simp add: open_of_def rebuild_leg_def Let_def leg_of_upsert)

lemma reserved_of_rebuild: "reserved_of (rebuild_leg now i d) j = reserved_of d j"
  by (simp add: reserved_of_def rebuild_leg_def Let_def leg_of_upsert new_leg_def split: option.splits)

lemma reserved_of_recompute:
  "reserved_of (recompute_reservation now i d) j =
     (if j = i then of_int (reserved_demand d i) else reserved_of d j)"
  by (simp add: reserved_of_def recompute_reservation_def leg_of_upsert)

lemma open_of_recompute: "open_of (recompute_reservation now i d) j = open_of d j"
  by (simp add: open_of_def recompute_reservation_def leg_of_upsert new_leg_def split: option.splits)

lemma rebuild_leg_simps [simp, db_simps]:
  "t_orders (rebuild_leg now i d) = t_orders d" "t_fills (rebuild_leg now i d) = t_fills d"
  "t_structures (rebuild_leg now i d) = t_structures d" "t_positions (rebuild_leg now i d) = t_positions d"
  "t_events (rebuild_leg now i d) = t_events d" "t_alerts (rebuild_leg now i d) = t_alerts d"
  "t_hedges (rebuild_leg now i d) = t_hedges d" "t_open_positions (rebuild_leg now i d) = t_open_positions d"
  "t_scalars (rebuild_leg now i d) = t_scalars d" "t_snapshots (rebuild_leg now i d) = t_snapshots d"
  "t_breaks (rebuild_leg now i d) = t_breaks d"
  by (simp_all add: rebuild_leg_def Let_def)

lemma recompute_reservation_simps [simp, db_simps]:
  "t_orders (recompute_reservation now i d) = t_orders d" "t_fills (recompute_reservation now i d) = t_fills d"
  "t_structures (recompute_reservation now i d) = t_structures d"
  "t_positions (recompute_reservation now i d) = t_positions d"
  "t_events (recompute_reservation now i d) = t_events d" "t_alerts (recompute_reservation now i d) = t_alerts d"
  "t_hedges (recompute_reservation now i d) = t_hedges d"
  "t_open_positions (recompute_reservation now i d) = t_open_positions d"
  "t_scalars (recompute_reservation now i d) = t_scalars d"
  "t_snapshots (recompute_reservation now i d) = t_snapshots d"
  "t_breaks (recompute_reservation now i d) = t_breaks d"
  by (simp_all add: recompute_reservation_def)

lemma refresh_book_state_simps [simp, db_simps]:
  "t_orders (refresh_book_state now sy c d) = t_orders d" "t_fills (refresh_book_state now sy c d) = t_fills d"
  "t_legs (refresh_book_state now sy c d) = t_legs d"
  "t_structures (refresh_book_state now sy c d) = t_structures d"
  "t_positions (refresh_book_state now sy c d) = t_positions d"
  "t_events (refresh_book_state now sy c d) = t_events d"
  by (simp_all add: refresh_book_state_def Let_def)

lemma leg_truth_cong: "t_fills d = t_fills d' \<Longrightarrow> leg_truth d = leg_truth d'"
  by (rule ext) (simp add: leg_truth_def order_fills_def)

lemma reserved_demand_cong: "t_orders d = t_orders d' \<Longrightarrow> reserved_demand d = reserved_demand d'"
  by (rule ext) (simp add: reserved_demand_def)

interpretation book: leg_columns open_of reserved_of "\<lambda>d i. open_qty (leg_truth d i)"
  "\<lambda>d i. of_int (reserved_demand d i)" "rebuild_leg now" "recompute_reservation now" for now
proof
  fix i j :: int and s :: db
  show "open_of (rebuild_leg now i s) j = (if j = i then open_qty (leg_truth s i) else open_of s j)"
    by (rule open_of_rebuild)
  show "reserved_of (rebuild_leg now i s) = reserved_of s"
    by (rule ext) (rule reserved_of_rebuild)
  show "reserved_of (recompute_reservation now i s) j =
      (if j = i then of_int (reserved_demand s i) else reserved_of s j)"
    by (rule reserved_of_recompute)
  show "open_of (recompute_reservation now i s) = open_of s"
    by (rule ext) (rule open_of_recompute)
  show "(\<lambda>j. open_qty (leg_truth (rebuild_leg now i s) j)) = (\<lambda>j. open_qty (leg_truth s j))"
    using leg_truth_cong [of "rebuild_leg now i s" s] by simp
  show "(\<lambda>j. open_qty (leg_truth (recompute_reservation now i s) j)) = (\<lambda>j. open_qty (leg_truth s j))"
    using leg_truth_cong [of "recompute_reservation now i s" s] by simp
  show "(\<lambda>j. real_of_int (reserved_demand (rebuild_leg now i s) j)) = (\<lambda>j. of_int (reserved_demand s j))"
    using reserved_demand_cong [of "rebuild_leg now i s" s] by simp
  show "(\<lambda>j. real_of_int (reserved_demand (recompute_reservation now i s) j)) = (\<lambda>j. of_int (reserved_demand s j))"
    using reserved_demand_cong [of "recompute_reservation now i s" s] by simp
qed

lemma leg_truth_no_fills:
  "(\<And>k f. (k, f) \<in> set (t_fills d) \<Longrightarrow> f_order_id f \<noteq> oid) \<Longrightarrow> open_qty (leg_truth d oid) = 0"
proof -
  assume a: "\<And>k f. (k, f) \<in> set (t_fills d) \<Longrightarrow> f_order_id f \<noteq> oid"
  have "twhere (\<lambda>f. f_order_id f = oid) (t_fills d) = []"
    using a by (auto simp: twhere_def filter_empty_conv)
  then show ?thesis by (simp add: leg_truth_def order_fills_def open_qty_fold)
qed

section \<open>Properties\<close>

text \<open>
  A startup rebuild makes the book exact from any corrupted state: after
  \<open>rebuild_all\<close>, every leg that has a fill shows the signed fold of its own fills, every
  other leg keeps its open quantity, no reservation has moved, and a second rebuild
  changes no open quantity.
\<close>

theorem rebuild_all_exact:
  "(\<forall>oid. open_of (fst (rebuild_all now d)) oid =
      (if \<exists>(k, f) \<in> set (t_fills d). f_order_id f = oid
       then open_qty (leg_truth d oid) else open_of d oid)) \<and>
   reserved_of (fst (rebuild_all now d)) = reserved_of d \<and>
   open_of (fst (rebuild_all later (fst (rebuild_all now d)))) = open_of (fst (rebuild_all now d))"
proof -
  let ?oids = "\<lambda>d. remdups (map (\<lambda>(k, f). f_order_id f) (t_fills d))"
  let ?d1 = "foldl (\<lambda>d oid. rebuild_leg now oid d) d (?oids d)"
  have fst: "fst (rebuild_all t e) = foldl (\<lambda>d oid. rebuild_leg t oid d) e (?oids e)" for t e
    by (simp add: rebuild_all_def Let_def)
  have fills: "t_fills (foldl (\<lambda>d oid. rebuild_leg now oid d) e is) = t_fills e" for e "is"
    by (induction "is" arbitrary: e) simp_all
  have tr: "open_qty (leg_truth ?d1 j) = open_qty (leg_truth d j)" for j
    using leg_truth_cong [of ?d1 d] fills by simp
  have op: "open_of ?d1 j = (if j \<in> set (?oids d) then open_qty (leg_truth d j) else open_of d j)" for j
    by (rule book.opn_projects)
  have "open_of (foldl (\<lambda>d oid. rebuild_leg later oid d) ?d1 (?oids ?d1)) = open_of ?d1"
    by (rule ext) (simp add: book.opn_projects fills tr op)
  moreover have "reserved_of ?d1 = reserved_of d" by (rule book.res_projects)
  moreover have "(j \<in> set (?oids d)) = (\<exists>(k, f) \<in> set (t_fills d). f_order_id f = j)" for j
    by force
  ultimately show ?thesis using op by (simp only: fst) auto
qed

end
