(* ===== verification/Close_Finaliser.thy ===== *)
theory Close_Finaliser
  imports Book_Ops
begin

text \<open>
  \<open>engines/execution/position_close_finaliser.py\<close>: when a closing structure is fully
  filled, the position it closes is stamped closed and its P\&L is booked from the entry
  premium, the exit premium, both costs and the filled hedges.
\<close>

definition alert_for :: "db \<Rightarrow> int \<Rightarrow> (int \<times> alert_row) option" where
  "alert_for d sid =
     (case twhere (\<lambda>a. ea_closing_structure_id a = Some sid) (t_alerts d) of
        [] \<Rightarrow> None | a # _ \<Rightarrow> Some a)"

definition hedge_cost :: "db \<Rightarrow> int \<Rightarrow> flt" where
  "hedge_cost d pid =
     sum_list (map (\<lambda>(k, h). flt_or0 (h_total_cost_usd h))
       (twhere (\<lambda>h. h_position_id h = pid \<and> h_state h = H_filled) (t_hedges d)))"

definition gross_pnl :: "structure_row \<Rightarrow> position_row \<Rightarrow> flt" where
  "gross_pnl closing pos = (- flt_or0 (s_total_premium_paid_usd closing)) - b_entry_premium_usd pos"

definition net_pnl :: "db \<Rightarrow> int \<Rightarrow> structure_row \<Rightarrow> position_row \<Rightarrow> flt" where
  "net_pnl d pid closing pos =
     gross_pnl closing pos - b_entry_total_cost_usd pos
       - flt_or0 (s_total_entry_cost_usd closing) - hedge_cost d pid"

definition close_position :: "time \<Rightarrow> db \<Rightarrow> int \<Rightarrow> alert_row \<Rightarrow> structure_row \<Rightarrow> position_row \<Rightarrow> position_row" where
  "close_position now d pid alert closing pos =
     pos\<lparr>b_state := P_closed, b_closed_at := Some now,
         b_close_reason := Some (take 80 (str_or (ea_rule_triggered alert))),
         b_exit_premium_usd := Some (flt_or0 (s_total_premium_paid_usd closing)),
         b_exit_total_cost_usd := Some (flt_or0 (s_total_entry_cost_usd closing)),
         b_gross_pnl_usd := Some (py_round 2 (gross_pnl closing pos)),
         b_net_pnl_usd := Some (py_round 2 (net_pnl d pid closing pos))\<rparr>"

definition finalise_position_close :: "time \<Rightarrow> int \<Rightarrow> db \<Rightarrow> db \<times> bool" where
  "finalise_position_close now sid d =
     (case tget (t_structures d) sid of
        None \<Rightarrow> (d, False)
      | Some closing \<Rightarrow>
          if s_state closing \<noteq> S_fully_filled then (d, False)
          else (case alert_for d sid of
            None \<Rightarrow> (d, False)
          | Some (aid, alert) \<Rightarrow>
              (case tget (t_positions d) (ea_position_id alert) of
                 None \<Rightarrow> (d, False)
               | Some pos \<Rightarrow>
                   if b_state pos = P_closed then (d, False)
                   else
                     let pid = ea_position_id alert;
                         pos' = close_position now d pid alert closing pos
                     in (add_event
                          \<lparr>ev_event_type = ''position_closed'', ev_severity = Sev_info,
                           ev_structure_id = Some sid, ev_order_id = None, ev_position_id = Some pid,
                           ev_payload = [(''position_id'', PInt pid),
                             (''gross_pnl_usd'', p_opt_flt (b_gross_pnl_usd pos')),
                             (''net_pnl_usd'', p_opt_flt (b_net_pnl_usd pos')),
                             (''hedge_cost_usd'', PFlt (hedge_cost d pid))]\<rparr>
                          (d\<lparr>t_positions := tupd pid (\<lambda>_. pos') (t_positions d),
                             t_alerts := tupd aid
                               (\<lambda>a. if ea_execution_status a = Some A_in_progress
                                    then a\<lparr>ea_execution_status := Some A_done\<rparr> else a)
                               (t_alerts d)\<rparr>), True))))"

section \<open>Frame\<close>

lemma finalise_frame [simp]:
  "t_orders (fst (finalise_position_close now sid d)) = t_orders d"
  "t_fills (fst (finalise_position_close now sid d)) = t_fills d"
  "t_legs (fst (finalise_position_close now sid d)) = t_legs d"
  "t_structures (fst (finalise_position_close now sid d)) = t_structures d"
  "t_hedges (fst (finalise_position_close now sid d)) = t_hedges d"
  by (simp_all add: finalise_position_close_def Let_def split: option.split)

lemma finalise_True_cases:
  assumes "finalise_position_close now sid d = (d', True)"
  obtains closing aid alert pos where
    "tget (t_structures d) sid = Some closing" "s_state closing = S_fully_filled"
    "alert_for d sid = Some (aid, alert)" "tget (t_positions d) (ea_position_id alert) = Some pos"
    "b_state pos \<noteq> P_closed"
    "t_positions d' = tupd (ea_position_id alert)
       (\<lambda>_. close_position now d (ea_position_id alert) alert closing pos) (t_positions d)"
    "t_alerts d' = tupd aid (\<lambda>a. if ea_execution_status a = Some A_in_progress
         then a\<lparr>ea_execution_status := Some A_done\<rparr> else a) (t_alerts d)"
  using assms by (auto simp: finalise_position_close_def Let_def split: option.splits if_splits)

lemma finalise_False: "finalise_position_close now sid d = (d', False) \<Longrightarrow> d' = d"
  by (auto simp: finalise_position_close_def Let_def split: option.splits if_splits)

lemma tupd_const_snd:
  "map (\<lambda>(k, p). g p) (tupd k (\<lambda>_. x) t) = map (\<lambda>(i, p). if i = k then g x else g p) t"
  by (induction t) (auto simp: tupd_def)

lemma tget_unique: "table_ok t \<Longrightarrow> (k, p) \<in> set t \<Longrightarrow> tget t k = Some x \<Longrightarrow> p = x"
  using in_tget by fastforce

text \<open>Closing a position touches no position's structure reference.\<close>

lemma finalise_structure_refs:
  assumes "table_ok (t_positions d)"
  shows "map (\<lambda>(k, p). b_structure_id p) (t_positions (fst (finalise_position_close now sid d)))
    = map (\<lambda>(k, p). b_structure_id p) (t_positions d)"
proof (cases "finalise_position_close now sid d")
  case (Pair d' ok)
  show ?thesis
  proof (cases ok)
    case False
    with Pair finalise_False show ?thesis by fastforce
  next
    case True
    with Pair have "finalise_position_close now sid d = (d', True)" by simp
    then obtain closing aid alert pos where
      g: "tget (t_positions d) (ea_position_id alert) = Some pos"
      and t: "t_positions d' = tupd (ea_position_id alert)
        (\<lambda>_. close_position now d (ea_position_id alert) alert closing pos) (t_positions d)"
      by (elim finalise_True_cases)
    have "map (\<lambda>(i, p). if i = ea_position_id alert
        then b_structure_id (close_position now d (ea_position_id alert) alert closing pos)
        else b_structure_id p) (t_positions d) = map (\<lambda>(k, p). b_structure_id p) (t_positions d)"
      using tget_unique [OF assms _ g] by (auto simp: close_position_def)
    then show ?thesis by (simp add: Pair t tupd_const_snd)
  qed
qed

lemma finalise_positions_ok:
  "table_ok (t_positions d) \<Longrightarrow> table_ok (t_positions (fst (finalise_position_close now sid d)))"
  by (simp add: finalise_position_close_def Let_def split: option.split)

section \<open>Properties\<close>

lemma alert_for_update:
  assumes "alert_for d sid = Some (aid, alert)"
    and "t_alerts d' = tupd aid f (t_alerts d)"
    and "\<And>a. ea_closing_structure_id (f a) = ea_closing_structure_id a"
    and "\<And>a. ea_position_id (f a) = ea_position_id a"
  shows "\<exists>alert'. alert_for d' sid = Some (aid, alert') \<and> ea_position_id alert' = ea_position_id alert"
proof -
  let ?P = "\<lambda>a. ea_closing_structure_id a = Some sid"
  have "twhere ?P (t_alerts d') = tupd aid f (twhere ?P (t_alerts d))"
    unfolding assms(2) by (rule twhere_tupd_frame) (simp add: assms(3))
  moreover obtain rest where "twhere ?P (t_alerts d) = (aid, alert) # rest"
    using assms(1) by (auto simp: alert_for_def split: list.splits)
  ultimately show ?thesis by (simp add: alert_for_def tupd_def assms(4))
qed

text \<open>
  Finalising a close books the P\&L once. When it succeeds, the position was not
  closed before, it ends closed, its booked gross is the rounded negative of exit plus
  entry premium and its booked net is within a cent of gross minus all three costs;
  calling the finaliser again on the result changes nothing.
\<close>

theorem finalise_books_pnl_once:
  assumes "finalise_position_close now sid d = (d', True)"
  shows "\<exists>closing (alert :: alert_row) pos pos'.
    tget (t_structures d) sid = Some closing \<and> s_state closing = S_fully_filled \<and>
    tget (t_positions d) (ea_position_id alert) = Some pos \<and> b_state pos \<noteq> P_closed \<and>
    tget (t_positions d') (ea_position_id alert) = Some pos' \<and> b_state pos' = P_closed \<and>
    b_gross_pnl_usd pos' = Some (py_round 2
      (- flt_or0 (s_total_premium_paid_usd closing) - b_entry_premium_usd pos)) \<and>
    (\<exists>n. b_net_pnl_usd pos' = Some n \<and>
      \<bar>n - (- flt_or0 (s_total_premium_paid_usd closing) - b_entry_premium_usd pos
        - b_entry_total_cost_usd pos - flt_or0 (s_total_entry_cost_usd closing)
        - hedge_cost d (ea_position_id alert))\<bar> \<le> 1 / 200) \<and>
    finalise_position_close later sid d' = (d', False)"
proof -
  from assms obtain closing aid alert pos where
    c: "tget (t_structures d) sid = Some closing" "s_state closing = S_fully_filled"
    and a: "alert_for d sid = Some (aid, alert)"
    and p: "tget (t_positions d) (ea_position_id alert) = Some pos" "b_state pos \<noteq> P_closed"
    and t: "t_positions d' = tupd (ea_position_id alert)
      (\<lambda>_. close_position now d (ea_position_id alert) alert closing pos) (t_positions d)"
    and ta: "t_alerts d' = tupd aid (\<lambda>a. if ea_execution_status a = Some A_in_progress
         then a\<lparr>ea_execution_status := Some A_done\<rparr> else a) (t_alerts d)"
    by (elim finalise_True_cases)
  let ?p' = "close_position now d (ea_position_id alert) alert closing pos"
  have g: "tget (t_positions d') (ea_position_id alert) = Some ?p'"
    by (simp add: t p tbl.get_upd)
  have s: "t_structures d' = t_structures d" using finalise_frame(4) [of now sid d] assms by simp
  obtain alert' where "alert_for d' sid = Some (aid, alert')" "ea_position_id alert' = ea_position_id alert"
    using alert_for_update [OF a ta] by fastforce
  then have again: "finalise_position_close later sid d' = (d', False)"
    using c g by (simp add: finalise_position_close_def s close_position_def)
  have close: "\<bar>py_round 2 (net_pnl d (ea_position_id alert) closing pos)
      - net_pnl d (ea_position_id alert) closing pos\<bar> \<le> 1 / 200"
    using py_round_close [of 2 "net_pnl d (ea_position_id alert) closing pos"] by simp
  show ?thesis
    by (rule exI [of _ closing], rule exI [of _ alert], rule exI [of _ pos], rule exI [of _ ?p'])
       (use c p g again close in \<open>simp add: close_position_def gross_pnl_def net_pnl_def\<close>)
qed

definition close_example :: db where
  "close_example = empty_db\<lparr>
     t_structures := [(7, \<lparr>s_structure_type = ''close'', s_state = S_fully_filled, s_state_updated_at = 0,
        s_total_premium_paid_usd = Some (- 500), s_total_slippage_usd = None,
        s_total_commission_usd = None, s_total_entry_cost_usd = Some 10,
        s_first_fill_at = None, s_fully_filled_at = None, s_submit_claimed_at = None,
        s_rollback_started_at = None, s_package_id = None, s_product_label = None,
        s_reference_tenor = ''3M'', s_expiry_date = None, s_base_qty = 1, s_execution_mode = ''live'',
        s_triggering_pc = None, s_armed_z_score = None, s_armed_signal_label = None, s_preview_id = None, s_pca_signal_id = None\<rparr>)],
     t_positions := [(3, \<lparr>b_structure_id = 5, b_opened_at = 0, b_entry_premium_usd = 400,
        b_entry_total_cost_usd = 12, b_state = P_closing, b_entry_vega_usd_per_volpt = None,
        b_entry_gamma_usd_per_pip2 = None, b_entry_theta_usd_per_day = None, b_closed_at = None,
        b_close_reason = None, b_exit_premium_usd = None, b_exit_total_cost_usd = None,
        b_gross_pnl_usd = None, b_net_pnl_usd = None, b_ib_reconciled_at = None,
        b_ib_qty_total = None, b_ib_qty_diff = None, b_state_updated_at = 0,
        b_entry_spot = None, b_entry_iv_avg = None\<rparr>)],
     t_alerts := [(2, \<lparr>ea_position_id = 3, ea_rule_triggered = Some ''stop_loss'',
        ea_execution_status = Some A_in_progress, ea_closing_structure_id = Some 7,
        ea_timestamp = 0, ea_action_recommended = ''EXIT'', ea_priority = 5, ea_rule_detail = [], ea_auto_executed = True\<rparr>)]\<rparr>"

theorem finalise_books_pnl_once_witness:
  "\<exists>d'. finalise_position_close 1 7 close_example = (d', True) \<and>
        finalise_position_close 2 7 d' = (d', False)"
proof -
  have "snd (finalise_position_close 1 7 close_example)"
    by (simp add: close_example_def empty_db_def finalise_position_close_def alert_for_def
        twhere_def tget_def Let_def)
  then have e: "finalise_position_close 1 7 close_example =
      (fst (finalise_position_close 1 7 close_example), True)"
    by (cases "finalise_position_close 1 7 close_example") simp
  from finalise_books_pnl_once [OF e, of 2] e show ?thesis by blast
qed

end
