(* ===== verification/Py_Text.thy ===== *)
theory Py_Text
  imports Prelude
begin

text \<open>
  Text the code builds and takes apart: \<open>str\<close> and \<open>int\<close> on integers, \<open>split\<close> on one
  character, \<open>f'..'\<close> strings as concatenation, and \<open>int\<close> on a float. The round trip
  of \<open>str\<close> and \<open>int\<close> is what the durable order keys rest on.
\<close>

section \<open>Integers as text\<close>

definition digit_char :: "nat \<Rightarrow> char" where
  "digit_char n = char_of (48 + n)"

definition is_digit :: "char \<Rightarrow> bool" where
  "is_digit c = (let n = of_char c :: nat in 48 \<le> n \<and> n \<le> 57)"

definition digit_val :: "char \<Rightarrow> nat" where
  "digit_val c = of_char c - 48"

fun nat_str :: "nat \<Rightarrow> string" where
  "nat_str n = (if n < 10 then [digit_char n] else nat_str (n div 10) @ [digit_char (n mod 10)])"

declare nat_str.simps [simp del]

definition int_str :: "int \<Rightarrow> string" where
  "int_str i = (if i < 0 then CHR ''-'' # nat_str (nat (- i)) else nat_str (nat i))"

text \<open>
  The digits of an \<open>int\<close> literal: single underscores may separate digits, nothing else
  may. The flag says whether the last character was a digit.
\<close>

fun digits_val :: "nat \<Rightarrow> bool \<Rightarrow> string \<Rightarrow> nat option" where
  "digits_val acc d [] = (if d then Some acc else None)"
| "digits_val acc d (c # cs) =
     (if is_digit c then digits_val (10 * acc + digit_val c) True cs
      else if c = CHR ''_'' \<and> d then digits_val acc False cs
      else None)"

text \<open>\<open>int(s)\<close>; None is the ValueError.\<close>

definition py_int :: "string \<Rightarrow> int option" where
  "py_int s =
     (case py_strip s of
        [] \<Rightarrow> None
      | c # cs \<Rightarrow>
          (if c = CHR ''-'' then map_option (\<lambda>n. - int n) (digits_val 0 False cs)
           else if c = CHR ''+'' then map_option int (digits_val 0 False cs)
           else map_option int (digits_val 0 False (c # cs))))"

text \<open>\<open>int(x)\<close> on a float truncates towards zero.\<close>

definition py_trunc :: "flt \<Rightarrow> int" where
  "py_trunc x = (if 0 \<le> x then \<lfloor>x\<rfloor> else \<lceil>x\<rceil>)"

lemma py_trunc_of_int [simp]: "py_trunc (of_int k) = k"
  by (simp add: py_trunc_def)

lemma py_trunc_numeral [simp]: "py_trunc (numeral k) = numeral k" "py_trunc 0 = 0" "py_trunc 1 = 1"
  by (simp_all add: py_trunc_def)

fun split_on :: "char \<Rightarrow> string \<Rightarrow> string list" where
  "split_on c [] = [[]]"
| "split_on c (x # xs) =
     (if x = c then [] # split_on c xs
      else (case split_on c xs of [] \<Rightarrow> [[x]] | w # ws \<Rightarrow> (x # w) # ws))"

section \<open>The round trip\<close>

lemma digit_val_char [simp]: "n < 10 \<Longrightarrow> digit_val (digit_char n) = n"
  by (simp add: digit_val_def digit_char_def)

lemma is_digit_char [simp]: "n < 10 \<Longrightarrow> is_digit (digit_char n)"
  by (simp add: is_digit_def digit_char_def Let_def)

lemma digits_val_snoc:
  "digits_val a f w = Some v \<Longrightarrow> n < 10 \<Longrightarrow>
     digits_val a f (w @ [digit_char n]) = Some (10 * v + n)"
  by (induction a f w rule: digits_val.induct) (auto split: if_splits)

lemma nat_str_digits: "\<forall>c \<in> set (nat_str n). is_digit c"
proof (induction n rule: nat_str.induct)
  case (1 n)
  then show ?case by (subst nat_str.simps) auto
qed

lemma nat_str_nonempty [simp]: "nat_str n \<noteq> []"
  by (subst nat_str.simps) simp

lemma digits_val_nat_str: "digits_val 0 False (nat_str n) = Some n"
proof (induction n rule: nat_str.induct)
  case (1 n)
  show ?case
  proof (cases "n < 10")
    case True
    then show ?thesis by (subst nat_str.simps) simp
  next
    case False
    then have "digits_val 0 False (nat_str (n div 10)) = Some (n div 10)" by (rule 1)
    from digits_val_snoc [OF this, of "n mod 10"] False show ?thesis
      by (subst nat_str.simps) simp
  qed
qed

lemma digit_not_space: "is_digit c \<Longrightarrow> \<not> is_space c"
  by (simp add: is_digit_def is_space_def Let_def)

lemma py_strip_no_space: "\<forall>c \<in> set s. \<not> is_space c \<Longrightarrow> py_strip s = s"
proof -
  assume a: "\<forall>c \<in> set s. \<not> is_space c"
  have d: "dropWhile is_space xs = xs" if "\<forall>c \<in> set xs. \<not> is_space c" for xs
    using that by (cases xs) auto
  show ?thesis using a by (simp add: py_strip_def d)
qed

lemma minus_not_digit: "\<not> is_digit (CHR ''-'')" "\<not> is_digit (CHR ''+'')" "\<not> is_digit (CHR '':'')"
  by (simp_all add: is_digit_def)

lemma minus_not_space: "\<not> is_space (CHR ''-'')"
  by (simp add: is_space_def)

lemma py_int_nat_str: "py_int (nat_str n) = Some (int n)"
proof -
  obtain c cs where s: "nat_str n = c # cs" by (cases "nat_str n") auto
  have d: "is_digit c" using nat_str_digits [of n] s by simp
  have "py_strip (nat_str n) = nat_str n"
    using nat_str_digits digit_not_space by (intro py_strip_no_space) blast
  moreover have "c \<noteq> CHR ''-''" "c \<noteq> CHR ''+''" using d minus_not_digit by auto
  ultimately show ?thesis
    using digits_val_nat_str [of n] by (simp add: py_int_def s)
qed

lemma py_int_int_str [simp]: "py_int (int_str i) = Some i"
proof (cases "i < 0")
  case True
  have "py_strip (CHR ''-'' # nat_str (nat (- i))) = CHR ''-'' # nat_str (nat (- i))"
    using nat_str_digits digit_not_space minus_not_space by (intro py_strip_no_space) auto
  with True show ?thesis by (simp add: int_str_def py_int_def digits_val_nat_str)
next
  case False
  then show ?thesis by (simp add: int_str_def py_int_nat_str)
qed

lemma int_str_inj: "int_str i = int_str j \<longleftrightarrow> i = j"
  by (metis py_int_int_str option.inject)

lemma int_str_no_colon: "CHR '':'' \<notin> set (int_str i)"
proof -
  have "CHR '':'' \<notin> set (nat_str n)" for n
    using nat_str_digits [of n] minus_not_digit(3) by blast
  then show ?thesis by (simp add: int_str_def)
qed

lemma split_on_clean: "c \<notin> set w \<Longrightarrow> split_on c w = [w]"
  by (induction w) auto

lemma split_on_append: "c \<notin> set w \<Longrightarrow> split_on c (w @ c # rest) = w # split_on c rest"
  by (induction w) auto

end
