(* ===== verification/Units.thy ===== *)
theory Units
  imports Prelude
begin

text \<open>
  The unit convention of \<open>core/units.py\<close>: contract multipliers, the pip, the volatility
  point. Prices of orders and fills are in price points, a dollar amount is points times
  the multiplier times the quantity.
\<close>

definition PIP_SIZE :: flt where "PIP_SIZE = 1 / 10000"

definition VOLPT :: flt where "VOLPT = 1 / 100"

definition EUR_FOP_MULTIPLIER :: flt where "EUR_FOP_MULTIPLIER = 125000"

definition FUTURE_MULTIPLIERS :: "(string \<times> int) list" where
  "FUTURE_MULTIPLIERS = [(''full'', 125000), (''micro'', 12500)]"

text \<open>The future multiplier of a contract symbol, as the call sites look it up.\<close>

definition future_multiplier :: "string \<Rightarrow> flt" where
  "future_multiplier sy =
     (case map_of FUTURE_MULTIPLIERS (if sy = ''M6E'' then ''micro'' else ''full'') of
        None \<Rightarrow> 0 | Some m \<Rightarrow> of_int m)"

lemma future_multiplier_simps [simp]:
  "future_multiplier ''M6E'' = 12500" "sy \<noteq> ''M6E'' \<Longrightarrow> future_multiplier sy = 125000"
  by (simp_all add: future_multiplier_def FUTURE_MULTIPLIERS_def)

lemma future_multiplier_pos: "0 < future_multiplier sy"
  by (cases "sy = ''M6E''") simp_all

end
