(* ===== verification/Fills_Handler.thy ===== *)
theory Fills_Handler
  imports Close_Finaliser Py_Text Units
begin

text \<open>
  The event handlers of \<open>engines/execution/fills_handler.py\<close> and the readers of
  \<open>engines/execution/ib_trade_log.py\<close>. A handler is a function of the clock, the event
  and the database, and returns the database after its commits with the events it
  published. A session that raises before its commit has no effect; the handlers catch and
  log every exception. Each handler holds the order's lock while it runs, so the handlers
  of one order are a sequence of calls.
\<close>

section \<open>What IB hands over\<close>

record log_entry =
  le_error_code :: int
  le_message :: string

record ib_trade =
  it_status :: string
  it_log :: "log_entry list"
  it_why_held :: "string option"
  it_perm_id :: int
  it_order_id :: int

record ib_fill =
  x_exec_id :: string
  x_shares :: flt
  x_price :: flt
  x_commission :: "flt option"
  x_report_currency :: "string option"
  x_contract_currency :: "string option"
  x_local_symbol :: "string option"
  x_con_id :: "int option"
  x_time :: "time option"
  x_side :: string
  x_exchange :: "string option"

record ib_report =
  rp_exec_id :: string
  rp_commission :: "flt option"
  rp_currency :: "string option"

section \<open>Reading the trade log\<close>

text \<open>The message of a log entry that is an error, most recent entry first.\<close>

fun latest_error :: "log_entry list \<Rightarrow> string option" where
  "latest_error [] = None"
| "latest_error (e # es) =
     (let code = le_error_code e; msg = py_strip (le_message e) in
      if code \<noteq> 0 \<or> py_startswith (py_lower msg) ''error''
      then Some (if take 300 msg \<noteq> [] then take 300 msg else ''IB error '' @ int_str code)
      else latest_error es)"

definition ib_reason_from_trade :: "ib_trade \<Rightarrow> string option" where
  "ib_reason_from_trade t = latest_error (rev (it_log t))"

definition ib_why_held :: "ib_trade \<Rightarrow> string option" where
  "ib_why_held t = or_none (take 60 (py_strip (str_or (it_why_held t))))"

text \<open>\<open>(reason or status or "")[:300]\<close>.\<close>

definition rejection_text_of :: "string option \<Rightarrow> string \<Rightarrow> string" where
  "rejection_text_of reason status =
     take 300 (case reason of None \<Rightarrow> status | Some r \<Rightarrow> if r = [] then status else r)"

fun state_name :: "order_state \<Rightarrow> string" where
  "state_name Pending = ''pending''"
| "state_name Submitted = ''submitted''"
| "state_name Acknowledged = ''acknowledged''"
| "state_name Partially_filled = ''partially_filled''"
| "state_name Filled = ''filled''"
| "state_name Rejected = ''rejected''"
| "state_name Cancelled = ''cancelled''"
| "state_name Expired = ''expired''"

section \<open>Status events\<close>

definition status_event_payload :: "payload \<Rightarrow> int \<Rightarrow> order_row \<Rightarrow> string \<Rightarrow> payload" where
  "status_event_payload base oid row status =
     base @ [(''order_id'', PInt oid), (''leg_idx'', PInt (o_leg_idx row)),
             (''state'', PStr (state_name (o_state row))), (''ib_status'', PStr status)]"

text \<open>Write the row, its audit line, commit, and publish.\<close>

definition status_write ::
  "int \<Rightarrow> order_row \<Rightarrow> order_row \<Rightarrow> string \<Rightarrow> severity \<Rightarrow> payload \<Rightarrow> payload \<Rightarrow> string \<Rightarrow> db \<Rightarrow>
     db \<times> published list" where
  "status_write oid row row' event_type sev pl ws status d =
     (audit oid row event_type sev pl (upd_order oid (\<lambda>_. row') d),
      [(o_structure_id row, status_event_payload ws oid row' status)])"

definition on_order_status :: "time \<Rightarrow> ib_trade \<Rightarrow> int \<Rightarrow> db \<Rightarrow> db \<times> published list" where
  "on_order_status now trade oid d =
     (case tget (t_orders d) oid of
        None \<Rightarrow> (d, [])
      | Some row \<Rightarrow>
          let status = it_status trade; reason = ib_reason_from_trade trade;
              why_held = ib_why_held trade; old_state = o_state row;
              tr = next_state old_state (Some status) (reason \<noteq> None);
              old_pl = [(''old_state'', PStr (state_name old_state))]
          in if tr_kind tr = Unknown then (d, [])
             else if tr_kind tr = Ignored_terminal then (d, [])
             else if tr_kind tr = Held then
               status_write oid row row ''order_held'' Sev_warning
                 [(''why_held'', p_opt_str why_held)]
                 [(''event_type'', PStr ''order_held''), (''why_held'', p_opt_str why_held)] status d
             else if new_state tr = Some Submitted then
               status_write oid row
                 (row\<lparr>o_state := Submitted,
                      o_submitted_at := Some (case o_submitted_at row of None \<Rightarrow> now | Some t \<Rightarrow> t)\<rparr>)
                 ''order_acknowledged'' Sev_info old_pl
                 [(''event_type'', PStr ''order_acknowledged'')] status d
             else if tr_kind tr = Noop \<and> old_state = Submitted \<and> o_acknowledged_at row = None then
               status_write oid row (row\<lparr>o_acknowledged_at := Some now\<rparr>)
                 ''order_acknowledged'' Sev_info []
                 [(''event_type'', PStr ''order_acknowledged'')] status d
             else if new_state tr = Some Rejected then
               (let txt = rejection_text_of reason status in
                status_write oid row
                  (row\<lparr>o_state := Rejected, o_rejected_at := Some now, o_rejection_text := Some txt\<rparr>)
                  ''order_rejected'' Sev_error old_pl
                  [(''event_type'', PStr ''order_rejected''), (''reason'', PStr txt)] status d)
             else if new_state tr = Some Cancelled then
               status_write oid row (row\<lparr>o_state := Cancelled\<rparr>)
                 ''order_cancelled'' Sev_warning old_pl
                 [(''event_type'', PStr ''order_cancelled'')] status d
             else (d, []))"

section \<open>The structure cascade\<close>

definition orders_of :: "db \<Rightarrow> int \<Rightarrow> order_row list" where
  "orders_of d sid = map snd (twhere (\<lambda>r. o_structure_id r = sid) (t_orders d))"

record structure_totals =
  st_premium :: flt
  st_commission :: flt
  st_slippage :: flt
  st_first :: "time option"
  st_last :: "time option"

definition order_multiplier :: "order_row \<Rightarrow> flt" where
  "order_multiplier r =
     (if o_contract_type r = ''future'' then future_multiplier (o_contract_symbol r)
      else EUR_FOP_MULTIPLIER)"

definition order_premium :: "order_row \<Rightarrow> flt" where
  "order_premium r =
     (if o_contract_type r = ''future'' then 0
      else (if o_side r = BUY then 1 else -1) * flt_or0 (o_avg_fill_price r)
             * of_int (o_qty_filled r) * EUR_FOP_MULTIPLIER)"

definition opt_merge :: "('a \<Rightarrow> 'a \<Rightarrow> 'a) \<Rightarrow> 'a option \<Rightarrow> 'a option \<Rightarrow> 'a option" where
  "opt_merge f a b = (case b of None \<Rightarrow> a | Some y \<Rightarrow> (case a of None \<Rightarrow> Some y | Some x \<Rightarrow> Some (f x y)))"

definition add_order :: "structure_totals \<Rightarrow> order_row \<Rightarrow> structure_totals" where
  "add_order t r =
     \<lparr>st_premium = st_premium t + order_premium r,
      st_commission = st_commission t + flt_or0 (o_total_commission_usd r),
      st_slippage = st_slippage t + flt_or0 (o_total_slippage_usd r) * order_multiplier r,
      st_first = opt_merge min (st_first t) (o_fully_filled_at r),
      st_last = opt_merge max (st_last t) (o_fully_filled_at r)\<rparr>"

definition totals_of :: "order_row list \<Rightarrow> structure_totals" where
  "totals_of rs = foldl add_order
     \<lparr>st_premium = 0, st_commission = 0, st_slippage = 0, st_first = None, st_last = None\<rparr> rs"

definition time_or :: "time option \<Rightarrow> time \<Rightarrow> time" where
  "time_or a now = (case a of None \<Rightarrow> now | Some t \<Rightarrow> t)"

definition complete_row :: "time \<Rightarrow> structure_totals \<Rightarrow> structure_row \<Rightarrow> structure_row" where
  "complete_row now t s =
     s\<lparr>s_state := S_fully_filled,
       s_first_fill_at := Some (time_or (st_first t) now),
       s_fully_filled_at := Some (time_or (st_last t) now),
       s_total_premium_paid_usd := Some (py_round 4 (st_premium t)),
       s_total_slippage_usd := Some (py_round 4 (st_slippage t)),
       s_total_commission_usd := Some (py_round 2 (st_commission t)),
       s_total_entry_cost_usd := Some (py_round 2 (st_slippage t + st_commission t))\<rparr>"

definition new_position :: "time \<Rightarrow> int \<Rightarrow> structure_row \<Rightarrow> position_row" where
  "new_position now sid s =
     \<lparr>b_structure_id = sid, b_opened_at = now,
      b_entry_premium_usd = flt_or0 (s_total_premium_paid_usd s),
      b_entry_total_cost_usd = flt_or0 (s_total_entry_cost_usd s),
      b_state = P_open, b_entry_vega_usd_per_volpt = None, b_entry_gamma_usd_per_pip2 = None,
      b_entry_theta_usd_per_day = None, b_closed_at = None, b_close_reason = None,
      b_exit_premium_usd = None, b_exit_total_cost_usd = None, b_gross_pnl_usd = None,
      b_net_pnl_usd = None, b_ib_reconciled_at = None,
        b_ib_qty_total = None, b_ib_qty_diff = None, b_state_updated_at = now,
        b_entry_spot = None, b_entry_iv_avg = None\<rparr>"

definition structure_event :: "int \<Rightarrow> string \<Rightarrow> severity \<Rightarrow> payload \<Rightarrow> event_row" where
  "structure_event sid ty sev pl =
     \<lparr>ev_event_type = ty, ev_severity = sev, ev_structure_id = Some sid,
      ev_order_id = None, ev_position_id = None, ev_payload = pl\<rparr>"

text \<open>The orders whose fills complete the structure: closing ones if there is nothing else.\<close>

definition primary_orders :: "order_row list \<Rightarrow> bool \<times> order_row list" where
  "primary_orders rs =
     (let closing_only = (\<forall>r \<in> set rs. o_order_role r = Closing)
      in (closing_only, filter (\<lambda>r. o_order_role r = (if closing_only then Closing else Entry)) rs))"

definition book_structure :: "time \<Rightarrow> int \<Rightarrow> order_row list \<Rightarrow> bool \<Rightarrow> structure_row \<Rightarrow> db \<Rightarrow> db" where
  "book_structure now sid rs closing_only s d =
     (let s' = complete_row now (totals_of rs) s;
          d1 = upd_structure sid (\<lambda>_. s') d;
          pl = [(''premium_usd'', p_opt_flt (s_total_premium_paid_usd s'))]
      in if closing_only
         then add_event (structure_event sid ''closing_structure_filled'' Sev_info pl) d1
         else refresh_book_state now ''EURUSD'' 100000
                (add_event (structure_event sid ''structure_filled'' Sev_info pl)
                  (if twhere (\<lambda>p. b_structure_id p = sid) (t_positions d1) = []
                   then d1\<lparr>t_positions := tins (new_position now sid s') (t_positions d1)\<rparr>
                   else d1)))"

definition completed_event :: "int \<Rightarrow> bool \<Rightarrow> structure_totals \<Rightarrow> published" where
  "completed_event sid closing_only t =
     (sid, [(''event_type'', PStr (if closing_only then ''closing_structure_filled'' else ''structure_filled'')),
            (''premium_usd'', PFlt (py_round 4 (st_premium t)))])"

definition maybe_complete_structure :: "time \<Rightarrow> int \<Rightarrow> db \<Rightarrow> db \<times> published list" where
  "maybe_complete_structure now sid d =
     (case tget (t_structures d) sid of
        None \<Rightarrow> (d, [])
      | Some s \<Rightarrow>
          if s_state s = S_fully_filled then (d, [])
          else let all_orders = orders_of d sid in
          if all_orders = [] then (d, [])
          else let (closing_only, rs) = primary_orders all_orders in
          if rs = [] then (d, [])
          else if \<not> (\<forall>r \<in> set rs. o_state r = Filled) then (d, [])
          else
            let d1 = book_structure now sid rs closing_only s d;
                ev = completed_event sid closing_only (totals_of rs)
            in (if closing_only then fst (finalise_position_close now sid d1) else d1, [ev]))"

section \<open>Fills\<close>

definition or_str :: "string option \<Rightarrow> string option \<Rightarrow> string option" where
  "or_str a b = (if a \<noteq> None \<and> a \<noteq> Some [] then a else b)"

definition norm_currency :: "string option \<Rightarrow> string option" where
  "norm_currency c = or_none (take 5 (py_upper (py_strip (str_or c))))"

definition fill_currency :: "ib_fill \<Rightarrow> string option" where
  "fill_currency x = norm_currency (or_str (x_report_currency x) (x_contract_currency x))"

definition fill_side :: "ib_fill \<Rightarrow> string" where
  "fill_side x = (if py_upper (x_side x) \<in> {''BOT'', BUY} then BUY else SELL)"

definition fill_row_of :: "time \<Rightarrow> ib_fill \<Rightarrow> int \<Rightarrow> order_row \<Rightarrow> fill_row" where
  "fill_row_of now x oid row =
     \<lparr>f_order_id = oid, f_ib_execution_id = x_exec_id x,
      f_timestamp = time_or (x_time x) now, f_qty_filled = py_trunc (x_shares x),
      f_fill_price = x_price x, f_commission_usd = flt_or0 (x_commission x),
      f_currency = fill_currency x, f_exchange = x_exchange x, f_side = fill_side x,
      f_trace_id = (case o_trace_id row of None \<Rightarrow> None | Some t \<Rightarrow> or_none t)\<rparr>"

text \<open>
  \<open>db.add(fill)\<close> and its flush: the execution id is unique over the whole table and the
  order must exist.
\<close>

definition insert_fill :: "fill_row \<Rightarrow> db \<Rightarrow> db result" where
  "insert_fill f d =
     (if \<exists>(k, g) \<in> set (t_fills d). f_ib_execution_id g = f_ib_execution_id f
      then Inl (IntegrityError ''trade_fill_ib_execution_id_key'')
      else if tget (t_orders d) (f_order_id f) = None
      then Inl (IntegrityError ''trade_fill_order_id_fkey'')
      else Inr (d\<lparr>t_fills := tins f (t_fills d)\<rparr>))"

definition stamp_local_symbol :: "ib_fill \<Rightarrow> order_row \<Rightarrow> order_row" where
  "stamp_local_symbol x r =
     (if o_ib_local_symbol r = None
      then (case x_local_symbol x of
              None \<Rightarrow> r
            | Some ls \<Rightarrow> if ls = [] then r else r\<lparr>o_ib_local_symbol := Some (take 20 ls)\<rparr>)
      else r)"

definition fill_event_of :: "fill_row \<Rightarrow> fill_event" where
  "fill_event_of f = \<lparr>fe_execution_id = f_ib_execution_id f, fe_qty_filled = f_qty_filled f,
     fe_fill_price = f_fill_price f, fe_commission_usd = f_commission_usd f\<rparr>"

definition write_aggregates :: "order_aggregate \<Rightarrow> order_row \<Rightarrow> order_row" where
  "write_aggregates ag r =
     r\<lparr>o_qty_filled := ag_qty_filled ag, o_avg_fill_price := ag_avg_fill_price ag,
       o_total_commission_usd := Some (ag_total_commission_usd ag),
       o_slippage_per_contract := ag_slippage_per_contract ag,
       o_total_slippage_usd := ag_total_slippage_usd ag\<rparr>"

definition recompute_aggregates :: "int \<Rightarrow> order_row \<Rightarrow> db \<Rightarrow> (order_row \<times> order_aggregate) result" where
  "recompute_aggregates oid r d =
     (case update_order_aggregates (map fill_event_of (order_fills d oid))
             (o_qty r) (o_side r) (o_preview_price r) of
        Inl e \<Rightarrow> Inl e
      | Inr ag \<Rightarrow> Inr (write_aggregates ag r, ag))"

text \<open>The state a fill puts its order in, and whether this fill completed it.\<close>

definition fill_state :: "time \<Rightarrow> order_aggregate \<Rightarrow> order_row \<Rightarrow> order_row \<times> bool" where
  "fill_state now ag r =
     (if ag_fully_filled ag \<and> o_state r \<noteq> Filled
      then (r\<lparr>o_state := Filled, o_fully_filled_at := Some now\<rparr>, True)
      else if \<not> ag_fully_filled ag then (r\<lparr>o_state := Partially_filled\<rparr>, False)
      else (r, False))"

definition release_if_closing :: "time \<Rightarrow> order_row \<Rightarrow> db \<Rightarrow> db" where
  "release_if_closing now r d =
     (if o_order_role r = Closing
      then (case o_closes_order_id r of None \<Rightarrow> d | Some eid \<Rightarrow> recompute_reservation now eid d)
      else d)"

datatype fill_outcome = Skipped | Persisted int bool payload

definition persist_txn :: "time \<Rightarrow> ib_fill \<Rightarrow> int \<Rightarrow> db \<Rightarrow> (db \<times> fill_outcome) result" where
  "persist_txn now x oid d =
     (if \<not> apply_fill_idempotent (map f_ib_execution_id (order_fills d oid)) (x_exec_id x)
      then Inr (d, Skipped)
      else (case tget (t_orders d) oid of
        None \<Rightarrow> Inl (IntegrityError ''trade_fill_order_id_fkey'')
      | Some row \<Rightarrow>
          (case insert_fill (fill_row_of now x oid row) d of
             Inl e \<Rightarrow> Inl e
           | Inr d1 \<Rightarrow>
               (case recompute_aggregates oid (stamp_local_symbol x row) d1 of
                  Inl e \<Rightarrow> Inl e
                | Inr (r1, ag) \<Rightarrow>
                    let (r2, full_fill) = fill_state now ag r1;
                        d2 = upd_order oid (\<lambda>_. r2) d1;
                        d3 = (if full_fill
                              then audit oid r2 ''order_filled'' Sev_info
                                     [(''slippage_per_contract'', p_opt_flt (ag_slippage_per_contract ag))] d2
                              else d2);
                        d4 = release_if_closing now r2 (rebuild_leg now oid d3)
                    in Inr (d4, Persisted (o_structure_id r2) (ag_fully_filled ag)
                         [(''event_type'', PStr (if full_fill then ''order_filled'' else ''order_partial_fill'')),
                          (''order_id'', PInt oid), (''qty_filled'', PInt (ag_qty_filled ag)),
                          (''avg_fill_price'', p_opt_flt (ag_avg_fill_price ag)),
                          (''state'', PStr (state_name (o_state r2)))])))))"

text \<open>\<open>_persist_fill\<close>: the transaction, the event, then the cascade in its own session.\<close>

definition persist_fill :: "time \<Rightarrow> ib_fill \<Rightarrow> int \<Rightarrow> db \<Rightarrow> (db \<times> published list) result" where
  "persist_fill now x oid d =
     (case persist_txn now x oid d of
        Inl e \<Rightarrow> Inl e
      | Inr (d1, Skipped) \<Rightarrow> Inr (d1, [])
      | Inr (d1, Persisted sid full pl) \<Rightarrow>
          if full then (case maybe_complete_structure now sid d1 of (d2, evs) \<Rightarrow> Inr (d2, (sid, pl) # evs))
          else Inr (d1, [(sid, pl)]))"

definition on_execution :: "time \<Rightarrow> ib_fill \<Rightarrow> int \<Rightarrow> db \<Rightarrow> db \<times> published list" where
  "on_execution now x oid d = (case persist_fill now x oid d of Inl e \<Rightarrow> (d, []) | Inr r \<Rightarrow> r)"

section \<open>Commission reports\<close>

definition on_commission_report :: "ib_fill \<Rightarrow> ib_report \<Rightarrow> int \<Rightarrow> db \<Rightarrow> db" where
  "on_commission_report x rep oid d =
     (let exec_id = (if x_exec_id x \<noteq> [] then x_exec_id x else rp_exec_id rep) in
      if exec_id = [] then d
      else
        let commission = flt_or0 (rp_commission rep);
            currency = norm_currency (rp_currency rep);
            hit = (\<lambda>f. f_order_id f = oid \<and> f_ib_execution_id f = exec_id)
        in case twhere hit (t_fills d) of
             [] \<Rightarrow> d
           | [(k, f)] \<Rightarrow>
               let d1 = d\<lparr>t_fills := tupd k (\<lambda>f. f\<lparr>f_commission_usd := commission,
                           f_currency := (case currency of None \<Rightarrow> f_currency f | Some c \<Rightarrow> Some c)\<rparr>)
                         (t_fills d)\<rparr>
               in (case tget (t_orders d1) oid of
                     None \<Rightarrow> d1
                   | Some row \<Rightarrow>
                       (case recompute_aggregates oid row d1 of
                          Inl e \<Rightarrow> d
                        | Inr (r1, ag) \<Rightarrow> upd_order oid (\<lambda>_. r1) d1))
           | _ \<Rightarrow> d)"

section \<open>Combo (BAG) orders\<close>

text \<open>\<open>_leg_for\<close>: the order of a leg, by the conId of the filled contract.\<close>

definition leg_for :: "(int \<times> int) list \<Rightarrow> ib_fill \<Rightarrow> int option" where
  "leg_for conid_to_order x =
     (case x_con_id x of None \<Rightarrow> None
      | Some c \<Rightarrow> if c = 0 then None else map_of conid_to_order c)"

definition on_combo_fill :: "time \<Rightarrow> (int \<times> int) list \<Rightarrow> ib_fill \<Rightarrow> db \<Rightarrow> db \<times> published list" where
  "on_combo_fill now m x d =
     (case leg_for m x of None \<Rightarrow> (d, []) | Some oid \<Rightarrow> on_execution now x oid d)"

definition on_combo_commission :: "(int \<times> int) list \<Rightarrow> ib_fill \<Rightarrow> ib_report \<Rightarrow> db \<Rightarrow> db" where
  "on_combo_commission m x rep d =
     (case leg_for m x of None \<Rightarrow> d
      | Some oid \<Rightarrow> if oid = 0 then d else on_commission_report x rep oid d)"

definition combo_perm :: "ib_trade \<Rightarrow> string" where
  "combo_perm t = (if it_perm_id t \<noteq> 0 then int_str (it_perm_id t)
     else if it_order_id t \<noteq> 0 then int_str (it_order_id t) else ''combo'')"

definition combo_exec_id :: "ib_trade \<Rightarrow> int \<Rightarrow> string" where
  "combo_exec_id t oid = ''combo-'' @ combo_perm t @ ''-'' @ int_str oid"

definition combo_fill_row :: "time \<Rightarrow> string \<Rightarrow> int \<Rightarrow> order_row \<Rightarrow> fill_row" where
  "combo_fill_row now exec_id oid r =
     \<lparr>f_order_id = oid, f_ib_execution_id = exec_id, f_timestamp = now,
      f_qty_filled = o_qty r, f_fill_price = flt_or0 (o_preview_price r), f_commission_usd = 0,
      f_currency = None, f_exchange = Some (o_contract_exchange r), f_side = o_side r,
      f_trace_id = None\<rparr>"

definition book_combo_leg :: "time \<Rightarrow> ib_trade \<Rightarrow> int \<Rightarrow> order_row \<Rightarrow> db \<Rightarrow> db result" where
  "book_combo_leg now t oid r d =
     (let exec_id = combo_exec_id t oid in
      case (if exec_id \<notin> set (map f_ib_execution_id (order_fills d oid))
            then insert_fill (combo_fill_row now exec_id oid r) d else Inr d) of
        Inl e \<Rightarrow> Inl e
      | Inr d1 \<Rightarrow>
          let r' = r\<lparr>o_qty_filled := o_qty r,
                     o_avg_fill_price := Some (case o_avg_fill_price r of
                        None \<Rightarrow> flt_or0 (o_preview_price r) | Some v \<Rightarrow> v),
                     o_state := Filled, o_fully_filled_at := Some now\<rparr>
          in Inr (release_if_closing now r' (rebuild_leg now oid
               (audit oid r' ''order_filled'' Sev_info [] (upd_order oid (\<lambda>_. r') d1)))))"

text \<open>The loop over the legs; the accumulator is the last structure id seen.\<close>

fun book_combo_legs ::
  "time \<Rightarrow> ib_trade \<Rightarrow> int list \<Rightarrow> int option \<Rightarrow> db \<Rightarrow> (db \<times> int option) result" where
  "book_combo_legs now t [] sid d = Inr (d, sid)"
| "book_combo_legs now t (oid # oids) sid d =
     (case tget (t_orders d) oid of
        None \<Rightarrow> book_combo_legs now t oids sid d
      | Some r \<Rightarrow>
          if o_state r = Filled then book_combo_legs now t oids (Some (o_structure_id r)) d
          else (case book_combo_leg now t oid r d of
                  Inl e \<Rightarrow> Inl e
                | Inr d' \<Rightarrow> book_combo_legs now t oids (Some (o_structure_id r)) d'))"

definition book_combo_filled :: "time \<Rightarrow> ib_trade \<Rightarrow> int list \<Rightarrow> db \<Rightarrow> (db \<times> published list) result" where
  "book_combo_filled now t oids d =
     (case book_combo_legs now t oids None d of
        Inl e \<Rightarrow> Inl e
      | Inr (d1, None) \<Rightarrow> Inr (d1, [])
      | Inr (d1, Some sid) \<Rightarrow> Inr (maybe_complete_structure now sid d1))"

text \<open>A combo cancel or reject, one leg.\<close>

definition combo_status_leg :: "time \<Rightarrow> string \<Rightarrow> string option \<Rightarrow> int \<Rightarrow> db \<Rightarrow> db" where
  "combo_status_leg now status reason oid d =
     (case tget (t_orders d) oid of
        None \<Rightarrow> d
      | Some r \<Rightarrow>
          (let tr = next_state (o_state r) (Some status) (reason \<noteq> None) in
           if new_state tr = Some Cancelled then
             (let r' = r\<lparr>o_state := Cancelled\<rparr>
              in audit oid r' ''order_cancelled'' Sev_warning [] (upd_order oid (\<lambda>_. r') d))
           else if new_state tr = Some Rejected then
             (let r' = r\<lparr>o_state := Rejected, o_rejected_at := Some now,
                         o_rejection_text := Some (rejection_text_of reason status)\<rparr>
              in audit oid r' ''order_rejected'' Sev_warning [] (upd_order oid (\<lambda>_. r') d))
           else d))"

definition on_combo_status :: "time \<Rightarrow> ib_trade \<Rightarrow> int list \<Rightarrow> db \<Rightarrow> db \<times> published list" where
  "on_combo_status now t oids d =
     (let status = it_status t; reason = ib_reason_from_trade t;
          probe = next_state Submitted (Some status) (reason \<noteq> None)
      in if tr_kind probe = Fill_pending
         then (case book_combo_filled now t oids d of Inl e \<Rightarrow> (d, []) | Inr r \<Rightarrow> r)
         else if tr_kind probe = Unknown then (d, [])
         else if new_state probe \<notin> {Some Cancelled, Some Rejected} then (d, [])
         else (foldl (\<lambda>d oid. combo_status_leg now status reason oid d) d oids, []))"

end
