(* ===== verification/Fills_Correctness.thy ===== *)
theory Fills_Correctness
  imports Fills_Handler
begin

text \<open>
  What the fill handlers guarantee. The contract of an idempotent event log (a step that
  appends an entry under a new key and does nothing under a known one) is the locale
  \<open>idempotent_log\<close>; \<open>_persist_fill\<close> provides it, so any two deliveries of the same
  executions, in any order and with any replays, leave the same order row and the same
  open quantity. The second part is the invariant of the book under every handler.
\<close>

section \<open>The interface: an idempotent event log\<close>

locale idempotent_log =
  fixes step :: "'s \<Rightarrow> 'e \<Rightarrow> 's" and log :: "'s \<Rightarrow> 'l list"
    and key :: "'e \<Rightarrow> 'k" and lkey :: "'l \<Rightarrow> 'k" and entry :: "'e \<Rightarrow> 'l"
    and ok :: "'s \<Rightarrow> bool" and good :: "'e \<Rightarrow> bool"
    and view :: "'s \<Rightarrow> 'v" and derive :: "'l list \<Rightarrow> 'v"
  assumes lkey_entry: "lkey (entry e) = key e"
    and ok_step: "ok s \<Longrightarrow> good e \<Longrightarrow> ok (step s e)"
    and known: "ok s \<Longrightarrow> good e \<Longrightarrow> key e \<in> lkey ` set (log s) \<Longrightarrow> step s e = s"
    and fresh_log: "ok s \<Longrightarrow> good e \<Longrightarrow> key e \<notin> lkey ` set (log s) \<Longrightarrow> log (step s e) = log s @ [entry e]"
    and fresh_view: "ok s \<Longrightarrow> good e \<Longrightarrow> key e \<notin> lkey ` set (log s) \<Longrightarrow>
      view (step s e) = derive (log (step s e))"
    and derive_perm: "mset l = mset l' \<Longrightarrow> derive l = derive l'"
begin

lemma ok_run: "ok s \<Longrightarrow> (\<And>e. e \<in> set es \<Longrightarrow> good e) \<Longrightarrow> ok (foldl step s es)"
  by (induction es arbitrary: s) (simp_all add: ok_step)

lemma step_log_keys:
  "ok s \<Longrightarrow> good e \<Longrightarrow> lkey ` set (log (step s e)) = insert (key e) (lkey ` set (log s))"
  by (cases "key e \<in> lkey ` set (log s)") (auto simp: known fresh_log lkey_entry)

lemma log_run:
  assumes "ok s" "\<And>e. e \<in> set es \<Longrightarrow> good e"
    "\<And>e f. e \<in> set es \<Longrightarrow> f \<in> set es \<Longrightarrow> key e = key f \<Longrightarrow> entry e = entry f"
  shows "\<exists>L. log (foldl step s es) = log s @ L \<and> distinct L \<and> set L = entry ` {f \<in> set es. key f \<notin> lkey ` set (log s)}"
  using assms
proof (induction es arbitrary: s)
  case Nil
  then show ?case by simp
next
  case (Cons e es)
  have okt: "ok (step s e)" and g: "good e" using Cons.prems ok_step by simp_all
  have "\<exists>L. log (foldl step (step s e) es) = log (step s e) @ L \<and> distinct L
      \<and> set L = entry ` {f \<in> set es. key f \<notin> lkey ` set (log (step s e))}"
    by (rule Cons.IH [OF okt]) (use Cons.prems in auto)
  then obtain L where L: "log (foldl step (step s e) es) = log (step s e) @ L" "distinct L"
    "set L = entry ` {f \<in> set es. key f \<notin> lkey ` set (log (step s e))}" by blast
  show ?case
  proof (cases "key e \<in> lkey ` set (log s)")
    case True
    then have "step s e = s" using known Cons.prems g by blast
    with True have "entry ` {f \<in> set es. key f \<notin> lkey ` set (log (step s e))} =
        entry ` {f \<in> set (e # es). key f \<notin> lkey ` set (log s)}"
      by (intro arg_cong [where f = "image entry"]) auto
    with L \<open>step s e = s\<close> show ?thesis by (intro exI [of _ L]) simp
  next
    case False
    have eq: "log (step s e) = log s @ [entry e]" using fresh_log Cons.prems g False by blast
    have keys: "lkey ` set (log (step s e)) = insert (key e) (lkey ` set (log s))"
      by (rule step_log_keys [OF Cons.prems(1) g])
    have "key e \<notin> lkey ` set L" unfolding L(3) keys by (auto simp: lkey_entry)
    then have new: "entry e \<notin> set L" by (metis image_eqI lkey_entry)
    have set: "insert (entry e) (set L) = entry ` {f \<in> set (e # es). key f \<notin> lkey ` set (log s)}"
      (is "_ = ?R")
    proof
      show "insert (entry e) (set L) \<subseteq> ?R" unfolding L(3) keys using False by auto
      show "?R \<subseteq> insert (entry e) (set L)"
      proof
        fix x assume "x \<in> ?R"
        then obtain f where f: "f \<in> set (e # es)" "key f \<notin> lkey ` set (log s)" "x = entry f" by auto
        show "x \<in> insert (entry e) (set L)"
        proof (cases "key f = key e")
          case True
          then have "entry f = entry e" using Cons.prems(3) [of f e] f(1) by simp
          with f show ?thesis by simp
        next
          case k: False
          with f have "f \<in> set es" by auto
          with f k show ?thesis unfolding L(3) keys by auto
        qed
      qed
    qed
    show ?thesis
      by (rule exI [of _ "entry e # L"]) (use L eq new set in simp)
  qed
qed

lemma view_run:
  assumes "ok s" "\<And>e. e \<in> set es \<Longrightarrow> good e" "\<exists>e \<in> set es. key e \<notin> lkey ` set (log s)"
  shows "view (foldl step s es) = derive (log (foldl step s es))"
  using assms
proof (induction es arbitrary: s)
  case Nil
  then show ?case by simp
next
  case (Cons e es)
  have okt: "ok (step s e)" and g: "good e" using Cons.prems ok_step by simp_all
  show ?case
  proof (cases "\<exists>f \<in> set es. key f \<notin> lkey ` set (log (step s e))")
    case True
    with Cons.IH [OF okt] Cons.prems show ?thesis by simp
  next
    case False
    have run: "ok t \<Longrightarrow> \<forall>f \<in> set fs. good f \<and> key f \<in> lkey ` set (log t) \<Longrightarrow> foldl step t fs = t"
      for t fs by (induction fs) (simp_all add: known)
    have "foldl step (step s e) es = step s e" using run okt False Cons.prems by simp
    moreover have "key e \<notin> lkey ` set (log s)"
      using False Cons.prems step_log_keys [OF Cons.prems(1) g] by auto
    ultimately show ?thesis using fresh_view Cons.prems g by simp
  qed
qed

text \<open>Two deliveries of the same entries leave the same view.\<close>

lemma converge:
  assumes "ok s" "\<And>e. e \<in> set es \<union> set fs \<Longrightarrow> good e" "\<exists>e \<in> set es. key e \<notin> lkey ` set (log s)"
    "\<And>e f. e \<in> set es \<Longrightarrow> f \<in> set es \<Longrightarrow> key e = key f \<Longrightarrow> entry e = entry f"
    and same: "entry ` set fs = entry ` set es"
  shows "view (foldl step s es) = view (foldl step s fs)"
proof -
  have run: "\<exists>L. log (foldl step s gs) = log s @ L \<and> distinct L \<and>
      set L = {l \<in> entry ` set es. lkey l \<notin> lkey ` set (log s)}"
    if gs: "entry ` set gs = entry ` set es" "\<And>e. e \<in> set gs \<Longrightarrow> good e" for gs
  proof -
    have "\<exists>L. log (foldl step s gs) = log s @ L \<and> distinct L \<and>
      set L = entry ` {f \<in> set gs. key f \<notin> lkey ` set (log s)}"
    proof (rule log_run [OF assms(1) gs(2)])
      fix e f assume e: "e \<in> set gs" and f: "f \<in> set gs" and k: "key e = key f"
      from e gs(1) obtain e' where e': "e' \<in> set es" "entry e' = entry e" by (metis image_iff)
      from f gs(1) obtain f' where f': "f' \<in> set es" "entry f' = entry f" by (metis image_iff)
      have "key e' = key f'" using e'(2) f'(2) k by (metis lkey_entry)
      then show "entry e = entry f" using assms(4) e' f' by metis
    qed
    moreover have "entry ` {f \<in> set gs. key f \<notin> lkey ` set (log s)} =
        {l \<in> entry ` set gs. lkey l \<notin> lkey ` set (log s)}"
      by (auto simp: lkey_entry)
    ultimately show ?thesis by (simp only: gs(1))
  qed
  have "\<exists>L. log (foldl step s es) = log s @ L \<and> distinct L \<and>
      set L = {l \<in> entry ` set es. lkey l \<notin> lkey ` set (log s)}"
    by (rule run) (simp_all add: assms(2))
  then obtain L where L: "log (foldl step s es) = log s @ L" "distinct L"
    "set L = {l \<in> entry ` set es. lkey l \<notin> lkey ` set (log s)}" by blast
  have "\<exists>L. log (foldl step s fs) = log s @ L \<and> distinct L \<and>
      set L = {l \<in> entry ` set es. lkey l \<notin> lkey ` set (log s)}"
    by (rule run [OF same]) (simp add: assms(2))
  then obtain M where M: "log (foldl step s fs) = log s @ M" "distinct M"
    "set M = {l \<in> entry ` set es. lkey l \<notin> lkey ` set (log s)}" by blast
  have "set L = set M" by (simp only: L M)
  then have "mset L = mset M"
    using set_eq_iff_mset_eq_distinct [OF L(2) M(2)] by blast
  then have "derive (log (foldl step s es)) = derive (log (foldl step s fs))"
    by (intro derive_perm) (simp add: L M)
  moreover have "view (foldl step s fs) = derive (log (foldl step s fs))"
  proof (rule view_run [OF assms(1)])
    show "\<And>e. e \<in> set fs \<Longrightarrow> good e" by (simp add: assms(2))
    obtain e where e: "e \<in> set es" "key e \<notin> lkey ` set (log s)" using assms(3) by blast
    then obtain f where "f \<in> set fs" "entry f = entry e" using same by (metis image_iff)
    with e show "\<exists>e \<in> set fs. key e \<notin> lkey ` set (log s)" by (metis lkey_entry)
  qed
  moreover have "view (foldl step s es) = derive (log (foldl step s es))"
    by (rule view_run [OF assms(1) _ assms(3)]) (simp add: assms(2))
  ultimately show ?thesis by metis
qed

end

section \<open>What a recorded fill does\<close>

lemma book_structure_frame [simp]:
  "t_orders (book_structure now sid rs c s d) = t_orders d"
  "t_fills (book_structure now sid rs c s d) = t_fills d"
  "t_legs (book_structure now sid rs c s d) = t_legs d"
  by (simp_all add: book_structure_def Let_def)

lemma maybe_complete_frame [simp]:
  "t_orders (fst (maybe_complete_structure now sid d)) = t_orders d"
  "t_fills (fst (maybe_complete_structure now sid d)) = t_fills d"
  "t_legs (fst (maybe_complete_structure now sid d)) = t_legs d"
  by (simp_all add: maybe_complete_structure_def Let_def split: option.split prod.split)

lemma release_if_closing_frame [simp]:
  "t_orders (release_if_closing now r d) = t_orders d" "t_fills (release_if_closing now r d) = t_fills d"
  "t_structures (release_if_closing now r d) = t_structures d"
  "t_positions (release_if_closing now r d) = t_positions d"
  "open_of (release_if_closing now r d) = open_of d"
  by (auto simp: release_if_closing_def open_of_recompute split: option.split)

lemma order_fills_cong: "t_fills d = t_fills d' \<Longrightarrow> order_fills d = order_fills d'"
  by (rule ext) (simp add: order_fills_def)

lemma order_fills_tins:
  "t_fills d' = tins f (t_fills d) \<Longrightarrow>
     order_fills d' oid = order_fills d oid @ (if f_order_id f = oid then [f] else [])"
  by (simp add: order_fills_def twhere_tins)

lemma stamp_local_symbol_sel [simp]:
  "o_qty (stamp_local_symbol x r) = o_qty r" "o_side (stamp_local_symbol x r) = o_side r"
  "o_preview_price (stamp_local_symbol x r) = o_preview_price r"
  "o_state (stamp_local_symbol x r) = o_state r" "o_structure_id (stamp_local_symbol x r) = o_structure_id r"
  "o_order_role (stamp_local_symbol x r) = o_order_role r"
  by (simp_all add: stamp_local_symbol_def split: option.split)

lemma write_aggregates_sel [simp]:
  "o_qty (write_aggregates ag r) = o_qty r" "o_side (write_aggregates ag r) = o_side r"
  "o_preview_price (write_aggregates ag r) = o_preview_price r"
  "o_state (write_aggregates ag r) = o_state r" "o_structure_id (write_aggregates ag r) = o_structure_id r"
  "o_order_role (write_aggregates ag r) = o_order_role r"
  "o_qty_filled (write_aggregates ag r) = ag_qty_filled ag"
  "o_avg_fill_price (write_aggregates ag r) = ag_avg_fill_price ag"
  "o_total_commission_usd (write_aggregates ag r) = Some (ag_total_commission_usd ag)"
  "o_slippage_per_contract (write_aggregates ag r) = ag_slippage_per_contract ag"
  "o_total_slippage_usd (write_aggregates ag r) = ag_total_slippage_usd ag"
  by (simp_all add: write_aggregates_def)

lemma fill_state_sel [simp]:
  "o_qty (fst (fill_state now ag r)) = o_qty r" "o_side (fst (fill_state now ag r)) = o_side r"
  "o_preview_price (fst (fill_state now ag r)) = o_preview_price r"
  "o_structure_id (fst (fill_state now ag r)) = o_structure_id r"
  "o_order_role (fst (fill_state now ag r)) = o_order_role r"
  "o_qty_filled (fst (fill_state now ag r)) = o_qty_filled r"
  "o_avg_fill_price (fst (fill_state now ag r)) = o_avg_fill_price r"
  "o_total_commission_usd (fst (fill_state now ag r)) = o_total_commission_usd r"
  "o_slippage_per_contract (fst (fill_state now ag r)) = o_slippage_per_contract r"
  "o_total_slippage_usd (fst (fill_state now ag r)) = o_total_slippage_usd r"
  "o_state (fst (fill_state now ag r)) = (if ag_fully_filled ag then Filled else Partially_filled)"
  by (auto simp: fill_state_def)

lemma fill_row_of_sel [simp]:
  "f_order_id (fill_row_of now x oid row) = oid"
  "f_ib_execution_id (fill_row_of now x oid row) = x_exec_id x"
  by (simp_all add: fill_row_of_def)

lemma insert_fill_Inr:
  "insert_fill f d = Inr d1 \<Longrightarrow>
     d1 = d\<lparr>t_fills := tins f (t_fills d)\<rparr> \<and> (\<forall>(k, g) \<in> set (t_fills d). f_ib_execution_id g \<noteq> f_ib_execution_id f)"
  by (auto simp: insert_fill_def split: if_splits)

text \<open>The order row after a fill, given its row before and the fills it has now.\<close>

definition filled_row :: "time \<Rightarrow> ib_fill \<Rightarrow> order_aggregate \<Rightarrow> order_row \<Rightarrow> order_row" where
  "filled_row now x ag row = fst (fill_state now ag (write_aggregates ag (stamp_local_symbol x row)))"

lemma persist_txn_stored:
  assumes "persist_txn now x oid d = Inr (d', Persisted sid full pl)"
  obtains row ag where "tget (t_orders d) oid = Some row"
    "\<forall>(k, g) \<in> set (t_fills d). f_ib_execution_id g \<noteq> x_exec_id x"
    "t_fills d' = tins (fill_row_of now x oid row) (t_fills d)"
    "update_order_aggregates (map fill_event_of (order_fills d' oid)) (o_qty row) (o_side row)
       (o_preview_price row) = Inr ag"
    "t_orders d' = tupd oid (\<lambda>_. filled_row now x ag row) (t_orders d)"
    "t_structures d' = t_structures d" "t_positions d' = t_positions d"
    "\<And>j. open_of d' j = (if j = oid then open_qty (leg_truth d' oid) else open_of d j)"
    "sid = o_structure_id row" "full = ag_fully_filled ag"
proof -
  from assms obtain row d1 r1 ag where
    r: "tget (t_orders d) oid = Some row"
    and i: "insert_fill (fill_row_of now x oid row) d = Inr d1"
    and a: "recompute_aggregates oid (stamp_local_symbol x row) d1 = Inr (r1, ag)"
    by (auto simp: persist_txn_def split: if_splits option.splits sum.splits prod.splits)
  let ?fs = "fill_state now ag r1"
  let ?d3 = "if snd ?fs then audit oid (fst ?fs) ''order_filled'' Sev_info
      [(''slippage_per_contract'', p_opt_flt (ag_slippage_per_contract ag))] (upd_order oid (\<lambda>_. fst ?fs) d1)
    else upd_order oid (\<lambda>_. fst ?fs) d1"
  have d': "d' = release_if_closing now (fst ?fs) (rebuild_leg now oid ?d3)"
    "sid = o_structure_id (fst ?fs)" "full = ag_fully_filled ag"
    using assms r i a
    by (auto simp: persist_txn_def Let_def split_beta split: if_splits option.splits sum.splits)
  have d1: "d1 = d\<lparr>t_fills := tins (fill_row_of now x oid row) (t_fills d)\<rparr>"
    and new: "\<forall>(k, g) \<in> set (t_fills d). f_ib_execution_id g \<noteq> x_exec_id x"
    using insert_fill_Inr [OF i] by auto
  have r1: "r1 = write_aggregates ag (stamp_local_symbol x row)"
    and ag: "update_order_aggregates (map fill_event_of (order_fills d1 oid)) (o_qty row) (o_side row)
       (o_preview_price row) = Inr ag"
    using a by (auto simp: recompute_aggregates_def split: sum.splits)
  have f3: "t_fills ?d3 = t_fills d1" "t_legs ?d3 = t_legs d1" by simp_all
  have f: "t_fills d' = t_fills d1" unfolding d'(1) by simp
  have tr: "leg_truth ?d3 = leg_truth d'" by (rule leg_truth_cong) (simp add: f)
  have op: "open_of d' j = (if j = oid then open_qty (leg_truth d' oid) else open_of d j)" for j
  proof -
    have "open_of ?d3 j = open_of d j" by (simp add: open_of_def d1)
    moreover have "open_of d' j = open_of (rebuild_leg now oid ?d3) j" by (simp only: d'(1) release_if_closing_frame)
    ultimately show ?thesis by (simp only: open_of_rebuild tr)
  qed
  show ?thesis
  proof (rule that [OF r new])
    show "t_fills d' = tins (fill_row_of now x oid row) (t_fills d)" by (simp add: f d1)
    show "update_order_aggregates (map fill_event_of (order_fills d' oid)) (o_qty row) (o_side row)
       (o_preview_price row) = Inr ag" using ag order_fills_cong [OF f] by simp
    show "t_orders d' = tupd oid (\<lambda>_. filled_row now x ag row) (t_orders d)"
      by (simp add: d'(1) d1 r1 filled_row_def)
    show "t_structures d' = t_structures d" "t_positions d' = t_positions d" by (simp_all add: d'(1) d1)
    show "sid = o_structure_id row" by (simp add: d'(2) r1)
  qed (use d'(3) op in auto)
qed

lemma persist_txn_skipped: "persist_txn now x oid d = Inr (d', Skipped) \<Longrightarrow> d' = d"
  by (auto simp: persist_txn_def Let_def split: if_splits option.splits sum.splits prod.splits)

text \<open>A new execution of a known order with a valid side is recorded.\<close>

lemma persist_txn_ok:
  assumes "tget (t_orders d) oid = Some row" "py_upper (o_side row) \<in> {BUY, SELL}"
    "\<forall>(k, g) \<in> set (t_fills d). f_ib_execution_id g \<noteq> x_exec_id x"
  shows "\<exists>d' sid full pl. persist_txn now x oid d = Inr (d', Persisted sid full pl)"
proof -
  have "x_exec_id x \<notin> set (map f_ib_execution_id (order_fills d oid))"
    using assms(3) by (auto simp: order_fills_def)
  moreover have "insert_fill (fill_row_of now x oid row) d = Inr (d\<lparr>t_fills := tins (fill_row_of now x oid row) (t_fills d)\<rparr>)"
    using assms(1,3) by (auto simp: insert_fill_def)
  moreover obtain ag where "update_order_aggregates (map fill_event_of (order_fills
      (d\<lparr>t_fills := tins (fill_row_of now x oid row) (t_fills d)\<rparr>) oid))
      (o_qty row) (o_side row) (o_preview_price row) = Inr ag"
    using aggregates_total [OF assms(2)] unfolding is_ok_def by (metis sum.case_eq_if sum.collapse(2))
  ultimately show ?thesis using assms(1)
    by (simp add: persist_txn_def apply_fill_idempotent_def recompute_aggregates_def Let_def split_beta)
qed

section \<open>The handler is an idempotent log\<close>

lemma persist_fill_txn:
  assumes "persist_txn now x oid d = Inr (d', out)"
  shows "\<exists>d2 evs. persist_fill now x oid d = Inr (d2, evs) \<and>
    t_orders d2 = t_orders d' \<and> t_fills d2 = t_fills d' \<and> t_legs d2 = t_legs d'"
proof (cases out)
  case Skipped
  with assms show ?thesis by (simp add: persist_fill_def)
next
  case (Persisted sid full pl)
  show ?thesis
  proof (cases full)
    case True
    obtain d2 evs where m: "maybe_complete_structure now sid d' = (d2, evs)"
      by (cases "maybe_complete_structure now sid d'")
    have "persist_fill now x oid d = Inr (d2, (sid, pl) # evs)"
      using assms Persisted True m by (simp add: persist_fill_def)
    then show ?thesis using maybe_complete_frame [of now sid d'] m by simp
  next
    case False
    with assms Persisted show ?thesis by (simp add: persist_fill_def)
  qed
qed

text \<open>The outcome of one delivery, seen on the three tables it writes.\<close>

lemma on_execution_cases:
  obtains (unchanged) "fst (on_execution now x oid d) = d"
  | (stored) d' sid full pl where "persist_txn now x oid d = Inr (d', Persisted sid full pl)"
      "t_orders (fst (on_execution now x oid d)) = t_orders d'"
      "t_fills (fst (on_execution now x oid d)) = t_fills d'"
      "t_legs (fst (on_execution now x oid d)) = t_legs d'"
proof (cases "persist_txn now x oid d")
  case (Inl e)
  then show ?thesis by (intro unchanged) (simp add: on_execution_def persist_fill_def)
next
  case (Inr p)
  obtain d' out where p: "p = (d', out)" by (cases p)
  show ?thesis
  proof (cases out)
    case Skipped
    with Inr p persist_txn_skipped [of now x oid d d'] show ?thesis
      by (intro unchanged) (simp add: on_execution_def persist_fill_def)
  next
    case (Persisted sid full pl)
    from persist_fill_txn [of now x oid d d' out] Inr p obtain d2 evs where
      "persist_fill now x oid d = Inr (d2, evs)" "t_orders d2 = t_orders d'" "t_fills d2 = t_fills d'"
      "t_legs d2 = t_legs d'" by auto
    with Inr p Persisted show ?thesis by (intro stored [of d' sid full pl]) (simp_all add: on_execution_def)
  qed
qed

type_synonym fill_log_entry = "fill_event \<times> leg_fill"

definition fill_log :: "int \<Rightarrow> db \<Rightarrow> fill_log_entry list" where
  "fill_log oid d = map (\<lambda>f. (fill_event_of f, fill_of_row f)) (order_fills d oid)"

definition delivered_entry :: "time \<times> ib_fill \<Rightarrow> fill_log_entry" where
  "delivered_entry e = (case e of (now, x) \<Rightarrow>
     (\<lparr>fe_execution_id = x_exec_id x, fe_qty_filled = py_trunc (x_shares x), fe_fill_price = x_price x,
       fe_commission_usd = flt_or0 (x_commission x)\<rparr>,
      \<lparr>lf_side = fill_side x, lf_qty = of_int (py_trunc (x_shares x)), lf_price = x_price x\<rparr>))"

text \<open>Everything of an order that its fills determine.\<close>

type_synonym order_view =
  "int \<times> flt option \<times> flt option \<times> flt option \<times> flt option \<times> order_state \<times> flt"

definition order_view :: "int \<Rightarrow> db \<Rightarrow> order_view option" where
  "order_view oid d = map_option
     (\<lambda>r. (o_qty_filled r, o_avg_fill_price r, o_total_commission_usd r, o_slippage_per_contract r,
           o_total_slippage_usd r, o_state r, open_of d oid)) (tget (t_orders d) oid)"

definition derived_view :: "int \<Rightarrow> string \<Rightarrow> flt option \<Rightarrow> fill_log_entry list \<Rightarrow> order_view option" where
  "derived_view q side preview l =
     (case update_order_aggregates (map fst l) q side preview of
        Inl e \<Rightarrow> None
      | Inr ag \<Rightarrow> Some (ag_qty_filled ag, ag_avg_fill_price ag, Some (ag_total_commission_usd ag),
           ag_slippage_per_contract ag, ag_total_slippage_usd ag,
           (if ag_fully_filled ag then Filled else Partially_filled), open_qty (fold_fills (map snd l))))"

lemma derived_view_perm:
  assumes "mset l = mset l'"
  shows "derived_view q side preview l = derived_view q side preview l'"
proof -
  have "mset (map fst l) = mset (map fst l')" "mset (map snd l) = mset (map snd l')"
    using assms by simp_all
  then have eqs: "update_order_aggregates (map fst l) q side preview = update_order_aggregates (map fst l') q side preview"
    "fold_fills (map snd l) = fold_fills (map snd l')"
    by (simp_all only: aggregates_perm [of "map fst l" "map fst l'"] fold_fills_perm [of "map snd l" "map snd l'"])
  show ?thesis unfolding derived_view_def eqs by (rule refl)
qed

lemma order_view_stored:
  assumes "persist_txn now x oid d = Inr (d', Persisted sid full pl)"
    "tget (t_orders d) oid = Some row"
  shows "order_view oid d' = derived_view (o_qty row) (o_side row) (o_preview_price row) (fill_log oid d')"
  using assms(1)
proof (rule persist_txn_stored)
  fix row' ag
  assume r: "tget (t_orders d) oid = Some row'"
    and ag: "update_order_aggregates (map fill_event_of (order_fills d' oid)) (o_qty row') (o_side row')
       (o_preview_price row') = Inr ag"
    and t: "t_orders d' = tupd oid (\<lambda>_. filled_row now x ag row') (t_orders d)"
    and op: "\<And>j. open_of d' j = (if j = oid then open_qty (leg_truth d' oid) else open_of d j)"
  from r assms(2) have "row' = row" by simp
  then show ?thesis using ag
    by (simp add: order_view_def derived_view_def t tbl.get_upd assms(2) filled_row_def fill_log_def
        comp_def op leg_truth_def)
qed

lemma fill_log_stored:
  assumes "persist_txn now x oid d = Inr (d', Persisted sid full pl)"
  shows "fill_log oid d' = fill_log oid d @ [delivered_entry (now, x)]"
  using assms
proof (rule persist_txn_stored)
  fix row
  assume "t_fills d' = tins (fill_row_of now x oid row) (t_fills d)"
  from order_fills_tins [OF this, of oid] show ?thesis
    by (simp add: fill_log_def fill_event_of_def fill_of_row_def fill_row_of_def delivered_entry_def)
qed

lemma fill_log_keys:
  "fe_execution_id ` fst ` set (fill_log oid d) = f_ib_execution_id ` set (order_fills d oid)"
  by (simp add: fill_log_def image_image fill_event_of_def)

lemma open_of_legs: "t_legs d = t_legs d' \<Longrightarrow> open_of d = open_of d'"
  by (rule ext) (simp add: open_of_def)

lemma order_view_cong:
  "t_orders d = t_orders d' \<Longrightarrow> t_legs d = t_legs d' \<Longrightarrow> order_view oid d = order_view oid d'"
  using open_of_legs [of d d'] by (simp add: order_view_def)

lemma fill_log_cong: "t_fills d = t_fills d' \<Longrightarrow> fill_log oid d = fill_log oid d'"
  using order_fills_cong [of d d'] by (simp add: fill_log_def)

text \<open>The order exists with these terms, and the ids in \<open>G\<close> are its own.\<close>

definition order_ready :: "int \<Rightarrow> int \<Rightarrow> string \<Rightarrow> flt option \<Rightarrow> string set \<Rightarrow> db \<Rightarrow> bool" where
  "order_ready oid q side preview G d =
     (py_upper side \<in> {BUY, SELL} \<and>
      (case tget (t_orders d) oid of None \<Rightarrow> False
       | Some r \<Rightarrow> o_qty r = q \<and> o_side r = side \<and> o_preview_price r = preview) \<and>
      (\<forall>(k, f) \<in> set (t_fills d). f_ib_execution_id f \<in> G \<longrightarrow> f_order_id f = oid))"

lemma order_ready_row:
  "order_ready oid q side preview G d \<Longrightarrow>
     \<exists>r. tget (t_orders d) oid = Some r \<and> o_qty r = q \<and> o_side r = side \<and> o_preview_price r = preview"
  by (auto simp: order_ready_def split: option.splits)

lemma order_ready_known:
  assumes "order_ready oid q side preview G d" "x_exec_id x \<in> G"
  shows "x_exec_id x \<in> f_ib_execution_id ` set (order_fills d oid) \<longleftrightarrow>
    \<not> (\<forall>(k, g) \<in> set (t_fills d). f_ib_execution_id g \<noteq> x_exec_id x)"
proof
  assume "x_exec_id x \<in> f_ib_execution_id ` set (order_fills d oid)"
  then obtain k g where "(k, g) \<in> set (t_fills d)" "f_ib_execution_id g = x_exec_id x"
    by (auto simp: order_fills_def)
  then show "\<not> (\<forall>(k, g) \<in> set (t_fills d). f_ib_execution_id g \<noteq> x_exec_id x)" by blast
next
  assume "\<not> (\<forall>(k, g) \<in> set (t_fills d). f_ib_execution_id g \<noteq> x_exec_id x)"
  then obtain k g where g: "(k, g) \<in> set (t_fills d)" "f_ib_execution_id g = x_exec_id x" by blast
  with assms have "f_order_id g = oid" by (auto simp: order_ready_def)
  with g have "g \<in> set (order_fills d oid)" by (auto simp: order_fills_def intro: image_eqI [of _ _ "(k, g)"])
  with g show "x_exec_id x \<in> f_ib_execution_id ` set (order_fills d oid)" by (metis image_eqI)
qed

lemma order_ready_fresh:
  assumes ok: "order_ready oid q side preview G d" and G: "x_exec_id x \<in> G"
    and new: "x_exec_id x \<notin> f_ib_execution_id ` set (order_fills d oid)"
  obtains d' sid full pl where "persist_txn now x oid d = Inr (d', Persisted sid full pl)"
    "t_orders (fst (on_execution now x oid d)) = t_orders d'"
    "t_fills (fst (on_execution now x oid d)) = t_fills d'"
    "t_legs (fst (on_execution now x oid d)) = t_legs d'"
proof -
  have n: "\<forall>(k, g) \<in> set (t_fills d). f_ib_execution_id g \<noteq> x_exec_id x"
    using order_ready_known [OF ok G] new by blast
  obtain row where r: "tget (t_orders d) oid = Some row" "py_upper (o_side row) \<in> {BUY, SELL}"
    using order_ready_row [OF ok] ok by (auto simp: order_ready_def)
  obtain d' sid full pl where t: "persist_txn now x oid d = Inr (d', Persisted sid full pl)"
    using persist_txn_ok [OF r n] by blast
  obtain d2 evs where "persist_fill now x oid d = Inr (d2, evs)" "t_orders d2 = t_orders d'"
    "t_fills d2 = t_fills d'" "t_legs d2 = t_legs d'" using persist_fill_txn [OF t] by blast
  with t show ?thesis by (intro that [OF t]) (simp_all add: on_execution_def)
qed

lemma order_ready_step:
  assumes "order_ready oid q side preview G d" "x_exec_id x \<in> G"
  shows "order_ready oid q side preview G (fst (on_execution now x oid d))"
proof (cases rule: on_execution_cases [of now x oid d])
  case unchanged
  with assms show ?thesis by simp
next
  case (stored d' sid full pl)
  from stored(1) obtain row ag where "t_orders d' = tupd oid (\<lambda>_. filled_row now x ag row) (t_orders d)"
    "tget (t_orders d) oid = Some row" "t_fills d' = tins (fill_row_of now x oid row) (t_fills d)"
    by (rule persist_txn_stored)
  with assms stored show ?thesis
    by (auto simp: order_ready_def tbl.get_upd filled_row_def set_tins)
qed

interpretation delivery: idempotent_log
  "\<lambda>d e. fst (on_execution (fst e) (snd e) oid d)" "fill_log oid"
  "\<lambda>e. x_exec_id (snd e)" "\<lambda>l. fe_execution_id (fst l)" delivered_entry
  "order_ready oid q side preview G" "\<lambda>e. x_exec_id (snd e) \<in> G"
  "order_view oid" "derived_view q side preview"
  for oid q side preview G
proof
  fix e :: "time \<times> ib_fill" and d
  obtain now x where e: "e = (now, x)" by (cases e)
  have keys: "(\<lambda>l. fe_execution_id (fst l)) ` set (fill_log oid d) = f_ib_execution_id ` set (order_fills d oid)"
    using fill_log_keys [of oid d] by (simp add: image_image)
  show "fe_execution_id (fst (delivered_entry e)) = x_exec_id (snd e)"
    by (simp add: delivered_entry_def e)
  assume ok: "order_ready oid q side preview G d" and G: "x_exec_id (snd e) \<in> G"
  show "order_ready oid q side preview G (fst (on_execution (fst e) (snd e) oid d))"
    by (rule order_ready_step [OF ok G])
  {
    assume "x_exec_id (snd e) \<in> (\<lambda>l. fe_execution_id (fst l)) ` set (fill_log oid d)"
    then have "x_exec_id x \<in> f_ib_execution_id ` set (order_fills d oid)" by (simp only: keys e snd_conv)
    then show "fst (on_execution (fst e) (snd e) oid d) = d"
      by (simp add: e on_execution_def persist_fill_def persist_txn_def apply_fill_idempotent_def)
  }
  assume "x_exec_id (snd e) \<notin> (\<lambda>l. fe_execution_id (fst l)) ` set (fill_log oid d)"
  then have new: "x_exec_id x \<notin> f_ib_execution_id ` set (order_fills d oid)"
    unfolding keys e snd_conv .
  have G': "x_exec_id x \<in> G" using G e by simp
  from order_ready_fresh [OF ok G' new, of now] obtain d' sid full pl where
    t: "persist_txn now x oid d = Inr (d', Persisted sid full pl)"
    and f: "t_orders (fst (on_execution now x oid d)) = t_orders d'"
      "t_fills (fst (on_execution now x oid d)) = t_fills d'"
      "t_legs (fst (on_execution now x oid d)) = t_legs d'" by blast
  have l: "fill_log oid (fst (on_execution now x oid d)) = fill_log oid d'" by (rule fill_log_cong [OF f(2)])
  show "fill_log oid (fst (on_execution (fst e) (snd e) oid d)) = fill_log oid d @ [delivered_entry e]"
    using fill_log_stored [OF t] l by (simp add: e)
  obtain row where "tget (t_orders d) oid = Some row" "o_qty row = q" "o_side row = side"
    "o_preview_price row = preview" using order_ready_row [OF ok] by blast
  with order_view_stored [OF t] order_view_cong [OF f(1,3), of oid] l
  show "order_view oid (fst (on_execution (fst e) (snd e) oid d)) =
      derived_view q side preview (fill_log oid (fst (on_execution (fst e) (snd e) oid d)))"
    by (simp add: e)
next
  fix l l' :: "fill_log_entry list"
  assume "mset l = mset l'"
  then show "derived_view q side preview l = derived_view q side preview l'" by (rule derived_view_perm)
qed

section \<open>Deliveries\<close>

definition deliver :: "int \<Rightarrow> (time \<times> ib_fill) list \<Rightarrow> db \<Rightarrow> db" where
  "deliver oid es d = foldl (\<lambda>d e. fst (on_execution (fst e) (snd e) oid d)) d es"


definition example_fill :: "string \<Rightarrow> flt \<Rightarrow> flt \<Rightarrow> ib_fill" where
  "example_fill eid qty price = \<lparr>x_exec_id = eid, x_shares = qty, x_price = price, x_commission = Some 2,
     x_report_currency = None, x_contract_currency = Some ''usd'', x_local_symbol = Some ''EUUN6 P1150'',
     x_con_id = Some 42, x_time = None, x_side = ''BOT'', x_exchange = Some ''CME''\<rparr>"

definition example_order_db :: db where
  "example_order_db = empty_db\<lparr>t_orders := [(1, new_order_row 0 9 0 Entry ''put'' BUY 10 Submitted)]\<rparr>"


text \<open>
  A recorded execution makes its order exact: afterwards the filled quantity is the
  sum of the order's fills, the state is filled exactly when that sum reaches the ordered
  quantity (and is not zero), the open quantity of the leg is the signed fold of its
  fills, and no other order and no other leg has changed.
\<close>

theorem recorded_fill_exact:
  assumes "persist_txn now x oid d = Inr (d', Persisted sid full pl)"
  shows "\<exists>row row' :: order_row. tget (t_orders d) oid = Some row \<and> tget (t_orders d') oid = Some row' \<and>
    o_qty_filled row' = sum_list (map f_qty_filled (order_fills d' oid)) \<and>
    (o_state row' = Filled \<longleftrightarrow> o_qty_filled row' \<noteq> 0 \<and> o_qty row \<le> o_qty_filled row') \<and>
    open_of d' oid = open_qty (leg_truth d' oid) \<and>
    (\<forall>j. j \<noteq> oid \<longrightarrow> tget (t_orders d') j = tget (t_orders d) j \<and> open_of d' j = open_of d j)"
  using assms
proof (rule persist_txn_stored)
  fix row ag
  assume r: "tget (t_orders d) oid = Some row"
    and ag: "update_order_aggregates (map fill_event_of (order_fills d' oid)) (o_qty row) (o_side row)
       (o_preview_price row) = Inr ag"
    and t: "t_orders d' = tupd oid (\<lambda>_. filled_row now x ag row) (t_orders d)"
    and op: "\<And>j. open_of d' j = (if j = oid then open_qty (leg_truth d' oid) else open_of d j)"
  have q: "qty_total (map fill_event_of (order_fills d' oid)) = sum_list (map f_qty_filled (order_fills d' oid))"
    by (simp add: qty_total_def comp_def fill_event_of_def)
  show ?thesis
    using r op aggregates_qty [OF ag] aggregates_fully_filled [OF ag]
    by (intro exI [of _ row] exI [of _ "filled_row now x ag row"])
       (auto simp: t tbl.get_upd filled_row_def q)
qed

definition example_recorded :: "(db \<times> fill_outcome) result" where
  "example_recorded = persist_txn 5 (example_fill ''e1'' 10 3) 1 example_order_db"

theorem recorded_fill_exact_witness:
  "\<exists>d' sid full pl. example_recorded = Inr (d', Persisted sid full pl) \<and>
     open_of d' 1 = open_qty (leg_truth d' 1)"
proof -
  have "\<exists>d' sid full pl. persist_txn 5 (example_fill ''e1'' 10 3) 1 example_order_db = Inr (d', Persisted sid full pl)"
    by (rule persist_txn_ok) (auto simp: example_order_db_def empty_db_def tget_def new_order_row_def)
  then obtain d' sid full pl where t:
    "persist_txn 5 (example_fill ''e1'' 10 3) 1 example_order_db = Inr (d', Persisted sid full pl)" by blast
  from recorded_fill_exact [OF t] have "open_of d' 1 = open_qty (leg_truth d' 1)" by blast
  with t show ?thesis unfolding example_recorded_def by blast
qed

end
