(* ===== verification/Contracts.thy ===== *)
theory Contracts
  imports Py_Text Exec_DB
begin

text \<open>
  Contract symbols (\<open>shared/contracts.py\<close>): the multiplier of a symbol, decoding an IB
  \<open>localSymbol\<close> and building the one a leg will trade. The regular expressions are
  written out as matches on the character list; \<open>$\<close> also accepts one final newline.
\<close>

definition DEFAULT_MULTIPLIER :: flt where "DEFAULT_MULTIPLIER = 125000"

definition MULTIPLIERS :: "(string \<times> flt) list" where
  "MULTIPLIERS = [(''EUR'', 125000), (''M6E'', 12500)]"

definition multiplier_for :: "string option \<Rightarrow> flt" where
  "multiplier_for symbol =
     (case symbol of
        None \<Rightarrow> DEFAULT_MULTIPLIER
      | Some s \<Rightarrow>
          if s = [] then DEFAULT_MULTIPLIER
          else (case map_of MULTIPLIERS s of None \<Rightarrow> DEFAULT_MULTIPLIER | Some m \<Rightarrow> m))"

definition FUT_MONTH_LETTERS :: string where
  "FUT_MONTH_LETTERS = ''FGHJKMNQUVXZ''"

datatype instrument_type = FUTURE | OPTION
datatype option_type = CALL | PUT

record contract_spec =
  cs_symbol :: string
  cs_instrument_type :: instrument_type
  cs_multiplier :: flt
  cs_strike :: "flt option"
  cs_option_type :: "option_type option"

definition drop_newline :: "string \<Rightarrow> string" where
  "drop_newline s = (if s \<noteq> [] \<and> last s = CHR 0x0A then butlast s else s)"

definition month_letter_ok :: "char \<Rightarrow> bool" where
  "month_letter_ok c = (c \<in> set FUT_MONTH_LETTERS)"

text \<open>\<open>^EUU([FGHJKMNQUVXZ])(\d) ([CP])(\d{4})$\<close>: the right and the four digits.\<close>

definition opt_match :: "string \<Rightarrow> (char \<times> string) option" where
  "opt_match ls =
     (let s = drop_newline ls in
      if length s = 11 \<and> take 3 s = ''EUU'' \<and> month_letter_ok (s ! 3) \<and> is_digit (s ! 4) \<and>
         s ! 5 = CHR '' '' \<and> (s ! 6 = CHR ''C'' \<or> s ! 6 = CHR ''P'') \<and> list_all is_digit (drop 7 s)
      then Some (s ! 6, drop 7 s) else None)"

text \<open>\<open>^(M6E|6E)([FGHJKMNQUVXZ])(\d)$\<close>: the class.\<close>

definition fut_match :: "string \<Rightarrow> string option" where
  "fut_match ls =
     (let s = drop_newline ls in
      if length s = 5 \<and> take 3 s = ''M6E'' \<and> month_letter_ok (s ! 3) \<and> is_digit (s ! 4) then Some ''M6E''
      else if length s = 4 \<and> take 2 s = ''6E'' \<and> month_letter_ok (s ! 2) \<and> is_digit (s ! 3) then Some ''6E''
      else None)"

definition digits_int :: "string \<Rightarrow> int" where
  "digits_int ds = (case py_int ds of None \<Rightarrow> 0 | Some i \<Rightarrow> i)"

definition parse_local_symbol :: "string option \<Rightarrow> contract_spec option" where
  "parse_local_symbol ls =
     (case ls of
        None \<Rightarrow> None
      | Some s \<Rightarrow>
          (case opt_match s of
             Some (right, ds) \<Rightarrow>
               Some \<lparr>cs_symbol = ''EUR'', cs_instrument_type = OPTION,
                     cs_multiplier = multiplier_for (Some ''EUR''),
                     cs_strike = Some (of_int (digits_int ds) / 1000),
                     cs_option_type = Some (if right = CHR ''C'' then CALL else PUT)\<rparr>
           | None \<Rightarrow>
               (case fut_match s of
                  Some cls \<Rightarrow>
                    let sy = (if cls = ''6E'' then ''EUR'' else ''M6E'') in
                    Some \<lparr>cs_symbol = sy, cs_instrument_type = FUTURE,
                          cs_multiplier = multiplier_for (Some sy), cs_strike = None, cs_option_type = None\<rparr>
                | None \<Rightarrow> None)))"

text \<open>\<open>f"{n:0wd}"\<close>.\<close>

definition zero_pad :: "nat \<Rightarrow> int \<Rightarrow> string" where
  "zero_pad w n =
     (let ds = nat_str (nat \<bar>n\<bar>); sg = (if n < 0 then ''-'' else [])
      in sg @ replicate (w - length ds - length sg) (CHR ''0'') @ ds)"

definition month_letter :: "date \<Rightarrow> char option" where
  "month_letter e =
     (if 1 \<le> d_month e \<and> d_month e \<le> length FUT_MONTH_LETTERS
      then Some (FUT_MONTH_LETTERS ! (d_month e - 1)) else None)"

definition build_ib_local_symbol ::
  "string option \<Rightarrow> date option \<Rightarrow> flt option \<Rightarrow> string option \<Rightarrow> string option" where
  "build_ib_local_symbol contract_type expiry strike symbol =
     (case expiry of
        None \<Rightarrow> None
      | Some e \<Rightarrow>
          (case month_letter e of
             None \<Rightarrow> None
           | Some m \<Rightarrow>
               let y = digit_char (d_year e mod 10); ct = py_lower (str_or contract_type) in
               if ct = ''future'' then
                 Some ((if symbol = Some ''M6E'' then ''M6E'' else ''6E'') @ [m, y])
               else if ct = ''call'' \<or> ct = ''put'' then
                 (case strike of
                    None \<Rightarrow> None
                  | Some k \<Rightarrow>
                      if k = 0 then None
                      else Some (''EUU'' @ [m, y] @ '' '' @ (if ct = ''call'' then ''C'' else ''P'')
                             @ zero_pad 4 (py_trunc (k * 1000))))
               else None))"

section \<open>Decoding what was built\<close>

lemma digits_val_replicate_0:
  "digits_val 0 True (replicate n (CHR ''0'') @ ds) = digits_val 0 True ds"
  by (induction n) (simp_all add: is_digit_def digit_val_def)

lemma digits_val_replicate_0_first:
  "ds \<noteq> [] \<Longrightarrow> \<forall>c \<in> set ds. is_digit c \<Longrightarrow>
     digits_val 0 False (replicate n (CHR ''0'') @ ds) = digits_val 0 False ds"
proof (induction n)
  case 0
  then show ?case by simp
next
  case (Suc n)
  have flag: "digits_val 0 True ds = digits_val 0 False ds"
    using Suc.prems by (cases ds) simp_all
  show ?case using digits_val_replicate_0 [of n ds] flag by (simp add: is_digit_def digit_val_def)
qed

lemma zero_pad_digits: "0 \<le> n \<Longrightarrow> list_all is_digit (zero_pad w n)"
  using nat_str_digits [of "nat n"]
  by (auto simp: zero_pad_def list_all_iff Let_def is_digit_def)

lemma digits_int_zero_pad:
  assumes "0 \<le> n"
  shows "digits_int (zero_pad w n) = n"
proof -
  let ?ds = "nat_str (nat n)"
  have z: "zero_pad w n = replicate (w - length ?ds) (CHR ''0'') @ ?ds"
    using assms by (simp add: zero_pad_def Let_def)
  have v: "digits_val 0 False (zero_pad w n) = Some (nat n)"
    unfolding z using digits_val_replicate_0_first [OF nat_str_nonempty nat_str_digits]
    by (simp add: digits_val_nat_str)
  have "zero_pad w n \<noteq> []" by (simp add: z)
  then obtain c cs where s: "zero_pad w n = c # cs" by (cases "zero_pad w n") auto
  have d: "\<forall>c \<in> set (zero_pad w n). is_digit c" using zero_pad_digits [OF assms] by (simp add: list_all_iff)
  then have "py_strip (zero_pad w n) = zero_pad w n"
    using digit_not_space by (intro py_strip_no_space) blast
  moreover have "c \<noteq> CHR ''-''" "c \<noteq> CHR ''+''" using d s minus_not_digit by auto
  ultimately show ?thesis using v assms by (simp add: digits_int_def py_int_def s)
qed

lemma nat_str_length: "n < 10 ^ k \<Longrightarrow> 0 < k \<Longrightarrow> length (nat_str n) \<le> k"
proof (induction n arbitrary: k rule: nat_str.induct)
  case (1 n)
  show ?case
  proof (cases "n < 10")
    case True
    with "1.prems" show ?thesis by (subst nat_str.simps) simp
  next
    case False
    with "1.prems" obtain j where k: "k = Suc j" "0 < j" by (cases k; cases "k - 1") auto
    have "n div 10 < 10 ^ j" using "1.prems" k by (simp add: less_mult_imp_div_less mult.commute)
    from "1.IH" [OF False this k(2)] False k show ?thesis by (subst nat_str.simps) simp
  qed
qed

lemma zero_pad_length: "0 \<le> n \<Longrightarrow> n < 10 ^ w \<Longrightarrow> 0 < w \<Longrightarrow> length (zero_pad w n) = w"
  using nat_str_length [of "nat n" w] by (simp add: zero_pad_def Let_def nat_less_iff)

lemma month_letter_ok: "month_letter e = Some m \<Longrightarrow> month_letter_ok m"
  by (auto simp: month_letter_def month_letter_ok_def split: if_splits)

lemma digit_not_newline: "is_digit c \<Longrightarrow> c \<noteq> CHR 0x0A"
  by (auto simp: is_digit_def)

lemma opt_match_built:
  assumes "month_letter_ok m" "is_digit y" "r = CHR ''C'' \<or> r = CHR ''P''"
    "length ds = 4" "list_all is_digit ds"
  shows "opt_match (''EUU'' @ [m, y] @ '' '' @ [r] @ ds) = Some (r, ds)"
proof -
  let ?s = "''EUU'' @ [m, y] @ '' '' @ [r] @ ds"
  have "ds \<noteq> []" using assms(4) by auto
  then have "last ?s \<in> set ds" by simp
  then have "last ?s \<noteq> CHR 0x0A" using assms(5) digit_not_newline by (auto simp: list_all_iff)
  then have "drop_newline ?s = ?s" by (simp add: drop_newline_def)
  then show ?thesis using assms by (simp add: opt_match_def)
qed

section \<open>Properties\<close>



end
