(* ===== verification/Order_Reconciler.thy ===== *)
theory Order_Reconciler
  imports Fills_Correctness Contracts
begin

text \<open>
  \<open>engines/execution/order_reconciler.py\<close>: orders that never reached a terminal state are
  repaired from their own recorded fills (pass 1), then from the broker's positions
  (pass 2); structures that became complete are booked. A set that is only iterated is
  the list of its elements in insertion order.
\<close>

definition STUCK_STATES :: "order_state list" where
  "STUCK_STATES = [Submitted, Acknowledged, Partially_filled]"

definition STRIKE_TOL :: flt where "STRIKE_TOL = 6 / 1000"

fun option_type_name :: "option_type \<Rightarrow> string" where
  "option_type_name CALL = ''call''"
| "option_type_name PUT = ''put''"

definition leg_matches_position :: "order_row \<Rightarrow> open_position_row \<Rightarrow> bool" where
  "leg_matches_position order pos =
     (if py_upper (o_side order) \<noteq> py_upper (op_side pos) then False
      else
        let spec = parse_local_symbol (Some (op_structure pos)); ct = py_lower (o_contract_type order) in
        if ct = ''future'' then
          (case spec of None \<Rightarrow> False | Some c \<Rightarrow> cs_instrument_type c = FUTURE)
        else (case spec of
            None \<Rightarrow> False
          | Some c \<Rightarrow>
              if cs_instrument_type c \<noteq> OPTION then False
              else if (case cs_option_type c of None \<Rightarrow> [] | Some t \<Rightarrow> option_type_name t) \<noteq> ct then False
              else (case (o_contract_strike order, cs_strike c) of
                  (Some a, Some b) \<Rightarrow> \<bar>a - b\<bar> \<le> STRIKE_TOL
                | _ \<Rightarrow> True)))"

definition recorded_qty :: "db \<Rightarrow> int \<Rightarrow> int" where
  "recorded_qty d oid = sum_list (map f_qty_filled (order_fills d oid))"

text \<open>The bookkeeping of a pass: database, filled order ids, affected structures, marks.\<close>

record recon =
  rc_db :: db
  rc_filled :: "int list"
  rc_affected :: "int list"
  rc_marks :: "int list"

definition add_elem :: "'a \<Rightarrow> 'a list \<Rightarrow> 'a list" where
  "add_elem x xs = (if x \<in> set xs then xs else xs @ [x])"

definition book_pass_step :: "time \<Rightarrow> db \<Rightarrow> recon \<Rightarrow> int \<times> order_row \<Rightarrow> recon" where
  "book_pass_step now d0 a e =
     (case e of (oid, r) \<Rightarrow>
        (case state_from_recorded_fills (recorded_qty d0 oid) (o_qty r) (o_state r) of
           None \<Rightarrow> a
         | Some ns \<Rightarrow>
             let r' = (let q = r\<lparr>o_state := ns, o_qty_filled := min (recorded_qty d0 oid) (o_qty r)\<rparr>
                       in if ns = Filled then q\<lparr>o_fully_filled_at := Some now\<rparr> else q);
                 d' = rebuild_leg now oid (upd_order oid (\<lambda>_. r') (rc_db a))
             in a\<lparr>rc_db := d',
                  rc_filled := (if ns = Filled then rc_filled a @ [oid] else rc_filled a),
                  rc_affected := (if ns = Filled then add_elem (o_structure_id r) (rc_affected a) else rc_affected a),
                  rc_marks := add_elem oid (rc_marks a)\<rparr>))"

definition candidates :: "db \<Rightarrow> int \<Rightarrow> (int \<times> open_position_row) list" where
  "candidates d sid = twhere (\<lambda>p. op_trade_id p = Some sid) (t_open_positions d)"

definition match_position :: "db \<Rightarrow> int list \<Rightarrow> order_row \<Rightarrow> (int \<times> open_position_row) option" where
  "match_position d used r =
     List.find (\<lambda>(pid, p). pid \<notin> set used \<and> leg_matches_position r p) (candidates d (o_structure_id r))"

definition mirror_filled_row :: "time \<Rightarrow> open_position_row \<Rightarrow> order_row \<Rightarrow> order_row" where
  "mirror_filled_row now p r =
     r\<lparr>o_state := Filled, o_qty_filled := o_qty r,
       o_avg_fill_price := (case o_avg_fill_price r of
           Some v \<Rightarrow> Some v
         | None \<Rightarrow> (case op_market_price p of Some m \<Rightarrow> Some m | None \<Rightarrow> o_preview_price r)),
       o_ib_local_symbol := (case o_ib_local_symbol r of
           Some s \<Rightarrow> Some s
         | None \<Rightarrow> if op_structure p \<noteq> [] then Some (take 20 (op_structure p)) else None),
       o_fully_filled_at := Some now\<rparr>"

definition mirror_pass_step :: "time \<Rightarrow> recon \<Rightarrow> int \<times> order_row \<Rightarrow> recon" where
  "mirror_pass_step now a e =
     (case e of (oid, r) \<Rightarrow>
        (case match_position (rc_db a) (rc_marks a) r of
           None \<Rightarrow> a
         | Some (pid, p) \<Rightarrow>
             a\<lparr>rc_db := upd_order oid (\<lambda>_. mirror_filled_row now p r) (rc_db a),
               rc_filled := rc_filled a @ [oid],
               rc_affected := add_elem (o_structure_id r) (rc_affected a),
               rc_marks := pid # rc_marks a\<rparr>))"

definition stuck_orders :: "db \<Rightarrow> (int \<times> order_row) list" where
  "stuck_orders d = twhere (\<lambda>r. o_state r \<in> set STUCK_STATES) (t_orders d)"

definition book_pass :: "time \<Rightarrow> db \<Rightarrow> recon" where
  "book_pass now d = foldl (book_pass_step now d)
     \<lparr>rc_db = d, rc_filled = [], rc_affected = [], rc_marks = []\<rparr> (stuck_orders d)"

definition still_stuck :: "time \<Rightarrow> db \<Rightarrow> (int \<times> order_row) list" where
  "still_stuck now d = filter (\<lambda>(oid, r). oid \<notin> set (rc_marks (book_pass now d))) (stuck_orders d)"

definition mirror_pass :: "time \<Rightarrow> db \<Rightarrow> recon" where
  "mirror_pass now d = foldl (mirror_pass_step now) ((book_pass now d)\<lparr>rc_marks := []\<rparr>) (still_stuck now d)"

definition reconciled_event :: "int list \<Rightarrow> int \<Rightarrow> event_row" where
  "reconciled_event filled_ids sid =
     structure_event sid ''order_reconciled_from_ib'' Sev_info [(''filled_order_ids'', PInts filled_ids)]"

definition complete_all :: "time \<Rightarrow> int list \<Rightarrow> db \<Rightarrow> db \<times> published list" where
  "complete_all now sids d =
     foldl (\<lambda>(d, evs) sid. case maybe_complete_structure now sid d of (d', es) \<Rightarrow> (d', evs @ es)) (d, []) sids"

record recon_report =
  rr_stuck :: nat
  rr_filled :: nat
  rr_structures :: "int list"

definition reconcile_stuck_orders :: "time \<Rightarrow> db \<Rightarrow> (db \<times> published list) \<times> recon_report" where
  "reconcile_stuck_orders now d =
     (if stuck_orders d = [] then ((d, []), \<lparr>rr_stuck = 0, rr_filled = 0, rr_structures = []\<rparr>)
      else
        let a = mirror_pass now d;
            d1 = foldl (\<lambda>d sid. add_event (reconciled_event (rc_filled a) sid) d) (rc_db a) (rc_affected a)
        in (complete_all now (rc_affected a) d1,
            \<lparr>rr_stuck = length (still_stuck now d), rr_filled = length (rc_filled a),
             rr_structures = sort (rc_affected a)\<rparr>))"

section \<open>What the passes keep\<close>

lemma complete_all_acc:
  "foldl (\<lambda>(d, evs) sid. case maybe_complete_structure now sid d of (d', es) \<Rightarrow> (d', evs @ es)) (d, evs) sids =
     (fst (complete_all now sids d), evs @ snd (complete_all now sids d))"
proof (induction sids arbitrary: d evs)
  case Nil
  then show ?case by (simp add: complete_all_def)
next
  case (Cons sid sids)
  obtain d' es where m: "maybe_complete_structure now sid d = (d', es)" by (cases "maybe_complete_structure now sid d")
  show ?case using Cons.IH [of d' "evs @ es"] Cons.IH [of d' es] by (simp add: complete_all_def m)
qed

lemma complete_all_Cons:
  "fst (complete_all now (sid # sids) d) = fst (complete_all now sids (fst (maybe_complete_structure now sid d)))"
proof -
  obtain d' es where m: "maybe_complete_structure now sid d = (d', es)" by (cases "maybe_complete_structure now sid d")
  show ?thesis using complete_all_acc [of now d' es sids] by (simp add: complete_all_def m)
qed

lemma complete_all_frame [simp]:
  "t_orders (fst (complete_all now sids d)) = t_orders d"
  "t_fills (fst (complete_all now sids d)) = t_fills d"
  "t_legs (fst (complete_all now sids d)) = t_legs d"
proof (induction sids arbitrary: d)
  case Nil
  {case 1 show ?case by (simp add: complete_all_def)}
  {case 2 show ?case by (simp add: complete_all_def)}
  {case 3 show ?case by (simp add: complete_all_def)}
next
  case (Cons sid sids)
  {case 1 show ?case using Cons by (simp add: complete_all_Cons)}
  {case 2 show ?case using Cons by (simp add: complete_all_Cons)}
  {case 3 show ?case using Cons by (simp add: complete_all_Cons)}
qed

lemma add_events_frame [simp]:
  "t_orders (foldl (\<lambda>d x. add_event (g x) d) d xs) = t_orders d"
  "t_fills (foldl (\<lambda>d x. add_event (g x) d) d xs) = t_fills d"
  "t_legs (foldl (\<lambda>d x. add_event (g x) d) d xs) = t_legs d"
  "t_structures (foldl (\<lambda>d x. add_event (g x) d) d xs) = t_structures d"
  "t_positions (foldl (\<lambda>d x. add_event (g x) d) d xs) = t_positions d"
  by (induction xs arbitrary: d) simp_all

lemma book_pass_step_frame [simp]:
  "t_fills (rc_db (book_pass_step now d0 a e)) = t_fills (rc_db a)"
  "t_open_positions (rc_db (book_pass_step now d0 a e)) = t_open_positions (rc_db a)"
  "t_structures (rc_db (book_pass_step now d0 a e)) = t_structures (rc_db a)"
  "t_positions (rc_db (book_pass_step now d0 a e)) = t_positions (rc_db a)"
  by (auto simp: book_pass_step_def Let_def split: prod.split option.split)

lemma mirror_pass_step_frame [simp]:
  "t_fills (rc_db (mirror_pass_step now a e)) = t_fills (rc_db a)"
  "t_legs (rc_db (mirror_pass_step now a e)) = t_legs (rc_db a)"
  "t_open_positions (rc_db (mirror_pass_step now a e)) = t_open_positions (rc_db a)"
  "t_structures (rc_db (mirror_pass_step now a e)) = t_structures (rc_db a)"
  "t_positions (rc_db (mirror_pass_step now a e)) = t_positions (rc_db a)"
  by (auto simp: mirror_pass_step_def Let_def split: prod.split option.split)

text \<open>A quantity of the database that every step of a pass keeps is kept by the pass.\<close>

lemma foldl_keeps: "(\<And>a e. f (g a e) = f a) \<Longrightarrow> f (foldl g a es) = f a"
  by (induction es arbitrary: a) simp_all

lemma mirror_pass_frame [simp]:
  "t_fills (rc_db (mirror_pass now d)) = t_fills d"
  "t_open_positions (rc_db (mirror_pass now d)) = t_open_positions d"
  "t_structures (rc_db (mirror_pass now d)) = t_structures d"
  "t_positions (rc_db (mirror_pass now d)) = t_positions d"
  using foldl_keeps [of "\<lambda>a. t_fills (rc_db a)" "mirror_pass_step now"]
    foldl_keeps [of "\<lambda>a. t_fills (rc_db a)" "book_pass_step now d"]
    foldl_keeps [of "\<lambda>a. t_open_positions (rc_db a)" "mirror_pass_step now"]
    foldl_keeps [of "\<lambda>a. t_open_positions (rc_db a)" "book_pass_step now d"]
    foldl_keeps [of "\<lambda>a. t_structures (rc_db a)" "mirror_pass_step now"]
    foldl_keeps [of "\<lambda>a. t_structures (rc_db a)" "book_pass_step now d"]
    foldl_keeps [of "\<lambda>a. t_positions (rc_db a)" "mirror_pass_step now"]
    foldl_keeps [of "\<lambda>a. t_positions (rc_db a)" "book_pass_step now d"]
  by (simp_all add: mirror_pass_def book_pass_def)

section \<open>Why an order moved\<close>

lemma foldl_inv:
  "(\<And>a e. e \<in> set es \<Longrightarrow> P a \<Longrightarrow> P (g a e)) \<Longrightarrow> P a \<Longrightarrow> P (foldl g a es)"
  by (induction es arbitrary: a) simp_all

definition move_justified :: "db \<Rightarrow> int \<Rightarrow> order_row \<Rightarrow> order_row \<Rightarrow> bool" where
  "move_justified d oid r r' =
     ((o_state r' = Filled \<and> o_qty r \<le> recorded_qty d oid \<and> 0 < recorded_qty d oid) \<or>
      (o_state r' = Partially_filled \<and> 0 < recorded_qty d oid) \<or>
      (o_state r' = Filled \<and> (\<exists>(pid, p) \<in> set (t_open_positions d).
          op_trade_id p = Some (o_structure_id r) \<and> leg_matches_position r p)))"

definition orders_justified :: "db \<Rightarrow> order_row table \<Rightarrow> bool" where
  "orders_justified d t =
     (\<forall>j. tget t j = tget (t_orders d) j \<or>
        (\<exists>r r'. tget (t_orders d) j = Some r \<and> tget t j = Some r' \<and>
           o_state r \<in> set STUCK_STATES \<and> move_justified d j r r'))"

lemma orders_justified_upd:
  assumes "orders_justified d t" "tget (t_orders d) oid = Some r" "o_state r \<in> set STUCK_STATES"
    "move_justified d oid r r'"
  shows "orders_justified d (tupd oid (\<lambda>_. r') t)"
proof -
  from assms(1,2) obtain x where "tget t oid = Some x" unfolding orders_justified_def by metis
  with assms show ?thesis unfolding orders_justified_def by (auto simp: tbl.get_upd)
qed

lemma stuck_orders_in:
  assumes "table_ok (t_orders d)" "(oid, r) \<in> set (stuck_orders d)"
  shows "tget (t_orders d) oid = Some r" "o_state r \<in> set STUCK_STATES"
  using assms in_tget by (auto simp: stuck_orders_def)

lemma book_pass_step_justified:
  assumes ok: "table_ok (t_orders d)" and e: "(oid, r) \<in> set (stuck_orders d)"
    and a: "orders_justified d (t_orders (rc_db a))"
  shows "orders_justified d (t_orders (rc_db (book_pass_step now d a (oid, r))))"
proof (cases "state_from_recorded_fills (recorded_qty d oid) (o_qty r) (o_state r)")
  case None
  with a show ?thesis by (simp add: book_pass_step_def)
next
  case (Some ns)
  have "\<exists>r'. t_orders (rc_db (book_pass_step now d a (oid, r))) = tupd oid (\<lambda>_. r') (t_orders (rc_db a)) \<and>
      o_state r' = ns"
    by (cases "ns = Filled") (force simp: book_pass_step_def Some Let_def)+
  then obtain r' where r': "t_orders (rc_db (book_pass_step now d a (oid, r))) = tupd oid (\<lambda>_. r') (t_orders (rc_db a))"
    "o_state r' = ns" by blast
  have "move_justified d oid r r'"
    using state_from_recorded_fills_Some [OF Some] r'(2) by (auto simp: move_justified_def)
  from orders_justified_upd [OF a stuck_orders_in [OF ok e] this] r'(1) show ?thesis by simp
qed

lemma match_position_Some:
  "match_position d used r = Some (pid, p) \<Longrightarrow>
     (pid, p) \<in> set (t_open_positions d) \<and> op_trade_id p = Some (o_structure_id r) \<and>
     leg_matches_position r p \<and> pid \<notin> set used"
  by (auto simp: match_position_def candidates_def find_Some_iff twhere_def dest: nth_mem)

lemma mirror_pass_step_justified:
  assumes ok: "table_ok (t_orders d)" and e: "(oid, r) \<in> set (stuck_orders d)"
    and a: "orders_justified d (t_orders (rc_db a))" and p: "t_open_positions (rc_db a) = t_open_positions d"
  shows "orders_justified d (t_orders (rc_db (mirror_pass_step now a (oid, r))))"
proof (cases "match_position (rc_db a) (rc_marks a) r")
  case None
  with a show ?thesis by (simp add: mirror_pass_step_def)
next
  case (Some m)
  obtain pid pos where m: "m = (pid, pos)" by (cases m)
  have "move_justified d oid r (mirror_filled_row now pos r)"
    using match_position_Some [of "rc_db a" "rc_marks a" r pid pos] Some m p
    by (auto simp: move_justified_def mirror_filled_row_def)
  from orders_justified_upd [OF a stuck_orders_in [OF ok e] this] Some m
  show ?thesis by (simp add: mirror_pass_step_def)
qed

lemma reconcile_orders:
  "stuck_orders d \<noteq> [] \<Longrightarrow>
     t_orders (fst (fst (reconcile_stuck_orders now d))) = t_orders (rc_db (mirror_pass now d))"
  by (simp add: reconcile_stuck_orders_def Let_def)

section \<open>Properties\<close>

text \<open>
  C24. The reconciler moves an order only on evidence: after a pass, an order is unchanged,
  or it was stuck and either its own recorded fills cover its quantity and it is filled,
  or it has recorded fills and is partially filled, or the broker holds a matching
  position of its structure and it is filled. No terminal or pending order ever moves,
  and no fill is added.
\<close>

theorem reconciler_moves_on_evidence:
  assumes "table_ok (t_orders d)"
  shows "(\<forall>j. tget (t_orders (fst (fst (reconcile_stuck_orders now d)))) j = tget (t_orders d) j \<or>
      (\<exists>r r' :: order_row. tget (t_orders d) j = Some r \<and>
        tget (t_orders (fst (fst (reconcile_stuck_orders now d)))) j = Some r' \<and>
        o_state r \<in> {Submitted, Acknowledged, Partially_filled} \<and>
        ((o_state r' = Filled \<and> o_qty r \<le> recorded_qty d j \<and> 0 < recorded_qty d j) \<or>
         (o_state r' = Partially_filled \<and> 0 < recorded_qty d j) \<or>
         (o_state r' = Filled \<and> (\<exists>(pid, p) \<in> set (t_open_positions d).
            op_trade_id p = Some (o_structure_id r) \<and> leg_matches_position r p))))) \<and>
    t_fills (fst (fst (reconcile_stuck_orders now d))) = t_fills d"
proof (cases "stuck_orders d = []")
  case True
  then show ?thesis by (simp add: reconcile_stuck_orders_def)
next
  case False
  let ?P = "\<lambda>a :: recon. orders_justified d (t_orders (rc_db a)) \<and> t_open_positions (rc_db a) = t_open_positions d"
  have init: "orders_justified d (t_orders d)" by (simp add: orders_justified_def)
  have b: "?P (book_pass now d)" unfolding book_pass_def
    by (rule foldl_inv [where P = ?P]) (use book_pass_step_justified [OF assms] init in auto)
  have m: "?P (mirror_pass now d)" unfolding mirror_pass_def
  proof (rule foldl_inv [where P = ?P])
    show "?P ((book_pass now d)\<lparr>rc_marks := []\<rparr>)" using b by simp
    fix a e assume e: "e \<in> set (still_stuck now d)" and a: "?P a"
    obtain oid r where r: "e = (oid, r)" by (rule prod.exhaust)
    with e have "(oid, r) \<in> set (stuck_orders d)" by (simp add: still_stuck_def)
    with a r show "?P (mirror_pass_step now a e)"
      using mirror_pass_step_justified [OF assms] by simp
  qed
  have f: "t_fills (fst (fst (reconcile_stuck_orders now d))) = t_fills d"
    using False by (simp add: reconcile_stuck_orders_def Let_def)
  show ?thesis using m f
    unfolding reconcile_orders [OF False] orders_justified_def move_justified_def STUCK_STATES_def
    by simp
qed

definition example_stuck_db :: db where
  "example_stuck_db = empty_db\<lparr>
     t_orders := [(1, (new_order_row 0 9 0 Entry ''future'' BUY 10 Submitted)),
                  (2, (new_order_row 0 9 1 Closing ''future'' SELL 5 Cancelled))],
     t_open_positions := [(4, \<lparr>op_structure = ''6EU6'', op_trade_id = Some 9, op_side = BUY,
        op_quantity = Some 1, op_market_price = None, op_product_label = None, op_contract_id = None,
        op_package_id = None, op_tenor = None, op_expiry = None, op_nominal_eur = None,
        op_contract_price_entry = None, op_entry_timestamp = 0\<rparr>)]\<rparr>"

theorem reconciler_moves_on_evidence_witness:
  "table_ok (t_orders example_stuck_db) \<and>
   t_fills (fst (fst (reconcile_stuck_orders 7 example_stuck_db))) = t_fills example_stuck_db"
proof -
  have "table_ok (t_orders example_stuck_db)" by (simp add: example_stuck_db_def table_ok_def keys_of_def)
  with reconciler_moves_on_evidence [OF this] show ?thesis by blast
qed

text \<open>
  The quantity of the mirror row is never compared: a position of one contract fills an
  order for ten.
\<close>

lemma mirror_quantity_ignored:
  "map_option (\<lambda>r. (o_state r, o_qty r, o_qty_filled r))
     (tget (t_orders (fst (fst (reconcile_stuck_orders 7 example_stuck_db)))) 1) = Some (Filled, 10, 10)"
proof -
  have match: "opt_match ''6EU6'' = None" "fut_match ''6EU6'' = Some ''6E''" by code_simp+
  have low: "py_lower ''future'' = ''future''" by code_simp
  have st: "stuck_orders example_stuck_db = [(1, new_order_row 0 9 0 Entry ''future'' BUY 10 Submitted)]"
    by (simp add: stuck_orders_def example_stuck_db_def twhere_def new_order_row_def STUCK_STATES_def)
  have rec: "recorded_qty example_stuck_db 1 = 0"
    by (simp add: recorded_qty_def order_fills_def twhere_def example_stuck_db_def empty_db_def)
  have b: "book_pass 7 example_stuck_db =
      \<lparr>rc_db = example_stuck_db, rc_filled = [], rc_affected = [], rc_marks = []\<rparr>"
    by (simp add: book_pass_def st book_pass_step_def rec state_from_recorded_fills_def)
  have m: "match_position example_stuck_db [] (new_order_row 0 9 0 Entry ''future'' BUY 10 Submitted) =
      Some (4, \<lparr>op_structure = ''6EU6'', op_trade_id = Some 9, op_side = BUY, op_quantity = Some 1,
        op_market_price = None, op_product_label = None, op_contract_id = None,
        op_package_id = None, op_tenor = None, op_expiry = None, op_nominal_eur = None,
        op_contract_price_entry = None, op_entry_timestamp = 0\<rparr>)"
    by (simp add: match_position_def candidates_def example_stuck_db_def twhere_def new_order_row_def
        leg_matches_position_def parse_local_symbol_def match low Let_def)
  have "rc_db (mirror_pass 7 example_stuck_db) = upd_order 1 (\<lambda>_. mirror_filled_row 7
      \<lparr>op_structure = ''6EU6'', op_trade_id = Some 9, op_side = BUY, op_quantity = Some 1,
        op_market_price = None, op_product_label = None, op_contract_id = None,
        op_package_id = None, op_tenor = None, op_expiry = None, op_nominal_eur = None,
        op_contract_price_entry = None, op_entry_timestamp = 0\<rparr> (new_order_row 0 9 0 Entry ''future'' BUY 10 Submitted)) example_stuck_db"
    by (simp add: mirror_pass_def still_stuck_def b st mirror_pass_step_def m)
  moreover have "tget (t_orders example_stuck_db) 1 = Some (new_order_row 0 9 0 Entry ''future'' BUY 10 Submitted)"
    by (simp add: example_stuck_db_def tget_def)
  ultimately show ?thesis
    by (simp add: reconcile_orders st tbl.get_upd mirror_filled_row_def new_order_row_def)
qed

end
