(* ===== verification/Placement.thy ===== *)
theory Placement
  imports Exec_DB Py_Text
begin

text \<open>
  \<open>engines/execution/placement.py\<close>: claim the row, stamp the key, place, stamp the ids; the
  durable order keys (\<open>order_ref\<close> of \<open>live_submit.py\<close>, \<open>hedge_order_ref\<close>) and their
  parser (\<open>parse_order_ref\<close> of \<open>reaper.py\<close>). Each of the four steps commits in its own
  transaction, so a crash or a concurrent caller may come between any two of them: the
  steps are separate functions and the concurrent callers a list of claim attempts.
\<close>

section \<open>Order keys\<close>

definition order_ref :: "int \<Rightarrow> int \<Rightarrow> string" where
  "order_ref structure_id order_id = ''fxvol:'' @ int_str structure_id @ '':'' @ int_str order_id"

definition hedge_order_ref :: "int \<Rightarrow> string" where
  "hedge_order_ref hedge_order_id = ''fxvol:hedge:'' @ int_str hedge_order_id"

text \<open>The token is random hexadecimal text.\<close>

definition manual_order_ref :: "string \<Rightarrow> string" where
  "manual_order_ref token = ''fxvol:manual:'' @ token"

definition parse_order_ref :: "string option \<Rightarrow> (int \<times> int) option" where
  "parse_order_ref ref =
     (case ref of
        None \<Rightarrow> None
      | Some s \<Rightarrow>
          if s = [] \<or> \<not> py_startswith s ''fxvol:'' then None
          else (case split_on (CHR '':'') s of
              [p, a, b] \<Rightarrow>
                (case py_int a of None \<Rightarrow> None
                 | Some i \<Rightarrow> (case py_int b of None \<Rightarrow> None | Some j \<Rightarrow> Some (i, j)))
            | _ \<Rightarrow> None))"

lemma split_fxvol: "split_on (CHR '':'') (''fxvol:'' @ s) = ''fxvol'' # split_on (CHR '':'') s"
  using split_on_append [of "CHR '':''" "''fxvol''" s] by simp

lemma parse_order_ref_order_ref: "parse_order_ref (Some (order_ref s i)) = Some (s, i)"
proof -
  have "split_on (CHR '':'') (int_str s @ '':'' @ int_str i) = [int_str s, int_str i]"
    using split_on_append [of "CHR '':''" "int_str s" "int_str i"] int_str_no_colon
    by (simp add: split_on_clean)
  then have "split_on (CHR '':'') (order_ref s i) = [''fxvol'', int_str s, int_str i]"
    unfolding order_ref_def split_fxvol by simp
  then show ?thesis by (simp add: parse_order_ref_def) (simp add: order_ref_def py_startswith_def)
qed

lemma split_not_empty: "split_on c s \<noteq> []"
  by (induction s) (auto split: list.split)

lemma parse_order_ref_foreign:
  assumes "py_int w = None" "CHR '':'' \<notin> set w"
  shows "parse_order_ref (Some (''fxvol:'' @ w @ '':'' @ rest)) = None"
proof -
  have "split_on (CHR '':'') (''fxvol:'' @ w @ '':'' @ rest) = ''fxvol'' # w # split_on (CHR '':'') rest"
    unfolding split_fxvol using split_on_append [of "CHR '':''" w rest] assms(2) by simp
  then show ?thesis using assms(1) split_not_empty
    by (auto simp: parse_order_ref_def split: list.split)
qed

section \<open>The claim\<close>

text \<open>
  The claim columns of a placeable row. \<open>update .. where submit\_claimed\_at is null and
  ib\_order\_id is null returning id\<close> is one atomic step.
\<close>

definition claimable :: "order_row \<Rightarrow> bool" where
  "claimable r = (o_submit_claimed_at r = None \<and> o_ib_order_id r = None)"

definition claim_submit :: "time \<Rightarrow> int \<Rightarrow> db \<Rightarrow> db \<times> bool" where
  "claim_submit now rid d =
     (case tget (t_orders d) rid of
        None \<Rightarrow> (d, False)
      | Some r \<Rightarrow>
          if claimable r then (upd_order rid (\<lambda>r. r\<lparr>o_submit_claimed_at := Some now\<rparr>) d, True)
          else (d, False))"

definition release_submit_claim :: "int \<Rightarrow> db \<Rightarrow> db" where
  "release_submit_claim rid d = upd_order rid (\<lambda>r. r\<lparr>o_submit_claimed_at := None\<rparr>) d"

text \<open>What IB hands back: order id and permanent id, 0 when it has none.\<close>

record placed =
  pl_order_id :: int
  pl_perm_id :: int

definition stamp_placement :: "time \<Rightarrow> int \<Rightarrow> placed \<Rightarrow> order_state \<Rightarrow> db \<Rightarrow> db" where
  "stamp_placement now rid t state d =
     upd_order rid (\<lambda>r. r\<lparr>o_ib_order_id := (if pl_order_id t \<noteq> 0 then Some (int_str (pl_order_id t)) else None),
       o_submitted_at := Some now, o_state := state,
       o_ib_perm_id := (if pl_perm_id t \<noteq> 0 then Some (int_str (pl_perm_id t)) else None),
       o_state_updated_at := now\<rparr>) d"

text \<open>
  \<open>ib.placeOrder\<close> is a parameter: the order key to the ids, or the exception it raised.
  The result carries the key when an order reached IB.
\<close>

datatype place_outcome = Already | Failed py_error | Placed_at string placed

definition place_with_claim ::
  "time \<Rightarrow> (string \<Rightarrow> placed result) \<Rightarrow> int \<Rightarrow> string \<Rightarrow> order_state \<Rightarrow> db \<Rightarrow> db \<times> place_outcome" where
  "place_with_claim now placeOrder rid ref state_after d =
     (case claim_submit now rid d of
        (d1, False) \<Rightarrow> (d1, Already)
      | (d1, True) \<Rightarrow>
          (case placeOrder ref of
             Inl e \<Rightarrow> (release_submit_claim rid d1, Failed e)
           | Inr t \<Rightarrow> (stamp_placement now rid t state_after d1, Placed_at ref t)))"

section \<open>Racing callers\<close>

text \<open>
  Any number of callers run \<open>place_with_claim\<close> on the same row. A caller may crash after
  any step; other handlers may write the database in between, as long as none of them
  takes a claim back. The orders live at IB are counted.
\<close>

datatype phase = Idle | Claimed | Placed placed | Stamped | Refused | Failed_place | Crashed

record race =
  ra_db :: db
  ra_phase :: "nat \<Rightarrow> phase"
  ra_live :: nat

definition row_claimed :: "int \<Rightarrow> db \<Rightarrow> bool" where
  "row_claimed rid d = (case tget (t_orders d) rid of None \<Rightarrow> False | Some r \<Rightarrow> o_submit_claimed_at r \<noteq> None)"

inductive race_step :: "int \<Rightarrow> order_state \<Rightarrow> race \<Rightarrow> race \<Rightarrow> bool"
  for rid :: int and state_after :: order_state where
  claim: "ra_phase c i = Idle \<Longrightarrow> claim_submit now rid (ra_db c) = (d', won) \<Longrightarrow>
    race_step rid state_after c
      (c\<lparr>ra_db := d', ra_phase := (ra_phase c)(i := if won then Claimed else Refused)\<rparr>)"
| place: "ra_phase c i = Claimed \<Longrightarrow>
    race_step rid state_after c (c\<lparr>ra_phase := (ra_phase c)(i := Placed t), ra_live := Suc (ra_live c)\<rparr>)"
| fail: "ra_phase c i = Claimed \<Longrightarrow>
    race_step rid state_after c
      (c\<lparr>ra_db := release_submit_claim rid (ra_db c), ra_phase := (ra_phase c)(i := Failed_place)\<rparr>)"
| stamp: "ra_phase c i = Placed t \<Longrightarrow>
    race_step rid state_after c
      (c\<lparr>ra_db := stamp_placement now rid t state_after (ra_db c), ra_phase := (ra_phase c)(i := Stamped)\<rparr>)"
| crash: "ra_phase c i \<in> insert Claimed (range Placed) \<Longrightarrow>
    race_step rid state_after c (c\<lparr>ra_phase := (ra_phase c)(i := Crashed)\<rparr>)"
| other: "(row_claimed rid (ra_db c) \<longrightarrow> row_claimed rid d') \<Longrightarrow>
    race_step rid state_after c (c\<lparr>ra_db := d'\<rparr>)"

inductive_cases race_stepE: "race_step rid st c c'"

inductive race_run :: "int \<Rightarrow> order_state \<Rightarrow> race \<Rightarrow> race \<Rightarrow> bool"
  for rid :: int and state_after :: order_state where
  refl: "race_run rid state_after c c"
| step: "race_run rid state_after c c' \<Longrightarrow> race_step rid state_after c' c'' \<Longrightarrow> race_run rid state_after c c''"

definition race_start :: "db \<Rightarrow> race" where
  "race_start d = \<lparr>ra_db = d, ra_phase = (\<lambda>_. Idle), ra_live = 0\<rparr>"

definition active :: "phase \<Rightarrow> bool" where
  "active p = (p \<in> {Claimed, Stamped, Crashed} \<union> range Placed)"

lemma active_simps [simp]:
  "\<not> active Idle" "active Claimed" "active (Placed t)" "active Stamped" "\<not> active Refused"
  "\<not> active Failed_place" "active Crashed"
  by (auto simp: active_def)

definition race_inv :: "int \<Rightarrow> race \<Rightarrow> bool" where
  "race_inv rid c =
     ((\<forall>i j. active (ra_phase c i) \<longrightarrow> active (ra_phase c j) \<longrightarrow> i = j) \<and>
      ((\<exists>i. active (ra_phase c i)) \<longrightarrow> row_claimed rid (ra_db c)) \<and>
      ra_live c \<le> 1 \<and>
      (0 < ra_live c \<longrightarrow> (\<exists>i. active (ra_phase c i)) \<and> (\<forall>i. ra_phase c i \<noteq> Claimed)))"

lemma race_inv_solo:
  assumes "\<And>j. j \<noteq> i \<Longrightarrow> \<not> active (ra_phase c j)" "active (ra_phase c i) \<Longrightarrow> row_claimed rid (ra_db c)"
    "ra_live c \<le> 1" "0 < ra_live c \<Longrightarrow> active (ra_phase c i) \<and> ra_phase c i \<noteq> Claimed"
  shows "race_inv rid c"
proof -
  have eq: "active (ra_phase c j) \<Longrightarrow> j = i" for j using assms(1) by blast
  moreover have "ra_phase c j \<noteq> Claimed" if "0 < ra_live c" for j
    using eq [of j] assms(4) [OF that] by (metis active_simps(2))
  ultimately show ?thesis unfolding race_inv_def using assms(2-4) by blast
qed

lemma race_inv_active:
  assumes "race_inv rid c" "active (ra_phase c i)"
  shows "\<And>j. j \<noteq> i \<Longrightarrow> \<not> active (ra_phase c j)" "row_claimed rid (ra_db c)" "ra_live c \<le> 1"
    "ra_phase c i = Claimed \<Longrightarrow> ra_live c = 0"
  using assms unfolding race_inv_def by blast+

lemma claim_submit_won:
  "claim_submit now rid d = (d', True) \<Longrightarrow> row_claimed rid d' \<and> \<not> row_claimed rid d"
  by (auto simp: claim_submit_def row_claimed_def claimable_def tbl.get_upd split: option.splits if_splits)

lemma claim_submit_lost: "claim_submit now rid d = (d', False) \<Longrightarrow> d' = d"
  by (auto simp: claim_submit_def split: option.splits if_splits)

lemma stamp_row_claimed: "row_claimed rid d \<Longrightarrow> row_claimed rid (stamp_placement now rid t st d)"
  by (auto simp: stamp_placement_def row_claimed_def claimable_def tbl.get_upd split: option.splits)

lemma race_inv_start: "race_inv rid (race_start d)"
  by (simp add: race_inv_def race_start_def)

lemma race_inv_step:
  assumes "race_step rid st c c'" "race_inv rid c"
  shows "race_inv rid c'"
  using assms(1)
proof (cases rule: race_step.cases)
  case (claim i now d' won)
  show ?thesis
  proof (cases won)
    case True
    with claim have w: "row_claimed rid d'" "\<not> row_claimed rid (ra_db c)"
      using claim_submit_won [of now rid "ra_db c" d'] by simp_all
    then have none: "\<forall>j. \<not> active (ra_phase c j)" "ra_live c = 0"
      using assms(2) by (auto simp: race_inv_def)
    with w True claim show ?thesis by (auto simp: race_inv_def)
  next
    case False
    then have "d' = ra_db c" using claim claim_submit_lost [of now rid "ra_db c" d'] by simp
    then have "active (ra_phase c' j) = active (ra_phase c j)"
      "(ra_phase c' j = Claimed) = (ra_phase c j = Claimed)" "ra_db c' = ra_db c" "ra_live c' = ra_live c" for j
      using claim False by simp_all
    then show ?thesis using assms(2) by (simp add: race_inv_def)
  qed
next
  case (place i t)
  then have a: "active (ra_phase c i)" by simp
  note c = race_inv_active [OF assms(2) a]
  show ?thesis by (rule race_inv_solo [of i]) (use place c in simp_all)
next
  case (fail i)
  then have a: "active (ra_phase c i)" by simp
  note c = race_inv_active [OF assms(2) a]
  show ?thesis by (rule race_inv_solo [of i]) (use fail c in simp_all)
next
  case (stamp i t now)
  then have a: "active (ra_phase c i)" by simp
  note c = race_inv_active [OF assms(2) a]
  show ?thesis by (rule race_inv_solo [of i]) (use stamp c stamp_row_claimed [OF c(2)] in simp_all)
next
  case (crash i)
  then have a: "active (ra_phase c i)" by auto
  note c = race_inv_active [OF assms(2) a]
  show ?thesis by (rule race_inv_solo [of i]) (use crash c in simp_all)
next
  case (other d')
  then show ?thesis using assms(2) by (auto simp: race_inv_def)
qed

lemma race_inv_run: "race_run rid st c c' \<Longrightarrow> race_inv rid c \<Longrightarrow> race_inv rid c'"
  by (induction rule: race_run.induct) (auto intro: race_inv_step)

section \<open>Properties\<close>

text \<open>
  C3. At most one order reaches the broker per row: however many callers place the same
  row, in whatever interleaving of their claim, placement, release and stamp steps, with
  crashes after any step and other writers in between, the broker never holds more than
  one order for it, and once it holds one the row can no longer be claimed.
\<close>

theorem placement_at_most_once:
  assumes "race_run rid st (race_start d) c"
  shows "ra_live c \<le> 1 \<and> (0 < ra_live c \<longrightarrow> snd (claim_submit now rid (ra_db c)) = False)"
proof -
  have inv: "race_inv rid c" by (rule race_inv_run [OF assms race_inv_start])
  then have "0 < ra_live c \<Longrightarrow> row_claimed rid (ra_db c)" by (auto simp: race_inv_def)
  then have "0 < ra_live c \<Longrightarrow> snd (claim_submit now rid (ra_db c)) = False"
    by (auto simp: row_claimed_def claim_submit_def claimable_def split: option.splits)
  with inv show ?thesis by (simp add: race_inv_def)
qed

definition pending_db :: db where
  "pending_db = empty_db\<lparr>t_orders := [(1, new_order_row 0 9 0 Entry ''call'' BUY 5 Pending)]\<rparr>"

theorem placement_at_most_once_witness:
  "\<exists>c. race_run 1 Submitted (race_start pending_db) c \<and> ra_live c = 1 \<and>
     snd (claim_submit 9 1 (ra_db c)) = False"
proof -
  let ?d = "fst (claim_submit 3 1 pending_db)"
  let ?a = "(race_start pending_db)\<lparr>ra_db := ?d, ra_phase := (\<lambda>_. Idle)(0 := Claimed)\<rparr>"
  let ?b = "?a\<lparr>ra_phase := (ra_phase ?a)(0 := Placed \<lparr>pl_order_id = 77, pl_perm_id = 0\<rparr>), ra_live := Suc (ra_live ?a)\<rparr>"
  have c: "claim_submit 3 1 pending_db = (?d, True)"
    by (simp add: claim_submit_def pending_db_def tget_def claimable_def new_order_row_def)
  have s: "race_step 1 Submitted (race_start pending_db) ?a"
    using race_step.claim [of "race_start pending_db" 0 3 1 ?d True Submitted] c
    by (simp add: race_start_def)
  have p: "race_step 1 Submitted ?a ?b" by (rule race_step.place) simp
  have r: "race_run 1 Submitted (race_start pending_db) ?b"
    by (rule race_run.step [OF race_run.step [OF race_run.refl s] p])
  have live: "ra_live ?b = 1" by (simp add: race_start_def)
  with placement_at_most_once [OF r, of 9] have "snd (claim_submit 9 1 (ra_db ?b)) = False" by simp
  with r live show ?thesis by blast
qed

text \<open>
  Order keys identify their order: the key of a structure's order parses back to that
  structure and order, so two orders never share a key, and the keys of hedges and of
  manual orders are never taken for one.
\<close>

theorem order_ref_roundtrip:
  "parse_order_ref (Some (order_ref s i)) = Some (s, i) \<and>
   (order_ref s i = order_ref s' i' \<longleftrightarrow> s = s' \<and> i = i') \<and>
   parse_order_ref (Some (hedge_order_ref h)) = None \<and>
   parse_order_ref (Some (manual_order_ref token)) = None"
proof (intro conjI)
  show "parse_order_ref (Some (order_ref s i)) = Some (s, i)" by (rule parse_order_ref_order_ref)
  have "order_ref s i = order_ref s' i' \<Longrightarrow> (s, i) = (s', i')"
    by (metis parse_order_ref_order_ref option.inject)
  then show "order_ref s i = order_ref s' i' \<longleftrightarrow> s = s' \<and> i = i'" by auto
  have "py_int ''hedge'' = None" "py_int ''manual'' = None" by code_simp+
  from parse_order_ref_foreign [OF this(1), of "int_str h"] parse_order_ref_foreign [OF this(2), of token]
  show "parse_order_ref (Some (hedge_order_ref h)) = None" "parse_order_ref (Some (manual_order_ref token)) = None"
    by (simp_all add: hedge_order_ref_def manual_order_ref_def)
qed

end
