(* ===== verification/Reaper.thy ===== *)
theory Reaper
  imports Order_Reconciler Placement
begin

text \<open>
  \<open>engines/execution/reaper.py\<close>: adoption of orphaned orders by their key, expiry of
  stale orders the broker neither works nor holds, release of the reservations they held,
  and the terminal state of their structures. The broker's snapshot is an argument: whether
  the account reports, and the list of trades or nothing when it could not be read.
\<close>

section \<open>The broker's snapshot\<close>

record live_trade =
  lt_status :: "string option"
  lt_remaining :: "flt option"
  lt_order_id :: "int option"
  lt_perm_id :: "int option"
  lt_order_ref :: "string option"

definition LIVE_IB_STATUSES :: "string list" where
  "LIVE_IB_STATUSES = [''Submitted'', ''PreSubmitted'', ''PendingSubmit'', ''ApiPending'']"

definition trade_live :: "live_trade \<Rightarrow> bool" where
  "trade_live t =
     ((case lt_status t of None \<Rightarrow> False | Some s \<Rightarrow> s \<in> set LIVE_IB_STATUSES) \<and> 0 < flt_or0 (lt_remaining t))"

definition opt_key :: "int option \<Rightarrow> string list" where
  "opt_key v = (case v of None \<Rightarrow> [] | Some i \<Rightarrow> [int_str i])"

definition live_ib_order_keys :: "live_trade list \<Rightarrow> string list" where
  "live_ib_order_keys ts =
     concat (map (\<lambda>t. if trade_live t then opt_key (lt_order_id t) @ opt_key (lt_perm_id t) else []) ts)"

section \<open>Adoption\<close>

text \<open>The trade that carries the key of an order; a later trade replaces an earlier one.\<close>

definition ref_map :: "live_trade list \<Rightarrow> int \<Rightarrow> live_trade option" where
  "ref_map ts oid = map_of (rev (concat (map (\<lambda>t.
     case parse_order_ref (lt_order_ref t) of None \<Rightarrow> [] | Some (sid, i) \<Rightarrow> [(i, t)]) ts))) oid"

definition adopted_row :: "time \<Rightarrow> live_trade \<Rightarrow> order_row \<Rightarrow> order_row" where
  "adopted_row now t r =
     (let r1 = r\<lparr>o_ib_order_id := map_option int_str (lt_order_id t),
                o_ib_perm_id := map_option int_str (lt_perm_id t)\<rparr>;
          r2 = (if o_state r1 = Pending then r1\<lparr>o_state := Submitted, o_state_updated_at := now\<rparr> else r1)
      in if o_submitted_at r2 = None then r2\<lparr>o_submitted_at := Some now\<rparr> else r2)"

definition orphans :: "live_trade list \<Rightarrow> db \<Rightarrow> (int \<times> order_row) list" where
  "orphans ts d = filter (\<lambda>(oid, r). ref_map ts oid \<noteq> None \<and> o_ib_order_id r = None) (t_orders d)"

definition adopt_one :: "time \<Rightarrow> live_trade list \<Rightarrow> db \<Rightarrow> int \<times> order_row \<Rightarrow> db" where
  "adopt_one now ts d e =
     (case e of (oid, r) \<Rightarrow>
        (case ref_map ts oid of
           None \<Rightarrow> d
         | Some t \<Rightarrow>
             (let r' = adopted_row now t r in
              audit oid r' ''order_adopted_from_ib'' Sev_warning
                [(''order_id'', PInt oid), (''ib_order_id'', p_opt_str (o_ib_order_id r')),
                 (''order_ref'', p_opt_str (lt_order_ref t))]
                (upd_order oid (\<lambda>_. r') d))))"

definition adopt_orphaned_orders :: "time \<Rightarrow> live_trade list \<Rightarrow> db \<Rightarrow> db \<times> int list" where
  "adopt_orphaned_orders now ts d =
     (foldl (adopt_one now ts) d (orphans ts d), map fst (orphans ts d))"

section \<open>Expiry\<close>

record reap =
  rp_db :: db
  rp_used :: "int list"
  rp_expired :: "int list"

definition opt_in :: "string option \<Rightarrow> string list \<Rightarrow> bool" where
  "opt_in v keys = (case v of None \<Rightarrow> False | Some s \<Rightarrow> s \<noteq> [] \<and> s \<in> set keys)"

definition working_at_ib :: "string list \<Rightarrow> order_row \<Rightarrow> bool" where
  "working_at_ib live r = (opt_in (o_ib_order_id r) live \<or> opt_in (o_ib_perm_id r) live)"

definition order_age :: "time \<Rightarrow> order_row \<Rightarrow> flt" where
  "order_age now r = now - time_or (o_submitted_at r) now"

definition expire_order :: "time \<Rightarrow> int \<Rightarrow> order_row \<Rightarrow> db \<Rightarrow> db" where
  "expire_order now oid r d =
     (let r' = r\<lparr>o_state := Expired, o_state_updated_at := now\<rparr> in
      release_if_closing now r'
        (upd_order oid (\<lambda>_. r')
          (audit oid r ''order_reaped_expired'' Sev_warning
            [(''order_id'', PInt oid), (''state_before'', PStr (state_name (o_state r))),
             (''age_seconds'', PFlt (order_age now r)), (''ib_order_id'', p_opt_str (o_ib_order_id r))] d)))"

definition reap_one :: "time \<Rightarrow> flt \<Rightarrow> string list \<Rightarrow> reap \<Rightarrow> int \<times> order_row \<Rightarrow> reap" where
  "reap_one now tau live a e =
     (case e of (oid, r) \<Rightarrow>
        if working_at_ib live r then a
        else
          let m = match_position (rp_db a) (rp_used a) r; held = (m \<noteq> None) in
          (case decide_reap (o_state r) (order_age now r) tau held held of
             Some Filled \<Rightarrow> (case m of None \<Rightarrow> a | Some (pid, p) \<Rightarrow> a\<lparr>rp_used := pid # rp_used a\<rparr>)
           | Some Expired \<Rightarrow>
               a\<lparr>rp_db := expire_order now oid r (rp_db a), rp_expired := rp_expired a @ [oid]\<rparr>
           | _ \<Rightarrow> a))"

definition stale_orders :: "time \<Rightarrow> flt \<Rightarrow> db \<Rightarrow> (int \<times> order_row) list" where
  "stale_orders now tau d =
     twhere (\<lambda>r. o_state r \<in> set REAPABLE_STATES \<and>
        (case o_submitted_at r of None \<Rightarrow> False | Some t \<Rightarrow> t < now - tau)) (t_orders d)"

fun structure_state_name :: "structure_state \<Rightarrow> string" where
  "structure_state_name S_submitted = ''submitted''"
| "structure_state_name S_partial_fill = ''partial_fill''"
| "structure_state_name S_fully_filled = ''fully_filled''"
| "structure_state_name S_partial_fail = ''partial_fail''"
| "structure_state_name S_fully_failed = ''fully_failed''"
| "structure_state_name S_closed = ''closed''"

definition terminalise_structure :: "time \<Rightarrow> db \<Rightarrow> int \<Rightarrow> db" where
  "terminalise_structure now d sid =
     (case plan_structure_terminal_state (map o_state (orders_of d sid)) of
        None \<Rightarrow> d
      | Some ns \<Rightarrow>
          (case tget (t_structures d) sid of
             None \<Rightarrow> d
           | Some s \<Rightarrow>
               if s_state s = ns then d
               else add_event (structure_event sid ''structure_terminalised'' Sev_info
                        [(''structure_id'', PInt sid), (''new_state'', PStr (structure_state_name ns))])
                      (upd_structure sid (\<lambda>s. s\<lparr>s_state := ns, s_state_updated_at := now\<rparr>) d)))"

definition affected_structures :: "(int \<times> order_row) list \<Rightarrow> int list \<Rightarrow> int list" where
  "affected_structures stale expired =
     remdups (map (\<lambda>(oid, r). o_structure_id r) (filter (\<lambda>(oid, r). oid \<in> set expired) stale))"

datatype reap_skip = Account_not_reporting | Ib_trades_unavailable

record reap_report =
  rpt_expired :: "int list"
  rpt_adopted :: "int list"
  rpt_skipped :: "reap_skip option"

definition reap_pass :: "time \<Rightarrow> flt \<Rightarrow> live_trade list \<Rightarrow> db \<Rightarrow> reap" where
  "reap_pass now tau ts d =
     foldl (reap_one now tau (live_ib_order_keys ts)) \<lparr>rp_db = d, rp_used = [], rp_expired = []\<rparr>
       (stale_orders now tau d)"

definition reap_stale_orders ::
  "time \<Rightarrow> flt \<Rightarrow> bool \<Rightarrow> live_trade list option \<Rightarrow> db \<Rightarrow> db \<times> reap_report" where
  "reap_stale_orders now tau reporting ib_trades d =
     (if \<not> reporting then
        (d, \<lparr>rpt_expired = [], rpt_adopted = [], rpt_skipped = Some Account_not_reporting\<rparr>)
      else (case ib_trades of
          None \<Rightarrow> (d, \<lparr>rpt_expired = [], rpt_adopted = [], rpt_skipped = Some Ib_trades_unavailable\<rparr>)
        | Some ts \<Rightarrow>
            let (d1, adopted) = adopt_orphaned_orders now ts d in
            if stale_orders now tau d1 = [] then
              (d1, \<lparr>rpt_expired = [], rpt_adopted = adopted, rpt_skipped = None\<rparr>)
            else
              let a = reap_pass now tau ts d1
              in (foldl (terminalise_structure now) (rp_db a)
                    (affected_structures (stale_orders now tau d1) (rp_expired a)),
                  \<lparr>rpt_expired = rp_expired a, rpt_adopted = adopted, rpt_skipped = None\<rparr>)))"

section \<open>What expiring one order does\<close>

lemma expire_order_frame [simp]:
  "t_fills (expire_order now oid r d) = t_fills d" "t_open_positions (expire_order now oid r d) = t_open_positions d"
  "t_structures (expire_order now oid r d) = t_structures d" "t_positions (expire_order now oid r d) = t_positions d"
  "t_orders (expire_order now oid r d) =
     tupd oid (\<lambda>_. r\<lparr>o_state := Expired, o_state_updated_at := now\<rparr>) (t_orders d)"
  by (simp_all add: expire_order_def Let_def release_if_closing_def split: option.split)

lemma open_of_expire [simp]: "open_of (expire_order now oid r d) = open_of d"
proof -
  have "open_of (upd_order oid f (audit i r' e s p d)) = open_of d" for f i r' e s p
    by (rule open_of_legs) simp
  then show ?thesis by (simp add: expire_order_def Let_def)
qed

lemma reap_one_cases:
  obtains (same) "rp_db (reap_one now tau live a (oid, r)) = rp_db a"
      "rp_expired (reap_one now tau live a (oid, r)) = rp_expired a"
  | (expired) "reap_one now tau live a (oid, r) =
        a\<lparr>rp_db := expire_order now oid r (rp_db a), rp_expired := rp_expired a @ [oid]\<rparr>"
      "\<not> working_at_ib live r" "match_position (rp_db a) (rp_used a) r = None" "tau < order_age now r"
      "o_state r \<in> set REAPABLE_STATES"
proof (cases "working_at_ib live r")
  case True
  then show ?thesis by (intro same) (simp_all add: reap_one_def)
next
  case False
  let ?m = "match_position (rp_db a) (rp_used a) r"
  show ?thesis
  proof (cases "decide_reap (o_state r) (order_age now r) tau (?m \<noteq> None) (?m \<noteq> None)")
    case None
    with False show ?thesis by (intro same) (simp_all add: reap_one_def Let_def)
  next
    case (Some s)
    note ds = decide_reap_Some [OF Some]
    show ?thesis
    proof (cases "?m")
      case None
      with ds have "s = Expired" by simp
      with Some None False ds show ?thesis
        by (intro expired) (simp_all add: reap_one_def Let_def REAPABLE_STATES_def)
    next
      case (Some m)
      with ds have "s = Filled" by simp
      with \<open>decide_reap _ _ _ _ _ = Some s\<close> Some False show ?thesis
        by (intro same) (simp_all add: reap_one_def Let_def split: prod.split)
    qed
  qed
qed

section \<open>The pass over the stale orders\<close>

definition dead_at_ib :: "time \<Rightarrow> flt \<Rightarrow> string list \<Rightarrow> order_row \<Rightarrow> bool" where
  "dead_at_ib now tau live r =
     (o_state r \<in> set REAPABLE_STATES \<and> tau < order_age now r \<and> \<not> working_at_ib live r)"

text \<open>The broker position is the match of an order that was kept, other than \<open>oid\<close>.\<close>

definition kept_match :: "db \<Rightarrow> (int \<times> order_row) list \<Rightarrow> int list \<Rightarrow> int \<Rightarrow> bool" where
  "kept_match d xs expired pid =
     (\<exists>(j, q) \<in> set xs. j \<notin> set expired \<and>
        (\<exists>p. (pid, p) \<in> set (t_open_positions d) \<and> leg_matches_position q p))"

definition covered_by_others :: "db \<Rightarrow> (int \<times> order_row) list \<Rightarrow> int list \<Rightarrow> order_row \<Rightarrow> bool" where
  "covered_by_others d xs expired r =
     (\<forall>(pid, p) \<in> set (t_open_positions d).
        op_trade_id p = Some (o_structure_id r) \<longrightarrow> leg_matches_position r p \<longrightarrow> kept_match d xs expired pid)"

text \<open>What became of order \<open>j\<close>: kept as it was, or expired for a reason.\<close>

definition reap_outcome ::
  "time \<Rightarrow> flt \<Rightarrow> string list \<Rightarrow> db \<Rightarrow> (int \<times> order_row) list \<Rightarrow> int list \<Rightarrow> order_row option \<Rightarrow> int \<Rightarrow> bool" where
  "reap_outcome now tau live d xs ex row j =
     (row = tget (t_orders d) j \<and> j \<notin> set ex \<or>
      (\<exists>r. (j, r) \<in> set xs \<and> j \<in> set ex \<and> row = Some (r\<lparr>o_state := Expired, o_state_updated_at := now\<rparr>) \<and>
         dead_at_ib now tau live r \<and> covered_by_others d xs ex r))"

definition reap_inv ::
  "time \<Rightarrow> flt \<Rightarrow> string list \<Rightarrow> db \<Rightarrow> (int \<times> order_row) list \<Rightarrow> reap \<Rightarrow> bool" where
  "reap_inv now tau live d xs a =
     (t_open_positions (rp_db a) = t_open_positions d \<and>
      set (rp_expired a) \<subseteq> set (map fst xs) \<and>
      (\<forall>j. reap_outcome now tau live d xs (rp_expired a) (tget (t_orders (rp_db a)) j) j) \<and>
      (\<forall>pid \<in> set (rp_used a). kept_match d xs (rp_expired a) pid))"

lemma kept_match_mono:
  assumes "kept_match d xs ex pid" "set xs \<subseteq> set ys"
    "\<And>j. j \<in> set (map fst xs) \<Longrightarrow> j \<in> set ex' \<Longrightarrow> j \<in> set ex"
  shows "kept_match d ys ex' pid"
proof -
  from assms(1) obtain j q p where j: "(j, q) \<in> set xs" "j \<notin> set ex"
    "(pid, p) \<in> set (t_open_positions d)" "leg_matches_position q p"
    unfolding kept_match_def by blast
  have "j \<in> set (map fst xs)" using j(1) by force
  then have "j \<notin> set ex'" using assms(3) j(2) by blast
  then show ?thesis using j assms(2) unfolding kept_match_def by blast
qed

lemma covered_by_others_mono:
  assumes "covered_by_others d xs ex r" "set xs \<subseteq> set ys"
    "\<And>j. j \<in> set (map fst xs) \<Longrightarrow> j \<in> set ex' \<Longrightarrow> j \<in> set ex"
  shows "covered_by_others d ys ex' r"
  using assms(1) kept_match_mono [OF _ assms(2,3)] unfolding covered_by_others_def by blast

lemma reap_outcome_mono:
  assumes "reap_outcome now tau live d xs ex row j" "set xs \<subseteq> set ys"
    "\<And>j. j \<in> set (map fst xs) \<Longrightarrow> j \<in> set ex' \<Longrightarrow> j \<in> set ex"
    "j \<in> set ex \<longleftrightarrow> j \<in> set ex'"
  shows "reap_outcome now tau live d ys ex' row j"
proof -
  have m: "covered_by_others d xs ex r \<Longrightarrow> covered_by_others d ys ex' r" for r
    by (rule covered_by_others_mono [OF _ assms(2,3)])
  from assms(1) consider "row = tget (t_orders d) j" "j \<notin> set ex"
    | r where "(j, r) \<in> set xs" "j \<in> set ex" "row = Some (r\<lparr>o_state := Expired, o_state_updated_at := now\<rparr>)"
        "dead_at_ib now tau live r" "covered_by_others d xs ex r"
    unfolding reap_outcome_def by (elim disjE conjE exE)
  then show ?thesis
  proof cases
    case 1
    with assms(4) show ?thesis by (simp add: reap_outcome_def)
  next
    case (2 r)
    with m assms(2,4) show ?thesis unfolding reap_outcome_def by (intro disjI2 exI [of _ r]) auto
  qed
qed

lemma match_position_None:
  assumes "match_position d used r = None" "(pid, p) \<in> set (t_open_positions d)"
    "op_trade_id p = Some (o_structure_id r)" "leg_matches_position r p"
  shows "pid \<in> set used"
  using assms by (fastforce simp: match_position_def candidates_def find_None_iff)

lemma reap_inv_init: "reap_inv now tau live d [] \<lparr>rp_db = d, rp_used = [], rp_expired = []\<rparr>"
  by (simp add: reap_inv_def reap_outcome_def)

lemma reap_inv_same:
  assumes inv: "reap_inv now tau live d xs a"
    and same: "rp_db a' = rp_db a" "rp_expired a' = rp_expired a"
    and new: "oid \<notin> set (map fst xs)"
    and used: "\<And>pid. pid \<in> set (rp_used a') \<Longrightarrow> pid \<notin> set (rp_used a) \<Longrightarrow>
      \<exists>p'. (pid, p') \<in> set (t_open_positions d) \<and> leg_matches_position r p'"
  shows "reap_inv now tau live d (xs @ [(oid, r)]) a'"
proof -
  have n: "oid \<notin> set (rp_expired a)" using inv new by (auto simp: reap_inv_def)
  have "kept_match d (xs @ [(oid, r)]) (rp_expired a) pid" if pid: "pid \<in> set (rp_used a')" for pid
  proof (cases "pid \<in> set (rp_used a)")
    case True
    with inv have "kept_match d xs (rp_expired a) pid" by (simp add: reap_inv_def)
    then show ?thesis by (rule kept_match_mono) auto
  next
    case False
    with used [OF pid] n show ?thesis by (auto simp: kept_match_def)
  qed
  moreover have "reap_outcome now tau live d (xs @ [(oid, r)]) (rp_expired a) (tget (t_orders (rp_db a)) j) j" for j
  proof (rule reap_outcome_mono)
    show "reap_outcome now tau live d xs (rp_expired a) (tget (t_orders (rp_db a)) j) j"
      using inv by (simp add: reap_inv_def)
  qed auto
  moreover have "set (rp_expired a) \<subseteq> set (map fst (xs @ [(oid, r)]))" using inv by (auto simp: reap_inv_def)
  ultimately show ?thesis using inv unfolding reap_inv_def same by blast
qed

lemma reap_inv_expired:
  assumes inv: "reap_inv now tau live d xs a"
    and new: "oid \<notin> set (map fst xs)" and row: "tget (t_orders d) oid = Some r"
    and none: "match_position (rp_db a) (rp_used a) r = None" and dead: "dead_at_ib now tau live r"
  shows "reap_inv now tau live d (xs @ [(oid, r)])
    (a\<lparr>rp_db := expire_order now oid r (rp_db a), rp_expired := rp_expired a @ [oid]\<rparr>)"
proof -
  let ?ex = "rp_expired a @ [oid]"
  have op: "t_open_positions (rp_db a) = t_open_positions d" using inv by (simp add: reap_inv_def)
  have n: "oid \<notin> set (rp_expired a)" using inv new by (auto simp: reap_inv_def)
  have keep: "j \<in> set (map fst xs) \<Longrightarrow> j \<in> set ?ex \<Longrightarrow> j \<in> set (rp_expired a)" for j
    using new by auto
  have km: "kept_match d (xs @ [(oid, r)]) ?ex pid" if "pid \<in> set (rp_used a)" for pid
  proof (rule kept_match_mono [OF _ _ keep])
    show "kept_match d xs (rp_expired a) pid" using inv that by (simp add: reap_inv_def)
  qed auto
  have cov: "covered_by_others d (xs @ [(oid, r)]) ?ex r"
    unfolding covered_by_others_def using match_position_None [OF none] km by (auto simp: op)
  have get: "tget (t_orders (rp_db a)) oid = Some r"
    using inv n row unfolding reap_inv_def reap_outcome_def by metis
  have out: "reap_outcome now tau live d (xs @ [(oid, r)]) ?ex
      (tget (t_orders (expire_order now oid r (rp_db a))) j) j" for j
  proof (cases "j = oid")
    case True
    with get cov dead show ?thesis
      unfolding reap_outcome_def by (intro disjI2 exI [of _ r]) (simp add: tbl.get_upd)
  next
    case False
    have "reap_outcome now tau live d (xs @ [(oid, r)]) ?ex (tget (t_orders (rp_db a)) j) j"
    proof (rule reap_outcome_mono [OF _ _ keep])
      show "reap_outcome now tau live d xs (rp_expired a) (tget (t_orders (rp_db a)) j) j"
        using inv by (simp add: reap_inv_def)
    qed (use False in auto)
    with False show ?thesis by (simp add: tbl.get_upd)
  qed
  have "set ?ex \<subseteq> set (map fst (xs @ [(oid, r)]))" using inv by (auto simp: reap_inv_def)
  with op km out show ?thesis unfolding reap_inv_def by simp
qed

lemma reap_one_used:
  assumes "rp_expired (reap_one now tau live a (oid, r)) = rp_expired a"
    "pid \<in> set (rp_used (reap_one now tau live a (oid, r)))" "pid \<notin> set (rp_used a)"
  shows "\<exists>p. match_position (rp_db a) (rp_used a) r = Some (pid, p)"
  using assms by (auto simp: reap_one_def Let_def split: option.splits order_state.splits if_splits)

lemma reap_inv_pass:
  assumes "distinct (map fst xs)" "\<And>oid r. (oid, r) \<in> set xs \<Longrightarrow> tget (t_orders d) oid = Some r"
  shows "reap_inv now tau live d xs
    (foldl (reap_one now tau live) \<lparr>rp_db = d, rp_used = [], rp_expired = []\<rparr> xs)"
  using assms
proof (induction xs rule: rev_induct)
  case Nil
  show ?case by (simp add: reap_inv_init)
next
  case (snoc e xs)
  obtain oid r where e: "e = (oid, r)" by (rule prod.exhaust)
  let ?a = "foldl (reap_one now tau live) \<lparr>rp_db = d, rp_used = [], rp_expired = []\<rparr> xs"
  have inv: "reap_inv now tau live d xs ?a" using snoc by simp
  have new: "oid \<notin> set (map fst xs)" using snoc.prems(1) e by simp
  have row: "tget (t_orders d) oid = Some r" using snoc.prems(2) e by simp
  show ?case
  proof (cases rule: reap_one_cases [of now tau live ?a oid r])
    case same
    have "reap_inv now tau live d (xs @ [(oid, r)]) (reap_one now tau live ?a (oid, r))"
    proof (rule reap_inv_same [OF inv same new])
      fix pid assume "pid \<in> set (rp_used (reap_one now tau live ?a (oid, r)))" "pid \<notin> set (rp_used ?a)"
      from reap_one_used [OF same(2) this] obtain p where "match_position (rp_db ?a) (rp_used ?a) r = Some (pid, p)" ..
      from match_position_Some [OF this] inv
      show "\<exists>p'. (pid, p') \<in> set (t_open_positions d) \<and> leg_matches_position r p'"
        by (auto simp: reap_inv_def)
    qed
    then show ?thesis by (simp add: e)
  next
    case expired
    have "dead_at_ib now tau live r" using expired by (simp add: dead_at_ib_def)
    from reap_inv_expired [OF inv new row expired(3) this] expired(1) show ?thesis by (simp add: e)
  qed
qed

section \<open>Reservations\<close>

lemma twhere_tupd_outside:
  assumes "\<not> P x" "\<And>r. (k, r) \<in> set t \<Longrightarrow> \<not> P r"
  shows "twhere P (tupd k (\<lambda>_. x) t) = twhere P t"
  using assms(2)
proof (induction t)
  case Nil
  then show ?case by (simp add: twhere_def tupd_def)
next
  case (Cons e t)
  obtain i q where e: "e = (i, q)" by (rule prod.exhaust)
  have "twhere P (tupd k (\<lambda>_. x) t) = twhere P t" using Cons by simp
  moreover have "i = k \<Longrightarrow> \<not> P q" using Cons.prems e by simp
  ultimately show ?case using assms(1) by (cases "i = k") (simp_all add: twhere_def tupd_def e)
qed

lemma reserved_demand_upd_other:
  assumes "table_ok (t_orders d)" "tget (t_orders d) oid = Some r"
    "\<not> (o_order_role r = Closing \<and> o_closes_order_id r = Some eid)"
    "o_order_role r' = o_order_role r" "o_closes_order_id r' = o_closes_order_id r"
  shows "reserved_demand (upd_order oid (\<lambda>_. r') d) eid = reserved_demand d eid"
proof -
  have "twhere (\<lambda>r. o_closes_order_id r = Some eid \<and> o_order_role r = Closing \<and> o_state r \<in> set NON_TERMINAL)
      (tupd oid (\<lambda>_. r') (t_orders d)) =
    twhere (\<lambda>r. o_closes_order_id r = Some eid \<and> o_order_role r = Closing \<and> o_state r \<in> set NON_TERMINAL) (t_orders d)"
  proof (rule twhere_tupd_outside)
    show "\<not> (o_closes_order_id r' = Some eid \<and> o_order_role r' = Closing \<and> o_state r' \<in> set NON_TERMINAL)"
      using assms(3-5) by simp
    fix q assume "(oid, q) \<in> set (t_orders d)"
    then have "q = r" using tget_unique [OF assms(1) _ assms(2)] by blast
    then show "\<not> (o_closes_order_id q = Some eid \<and> o_order_role q = Closing \<and> o_state q \<in> set NON_TERMINAL)"
      using assms(3) by simp
  qed
  then show ?thesis unfolding reserved_demand_def by simp
qed

definition reservation_synced :: "db \<Rightarrow> int \<Rightarrow> bool" where
  "reservation_synced d eid = (reserved_of d eid = of_int (reserved_demand d eid))"

lemma expire_order_synced:
  assumes ok: "table_ok (t_orders d)" "tget (t_orders d) oid = Some r"
    and eid: "(o_order_role r = Closing \<and> o_closes_order_id r = Some eid) \<or> reservation_synced d eid"
  shows "reservation_synced (expire_order now oid r d) eid"
proof -
  let ?r' = "r\<lparr>o_state := Expired, o_state_updated_at := now\<rparr>"
  let ?d1 = "\<lambda>d. upd_order oid (\<lambda>_. ?r') d"
  obtain a where a: "expire_order now oid r d = release_if_closing now ?r' (?d1 a)"
    "t_orders a = t_orders d" "t_legs a = t_legs d"
    by (rule that [OF _ audit_simps(1,3)]) (simp add: expire_order_def Let_def)
  have res: "reserved_of (?d1 a) = reserved_of d" by (rule ext) (simp add: reserved_of_def a)
  have dem: "reserved_demand (?d1 a) = reserved_demand (?d1 d)" by (rule reserved_demand_cong) (simp add: a)
  show ?thesis
  proof (cases "o_order_role r = Closing \<and> o_closes_order_id r = Some eid")
    case True
    then have e: "expire_order now oid r d = recompute_reservation now eid (?d1 a)"
      by (simp add: a release_if_closing_def)
    have "reserved_demand (recompute_reservation now eid (?d1 a)) = reserved_demand (?d1 a)"
      by (rule reserved_demand_cong) simp
    then show ?thesis by (simp add: reservation_synced_def e reserved_of_recompute)
  next
    case False
    have d: "reserved_demand (?d1 d) eid = reserved_demand d eid"
      by (rule reserved_demand_upd_other [OF ok False]) simp_all
    have "reserved_of (release_if_closing now ?r' (?d1 a)) eid = reserved_of d eid"
      using False by (auto simp: release_if_closing_def reserved_of_recompute res split: option.split)
    moreover have "reserved_demand (release_if_closing now ?r' (?d1 a)) = reserved_demand (?d1 a)"
      by (rule reserved_demand_cong) simp
    ultimately show ?thesis using eid False d dem by (simp add: reservation_synced_def a)
  qed
qed

lemma reap_one_keys: "keys_of (t_orders (rp_db (reap_one now tau live a e))) = keys_of (t_orders (rp_db a))"
proof -
  obtain oid r where "e = (oid, r)" by (rule prod.exhaust)
  then show ?thesis by (cases rule: reap_one_cases [of now tau live a oid r]) simp_all
qed

lemma reap_pass_synced:
  assumes ok: "table_ok (t_orders d)"
    and "distinct (map fst xs)" "\<And>oid r. (oid, r) \<in> set xs \<Longrightarrow> tget (t_orders d) oid = Some r"
    and "(oid, r) \<in> set xs" "o_order_role r = Closing" "o_closes_order_id r = Some eid"
    and "oid \<in> set (rp_expired (foldl (reap_one now tau live) \<lparr>rp_db = d, rp_used = [], rp_expired = []\<rparr> xs))"
  shows "reservation_synced (rp_db (foldl (reap_one now tau live) \<lparr>rp_db = d, rp_used = [], rp_expired = []\<rparr> xs)) eid"
  using assms(2-)
proof (induction xs arbitrary: oid r rule: rev_induct)
  case Nil
  then show ?case by simp
next
  case (snoc e xs)
  obtain k q where e: "e = (k, q)" by (rule prod.exhaust)
  let ?a = "foldl (reap_one now tau live) \<lparr>rp_db = d, rp_used = [], rp_expired = []\<rparr> xs"
  have rows: "\<And>oid r. (oid, r) \<in> set xs \<Longrightarrow> tget (t_orders d) oid = Some r" using snoc.prems by simp
  have inv: "reap_inv now tau live d xs ?a" using snoc.prems by (intro reap_inv_pass) auto
  have new: "k \<notin> set (map fst xs)" using snoc.prems(1) e by simp
  have q: "tget (t_orders d) k = Some q" using snoc.prems(2) e by simp
  have sub: "set (rp_expired ?a) \<subseteq> set (map fst xs)" using inv by (simp add: reap_inv_def)
  have old: "reservation_synced (rp_db ?a) eid" if "oid \<in> set (rp_expired ?a)"
  proof -
    have "oid \<noteq> k" using that sub new by auto
    then have "(oid, r) \<in> set xs" using snoc.prems(3) e by simp
    from snoc.IH [OF _ rows this snoc.prems(4,5) that] snoc.prems(1) show ?thesis by simp
  qed
  show ?case
  proof (cases rule: reap_one_cases [of now tau live ?a k q])
    case same
    with snoc.prems(6) old show ?thesis by (simp add: e)
  next
    case expired
    have keys: "keys_of (t_orders (rp_db ?a)) = keys_of (t_orders d)"
      using foldl_keeps [of "\<lambda>a. keys_of (t_orders (rp_db a))" "reap_one now tau live", OF reap_one_keys] by simp
    then have ok': "table_ok (t_orders (rp_db ?a))" using ok by (simp add: table_ok_def)
    have "k \<notin> set (rp_expired ?a)" using sub new by blast
    then have get: "tget (t_orders (rp_db ?a)) k = Some q"
      using inv q unfolding reap_inv_def reap_outcome_def by metis
    have "(o_order_role q = Closing \<and> o_closes_order_id q = Some eid) \<or> reservation_synced (rp_db ?a) eid"
    proof (cases "oid = k")
      case True
      then have "r = q" using snoc.prems(2,3) q by force
      with snoc.prems show ?thesis by simp
    next
      case False
      then have "oid \<in> set (rp_expired ?a)" using snoc.prems(6) expired(1) e by simp
      with old show ?thesis by simp
    qed
    from expire_order_synced [OF ok' get this] expired(1) show ?thesis by (simp add: e)
  qed
qed

section \<open>The whole pass\<close>

lemma terminalise_frame [simp]:
  "t_orders (terminalise_structure now d sid) = t_orders d" "t_fills (terminalise_structure now d sid) = t_fills d"
  "t_legs (terminalise_structure now d sid) = t_legs d" "t_positions (terminalise_structure now d sid) = t_positions d"
  by (simp_all add: terminalise_structure_def split: option.split)

lemma terminalise_all_frame [simp]:
  "t_orders (foldl (terminalise_structure now) d sids) = t_orders d"
  "t_fills (foldl (terminalise_structure now) d sids) = t_fills d"
  "t_legs (foldl (terminalise_structure now) d sids) = t_legs d"
  "t_positions (foldl (terminalise_structure now) d sids) = t_positions d"
  by (induction sids arbitrary: d) simp_all

lemma adopt_one_frame [simp]:
  "t_fills (adopt_one now ts d e) = t_fills d" "t_legs (adopt_one now ts d e) = t_legs d"
  "t_positions (adopt_one now ts d e) = t_positions d"
  "keys_of (t_orders (adopt_one now ts d e)) = keys_of (t_orders d)"
  by (simp_all add: adopt_one_def Let_def split: prod.split option.split)

lemma adopt_frame [simp]:
  "t_fills (fst (adopt_orphaned_orders now ts d)) = t_fills d"
  "t_legs (fst (adopt_orphaned_orders now ts d)) = t_legs d"
  "t_positions (fst (adopt_orphaned_orders now ts d)) = t_positions d"
  "table_ok (t_orders (fst (adopt_orphaned_orders now ts d))) = table_ok (t_orders d)"
  using foldl_keeps [of t_fills "adopt_one now ts"] foldl_keeps [of t_legs "adopt_one now ts"]
    foldl_keeps [of t_positions "adopt_one now ts"]
    foldl_keeps [of "\<lambda>d. keys_of (t_orders d)" "adopt_one now ts"]
  by (simp_all add: adopt_orphaned_orders_def table_ok_def)

lemma distinct_map_fst_filter: "distinct (map fst t) \<Longrightarrow> distinct (map fst (filter P t))"
  by (induction t) auto

lemma stale_orders_rows:
  assumes "table_ok (t_orders d)"
  shows "distinct (map fst (stale_orders now tau d))"
    "(oid, r) \<in> set (stale_orders now tau d) \<Longrightarrow> tget (t_orders d) oid = Some r"
  using assms in_tget distinct_map_fst_filter
  by (auto simp: stale_orders_def table_ok_def keys_of_def twhere_def)

lemma reap_stale_orders_cases:
  assumes "reap_stale_orders now tau True (Some ts) d = (d', rep)"
  obtains (idle) "d' = fst (adopt_orphaned_orders now ts d)" "rpt_expired rep = []"
  | (pass) "t_orders d' = t_orders (rp_db (reap_pass now tau ts (fst (adopt_orphaned_orders now ts d))))"
      "t_legs d' = t_legs (rp_db (reap_pass now tau ts (fst (adopt_orphaned_orders now ts d))))"
      "rpt_expired rep = rp_expired (reap_pass now tau ts (fst (adopt_orphaned_orders now ts d)))"
proof (cases "stale_orders now tau (fst (adopt_orphaned_orders now ts d)) = []")
  case True
  with assms show ?thesis by (intro idle) (auto simp: reap_stale_orders_def split_beta)
next
  case False
  with assms show ?thesis by (intro pass) (auto simp: reap_stale_orders_def split_beta Let_def)
qed

section \<open>Properties\<close>


definition example_reap_db :: db where
  "example_reap_db = empty_db\<lparr>
     t_orders := [(1, (new_order_row 0 9 0 Entry ''call'' BUY 10 Filled)),
                  (2, (new_order_row 0 9 0 Closing ''call'' SELL 4 Submitted)
                        \<lparr>o_submitted_at := Some 0, o_closes_order_id := Some 1\<rparr>)],
     t_legs := [(1, (new_leg 1 0)\<lparr>lp_open_qty := 10, lp_reserved_qty := 4\<rparr>)],
     t_structures := [(9, \<lparr>s_structure_type = ''vanilla_call'', s_state = S_fully_filled,
        s_state_updated_at = 0, s_total_premium_paid_usd = None, s_total_slippage_usd = None,
        s_total_commission_usd = None, s_total_entry_cost_usd = None, s_first_fill_at = None,
        s_fully_filled_at = None, s_submit_claimed_at = None, s_rollback_started_at = None, s_package_id = None, s_product_label = None,
        s_reference_tenor = ''3M'', s_expiry_date = None, s_base_qty = 1, s_execution_mode = ''live'',
        s_triggering_pc = None, s_armed_z_score = None, s_armed_signal_label = None, s_preview_id = None, s_pca_signal_id = None\<rparr>)]\<rparr>"


text \<open>
  C7. Expiry leaks no reservation: for every closing order a pass expires, the reserved
  quantity of the entry leg it was closing equals, in the final database, the open demand
  of the closing orders that are still working on that leg.
\<close>

theorem reaper_releases_reservations:
  assumes "table_ok (t_orders d)" and "reap_stale_orders now tau True (Some ts) d = (d', rep)"
    and "j \<in> set (rpt_expired rep)" and "tget (t_orders d') j = Some r"
    and "o_order_role r = Closing" and "o_closes_order_id r = Some eid"
  shows "reserved_of d' eid = of_int (reserved_demand d' eid)"
  using assms(2)
proof (cases rule: reap_stale_orders_cases)
  case idle
  with assms(3) show ?thesis by simp
next
  case pass
  let ?d1 = "fst (adopt_orphaned_orders now ts d)"
  let ?a = "reap_pass now tau ts ?d1"
  have ok: "table_ok (t_orders ?d1)" using assms(1) by simp
  note rows = stale_orders_rows [OF ok]
  have inv: "reap_inv now tau (live_ib_order_keys ts) ?d1 (stale_orders now tau ?d1) ?a"
    unfolding reap_pass_def by (rule reap_inv_pass) (use rows in auto)
  then obtain q where q: "(j, q) \<in> set (stale_orders now tau ?d1)"
    "tget (t_orders (rp_db ?a)) j = Some (q\<lparr>o_state := Expired, o_state_updated_at := now\<rparr>)"
    using assms(3) pass(3) unfolding reap_inv_def reap_outcome_def by metis
  then have "o_order_role q = Closing" "o_closes_order_id q = Some eid"
    using assms(4-6) pass(1) by auto
  moreover have "j \<in> set (rp_expired ?a)" using assms(3) pass(3) by simp
  ultimately have "reservation_synced (rp_db ?a) eid"
    unfolding reap_pass_def by (intro reap_pass_synced [OF ok rows(1) _ q(1)] rows(2))
  moreover have "reserved_of d' = reserved_of (rp_db ?a)" by (rule ext) (simp add: reserved_of_def pass(2))
  moreover have "reserved_demand d' = reserved_demand (rp_db ?a)" by (rule reserved_demand_cong) (rule pass(1))
  ultimately show ?thesis by (simp add: reservation_synced_def)
qed

lemma example_reap_run:
  "snd (reap_stale_orders 900 300 True (Some []) example_reap_db) =
     \<lparr>rpt_expired = [2], rpt_adopted = [], rpt_skipped = None\<rparr>"
  "map_option (\<lambda>r. (o_order_role r, o_closes_order_id r))
     (tget (t_orders (fst (reap_stale_orders 900 300 True (Some []) example_reap_db))) 2) = Some (Closing, Some 1)"
  "map_option s_state
     (tget (t_structures (fst (reap_stale_orders 900 300 True (Some []) example_reap_db))) 9) = Some S_partial_fail"
proof -
  let ?r = "(new_order_row 0 9 0 Closing ''call'' SELL 4 Submitted)\<lparr>o_submitted_at := Some 0, o_closes_order_id := Some 1\<rparr>"
  have ad: "adopt_orphaned_orders 900 [] example_reap_db = (example_reap_db, [])"
    by (simp add: adopt_orphaned_orders_def orphans_def ref_map_def)
  have st: "stale_orders 900 300 example_reap_db = [(2, ?r)]"
    by (simp add: stale_orders_def example_reap_db_def twhere_def REAPABLE_STATES_def new_order_row_def)
  have mp: "match_position example_reap_db [] q = None" for q
    by (simp add: match_position_def candidates_def twhere_def example_reap_db_def empty_db_def)
  have dead: "\<not> working_at_ib [] ?r" "order_age 900 ?r = 900" "live_ib_order_keys [] = []"
    by (simp_all add: working_at_ib_def opt_in_def order_age_def time_or_def live_ib_order_keys_def)
  have a: "reap_pass 900 300 [] example_reap_db =
      \<lparr>rp_db = expire_order 900 2 ?r example_reap_db, rp_used = [], rp_expired = [2]\<rparr>"
    by (simp add: reap_pass_def st reap_one_def dead mp decide_reap_def REAPABLE_STATES_def Let_def)
  have af: "affected_structures [(2, ?r)] [2] = [9]"
    by (simp add: affected_structures_def new_order_row_def)
  have run: "reap_stale_orders 900 300 True (Some []) example_reap_db =
      (terminalise_structure 900 (expire_order 900 2 ?r example_reap_db) 9,
       \<lparr>rpt_expired = [2], rpt_adopted = [], rpt_skipped = None\<rparr>)"
    by (simp add: reap_stale_orders_def ad st a af)
  show "snd (reap_stale_orders 900 300 True (Some []) example_reap_db) =
     \<lparr>rpt_expired = [2], rpt_adopted = [], rpt_skipped = None\<rparr>" by (simp add: run)
  show "map_option (\<lambda>r. (o_order_role r, o_closes_order_id r))
     (tget (t_orders (fst (reap_stale_orders 900 300 True (Some []) example_reap_db))) 2) = Some (Closing, Some 1)"
    by (simp add: run tbl.get_upd) (simp add: example_reap_db_def tget_def new_order_row_def)
  have "map o_state (orders_of (expire_order 900 2 ?r example_reap_db) 9) = [Filled, Expired]"
    by (simp add: orders_of_def twhere_def tupd_def example_reap_db_def new_order_row_def)
  moreover have "plan_structure_terminal_state [Filled, Expired] = Some S_partial_fail"
    by (simp add: plan_structure_terminal_state_def)
  moreover have "map_option s_state (tget (t_structures example_reap_db) 9) = Some S_fully_filled"
    by (simp add: example_reap_db_def tget_def)
  ultimately show "map_option s_state
     (tget (t_structures (fst (reap_stale_orders 900 300 True (Some []) example_reap_db))) 9) = Some S_partial_fail"
    by (auto simp: run terminalise_structure_def tbl.get_upd split: option.splits)
qed

text \<open>
  A structure that was booked as fully filled is demoted when a later order of it (here a
  close) goes stale: the plan looks at the orders of every role.
\<close>

lemma reaper_demotes_filled_structure:
  "map_option s_state (tget (t_structures example_reap_db) 9) = Some S_fully_filled \<and>
   map_option s_state
     (tget (t_structures (fst (reap_stale_orders 900 300 True (Some []) example_reap_db))) 9) = Some S_partial_fail"
  using example_reap_run(3) by (simp add: example_reap_db_def tget_def)

theorem reaper_releases_reservations_witness:
  "reserved_of (fst (reap_stale_orders 900 300 True (Some []) example_reap_db)) 1 =
     of_int (reserved_demand (fst (reap_stale_orders 900 300 True (Some []) example_reap_db)) 1)"
proof -
  have ok: "table_ok (t_orders example_reap_db)" by (simp add: example_reap_db_def table_ok_def keys_of_def)
  obtain d' rep where run: "reap_stale_orders 900 300 True (Some []) example_reap_db = (d', rep)"
    by (rule prod.exhaust)
  from example_reap_run(1) run have "2 \<in> set (rpt_expired rep)" by simp
  moreover obtain r where "tget (t_orders d') 2 = Some r" "o_order_role r = Closing" "o_closes_order_id r = Some 1"
    using example_reap_run(2) run by auto
  ultimately show ?thesis using reaper_releases_reservations [OF ok run] run by simp
qed

end
