(* ===== verification/Contract_Builder.thy ===== *)
theory Contract_Builder
  imports Contracts
begin

text \<open>
  \<open>core/execution/contract_builder.py\<close>: the arguments of an IB contract (future or
  option), of a limit order, and of an all-or-nothing combo (BAG). A dictionary of
  arguments is a record; a key that may be absent is an option.
\<close>

section \<open>Contract months\<close>

datatype expiry_arg = Exp_date date | Exp_str string

definition drop_dashes :: "string \<Rightarrow> string" where
  "drop_dashes s = filter (\<lambda>c. c \<noteq> CHR ''-'') s"

text \<open>Year and month of an expiry; \<open>int\<close> of a malformed slice raises.\<close>

definition expiry_year_month :: "expiry_arg \<Rightarrow> (int \<times> int) result" where
  "expiry_year_month d =
     (case d of
        Exp_date e \<Rightarrow> Inr (int (d_year e), int (d_month e))
      | Exp_str s0 \<Rightarrow>
          let s = drop_dashes s0 in
          (case py_int (take 4 s) of
             None \<Rightarrow> Inl (ValueError ''int'')
           | Some y \<Rightarrow>
               (case py_int (take 2 (drop 4 s)) of
                  None \<Rightarrow> Inl (ValueError ''int'')
                | Some m \<Rightarrow> Inr (y, m))))"

definition quarterlies :: "int list" where "quarterlies = [3, 6, 9, 12]"

text \<open>The year and month the snap picks: the first quarterly not before the month.\<close>

definition quarterly_of :: "int \<times> int \<Rightarrow> int \<times> int" where
  "quarterly_of ym =
     (case List.find (\<lambda>qm. snd ym \<le> qm) quarterlies of
        Some qm \<Rightarrow> (fst ym, qm)
      | None \<Rightarrow> (fst ym + 1, 3))"

definition yyyymm :: "int \<times> int \<Rightarrow> string" where
  "yyyymm ym = zero_pad 4 (fst ym) @ zero_pad 2 (snd ym)"

definition next_quarterly_yyyymm :: "expiry_arg \<Rightarrow> string result" where
  "next_quarterly_yyyymm d =
     (case expiry_year_month d of Inl e \<Rightarrow> Inl e | Inr ym \<Rightarrow> Inr (yyyymm (quarterly_of ym)))"

definition option_yyyymm :: "expiry_arg \<Rightarrow> string" where
  "option_yyyymm d =
     (case d of Exp_date e \<Rightarrow> yyyymm (int (d_year e), int (d_month e)) | Exp_str s \<Rightarrow> take 6 (drop_dashes s))"

section \<open>Contract arguments\<close>

definition FOP_STRIKE_INCREMENT :: flt where "FOP_STRIKE_INCREMENT = 5 / 1000"

definition snap_fop_strike :: "flt \<Rightarrow> flt" where
  "snap_fop_strike strike = of_int (round_half_even (strike / FOP_STRIKE_INCREMENT)) * FOP_STRIKE_INCREMENT"

definition ib_right :: "string \<Rightarrow> string result" where
  "ib_right contract_type =
     (let ct = py_lower contract_type in
      if ct \<in> {''call'', ''c''} then Inr ''C''
      else if ct \<in> {''put'', ''p''} then Inr ''P''
      else Inl (ValueError ''contract_type must be call/put''))"

definition FOP_TRADING_CLASS :: "(string \<times> string) list" where
  "FOP_TRADING_CLASS = [(''EUR'', ''EUU'')]"

record contract_kwargs =
  ck_symbol :: string
  ck_secType :: string
  ck_exchange :: string
  ck_currency :: string
  ck_month :: string
  ck_strike :: "flt option"
  ck_right :: "string option"
  ck_tradingClass :: "string option"

definition build_contract_kwargs ::
  "string \<Rightarrow> expiry_arg \<Rightarrow> flt option \<Rightarrow> string \<Rightarrow> string \<Rightarrow> string \<Rightarrow> string \<Rightarrow> contract_kwargs result" where
  "build_contract_kwargs contract_type expiry strike symbol exchange currency sec_type =
     (if py_lower contract_type = ''future'' \<or> sec_type = ''FUT'' then
        (case next_quarterly_yyyymm expiry of
           Inl e \<Rightarrow> Inl e
         | Inr month \<Rightarrow>
             Inr \<lparr>ck_symbol = symbol, ck_secType = ''FUT'', ck_exchange = exchange, ck_currency = currency,
                  ck_month = month, ck_strike = None, ck_right = None, ck_tradingClass = None\<rparr>)
      else
        (case strike of
           None \<Rightarrow> Inl (ValueError ''strike required for FOP contract'')
         | Some k \<Rightarrow>
             (case ib_right contract_type of
                Inl e \<Rightarrow> Inl e
              | Inr r \<Rightarrow>
                  Inr \<lparr>ck_symbol = symbol, ck_secType = sec_type, ck_exchange = exchange,
                       ck_currency = currency, ck_month = option_yyyymm expiry,
                       ck_strike = Some (py_round 4 (snap_fop_strike k)), ck_right = Some r,
                       ck_tradingClass =
                         Some (case map_of FOP_TRADING_CLASS symbol of None \<Rightarrow> [] | Some c \<Rightarrow> c)\<rparr>)))"

record order_kwargs =
  ok_action :: string
  ok_totalQuantity :: int
  ok_lmtPrice :: flt
  ok_tif :: string

definition build_order_kwargs :: "string \<Rightarrow> int \<Rightarrow> flt \<Rightarrow> string \<Rightarrow> order_kwargs result" where
  "build_order_kwargs side qty limit_price time_in_force =
     (let side_u = py_upper side in
      if side_u \<notin> {BUY, SELL} then Inl (ValueError ''side must be BUY or SELL'')
      else if qty \<le> 0 then Inl (ValueError ''qty must be positive'')
      else if limit_price \<le> 0 then Inl (ValueError ''limit_price must be positive'')
      else Inr \<lparr>ok_action = side_u, ok_totalQuantity = qty, ok_lmtPrice = limit_price, ok_tif = time_in_force\<rparr>)"

section \<open>Combos\<close>

record combo_meta =
  cm_expiry :: "date option"
  cm_symbol :: "string option"
  cm_exchange :: "string option"
  cm_currency :: "string option"

definition can_use_combo :: "combo_meta list \<Rightarrow> bool" where
  "can_use_combo legs =
     (case legs of
        f # rest \<Rightarrow> rest \<noteq> [] \<and>
          list_all (\<lambda>l. cm_expiry l = cm_expiry f \<and> cm_symbol l = cm_symbol f \<and>
            cm_exchange l = cm_exchange f \<and> cm_currency l = cm_currency f) rest
      | [] \<Rightarrow> False)"

record combo_leg_in =
  ci_con_id :: int
  ci_side :: string
  ci_qty :: int
  ci_limit_price :: "flt option"
  ci_exchange :: "string option"

record combo_leg =
  co_con_id :: int
  co_ratio :: int
  co_action :: string
  co_exchange :: string

record combo =
  cb_symbol :: string
  cb_exchange :: string
  cb_currency :: string
  cb_legs :: "combo_leg list"
  cb_totalQuantity :: int
  cb_lmtPrice :: "flt option"

text \<open>\<open>reduce(gcd, qtys)\<close>.\<close>

definition gcd_of :: "int list \<Rightarrow> int" where
  "gcd_of qs = (case qs of [] \<Rightarrow> 0 | q # rest \<Rightarrow> foldl gcd q rest)"

definition combo_leg_of :: "string \<Rightarrow> int \<Rightarrow> combo_leg_in \<Rightarrow> combo_leg" where
  "combo_leg_of exchange base l =
     \<lparr>co_con_id = ci_con_id l, co_ratio = ci_qty l div base, co_action = py_upper (ci_side l),
      co_exchange = (case ci_exchange l of None \<Rightarrow> exchange | Some x \<Rightarrow> if x = [] then exchange else x)\<rparr>"

text \<open>The loop: legs built so far, the net so far, and whether every leg had a price.\<close>

fun combo_loop ::
  "string \<Rightarrow> int \<Rightarrow> combo_leg_in list \<Rightarrow> combo_leg list \<times> flt \<times> bool \<Rightarrow> (combo_leg list \<times> flt \<times> bool) result" where
  "combo_loop exchange base [] acc = Inr acc"
| "combo_loop exchange base (l # ls) (legs, net, hp) =
     (let action = py_upper (ci_side l) in
      if action \<notin> {BUY, SELL} then Inl (ValueError ''side must be BUY or SELL'')
      else
        let leg = combo_leg_of exchange base l
        in case ci_limit_price l of
             None \<Rightarrow> combo_loop exchange base ls (legs @ [leg], net, False)
           | Some lp \<Rightarrow>
               combo_loop exchange base ls
                 (legs @ [leg], net + (if action = BUY then 1 else -1) * of_int (co_ratio leg) * lp, hp))"

definition build_combo :: "string \<Rightarrow> string \<Rightarrow> string \<Rightarrow> combo_leg_in list \<Rightarrow> combo result" where
  "build_combo symbol exchange currency legs =
     (if length legs < 2 then Inl (ValueError ''combo needs at least 2 legs'')
      else if \<exists>l \<in> set legs. ci_qty l \<le> 0 then Inl (ValueError ''all leg quantities must be positive'')
      else
        let base0 = gcd_of (map ci_qty legs); base = (if base0 \<le> 0 then 1 else base0) in
        case combo_loop exchange base legs ([], 0, True) of
          Inl e \<Rightarrow> Inl e
        | Inr (cl, net, hp) \<Rightarrow>
            Inr \<lparr>cb_symbol = symbol, cb_exchange = exchange, cb_currency = currency, cb_legs = cl,
                 cb_totalQuantity = base,
                 cb_lmtPrice = (if hp then Some (py_round 4 net) else None)\<rparr>)"

section \<open>Facts about the reduction\<close>

lemma foldl_gcd_dvd: "foldl gcd (a :: int) qs dvd a \<and> (\<forall>q \<in> set qs. foldl gcd a qs dvd q)"
proof (induction qs arbitrary: a)
  case Nil
  then show ?case by simp
next
  case (Cons q qs)
  have "foldl gcd (gcd a q) qs dvd gcd a q" using Cons.IH by blast
  then have "foldl gcd (gcd a q) qs dvd a" "foldl gcd (gcd a q) qs dvd q" by auto
  with Cons.IH show ?case by auto
qed

lemma foldl_gcd_greatest: "c dvd (a :: int) \<Longrightarrow> (\<forall>q \<in> set qs. c dvd q) \<Longrightarrow> c dvd foldl gcd a qs"
  by (induction qs arbitrary: a) auto

lemma gcd_of_dvd: "q \<in> set qs \<Longrightarrow> gcd_of qs dvd q"
  using foldl_gcd_dvd by (auto simp: gcd_of_def split: list.splits)

lemma gcd_of_greatest: "qs \<noteq> [] \<Longrightarrow> (\<And>q. q \<in> set qs \<Longrightarrow> c dvd q) \<Longrightarrow> c dvd gcd_of qs"
  using foldl_gcd_greatest by (auto simp: gcd_of_def split: list.splits)

lemma foldl_gcd_pos: "0 < (a :: int) \<Longrightarrow> 0 < foldl gcd a qs"
  by (induction qs arbitrary: a) (auto simp: gcd_pos_int)

lemma gcd_of_pos: "qs \<noteq> [] \<Longrightarrow> (\<And>q. q \<in> set qs \<Longrightarrow> 0 < q) \<Longrightarrow> 0 < gcd_of qs"
  using foldl_gcd_pos by (auto simp: gcd_of_def split: list.splits)

text \<open>The signed price a leg contributes.\<close>

definition net_term :: "int \<Rightarrow> combo_leg_in \<Rightarrow> flt" where
  "net_term base l =
     (if py_upper (ci_side l) = BUY then 1 else -1) * of_int (ci_qty l div base) * flt_or0 (ci_limit_price l)"

lemma combo_loop_spec:
  "combo_loop exchange base ls (legs, net, hp) = Inr (cl, n, h) \<Longrightarrow>
     cl = legs @ map (combo_leg_of exchange base) ls \<and>
     n = net + sum_list (map (net_term base) ls) \<and>
     (h \<longleftrightarrow> hp \<and> (\<forall>l \<in> set ls. ci_limit_price l \<noteq> None)) \<and>
     (\<forall>l \<in> set ls. py_upper (ci_side l) \<in> {BUY, SELL})"
proof (induction ls arbitrary: legs net hp)
  case Nil
  then show ?case by simp
next
  case (Cons l ls)
  have side: "py_upper (ci_side l) \<in> {BUY, SELL}"
    using Cons.prems by (simp add: Let_def split: if_splits)
  show ?case
  proof (cases "ci_limit_price l")
    case None
    with Cons.prems side have "combo_loop exchange base ls (legs @ [combo_leg_of exchange base l], net, False) = Inr (cl, n, h)"
      by (simp add: Let_def split: if_splits)
    from Cons.IH [OF this] None side show ?thesis by (simp add: net_term_def)
  next
    case (Some lp)
    with Cons.prems side have "combo_loop exchange base ls (legs @ [combo_leg_of exchange base l],
        net + (if py_upper (ci_side l) = BUY then 1 else -1) * of_int (ci_qty l div base) * lp, hp) = Inr (cl, n, h)"
      by (simp add: Let_def combo_leg_of_def split: if_splits)
    from Cons.IH [OF this] Some side show ?thesis by (simp add: net_term_def)
  qed
qed

lemma combo_loop_total:
  "(\<forall>l \<in> set ls. py_upper (ci_side l) \<in> {BUY, SELL}) \<Longrightarrow> \<exists>r. combo_loop exchange base ls acc = Inr r"
  by (induction ls arbitrary: acc; case_tac acc) (simp_all add: Let_def split: option.split)

lemma build_combo_Inr:
  assumes "build_combo sy ex cur legs = Inr cb"
  shows "2 \<le> length legs" "\<And>l. l \<in> set legs \<Longrightarrow> 0 < ci_qty l"
    "cb_totalQuantity cb = gcd_of (map ci_qty legs)" "0 < cb_totalQuantity cb"
    "cb_legs cb = map (combo_leg_of ex (cb_totalQuantity cb)) legs"
    "cb_lmtPrice cb = (if \<forall>l \<in> set legs. ci_limit_price l \<noteq> None
       then Some (py_round 4 (sum_list (map (net_term (cb_totalQuantity cb)) legs))) else None)"
    "\<And>l. l \<in> set legs \<Longrightarrow> py_upper (ci_side l) \<in> {BUY, SELL}"
proof -
  have l2: "2 \<le> length legs" and pos: "\<And>l. l \<in> set legs \<Longrightarrow> 0 < ci_qty l"
    using assms by (auto simp: build_combo_def split: if_splits)
  have "0 < gcd_of (map ci_qty legs)" using l2 pos by (intro gcd_of_pos) auto
  with assms obtain cl n h where
    loop: "combo_loop ex (gcd_of (map ci_qty legs)) legs ([], 0, True) = Inr (cl, n, h)"
    and cb: "cb = \<lparr>cb_symbol = sy, cb_exchange = ex, cb_currency = cur, cb_legs = cl,
      cb_totalQuantity = gcd_of (map ci_qty legs), cb_lmtPrice = (if h then Some (py_round 4 n) else None)\<rparr>"
    by (auto simp: build_combo_def Let_def split: if_splits sum.splits)
  from combo_loop_spec [OF loop]
  show "cb_totalQuantity cb = gcd_of (map ci_qty legs)" "cb_legs cb = map (combo_leg_of ex (cb_totalQuantity cb)) legs"
    "cb_lmtPrice cb = (if \<forall>l \<in> set legs. ci_limit_price l \<noteq> None
       then Some (py_round 4 (sum_list (map (net_term (cb_totalQuantity cb)) legs))) else None)"
    "\<And>l. l \<in> set legs \<Longrightarrow> py_upper (ci_side l) \<in> {BUY, SELL}"
    by (auto simp: cb)
  show "2 \<le> length legs" "\<And>l. l \<in> set legs \<Longrightarrow> 0 < ci_qty l" using l2 pos by auto
  show "0 < cb_totalQuantity cb" using \<open>0 < gcd_of (map ci_qty legs)\<close> by (simp add: cb)
qed

section \<open>Properties\<close>

text \<open>
  A combo reproduces the legs it was built from: every leg keeps its contract, its
  ratio times the combo quantity is exactly the leg quantity, the ratios are positive and
  have no common divisor above one, and the limit price of the package, when every leg
  has one, is within half a basis point of the signed value of the legs per package.
\<close>

theorem combo_conserves_legs:
  assumes "build_combo sy ex cur legs = Inr cb"
  shows "(\<forall>i < length legs. co_con_id (cb_legs cb ! i) = ci_con_id (legs ! i) \<and>
      co_ratio (cb_legs cb ! i) * cb_totalQuantity cb = ci_qty (legs ! i) \<and> 0 < co_ratio (cb_legs cb ! i)) \<and>
    (\<forall>c. (\<forall>l \<in> set (cb_legs cb). c dvd co_ratio l) \<longrightarrow> c dvd 1) \<and>
    (\<forall>p. cb_lmtPrice cb = Some p \<longrightarrow>
      \<bar>p * of_int (cb_totalQuantity cb) - sum_list (map (\<lambda>l.
         (if py_upper (ci_side l) = BUY then 1 else -1) * of_int (ci_qty l) * flt_or0 (ci_limit_price l)) legs)\<bar>
        \<le> of_int (cb_totalQuantity cb) / 20000)"
proof (intro conjI allI impI)
  note c = build_combo_Inr [OF assms]
  let ?b = "cb_totalQuantity cb"
  have dvd: "?b dvd ci_qty l" if "l \<in> set legs" for l
    using that by (simp add: c(3) gcd_of_dvd)
  fix i assume i: "i < length legs"
  then have l: "legs ! i \<in> set legs" by simp
  show "co_con_id (cb_legs cb ! i) = ci_con_id (legs ! i)" using i by (simp add: c(5) combo_leg_of_def)
  show m: "co_ratio (cb_legs cb ! i) * ?b = ci_qty (legs ! i)"
    using i dvd [OF l] by (simp add: c(5) combo_leg_of_def)
  show "0 < co_ratio (cb_legs cb ! i)" using m c(2) [OF l] c(4) by (metis zero_less_mult_pos2)
next
  note c = build_combo_Inr [OF assms]
  let ?b = "cb_totalQuantity cb"
  fix k :: int assume k: "\<forall>l \<in> set (cb_legs cb). k dvd co_ratio l"
  have "k * ?b dvd q" if "q \<in> set (map ci_qty legs)" for q
  proof -
    from that obtain l where l: "l \<in> set legs" "q = ci_qty l" by auto
    have "?b dvd q" using that by (simp add: c(3) gcd_of_dvd)
    moreover have "k dvd q div ?b" using k l by (auto simp: c(5) combo_leg_of_def)
    ultimately show ?thesis using c(4) by (metis dvd_div_mult_self dvd_refl mult_dvd_mono)
  qed
  then have "k * ?b dvd gcd_of (map ci_qty legs)" using c(1) by (intro gcd_of_greatest) auto
  then have "k * ?b dvd 1 * ?b" by (simp add: c(3))
  then show "k dvd 1" using c(4) by (simp only: dvd_mult_cancel_right) simp
next
  note c = build_combo_Inr [OF assms]
  let ?b = "cb_totalQuantity cb"
  fix p assume p: "cb_lmtPrice cb = Some p"
  let ?S = "sum_list (map (net_term ?b) legs)"
  have "p = py_round 4 ?S" using p by (simp add: c(6) split: if_splits)
  then have close: "\<bar>p - ?S\<bar> \<le> 1 / 20000" using py_round_close [of 4 ?S] by simp
  have "net_term ?b l * of_int ?b =
      (if py_upper (ci_side l) = BUY then 1 else -1) * of_int (ci_qty l) * flt_or0 (ci_limit_price l)"
    if "l \<in> set legs" for l
  proof -
    have "?b dvd ci_qty l" using that by (simp add: c(3) gcd_of_dvd)
    then have "real_of_int (ci_qty l div ?b) * of_int ?b = of_int (ci_qty l)"
      by (metis dvd_div_mult_self of_int_mult)
    then show ?thesis by (simp add: net_term_def algebra_simps)
  qed
  then have "?S * of_int ?b = sum_list (map (\<lambda>l.
      (if py_upper (ci_side l) = BUY then 1 else -1) * of_int (ci_qty l) * flt_or0 (ci_limit_price l)) legs)"
    by (simp add: sum_list_mult_const [symmetric] cong: map_cong)
  moreover have "\<bar>(p - ?S) * of_int ?b\<bar> \<le> 1 / 20000 * of_int ?b"
    using close c(4) by (simp add: abs_mult mult_right_mono)
  ultimately show "\<bar>p * of_int ?b - sum_list (map (\<lambda>l.
      (if py_upper (ci_side l) = BUY then 1 else -1) * of_int (ci_qty l) * flt_or0 (ci_limit_price l)) legs)\<bar>
      \<le> of_int ?b / 20000"
    by (simp add: left_diff_distrib)
qed

definition butterfly_legs :: "combo_leg_in list" where
  "butterfly_legs =
    [\<lparr>ci_con_id = 11, ci_side = BUY, ci_qty = 25, ci_limit_price = Some (1/100), ci_exchange = None\<rparr>,
     \<lparr>ci_con_id = 12, ci_side = SELL, ci_qty = 50, ci_limit_price = Some (6/1000), ci_exchange = None\<rparr>,
     \<lparr>ci_con_id = 13, ci_side = BUY, ci_qty = 25, ci_limit_price = Some (3/1000), ci_exchange = None\<rparr>]"

theorem combo_conserves_legs_witness:
  "\<exists>cb. build_combo ''EUR'' ''CME'' ''USD'' butterfly_legs = Inr cb \<and>
     (\<forall>i < length butterfly_legs. co_ratio (cb_legs cb ! i) * cb_totalQuantity cb = ci_qty (butterfly_legs ! i))"
proof -
  have "\<exists>cb. build_combo ''EUR'' ''CME'' ''USD'' butterfly_legs = Inr cb"
    by (simp add: butterfly_legs_def build_combo_def gcd_of_def Let_def)
  then obtain cb where cb: "build_combo ''EUR'' ''CME'' ''USD'' butterfly_legs = Inr cb" by blast
  from combo_conserves_legs [OF cb] cb show ?thesis by blast
qed

lemma quarterly_of_bounds:
  assumes "1 \<le> m" "m \<le> 12"
  shows "snd (quarterly_of (y, m)) \<in> {3, 6, 9, 12} \<and>
    12 * y + m \<le> 12 * fst (quarterly_of (y, m)) + snd (quarterly_of (y, m)) \<and>
    12 * fst (quarterly_of (y, m)) + snd (quarterly_of (y, m)) < 12 * y + m + 3"
  using assms by (auto simp: quarterly_of_def quarterlies_def)

text \<open>
  The contract month of a future is a quarterly month that does not precede the
  expiry and is less than three months after it; the strike of an option is on the 0.005
  grid and at most half a step away from the strike asked for.
\<close>

theorem contract_month_and_strike:
  assumes "1 \<le> d_month e" "d_month e \<le> 12"
  shows "\<exists>y q. next_quarterly_yyyymm (Exp_date e) = Inr (yyyymm (y, q)) \<and> q \<in> {3, 6, 9, 12} \<and>
      12 * int (d_year e) + int (d_month e) \<le> 12 * y + q \<and>
      12 * y + q < 12 * int (d_year e) + int (d_month e) + 3 \<and>
      (\<forall>ct k sy ex cur. py_lower ct \<in> {''call'', ''put''} \<longrightarrow>
        (\<exists>ck (n :: int) s. build_contract_kwargs ct (Exp_date e) (Some k) sy ex cur ''FOP'' = Inr ck \<and>
          ck_strike ck = Some s \<and> s = of_int n * 5 / 1000 \<and> \<bar>s - k\<bar> \<le> 25 / 10000))"
proof -
  let ?ym = "(int (d_year e), int (d_month e))"
  have b: "snd (quarterly_of ?ym) \<in> {3, 6, 9, 12}"
    "12 * int (d_year e) + int (d_month e) \<le> 12 * fst (quarterly_of ?ym) + snd (quarterly_of ?ym)"
    "12 * fst (quarterly_of ?ym) + snd (quarterly_of ?ym) < 12 * int (d_year e) + int (d_month e) + 3"
    using quarterly_of_bounds [of "int (d_month e)" "int (d_year e)"] assms by simp_all
  have k: "\<exists>ck (n :: int) s. build_contract_kwargs ct (Exp_date e) (Some k) sy ex cur ''FOP'' = Inr ck \<and>
      ck_strike ck = Some s \<and> s = of_int n * 5 / 1000 \<and> \<bar>s - k\<bar> \<le> 25 / 10000"
    if ct: "py_lower ct \<in> {''call'', ''put''}" for ct k sy ex cur
  proof -
    let ?n = "round_half_even (k / FOP_STRIKE_INCREMENT)"
    have "py_round 4 (snap_fop_strike k) = of_int ?n * 5 / 1000"
    proof -
      have e: "snap_fop_strike k * 10 ^ 4 = of_int (?n * 50)"
        by (simp add: snap_fop_strike_def FOP_STRIKE_INCREMENT_def)
      show ?thesis unfolding py_round_def e round_half_even_of_int by simp
    qed
    moreover have "\<bar>of_int ?n * 5 / 1000 - k\<bar> \<le> 25 / 10000"
    proof -
      have "\<bar>of_int ?n - k * 200\<bar> \<le> 1/2"
        using round_half_even_close [of "k / FOP_STRIKE_INCREMENT"] by (simp add: FOP_STRIKE_INCREMENT_def)
      then show ?thesis unfolding abs_le_iff by linarith
    qed
    moreover have "\<exists>ck. build_contract_kwargs ct (Exp_date e) (Some k) sy ex cur ''FOP'' = Inr ck \<and>
        ck_strike ck = Some (py_round 4 (snap_fop_strike k))"
      using ct by (auto simp: build_contract_kwargs_def ib_right_def Let_def)
    ultimately show ?thesis by metis
  qed
  show ?thesis
    by (rule exI [of _ "fst (quarterly_of ?ym)"], rule exI [of _ "snd (quarterly_of ?ym)"])
       (use b k in \<open>simp add: next_quarterly_yyyymm_def expiry_year_month_def\<close>)
qed

theorem contract_month_and_strike_witness:
  "\<exists>y q. next_quarterly_yyyymm (Exp_date (Date 2026 7 15)) = Inr (yyyymm (y, q)) \<and> q \<in> {3, 6, 9, 12} \<and>
     12 * 2026 + 7 \<le> 12 * y + q"
  using contract_month_and_strike [of "Date 2026 7 15"] by auto

end
