(* ===== verification/Live_Submit.thy ===== *)
theory Live_Submit
  imports Contract_Builder Placement
begin

text \<open>
  \<open>engines/execution/live_submit.py\<close>: the live submit of a structure's entry orders. A
  claim is taken and committed, every leg is qualified and priced before anything is
  placed, then the legs are placed and committed one by one; or the structure goes as one
  combo. The broker is an argument (qualification, quotes, placement), and the result
  carries the keys of the orders that reached it.
\<close>

section \<open>Prices\<close>

definition OPT_TICK :: flt where "OPT_TICK = 1 / 10000"

definition collar_ok :: "flt \<Rightarrow> flt \<Rightarrow> flt \<Rightarrow> bool" where
  "collar_ok lmt reference pct =
     (if reference \<le> 0 then False else if lmt \<le> 0 then False else \<bar>lmt - reference\<bar> \<le> pct * reference)"

text \<open>\<open>_num\<close>: a positive number or nothing.\<close>

definition num :: "flt option \<Rightarrow> flt option" where
  "num x = (case x of None \<Rightarrow> None | Some v \<Rightarrow> if 0 < v then Some v else None)"

definition or_flt :: "flt option \<Rightarrow> flt option \<Rightarrow> flt option" where
  "or_flt a b = (case a of Some v \<Rightarrow> if v \<noteq> 0 then Some v else b | None \<Rightarrow> b)"

definition marketable_from_quote ::
  "string \<Rightarrow> flt option \<Rightarrow> flt option \<Rightarrow> flt option \<Rightarrow> flt \<Rightarrow> flt \<Rightarrow> flt" where
  "marketable_from_quote side bid ask mkt fallback tick =
     (if py_upper side = BUY then
        (case or_flt ask mkt of
           None \<Rightarrow> fallback
         | Some ref \<Rightarrow> if ref = 0 then fallback else py_round 6 (of_int \<lceil>ref / tick\<rceil> * tick))
      else
        (case or_flt bid mkt of
           None \<Rightarrow> fallback
         | Some ref \<Rightarrow>
             if ref = 0 then fallback
             else let lp = of_int \<lfloor>ref / tick\<rfloor> * tick in if 0 < lp then py_round 6 lp else fallback))"

type_synonym quote = "flt option \<times> flt option \<times> flt option"

text \<open>The first of at most three snapshots that has a side.\<close>

definition live_quote :: "quote list \<Rightarrow> quote" where
  "live_quote snaps =
     (case List.find (\<lambda>(b, a, m). num b \<noteq> None \<or> num a \<noteq> None \<or> num m \<noteq> None) (take 3 snaps) of
        None \<Rightarrow> (None, None, None) | Some (b, a, m) \<Rightarrow> (num b, num a, num m))"

definition marketable_limit :: "quote list \<Rightarrow> string \<Rightarrow> flt \<Rightarrow> flt" where
  "marketable_limit snaps side fallback =
     (case live_quote snaps of (bid, ask, mkt) \<Rightarrow> marketable_from_quote side bid ask mkt fallback OPT_TICK)"

section \<open>The broker and the settings\<close>

record submit_env =
  se_qualify :: "contract_kwargs \<Rightarrow> (int \<times> string) option"
  se_quotes :: "int \<Rightarrow> quote list"
  se_place :: "string \<Rightarrow> placed result"
  se_allowed :: "string list"
  se_collar :: flt

record submit_report =
  sb_n_placed :: nat
  sb_noop :: bool
  sb_combo :: bool

section \<open>The claim\<close>

definition claim_structure :: "time \<Rightarrow> int \<Rightarrow> db \<Rightarrow> db result" where
  "claim_structure now sid d =
     (case tget (t_structures d) sid of
        None \<Rightarrow> Inl (RuntimeError ''structure not found'')
      | Some s \<Rightarrow>
          if s_state s \<noteq> S_submitted then Inl (RuntimeError ''live submit only allowed from submitted'')
          else if s_submit_claimed_at s \<noteq> None then Inl AlreadyClaimed
          else Inr (upd_structure sid (\<lambda>s. s\<lparr>s_submit_claimed_at := Some now\<rparr>) d))"

definition submit_event :: "int \<Rightarrow> string \<Rightarrow> severity \<Rightarrow> payload \<Rightarrow> event_row" where
  "submit_event sid ty sev pl =
     \<lparr>ev_event_type = ty, ev_severity = sev, ev_structure_id = Some sid, ev_order_id = None,
      ev_position_id = None, ev_payload = pl\<rparr>"

definition release_structure_claim :: "int \<Rightarrow> db \<Rightarrow> db" where
  "release_structure_claim sid d =
     add_event (submit_event sid ''live_submit_aborted'' Sev_warning [])
       (upd_structure sid (\<lambda>s. s\<lparr>s_submit_claimed_at := None\<rparr>) d)"

definition eligible_orders :: "db \<Rightarrow> int \<Rightarrow> (int \<times> order_row) list" where
  "eligible_orders d sid = sort_key (\<lambda>(oid, r). o_leg_idx r)
     (twhere (\<lambda>r. o_structure_id r = sid \<and> o_order_role r = Entry \<and> o_state r = Pending \<and> o_ib_order_id r = None)
       (t_orders d))"

definition n_entry_orders :: "db \<Rightarrow> int \<Rightarrow> nat" where
  "n_entry_orders d sid = length (twhere (\<lambda>r. o_structure_id r = sid \<and> o_order_role r = Entry) (t_orders d))"

definition leg_meta :: "order_row \<Rightarrow> combo_meta" where
  "leg_meta r = \<lparr>cm_expiry = o_contract_expiry r, cm_symbol = Some (o_contract_symbol r),
     cm_exchange = Some (o_contract_exchange r), cm_currency = Some (o_contract_currency r)\<rparr>"

section \<open>Phase 1: qualify every leg\<close>

definition is_future :: "order_row \<Rightarrow> bool" where
  "is_future r = (py_lower (o_contract_type r) = ''future'')"

definition is_market :: "order_row \<Rightarrow> bool" where
  "is_market r = (py_upper (if o_order_type r = [] then ''LMT'' else o_order_type r) = ''MKT'')"

definition qualify_leg :: "submit_env \<Rightarrow> int \<times> order_row \<Rightarrow> (int \<times> order_row \<times> int) result" where
  "qualify_leg env e =
     (case e of (oid, r) \<Rightarrow>
        (case o_contract_expiry r of
           None \<Rightarrow> Inl (RuntimeError ''missing expiry'')
         | Some ex \<Rightarrow>
             if \<not> is_future r \<and> o_contract_strike r = None then Inl (RuntimeError ''missing strike'')
             else if \<not> is_market r \<and> o_limit_price r = None then Inl (RuntimeError ''missing limit_price'')
             else
               (case build_contract_kwargs (o_contract_type r) (Exp_date ex) (o_contract_strike r)
                       (o_contract_symbol r) (o_contract_exchange r) (o_contract_currency r) ''FOP'' of
                  Inl x \<Rightarrow> Inl x
                | Inr ck \<Rightarrow>
                    (case se_qualify env ck of
                       Some (con, ex') \<Rightarrow> Inr (oid, r, con)
                     | None \<Rightarrow>
                         (case (if is_future r \<and> ck_exchange ck = ''CME''
                                then se_qualify env (ck\<lparr>ck_exchange := ''GLOBEX''\<rparr>) else None) of
                            Some (con, ex') \<Rightarrow> Inr (oid, r, con)
                          | None \<Rightarrow> Inl (RuntimeError ''contract not qualified''))))))"

section \<open>The gate: symbols and price collar, before anything is placed\<close>

definition collar_reference :: "order_row \<Rightarrow> flt" where
  "collar_reference r = flt_or0 (or_flt (o_preview_price r) (o_limit_price r))"

definition gate_leg :: "submit_env \<Rightarrow> int \<times> order_row \<times> int \<Rightarrow> (int \<times> order_row \<times> int \<times> flt option) result" where
  "gate_leg env p =
     (case p of (oid, r, con) \<Rightarrow>
        let sy = py_upper (if o_contract_symbol r = [] then ''EUR'' else o_contract_symbol r) in
        if sy \<notin> set (se_allowed env) then Inl (RuntimeError ''symbol not in the allow-list'')
        else if is_market r then Inr (oid, r, con, None)
        else
          let lp = marketable_limit (se_quotes env con) (o_side r) (flt_or0 (o_limit_price r)) in
          if \<not> collar_ok lp (collar_reference r) (se_collar env) then Inl (RuntimeError ''price collar'')
          else Inr (oid, r, con, Some lp))"

section \<open>Phase 2: place and commit per leg\<close>

definition placed_row :: "time \<Rightarrow> placed \<Rightarrow> flt option \<Rightarrow> order_row \<Rightarrow> order_row" where
  "placed_row now t lp r =
     r\<lparr>o_limit_price := (case lp of None \<Rightarrow> o_limit_price r | Some v \<Rightarrow> Some v),
       o_ib_order_id := Some (int_str (pl_order_id t)),
       o_ib_perm_id := (if pl_perm_id t \<noteq> 0 then Some (int_str (pl_perm_id t)) else None),
       o_state := Submitted, o_submitted_at := Some now\<rparr>"

text \<open>
  The first database is what is committed, the second the session's; a leg's commit makes
  them equal. The result carries the keys placed so far.
\<close>

fun place_legs ::
  "time \<Rightarrow> submit_env \<Rightarrow> int \<Rightarrow> (int \<times> order_row \<times> int \<times> flt option) list \<Rightarrow> db \<Rightarrow> db \<Rightarrow> string list \<Rightarrow>
     db \<times> string list \<times> py_error option" where
  "place_legs now env sid [] c w placed = (w, placed, None)"
| "place_legs now env sid ((oid, r, con, lp) # legs) c w placed =
     (case (case lp of None \<Rightarrow> None
            | Some p \<Rightarrow> (case build_order_kwargs (o_side r) (o_qty r) p ''DAY'' of Inl e \<Rightarrow> Some e | Inr _ \<Rightarrow> None)) of
        Some e \<Rightarrow> (c, placed, Some e)
      | None \<Rightarrow>
          let ref = order_ref sid oid in
          (case se_place env ref of
             Inl e \<Rightarrow> (c, placed, Some e)
           | Inr t \<Rightarrow>
               let w' = upd_order oid (\<lambda>_. placed_row now t lp r) w
               in place_legs now env sid legs w' w' (placed @ [ref])))"

definition fail_structure :: "time \<Rightarrow> int \<Rightarrow> nat \<Rightarrow> nat \<Rightarrow> db \<Rightarrow> db" where
  "fail_structure now sid n n_legs d =
     add_event (submit_event sid ''live_submit_partial_failure'' Sev_error
         [(''n_placed'', PInt (int n)), (''n_total'', PInt (int n_legs))])
       (upd_structure sid (\<lambda>s. s\<lparr>s_state := S_partial_fail, s_state_updated_at := now\<rparr>) d)"

section \<open>The combo path\<close>

definition combo_leg :: "submit_env \<Rightarrow> int \<times> order_row \<Rightarrow> combo_leg_in result" where
  "combo_leg env e =
     (case e of (oid, r) \<Rightarrow>
        (case (o_contract_expiry r, o_contract_strike r) of
           (Some ex, Some k) \<Rightarrow>
             (case build_contract_kwargs (o_contract_type r) (Exp_date ex) (Some k) (o_contract_symbol r)
                     (o_contract_exchange r) (o_contract_currency r) ''FOP'' of
                Inl x \<Rightarrow> Inl x
              | Inr ck \<Rightarrow>
                  (case se_qualify env ck of
                     None \<Rightarrow> Inl (RuntimeError ''combo leg not qualified'')
                   | Some (con, ex') \<Rightarrow> Inr \<lparr>ci_con_id = con, ci_side = o_side r, ci_qty = o_qty r,
                       ci_limit_price = o_limit_price r, ci_exchange = Some (if ex' \<noteq> [] then ex' else o_contract_exchange r)\<rparr>))
         | _ \<Rightarrow> Inl (RuntimeError ''missing expiry/strike for combo'')))"

definition combo_of :: "submit_env \<Rightarrow> (int \<times> order_row) list \<Rightarrow> combo result" where
  "combo_of env orders =
     (case map_result (combo_leg env) orders of
        Inl e \<Rightarrow> Inl e
      | Inr legs \<Rightarrow>
          (case orders of
             [] \<Rightarrow> Inl (ValueError ''combo needs at least 2 legs'')
           | (oid, f) # _ \<Rightarrow>
               build_combo (o_contract_symbol f) (o_contract_exchange f) (o_contract_currency f) legs))"

definition combo_placed_row :: "time \<Rightarrow> placed \<Rightarrow> order_row \<Rightarrow> order_row" where
  "combo_placed_row now t r =
     r\<lparr>o_ib_order_id := Some (int_str (pl_order_id t)),
       o_ib_perm_id := (if pl_perm_id t \<noteq> 0 then Some (int_str (pl_perm_id t)) else None),
       o_state := Submitted, o_submitted_at := Some now\<rparr>"

definition submit_combo ::
  "time \<Rightarrow> submit_env \<Rightarrow> int \<Rightarrow> (int \<times> order_row) list \<Rightarrow> db \<Rightarrow> db \<Rightarrow> (db \<times> string list) \<times> submit_report result" where
  "submit_combo now env sid orders c w =
     (case combo_of env orders of
        Inl e \<Rightarrow> ((release_structure_claim sid c, []), Inl e)
      | Inr cb \<Rightarrow>
          let ref = (case orders of [] \<Rightarrow> [] | (oid, r) # _ \<Rightarrow> order_ref sid oid) in
          (case se_place env ref of
             Inl e \<Rightarrow> ((c, []), Inl e)
           | Inr t \<Rightarrow>
               ((add_event (submit_event sid ''live_submit_combo'' Sev_info
                    [(''net_price'', p_opt_flt (cb_lmtPrice cb)), (''base_qty'', PInt (cb_totalQuantity cb)),
                     (''n_legs'', PInt (int (length orders)))])
                  (foldl (\<lambda>w (oid, r). upd_order oid (\<lambda>_. combo_placed_row now t r) w) w orders), [ref]),
                Inr \<lparr>sb_n_placed = length orders, sb_noop = False, sb_combo = True\<rparr>)))"

section \<open>The submit\<close>

definition submit_legs ::
  "time \<Rightarrow> submit_env \<Rightarrow> int \<Rightarrow> (int \<times> order_row) list \<Rightarrow> db \<Rightarrow> db \<Rightarrow> (db \<times> string list) \<times> submit_report result" where
  "submit_legs now env sid orders c w =
     (case map_result (qualify_leg env) orders of
        Inl e \<Rightarrow> ((release_structure_claim sid c, []), Inl e)
      | Inr prepared \<Rightarrow>
          (case map_result (gate_leg env) prepared of
             Inl e \<Rightarrow> ((release_structure_claim sid c, []), Inl e)
           | Inr gated \<Rightarrow>
               (case place_legs now env sid gated c w [] of
                  (d', placed, None) \<Rightarrow>
                    ((d', placed), Inr \<lparr>sb_n_placed = length placed, sb_noop = False, sb_combo = False\<rparr>)
                | (d', placed, Some e) \<Rightarrow>
                    ((fail_structure now sid (length placed) (length gated) d', placed),
                     Inl (RuntimeError ''live submit failed'')))))"

definition submit_structure_live ::
  "time \<Rightarrow> submit_env \<Rightarrow> bool \<Rightarrow> bool \<Rightarrow> int \<Rightarrow> db \<Rightarrow> (db \<times> string list) \<times> submit_report result" where
  "submit_structure_live now env is_up use_combo sid d =
     (if \<not> is_up then ((d, []), Inl (RuntimeError ''IB Gateway not connected''))
      else (case claim_structure now sid d of
          Inl e \<Rightarrow> ((d, []), Inl e)
        | Inr c \<Rightarrow>
            let orders = eligible_orders c sid in
            if orders = [] then
              (if n_entry_orders c sid = 0
               then ((release_structure_claim sid c, []), Inl (RuntimeError ''structure has no entry orders''))
               else ((c, []), Inr \<lparr>sb_n_placed = 0, sb_noop = True, sb_combo = False\<rparr>))
            else
              let eligible = can_use_combo (map (\<lambda>(oid, r). leg_meta r) orders);
                  w = add_event (submit_event sid ''live_submit_attempt'' Sev_info
                        [(''n_orders'', PInt (int (length orders))), (''combo_eligible'', PBool eligible)]) c
              in if use_combo \<and> eligible \<and> (\<forall>(oid, r) \<in> set orders. \<not> is_future r) \<and> 2 \<le> length orders
                 then submit_combo now env sid orders c w
                 else submit_legs now env sid orders c w))"

section \<open>The gate before any placement\<close>

lemma gate_leg_Inr:
  "gate_leg env (oid, r, con) = Inr (oid', r', con', lp) \<Longrightarrow>
     oid' = oid \<and> r' = r \<and> con' = con \<and> (lp = None \<longleftrightarrow> is_market r) \<and>
     (\<forall>p. lp = Some p \<longrightarrow> 0 < p \<and> \<bar>p - collar_reference r\<bar> \<le> se_collar env * collar_reference r)"
  by (auto simp: gate_leg_def Let_def collar_ok_def split: if_splits)

lemma qualify_leg_Inr: "qualify_leg env (oid, r) = Inr p \<Longrightarrow> \<exists>con. p = (oid, r, con)"
  by (auto simp: qualify_leg_def split: option.splits if_splits sum.splits)

text \<open>The legs after the gate are the legs that went in, in order, each with its limit.\<close>

lemma gated_legs:
  assumes "map_result (qualify_leg env) orders = Inr prepared" "map_result (gate_leg env) prepared = Inr gated"
  shows "map (\<lambda>(oid, r, con, lp). (oid, r)) gated = orders \<and>
    (\<forall>(oid, r, con, lp) \<in> set gated. qualify_leg env (oid, r) = Inr (oid, r, con) \<and>
      gate_leg env (oid, r, con) = Inr (oid, r, con, lp) \<and> (lp = None \<longleftrightarrow> is_market r) \<and>
      (\<forall>p. lp = Some p \<longrightarrow> 0 < p \<and> \<bar>p - collar_reference r\<bar> \<le> se_collar env * collar_reference r))"
  using assms
proof (induction orders arbitrary: prepared gated)
  case Nil
  then show ?case by simp
next
  case (Cons e orders)
  obtain oid r where e: "e = (oid, r)" by (rule prod.exhaust)
  from Cons.prems(1) obtain p ps where p: "qualify_leg env e = Inr p" "map_result (qualify_leg env) orders = Inr ps"
    "prepared = p # ps" by (auto split: sum.splits)
  obtain con where con: "p = (oid, r, con)" using qualify_leg_Inr p(1) e by blast
  from Cons.prems(2) p(3) obtain g gs where g: "gate_leg env p = Inr g" "map_result (gate_leg env) ps = Inr gs"
    "gated = g # gs" by (auto split: sum.splits)
  obtain i q c lp where gg: "g = (i, q, c, lp)" by (cases g)
  note gl = gate_leg_Inr [OF g(1) [unfolded con gg]]
  show ?case using Cons.IH [OF p(2) g(2)] gl p(1) g(1) by (simp add: g(3) gg e con)
qed

section \<open>The placement loop\<close>

lemma place_legs_prefix:
  "place_legs now env sid legs c w placed = (d', placed', err) \<Longrightarrow>
     \<exists>k \<le> length legs. placed' = placed @ map (\<lambda>(oid, r, con, lp). order_ref sid oid) (take k legs) \<and>
       (err = None \<longrightarrow> k = length legs)"
proof (induction legs arbitrary: c w placed)
  case Nil
  then show ?case by simp
next
  case (Cons l legs)
  obtain oid r con lp where l: "l = (oid, r, con, lp)" by (cases l)
  show ?case
  proof (cases "\<exists>t. place_legs now env sid (l # legs) c w placed =
      place_legs now env sid legs (upd_order oid (\<lambda>_. placed_row now t lp r) w)
        (upd_order oid (\<lambda>_. placed_row now t lp r) w) (placed @ [order_ref sid oid])")
    case True
    with Cons.prems obtain t where "place_legs now env sid legs (upd_order oid (\<lambda>_. placed_row now t lp r) w)
        (upd_order oid (\<lambda>_. placed_row now t lp r) w) (placed @ [order_ref sid oid]) = (d', placed', err)" by metis
    from Cons.IH [OF this] obtain k where "k \<le> length legs"
      "placed' = (placed @ [order_ref sid oid]) @ map (\<lambda>(oid, r, con, lp). order_ref sid oid) (take k legs)"
      "err = None \<longrightarrow> k = length legs" by blast
    then show ?thesis by (intro exI [of _ "Suc k"]) (simp add: l split_beta)
  next
    case False
    then have "\<exists>e. place_legs now env sid (l # legs) c w placed = (c, placed, Some e)"
      by (auto simp: l Let_def split: option.splits sum.splits)
    with Cons.prems show ?thesis by (intro exI [of _ 0]) auto
  qed
qed

text \<open>A leg that reached the broker is stamped in what is committed, whatever happens next.\<close>

definition stamped :: "db \<Rightarrow> int \<Rightarrow> bool" where
  "stamped d oid = (case tget (t_orders d) oid of None \<Rightarrow> False
     | Some r \<Rightarrow> o_ib_order_id r \<noteq> None \<and> o_state r = Submitted)"

lemma stamped_upd: "stamped d j \<or> (j = oid \<and> tget (t_orders d) oid \<noteq> None) \<Longrightarrow>
    stamped (upd_order oid (\<lambda>_. placed_row now t lp r) d) j"
  by (auto simp: stamped_def tbl.get_upd placed_row_def split: option.splits)

lemma place_legs_stamped:
  assumes "place_legs now env sid legs c w placed = (d', placed', err)"
    "\<And>oid. oid \<in> set (map fst legs) \<Longrightarrow> tget (t_orders w) oid \<noteq> None"
    "\<And>oid. order_ref sid oid \<in> set placed \<Longrightarrow> stamped c oid \<and> stamped w oid"
    "order_ref sid oid \<in> set placed'"
  shows "stamped d' oid"
  using assms
proof (induction legs arbitrary: c w placed)
  case Nil
  then show ?case by simp
next
  case (Cons l legs)
  obtain i r con lp where l: "l = (i, r, con, lp)" by (cases l)
  have ex: "tget (t_orders w) i \<noteq> None" using Cons.prems(2) by (simp add: l)
  show ?case
  proof (cases "\<exists>t. place_legs now env sid (l # legs) c w placed =
      place_legs now env sid legs (upd_order i (\<lambda>_. placed_row now t lp r) w)
        (upd_order i (\<lambda>_. placed_row now t lp r) w) (placed @ [order_ref sid i])")
    case True
    with Cons.prems(1) obtain t where run: "place_legs now env sid legs (upd_order i (\<lambda>_. placed_row now t lp r) w)
        (upd_order i (\<lambda>_. placed_row now t lp r) w) (placed @ [order_ref sid i]) = (d', placed', err)" by metis
    show ?thesis
    proof (rule Cons.IH [OF run _ _ Cons.prems(4)])
      show "\<And>j. j \<in> set (map fst legs) \<Longrightarrow> tget (t_orders (upd_order i (\<lambda>_. placed_row now t lp r) w)) j \<noteq> None"
        using Cons.prems(2) by (auto simp: tbl.get_upd l)
    next
      fix j assume "order_ref sid j \<in> set (placed @ [order_ref sid i])"
      then have "j = i \<or> order_ref sid j \<in> set placed"
        using parse_order_ref_order_ref by (metis Un_iff list.set(2) option.inject prod.inject set_append singletonD list.set(1))
      then have "stamped w j \<or> (j = i \<and> tget (t_orders w) i \<noteq> None)" using ex Cons.prems(3) by auto
      from stamped_upd [OF this] show "stamped (upd_order i (\<lambda>_. placed_row now t lp r) w) j \<and>
          stamped (upd_order i (\<lambda>_. placed_row now t lp r) w) j" by blast
    qed
  next
    case False
    then have "\<exists>e. place_legs now env sid (l # legs) c w placed = (c, placed, Some e)"
      by (auto simp: l Let_def split: option.splits sum.splits)
    with Cons.prems show ?thesis by auto
  qed
qed

section \<open>Frames\<close>

lemma place_legs_structures:
  "t_structures c = t_structures w \<Longrightarrow>
     t_structures (fst (place_legs now env sid legs c w placed)) = t_structures w"
  by (induction legs arbitrary: c w placed)
     (auto simp: Let_def split: option.splits sum.splits)

lemma combo_stamp_structures:
  "t_structures (foldl (\<lambda>w (oid, r). upd_order oid (\<lambda>_. combo_placed_row now t r) w) w orders) = t_structures w"
  by (induction orders arbitrary: w) (simp_all add: split_beta)

definition structure_taken :: "db \<Rightarrow> int \<Rightarrow> bool" where
  "structure_taken d sid = (case tget (t_structures d) sid of None \<Rightarrow> False
     | Some s \<Rightarrow> s_submit_claimed_at s \<noteq> None \<or> s_state s \<noteq> S_submitted)"

lemma structure_taken_refused:
  "structure_taken d sid \<Longrightarrow> \<exists>e. claim_structure now sid d = Inl e"
  by (auto simp: structure_taken_def claim_structure_def split: option.splits)

lemma claim_structure_Inr:
  "claim_structure now sid d = Inr c \<Longrightarrow> structure_taken c sid \<and> t_orders c = t_orders d"
  by (auto simp: structure_taken_def claim_structure_def tbl.get_upd split: option.splits if_splits)

lemma structure_taken_cong: "t_structures d = t_structures d' \<Longrightarrow> structure_taken d = structure_taken d'"
  by (rule ext) (simp add: structure_taken_def)

lemma fail_structure_taken: "structure_taken d sid \<Longrightarrow> structure_taken (fail_structure now sid n k d) sid"
  by (auto simp: structure_taken_def fail_structure_def tbl.get_upd split: option.splits)

lemma fail_structure_orders [simp]: "t_orders (fail_structure now sid n k d) = t_orders d"
  by (simp add: fail_structure_def)

text \<open>The per-leg path, when it reached the broker.\<close>

lemma submit_legs_placed:
  assumes "submit_legs now env sid orders c w = ((d', placed), res)" "placed \<noteq> []"
  obtains prepared gated d1 err where
    "map_result (qualify_leg env) orders = Inr prepared" "map_result (gate_leg env) prepared = Inr gated"
    "place_legs now env sid gated c w [] = (d1, placed, err)" "t_orders d' = t_orders d1"
    "structure_taken d1 sid \<Longrightarrow> structure_taken d' sid"
  using assms fail_structure_taken
  by (auto simp: submit_legs_def split: sum.splits prod.splits option.splits)

lemma submit_legs_taken:
  assumes "submit_legs now env sid orders c w = ((d', placed), res)" "placed \<noteq> []"
    "structure_taken c sid" "t_structures w = t_structures c"
  shows "structure_taken d' sid"
proof -
  from assms(1,2) obtain gated d1 err where
    p: "place_legs now env sid gated c w [] = (d1, placed, err)" "structure_taken d1 sid \<Longrightarrow> structure_taken d' sid"
    by (rule submit_legs_placed) (use that in blast)
  have "t_structures d1 = t_structures c"
    using place_legs_structures [of c w now env sid gated "[]"] assms(4) p(1) by simp
  then show ?thesis using p(2) assms(3) structure_taken_cong by metis
qed

lemma submit_combo_taken:
  assumes "submit_combo now env sid orders c w = ((d', placed), res)" "placed \<noteq> []"
    "structure_taken c sid" "t_structures w = t_structures c"
  shows "structure_taken d' sid"
proof -
  have "t_structures d' = t_structures c"
    using assms(1,2,4) by (auto simp: submit_combo_def Let_def combo_stamp_structures split: sum.splits)
  then show ?thesis using assms(3) structure_taken_cong by metis
qed

section \<open>Properties\<close>

text \<open>
  C4. A live submit that reached the broker is never replayed: once a submit of a
  structure has placed at least one order, by legs or as a combo, any later submit of the
  same structure, with whatever broker and settings, is refused, places nothing and leaves
  the database as it is.
\<close>

theorem live_submit_not_replayed:
  assumes "submit_structure_live now env is_up use_combo sid d = ((d', placed), res)" and "placed \<noteq> []"
  shows "\<exists>e. submit_structure_live later env' up' combo' sid d' = ((d', []), Inl e)"
proof -
  obtain c where c: "claim_structure now sid d = Inr c"
    and run: "\<exists>w. t_structures w = t_structures c \<and>
      (submit_combo now env sid (eligible_orders c sid) c w = ((d', placed), res) \<or>
       submit_legs now env sid (eligible_orders c sid) c w = ((d', placed), res))"
    using assms by (fastforce simp: submit_structure_live_def Let_def split: if_splits sum.splits)
  have "structure_taken d' sid"
    using run submit_combo_taken submit_legs_taken assms(2) claim_structure_Inr [OF c] by metis
  then obtain e where "claim_structure later sid d' = Inl e" using structure_taken_refused by blast
  then show ?thesis by (cases up') (simp_all add: submit_structure_live_def)
qed

text \<open>
  C5. No order goes to the broker unless every leg passed every check: when the per-leg
  submit placed anything, each eligible leg was qualified, and each limit leg was priced
  within the collar of its reference price; the orders placed are the first legs in leg
  order, all of them when the submit succeeded, and each one is stamped with its broker id
  and submitted in the database that remains, even when a later leg failed.
\<close>

theorem live_submit_checks_all_legs:
  assumes "submit_structure_live now env True False sid d = ((d', placed), res)" and "placed \<noteq> []"
  shows "\<exists>orders k. orders = eligible_orders d sid \<and> k \<le> length orders \<and>
    placed = map (\<lambda>(oid, r). order_ref sid oid) (take k orders) \<and>
    (is_ok res \<longrightarrow> k = length orders) \<and>
    (\<forall>(oid, r) \<in> set orders. \<exists>con. qualify_leg env (oid, r) = Inr (oid, r, con) \<and>
      (is_market r \<or> (\<exists>p. gate_leg env (oid, r, con) = Inr (oid, r, con, Some p) \<and>
        0 < p \<and> \<bar>p - collar_reference r\<bar> \<le> se_collar env * collar_reference r))) \<and>
    (\<forall>(oid, r) \<in> set (take k orders). stamped d' oid)"
proof -
  let ?os = "eligible_orders d sid"
  obtain c where c: "claim_structure now sid d = Inr c"
    using assms by (auto simp: submit_structure_live_def split: sum.splits)
  have "\<exists>w. t_orders w = t_orders c \<and> submit_legs now env sid (eligible_orders c sid) c w = ((d', placed), res)"
  proof -
    have "eligible_orders c sid \<noteq> []"
      using assms c by (auto simp: submit_structure_live_def split: if_splits)
    with assms(1) c show ?thesis
      by (simp add: submit_structure_live_def Let_def) (metis add_event_simps(1))
  qed
  then obtain w where w: "t_orders w = t_orders c"
    and run: "submit_legs now env sid (eligible_orders c sid) c w = ((d', placed), res)" by blast
  have os: "eligible_orders c sid = ?os" using claim_structure_Inr [OF c] by (simp add: eligible_orders_def)
  from run assms(2) obtain prepared gated d1 err where
    g: "map_result (qualify_leg env) ?os = Inr prepared" "map_result (gate_leg env) prepared = Inr gated"
    and pl: "place_legs now env sid gated c w [] = (d1, placed, err)" and o': "t_orders d' = t_orders d1"
    unfolding os by (rule submit_legs_placed) (use that in blast)
  have res: "is_ok res \<Longrightarrow> err = None"
    using run by (cases err) (auto simp: submit_legs_def os g pl)
  have gl: "map (\<lambda>(oid, r, con, lp). (oid, r)) gated = ?os"
    and gated: "\<And>oid r con lp. (oid, r, con, lp) \<in> set gated \<Longrightarrow> qualify_leg env (oid, r) = Inr (oid, r, con) \<and>
      gate_leg env (oid, r, con) = Inr (oid, r, con, lp) \<and> (lp = None \<longleftrightarrow> is_market r) \<and>
      (\<forall>p. lp = Some p \<longrightarrow> 0 < p \<and> \<bar>p - collar_reference r\<bar> \<le> se_collar env * collar_reference r)"
    using gated_legs [OF g] by auto
  obtain k where k: "k \<le> length gated" "placed = map (\<lambda>(oid, r, con, lp). order_ref sid oid) (take k gated)"
    "err = None \<longrightarrow> k = length gated" using place_legs_prefix [OF pl] by auto
  have len: "length gated = length ?os" using arg_cong [OF gl, of length] by simp
  have tk: "take k ?os = map (\<lambda>(oid, r, con, lp). (oid, r)) (take k gated)"
    unfolding gl [symmetric] take_map ..
  have pk: "placed = map (\<lambda>(oid, r). order_ref sid oid) (take k ?os)"
    unfolding tk k(2) by (simp add: split_beta)
  have exist: "tget (t_orders w) oid \<noteq> None" if "oid \<in> set (map fst gated)" for oid
  proof -
    have "map fst gated = map fst ?os" unfolding gl [symmetric] by (simp add: split_beta)
    then have "\<exists>r. (oid, r) \<in> set (t_orders d)" using that by (auto simp: eligible_orders_def)
    then show ?thesis using w claim_structure_Inr [OF c] in_tget_some by auto
  qed
  have "stamped d' oid" if "(oid, r) \<in> set (take k ?os)" for oid r
  proof -
    have "order_ref sid oid \<in> set placed" using that pk by force
    from place_legs_stamped [OF pl exist _ this] have "stamped d1 oid" by simp
    then show ?thesis by (simp add: stamped_def o')
  qed
  moreover have "\<exists>con. qualify_leg env (oid, r) = Inr (oid, r, con) \<and>
      (is_market r \<or> (\<exists>p. gate_leg env (oid, r, con) = Inr (oid, r, con, Some p) \<and>
        0 < p \<and> \<bar>p - collar_reference r\<bar> \<le> se_collar env * collar_reference r))"
    if "(oid, r) \<in> set ?os" for oid r
  proof -
    from that have "(oid, r) \<in> set (map (\<lambda>(oid, r, con, lp). (oid, r)) gated)" by (simp only: gl)
    then obtain con lp where "(oid, r, con, lp) \<in> set gated" by auto
    from gated [OF this] have "qualify_leg env (oid, r) = Inr (oid, r, con)" "gate_leg env (oid, r, con) = Inr (oid, r, con, lp)"
      "lp = None \<longleftrightarrow> is_market r"
      "\<forall>p. lp = Some p \<longrightarrow> 0 < p \<and> \<bar>p - collar_reference r\<bar> \<le> se_collar env * collar_reference r"
      by blast+
    then show ?thesis by (cases lp) auto
  qed
  ultimately show ?thesis
    by (intro exI [of _ ?os] exI [of _ k]) (use k len pk res in auto)
qed

definition example_submit_db :: db where
  "example_submit_db = empty_db\<lparr>
     t_orders := [(1, (new_order_row 0 9 1 Entry ''call'' BUY 2 Pending)
        \<lparr>o_contract_expiry := Some (Date 2026 9 4), o_contract_strike := Some (29 / 25),
         o_limit_price := Some (1 / 100), o_preview_price := Some (1 / 100)\<rparr>)],
     t_structures := [(9, \<lparr>s_structure_type = ''vanilla_call'', s_state = S_submitted,
        s_state_updated_at = 0, s_total_premium_paid_usd = None, s_total_slippage_usd = None,
        s_total_commission_usd = None, s_total_entry_cost_usd = None, s_first_fill_at = None,
        s_fully_filled_at = None, s_submit_claimed_at = None, s_rollback_started_at = None, s_package_id = None, s_product_label = None,
        s_reference_tenor = ''3M'', s_expiry_date = None, s_base_qty = 1, s_execution_mode = ''live'',
        s_triggering_pc = None, s_armed_z_score = None, s_armed_signal_label = None, s_preview_id = None, s_pca_signal_id = None\<rparr>)]\<rparr>"

definition example_env :: submit_env where
  "example_env = \<lparr>se_qualify = (\<lambda>ck. Some (501, ''CME'')), se_quotes = (\<lambda>con. []),
     se_place = (\<lambda>ref. Inr \<lparr>pl_order_id = 77, pl_perm_id = 0\<rparr>), se_allowed = [''EUR''], se_collar = 1 / 2\<rparr>"

lemma example_submit_run:
  "\<exists>d'. submit_structure_live 5 example_env True False 9 example_submit_db =
     ((d', [order_ref 9 1]), Inr \<lparr>sb_n_placed = 1, sb_noop = False, sb_combo = False\<rparr>)"
proof -
  let ?r = "(new_order_row 0 9 1 Entry ''call'' BUY 2 Pending)
        \<lparr>o_contract_expiry := Some (Date 2026 9 4), o_contract_strike := Some (29 / 25),
         o_limit_price := Some (1 / 100), o_preview_price := Some (1 / 100)\<rparr>"
  have up: "py_upper ''EUR'' = ''EUR''" "py_upper ''LMT'' = ''LMT''" "py_lower ''call'' = ''call''" by code_simp+
  have mk: "\<not> is_market ?r" by (simp add: is_market_def up)
  have q: "qualify_leg example_env (1, ?r) = Inr (1, ?r, 501)"
    by (simp add: qualify_leg_def is_future_def mk up build_contract_kwargs_def ib_right_def
        example_env_def)
  have lm: "marketable_limit [] BUY (1 / 100) = 1 / 100"
    by (simp add: marketable_limit_def live_quote_def marketable_from_quote_def or_flt_def)
  have g: "gate_leg example_env (1, ?r, 501) = Inr (1, ?r, 501, Some (1 / 100))"
    unfolding gate_leg_def by (simp add: mk Let_def) (simp add: up example_env_def lm
        collar_ok_def collar_reference_def or_flt_def)
  have el: "eligible_orders c 9 = [(1, ?r)]" if "t_orders c = t_orders example_submit_db" for c
    by (simp add: eligible_orders_def that example_submit_db_def twhere_def)
  have ok: "build_order_kwargs BUY 2 (1 / 100) ''DAY'' = Inr \<lparr>ok_action = BUY, ok_totalQuantity = 2,
      ok_lmtPrice = 1 / 100, ok_tif = ''DAY''\<rparr>" by (simp add: build_order_kwargs_def)
  obtain c where c: "claim_structure 5 9 example_submit_db = Inr c"
    by (simp add: claim_structure_def example_submit_db_def tget_def)
  have pl: "place_legs 5 example_env 9 [(1, ?r, 501, Some (1 / 100))] c w [] =
      (upd_order 1 (\<lambda>_. placed_row 5 \<lparr>pl_order_id = 77, pl_perm_id = 0\<rparr> (Some (1 / 100)) ?r) w, [order_ref 9 1], None)" for w
    by (simp add: ok Let_def) (simp add: example_env_def)
  show ?thesis
    using el [of c] claim_structure_Inr [OF c]
    by (simp add: submit_structure_live_def c Let_def can_use_combo_def submit_legs_def q g pl del: place_legs.simps)
qed

theorem live_submit_not_replayed_witness:
  "\<exists>d' e. fst (submit_structure_live 5 example_env True False 9 example_submit_db) = (d', [order_ref 9 1]) \<and>
     submit_structure_live 6 example_env True True 9 d' = ((d', []), Inl e)"
proof -
  obtain d' where run: "submit_structure_live 5 example_env True False 9 example_submit_db =
     ((d', [order_ref 9 1]), Inr \<lparr>sb_n_placed = 1, sb_noop = False, sb_combo = False\<rparr>)"
    using example_submit_run by blast
  from live_submit_not_replayed [OF run] run show ?thesis by simp
qed

theorem live_submit_checks_all_legs_witness:
  "\<exists>d'. fst (submit_structure_live 5 example_env True False 9 example_submit_db) = (d', [order_ref 9 1]) \<and>
     stamped d' 1"
proof -
  obtain d' where run: "submit_structure_live 5 example_env True False 9 example_submit_db =
     ((d', [order_ref 9 1]), Inr \<lparr>sb_n_placed = 1, sb_noop = False, sb_combo = False\<rparr>)"
    using example_submit_run by blast
  have ne: "[order_ref 9 1] \<noteq> []" by simp
  have "\<exists>(orders :: (int \<times> order_row) list) k. [order_ref 9 1] = map (\<lambda>(oid, r). order_ref 9 oid) (take k orders) \<and>
      (\<forall>(oid, r) \<in> set (take k orders). stamped d' oid)"
    using live_submit_checks_all_legs [OF run ne] by (elim exE conjE) (rule exI, rule exI, rule conjI, assumption, assumption)
  then obtain orders :: "(int \<times> order_row) list" and k where k: "[order_ref 9 1] = map (\<lambda>(oid, r). order_ref 9 oid) (take k orders)"
    "\<forall>(oid, r) \<in> set (take k orders). stamped d' oid" by (elim exE conjE) (rule that)
  then obtain oid r where o': "take k orders = [(oid, r)]" "order_ref 9 oid = order_ref 9 1"
    by (cases "take k orders") (auto split: prod.splits)
  then have "oid = 1" using parse_order_ref_order_ref by (metis option.inject prod.inject)
  with k(2) o'(1) run show ?thesis by simp
qed

end
