(* ===== verification/Rollback.thy ===== *)
theory Rollback
  imports Order_States
begin

text \<open>
  The rollback decision (\<open>core/execution/rollback.py\<close>): which orders of a structure to
  cancel, and which quantities to unwind, given the unwinds already issued.
\<close>

record rb_order =
  rb_leg_idx :: int
  rb_state :: order_state
  rb_side :: string
  rb_qty :: int
  rb_qty_filled :: int

record unwind_state =
  uw_leg_idx :: int
  uw_state :: order_state
  uw_qty :: int
  uw_qty_filled :: int

record unwind_action =
  ua_leg_idx :: int
  ua_side :: string
  ua_qty :: int

text \<open>A cancel action is the index of the leg.\<close>

record rollback_plan =
  cancels :: "int list"
  unwinds :: "unwind_action list"

definition is_noop :: "rollback_plan \<Rightarrow> bool" where
  "is_noop p = (cancels p = [] \<and> unwinds p = [])"

definition CANCELLABLE_STATES :: "order_state list" where
  "CANCELLABLE_STATES = [Submitted, Acknowledged, Partially_filled, Pending]"

definition FAILED_UNWIND_STATES :: "order_state list" where
  "FAILED_UNWIND_STATES = [Rejected, Cancelled, Expired]"

text \<open>The dictionary \<open>covered\<close>: quantity per leg of the unwinds that did not fail.\<close>

fun covered_map :: "(int \<Rightarrow> int) \<Rightarrow> unwind_state list \<Rightarrow> (int \<Rightarrow> int)" where
  "covered_map c [] = c"
| "covered_map c (u # us) =
     covered_map (if uw_state u \<notin> set FAILED_UNWIND_STATES
                  then c(uw_leg_idx u := c (uw_leg_idx u) + uw_qty u) else c) us"

definition covered :: "unwind_state list \<Rightarrow> int \<Rightarrow> int" where
  "covered us = covered_map (\<lambda>_. 0) us"

text \<open>The unwind one order calls for, if any; \<open>_OPPOSITE[side]\<close> raises on another side.\<close>

definition unwind_of :: "(int \<Rightarrow> int) \<Rightarrow> rb_order \<Rightarrow> unwind_action option result" where
  "unwind_of cov o' =
     (if 0 < rb_qty_filled o' \<and> (rb_state o' = Partially_filled \<or> rb_state o' = Filled) then
        (let residual = rb_qty_filled o' - cov (rb_leg_idx o') in
         if 0 < residual then
           (case opposite (py_upper (rb_side o')) of
              None \<Rightarrow> Inl (KeyError ''side'')
            | Some s \<Rightarrow> Inr (Some \<lparr>ua_leg_idx = rb_leg_idx o', ua_side = s, ua_qty = residual\<rparr>))
         else Inr None)
      else Inr None)"

fun plan_loop :: "(int \<Rightarrow> int) \<Rightarrow> rb_order list \<Rightarrow> rollback_plan result" where
  "plan_loop cov [] = Inr \<lparr>cancels = [], unwinds = []\<rparr>"
| "plan_loop cov (o' # os) =
     (case unwind_of cov o' of
        Inl e \<Rightarrow> Inl e
      | Inr ua \<Rightarrow>
          (case plan_loop cov os of
             Inl e \<Rightarrow> Inl e
           | Inr p \<Rightarrow>
               Inr \<lparr>cancels = (if rb_state o' \<in> set CANCELLABLE_STATES then [rb_leg_idx o'] else []) @ cancels p,
                    unwinds = (case ua of None \<Rightarrow> [] | Some a \<Rightarrow> [a]) @ unwinds p\<rparr>))"

definition decide_rollback :: "rb_order list \<Rightarrow> unwind_state list \<Rightarrow> rollback_plan result" where
  "decide_rollback orders existing_unwinds = plan_loop (covered existing_unwinds) orders"

section \<open>Facts\<close>

definition uw_weight :: "unwind_state \<Rightarrow> int \<Rightarrow> int" where
  "uw_weight u leg =
     (if uw_state u \<notin> set FAILED_UNWIND_STATES \<and> uw_leg_idx u = leg then uw_qty u else 0)"

lemma covered_map_sum: "covered_map c us leg = c leg + sum_list (map (\<lambda>u. uw_weight u leg) us)"
  by (induction us arbitrary: c) (auto simp: uw_weight_def)

lemma covered_sum: "covered us leg = sum_list (map (\<lambda>u. uw_weight u leg) us)"
  by (simp add: covered_def covered_map_sum)

lemma covered_append: "covered (us @ vs) leg = covered us leg + covered vs leg"
  by (simp add: covered_sum)

lemma unwind_of_Some:
  "unwind_of cov o' = Inr (Some a) \<Longrightarrow>
     ua_leg_idx a = rb_leg_idx o' \<and> ua_qty a = rb_qty_filled o' - cov (rb_leg_idx o') \<and> 0 < ua_qty a \<and>
     opposite (py_upper (rb_side o')) = Some (ua_side a) \<and>
     rb_state o' \<in> {Partially_filled, Filled}"
  by (auto simp: unwind_of_def Let_def split: if_splits option.splits)

lemma plan_loop_unwinds:
  assumes "plan_loop cov os = Inr p"
  shows "a \<in> set (unwinds p) \<longleftrightarrow> (\<exists>o' \<in> set os. unwind_of cov o' = Inr (Some a))"
  using assms by (induction os arbitrary: p) (auto split: sum.splits option.splits)

lemma plan_loop_cancels:
  assumes "plan_loop cov os = Inr p"
  shows "cancels p = map rb_leg_idx (filter (\<lambda>o'. rb_state o' \<in> set CANCELLABLE_STATES) os)"
  using assms by (induction os arbitrary: p) (auto split: sum.splits)

lemma plan_loop_legs:
  assumes "plan_loop cov os = Inr p"
  shows "set (map ua_leg_idx (unwinds p)) \<subseteq> set (map rb_leg_idx os)"
  using assms plan_loop_unwinds [OF assms] by (auto dest!: unwind_of_Some)

lemma plan_loop_distinct:
  assumes "plan_loop cov os = Inr p" "distinct (map rb_leg_idx os)"
  shows "distinct (map ua_leg_idx (unwinds p))"
  using assms
proof (induction os arbitrary: p)
  case Nil
  then show ?case by auto
next
  case (Cons x os)
  obtain ua q where ua: "unwind_of cov x = Inr ua" and q: "plan_loop cov os = Inr q"
    and p: "unwinds p = (case ua of None \<Rightarrow> [] | Some a \<Rightarrow> [a]) @ unwinds q"
    using Cons.prems(1) by (auto split: sum.splits)
  have "\<forall>b \<in> set (unwinds q). ua_leg_idx b \<noteq> rb_leg_idx x"
  proof
    fix b assume "b \<in> set (unwinds q)"
    then have "ua_leg_idx b \<in> set (map rb_leg_idx os)"
      using plan_loop_legs [OF q] by (metis image_eqI list.set_map subsetD)
    with Cons.prems(2) show "ua_leg_idx b \<noteq> rb_leg_idx x" by auto
  qed
  with Cons.IH [OF q] Cons.prems(2) p ua show ?case
    by (auto split: option.splits dest!: unwind_of_Some)
qed

lemma plan_loop_total:
  "(\<And>o'. o' \<in> set os \<Longrightarrow> py_upper (rb_side o') \<in> {BUY, SELL}) \<Longrightarrow> \<exists>p. plan_loop cov os = Inr p"
proof (induction os)
  case Nil
  then show ?case by simp
next
  case (Cons x os)
  have "\<exists>ua. unwind_of cov x = Inr ua"
    using Cons.prems [of x] by (auto simp: unwind_of_def Let_def)
  with Cons show ?case by fastforce
qed

text \<open>The rows the runner adds for a plan: one pending unwind order per action.\<close>

definition pending_unwind :: "unwind_action \<Rightarrow> unwind_state" where
  "pending_unwind a = \<lparr>uw_leg_idx = ua_leg_idx a, uw_state = Pending, uw_qty = ua_qty a, uw_qty_filled = 0\<rparr>"

lemma covered_pending_other:
  "leg \<notin> set (map ua_leg_idx as) \<Longrightarrow> covered (map pending_unwind as) leg = 0"
  by (induction as) (auto simp: covered_sum uw_weight_def pending_unwind_def)

lemma covered_pending:
  assumes "distinct (map ua_leg_idx as)" "a \<in> set as"
  shows "covered (map pending_unwind as) (ua_leg_idx a) = ua_qty a"
  using assms
proof (induction as)
  case Nil
  then show ?case by simp
next
  case (Cons b bs)
  have step: "covered (map pending_unwind (b # bs)) leg =
        (if ua_leg_idx b = leg then ua_qty b else 0) + covered (map pending_unwind bs) leg" for leg
      by (simp add: covered_sum uw_weight_def pending_unwind_def FAILED_UNWIND_STATES_def)
  show ?case
  proof (cases "a = b")
    case True
    with Cons.prems step covered_pending_other [of "ua_leg_idx b" bs] show ?thesis by simp
  next
    case False
    with Cons have "a \<in> set bs" "ua_leg_idx b \<noteq> ua_leg_idx a" by auto
    with Cons step show ?thesis by simp
  qed
qed

section \<open>Properties\<close>

text \<open>
  Rolling back twice never flips a flattened structure: once the unwinds of a plan
  are on file as live orders, a second decision on the same legs plans no unwind at all,
  and for every leg the unwinds on file never exceed what was filled on it or what was
  already covered.
\<close>

theorem rollback_idempotent:
  assumes "decide_rollback os us = Inr p" and "distinct (map rb_leg_idx os)"
  shows "(\<exists>q. decide_rollback os (us @ map pending_unwind (unwinds p)) = Inr q \<and>
           unwinds q = [] \<and> cancels q = cancels p) \<and>
    (\<forall>o' \<in> set os. 0 \<le> rb_qty_filled o' \<longrightarrow>
       covered (us @ map pending_unwind (unwinds p)) (rb_leg_idx o')
         \<le> max (rb_qty_filled o') (covered us (rb_leg_idx o')))"
proof -
  let ?us = "us @ map pending_unwind (unwinds p)"
  have p: "plan_loop (covered us) os = Inr p" using assms(1) by (simp add: decide_rollback_def)
  have dist: "distinct (map ua_leg_idx (unwinds p))" by (rule plan_loop_distinct [OF p assms(2)])
  have uniq: "x = y" if "x \<in> set os" "y \<in> set os" "rb_leg_idx x = rb_leg_idx y" for x y
    using that assms(2) by (auto simp: distinct_map inj_on_def)
  have cov: "covered ?us (rb_leg_idx x) =
      (case unwind_of (covered us) x of Inr (Some a) \<Rightarrow> rb_qty_filled x | _ \<Rightarrow> covered us (rb_leg_idx x))"
    if x: "x \<in> set os" for x
  proof (cases "\<exists>a. unwind_of (covered us) x = Inr (Some a)")
    case True
    then obtain a where a: "unwind_of (covered us) x = Inr (Some a)" by blast
    then have "a \<in> set (unwinds p)" using plan_loop_unwinds [OF p] x by blast
    then have "covered (map pending_unwind (unwinds p)) (ua_leg_idx a) = ua_qty a"
      by (rule covered_pending [OF dist])
    with unwind_of_Some [OF a] a show ?thesis
      by (simp add: covered_append)
  next
    case False
    have "rb_leg_idx x \<notin> set (map ua_leg_idx (unwinds p))"
    proof
      assume "rb_leg_idx x \<in> set (map ua_leg_idx (unwinds p))"
      then obtain b where b: "b \<in> set (unwinds p)" "ua_leg_idx b = rb_leg_idx x" by auto
      then obtain y where y: "y \<in> set os" "unwind_of (covered us) y = Inr (Some b)"
        using plan_loop_unwinds [OF p] by blast
      with b unwind_of_Some [OF y(2)] uniq [OF y(1) x] False show False by auto
    qed
    then have "covered (map pending_unwind (unwinds p)) (rb_leg_idx x) = 0"
      by (rule covered_pending_other)
    with False show ?thesis by (auto simp: covered_append split: sum.splits option.splits)
  qed
  have ok: "\<exists>ua. unwind_of (covered us) x = Inr ua" if "x \<in> set os" for x
    using p that by (induction os arbitrary: p) (auto split: sum.splits)
  have none: "unwind_of (covered ?us) x = Inr None" if x: "x \<in> set os" for x
    using ok [OF x] cov [OF x]
    by (auto simp: unwind_of_def Let_def split: if_splits option.splits)
  have "plan_loop (covered ?us) ys = Inr \<lparr>cancels = map rb_leg_idx
      (filter (\<lambda>o'. rb_state o' \<in> set CANCELLABLE_STATES) ys), unwinds = []\<rparr>" if "set ys \<subseteq> set os" for ys
    using that none by (induction ys) auto
  from this [of os] have q: "decide_rollback os ?us = Inr \<lparr>cancels = map rb_leg_idx
      (filter (\<lambda>o'. rb_state o' \<in> set CANCELLABLE_STATES) os), unwinds = []\<rparr>"
    by (simp add: decide_rollback_def)
  have le: "covered ?us (rb_leg_idx x) \<le> max (rb_qty_filled x) (covered us (rb_leg_idx x))"
    if "x \<in> set os" for x
    using cov [OF that] by (auto split: sum.splits option.splits)
  show ?thesis using q le plan_loop_cancels [OF p] by auto
qed

text \<open>The plan of a structure with a partial, a full and a resting leg.\<close>

definition rb_example :: "rb_order list" where
  "rb_example =
    [\<lparr>rb_leg_idx = 0, rb_state = Partially_filled, rb_side = BUY, rb_qty = 10, rb_qty_filled = 4\<rparr>,
     \<lparr>rb_leg_idx = 1, rb_state = Filled, rb_side = SELL, rb_qty = 10, rb_qty_filled = 10\<rparr>,
     \<lparr>rb_leg_idx = 2, rb_state = Submitted, rb_side = BUY, rb_qty = 5, rb_qty_filled = 0\<rparr>]"

lemma rb_example_plan:
  "decide_rollback rb_example [] = Inr \<lparr>cancels = [0, 2],
     unwinds = [\<lparr>ua_leg_idx = 0, ua_side = SELL, ua_qty = 4\<rparr>, \<lparr>ua_leg_idx = 1, ua_side = BUY, ua_qty = 10\<rparr>]\<rparr>"
  by (simp add: rb_example_def decide_rollback_def covered_def unwind_of_def CANCELLABLE_STATES_def)

theorem rollback_idempotent_witness:
  "\<exists>p q. decide_rollback rb_example [] = Inr p \<and> unwinds p \<noteq> [] \<and>
     decide_rollback rb_example (map pending_unwind (unwinds p)) = Inr q \<and> unwinds q = []"
proof -
  have d: "distinct (map rb_leg_idx rb_example)" by (simp add: rb_example_def)
  show ?thesis using rollback_idempotent [OF rb_example_plan d] rb_example_plan by auto
qed

end
