(* ===== verification/Rollback_Runner.thy ===== *)
theory Rollback_Runner
  imports Rollback Live_Submit
begin

text \<open>
  \<open>engines/execution/rollback_runner.py\<close>: recompute the plan from the database, claim the
  rollback, cancel what still works and place the opposite orders. The unwind row is
  committed before its order is placed. The broker is an argument; what reaches it is
  returned as a list of effects, in order.
\<close>

datatype ib_effect = Ib_cancel int | Ib_place string string int flt

record rollback_env =
  re_open_trades :: "int list"
  re_qualify :: "contract_kwargs \<Rightarrow> bool"
  re_place :: "string \<Rightarrow> placed result"

definition rb_order_of :: "order_row \<Rightarrow> rb_order" where
  "rb_order_of r = \<lparr>rb_leg_idx = o_leg_idx r, rb_state = o_state r, rb_side = o_side r,
     rb_qty = o_qty r, rb_qty_filled = o_qty_filled r\<rparr>"

definition unwind_state_of :: "order_row \<Rightarrow> unwind_state" where
  "unwind_state_of r = \<lparr>uw_leg_idx = o_leg_idx r, uw_state = o_state r, uw_qty = o_qty r,
     uw_qty_filled = o_qty_filled r\<rparr>"

definition entry_rows :: "db \<Rightarrow> int \<Rightarrow> (int \<times> order_row) list" where
  "entry_rows d sid = twhere (\<lambda>r. o_structure_id r = sid \<and> o_order_role r = Entry) (t_orders d)"

definition unwind_rows :: "db \<Rightarrow> int \<Rightarrow> (int \<times> order_row) list" where
  "unwind_rows d sid = twhere (\<lambda>r. o_structure_id r = sid \<and> o_order_role r = Unwind) (t_orders d)"

text \<open>The dictionary \<open>by_leg\<close>: the last entry row of a leg index.\<close>

definition by_leg :: "db \<Rightarrow> int \<Rightarrow> int \<Rightarrow> (int \<times> order_row) option" where
  "by_leg d sid leg = map_of (rev (map (\<lambda>(oid, r). (o_leg_idx r, (oid, r))) (entry_rows d sid))) leg"

definition load_plan :: "db \<Rightarrow> int \<Rightarrow> rollback_plan result" where
  "load_plan d sid =
     decide_rollback (map (\<lambda>(k, r). rb_order_of r) (entry_rows d sid))
       (map (\<lambda>(k, r). unwind_state_of r) (unwind_rows d sid))"

text \<open>\<open>_safe_int\<close>.\<close>

definition safe_int :: "string option \<Rightarrow> int option" where
  "safe_int s = (case s of None \<Rightarrow> None | Some t \<Rightarrow> py_int t)"

section \<open>Cancels\<close>

fun cancel_loop ::
  "rollback_env \<Rightarrow> int \<Rightarrow> (int \<Rightarrow> (int \<times> order_row) option) \<Rightarrow> int list \<Rightarrow> db \<Rightarrow> ib_effect list \<Rightarrow> int list \<Rightarrow>
     db \<times> ib_effect list \<times> int list" where
  "cancel_loop env sid legs [] w eff cancelled = (w, eff, cancelled)"
| "cancel_loop env sid legs (leg # rest) w eff cancelled =
     (case legs leg of
        None \<Rightarrow> cancel_loop env sid legs rest w eff cancelled
      | Some (oid, r) \<Rightarrow>
          (case (if o_ib_order_id r = Some [] then None else safe_int (o_ib_order_id r)) of
             None \<Rightarrow> cancel_loop env sid legs rest w eff cancelled
           | Some ib_id \<Rightarrow>
               cancel_loop env sid legs rest
                 (add_event \<lparr>ev_event_type = ''order_cancelled'', ev_severity = Sev_warning,
                    ev_structure_id = Some sid, ev_order_id = Some oid, ev_position_id = None,
                    ev_payload = [(''ib_order_id'', p_opt_str (o_ib_order_id r))]\<rparr> w)
                 (if ib_id \<in> set (re_open_trades env) then eff @ [Ib_cancel ib_id] else eff)
                 (cancelled @ [oid])))"

section \<open>Unwinds\<close>

definition unwind_limit :: "order_row \<Rightarrow> flt" where
  "unwind_limit r = flt_or0 (or_flt (o_preview_price r) (o_limit_price r))"

definition unwind_row :: "time \<Rightarrow> int \<Rightarrow> unwind_action \<Rightarrow> order_row \<Rightarrow> order_row" where
  "unwind_row now sid a entry =
     (new_order_row now sid (ua_leg_idx a) Unwind (o_contract_type entry) (ua_side a) (ua_qty a) Pending)
       \<lparr>o_contract_symbol := o_contract_symbol entry, o_contract_expiry := o_contract_expiry entry,
        o_contract_strike := o_contract_strike entry, o_contract_exchange := o_contract_exchange entry,
        o_contract_currency := o_contract_currency entry, o_limit_price := Some (unwind_limit entry)\<rparr>"

text \<open>The unique key (structure, leg, role) of the table.\<close>

definition unwind_exists :: "db \<Rightarrow> int \<Rightarrow> int \<Rightarrow> bool" where
  "unwind_exists d sid leg = (\<exists>(k, r) \<in> set (unwind_rows d sid). o_leg_idx r = leg)"

definition unwind_contract :: "order_row \<Rightarrow> contract_kwargs result" where
  "unwind_contract entry =
     (case o_contract_strike entry of
        None \<Rightarrow> Inl (TypeError ''float() argument must not be None'')
      | Some k \<Rightarrow>
          (case o_contract_expiry entry of
             None \<Rightarrow> Inl (AttributeError ''expiry'')
           | Some ex \<Rightarrow>
               build_contract_kwargs (o_contract_type entry) (Exp_date ex) (Some k) (o_contract_symbol entry)
                 (o_contract_exchange entry) (o_contract_currency entry) ''FOP''))"

definition unwind_created :: "int \<Rightarrow> int \<Rightarrow> unwind_action \<Rightarrow> db \<Rightarrow> db" where
  "unwind_created sid uid a d =
     add_event \<lparr>ev_event_type = ''unwind_order_created'', ev_severity = Sev_warning, ev_structure_id = Some sid,
       ev_order_id = Some uid, ev_position_id = None,
       ev_payload = [(''original_leg'', PInt (ua_leg_idx a)),
         (''ib_order_id'', p_opt_str (case tget (t_orders d) uid of None \<Rightarrow> None | Some r \<Rightarrow> o_ib_order_id r))]\<rparr> d"

text \<open>
  One unwind action on the committed and the session's database: the new databases, the
  broker effects, and the exception that ends the call, if any.
\<close>

definition unwind_one ::
  "time \<Rightarrow> rollback_env \<Rightarrow> int \<Rightarrow> (int \<Rightarrow> (int \<times> order_row) option) \<Rightarrow> unwind_action \<Rightarrow> db \<Rightarrow> db \<Rightarrow>
     (db \<times> db) \<times> ib_effect list \<times> py_error option" where
  "unwind_one now env sid legs a c w =
     (case legs (ua_leg_idx a) of
        None \<Rightarrow> ((c, w), [], None)
      | Some (eid, entry) \<Rightarrow>
          if unwind_limit entry \<le> 0 then ((c, w), [], None)
          else if unwind_exists w sid (ua_leg_idx a) then
            ((c, c), [], Some (IntegrityError ''uq_structure_orders_structure_leg_role''))
          else
            let uid = next_id (t_orders w);
                w1 = w\<lparr>t_orders := tins (unwind_row now sid a entry) (t_orders w)\<rparr>;
                ref = order_ref sid uid
            in (case unwind_contract entry of
                  Inl e \<Rightarrow> ((w1, w1), [], Some e)
                | Inr ck \<Rightarrow>
                    if \<not> re_qualify env ck then ((w1, w1), [], None)
                    else (case place_with_claim now (re_place env) uid ref Submitted w1 of
                        (w2, Already) \<Rightarrow> ((w2, w2), [], None)
                      | (w2, Failed e) \<Rightarrow> ((w2, w2), [], Some e)
                      | (w2, Placed_at ref' t) \<Rightarrow>
                          (let w3 = unwind_created sid uid a w2
                           in ((w3, w3), [Ib_place ref' (ua_side a) (ua_qty a) (unwind_limit entry)], None)))))"

fun unwind_loop ::
  "time \<Rightarrow> rollback_env \<Rightarrow> int \<Rightarrow> (int \<Rightarrow> (int \<times> order_row) option) \<Rightarrow> unwind_action list \<Rightarrow> db \<Rightarrow> db \<Rightarrow>
     ib_effect list \<Rightarrow> (db \<times> ib_effect list) \<times> py_error option" where
  "unwind_loop now env sid legs [] c w eff = ((w, eff), None)"
| "unwind_loop now env sid legs (a # as) c w eff =
     (case unwind_one now env sid legs a c w of
        ((c', w'), e1, Some e) \<Rightarrow> ((c', eff @ e1), Some e)
      | ((c', w'), e1, None) \<Rightarrow> unwind_loop now env sid legs as c' w' (eff @ e1))"

section \<open>The run\<close>

definition claim_rollback :: "time \<Rightarrow> int \<Rightarrow> rollback_plan \<Rightarrow> structure_row \<Rightarrow> db \<Rightarrow> db" where
  "claim_rollback now sid p s d =
     (if s_rollback_started_at s = None
      then upd_structure sid (\<lambda>s. s\<lparr>s_rollback_started_at := Some now\<rparr>) d
      else add_event (submit_event sid ''rollback_reentry'' Sev_warning
             [(''n_cancels'', PInt (int (length (cancels p)))), (''n_unwinds'', PInt (int (length (unwinds p))))]) d)"

definition run_rollback ::
  "time \<Rightarrow> rollback_env \<Rightarrow> bool \<Rightarrow> int \<Rightarrow> db \<Rightarrow> (db \<times> ib_effect list) \<times> py_error option" where
  "run_rollback now env is_up sid d =
     (if \<not> is_up then ((d, []), Some (RuntimeError ''IB Gateway not connected''))
      else (case tget (t_structures d) sid of
          None \<Rightarrow> ((d, []), None)
        | Some s \<Rightarrow>
            (case load_plan d sid of
               Inl e \<Rightarrow> ((d, []), Some e)
             | Inr p \<Rightarrow>
                 let w = claim_rollback now sid p s d in
                 if is_noop p then ((w, []), None)
                 else
                   (case cancel_loop env sid (by_leg d sid) (cancels p) w [] [] of
                      (w1, eff, cancelled) \<Rightarrow>
                        unwind_loop now env sid (by_leg d sid) (unwinds p) d w1 eff))))"

section \<open>What a rollback may change\<close>

lemma cancel_loop_frame [simp]:
  "t_orders (fst (cancel_loop env sid legs xs w eff cs)) = t_orders w"
  by (induction xs arbitrary: w eff cs) (simp_all split: option.split prod.split)

lemma claim_rollback_frame [simp]: "t_orders (claim_rollback now sid p s d) = t_orders d"
  by (simp add: claim_rollback_def)

lemma unwind_created_frame [simp]: "t_orders (unwind_created sid uid a d) = t_orders d"
  by (simp add: unwind_created_def)

text \<open>
  The tables \<open>t'\<close> extends \<open>t\<close> by unwind orders of the structure: old rows are as they
  were, new rows are unwinds with the leg, side and quantity of an action of the plan.
\<close>

definition adds_unwinds :: "int \<Rightarrow> unwind_action list \<Rightarrow> order_row table \<Rightarrow> order_row table \<Rightarrow> bool" where
  "adds_unwinds sid as t t' =
     ((\<forall>j r. tget t j = Some r \<longrightarrow> tget t' j = Some r) \<and>
      (\<forall>j r. tget t' j = Some r \<longrightarrow> tget t j = None \<longrightarrow>
         o_order_role r = Unwind \<and> o_structure_id r = sid \<and>
         (\<exists>a \<in> set as. o_leg_idx r = ua_leg_idx a \<and> o_side r = ua_side a \<and> o_qty r = ua_qty a)))"

lemma adds_unwinds_refl: "adds_unwinds sid as t t"
  by (simp add: adds_unwinds_def)

lemma adds_unwinds_trans:
  assumes "adds_unwinds sid as t u" "adds_unwinds sid as u v"
  shows "adds_unwinds sid as t v"
  unfolding adds_unwinds_def
proof (intro conjI allI impI)
  fix j r assume "tget t j = Some r"
  then show "tget v j = Some r" using assms unfolding adds_unwinds_def by blast
next
  fix j r assume v: "tget v j = Some r" and t: "tget t j = None"
  have "o_order_role r = Unwind \<and> o_structure_id r = sid \<and>
      (\<exists>a \<in> set as. o_leg_idx r = ua_leg_idx a \<and> o_side r = ua_side a \<and> o_qty r = ua_qty a)"
  proof (cases "tget u j")
    case None
    with v assms(2) show ?thesis unfolding adds_unwinds_def by blast
  next
    case (Some q)
    with assms(2) v have "q = r" unfolding adds_unwinds_def by (metis option.inject)
    with Some t assms(1) show ?thesis unfolding adds_unwinds_def by blast
  qed
  then show "o_order_role r = Unwind" "o_structure_id r = sid"
    "\<exists>a \<in> set as. o_leg_idx r = ua_leg_idx a \<and> o_side r = ua_side a \<and> o_qty r = ua_qty a" by auto
qed

lemma adds_unwinds_mono: "adds_unwinds sid as t u \<Longrightarrow> set as \<subseteq> set bs \<Longrightarrow> adds_unwinds sid bs t u"
  unfolding adds_unwinds_def by blast

text \<open>Inserting the row, then updating it without touching its terms.\<close>

lemma adds_unwinds_insert:
  assumes "o_order_role r = Unwind" "o_structure_id r = sid" "o_leg_idx r = ua_leg_idx a"
    "o_side r = ua_side a" "o_qty r = ua_qty a"
  shows "adds_unwinds sid [a] t (tins r t)"
  using assms tbl.get_fresh [of t] by (auto simp: adds_unwinds_def tbl.get_ins)

lemma adds_unwinds_upd:
  assumes "adds_unwinds sid as t u" "tget t k = None"
    "\<And>r. o_order_role (f r) = o_order_role r" "\<And>r. o_structure_id (f r) = o_structure_id r"
    "\<And>r. o_leg_idx (f r) = o_leg_idx r" "\<And>r. o_side (f r) = o_side r" "\<And>r. o_qty (f r) = o_qty r"
  shows "adds_unwinds sid as t (tupd k f u)"
  using assms unfolding adds_unwinds_def by (auto simp: tbl.get_upd split: if_splits)

lemma place_with_claim_adds:
  assumes "adds_unwinds sid as t (t_orders w)" "tget t k = None"
  shows "adds_unwinds sid as t (t_orders (fst (place_with_claim now pl k ref st w)))"
proof -
  have c: "adds_unwinds sid as t (t_orders (fst (claim_submit now k w)))"
    using assms by (auto simp: claim_submit_def intro!: adds_unwinds_upd split: option.split)
  obtain w1 ok where w1: "claim_submit now k w = (w1, ok)" by (rule prod.exhaust)
  show ?thesis using c assms(2)
    by (auto simp: place_with_claim_def w1 release_submit_claim_def stamp_placement_def
        intro!: adds_unwinds_upd split: sum.split bool.split)
qed

lemma unwind_one_adds:
  assumes "unwind_one now env sid legs a c w = ((c', w'), eff, err)"
    "adds_unwinds sid as t (t_orders c)" "adds_unwinds sid as t (t_orders w)" "a \<in> set as"
  shows "adds_unwinds sid as t (t_orders c') \<and> adds_unwinds sid as t (t_orders w')"
proof (cases "legs (ua_leg_idx a)")
  case None
  with assms show ?thesis by (simp add: unwind_one_def)
next
  case (Some e)
  obtain eid entry where e: "e = (eid, entry)" by (rule prod.exhaust)
  let ?uid = "next_id (t_orders w)" and ?row = "unwind_row now sid a entry"
  let ?w1 = "w\<lparr>t_orders := tins ?row (t_orders w)\<rparr>"
  have "adds_unwinds sid [a] (t_orders w) (tins ?row (t_orders w))"
    by (rule adds_unwinds_insert) (simp_all add: unwind_row_def)
  then have ins: "adds_unwinds sid as (t_orders w) (tins ?row (t_orders w))"
    by (rule adds_unwinds_mono) (use assms(4) in simp)
  have w1: "adds_unwinds sid as t (t_orders ?w1)"
    using adds_unwinds_trans [OF assms(3) ins] by simp
  have pl: "adds_unwinds sid as t (t_orders (fst (place_with_claim now (re_place env) ?uid (order_ref sid ?uid) Submitted ?w1)))"
  proof (rule adds_unwinds_trans [OF assms(3)], rule place_with_claim_adds)
    show "adds_unwinds sid as (t_orders w) (t_orders ?w1)" using ins by simp
    show "tget (t_orders w) ?uid = None" by (rule tbl.get_fresh)
  qed
  show ?thesis using assms(1,2,3) w1 pl
    by (auto simp: unwind_one_def Some e Let_def split: if_splits sum.splits prod.splits place_outcome.splits)
qed

lemma unwind_loop_adds:
  "unwind_loop now env sid legs xs c w eff = ((d', eff'), err) \<Longrightarrow> set xs \<subseteq> set as \<Longrightarrow>
     adds_unwinds sid as t (t_orders c) \<Longrightarrow> adds_unwinds sid as t (t_orders w) \<Longrightarrow>
     adds_unwinds sid as t (t_orders d')"
proof (induction xs arbitrary: c w eff)
  case Nil
  then show ?case by simp
next
  case (Cons a xs)
  obtain c' w' e1 er where u: "unwind_one now env sid legs a c w = ((c', w'), e1, er)" by (metis prod.exhaust)
  have n: "adds_unwinds sid as t (t_orders c')" "adds_unwinds sid as t (t_orders w')"
    using unwind_one_adds [OF u Cons.prems(3,4)] Cons.prems(2) by simp_all
  show ?case
  proof (cases er)
    case None
    with Cons.prems(1) u have "unwind_loop now env sid legs xs c' w' (eff @ e1) = ((d', eff'), err)" by simp
    from Cons.IH [OF this] Cons.prems(2) n show ?thesis by simp
  next
    case (Some e)
    with Cons.prems(1) u n show ?thesis by simp
  qed
qed

section \<open>Properties\<close>

text \<open>
  C8. A rollback never rewrites an order: whatever the broker does and wherever the run
  stops, every order row that existed is unchanged, and every row it added is an unwind of
  that structure with the leg, side and residual quantity of an action of the plan computed
  from the database.
\<close>

theorem rollback_only_adds_planned_unwinds:
  assumes "run_rollback now env is_up sid d = ((d', eff), err)"
  shows "(\<forall>j r. tget (t_orders d) j = Some r \<longrightarrow> tget (t_orders d') j = Some r) \<and>
    (\<forall>j r. tget (t_orders d') j = Some r \<longrightarrow> tget (t_orders d) j = None \<longrightarrow>
       o_order_role r = Unwind \<and> o_structure_id r = sid \<and>
       (\<exists>p a. load_plan d sid = Inr p \<and> a \<in> set (unwinds p) \<and>
          o_leg_idx r = ua_leg_idx a \<and> o_side r = ua_side a \<and> o_qty r = ua_qty a))"
proof (cases "is_up \<and> tget (t_structures d) sid \<noteq> None \<and> (\<exists>p. load_plan d sid = Inr p)")
  case False
  then have "d' = d" using assms
    by (auto simp: run_rollback_def split: if_splits option.splits sum.splits)
  then show ?thesis by simp
next
  case True
  then obtain p s where p: "load_plan d sid = Inr p" and s: "tget (t_structures d) sid = Some s" by blast
  have "adds_unwinds sid (unwinds p) (t_orders d) (t_orders d')"
  proof (cases "is_noop p")
    case noop: True
    with assms True p s have "d' = claim_rollback now sid p s d"
      by (auto simp: run_rollback_def Let_def)
    then show ?thesis by (simp add: adds_unwinds_refl)
  next
    case act: False
    obtain w1 e1 cs where c: "cancel_loop env sid (by_leg d sid) (cancels p) (claim_rollback now sid p s d) [] [] = (w1, e1, cs)"
      by (metis prod.exhaust)
    have w1: "t_orders w1 = t_orders d"
      using cancel_loop_frame [of env sid "by_leg d sid" "cancels p" "claim_rollback now sid p s d" "[]" "[]"] c by simp
    have "unwind_loop now env sid (by_leg d sid) (unwinds p) d w1 e1 = ((d', eff), err)"
      using assms True p s act c by (simp add: run_rollback_def Let_def)
    then show ?thesis
      by (rule unwind_loop_adds) (simp_all add: w1 adds_unwinds_refl)
  qed
  then show ?thesis unfolding adds_unwinds_def using p by blast
qed

definition filled_entry :: order_row where
  "filled_entry = (new_order_row 0 9 0 Entry ''call'' BUY 5 Filled)
     \<lparr>o_qty_filled := 5, o_preview_price := Some 1, o_contract_strike := Some 1,
      o_contract_expiry := Some (Date 2026 9 4)\<rparr>"

definition example_rb_db :: db where
  "example_rb_db = empty_db\<lparr>t_orders := [(1, filled_entry)],
     t_structures := [(9, \<lparr>s_structure_type = ''vanilla_call'', s_state = S_partial_fail,
        s_state_updated_at = 0, s_total_premium_paid_usd = None, s_total_slippage_usd = None,
        s_total_commission_usd = None, s_total_entry_cost_usd = None, s_first_fill_at = None,
        s_fully_filled_at = None, s_submit_claimed_at = None, s_rollback_started_at = None, s_package_id = None, s_product_label = None,
        s_reference_tenor = ''3M'', s_expiry_date = None, s_base_qty = 1, s_execution_mode = ''live'',
        s_triggering_pc = None, s_armed_z_score = None, s_armed_signal_label = None, s_preview_id = None, s_pca_signal_id = None\<rparr>)]\<rparr>"

definition broker :: "bool \<Rightarrow> rollback_env" where
  "broker qualifies = \<lparr>re_open_trades = [], re_qualify = (\<lambda>ck. qualifies),
     re_place = (\<lambda>ref. Inr \<lparr>pl_order_id = 77, pl_perm_id = 0\<rparr>)\<rparr>"

theorem rollback_only_adds_planned_unwinds_witness:
  "\<exists>d' eff err. run_rollback 3 (broker True) True 9 example_rb_db = ((d', eff), err) \<and>
     tget (t_orders d') 1 = Some filled_entry"
proof -
  obtain d' eff err where run: "run_rollback 3 (broker True) True 9 example_rb_db = ((d', eff), err)"
    by (metis prod.exhaust)
  have "tget (t_orders example_rb_db) 1 = Some filled_entry" by (simp add: example_rb_db_def tget_def)
  with rollback_only_adds_planned_unwinds [OF run] have "tget (t_orders d') 1 = Some filled_entry" by blast
  with run show ?thesis by blast
qed

text \<open>
  An unwind that never reached the broker is not retried: its pending row counts as
  covering the leg, so after a run in which the contract did not qualify, a second run
  with a working broker plans nothing and the position stays open.
\<close>

lemma unqualified_unwind_not_retried:
  "snd (fst (run_rollback 3 (broker False) True 9 example_rb_db)) = [] \<and>
   snd (fst (run_rollback 4 (broker True) True 9 (fst (fst (run_rollback 3 (broker False) True 9 example_rb_db))))) = []"
proof -
  let ?a = "\<lparr>ua_leg_idx = 0, ua_side = SELL, ua_qty = 5\<rparr>"
  let ?p = "\<lparr>cancels = [], unwinds = [?a]\<rparr>"
  have sel: "o_structure_id filled_entry = 9" "o_order_role filled_entry = Entry" "o_leg_idx filled_entry = 0"
    "o_side filled_entry = BUY" "o_state filled_entry = Filled" "o_qty_filled filled_entry = 5"
    "o_preview_price filled_entry = Some 1" "o_contract_strike filled_entry = Some 1"
    "o_contract_expiry filled_entry = Some (Date 2026 9 4)" "o_contract_type filled_entry = ''call''"
    by (simp_all add: filled_entry_def)
  have rows: "entry_rows example_rb_db 9 = [(1, filled_entry)]" "unwind_rows example_rb_db 9 = []"
    by (simp_all add: entry_rows_def unwind_rows_def example_rb_db_def twhere_def sel)
  have plan: "load_plan example_rb_db 9 = Inr ?p"
    by (simp add: load_plan_def rows rb_order_of_def sel decide_rollback_def covered_def unwind_of_def
        CANCELLABLE_STATES_def)
  have low: "py_lower ''call'' = ''call''" by code_simp
  have ck: "\<exists>ck. unwind_contract filled_entry = Inr ck"
    by (simp add: unwind_contract_def sel build_contract_kwargs_def ib_right_def low)
  have leg: "by_leg example_rb_db 9 0 = Some (1, filled_entry)" by (simp add: by_leg_def rows sel)
  obtain s where s: "tget (t_structures example_rb_db) 9 = Some s" by (simp add: example_rb_db_def tget_def)
  let ?w = "claim_rollback 3 9 ?p s example_rb_db"
  let ?w1 = "?w\<lparr>t_orders := tins (unwind_row 3 9 ?a filled_entry) (t_orders ?w)\<rparr>"
  have uw: "unwind_exists ?w 9 0 = False"
    by (simp add: unwind_exists_def unwind_rows_def) (simp add: example_rb_db_def twhere_def sel)
  have one: "unwind_one 3 (broker False) 9 (by_leg example_rb_db 9) ?a example_rb_db ?w = ((?w1, ?w1), [], None)"
    using ck by (auto simp: unwind_one_def leg uw unwind_limit_def sel or_flt_def broker_def Let_def)
  have run: "run_rollback 3 (broker False) True 9 example_rb_db = ((?w1, []), None)"
    by (simp add: run_rollback_def s plan is_noop_def Let_def one)
  have usel: "o_leg_idx (unwind_row 3 9 ?a filled_entry) = 0" "o_state (unwind_row 3 9 ?a filled_entry) = Pending"
    "o_qty (unwind_row 3 9 ?a filled_entry) = 5" "o_structure_id (unwind_row 3 9 ?a filled_entry) = 9"
    "o_order_role (unwind_row 3 9 ?a filled_entry) = Unwind"
    by (simp_all add: unwind_row_def)
  have again: "snd (fst (run_rollback 4 (broker True) True 9 e)) = []"
    if e: "t_orders e = tins (unwind_row 3 9 ?a filled_entry) (t_orders example_rb_db)" for e
  proof -
    have rows1: "entry_rows e 9 = [(1, filled_entry)]"
      "unwind_rows e 9 = [(next_id (t_orders example_rb_db), unwind_row 3 9 ?a filled_entry)]"
      by (simp_all add: entry_rows_def unwind_rows_def e twhere_tins usel)
         (simp_all add: example_rb_db_def twhere_def sel)
    have "load_plan e 9 = Inr \<lparr>cancels = [], unwinds = []\<rparr>"
      by (simp add: load_plan_def rows1 rb_order_of_def unwind_state_of_def usel sel decide_rollback_def
          covered_def unwind_of_def CANCELLABLE_STATES_def FAILED_UNWIND_STATES_def)
    then show ?thesis by (simp add: run_rollback_def is_noop_def Let_def split: option.split)
  qed
  have "t_orders ?w1 = tins (unwind_row 3 9 ?a filled_entry) (t_orders example_rb_db)" by simp
  from again [OF this] show ?thesis by (simp add: run)
qed

end
