(* ===== verification/Closing.thy ===== *)
theory Closing
  imports Ledger Exec_DB
begin

text \<open>
  \<open>core/positions/closing.py\<close> (the legs that close a position: opposite side, filled
  quantity) and \<open>core/products.py\<close> (the label of a position).
\<close>

record entry_leg =
  en_leg_idx :: int
  en_contract_type :: string
  en_contract_strike :: flt
  en_contract_expiry :: "date option"
  en_contract_symbol :: string
  en_contract_exchange :: string
  en_contract_currency :: string
  en_side :: string
  en_qty_filled :: int
  en_preview_iv_pct :: "flt option"
  en_preview_price :: "flt option"

record closing_leg =
  cg_leg_idx :: int
  cg_contract_type :: string
  cg_contract_strike :: flt
  cg_contract_expiry :: "date option"
  cg_contract_symbol :: string
  cg_contract_exchange :: string
  cg_contract_currency :: string
  cg_side :: string
  cg_qty :: int
  cg_preview_iv_pct :: "flt option"
  cg_preview_price :: "flt option"

definition closing_leg_of :: "entry_leg \<Rightarrow> string \<Rightarrow> closing_leg" where
  "closing_leg_of e side =
     \<lparr>cg_leg_idx = en_leg_idx e, cg_contract_type = en_contract_type e,
      cg_contract_strike = en_contract_strike e, cg_contract_expiry = en_contract_expiry e,
      cg_contract_symbol = en_contract_symbol e, cg_contract_exchange = en_contract_exchange e,
      cg_contract_currency = en_contract_currency e, cg_side = side, cg_qty = en_qty_filled e,
      cg_preview_iv_pct = en_preview_iv_pct e, cg_preview_price = en_preview_price e\<rparr>"

fun closing_loop :: "entry_leg list \<Rightarrow> closing_leg list result" where
  "closing_loop [] = Inr []"
| "closing_loop (e # es) =
     (if en_qty_filled e \<le> 0 then closing_loop es
      else (case opposite (py_upper (en_side e)) of
              None \<Rightarrow> Inl (ValueError ''unexpected entry side'')
            | Some s \<Rightarrow> (case closing_loop es of
                Inl x \<Rightarrow> Inl x | Inr cs \<Rightarrow> Inr (closing_leg_of e s # cs))))"

definition build_closing_legs :: "entry_leg list \<Rightarrow> closing_leg list result" where
  "build_closing_legs entries =
     (case closing_loop entries of
        Inl x \<Rightarrow> Inl x
      | Inr out \<Rightarrow> if out = [] then Inl (ValueError ''no entry has qty_filled > 0'') else Inr out)"

section \<open>Labels\<close>

definition STRUCTURE_TYPE_TO_LABEL :: "(string \<times> string) list" where
  "STRUCTURE_TYPE_TO_LABEL =
    [(''vanilla_call'', ''Vanilla Call''), (''short_vanilla_call'', ''Vanilla Call''),
     (''vanilla_put'', ''Vanilla Put''), (''short_vanilla_put'', ''Vanilla Put''),
     (''straddle_atm'', ''Straddle''), (''short_straddle_atm'', ''Straddle''),
     (''long_strangle_25d'', ''Strangle''), (''short_strangle'', ''Strangle''),
     (''long_butterfly_25d'', ''Butterfly''), (''short_butterfly_25d'', ''Butterfly''),
     (''calendar_long'', ''Calendar''), (''calendar_short'', ''Calendar'')]"

definition PRODUCT_LABELS :: "string list" where
  "PRODUCT_LABELS = [''Vanilla Call'', ''Vanilla Put'', ''Straddle'', ''Strangle'', ''Butterfly'',
     ''Calendar'', ''Future - 6E'', ''Future - M6E'']"

fun contains :: "string \<Rightarrow> string \<Rightarrow> bool" where
  "contains p [] = (p = [])"
| "contains p (c # cs) = (py_startswith (c # cs) p \<or> contains p cs)"

definition future_label :: "string option \<Rightarrow> string" where
  "future_label ib_symbol =
     (case ib_symbol of
        None \<Rightarrow> ''Future - 6E''
      | Some s \<Rightarrow> if s \<noteq> [] \<and> py_startswith s ''M6E'' then ''Future - M6E'' else ''Future - 6E'')"

definition label_from_ib :: "string option \<Rightarrow> string option" where
  "label_from_ib ib_symbol =
     (let sym' = py_strip (str_or ib_symbol) in
      if sym' = [] then None
      else if contains '' C'' sym' then Some ''Vanilla Call''
      else if contains '' P'' sym' then Some ''Vanilla Put''
      else Some (future_label (Some sym')))"

definition product_label_from_symbol :: "string option \<Rightarrow> string option \<Rightarrow> string option" where
  "product_label_from_symbol ib_symbol structure_type =
     (let st = str_or structure_type in
      if st = [] then label_from_ib ib_symbol
      else if py_startswith st ''future_'' then Some (future_label ib_symbol)
      else (case map_of STRUCTURE_TYPE_TO_LABEL st of
              Some l \<Rightarrow> Some l | None \<Rightarrow> label_from_ib ib_symbol))"

lemma future_label_in: "future_label s \<in> set PRODUCT_LABELS"
  by (auto simp: future_label_def PRODUCT_LABELS_def split: option.split)

lemma product_label_known: "product_label_from_symbol ib st = Some l \<Longrightarrow> l \<in> set PRODUCT_LABELS"
proof -
  have ib: "label_from_ib s = Some l \<Longrightarrow> l \<in> set PRODUCT_LABELS" for s
    using future_label_in by (auto simp: label_from_ib_def Let_def PRODUCT_LABELS_def split: if_splits)
  have tbl: "map_of STRUCTURE_TYPE_TO_LABEL st = Some l \<Longrightarrow> l \<in> set PRODUCT_LABELS" for st
    by (auto simp: STRUCTURE_TYPE_TO_LABEL_def PRODUCT_LABELS_def split: if_splits)
  assume "product_label_from_symbol ib st = Some l"
  then show ?thesis using ib tbl future_label_in
    by (auto simp: product_label_from_symbol_def Let_def split: if_splits option.splits)
qed

section \<open>Closing legs\<close>

lemma closing_loop_spec:
  "closing_loop es = Inr cs \<Longrightarrow>
     map cg_leg_idx cs = map en_leg_idx (filter (\<lambda>e. 0 < en_qty_filled e) es) \<and>
     (\<forall>c \<in> set cs. 0 < cg_qty c) \<and>
     (\<forall>i. sum_list (map (\<lambda>c. signed (cg_side c) (of_int (cg_qty c))) (filter (\<lambda>c. cg_leg_idx c = i) cs)) =
       - sum_list (map (\<lambda>e. signed (py_upper (en_side e)) (of_int (en_qty_filled e)))
           (filter (\<lambda>e. 0 < en_qty_filled e \<and> en_leg_idx e = i) es)))"
proof (induction es arbitrary: cs)
  case Nil
  then show ?case by simp
next
  case (Cons e es)
  show ?case
  proof (cases "en_qty_filled e \<le> 0")
    case True
    with Cons show ?thesis by simp
  next
    case False
    with Cons.prems obtain s rest where s: "opposite (py_upper (en_side e)) = Some s"
      and rest: "closing_loop es = Inr rest" "cs = closing_leg_of e s # rest"
      by (auto split: option.splits sum.splits)
    have "signed s q = - signed (py_upper (en_side e)) q" for q
      using s by (auto simp: opposite_def split: if_splits)
    with Cons.IH [OF rest(1)] rest(2) False show ?thesis
      by (simp add: closing_leg_of_def)
  qed
qed

section \<open>Property\<close>

text \<open>
  A closing structure flattens the position and nothing else: it has exactly the legs
  with a filled quantity, each with a positive quantity, and on every leg the signed
  quantity it trades is the negative of the signed quantity that was filled.
\<close>

theorem closing_flattens_position:
  assumes "build_closing_legs es = Inr cs"
  shows "cs \<noteq> [] \<and> map cg_leg_idx cs = map en_leg_idx (filter (\<lambda>e. 0 < en_qty_filled e) es) \<and>
    (\<forall>c \<in> set cs. 0 < cg_qty c) \<and>
    (\<forall>i. sum_list (map (\<lambda>c. signed (cg_side c) (of_int (cg_qty c))) (filter (\<lambda>c. cg_leg_idx c = i) cs)) +
      sum_list (map (\<lambda>e. signed (py_upper (en_side e)) (of_int (en_qty_filled e)))
        (filter (\<lambda>e. 0 < en_qty_filled e \<and> en_leg_idx e = i) es)) = 0)"
proof -
  have l: "closing_loop es = Inr cs" "cs \<noteq> []"
    using assms by (auto simp: build_closing_legs_def split: sum.splits if_splits)
  from closing_loop_spec [OF l(1)] l(2) show ?thesis by simp
qed

definition example_entries :: "entry_leg list" where
  "example_entries =
    [\<lparr>en_leg_idx = 0, en_contract_type = ''call'', en_contract_strike = 116 / 100,
      en_contract_expiry = Some (Date 2026 9 4), en_contract_symbol = ''EUR'', en_contract_exchange = ''CME'',
      en_contract_currency = ''USD'', en_side = ''buy'', en_qty_filled = 5, en_preview_iv_pct = None,
      en_preview_price = None\<rparr>,
     \<lparr>en_leg_idx = 1, en_contract_type = ''put'', en_contract_strike = 112 / 100,
      en_contract_expiry = Some (Date 2026 9 4), en_contract_symbol = ''EUR'', en_contract_exchange = ''CME'',
      en_contract_currency = ''USD'', en_side = ''SELL'', en_qty_filled = 0, en_preview_iv_pct = None,
      en_preview_price = None\<rparr>]"

theorem closing_flattens_position_witness:
  "\<exists>cs. build_closing_legs example_entries = Inr cs \<and> cs \<noteq> [] \<and> map cg_leg_idx cs = [0]"
proof -
  have "\<exists>cs. build_closing_legs example_entries = Inr cs"
    by (simp add: example_entries_def build_closing_legs_def)
  then obtain cs where cs: "build_closing_legs example_entries = Inr cs" by blast
  have f: "map en_leg_idx (filter (\<lambda>e. 0 < en_qty_filled e) example_entries) = [0]"
    by (simp add: example_entries_def)
  from closing_flattens_position [OF cs] cs f show ?thesis by auto
qed

end
