(* ===== verification/Position_Reconciler.thy ===== *)
theory Position_Reconciler
  imports Book_Ops
begin

text \<open>
  Book against broker over the database (\<open>engines/execution/reconciler.py\<close>): the forward
  book and the netted broker mirror are read per contract, and the open rows of
  \<open>reconciliation_break\<close> are brought in line with the breaks between them. A dictionary
  is an association list; the endless loop around a pass is not modelled.
\<close>

section \<open>The two sides\<close>

text \<open>Orders with a local symbol, joined with their leg position.\<close>

definition symbol_legs :: "db \<Rightarrow> (symbol \<times> flt) list" where
  "symbol_legs d =
     concat (map (\<lambda>(oid, r).
        (case o_ib_local_symbol r of
           None \<Rightarrow> []
         | Some sy \<Rightarrow> map (\<lambda>(k, l). (sy, lp_open_qty l)) (twhere (\<lambda>l. lp_order_id l = oid) (t_legs d))))
      (t_orders d))"

definition group_sum :: "(symbol \<times> flt) list \<Rightarrow> symbol \<Rightarrow> flt" where
  "group_sum js sy = sum_list (map snd (filter (\<lambda>j. fst j = sy) js))"

definition book_by_contract :: "db \<Rightarrow> qty_map" where
  "book_by_contract d =
     (let js = symbol_legs d
      in map (\<lambda>sy. (sy, group_sum js sy)) (filter (\<lambda>sy. sy \<noteq> []) (remdups (map fst js))))"

definition broker_step :: "qty_map \<Rightarrow> open_position_row \<Rightarrow> qty_map" where
  "broker_step out p =
     (if op_structure p = [] then out
      else AList.update (op_structure p)
             (get_qty out (op_structure p) + signed (op_side p) (flt_or0 (op_quantity p))) out)"

definition broker_by_contract :: "db \<Rightarrow> qty_map" where
  "broker_by_contract d = foldl broker_step [] (map snd (t_open_positions d))"

section \<open>One pass\<close>

definition open_breaks :: "db \<Rightarrow> (int \<times> break_row) list" where
  "open_breaks d = twhere (\<lambda>r. rk_resolved_at r = None) (t_breaks d)"

text \<open>\<open>open_by_contract\<close>: of several open rows of one contract the last one is kept.\<close>

definition open_by_contract :: "(int \<times> break_row) list \<Rightarrow> symbol \<Rightarrow> (int \<times> break_row) option" where
  "open_by_contract rows sy = map_of (rev (map (\<lambda>(k, r). (rk_local_symbol r, (k, r))) rows)) sy"

definition new_break :: "time \<Rightarrow> book_break \<Rightarrow> break_row" where
  "new_break now br =
     \<lparr>rk_local_symbol = br_contract br, rk_book_qty = br_book_qty br, rk_broker_qty = br_broker_qty br,
      rk_diff = br_diff br, rk_break_type = br_type br, rk_detected_at = now, rk_last_seen_at = now,
      rk_resolved_at = None\<rparr>"

definition seen_again :: "time \<Rightarrow> book_break \<Rightarrow> break_row \<Rightarrow> break_row" where
  "seen_again now br r =
     r\<lparr>rk_book_qty := br_book_qty br, rk_broker_qty := br_broker_qty br, rk_diff := br_diff br,
       rk_break_type := br_type br, rk_last_seen_at := now\<rparr>"

definition upsert_break :: "time \<Rightarrow> (int \<times> break_row) list \<Rightarrow> break_row table \<Rightarrow> book_break \<Rightarrow> break_row table" where
  "upsert_break now rows t br =
     (case open_by_contract rows (br_contract br) of
        None \<Rightarrow> tins (new_break now br) t
      | Some (k, _) \<Rightarrow> tupd k (seen_again now br) t)"

definition resolve_break ::
  "time \<Rightarrow> (int \<times> break_row) list \<Rightarrow> book_break list \<Rightarrow> break_row table \<Rightarrow> symbol \<Rightarrow> break_row table" where
  "resolve_break now rows brs t sy =
     (if sy \<in> br_contract ` set brs then t
      else (case open_by_contract rows sy of
              None \<Rightarrow> t
            | Some (k, _) \<Rightarrow> tupd k (\<lambda>r. r\<lparr>rk_resolved_at := Some now\<rparr>) t))"

datatype reconcile_report = Reconcile_skipped | Reconciled nat

definition reconcile_positions :: "time \<Rightarrow> bool \<Rightarrow> db \<Rightarrow> db \<times> reconcile_report" where
  "reconcile_positions now reporting d =
     (if \<not> reporting then (d, Reconcile_skipped)
      else
        let brs = compute_breaks (book_by_contract d) (broker_by_contract d);
            rows = open_breaks d;
            t1 = foldl (upsert_break now rows) (t_breaks d) brs;
            t2 = foldl (resolve_break now rows brs) t1 (remdups (map (\<lambda>(k, r). rk_local_symbol r) rows))
        in (d\<lparr>t_breaks := t2\<rparr>, Reconciled (length brs)))"

section \<open>What the two sides hold\<close>

lemma get_qty_group: "get_qty (map (\<lambda>sy. (sy, f sy)) ss) x = (if x \<in> set ss then f x else 0)"
  by (induction ss) (auto simp: get_qty_def)

text \<open>The book of a contract is the sum of its legs.\<close>

lemma get_qty_book:
  assumes "sy \<noteq> []"
  shows "get_qty (book_by_contract d) sy = group_sum (symbol_legs d) sy"
proof (cases "sy \<in> set (map fst (symbol_legs d))")
  case True
  with assms show ?thesis by (simp add: book_by_contract_def Let_def get_qty_group)
next
  case False
  then have "filter (\<lambda>j. fst j = sy) (symbol_legs d) = []" by (auto simp: filter_empty_conv)
  with False show ?thesis by (simp add: book_by_contract_def Let_def get_qty_group group_sum_def)
qed

definition net_position :: "db \<Rightarrow> symbol \<Rightarrow> flt" where
  "net_position d sy =
     (\<Sum>p\<leftarrow>filter (\<lambda>p. op_structure p = sy) (map snd (t_open_positions d)).
        signed (op_side p) (flt_or0 (op_quantity p)))"

lemma get_qty_broker_step:
  "sy \<noteq> [] \<Longrightarrow> get_qty (broker_step m p) sy =
     get_qty m sy + (if op_structure p = sy then signed (op_side p) (flt_or0 (op_quantity p)) else 0)"
  by (auto simp: broker_step_def get_qty_def update_conv')

lemma get_qty_broker_fold:
  "sy \<noteq> [] \<Longrightarrow> get_qty (foldl broker_step m ps) sy =
     get_qty m sy + (\<Sum>p\<leftarrow>filter (\<lambda>p. op_structure p = sy) ps. signed (op_side p) (flt_or0 (op_quantity p)))"
  by (induction ps arbitrary: m) (simp_all add: get_qty_broker_step)

lemma get_qty_broker: "sy \<noteq> [] \<Longrightarrow> get_qty (broker_by_contract d) sy = net_position d sy"
proof -
  have "get_qty [] sy = 0" by (simp add: get_qty_def)
  then show "sy \<noteq> [] \<Longrightarrow> get_qty (broker_by_contract d) sy = net_position d sy"
    by (simp add: broker_by_contract_def net_position_def get_qty_broker_fold)
qed

section \<open>What a pass does to the rows\<close>

definition one_open :: "(int \<times> break_row) list \<Rightarrow> bool" where
  "one_open rows = distinct (map (\<lambda>e. rk_local_symbol (snd e)) rows)"

definition break_for :: "book_break list \<Rightarrow> symbol \<Rightarrow> book_break option" where
  "break_for brs sy = find (\<lambda>br. br_contract br = sy) brs"

definition touch :: "time \<Rightarrow> book_break list \<Rightarrow> break_row \<Rightarrow> break_row" where
  "touch now brs r =
     (if rk_resolved_at r \<noteq> None then r
      else (case break_for brs (rk_local_symbol r) of None \<Rightarrow> r | Some br \<Rightarrow> seen_again now br r))"

lemma seen_again_sel [simp]:
  "rk_local_symbol (seen_again now br r) = rk_local_symbol r" "rk_resolved_at (seen_again now br r) = rk_resolved_at r"
  by (simp_all add: seen_again_def)

lemma touch_sel [simp]:
  "rk_local_symbol (touch now brs r) = rk_local_symbol r" "rk_resolved_at (touch now brs r) = rk_resolved_at r"
  by (simp_all add: touch_def split: option.splits)

lemma new_break_sel [simp]:
  "rk_local_symbol (new_break now br) = br_contract br" "rk_resolved_at (new_break now br) = None"
  by (simp_all add: new_break_def)

lemma find_None_iff_set: "find P xs = None \<longleftrightarrow> (\<forall>x \<in> set xs. \<not> P x)"
  by (induction xs) auto

lemma find_snoc: "find P (xs @ [x]) = (case find P xs of None \<Rightarrow> if P x then Some x else None | Some y \<Rightarrow> Some y)"
  by (induction xs) auto

lemma find_SomeD: "find P xs = Some x \<Longrightarrow> x \<in> set xs \<and> P x"
  by (induction xs) (auto split: if_splits)

lemma break_for_None: "break_for brs sy = None \<longleftrightarrow> sy \<notin> br_contract ` set brs"
  by (auto simp: break_for_def find_None_iff_set)

lemma break_for_Some: "break_for brs sy = Some br \<Longrightarrow> br \<in> set brs \<and> br_contract br = sy"
  unfolding break_for_def by (drule find_SomeD) simp

lemma open_by_contract_Some:
  assumes "one_open rows"
  shows "open_by_contract rows sy = Some (k, r) \<longleftrightarrow> (k, r) \<in> set rows \<and> rk_local_symbol r = sy"
proof -
  let ?ps = "map (\<lambda>(k, r). (rk_local_symbol r, (k, r))) rows"
  have syms: "map fst ?ps = map (\<lambda>e. rk_local_symbol (snd e)) rows" by auto
  have "distinct (map fst (rev ?ps))"
    unfolding rev_map [symmetric] distinct_rev syms using assms by (simp add: one_open_def)
  then have "map_of (rev ?ps) sy = Some (k, r) \<longleftrightarrow> (sy, (k, r)) \<in> set (rev ?ps)" by simp
  then show ?thesis by (auto simp: open_by_contract_def)
qed

lemma open_by_contract_None:
  "open_by_contract rows sy = None \<longleftrightarrow> (\<forall>(k, r) \<in> set rows. rk_local_symbol r \<noteq> sy)"
  by (force simp: open_by_contract_def map_of_eq_None_iff)


text \<open>The table after the upserts of \<open>bs\<close>, seen from the rows it started with.\<close>

definition upserted :: "time \<Rightarrow> break_row table \<Rightarrow> book_break list \<Rightarrow> break_row table \<Rightarrow> bool" where
  "upserted now t0 bs t \<longleftrightarrow>
     table_ok t \<and>
     (\<forall>k r. tget t0 k = Some r \<longrightarrow> tget t k = Some (touch now bs r)) \<and>
     (\<forall>k r. tget t k = Some r \<longrightarrow> tget t0 k = None \<longrightarrow>
        (\<exists>br \<in> set bs. r = new_break now br \<and>
           open_by_contract (twhere (\<lambda>r. rk_resolved_at r = None) t0) (br_contract br) = None)) \<and>
     (\<forall>br \<in> set bs. open_by_contract (twhere (\<lambda>r. rk_resolved_at r = None) t0) (br_contract br) = None \<longrightarrow>
        (\<exists>!k. tget t0 k = None \<and> tget t k = Some (new_break now br)))"

lemma touch_snoc:
  assumes "br_contract br \<notin> br_contract ` set bs"
  shows "touch now (bs @ [br]) r =
    (if rk_resolved_at r = None \<and> rk_local_symbol r = br_contract br
     then seen_again now br (touch now bs r) else touch now bs r)"
proof -
  have "break_for bs (br_contract br) = None" using assms by (simp add: break_for_None)
  then show ?thesis
    by (auto simp: touch_def break_for_def find_snoc split: option.splits)
qed

lemma upserted_step:
  assumes ok0: "table_ok t0" and one: "one_open (twhere (\<lambda>r. rk_resolved_at r = None) t0)"
    and up: "upserted now t0 bs t" and fresh: "br_contract br \<notin> br_contract ` set bs"
  shows "upserted now t0 (bs @ [br]) (upsert_break now (twhere (\<lambda>r. rk_resolved_at r = None) t0) t br)"
proof (cases "open_by_contract (twhere (\<lambda>r. rk_resolved_at r = None) t0) (br_contract br)")
  case None
  let ?rows = "twhere (\<lambda>r. rk_resolved_at r = None) t0"
  have old: "touch now (bs @ [br]) r = touch now bs r" if "tget t0 k = Some r" for k r
    using None tget_in [OF that] unfolding touch_snoc [OF fresh] by (fastforce simp: open_by_contract_None)
  have new0: "tget t0 (next_id t) = None"
    using up tget_next_id [of t] unfolding upserted_def by (metis not_Some_eq)
  have neq: "new_break now b \<noteq> new_break now br" if "b \<in> set bs" for b
    using that fresh new_break_sel(1) by (metis image_eqI)
  show ?thesis
    unfolding upserted_def
  proof (intro conjI allI impI ballI)
    show "table_ok (upsert_break now ?rows t br)"
      using up None by (simp add: upsert_break_def upserted_def table_ok_tins)
  next
    fix k r assume "tget t0 k = Some r"
    with up old tget_next_id [of t] show "tget (upsert_break now ?rows t br) k = Some (touch now (bs @ [br]) r)"
      by (auto simp: upsert_break_def None upserted_def tbl.get_ins)
  next
    fix k r assume "tget (upsert_break now ?rows t br) k = Some r" "tget t0 k = None"
    with up None show "\<exists>br' \<in> set (bs @ [br]). r = new_break now br' \<and> open_by_contract ?rows (br_contract br') = None"
      by (fastforce simp: upsert_break_def upserted_def tbl.get_ins split: if_splits)
  next
    fix b assume b: "b \<in> set (bs @ [br])" "open_by_contract ?rows (br_contract b) = None"
    show "\<exists>!k. tget t0 k = None \<and> tget (upsert_break now ?rows t br) k = Some (new_break now b)"
    proof (cases "b \<in> set bs")
      case True
      then have "\<exists>!k. tget t0 k = None \<and> tget t k = Some (new_break now b)" using up b by (simp add: upserted_def)
      with neq [OF True] show ?thesis
        using tget_next_id [of t] by (simp add: upsert_break_def None tbl.get_ins) (metis option.distinct(1) option.inject)
    next
      case False
      then have "b = br" using b by simp
      moreover have "tget t0 k = None \<Longrightarrow> tget t k = Some (new_break now br) \<Longrightarrow> False" for k
        using up neq unfolding upserted_def by metis
      ultimately show ?thesis using new0
        by (intro ex1I [of _ "next_id t"]) (auto simp: upsert_break_def None tbl.get_ins split: if_splits)
    qed
  qed
next
  case (Some e)
  let ?rows = "twhere (\<lambda>r. rk_resolved_at r = None) t0"
  obtain k0 r0 where e: "e = (k0, r0)" by (cases e)
  then have row: "(k0, r0) \<in> set t0" "rk_resolved_at r0 = None" "rk_local_symbol r0 = br_contract br"
    using Some open_by_contract_Some [OF one] by auto
  have get0: "tget t0 k0 = Some r0" by (rule in_tget [OF ok0 row(1)])
  have only: "k = k0" if "tget t0 k = Some r" "rk_resolved_at r = None" "rk_local_symbol r = br_contract br" for k r
    using that tget_in [OF that(1)] open_by_contract_Some [OF one, of "br_contract br" k r] Some e by auto
  have t: "upsert_break now ?rows t br = tupd k0 (seen_again now br) t"
    by (simp add: upsert_break_def Some e)
  show ?thesis
    unfolding upserted_def t
  proof (intro conjI allI impI ballI)
    show "table_ok (tupd k0 (seen_again now br) t)" using up by (simp add: upserted_def)
  next
    fix k r assume "tget t0 k = Some r"
    then show "tget (tupd k0 (seen_again now br) t) k = Some (touch now (bs @ [br]) r)"
      using up only [of k r] get0 row unfolding touch_snoc [OF fresh] by (auto simp: upserted_def tbl.get_upd)
  next
    fix k r assume "tget (tupd k0 (seen_again now br) t) k = Some r" "tget t0 k = None"
    with up get0 show "\<exists>br' \<in> set (bs @ [br]). r = new_break now br' \<and> open_by_contract ?rows (br_contract br') = None"
      by (fastforce simp: upserted_def tbl.get_upd split: if_splits)
  next
    fix b assume b: "b \<in> set (bs @ [br])" "open_by_contract ?rows (br_contract b) = None"
    then have "b \<in> set bs" using Some by auto
    then have "\<exists>!k. tget t0 k = None \<and> tget t k = Some (new_break now b)" using up b by (simp add: upserted_def)
    then show "\<exists>!k. tget t0 k = None \<and> tget (tupd k0 (seen_again now br) t) k = Some (new_break now b)"
      using get0 by (simp add: tbl.get_upd) (metis option.distinct(1))
  qed
qed

lemma upserted_fold:
  assumes ok0: "table_ok t0" and one: "one_open (twhere (\<lambda>r. rk_resolved_at r = None) t0)"
    and "distinct (map br_contract brs)"
  shows "upserted now t0 brs (foldl (upsert_break now (twhere (\<lambda>r. rk_resolved_at r = None) t0)) t0 brs)"
  using assms(3)
proof (induction brs rule: rev_induct)
  case Nil
  then show ?case using ok0 by (auto simp: upserted_def touch_def break_for_def split: option.splits)
next
  case (snoc br bs)
  then have "br_contract br \<notin> br_contract ` set bs" by auto
  with snoc show ?case by (simp add: upserted_step [OF ok0 one])
qed

lemma resolve_fold:
  assumes "one_open rows"
  shows "tget (foldl (resolve_break now rows brs) t ss) k =
    (if \<exists>r. (k, r) \<in> set rows \<and> rk_local_symbol r \<in> set ss \<and> rk_local_symbol r \<notin> br_contract ` set brs
     then map_option (\<lambda>r. r\<lparr>rk_resolved_at := Some now\<rparr>) (tget t k) else tget t k)"
proof (induction ss arbitrary: t)
  case Nil
  then show ?case by simp
next
  case (Cons sy ss)
  show ?case
  proof (cases "sy \<in> br_contract ` set brs \<or> open_by_contract rows sy = None")
    case True
    then have "resolve_break now rows brs t sy = t" by (auto simp: resolve_break_def)
    with Cons.IH True show ?thesis by (fastforce simp: open_by_contract_None)
  next
    case False
    then obtain k0 r0 where o0: "open_by_contract rows sy = Some (k0, r0)" by auto
    then have r0: "(k0, r0) \<in> set rows" "rk_local_symbol r0 = sy" using open_by_contract_Some [OF assms] by auto
    have t1: "resolve_break now rows brs t sy = tupd k0 (\<lambda>r. r\<lparr>rk_resolved_at := Some now\<rparr>) t"
      using False o0 by (simp add: resolve_break_def)
    show ?thesis
    proof (cases "k = k0")
      case True
      with False r0 have "\<exists>r. (k, r) \<in> set rows \<and> rk_local_symbol r \<in> set (sy # ss) \<and>
          rk_local_symbol r \<notin> br_contract ` set brs" by (intro exI [of _ r0]) auto
      with True show ?thesis
        unfolding foldl_Cons t1 Cons.IH tbl.get_upd by (simp add: option.map_comp comp_def)
    next
      case other: False
      then have "rk_local_symbol r \<noteq> sy" if "(k, r) \<in> set rows" for r
        using that o0 open_by_contract_Some [OF assms, of sy k r] by auto
      then show ?thesis using other by (simp add: Cons.IH t1 tbl.get_upd) metis
    qed
  qed
qed

lemma resolve_fold_ok: "table_ok t \<Longrightarrow> table_ok (foldl (resolve_break now rows brs) t ss)"
  by (induction ss arbitrary: t) (auto simp: resolve_break_def split: option.splits)

text \<open>The row a pass leaves behind for a row it found.\<close>

definition after_pass :: "time \<Rightarrow> book_break list \<Rightarrow> break_row \<Rightarrow> break_row" where
  "after_pass now brs r =
     (if rk_resolved_at r = None \<and> rk_local_symbol r \<notin> br_contract ` set brs
      then r\<lparr>rk_resolved_at := Some now\<rparr> else touch now brs r)"

definition position_breaks :: "db \<Rightarrow> book_break list" where
  "position_breaks d = compute_breaks (book_by_contract d) (broker_by_contract d)"

lemma pass_rows:
  assumes ok: "table_ok (t_breaks d)" and one: "one_open (open_breaks d)"
    and run: "reconcile_positions now True d = (d', rep)"
  shows "table_ok (t_breaks d')"
    and "tget (t_breaks d) k = Some r \<Longrightarrow> tget (t_breaks d') k = Some (after_pass now (position_breaks d) r)"
    and "tget (t_breaks d') k = Some r \<Longrightarrow> tget (t_breaks d) k = None \<Longrightarrow>
      \<exists>br \<in> set (position_breaks d). r = new_break now br \<and> open_by_contract (open_breaks d) (br_contract br) = None"
    and "br \<in> set (position_breaks d) \<Longrightarrow> open_by_contract (open_breaks d) (br_contract br) = None \<Longrightarrow>
      \<exists>!k. tget (t_breaks d) k = None \<and> tget (t_breaks d') k = Some (new_break now br)"
proof -
  let ?rows = "open_breaks d" and ?brs = "position_breaks d"
  let ?t = "foldl (upsert_break now ?rows) (t_breaks d) ?brs"
  have up: "upserted now (t_breaks d) ?brs ?t"
    using upserted_fold [OF ok] one breaks_distinct by (simp add: open_breaks_def position_breaks_def)
  have t': "t_breaks d' = foldl (resolve_break now ?rows ?brs) ?t (remdups (map (\<lambda>(k, r). rk_local_symbol r) ?rows))"
    using run by (auto simp: reconcile_positions_def Let_def position_breaks_def)
  have get': "tget (t_breaks d') k =
      (if \<exists>r. (k, r) \<in> set ?rows \<and> rk_local_symbol r \<notin> br_contract ` set ?brs
       then map_option (\<lambda>r. r\<lparr>rk_resolved_at := Some now\<rparr>) (tget ?t k) else tget ?t k)" for k
    unfolding t' resolve_fold [OF one] by (rule if_cong) force+
  have rows: "(k, r) \<in> set ?rows \<longleftrightarrow> tget (t_breaks d) k = Some r \<and> rk_resolved_at r = None" for k r
    using in_tget [OF ok] tget_in by (fastforce simp: open_breaks_def)
  show "table_ok (t_breaks d')"
    unfolding t' by (rule resolve_fold_ok) (use up in \<open>simp add: upserted_def\<close>)
  show "tget (t_breaks d') k = Some (after_pass now ?brs r)" if "tget (t_breaks d) k = Some r"
    using up that by (auto simp: get' rows after_pass_def upserted_def touch_def break_for_None [THEN iffD2])
  have new: "tget (t_breaks d') k = tget ?t k" if "tget (t_breaks d) k = None" for k
    using that by (simp add: get' rows)
  show "\<exists>br \<in> set ?brs. r = new_break now br \<and> open_by_contract ?rows (br_contract br) = None"
    if "tget (t_breaks d') k = Some r" "tget (t_breaks d) k = None"
    using up that new [OF that(2)] by (simp add: upserted_def open_breaks_def)
  show "\<exists>!k. tget (t_breaks d) k = None \<and> tget (t_breaks d') k = Some (new_break now br)"
    if "br \<in> set ?brs" "open_by_contract ?rows (br_contract br) = None"
  proof -
    have "\<exists>!k. tget (t_breaks d) k = None \<and> tget ?t k = Some (new_break now br)"
      using up that by (simp add: upserted_def open_breaks_def)
    moreover have "(tget (t_breaks d) k = None \<and> tget (t_breaks d') k = Some (new_break now br)) =
        (tget (t_breaks d) k = None \<and> tget ?t k = Some (new_break now br))" for k
      using new by auto
    ultimately show ?thesis by simp
  qed
qed

definition break_view :: "break_row \<Rightarrow> book_break" where
  "break_view r = \<lparr>br_contract = rk_local_symbol r, br_book_qty = rk_book_qty r,
     br_broker_qty = rk_broker_qty r, br_diff = rk_diff r, br_type = rk_break_type r\<rparr>"

lemma break_view_new [simp]: "break_view (new_break now br) = br"
  by (simp add: break_view_def new_break_def)

lemma break_view_seen [simp]: "br_contract br = rk_local_symbol r \<Longrightarrow> break_view (seen_again now br r) = br"
  by (simp add: break_view_def seen_again_def)

lemma break_view_contract [simp]: "br_contract (break_view r) = rk_local_symbol r"
  by (simp add: break_view_def)

text \<open>The rows open after a pass, by their key: an old one seen again or a new one.\<close>

lemma pass_open:
  assumes ok: "table_ok (t_breaks d)" and one: "one_open (open_breaks d)"
    and run: "reconcile_positions now True d = (d', rep)"
  shows "(k, r) \<in> set (open_breaks d') \<longleftrightarrow>
    (\<exists>br \<in> set (position_breaks d).
       (\<exists>r0. open_by_contract (open_breaks d) (br_contract br) = Some (k, r0) \<and> r = seen_again now br r0) \<or>
       (open_by_contract (open_breaks d) (br_contract br) = None \<and> tget (t_breaks d) k = None \<and>
        tget (t_breaks d') k = Some r \<and> r = new_break now br))"
    (is "?L = ?R")
proof -
  note rows = pass_rows [OF ok one run]
  have get': "(k, r) \<in> set (open_breaks d') \<longleftrightarrow> tget (t_breaks d') k = Some r \<and> rk_resolved_at r = None" for k r
    using in_tget [OF rows(1)] tget_in by (fastforce simp: open_breaks_def)
  have get: "(k, r) \<in> set (open_breaks d) \<longleftrightarrow> tget (t_breaks d) k = Some r \<and> rk_resolved_at r = None" for k r
    using in_tget [OF ok] tget_in by (fastforce simp: open_breaks_def)
  note found = open_by_contract_Some [OF one]
  show ?thesis
  proof
    assume "?L"
    then have r: "tget (t_breaks d') k = Some r" "rk_resolved_at r = None" using get' by auto
    show "?R"
    proof (cases "tget (t_breaks d) k")
      case None
      with rows(3) [OF r(1) None] r show ?thesis by blast
    next
      case (Some r0)
      then have r0: "r = after_pass now (position_breaks d) r0" using rows(2) r(1) by simp
      with r(2) have op: "rk_resolved_at r0 = None" "rk_local_symbol r0 \<in> br_contract ` set (position_breaks d)"
        by (auto simp: after_pass_def split: if_splits)
      then obtain br where br: "break_for (position_breaks d) (rk_local_symbol r0) = Some br"
        using break_for_None by fastforce
      with op r0 have "r = seen_again now br r0" by (simp add: after_pass_def touch_def)
      with break_for_Some [OF br] found get Some op show ?thesis by metis
    qed
  next
    assume "?R"
    then obtain br where br: "br \<in> set (position_breaks d)"
      and c: "(\<exists>r0. open_by_contract (open_breaks d) (br_contract br) = Some (k, r0) \<and> r = seen_again now br r0) \<or>
        (tget (t_breaks d') k = Some r \<and> r = new_break now br)" by blast
    from c show "?L"
    proof (elim disjE exE conjE)
      fix r0 assume o': "open_by_contract (open_breaks d) (br_contract br) = Some (k, r0)" "r = seen_again now br r0"
      then have r0: "tget (t_breaks d) k = Some r0" "rk_resolved_at r0 = None" "rk_local_symbol r0 = br_contract br"
        using found get by auto
      then have "br_contract br \<in> br_contract ` set (position_breaks d)" using br by simp
      moreover have "break_for (position_breaks d) (br_contract br) = Some br"
      proof -
        obtain b where b: "break_for (position_breaks d) (br_contract br) = Some b"
          using calculation break_for_None by (cases "break_for (position_breaks d) (br_contract br)") auto
        then have "b \<in> set (position_breaks d)" "br_contract b = br_contract br" using break_for_Some by auto
        with br breaks_distinct show ?thesis using b
          by (simp add: position_breaks_def distinct_map inj_on_def)
      qed
      ultimately have "after_pass now (position_breaks d) r0 = r"
        using r0 o' by (simp add: after_pass_def touch_def)
      with rows(2) [OF r0(1)] r0 o' get' show ?thesis by simp
    qed (simp add: get')
  qed
qed

lemma position_break_unique:
  "a \<in> set (position_breaks d) \<Longrightarrow> b \<in> set (position_breaks d) \<Longrightarrow> br_contract a = br_contract b \<Longrightarrow> a = b"
  using breaks_distinct [of "book_by_contract d" "broker_by_contract d"]
  by (auto simp: position_breaks_def distinct_map inj_on_def)

lemma table_ok_distinct: "table_ok t \<Longrightarrow> distinct (twhere P t)"
  unfolding table_ok_def keys_of_def twhere_def by (intro distinct_filter) (simp add: distinct_map)

lemma pass_one_open:
  assumes ok: "table_ok (t_breaks d)" and one: "one_open (open_breaks d)"
    and run: "reconcile_positions now True d = (d', rep)"
  shows "one_open (open_breaks d')"
  unfolding one_open_def distinct_map
proof (intro conjI inj_onI)
  show "distinct (open_breaks d')"
    unfolding open_breaks_def by (rule table_ok_distinct [OF pass_rows(1) [OF ok one run]])
next
  note op = pass_open [OF ok one run]
  fix x y assume xy: "x \<in> set (open_breaks d')" "y \<in> set (open_breaks d')"
    and sy: "rk_local_symbol (snd x) = rk_local_symbol (snd y)"
  obtain k r where x: "x = (k, r)" by (rule prod.exhaust)
  obtain j q where y: "y = (j, q)" by (rule prod.exhaust)
  obtain a where a: "a \<in> set (position_breaks d)" and ra: "(\<exists>r0. open_by_contract (open_breaks d) (br_contract a) = Some (k, r0) \<and> r = seen_again now a r0) \<or>
      (open_by_contract (open_breaks d) (br_contract a) = None \<and> tget (t_breaks d) k = None \<and>
       tget (t_breaks d') k = Some r \<and> r = new_break now a)"
    using xy(1) unfolding x op by blast
  obtain b where b: "b \<in> set (position_breaks d)" and rb: "(\<exists>r0. open_by_contract (open_breaks d) (br_contract b) = Some (j, r0) \<and> q = seen_again now b r0) \<or>
      (open_by_contract (open_breaks d) (br_contract b) = None \<and> tget (t_breaks d) j = None \<and>
       tget (t_breaks d') j = Some q \<and> q = new_break now b)"
    using xy(2) unfolding y op by blast
  have syms: "rk_local_symbol r = br_contract a" "rk_local_symbol q = br_contract b"
    using ra rb open_by_contract_Some [OF one] by auto
  have ab: "a = b" by (rule position_break_unique [OF a b]) (use sy syms x y in simp)
  have "open_by_contract (open_breaks d) (br_contract a) = None \<Longrightarrow>
      \<exists>!k. tget (t_breaks d) k = None \<and> tget (t_breaks d') k = Some (new_break now a)"
    by (rule pass_rows(4) [OF ok one run a])
  with ra rb ab show "x = y" unfolding x y by (elim disjE exE conjE) auto
qed

lemma pass_view:
  assumes "table_ok (t_breaks d)" and "one_open (open_breaks d)"
    and "reconcile_positions now True d = (d', rep)"
  shows "(\<lambda>e. break_view (snd e)) ` set (open_breaks d') = set (position_breaks d)"
proof (intro equalityI subsetI)
  fix b assume "b \<in> (\<lambda>e. break_view (snd e)) ` set (open_breaks d')"
  then obtain k r where "(k, r) \<in> set (open_breaks d')" "b = break_view r" by auto
  then show "b \<in> set (position_breaks d)" unfolding pass_open [OF assms] using open_by_contract_Some [OF assms(2)] by fastforce
next
  fix b assume b: "b \<in> set (position_breaks d)"
  show "b \<in> (\<lambda>e. break_view (snd e)) ` set (open_breaks d')"
  proof (cases "open_by_contract (open_breaks d) (br_contract b)")
    case None
    then obtain k where "tget (t_breaks d) k = None" "tget (t_breaks d') k = Some (new_break now b)"
      using pass_rows(4) [OF assms b] by blast
    with None b have "(k, new_break now b) \<in> set (open_breaks d')" unfolding pass_open [OF assms] by blast
    then show ?thesis by (rule rev_image_eqI) simp
  next
    case (Some e)
    obtain k r0 where e: "e = (k, r0)" by (rule prod.exhaust)
    with Some b have "(k, seen_again now b r0) \<in> set (open_breaks d')" unfolding pass_open [OF assms] by blast
    moreover have "br_contract b = rk_local_symbol r0"
      using Some unfolding e open_by_contract_Some [OF assms(2)] by (rule conjunct2 [THEN sym])
    then have "b = break_view (snd (k, seen_again now b r0))" by simp
    ultimately show ?thesis by (rule rev_image_eqI)
  qed
qed

lemma pass_break_iff:
  assumes "table_ok (t_breaks d)" and "one_open (open_breaks d)"
    and "reconcile_positions now True d = (d', rep)"
  shows "(\<lambda>e. rk_local_symbol (snd e)) ` set (open_breaks d') = br_contract ` set (position_breaks d)"
    and "sy \<noteq> [] \<Longrightarrow> sy \<in> (\<lambda>e. rk_local_symbol (snd e)) ` set (open_breaks d') \<longleftrightarrow>
      BREAK_EPS < \<bar>py_round 4 (group_sum (symbol_legs d) sy) - py_round 4 (net_position d sy)\<bar>"
proof -
  show syms: "(\<lambda>e. rk_local_symbol (snd e)) ` set (open_breaks d') = br_contract ` set (position_breaks d)"
    unfolding pass_view [OF assms, symmetric] by (simp add: image_image)
  show "sy \<in> (\<lambda>e. rk_local_symbol (snd e)) ` set (open_breaks d') \<longleftrightarrow>
      BREAK_EPS < \<bar>py_round 4 (group_sum (symbol_legs d) sy) - py_round 4 (net_position d sy)\<bar>" if "sy \<noteq> []"
    unfolding syms position_breaks_def breaks_contracts get_qty_book [OF that] get_qty_broker [OF that] ..
qed

section \<open>Properties\<close>

text \<open>
  C26. A reconciliation pass leaves exactly the current breaks open: afterwards there is at
  most one open row per contract, the open rows carry the quantities, difference and type
  of the breaks between the legs' book and the netted broker mirror, and a contract has an
  open row if and only if the two, rounded, differ by more than the tolerance; a row that
  was resolved stays as it was and a row seen again keeps its detection time. On a dead
  feed the pass changes nothing.
\<close>

theorem position_breaks_exact:
  assumes "table_ok (t_breaks d)" and "one_open (open_breaks d)"
    and "reconcile_positions now True d = (d', rep)"
  shows "one_open (open_breaks d') \<and>
    (\<lambda>e. break_view (snd e)) ` set (open_breaks d') = set (position_breaks d) \<and>
    rep = Reconciled (length (open_breaks d')) \<and>
    (\<forall>sy. sy \<noteq> [] \<longrightarrow> (sy \<in> (\<lambda>e. rk_local_symbol (snd e)) ` set (open_breaks d') \<longleftrightarrow>
       BREAK_EPS < \<bar>py_round 4 (group_sum (symbol_legs d) sy) - py_round 4 (net_position d sy)\<bar>)) \<and>
    (\<forall>k r. tget (t_breaks d) k = Some r \<longrightarrow>
       (\<exists>r'. tget (t_breaks d') k = Some r' \<and> rk_detected_at r' = rk_detected_at r \<and>
          (rk_resolved_at r \<noteq> None \<longrightarrow> r' = r))) \<and>
    reconcile_positions now False d = (d, Reconcile_skipped)"
proof -
  note one' = pass_one_open [OF assms] and view = pass_view [OF assms] and syms = pass_break_iff(1) [OF assms]
  have "length (open_breaks d') = card ((\<lambda>e. rk_local_symbol (snd e)) ` set (open_breaks d'))"
    using one' distinct_card unfolding one_open_def by (metis length_map set_map)
  also have "\<dots> = length (position_breaks d)"
    unfolding syms position_breaks_def using breaks_distinct by (metis distinct_card length_map set_map)
  finally have "rep = Reconciled (length (open_breaks d'))"
    using assms(3) by (auto simp: reconcile_positions_def Let_def position_breaks_def)
  moreover note pass_break_iff(2) [OF assms]
  moreover have "\<exists>r'. tget (t_breaks d') k = Some r' \<and> rk_detected_at r' = rk_detected_at r \<and>
      (rk_resolved_at r \<noteq> None \<longrightarrow> r' = r)" if "tget (t_breaks d) k = Some r" for k r
    using pass_rows(2) [OF assms that]
    by (auto simp: after_pass_def touch_def seen_again_def split: option.splits)
  ultimately show ?thesis using one' view by (simp add: reconcile_positions_def)
qed

text \<open>Two lots held, one at the broker: the pass opens the row.\<close>

definition example_break_db :: db where
  "example_break_db = empty_db\<lparr>
     t_orders := [(1, (new_order_row 0 9 0 Entry ''call'' BUY 2 Filled)\<lparr>o_ib_local_symbol := Some ''M6EZ5''\<rparr>)],
     t_legs := [(1, \<lparr>lp_order_id = 1, lp_open_qty = 2, lp_reserved_qty = 0, lp_avg_price = None,
                   lp_realized_pnl_usd = 0, lp_rebuilt_at = 0\<rparr>)],
     t_open_positions := [(1, \<lparr>op_structure = ''M6EZ5'', op_trade_id = Some 9, op_side = BUY,
                   op_quantity = Some 1, op_market_price = None, op_product_label = None, op_contract_id = None,
        op_package_id = None, op_tenor = None, op_expiry = None, op_nominal_eur = None,
        op_contract_price_entry = None, op_entry_timestamp = 0\<rparr>)]\<rparr>"

theorem position_breaks_exact_witness:
  "\<exists>k r. (k, r) \<in> set (open_breaks (fst (reconcile_positions 5 True example_break_db))) \<and>
     rk_local_symbol r = ''M6EZ5''"
proof -
  let ?d = "example_break_db"
  obtain d' rep where run: "reconcile_positions 5 True ?d = (d', rep)" by (rule prod.exhaust)
  have ok: "table_ok (t_breaks ?d)" "one_open (open_breaks ?d)"
    by (simp_all add: example_break_db_def empty_db_def table_ok_def keys_of_def one_open_def open_breaks_def twhere_def)
  have book: "group_sum (symbol_legs ?d) ''M6EZ5'' = 2"
    by (simp add: group_sum_def symbol_legs_def example_break_db_def empty_db_def new_order_row_def twhere_def)
  have broker: "net_position ?d ''M6EZ5'' = 1"
    by (simp add: net_position_def example_break_db_def empty_db_def signed_def)
  have "BREAK_EPS < \<bar>py_round 4 2 - py_round 4 1\<bar>"
    using py_round_of_int [of 4 2] py_round_of_int [of 4 1] by (simp add: BREAK_EPS_def)
  then have gap: "BREAK_EPS < \<bar>py_round 4 (group_sum (symbol_legs ?d) ''M6EZ5'') - py_round 4 (net_position ?d ''M6EZ5'')\<bar>"
    unfolding book broker .
  have "\<forall>sy. sy \<noteq> [] \<longrightarrow> (sy \<in> (\<lambda>e. rk_local_symbol (snd e)) ` set (open_breaks d') \<longleftrightarrow>
       BREAK_EPS < \<bar>py_round 4 (group_sum (symbol_legs ?d) sy) - py_round 4 (net_position ?d sy)\<bar>)"
    using position_breaks_exact [OF ok run] by blast
  then have "''M6EZ5'' \<in> (\<lambda>e. rk_local_symbol (snd e)) ` set (open_breaks d')" using gap by blast
  then obtain e where "e \<in> set (open_breaks d')" "''M6EZ5'' = rk_local_symbol (snd e)" by blast
  then show ?thesis unfolding run by (metis fst_conv prod.collapse)
qed

end
