(* ===== verification/Halt.thy ===== *)
theory Halt
  imports Exec_DB
begin

text \<open>
  The kill switch: the durable flag (\<open>persistence/halt.py\<close>) and its enforcement in the
  execution engine (\<open>engines/execution/halt_guard.py\<close>). The flag is one row of
  \<open>config_scalar\<close>; each flip writes a trade event. A database that cannot be read is
  the argument None. The server-side timestamp of an event is not a column of the model, so
  the state of the switch carries no time.
\<close>

section \<open>The flag\<close>

definition NAMESPACE :: string where "NAMESPACE = ''risk''"
definition NAME :: string where "NAME = ''trading_halted''"

definition is_flag :: "scalar_row \<Rightarrow> bool" where
  "is_flag r = (c_namespace r = NAMESPACE \<and> c_name r = NAME)"

text \<open>\<open>select .. limit(1)\<close>: the first row of the flag, with its key.\<close>

definition flag_row :: "db \<Rightarrow> (int \<times> scalar_row) option" where
  "flag_row d = find (\<lambda>(k, r). is_flag r) (t_scalars d)"

definition is_halted :: "db \<Rightarrow> bool" where
  "is_halted d = (case flag_row d of None \<Rightarrow> False | Some (k, r) \<Rightarrow> 1 \<le> c_value r)"

record halt_state =
  hs_halted :: bool
  hs_reason :: "string option"
  hs_set_by :: "string option"

definition payload_text :: "payload \<Rightarrow> string \<Rightarrow> string option" where
  "payload_text pl key = (case map_of pl key of Some (PStr s) \<Rightarrow> or_none s | _ \<Rightarrow> None)"

definition HALT_EVENTS :: "string list" where
  "HALT_EVENTS = [''trading_halted'', ''trading_resumed'']"

text \<open>The latest flip: highest event id first.\<close>

definition last_flip :: "db \<Rightarrow> event_row option" where
  "last_flip d =
     (case sort_key (\<lambda>e. - fst e) (twhere (\<lambda>e. ev_event_type e \<in> set HALT_EVENTS) (t_events d)) of
        [] \<Rightarrow> None | (k, e) # _ \<Rightarrow> Some e)"

definition get_halt :: "db \<Rightarrow> halt_state" where
  "get_halt d =
     (let halted = is_halted d in
      case last_flip d of
        None \<Rightarrow> \<lparr>hs_halted = halted, hs_reason = None, hs_set_by = None\<rparr>
      | Some e \<Rightarrow>
          if \<not> halted then \<lparr>hs_halted = halted, hs_reason = None, hs_set_by = None\<rparr>
          else \<lparr>hs_halted = halted, hs_reason = payload_text (ev_payload e) ''reason'',
                hs_set_by = payload_text (ev_payload e) ''by''\<rparr>)"

definition set_halt :: "time \<Rightarrow> bool \<Rightarrow> string \<Rightarrow> string \<Rightarrow> db \<Rightarrow> db \<times> halt_state" where
  "set_halt now halted reason by_whom d =
     (let v = (if halted then 1 else 0);
          scalars = (case flag_row d of
              None \<Rightarrow> tins \<lparr>c_namespace = NAMESPACE, c_name = NAME, c_value = v, c_is_active = True\<rparr> (t_scalars d)
            | Some (k, _) \<Rightarrow> tupd k (\<lambda>r. r\<lparr>c_value := v\<rparr>) (t_scalars d))
      in (add_event
            \<lparr>ev_event_type = (if halted then ''trading_halted'' else ''trading_resumed''),
             ev_severity = (if halted then Sev_error else Sev_warning),
             ev_structure_id = None, ev_order_id = None, ev_position_id = None,
             ev_payload = [(''reason'', PStr (take 300 reason)), (''by'', PStr (take 60 by_whom)), (''at'', PFlt now)]\<rparr>
            (d\<lparr>t_scalars := scalars\<rparr>),
          \<lparr>hs_halted = halted, hs_reason = Some reason, hs_set_by = Some by_whom\<rparr>))"

section \<open>The guard\<close>

definition HALTED_STATUS :: int where "HALTED_STATUS = 423"

definition check_not_halted :: "db option \<Rightarrow> unit result" where
  "check_not_halted r =
     (case r of
        None \<Rightarrow> Inl (HTTPException 503 ''halt flag unreadable'')
      | Some d \<Rightarrow> if is_halted d then Inl (HTTPException HALTED_STATUS ''trading halted'') else Inr ())"

text \<open>
  \<open>cancel_all_open\<close>: for each open trade whether the broker's cancel call succeeded, and
  whether the global cancel exists and succeeded.
\<close>

record cancel_report =
  cr_cancelled :: nat
  cr_failed :: nat
  cr_global_cancel :: int

definition cancel_all_open :: "bool list \<Rightarrow> bool option \<Rightarrow> cancel_report" where
  "cancel_all_open outcomes global =
     foldl (\<lambda>r ok. if ok then r\<lparr>cr_cancelled := Suc (cr_cancelled r)\<rparr> else r\<lparr>cr_failed := Suc (cr_failed r)\<rparr>)
       \<lparr>cr_cancelled = 0, cr_failed = 0, cr_global_cancel = (if global = Some True then 1 else 0)\<rparr> outcomes"

section \<open>Facts\<close>

lemma find_append: "find P (xs @ ys) = (case find P xs of None \<Rightarrow> find P ys | Some x \<Rightarrow> Some x)"
  by (induction xs) auto

lemma flag_row_set:
  "flag_row (fst (set_halt now h reason w d)) =
     (case flag_row d of
        None \<Rightarrow> Some (next_id (t_scalars d),
           \<lparr>c_namespace = NAMESPACE, c_name = NAME, c_value = (if h then 1 else 0), c_is_active = True\<rparr>)
      | Some (k, r) \<Rightarrow> Some (k, r\<lparr>c_value := (if h then 1 else 0)\<rparr>))"
proof (cases "flag_row d")
  case None
  then show ?thesis
    by (simp add: set_halt_def Let_def flag_row_def tins_def find_append is_flag_def)
next
  case (Some e)
  obtain k r where e: "e = (k, r)" by (rule prod.exhaust)
  let ?f = "\<lambda>r. r\<lparr>c_value := (if h then 1 else 0)\<rparr>"
  have "find (\<lambda>(k, r). is_flag r) t = Some (k, r) \<Longrightarrow>
      find (\<lambda>(k, r). is_flag r) (tupd k ?f t) = Some (k, ?f r)" for t
    by (induction t) (auto simp: tupd_def is_flag_def split: if_splits)
  with Some e show ?thesis
    by (simp add: set_halt_def Let_def flag_row_def)
qed

lemma is_halted_set [simp]: "is_halted (fst (set_halt now h reason w d)) = h"
  by (simp add: is_halted_def flag_row_set split: option.splits)

lemma sort_key_max_first:
  assumes "\<And>x. x \<in> set xs \<Longrightarrow> f e < (f x :: int)"
  shows "\<exists>ys. sort_key f (xs @ [e]) = e # ys"
proof (cases "sort_key f (xs @ [e])")
  case Nil
  then have "set (sort_key f (xs @ [e])) = {}" by simp
  then show ?thesis by simp
next
  case (Cons y ys)
  have "sorted (map f (sort_key f (xs @ [e])))" by simp
  then have min: "\<forall>z \<in> set ys. f y \<le> f z" unfolding Cons by simp
  have "set (y # ys) = insert e (set xs)" using Cons set_sort [of f "xs @ [e]"] by simp
  then have "e \<in> set (y # ys)" and y: "y = e \<or> y \<in> set xs" by auto
  have "y = e"
  proof (rule ccontr)
    assume "y \<noteq> e"
    with y \<open>e \<in> set (y # ys)\<close> have "f e < f y" "e \<in> set ys" using assms by auto
    with min show False by fastforce
  qed
  with Cons show ?thesis by simp
qed

lemma last_flip_set: "\<exists>e. last_flip (fst (set_halt now h reason w d)) = Some e \<and>
   ev_payload e = [(''reason'', PStr (take 300 reason)), (''by'', PStr (take 60 w)), (''at'', PFlt now)]"
proof -
  let ?e = "\<lparr>ev_event_type = (if h then ''trading_halted'' else ''trading_resumed''),
             ev_severity = (if h then Sev_error else Sev_warning),
             ev_structure_id = None, ev_order_id = None, ev_position_id = None,
             ev_payload = [(''reason'', PStr (take 300 reason)), (''by'', PStr (take 60 w)), (''at'', PFlt now)]\<rparr>"
  let ?P = "\<lambda>e. ev_event_type e \<in> set HALT_EVENTS"
  have ev: "t_events (fst (set_halt now h reason w d)) = tins ?e (t_events d)"
    by (simp add: set_halt_def Let_def)
  have wh: "twhere ?P (tins ?e (t_events d)) = twhere ?P (t_events d) @ [(next_id (t_events d), ?e)]"
    by (simp add: twhere_tins HALT_EVENTS_def)
  have "- fst (next_id (t_events d), ?e) < - fst x" if x: "x \<in> set (twhere ?P (t_events d))" for x
  proof -
    obtain k r where "x = (k, r)" by (rule prod.exhaust)
    with x have "(k, r) \<in> set (t_events d)" by simp
    from next_id_gt [OF this] \<open>x = (k, r)\<close> show ?thesis by simp
  qed
  then obtain ys where
    "sort_key (\<lambda>e. - fst e) (twhere ?P (t_events d) @ [(next_id (t_events d), ?e)]) = (next_id (t_events d), ?e) # ys"
    using sort_key_max_first [of "twhere ?P (t_events d)" "\<lambda>e. - fst e" "(next_id (t_events d), ?e)"] by blast
  then have
    "sort_key (\<lambda>e. - fst e) (twhere ?P (t_events (fst (set_halt now h reason w d)))) = (next_id (t_events d), ?e) # ys"
    unfolding ev wh .
  then show ?thesis by (simp add: last_flip_def)
qed

section \<open>Properties\<close>

text \<open>What the engine does between two looks at the flag: flips and anything else.\<close>

datatype halt_op = Flip time bool string string | Other "db \<Rightarrow> db"

fun halt_run :: "halt_op \<Rightarrow> db \<Rightarrow> db" where
  "halt_run (Flip now h reason w) d = fst (set_halt now h reason w d)"
| "halt_run (Other f) d = f d"

fun flag_after :: "bool \<Rightarrow> halt_op list \<Rightarrow> bool" where
  "flag_after b [] = b"
| "flag_after b (Flip now h reason w # ops) = flag_after h ops"
| "flag_after b (Other f # ops) = flag_after b ops"

lemma halted_run:
  "\<forall>f d. Other f \<in> set ops \<longrightarrow> flag_row (f d) = flag_row d \<Longrightarrow>
     is_halted (foldl (\<lambda>d p. halt_run p d) d ops) = flag_after (is_halted d) ops"
proof (induction ops arbitrary: d)
  case Nil
  then show ?case by simp
next
  case (Cons p ops)
  show ?case
  proof (cases p)
    case (Flip now h reason w)
    with Cons show ?thesis by simp
  next
    case (Other f)
    then have "is_halted (f d) = is_halted d" using Cons.prems by (simp add: is_halted_def)
    with Cons Other show ?thesis by simp
  qed
qed

text \<open>
  The kill switch latches: whatever else happens to the database without touching the
  flag's row, placing is refused with status 423 exactly when the last flip was a halt;
  right after a halt the switch reports its reason and author; and an unreadable flag
  refuses with 503.
\<close>

theorem kill_switch_latches:
  assumes "\<forall>f d. Other f \<in> set ops \<longrightarrow> flag_row (f d) = flag_row d"
  shows "check_not_halted (Some (foldl (\<lambda>d p. halt_run p d) d ops)) =
      (if flag_after (is_halted d) ops then Inl (HTTPException HALTED_STATUS ''trading halted'') else Inr ()) \<and>
    check_not_halted None = Inl (HTTPException 503 ''halt flag unreadable'') \<and>
    get_halt (fst (set_halt now True reason w d)) =
      \<lparr>hs_halted = True, hs_reason = or_none (take 300 reason), hs_set_by = or_none (take 60 w)\<rparr>"
proof -
  obtain e where "last_flip (fst (set_halt now True reason w d)) = Some e"
    "ev_payload e = [(''reason'', PStr (take 300 reason)), (''by'', PStr (take 60 w)), (''at'', PFlt now)]"
    using last_flip_set by blast
  then have "get_halt (fst (set_halt now True reason w d)) =
      \<lparr>hs_halted = True, hs_reason = or_none (take 300 reason), hs_set_by = or_none (take 60 w)\<rparr>"
    by (simp add: get_halt_def payload_text_def)
  with halted_run [OF assms, of d] show ?thesis by (simp add: check_not_halted_def)
qed

definition quiet_event :: event_row where
  "quiet_event = \<lparr>ev_event_type = ''order_filled'', ev_severity = Sev_info, ev_structure_id = None,
     ev_order_id = Some 1, ev_position_id = None, ev_payload = []\<rparr>"

theorem kill_switch_latches_witness:
  "check_not_halted (Some (foldl (\<lambda>d p. halt_run p d) empty_db
      [Flip 1 True ''margin'' ''trader'', Other (add_event quiet_event), Flip 2 False ''ok'' ''trader'',
       Flip 3 True ''again'' ''trader'']))
     = Inl (HTTPException HALTED_STATUS ''trading halted'')"
proof -
  let ?ops = "[Flip 1 True ''margin'' ''trader'', Other (add_event quiet_event), Flip 2 False ''ok'' ''trader'',
       Flip 3 True ''again'' ''trader'']"
  have "\<forall>f d. Other f \<in> set ?ops \<longrightarrow> flag_row (f d) = flag_row d"
    by (simp add: flag_row_def)
  from kill_switch_latches [OF this, of empty_db] show ?thesis by simp
qed

end
