(* ===== verification/Shared_Utils.thy ===== *)
theory Shared_Utils
  imports Prelude
begin

text \<open>
  The helpers every engine gates its loops with: the FX market hours
  (\<open>shared/market_hours.py\<close>) and the reconnect schedule (\<open>shared/backoff.py\<close>). A UTC
  datetime is its second count since 1970-01-01, a Thursday.
\<close>

section \<open>Market hours\<close>

definition day_of :: "time \<Rightarrow> int" where
  "day_of t = \<lfloor>t\<rfloor> div 86400"

text \<open>\<open>weekday()\<close>: Monday is 0.\<close>

definition weekday :: "time \<Rightarrow> int" where
  "weekday t = (day_of t + 3) mod 7"

definition hour :: "time \<Rightarrow> int" where
  "hour t = \<lfloor>t\<rfloor> div 3600 mod 24"

definition is_fx_market_open :: "time \<Rightarrow> bool" where
  "is_fx_market_open t =
     (let dow = weekday t; h = hour t in
      if dow = 5 then False
      else if dow = 6 then 22 \<le> h
      else if dow = 4 then h < 22
      else True)"

definition market_gate_active :: "string option \<Rightarrow> bool" where
  "market_gate_active force = (case force of None \<Rightarrow> True | Some v \<Rightarrow> v \<notin> {''1'', ''true'', ''True''})"

text \<open>Seconds since the last Sunday 22:00, within the week.\<close>

definition week_second :: "time \<Rightarrow> int" where
  "week_second t = (\<lfloor>t\<rfloor> - 338400) mod 604800"

lemma clock_parts:
  obtains w dow h r where "\<lfloor>t\<rfloor> = 604800 * w + 86400 * dow + 3600 * h + r"
    "0 \<le> dow" "dow < 7" "0 \<le> h" "h < 24" "0 \<le> r" "r < 3600"
proof -
  define n where "n = \<lfloor>t\<rfloor>"
  define w where "w = n div 604800"
  define m where "m = n mod 604800"
  define dow where "dow = m div 86400"
  define k where "k = m mod 86400"
  have n: "n = 604800 * w + m" "0 \<le> m" "m < 604800"
    unfolding w_def m_def by (simp_all add: pos_mod_bound)
  have m: "m = 86400 * dow + k" "0 \<le> k" "k < 86400"
    unfolding dow_def k_def by (simp_all add: pos_mod_bound)
  have k: "k = 3600 * (k div 3600) + k mod 3600" by simp
  show ?thesis
  proof (rule that [of w dow "k div 3600" "k mod 3600"])
    show "\<lfloor>t\<rfloor> = 604800 * w + 86400 * dow + 3600 * (k div 3600) + k mod 3600"
      using n m k unfolding n_def by linarith
    show "0 \<le> dow" "dow < 7" using n m by linarith+
    show "0 \<le> k div 3600" using m by (simp add: pos_imp_zdiv_nonneg_iff)
    show "k mod 3600 < 3600" "0 \<le> k mod 3600" by simp_all
    show "k div 3600 < 24" using m k \<open>0 \<le> k mod 3600\<close> by linarith
  qed
qed

text \<open>
  The market is open exactly during the first 120 of the 168 hours that follow each
  Sunday 22:00 UTC, every week; so it is closed for 48 hours from each Friday 22:00.
\<close>

theorem market_hours_weekly:
  "is_fx_market_open t \<longleftrightarrow> week_second t < 5 * 86400"
proof -
  obtain w dow h r where t: "\<lfloor>t\<rfloor> = 604800 * w + 86400 * dow + 3600 * h + r"
    and b: "0 \<le> dow" "dow < 7" "0 \<le> h" "h < 24" "0 \<le> r" "r < 3600"
    by (rule clock_parts)
  have day: "\<lfloor>t\<rfloor> div 86400 = 7 * w + dow"
    unfolding t using b by (intro int_div_pos_eq [of _ _ _ "3600 * h + r"]) auto
  have "\<lfloor>t\<rfloor> div 3600 = 24 * (7 * w + dow) + h"
    unfolding t using b by (intro int_div_pos_eq [of _ _ _ r]) auto
  then have "hour t = (24 * (7 * w + dow) + h) mod 24" by (simp add: hour_def)
  also have "\<dots> = h mod 24" by (simp only: add.commute [of _ h] mod_mult_self2)
  also have "\<dots> = h" using b by simp
  finally have hr: "hour t = h" .
  have wd: "weekday t = (dow + 3) mod 7"
    using mod_mult_self2 [of "dow + 3" 7 w] unfolding weekday_def day_of_def day by (simp add: algebra_simps)
  let ?v = "86400 * dow + 3600 * h + r - 338400"
  have "week_second t = ?v mod 604800"
    using mod_mult_self2 [of ?v 604800 w]
    unfolding week_second_def t by (simp add: algebra_simps)
  also have "\<dots> = (if ?v < 0 then ?v + 604800 else ?v)"
  proof (cases "?v < 0")
    case True
    have "?v mod 604800 = (?v + 604800) mod 604800" by (simp only: mod_add_self2)
    also have "\<dots> = ?v + 604800" using True b by (intro mod_pos_pos_trivial) linarith+
    finally show ?thesis using True by simp
  next
    case False
    with b show ?thesis by (simp add: mod_pos_pos_trivial)
  qed
  finally have ws: "week_second t = (if ?v < 0 then ?v + 604800 else ?v)" .
  have "dow \<in> {0, 1, 2, 3, 4, 5, 6}" using b by auto
  then show ?thesis
    unfolding is_fx_market_open_def Let_def wd hr ws using b
    by (cases "h < 22") (elim insertE emptyE; simp; linarith?)+
qed

section \<open>Backoff\<close>

definition MIN_BACKOFF_S :: flt where "MIN_BACKOFF_S = 1"
definition MAX_BACKOFF_S :: flt where "MAX_BACKOFF_S = 60"

text \<open>\<open>1.0 * 2 ** attempt\<close> converts the integer to a float, which has no value from \<open>2^1024\<close> on.\<close>

definition next_backoff_seconds :: "int \<Rightarrow> flt result" where
  "next_backoff_seconds attempt =
     (if attempt < 0 then Inr MIN_BACKOFF_S
      else if 1024 \<le> attempt then Inl OverflowError
      else Inr (min (MIN_BACKOFF_S * 2 ^ nat attempt) MAX_BACKOFF_S))"

text \<open>
  The reconnect schedule: up to attempt 1023 the wait is between the minimum and the
  maximum, never shorter than the wait before it, doubled while below the maximum and at
  the maximum from the sixth retry on; from attempt 1024 on the function raises instead of
  returning the maximum.
\<close>

theorem backoff_schedule:
  assumes "n < 1024"
  shows "\<exists>s. next_backoff_seconds n = Inr s \<and> MIN_BACKOFF_S \<le> s \<and> s \<le> MAX_BACKOFF_S \<and>
    (\<forall>m s'. m \<le> n \<longrightarrow> next_backoff_seconds m = Inr s' \<longrightarrow> s' \<le> s) \<and>
    (0 \<le> n \<longrightarrow> (n < 6 \<longrightarrow> s = 2 ^ nat n) \<and> (6 \<le> n \<longrightarrow> s = MAX_BACKOFF_S)) \<and>
    (0 \<le> n \<longrightarrow> next_backoff_seconds (n + 1024) = Inl OverflowError)"
proof (cases "n < 0")
  case True
  then show ?thesis by (simp add: next_backoff_seconds_def MIN_BACKOFF_S_def MAX_BACKOFF_S_def)
next
  case False
  let ?s = "min (MIN_BACKOFF_S * 2 ^ nat n) MAX_BACKOFF_S"
  have one: "1 \<le> (2 :: real) ^ k" for k by simp
  have mono: "(2 :: real) ^ nat m \<le> 2 ^ nat n" if "m \<le> n" for m
    using that by (intro power_increasing) auto
  have "?s = MAX_BACKOFF_S" if "6 \<le> n"
  proof -
    have "(2 :: real) ^ 6 \<le> 2 ^ nat n" using that by (intro power_increasing) auto
    then show ?thesis by (simp add: MIN_BACKOFF_S_def MAX_BACKOFF_S_def)
  qed
  moreover have "?s = 2 ^ nat n" if "n < 6"
  proof -
    have "(2 :: real) ^ nat n \<le> 2 ^ 5" using that False by (intro power_increasing) auto
    then show ?thesis by (simp add: MIN_BACKOFF_S_def MAX_BACKOFF_S_def)
  qed
  moreover have "s' \<le> ?s" if "m \<le> n" "next_backoff_seconds m = Inr s'" for m s'
  proof (cases "m < 0")
    case True
    with that one [of "nat n"] show ?thesis
      by (simp add: next_backoff_seconds_def MIN_BACKOFF_S_def MAX_BACKOFF_S_def)
  next
    case pos: False
    with that assms have "s' = min (MIN_BACKOFF_S * 2 ^ nat m) MAX_BACKOFF_S"
      by (simp add: next_backoff_seconds_def)
    moreover have "MIN_BACKOFF_S * 2 ^ nat m \<le> MIN_BACKOFF_S * 2 ^ nat n"
      using mono [OF that(1)] unfolding MIN_BACKOFF_S_def mult_1 .
    ultimately show ?thesis by (simp only: min.mono order_refl)
  qed
  ultimately show ?thesis
    using False assms one [of "nat n"]
    by (intro exI [of _ ?s]) (auto simp: next_backoff_seconds_def MIN_BACKOFF_S_def MAX_BACKOFF_S_def)
qed

theorem backoff_schedule_witness:
  "next_backoff_seconds 3 = Inr 8 \<and> next_backoff_seconds 1027 = Inl OverflowError"
proof -
  have "(3 :: int) < 1024" by simp
  from backoff_schedule [OF this] show ?thesis by force
qed

end
