(* ===== verification/Delta_Hedge.thy ===== *)
theory Delta_Hedge
  imports Prelude
begin

text \<open>
  The delta-hedge decision (\<open>core/positions/delta_hedge.py\<close>). A delta that could not be
  computed (None or NaN in the code) is None.
\<close>

record hedge_decision =
  hd_needs_hedge :: bool
  hd_hedge_qty :: int
  hd_side :: string
  hd_delta_imbalance :: flt
  hd_threshold_used :: flt
  hd_skip_reason :: "string option"
  hd_residual :: flt

definition skip_hedge :: "flt \<Rightarrow> flt \<Rightarrow> string \<Rightarrow> hedge_decision" where
  "skip_hedge imbalance threshold reason =
     \<lparr>hd_needs_hedge = False, hd_hedge_qty = 0, hd_side = [], hd_delta_imbalance = imbalance,
      hd_threshold_used = threshold, hd_skip_reason = Some reason, hd_residual = 0\<rparr>"

definition hedge_delta :: "string \<times> int \<Rightarrow> flt" where
  "hedge_delta p = (if py_upper (fst p) = BUY then of_int (snd p) else - of_int (snd p))"

definition net_pending_hedge_delta :: "flt option \<Rightarrow> (string \<times> int) list \<Rightarrow> flt option" where
  "net_pending_hedge_delta delta_unhedged pending =
     (case delta_unhedged of None \<Rightarrow> None
      | Some dl \<Rightarrow> Some (dl + foldl (\<lambda>acc p. acc + hedge_delta p) 0 pending))"

definition in_cooldown :: "time option \<Rightarrow> time option \<Rightarrow> flt \<Rightarrow> bool" where
  "in_cooldown last_hedge_at now cooldown_seconds =
     (case (last_hedge_at, now) of
        (Some l, Some n) \<Rightarrow> 0 < cooldown_seconds \<and> n - l < cooldown_seconds
      | _ \<Rightarrow> False)"

definition check_delta_hedge_needed ::
  "flt option \<Rightarrow> flt \<Rightarrow> int \<Rightarrow> time option \<Rightarrow> time option \<Rightarrow> flt \<Rightarrow> hedge_decision" where
  "check_delta_hedge_needed delta_unhedged threshold min_hedge_qty last_hedge_at now cooldown_seconds =
     (case delta_unhedged of
        None \<Rightarrow> skip_hedge 0 threshold ''no_delta_available''
      | Some dl \<Rightarrow>
          if \<bar>dl\<bar> < threshold then skip_hedge dl threshold ''below_threshold''
          else if in_cooldown last_hedge_at now cooldown_seconds then skip_hedge dl threshold ''cooldown''
          else
            let qty_signed = round_half_even dl; qty_abs = \<bar>qty_signed\<bar> in
            if qty_abs < min_hedge_qty then skip_hedge dl threshold ''rounded_to_zero''
            else \<lparr>hd_needs_hedge = True, hd_hedge_qty = qty_abs, hd_side = (if 0 < dl then SELL else BUY),
                  hd_delta_imbalance = dl, hd_threshold_used = threshold, hd_skip_reason = None,
                  hd_residual = dl + of_int (- qty_signed)\<rparr>)"

section \<open>Facts\<close>

lemma skip_hedge_sel [simp]:
  "hd_needs_hedge (skip_hedge i t r) = False" "hd_skip_reason (skip_hedge i t r) = Some r"
  by (simp_all add: skip_hedge_def)

lemma hedge_fires:
  "hd_needs_hedge (check_delta_hedge_needed dl threshold m prev now cd) \<longleftrightarrow>
     (\<exists>x. dl = Some x \<and> threshold \<le> \<bar>x\<bar> \<and> \<not> in_cooldown prev now cd \<and> m \<le> \<bar>round_half_even x\<bar>)"
  by (auto simp: check_delta_hedge_needed_def Let_def split: option.splits)

lemma round_small: "\<bar>x\<bar> \<le> 1/2 \<Longrightarrow> round_half_even x = 0"
proof -
  assume x: "\<bar>x\<bar> \<le> 1/2"
  show ?thesis
  proof (cases "0 \<le> x")
    case True
    with x have "\<lfloor>x\<rfloor> = 0" by linarith
    with x True show ?thesis by (simp add: round_half_even_def)
  next
    case False
    with x have "\<lfloor>x\<rfloor> = -1" by linarith
    with x False show ?thesis by (auto simp: round_half_even_def Let_def)
  qed
qed

lemma round_sign:
  "0 < round_half_even x \<Longrightarrow> 0 < x" "round_half_even x < 0 \<Longrightarrow> x < 0"
  using round_half_even_nonpos [of x] round_half_even_nonneg [of x] by linarith+

text \<open>What is left of a delta once the hedge it asked for is netted.\<close>

lemma hedge_leaves_half:
  assumes "1 \<le> min_qty" and "hd_needs_hedge (check_delta_hedge_needed (Some x) threshold min_qty prev now cooldown)"
  defines "h \<equiv> check_delta_hedge_needed (Some x) threshold min_qty prev now cooldown"
  shows "hd_residual h = x + hedge_delta (hd_side h, hd_hedge_qty h)" "\<bar>hd_residual h\<bar> \<le> 1/2" "\<bar>hd_residual h\<bar> < \<bar>x\<bar>"
    "round_half_even (hd_residual h) = 0" "hd_side h = (if 0 < x then SELL else BUY)" "min_qty \<le> hd_hedge_qty h"
proof -
  let ?q = "round_half_even x"
  from assms(2) have fires: "threshold \<le> \<bar>x\<bar>" "\<not> in_cooldown prev now cooldown" "min_qty \<le> \<bar>?q\<bar>"
    unfolding hedge_fires by auto
  then have h: "h = \<lparr>hd_needs_hedge = True, hd_hedge_qty = \<bar>?q\<bar>, hd_side = (if 0 < x then SELL else BUY),
      hd_delta_imbalance = x, hd_threshold_used = threshold, hd_skip_reason = None,
      hd_residual = x + of_int (- ?q)\<rparr>"
    by (simp add: h_def check_delta_hedge_needed_def Let_def)
  have close: "\<bar>x - of_int ?q\<bar> \<le> 1/2" using round_half_even_close [of x] by linarith
  have big: "\<not> \<bar>x\<bar> \<le> 1/2"
  proof
    assume "\<bar>x\<bar> \<le> 1/2"
    then have "?q = 0" by (rule round_small)
    with fires(3) assms(1) show False by simp
  qed
  show "hd_residual h = x + hedge_delta (hd_side h, hd_hedge_qty h)"
  proof (cases "0 < x")
    case True
    then have "\<bar>?q\<bar> = ?q" using round_sign(2) [of x] by linarith
    with True show ?thesis by (simp add: h hedge_delta_def)
  next
    case False
    then have "\<bar>?q\<bar> = - ?q" using round_sign(1) [of x] by linarith
    with False show ?thesis by (simp add: h hedge_delta_def)
  qed
  show "\<bar>hd_residual h\<bar> \<le> 1/2" using close by (simp add: h)
  show "\<bar>hd_residual h\<bar> < \<bar>x\<bar>" using close big by (simp add: h)
  show "round_half_even (hd_residual h) = 0" using round_small [OF close] by (simp add: h)
  show "hd_side h = (if 0 < x then SELL else BUY)" "min_qty \<le> hd_hedge_qty h" using fires(3) by (simp_all add: h)
qed

section \<open>Properties\<close>

text \<open>
  A hedge settles the imbalance it was computed from: it fires only on a known delta at
  or beyond the threshold and outside the cooldown, trades a positive whole number of
  contracts against the imbalance, and leaves a residual of at most half a contract that
  is strictly smaller than the imbalance; once it is in flight the netted delta is that
  residual, and no later evaluation of it, whatever the threshold, fires a second hedge.
\<close>

theorem hedge_settles:
  assumes "1 \<le> min_qty"
    and "h = check_delta_hedge_needed (Some dl) threshold min_qty prev now cooldown"
    and "hd_needs_hedge h"
  shows "threshold \<le> \<bar>dl\<bar> \<and> \<not> in_cooldown prev now cooldown \<and> min_qty \<le> hd_hedge_qty h \<and>
    hd_side h = (if 0 < dl then SELL else BUY) \<and>
    \<bar>hd_residual h\<bar> \<le> 1/2 \<and> \<bar>hd_residual h\<bar> < \<bar>dl\<bar> \<and>
    net_pending_hedge_delta (Some dl) [(hd_side h, hd_hedge_qty h)] = Some (hd_residual h) \<and>
    (\<forall>threshold' prev' now' cooldown'. \<not> hd_needs_hedge
       (check_delta_hedge_needed (net_pending_hedge_delta (Some dl) [(hd_side h, hd_hedge_qty h)])
          threshold' min_qty prev' now' cooldown'))"
proof -
  note fires = assms(3) [unfolded assms(2)]
  note left = hedge_leaves_half [OF assms(1) fires, folded assms(2)]
  have net: "net_pending_hedge_delta (Some dl) [(hd_side h, hd_hedge_qty h)] = Some (hd_residual h)"
    using left(1) by (simp add: net_pending_hedge_delta_def)
  have "threshold \<le> \<bar>dl\<bar>" "\<not> in_cooldown prev now cooldown" using fires unfolding hedge_fires by auto
  with left(2-6) net assms(1) show ?thesis by (simp add: hedge_fires)
qed

theorem hedge_settles_witness:
  "hd_side (check_delta_hedge_needed (Some (27/10)) (1/20) 1 None None 300) = SELL \<and>
   \<not> hd_needs_hedge (check_delta_hedge_needed (net_pending_hedge_delta (Some (27/10)) [(SELL, 3)]) (1/20) 1 None None 300)"
proof -
  let ?h = "check_delta_hedge_needed (Some (27/10)) (1/20) 1 None None 300"
  have "\<lfloor>27/10 :: real\<rfloor> = 2" by (simp add: floor_eq_iff)
  then have r: "round_half_even (27/10) = 3" by (simp add: round_half_even_def)
  have fires: "hd_needs_hedge ?h"
    unfolding hedge_fires by (rule exI [of _ "27/10"]) (simp add: in_cooldown_def r)
  have "hd_hedge_qty ?h = 3" by (simp add: check_delta_hedge_needed_def in_cooldown_def r)
  moreover have "hd_side ?h = SELL" using hedge_settles [OF order_refl refl fires] by simp
  moreover have "\<not> hd_needs_hedge (check_delta_hedge_needed
      (net_pending_hedge_delta (Some (27/10)) [(hd_side ?h, hd_hedge_qty ?h)]) (1/20) 1 None None 300)"
    using hedge_settles [OF order_refl refl fires] by blast
  ultimately show ?thesis by simp
qed

end
