(* ===== verification/Exit_Rules.thy ===== *)
theory Exit_Rules
  imports Prelude
begin

text \<open>
  The exit rules of an open position (\<open>core/positions/exit_rules.py\<close>): the five rules with
  their parameters, the evaluation of a rule list and the choice of the winner. A rule
  class is a constructor of \<open>exit_rule\<close> that carries the fields its \<open>__init__\<close> sets; the
  \<open>detail\<close> dictionary is a payload.
\<close>

section \<open>Data\<close>

record position_context =
  pc_position_id :: int
  pc_triggering_pc :: "int option"
  pc_entry_z_score :: "flt option"
  pc_entry_vega :: flt
  pc_dte_at_entry :: int
  pc_days_remaining :: int

record current_signal =
  cs_pc_id :: int
  cs_z_score :: flt
  cs_label :: string

datatype exit_action = EXIT | TRIM | ALERT_ONLY

record exit_decision =
  ed_triggered :: bool
  ed_rule_name :: string
  ed_action :: "exit_action option"
  ed_priority :: int
  ed_detail :: payload

definition no_exit :: exit_decision where
  "no_exit = \<lparr>ed_triggered = False, ed_rule_name = [], ed_action = None, ed_priority = 0, ed_detail = []\<rparr>"

definition exit_on :: "string \<Rightarrow> exit_action \<Rightarrow> int \<Rightarrow> payload \<Rightarrow> exit_decision" where
  "exit_on nm act pr dt =
     \<lparr>ed_triggered = True, ed_rule_name = nm, ed_action = Some act, ed_priority = pr, ed_detail = dt\<rparr>"

section \<open>The rules\<close>

definition signal_reverse :: "flt \<Rightarrow> bool \<Rightarrow> position_context \<Rightarrow> (int \<times> current_signal) list \<Rightarrow> exit_decision" where
  "signal_reverse weak_threshold trims ctx signals =
     (case (pc_triggering_pc ctx, pc_entry_z_score ctx) of
        (Some pc, Some ez) \<Rightarrow>
          (case map_of signals pc of
             None \<Rightarrow> no_exit
           | Some cur \<Rightarrow>
               let cz = cs_z_score cur;
                   flipped = ((0 < ez) \<noteq> (0 < cz));
                   too_weak = (\<bar>cz\<bar> < weak_threshold)
               in if flipped \<or> too_weak
                  then exit_on ''signal_reverse'' EXIT 4
                         [(''entry_z'', PFlt ez), (''current_z'', PFlt cz),
                          (''reason_subtype'', PStr (if flipped then ''flipped'' else ''weakened''))]
                  else if trims \<and> 1 / 10 ^ 9 < \<bar>ez\<bar> \<and> \<bar>cz\<bar> / \<bar>ez\<bar> < 1/2
                  then exit_on ''signal_reverse'' TRIM 3
                         [(''weakening_ratio'', PFlt (\<bar>cz\<bar> / \<bar>ez\<bar>)), (''entry_z'', PFlt ez), (''current_z'', PFlt cz)]
                  else no_exit)
      | _ \<Rightarrow> no_exit)"

definition time_based :: "flt \<Rightarrow> position_context \<Rightarrow> exit_decision" where
  "time_based threshold ctx =
     (if pc_dte_at_entry ctx \<le> 0 then no_exit
      else let ratio = of_int (pc_days_remaining ctx) / of_int (pc_dte_at_entry ctx) in
        if ratio < threshold
        then exit_on ''time_based'' EXIT 2
               [(''days_remaining'', PInt (pc_days_remaining ctx)), (''days_at_entry'', PInt (pc_dte_at_entry ctx)),
                (''ratio'', PFlt (py_round 3 ratio))]
        else no_exit)"

definition stop_loss_vega :: "flt \<Rightarrow> position_context \<Rightarrow> flt \<Rightarrow> exit_decision" where
  "stop_loss_vega loss_units ctx pnl =
     (let vega_abs = \<bar>pc_entry_vega ctx\<bar> in
      if vega_abs \<le> 0 then no_exit
      else let threshold = - loss_units * vega_abs in
        if pnl < threshold
        then exit_on ''stop_loss_vega'' EXIT 3
               [(''current_pnl_usd'', PFlt pnl), (''loss_threshold_usd'', PFlt threshold),
                (''implied_iv_move_volpts'',
                   if pc_entry_vega ctx \<noteq> 0 then PFlt (pnl / pc_entry_vega ctx) else PNone)]
        else no_exit)"

definition time_to_expiry_critical :: "int \<Rightarrow> position_context \<Rightarrow> exit_decision" where
  "time_to_expiry_critical min_days ctx =
     (if pc_days_remaining ctx < min_days
      then exit_on ''time_to_expiry_critical'' EXIT 5
             [(''days_remaining'', PInt (pc_days_remaining ctx)), (''limit'', PInt min_days)]
      else no_exit)"

definition pre_event_regime :: "string list \<Rightarrow> string option \<Rightarrow> exit_decision" where
  "pre_event_regime trigger_regimes regime =
     (case regime of
        None \<Rightarrow> no_exit
      | Some g \<Rightarrow> if g \<in> set trigger_regimes
                  then exit_on ''pre_event_regime'' EXIT 6 [(''regime'', PStr g)] else no_exit)"

datatype exit_rule =
    SignalReverseRule flt bool
  | TimeBasedRule flt
  | StopLossVegaRule flt
  | TimeToExpiryCriticalRule int
  | PreEventRegimeRule "string list"

fun evaluate ::
  "exit_rule \<Rightarrow> position_context \<Rightarrow> flt \<Rightarrow> (int \<times> current_signal) list \<Rightarrow> string option \<Rightarrow> exit_decision" where
  "evaluate (SignalReverseRule w t) ctx pnl signals regime = signal_reverse w t ctx signals"
| "evaluate (TimeBasedRule r) ctx pnl signals regime = time_based r ctx"
| "evaluate (StopLossVegaRule u) ctx pnl signals regime = stop_loss_vega u ctx pnl"
| "evaluate (TimeToExpiryCriticalRule n) ctx pnl signals regime = time_to_expiry_critical n ctx"
| "evaluate (PreEventRegimeRule gs) ctx pnl signals regime = pre_event_regime gs regime"

definition EXIT_RULES :: "exit_rule list" where
  "EXIT_RULES = [SignalReverseRule (1/2) True, TimeBasedRule (3/10), StopLossVegaRule 3,
     TimeToExpiryCriticalRule 7, PreEventRegimeRule [''pre_event'']]"

definition evaluate_all_rules ::
  "exit_rule list \<Rightarrow> position_context \<Rightarrow> flt \<Rightarrow> (int \<times> current_signal) list \<Rightarrow> string option \<Rightarrow> exit_decision list" where
  "evaluate_all_rules rules ctx pnl signals regime =
     filter ed_triggered (map (\<lambda>r. evaluate r ctx pnl signals regime) rules)"

text \<open>\<open>max(.., key=priority)\<close>: the first of the highest.\<close>

fun first_max :: "exit_decision \<Rightarrow> exit_decision list \<Rightarrow> exit_decision" where
  "first_max b [] = b"
| "first_max b (d # ds) = first_max (if ed_priority b < ed_priority d then d else b) ds"

definition pick_winning_decision :: "exit_decision list \<Rightarrow> exit_decision option" where
  "pick_winning_decision ds =
     (case filter ed_triggered ds of [] \<Rightarrow> None | d # rest \<Rightarrow> Some (first_max d rest))"

section \<open>Facts\<close>

lemma exit_sel [simp]:
  "ed_triggered (exit_on nm act pr dt)" "\<not> ed_triggered no_exit"
  "ed_priority (exit_on nm act pr dt) = pr" "ed_action (exit_on nm act pr dt) = Some act"
  "ed_rule_name (exit_on nm act pr dt) = nm"
  by (simp_all add: exit_on_def no_exit_def)

lemma first_max_in: "first_max b ds \<in> set (b # ds)"
proof (induction ds arbitrary: b)
  case Nil
  then show ?case by simp
next
  case (Cons d ds)
  show ?case using Cons.IH [of "if ed_priority b < ed_priority d then d else b"] by auto
qed

lemma first_max_ge: "x \<in> set (b # ds) \<Longrightarrow> ed_priority x \<le> ed_priority (first_max b ds)"
proof (induction ds arbitrary: b x)
  case Nil
  then show ?case by simp
next
  case (Cons d ds)
  let ?m = "if ed_priority b < ed_priority d then d else b"
  have "ed_priority ?m \<le> ed_priority (first_max ?m ds)" by (rule Cons.IH) simp
  moreover have "y \<in> set ds \<Longrightarrow> ed_priority y \<le> ed_priority (first_max ?m ds)" for y
    by (rule Cons.IH) simp
  ultimately show ?case using Cons.prems by (auto split: if_splits)
qed

text \<open>What each rule decides, as a condition.\<close>

definition signal_lost :: "position_context \<Rightarrow> (int \<times> current_signal) list \<Rightarrow> bool" where
  "signal_lost ctx signals =
     (case (pc_triggering_pc ctx, pc_entry_z_score ctx) of
        (Some pc, Some ez) \<Rightarrow>
          (case map_of signals pc of None \<Rightarrow> False
           | Some cur \<Rightarrow> ((0 < ez) \<noteq> (0 < cs_z_score cur)) \<or> \<bar>cs_z_score cur\<bar> < 1/2)
      | _ \<Rightarrow> False)"

definition signal_halved :: "position_context \<Rightarrow> (int \<times> current_signal) list \<Rightarrow> bool" where
  "signal_halved ctx signals =
     (case (pc_triggering_pc ctx, pc_entry_z_score ctx) of
        (Some pc, Some ez) \<Rightarrow>
          (case map_of signals pc of None \<Rightarrow> False
           | Some cur \<Rightarrow> 1 / 10 ^ 9 < \<bar>ez\<bar> \<and> 2 * \<bar>cs_z_score cur\<bar> < \<bar>ez\<bar>)
      | _ \<Rightarrow> False)"

definition stopped_out :: "position_context \<Rightarrow> flt \<Rightarrow> bool" where
  "stopped_out ctx pnl = (pc_entry_vega ctx \<noteq> 0 \<and> pnl < - 3 * \<bar>pc_entry_vega ctx\<bar>)"

definition time_decayed :: "position_context \<Rightarrow> bool" where
  "time_decayed ctx = (0 < pc_dte_at_entry ctx \<and> 10 * pc_days_remaining ctx < 3 * pc_dte_at_entry ctx)"

definition verdict :: "exit_decision \<Rightarrow> (string \<times> exit_action \<times> int) option" where
  "verdict e = (case ed_action e of None \<Rightarrow> None | Some a \<Rightarrow> Some (ed_rule_name e, a, ed_priority e))"

lemma verdict_simps [simp]: "verdict no_exit = None" "verdict (exit_on nm act pr dt) = Some (nm, act, pr)"
  by (simp_all add: verdict_def no_exit_def exit_on_def)

lemma triggered_iff:
  "ed_triggered (evaluate r ctx pnl signals regime) \<longleftrightarrow> verdict (evaluate r ctx pnl signals regime) \<noteq> None"
  by (cases r) (auto simp: signal_reverse_def time_based_def stop_loss_vega_def time_to_expiry_critical_def
      pre_event_regime_def Let_def split: option.splits)

lemmas rule_defs = signal_reverse_def time_based_def stop_loss_vega_def time_to_expiry_critical_def
  pre_event_regime_def

lemma verdict_signal:
  "verdict (evaluate (SignalReverseRule (1/2) True) ctx pnl signals regime) =
     (if signal_lost ctx signals then Some (''signal_reverse'', EXIT, 4)
      else if signal_halved ctx signals then Some (''signal_reverse'', TRIM, 3) else None)"
  by (auto simp: signal_reverse_def signal_lost_def signal_halved_def Let_def field_simps split: option.splits)

lemma verdict_time:
  "verdict (evaluate (TimeBasedRule (3/10)) ctx pnl signals regime) =
     (if time_decayed ctx then Some (''time_based'', EXIT, 2) else None)"
proof (cases "0 < pc_dte_at_entry ctx")
  case True
  then have "of_int (pc_days_remaining ctx) / of_int (pc_dte_at_entry ctx) < (3/10 :: real) \<longleftrightarrow>
      of_int (10 * pc_days_remaining ctx) < (of_int (3 * pc_dte_at_entry ctx) :: real)"
    by (simp add: field_simps)
  also have "\<dots> \<longleftrightarrow> 10 * pc_days_remaining ctx < 3 * pc_dte_at_entry ctx" by (rule of_int_less_iff)
  finally show ?thesis using True by (simp add: time_based_def time_decayed_def Let_def)
qed (simp add: time_based_def time_decayed_def)

lemma verdict_stop:
  "verdict (evaluate (StopLossVegaRule 3) ctx pnl signals regime) =
     (if stopped_out ctx pnl then Some (''stop_loss_vega'', EXIT, 3) else None)"
  by (auto simp: stop_loss_vega_def stopped_out_def Let_def)

lemma verdict_tte:
  "verdict (evaluate (TimeToExpiryCriticalRule 7) ctx pnl signals regime) =
     (if pc_days_remaining ctx < 7 then Some (''time_to_expiry_critical'', EXIT, 5) else None)"
  by (simp add: time_to_expiry_critical_def)

lemma verdict_event:
  "verdict (evaluate (PreEventRegimeRule [''pre_event'']) ctx pnl signals regime) =
     (if regime = Some ''pre_event'' then Some (''pre_event_regime'', EXIT, 6) else None)"
  by (simp add: pre_event_regime_def split: option.splits)

lemmas verdicts = verdict_signal verdict_time verdict_stop verdict_tte verdict_event

text \<open>The verdict of a list of decisions only depends on their verdicts.\<close>

fun best :: "(string \<times> exit_action \<times> int) option \<Rightarrow> (string \<times> exit_action \<times> int) option list \<Rightarrow> (string \<times> exit_action \<times> int) option" where
  "best b [] = b"
| "best b (None # vs) = best b vs"
| "best None (Some v # vs) = best (Some v) vs"
| "best (Some b) (Some v # vs) = best (Some (if snd (snd b) < snd (snd v) then v else b)) vs"

lemma best_Some: "best (Some v) vs \<noteq> None"
proof (induction vs arbitrary: v)
  case Nil
  show ?case by simp
next
  case (Cons x vs)
  then show ?case by (cases x) simp_all
qed

definition well_formed :: "exit_decision \<Rightarrow> bool" where
  "well_formed e \<longleftrightarrow> (ed_triggered e \<longleftrightarrow> ed_action e \<noteq> None)"

lemma evaluate_well_formed: "well_formed (evaluate r ctx pnl signals regime)"
  using triggered_iff [of r ctx pnl signals regime]
  by (auto simp: well_formed_def verdict_def split: option.splits)

lemma first_max_verdict:
  assumes "ed_action b \<noteq> None" and "\<forall>d \<in> set ds. well_formed d"
  shows "verdict (first_max b (filter ed_triggered ds)) = best (verdict b) (map verdict ds)"
  using assms
proof (induction ds arbitrary: b)
  case Nil
  then show ?case by simp
next
  case (Cons d ds)
  from Cons.prems(1) obtain a where a: "ed_action b = Some a" by auto
  show ?case
  proof (cases "ed_action d")
    case None
    with Cons show ?thesis by (simp add: well_formed_def verdict_def)
  next
    case (Some x)
    then have "ed_triggered d" using Cons.prems(2) by (simp add: well_formed_def)
    with Cons a Some show ?thesis by (simp add: verdict_def)
  qed
qed

lemma pick_verdict:
  assumes "\<forall>d \<in> set ds. well_formed d"
  shows "map_option verdict (pick_winning_decision ds) = map_option Some (best None (map verdict ds))"
  using assms
proof (induction ds)
  case Nil
  then show ?case by (simp add: pick_winning_decision_def)
next
  case (Cons d ds)
  show ?case
  proof (cases "ed_action d")
    case None
    then have "\<not> ed_triggered d" using Cons.prems by (simp add: well_formed_def)
    with Cons None show ?thesis by (simp add: pick_winning_decision_def verdict_def)
  next
    case (Some a)
    then have t: "ed_triggered d" using Cons.prems by (simp add: well_formed_def)
    have "verdict d = Some (ed_rule_name d, a, ed_priority d)" using Some by (simp add: verdict_def)
    then have "best (verdict d) (map verdict ds) \<noteq> None" by (simp add: best_Some)
    then obtain w where "best (verdict d) (map verdict ds) = Some w" by blast
    moreover have "verdict (first_max d (filter ed_triggered ds)) = best (verdict d) (map verdict ds)"
      by (rule first_max_verdict) (use Some Cons.prems in simp_all)
    moreover have "best None (map verdict (d # ds)) = best (verdict d) (map verdict ds)"
      by (cases "verdict d") simp_all
    ultimately show ?thesis using t by (simp add: pick_winning_decision_def)
  qed
qed

section \<open>Properties\<close>

text \<open>
  The rules form a fixed ladder: a pre-event regime wins over everything, then expiry
  within a week, then a lost signal, then a trim on a halved signal, which wins over a
  simultaneous stop loss although both have priority 3, then the stop loss, then time
  decay; and with none of these nothing is decided.
\<close>

theorem exit_ladder:
  "map_option (\<lambda>e. (ed_rule_name e, ed_action e))
      (pick_winning_decision (evaluate_all_rules EXIT_RULES ctx pnl signals regime)) =
     (if regime = Some ''pre_event'' then Some (''pre_event_regime'', Some EXIT)
      else if pc_days_remaining ctx < 7 then Some (''time_to_expiry_critical'', Some EXIT)
      else if signal_lost ctx signals then Some (''signal_reverse'', Some EXIT)
      else if signal_halved ctx signals then Some (''signal_reverse'', Some TRIM)
      else if stopped_out ctx pnl then Some (''stop_loss_vega'', Some EXIT)
      else if time_decayed ctx then Some (''time_based'', Some EXIT)
      else None)"
proof -
  let ?ds = "map (\<lambda>r. evaluate r ctx pnl signals regime) EXIT_RULES"
  let ?w = "pick_winning_decision (evaluate_all_rules EXIT_RULES ctx pnl signals regime)"
  have w: "?w = pick_winning_decision ?ds"
    by (simp add: pick_winning_decision_def evaluate_all_rules_def)
  have "\<forall>d \<in> set ?ds. well_formed d" using evaluate_well_formed by auto
  from pick_verdict [OF this] have v: "map_option verdict ?w = map_option Some (best None (map verdict ?ds))"
    unfolding w .
  have table: "map verdict ?ds =
     [if signal_lost ctx signals then Some (''signal_reverse'', EXIT, 4)
      else if signal_halved ctx signals then Some (''signal_reverse'', TRIM, 3) else None,
      if time_decayed ctx then Some (''time_based'', EXIT, 2) else None,
      if stopped_out ctx pnl then Some (''stop_loss_vega'', EXIT, 3) else None,
      if pc_days_remaining ctx < 7 then Some (''time_to_expiry_critical'', EXIT, 5) else None,
      if regime = Some ''pre_event'' then Some (''pre_event_regime'', EXIT, 6) else None]"
    unfolding EXIT_RULES_def list.map verdicts ..
  have read: "map_option (\<lambda>e. (ed_rule_name e, ed_action e)) x =
      map_option (\<lambda>v. (fst v, Some (fst (snd v)))) y"
    if "map_option verdict x = map_option Some y" for x :: "exit_decision option" and y
    using that by (cases x; cases y) (auto simp: verdict_def split: option.splits)
  show ?thesis unfolding read [OF v] table by simp
qed

end
