(* ===== verification/Greek_Limits.thy ===== *)
theory Greek_Limits
  imports Units
begin

text \<open>
  The greek limits (\<open>core/risk/greek_limits.py\<close>): a daily loss budget projected onto each
  greek by inverting that greek's shock, the slow capital anchor and the regime multiplier.
  The settings overlay is an association list.
\<close>

section \<open>The policy\<close>

definition ALPHA :: flt where "ALPHA = 5 / 100"
definition SHOCK_SPOT :: flt where "SHOCK_SPOT = 25 / 1000"
definition SHOCK_VOL :: flt where "SHOCK_VOL = 4"

definition CONFIG_DEFAULTS :: "(string \<times> flt) list" where
  "CONFIG_DEFAULTS =
    [(''alpha'', ALPHA), (''beta_delta'', 15 / 100), (''beta_vega'', 50 / 100), (''beta_gamma'', 25 / 100),
     (''beta_cross'', 10 / 100), (''shock_spot'', SHOCK_SPOT), (''shock_vol'', SHOCK_VOL),
     (''nav_hwm_floor'', 9 / 10), (''nav_halflife_days'', 20)]"

text \<open>\<open>{**CONFIG_DEFAULTS, **params}[key]\<close>; every key read has a default.\<close>

definition policy :: "(string \<times> flt) list \<Rightarrow> string \<Rightarrow> flt" where
  "policy params key =
     (case map_of params key of
        Some v \<Rightarrow> v
      | None \<Rightarrow> (case map_of CONFIG_DEFAULTS key of Some v \<Rightarrow> v | None \<Rightarrow> 0))"

record greek_caps =
  gc_delta_usd :: flt
  gc_vega_usd :: flt
  gc_gamma_pip :: flt
  gc_cross_usd :: flt
  gc_loss_budget_usd :: flt
  gc_nav_base_usd :: flt
  gc_spot :: flt
  gc_regime_mult :: flt

definition compute_caps :: "flt \<Rightarrow> flt \<Rightarrow> flt \<Rightarrow> (string \<times> flt) list \<Rightarrow> greek_caps" where
  "compute_caps nav spot rgm params =
     (let s = policy params ''shock_spot'' * rgm; v = policy params ''shock_vol'' * rgm in
      if nav \<le> 0 \<or> spot \<le> 0 \<or> rgm \<le> 0 \<or> s \<le> 0 \<or> v \<le> 0
      then \<lparr>gc_delta_usd = 0, gc_vega_usd = 0, gc_gamma_pip = 0, gc_cross_usd = 0, gc_loss_budget_usd = 0,
            gc_nav_base_usd = max nav 0, gc_spot = spot, gc_regime_mult = rgm\<rparr>
      else let loss = policy params ''alpha'' * nav in
           \<lparr>gc_delta_usd = policy params ''beta_delta'' * loss / s,
            gc_vega_usd = policy params ''beta_vega'' * loss / v,
            gc_gamma_pip = 2 * policy params ''beta_gamma'' * loss / (s ^ 2 * spot * 10000),
            gc_cross_usd = policy params ''beta_cross'' * loss,
            gc_loss_budget_usd = loss, gc_nav_base_usd = nav, gc_spot = spot, gc_regime_mult = rgm\<rparr>)"

section \<open>The capital anchor\<close>

text \<open>The loop over the values, newest first, with the running numerator, denominator and weight.\<close>

fun ewma_loop :: "flt \<Rightarrow> flt \<Rightarrow> flt \<Rightarrow> flt \<Rightarrow> flt list \<Rightarrow> flt \<times> flt" where
  "ewma_loop decay num den w [] = (num, den)"
| "ewma_loop decay num den w (x # xs) = ewma_loop decay (num + w * x) (den + w) (w * decay) xs"

definition ewma :: "flt list \<Rightarrow> flt \<Rightarrow> flt option" where
  "ewma values halflife =
     (if values = [] \<or> halflife \<le> 0 then None
      else let decay = (1/2) powr (1 / halflife);
               (num, den) = ewma_loop decay 0 0 1 (rev values)
           in if den = 0 then None else Some (num / den))"

definition nav_base :: "flt list \<Rightarrow> flt \<Rightarrow> flt \<Rightarrow> flt option" where
  "nav_base nav_series hwm_floor halflife =
     (if nav_series = [] then None
      else let hwm = Max (set nav_series) in
        (case ewma nav_series halflife of
           None \<Rightarrow> Some (hwm * hwm_floor)
         | Some smoothed \<Rightarrow> Some (max (hwm * hwm_floor) smoothed)))"

definition regime_mult :: "flt option \<Rightarrow> flt \<Rightarrow> flt \<Rightarrow> flt \<Rightarrow> flt" where
  "regime_mult current_vol calm_baseline_vol lo hi =
     (case current_vol of
        None \<Rightarrow> lo
      | Some v \<Rightarrow> if v = 0 \<or> calm_baseline_vol \<le> 0 then lo else max lo (min hi (v / calm_baseline_vol)))"

section \<open>Facts\<close>

lemma ewma_loop_bounds:
  "0 < decay \<Longrightarrow> 0 < w \<Longrightarrow> 0 \<le> den \<Longrightarrow> lo * den \<le> num \<Longrightarrow> num \<le> hi * den \<Longrightarrow>
   (\<And>x. x \<in> set xs \<Longrightarrow> lo \<le> x \<and> x \<le> hi) \<Longrightarrow> ewma_loop decay num den w xs = (n, e) \<Longrightarrow>
   den + (if xs = [] then 0 else w) \<le> e \<and> lo * e \<le> n \<and> n \<le> hi * e"
proof (induction xs arbitrary: num den w)
  case Nil
  then show ?case by simp
next
  case (Cons x xs)
  have x: "w * lo \<le> w * x" "w * x \<le> w * hi"
    using Cons.prems(2) Cons.prems(6) [of x] by (auto intro: mult_left_mono)
  have "(den + w) + (if xs = [] then 0 else w * decay) \<le> e \<and> lo * e \<le> n \<and> n \<le> hi * e"
  proof (rule Cons.IH [of "w * decay" "den + w" "num + w * x"])
    show "0 < decay" "0 < w * decay" "0 \<le> den + w" using Cons.prems(1-3) by simp_all
    show "lo * (den + w) \<le> num + w * x" "num + w * x \<le> hi * (den + w)"
      using x Cons.prems(4,5) by (simp_all add: algebra_simps)
    show "\<And>y. y \<in> set xs \<Longrightarrow> lo \<le> y \<and> y \<le> hi" using Cons.prems(6) by simp
    show "ewma_loop decay (num + w * x) (den + w) (w * decay) xs = (n, e)" using Cons.prems(7) by simp
  qed
  moreover have "0 < w * decay" using Cons.prems(1,2) by simp
  ultimately show ?case by (auto split: if_splits)
qed

lemma ewma_between:
  assumes "values \<noteq> []" and "0 < halflife"
  shows "\<exists>m. ewma values halflife = Some m \<and> Min (set values) \<le> m \<and> m \<le> Max (set values)"
proof -
  let ?d = "(1/2 :: real) powr (1 / halflife)"
  obtain n e where l: "ewma_loop ?d 0 0 1 (rev values) = (n, e)" by (rule prod.exhaust)
  have "0 + (if rev values = [] then 0 else 1) \<le> e \<and> Min (set values) * e \<le> n \<and> n \<le> Max (set values) * e"
    by (rule ewma_loop_bounds [OF _ _ _ _ _ _ l]) simp_all
  then have e: "1 \<le> e" and b: "Min (set values) * e \<le> n" "n \<le> Max (set values) * e" using assms by auto
  then have "Min (set values) \<le> n / e" "n / e \<le> Max (set values)" by (simp_all add: field_simps)
  with assms e l show ?thesis by (simp add: ewma_def)
qed

lemma nav_base_ge:
  assumes "nav_base ns floor_frac hl = Some b"
  shows "Max (set ns) * floor_frac \<le> b"
  using assms by (auto simp: nav_base_def Let_def split: if_splits option.splits)

lemma compute_caps_live:
  assumes "0 < nav" "0 < spot" "0 < rgm" "0 < policy params ''shock_spot''" "0 < policy params ''shock_vol''"
  shows "compute_caps nav spot rgm params =
    \<lparr>gc_delta_usd = policy params ''beta_delta'' * (policy params ''alpha'' * nav) / (policy params ''shock_spot'' * rgm),
     gc_vega_usd = policy params ''beta_vega'' * (policy params ''alpha'' * nav) / (policy params ''shock_vol'' * rgm),
     gc_gamma_pip = 2 * policy params ''beta_gamma'' * (policy params ''alpha'' * nav) /
       ((policy params ''shock_spot'' * rgm) ^ 2 * spot * 10000),
     gc_cross_usd = policy params ''beta_cross'' * (policy params ''alpha'' * nav),
     gc_loss_budget_usd = policy params ''alpha'' * nav, gc_nav_base_usd = nav, gc_spot = spot,
     gc_regime_mult = rgm\<rparr>"
proof -
  have "\<not> (nav \<le> 0 \<or> spot \<le> 0 \<or> rgm \<le> 0 \<or> policy params ''shock_spot'' * rgm \<le> 0 \<or>
      policy params ''shock_vol'' * rgm \<le> 0)"
    using assms by (simp add: not_le)
  then show ?thesis unfolding compute_caps_def Let_def by (simp only: if_False)
qed

section \<open>Properties\<close>

text \<open>
  The caps invert the shocks: for a positive capital base, spot, multiplier and shocks,
  the stress loss of a book that sits at its cap is exactly that axis' share of the loss
  budget: the delta cap times the spot shock, the vega cap times the vol shock, and half
  the gamma cap times the squared shock in pips times the dollar value of a pip move; a
  tighter regime never raises a cap. Without such inputs every cap is 0.
\<close>

theorem caps_invert_shocks:
  assumes "0 < nav" and "0 < spot" and "0 < rgm"
    and "0 < policy params ''shock_spot''" and "0 < policy params ''shock_vol''"
    and "c = compute_caps nav spot rgm params" and "L = policy params ''alpha'' * nav"
  shows "gc_delta_usd c * (policy params ''shock_spot'' * rgm) = policy params ''beta_delta'' * L \<and>
    gc_vega_usd c * (policy params ''shock_vol'' * rgm) = policy params ''beta_vega'' * L \<and>
    1/2 * gc_gamma_pip c * (policy params ''shock_spot'' * rgm * spot / PIP_SIZE) ^ 2 * (PIP_SIZE / spot)
      = policy params ''beta_gamma'' * L \<and>
    gc_loss_budget_usd c = L \<and>
    (\<forall>rgm'. rgm \<le> rgm' \<longrightarrow> 0 \<le> policy params ''beta_vega'' * L \<longrightarrow>
       gc_vega_usd (compute_caps nav spot rgm' params) \<le> gc_vega_usd c) \<and>
    gc_delta_usd (compute_caps nav 0 rgm params) = 0"
proof -
  let ?s = "policy params ''shock_spot''" and ?v = "policy params ''shock_vol''"
  have c: "c = \<lparr>gc_delta_usd = policy params ''beta_delta'' * L / (?s * rgm),
      gc_vega_usd = policy params ''beta_vega'' * L / (?v * rgm),
      gc_gamma_pip = 2 * policy params ''beta_gamma'' * L / ((?s * rgm) ^ 2 * spot * 10000),
      gc_cross_usd = policy params ''beta_cross'' * L, gc_loss_budget_usd = L, gc_nav_base_usd = nav,
      gc_spot = spot, gc_regime_mult = rgm\<rparr>"
    unfolding assms(6,7) by (rule compute_caps_live [OF assms(1-5)])
  have nz: "?s * rgm \<noteq> 0" "?v * rgm \<noteq> 0" "spot \<noteq> 0" using assms by simp_all
  have "1/2 * gc_gamma_pip c * (?s * rgm * spot / PIP_SIZE) ^ 2 * (PIP_SIZE / spot) =
      policy params ''beta_gamma'' * L"
    using nz by (simp add: c PIP_SIZE_def power2_eq_square field_simps)
  moreover have "gc_vega_usd (compute_caps nav spot rgm' params) \<le> gc_vega_usd c"
    if "rgm \<le> rgm'" "0 \<le> policy params ''beta_vega'' * L" for rgm'
  proof -
    have "0 < rgm'" using that assms by simp
    then have "gc_vega_usd (compute_caps nav spot rgm' params) = policy params ''beta_vega'' * L / (?v * rgm')"
      unfolding assms(7) using compute_caps_live [OF assms(1,2) \<open>0 < rgm'\<close> assms(4,5)] by simp
    also have "\<dots> \<le> policy params ''beta_vega'' * L / (?v * rgm)"
      using that assms by (intro divide_left_mono mult_left_mono) auto
    finally show ?thesis by (simp add: c)
  qed
  ultimately show ?thesis using nz by (simp add: c) (simp add: compute_caps_def Let_def)
qed

theorem caps_invert_shocks_witness:
  "gc_vega_usd (compute_caps 812000 (108/100) 1 []) * 4 = 20300"
proof -
  have p: "policy [] ''shock_spot'' = 25/1000" "policy [] ''shock_vol'' = 4" "policy [] ''alpha'' = 5/100"
    "policy [] ''beta_vega'' = 50/100"
    by (simp_all add: policy_def CONFIG_DEFAULTS_def SHOCK_SPOT_def SHOCK_VOL_def ALPHA_def)
  have "0 < policy [] ''shock_spot''" "0 < policy [] ''shock_vol''" unfolding p by simp_all
  then have "gc_vega_usd (compute_caps 812000 (108/100) 1 []) * (policy [] ''shock_vol'' * 1) =
      policy [] ''beta_vega'' * (policy [] ''alpha'' * 812000)"
    using caps_invert_shocks [of 812000 "108/100" 1 "[]", OF _ _ _ _ _ refl refl] by simp
  then show ?thesis unfolding p by simp
qed

text \<open>
  The limit denominator cannot be dragged down by the drawdown it protects against: the
  capital anchor is never below the floor share of the high-water mark, never above the
  high-water mark when that share is at most one, and between the extremes of the history
  when it is not the floor; the shock multiplier stays inside its clamp.
\<close>

theorem nav_anchor_bounds:
  assumes "ns \<noteq> []" and "0 < halflife" and "\<forall>x \<in> set ns. 0 \<le> x" and "floor_frac \<le> 1" and "lo \<le> hi"
  shows "\<exists>b. nav_base ns floor_frac halflife = Some b \<and>
    Max (set ns) * floor_frac \<le> b \<and> b \<le> Max (set ns) \<and> Min (set ns) \<le> b \<and>
    lo \<le> regime_mult vol calm lo hi \<and> regime_mult vol calm lo hi \<le> hi"
proof -
  obtain m where m: "ewma ns halflife = Some m" "Min (set ns) \<le> m" "m \<le> Max (set ns)"
    using ewma_between [OF assms(1,2)] by blast
  let ?h = "Max (set ns)"
  have "?h \<in> set ns" using assms(1) by simp
  then have "0 \<le> ?h" using assms(3) by blast
  then have "?h * floor_frac \<le> ?h * 1" using assms(4) by (intro mult_left_mono)
  with m have "nav_base ns floor_frac halflife = Some (max (?h * floor_frac) m)"
    "max (?h * floor_frac) m \<le> ?h" "Min (set ns) \<le> max (?h * floor_frac) m"
    using assms(1) by (simp_all add: nav_base_def Let_def)
  then show ?thesis using assms(5) by (auto simp: regime_mult_def split: option.splits)
qed

theorem nav_anchor_bounds_witness:
  "\<exists>b. nav_base [100, 80, 60] (9/10) 20 = Some b \<and> 90 \<le> b \<and> b \<le> 100"
proof -
  have "\<exists>b. nav_base [100, 80, 60] (9/10) 20 = Some b \<and>
      Max (set [100, 80, 60]) * (9/10) \<le> b \<and> b \<le> Max (set [100, 80, 60]) \<and> Min (set [100, 80, 60]) \<le> b \<and>
      1 \<le> regime_mult None 1 1 3 \<and> regime_mult None 1 1 3 \<le> 3"
    by (rule nav_anchor_bounds) simp_all
  then show ?thesis by auto
qed

end
