(* ===== verification/Pretrade.thy ===== *)
theory Pretrade
  imports Halt Greek_Limits Py_Text
begin

text \<open>
  The pre-trade gate: the decision (\<open>core/risk/pretrade.py\<close>) and the collection of its
  inputs (\<open>api/orchestration/pretrade_gate.py\<close>). Every input that can be unknown is an
  option; a read that raises is None. The Redis heartbeat is given as its parsed
  timestamp and the preview as the fields the gate reads from it.
\<close>

section \<open>The decision\<close>

record book_greeks =
  bg_delta_usd :: flt
  bg_vega :: flt
  bg_gamma :: flt
  bg_n_positions :: int
  bg_n_priced :: int

record trade_greeks =
  tg_delta_usd :: flt
  tg_vega :: flt
  tg_gamma :: flt
  tg_notional_eur :: flt

record caps =
  cap_delta_usd :: flt
  cap_vega :: flt
  cap_gamma :: flt
  cap_max_notional_eur :: flt

record gate_inputs =
  gi_halted :: "bool option"
  gi_halt_reason :: "string option"
  gi_live_mode :: bool
  gi_risk_heartbeat_age_s :: "flt option"
  gi_max_risk_heartbeat_age_s :: flt
  gi_ib_account_type :: "string option"
  gi_required_account_type :: string
  gi_book :: "book_greeks option"
  gi_trade :: "trade_greeks option"
  gi_caps :: "caps option"
  gi_symbols :: "string list"
  gi_allowed_symbols :: "string list"
  gi_surface_age_s :: "flt option"
  gi_max_surface_age_s :: flt
  gi_arb_ok :: "bool option"

record gate_result =
  gr_passed :: bool
  gr_failures :: "string list"
  gr_details :: payload

type_synonym findings = "string list \<times> payload"

definition nothing :: findings where "nothing = ([], [])"

definition too_old :: "flt option \<Rightarrow> flt \<Rightarrow> bool" where
  "too_old age limit = (case age of None \<Rightarrow> True | Some a \<Rightarrow> limit < a)"

definition check_halt :: "gate_inputs \<Rightarrow> findings" where
  "check_halt i =
     (case gi_halted i of
        None \<Rightarrow> ([''halt_flag_unreadable''], [])
      | Some True \<Rightarrow> ([''trading_halted''], [(''halt_reason'', p_opt_str (gi_halt_reason i))])
      | Some False \<Rightarrow> nothing)"

definition check_symbols :: "gate_inputs \<Rightarrow> findings" where
  "check_symbols i =
     (if gi_symbols i = [] \<or> filter (\<lambda>s. s \<notin> set (gi_allowed_symbols i)) (gi_symbols i) \<noteq> []
      then ([''symbol_not_allowed''],
            [(''symbols'', PStrs (gi_symbols i)), (''allowed_symbols'', PStrs (gi_allowed_symbols i))])
      else nothing)"

definition check_account :: "gate_inputs \<Rightarrow> findings" where
  "check_account i =
     (if gi_ib_account_type i = None \<or> gi_ib_account_type i \<noteq> Some (gi_required_account_type i)
      then ([''account_type_mismatch''],
            [(''ib_account_type'', p_opt_str (gi_ib_account_type i)),
             (''required_account_type'', PStr (gi_required_account_type i))])
      else nothing)"

definition check_heartbeat :: "gate_inputs \<Rightarrow> findings" where
  "check_heartbeat i =
     (if too_old (gi_risk_heartbeat_age_s i) (gi_max_risk_heartbeat_age_s i)
      then ([''risk_engine_stale''],
            [(''risk_heartbeat_age_s'', p_opt_flt (gi_risk_heartbeat_age_s i)),
             (''max_risk_heartbeat_age_s'', PFlt (gi_max_risk_heartbeat_age_s i))])
      else nothing)"

definition check_surface :: "gate_inputs \<Rightarrow> findings" where
  "check_surface i =
     (if too_old (gi_surface_age_s i) (gi_max_surface_age_s i)
      then ([''surface_stale''],
            [(''surface_age_s'', p_opt_flt (gi_surface_age_s i)),
             (''max_surface_age_s'', PFlt (gi_max_surface_age_s i))])
      else nothing)"

definition check_arbitrage :: "gate_inputs \<Rightarrow> findings" where
  "check_arbitrage i = (if gi_arb_ok i = Some False then ([''surface_arbitrage''], []) else nothing)"

definition flag :: "bool \<Rightarrow> string \<Rightarrow> string list" where
  "flag b s = (if b then [s] else [])"

definition post_trade :: "book_greeks \<Rightarrow> trade_greeks \<Rightarrow> trade_greeks" where
  "post_trade b t =
     \<lparr>tg_delta_usd = bg_delta_usd b + tg_delta_usd t, tg_vega = bg_vega b + tg_vega t,
      tg_gamma = bg_gamma b + tg_gamma t, tg_notional_eur = tg_notional_eur t\<rparr>"

definition caps_established :: "caps \<Rightarrow> bool" where
  "caps_established c = (\<not> (cap_delta_usd c \<le> 0 \<or> cap_vega c \<le> 0 \<or> cap_gamma c \<le> 0))"

definition check_caps :: "gate_inputs \<Rightarrow> findings" where
  "check_caps i =
     (case gi_caps i of
        None \<Rightarrow> ([''caps_unavailable''], [])
      | Some c \<Rightarrow>
        (case gi_book i of
           None \<Rightarrow> ([''book_unavailable''], [])
         | Some b \<Rightarrow>
           (case gi_trade i of
              None \<Rightarrow> ([''trade_greeks_unavailable''], [])
            | Some t \<Rightarrow>
                let p = post_trade b t in
                (flag (bg_n_priced b < bg_n_positions b) ''book_partially_priced''
                   @ (if \<not> caps_established c then [''caps_not_established'']
                      else flag (cap_delta_usd c < \<bar>tg_delta_usd p\<bar>) ''cap_delta''
                             @ flag (cap_vega c < \<bar>tg_vega p\<bar>) ''cap_vega''
                             @ flag (cap_gamma c < \<bar>tg_gamma p\<bar>) ''cap_gamma'')
                   @ flag (cap_max_notional_eur c < tg_notional_eur t) ''cap_notional'',
                 (if bg_n_priced b < bg_n_positions b
                  then [(''book_unpriced'', PInt (bg_n_positions b - bg_n_priced b))] else [])
                   @ [(''post_trade'', PObj
                         [(''delta_usd'', PFlt (py_round 2 (tg_delta_usd p))),
                          (''vega_usd_per_volpt'', PFlt (py_round 2 (tg_vega p))),
                          (''gamma_usd_per_pip'', PFlt (py_round 2 (tg_gamma p))),
                          (''notional_eur'', PFlt (py_round 2 (tg_notional_eur t)))]),
                      (''caps'', PObj
                         [(''delta_usd'', PFlt (py_round 2 (cap_delta_usd c))),
                          (''vega_usd_per_volpt'', PFlt (py_round 2 (cap_vega c))),
                          (''gamma_usd_per_pip'', PFlt (py_round 2 (cap_gamma c))),
                          (''max_notional_eur'', PFlt (cap_max_notional_eur c))])]))))"

definition evaluate_pretrade :: "gate_inputs \<Rightarrow> gate_result" where
  "evaluate_pretrade i =
     (let checks = [check_halt i, check_symbols i]
            @ (if gi_live_mode i then [check_account i, check_heartbeat i, check_surface i] else [])
            @ [check_arbitrage i, check_caps i];
          f = concat (map fst checks)
      in \<lparr>gr_passed = (f = []), gr_failures = f, gr_details = concat (map snd checks)\<rparr>)"

section \<open>The inputs\<close>

definition DEFAULT_MAX_NOTIONAL_EUR :: flt where "DEFAULT_MAX_NOTIONAL_EUR = 5000000"
definition DEFAULT_MAX_RISK_HEARTBEAT_AGE_S :: flt where "DEFAULT_MAX_RISK_HEARTBEAT_AGE_S = 30"

definition allowed_symbols :: "string option \<Rightarrow> string list" where
  "allowed_symbols env =
     (let raw = (case env of None \<Rightarrow> ''EUR,M6E'' | Some s \<Rightarrow> s)
      in map (\<lambda>s. py_upper (py_strip s)) (filter (\<lambda>s. py_strip s \<noteq> []) (split_on CHR '','' raw)))"

definition required_account_type :: "string option \<Rightarrow> string" where
  "required_account_type env =
     (if py_lower (case env of None \<Rightarrow> ''paper'' | Some s \<Rightarrow> s) = ''paper'' then ''paper'' else ''live'')"

definition risk_heartbeat_age_s :: "time \<Rightarrow> time option \<Rightarrow> flt option" where
  "risk_heartbeat_age_s now heartbeat = map_option (\<lambda>ts. max 0 (now - ts)) heartbeat"

record preview =
  pv_greeks_net :: "(flt option \<times> flt option \<times> flt option) option"
  pv_leg_qtys :: "flt option list"
  pv_future_multiplier_eur :: "flt option"
  pv_future_contract_size :: "string option"
  pv_spot :: "flt option"
  pv_surface_age_seconds :: "flt option"
  pv_butterfly_ok :: "bool option"

text \<open>The vega, gamma and delta of \<open>greeks_net\<close>; an absent or empty dictionary is None.\<close>

definition trade_greeks_from_preview :: "preview \<Rightarrow> flt option \<Rightarrow> trade_greeks option" where
  "trade_greeks_from_preview p spot =
     (case (pv_greeks_net p, spot) of
        (Some (vega, gamma, dlt), Some sp) \<Rightarrow>
          if pv_leg_qtys p = [] then None
          else
            let mult = (case pv_future_multiplier_eur p of
                          None \<Rightarrow> EUR_FOP_MULTIPLIER | Some m \<Rightarrow> if m = 0 then EUR_FOP_MULTIPLIER else m)
            in Some \<lparr>tg_delta_usd = flt_or0 dlt * EUR_FOP_MULTIPLIER * sp, tg_vega = flt_or0 vega,
                     tg_gamma = flt_or0 gamma / PIP_SIZE,
                     tg_notional_eur = sum_list (map (\<lambda>q. \<bar>flt_or0 q\<bar>) (pv_leg_qtys p)) * mult\<rparr>
      | _ \<Rightarrow> None)"

definition leg_symbols :: "preview \<Rightarrow> string list" where
  "leg_symbols p = (if pv_future_contract_size p = Some ''micro'' then [''M6E''] else [''EUR''])"

text \<open>The live spot from Redis, or the preview's when Redis has none (0 counts as none).\<close>

definition gate_spot :: "flt option \<Rightarrow> preview \<Rightarrow> flt option" where
  "gate_spot redis_spot p =
     (case redis_spot of
        Some s \<Rightarrow> Some s
      | None \<Rightarrow> (case pv_spot p of Some s \<Rightarrow> if s = 0 then None else Some s | None \<Rightarrow> None))"

section \<open>The live caps\<close>

text \<open>
  What \<open>compute_live_caps\<close> reads: the net liquidation series, the spot of the newest
  surface, the \<open>greek_limits\<close> settings and the volatility levels of the last 90 days, the
  last two in the order of their query.
\<close>

record caps_reads =
  cr_nav_series :: "flt list"
  cr_surface_spot :: "flt option"
  cr_settings :: "(string \<times> flt) list"
  cr_vol_levels :: "flt list"

definition median :: "flt list \<Rightarrow> flt" where
  "median xs =
     (let s = sort xs; n = length xs in
      if odd n then s ! (n div 2) else (s ! (n div 2 - 1) + s ! (n div 2)) / 2)"

definition live_regime :: "flt list \<Rightarrow> flt" where
  "live_regime levels =
     (if 10 \<le> length levels \<and> 0 < median levels
      then max 1 (min 3 (List.last levels / median levels)) else 1)"

definition setting_or :: "(string \<times> flt) list \<Rightarrow> string \<Rightarrow> flt \<Rightarrow> flt" where
  "setting_or settings nm dflt = (case map_of settings nm of None \<Rightarrow> dflt | Some v \<Rightarrow> v)"

definition compute_live_caps :: "caps_reads \<Rightarrow> greek_caps" where
  "compute_live_caps c =
     (let params = filter (\<lambda>(nm, _). nm \<in> set (map fst CONFIG_DEFAULTS)) (cr_settings c);
          base = nav_base (cr_nav_series c) (setting_or params ''nav_hwm_floor'' (9 / 10))
                   (setting_or params ''nav_halflife_days'' 20)
      in compute_caps (flt_or0 base) (flt_or0 (cr_surface_spot c)) (live_regime (cr_vol_levels c)) params)"

text \<open>The sums of the risk columns over the broker mirror, NULL where a position is not priced.\<close>

type_synonym mirror_greeks = "flt option \<times> flt option \<times> flt option"

definition book_of_mirror :: "mirror_greeks list \<Rightarrow> book_greeks" where
  "book_of_mirror rows =
     \<lparr>bg_delta_usd = sum_list (map (\<lambda>(dl, v, g). flt_or0 dl) rows),
      bg_vega = sum_list (map (\<lambda>(dl, v, g). flt_or0 v) rows),
      bg_gamma = sum_list (map (\<lambda>(dl, v, g). flt_or0 g) rows),
      bg_n_positions = int (length rows),
      bg_n_priced = int (length (filter (\<lambda>(dl, v, g). dl \<noteq> None) rows))\<rparr>"

section \<open>Running the gate\<close>

text \<open>What the gate reads; None is a read that failed.\<close>

record gate_world =
  gw_db :: "db option"
  gw_limits :: "(string \<times> flt) list option"
  gw_account_type :: "string option"
  gw_mirror :: "mirror_greeks list option"
  gw_caps_reads :: "caps_reads option"
  gw_redis_spot :: "flt option"
  gw_heartbeat :: "time option"
  gw_allowed_env :: "string option"
  gw_mode_env :: "string option"

definition gate_inputs_of :: "time \<Rightarrow> gate_world \<Rightarrow> preview \<Rightarrow> bool \<Rightarrow> gate_inputs" where
  "gate_inputs_of now w p live =
     (let h = map_option get_halt (gw_db w);
          limits = (case gw_limits w of None \<Rightarrow> [] | Some ls \<Rightarrow> ls);
          spot = gate_spot (gw_redis_spot w) p
      in \<lparr>gi_halted = map_option hs_halted h,
          gi_halt_reason = (case h of None \<Rightarrow> None | Some s \<Rightarrow> hs_reason s),
          gi_live_mode = live,
          gi_risk_heartbeat_age_s = risk_heartbeat_age_s now (gw_heartbeat w),
          gi_max_risk_heartbeat_age_s =
            setting_or limits ''max_risk_heartbeat_age_seconds'' DEFAULT_MAX_RISK_HEARTBEAT_AGE_S,
          gi_ib_account_type = (case gw_account_type w of None \<Rightarrow> None | Some a \<Rightarrow> or_none a),
          gi_required_account_type = required_account_type (gw_mode_env w),
          gi_book = map_option book_of_mirror (gw_mirror w),
          gi_trade = trade_greeks_from_preview p spot,
          gi_caps = map_option (\<lambda>r. let c = compute_live_caps r in
             \<lparr>cap_delta_usd = gc_delta_usd c, cap_vega = gc_vega_usd c, cap_gamma = gc_gamma_pip c,
              cap_max_notional_eur = setting_or limits ''max_notional_eur'' DEFAULT_MAX_NOTIONAL_EUR\<rparr>) (gw_caps_reads w),
          gi_symbols = leg_symbols p,
          gi_allowed_symbols = allowed_symbols (gw_allowed_env w),
          gi_surface_age_s = pv_surface_age_seconds p,
          gi_max_surface_age_s = setting_or limits ''max_iv_data_age_seconds'' 120,
          gi_arb_ok = pv_butterfly_ok p\<rparr>)"

definition run_pretrade_gate :: "time \<Rightarrow> gate_world \<Rightarrow> preview \<Rightarrow> bool \<Rightarrow> gate_result" where
  "run_pretrade_gate now w p live = evaluate_pretrade (gate_inputs_of now w p live)"

section \<open>Facts\<close>

lemma flag_simps [simp]: "flag b s = [] \<longleftrightarrow> \<not> b" by (simp add: flag_def)

lemma nothing_sel [simp]: "fst nothing = []" "snd nothing = []" by (simp_all add: nothing_def)

lemma check_halt_ok: "fst (check_halt i) = [] \<longleftrightarrow> gi_halted i = Some False"
  by (auto simp: check_halt_def split: option.splits bool.splits)

lemma check_symbols_ok:
  "fst (check_symbols i) = [] \<longleftrightarrow> gi_symbols i \<noteq> [] \<and> set (gi_symbols i) \<subseteq> set (gi_allowed_symbols i)"
  by (auto simp: check_symbols_def filter_empty_conv)

lemma check_account_ok: "fst (check_account i) = [] \<longleftrightarrow> gi_ib_account_type i = Some (gi_required_account_type i)"
  by (auto simp: check_account_def)

lemma too_old_iff: "\<not> too_old age limit \<longleftrightarrow> (\<exists>a. age = Some a \<and> a \<le> limit)"
  by (cases age) (auto simp: too_old_def)

lemma check_ages_ok:
  "fst (check_heartbeat i) = [] \<longleftrightarrow> (\<exists>a. gi_risk_heartbeat_age_s i = Some a \<and> a \<le> gi_max_risk_heartbeat_age_s i)"
  "fst (check_surface i) = [] \<longleftrightarrow> (\<exists>a. gi_surface_age_s i = Some a \<and> a \<le> gi_max_surface_age_s i)"
  by (simp_all add: check_heartbeat_def check_surface_def too_old_iff [symmetric])

definition within_caps :: "caps \<Rightarrow> book_greeks \<Rightarrow> trade_greeks \<Rightarrow> bool" where
  "within_caps c b t =
     (bg_n_positions b \<le> bg_n_priced b \<and> 0 < cap_delta_usd c \<and> 0 < cap_vega c \<and> 0 < cap_gamma c \<and>
      \<bar>bg_delta_usd b + tg_delta_usd t\<bar> \<le> cap_delta_usd c \<and> \<bar>bg_vega b + tg_vega t\<bar> \<le> cap_vega c \<and>
      \<bar>bg_gamma b + tg_gamma t\<bar> \<le> cap_gamma c \<and> tg_notional_eur t \<le> cap_max_notional_eur c)"

lemma check_caps_ok:
  "fst (check_caps i) = [] \<longleftrightarrow>
     (\<exists>c b t. gi_caps i = Some c \<and> gi_book i = Some b \<and> gi_trade i = Some t \<and> within_caps c b t)"
proof (cases "gi_caps i = None \<or> gi_book i = None \<or> gi_trade i = None")
  case True
  then show ?thesis by (auto simp: check_caps_def split: option.splits)
next
  case False
  then obtain c b t where "gi_caps i = Some c" "gi_book i = Some b" "gi_trade i = Some t"
    by (auto simp: not_None_eq)
  then show ?thesis
    by (auto simp: check_caps_def Let_def caps_established_def within_caps_def post_trade_def)
qed

lemma evaluate_pretrade_passed:
  "gr_passed (evaluate_pretrade i) \<longleftrightarrow>
     fst (check_halt i) = [] \<and> fst (check_symbols i) = [] \<and>
     (gi_live_mode i \<longrightarrow> fst (check_account i) = [] \<and> fst (check_heartbeat i) = [] \<and> fst (check_surface i) = []) \<and>
     fst (check_arbitrage i) = [] \<and> fst (check_caps i) = []"
  by (cases "gi_live_mode i") (simp_all add: evaluate_pretrade_def)

section \<open>Properties\<close>


definition example_world :: gate_world where
  "example_world = \<lparr>gw_db = Some empty_db, gw_limits = None, gw_account_type = Some ''paper'',
     gw_mirror = Some [],
     gw_caps_reads = Some \<lparr>cr_nav_series = [1000000], cr_surface_spot = Some 1, cr_settings = [], cr_vol_levels = []\<rparr>,
     gw_redis_spot = Some 1, gw_heartbeat = Some 95,
     gw_allowed_env = None, gw_mode_env = None\<rparr>"

definition example_preview :: preview where
  "example_preview = \<lparr>pv_greeks_net = Some (Some 1000, None, None), pv_leg_qtys = [Some 2],
     pv_future_multiplier_eur = None, pv_future_contract_size = None, pv_spot = None,
     pv_surface_age_seconds = Some 10, pv_butterfly_ok = None\<rparr>"

lemma example_caps:
  "gi_caps (gate_inputs_of now example_world p live) =
     Some \<lparr>cap_delta_usd = 300000, cap_vega = 6250, cap_gamma = 4000, cap_max_notional_eur = 5000000\<rparr>"
proof -
  have "compute_live_caps \<lparr>cr_nav_series = [1000000], cr_surface_spot = Some 1, cr_settings = [], cr_vol_levels = []\<rparr> =
     \<lparr>gc_delta_usd = 300000, gc_vega_usd = 6250, gc_gamma_pip = 4000, gc_cross_usd = 5000, gc_loss_budget_usd = 50000,
      gc_nav_base_usd = 1000000, gc_spot = 1, gc_regime_mult = 1\<rparr>"
    by (simp add: compute_live_caps_def nav_base_def ewma_def setting_or_def live_regime_def compute_caps_def
        policy_def CONFIG_DEFAULTS_def ALPHA_def SHOCK_SPOT_def SHOCK_VOL_def power2_eq_square)
  then show ?thesis
    by (simp add: gate_inputs_of_def example_world_def setting_or_def DEFAULT_MAX_NOTIONAL_EUR_def)
qed


end
