(* ===== verification/Black_Scholes.thy ===== *)
theory Black_Scholes
  imports Units
begin

text \<open>
  The option pricer (\<open>core/pricing/bs.py\<close>) and the greeks in desk units
  (\<open>core/risk/greek_scaling.py\<close>). The normal distribution function and density come from
  scipy and are the parameter \<open>N\<close>; what the proofs use of them (symmetry, values between 0
  and 1, a non-negative density) is the hypothesis \<open>normal_law\<close>. The root finder of
  \<open>bs_implied_vol\<close> is the parameter \<open>brentq\<close>.
\<close>

section \<open>The pricer\<close>

record normal =
  n_cdf :: "flt \<Rightarrow> flt"
  n_pdf :: "flt \<Rightarrow> flt"

definition degenerate :: "flt \<Rightarrow> flt \<Rightarrow> flt \<Rightarrow> flt \<Rightarrow> bool" where
  "degenerate F K T sigma = (sigma \<le> 0 \<or> T \<le> 0 \<or> F \<le> 0 \<or> K \<le> 0)"

definition bs_d1 :: "flt \<Rightarrow> flt \<Rightarrow> flt \<Rightarrow> flt \<Rightarrow> flt" where
  "bs_d1 F K T sigma = (ln (F / K) + 1/2 * sigma ^ 2 * T) / (sigma * sqrt T)"

definition bs_d2 :: "flt \<Rightarrow> flt \<Rightarrow> flt \<Rightarrow> flt \<Rightarrow> flt" where
  "bs_d2 F K T sigma = bs_d1 F K T sigma - sigma * sqrt T"

definition bs_price :: "normal \<Rightarrow> flt \<Rightarrow> flt \<Rightarrow> flt \<Rightarrow> flt \<Rightarrow> string \<Rightarrow> flt" where
  "bs_price N F K T sigma right =
     (if degenerate F K T sigma then 0
      else let d1 = bs_d1 F K T sigma; d2 = bs_d2 F K T sigma in
        if right = ''C'' then F * n_cdf N d1 - K * n_cdf N d2
        else K * n_cdf N (- d2) - F * n_cdf N (- d1))"

definition bs_delta :: "normal \<Rightarrow> flt \<Rightarrow> flt \<Rightarrow> flt \<Rightarrow> flt \<Rightarrow> string \<Rightarrow> flt" where
  "bs_delta N F K T sigma right =
     (if degenerate F K T sigma then 0
      else let d1 = bs_d1 F K T sigma in
        if right = ''C'' then n_cdf N d1 else n_cdf N d1 - 1)"

definition bs_gamma :: "normal \<Rightarrow> flt \<Rightarrow> flt \<Rightarrow> flt \<Rightarrow> flt \<Rightarrow> flt" where
  "bs_gamma N F K T sigma =
     (if degenerate F K T sigma then 0
      else n_pdf N (bs_d1 F K T sigma) / (F * sigma * sqrt T))"

definition bs_vega :: "normal \<Rightarrow> flt \<Rightarrow> flt \<Rightarrow> flt \<Rightarrow> flt \<Rightarrow> flt" where
  "bs_vega N F K T sigma =
     (if degenerate F K T sigma then 0 else F * n_pdf N (bs_d1 F K T sigma) * sqrt T)"

definition bs_theta :: "normal \<Rightarrow> flt \<Rightarrow> flt \<Rightarrow> flt \<Rightarrow> flt \<Rightarrow> string \<Rightarrow> flt" where
  "bs_theta N F K T sigma right =
     (if degenerate F K T sigma then 0
      else (- (F * n_pdf N (bs_d1 F K T sigma) * sigma) / (2 * sqrt T)) / 365)"

definition bs_vanna :: "normal \<Rightarrow> flt \<Rightarrow> flt \<Rightarrow> flt \<Rightarrow> flt \<Rightarrow> flt" where
  "bs_vanna N F K T sigma =
     (if degenerate F K T sigma then 0
      else - n_pdf N (bs_d1 F K T sigma) * bs_d2 F K T sigma / sigma)"

definition bs_volga :: "normal \<Rightarrow> flt \<Rightarrow> flt \<Rightarrow> flt \<Rightarrow> flt \<Rightarrow> flt" where
  "bs_volga N F K T sigma =
     (if degenerate F K T sigma then 0
      else F * n_pdf N (bs_d1 F K T sigma) * sqrt T * bs_d1 F K T sigma * bs_d2 F K T sigma / sigma)"

text \<open>
  \<open>brentq f lo hi\<close> is the root finder's answer, None when it raises.
\<close>

definition bs_implied_vol ::
  "normal \<Rightarrow> ((flt \<Rightarrow> flt) \<Rightarrow> flt \<Rightarrow> flt \<Rightarrow> flt option) \<Rightarrow> flt \<Rightarrow> flt \<Rightarrow> flt \<Rightarrow> flt \<Rightarrow> string \<Rightarrow> flt \<Rightarrow> flt \<Rightarrow> flt option" where
  "bs_implied_vol N brentq price F K T right lo hi =
     (if price \<le> 0 \<or> F \<le> 0 \<or> K \<le> 0 \<or> T \<le> 0 then None
      else
        let intrinsic = (if right = ''C'' then max (F - K) 0 else max (K - F) 0) in
        if price < intrinsic - 1 / 10 ^ 8 then None
        else
          let f = (\<lambda>sigma. bs_price N F K T sigma right - price) in
          if 0 < f lo * f hi then None else brentq f lo hi)"

section \<open>Greeks in desk units\<close>

record position_greeks =
  pg_delta_eur :: flt
  pg_delta_usd :: flt
  pg_gamma :: flt
  pg_vega :: flt
  pg_theta :: flt
  pg_vanna :: flt
  pg_volga :: flt

definition ZERO :: position_greeks where
  "ZERO = \<lparr>pg_delta_eur = 0, pg_delta_usd = 0, pg_gamma = 0, pg_vega = 0, pg_theta = 0, pg_vanna = 0, pg_volga = 0\<rparr>"

definition future_greeks :: "flt \<Rightarrow> flt \<Rightarrow> flt \<Rightarrow> position_greeks" where
  "future_greeks qty m F =
     ZERO\<lparr>pg_delta_eur := qty * m, pg_delta_usd := qty * m * F\<rparr>"

definition option_greeks :: "normal \<Rightarrow> flt \<Rightarrow> flt \<Rightarrow> flt \<Rightarrow> flt \<Rightarrow> flt \<Rightarrow> flt \<Rightarrow> string \<Rightarrow> position_greeks" where
  "option_greeks N qty m F K T iv right =
     (let qm = qty * m; d_eur = qm * bs_delta N F K T iv right in
      \<lparr>pg_delta_eur = d_eur, pg_delta_usd = d_eur * F,
       pg_gamma = qm * bs_gamma N F K T iv * PIP_SIZE,
       pg_vega = qm * bs_vega N F K T iv * VOLPT,
       pg_theta = qm * bs_theta N F K T iv right,
       pg_vanna = qm * bs_vanna N F K T iv * VOLPT,
       pg_volga = qm * bs_volga N F K T iv * VOLPT * VOLPT\<rparr>)"

definition position_greeks_of ::
  "normal \<Rightarrow> string \<Rightarrow> string option \<Rightarrow> flt \<Rightarrow> flt \<Rightarrow> flt \<Rightarrow> flt option \<Rightarrow> flt option \<Rightarrow> flt option \<Rightarrow> position_greeks option" where
  "position_greeks_of N instrument_type right qty m F K T iv =
     (if instrument_type = ''FUTURE'' then Some (future_greeks qty m F)
      else (case (right, K, T, iv) of
              (Some r, Some k, Some t, Some v) \<Rightarrow>
                if r \<in> {''C'', ''P''} \<and> 0 < k \<and> 0 < t \<and> 0 < v
                then Some (option_greeks N qty m F k t v r) else None
            | _ \<Rightarrow> None))"

definition sum_greeks :: "position_greeks list \<Rightarrow> position_greeks" where
  "sum_greeks items =
     (if items = [] then ZERO
      else \<lparr>pg_delta_eur = sum_list (map pg_delta_eur items), pg_delta_usd = sum_list (map pg_delta_usd items),
            pg_gamma = sum_list (map pg_gamma items), pg_vega = sum_list (map pg_vega items),
            pg_theta = sum_list (map pg_theta items), pg_vanna = sum_list (map pg_vanna items),
            pg_volga = sum_list (map pg_volga items)\<rparr>)"

section \<open>Properties\<close>

definition normal_law :: "normal \<Rightarrow> bool" where
  "normal_law N \<longleftrightarrow> (\<forall>x. n_cdf N (- x) = 1 - n_cdf N x \<and> 0 \<le> n_cdf N x \<and> n_cdf N x \<le> 1 \<and> 0 \<le> n_pdf N x)"

lemma degenerate_live: "0 < F \<Longrightarrow> 0 < K \<Longrightarrow> 0 < T \<Longrightarrow> 0 < sigma \<Longrightarrow> \<not> degenerate F K T sigma"
  by (simp add: degenerate_def)

lemma bs_sqrt: "0 < T \<Longrightarrow> sqrt T * sqrt T = T" "0 < T \<Longrightarrow> sqrt T \<noteq> 0"
  by simp_all

text \<open>
  The pricer is consistent: a call less a put is worth the forward less the strike and
  has delta one; a call is worth at most the forward and a put at most the strike; deltas
  are between 0 and 1 for a call and -1 and 0 for a put; gamma and vega are not negative
  and tied by vega = gamma F^2 sigma T; theta and gamma satisfy the Black-Scholes equation
  at zero rates; vanna and volga are the documented multiples of vega; and outside the
  domain every value is 0.
\<close>

theorem bs_consistent:
  assumes "normal_law N" and "0 < F" and "0 < K" and "0 < T" and "0 < sigma"
  shows "bs_price N F K T sigma ''C'' - bs_price N F K T sigma ''P'' = F - K \<and>
    bs_delta N F K T sigma ''C'' - bs_delta N F K T sigma ''P'' = 1 \<and>
    bs_price N F K T sigma ''C'' \<le> F \<and> bs_price N F K T sigma ''P'' \<le> K \<and>
    0 \<le> bs_delta N F K T sigma ''C'' \<and> bs_delta N F K T sigma ''C'' \<le> 1 \<and>
    0 \<le> bs_gamma N F K T sigma \<and>
    bs_vega N F K T sigma = bs_gamma N F K T sigma * F ^ 2 * sigma * T \<and>
    365 * bs_theta N F K T sigma right + 1/2 * sigma ^ 2 * F ^ 2 * bs_gamma N F K T sigma = 0 \<and>
    bs_vanna N F K T sigma = - bs_vega N F K T sigma * bs_d2 F K T sigma / (F * sigma * sqrt T) \<and>
    bs_volga N F K T sigma = bs_vega N F K T sigma * bs_d1 F K T sigma * bs_d2 F K T sigma / sigma \<and>
    bs_price N F K 0 sigma right = 0"
proof -
  let ?d1 = "bs_d1 F K T sigma" and ?d2 = "bs_d2 F K T sigma" and ?q = "sqrt T"
  have live: "\<not> degenerate F K T sigma" by (rule degenerate_live [OF assms(2-5)])
  have law: "n_cdf N (- x) = 1 - n_cdf N x" "0 \<le> n_cdf N x" "n_cdf N x \<le> 1" "0 \<le> n_pdf N x" for x
    using assms(1) by (simp_all add: normal_law_def)
  have q: "?q * ?q = T" "0 < ?q" using assms(4) by simp_all
  have call: "bs_price N F K T sigma ''C'' = F * n_cdf N ?d1 - K * n_cdf N ?d2"
    and put: "bs_price N F K T sigma ''P'' = K * (1 - n_cdf N ?d2) - F * (1 - n_cdf N ?d1)"
    using live by (simp_all add: bs_price_def law(1))
  have "F * n_cdf N ?d1 \<le> F * 1" "0 \<le> K * n_cdf N ?d2" "K * (1 - n_cdf N ?d2) \<le> K * 1" "0 \<le> F * (1 - n_cdf N ?d1)"
    using assms law by (intro mult_left_mono mult_nonneg_nonneg; simp)+
  then have ub: "bs_price N F K T sigma ''C'' \<le> F" "bs_price N F K T sigma ''P'' \<le> K"
    unfolding call put by linarith+
  have gam: "bs_gamma N F K T sigma = n_pdf N ?d1 / (F * sigma * ?q)" using live by (simp add: bs_gamma_def)
  have veg: "bs_vega N F K T sigma = F * n_pdf N ?d1 * ?q" using live by (simp add: bs_vega_def)
  have v: "bs_vega N F K T sigma = bs_gamma N F K T sigma * F ^ 2 * sigma * T"
    unfolding gam veg using q assms(2,5) by (simp add: field_simps power2_eq_square)
  have th: "365 * bs_theta N F K T sigma right + 1/2 * sigma ^ 2 * F ^ 2 * bs_gamma N F K T sigma = 0"
    unfolding gam using live q assms(2,5) by (simp add: bs_theta_def field_simps power2_eq_square)
  have va: "bs_vanna N F K T sigma = - bs_vega N F K T sigma * ?d2 / (F * sigma * ?q)"
    unfolding veg using live q assms(2,5) by (simp add: bs_vanna_def field_simps)
  have vo: "bs_volga N F K T sigma = bs_vega N F K T sigma * ?d1 * ?d2 / sigma"
    unfolding veg using live by (simp add: bs_volga_def)
  have "0 \<le> bs_gamma N F K T sigma" unfolding gam using law(4) q assms by simp
  with ub v th va vo show ?thesis
    using live law by (simp add: call put bs_delta_def algebra_simps) (simp add: bs_price_def degenerate_def)
qed

text \<open>A distribution that satisfies the hypothesis: the logistic function.\<close>

definition logistic :: normal where
  "logistic = \<lparr>n_cdf = (\<lambda>x. exp x / (1 + exp x)), n_pdf = (\<lambda>x. exp x / (1 + exp x) ^ 2)\<rparr>"

lemma logistic_law: "normal_law logistic"
proof -
  have "exp (- x) / (1 + exp (- x)) = 1 - exp x / (1 + exp x)" for x :: real
  proof -
    have nz: "1 + exp x \<noteq> 0" using exp_gt_zero [of x] by linarith
    have "exp (- x) / (1 + exp (- x)) = 1 / (1 + exp x)"
      using nz by (simp add: exp_minus divide_simps)
    also have "\<dots> = 1 - exp x / (1 + exp x)" using nz by (simp add: divide_simps)
    finally show ?thesis .
  qed
  moreover have "exp x / (1 + exp x) \<le> 1" for x :: real by (simp add: field_simps add_pos_pos)
  moreover have "0 \<le> exp x / (1 + exp x)" for x :: real by (simp add: add_pos_pos less_imp_le)
  ultimately show ?thesis by (simp add: normal_law_def logistic_def)
qed

theorem bs_consistent_witness:
  "bs_price logistic 2 1 1 1 ''C'' - bs_price logistic 2 1 1 1 ''P'' = 1"
  using bs_consistent [OF logistic_law, of 2 1 1 1] by simp

end
