(* ===== verification/Iv_Lookup.thy ===== *)
theory Iv_Lookup
  imports Prelude
begin

text \<open>
  The implied volatility accessor (\<open>core/vol/iv_lookup.py\<close>). A surface is an association
  list of tenors, a smile one of pillar labels; a pillar has an optional volatility and an
  optional strike (a value that is not a number is None). The inverse normal distribution
  function of the standard library is the parameter \<open>icdf\<close>.
\<close>

type_synonym pillar = "flt option \<times> flt option"
type_synonym smile = "(string \<times> pillar) list"
type_synonym surface = "(string \<times> smile) list"

definition LABELS :: "string list" where
  "LABELS = [''10dp'', ''25dp'', ''atm'', ''25dc'', ''10dc'']"

definition CALL_DELTA :: "(string \<times> flt) list" where
  "CALL_DELTA = [(''10dp'', 90/100), (''25dp'', 75/100), (''atm'', 50/100), (''25dc'', 25/100), (''10dc'', 10/100)]"

record iv_result =
  iv_iv :: flt
  iv_source :: string
  iv_n_points :: nat

definition strike_from_delta :: "(flt \<Rightarrow> flt) \<Rightarrow> flt \<Rightarrow> flt \<Rightarrow> flt \<Rightarrow> string \<Rightarrow> flt" where
  "strike_from_delta icdf F T sigma label =
     (if label = ''atm'' \<or> T \<le> 0 \<or> sigma \<le> 0 then F
      else
        let d1 = icdf (case map_of CALL_DELTA label of None \<Rightarrow> 0 | Some x \<Rightarrow> x);
            vol_t = sigma * sqrt T
        in F * exp (1/2 * vol_t * vol_t - d1 * vol_t))"

text \<open>Where one pillar sits, if it can be placed.\<close>

definition point_of :: "(flt \<Rightarrow> flt) \<Rightarrow> smile \<Rightarrow> flt option \<Rightarrow> flt option \<Rightarrow> string \<Rightarrow> (flt \<times> flt) option" where
  "point_of icdf pillars F T label =
     (case map_of pillars label of
        Some (Some iv, strike) \<Rightarrow>
          if iv \<le> 0 then None
          else (case strike of
                  Some k \<Rightarrow> if 0 < k then Some (k, iv)
                            else (case (F, T) of
                                    (Some f, Some t) \<Rightarrow> if f \<le> 0 then None else Some (strike_from_delta icdf f t iv label, iv)
                                  | _ \<Rightarrow> None)
                | None \<Rightarrow> (case (F, T) of
                             (Some f, Some t) \<Rightarrow> if f \<le> 0 then None else Some (strike_from_delta icdf f t iv label, iv)
                           | _ \<Rightarrow> None))
      | _ \<Rightarrow> None)"

definition points :: "(flt \<Rightarrow> flt) \<Rightarrow> smile \<Rightarrow> flt option \<Rightarrow> flt option \<Rightarrow> (flt \<times> flt) list" where
  "points icdf pillars F T = sort_key fst (List.map_filter (point_of icdf pillars F T) LABELS)"

text \<open>The loop over neighbouring points; the last point when it falls through.\<close>

fun bracket :: "flt \<Rightarrow> nat \<Rightarrow> (flt \<times> flt) list \<Rightarrow> iv_result option" where
  "bracket strike n ((k0, v0) # (k1, v1) # rest) =
     (if strike = k0 then Some \<lparr>iv_iv = v0, iv_source = ''pillar'', iv_n_points = n\<rparr>
      else if k0 < strike \<and> strike < k1 then
        (let w = (strike - k0) / (k1 - k0)
         in Some \<lparr>iv_iv = v0 + w * (v1 - v0), iv_source = ''interp_strike'', iv_n_points = n\<rparr>)
      else bracket strike n ((k1, v1) # rest))"
| "bracket strike n _ = None"

definition iv_on_points :: "(flt \<times> flt) list \<Rightarrow> flt \<Rightarrow> iv_result option" where
  "iv_on_points pts strike =
     (case pts of
        [] \<Rightarrow> None
      | (k0, v0) # rest \<Rightarrow>
          let n = length pts; (kn, vn) = last pts in
          if n = 1 then Some \<lparr>iv_iv = v0, iv_source = ''single_pillar'', iv_n_points = n\<rparr>
          else if strike \<le> k0 then
            Some \<lparr>iv_iv = v0, iv_source = (if strike = k0 then ''pillar'' else ''wing_clamp''), iv_n_points = n\<rparr>
          else if kn \<le> strike then
            Some \<lparr>iv_iv = vn, iv_source = (if strike = kn then ''pillar'' else ''wing_clamp''), iv_n_points = n\<rparr>
          else (case bracket strike n pts of
                  Some r \<Rightarrow> Some r
                | None \<Rightarrow> Some \<lparr>iv_iv = vn, iv_source = ''pillar'', iv_n_points = n\<rparr>))"

definition iv_at_strike ::
  "(flt \<Rightarrow> flt) \<Rightarrow> surface option \<Rightarrow> string \<Rightarrow> flt \<Rightarrow> flt option \<Rightarrow> flt option \<Rightarrow> iv_result option" where
  "iv_at_strike icdf surf tenor strike F T =
     (case surf of
        None \<Rightarrow> None
      | Some sf \<Rightarrow>
          (case map_of sf tenor of
             None \<Rightarrow> None
           | Some pillars \<Rightarrow> iv_on_points (points icdf pillars F T) strike))"

text \<open>\<open>interpolate_iv\<close> of \<open>core/pricing/bs.py\<close>.\<close>

definition interpolate_iv ::
  "(flt \<Rightarrow> flt) \<Rightarrow> surface option \<Rightarrow> string \<Rightarrow> flt \<Rightarrow> flt \<Rightarrow> flt option \<Rightarrow> flt option" where
  "interpolate_iv icdf surf tenor strike F T = map_option iv_iv (iv_at_strike icdf surf tenor strike (Some F) T)"

section \<open>Facts\<close>

lemma sorted_points: "sorted (map fst (points icdf pillars F T))"
  by (simp add: points_def)

lemma points_iv: "(k, v) \<in> set (points icdf pillars F T) \<Longrightarrow> 0 < v"
proof -
  have "(k, v) \<in> set (List.map_filter (point_of icdf pillars F T) ls) \<Longrightarrow> 0 < v" for ls
    by (induction ls) (auto simp: List.map_filter_simps point_of_def split: option.splits if_splits prod.splits)
  then show "(k, v) \<in> set (points icdf pillars F T) \<Longrightarrow> 0 < v" by (simp add: points_def)
qed

lemma bracket_between:
  "sorted (map fst pts) \<Longrightarrow> bracket strike n pts = Some r \<Longrightarrow>
     (\<exists>k0 v0 k1 v1. (k0, v0) \<in> set pts \<and> (k1, v1) \<in> set pts \<and> k0 \<le> strike \<and> strike < k1 \<and>
        iv_iv r = v0 + (strike - k0) / (k1 - k0) * (v1 - v0)) \<or>
     (\<exists>v. (strike, v) \<in> set pts \<and> iv_iv r = v)"
proof (induction strike n pts rule: bracket.induct)
  case (1 strike n k0 v0 k1 v1 rest)
  consider "strike = k0" | "k0 < strike \<and> strike < k1" | "strike \<noteq> k0 \<and> \<not> (k0 < strike \<and> strike < k1)" by blast
  then show ?case
  proof cases
    case 1
    with "1.prems" have "iv_iv r = v0" by auto
    with 1 show ?thesis by auto
  next
    case 2
    with "1.prems" have "iv_iv r = v0 + (strike - k0) / (k1 - k0) * (v1 - v0)" by (auto simp: Let_def)
    with 2 show ?thesis by (intro disjI1 exI [of _ k0] exI [of _ v0] exI [of _ k1] exI [of _ v1]) auto
  next
    case 3
    with "1.prems" "1.IH" show ?thesis by fastforce
  qed
qed simp_all

lemma lerp_between:
  fixes a b lo hi :: real
  assumes "k0 \<le> x" "x < k1" "lo \<le> a" "a \<le> hi" "lo \<le> b" "b \<le> hi"
  shows "lo \<le> a + (x - k0) / (k1 - k0) * (b - a)" "a + (x - k0) / (k1 - k0) * (b - a) \<le> hi"
proof -
  define w where "w = (x - k0) / (k1 - k0)"
  have w: "0 \<le> w" "w \<le> 1" using assms(1,2) by (simp_all add: w_def field_simps)
  have e: "a + w * (b - a) = (1 - w) * a + w * b" by (simp add: algebra_simps)
  have "(1 - w) * lo + w * lo \<le> (1 - w) * a + w * b"
    using w assms by (intro add_mono mult_left_mono) auto
  moreover have "(1 - w) * a + w * b \<le> (1 - w) * hi + w * hi"
    using w assms by (intro add_mono mult_left_mono) auto
  moreover have "(1 - w) * lo + w * lo = lo" "(1 - w) * hi + w * hi = hi" by (simp_all add: algebra_simps)
  ultimately show "lo \<le> a + (x - k0) / (k1 - k0) * (b - a)" "a + (x - k0) / (k1 - k0) * (b - a) \<le> hi"
    unfolding w_def [symmetric] e by linarith+
qed

lemma bracket_hit:
  "sorted (map fst pts) \<Longrightarrow> distinct (map fst pts) \<Longrightarrow> (k, v) \<in> set pts \<Longrightarrow> k \<noteq> fst (last pts) \<Longrightarrow>
     \<exists>r. bracket k n pts = Some r \<and> iv_iv r = v \<and> iv_source r = ''pillar''"
proof (induction k n pts rule: bracket.induct)
  case (1 strike n k0 v0 k1 v1 rest)
  show ?case
  proof (cases "strike = k0")
    case True
    with "1.prems" have "v = v0" by (force simp: image_iff)
    with True show ?thesis by simp
  next
    case False
    have "\<not> (k0 < strike \<and> strike < k1)"
      using "1.prems"(1,3) False by force
    with False "1.prems" "1.IH" show ?thesis by auto
  qed
qed auto

lemma iv_on_points_in:
  assumes "sorted (map fst pts)" and "iv_on_points pts strike = Some r"
  shows "(\<exists>k0 v0 k1 v1. (k0, v0) \<in> set pts \<and> (k1, v1) \<in> set pts \<and> k0 \<le> strike \<and> strike < k1 \<and>
        iv_iv r = v0 + (strike - k0) / (k1 - k0) * (v1 - v0)) \<or> (\<exists>k. (k, iv_iv r) \<in> set pts)"
proof -
  obtain k0 v0 rest where p: "pts = (k0, v0) # rest" using assms(2) by (cases pts) (auto simp: iv_on_points_def)
  obtain kn vn where l: "last pts = (kn, vn)" by (rule prod.exhaust)
  then have ends: "(kn, vn) \<in> set pts" "(k0, v0) \<in> set pts" using p last_in_set [of pts] by auto
  have "iv_iv r = v0 \<or> iv_iv r = vn \<or> bracket strike (length pts) pts = Some r"
    using assms(2) p l by (auto simp: iv_on_points_def Let_def split: if_splits option.splits)
  then show ?thesis
  proof (elim disjE)
    assume "bracket strike (length pts) pts = Some r"
    from bracket_between [OF assms(1) this] show ?thesis by blast
  qed (use ends in blast)+
qed

section \<open>Properties\<close>

text \<open>
  The lookup never invents volatility: it answers exactly when some pillar of the tenor
  can be placed, the answer is positive and between the lowest and the highest pillar
  volatility, and at the strike of a pillar (strikes distinct) it is that pillar's.
\<close>

theorem iv_at_strike_within:
  assumes "surf = Some sf" and "map_of sf tenor = Some pillars" and "pts = points icdf pillars F T"
  shows "(iv_at_strike icdf surf tenor strike F T = None \<longleftrightarrow> pts = []) \<and>
    (\<forall>r. iv_at_strike icdf surf tenor strike F T = Some r \<longrightarrow>
       0 < iv_iv r \<and> Min (snd ` set pts) \<le> iv_iv r \<and> iv_iv r \<le> Max (snd ` set pts) \<and>
       iv_n_points r = length pts) \<and>
    (\<forall>k v. distinct (map fst pts) \<longrightarrow> (k, v) \<in> set pts \<longrightarrow>
       (\<exists>r. iv_at_strike icdf surf tenor k F T = Some r \<and> iv_iv r = v))"
proof (intro conjI allI impI)
  have at: "iv_at_strike icdf surf tenor x F T = iv_on_points pts x" for x
    using assms by (simp add: iv_at_strike_def)
  have sorted: "sorted (map fst pts)" unfolding assms(3) by (rule sorted_points)
  have n: "iv_n_points r = n" if "bracket x n ps = Some r" for x n ps r
    using that by (induction x n ps rule: bracket.induct) (auto simp: Let_def split: if_splits)
  show "iv_at_strike icdf surf tenor strike F T = None \<longleftrightarrow> pts = []"
    by (auto simp: at iv_on_points_def Let_def split: list.splits option.splits prod.splits)
  fix r assume "iv_at_strike icdf surf tenor strike F T = Some r"
  then have r: "iv_on_points pts strike = Some r" using at by simp
  have pos: "(k, v) \<in> set pts \<Longrightarrow> 0 < v" for k v using points_iv assms(3) by blast
  have ne: "snd ` set pts \<noteq> {}" "finite (snd ` set pts)" using r by (auto simp: iv_on_points_def)
  have le: "Min (snd ` set pts) \<le> v" "v \<le> Max (snd ` set pts)" if "(k, v) \<in> set pts" for k v
    using that ne(2) by (force intro: Min_le Max_ge)+
  from iv_on_points_in [OF sorted r]
  show b: "Min (snd ` set pts) \<le> iv_iv r" "iv_iv r \<le> Max (snd ` set pts)"
    using le lerp_between by (elim disjE exE conjE; metis)+
  have "0 < Min (snd ` set pts)" using ne pos by auto
  with b show "0 < iv_iv r" by linarith
  show "iv_n_points r = length pts"
    using r n by (auto simp: iv_on_points_def Let_def split: list.splits if_splits option.splits prod.splits)
next
  fix k v assume d: "distinct (map fst pts)" and kv: "(k, v) \<in> set pts"
  have at: "iv_at_strike icdf surf tenor k F T = iv_on_points pts k"
    using assms by (simp add: iv_at_strike_def)
  have sorted: "sorted (map fst pts)" unfolding assms(3) by (rule sorted_points)
  obtain k0 v0 rest where p: "pts = (k0, v0) # rest" using kv by (cases pts) auto
  obtain kn vn where l: "last pts = (kn, vn)" by (rule prod.exhaust)
  have lin: "(kn, vn) \<in> set pts" using l p last_in_set [of pts] by auto
  have same: "x = y" if "(j, x) \<in> set pts" "(j, y) \<in> set pts" for j x y
    using that d by (metis map_of_is_SomeI option.inject)
  have ge: "k0 \<le> k" using sorted kv p by auto
  show "\<exists>r. iv_at_strike icdf surf tenor k F T = Some r \<and> iv_iv r = v"
  proof (cases "k = kn")
    case True
    then have "v = vn" using same kv lin by blast
    moreover have "k \<le> k0 \<Longrightarrow> v = v0" using ge same [of k v v0] kv p by simp
    moreover have "length pts = 1 \<Longrightarrow> v = v0" using kv p by auto
    ultimately show ?thesis unfolding at using True l p by (auto simp: iv_on_points_def Let_def)
  next
    case False
    then have "k < kn"
    proof -
      obtain i where i: "i < length pts" "pts ! i = (k, v)" using kv by (metis in_set_conv_nth)
      have "last pts = pts ! (length pts - 1)" using p by (intro last_conv_nth) simp
      then have "map fst pts ! i \<le> map fst pts ! (length pts - 1)"
        using i sorted by (intro sorted_nth_mono) auto
      with i l \<open>last pts = pts ! (length pts - 1)\<close> have "k \<le> kn" by simp
      with False show ?thesis by simp
    qed
    moreover obtain r where "bracket k (length pts) pts = Some r" "iv_iv r = v"
      using bracket_hit [OF sorted d kv] False l by fastforce
    moreover have "k \<le> k0 \<Longrightarrow> v = v0" using ge same [of k v v0] kv p by simp
    moreover have "length pts = 1 \<Longrightarrow> v = v0" using kv p by auto
    ultimately show ?thesis unfolding at using l p by (auto simp: iv_on_points_def Let_def)
  qed
qed

theorem iv_at_strike_within_witness:
  "\<exists>r. iv_at_strike (\<lambda>_. 0) (Some [(''1M'', [(''atm'', (Some (7/100), Some 1)), (''25dc'', (Some (8/100), Some 2))])])
     ''1M'' (3/2) None None = Some r \<and> 7/100 \<le> iv_iv r \<and> iv_iv r \<le> 8/100"
proof -
  let ?p = "[(''atm'', (Some (7/100), Some 1)), (''25dc'', (Some (8/100), Some 2))] :: smile"
  have pts: "points (\<lambda>_. 0) ?p None None = [(1, 7/100), (2, 8/100)]"
    by (simp add: points_def LABELS_def List.map_filter_simps point_of_def)
  let ?l = "iv_at_strike (\<lambda>_. 0) (Some [(''1M'', ?p)]) ''1M'' (3/2) None None"
  let ?sf = "[(''1M'', ?p)]"
  have sf: "map_of ?sf ''1M'' = Some ?p" by simp
  have w: "(iv_at_strike (\<lambda>_. 0) (Some ?sf) ''1M'' (3/2) None None = None \<longleftrightarrow> points (\<lambda>_. 0) ?p None None = []) \<and>
    (\<forall>r. iv_at_strike (\<lambda>_. 0) (Some ?sf) ''1M'' (3/2) None None = Some r \<longrightarrow>
       0 < iv_iv r \<and> Min (snd ` set (points (\<lambda>_. 0) ?p None None)) \<le> iv_iv r \<and>
       iv_iv r \<le> Max (snd ` set (points (\<lambda>_. 0) ?p None None)) \<and> iv_n_points r = length (points (\<lambda>_. 0) ?p None None))"
    using iv_at_strike_within [OF refl sf refl, where strike = "3/2" and icdf = "\<lambda>_. 0" and F = None and T = None]
    by blast
  then obtain r where r: "iv_at_strike (\<lambda>_. 0) (Some ?sf) ''1M'' (3/2) None None = Some r"
    unfolding pts by (cases "iv_at_strike (\<lambda>_. 0) (Some ?sf) ''1M'' (3/2) None None") auto
  with w show ?thesis unfolding pts by (intro exI [of _ r]) simp
qed

end
