(* ===== verification/Position_Pricing.thy ===== *)
theory Position_Pricing
  imports Black_Scholes Iv_Lookup
begin

text \<open>
  Re-pricing of an open position (\<open>core/positions/position_pricing.py\<close>) and its mark to
  market with the attribution of the result (\<open>core/positions/mtm.py\<close>). A date is its day
  number. The distribution functions are parameters as in the pricer and the lookup.
\<close>

section \<open>Mark to market\<close>

record mtm_result =
  mr_pnl_gross_usd :: flt
  mr_pnl_net_usd :: flt
  mr_mark_value_usd :: flt
  mr_spot_now :: flt
  mr_iv_now_pct :: flt

definition compute_mtm :: "flt \<Rightarrow> flt \<Rightarrow> flt \<Rightarrow> flt \<Rightarrow> flt \<Rightarrow> flt \<Rightarrow> mtm_result" where
  "compute_mtm entry_premium mark entry_cost hedge_cost spot_now iv_now =
     (let gross = mark - entry_premium
      in \<lparr>mr_pnl_gross_usd = gross, mr_pnl_net_usd = gross - entry_cost - hedge_cost,
          mr_mark_value_usd = mark, mr_spot_now = spot_now, mr_iv_now_pct = iv_now\<rparr>)"

record pnl_attribution =
  pa_vega_usd :: flt
  pa_gamma_usd :: flt
  pa_theta_usd :: flt
  pa_other_usd :: flt

definition total_attributed :: "pnl_attribution \<Rightarrow> flt" where
  "total_attributed a = pa_vega_usd a + pa_gamma_usd a + pa_theta_usd a + pa_other_usd a"

definition attribute_pnl ::
  "flt \<Rightarrow> flt \<Rightarrow> flt \<Rightarrow> flt \<Rightarrow> flt \<Rightarrow> flt \<Rightarrow> flt \<Rightarrow> flt \<Rightarrow> flt \<Rightarrow> pnl_attribution" where
  "attribute_pnl gross entry_vega entry_gamma entry_theta iv_entry iv_now spot_entry spot_now days =
     (let vega = entry_vega * (iv_now - iv_entry);
          pips = (spot_now - spot_entry) / PIP_SIZE;
          gamma = 1/2 * entry_gamma * pips * pips;
          theta = entry_theta * days
      in \<lparr>pa_vega_usd = vega, pa_gamma_usd = gamma, pa_theta_usd = theta,
          pa_other_usd = gross - (vega + gamma + theta)\<rparr>)"

section \<open>Re-pricing\<close>

record leg_spec =
  ls_leg_idx :: int
  ls_contract_type :: string
  ls_strike :: flt
  ls_expiry :: int
  ls_tenor :: string
  ls_side :: string
  ls_qty :: int
  ls_fallback_iv :: "flt option"

record leg_pricing =
  lpr_leg_idx :: int
  lpr_price :: flt
  lpr_delta :: flt
  lpr_gamma :: flt
  lpr_vega :: flt
  lpr_theta :: flt
  lpr_iv_used :: flt
  lpr_sign :: int
  lpr_qty_signed :: int
  lpr_iv_source :: string

record position_mark =
  pm_mark :: flt
  pm_delta :: flt
  pm_gamma :: flt
  pm_vega :: flt
  pm_theta :: flt
  pm_legs :: "leg_pricing list"
  pm_n_missing :: nat

definition years_to_expiry :: "int \<Rightarrow> int \<Rightarrow> flt" where
  "years_to_expiry expiry today = of_int (max 0 (expiry - today)) / 365"

record market =
  mk_normal :: normal
  mk_icdf :: "flt \<Rightarrow> flt"
  mk_surface :: "surface option"
  mk_spot :: flt
  mk_today :: int
  mk_multiplier :: flt

text \<open>The volatility of a leg, where it came from, and whether the surface missed it.\<close>

definition leg_iv :: "market \<Rightarrow> leg_spec \<Rightarrow> flt option \<times> string \<times> nat" where
  "leg_iv m leg =
     (case iv_at_strike (mk_icdf m) (mk_surface m) (ls_tenor leg) (ls_strike leg) (Some (mk_spot m))
             (Some (years_to_expiry (ls_expiry leg) (mk_today m))) of
        Some r \<Rightarrow> (Some (iv_iv r), iv_source r, 0)
      | None \<Rightarrow> (case ls_fallback_iv leg of None \<Rightarrow> (None, ''none'', 0) | Some v \<Rightarrow> (Some v, ''fallback'', 1)))"

definition leg_right :: "leg_spec \<Rightarrow> string" where
  "leg_right leg = (if py_lower (ls_contract_type leg) \<in> {''call'', ''c''} then ''C'' else ''P'')"

definition leg_sign :: "leg_spec \<Rightarrow> int" where
  "leg_sign leg = (if py_upper (ls_side leg) = BUY then 1 else -1)"

definition price_leg :: "market \<Rightarrow> leg_spec \<Rightarrow> flt \<Rightarrow> string \<Rightarrow> leg_pricing" where
  "price_leg m leg sigma src =
     (let T = years_to_expiry (ls_expiry leg) (mk_today m); N = mk_normal m; F = mk_spot m;
          K = ls_strike leg; right = leg_right leg
      in \<lparr>lpr_leg_idx = ls_leg_idx leg, lpr_price = bs_price N F K T sigma right,
          lpr_delta = bs_delta N F K T sigma right, lpr_gamma = bs_gamma N F K T sigma,
          lpr_vega = bs_vega N F K T sigma, lpr_theta = bs_theta N F K T sigma right,
          lpr_iv_used = sigma, lpr_sign = leg_sign leg, lpr_qty_signed = leg_sign leg * ls_qty leg,
          lpr_iv_source = src\<rparr>)"

definition unpriced_leg :: "leg_spec \<Rightarrow> leg_pricing" where
  "unpriced_leg leg =
     \<lparr>lpr_leg_idx = ls_leg_idx leg, lpr_price = 0, lpr_delta = 0, lpr_gamma = 0, lpr_vega = 0, lpr_theta = 0,
      lpr_iv_used = 0, lpr_sign = 0, lpr_qty_signed = 0, lpr_iv_source = ''none''\<rparr>"

definition add_leg :: "market \<Rightarrow> position_mark \<Rightarrow> leg_spec \<Rightarrow> position_mark" where
  "add_leg m a leg =
     (let (sigma, src, miss) = leg_iv m leg;
          a1 = a\<lparr>pm_n_missing := pm_n_missing a + miss\<rparr>;
          gap = a1\<lparr>pm_legs := pm_legs a1 @ [unpriced_leg leg], pm_n_missing := pm_n_missing a1 + 1\<rparr>
      in case sigma of
           None \<Rightarrow> gap
         | Some s \<Rightarrow>
             if s \<le> 0 then gap
             else
               let p = price_leg m leg s src; q = of_int (lpr_qty_signed p); k = mk_multiplier m
               in a1\<lparr>pm_mark := pm_mark a1 + of_int (lpr_sign p) * lpr_price p * \<bar>q\<bar> * k,
                     pm_delta := pm_delta a1 + lpr_delta p * q,
                     pm_gamma := pm_gamma a1 + lpr_gamma p * (PIP_SIZE * PIP_SIZE) * q * k,
                     pm_vega := pm_vega a1 + lpr_vega p * VOLPT * q * k,
                     pm_theta := pm_theta a1 + lpr_theta p * q * k,
                     pm_legs := pm_legs a1 @ [p]\<rparr>)"

definition empty_mark :: position_mark where
  "empty_mark = \<lparr>pm_mark = 0, pm_delta = 0, pm_gamma = 0, pm_vega = 0, pm_theta = 0, pm_legs = [], pm_n_missing = 0\<rparr>"

definition price_position :: "market \<Rightarrow> leg_spec list \<Rightarrow> position_mark" where
  "price_position m legs = foldl (add_leg m) empty_mark legs"

section \<open>A position is the sum of its legs\<close>

definition mark_sum :: "position_mark \<Rightarrow> position_mark \<Rightarrow> position_mark" where
  "mark_sum a b = \<lparr>pm_mark = pm_mark a + pm_mark b, pm_delta = pm_delta a + pm_delta b,
     pm_gamma = pm_gamma a + pm_gamma b, pm_vega = pm_vega a + pm_vega b, pm_theta = pm_theta a + pm_theta b,
     pm_legs = pm_legs a @ pm_legs b, pm_n_missing = pm_n_missing a + pm_n_missing b\<rparr>"

lemma mark_sum_assoc: "mark_sum (mark_sum a b) c = mark_sum a (mark_sum b c)"
  by (simp add: mark_sum_def)

lemma mark_sum_empty [simp]: "mark_sum a empty_mark = a" "mark_sum empty_mark a = a"
  by (simp_all add: mark_sum_def empty_mark_def)

definition leg_mark :: "market \<Rightarrow> leg_spec \<Rightarrow> position_mark" where
  "leg_mark m leg = add_leg m empty_mark leg"

lemma add_leg_sum: "add_leg m a leg = mark_sum a (leg_mark m leg)"
proof -
  obtain sg src miss where l: "leg_iv m leg = (sg, src, miss)" by (metis prod_cases3)
  show ?thesis
    unfolding leg_mark_def add_leg_def l by (simp add: mark_sum_def empty_mark_def Let_def split: option.splits)
qed

lemma fold_from_empty: "foldl (add_leg m) a legs = mark_sum a (foldl (add_leg m) empty_mark legs)"
proof (induction legs arbitrary: a)
  case (Cons leg legs)
  have "foldl (add_leg m) a (leg # legs) = mark_sum (add_leg m a leg) (foldl (add_leg m) empty_mark legs)"
    unfolding foldl_Cons by (rule Cons.IH)
  also have "\<dots> = mark_sum a (mark_sum (leg_mark m leg) (foldl (add_leg m) empty_mark legs))"
    unfolding add_leg_sum by (rule mark_sum_assoc)
  also have "mark_sum (leg_mark m leg) (foldl (add_leg m) empty_mark legs) = foldl (add_leg m) empty_mark (leg # legs)"
    unfolding foldl_Cons leg_mark_def by (rule Cons.IH [symmetric])
  finally show ?case .
qed simp

lemma price_position_Nil [simp]: "price_position m [] = empty_mark"
  by (simp add: price_position_def)

lemma price_position_append: "price_position m (xs @ ys) = mark_sum (price_position m xs) (price_position m ys)"
  unfolding price_position_def foldl_append by (rule fold_from_empty)

lemma price_position_Cons: "price_position m (leg # legs) = mark_sum (leg_mark m leg) (price_position m legs)"
  using price_position_append [of m "[leg]" legs] by (simp add: price_position_def leg_mark_def)

definition flip_side :: "leg_spec \<Rightarrow> leg_spec" where
  "flip_side leg = leg\<lparr>ls_side := (if py_upper (ls_side leg) = BUY then SELL else BUY)\<rparr>"

definition exposures :: "position_mark \<Rightarrow> flt list" where
  "exposures a = [pm_mark a, pm_delta a, pm_gamma a, pm_vega a, pm_theta a]"

lemma flip_side_fields [simp]:
  "ls_leg_idx (flip_side leg) = ls_leg_idx leg" "ls_contract_type (flip_side leg) = ls_contract_type leg"
  "ls_strike (flip_side leg) = ls_strike leg" "ls_expiry (flip_side leg) = ls_expiry leg"
  "ls_tenor (flip_side leg) = ls_tenor leg" "ls_qty (flip_side leg) = ls_qty leg"
  "ls_fallback_iv (flip_side leg) = ls_fallback_iv leg"
  by (simp_all add: flip_side_def)

lemma leg_sign_flip: "leg_sign (flip_side leg) = - leg_sign leg"
  by (simp add: leg_sign_def flip_side_def)

lemma price_leg_flip:
  "price_leg m (flip_side leg) s src =
     (price_leg m leg s src)\<lparr>lpr_sign := - leg_sign leg, lpr_qty_signed := - (leg_sign leg * ls_qty leg)\<rparr>"
  unfolding price_leg_def Let_def leg_sign_flip by (simp add: leg_right_def)

lemma leg_mark_flip:
  "exposures (leg_mark m (flip_side leg)) = map uminus (exposures (leg_mark m leg)) \<and>
   pm_n_missing (leg_mark m (flip_side leg)) = pm_n_missing (leg_mark m leg)"
proof -
  obtain sg src miss where l: "leg_iv m leg = (sg, src, miss)" by (metis prod_cases3)
  have "leg_iv m (flip_side leg) = leg_iv m leg" unfolding leg_iv_def flip_side_fields by (rule refl)
  with l have lf: "leg_iv m (flip_side leg) = (sg, src, miss)" by simp
  have sel: "lpr_sign (price_leg m leg s src) = leg_sign leg"
    "lpr_qty_signed (price_leg m leg s src) = leg_sign leg * ls_qty leg" for s
    by (simp_all add: price_leg_def Let_def)
  show ?thesis
    unfolding leg_mark_def add_leg_def l lf
    by (simp add: exposures_def empty_mark_def Let_def price_leg_flip sel abs_mult split: option.splits)
qed

section \<open>Properties\<close>

text \<open>
  A position is worth the sum of its parts: the mark and every greek of two leg lists
  together are the sums of the two, the legs are priced in order and the missing ones
  counted once per list; the same legs on the opposite sides have exactly the opposite mark
  and greeks; so a position with its mirror is flat. And the attribution of a result adds
  up to the result.
\<close>

theorem position_additive:
  "price_position m (xs @ ys) = mark_sum (price_position m xs) (price_position m ys) \<and>
   exposures (price_position m (map flip_side xs)) = map uminus (exposures (price_position m xs)) \<and>
   exposures (price_position m (xs @ map flip_side xs)) = [0, 0, 0, 0, 0] \<and>
   length (pm_legs (price_position m xs)) = length xs \<and>
   total_attributed (attribute_pnl (mr_pnl_gross_usd (compute_mtm prem (pm_mark (price_position m xs)) c h s iv))
      ev eg et i0 i1 s0 s1 days) = pm_mark (price_position m xs) - prem"
proof (intro conjI)
  show "price_position m (xs @ ys) = mark_sum (price_position m xs) (price_position m ys)"
    by (rule price_position_append)
  show f: "exposures (price_position m (map flip_side xs)) = map uminus (exposures (price_position m xs))"
  proof (induction xs)
    case Nil
    show ?case by (simp add: empty_mark_def exposures_def)
  next
    case (Cons leg xs)
    with leg_mark_flip [of m leg] show ?case
      by (simp add: price_position_Cons exposures_def mark_sum_def)
  qed
  show "exposures (price_position m (xs @ map flip_side xs)) = [0, 0, 0, 0, 0]"
    using f unfolding price_position_append by (simp add: exposures_def mark_sum_def)
  have "length (pm_legs (leg_mark m leg)) = 1" for leg
  proof -
    obtain sg src miss where l: "leg_iv m leg = (sg, src, miss)" by (metis prod_cases3)
    show ?thesis unfolding leg_mark_def add_leg_def l by (simp add: empty_mark_def Let_def split: option.splits)
  qed
  then show "length (pm_legs (price_position m xs)) = length xs"
    by (induction xs) (simp_all add: price_position_Cons mark_sum_def empty_mark_def)
qed (simp add: total_attributed_def attribute_pnl_def compute_mtm_def Let_def)

text \<open>A leg with a fallback volatility of 0 is counted as two missing legs.\<close>

lemma missing_counted_twice:
  "pm_n_missing (price_position
      \<lparr>mk_normal = logistic, mk_icdf = (\<lambda>_. 0), mk_surface = None, mk_spot = 1, mk_today = 0, mk_multiplier = 1\<rparr>
      [\<lparr>ls_leg_idx = 0, ls_contract_type = ''call'', ls_strike = 1, ls_expiry = 30, ls_tenor = ''1M'',
        ls_side = BUY, ls_qty = 1, ls_fallback_iv = Some 0\<rparr>]) = 2"
  by (simp add: price_position_def add_leg_def leg_iv_def iv_at_strike_def empty_mark_def)

end
