(* ===== verification/Stress.thy ===== *)
theory Stress
  imports Black_Scholes
begin

text \<open>
  Scenario revaluation of the book (\<open>core/risk/stress.py\<close>) and the historical simulation
  built on it (\<open>core/risk/hist_var.py\<close>). The fields of an option are meaningless for a
  future, as in the code.
\<close>

section \<open>Revaluation\<close>

definition MONEY_BAND :: flt where "MONEY_BAND = 5 / 100"
definition GAMMA_PER_PIP :: flt where "GAMMA_PER_PIP = 1 / 10000"
definition VEGA_PER_VOLPT :: flt where "VEGA_PER_VOLPT = 1 / 100"
definition VANNA_SCALE :: flt where "VANNA_SCALE = 1 / 100"
definition VOLGA_SCALE :: flt where "VOLGA_SCALE = 1 / 10000"

datatype stress_output = Out_pnl | Out_delta | Out_gamma | Out_vega | Out_theta | Out_vanna | Out_volga

record resolved_position =
  rs_type :: string
  rs_qty_signed :: flt
  rs_mult :: flt
  rs_K :: flt
  rs_T :: flt
  rs_iv :: flt
  rs_right :: string
  rs_price_base :: flt

definition money_weight :: "flt \<Rightarrow> flt \<Rightarrow> flt" where
  "money_weight strike spot =
     (if spot \<le> 0 then 0 else max (-1) (min 1 ((strike - spot) / (spot * MONEY_BAND))))"

record scenario =
  sc_dspot_bp :: flt
  sc_dvol_vp :: flt
  sc_dt_days :: flt
  sc_dskew_vp :: flt
  sc_dfly_vp :: flt

definition shocked_iv :: "resolved_position \<Rightarrow> flt \<Rightarrow> scenario \<Rightarrow> flt" where
  "shocked_iv p spot s =
     (let iv = rs_iv p + sc_dvol_vp s / 100 in
      if sc_dskew_vp s \<noteq> 0 \<or> sc_dfly_vp s \<noteq> 0
      then let w = money_weight (rs_K p) spot
           in iv + sc_dskew_vp s / 100 * (1/2) * w + sc_dfly_vp s / 100 * \<bar>w\<bar>
      else iv)"

definition greek_of :: "normal \<Rightarrow> stress_output \<Rightarrow> flt \<Rightarrow> flt \<Rightarrow> resolved_position \<Rightarrow> flt \<Rightarrow> flt \<Rightarrow> flt" where
  "greek_of N out qm spot p T iv =
     (case out of
        Out_delta \<Rightarrow> qm * bs_delta N spot (rs_K p) T iv (rs_right p)
      | Out_gamma \<Rightarrow> qm * bs_gamma N spot (rs_K p) T iv * GAMMA_PER_PIP
      | Out_vega \<Rightarrow> qm * bs_vega N spot (rs_K p) T iv * VEGA_PER_VOLPT
      | Out_theta \<Rightarrow> qm * bs_theta N spot (rs_K p) T iv (rs_right p)
      | Out_vanna \<Rightarrow> qm * bs_vanna N spot (rs_K p) T iv * VANNA_SCALE
      | Out_volga \<Rightarrow> qm * bs_volga N spot (rs_K p) T iv * VOLGA_SCALE
      | Out_pnl \<Rightarrow> 0)"

text \<open>What one position adds to the total.\<close>

definition reval_one :: "normal \<Rightarrow> flt \<Rightarrow> scenario \<Rightarrow> stress_output \<Rightarrow> resolved_position \<Rightarrow> flt" where
  "reval_one N spot0 s out p =
     (let new_spot = spot0 * (1 + sc_dspot_bp s / 10000); qm = rs_qty_signed p * rs_mult p in
      if rs_type p = ''FUTURE''
      then (case out of Out_pnl \<Rightarrow> qm * (new_spot - spot0) | Out_delta \<Rightarrow> qm | _ \<Rightarrow> 0)
      else
        let new_T = max (1 / 10000) (rs_T p - sc_dt_days s / 365); new_iv = shocked_iv p new_spot s in
        if new_iv \<le> 0 then 0
        else if out = Out_pnl
        then qm * (bs_price N new_spot (rs_K p) new_T new_iv (rs_right p) - rs_price_base p)
        else greek_of N out qm new_spot p new_T new_iv)"

definition reval_book :: "normal \<Rightarrow> resolved_position list \<Rightarrow> flt \<Rightarrow> scenario \<Rightarrow> stress_output \<Rightarrow> flt" where
  "reval_book N book spot0 s out = foldl (\<lambda>acc p. acc + reval_one N spot0 s out p) 0 book"

section \<open>Historical shocks\<close>

definition RV_WINDOW :: nat where "RV_WINDOW = 21"
definition TRADING_DAYS :: flt where "TRADING_DAYS = 252"

fun daily_returns :: "flt list \<Rightarrow> flt list" where
  "daily_returns (prev # cur # rest) =
     (if 0 < prev \<and> 0 < cur then (cur / prev - 1) # daily_returns (cur # rest) else daily_returns (cur # rest))"
| "daily_returns _ = []"

text \<open>The realised volatility of the window that ends at position \<open>i\<close>.\<close>

definition window_vol :: "flt list \<Rightarrow> nat \<Rightarrow> nat \<Rightarrow> flt" where
  "window_vol rets window i =
     (let w = take window (drop (i + 1 - window) rets);
          mean = sum_list w / of_nat window;
          var = sum_list (map (\<lambda>x. (x - mean) ^ 2) w) / of_nat (window - 1)
      in sqrt var * sqrt TRADING_DAYS * 100)"

definition rolling_rv_vp :: "flt list \<Rightarrow> nat \<Rightarrow> flt option list result" where
  "rolling_rv_vp rets window =
     (if window < 2 then Inl (ValueError ''window must be >= 2'')
      else Inr (map (\<lambda>i. if i + 1 < window then None else Some (window_vol rets window i)) [0..<length rets]))"

type_synonym shock = "flt \<times> flt"

definition market_shocks :: "flt list \<Rightarrow> nat \<Rightarrow> shock list result" where
  "market_shocks closes rv_window =
     (let rets = daily_returns closes in
      case rolling_rv_vp rets rv_window of
        Inl e \<Rightarrow> Inl e
      | Inr rv \<Rightarrow> Inr (List.map_filter
          (\<lambda>i. case (rv ! (i - 1), rv ! i) of
                 (Some a, Some b) \<Rightarrow> Some (rets ! i * 10000, b - a)
               | _ \<Rightarrow> None) [1..<length rets]))"

definition shock_scenario :: "shock \<Rightarrow> scenario" where
  "shock_scenario ds = \<lparr>sc_dspot_bp = fst ds, sc_dvol_vp = snd ds, sc_dt_days = 0, sc_dskew_vp = 0, sc_dfly_vp = 0\<rparr>"

definition simulate_pnl_by_position :: "normal \<Rightarrow> resolved_position list \<Rightarrow> flt \<Rightarrow> shock list \<Rightarrow> flt list list" where
  "simulate_pnl_by_position N book spot shocks =
     map (\<lambda>b. map (\<lambda>ds. reval_book N [b] spot (shock_scenario ds) Out_pnl) shocks) book"

text \<open>\<open>zip(.., strict=True)\<close> raises on rows of different lengths.\<close>

definition portfolio_pnl :: "flt list list \<Rightarrow> flt list result" where
  "portfolio_pnl rows =
     (case rows of
        [] \<Rightarrow> Inr []
      | r # _ \<Rightarrow>
          if \<exists>q \<in> set rows. length q \<noteq> length r then Inl (ValueError ''zip() argument lengths differ'')
          else Inr (map (\<lambda>i. sum_list (map (\<lambda>q. q ! i) rows)) [0..<length r]))"

section \<open>Facts\<close>

lemma reval_book_sum: "reval_book N book spot s out = sum_list (map (reval_one N spot s out) book)"
proof -
  have "foldl (\<lambda>acc p. acc + reval_one N spot s out p) a book = a + sum_list (map (reval_one N spot s out) book)" for a
    by (induction book arbitrary: a) simp_all
  then show ?thesis by (simp add: reval_book_def)
qed

lemma daily_returns_length: "\<forall>c \<in> set closes. 0 < c \<Longrightarrow> length (daily_returns closes) = length closes - 1"
  by (induction closes rule: daily_returns.induct) auto

lemma portfolio_pnl_rows:
  assumes "\<forall>q \<in> set rows. length q = n" and "rows \<noteq> []"
  shows "portfolio_pnl rows = Inr (map (\<lambda>i. sum_list (map (\<lambda>q. q ! i) rows)) [0..<n])"
proof -
  obtain r rs where r: "rows = r # rs" using assms(2) by (cases rows) auto
  with assms(1) have "length r = n" "\<not> (\<exists>q \<in> set rows. length q \<noteq> length r)" by auto
  then show ?thesis unfolding portfolio_pnl_def r list.case by simp
qed

text \<open>The shocks are the sessions from the window on.\<close>

lemma map_filter_from:
  assumes "\<And>i. f i = (if w \<le> i then Some (g i) else None)"
  shows "List.map_filter f [a..<n] = map g [max a w..<n]"
proof (cases "a \<le> n")
  case True
  then show ?thesis
  proof (induction n rule: dec_induct)
    case base
    show ?case by (simp add: List.map_filter_simps)
  next
    case (step n)
    have app: "List.map_filter f (xs @ [x]) = List.map_filter f xs @ (case f x of None \<Rightarrow> [] | Some y \<Rightarrow> [y])" for xs x
      by (induction xs) (simp_all add: List.map_filter_simps split: option.splits)
    from step assms [of n] show ?case by (auto simp: app not_le)
  qed
qed (simp add: List.map_filter_simps)

section \<open>Properties\<close>

text \<open>A position marked at the spot and volatility the scenario leaves it at.\<close>

definition marked_at :: "normal \<Rightarrow> flt \<Rightarrow> resolved_position \<Rightarrow> bool" where
  "marked_at N spot p \<longleftrightarrow> rs_type p = ''FUTURE'' \<or>
     (1 / 10000 \<le> rs_T p \<and> rs_price_base p = bs_price N spot (rs_K p) (rs_T p) (rs_iv p) (rs_right p))"

text \<open>
  Revaluation is additive, and neutral where nothing moves: the output of two books
  together is the sum of the two under every scenario; a book marked at the current spot
  has no result under the empty scenario, a book of futures gains its exposure times the
  move; and the column sums of the per-position simulation are the revaluation of the whole
  book, session by session.
\<close>

theorem reval_additive:
  assumes "\<forall>p \<in> set book. marked_at N spot p" and "book \<noteq> []"
  shows "reval_book N (book @ book') spot s out = reval_book N book spot s out + reval_book N book' spot s out \<and>
    reval_book N book spot (shock_scenario (0, 0)) Out_pnl = 0 \<and>
    (\<forall>ds dv. (\<forall>p \<in> set book. rs_type p = ''FUTURE'') \<longrightarrow>
       reval_book N book spot (shock_scenario (ds, dv)) Out_pnl =
         reval_book N book spot (shock_scenario (ds, dv)) Out_delta * (spot * ds / 10000)) \<and>
    portfolio_pnl (simulate_pnl_by_position N book spot shocks) =
      Inr (map (\<lambda>ds. reval_book N book spot (shock_scenario ds) Out_pnl) shocks)"
proof (intro conjI allI impI)
  show "reval_book N (book @ book') spot s out = reval_book N book spot s out + reval_book N book' spot s out"
    by (simp add: reval_book_sum)
  have "reval_one N spot (shock_scenario (0, 0)) Out_pnl p = 0" if "p \<in> set book" for p
    using assms(1) that
    by (auto simp: reval_one_def Let_def shock_scenario_def marked_at_def shocked_iv_def max_absorb2)
  then have "map (reval_one N spot (shock_scenario (0, 0)) Out_pnl) book = map (\<lambda>_. 0) book"
    by (intro map_cong refl)
  then show "reval_book N book spot (shock_scenario (0, 0)) Out_pnl = 0"
    unfolding reval_book_sum by (simp only: sum_list_0)
next
  fix ds dv assume fut: "\<forall>p \<in> set book. rs_type p = ''FUTURE''"
  have "map (reval_one N spot (shock_scenario (ds, dv)) Out_pnl) book =
      map (\<lambda>p. reval_one N spot (shock_scenario (ds, dv)) Out_delta p * (spot * ds / 10000)) book"
    using fut by (intro map_cong) (auto simp: reval_one_def Let_def shock_scenario_def algebra_simps)
  then show "reval_book N book spot (shock_scenario (ds, dv)) Out_pnl =
      reval_book N book spot (shock_scenario (ds, dv)) Out_delta * (spot * ds / 10000)"
    unfolding reval_book_sum by (simp only: sum_list_mult_const)
next
  let ?rows = "simulate_pnl_by_position N book spot shocks"
  let ?f = "\<lambda>b ds. reval_one N spot (shock_scenario ds) Out_pnl b"
  have rows: "?rows = map (\<lambda>b. map (?f b) shocks) book"
    by (simp add: simulate_pnl_by_position_def reval_book_sum)
  have len: "\<forall>q \<in> set ?rows. length q = length shocks" unfolding rows by auto
  have "portfolio_pnl ?rows = Inr (map (\<lambda>i. sum_list (map (\<lambda>q. q ! i) ?rows)) [0..<length shocks])"
    by (rule portfolio_pnl_rows [OF len]) (simp add: rows assms(2))
  also have "map (\<lambda>i. sum_list (map (\<lambda>q. q ! i) ?rows)) [0..<length shocks] =
      map (\<lambda>i. sum_list (map (\<lambda>b. ?f b (shocks ! i)) book)) [0..<length shocks]"
    unfolding rows by (intro map_cong refl) (simp add: comp_def)
  also have "\<dots> = map (\<lambda>ds. sum_list (map (\<lambda>b. ?f b ds) book)) shocks"
    by (rule nth_equalityI) simp_all
  finally show "portfolio_pnl ?rows = Inr (map (\<lambda>ds. reval_book N book spot (shock_scenario ds) Out_pnl) shocks)"
    by (simp add: reval_book_sum)
qed

definition one_future :: resolved_position where
  "one_future = \<lparr>rs_type = ''FUTURE'', rs_qty_signed = 2, rs_mult = 125000, rs_K = 0, rs_T = 0, rs_iv = 0,
     rs_right = [], rs_price_base = 0\<rparr>"

theorem reval_additive_witness:
  "portfolio_pnl (simulate_pnl_by_position logistic [one_future] 1 [(100, 0)]) = Inr [2500]"
proof -
  have "\<forall>p \<in> set [one_future]. marked_at logistic 1 p" by (simp add: marked_at_def one_future_def)
  from reval_additive [OF this, of "[]"]
  have "portfolio_pnl (simulate_pnl_by_position logistic [one_future] 1 [(100, 0)]) =
      Inr (map (\<lambda>ds. reval_book logistic [one_future] 1 (shock_scenario ds) Out_pnl) [(100, 0)])" by simp
  then show ?thesis
    by (simp add: reval_book_def reval_one_def one_future_def shock_scenario_def)
qed

text \<open>
  The simulation drops only what it has no window for: with positive closes, a window
  of at least two consumes exactly its own length of returns, so n closes give
  n - 1 - window scenarios, each a return in basis points with the change of the realised
  volatility of the window that contains it; a smaller window raises.
\<close>

theorem market_shocks_complete:
  assumes "\<forall>c \<in> set closes. 0 < c" and "2 \<le> window"
  shows "\<exists>shocks. market_shocks closes window = Inr shocks \<and> length shocks = length closes - 1 - window \<and>
    (\<forall>i < length shocks. shocks ! i =
       (daily_returns closes ! (i + window) * 10000,
        window_vol (daily_returns closes) window (i + window) - window_vol (daily_returns closes) window (i + window - 1))) \<and>
    market_shocks closes 1 = Inl (ValueError ''window must be >= 2'')"
proof -
  let ?r = "daily_returns closes"
  let ?rv = "map (\<lambda>i. if i + 1 < window then None else Some (window_vol ?r window i)) [0..<length ?r]"
  let ?f = "\<lambda>i. case (?rv ! (i - 1), ?rv ! i) of
                 (Some a, Some b) \<Rightarrow> Some (?r ! i * 10000, b - a) | _ \<Rightarrow> None"
  let ?g = "\<lambda>i. (?r ! i * 10000, window_vol ?r window i - window_vol ?r window (i - 1))"
  have "?f i = (if window \<le> i then Some (?g i) else None)" if "i \<in> set [1..<length ?r]" for i
    using that assms(2) by auto
  then have "List.map_filter ?f [1..<length ?r] =
      List.map_filter (\<lambda>i. if window \<le> i then Some (?g i) else None) [1..<length ?r]"
    unfolding List.map_filter_def by (intro map_cong filter_cong) (auto cong: if_cong)
  also have "\<dots> = map ?g [max 1 window..<length ?r]" by (rule map_filter_from) simp
  finally have shocks: "market_shocks closes window = Inr (map ?g [window..<length ?r])"
    using assms(2) by (simp add: market_shocks_def rolling_rv_vp_def Let_def)
  have "length ?r = length closes - 1" by (rule daily_returns_length [OF assms(1)])
  with shocks show ?thesis
    by (simp add: market_shocks_def rolling_rv_vp_def Let_def add.commute)
qed

theorem market_shocks_complete_witness:
  "\<exists>x. market_shocks [1, 2, 1, 2] 2 = Inr [x]"
proof -
  have "\<forall>c \<in> set [1, 2, 1, 2 :: flt]. 0 < c" by simp
  from market_shocks_complete [OF this, of 2]
  obtain shocks where "market_shocks [1, 2, 1, 2] 2 = Inr shocks" "length shocks = 1" by auto
  then show ?thesis by (cases shocks) auto
qed

end
