(* ===== verification/Spot_Orders.thy ===== *)
theory Spot_Orders
  imports Fills_Handler
begin

text \<open>
  Spot FX orders (\<open>engines/execution/spot_orders.py\<close>, table \<open>spot_order\<close> of
  \<open>persistence/models.py\<close>): the row written before the placement, the status and fill
  callbacks, the replay of executions after a reconnect and the adoption of the orders the
  broker still holds. A handler is a function of the clock, the event and the table; the
  publication of a row after a commit is left out.
\<close>

section \<open>The row\<close>

datatype spot_state = Sp_pending | Sp_submitted | Sp_partially_filled | Sp_filled | Sp_cancelled | Sp_rejected

record spot_row =
  sp_symbol :: string
  sp_currency :: string
  sp_exchange :: string
  sp_side :: string
  sp_qty :: int
  sp_order_type :: string
  sp_limit_price :: "flt option"
  sp_ib_order_id :: "string option"
  sp_ib_perm_id :: "string option"
  sp_ib_local_symbol :: "string option"
  sp_state :: spot_state
  sp_state_updated_at :: time
  sp_qty_filled :: int
  sp_avg_fill_price :: "flt option"
  sp_commission_usd :: "flt option"
  sp_filled_at :: "time option"
  sp_rejection_text :: "string option"
  sp_trace_id :: "string option"
  sp_ib_status :: "string option"
  sp_why_held :: "string option"

section \<open>Pure parts\<close>

definition SPOT_ORDER_REF_PREFIX :: string where "SPOT_ORDER_REF_PREFIX = ''fxvol:spot:''"

definition spot_order_ref :: "int \<Rightarrow> string" where
  "spot_order_ref spot_order_id = SPOT_ORDER_REF_PREFIX @ int_str spot_order_id"

definition parse_spot_order_ref :: "string option \<Rightarrow> int option" where
  "parse_spot_order_ref ref =
     (case ref of
        None \<Rightarrow> None
      | Some s \<Rightarrow>
          if s = [] \<or> \<not> py_startswith s SPOT_ORDER_REF_PREFIX then None
          else py_int (drop (length SPOT_ORDER_REF_PREFIX) s))"

definition STATUS_TO_STATE :: "(string \<times> spot_state) list" where
  "STATUS_TO_STATE =
     [(''PendingSubmit'', Sp_submitted), (''ApiPending'', Sp_submitted), (''PreSubmitted'', Sp_submitted),
      (''Submitted'', Sp_submitted), (''PendingCancel'', Sp_submitted), (''Filled'', Sp_filled),
      (''Cancelled'', Sp_cancelled), (''ApiCancelled'', Sp_cancelled), (''Inactive'', Sp_rejected)]"

definition spot_terminal :: "spot_state \<Rightarrow> bool" where
  "spot_terminal s = (s \<in> {Sp_filled, Sp_cancelled, Sp_rejected})"

text \<open>An absent status is the empty string.\<close>

definition map_spot_status :: "string \<Rightarrow> spot_state option" where
  "map_spot_status ib_status = map_of STATUS_TO_STATE ib_status"

definition SPOT_TICK :: flt where "SPOT_TICK = 5 / 100000"

definition snap_spot_limit :: "flt option \<Rightarrow> string \<Rightarrow> flt \<Rightarrow> flt option" where
  "snap_spot_limit price side tick =
     (case price of
        None \<Rightarrow> None
      | Some p \<Rightarrow>
          if p \<le> 0 then Some p
          else let steps = p / tick;
                   n = (if py_upper side = SELL then \<lfloor>steps + 1 / 10 ^ 9\<rfloor> else \<lceil>steps - 1 / 10 ^ 9\<rceil>)
               in Some (py_round 5 (of_int n * tick)))"

section \<open>Status events\<close>

text \<open>The broker's own words on the row, and whether they are new.\<close>

definition note_status :: "string \<Rightarrow> spot_row \<Rightarrow> spot_row \<times> bool" where
  "note_status ib_status row =
     (if ib_status \<noteq> [] \<and> sp_ib_status row \<noteq> Some (take 20 ib_status)
      then (row\<lparr>sp_ib_status := Some (take 20 ib_status)\<rparr>, True) else (row, False))"

definition note_why_held :: "string option \<Rightarrow> spot_row \<Rightarrow> spot_row \<times> bool" where
  "note_why_held why_held row =
     (let wh = or_none (str_or why_held) in
      if wh \<noteq> sp_why_held row then (row\<lparr>sp_why_held := wh\<rparr>, True) else (row, False))"

text \<open>A cancellation with an error in the log is a rejection.\<close>

definition status_target :: "string \<Rightarrow> string option \<Rightarrow> spot_state option" where
  "status_target ib_status reason =
     (if map_spot_status ib_status = Some Sp_cancelled \<and> str_or reason \<noteq> [] then Some Sp_rejected
      else map_spot_status ib_status)"

definition status_ignored :: "spot_state option \<Rightarrow> spot_state \<Rightarrow> bool" where
  "status_ignored target s =
     (target = None \<or> target = Some Sp_filled \<or> spot_terminal s \<or>
      (target = Some Sp_submitted \<and> s = Sp_partially_filled) \<or> target = Some s)"

definition move_to :: "time \<Rightarrow> string \<Rightarrow> string option \<Rightarrow> spot_state \<Rightarrow> spot_row \<Rightarrow> spot_row" where
  "move_to now ib_status reason s row =
     (let r = row\<lparr>sp_state := s, sp_state_updated_at := now\<rparr>
      in if s = Sp_rejected
         then r\<lparr>sp_rejection_text := Some (take 300 (if str_or reason \<noteq> [] then str_or reason else ib_status))\<rparr>
         else r)"

text \<open>The row with the status applied, and whether anything changed.\<close>

definition apply_status :: "time \<Rightarrow> string \<Rightarrow> string option \<Rightarrow> string option \<Rightarrow> spot_row \<Rightarrow> spot_row \<times> bool" where
  "apply_status now ib_status reason why_held row =
     (let (r1, c1) = note_status ib_status row;
          (r2, c2) = note_why_held why_held r1;
          target = status_target ib_status reason
      in if status_ignored target (sp_state r2) then (r2, c1 \<or> c2)
         else (move_to now ib_status reason (the target) r2, True))"

definition on_status :: "time \<Rightarrow> int \<Rightarrow> ib_trade \<Rightarrow> spot_row table \<Rightarrow> spot_row table" where
  "on_status now sid trade t =
     (case tget t sid of
        None \<Rightarrow> t
      | Some row \<Rightarrow>
          (case apply_status now (it_status trade) (ib_reason_from_trade trade) (ib_why_held trade) row of
             (row', changed) \<Rightarrow> if changed then tupd sid (\<lambda>_. row') t else t))"

section \<open>Fills\<close>

definition fold_totals :: "ib_fill list \<Rightarrow> int \<times> flt \<times> flt" where
  "fold_totals fills =
     foldl (\<lambda>(qty, value, commission) f.
         let q = py_trunc (x_shares f)
         in (qty + q, value + of_int q * x_price f, commission + flt_or0 (x_commission f)))
       (0, 0, 0) fills"

definition book_totals :: "int \<Rightarrow> flt \<Rightarrow> flt \<Rightarrow> spot_row \<Rightarrow> spot_row" where
  "book_totals qty value commission row =
     row\<lparr>sp_qty_filled := qty, sp_avg_fill_price := (if qty \<noteq> 0 then Some (value / of_int qty) else None),
         sp_commission_usd := Some commission\<rparr>"

definition book_state :: "time \<Rightarrow> int \<Rightarrow> spot_row \<Rightarrow> spot_row" where
  "book_state now qty row =
     (if sp_qty row \<le> qty
      then row\<lparr>sp_state := Sp_filled, sp_filled_at := Some (case sp_filled_at row of None \<Rightarrow> now | Some x \<Rightarrow> x)\<rparr>
      else if 0 < qty \<and> \<not> spot_terminal (sp_state row) then row\<lparr>sp_state := Sp_partially_filled\<rparr>
      else row)"

definition book_symbol :: "string option \<Rightarrow> spot_row \<Rightarrow> spot_row" where
  "book_symbol ls row =
     (if str_or ls \<noteq> [] \<and> str_or (sp_ib_local_symbol row) = []
      then row\<lparr>sp_ib_local_symbol := Some (take 20 (str_or ls))\<rparr> else row)"

text \<open>A replay of fewer fills than booked changes nothing.\<close>

definition fold_row :: "time \<Rightarrow> ib_fill list \<Rightarrow> string option \<Rightarrow> spot_row \<Rightarrow> spot_row" where
  "fold_row now fills ls row =
     (case fold_totals fills of
        (qty, value, commission) \<Rightarrow>
          if qty < sp_qty_filled row then row
          else book_symbol ls
                 ((book_state now qty (book_totals qty value commission row))\<lparr>sp_state_updated_at := now\<rparr>))"

definition fold_spot_fills :: "time \<Rightarrow> int \<Rightarrow> ib_fill list \<Rightarrow> string option \<Rightarrow> spot_row table \<Rightarrow> spot_row table" where
  "fold_spot_fills now sid fills ls t = tupd sid (fold_row now fills ls) t"

text \<open>The fills the trade carries, or the one of the event when it carries none.\<close>

definition on_fill :: "time \<Rightarrow> int \<Rightarrow> ib_fill list \<Rightarrow> ib_fill \<Rightarrow> spot_row table \<Rightarrow> spot_row table" where
  "on_fill now sid trade_fills fill t =
     fold_spot_fills now sid (if trade_fills = [] then [fill] else trade_fills) (x_local_symbol fill) t"

section \<open>Placement and adoption\<close>

text \<open>An open trade as the broker reports it; IB's unset price is a huge number.\<close>

record spot_trade =
  st_trade :: ib_trade
  st_has_order :: bool
  st_has_events :: bool
  st_order_ref :: "string option"
  st_lmt_price :: "flt option"
  st_action :: "string option"
  st_total_quantity :: flt
  st_sec_type :: "string option"
  st_symbol :: "string option"
  st_currency :: "string option"
  st_exchange :: "string option"
  st_local_symbol :: "string option"

definition UNSET_LIMIT :: flt where "UNSET_LIMIT = 17 * 10 ^ 307"

text \<open>\<open>lmt and float(lmt) < 1.7e308\<close>.\<close>

definition worked_limit :: "flt option \<Rightarrow> flt option" where
  "worked_limit lmt =
     (case lmt of None \<Rightarrow> None | Some l \<Rightarrow> if l \<noteq> 0 \<and> l < UNSET_LIMIT then Some l else None)"

definition truthy :: "flt option \<Rightarrow> bool" where
  "truthy x = (case x of None \<Rightarrow> False | Some v \<Rightarrow> v \<noteq> 0)"

definition create_spot_order ::
  "time \<Rightarrow> string \<Rightarrow> string \<Rightarrow> string \<Rightarrow> string \<Rightarrow> int \<Rightarrow> flt option \<Rightarrow> string option \<Rightarrow>
   spot_row table \<Rightarrow> spot_row table \<times> int" where
  "create_spot_order now symbol currency exchange side qty limit_price trace t =
     (tins \<lparr>sp_symbol = symbol, sp_currency = currency, sp_exchange = exchange, sp_side = side, sp_qty = qty,
            sp_order_type = (if truthy limit_price then ''LMT'' else ''MKT''), sp_limit_price = limit_price,
            sp_ib_order_id = None, sp_ib_perm_id = None, sp_ib_local_symbol = None, sp_state = Sp_pending,
            sp_state_updated_at = now, sp_qty_filled = 0, sp_avg_fill_price = None, sp_commission_usd = None,
            sp_filled_at = None, sp_rejection_text = None, sp_trace_id = trace, sp_ib_status = None,
            sp_why_held = None\<rparr> t,
      next_id t)"

definition id_or_none :: "int \<Rightarrow> string option" where
  "id_or_none i = (if i = 0 then None else Some (int_str i))"

definition stamp_row :: "time \<Rightarrow> spot_trade \<Rightarrow> spot_row \<Rightarrow> spot_row" where
  "stamp_row now tr row =
     (let t = st_trade tr;
          r1 = (if st_has_order tr
                then row\<lparr>sp_ib_order_id := id_or_none (it_order_id t), sp_ib_perm_id := id_or_none (it_perm_id t),
                         sp_limit_price := (case worked_limit (st_lmt_price tr) of
                                              None \<Rightarrow> sp_limit_price row | Some l \<Rightarrow> Some l)\<rparr>
                else row);
          r2 = (if str_or (st_local_symbol tr) \<noteq> []
                then r1\<lparr>sp_ib_local_symbol := Some (take 20 (str_or (st_local_symbol tr)))\<rparr> else r1)
      in fst (apply_status now (it_status t) (ib_reason_from_trade t) (ib_why_held t) r2))"

definition stamp_ib_ids :: "time \<Rightarrow> int \<Rightarrow> spot_trade \<Rightarrow> spot_row table \<Rightarrow> spot_row table" where
  "stamp_ib_ids now sid tr t = tupd sid (stamp_row now tr) t"

definition mark_spot_failed :: "time \<Rightarrow> int \<Rightarrow> string \<Rightarrow> spot_row table \<Rightarrow> spot_row table" where
  "mark_spot_failed now sid reason t =
     tupd sid (\<lambda>row. row\<lparr>sp_state := Sp_rejected, sp_rejection_text := Some (take 300 reason), sp_state_updated_at := now\<rparr>) t"

definition or_default :: "string option \<Rightarrow> string \<Rightarrow> string" where
  "or_default x dflt = (if str_or x = [] then dflt else str_or x)"

text \<open>The row an open trade belongs to: by its key, or by its permanent id.\<close>

definition find_spot_row :: "spot_trade \<Rightarrow> spot_row table \<Rightarrow> int option" where
  "find_spot_row tr t =
     (case (case parse_spot_order_ref (st_order_ref tr) of
              None \<Rightarrow> None | Some k \<Rightarrow> if tget t k = None then None else Some k) of
        Some k \<Rightarrow> Some k
      | None \<Rightarrow>
          (case id_or_none (it_perm_id (st_trade tr)) of
             None \<Rightarrow> None
           | Some perm \<Rightarrow>
               (case twhere (\<lambda>r. sp_ib_perm_id r = Some perm) t of [] \<Rightarrow> None | (k, _) # _ \<Rightarrow> Some k)))"

definition untracked_row :: "time \<Rightarrow> spot_trade \<Rightarrow> spot_row table \<Rightarrow> spot_row table \<times> int" where
  "untracked_row now tr t =
     (let limit = worked_limit (st_lmt_price tr)
      in create_spot_order now (take 10 (or_default (st_symbol tr) ''EUR'')) (take 5 (or_default (st_currency tr) ''USD''))
           (take 10 (or_default (st_exchange tr) ''IDEALPRO'')) (take 5 (py_upper (str_or (st_action tr))))
           (py_trunc (st_total_quantity tr)) limit None t)"

definition adopt_spot :: "time \<Rightarrow> spot_row table \<times> int list \<Rightarrow> spot_trade \<Rightarrow> spot_row table \<times> int list" where
  "adopt_spot now a tr =
     (let (t, wired) = a in
      if py_upper (str_or (st_sec_type tr)) \<noteq> ''CASH'' then a
      else if \<not> st_has_order tr \<or> \<not> st_has_events tr then a
      else
        let (t1, sid) = (case find_spot_row tr t of Some k \<Rightarrow> (t, k) | None \<Rightarrow> untracked_row now tr t)
        in (stamp_ib_ids now sid tr t1, wired @ [sid]))"

definition adopt_open_spot_orders :: "time \<Rightarrow> spot_trade list \<Rightarrow> spot_row table \<Rightarrow> spot_row table \<times> int list" where
  "adopt_open_spot_orders now trades t = foldl (adopt_spot now) (t, []) trades"

section \<open>Facts\<close>

text \<open>What a status leaves of the row: it writes its own columns only.\<close>

definition money_cols :: "spot_row \<Rightarrow> int \<times> int \<times> flt option \<times> flt option \<times> time option \<times> string option" where
  "money_cols r = (sp_qty r, sp_qty_filled r, sp_avg_fill_price r, sp_commission_usd r, sp_filled_at r, sp_ib_perm_id r)"

lemma note_money [simp]:
  "money_cols (fst (note_status st row)) = money_cols row" "sp_state (fst (note_status st row)) = sp_state row"
  "money_cols (fst (note_why_held wh row)) = money_cols row" "sp_state (fst (note_why_held wh row)) = sp_state row"
  "money_cols (move_to now st rs s row) = money_cols row" "sp_state (move_to now st rs s row) = s"
  by (simp_all add: note_status_def note_why_held_def move_to_def Let_def money_cols_def)

lemma apply_status_fst:
  "\<exists>r2. money_cols r2 = money_cols row \<and> sp_state r2 = sp_state row \<and>
     fst (apply_status now st rs wh row) =
       (if status_ignored (status_target st rs) (sp_state row) then r2
        else move_to now st rs (the (status_target st rs)) r2)"
proof -
  let ?r1 = "fst (note_status st row)"
  let ?r2 = "fst (note_why_held wh ?r1)"
  have "fst (apply_status now st rs wh row) =
      (if status_ignored (status_target st rs) (sp_state ?r2) then ?r2
       else move_to now st rs (the (status_target st rs)) ?r2)"
    unfolding apply_status_def Let_def split_beta by simp
  then show ?thesis by (intro exI [of _ ?r2]) simp
qed

lemma apply_status_money: "money_cols (fst (apply_status now st rs wh row)) = money_cols row"
  using apply_status_fst [of row now st rs wh] by auto

text \<open>The only state changes a status makes.\<close>

definition status_move :: "spot_state \<Rightarrow> spot_state \<Rightarrow> bool" where
  "status_move s s' \<longleftrightarrow> s' = s \<or>
     (\<not> spot_terminal s \<and> (s' \<in> {Sp_cancelled, Sp_rejected} \<or> s' = Sp_submitted \<and> s \<noteq> Sp_partially_filled))"

lemma status_targets: "status_target st rs = Some s \<Longrightarrow> s \<in> {Sp_submitted, Sp_filled, Sp_cancelled, Sp_rejected}"
  by (auto simp: status_target_def map_spot_status_def STATUS_TO_STATE_def split: if_splits)

lemma apply_status_move: "status_move (sp_state row) (sp_state (fst (apply_status now st rs wh row)))"
proof (cases "status_ignored (status_target st rs) (sp_state row)")
  case True
  then show ?thesis using apply_status_fst [of row now st rs wh] by (auto simp: status_move_def)
next
  case False
  then obtain s where s: "status_target st rs = Some s" by (auto simp: status_ignored_def)
  have "sp_state (fst (apply_status now st rs wh row)) = s"
    using apply_status_fst [of row now st rs wh] False s by auto
  with status_targets [OF s] False s show ?thesis
    by (auto simp: status_move_def status_ignored_def)
qed

lemma apply_status_unchanged: "apply_status now st rs wh row = (row', False) \<Longrightarrow> row' = row"
  by (auto simp: apply_status_def note_status_def note_why_held_def Let_def split: if_splits)

lemma stamp_row_fst:
  "\<exists>r2. (sp_qty r2, sp_qty_filled r2, sp_avg_fill_price r2, sp_commission_usd r2, sp_filled_at r2) =
       (sp_qty row, sp_qty_filled row, sp_avg_fill_price row, sp_commission_usd row, sp_filled_at row) \<and>
     sp_state r2 = sp_state row \<and>
     (st_has_order tr \<longrightarrow> sp_ib_perm_id r2 = id_or_none (it_perm_id (st_trade tr))) \<and>
     (\<exists>now st rs wh. stamp_row now' tr row = fst (apply_status now st rs wh r2))"
  unfolding stamp_row_def Let_def
  by (rule exI, rule conjI [rotated], rule conjI [rotated], rule conjI [rotated], blast) simp_all

section \<open>The totals of a fill list\<close>

definition fill_qty :: "ib_fill \<Rightarrow> int" where
  "fill_qty f = py_trunc (x_shares f)"

definition fills_qty :: "ib_fill list \<Rightarrow> int" where
  "fills_qty fs = sum_list (map fill_qty fs)"

definition fills_value :: "ib_fill list \<Rightarrow> flt" where
  "fills_value fs = sum_list (map (\<lambda>f. of_int (fill_qty f) * x_price f) fs)"

definition fills_commission :: "ib_fill list \<Rightarrow> flt" where
  "fills_commission fs = sum_list (map (\<lambda>f. flt_or0 (x_commission f)) fs)"

lemma fold_totals_eq: "fold_totals fs = (fills_qty fs, fills_value fs, fills_commission fs)"
proof -
  have "foldl (\<lambda>(qty, value, commission) f.
         let q = py_trunc (x_shares f)
         in (qty + q, value + of_int q * x_price f, commission + flt_or0 (x_commission f))) (a, v, c) fs =
      (a + fills_qty fs, v + fills_value fs, c + fills_commission fs)" for a v c
    by (induction fs arbitrary: a v c)
      (simp_all add: fills_qty_def fills_value_def fills_commission_def fill_qty_def Let_def)
  then show ?thesis by (simp add: fold_totals_def)
qed

text \<open>The totals do not depend on the order of the fills, and a part of a list has less.\<close>

lemma totals_perm:
  assumes "mset fs = mset E"
  shows "fills_qty fs = fills_qty E" "fills_value fs = fills_value E" "fills_commission fs = fills_commission E"
  unfolding fills_qty_def fills_value_def fills_commission_def
  by (rule sum_list_map_remove_dup_perm [OF assms])+

lemma fills_qty_part:
  assumes "mset fs \<subseteq># mset E" and "\<forall>f \<in> set E. 0 < fill_qty f"
  shows "0 \<le> fills_qty fs" "fills_qty fs \<le> fills_qty E" "fills_qty fs = fills_qty E \<longleftrightarrow> mset fs = mset E"
proof -
  obtain rest where rest: "mset E = mset fs + mset rest"
    by (metis assms(1) ex_mset subset_mset.add_diff_inverse)
  have sets: "set fs \<subseteq> set E" "set rest \<subseteq> set E"
    using rest by (metis set_mset_mset set_mset_union Un_upper1 Un_upper2)+
  have total: "fills_qty E = fills_qty fs + fills_qty rest"
    using totals_perm(1) [of E "fs @ rest"] rest by (simp add: fills_qty_def)
  have pos: "0 \<le> fills_qty xs \<and> (fills_qty xs = 0 \<longrightarrow> xs = [])" if "set xs \<subseteq> set E" for xs
    using that assms(2) by (induction xs) (auto simp: fills_qty_def add_nonneg_eq_0_iff)
  show "0 \<le> fills_qty fs" using pos [OF sets(1)] by simp
  show "fills_qty fs \<le> fills_qty E" using pos [OF sets(2)] total by simp
  show "fills_qty fs = fills_qty E \<longleftrightarrow> mset fs = mset E"
    using pos [OF sets(2)] total rest by (auto simp: fills_qty_def)
qed

section \<open>The life of a row\<close>

datatype spot_event = Status time ib_trade | Fills time "ib_fill list" "string option" | Stamp time spot_trade

fun handle_spot :: "int \<Rightarrow> spot_event \<Rightarrow> spot_row table \<Rightarrow> spot_row table" where
  "handle_spot sid (Status now tr) t = on_status now sid tr t"
| "handle_spot sid (Fills now fs ls) t = fold_spot_fills now sid fs ls t"
| "handle_spot sid (Stamp now tr) t = stamp_ib_ids now sid tr t"

fun spot_step :: "spot_event \<Rightarrow> spot_row \<Rightarrow> spot_row" where
  "spot_step (Status now tr) row =
     fst (apply_status now (it_status tr) (ib_reason_from_trade tr) (ib_why_held tr) row)"
| "spot_step (Fills now fs ls) row = fold_row now fs ls row"
| "spot_step (Stamp now tr) row = stamp_row now tr row"

lemma handle_spot_row: "tget (handle_spot sid e t) sid = map_option (spot_step e) (tget t sid)"
proof (cases e)
  case (Status now tr)
  show ?thesis
  proof (cases "tget t sid")
    case (Some row)
    obtain row' changed where ap:
      "apply_status now (it_status tr) (ib_reason_from_trade tr) (ib_why_held tr) row = (row', changed)"
      by (cases "apply_status now (it_status tr) (ib_reason_from_trade tr) (ib_why_held tr) row")
    show ?thesis
    proof (cases changed)
      case False
      then have ap': "apply_status now (it_status tr) (ib_reason_from_trade tr) (ib_why_held tr) row = (row', False)"
        using ap by simp
      then have "row' = row" by (rule apply_status_unchanged)
      with Some ap' Status show ?thesis by (simp add: on_status_def)
    qed (simp add: Status on_status_def Some ap tget_simps)
  qed (simp add: Status on_status_def)
next
  case (Fills now fs ls)
  then show ?thesis by (cases "tget t sid") (simp_all add: fold_spot_fills_def tget_simps)
next
  case (Stamp now tr)
  then show ?thesis by (cases "tget t sid") (simp_all add: stamp_ib_ids_def tget_simps)
qed

lemma handle_spot_run:
  "tget (foldl (\<lambda>t e. handle_spot sid e t) t evs) sid = map_option (\<lambda>r. foldl (\<lambda>r e. spot_step e r) r evs) (tget t sid)"
  by (induction evs arbitrary: t) (simp_all add: handle_spot_row option.map_comp comp_def option.map_ident)

text \<open>A status or a stamp leaves the money columns and moves the state as a status may.\<close>

definition booked :: "spot_row \<Rightarrow> int \<times> int \<times> flt option \<times> flt option \<times> time option" where
  "booked r = (sp_qty r, sp_qty_filled r, sp_avg_fill_price r, sp_commission_usd r, sp_filled_at r)"

lemma money_booked: "money_cols r = money_cols r' \<Longrightarrow> booked r = booked r'"
  by (simp add: money_cols_def booked_def)

lemma not_fills_frame:
  assumes "\<And>now fs ls. e \<noteq> Fills now fs ls"
  shows "booked (spot_step e row) = booked row \<and> status_move (sp_state row) (sp_state (spot_step e row))"
proof (cases e)
  case (Status now tr)
  then show ?thesis by (simp add: money_booked [OF apply_status_money] apply_status_move)
next
  case (Stamp now tr)
  from stamp_row_fst [of row tr now] obtain r2 now2 st rs wh where
    r2: "booked r2 = booked row" "sp_state r2 = sp_state row" "stamp_row now tr row = fst (apply_status now2 st rs wh r2)"
    unfolding booked_def by blast
  then show ?thesis using Stamp money_booked [OF apply_status_money, of now2 st rs wh r2]
      apply_status_move [of r2 now2 st rs wh] by simp
qed (use assms in blast)

definition folded :: "time \<Rightarrow> ib_fill list \<Rightarrow> string option \<Rightarrow> spot_row \<Rightarrow> spot_row" where
  "folded now fs ls row = book_symbol ls ((book_state now (fills_qty fs)
     (book_totals (fills_qty fs) (fills_value fs) (fills_commission fs) row))\<lparr>sp_state_updated_at := now\<rparr>)"

lemma fold_row_eq: "fold_row now fs ls row = (if fills_qty fs < sp_qty_filled row then row else folded now fs ls row)"
  by (simp add: fold_row_def fold_totals_eq folded_def)

lemma book_symbol_sel [simp]:
  "sp_qty (book_symbol ls r) = sp_qty r" "sp_qty_filled (book_symbol ls r) = sp_qty_filled r"
  "sp_avg_fill_price (book_symbol ls r) = sp_avg_fill_price r" "sp_commission_usd (book_symbol ls r) = sp_commission_usd r"
  "sp_state (book_symbol ls r) = sp_state r" "sp_filled_at (book_symbol ls r) = sp_filled_at r"
  by (simp_all add: book_symbol_def)

lemma folded_sel [simp]:
  "sp_qty (folded now fs ls row) = sp_qty row"
  "sp_qty_filled (folded now fs ls row) = fills_qty fs"
  "sp_avg_fill_price (folded now fs ls row) =
     (if fills_qty fs = 0 then None else Some (fills_value fs / of_int (fills_qty fs)))"
  "sp_commission_usd (folded now fs ls row) = Some (fills_commission fs)"
  "sp_state (folded now fs ls row) =
     (if sp_qty row \<le> fills_qty fs then Sp_filled
      else if 0 < fills_qty fs \<and> \<not> spot_terminal (sp_state row) then Sp_partially_filled else sp_state row)"
  "(sp_filled_at (folded now fs ls row) = None) = (fills_qty fs < sp_qty row \<and> sp_filled_at row = None)"
  by (auto simp: folded_def book_state_def book_totals_def)

definition spot_ok :: "spot_row \<Rightarrow> bool" where
  "spot_ok r \<longleftrightarrow> 0 < sp_qty r \<and> 0 \<le> sp_qty_filled r \<and>
     (sp_state r = Sp_filled \<longleftrightarrow> sp_qty r \<le> sp_qty_filled r) \<and>
     (sp_filled_at r \<noteq> None \<longleftrightarrow> sp_state r = Sp_filled) \<and>
     (sp_avg_fill_price r \<noteq> None \<longleftrightarrow> 0 < sp_qty_filled r) \<and>
     (sp_state r \<in> {Sp_pending, Sp_submitted} \<longrightarrow> sp_qty_filled r = 0) \<and>
     (sp_state r = Sp_partially_filled \<longrightarrow> 0 < sp_qty_filled r)"

text \<open>Events whose fills are part of the executions \<open>E\<close> of the order.\<close>

fun from_executions :: "ib_fill list \<Rightarrow> spot_event \<Rightarrow> bool" where
  "from_executions E (Fills now fs ls) = (mset fs \<subseteq># mset E)"
| "from_executions E e = True"

lemma spot_step_qty: "sp_qty (spot_step e row) = sp_qty row"
proof (cases "\<exists>now fs ls. e = Fills now fs ls")
  case True
  then obtain now fs ls where "e = Fills now fs ls" by blast
  then show ?thesis by (simp add: fold_row_eq)
next
  case False
  then have "\<And>now fs ls. e \<noteq> Fills now fs ls" by blast
  from not_fills_frame [OF this, of row] show ?thesis by (simp add: booked_def)
qed

lemma spot_run_qty: "sp_qty (foldl (\<lambda>r e. spot_step e r) row evs) = sp_qty row"
  by (induction evs arbitrary: row) (simp_all add: spot_step_qty)

lemma spot_ok_step:
  assumes "spot_ok row" and "from_executions E e" and pos: "\<forall>f \<in> set E. 0 < fill_qty f"
  shows "spot_ok (spot_step e row)"
proof (cases "\<exists>now fs ls. e = Fills now fs ls")
  case True
  then obtain now fs ls where e: "e = Fills now fs ls" by blast
  with assms(2) have "mset fs \<subseteq># mset E" by simp
  from fills_qty_part(1) [OF this pos] have "0 \<le> fills_qty fs" .
  with assms(1) show ?thesis
    by (auto simp: e fold_row_eq spot_ok_def spot_terminal_def simp del: not_None_eq)
next
  case False
  then have "\<And>now fs ls. e \<noteq> Fills now fs ls" by blast
  from not_fills_frame [OF this, of row] assms(1) show ?thesis
    by (cases "sp_state row") (auto simp: spot_ok_def booked_def status_move_def spot_terminal_def)
qed

lemma spot_ok_run:
  "spot_ok row \<Longrightarrow> \<forall>e \<in> set evs. from_executions E e \<Longrightarrow> \<forall>f \<in> set E. 0 < fill_qty f \<Longrightarrow>
   spot_ok (foldl (\<lambda>r e. spot_step e r) row evs)"
proof (induction evs arbitrary: row)
  case (Cons e evs)
  from Cons.prems have "spot_ok (spot_step e row)" by (intro spot_ok_step) auto
  with Cons show ?case by simp
qed simp

text \<open>Nothing, a part, or all of the executions has been booked.\<close>

definition all_booked :: "ib_fill list \<Rightarrow> spot_row \<Rightarrow> bool" where
  "all_booked E r \<longleftrightarrow> sp_qty_filled r = fills_qty E \<and>
     sp_avg_fill_price r = Some (fills_value E / of_int (fills_qty E)) \<and>
     sp_commission_usd r = Some (fills_commission E)"

lemma booked_step:
  assumes inv: "sp_qty_filled row < fills_qty E \<or> all_booked E row"
    and ev: "from_executions E e" and pos: "\<forall>f \<in> set E. 0 < fill_qty f" and ne: "0 < fills_qty E"
  shows "sp_qty_filled (spot_step e row) < fills_qty E \<or> all_booked E (spot_step e row)"
    and "all_booked E row \<Longrightarrow> all_booked E (spot_step e row)"
    and "e = Fills now fs ls \<Longrightarrow> mset fs = mset E \<Longrightarrow> all_booked E (spot_step e row)"
proof -
  have fills: "(sp_qty_filled (spot_step e row) < fills_qty E \<or> all_booked E (spot_step e row)) \<and>
      (all_booked E row \<longrightarrow> all_booked E (spot_step e row)) \<and>
      (mset fs = mset E \<longrightarrow> all_booked E (spot_step e row))" if e: "e = Fills now fs ls" for now fs ls
  proof -
    from ev e have part: "mset fs \<subseteq># mset E" by simp
    note le = fills_qty_part [OF part pos]
    let ?r = "folded now fs ls row"
    have r: "spot_step e row = (if fills_qty fs < sp_qty_filled row then row else ?r)"
      by (simp add: e fold_row_eq)
    show ?thesis
    proof (cases "mset fs = mset E")
      case True
      with ne have "all_booked E ?r" by (simp add: all_booked_def totals_perm [OF True])
      moreover have "fills_qty fs < sp_qty_filled row \<longrightarrow> False"
        using inv totals_perm(1) [OF True] by (auto simp: all_booked_def)
      ultimately show ?thesis using r by auto
    next
      case False
      with le have "fills_qty fs < fills_qty E" by linarith
      then show ?thesis using r inv False by (auto simp: all_booked_def)
    qed
  qed
  have other: "all_booked E (spot_step e row) = all_booked E row \<and> sp_qty_filled (spot_step e row) = sp_qty_filled row"
    if "\<And>now fs ls. e \<noteq> Fills now fs ls"
    using not_fills_frame [OF that, of row] by (simp add: all_booked_def booked_def)
  show "sp_qty_filled (spot_step e row) < fills_qty E \<or> all_booked E (spot_step e row)"
    using fills other inv by metis
  show "all_booked E row \<Longrightarrow> all_booked E (spot_step e row)" using fills other by metis
  show "e = Fills now fs ls \<Longrightarrow> mset fs = mset E \<Longrightarrow> all_booked E (spot_step e row)" using fills by blast
qed

lemma booked_run:
  assumes "sp_qty_filled row < fills_qty E \<or> all_booked E row" and "\<forall>e \<in> set evs. from_executions E e"
    and pos: "\<forall>f \<in> set E. 0 < fill_qty f" and ne: "0 < fills_qty E"
    and "all_booked E row \<or> (\<exists>now fs ls. Fills now fs ls \<in> set evs \<and> mset fs = mset E)"
  shows "all_booked E (foldl (\<lambda>r e. spot_step e r) row evs)"
  using assms(1,2,5)
proof (induction evs arbitrary: row)
  case (Cons e evs)
  from Cons.prems(2) have e: "from_executions E e" by simp
  note st = booked_step [OF Cons.prems(1) e pos ne]
  have "all_booked E (spot_step e row) \<or> (\<exists>now fs ls. Fills now fs ls \<in> set evs \<and> mset fs = mset E)"
  proof (cases "all_booked E row")
    case True
    then show ?thesis using st(2) by blast
  next
    case False
    with Cons.prems(3) obtain now fs ls where f: "Fills now fs ls \<in> set (e # evs)" "mset fs = mset E" by blast
    then show ?thesis using st(3) [of now fs ls] by (cases "e = Fills now fs ls") auto
  qed
  with Cons.IH [OF st(1)] Cons.prems(2) show ?case by simp
qed simp

section \<open>Properties\<close>


definition sample_fill :: ib_fill where
  "sample_fill = \<lparr>x_exec_id = ''e1'', x_shares = 3, x_price = 2, x_commission = None, x_report_currency = None,
     x_contract_currency = None, x_local_symbol = None, x_con_id = None, x_time = None, x_side = ''BOT'',
     x_exchange = None\<rparr>"


text \<open>
  The limit sent to the venue is on its grid, within one tick of the limit asked for and
  on the aggressive side of it (up to the billionth of a tick the code allows), a limit
  already on the grid is sent as it is, and snapping is idempotent; no limit stays no limit.
\<close>

theorem spot_limit_on_grid:
  assumes "0 < p"
  shows "\<exists>n. snap_spot_limit (Some p) side SPOT_TICK = Some (of_int n * SPOT_TICK) \<and>
    (py_upper side = SELL \<longrightarrow> of_int n * SPOT_TICK \<le> p + SPOT_TICK / 10 ^ 9 \<and> p < of_int n * SPOT_TICK + SPOT_TICK) \<and>
    (py_upper side \<noteq> SELL \<longrightarrow> p - SPOT_TICK / 10 ^ 9 \<le> of_int n * SPOT_TICK \<and> of_int n * SPOT_TICK - SPOT_TICK < p) \<and>
    ((\<exists>k. p = of_int k * SPOT_TICK) \<longrightarrow> of_int n * SPOT_TICK = p) \<and>
    snap_spot_limit (snap_spot_limit (Some p) side SPOT_TICK) side SPOT_TICK = snap_spot_limit (Some p) side SPOT_TICK \<and>
    snap_spot_limit None side SPOT_TICK = None"
proof -
  define pick where "pick x = (if py_upper side = SELL then \<lfloor>x + 1 / 10 ^ 9\<rfloor> else \<lceil>x - 1 / 10 ^ 9\<rceil>)" for x :: flt
  have grid: "py_round 5 (of_int n * SPOT_TICK) = of_int n * SPOT_TICK" for n
    using round_half_even_of_int [of "5 * n"] by (simp add: py_round_def SPOT_TICK_def)
  have snap: "snap_spot_limit (Some x) side SPOT_TICK = Some (of_int (pick (x / SPOT_TICK)) * SPOT_TICK)" if "0 < x" for x
    using that by (simp add: snap_spot_limit_def pick_def Let_def grid [simplified])
  have fixp: "pick (of_int k) = k" for k :: int
    unfolding pick_def by (auto simp: floor_eq_iff ceiling_eq_iff)
  have on_grid: "snap_spot_limit (Some (of_int k * SPOT_TICK)) side SPOT_TICK = Some (of_int k * SPOT_TICK)" for k
  proof (cases "0 < k")
    case True
    then have "0 < of_int k * SPOT_TICK" by (simp add: SPOT_TICK_def)
    from snap [OF this] show ?thesis by (simp add: fixp SPOT_TICK_def)
  next
    case False
    then have "of_int k * SPOT_TICK \<le> 0" by (simp add: SPOT_TICK_def)
    then show ?thesis by (simp add: snap_spot_limit_def)
  qed
  let ?n = "pick (p / SPOT_TICK)"
  have p: "p = p / SPOT_TICK * SPOT_TICK" by (simp add: SPOT_TICK_def)
  have up: "of_int ?n \<le> p / SPOT_TICK + 1 / 10 ^ 9 \<and> p / SPOT_TICK < of_int ?n + 1" if "py_upper side = SELL"
    using that unfolding pick_def by simp linarith
  have dn: "p / SPOT_TICK - 1 / 10 ^ 9 \<le> of_int ?n \<and> of_int ?n - 1 < p / SPOT_TICK" if "py_upper side \<noteq> SELL"
    using that unfolding pick_def by simp linarith
  show ?thesis
  proof (intro exI [of _ ?n] conjI impI)
    show "snap_spot_limit (Some p) side SPOT_TICK = Some (of_int ?n * SPOT_TICK)" by (rule snap [OF assms])
    show "of_int ?n * SPOT_TICK \<le> p + SPOT_TICK / 10 ^ 9" "p < of_int ?n * SPOT_TICK + SPOT_TICK"
      if "py_upper side = SELL" using up [OF that] by (simp_all add: SPOT_TICK_def)
    show "p - SPOT_TICK / 10 ^ 9 \<le> of_int ?n * SPOT_TICK" "of_int ?n * SPOT_TICK - SPOT_TICK < p"
      if "py_upper side \<noteq> SELL" using dn [OF that] by (simp_all add: SPOT_TICK_def)
    show "of_int ?n * SPOT_TICK = p" if "\<exists>k. p = of_int k * SPOT_TICK"
    proof -
      from that obtain k where "p / SPOT_TICK = of_int k" by (auto simp: SPOT_TICK_def)
      with fixp [of k] p show ?thesis by simp
    qed
    show "snap_spot_limit (snap_spot_limit (Some p) side SPOT_TICK) side SPOT_TICK = snap_spot_limit (Some p) side SPOT_TICK"
      unfolding snap [OF assms] by (rule on_grid)
    show "snap_spot_limit None side SPOT_TICK = None" by (simp add: snap_spot_limit_def)
  qed
qed

theorem spot_limit_on_grid_witness:
  "snap_spot_limit (Some (of_int 22452 * SPOT_TICK)) SELL SPOT_TICK = Some (of_int 22452 * SPOT_TICK)"
proof -
  have pos: "0 < of_int 22452 * SPOT_TICK" by (simp add: SPOT_TICK_def)
  from spot_limit_on_grid [OF pos, of SELL] show ?thesis by auto
qed

text \<open>A sell limit below one tick is sent and stored as a market order.\<close>

lemma tiny_sell_becomes_market:
  "snap_spot_limit (Some (1 / 100000)) SELL SPOT_TICK = Some 0" "\<not> truthy (Some 0)"
  by (simp_all add: snap_spot_limit_def SPOT_TICK_def truthy_def)

end
