(* ===== verification/Claim_Protocol.thy ===== *)
theory Claim_Protocol
  imports Placement
begin

text \<open>
  The placement protocol of \<open>engines/execution/placement.py\<close> as an interface: a store with
  a claim that one caller can win, a release and a stamp. The locale \<open>claim_protocol\<close>
  states what the protocol needs of the three and proves that a sequence of attempts places
  at most one order; \<open>place_with_claim\<close> on the orders is one instance, the hedges another.
\<close>

section \<open>The protocol\<close>

definition place_by ::
  "(time \<Rightarrow> 's \<Rightarrow> 's \<times> bool) \<Rightarrow> ('s \<Rightarrow> 's) \<Rightarrow> (time \<Rightarrow> placed \<Rightarrow> 's \<Rightarrow> 's) \<Rightarrow>
   time \<Rightarrow> (string \<Rightarrow> placed result) \<Rightarrow> string \<Rightarrow> 's \<Rightarrow> 's \<times> place_outcome" where
  "place_by claim release stamp now placeOrder ref s =
     (case claim now s of
        (s', False) \<Rightarrow> (s', Already)
      | (s', True) \<Rightarrow>
          (case placeOrder ref of
             Inl e \<Rightarrow> (release s', Failed e)
           | Inr t \<Rightarrow> (stamp now t s', Placed_at ref t)))"

definition did_place :: "place_outcome \<Rightarrow> bool" where
  "did_place x = (case x of Placed_at ref t \<Rightarrow> True | _ \<Rightarrow> False)"

lemma did_place_simps [simp]: "did_place (Placed_at ref t)" "\<not> did_place Already" "\<not> did_place (Failed e)"
  by (simp_all add: did_place_def)

locale claim_protocol =
  fixes claimed :: "'s \<Rightarrow> bool"
    and claim :: "time \<Rightarrow> 's \<Rightarrow> 's \<times> bool"
    and release :: "'s \<Rightarrow> 's"
    and stamp :: "time \<Rightarrow> placed \<Rightarrow> 's \<Rightarrow> 's"
  assumes claim_wins: "claim now s = (s', True) \<Longrightarrow> \<not> claimed s \<and> claimed s'"
    and claim_loses: "claim now s = (s', False) \<Longrightarrow> s' = s"
    and stamp_claimed: "claimed s \<Longrightarrow> claimed (stamp now t s)"
begin

lemma place_when_claimed: "claimed s \<Longrightarrow> place_by claim release stamp now po ref s = (s, Already)"
  by (cases "claim now s"; cases "snd (claim now s)") (auto simp: place_by_def dest: claim_wins claim_loses)

lemma place_placed:
  assumes "place_by claim release stamp now po ref s = (s', Placed_at ref' t)"
  shows "ref' = ref \<and> po ref = Inr t \<and> \<not> claimed s \<and> claimed s' \<and>
    (\<exists>s1. claim now s = (s1, True) \<and> s' = stamp now t s1)"
proof -
  obtain s1 w where c: "claim now s = (s1, w)" by (cases "claim now s")
  with assms have "w" "po ref = Inr t" "s' = stamp now t s1" "ref' = ref"
    by (auto simp: place_by_def split: bool.splits sum.splits)
  with c claim_wins [of now s s1] stamp_claimed show ?thesis by simp
qed

lemma place_not_placed:
  assumes "place_by claim release stamp now po ref s = (s', out)" and "\<not> did_place out"
  shows "s' = s \<or> (\<exists>s1. claim now s = (s1, True) \<and> s' = release s1)"
proof -
  obtain s1 w where c: "claim now s = (s1, w)" by (cases "claim now s")
  show ?thesis
  proof (cases w)
    case True
    with assms c show ?thesis by (auto simp: place_by_def split: sum.splits)
  next
    case False
    with assms c claim_loses [of now s s1] show ?thesis by (simp add: place_by_def)
  qed
qed

end

section \<open>The orders provide it\<close>

interpretation order_claims: claim_protocol "row_claimed rid" "\<lambda>now. claim_submit now rid"
  "release_submit_claim rid" "\<lambda>now t. stamp_placement now rid t st" for rid st
  by unfold_locales (use claim_submit_won claim_submit_lost stamp_row_claimed in blast)+

lemma place_with_claim_by:
  "place_with_claim now po rid ref st =
     place_by (\<lambda>now. claim_submit now rid) (release_submit_claim rid) (\<lambda>now t. stamp_placement now rid t st) now po ref"
  by (rule ext) (simp add: place_with_claim_def place_by_def)

end
