(* ===== verification/Hedge_Executor.thy ===== *)
theory Hedge_Executor
  imports Claim_Protocol Close_Finaliser
begin

text \<open>
  Live submission of a delta hedge and its finalisation on the fill
  (\<open>engines/execution/hedge_executor.py\<close>), over the hedge table. What the broker answers
  (connection, qualification, quote, placement) is given with the call. The hedge rows
  provide the placement protocol of \<open>Claim_Protocol\<close>.
\<close>

section \<open>The claim on a hedge row\<close>

definition upd_hedge :: "int \<Rightarrow> (hedge_row \<Rightarrow> hedge_row) \<Rightarrow> db \<Rightarrow> db" where
  "upd_hedge hid f d = d\<lparr>t_hedges := tupd hid f (t_hedges d)\<rparr>"

definition claim_hedge :: "int \<Rightarrow> time \<Rightarrow> db \<Rightarrow> db \<times> bool" where
  "claim_hedge hid now d =
     (case tget (t_hedges d) hid of
        None \<Rightarrow> (d, False)
      | Some h \<Rightarrow>
          if h_submit_claimed_at h = None \<and> h_ib_order_id h = None
          then (upd_hedge hid (\<lambda>h. h\<lparr>h_submit_claimed_at := Some now\<rparr>) d, True)
          else (d, False))"

definition release_hedge_claim :: "int \<Rightarrow> db \<Rightarrow> db" where
  "release_hedge_claim hid d = upd_hedge hid (\<lambda>h. h\<lparr>h_submit_claimed_at := None\<rparr>) d"

text \<open>The hedge table has neither a permanent id nor a state timestamp.\<close>

definition stamp_hedge :: "int \<Rightarrow> time \<Rightarrow> placed \<Rightarrow> db \<Rightarrow> db" where
  "stamp_hedge hid now t d =
     upd_hedge hid (\<lambda>h. h\<lparr>h_ib_order_id := (if pl_order_id t \<noteq> 0 then Some (int_str (pl_order_id t)) else None),
       h_submitted_at := Some now, h_state := H_submitted\<rparr>) d"

section \<open>Submission\<close>

record hedge_broker =
  hb_connected :: bool
  hb_qualified :: "bool result"
  hb_ask :: "flt option result"
  hb_bid :: "flt option result"

record hedge_sent =
  hx_side :: string
  hx_qty :: int
  hx_limit :: flt
  hx_expiry :: "string option"
  hx_ref :: string

text \<open>The side of the quote a marketable limit crosses; a failed or empty quote is None.\<close>

definition quoted_limit :: "hedge_broker \<Rightarrow> string \<Rightarrow> flt option" where
  "quoted_limit b side =
     (case (if side = BUY then hb_ask b else hb_bid b) of
        Inl e \<Rightarrow> None
      | Inr None \<Rightarrow> None
      | Inr (Some q) \<Rightarrow> if 0 < q then Some q else None)"

datatype hedge_outcome = Hedge_skipped hedge_state | Hedge_placed hedge_sent | Hedge_refused py_error

definition fail_hedge :: "int \<Rightarrow> db \<Rightarrow> db" where
  "fail_hedge hid d = upd_hedge hid (\<lambda>h. h\<lparr>h_state := H_failed\<rparr>) d"

definition place_hedge ::
  "time \<Rightarrow> (hedge_sent \<Rightarrow> placed result) \<Rightarrow> int \<Rightarrow> hedge_row \<Rightarrow> string option \<Rightarrow> flt \<Rightarrow> db \<Rightarrow> db \<times> hedge_outcome" where
  "place_hedge now placeOrder hid h expiry lmt d =
     (let sent = (\<lambda>ref. \<lparr>hx_side = h_side h, hx_qty = h_hedge_qty h, hx_limit = lmt, hx_expiry = expiry, hx_ref = ref\<rparr>)
      in case place_by (claim_hedge hid) (release_hedge_claim hid) (stamp_hedge hid) now
              (\<lambda>ref. placeOrder (sent ref)) (hedge_order_ref hid) d of
           (d', Already) \<Rightarrow> (d', Hedge_refused AlreadyClaimed)
         | (d', Failed e) \<Rightarrow> (d', Hedge_refused e)
         | (d', Placed_at ref t) \<Rightarrow> (d', Hedge_placed (sent ref)))"

definition submit_hedge_order ::
  "time \<Rightarrow> hedge_broker \<Rightarrow> (hedge_sent \<Rightarrow> placed result) \<Rightarrow> int \<Rightarrow> string option \<Rightarrow> flt option \<Rightarrow> db \<Rightarrow> db \<times> hedge_outcome" where
  "submit_hedge_order now b placeOrder hid front_month_expiry limit_price d =
     (if \<not> hb_connected b then (d, Hedge_refused (RuntimeError ''IB Gateway not connected''))
      else
        case tget (t_hedges d) hid of
          None \<Rightarrow> (d, Hedge_refused (RuntimeError ''hedge_order not found''))
        | Some h \<Rightarrow>
            if h_state h \<noteq> H_pending then (d, Hedge_skipped (h_state h))
            else
              (case hb_qualified b of
                 Inl e \<Rightarrow> (d, Hedge_refused e)
               | Inr False \<Rightarrow> (fail_hedge hid d, Hedge_refused (RuntimeError ''hedge contract not qualified''))
               | Inr True \<Rightarrow>
                   (case (case limit_price of None \<Rightarrow> quoted_limit b (h_side h) | Some l \<Rightarrow> Some l) of
                      None \<Rightarrow> (fail_hedge hid d, Hedge_refused (RuntimeError ''no valid limit price for hedge order''))
                    | Some lmt \<Rightarrow>
                        if lmt \<le> 0
                        then (fail_hedge hid d, Hedge_refused (RuntimeError ''no valid limit price for hedge order''))
                        else place_hedge now placeOrder hid h
                               (case front_month_expiry of None \<Rightarrow> None | Some x \<Rightarrow> or_none x) lmt d)))"

section \<open>Finalisation\<close>

text \<open>The commissions are those of the trade's fills, as far as they can be read.\<close>

definition finalise_hedge :: "time \<Rightarrow> string \<Rightarrow> flt \<Rightarrow> flt option list \<Rightarrow> int \<Rightarrow> db \<Rightarrow> db" where
  "finalise_hedge now status avg_fill_price commissions hid d =
     (if status \<noteq> ''Filled'' then d
      else
        case tget (t_hedges d) hid of
          None \<Rightarrow> d
        | Some h \<Rightarrow>
            if h_state h = H_filled then d
            else
              (let commission = sum_list (map flt_or0 commissions)
               in upd_hedge hid (\<lambda>h. h\<lparr>h_fill_price := (if 0 < avg_fill_price then Some avg_fill_price else None),
                    h_commission_usd := Some commission, h_spread_paid_usd := Some 0,
                    h_total_cost_usd := Some commission, h_filled_at := Some now, h_state := H_filled\<rparr>) d))"

section \<open>The hedges provide the protocol\<close>

definition hedge_claimed :: "int \<Rightarrow> db \<Rightarrow> bool" where
  "hedge_claimed hid d = (case tget (t_hedges d) hid of None \<Rightarrow> False | Some h \<Rightarrow> h_submit_claimed_at h \<noteq> None)"

lemma upd_hedge_tget [simp]:
  "tget (t_hedges (upd_hedge k f d)) j = (if j = k then map_option f (tget (t_hedges d) k) else tget (t_hedges d) j)"
  by (simp add: upd_hedge_def tget_simps)

interpretation hedge_claims: claim_protocol "hedge_claimed hid" "claim_hedge hid" "release_hedge_claim hid" "stamp_hedge hid" for hid
  by unfold_locales (auto simp: hedge_claimed_def claim_hedge_def stamp_hedge_def split: option.splits if_splits)

text \<open>Submissions and fill events of one hedge, in any order, with the orders that reach the broker.\<close>

datatype hedge_event =
    Submit_hedge time hedge_broker "hedge_sent \<Rightarrow> placed result" "string option" "flt option"
  | Finalise_hedge time string flt "flt option list"

fun hedge_step :: "int \<Rightarrow> hedge_event \<Rightarrow> db \<Rightarrow> db \<times> hedge_sent option" where
  "hedge_step hid (Submit_hedge now b po ex lp) d =
     (case submit_hedge_order now b po hid ex lp d of
        (d', Hedge_placed x) \<Rightarrow> (d', Some x) | (d', _) \<Rightarrow> (d', None))"
| "hedge_step hid (Finalise_hedge now st avg cs) d = (finalise_hedge now st avg cs hid d, None)"

fun hedge_run :: "int \<Rightarrow> hedge_event list \<Rightarrow> db \<Rightarrow> db \<times> hedge_sent list" where
  "hedge_run hid [] d = (d, [])"
| "hedge_run hid (e # es) d =
     (let (d', x) = hedge_step hid e d; (d'', xs) = hedge_run hid es d'
      in (d'', (case x of None \<Rightarrow> xs | Some s \<Rightarrow> s # xs)))"

lemma place_hedge_placed:
  assumes "place_hedge now po hid h ex lmt d = (d', Hedge_placed x)"
  shows "\<not> hedge_claimed hid d \<and> hedge_claimed hid d' \<and> hx_side x = h_side h \<and> hx_qty x = h_hedge_qty h \<and>
    hx_limit x = lmt \<and> hx_ref x = hedge_order_ref hid"
proof -
  let ?po = "\<lambda>ref. po \<lparr>hx_side = h_side h, hx_qty = h_hedge_qty h, hx_limit = lmt, hx_expiry = ex, hx_ref = ref\<rparr>"
  obtain s out where pb: "place_by (claim_hedge hid) (release_hedge_claim hid) (stamp_hedge hid) now ?po (hedge_order_ref hid) d = (s, out)"
    by (cases "place_by (claim_hedge hid) (release_hedge_claim hid) (stamp_hedge hid) now ?po (hedge_order_ref hid) d")
  with assms obtain ref t where out: "out = Placed_at ref t" "s = d'"
    and x: "x = \<lparr>hx_side = h_side h, hx_qty = h_hedge_qty h, hx_limit = lmt, hx_expiry = ex, hx_ref = ref\<rparr>"
    by (cases out) (auto simp: place_hedge_def Let_def)
  from hedge_claims.place_placed [OF pb [unfolded out]] x show ?thesis by simp
qed

lemma place_hedge_claimed:
  "hedge_claimed hid d \<Longrightarrow> place_hedge now po hid h ex lmt d = (d, Hedge_refused AlreadyClaimed)"
  by (simp add: place_hedge_def Let_def hedge_claims.place_when_claimed)

text \<open>A submission that places nothing changes only the state or gives the claim back.\<close>

lemma submit_claimed:
  "hedge_claimed hid d \<Longrightarrow> hedge_claimed hid (fst (submit_hedge_order now b po hid ex lp d)) \<and>
     (\<forall>x. snd (submit_hedge_order now b po hid ex lp d) \<noteq> Hedge_placed x)"
  by (auto simp: submit_hedge_order_def place_hedge_claimed fail_hedge_def hedge_claimed_def
      split: option.splits sum.splits bool.splits)

lemma finalise_claimed: "hedge_claimed hid (finalise_hedge now st avg cs hid d) = hedge_claimed hid d"
  by (auto simp: finalise_hedge_def hedge_claimed_def Let_def split: option.splits)

lemma submit_placed:
  assumes "submit_hedge_order now b po hid ex lp d = (d', Hedge_placed x)"
  shows "\<exists>h. tget (t_hedges d) hid = Some h \<and> h_state h = H_pending \<and> hedge_claimed hid d' \<and> \<not> hedge_claimed hid d \<and>
    hx_side x = h_side h \<and> hx_qty x = h_hedge_qty h \<and> 0 < hx_limit x \<and> hx_ref x = hedge_order_ref hid \<and>
    (case lp of Some l \<Rightarrow> hx_limit x = l | None \<Rightarrow> quoted_limit b (h_side h) = Some (hx_limit x))"
proof -
  obtain h where h: "tget (t_hedges d) hid = Some h" "h_state h = H_pending"
    using assms by (auto simp: submit_hedge_order_def split: option.splits if_splits)
  with assms obtain lmt where lmt: "(case lp of None \<Rightarrow> quoted_limit b (h_side h) | Some l \<Rightarrow> Some l) = Some lmt" "0 < lmt"
    and pl: "place_hedge now po hid h (case ex of None \<Rightarrow> None | Some x \<Rightarrow> or_none x) lmt d = (d', Hedge_placed x)"
    by (auto simp: submit_hedge_order_def split: option.splits if_splits sum.splits bool.splits)
  from place_hedge_placed [OF pl] h lmt show ?thesis by (auto split: option.splits)
qed

lemma claimed_run_places_nothing: "hedge_claimed hid d \<Longrightarrow> snd (hedge_run hid es d) = [] \<and> hedge_claimed hid (fst (hedge_run hid es d))"
proof (induction es arbitrary: d)
  case (Cons e es)
  have step: "hedge_claimed hid (fst (hedge_step hid e d)) \<and> snd (hedge_step hid e d) = None"
  proof (cases e)
    case (Submit_hedge now b po ex lp)
    with submit_claimed [OF Cons.prems, of now b po ex lp] show ?thesis
      by (auto split: prod.splits hedge_outcome.splits)
  qed (use Cons.prems in \<open>simp add: finalise_claimed\<close>)
  with Cons.IH [of "fst (hedge_step hid e d)"] show ?case by (simp add: split_beta Let_def)
qed simp

text \<open>Nothing that happens to a hedge changes what it asks for.\<close>

definition same_request :: "int \<Rightarrow> db \<Rightarrow> db \<Rightarrow> bool" where
  "same_request hid d d' \<longleftrightarrow>
     map_option (\<lambda>h. (h_position_id h, h_side h, h_hedge_qty h)) (tget (t_hedges d) hid) =
     map_option (\<lambda>h. (h_position_id h, h_side h, h_hedge_qty h)) (tget (t_hedges d') hid)"

lemma same_request_trans: "same_request hid d d' \<Longrightarrow> same_request hid d' d'' \<Longrightarrow> same_request hid d d''"
  by (simp add: same_request_def)

lemma same_request_upd:
  "(\<And>h. (h_position_id (f h), h_side (f h), h_hedge_qty (f h)) = (h_position_id h, h_side h, h_hedge_qty h)) \<Longrightarrow>
   same_request hid d (upd_hedge hid f d)"
  by (simp add: same_request_def option.map_comp comp_def)

lemma same_request_refl [simp]: "same_request hid d d" by (simp add: same_request_def)

lemma same_request_protocol:
  "same_request hid d (fst (claim_hedge hid now d))" "same_request hid d (release_hedge_claim hid d)"
  "same_request hid d (stamp_hedge hid now t d)" "same_request hid d (fail_hedge hid d)"
  by (auto simp: claim_hedge_def release_hedge_claim_def stamp_hedge_def fail_hedge_def intro!: same_request_upd
      split: option.split)

lemma same_request_place: "same_request hid d (fst (place_hedge now po hid h ex lmt d))"
proof -
  let ?po = "\<lambda>ref. po \<lparr>hx_side = h_side h, hx_qty = h_hedge_qty h, hx_limit = lmt, hx_expiry = ex, hx_ref = ref\<rparr>"
  obtain d1 w where c: "claim_hedge hid now d = (d1, w)" by (cases "claim_hedge hid now d")
  have d1: "same_request hid d d1" using same_request_protocol(1) [of hid d now] c by simp
  have "fst (place_hedge now po hid h ex lmt d) =
      (if w then case ?po (hedge_order_ref hid) of Inl e \<Rightarrow> release_hedge_claim hid d1 | Inr t \<Rightarrow> stamp_hedge hid now t d1
       else d1)"
    by (cases w; cases "?po (hedge_order_ref hid)") (simp_all add: place_hedge_def place_by_def c Let_def)
  then show ?thesis using d1 same_request_trans [OF d1 same_request_protocol(2)] same_request_trans [OF d1 same_request_protocol(3)]
    by (auto split: sum.splits)
qed

lemma same_request_step: "same_request hid d (fst (hedge_step hid e d))"
proof (cases e)
  case (Submit_hedge now b po ex lp)
  have "same_request hid d (fst (submit_hedge_order now b po hid ex lp d))"
    by (auto simp: submit_hedge_order_def same_request_place same_request_protocol
        split: option.splits sum.splits bool.splits)
  then show ?thesis using Submit_hedge by (auto split: prod.splits hedge_outcome.splits)
next
  case (Finalise_hedge now st avg cs)
  then show ?thesis
    by (auto simp: finalise_hedge_def Let_def intro!: same_request_upd split: option.splits)
qed

section \<open>Properties\<close>

text \<open>
  A delta hedge reaches the broker at most once: however often its submission is
  replayed, whatever the broker answers each time and whenever fill events come in between,
  at most one order is placed for the row, for the side and quantity the row was created
  with, at a positive limit, under the key of this hedge.
\<close>

theorem hedge_placed_once:
  "length (snd (hedge_run hid es d)) \<le> 1 \<and>
   (\<forall>x \<in> set (snd (hedge_run hid es d)). \<exists>h. tget (t_hedges d) hid = Some h \<and> hx_side x = h_side h \<and>
      hx_qty x = h_hedge_qty h \<and> 0 < hx_limit x \<and> hx_ref x = hedge_order_ref hid)"
proof (induction es arbitrary: d)
  case (Cons e es)
  obtain d' y where st: "hedge_step hid e d = (d', y)" by (cases "hedge_step hid e d")
  have run: "snd (hedge_run hid (e # es) d) = (case y of None \<Rightarrow> snd (hedge_run hid es d') | Some x \<Rightarrow> x # snd (hedge_run hid es d'))"
    by (simp add: st split_beta split: option.split)
  show ?case
  proof (cases y)
    case None
    have "map_option (\<lambda>h. (h_position_id h, h_side h, h_hedge_qty h)) (tget (t_hedges d) hid) =
        map_option (\<lambda>h. (h_position_id h, h_side h, h_hedge_qty h)) (tget (t_hedges d') hid)"
      using same_request_step [of hid d e] st by (simp add: same_request_def)
    then have prior: "tget (t_hedges d') hid = Some h' \<Longrightarrow>
        \<exists>h. tget (t_hedges d) hid = Some h \<and> h_side h = h_side h' \<and> h_hedge_qty h = h_hedge_qty h'" for h'
      by (cases "tget (t_hedges d) hid") auto
    show ?thesis unfolding run None option.case
    proof (intro conjI ballI)
      show "length (snd (hedge_run hid es d')) \<le> 1" using Cons.IH [of d'] by blast
      fix x assume "x \<in> set (snd (hedge_run hid es d'))"
      with Cons.IH [of d'] obtain h' where "tget (t_hedges d') hid = Some h'" "hx_side x = h_side h'"
        "hx_qty x = h_hedge_qty h'" "0 < hx_limit x" "hx_ref x = hedge_order_ref hid" by blast
      with prior [of h'] show "\<exists>h. tget (t_hedges d) hid = Some h \<and> hx_side x = h_side h \<and>
          hx_qty x = h_hedge_qty h \<and> 0 < hx_limit x \<and> hx_ref x = hedge_order_ref hid" by auto
    qed
  next
    case (Some x)
    with st obtain now b po ex lp where e: "e = Submit_hedge now b po ex lp"
      and sub: "submit_hedge_order now b po hid ex lp d = (d', Hedge_placed x)"
      by (cases e) (auto split: prod.splits hedge_outcome.splits)
    from submit_placed [OF sub] claimed_run_places_nothing [of hid d' es] show ?thesis
      unfolding run Some option.case by auto
  qed
qed simp

text \<open>
  The cost of a hedge is booked once: the first fill event of a hedge adds the
  commissions of its fills to the hedging cost of its position, and of no other position,
  a second one changes nothing, and any status but filled changes nothing.
\<close>

theorem hedge_cost_booked_once:
  assumes "table_ok (t_hedges d)" and "tget (t_hedges d) hid = Some h" and "h_state h \<noteq> H_filled"
  shows "hedge_cost (finalise_hedge now ''Filled'' avg cs hid d) pid =
      hedge_cost d pid + (if h_position_id h = pid then sum_list (map flt_or0 cs) else 0) \<and>
    finalise_hedge now' st avg' cs' hid (finalise_hedge now ''Filled'' avg cs hid d) =
      finalise_hedge now ''Filled'' avg cs hid d \<and>
    (st \<noteq> ''Filled'' \<longrightarrow> finalise_hedge now st avg cs hid d = d)"
proof -
  define f where "f h = h\<lparr>h_fill_price := (if 0 < avg then Some avg else None),
      h_commission_usd := Some (sum_list (map flt_or0 cs)), h_spread_paid_usd := Some 0,
      h_total_cost_usd := Some (sum_list (map flt_or0 cs)), h_filled_at := Some now, h_state := H_filled\<rparr>" for h :: hedge_row
  have fin: "finalise_hedge now ''Filled'' avg cs hid d = upd_hedge hid f d"
    using assms by (simp add: finalise_hedge_def Let_def f_def [abs_def])
  have fsel: "h_position_id (f h) = h_position_id h" "h_state (f h) = H_filled"
    "h_total_cost_usd (f h) = Some (sum_list (map flt_or0 cs))" for h by (simp_all add: f_def)
  have sum: "sum_list (map (\<lambda>(i, h). flt_or0 (h_total_cost_usd h)) (twhere P (tupd hid f t))) =
      sum_list (map (\<lambda>(i, h). flt_or0 (h_total_cost_usd h)) (twhere P t)) +
      (if h_position_id h = pid then sum_list (map flt_or0 cs) else 0)"
    if "P = (\<lambda>h. h_position_id h = pid \<and> h_state h = H_filled)" "table_ok t" "tget t hid = Some h" for P and t :: "hedge_row table"
    using that
  proof (induction t)
    case (Cons r t)
    obtain i r0 where r: "r = (i, r0)" by (cases r)
    have tu: "tupd hid f ((j, q) # t) = (j, if j = hid then f q else q) # tupd hid f t" for j q by (simp add: tupd_def)
    show ?case
    proof (cases "i = hid")
      case True
      with Cons.prems r have "r0 = h" "hid \<notin> set (keys_of t)" by (simp_all add: tget_def table_ok_def keys_of_def)
      then have "tupd hid f t = t" by (simp add: tupd_absent)
      then show ?thesis using True r \<open>r0 = h\<close> assms(3) Cons.prems(1)
        by (auto simp: twhere_def tu fsel)
    next
      case False
      with Cons.prems r have "table_ok t" "tget t hid = Some h" by (simp_all add: tget_def table_ok_def keys_of_def)
      from Cons.IH [OF Cons.prems(1) this] False r show ?thesis
        by (simp add: twhere_def tu)
    qed
  qed (simp add: tget_def)
  have "hedge_cost (upd_hedge hid f d) pid = hedge_cost d pid + (if h_position_id h = pid then sum_list (map flt_or0 cs) else 0)"
    unfolding hedge_cost_def upd_hedge_def using sum [OF HOL.refl assms(1,2)] by simp
  moreover have "finalise_hedge now' st avg' cs' hid (upd_hedge hid f d) = upd_hedge hid f d"
    using assms(2) by (simp add: finalise_hedge_def f_def)
  moreover have "st \<noteq> ''Filled'' \<longrightarrow> finalise_hedge now st avg cs hid d = d" by (simp add: finalise_hedge_def)
  ultimately show ?thesis unfolding fin by blast
qed

definition one_hedge :: db where
  "one_hedge = empty_db\<lparr>t_hedges := [(4, \<lparr>h_position_id = 2, h_triggered_at = 0, h_submitted_at = None,
     h_submit_claimed_at = None, h_filled_at = None, h_delta_imbalance_at_trigger = 1, h_rebalance_threshold_used = 1,
     h_hedge_qty = 1, h_side = SELL, h_ib_order_id = None, h_fill_price = None, h_commission_usd = None,
     h_spread_paid_usd = None, h_total_cost_usd = None, h_state = H_pending\<rparr>)]\<rparr>"

definition calm_broker :: hedge_broker where
  "calm_broker = \<lparr>hb_connected = True, hb_qualified = Inr True, hb_ask = Inr (Some 2), hb_bid = Inr (Some 1)\<rparr>"

theorem hedge_placed_once_witness:
  "let e = Submit_hedge 9 calm_broker (\<lambda>_. Inr \<lparr>pl_order_id = 7, pl_perm_id = 8\<rparr>) None None;
       sent = snd (hedge_run 4 [e, Finalise_hedge 10 ''Submitted'' 0 [], e] one_hedge)
   in length sent = 1 \<and> (\<exists>x. sent = [x] \<and> hx_side x = SELL \<and> hx_qty x = 1 \<and> 0 < hx_limit x \<and> hx_ref x = hedge_order_ref 4)"
proof -
  let ?e = "Submit_hedge 9 calm_broker (\<lambda>_. Inr \<lparr>pl_order_id = 7, pl_perm_id = 8\<rparr>) None None"
  let ?sent = "snd (hedge_run 4 [?e, Finalise_hedge 10 ''Submitted'' 0 [], ?e] one_hedge)"
  have "?sent \<noteq> []"
    by (simp add: submit_hedge_order_def calm_broker_def one_hedge_def quoted_limit_def place_hedge_def place_by_def
        claim_hedge_def tget_def upd_hedge_def tupd_def stamp_hedge_def Let_def split_beta)
  then obtain x xs where x: "?sent = x # xs" by (cases ?sent) auto
  note once = hedge_placed_once [of 4 "[?e, Finalise_hedge 10 ''Submitted'' 0 [], ?e]" one_hedge]
  with x have "xs = []" by auto
  moreover obtain h where "tget (t_hedges one_hedge) 4 = Some h" "hx_side x = h_side h" "hx_qty x = h_hedge_qty h"
    "0 < hx_limit x" "hx_ref x = hedge_order_ref 4" using once x by auto
  ultimately show ?thesis using x by (auto simp: one_hedge_def tget_def Let_def)
qed

theorem hedge_cost_booked_once_witness:
  "hedge_cost (finalise_hedge 9 ''Filled'' 1 [Some 2, None, Some 3] 4 one_hedge) 2 = 5"
proof -
  obtain h where h: "table_ok (t_hedges one_hedge)" "tget (t_hedges one_hedge) 4 = Some h" "h_state h \<noteq> H_filled"
    "h_position_id h = 2"
    by (simp add: one_hedge_def table_ok_def keys_of_def tget_def)
  have "hedge_cost one_hedge 2 = 0" by (simp add: hedge_cost_def one_hedge_def twhere_def)
  with hedge_cost_booked_once [OF h(1-3), of 9 1 "[Some 2, None, Some 3]" 2] h(4) show ?thesis by simp
qed

end
