(* ===== verification/Position_Sync.thy ===== *)
theory Position_Sync
  imports Position_Reconciler Contracts Closing
begin

text \<open>
  The broker mirror (\<open>engines/execution/position_sync.py\<close>): the upsert of the positions the
  broker reports into \<open>open_position\<close> with the guarded deletes, the marks published for
  them, the account snapshot and the reconciliation of the booked positions with its
  automatic close. A pass is a function of the clock, the date, what the broker reports and
  the database. Publication on the bus and logging are left out.
\<close>

section \<open>Dates and tenors\<close>

text \<open>
  \<open>strptime(s, "%Y%m%d")\<close>: four digits, then a month of two digits or one, then a day of two
  digits or one, the longer reading of the month tried first.
\<close>

definition day_field :: "string \<Rightarrow> nat option" where
  "day_field s =
     (case s of
        [a] \<Rightarrow> if is_digit a \<and> a \<noteq> CHR ''0'' then Some (digit_val a) else None
      | [a, b] \<Rightarrow>
          if \<not> is_digit b then None
          else if a = CHR '' '' then (if b \<noteq> CHR ''0'' then Some (digit_val b) else None)
          else if \<not> is_digit a then None
          else let n = 10 * digit_val a + digit_val b in if 1 \<le> n \<and> n \<le> 31 then Some n else None
      | _ \<Rightarrow> None)"

definition month_day :: "string \<Rightarrow> (nat \<times> nat) option" where
  "month_day s =
     (let two = (case s of
                   a # b # r \<Rightarrow>
                     if is_digit a \<and> is_digit b
                     then let n = 10 * digit_val a + digit_val b
                          in if 1 \<le> n \<and> n \<le> 12 then map_option (Pair n) (day_field r) else None
                     else None
                 | _ \<Rightarrow> None);
          one = (case s of
                   a # r \<Rightarrow> if is_digit a \<and> a \<noteq> CHR ''0'' then map_option (Pair (digit_val a)) (day_field r) else None
                 | _ \<Rightarrow> None)
      in case two of Some x \<Rightarrow> Some x | None \<Rightarrow> one)"

definition expiry_to_date :: "string option \<Rightarrow> date option" where
  "expiry_to_date s =
     (let t = str_or s in
      if length t < 4 \<or> \<not> list_all is_digit (take 4 t) then None
      else (case month_day (drop 4 t) of
              None \<Rightarrow> None
            | Some (m, dd) \<Rightarrow>
                let y = nat (digits_int (take 4 t))
                in if valid_date y m dd then Some (Date y m dd) else None))"

definition tenor_bucket :: "date \<Rightarrow> date option \<Rightarrow> string option" where
  "tenor_bucket today maturity =
     (case maturity of
        None \<Rightarrow> None
      | Some e \<Rightarrow>
          let days = ordinal e - ordinal today in
          Some (if days < 0 then ''expired'' else if days \<le> 10 then ''1W'' else if days \<le> 22 then ''2W''
                else if days \<le> 45 then ''1M'' else if days \<le> 75 then ''2M'' else if days \<le> 135 then ''3M''
                else if days \<le> 225 then ''6M'' else if days \<le> 317 then ''9M'' else if days \<le> 547 then ''1Y''
                else ''2Y+''))"

section \<open>What the broker reports\<close>

text \<open>A position with no local symbol has the empty string.\<close>

record ib_position =
  ip_local_symbol :: symbol
  ip_symbol :: "string option"
  ip_expiry :: "string option"
  ip_con_id :: "int option"
  ip_position :: flt
  ip_avg_cost :: flt

definition active_positions :: "ib_position list \<Rightarrow> ib_position list" where
  "active_positions ps = filter (\<lambda>p. 0 < \<bar>ip_position p\<bar>) ps"

definition ib_by_key :: "ib_position list \<Rightarrow> (symbol \<times> ib_position) list" where
  "ib_by_key ps =
     foldl (\<lambda>m p. if ip_local_symbol p = [] then m else AList.update (ip_local_symbol p) p m) [] (active_positions ps)"

text \<open>The mirror row of a symbol; of several rows the last one is kept.\<close>

definition db_by_key :: "open_position_row table \<Rightarrow> (symbol \<times> int) list" where
  "db_by_key t =
     foldl (\<lambda>m (k, r). if op_structure r = [] then m else AList.update (op_structure r) k m) [] t"

section \<open>The structure behind a symbol\<close>

definition structure_order_to_ib_key :: "order_row \<Rightarrow> symbol option" where
  "structure_order_to_ib_key leg =
     build_ib_local_symbol (Some (o_contract_type leg)) (o_contract_expiry leg) (o_contract_strike leg)
       (Some (o_contract_symbol leg))"

definition leg_key :: "order_row \<Rightarrow> symbol option" where
  "leg_key leg =
     (if str_or (o_ib_local_symbol leg) \<noteq> [] then o_ib_local_symbol leg else structure_order_to_ib_key leg)"

definition PARENT_LIVE_STATES :: "structure_state list" where
  "PARENT_LIVE_STATES = [S_submitted, S_partial_fill, S_fully_filled, S_partial_fail]"

type_synonym trade_link = "string \<times> int \<times> int option"

definition entry_legs :: "db \<Rightarrow> int \<Rightarrow> order_row list" where
  "entry_legs d sid = map snd (twhere (\<lambda>r. o_structure_id r = sid \<and> o_order_role r = Entry) (t_orders d))"

definition build_leg_to_trade_map :: "db \<Rightarrow> (symbol \<times> trade_link) list" where
  "build_leg_to_trade_map d =
     foldl (\<lambda>out (sid, s).
         foldl (\<lambda>out leg. case leg_key leg of
                    None \<Rightarrow> out
                  | Some k \<Rightarrow> AList.update k (s_structure_type s, sid, s_package_id s) out)
           out (entry_legs d sid))
       [] (twhere (\<lambda>s. s_state s \<in> set PARENT_LIVE_STATES) (t_structures d))"

section \<open>The mirror\<close>

definition position_qty :: "ib_position \<Rightarrow> flt" where
  "position_qty p = \<bar>ip_position p\<bar>"

definition position_side :: "ib_position \<Rightarrow> string" where
  "position_side p = (if 0 < ip_position p then BUY else SELL)"

definition position_multiplier :: "symbol \<Rightarrow> ib_position \<Rightarrow> flt" where
  "position_multiplier ls p =
     (case parse_local_symbol (Some ls) of Some spec \<Rightarrow> cs_multiplier spec | None \<Rightarrow> multiplier_for (ip_symbol p))"

text \<open>The columns a pass refreshes on every row.\<close>

definition refresh_cols ::
  "date \<Rightarrow> (symbol \<times> trade_link) list \<Rightarrow> symbol \<Rightarrow> ib_position \<Rightarrow> open_position_row \<Rightarrow> open_position_row" where
  "refresh_cols today links ls p row =
     (let mult = position_multiplier ls p; maturity = expiry_to_date (ip_expiry p); link = map_of links ls
      in row\<lparr>op_expiry := maturity, op_tenor := tenor_bucket today maturity,
             op_nominal_eur := Some (position_qty p * mult),
             op_contract_price_entry := (if ip_avg_cost p \<noteq> 0 then Some (ip_avg_cost p / mult) else None),
             op_product_label := product_label_from_symbol (Some ls) (map_option fst link),
             op_contract_id := ip_con_id p,
             op_trade_id := map_option (fst \<circ> snd) link,
             op_package_id := (case link of None \<Rightarrow> None | Some l \<Rightarrow> snd (snd l))\<rparr>)"

definition blank_row :: "time \<Rightarrow> symbol \<Rightarrow> ib_position \<Rightarrow> open_position_row" where
  "blank_row now ls p =
     \<lparr>op_structure = ls, op_trade_id = None, op_side = position_side p, op_quantity = Some (position_qty p),
      op_market_price = None, op_product_label = None, op_contract_id = None, op_package_id = None,
      op_tenor = None, op_expiry = None, op_nominal_eur = None, op_contract_price_entry = None,
      op_entry_timestamp = now\<rparr>"

definition row_current :: "ib_position \<Rightarrow> open_position_row \<Rightarrow> bool" where
  "row_current p row = (op_quantity row = Some (position_qty p) \<and> op_side row = position_side p)"

definition upsert_row ::
  "date \<Rightarrow> (symbol \<times> trade_link) list \<Rightarrow> symbol \<Rightarrow> ib_position \<Rightarrow> open_position_row \<Rightarrow> open_position_row" where
  "upsert_row today links ls p row =
     refresh_cols today links ls p
       (if row_current p row then row
        else row\<lparr>op_quantity := Some (position_qty p), op_side := position_side p\<rparr>)"

record sync_acc =
  sa_table :: "open_position_row table"
  sa_opened :: nat
  sa_unchanged :: nat

definition sync_step ::
  "time \<Rightarrow> date \<Rightarrow> (symbol \<times> trade_link) list \<Rightarrow> (symbol \<times> int) list \<Rightarrow> sync_acc \<Rightarrow> symbol \<times> ib_position \<Rightarrow> sync_acc" where
  "sync_step now today links known a e =
     (let (ls, p) = e in
      case map_of known ls of
        Some k \<Rightarrow>
          a\<lparr>sa_table := tupd k (upsert_row today links ls p) (sa_table a),
            sa_unchanged := sa_unchanged a +
              (case tget (sa_table a) k of Some row \<Rightarrow> if row_current p row then 1 else 0 | None \<Rightarrow> 0)\<rparr>
      | None \<Rightarrow>
          a\<lparr>sa_table := tins (refresh_cols today links ls p (blank_row now ls p)) (sa_table a),
            sa_opened := sa_opened a + 1\<rparr>)"

text \<open>A snapshot that reports nothing while rows exist is not believed.\<close>

definition trustworthy :: "bool \<Rightarrow> ib_position list \<Rightarrow> (symbol \<times> int) list \<Rightarrow> bool" where
  "trustworthy reporting active known = (reporting \<and> \<not> (active = [] \<and> known \<noteq> []))"

definition tdelete :: "int list \<Rightarrow> 'r table \<Rightarrow> 'r table" where
  "tdelete ks t = filter (\<lambda>(k, r). k \<notin> set ks) t"

record sync_report =
  sy_synced :: nat
  sy_opened :: nat
  sy_closed :: nat
  sy_unchanged :: nat
  sy_deletes_skipped :: bool

definition sync_positions_from_ib ::
  "time \<Rightarrow> date \<Rightarrow> bool \<Rightarrow> bool \<Rightarrow> ib_position list \<Rightarrow> db \<Rightarrow> db \<times> sync_report option" where
  "sync_positions_from_ib now today conn reporting ps d =
     (if \<not> conn then (d, None)
      else
        let ib = ib_by_key ps; known = db_by_key (t_open_positions d); links = build_leg_to_trade_map d;
            a = foldl (sync_step now today links known)
                  \<lparr>sa_table = t_open_positions d, sa_opened = 0, sa_unchanged = 0\<rparr> ib;
            trust = trustworthy reporting (active_positions ps) known;
            gone = (if trust then map snd (filter (\<lambda>(s, k). s \<notin> fst ` set ib) known) else [])
        in (d\<lparr>t_open_positions := tdelete gone (sa_table a)\<rparr>,
            Some \<lparr>sy_synced = length (active_positions ps), sy_opened = sa_opened a, sy_closed = length gone,
                  sy_unchanged = sa_unchanged a, sy_deletes_skipped = (\<not> trust)\<rparr>))"

section \<open>Published marks\<close>

record portfolio_item =
  pi_local_symbol :: symbol
  pi_market_price :: "flt option"
  pi_unrealized_pnl :: "flt option"

text \<open>A zero price or result counts as absent.\<close>

definition nonzero :: "flt option \<Rightarrow> flt option" where
  "nonzero x = (case x of None \<Rightarrow> None | Some v \<Rightarrow> if v = 0 then None else Some v)"

definition portfolio_by_key :: "portfolio_item list \<Rightarrow> (symbol \<times> (flt option \<times> flt option)) list" where
  "portfolio_by_key items =
     foldl (\<lambda>m i. if pi_local_symbol i = [] then m
                  else AList.update (pi_local_symbol i) (nonzero (pi_market_price i), nonzero (pi_unrealized_pnl i)) m)
       [] items"

record published_marks =
  pb_contract_marks :: "(int \<times> flt) list"
  pb_option_marks :: "(int \<times> flt) list"
  pb_unrealized_pnl :: "(int \<times> flt) list"

definition is_option_symbol :: "symbol \<Rightarrow> bool" where
  "is_option_symbol ls =
     (case parse_local_symbol (Some ls) of Some spec \<Rightarrow> cs_instrument_type spec = OPTION | None \<Rightarrow> False)"

definition marks_of_row :: "(symbol \<times> (flt option \<times> flt option)) list \<Rightarrow> published_marks \<Rightarrow> int \<times> open_position_row \<Rightarrow> published_marks" where
  "marks_of_row pf m e =
     (let (k, r) = e in
      case map_of pf (op_structure r) of
        None \<Rightarrow> m
      | Some (price, pnl) \<Rightarrow>
          m\<lparr>pb_contract_marks := pb_contract_marks m @ (case price of None \<Rightarrow> [] | Some v \<Rightarrow> [(k, v)]),
            pb_option_marks := pb_option_marks m @
              (case price of None \<Rightarrow> [] | Some v \<Rightarrow> if is_option_symbol (op_structure r) then [(k, v)] else []),
            pb_unrealized_pnl := pb_unrealized_pnl m @ (case pnl of None \<Rightarrow> [] | Some v \<Rightarrow> [(k, v)])\<rparr>)"

definition publish_portfolio :: "portfolio_item list \<Rightarrow> db \<Rightarrow> published_marks" where
  "publish_portfolio items d =
     foldl (marks_of_row (portfolio_by_key items))
       \<lparr>pb_contract_marks = [], pb_option_marks = [], pb_unrealized_pnl = []\<rparr> (t_open_positions d)"

section \<open>The account snapshot\<close>

text \<open>A tag with a value that is not a number has None.\<close>

fun pick :: "(string \<times> flt option) list \<Rightarrow> string list \<Rightarrow> flt option" where
  "pick summary [] = None"
| "pick summary (tag # tags) =
     (case map_of summary tag of Some (Some v) \<Rightarrow> Some (py_round 2 v) | _ \<Rightarrow> pick summary tags)"

record account_row =
  ac_timestamp :: time
  ac_net_liq_usd :: "flt option"
  ac_cash_usd :: "flt option"
  ac_unrealized_pnl_usd :: "flt option"
  ac_accrued_cash :: "flt option"
  ac_gross_position_value :: "flt option"
  ac_init_margin_req :: "flt option"
  ac_maint_margin_req :: "flt option"
  ac_excess_liquidity :: "flt option"
  ac_cushion :: "flt option"
  ac_open_positions_count :: nat

definition insert_account_snap ::
  "time \<Rightarrow> bool \<Rightarrow> (string \<times> flt option) list \<Rightarrow> db \<Rightarrow> account_row list \<Rightarrow> account_row list \<times> bool" where
  "insert_account_snap now conn summary d hist =
     (if \<not> conn \<or> summary = [] then (hist, False)
      else
        (hist @ [\<lparr>ac_timestamp = now,
           ac_net_liq_usd = pick summary [''NetLiquidation'', ''NetLiquidationByCurrency''],
           ac_cash_usd = pick summary [''TotalCashValue'', ''TotalCashBalance'', ''CashBalance''],
           ac_unrealized_pnl_usd = pick summary [''UnrealizedPnL''],
           ac_accrued_cash = pick summary [''AccruedCash''],
           ac_gross_position_value = pick summary [''GrossPositionValue'', ''GrossPositionValue-S''],
           ac_init_margin_req = pick summary [''InitMarginReq'', ''FullInitMarginReq''],
           ac_maint_margin_req = pick summary [''MaintMarginReq'', ''FullMaintMarginReq''],
           ac_excess_liquidity = pick summary [''ExcessLiquidity'', ''FullExcessLiquidity''],
           ac_cushion = pick summary [''Cushion''],
           ac_open_positions_count = length (t_open_positions d)\<rparr>], True))"

section \<open>Booked positions against the broker\<close>

definition ib_qty_by_key :: "ib_position list \<Rightarrow> (symbol \<times> int) list" where
  "ib_qty_by_key ps =
     foldl (\<lambda>m p. if ip_local_symbol p = [] then m
                  else AList.update (ip_local_symbol p)
                         ((case map_of m (ip_local_symbol p) of None \<Rightarrow> 0 | Some q \<Rightarrow> q) + \<bar>py_trunc (ip_position p)\<bar>) m)
       [] (active_positions ps)"

definition booked_total :: "order_row list \<Rightarrow> int" where
  "booked_total legs = sum_list (map (\<lambda>r. if o_qty_filled r \<noteq> 0 then o_qty_filled r else o_qty r) legs)"

text \<open>The broker's quantity under the rebuilt symbols of the legs.\<close>

definition broker_total :: "(symbol \<times> int) list \<Rightarrow> order_row list \<Rightarrow> int" where
  "broker_total qty legs =
     sum_list (map (\<lambda>r. case structure_order_to_ib_key r of
                          None \<Rightarrow> 0
                        | Some k \<Rightarrow> (case map_of qty k of None \<Rightarrow> 0 | Some q \<Rightarrow> q)) legs)"

definition stale_flat :: "time \<Rightarrow> int \<Rightarrow> position_row \<Rightarrow> bool" where
  "stale_flat now at_ib tp = (at_ib = 0 \<and> b_opened_at tp < now - 3600)"

definition reconciled_event :: "int \<Rightarrow> int \<Rightarrow> int \<Rightarrow> flt option \<Rightarrow> event_row" where
  "reconciled_event pid sid booked last_mark =
     \<lparr>ev_event_type = ''position_reconciled_closed'', ev_severity = Sev_info, ev_structure_id = Some sid,
      ev_order_id = None, ev_position_id = None,
      ev_payload = [(''booked_position_id'', PInt pid), (''booked_qty'', PInt booked),
        (''dissolved_mark_pnl_usd'', p_opt_flt (map_option (py_round 2) last_mark))]\<rparr>"

definition reconcile_one ::
  "time \<Rightarrow> bool \<Rightarrow> (int \<Rightarrow> flt option) \<Rightarrow> (symbol \<times> int) list \<Rightarrow> db \<times> nat \<times> nat \<Rightarrow> int \<times> position_row \<Rightarrow> db \<times> nat \<times> nat" where
  "reconcile_one now close_stale last_mark qty a e =
     (let (d, reconciled, closed) = a; (pid, tp) = e; legs = entry_legs d (b_structure_id tp) in
      if legs = [] then a
      else
        let booked = booked_total legs; at_ib = broker_total qty legs;
            tp1 = tp\<lparr>b_ib_reconciled_at := Some now, b_ib_qty_total := Some at_ib, b_ib_qty_diff := Some (booked - at_ib)\<rparr>
        in if stale_flat now at_ib tp \<and> close_stale
           then (add_event (reconciled_event pid (b_structure_id tp) booked (last_mark pid))
                   (d\<lparr>t_positions := tupd pid (\<lambda>_. tp1\<lparr>b_state := P_closed, b_closed_at := Some now,
                        b_close_reason := Some ''reconciled_flat_at_ib''\<rparr>) (t_positions d)\<rparr>),
                 reconciled + 1, closed + 1)
           else (d\<lparr>t_positions := tupd pid (\<lambda>_. tp1) (t_positions d)\<rparr>, reconciled + 1, closed))"

definition reconcile_trade_positions ::
  "time \<Rightarrow> bool \<Rightarrow> bool \<Rightarrow> bool \<Rightarrow> (int \<Rightarrow> flt option) \<Rightarrow> ib_position list \<Rightarrow> db \<Rightarrow> db \<times> nat \<times> nat" where
  "reconcile_trade_positions now conn reporting autoclose last_mark ps d =
     (if \<not> conn then (d, 0, 0)
      else foldl (reconcile_one now (autoclose \<and> reporting) last_mark (ib_qty_by_key ps)) (d, 0, 0)
             (twhere (\<lambda>tp. b_state tp = P_open) (t_positions d)))"

section \<open>The mirror as a map\<close>

definition structures :: "open_position_row table \<Rightarrow> symbol list" where
  "structures t = map (\<lambda>(k, r). op_structure r) t"

definition mirror_row :: "open_position_row table \<Rightarrow> symbol \<Rightarrow> open_position_row option" where
  "mirror_row t ls = map_of (map (\<lambda>(k, r). (op_structure r, r)) t) ls"

lemma structures_tupd: "(\<And>r. op_structure (f r) = op_structure r) \<Longrightarrow> structures (tupd k f t) = structures t"
  by (induction t) (auto simp: structures_def tupd_def)

lemma structures_tins: "structures (tins r t) = structures t @ [op_structure r]"
  by (simp add: structures_def tins_def)

lemma mirror_row_None: "mirror_row t ls = None \<longleftrightarrow> ls \<notin> set (structures t)"
  by (induction t) (auto simp: mirror_row_def structures_def)

lemma mirror_row_tupd:
  assumes "table_ok t" and "distinct (structures t)" and "(k, r) \<in> set t" and "\<And>r. op_structure (f r) = op_structure r"
  shows "mirror_row (tupd k f t) = (mirror_row t)(op_structure r \<mapsto> f r)"
  using assms(1-3)
proof (induction t)
  case (Cons e t)
  obtain j q where e: "e = (j, q)" by (cases e)
  show ?case
  proof (cases "j = k")
    case True
    with Cons.prems e have "q = r" "k \<notin> set (keys_of t)" by (auto simp: table_ok_def keys_of_def image_iff)
    then have "tupd k f t = t" by (simp add: tupd_absent)
    then have "tupd k f (e # t) = (k, f r) # t" using True e \<open>q = r\<close> by (simp add: tupd_def)
    then show ?thesis using e \<open>q = r\<close> assms(4) by (auto simp: mirror_row_def)
  next
    case False
    then have rest: "table_ok t" "distinct (structures t)" "(k, r) \<in> set t"
      using Cons.prems e by (auto simp: table_ok_def keys_of_def structures_def)
    have ne: "op_structure q \<noteq> op_structure r" using Cons.prems e rest(3) by (force simp: structures_def)
    have "tupd k f (e # t) = (j, q) # tupd k f t" using False e by (simp add: tupd_def)
    then show ?thesis using Cons.IH [OF rest] e ne by (auto simp: mirror_row_def fun_eq_iff)
  qed
qed simp

lemma mirror_row_tins:
  "op_structure r \<notin> set (structures t) \<Longrightarrow> mirror_row (tins r t) = (mirror_row t)(op_structure r \<mapsto> r)"
  using mirror_row_None [of t "op_structure r"]
  by (auto simp: mirror_row_def tins_def map_add_def fun_eq_iff split: option.split)

lemma mirror_row_tdelete:
  assumes "distinct (structures t)"
  shows "mirror_row (tdelete ks t) ls = (if \<exists>(k, r) \<in> set t. op_structure r = ls \<and> k \<in> set ks then None else mirror_row t ls)"
  using assms
proof (induction t)
  case (Cons e t)
  obtain j q where e: "e = (j, q)" by (cases e)
  have IH: "mirror_row (tdelete ks t) ls = (if \<exists>(k, r) \<in> set t. op_structure r = ls \<and> k \<in> set ks then None else mirror_row t ls)"
    using Cons by (simp add: structures_def)
  show ?case
  proof (cases "op_structure q = ls")
    case True
    then have none: "\<not> (\<exists>(k, r) \<in> set t. op_structure r = ls \<and> k \<in> set ks)" "mirror_row t ls = None"
      using Cons.prems e mirror_row_None [of t ls] by (force simp: structures_def)+
    with IH have "mirror_row (tdelete ks t) ls = None" by simp
    then show ?thesis using True none e by (simp add: tdelete_def mirror_row_def)
  next
    case False
    then have "mirror_row (tdelete ks (e # t)) ls = mirror_row (tdelete ks t) ls"
      using e by (simp add: tdelete_def mirror_row_def)
    moreover have "mirror_row (e # t) ls = mirror_row t ls" using False e by (simp add: mirror_row_def)
    ultimately show ?thesis using IH False e by simp
  qed
qed (simp add: tdelete_def mirror_row_def)

lemma net_position_mirror:
  assumes "distinct (structures (t_open_positions d))"
  shows "net_position d ls =
    (case mirror_row (t_open_positions d) ls of None \<Rightarrow> 0 | Some r \<Rightarrow> signed (op_side r) (flt_or0 (op_quantity r)))"
proof -
  have "(\<Sum>p\<leftarrow>filter (\<lambda>p. op_structure p = ls) (map snd t). signed (op_side p) (flt_or0 (op_quantity p))) =
      (case mirror_row t ls of None \<Rightarrow> 0 | Some r \<Rightarrow> signed (op_side r) (flt_or0 (op_quantity r)))"
    if "distinct (structures t)" for t
    using that
  proof (induction t)
    case (Cons e t)
    obtain j q where e: "e = (j, q)" by (cases e)
    show ?case
    proof (cases "op_structure q = ls")
      case True
      then have "filter (\<lambda>p. op_structure p = ls) (map snd t) = []"
        using Cons.prems e by (force simp: structures_def filter_empty_conv)
      then show ?thesis using True e by (simp add: mirror_row_def)
    next
      case False
      then show ?thesis using Cons e by (simp add: mirror_row_def structures_def)
    qed
  qed (simp add: mirror_row_def)
  with assms show ?thesis by (simp add: net_position_def)
qed

text \<open>A dictionary built from distinct keys is the list of its entries.\<close>

lemma dict_of_distinct:
  "distinct (map key xs) \<Longrightarrow> [] \<notin> key ` set xs \<Longrightarrow> fst ` set m \<inter> key ` set xs = {} \<Longrightarrow>
   foldl (\<lambda>m x. if key x = [] then m else AList.update (key x) (val x) m) m xs = m @ map (\<lambda>x. (key x, val x)) xs"
proof (induction xs arbitrary: m)
  case (Cons x xs)
  have up: "AList.update (key x) (val x) m = m @ [(key x, val x)]"
    using Cons.prems(3) by (induction m) auto
  have "foldl (\<lambda>m x. if key x = [] then m else AList.update (key x) (val x) m) (m @ [(key x, val x)]) xs =
      (m @ [(key x, val x)]) @ map (\<lambda>x. (key x, val x)) xs"
    by (rule Cons.IH) (use Cons.prems in auto)
  moreover have "key x \<noteq> []" using Cons.prems(2) by auto
  ultimately show ?case by (simp add: up)
qed simp

lemma ib_by_key_distinct:
  assumes "distinct (map ip_local_symbol (active_positions ps))" and "[] \<notin> ip_local_symbol ` set (active_positions ps)"
  shows "ib_by_key ps = map (\<lambda>p. (ip_local_symbol p, p)) (active_positions ps)"
  unfolding ib_by_key_def using dict_of_distinct [OF assms, of "[]" "\<lambda>p. p"] by simp

lemma db_by_key_distinct:
  assumes "distinct (structures t)" and "[] \<notin> set (structures t)"
  shows "db_by_key t = map (\<lambda>(k, r). (op_structure r, k)) t"
  using dict_of_distinct [of "\<lambda>e. op_structure (snd e)" t "[]" fst] assms
  by (simp add: db_by_key_def structures_def case_prod_unfold)

section \<open>One pass over the broker's positions\<close>

lemma upsert_row_cols:
  "op_structure (upsert_row today links ls p r) = op_structure r"
  "op_quantity (upsert_row today links ls p r) = Some (position_qty p)"
  "op_side (upsert_row today links ls p r) = position_side p"
  "op_structure (refresh_cols today links ls p r) = op_structure r"
  "op_quantity (refresh_cols today links ls p r) = op_quantity r"
  "op_side (refresh_cols today links ls p r) = op_side r"
  by (simp_all add: upsert_row_def refresh_cols_def row_current_def Let_def)

definition holds :: "open_position_row option \<Rightarrow> ib_position \<Rightarrow> bool" where
  "holds r p = (\<exists>x. r = Some x \<and> op_quantity x = Some (position_qty p) \<and> op_side x = position_side p)"

definition sync_ready :: "(symbol \<times> int) list \<Rightarrow> (symbol \<times> ib_position) list \<Rightarrow> open_position_row table \<Rightarrow> bool" where
  "sync_ready known es t \<longleftrightarrow> table_ok t \<and> distinct (structures t) \<and> distinct (map fst es) \<and>
     (\<forall>ls \<in> fst ` set es. case map_of known ls of
        Some k \<Rightarrow> \<exists>r. (k, r) \<in> set t \<and> op_structure r = ls
      | None \<Rightarrow> ls \<notin> set (structures t))"

definition rows_kept :: "open_position_row table \<Rightarrow> open_position_row table \<Rightarrow> bool" where
  "rows_kept t t' \<longleftrightarrow> (\<forall>(k, r) \<in> set t. \<exists>r'. (k, r') \<in> set t' \<and> op_structure r' = op_structure r)"

lemma rows_kept_trans: "rows_kept t u \<Longrightarrow> rows_kept u v \<Longrightarrow> rows_kept t v"
  unfolding rows_kept_def by fastforce

lemma rows_kept_refl: "rows_kept t t"
  by (auto simp: rows_kept_def)

lemma sync_step_table:
  assumes "sync_ready known ((ls, p) # es) (sa_table a)"
  shows "sync_ready known es (sa_table (sync_step now today links known a (ls, p)))"
    and "\<exists>x. op_quantity x = Some (position_qty p) \<and> op_side x = position_side p \<and> op_structure x = ls \<and>
      mirror_row (sa_table (sync_step now today links known a (ls, p))) = (mirror_row (sa_table a))(ls \<mapsto> x)"
    and "sa_opened (sync_step now today links known a (ls, p)) = sa_opened a + (if map_of known ls = None then 1 else 0)"
    and "rows_kept (sa_table a) (sa_table (sync_step now today links known a (ls, p)))"
proof -
  let ?t = "sa_table a"
  have ok: "table_ok ?t" "distinct (structures ?t)" using assms by (simp_all add: sync_ready_def)
  have rest: "\<forall>s \<in> fst ` set es. case map_of known s of
        Some k \<Rightarrow> \<exists>r. (k, r) \<in> set ?t \<and> op_structure r = s | None \<Rightarrow> s \<notin> set (structures ?t)"
    and fresh: "ls \<notin> fst ` set es" "distinct (map fst es)"
    using assms by (auto simp: sync_ready_def)
  have all: "sync_ready known es (sa_table (sync_step now today links known a (ls, p))) \<and>
    (\<exists>x. op_quantity x = Some (position_qty p) \<and> op_side x = position_side p \<and> op_structure x = ls \<and>
      mirror_row (sa_table (sync_step now today links known a (ls, p))) = (mirror_row ?t)(ls \<mapsto> x)) \<and>
    sa_opened (sync_step now today links known a (ls, p)) = sa_opened a + (if map_of known ls = None then 1 else 0) \<and>
    rows_kept ?t (sa_table (sync_step now today links known a (ls, p)))"
  proof (cases "map_of known ls")
    case (Some k)
    let ?f = "upsert_row today links ls p"
    from assms Some obtain r where r: "(k, r) \<in> set ?t" "op_structure r = ls" by (auto simp: sync_ready_def)
    have t': "sa_table (sync_step now today links known a (ls, p)) = tupd k ?f ?t" by (simp add: sync_step_def Some)
    have rows: "\<exists>r'. (j, r') \<in> set (tupd k ?f ?t) \<and> op_structure r' = op_structure q" if "(j, q) \<in> set ?t" for j q
      using that by (cases "j = k") (auto simp: tupd_in_iff upsert_row_cols)
    have later: "case map_of known s of
        Some j \<Rightarrow> \<exists>r. (j, r) \<in> set (tupd k ?f ?t) \<and> op_structure r = s
      | None \<Rightarrow> s \<notin> set (structures ?t)" if "s \<in> fst ` set es" for s
    proof (cases "map_of known s")
      case None
      then show ?thesis using rest that by force
    next
      case (Some j)
      with rest that obtain q where "(j, q) \<in> set ?t" "op_structure q = s" by force
      from rows [OF this(1)] this(2) Some show ?thesis by auto
    qed
    have same: "structures (tupd k ?f ?t) = structures ?t" by (rule structures_tupd) (rule upsert_row_cols)
    have "sync_ready known es (tupd k ?f ?t)"
      unfolding sync_ready_def same using ok fresh(2) later by simp
    moreover
    have "mirror_row (tupd k ?f ?t) = (mirror_row ?t)(ls \<mapsto> ?f r)"
      using mirror_row_tupd [OF ok r(1), of ?f] r(2) by (simp add: upsert_row_cols)
    then have "\<exists>x. op_quantity x = Some (position_qty p) \<and> op_side x = position_side p \<and> op_structure x = ls \<and>
      mirror_row (tupd k ?f ?t) = (mirror_row ?t)(ls \<mapsto> x)"
      using r(2) by (intro exI [of _ "?f r"]) (simp add: upsert_row_cols)
    moreover have "rows_kept ?t (tupd k ?f ?t)" unfolding rows_kept_def using rows by blast
    ultimately show ?thesis unfolding t' using Some by (simp add: sync_step_def)
  next
    case None
    let ?x = "refresh_cols today links ls p (blank_row now ls p)"
    have x: "op_structure ?x = ls" "op_quantity ?x = Some (position_qty p)" "op_side ?x = position_side p"
      by (simp_all add: upsert_row_cols blank_row_def)
    have absent: "ls \<notin> set (structures ?t)" using assms None by (simp add: sync_ready_def)
    have t': "sa_table (sync_step now today links known a (ls, p)) = tins ?x ?t" by (simp add: sync_step_def None)
    have later: "case map_of known s of
        Some j \<Rightarrow> \<exists>r. (j, r) \<in> set (tins ?x ?t) \<and> op_structure r = s
      | None \<Rightarrow> s \<notin> set (structures ?t @ [ls])" if "s \<in> fst ` set es" for s
    proof (cases "map_of known s")
      case None
      then show ?thesis using rest that fresh(1) by force
    next
      case (Some j)
      with rest that obtain q where "(j, q) \<in> set ?t" "op_structure q = s" by force
      with Some show ?thesis by (auto simp: set_tins)
    qed
    have more: "structures (tins ?x ?t) = structures ?t @ [ls]" by (simp add: structures_tins x(1))
    have "sync_ready known es (tins ?x ?t)"
      unfolding sync_ready_def more using ok fresh(2) later absent by (simp add: table_ok_tins)
    moreover have "mirror_row (tins ?x ?t) = (mirror_row ?t)(ls \<mapsto> ?x)"
      using mirror_row_tins [of ?x ?t] x(1) absent by simp
    moreover have "rows_kept ?t (tins ?x ?t)" unfolding rows_kept_def by (auto simp: set_tins)
    ultimately show ?thesis unfolding t' using x None by (auto simp: sync_step_def)
  qed
  then show "sync_ready known es (sa_table (sync_step now today links known a (ls, p)))"
    and "\<exists>x. op_quantity x = Some (position_qty p) \<and> op_side x = position_side p \<and> op_structure x = ls \<and>
      mirror_row (sa_table (sync_step now today links known a (ls, p))) = (mirror_row (sa_table a))(ls \<mapsto> x)"
    and "sa_opened (sync_step now today links known a (ls, p)) = sa_opened a + (if map_of known ls = None then 1 else 0)"
    and "rows_kept (sa_table a) (sa_table (sync_step now today links known a (ls, p)))"
    by blast+
qed

lemma sync_fold:
  assumes "sync_ready known es (sa_table a)"
  shows "sync_ready known [] (sa_table (foldl (sync_step now today links known) a es)) \<and>
    (\<forall>ls. case map_of es ls of
       Some p \<Rightarrow> holds (mirror_row (sa_table (foldl (sync_step now today links known) a es)) ls) p
     | None \<Rightarrow> mirror_row (sa_table (foldl (sync_step now today links known) a es)) ls = mirror_row (sa_table a) ls) \<and>
    sa_opened (foldl (sync_step now today links known) a es) =
      sa_opened a + length (filter (\<lambda>e. map_of known (fst e) = None) es) \<and>
    rows_kept (sa_table a) (sa_table (foldl (sync_step now today links known) a es))"
  using assms
proof (induction es arbitrary: a)
  case (Cons e es)
  obtain ls p where e: "e = (ls, p)" by (cases e)
  let ?b = "sync_step now today links known a (ls, p)"
  note st = sync_step_table [OF Cons.prems [unfolded e], of now today links]
  obtain x where x: "op_quantity x = Some (position_qty p)" "op_side x = position_side p"
    "mirror_row (sa_table ?b) = (mirror_row (sa_table a))(ls \<mapsto> x)" using st(2) by blast
  have fresh: "map_of es ls = None" using Cons.prems e by (simp add: sync_ready_def map_of_eq_None_iff)
  note IH = Cons.IH [OF st(1)]
  then have IHs: "case map_of es s of
       Some p \<Rightarrow> holds (mirror_row (sa_table (foldl (sync_step now today links known) ?b es)) s) p
     | None \<Rightarrow> mirror_row (sa_table (foldl (sync_step now today links known) ?b es)) s = mirror_row (sa_table ?b) s" for s
    by blast
  have "case map_of (e # es) s of
       Some p \<Rightarrow> holds (mirror_row (sa_table (foldl (sync_step now today links known) ?b es)) s) p
     | None \<Rightarrow> mirror_row (sa_table (foldl (sync_step now today links known) ?b es)) s = mirror_row (sa_table a) s" for s
  proof (cases "s = ls")
    case True
    have "mirror_row (sa_table (foldl (sync_step now today links known) ?b es)) s = mirror_row (sa_table ?b) s"
      using IHs [of s] unfolding True fresh option.case .
    then have "mirror_row (sa_table (foldl (sync_step now today links known) ?b es)) s = Some x"
      by (simp add: x(3) True)
    then show ?thesis using True e x(1,2) by (simp add: holds_def)
  next
    case False
    then have m: "map_of (e # es) s = map_of es s" "mirror_row (sa_table ?b) s = mirror_row (sa_table a) s"
      using e x(3) by simp_all
    from IHs [of s] show ?thesis unfolding m .
  qed
  moreover have "sa_opened (foldl (sync_step now today links known) ?b es) =
      sa_opened a + length (filter (\<lambda>e. map_of known (fst e) = None) (e # es))"
    using IH st(3) e by simp
  moreover have "rows_kept (sa_table a) (sa_table (foldl (sync_step now today links known) ?b es))"
    using st(4) IH rows_kept_trans by blast
  ultimately show ?case using IH unfolding e foldl_Cons by blast
qed (simp add: sync_ready_def rows_kept_refl)

lemma tdelete_ok: "table_ok t \<Longrightarrow> table_ok (tdelete ks t)" "distinct (structures t) \<Longrightarrow> distinct (structures (tdelete ks t))"
  by (induction t) (auto simp: tdelete_def table_ok_def keys_of_def structures_def)

text \<open>A mirror with one row per symbol.\<close>

definition mirror_ok :: "db \<Rightarrow> bool" where
  "mirror_ok d \<longleftrightarrow> table_ok (t_open_positions d) \<and> distinct (structures (t_open_positions d)) \<and>
     [] \<notin> set (structures (t_open_positions d))"

definition clean_report :: "ib_position list \<Rightarrow> bool" where
  "clean_report ps \<longleftrightarrow> distinct (map ip_local_symbol (active_positions ps)) \<and>
     [] \<notin> ip_local_symbol ` set (active_positions ps)"

definition broker_net :: "ib_position list \<Rightarrow> symbol \<Rightarrow> flt" where
  "broker_net ps ls = sum_list (map ip_position (filter (\<lambda>p. ip_local_symbol p = ls) (active_positions ps)))"

lemma broker_net_unique:
  assumes "clean_report ps" and "p \<in> set (active_positions ps)"
  shows "broker_net ps (ip_local_symbol p) = ip_position p"
proof -
  have "sum_list (map ip_position (filter (\<lambda>q. ip_local_symbol q = ip_local_symbol p) xs)) = ip_position p"
    if "distinct (map ip_local_symbol xs)" "p \<in> set xs" for xs
    using that
  proof (induction xs)
    case (Cons q xs)
    show ?case
    proof (cases "q = p")
      case True
      with Cons.prems(1) have "ip_local_symbol p \<notin> ip_local_symbol ` set xs" by simp
      then have "\<forall>x \<in> set xs. ip_local_symbol x \<noteq> ip_local_symbol p" by (metis image_eqI)
      then have "filter (\<lambda>q. ip_local_symbol q = ip_local_symbol p) xs = []" by (simp add: filter_empty_conv)
      then show ?thesis using True by simp
    next
      case False
      then have "p \<in> set xs" "ip_local_symbol q \<noteq> ip_local_symbol p" using Cons.prems by force+
      then show ?thesis using Cons by simp
    qed
  qed simp
  then show ?thesis using assms by (simp add: broker_net_def clean_report_def)
qed

lemma broker_net_absent: "\<forall>p \<in> set (active_positions ps). ip_local_symbol p \<noteq> ls \<Longrightarrow> broker_net ps ls = 0"
proof -
  assume "\<forall>p \<in> set (active_positions ps). ip_local_symbol p \<noteq> ls"
  then have "filter (\<lambda>p. ip_local_symbol p = ls) (active_positions ps) = []" by (simp add: filter_empty_conv)
  then show ?thesis by (simp add: broker_net_def)
qed

lemma signed_position: "0 < \<bar>ip_position p\<bar> \<Longrightarrow> signed (position_side p) (position_qty p) = ip_position p"
  by (auto simp: signed_def position_side_def position_qty_def)

lemma sync_pass:
  assumes ok: "mirror_ok d" and clean: "clean_report ps"
    and run: "sync_positions_from_ib now today True reporting ps d = (d', Some rep)"
  shows "\<exists>t. d' = d\<lparr>t_open_positions := t\<rparr>" and "mirror_ok d'"
    and "net_position d' ls =
      (if ls \<in> ip_local_symbol ` set (active_positions ps) then broker_net ps ls
       else if sy_deletes_skipped rep then net_position d ls else 0)"
    and "sy_opened rep = length (filter (\<lambda>p. ip_local_symbol p \<notin> set (structures (t_open_positions d))) (active_positions ps))"
proof -
  let ?t = "t_open_positions d"
  let ?ib = "ib_by_key ps"
  let ?known = "db_by_key ?t"
  let ?links = "build_leg_to_trade_map d"
  let ?a = "foldl (sync_step now today ?links ?known) \<lparr>sa_table = ?t, sa_opened = 0, sa_unchanged = 0\<rparr> ?ib"
  let ?trust = "trustworthy reporting (active_positions ps) ?known"
  let ?gone = "if ?trust then map snd (filter (\<lambda>(s, k). s \<notin> fst ` set ?ib) ?known) else []"
  have t: "table_ok ?t" "distinct (structures ?t)" "[] \<notin> set (structures ?t)" using ok by (simp_all add: mirror_ok_def)
  have ib: "?ib = map (\<lambda>p. (ip_local_symbol p, p)) (active_positions ps)"
    using clean by (intro ib_by_key_distinct) (simp_all add: clean_report_def)
  have known: "?known = map (\<lambda>(k, r). (op_structure r, k)) ?t" by (rule db_by_key_distinct [OF t(2,3)])
  have lookup: "map_of ?known s = None \<longleftrightarrow> s \<notin> set (structures ?t)" for s
    unfolding known map_of_eq_None_iff by (force simp: structures_def)
  have found: "\<exists>r. (k, r) \<in> set ?t \<and> op_structure r = s" if "map_of ?known s = Some k" for s k
    using map_of_SomeD [OF that] unfolding known by auto
  have ready: "sync_ready ?known ?ib ?t"
    unfolding sync_ready_def
  proof (intro conjI ballI t(1,2))
    show "distinct (map fst ?ib)" using clean unfolding ib by (simp add: clean_report_def comp_def)
    show "case map_of ?known s of Some k \<Rightarrow> \<exists>r. (k, r) \<in> set ?t \<and> op_structure r = s | None \<Rightarrow> s \<notin> set (structures ?t)" for s
      using lookup [of s] found [of s] by (cases "map_of ?known s") auto
  qed
  then have "sync_ready ?known ?ib (sa_table \<lparr>sa_table = ?t, sa_opened = 0, sa_unchanged = 0\<rparr>)" by simp
  note fold = sync_fold [OF this, of now today ?links]
  have foldm: "case map_of ?ib s of Some p \<Rightarrow> holds (mirror_row (sa_table ?a) s) p
      | None \<Rightarrow> mirror_row (sa_table ?a) s = mirror_row ?t s" for s
    using fold [THEN conjunct2, THEN conjunct1, THEN spec, of s] by (simp only: sync_acc.select_convs)
  have foldo: "sa_opened ?a = length (filter (\<lambda>e. map_of ?known (fst e) = None) ?ib)" using fold by simp
  have kept: "rows_kept ?t (sa_table ?a)" using fold by simp
  have d': "d' = d\<lparr>t_open_positions := tdelete ?gone (sa_table ?a)\<rparr>"
    and rep: "sy_deletes_skipped rep = (\<not> ?trust)" "sy_opened rep = sa_opened ?a"
    using run by (auto simp: sync_positions_from_ib_def Let_def)
  show "\<exists>t. d' = d\<lparr>t_open_positions := t\<rparr>" using d' by blast
  have es: "map_of ?ib s = None \<longleftrightarrow> s \<notin> ip_local_symbol ` set (active_positions ps)" for s
    unfolding ib map_of_eq_None_iff by force
  have ta: "table_ok (sa_table ?a)" "distinct (structures (sa_table ?a))" using fold by (simp_all add: sync_ready_def)
  have old: "mirror_row (sa_table ?a) s = mirror_row ?t s" if "s \<notin> ip_local_symbol ` set (active_positions ps)" for s
  proof -
    have none: "map_of ?ib s = None" using that es by blast
    from foldm [of s] show ?thesis unfolding none option.case .
  qed
  have new: "\<exists>p x. p \<in> set (active_positions ps) \<and> ip_local_symbol p = s \<and> mirror_row (sa_table ?a) s = Some x \<and>
      op_quantity x = Some (position_qty p) \<and> op_side x = position_side p"
    if "s \<in> ip_local_symbol ` set (active_positions ps)" for s
  proof -
    from that es obtain p where p: "map_of ?ib s = Some p" by blast
    from map_of_SomeD [OF this] have "p \<in> set (active_positions ps)" "ip_local_symbol p = s" unfolding ib by auto
    moreover from foldm [of s] have "holds (mirror_row (sa_table ?a) s) p" unfolding p option.case .
    ultimately show ?thesis by (auto simp: holds_def)
  qed
  have nonempty: "[] \<notin> set (structures (sa_table ?a))"
    using old [of "[]"] t(3) clean mirror_row_None [of "sa_table ?a" "[]"] mirror_row_None [of ?t "[]"]
    by (simp add: clean_report_def)
  have sub: "set (structures (tdelete ks u)) \<subseteq> set (structures u)" for ks and u :: "open_position_row table"
    by (auto simp: structures_def tdelete_def)
  show "mirror_ok d'"
    using tdelete_ok(1) [OF ta(1), of ?gone] tdelete_ok(2) [OF ta(2), of ?gone] sub [of ?gone "sa_table ?a"] nonempty
    unfolding mirror_ok_def d' by auto
  have gone: "(\<exists>(k, r) \<in> set (sa_table ?a). op_structure r = ls \<and> k \<in> set ?gone) \<longleftrightarrow>
      ?trust \<and> ls \<notin> ip_local_symbol ` set (active_positions ps) \<and> mirror_row ?t ls \<noteq> None" (is "?L \<longleftrightarrow> ?R")
  proof
    assume ?L
    then obtain k r where kr: "(k, r) \<in> set (sa_table ?a)" "op_structure r = ls" "k \<in> set ?gone" by blast
    then have tr: ?trust by (simp split: if_splits)
    with kr(3) obtain r0 where r0: "(k, r0) \<in> set ?t" "op_structure r0 \<notin> fst ` set ?ib"
      unfolding known by auto
    from kept r0(1) obtain r1 where "(k, r1) \<in> set (sa_table ?a)" "op_structure r1 = op_structure r0"
      unfolding rows_kept_def by blast
    with in_tget [OF ta(1) kr(1)] in_tget [OF ta(1)] kr(2) have r0ls: "op_structure r0 = ls" by (metis option.inject)
    have "op_structure r0 \<in> set (structures ?t)" using r0(1) by (auto simp: structures_def)
    moreover have "fst ` set ?ib = ip_local_symbol ` set (active_positions ps)" unfolding ib by (simp add: image_image)
    ultimately show ?R using tr r0(2) mirror_row_None [of ?t ls] unfolding r0ls by blast
  next
    assume R: ?R
    then obtain k r0 where r0: "(k, r0) \<in> set ?t" "op_structure r0 = ls"
      using mirror_row_None [of ?t ls] by (auto simp: structures_def)
    from kept r0 obtain r1 where r1: "(k, r1) \<in> set (sa_table ?a)" "op_structure r1 = ls"
      unfolding rows_kept_def by blast
    have "(ls, k) \<in> set ?known" unfolding known using r0 by force
    moreover have "ls \<notin> fst ` set ?ib" using R unfolding ib by force
    ultimately have "k \<in> set ?gone" using R by force
    with r1 show ?L by blast
  qed
  have net: "net_position d' ls = (case mirror_row (tdelete ?gone (sa_table ?a)) ls of
      None \<Rightarrow> 0 | Some r \<Rightarrow> signed (op_side r) (flt_or0 (op_quantity r)))"
    using net_position_mirror [of d'] tdelete_ok(2) [OF ta(2), of ?gone] unfolding d' by simp
  show "net_position d' ls =
      (if ls \<in> ip_local_symbol ` set (active_positions ps) then broker_net ps ls
       else if sy_deletes_skipped rep then net_position d ls else 0)"
  proof (cases "ls \<in> ip_local_symbol ` set (active_positions ps)")
    case True
    from new [OF this] obtain p x where p: "p \<in> set (active_positions ps)" "ip_local_symbol p = ls"
      "mirror_row (sa_table ?a) ls = Some x" "op_quantity x = Some (position_qty p)" "op_side x = position_side p" by blast
    have "mirror_row (tdelete ?gone (sa_table ?a)) ls = Some x"
      unfolding mirror_row_tdelete [OF ta(2)] gone using True p(3) by simp
    moreover have "0 < \<bar>ip_position p\<bar>" using p(1) by (simp add: active_positions_def)
    ultimately have "net_position d' ls = ip_position p" unfolding net by (simp add: p(4,5) signed_position)
    then show ?thesis using True broker_net_unique [OF clean p(1)] p(2) by simp
  next
    case False
    have "mirror_row (tdelete ?gone (sa_table ?a)) ls = (if ?trust then None else mirror_row ?t ls)"
      unfolding mirror_row_tdelete [OF ta(2)] gone old [OF False] using False by auto
    then have "net_position d' ls = (if ?trust then 0 else net_position d ls)"
      unfolding net net_position_mirror [OF t(2)] by simp
    then show ?thesis using False rep(1) by simp
  qed
  show "sy_opened rep = length (filter (\<lambda>p. ip_local_symbol p \<notin> set (structures ?t)) (active_positions ps))"
    using foldo rep(2) lookup unfolding ib by (simp add: filter_map comp_def)
qed

section \<open>One pass over the booked positions\<close>

text \<open>What the pass makes of a booked position.\<close>

definition reconciled_row ::
  "time \<Rightarrow> bool \<Rightarrow> (symbol \<times> int) list \<Rightarrow> db \<Rightarrow> position_row \<Rightarrow> position_row" where
  "reconciled_row now close_stale qty d tp =
     (let legs = entry_legs d (b_structure_id tp); at_ib = broker_total qty legs;
          tp1 = tp\<lparr>b_ib_reconciled_at := Some now, b_ib_qty_total := Some at_ib,
                   b_ib_qty_diff := Some (booked_total legs - at_ib)\<rparr>
      in if legs = [] then tp
         else if stale_flat now at_ib tp \<and> close_stale
         then tp1\<lparr>b_state := P_closed, b_closed_at := Some now, b_close_reason := Some ''reconciled_flat_at_ib''\<rparr>
         else tp1)"

lemma entry_legs_cong: "t_orders d = t_orders d' \<Longrightarrow> entry_legs d sid = entry_legs d' sid"
  by (simp add: entry_legs_def)

lemma reconcile_one_frame:
  "t_orders (fst (reconcile_one now cs lm qty (d, n, c) (pid, tp))) = t_orders d"
  by (simp add: reconcile_one_def Let_def add_event_def)

lemma reconcile_one_position:
  assumes "tget (t_positions d) pid = Some tp"
  shows "tget (t_positions (fst (reconcile_one now cs lm qty (d, n, c) (pid, tp)))) j =
    (if j = pid then Some (reconciled_row now cs qty d tp) else tget (t_positions d) j)"
  using assms by (auto simp: reconcile_one_def reconciled_row_def Let_def add_event_def tget_simps)

lemma reconcile_fold:
  assumes "distinct (map fst es)" and "\<And>pid tp. (pid, tp) \<in> set es \<Longrightarrow> tget (t_positions d) pid = Some tp"
  shows "t_orders (fst (foldl (reconcile_one now cs lm qty) (d, n, c) es)) = t_orders d \<and>
    (\<forall>j. tget (t_positions (fst (foldl (reconcile_one now cs lm qty) (d, n, c) es))) j =
      (case map_of es j of Some tp \<Rightarrow> Some (reconciled_row now cs qty d tp) | None \<Rightarrow> tget (t_positions d) j))"
  using assms
proof (induction es arbitrary: d n c)
  case (Cons e es)
  obtain pid tp where e: "e = (pid, tp)" by (cases e)
  obtain d1 n1 c1 where st: "reconcile_one now cs lm qty (d, n, c) (pid, tp) = (d1, n1, c1)"
    by (cases "reconcile_one now cs lm qty (d, n, c) (pid, tp)")
  have tp: "tget (t_positions d) pid = Some tp" using Cons.prems(2) e by simp
  have ord: "t_orders d1 = t_orders d" using reconcile_one_frame [of now cs lm qty d n c pid tp] st by simp
  have row: "reconciled_row now cs qty d1 q = reconciled_row now cs qty d q" for q
    using entry_legs_cong [OF ord] by (simp add: reconciled_row_def)
  have get: "tget (t_positions d1) j = (if j = pid then Some (reconciled_row now cs qty d tp) else tget (t_positions d) j)" for j
    using reconcile_one_position [OF tp, of now cs lm qty n c j] st by simp
  have "tget (t_positions d1) k = Some q" if "(k, q) \<in> set es" for k q
  proof -
    have "k \<noteq> pid" using Cons.prems(1) that e by force
    then show ?thesis using Cons.prems(2) [of k q] that get by simp
  qed
  with Cons.IH [of d1 n1 c1] Cons.prems(1)
  have IH: "t_orders (fst (foldl (reconcile_one now cs lm qty) (d1, n1, c1) es)) = t_orders d1 \<and>
    (\<forall>j. tget (t_positions (fst (foldl (reconcile_one now cs lm qty) (d1, n1, c1) es))) j =
      (case map_of es j of Some tp \<Rightarrow> Some (reconciled_row now cs qty d1 tp) | None \<Rightarrow> tget (t_positions d1) j))"
    by simp
  have none: "map_of es pid = None" using Cons.prems(1) e by (simp add: map_of_eq_None_iff)
  have "tget (t_positions (fst (foldl (reconcile_one now cs lm qty) (d1, n1, c1) es))) j =
      (case map_of (e # es) j of Some tp \<Rightarrow> Some (reconciled_row now cs qty d tp) | None \<Rightarrow> tget (t_positions d) j)" for j
  proof (cases "j = pid")
    case True
    from IH [THEN conjunct2, THEN spec, of pid] show ?thesis unfolding none option.case get using True e by simp
  next
    case False
    from IH [THEN conjunct2, THEN spec, of j] show ?thesis unfolding row get using False e by (simp cong: option.case_cong)
  qed
  with IH ord show ?case unfolding e foldl_Cons st by simp
qed simp

section \<open>Properties\<close>


definition one_held :: ib_position where
  "one_held = \<lparr>ip_local_symbol = ''6EM6'', ip_symbol = Some ''EUR'', ip_expiry = None, ip_con_id = Some 7,
     ip_position = - 3, ip_avg_cost = 0\<rparr>"


text \<open>
  The automatic close of booked positions: a pass changes only positions that are open;
  it closes one only when the broker is reporting the account, the switch is on, the
  position is more than an hour old, it has entry legs and the broker reports nothing under
  the symbols rebuilt from them; a closed one carries the reason and the time; results are
  never booked by it, and the quantity difference stored is booked minus reported.
\<close>

theorem reconcile_closes_only_flat:
  assumes "table_ok (t_positions d)" and "tget (t_positions d) pid = Some tp"
  shows "\<exists>tp'. tget (t_positions (fst (reconcile_trade_positions now conn reporting autoclose lm ps d))) pid = Some tp' \<and>
    b_net_pnl_usd tp' = b_net_pnl_usd tp \<and> b_gross_pnl_usd tp' = b_gross_pnl_usd tp \<and>
    (b_state tp \<noteq> P_open \<or> \<not> conn \<or> entry_legs d (b_structure_id tp) = [] \<longrightarrow> tp' = tp) \<and>
    (b_state tp' \<noteq> b_state tp \<longrightarrow>
       b_state tp' = P_closed \<and> b_closed_at tp' = Some now \<and> b_close_reason tp' = Some ''reconciled_flat_at_ib'' \<and>
       reporting \<and> autoclose \<and> b_opened_at tp < now - 3600 \<and>
       broker_total (ib_qty_by_key ps) (entry_legs d (b_structure_id tp)) = 0) \<and>
    (tp' \<noteq> tp \<longrightarrow> b_ib_qty_diff tp' = Some (booked_total (entry_legs d (b_structure_id tp)) -
       broker_total (ib_qty_by_key ps) (entry_legs d (b_structure_id tp))))"
proof -
  let ?es = "twhere (\<lambda>tp. b_state tp = P_open) (t_positions d)"
  let ?cs = "autoclose \<and> reporting"
  have dist: "distinct (map fst ?es)"
    using assms(1) by (simp add: table_ok_def keys_of_def twhere_def distinct_map_filter)
  have rows: "(k, q) \<in> set ?es \<Longrightarrow> tget (t_positions d) k = Some q" for k q
    using in_tget [OF assms(1)] by simp
  note fold = reconcile_fold [OF dist rows, of now ?cs lm "ib_qty_by_key ps" 0 0]
  have look: "map_of ?es pid = (if b_state tp = P_open then Some tp else None)"
  proof (cases "b_state tp = P_open")
    case True
    then have "(pid, tp) \<in> set ?es" using tget_in [OF assms(2)] by simp
    then show ?thesis using True map_of_eq_Some_iff [OF dist] by simp
  next
    case False
    then have "pid \<notin> fst ` set ?es" using rows assms(2) by force
    then show ?thesis using False by (simp add: map_of_eq_None_iff)
  qed
  define tp' where "tp' = (if conn \<and> b_state tp = P_open then reconciled_row now ?cs (ib_qty_by_key ps) d tp else tp)"
  have "tget (t_positions (fst (reconcile_trade_positions now conn reporting autoclose lm ps d))) pid = Some tp'"
    using fold [THEN conjunct2, THEN spec, of pid] assms(2) unfolding look
    by (auto simp: reconcile_trade_positions_def tp'_def split: if_splits)
  then show ?thesis
    by (intro exI [of _ tp']) (auto simp: tp'_def reconciled_row_def Let_def stale_flat_def)
qed

text \<open>
  The strike of the order is not the one the broker lists: the leg carries the broker's
  symbol, the broker holds the contract, and the position is closed all the same, because
  this pass looks under the rebuilt symbol only.
\<close>

definition booked_call :: "string \<Rightarrow> db" where
  "booked_call held =
     empty_db\<lparr>t_orders := [(1, (new_order_row 0 5 0 Entry ''call'' BUY 2 Filled)
                \<lparr>o_ib_local_symbol := Some held, o_contract_symbol := ''EUR'',
                 o_contract_expiry := Some (Date 2026 6 5), o_contract_strike := Some (469 / 400), o_qty_filled := 2\<rparr>)],
       t_positions := [(3, \<lparr>b_structure_id = 5, b_opened_at = 0, b_entry_premium_usd = 400,
        b_entry_total_cost_usd = 12, b_state = P_open, b_entry_vega_usd_per_volpt = None,
        b_entry_gamma_usd_per_pip2 = None, b_entry_theta_usd_per_day = None, b_closed_at = None,
        b_close_reason = None, b_exit_premium_usd = None, b_exit_total_cost_usd = None,
        b_gross_pnl_usd = None, b_net_pnl_usd = None, b_ib_reconciled_at = None,
        b_ib_qty_total = None, b_ib_qty_diff = None, b_state_updated_at = 0,
        b_entry_spot = None, b_entry_iv_avg = None\<rparr>)]\<rparr>"

definition held_call :: "string \<Rightarrow> ib_position" where
  "held_call ls = \<lparr>ip_local_symbol = ls, ip_symbol = Some ''EUR'', ip_expiry = None, ip_con_id = None,
     ip_position = 2, ip_avg_cost = 0\<rparr>"

lemma booked_call_legs:
  "entry_legs (booked_call ls) 5 = [(new_order_row 0 5 0 Entry ''call'' BUY 2 Filled)
     \<lparr>o_ib_local_symbol := Some ls, o_contract_symbol := ''EUR'', o_contract_expiry := Some (Date 2026 6 5),
      o_contract_strike := Some (469 / 400), o_qty_filled := 2\<rparr>]"
  by (simp add: entry_legs_def booked_call_def twhere_def new_order_row_def)

lemma booked_call_key: "map structure_order_to_ib_key (entry_legs (booked_call ls) 5) = [Some ''EUUM6 C1172'']"
proof -
  have low: "py_lower ''call'' = ''call''" by code_simp
  have trunc: "py_trunc (469 / 400 * 1000) = 1172" by (simp add: py_trunc_def floor_eq_iff)
  have pad: "zero_pad 4 1172 = ''1172''" "digit_char (2026 mod 10) = CHR ''6''" "month_letter (Date 2026 6 5) = Some (CHR ''M'')"
    by code_simp+
  show ?thesis
    unfolding booked_call_legs by (simp add: structure_order_to_ib_key_def build_ib_local_symbol_def new_order_row_def
        low trunc [simplified] pad pad(2) [simplified] Let_def)
qed

lemma held_position_closed:
  "map_option b_state (tget (t_positions (fst (reconcile_trade_positions 7200 True True True (\<lambda>_. None)
      [held_call ''EUUM6 C1170''] (booked_call ''EUUM6 C1170'')))) 3) = Some P_closed"
proof -
  let ?d = "booked_call ''EUUM6 C1170''"
  have "broker_total (ib_qty_by_key [held_call ''EUUM6 C1170'']) (entry_legs ?d 5) =
      sum_list (map (\<lambda>k. case k of None \<Rightarrow> 0 | Some s \<Rightarrow> case map_of (ib_qty_by_key [held_call ''EUUM6 C1170'']) s of None \<Rightarrow> 0 | Some q \<Rightarrow> q)
        (map structure_order_to_ib_key (entry_legs ?d 5)))"
    by (simp add: broker_total_def comp_def)
  also have "\<dots> = 0"
    unfolding booked_call_key by (simp add: ib_qty_by_key_def active_positions_def held_call_def)
  finally have none: "broker_total (ib_qty_by_key [held_call ''EUUM6 C1170'']) (entry_legs ?d 5) = 0" .
  have ne: "entry_legs ?d 5 \<noteq> []" by (simp add: booked_call_legs)
  obtain tp where tp: "t_positions ?d = [(3, tp)]" "b_state tp = P_open" "b_structure_id tp = 5" "b_opened_at tp = 0"
    by (simp add: booked_call_def)
  have "b_state (reconciled_row 7200 True (ib_qty_by_key [held_call ''EUUM6 C1170'']) ?d tp) = P_closed"
    using ne tp none by (simp add: reconciled_row_def Let_def stale_flat_def)
  moreover have "tget (t_positions (fst (reconcile_trade_positions 7200 True True True (\<lambda>_. None)
      [held_call ''EUUM6 C1170''] ?d))) 3 = Some (reconciled_row 7200 True (ib_qty_by_key [held_call ''EUUM6 C1170'']) ?d tp)"
    using reconcile_one_position [of ?d 3 tp 7200 True "\<lambda>_. None" "ib_qty_by_key [held_call ''EUUM6 C1170'']" 0 0 3] tp
    by (simp add: reconcile_trade_positions_def twhere_def tget_def)
  ultimately show ?thesis by (simp only: option.map)
qed

theorem reconcile_closes_only_flat_witness:
  "\<exists>tp'. tget (t_positions (fst (reconcile_trade_positions 9 True True True (\<lambda>_. None) [] (booked_call [])))) 3 = Some tp' \<and>
     b_state tp' = P_open"
proof -
  obtain tp where tp: "t_positions (booked_call []) = [(3, tp)]" "b_state tp = P_open" "b_opened_at tp = 0"
    by (simp add: booked_call_def)
  then have "table_ok (t_positions (booked_call []))" "tget (t_positions (booked_call [])) 3 = Some tp"
    by (simp_all add: table_ok_def keys_of_def tget_def)
  from reconcile_closes_only_flat [OF this, of 9 True True True "\<lambda>_. None" "[]"] tp(2,3) show ?thesis by auto
qed

end
