(* ===== verification/Ib_Connection.thy ===== *)
theory Ib_Connection
  imports Shared_Utils
begin

text \<open>
  The broker connection every engine opens (\<open>shared/ib_connection.py\<close>): the retry loop with
  backoff, which may be told to retry for ever, and the watchdog of the request-driven
  services. What the gateway answers is given per attempt; the waits are collected.
\<close>

section \<open>Connecting with backoff\<close>

text \<open>
  An attempt returns (and the session is then up or not), fails in one of the ways the loop
  catches, or raises something else.
\<close>

datatype attempt_answer = Returned bool | Refused_or_timeout | Other_error py_error

datatype connect_outcome = Connected | Connect_raised py_error

definition attempts_exhausted :: "int option \<Rightarrow> nat \<Rightarrow> bool" where
  "attempts_exhausted max_attempts attempt =
     (case max_attempts of None \<Rightarrow> False | Some n \<Rightarrow> n \<le> int attempt + 1)"

partial_function (option) connect_loop ::
  "(nat \<Rightarrow> bool) \<Rightarrow> (nat \<Rightarrow> attempt_answer) \<Rightarrow> int option \<Rightarrow> nat \<Rightarrow> flt list \<Rightarrow> (connect_outcome \<times> flt list) option" where
  "connect_loop up answer max_attempts attempt slept =
     (if up attempt then Some (Connected, slept)
      else if answer attempt = Returned True then Some (Connected, slept)
      else
        case answer attempt of
          Other_error e \<Rightarrow> Some (Connect_raised e, slept)
        | _ \<Rightarrow>
            if attempts_exhausted max_attempts attempt
            then Some (Connect_raised (ConnectionError ''unreachable''), slept)
            else
              (case next_backoff_seconds (int attempt) of
                 Inl e \<Rightarrow> Some (Connect_raised e, slept)
               | Inr s \<Rightarrow> connect_loop up answer max_attempts (attempt + 1) (slept @ [s])))"

definition connect_ib_with_backoff ::
  "(nat \<Rightarrow> bool) \<Rightarrow> (nat \<Rightarrow> attempt_answer) \<Rightarrow> int option \<Rightarrow> (connect_outcome \<times> flt list) option" where
  "connect_ib_with_backoff up answer max_attempts = connect_loop up answer max_attempts 0 []"

section \<open>The watchdog\<close>

text \<open>One poll: what the executor says before and after the connect it may try.\<close>

datatype hook = On_lost | On_reconnected

definition watchdog_poll :: "bool \<Rightarrow> bool \<times> bool \<Rightarrow> bool \<times> hook list" where
  "watchdog_poll was_connected poll =
     (let (before, after) = poll in
      if before then (True, [])
      else (after, (if was_connected then [On_lost] else []) @ (if after then [On_reconnected] else [])))"

fun watchdog :: "bool \<Rightarrow> (bool \<times> bool) list \<Rightarrow> hook list" where
  "watchdog was_connected [] = []"
| "watchdog was_connected (p # ps) =
     (let (now_connected, hooks) = watchdog_poll was_connected p in hooks @ watchdog now_connected ps)"

section \<open>Facts\<close>

definition attempt_fails :: "(nat \<Rightarrow> bool) \<Rightarrow> (nat \<Rightarrow> attempt_answer) \<Rightarrow> nat \<Rightarrow> bool" where
  "attempt_fails up answer k \<longleftrightarrow> \<not> up k \<and> answer k \<in> {Returned False, Refused_or_timeout}"

definition wait_of :: "nat \<Rightarrow> flt" where
  "wait_of k = min (2 ^ k) MAX_BACKOFF_S"

lemma backoff_of: "next_backoff_seconds (int k) = (if 1024 \<le> k then Inl OverflowError else Inr (wait_of k))"
  by (simp add: next_backoff_seconds_def wait_of_def MIN_BACKOFF_S_def)

lemma connect_loop_fail:
  "attempt_fails up answer k \<Longrightarrow> connect_loop up answer cap k slept =
     (if attempts_exhausted cap k then Some (Connect_raised (ConnectionError ''unreachable''), slept)
      else if 1024 \<le> k then Some (Connect_raised OverflowError, slept)
      else connect_loop up answer cap (k + 1) (slept @ [wait_of k]))"
  by (subst connect_loop.simps) (auto simp: attempt_fails_def backoff_of)

lemma connect_loop_stop:
  "\<not> attempt_fails up answer k \<Longrightarrow>
     connect_loop up answer cap k slept =
       Some (if up k then Connected else case answer k of Other_error e \<Rightarrow> Connect_raised e | _ \<Rightarrow> Connected, slept)"
  by (subst connect_loop.simps) (auto simp: attempt_fails_def split: attempt_answer.splits)

lemma connect_loop_skip:
  assumes "\<forall>i < j. attempt_fails up answer (k + i) \<and> \<not> attempts_exhausted cap (k + i)" and "k + j \<le> 1024"
  shows "connect_loop up answer cap k slept = connect_loop up answer cap (k + j) (slept @ map wait_of [k..<k + j])"
  using assms
proof (induction j)
  case (Suc j)
  then have "connect_loop up answer cap k slept = connect_loop up answer cap (k + j) (slept @ map wait_of [k..<k + j])" by simp
  also have "\<dots> = connect_loop up answer cap (k + j + 1) (slept @ map wait_of [k..<k + j] @ [wait_of (k + j)])"
    using Suc.prems connect_loop_fail [of up answer "k + j" cap] by simp
  finally show ?case by simp
qed simp

lemma connect_loop_total: "\<exists>r. connect_loop up answer cap k slept = Some r"
proof (induction "1025 - k" arbitrary: k slept rule: less_induct)
  case less
  show ?case
  proof (cases "attempt_fails up answer k \<and> \<not> attempts_exhausted cap k \<and> k < 1024")
    case True
    then have "connect_loop up answer cap k slept = connect_loop up answer cap (k + 1) (slept @ [wait_of k])"
      by (simp add: connect_loop_fail)
    moreover have "1025 - (k + 1) < 1025 - k" using True by linarith
    ultimately show ?thesis using less [of "k + 1"] by simp
  next
    case False
    then show ?thesis
      by (cases "attempt_fails up answer k") (auto simp: connect_loop_fail connect_loop_stop)
  qed
qed

section \<open>Properties\<close>



text \<open>
  The watchdog reports an outage once, when it first sees it, and a reconnect only when its
  own connect succeeded: a session that is up again by the next poll is taken as connected
  without the hook that rehydrates it.
\<close>

lemma watchdog_lost_once:
  "watchdog up (replicate n (False, False)) = (if up \<and> 0 < n then [On_lost] else [])"
proof -
  have "watchdog False (replicate m (False, False)) = []" for m
    by (induction m) (simp_all add: watchdog_poll_def)
  then show ?thesis by (cases n) (simp_all add: watchdog_poll_def)
qed

lemma watchdog_silent_recovery: "watchdog True [(False, False), (True, True)] = [On_lost]"
  by (simp add: watchdog_poll_def)

end
