(* ===== verification/Ib_Session.thy ===== *)
theory Ib_Session
  imports Spot_Orders Placement Fills_Correctness
begin

text \<open>
  Resilience of the broker session (\<open>engines/execution/ib_session.py\<close>): the ready gate that
  the order routes ask, the reaction to session codes and disconnects, the reconciliation
  pass, and its rehydration of handlers and fills. The callbacks fire between any two awaits
  of a running pass, so the supervisor is a step relation whose pass has a begin and a
  finish; a failing step of a pass does not keep it from finishing.
\<close>

section \<open>The gate\<close>

definition UPSTREAM_LOST :: int where "UPSTREAM_LOST = 1100"
definition UPSTREAM_RESTORED_DATA_LOST :: int where "UPSTREAM_RESTORED_DATA_LOST = 1101"
definition UPSTREAM_RESTORED_DATA_KEPT :: int where "UPSTREAM_RESTORED_DATA_KEPT = 1102"
definition SOCKET_CLOSED :: int where "SOCKET_CLOSED = 507"

definition FARM_CODES :: "int list" where
  "FARM_CODES = [2103, 2104, 2105, 2106, 2107, 2108, 2119, 2157, 2158]"

definition classify_error_code :: "int \<Rightarrow> string" where
  "classify_error_code code =
     (if code = UPSTREAM_LOST then ''upstream_lost''
      else if code = UPSTREAM_RESTORED_DATA_LOST then ''restored_data_lost''
      else if code = UPSTREAM_RESTORED_DATA_KEPT then ''restored_data_kept''
      else if code = SOCKET_CLOSED then ''socket_closed''
      else if code \<in> set FARM_CODES then ''farm_status''
      else if code = 201 then ''order_rejected''
      else if code = 202 then ''order_cancelled''
      else if code = 399 then ''order_warning''
      else if code = 110 then ''price_increment''
      else ''other'')"

datatype ready_reason =
    Not_started | Ready | Reconciliation_in_progress | Ib_upstream_down | Ib_disconnected
  | Ib_not_connected | Ib_socket_closed

record session_state =
  ss_ready :: bool
  ss_ready_reason :: ready_reason
  ss_upstream_down_since :: "time option"
  ss_last_pass_at :: "time option"
  ss_events :: "string list"

definition initial_session :: session_state where
  "initial_session = \<lparr>ss_ready = False, ss_ready_reason = Not_started, ss_upstream_down_since = None,
     ss_last_pass_at = None, ss_events = []\<rparr>"

definition close_gate :: "ready_reason \<Rightarrow> session_state \<Rightarrow> session_state" where
  "close_gate why s = s\<lparr>ss_ready := False, ss_ready_reason := why\<rparr>"

definition open_gate :: "session_state \<Rightarrow> session_state" where
  "open_gate s = s\<lparr>ss_ready := True, ss_ready_reason := Ready\<rparr>"

definition upstream_ok :: "session_state \<Rightarrow> bool" where
  "upstream_ok s = (ss_upstream_down_since s = None)"

definition upstream_down_s :: "time \<Rightarrow> session_state \<Rightarrow> flt option" where
  "upstream_down_s now s = map_option (\<lambda>t. max 0 (now - t)) (ss_upstream_down_since s)"

definition count_event :: "string \<Rightarrow> session_state \<Rightarrow> session_state" where
  "count_event label s = s\<lparr>ss_events := ss_events s @ [label]\<rparr>"

text \<open>The state after a code, and whether it starts a pass of its own.\<close>

definition on_error :: "time \<Rightarrow> int \<Rightarrow> session_state \<Rightarrow> session_state \<times> bool" where
  "on_error now code s0 =
     (let label = classify_error_code code; s = count_event label s0 in
      if label = ''farm_status'' then (s, False)
      else if code = UPSTREAM_LOST then
        (close_gate Ib_upstream_down
           (s\<lparr>ss_upstream_down_since := Some (case ss_upstream_down_since s of None \<Rightarrow> now | Some t \<Rightarrow> t)\<rparr>), False)
      else if code = UPSTREAM_RESTORED_DATA_KEPT \<or> code = UPSTREAM_RESTORED_DATA_LOST then
        (let s' = s\<lparr>ss_upstream_down_since := None\<rparr> in
         if code = UPSTREAM_RESTORED_DATA_LOST then (s', True)
         else if ss_ready_reason s' = Ib_upstream_down then (open_gate s', False)
         else (s', False))
      else if code = SOCKET_CLOSED then (close_gate Ib_socket_closed s, False)
      else (s, False))"

definition on_disconnected :: "session_state \<Rightarrow> session_state" where
  "on_disconnected s = close_gate Ib_disconnected (count_event ''disconnected'' s)"

text \<open>The two halves of \<open>run_pass\<close> that touch the gate; the flag says whether the pass runs.\<close>

definition pass_begin :: "bool \<Rightarrow> session_state \<Rightarrow> session_state \<times> bool" where
  "pass_begin conn s =
     (if \<not> conn then (close_gate Ib_not_connected s, False) else (close_gate Reconciliation_in_progress s, True))"

definition pass_finish :: "time \<Rightarrow> bool \<Rightarrow> session_state \<Rightarrow> session_state" where
  "pass_finish now conn s0 =
     (let s = s0\<lparr>ss_last_pass_at := Some now\<rparr> in
      if \<not> conn then close_gate Ib_disconnected s
      else if \<not> upstream_ok s then close_gate Ib_upstream_down s
      else open_gate s)"

definition require_ready :: "session_state \<Rightarrow> py_error option" where
  "require_ready s = (if ss_ready s then None else Some (HTTPException 503 ''reconciliation_in_progress''))"

section \<open>The supervisor at work\<close>

text \<open>The passes wait for one lock; the counter of finished passes is for the statements below.\<close>

record engine =
  en_session :: session_state
  en_conn :: bool
  en_waiting :: nat
  en_running :: bool
  en_finished :: nat

datatype session_event = Ev_error time int | Ev_socket_lost | Ev_disconnected | Ev_connected | Ev_begin | Ev_finish time

inductive engine_step :: "engine \<Rightarrow> session_event \<Rightarrow> engine \<Rightarrow> bool" where
  error: "on_error now code (en_session e) = (s', spawn) \<Longrightarrow>
    engine_step e (Ev_error now code)
      (e\<lparr>en_session := s', en_waiting := en_waiting e + (if spawn then 1 else 0)\<rparr>)"
| socket_lost: "engine_step e Ev_socket_lost (e\<lparr>en_conn := False\<rparr>)"
| disconnected: "engine_step e Ev_disconnected (e\<lparr>en_session := on_disconnected (en_session e)\<rparr>)"
| connected: "engine_step e Ev_connected
    (e\<lparr>en_conn := True, en_session := count_event ''connected'' (en_session e), en_waiting := en_waiting e + 1\<rparr>)"
| pbegin: "0 < en_waiting e \<Longrightarrow> \<not> en_running e \<Longrightarrow> pass_begin (en_conn e) (en_session e) = (s', runs) \<Longrightarrow>
    engine_step e Ev_begin (e\<lparr>en_session := s', en_waiting := en_waiting e - 1, en_running := runs\<rparr>)"
| pfinish: "en_running e \<Longrightarrow>
    engine_step e (Ev_finish now)
      (e\<lparr>en_session := pass_finish now (en_conn e) (en_session e), en_running := False,
         en_finished := en_finished e + 1\<rparr>)"

inductive_cases engine_stepE: "engine_step e ev e'"

inductive engine_run :: "engine \<Rightarrow> session_event list \<Rightarrow> engine \<Rightarrow> bool" where
  run_none: "engine_run e [] e"
| run_more: "engine_run e evs e' \<Longrightarrow> engine_step e' ev e'' \<Longrightarrow> engine_run e (evs @ [ev]) e''"

definition engine_start :: engine where
  "engine_start = \<lparr>en_session = initial_session, en_conn = False, en_waiting = 0, en_running = False, en_finished = 0\<rparr>"

lemma gate_sel [simp]:
  "ss_ready (close_gate w s) = False" "ss_ready_reason (close_gate w s) = w"
  "ss_ready (open_gate s) = True" "ss_ready_reason (open_gate s) = Ready"
  "ss_upstream_down_since (close_gate w s) = ss_upstream_down_since s"
  "ss_upstream_down_since (open_gate s) = ss_upstream_down_since s"
  "ss_ready (count_event l s) = ss_ready s" "ss_ready_reason (count_event l s) = ss_ready_reason s"
  "ss_upstream_down_since (count_event l s) = ss_upstream_down_since s"
  by (simp_all add: close_gate_def open_gate_def count_event_def)

definition gate_ok :: "session_state \<Rightarrow> bool" where
  "gate_ok s \<longleftrightarrow> (ss_ready s \<longleftrightarrow> ss_ready_reason s = Ready) \<and> (ss_ready s \<longrightarrow> upstream_ok s)"

lemma gate_ok_close: "w \<noteq> Ready \<Longrightarrow> gate_ok (close_gate w s)"
  by (simp add: gate_ok_def)

lemma gate_ok_open: "upstream_ok s \<Longrightarrow> gate_ok (open_gate s)"
  by (simp add: gate_ok_def upstream_ok_def)

lemma on_error_cases:
  obtains (kept) "fst (on_error now code s) = count_event (classify_error_code code) s"
      "code \<noteq> UPSTREAM_LOST"
  | (lost) "code = UPSTREAM_LOST" "\<exists>t. fst (on_error now code s) =
      close_gate Ib_upstream_down (t\<lparr>ss_upstream_down_since := Some (case ss_upstream_down_since s of None \<Rightarrow> now | Some x \<Rightarrow> x)\<rparr>)"
  | (restored) "code \<noteq> UPSTREAM_LOST" "fst (on_error now code s) =
      (count_event (classify_error_code code) s)\<lparr>ss_upstream_down_since := None\<rparr>"
      "code = UPSTREAM_RESTORED_DATA_LOST \<or> ss_ready_reason s \<noteq> Ib_upstream_down"
  | (reopened) "code = UPSTREAM_RESTORED_DATA_KEPT" "ss_ready_reason s = Ib_upstream_down" "fst (on_error now code s) =
      open_gate ((count_event (classify_error_code code) s)\<lparr>ss_upstream_down_since := None\<rparr>)"
  | (closed) "code = SOCKET_CLOSED" "fst (on_error now code s) =
      close_gate Ib_socket_closed (count_event (classify_error_code code) s)"
proof -
  have codes: "UPSTREAM_LOST \<notin> set FARM_CODES" "UPSTREAM_RESTORED_DATA_LOST \<noteq> UPSTREAM_LOST"
    "UPSTREAM_RESTORED_DATA_KEPT \<noteq> UPSTREAM_LOST" "UPSTREAM_RESTORED_DATA_KEPT \<noteq> UPSTREAM_RESTORED_DATA_LOST"
    "SOCKET_CLOSED \<noteq> UPSTREAM_LOST"
    by (simp_all add: UPSTREAM_LOST_def UPSTREAM_RESTORED_DATA_LOST_def UPSTREAM_RESTORED_DATA_KEPT_def SOCKET_CLOSED_def FARM_CODES_def)
  have farm: "classify_error_code code = ''farm_status'' \<Longrightarrow> code \<noteq> UPSTREAM_LOST"
    by (auto simp: classify_error_code_def)
  show ?thesis
  proof (cases "classify_error_code code = ''farm_status''")
    case True
    then show ?thesis using farm by (intro kept) (simp_all add: on_error_def)
  next
    case nf: False
    consider "code = UPSTREAM_LOST" | "code = UPSTREAM_RESTORED_DATA_LOST" | "code = UPSTREAM_RESTORED_DATA_KEPT"
      | "code = SOCKET_CLOSED" "code \<noteq> UPSTREAM_RESTORED_DATA_LOST" "code \<noteq> UPSTREAM_RESTORED_DATA_KEPT"
      | "code \<notin> {UPSTREAM_LOST, UPSTREAM_RESTORED_DATA_LOST, UPSTREAM_RESTORED_DATA_KEPT, SOCKET_CLOSED}" by blast
    then show ?thesis
    proof cases
      case 1
      with nf show ?thesis by (intro lost) (auto simp: on_error_def Let_def)
    next
      case 2
      with nf codes show ?thesis by (intro restored) (auto simp: on_error_def Let_def)
    next
      case 3
      show ?thesis
      proof (cases "ss_ready_reason s = Ib_upstream_down")
        case True
        with 3 nf codes show ?thesis by (intro reopened) (auto simp: on_error_def Let_def)
      next
        case False
        with 3 nf codes show ?thesis by (intro restored) (auto simp: on_error_def Let_def)
      qed
    next
      case 4
      with nf codes show ?thesis by (intro closed) (auto simp: on_error_def Let_def)
    next
      case 5
      with nf codes show ?thesis by (intro kept) (auto simp: on_error_def Let_def)
    qed
  qed
qed

lemma on_error_gate: "gate_ok s \<Longrightarrow> gate_ok (fst (on_error now code s))"
  by (rule on_error_cases [of now code s])
    (auto simp: gate_ok_def upstream_ok_def)

lemma engine_step_gate: "engine_step e ev e' \<Longrightarrow> gate_ok (en_session e) \<Longrightarrow> gate_ok (en_session e')"
proof (induction rule: engine_step.induct)
  case (error now code e s' spawn)
  then show ?case using on_error_gate [of "en_session e" now code] by simp
next
  case (disconnected e)
  show ?case by (simp add: on_disconnected_def gate_ok_close)
next
  case (connected e)
  then show ?case by (simp add: gate_ok_def upstream_ok_def)
next
  case (pbegin e s' runs)
  then show ?case by (auto simp: pass_begin_def gate_ok_close split: if_splits)
next
  case (pfinish e now)
  show ?case by (simp add: pass_finish_def Let_def gate_ok_close gate_ok_open)
qed simp

lemma engine_run_gate: "engine_run e evs e' \<Longrightarrow> gate_ok (en_session e) \<Longrightarrow> gate_ok (en_session e')"
  by (induction rule: engine_run.induct) (auto intro: engine_step_gate)

text \<open>What holds as long as the upstream link has never been reported lost.\<close>

definition pass_inv :: "engine \<Rightarrow> bool" where
  "pass_inv e \<longleftrightarrow> upstream_ok (en_session e) \<and> ss_ready_reason (en_session e) \<noteq> Ib_upstream_down \<and>
     (ss_ready (en_session e) \<longrightarrow> \<not> en_running e \<and> 0 < en_finished e)"

fun upstream_loss :: "session_event \<Rightarrow> bool" where
  "upstream_loss (Ev_error now code) = (code = UPSTREAM_LOST)"
| "upstream_loss e = False"

lemma pass_inv_step: "engine_step e ev e' \<Longrightarrow> \<not> upstream_loss ev \<Longrightarrow> pass_inv e \<Longrightarrow> pass_inv e'"
proof (induction rule: engine_step.induct)
  case (error now code e s' spawn)
  have code: "code \<noteq> UPSTREAM_LOST" using error.prems(1) by simp
  have inv: "upstream_ok (en_session e)" "ss_ready_reason (en_session e) \<noteq> Ib_upstream_down"
    using error.prems(2) by (simp_all add: pass_inv_def)
  have s': "s' = fst (on_error now code (en_session e))" using error.hyps by simp
  have "upstream_ok s' \<and> ss_ready_reason s' \<noteq> Ib_upstream_down \<and> (ss_ready s' \<longrightarrow> ss_ready (en_session e))"
    unfolding s' using code inv
    by - (rule on_error_cases [of now code "en_session e"], auto simp: upstream_ok_def)
  then show ?case using error.prems(2) by (auto simp: pass_inv_def)
next
  case (disconnected e)
  then show ?case by (simp add: pass_inv_def on_disconnected_def upstream_ok_def)
next
  case (pbegin e s' runs)
  then show ?case by (auto simp: pass_inv_def pass_begin_def upstream_ok_def split: if_splits)
next
  case (pfinish e now)
  then show ?case by (auto simp: pass_inv_def pass_finish_def upstream_ok_def Let_def)
qed (simp_all add: pass_inv_def upstream_ok_def)

lemma pass_inv_run: "engine_run e evs e' \<Longrightarrow> \<forall>ev \<in> set evs. \<not> upstream_loss ev \<Longrightarrow> pass_inv e \<Longrightarrow> pass_inv e'"
  by (induction rule: engine_run.induct) (auto intro: pass_inv_step)

section \<open>Properties of the gate\<close>

text \<open>
  C31. While the upstream link is never reported lost, the order routes open only after a
  pass: in every reachable state the routes accept exactly when the gate's reason is ready,
  never with the upstream known to be down, and, if code 1100 has not come, only when a
  pass has finished since the start and none is running.
\<close>

theorem gate_opens_after_pass:
  assumes "engine_run engine_start evs e"
  shows "(require_ready (en_session e) = None \<longleftrightarrow> ss_ready_reason (en_session e) = Ready) \<and>
    (require_ready (en_session e) = None \<longrightarrow> upstream_ok (en_session e)) \<and>
    ((\<forall>ev \<in> set evs. \<not> upstream_loss ev) \<and> require_ready (en_session e) = None \<longrightarrow>
       \<not> en_running e \<and> 0 < en_finished e)"
proof -
  have "gate_ok (en_session e)"
    by (rule engine_run_gate [OF assms]) (simp add: engine_start_def initial_session_def gate_ok_def)
  moreover have "pass_inv e" if "\<forall>ev \<in> set evs. \<not> upstream_loss ev"
    by (rule pass_inv_run [OF assms that])
      (simp add: engine_start_def initial_session_def pass_inv_def upstream_ok_def)
  ultimately show ?thesis by (auto simp: gate_ok_def pass_inv_def require_ready_def)
qed

definition first_pass :: "time \<Rightarrow> engine" where
  "first_pass now = \<lparr>en_session = pass_finish now True (close_gate Reconciliation_in_progress (count_event ''connected'' initial_session)),
     en_conn = True, en_waiting = 0, en_running = False, en_finished = 1\<rparr>"

lemma run_connect_begin:
  "engine_run engine_start [Ev_connected, Ev_begin]
     \<lparr>en_session = close_gate Reconciliation_in_progress (count_event ''connected'' initial_session),
      en_conn = True, en_waiting = 0, en_running = True, en_finished = 0\<rparr>"
proof -
  let ?c = "\<lparr>en_session = count_event ''connected'' initial_session, en_conn = True, en_waiting = 1,
      en_running = False, en_finished = 0\<rparr>"
  have "engine_run engine_start ([] @ [Ev_connected]) ?c"
    using engine_run.run_more [OF engine_run.run_none engine_step.connected [of engine_start]]
    by (simp add: engine_start_def)
  moreover have "engine_step ?c Ev_begin \<lparr>en_session = close_gate Reconciliation_in_progress (count_event ''connected'' initial_session),
      en_conn = True, en_waiting = 0, en_running = True, en_finished = 0\<rparr>"
    using engine_step.pbegin [of ?c "close_gate Reconciliation_in_progress (count_event ''connected'' initial_session)" True]
    by (simp add: pass_begin_def)
  ultimately show ?thesis using engine_run.run_more [of engine_start "[Ev_connected]" ?c] by simp
qed

theorem gate_opens_after_pass_witness:
  "engine_run engine_start [Ev_connected, Ev_begin, Ev_finish 5] (first_pass 5) \<and>
   require_ready (en_session (first_pass 5)) = None \<and> upstream_ok (en_session (first_pass 5))"
proof -
  let ?b = "\<lparr>en_session = close_gate Reconciliation_in_progress (count_event ''connected'' initial_session),
      en_conn = True, en_waiting = 0, en_running = True, en_finished = 0\<rparr>"
  have "engine_step ?b (Ev_finish 5) (first_pass 5)"
    using engine_step.pfinish [of ?b 5] by (simp add: first_pass_def)
  with run_connect_begin have run: "engine_run engine_start [Ev_connected, Ev_begin, Ev_finish 5] (first_pass 5)"
    using engine_run.run_more [of engine_start "[Ev_connected, Ev_begin]" ?b] by simp
  have "ss_ready_reason (en_session (first_pass 5)) = Ready"
    by (simp add: first_pass_def pass_finish_def Let_def upstream_ok_def initial_session_def)
  with gate_opens_after_pass [OF run] run show ?thesis by blast
qed

text \<open>
  A loss and a restoration of the upstream while a pass runs open the gate before the pass
  has finished.
\<close>

lemma gate_opens_during_pass:
  "\<exists>e. engine_run engine_start [Ev_connected, Ev_begin, Ev_error 2 UPSTREAM_LOST, Ev_error 3 UPSTREAM_RESTORED_DATA_KEPT] e \<and>
     require_ready (en_session e) = None \<and> en_running e \<and> en_finished e = 0"
proof -
  let ?b = "\<lparr>en_session = close_gate Reconciliation_in_progress (count_event ''connected'' initial_session),
      en_conn = True, en_waiting = 0, en_running = True, en_finished = 0\<rparr>"
  obtain s1 p1 where s1: "on_error 2 UPSTREAM_LOST (en_session ?b) = (s1, p1)" by (cases "on_error 2 UPSTREAM_LOST (en_session ?b)")
  obtain s2 p2 where s2: "on_error 3 UPSTREAM_RESTORED_DATA_KEPT s1 = (s2, p2)" by (cases "on_error 3 UPSTREAM_RESTORED_DATA_KEPT s1")
  let ?c = "?b\<lparr>en_session := s1, en_waiting := en_waiting ?b + (if p1 then 1 else 0)\<rparr>"
  let ?d = "?c\<lparr>en_session := s2, en_waiting := en_waiting ?c + (if p2 then 1 else 0)\<rparr>"
  have "engine_run engine_start ([Ev_connected, Ev_begin] @ [Ev_error 2 UPSTREAM_LOST]) ?c"
    by (rule engine_run.run_more [OF run_connect_begin]) (rule engine_step.error [OF s1])
  then have "engine_run engine_start (([Ev_connected, Ev_begin] @ [Ev_error 2 UPSTREAM_LOST]) @ [Ev_error 3 UPSTREAM_RESTORED_DATA_KEPT]) ?d"
    by (rule engine_run.run_more) (rule engine_step.error, simp add: s2)
  moreover have "ss_ready s2"
  proof -
    have "classify_error_code UPSTREAM_LOST \<noteq> ''farm_status''" "classify_error_code UPSTREAM_RESTORED_DATA_KEPT \<noteq> ''farm_status''"
      "UPSTREAM_RESTORED_DATA_KEPT \<noteq> UPSTREAM_LOST" "UPSTREAM_RESTORED_DATA_KEPT \<noteq> UPSTREAM_RESTORED_DATA_LOST"
      by (simp_all add: classify_error_code_def UPSTREAM_LOST_def UPSTREAM_RESTORED_DATA_KEPT_def
          UPSTREAM_RESTORED_DATA_LOST_def)
    with s1 s2 show ?thesis by (auto simp: on_error_def Let_def)
  qed
  ultimately show ?thesis by (intro exI [of _ ?d]) (simp add: require_ready_def)
qed

text \<open>
  The gate never stays shut for want of a pass: from every reachable state in which the
  session is connected and its upstream is up, a waiting pass that runs undisturbed opens
  the gate, and so does the end of a pass that is already running.
\<close>

theorem gate_reopens:
  assumes "engine_run engine_start evs e" and "en_conn e" and "upstream_ok (en_session e)"
    and "en_running e \<or> 0 < en_waiting e"
  shows "\<exists>more e'. engine_run engine_start (evs @ more) e' \<and> require_ready (en_session e') = None \<and>
    \<not> en_running e' \<and> en_finished e' = en_finished e + 1 \<and> length more \<le> 2"
proof -
  have fin: "\<exists>f'. engine_step f (Ev_finish now) f' \<and> require_ready (en_session f') = None \<and> \<not> en_running f' \<and>
      en_finished f' = en_finished f + 1"
    if "en_running f" "en_conn f" "upstream_ok (en_session f)" for f now
    using engine_step.pfinish [OF that(1), of now] that(2,3)
    by (intro exI [of _ "f\<lparr>en_session := pass_finish now (en_conn f) (en_session f), en_running := False,
         en_finished := en_finished f + 1\<rparr>"])
      (simp add: pass_finish_def Let_def upstream_ok_def require_ready_def)
  show ?thesis
  proof (cases "en_running e")
    case True
    from fin [OF this assms(2,3), of 0] obtain e' where "engine_step e (Ev_finish 0) e'"
      "require_ready (en_session e') = None" "\<not> en_running e'" "en_finished e' = en_finished e + 1" by blast
    with engine_run.run_more [OF assms(1)] show ?thesis by (intro exI [of _ "[Ev_finish 0]"] exI [of _ e']) simp
  next
    case False
    let ?f = "e\<lparr>en_session := close_gate Reconciliation_in_progress (en_session e), en_waiting := en_waiting e - 1, en_running := True\<rparr>"
    have st: "engine_step e Ev_begin ?f"
      using engine_step.pbegin [of e "close_gate Reconciliation_in_progress (en_session e)" True] assms(2,4) False
      by (simp add: pass_begin_def)
    have "en_running ?f" "en_conn ?f" "upstream_ok (en_session ?f)" using assms(2,3) by (simp_all add: upstream_ok_def)
    from fin [OF this, of 0] obtain e' where e': "engine_step ?f (Ev_finish 0) e'"
      "require_ready (en_session e') = None" "\<not> en_running e'" "en_finished e' = en_finished e + 1" by auto
    have "engine_run engine_start ((evs @ [Ev_begin]) @ [Ev_finish 0]) e'"
      by (rule engine_run.run_more [OF engine_run.run_more [OF assms(1) st] e'(1)])
    with e' show ?thesis by (intro exI [of _ "[Ev_begin, Ev_finish 0]"] exI [of _ e']) simp
  qed
qed

theorem gate_reopens_witness:
  "\<exists>more e'. engine_run engine_start ([Ev_connected, Ev_begin] @ more) e' \<and> require_ready (en_session e') = None \<and> length more \<le> 2"
proof -
  have "upstream_ok (close_gate Reconciliation_in_progress (count_event ''connected'' initial_session))"
    by (simp add: upstream_ok_def initial_session_def)
  with gate_reopens [OF run_connect_begin] show ?thesis by simp blast
qed

end
