(* ===== verification/Manual_Close.thy ===== *)
theory Manual_Close
  imports Book_Ops Contracts Closing
begin

text \<open>
  The operator's closes: one position of the broker mirror (\<open>close_one_open_position\<close> of
  \<open>api/routers/positions.py\<close>), with the guard against stacked closes and the outcomes of
  the dispatch to the execution engine, and the close and cancel of a whole trade
  (\<open>api/routers/trades.py\<close>). The answer of the engine is given with the call; the commit
  before the dispatch is kept apart from the one after it.
\<close>

section \<open>Prices and symbols\<close>

definition OPT_TICK :: flt where "OPT_TICK = 1 / 10000"
definition OUTSIDE_RTH_SLIPPAGE :: flt where "OUTSIDE_RTH_SLIPPAGE = 5 / 10000"

text \<open>The weekday (Monday is 0) and the hour are those of Chicago.\<close>

definition is_cme_fx_rth :: "nat \<Rightarrow> nat \<Rightarrow> bool" where
  "is_cme_fx_rth wd h =
     (if wd = 5 then False
      else if wd = 6 then 17 \<le> h
      else if wd = 4 \<and> 16 \<le> h then False
      else if h = 16 then False
      else True)"

definition close_limit_from_mark :: "flt \<Rightarrow> string \<Rightarrow> flt" where
  "close_limit_from_mark mark side =
     (if side = BUY then mark * (1 - OUTSIDE_RTH_SLIPPAGE) else mark * (1 + OUTSIDE_RTH_SLIPPAGE))"

definition marketable_close_from_mark :: "flt \<Rightarrow> flt \<Rightarrow> string \<Rightarrow> flt option" where
  "marketable_close_from_mark buffer mark pos_side =
     (if mark \<le> 0 then None
      else if pos_side = BUY then
        (let lp = of_int \<lfloor>mark * (1 - buffer) / OPT_TICK\<rfloor> * OPT_TICK
         in Some (if OPT_TICK \<le> lp then py_round 6 lp else OPT_TICK))
      else Some (py_round 6 (of_int \<lceil>mark * (1 + buffer) / OPT_TICK\<rceil> * OPT_TICK)))"

text \<open>\<open>contract_symbol\<close>, \<open>contract_type\<close> and \<open>contract_strike\<close> of the closing row.\<close>

definition contract_fields_from_symbol :: "symbol \<Rightarrow> string \<times> string \<times> flt option" where
  "contract_fields_from_symbol ls =
     (case parse_local_symbol (Some ls) of
        None \<Rightarrow> (''EUR'', ''future'', None)
      | Some spec \<Rightarrow>
          if cs_instrument_type spec = OPTION
          then (''EUR'', (case cs_option_type spec of None \<Rightarrow> [] | Some CALL \<Rightarrow> ''call'' | Some PUT \<Rightarrow> ''put''), cs_strike spec)
          else (cs_symbol spec, ''future'', None))"

definition structure_type_for_close :: "symbol \<Rightarrow> string \<Rightarrow> string" where
  "structure_type_for_close ls side =
     (case parse_local_symbol (Some ls) of
        None \<Rightarrow> ''future_buy''
      | Some spec \<Rightarrow>
          if cs_instrument_type spec = OPTION
          then (if cs_option_type spec = Some CALL then ''vanilla_call'' else ''vanilla_put'')
          else if side = BUY then ''future_buy'' else ''future_sell'')"

section \<open>The stacking guard\<close>

definition close_inflight_remaining :: "int \<Rightarrow> int \<Rightarrow> time option \<Rightarrow> time option \<Rightarrow> time \<Rightarrow> flt \<Rightarrow> int" where
  "close_inflight_remaining qty qty_filled submitted_at state_updated_at now window =
     (let cutoff = now - window;
          age_ts = (case submitted_at of None \<Rightarrow> state_updated_at | Some t \<Rightarrow> Some t)
      in if (case age_ts of None \<Rightarrow> False | Some t \<Rightarrow> t < cutoff) then 0 else max 0 (qty - qty_filled))"

definition reverse_side :: "string \<Rightarrow> string" where
  "reverse_side side = (if side = BUY then SELL else BUY)"

definition strike_of_symbol :: "symbol \<Rightarrow> flt option" where
  "strike_of_symbol ls = (case parse_local_symbol (Some ls) of None \<Rightarrow> None | Some spec \<Rightarrow> cs_strike spec)"

definition is_option_symbol :: "symbol \<Rightarrow> bool" where
  "is_option_symbol ls =
     (case parse_local_symbol (Some ls) of None \<Rightarrow> False | Some spec \<Rightarrow> cs_instrument_type spec = OPTION)"

definition INFLIGHT_CLOSE_STATES :: "order_state list" where
  "INFLIGHT_CLOSE_STATES = [Pending, Submitted, Partially_filled]"

definition closing_match :: "open_position_row \<Rightarrow> order_row \<Rightarrow> bool" where
  "closing_match pos r =
     (o_order_role r = Closing \<and> o_side r = reverse_side (op_side pos) \<and>
      o_contract_expiry r = op_expiry pos \<and> o_state r \<in> set INFLIGHT_CLOSE_STATES \<and>
      (case strike_of_symbol (op_structure pos) of None \<Rightarrow> True | Some k \<Rightarrow> o_contract_strike r = Some k))"

definition inflight_of :: "time \<Rightarrow> flt \<Rightarrow> order_row \<Rightarrow> int" where
  "inflight_of now window r =
     close_inflight_remaining (o_qty r) (o_qty_filled r) (o_submitted_at r) (Some (o_state_updated_at r)) now window"

definition already_closing :: "time \<Rightarrow> flt \<Rightarrow> open_position_row \<Rightarrow> db \<Rightarrow> int" where
  "already_closing now window pos d =
     sum_list (map (\<lambda>(i, r). inflight_of now window r) (twhere (closing_match pos) (t_orders d)))"

section \<open>The close of one position\<close>

text \<open>What became of the request to the engine, and when.\<close>

datatype http_error = ConnectError | ConnectTimeout | ReadTimeout | WriteTimeout | PoolTimeout | ProtocolError
datatype dispatch_failure = Not_sent | Dispatch_unknown

definition classify_dispatch_failure :: "http_error \<Rightarrow> dispatch_failure" where
  "classify_dispatch_failure e = (if e \<in> {ConnectError, ConnectTimeout} then Not_sent else Dispatch_unknown)"

datatype engine_answer = No_answer http_error | Refused int string | Accepted "string option" "string option"

record close_request =
  cq_now :: time
  cq_answered_at :: time
  cq_chicago :: "nat \<times> nat"
  cq_buffer :: flt
  cq_trace_id :: "string option"
  cq_qty :: int
  cq_limit :: "flt option"
  cq_entry_order_id :: "int option"
  cq_answer :: engine_answer

record closed_report =
  cd_closed_qty :: int
  cd_open_qty_before :: int
  cd_order_type :: string
  cd_limit_price :: "flt option"
  cd_structure_id :: int
  cd_order_id :: int

definition close_price :: "close_request \<Rightarrow> open_position_row \<Rightarrow> flt option result" where
  "close_price q pos =
     (case cq_limit q of
        Some p \<Rightarrow> Inr (Some (py_round 6 p))
      | None \<Rightarrow>
          (case op_market_price pos of
             Some m \<Rightarrow>
               if is_option_symbol (op_structure pos)
               then Inr (marketable_close_from_mark (cq_buffer q) m (op_side pos))
               else if is_cme_fx_rth (fst (cq_chicago q)) (snd (cq_chicago q)) then Inr None
               else Inr (Some (py_round 6 (close_limit_from_mark m (op_side pos))))
           | None \<Rightarrow>
               if is_cme_fx_rth (fst (cq_chicago q)) (snd (cq_chicago q)) then Inr None
               else Inl (HTTPException 400 ''no market_price outside RTH'')))"

definition entry_of_position :: "db \<Rightarrow> open_position_row \<Rightarrow> int option" where
  "entry_of_position d pos =
     (case op_trade_id pos of
        None \<Rightarrow> None
      | Some t \<Rightarrow>
          (case twhere (\<lambda>r. o_structure_id r = t \<and> o_order_role r \<noteq> Closing \<and>
                            o_ib_local_symbol r = Some (op_structure pos)) (t_orders d) of
             [] \<Rightarrow> None | (i, r) # _ \<Rightarrow> Some i))"

definition closing_structure :: "close_request \<Rightarrow> open_position_row \<Rightarrow> structure_row" where
  "closing_structure q pos =
     (let ty = structure_type_for_close (op_structure pos) (op_side pos);
          tenor = str_or (op_tenor pos)
      in (new_structure_row (cq_now q) ty (if tenor = [] then ''1M'' else tenor) (cq_qty q) S_submitted)
           \<lparr>s_product_label := product_label_from_symbol (Some (op_structure pos)) (Some ty),
            s_expiry_date := op_expiry pos, s_execution_mode := ''live''\<rparr>)"

definition closing_order :: "close_request \<Rightarrow> open_position_row \<Rightarrow> int \<Rightarrow> flt option \<Rightarrow> int option \<Rightarrow> order_row" where
  "closing_order q pos sid limit entry =
     (let (csym, ct, strike) = contract_fields_from_symbol (op_structure pos)
      in (new_order_row (cq_now q) sid 0 Closing ct (reverse_side (op_side pos)) (cq_qty q) Pending)
           \<lparr>o_order_type := (if limit = None then ''MKT'' else ''LMT''), o_limit_price := limit,
            o_contract_symbol := csym, o_contract_strike := strike, o_contract_expiry := op_expiry pos,
            o_trace_id := cq_trace_id q, o_closes_order_id := entry\<rparr>)"

text \<open>The rows of the close, as committed before the engine is asked.\<close>

definition record_close :: "close_request \<Rightarrow> int \<Rightarrow> open_position_row \<Rightarrow> int \<Rightarrow> flt option \<Rightarrow> db \<Rightarrow> db \<times> int \<times> int" where
  "record_close q pid pos oq limit d =
     (let sid = next_id (t_structures d);
          d1 = d\<lparr>t_structures := tins (closing_structure q pos) (t_structures d)\<rparr>;
          entry = (case cq_entry_order_id q of None \<Rightarrow> entry_of_position d1 pos | Some e \<Rightarrow> Some e);
          oid = next_id (t_orders d1);
          d2 = d1\<lparr>t_orders := tins (closing_order q pos sid limit entry) (t_orders d1)\<rparr>;
          d3 = (case entry of None \<Rightarrow> d2 | Some e \<Rightarrow> recompute_reservation (cq_now q) e d2);
          d4 = add_event \<lparr>ev_event_type = ''position_close_initiated'', ev_severity = Sev_info,
                 ev_structure_id = Some sid, ev_order_id = None, ev_position_id = None,
                 ev_payload = [(''live_position_id'', PInt pid), (''local_symbol'', PStr (op_structure pos)),
                   (''qty'', PInt (cq_qty q)), (''open_qty_before'', PInt oq),
                   (''order_type'', PStr (if limit = None then ''MKT'' else ''LMT'')),
                   (''limit_price'', p_opt_flt limit), (''reverse_side'', PStr (reverse_side (op_side pos)))]\<rparr> d3
      in (d4, sid, oid))"

definition reject_close :: "int \<Rightarrow> int \<Rightarrow> string \<Rightarrow> db \<Rightarrow> db" where
  "reject_close sid oid why d =
     upd_order oid (\<lambda>r. r\<lparr>o_state := Rejected, o_rejection_text := Some why\<rparr>)
       (upd_structure sid (\<lambda>s. s\<lparr>s_state := S_partial_fail\<rparr>) d)"

definition settle_close :: "close_request \<Rightarrow> int \<Rightarrow> int \<Rightarrow> int \<Rightarrow> db \<Rightarrow> db \<times> py_error option" where
  "settle_close q pid sid oid d =
     (case cq_answer q of
        No_answer e \<Rightarrow>
          (case classify_dispatch_failure e of
             Not_sent \<Rightarrow> (reject_close sid oid ''execution-engine unreachable'' d,
                          Some (HTTPException 503 ''execution_engine_unreachable''))
           | Dispatch_unknown \<Rightarrow>
               (add_event \<lparr>ev_event_type = ''close_dispatch_timeout'', ev_severity = Sev_warning,
                  ev_structure_id = Some sid, ev_order_id = None, ev_position_id = None,
                  ev_payload = [(''live_position_id'', PInt pid), (''order_id'', PInt oid)]\<rparr>
                  (upd_order oid (\<lambda>r. r\<lparr>o_state := Submitted, o_submitted_at := Some (cq_answered_at q)\<rparr>) d),
                Some (HTTPException 504 ''close_dispatch_timeout'')))
      | Refused code detail \<Rightarrow> (reject_close sid oid (take 300 detail) d, Some (HTTPException code detail))
      | Accepted ib_order_id perm_id \<Rightarrow>
          (upd_order oid (\<lambda>r. r\<lparr>
             o_ib_order_id := (case ib_order_id of None \<Rightarrow> o_ib_order_id r | Some i \<Rightarrow> Some i),
             o_ib_perm_id := (case perm_id of None \<Rightarrow> o_ib_perm_id r | Some p \<Rightarrow> Some p),
             o_state := Submitted, o_submitted_at := Some (cq_answered_at q)\<rparr>) d, None))"

definition close_one_open_position ::
  "flt \<Rightarrow> close_request \<Rightarrow> int \<Rightarrow> open_position_row \<Rightarrow> db \<Rightarrow> db \<times> closed_report result" where
  "close_one_open_position window q pid pos d =
     (case op_quantity pos of
        None \<Rightarrow> (d, Inl (TypeError ''quantity''))
      | Some x \<Rightarrow>
          let oq = py_trunc \<bar>x\<bar> in
          if oq = 0 then (d, Inl (HTTPException 400 ''zero open qty''))
          else if oq < cq_qty q then (d, Inl (HTTPException 400 ''qty exceeds open qty''))
          else if oq < already_closing (cq_now q) window pos d + cq_qty q
          then (d, Inl (HTTPException 409 ''already closing''))
          else
            (case close_price q pos of
               Inl e \<Rightarrow> (d, Inl e)
             | Inr limit \<Rightarrow>
                 (case record_close q pid pos oq limit d of
                    (d', sid, oid) \<Rightarrow>
                      (case settle_close q pid sid oid d' of
                         (d'', Some e) \<Rightarrow> (d'', Inl e)
                       | (d'', None) \<Rightarrow>
                           (d'', Inr \<lparr>cd_closed_qty = cq_qty q, cd_open_qty_before = oq,
                              cd_order_type = (if limit = None then ''MKT'' else ''LMT''), cd_limit_price = limit,
                              cd_structure_id = sid, cd_order_id = oid\<rparr>)))))"

text \<open>\<open>POST /positions/{id}/close\<close>; the body requires a positive quantity.\<close>

definition close_live_position :: "flt \<Rightarrow> close_request \<Rightarrow> int \<Rightarrow> db \<Rightarrow> db \<times> closed_report result" where
  "close_live_position window q pid d =
     (case tget (t_open_positions d) pid of
        None \<Rightarrow> (d, Inl (HTTPException 404 ''position not found''))
      | Some pos \<Rightarrow> close_one_open_position window (q\<lparr>cq_entry_order_id := None\<rparr>) pid pos d)"

text \<open>\<open>POST /positions/{id}/close-manual\<close>.\<close>

definition close_manual :: "time \<Rightarrow> int \<Rightarrow> db \<Rightarrow> db \<times> unit result" where
  "close_manual now pid d =
     (case tget (t_positions d) pid of
        None \<Rightarrow> (d, Inl (HTTPException 404 ''position not found''))
      | Some p \<Rightarrow>
          if b_state p \<noteq> P_open then (d, Inl (HTTPException 400 ''position state''))
          else
            (d\<lparr>t_positions := tupd pid (\<lambda>p. p\<lparr>b_state := P_closing, b_state_updated_at := now\<rparr>) (t_positions d),
               t_alerts := tins \<lparr>ea_position_id = pid, ea_rule_triggered = Some ''manual_close'',
                 ea_execution_status = Some A_in_progress, ea_closing_structure_id = None, ea_timestamp = now,
                 ea_action_recommended = ''EXIT'', ea_priority = 10,
                 ea_rule_detail = [(''source'', PStr ''user''), (''phase'', PStr ''mock'')],
                 ea_auto_executed = False\<rparr> (t_alerts d)\<rparr>, Inr ()))"

section \<open>The close of a trade\<close>

text \<open>Planned: symbol, quantity and entry order; skipped: the entry order and why.\<close>

fun plan_trade_close ::
  "(int \<times> string option \<times> int) list \<Rightarrow> (symbol \<times> int) list \<Rightarrow> (symbol \<times> int \<times> int) list \<times> (int \<times> string) list" where
  "plan_trade_close [] mirror_qty = ([], [])"
| "plan_trade_close ((order_id, sy, qty_filled) # legs) mirror_qty =
     (let (plans, skips) = plan_trade_close legs mirror_qty in
      if str_or sy = [] then (plans, (order_id, ''leg has no IB contract (unfilled)'') # skips)
      else
        case map_of mirror_qty (str_or sy) of
          None \<Rightarrow> (plans, (order_id, ''no live mirror position'') # skips)
        | Some avail \<Rightarrow>
            let qty = min qty_filled avail in
            if qty \<le> 0 then (plans, (order_id, ''zero qty (already closed?)'') # skips)
            else ((str_or sy, qty, order_id) # plans, skips))"

record trade_close_report =
  tc_total_legs :: nat
  tc_closed_legs :: nat
  tc_failed_legs :: nat
  tc_ok :: "(int \<times> closed_report) list"
  tc_errors :: "int list"

definition entry_legs_of :: "db \<Rightarrow> int \<Rightarrow> (int \<times> order_row) list" where
  "entry_legs_of d trade_id =
     sort_key (\<lambda>(i, r). o_leg_idx r)
       (twhere (\<lambda>r. o_structure_id r = trade_id \<and> o_order_role r = Entry \<and> 0 < o_qty_filled r) (t_orders d))"

text \<open>The first mirror row of each symbol.\<close>

fun first_by_symbol :: "(int \<times> open_position_row) list \<Rightarrow> (symbol \<times> int \<times> open_position_row) list" where
  "first_by_symbol [] = []"
| "first_by_symbol ((i, p) # ps) =
     (if op_structure p = [] then first_by_symbol ps
      else (op_structure p, i, p) # filter (\<lambda>(sy, x). sy \<noteq> op_structure p) (first_by_symbol ps))"

definition mirror_qty_of :: "(symbol \<times> int \<times> open_position_row) list \<Rightarrow> (symbol \<times> int) list" where
  "mirror_qty_of ps = map (\<lambda>(sy, i, p). (sy, py_trunc \<bar>flt_or0 (op_quantity p)\<bar>)) ps"

text \<open>One leg after the other; the request of a leg (times, answer) is given by its entry order.\<close>

fun close_legs ::
  "flt \<Rightarrow> (int \<Rightarrow> close_request) \<Rightarrow> (symbol \<times> int \<times> open_position_row) list \<Rightarrow> (symbol \<times> int \<times> int) list \<Rightarrow> db \<Rightarrow>
   db \<times> (int \<times> closed_report result) list" where
  "close_legs window req by_symbol [] d = (d, [])"
| "close_legs window req by_symbol ((sy, qty, oid) # plans) d =
     (case map_of by_symbol sy of
        None \<Rightarrow> (d, [])
      | Some (pid, pos) \<Rightarrow>
          let (d', r) = close_one_open_position window ((req oid)\<lparr>cq_qty := qty, cq_entry_order_id := Some oid\<rparr>) pid pos d;
              (d'', rs) = close_legs window req by_symbol plans d'
          in (d'', (oid, r) # rs))"

definition close_trade :: "flt \<Rightarrow> (int \<Rightarrow> close_request) \<Rightarrow> int \<Rightarrow> db \<Rightarrow> db \<times> trade_close_report result" where
  "close_trade window req trade_id d =
     (let legs = entry_legs_of d trade_id in
      if legs = [] then (d, Inl (HTTPException 404 ''no filled entry legs''))
      else
        let by_symbol = first_by_symbol (t_open_positions d);
            (plans, skips) = plan_trade_close (map (\<lambda>(i, r). (i, o_ib_local_symbol r, o_qty_filled r)) legs)
                               (mirror_qty_of by_symbol);
            (d', rs) = close_legs window req by_symbol plans d;
            ok = List.map_filter (\<lambda>(i, r). case r of Inl e \<Rightarrow> None | Inr c \<Rightarrow> Some (i, c)) rs;
            bad = List.map_filter (\<lambda>(i, r). case r of Inl e \<Rightarrow> Some i | Inr c \<Rightarrow> None) rs
        in (d', Inr \<lparr>tc_total_legs = length legs, tc_closed_legs = length ok,
              tc_failed_legs = length skips + length bad, tc_ok = ok, tc_errors = map fst skips @ bad\<rparr>))"

section \<open>The cancel of a trade\<close>

definition CANCELLABLE_STATES :: "order_state list" where
  "CANCELLABLE_STATES = [Pending, Submitted, Acknowledged, Partially_filled]"

text \<open>The engine's answer to the cancel of one order: a status, or none.\<close>

datatype cancel_answer = Cancel_status int | Cancel_unreachable

text \<open>\<open>int(o.ib_order_id)\<close> may raise, and then the whole request does.\<close>

definition cancel_one :: "cancel_answer \<Rightarrow> order_row \<Rightarrow> bool result" where
  "cancel_one answer r =
     (if str_or (o_ib_order_id r) = [] then Inr True
      else
        case py_int (str_or (o_ib_order_id r)) of
          None \<Rightarrow> Inl (ValueError ''ib_order_id'')
        | Some n \<Rightarrow>
            (case answer of
               Cancel_status code \<Rightarrow> Inr (\<not> (400 \<le> code \<and> code \<noteq> 404))
             | Cancel_unreachable \<Rightarrow> Inr False))"

definition tag_result :: "int \<Rightarrow> bool result \<Rightarrow> (int \<times> bool) result" where
  "tag_result i x = (case x of Inl e \<Rightarrow> Inl e | Inr b \<Rightarrow> Inr (i, b))"

record cancel_report =
  cr_cancelled :: "int list"
  cr_failed :: "int list"
  cr_structure_state :: structure_state

definition cancel_orders :: "time \<Rightarrow> int list \<Rightarrow> db \<Rightarrow> db" where
  "cancel_orders now oids d =
     d\<lparr>t_orders := foldl (\<lambda>t i. tupd i (\<lambda>r. r\<lparr>o_state := Cancelled, o_state_updated_at := now\<rparr>) t) (t_orders d) oids\<rparr>"

definition terminal_plan :: "int \<Rightarrow> db \<Rightarrow> structure_state option" where
  "terminal_plan sid d =
     plan_structure_terminal_state (map (\<lambda>(i, r). o_state r) (twhere (\<lambda>r. o_structure_id r = sid) (t_orders d)))"

definition set_structure_state :: "time \<Rightarrow> int \<Rightarrow> structure_state option \<Rightarrow> db \<Rightarrow> db" where
  "set_structure_state now sid new d =
     (case (new, tget (t_structures d) sid) of
        (Some st, Some s) \<Rightarrow>
          if s_state s \<noteq> st then upd_structure sid (\<lambda>s. s\<lparr>s_state := st, s_state_updated_at := now\<rparr>) d else d
      | _ \<Rightarrow> d)"

definition cancel_trade :: "time \<Rightarrow> (int \<Rightarrow> cancel_answer) \<Rightarrow> int \<Rightarrow> db \<Rightarrow> db \<times> cancel_report result" where
  "cancel_trade now answer trade_id d =
     (case tget (t_structures d) trade_id of
        None \<Rightarrow> (d, Inl (HTTPException 404 ''trade not found''))
      | Some s \<Rightarrow>
          let orders = sort_key (\<lambda>(i, r). o_leg_idx r)
                 (twhere (\<lambda>r. o_structure_id r = trade_id \<and> o_state r \<in> set CANCELLABLE_STATES) (t_orders d))
          in case map_result (\<lambda>(i, r). tag_result i (cancel_one (answer i) r)) orders of
               Inl e \<Rightarrow> (d, Inl e)
             | Inr outs \<Rightarrow>
                 let done = map fst (filter snd outs);
                     d1 = cancel_orders now done d;
                     new = terminal_plan trade_id d1
                 in if orders = [] \<and> new = None then (d, Inl (HTTPException 409 ''nothing to cancel''))
                    else (set_structure_state now trade_id new d1,
                          Inr \<lparr>cr_cancelled = done, cr_failed = map fst (filter (\<lambda>(i, b). \<not> b) outs),
                               cr_structure_state = (case new of None \<Rightarrow> s_state s | Some st \<Rightarrow> st)\<rparr>))"

section \<open>Facts\<close>

definition settled :: "close_request \<Rightarrow> order_row \<Rightarrow> order_row" where
  "settled q r =
     (case cq_answer q of
        No_answer e \<Rightarrow>
          (case classify_dispatch_failure e of
             Not_sent \<Rightarrow> r\<lparr>o_state := Rejected, o_rejection_text := Some ''execution-engine unreachable''\<rparr>
           | Dispatch_unknown \<Rightarrow> r\<lparr>o_state := Submitted, o_submitted_at := Some (cq_answered_at q)\<rparr>)
      | Refused code detail \<Rightarrow> r\<lparr>o_state := Rejected, o_rejection_text := Some (take 300 detail)\<rparr>
      | Accepted i p \<Rightarrow>
          r\<lparr>o_ib_order_id := (case i of None \<Rightarrow> o_ib_order_id r | Some x \<Rightarrow> Some x),
            o_ib_perm_id := (case p of None \<Rightarrow> o_ib_perm_id r | Some x \<Rightarrow> Some x),
            o_state := Submitted, o_submitted_at := Some (cq_answered_at q)\<rparr>)"

definition answer_error :: "engine_answer \<Rightarrow> py_error option" where
  "answer_error a =
     (case a of
        No_answer e \<Rightarrow>
          (case classify_dispatch_failure e of
             Not_sent \<Rightarrow> Some (HTTPException 503 ''execution_engine_unreachable'')
           | Dispatch_unknown \<Rightarrow> Some (HTTPException 504 ''close_dispatch_timeout''))
      | Refused code detail \<Rightarrow> Some (HTTPException code detail)
      | Accepted i p \<Rightarrow> None)"

lemma settle_close_spec:
  "t_orders (fst (settle_close q pid sid oid d)) = tupd oid (settled q) (t_orders d)"
  "t_legs (fst (settle_close q pid sid oid d)) = t_legs d"
  "snd (settle_close q pid sid oid d) = answer_error (cq_answer q)"
  by (auto simp: settle_close_def settled_def answer_error_def reject_close_def
      split: engine_answer.splits dispatch_failure.splits intro!: arg_cong [where f = "\<lambda>g. tupd oid g (t_orders d)"])

lemma settled_sel [simp]:
  "o_qty (settled q r) = o_qty r" "o_qty_filled (settled q r) = o_qty_filled r"
  "o_order_role (settled q r) = o_order_role r" "o_side (settled q r) = o_side r"
  "o_contract_expiry (settled q r) = o_contract_expiry r" "o_contract_strike (settled q r) = o_contract_strike r"
  "o_closes_order_id (settled q r) = o_closes_order_id r" "o_structure_id (settled q r) = o_structure_id r"
  "o_state_updated_at (settled q r) = o_state_updated_at r"
  by (auto simp: settled_def split: engine_answer.split dispatch_failure.split)

lemma settled_state:
  "o_state (settled q r) =
     (case answer_error (cq_answer q) of
        None \<Rightarrow> Submitted
      | Some e \<Rightarrow> if e = HTTPException 504 ''close_dispatch_timeout'' \<and> (\<exists>x. cq_answer q = No_answer x)
                 then Submitted else Rejected)"
  by (auto simp: settled_def answer_error_def split: engine_answer.split dispatch_failure.split)

lemma record_close_spec:
  assumes "record_close q pid pos oq limit d = (d', sid, oid)"
  obtains entry where
    "sid = next_id (t_structures d)" "oid = next_id (t_orders d)"
    "entry = (case cq_entry_order_id q of None \<Rightarrow> entry_of_position d pos | Some e \<Rightarrow> Some e)"
    "t_orders d' = tins (closing_order q pos sid limit entry) (t_orders d)"
    "t_legs d' = (case entry of None \<Rightarrow> t_legs d
       | Some e \<Rightarrow> t_legs (recompute_reservation (cq_now q) e
           (d\<lparr>t_orders := tins (closing_order q pos sid limit entry) (t_orders d)\<rparr>)))"
proof -
  let ?e = "case cq_entry_order_id q of None \<Rightarrow> entry_of_position d pos | Some e \<Rightarrow> Some e"
  have ent: "entry_of_position (d\<lparr>t_structures := t\<rparr>) pos = entry_of_position d pos" for t
    by (simp add: entry_of_position_def split: option.split)
  show ?thesis
    by (rule that [of ?e])
      (use assms in \<open>auto simp: record_close_def Let_def ent recompute_reservation_def reserved_demand_def
         split: option.splits\<close>)
qed

lemma closing_order_sel [simp]:
  "o_qty (closing_order q pos sid limit entry) = cq_qty q"
  "o_qty_filled (closing_order q pos sid limit entry) = 0"
  "o_order_role (closing_order q pos sid limit entry) = Closing"
  "o_side (closing_order q pos sid limit entry) = reverse_side (op_side pos)"
  "o_state (closing_order q pos sid limit entry) = Pending"
  "o_contract_expiry (closing_order q pos sid limit entry) = op_expiry pos"
  "o_closes_order_id (closing_order q pos sid limit entry) = entry"
  "o_structure_id (closing_order q pos sid limit entry) = sid"
  "o_state_updated_at (closing_order q pos sid limit entry) = cq_now q"
  by (simp_all add: closing_order_def split_beta new_order_row_def)

lemma closing_order_strike:
  "o_contract_strike (closing_order q pos sid limit entry) = snd (snd (contract_fields_from_symbol (op_structure pos)))"
  by (simp add: closing_order_def split_beta)

text \<open>What a close does: nothing, or one more closing row and the answer on it.\<close>

lemma close_one_cases:
  assumes "close_one_open_position w q pid pos d = (d', res)"
  obtains (refused) e where "d' = d" "res = Inl e"
  | (placed) x limit entry r where "op_quantity pos = Some x"
      "already_closing (cq_now q) w pos d + cq_qty q \<le> py_trunc \<bar>x\<bar>" "close_price q pos = Inr limit"
      "entry = (case cq_entry_order_id q of None \<Rightarrow> entry_of_position d pos | Some e \<Rightarrow> Some e)"
      "r = settled q (closing_order q pos (next_id (t_structures d)) limit entry)"
      "t_orders d' = tins r (t_orders d)"
      "t_legs d' = (case entry of None \<Rightarrow> t_legs d
         | Some e \<Rightarrow> t_legs (recompute_reservation (cq_now q) e
             (d\<lparr>t_orders := tins (closing_order q pos (next_id (t_structures d)) limit entry) (t_orders d)\<rparr>)))"
      "(case res of Inl e \<Rightarrow> Some e | Inr c \<Rightarrow> None) = answer_error (cq_answer q)"
proof (cases "op_quantity pos")
  case None
  with assms have "d' = d \<and> (\<exists>e. res = Inl e)" by (auto simp: close_one_open_position_def)
  then show ?thesis using refused by blast
next
  case (Some x)
  consider "py_trunc \<bar>x\<bar> = 0 \<or> py_trunc \<bar>x\<bar> < cq_qty q \<or> py_trunc \<bar>x\<bar> < already_closing (cq_now q) w pos d + cq_qty q"
    | e where "close_price q pos = Inl e"
    | limit where "py_trunc \<bar>x\<bar> \<noteq> 0" "\<not> py_trunc \<bar>x\<bar> < cq_qty q"
        "\<not> py_trunc \<bar>x\<bar> < already_closing (cq_now q) w pos d + cq_qty q" "close_price q pos = Inr limit"
    by (cases "close_price q pos") blast+
  then show ?thesis
  proof cases
    case 1
    with Some assms have "d' = d \<and> (\<exists>e. res = Inl e)"
      by (auto simp: close_one_open_position_def Let_def split: if_splits)
    then show ?thesis using refused by blast
  next
    case 2
    with Some assms have "d' = d \<and> (\<exists>e. res = Inl e)"
      by (auto simp: close_one_open_position_def Let_def split: if_splits)
    then show ?thesis using refused by blast
  next
    case 3
    obtain d1 sid oid where rc: "record_close q pid pos (py_trunc \<bar>x\<bar>) limit d = (d1, sid, oid)"
      by (cases "record_close q pid pos (py_trunc \<bar>x\<bar>) limit d") auto
    obtain d2 err where st: "settle_close q pid sid oid d1 = (d2, err)" by (cases "settle_close q pid sid oid d1")
    from rc obtain entry where r: "sid = next_id (t_structures d)" "oid = next_id (t_orders d)"
      "entry = (case cq_entry_order_id q of None \<Rightarrow> entry_of_position d pos | Some e \<Rightarrow> Some e)"
      "t_orders d1 = tins (closing_order q pos sid limit entry) (t_orders d)"
      "t_legs d1 = (case entry of None \<Rightarrow> t_legs d
         | Some e \<Rightarrow> t_legs (recompute_reservation (cq_now q) e
             (d\<lparr>t_orders := tins (closing_order q pos sid limit entry) (t_orders d)\<rparr>)))"
      by (rule record_close_spec)
    have d': "d' = d2" "(case res of Inl e \<Rightarrow> Some e | Inr c \<Rightarrow> None) = err"
      using assms Some 3 rc st by (auto simp: close_one_open_position_def Let_def split: option.splits)
    have "t_orders d2 = tins (settled q (closing_order q pos sid limit entry)) (t_orders d)"
      using settle_close_spec(1) [of q pid sid oid d1] st r(2,4) by (simp add: tupd_tins_fresh)
    moreover have "t_legs d2 = t_legs d1" "err = answer_error (cq_answer q)"
      using settle_close_spec(2,3) [of q pid sid oid d1] st by simp_all
    ultimately show ?thesis
      by (intro placed [OF Some _ 3(4) r(3) HOL.refl]) (use 3 r d' in auto)
  qed
qed

lemma map_result_pairs:
  "map_result (\<lambda>(i, r). tag_result i (f i r)) xs = Inr ys \<Longrightarrow>
     (j, b) \<in> set ys \<longleftrightarrow> (\<exists>r. (j, r) \<in> set xs \<and> f j r = Inr b)"
proof (induction xs arbitrary: ys)
  case (Cons x xs)
  obtain i r where x: "x = (i, r)" by (cases x)
  with Cons.prems obtain c ys' where c: "f i r = Inr c"
    "map_result (\<lambda>(i, r). tag_result i (f i r)) xs = Inr ys'" "ys = (i, c) # ys'"
    by (cases "f i r") (auto simp: tag_result_def split: sum.splits)
  with Cons.IH [OF c(2)] x show ?case by auto
qed simp

lemma inflight_of_le: "0 \<le> o_qty r - o_qty_filled r \<Longrightarrow> inflight_of now w r \<le> o_qty r - o_qty_filled r"
  by (simp add: inflight_of_def close_inflight_remaining_def Let_def)

lemma inflight_of_antimono: "t \<le> t' \<Longrightarrow> inflight_of t' w r \<le> inflight_of t w r"
  by (auto simp: inflight_of_def close_inflight_remaining_def Let_def split: option.splits)

lemma already_closing_antimono: "t \<le> t' \<Longrightarrow> already_closing t' w pos d \<le> already_closing t w pos d"
  unfolding already_closing_def by (rule sum_list_mono) (auto intro: inflight_of_antimono)

lemma already_closing_tins:
  "t_orders d' = tins r (t_orders d) \<Longrightarrow>
     already_closing t w pos d' = already_closing t w pos d + (if closing_match pos r then inflight_of t w r else 0)"
  by (simp add: already_closing_def twhere_tins)

lemma close_one_inflight:
  assumes "close_one_open_position w q pid pos d = (d', res)" and "op_quantity pos = Some x" and "0 < cq_qty q"
    and "cq_now q \<le> t" and "already_closing t w pos d \<le> py_trunc \<bar>x\<bar>"
  shows "already_closing t w pos d' \<le> py_trunc \<bar>x\<bar>"
  using assms(1)
proof (cases rule: close_one_cases)
  case (refused e)
  with assms(5) show ?thesis by simp
next
  case (placed x' limit entry r)
  have "inflight_of t w r \<le> cq_qty q"
    using inflight_of_le [of r t w] assms(3) unfolding placed(5) by simp
  moreover have "already_closing t w pos d \<le> already_closing (cq_now q) w pos d"
    by (rule already_closing_antimono [OF assms(4)])
  ultimately show ?thesis
    using already_closing_tins [OF placed(6), of t w pos] placed(1,2) assms(2,3) by (auto split: if_splits)
qed

section \<open>Properties\<close>


definition long_call :: open_position_row where
  "long_call = \<lparr>op_structure = ''EUUN6 C1172'', op_trade_id = None, op_side = BUY, op_quantity = Some 3,
     op_market_price = Some (1 / 100), op_product_label = None, op_contract_id = None, op_package_id = None,
     op_tenor = Some ''1M'', op_expiry = Some (Date 2026 7 3), op_nominal_eur = None,
     op_contract_price_entry = None, op_entry_timestamp = 0\<rparr>"

definition close_call :: "time \<Rightarrow> int \<Rightarrow> engine_answer \<Rightarrow> close_request" where
  "close_call now qty answer = \<lparr>cq_now = now, cq_answered_at = now + 1, cq_chicago = (2, 10), cq_buffer = 1 / 4,
     cq_trace_id = None, cq_qty = qty, cq_limit = Some (1 / 200), cq_entry_order_id = None, cq_answer = answer\<rparr>"


text \<open>
  C16. Every answer of the engine leaves the close in the right state. A request is either
  refused with nothing changed, or adds exactly one closing order; that order stays in
  flight when it was accepted and when the answer was lost after the request had been
  sent, so that it still counts against the next close, and it is rejected, and counts no
  more, exactly when the engine was never reached or refused it. The caller gets an error
  exactly when the order was not confirmed.
\<close>

theorem close_outcomes:
  assumes "close_one_open_position w q pid pos d = (d', res)"
  shows "(d' = d \<and> (\<exists>e. res = Inl e)) \<or>
    (\<exists>r. t_orders d' = tins r (t_orders d) \<and> o_order_role r = Closing \<and> o_qty r = cq_qty q \<and>
       o_side r = reverse_side (op_side pos) \<and> o_qty_filled r = 0 \<and>
       (case cq_answer q of
          Accepted i p \<Rightarrow> o_state r = Submitted \<and> is_ok res
        | Refused code detail \<Rightarrow> o_state r = Rejected \<and> res = Inl (HTTPException code detail)
        | No_answer e \<Rightarrow>
            if e = ConnectError \<or> e = ConnectTimeout
            then o_state r = Rejected \<and> res = Inl (HTTPException 503 ''execution_engine_unreachable'')
            else o_state r = Submitted \<and> o_submitted_at r = Some (cq_answered_at q) \<and>
                 res = Inl (HTTPException 504 ''close_dispatch_timeout'')) \<and>
       (o_state r = Rejected \<longrightarrow> \<not> closing_match pos r))"
  using assms
proof (cases rule: close_one_cases)
  case (refused e)
  then show ?thesis by blast
next
  case (placed x limit entry r)
  have "closing_match pos r \<Longrightarrow> o_state r \<noteq> Rejected"
    by (auto simp: closing_match_def INFLIGHT_CLOSE_STATES_def)
  with placed show ?thesis
    by (intro disjI2 exI [of _ r])
      (auto simp: settled_def answer_error_def classify_dispatch_failure_def
         split: engine_answer.splits http_error.splits if_splits sum.splits)
qed

theorem close_outcomes_witness:
  "\<exists>d' res r. close_one_open_position 180 (close_call 10 2 (No_answer ReadTimeout)) 1 long_call empty_db = (d', res) \<and>
     t_orders d' = tins r [] \<and> o_state r = Submitted \<and> res = Inl (HTTPException 504 ''close_dispatch_timeout'')"
proof -
  let ?q = "close_call 10 2 (No_answer ReadTimeout)"
  obtain d' res where st: "close_one_open_position 180 ?q 1 long_call empty_db = (d', res)"
    by (cases "close_one_open_position 180 ?q 1 long_call empty_db")
  have ac: "already_closing 10 180 long_call empty_db = 0" by (simp add: already_closing_def empty_db_def twhere_def)
  have "d' \<noteq> empty_db"
  proof
    assume "d' = empty_db"
    with st have "t_orders (fst (close_one_open_position 180 ?q 1 long_call empty_db)) = []"
      by (simp add: empty_db_def)
    then show False
      using ac by (simp add: close_one_open_position_def close_call_def close_price_def record_close_def settle_close_def
          classify_dispatch_failure_def Let_def split_beta tins_def tupd_def long_call_def entry_of_position_def)
  qed
  with close_outcomes [OF st] show ?thesis using st by (auto simp: close_call_def empty_db_def)
qed

text \<open>
  A rejected close is not released: the reservation of the entry leg was computed while its
  row was pending, and is not computed again.
\<close>

lemma rejected_close_keeps_reservation:
  assumes "close_one_open_position w q pid pos d = (d', res)" and "cq_answer q = Refused code detail"
    and "cq_entry_order_id q = Some e" and "0 < cq_qty q" and "d' \<noteq> d"
  shows "reserved_of d' e = of_int (reserved_demand d' e + cq_qty q)"
  using assms(1)
proof (cases rule: close_one_cases)
  case (refused x)
  with assms(5) show ?thesis by simp
next
  case (placed x limit entry r)
  let ?row = "closing_order q pos (next_id (t_structures d)) limit entry"
  let ?d = "d\<lparr>t_orders := tins ?row (t_orders d)\<rparr>"
  have entry: "entry = Some e" using placed(4) assms(3) by simp
  have "reserved_of d' e = reserved_of (recompute_reservation (cq_now q) e ?d) e"
    using placed(7) entry by (simp add: reserved_of_def)
  also have "\<dots> = of_int (reserved_demand ?d e)" by (simp add: reserved_of_recompute)
  also have "reserved_demand ?d e = reserved_demand d e + cq_qty q"
    using entry assms(4) by (simp add: reserved_demand_def twhere_tins NON_TERMINAL_def)
  also have "reserved_demand d e = reserved_demand d' e"
    using placed(5,6) assms(2) by (simp add: reserved_demand_def twhere_tins NON_TERMINAL_def settled_def)
  finally show ?thesis .
qed

text \<open>
  The guard looks at side, expiry and strike only. The two legs of a straddle share them:
  once the call is being closed, the close of the put is refused.
\<close>

lemma closing_match_strike:
  assumes "close_one_open_position w q pid pos d = (d', Inr c)" and "op_side pos' = op_side pos"
    and "op_expiry pos' = op_expiry pos" and "strike_of_symbol (op_structure pos') = Some k"
    and "snd (snd (contract_fields_from_symbol (op_structure pos))) = Some k"
  shows "\<exists>r. t_orders d' = tins r (t_orders d) \<and> closing_match pos' r \<and> o_qty r = cq_qty q \<and> o_qty_filled r = 0 \<and>
    o_submitted_at r = Some (cq_answered_at q)"
  using assms(1)
proof (cases rule: close_one_cases)
  case (refused e)
  then show ?thesis by simp
next
  case (placed x limit entry r)
  obtain i p where a: "cq_answer q = Accepted i p"
    using placed(8) by (auto simp: answer_error_def split: engine_answer.splits dispatch_failure.splits)
  have "o_contract_strike r = Some k" using placed(5) assms(5) by (simp add: closing_order_strike)
  then have "closing_match pos' r"
    using placed(5) a assms(2-4) by (simp add: closing_match_def INFLIGHT_CLOSE_STATES_def settled_def)
  moreover have "o_submitted_at r = Some (cq_answered_at q)" using placed(5) a by (simp add: settled_def)
  ultimately show ?thesis using placed(5,6) by auto
qed

lemma straddle_second_leg_refused:
  assumes "close_one_open_position w q pid pos d = (d', Inr c)" and "op_quantity pos' = Some x"
    and "op_side pos' = op_side pos" and "op_expiry pos' = op_expiry pos"
    and "strike_of_symbol (op_structure pos') = Some k"
    and "snd (snd (contract_fields_from_symbol (op_structure pos))) = Some k"
    and "cq_qty q = py_trunc \<bar>x\<bar>" and "cq_qty q' \<le> py_trunc \<bar>x\<bar>" and "0 < cq_qty q'" and "0 < cq_qty q"
    and "cq_now q' \<le> cq_answered_at q + w"
  shows "close_one_open_position w q' pid' pos' d' = (d', Inl (HTTPException 409 ''already closing''))"
proof -
  obtain r where r: "t_orders d' = tins r (t_orders d)" "closing_match pos' r" "o_qty r = cq_qty q" "o_qty_filled r = 0"
    "o_submitted_at r = Some (cq_answered_at q)"
    using closing_match_strike [OF assms(1,3,4,5,6)] by blast
  have "inflight_of (cq_now q') w r = cq_qty q"
    using r assms(10,11) by (simp add: inflight_of_def close_inflight_remaining_def Let_def)
  moreover have "0 \<le> already_closing (cq_now q') w pos' d"
    unfolding already_closing_def
    by (rule sum_list_nonneg) (auto simp: inflight_of_def close_inflight_remaining_def Let_def)
  ultimately have "cq_qty q \<le> already_closing (cq_now q') w pos' d'"
    using already_closing_tins [OF r(1), of "cq_now q'" w pos'] r(2) by simp
  then show ?thesis using assms(2,7,8,9,10) by (simp add: close_one_open_position_def Let_def)
qed

text \<open>
  Closing a trade never asks for more than its own: every planned close is for a leg of
  the trade, on that leg's contract, with a positive quantity of at most what the leg
  filled and at most what the mirror holds; planned and skipped legs are together exactly
  the legs of the trade, and a leg is skipped only when it has no contract, no mirror row
  or nothing left.
\<close>

theorem trade_close_capped:
  assumes "plan_trade_close legs mirror = (plans, skips)"
  shows "(\<forall>(sy, qty, oid) \<in> set plans. 0 < qty \<and> (\<exists>filled avail. (oid, Some sy, filled) \<in> set legs \<and>
            map_of mirror sy = Some avail \<and> qty \<le> filled \<and> qty \<le> avail)) \<and>
    mset (map (\<lambda>(sy, qty, oid). oid) plans) + mset (map fst skips) = mset (map fst legs) \<and>
    (\<forall>(oid, why) \<in> set skips. \<exists>sy filled. (oid, sy, filled) \<in> set legs \<and>
       (str_or sy = [] \<or> map_of mirror (str_or sy) = None \<or>
        (\<exists>avail. map_of mirror (str_or sy) = Some avail \<and> min filled avail \<le> 0)))"
  using assms
proof (induction legs arbitrary: plans skips)
  case (Cons leg legs)
  obtain oid sy filled where leg: "leg = (oid, sy, filled)" by (cases leg)
  obtain ps ks where rec: "plan_trade_close legs mirror = (ps, ks)" by (cases "plan_trade_close legs mirror")
  note IH = Cons.IH [OF rec]
  consider "str_or sy = []" | "str_or sy \<noteq> []" "map_of mirror (str_or sy) = None"
    | avail where "str_or sy \<noteq> []" "map_of mirror (str_or sy) = Some avail" "min filled avail \<le> 0"
    | avail s where "sy = Some s" "s \<noteq> []" "map_of mirror s = Some avail" "0 < min filled avail"
    by atomize_elim (cases sy; cases "map_of mirror (str_or sy)"; auto simp: not_le)
  then show ?case
  proof cases
    case 1
    then have "plans = ps" "skips = (oid, ''leg has no IB contract (unfilled)'') # ks"
      using Cons.prems leg rec by auto
    with 1 IH leg show ?thesis by fastforce
  next
    case 2
    then have "plans = ps" "skips = (oid, ''no live mirror position'') # ks" using Cons.prems leg rec by auto
    with 2 IH leg show ?thesis by fastforce
  next
    case 3
    then have "plans = ps" "skips = (oid, ''zero qty (already closed?)'') # ks"
      using Cons.prems leg rec by (auto simp: Let_def)
    with 3 IH leg show ?thesis by fastforce
  next
    case 4
    then have "plans = (s, min filled avail, oid) # ps" "skips = ks"
      using Cons.prems leg rec by (auto simp: Let_def min_le_iff_disj)
    with 4 IH leg show ?thesis by fastforce
  qed
qed simp

theorem trade_close_capped_witness:
  "\<exists>plans skips. plan_trade_close [(1, Some ''6EM6'', 5), (2, None, 1), (3, Some ''6EM6'', 2)] [(''6EM6'', 4)] = (plans, skips) \<and>
     (\<forall>(sy, qty, oid) \<in> set plans. 0 < qty) \<and> plans \<noteq> []"
proof -
  let ?legs = "[(1 :: int, Some ''6EM6'', 5 :: int), (2, None, 1), (3, Some ''6EM6'', 2)]"
  obtain plans skips where p: "plan_trade_close ?legs [(''6EM6'', 4)] = (plans, skips)"
    by (cases "plan_trade_close ?legs [(''6EM6'', 4)]")
  then have "plans \<noteq> []" by auto
  with trade_close_capped [OF p] p show ?thesis by blast
qed

lemma cancel_orders_get:
  "tget (t_orders (cancel_orders now oids d)) j =
     (if j \<in> set oids then map_option (\<lambda>r. r\<lparr>o_state := Cancelled, o_state_updated_at := now\<rparr>) (tget (t_orders d) j)
      else tget (t_orders d) j)"
proof -
  let ?f = "\<lambda>r. r\<lparr>o_state := Cancelled, o_state_updated_at := now\<rparr>"
  have idem: "(?f ^^ n) r = ?f r" if "0 < n" for n and r :: order_row
    using that by (induction n rule: nat_induct_non_zero) simp_all
  have "0 < count_list oids j" if "j \<in> set oids"
    using that count_list_0_iff [of oids j] by simp
  then show ?thesis
    by (auto simp: cancel_orders_def tget_foldl_tupd idem intro!: map_option_cong)
qed

text \<open>
  Cancelling a trade is exact: on success the orders marked cancelled are precisely the
  trade's non-terminal orders that have no order at the broker or whose cancel the engine
  accepted or no longer knew; every other order is unchanged, of any trade; and the
  structure takes the terminal state of its orders exactly when they are all terminal. On
  an error nothing has changed.
\<close>

theorem cancel_trade_exact:
  assumes "table_ok (t_orders d)" and "cancel_trade now answer tid d = (d', res)"
  shows "case res of
      Inl e \<Rightarrow> d' = d
    | Inr rep \<Rightarrow>
        (\<forall>j. tget (t_orders d') j =
          (case tget (t_orders d) j of
             None \<Rightarrow> None
           | Some r \<Rightarrow> Some (if o_structure_id r = tid \<and> o_state r \<in> set CANCELLABLE_STATES \<and> cancel_one (answer j) r = Inr True
                            then r\<lparr>o_state := Cancelled, o_state_updated_at := now\<rparr> else r))) \<and>
        (case terminal_plan tid d' of
           None \<Rightarrow> t_structures d' = t_structures d
         | Some st \<Rightarrow> map_option s_state (tget (t_structures d') tid) = Some st)"
proof -
  let ?os = "sort_key (\<lambda>(i, r). o_leg_idx r)
     (twhere (\<lambda>r. o_structure_id r = tid \<and> o_state r \<in> set CANCELLABLE_STATES) (t_orders d))"
  show ?thesis
  proof (cases res)
    case (Inl e)
    with assms(2) show ?thesis
      by (auto simp: cancel_trade_def Let_def split: option.splits sum.splits if_splits)
  next
    case (Inr rep)
    with assms(2) obtain s outs where s: "tget (t_structures d) tid = Some s"
      and outs: "map_result (\<lambda>(i, r). tag_result i (cancel_one (answer i) r)) ?os = Inr outs"
      and d': "d' = set_structure_state now tid (terminal_plan tid (cancel_orders now (map fst (filter snd outs)) d))
                 (cancel_orders now (map fst (filter snd outs)) d)"
      by (auto simp: cancel_trade_def Let_def split: option.splits sum.splits if_splits)
    let ?done = "map fst (filter snd outs)"
    let ?d1 = "cancel_orders now ?done d"
    have done_iff: "j \<in> set ?done \<longleftrightarrow> (\<exists>r. (j, r) \<in> set ?os \<and> cancel_one (answer j) r = Inr True)" for j
      using map_result_pairs [OF outs, of j True] by force
    have ords: "t_orders d' = t_orders ?d1"
      unfolding d' by (simp add: set_structure_state_def split: option.splits)
    have plan: "terminal_plan tid d' = terminal_plan tid ?d1" by (simp add: terminal_plan_def ords)
    have "tget (t_orders d') j =
          (case tget (t_orders d) j of
             None \<Rightarrow> None
           | Some r \<Rightarrow> Some (if o_structure_id r = tid \<and> o_state r \<in> set CANCELLABLE_STATES \<and> cancel_one (answer j) r = Inr True
                            then r\<lparr>o_state := Cancelled, o_state_updated_at := now\<rparr> else r))" for j
    proof (cases "tget (t_orders d) j")
      case None
      then show ?thesis by (simp add: ords cancel_orders_get)
    next
      case (Some r)
      have "j \<in> set ?done \<longleftrightarrow> o_structure_id r = tid \<and> o_state r \<in> set CANCELLABLE_STATES \<and> cancel_one (answer j) r = Inr True"
        unfolding done_iff using Some in_tget [OF assms(1)] tget_in [OF Some] by fastforce
      with Some show ?thesis by (simp add: ords cancel_orders_get)
    qed
    moreover have "case terminal_plan tid d' of None \<Rightarrow> t_structures d' = t_structures d
         | Some st \<Rightarrow> map_option s_state (tget (t_structures d') tid) = Some st"
      unfolding plan unfolding d'
      using s by (auto simp: set_structure_state_def cancel_orders_def tget_simps split: option.split)
    ultimately show ?thesis using Inr by simp
  qed
qed

definition cancel_example :: db where
  "cancel_example = empty_db\<lparr>
     t_orders := [(1, new_order_row 0 9 0 Entry ''call'' BUY 2 Pending),
                  (2, new_order_row 0 9 1 Entry ''put'' BUY 2 Filled)],
     t_structures := [(9, new_structure_row 0 ''straddle_atm'' ''3M'' 2 S_submitted)]\<rparr>"

theorem cancel_trade_exact_witness:
  "\<exists>d' rep. cancel_trade 5 (\<lambda>_. Cancel_unreachable) 9 cancel_example = (d', Inr rep) \<and>
     map_option o_state (tget (t_orders d') 1) = Some Cancelled \<and>
     map_option o_state (tget (t_orders d') 2) = Some Filled"
proof -
  obtain d' res where c: "cancel_trade 5 (\<lambda>_. Cancel_unreachable) 9 cancel_example = (d', res)"
    by (cases "cancel_trade 5 (\<lambda>_. Cancel_unreachable) 9 cancel_example")
  have ok: "table_ok (t_orders cancel_example)"
    by (simp add: cancel_example_def table_ok_def keys_of_def)
  have rows: "tget (t_orders cancel_example) 1 = Some (new_order_row 0 9 0 Entry ''call'' BUY 2 Pending)"
    "tget (t_orders cancel_example) 2 = Some (new_order_row 0 9 1 Entry ''put'' BUY 2 Filled)"
    by (simp_all add: cancel_example_def tget_def)
  have "is_ok (snd (cancel_trade 5 (\<lambda>_. Cancel_unreachable) 9 cancel_example))"
    by (simp add: cancel_trade_def cancel_example_def tget_def twhere_def CANCELLABLE_STATES_def cancel_one_def
        tag_result_def Let_def)
  with c obtain rep where rep: "res = Inr rep" by (cases res) auto
  with cancel_trade_exact [OF ok c] rows c show ?thesis
    by (intro exI [of _ d'] exI [of _ rep]) (simp add: cancel_one_def CANCELLABLE_STATES_def)
qed

end
