(* ===== verification/Position_Close.thy ===== *)
theory Position_Close
  imports Book_Ops Closing
begin

text \<open>
  The start of an automatic close (\<open>api/orchestration/position_close.py\<close>): a closing
  structure with one order per filled entry leg, the reservation of those legs, the state of
  the position and of the alert that asked for it, in one transaction; then the request to
  the execution engine, whose outcome is only reported.
\<close>

definition auto_execute_enabled :: "string option \<Rightarrow> bool" where
  "auto_execute_enabled env =
     (py_lower (case env of None \<Rightarrow> ''false'' | Some v \<Rightarrow> v) \<in> {''1'', ''true'', ''yes''})"

definition entry_snapshot :: "order_row \<Rightarrow> entry_leg" where
  "entry_snapshot e =
     \<lparr>en_leg_idx = o_leg_idx e, en_contract_type = o_contract_type e,
      en_contract_strike = flt_or0 (o_contract_strike e), en_contract_expiry = o_contract_expiry e,
      en_contract_symbol = o_contract_symbol e, en_contract_exchange = o_contract_exchange e,
      en_contract_currency = o_contract_currency e, en_side = o_side e, en_qty_filled = o_qty_filled e,
      en_preview_iv_pct = o_preview_iv_pct e, en_preview_price = o_preview_price e\<rparr>"

definition position_entries :: "db \<Rightarrow> int \<Rightarrow> (int \<times> order_row) list" where
  "position_entries d sid =
     sort_key (\<lambda>(i, r). o_leg_idx r)
       (twhere (\<lambda>r. o_structure_id r = sid \<and> o_order_role r = Entry) (t_orders d))"

text \<open>\<open>{leg_idx: id}\<close>: the last entry of a leg index wins.\<close>

definition entry_by_leg :: "(int \<times> order_row) list \<Rightarrow> int \<Rightarrow> int option" where
  "entry_by_leg entries i = map_of (rev (map (\<lambda>(k, r). (o_leg_idx r, k)) entries)) i"

definition close_row :: "time \<Rightarrow> int \<Rightarrow> (int \<Rightarrow> int option) \<Rightarrow> closing_leg \<Rightarrow> order_row" where
  "close_row now sid entry_of leg =
     (new_order_row now sid (cg_leg_idx leg) Closing (cg_contract_type leg) (cg_side leg) (cg_qty leg) Pending)
       \<lparr>o_contract_symbol := cg_contract_symbol leg, o_contract_strike := Some (cg_contract_strike leg),
        o_contract_expiry := cg_contract_expiry leg, o_contract_exchange := cg_contract_exchange leg,
        o_contract_currency := cg_contract_currency leg, o_order_type := ''LMT'',
        o_limit_price := cg_preview_price leg, o_preview_iv_pct := cg_preview_iv_pct leg,
        o_preview_price := cg_preview_price leg, o_closes_order_id := entry_of (cg_leg_idx leg)\<rparr>"

definition close_structure_row :: "time \<Rightarrow> string \<Rightarrow> structure_row option \<Rightarrow> structure_row" where
  "close_structure_row now mode parent =
     (let ty = (case parent of None \<Rightarrow> ''close'' | Some p \<Rightarrow> s_structure_type p)
      in (new_structure_row now ty (case parent of None \<Rightarrow> ''3M'' | Some p \<Rightarrow> s_reference_tenor p) 1 S_submitted)
           \<lparr>s_product_label := product_label_from_symbol None (Some ty),
            s_expiry_date := (case parent of None \<Rightarrow> None | Some p \<Rightarrow> s_expiry_date p),
            s_execution_mode := mode\<rparr>)"

text \<open>The alert that asked for the close, if any, is linked to it.\<close>

definition link_alert :: "int option \<Rightarrow> int \<Rightarrow> db \<Rightarrow> db" where
  "link_alert alert sid d =
     (case alert of
        None \<Rightarrow> d
      | Some aid \<Rightarrow>
          d\<lparr>t_alerts := tupd aid (\<lambda>a. a\<lparr>ea_auto_executed := True, ea_execution_status := Some A_in_progress,
              ea_closing_structure_id := Some sid\<rparr>) (t_alerts d)\<rparr>)"

text \<open>The rows of the close: structure, orders, reservations, position, alert, event.\<close>

definition add_close_orders :: "time \<Rightarrow> int \<Rightarrow> (int \<Rightarrow> int option) \<Rightarrow> closing_leg list \<Rightarrow> db \<Rightarrow> db" where
  "add_close_orders now sid entry_of legs d =
     d\<lparr>t_orders := foldl (\<lambda>t leg. tins (close_row now sid entry_of leg) t) (t_orders d) legs\<rparr>"

definition touched_entries :: "(int \<Rightarrow> int option) \<Rightarrow> closing_leg list \<Rightarrow> int list" where
  "touched_entries entry_of legs = remdups (List.map_filter (\<lambda>l. entry_of (cg_leg_idx l)) legs)"

definition reserve_entries :: "time \<Rightarrow> int list \<Rightarrow> db \<Rightarrow> db" where
  "reserve_entries now eids d = foldl (\<lambda>d e. recompute_reservation now e d) d eids"

definition mark_closing :: "int \<Rightarrow> db \<Rightarrow> db" where
  "mark_closing pid d = d\<lparr>t_positions := tupd pid (\<lambda>p. p\<lparr>b_state := P_closing\<rparr>) (t_positions d)\<rparr>"

definition record_position_close ::
  "time \<Rightarrow> int \<Rightarrow> int option \<Rightarrow> string \<Rightarrow> position_row \<Rightarrow> closing_leg list \<Rightarrow> db \<Rightarrow> db \<times> int" where
  "record_position_close now pid alert mode pos legs d =
     (let parent = tget (t_structures d) (b_structure_id pos);
          sid = next_id (t_structures d);
          entry_of = entry_by_leg (position_entries d (b_structure_id pos));
          d1 = d\<lparr>t_structures := tins (close_structure_row now mode parent) (t_structures d)\<rparr>;
          d2 = add_close_orders now sid entry_of legs d1;
          d3 = reserve_entries now (touched_entries entry_of legs) d2;
          d4 = link_alert alert sid (mark_closing pid d3)
      in (add_event \<lparr>ev_event_type = ''position_close_initiated'', ev_severity = Sev_info,
            ev_structure_id = Some sid, ev_order_id = None, ev_position_id = Some pid,
            ev_payload = [(''position_id'', PInt pid), (''parent_structure_id'', PInt (b_structure_id pos)),
              (''n_legs'', PInt (int (length legs))), (''execution_mode'', PStr mode)]\<rparr> d4, sid))"

datatype dispatch_answer = Engine_status int | Engine_error
datatype dispatch_report = Deferred | Dispatched int | Dispatch_error

datatype close_outcome = Close_skipped position_state | Close_initiated int nat dispatch_report

definition initiate_position_close ::
  "time \<Rightarrow> int \<Rightarrow> int option \<Rightarrow> string \<Rightarrow> dispatch_answer \<Rightarrow> db \<Rightarrow> db \<times> close_outcome result" where
  "initiate_position_close now pid alert mode answer d =
     (case tget (t_positions d) pid of
        None \<Rightarrow> (d, Inl (ValueError ''position not found''))
      | Some pos \<Rightarrow>
          if b_state pos \<noteq> P_open then (d, Inr (Close_skipped (b_state pos)))
          else
            (case build_closing_legs (map (\<lambda>(k, r). entry_snapshot r) (position_entries d (b_structure_id pos))) of
               Inl e \<Rightarrow> (d, Inl e)
             | Inr legs \<Rightarrow>
                 (case record_position_close now pid alert mode pos legs d of
                    (d', sid) \<Rightarrow>
                      (d', Inr (Close_initiated sid (length legs)
                             (if mode = ''live''
                              then (case answer of Engine_status code \<Rightarrow> Dispatched code | Engine_error \<Rightarrow> Dispatch_error)
                              else Deferred))))))"

section \<open>Facts\<close>

lemma next_id_tins: "next_id (tins r t) = next_id t + 1"
proof -
  have "foldr (\<lambda>(i, r) m. max (i + 1) m) t (max (n + 1) 1) = max (next_id t) (n + 1)" for n
    by (induction t) (auto simp: next_id_def)
  from this [of "next_id t"] show ?thesis by (simp add: tins_def next_id_def)
qed

lemma foldl_tins_old:
  "tget t k = Some r \<Longrightarrow> tget (foldl (\<lambda>t x. tins (f x) t) t xs) k = Some r"
  by (induction xs arbitrary: t) (simp_all add: tbl.get_ins_other)

lemma foldl_tins_new:
  "tget (foldl (\<lambda>t x. tins (f x) t) t xs) k = Some r \<Longrightarrow> tget t k = Some r \<or> (\<exists>x \<in> set xs. r = f x)"
proof (induction xs arbitrary: t)
  case (Cons x xs)
  then have "tget (tins (f x) t) k = Some r \<or> (\<exists>y \<in> set xs. r = f y)" by simp
  then show ?case by (auto simp: tbl.get_ins split: if_splits)
qed simp

lemma twhere_foldl_tins:
  "map snd (twhere P (foldl (\<lambda>t x. tins (f x) t) t xs)) = map snd (twhere P t) @ filter P (map f xs)"
  by (induction xs arbitrary: t) (simp_all add: twhere_tins)

lemma close_row_sel [simp]:
  "o_structure_id (close_row now sid g l) = sid" "o_order_role (close_row now sid g l) = Closing"
  "o_state (close_row now sid g l) = Pending" "o_side (close_row now sid g l) = cg_side l"
  "o_qty (close_row now sid g l) = cg_qty l" "o_qty_filled (close_row now sid g l) = 0"
  "o_closes_order_id (close_row now sid g l) = g (cg_leg_idx l)" "o_leg_idx (close_row now sid g l) = cg_leg_idx l"
  by (simp_all add: close_row_def)

lemma reserved_demand_rows:
  "reserved_demand d e = sum_list (map (\<lambda>r. max (o_qty r - o_qty_filled r) 0)
     (map snd (twhere (\<lambda>r. o_closes_order_id r = Some e \<and> o_order_role r = Closing \<and> o_state r \<in> set NON_TERMINAL) (t_orders d))))"
  by (simp add: reserved_demand_def case_prod_unfold comp_def)

lemma demand_add_close_orders:
  "reserved_demand (add_close_orders now sid g legs d) e =
     reserved_demand d e + sum_list (map (\<lambda>l. max (cg_qty l) 0) (filter (\<lambda>l. g (cg_leg_idx l) = Some e) legs))"
proof -
  have "filter (\<lambda>r. o_closes_order_id r = Some e \<and> o_order_role r = Closing \<and> o_state r \<in> set NON_TERMINAL)
      (map (close_row now sid g) legs) = map (close_row now sid g) (filter (\<lambda>l. g (cg_leg_idx l) = Some e) legs)"
    by (induction legs) (simp_all add: NON_TERMINAL_def)
  then show ?thesis
    unfolding reserved_demand_rows
    by (simp add: add_close_orders_def twhere_foldl_tins comp_def)
qed

lemma reserve_entries_simps [simp]:
  "t_orders (reserve_entries now es d) = t_orders d" "t_positions (reserve_entries now es d) = t_positions d"
  "t_structures (reserve_entries now es d) = t_structures d" "t_alerts (reserve_entries now es d) = t_alerts d"
  unfolding reserve_entries_def by (induction es arbitrary: d) simp_all

lemma reserve_entries_reserved:
  "reserved_of (reserve_entries now es d) e = (if e \<in> set es then of_int (reserved_demand d e) else reserved_of d e)"
proof (induction es arbitrary: d)
  case (Cons x es)
  have "reserved_demand (recompute_reservation now x d) = reserved_demand d"
    by (rule reserved_demand_cong) simp
  with Cons [of "recompute_reservation now x d"] show ?case
    by (auto simp: reserve_entries_def reserved_of_recompute)
qed (simp add: reserve_entries_def)

text \<open>What the transaction leaves.\<close>

lemma record_position_close_spec:
  assumes "record_position_close now pid alert mode pos legs d = (d', sid)"
  shows "sid = next_id (t_structures d) \<and>
    t_orders d' = t_orders (add_close_orders now sid (entry_by_leg (position_entries d (b_structure_id pos))) legs d) \<and>
    t_positions d' = tupd pid (\<lambda>p. p\<lparr>b_state := P_closing\<rparr>) (t_positions d) \<and>
    (\<forall>e. reserved_of d' e =
      (if e \<in> set (touched_entries (entry_by_leg (position_entries d (b_structure_id pos))) legs)
       then of_int (reserved_demand (add_close_orders now sid (entry_by_leg (position_entries d (b_structure_id pos))) legs d) e)
       else reserved_of d e))"
proof -
  let ?g = "entry_by_leg (position_entries d (b_structure_id pos))"
  let ?t = "tins (close_structure_row now mode (tget (t_structures d) (b_structure_id pos))) (t_structures d)"
  let ?d2 = "add_close_orders now sid ?g legs (d\<lparr>t_structures := ?t\<rparr>)"
  have "reserved_of (reserve_entries now (touched_entries ?g legs) ?d2) e =
      (if e \<in> set (touched_entries ?g legs) then of_int (reserved_demand ?d2 e) else reserved_of ?d2 e)" for e
    by (rule reserve_entries_reserved)
  moreover have "reserved_demand ?d2 e = reserved_demand (add_close_orders now sid ?g legs d) e" "reserved_of ?d2 e = reserved_of d e" for e
    by (simp_all add: reserved_demand_def add_close_orders_def reserved_of_def)
  moreover have "t_legs d' = t_legs (reserve_entries now (touched_entries ?g legs) ?d2)" "sid = next_id (t_structures d)"
      "t_orders d' = t_orders ?d2" "t_positions d' = tupd pid (\<lambda>p. p\<lparr>b_state := P_closing\<rparr>) (t_positions d)"
    using assms by (auto simp: record_position_close_def Let_def link_alert_def mark_closing_def add_close_orders_def
        split: option.splits)
  moreover have "t_orders ?d2 = t_orders (add_close_orders now sid ?g legs d)" by (simp add: add_close_orders_def)
  ultimately show ?thesis by (simp add: reserved_of_def)
qed

lemma closing_loop_map:
  "closing_loop es = Inr cs \<Longrightarrow>
     cs = map (\<lambda>e. closing_leg_of e (the (opposite (py_upper (en_side e))))) (filter (\<lambda>e. 0 < en_qty_filled e) es) \<and>
     (\<forall>e \<in> set es. 0 < en_qty_filled e \<longrightarrow> opposite (py_upper (en_side e)) \<noteq> None)"
  by (induction es arbitrary: cs) (auto split: if_splits option.splits sum.splits)

lemma entry_by_leg_of:
  assumes "distinct (map (\<lambda>(k, r). o_leg_idx r) es)" and "(k, r) \<in> set es"
  shows "entry_by_leg es (o_leg_idx r) = Some k"
proof -
  have "map fst (rev (map (\<lambda>(k, r). (o_leg_idx r, k)) es)) = rev (map (\<lambda>(k, r). o_leg_idx r) es)"
    by (simp add: rev_map comp_def split_beta)
  then have "distinct (map fst (rev (map (\<lambda>(k, r). (o_leg_idx r, k)) es)))" using assms(1) by simp
  then show ?thesis
    unfolding entry_by_leg_def by (rule map_of_is_SomeI) (use assms(2) in force)
qed

lemma entry_by_leg_mem: "entry_by_leg es i = Some k \<Longrightarrow> \<exists>r. (k, r) \<in> set es \<and> o_leg_idx r = i"
  unfolding entry_by_leg_def by (drule map_of_SomeD) auto

lemma entry_snapshot_sel [simp]:
  "en_leg_idx (entry_snapshot r) = o_leg_idx r" "en_qty_filled (entry_snapshot r) = o_qty_filled r"
  "en_side (entry_snapshot r) = o_side r" "en_contract_type (entry_snapshot r) = o_contract_type r"
  by (simp_all add: entry_snapshot_def)

lemma closing_leg_of_sel [simp]:
  "cg_leg_idx (closing_leg_of e s) = en_leg_idx e" "cg_qty (closing_leg_of e s) = en_qty_filled e"
  "cg_side (closing_leg_of e s) = s" "cg_contract_type (closing_leg_of e s) = en_contract_type e"
  by (simp_all add: closing_leg_of_def)

lemma position_entries_mem:
  "(k, r) \<in> set (position_entries d sid) \<longleftrightarrow> (k, r) \<in> set (t_orders d) \<and> o_structure_id r = sid \<and> o_order_role r = Entry"
  by (simp add: position_entries_def)

lemma position_entries_distinct: "table_ok (t_orders d) \<Longrightarrow> distinct (map fst (position_entries d sid))"
proof -
  assume ok: "table_ok (t_orders d)"
  have "distinct (map fst (filter P (t_orders d)))" for P
    using ok by (simp add: table_ok_def keys_of_def distinct_map_filter)
  then have "distinct (map fst (twhere P (t_orders d)))" for P by (simp add: twhere_def)
  then show ?thesis by (simp add: position_entries_def distinct_map)
qed

text \<open>The share of one entry in the closing legs.\<close>

lemma legs_of_entry:
  assumes es: "distinct (map (\<lambda>(k, r). o_leg_idx r) es)" "distinct (map fst es)"
    and legs: "closing_loop (map (\<lambda>(k, r). entry_snapshot r) es) = Inr legs"
    and mem: "(k, r) \<in> set es" "0 < o_qty_filled r"
  shows "sum_list (map (\<lambda>l. max (cg_qty l) 0) (filter (\<lambda>l. entry_by_leg es (cg_leg_idx l) = Some k) legs)) = o_qty_filled r"
proof -
  let ?c = "\<lambda>(k, r). closing_leg_of (entry_snapshot r) (the (opposite (py_upper (o_side r))))"
  have "legs = map ?c (filter (\<lambda>(k, r). 0 < o_qty_filled r) es)"
    using closing_loop_map [OF legs] by (simp add: filter_map comp_def case_prod_unfold)
  then have "filter (\<lambda>l. entry_by_leg es (cg_leg_idx l) = Some k) legs =
      map ?c (filter (\<lambda>(k', r'). 0 < o_qty_filled r' \<and> entry_by_leg es (o_leg_idx r') = Some k) es)"
    by (simp add: filter_map comp_def case_prod_unfold conj_commute)
  also have "filter (\<lambda>(k', r'). 0 < o_qty_filled r' \<and> entry_by_leg es (o_leg_idx r') = Some k) es =
      filter (\<lambda>(k', r'). k' = k) es"
  proof (rule filter_cong [OF HOL.refl])
    fix x assume x: "x \<in> set es"
    obtain k' r' where kr: "x = (k', r')" by (cases x)
    have "k' = k \<Longrightarrow> r' = r" using eq_key_imp_eq_value [OF es(2)] x mem(1) kr by blast
    with entry_by_leg_of [OF es(1)] x kr mem
    show "(case x of (k', r') \<Rightarrow> 0 < o_qty_filled r' \<and> entry_by_leg es (o_leg_idx r') = Some k) = (case x of (k', r') \<Rightarrow> k' = k)"
      by auto
  qed
  also have "\<dots> = [(k, r)]"
    using es(2) mem(1)
  proof (induction es)
    case (Cons y ys)
    obtain k1 r1 where y: "y = (k1, r1)" by (cases y)
    show ?case
    proof (cases "k1 = k")
      case True
      with Cons.prems y have "k \<notin> fst ` set ys" "(k1, r1) = (k, r)" by (auto simp: rev_image_eqI)
      then have "filter (\<lambda>(k', r'). k' = k) ys = []" by (force simp: filter_empty_conv)
      with \<open>(k1, r1) = (k, r)\<close> y show ?thesis by simp
    next
      case False
      with Cons y show ?thesis by auto
    qed
  qed simp
  finally show ?thesis using mem(2) by simp
qed

section \<open>Property\<close>

lemma initiate_cases:
  assumes "initiate_position_close now pid alert mode answer d = (d', Inr (Close_initiated sid n rep))"
    and "tget (t_positions d) pid = Some pos"
  shows "b_state pos = P_open \<and> (\<exists>legs.
    closing_loop (map (\<lambda>(k, r). entry_snapshot r) (position_entries d (b_structure_id pos))) = Inr legs \<and>
    record_position_close now pid alert mode pos legs d = (d', sid) \<and> n = length legs)"
  using assms
  by (auto simp: initiate_position_close_def build_closing_legs_def split: if_splits sum.splits prod.splits)

lemma reserved_after_close:
  assumes legs: "closing_loop (map (\<lambda>(k, r). entry_snapshot r) (position_entries d (b_structure_id pos))) = Inr legs"
    and rec: "record_position_close now pid alert mode pos legs d = (d', sid)"
    and ok: "table_ok (t_orders d)" "distinct (map (\<lambda>(k, r). o_leg_idx r) (position_entries d (b_structure_id pos)))"
    and r: "tget (t_orders d) k = Some r" "o_structure_id r = b_structure_id pos" "o_order_role r = Entry" "0 < o_qty_filled r"
  shows "reserved_of d' k = of_int (reserved_demand d' k) \<and> reserved_demand d' k = reserved_demand d k + o_qty_filled r"
proof -
  let ?es = "position_entries d (b_structure_id pos)"
  let ?g = "entry_by_leg ?es"
  note spec = record_position_close_spec [OF rec]
  have mem: "(k, r) \<in> set ?es" using r tget_in [OF r(1)] by (simp add: position_entries_mem)
  let ?l = "closing_leg_of (entry_snapshot r) (the (opposite (py_upper (o_side r))))"
  have "?l \<in> set legs" using closing_loop_map [OF legs] mem r(4) by force
  moreover have "?g (cg_leg_idx ?l) = Some k" using entry_by_leg_of [OF ok(2) mem] by simp
  ultimately have "k \<in> set (touched_entries ?g legs)"
    by (force simp: touched_entries_def List.map_filter_def)
  then have "reserved_of d' k = of_int (reserved_demand (add_close_orders now sid ?g legs d) k)" using spec by simp
  moreover have "reserved_demand (add_close_orders now sid ?g legs d) k = reserved_demand d k + o_qty_filled r"
    using legs_of_entry [OF ok(2) position_entries_distinct [OF ok(1)] legs mem r(4)]
    by (simp add: demand_add_close_orders)
  moreover have "reserved_demand d' k = reserved_demand (add_close_orders now sid ?g legs d) k"
    using spec by (simp add: reserved_demand_def)
  ultimately show ?thesis by simp
qed

text \<open>
  C18. An automatic close closes the whole position once: the position is marked closing, no
  existing order changes, every order it adds is a pending closing order of the new
  structure that trades exactly the filled quantity of one entry leg on its opposite side
  and is linked to it, every filled leg's reservation grows by its filled quantity and
  equals the demand of its closing orders, and a second request is skipped.
\<close>

theorem position_close_complete:
  assumes "initiate_position_close now pid alert mode answer d = (d', Inr (Close_initiated sid n rep))"
    and "tget (t_positions d) pid = Some pos" and "table_ok (t_orders d)"
    and "distinct (map (\<lambda>(k, r). o_leg_idx r) (position_entries d (b_structure_id pos)))"
  shows "map_option b_state (tget (t_positions d') pid) = Some P_closing \<and>
    (\<forall>k r. tget (t_orders d) k = Some r \<longrightarrow> tget (t_orders d') k = Some r) \<and>
    (\<forall>k r. tget (t_orders d') k = Some r \<and> tget (t_orders d) k = None \<longrightarrow>
       o_structure_id r = sid \<and> o_order_role r = Closing \<and> o_state r = Pending \<and>
       (\<exists>e x. o_closes_order_id r = Some e \<and> tget (t_orders d) e = Some x \<and> o_order_role x = Entry \<and>
          o_structure_id x = b_structure_id pos \<and> o_qty r = o_qty_filled x \<and> 0 < o_qty r \<and>
          opposite (py_upper (o_side x)) = Some (o_side r))) \<and>
    (\<forall>k r. tget (t_orders d) k = Some r \<and> o_structure_id r = b_structure_id pos \<and> o_order_role r = Entry \<and>
       0 < o_qty_filled r \<longrightarrow>
       reserved_of d' k = of_int (reserved_demand d' k) \<and> reserved_demand d' k = reserved_demand d k + o_qty_filled r) \<and>
    initiate_position_close now' pid alert' mode' answer' d' = (d', Inr (Close_skipped P_closing))"
proof -
  let ?es = "position_entries d (b_structure_id pos)"
  let ?g = "entry_by_leg ?es"
  from initiate_cases [OF assms(1,2)] obtain legs where legs: "closing_loop (map (\<lambda>(k, r). entry_snapshot r) ?es) = Inr legs"
    and rec: "record_position_close now pid alert mode pos legs d = (d', sid)" by blast
  note spec = record_position_close_spec [OF rec]
  then have ords: "t_orders d' = foldl (\<lambda>t leg. tins (close_row now sid ?g leg) t) (t_orders d) legs"
    by (simp add: add_close_orders_def)
  have pos': "map_option b_state (tget (t_positions d') pid) = Some P_closing"
    using spec assms(2) by (simp add: tget_simps)
  have new: "o_structure_id r = sid \<and> o_order_role r = Closing \<and> o_state r = Pending \<and>
       (\<exists>e x. o_closes_order_id r = Some e \<and> tget (t_orders d) e = Some x \<and> o_order_role x = Entry \<and>
          o_structure_id x = b_structure_id pos \<and> o_qty r = o_qty_filled x \<and> 0 < o_qty r \<and>
          opposite (py_upper (o_side x)) = Some (o_side r))"
    if r: "tget (t_orders d') k = Some r" "tget (t_orders d) k = None" for k r
  proof -
    from foldl_tins_new [OF r(1) [unfolded ords]] r(2) obtain l where l: "l \<in> set legs" "r = close_row now sid ?g l" by auto
    with closing_loop_map [OF legs] obtain e x where x: "(e, x) \<in> set ?es" "0 < o_qty_filled x"
      "l = closing_leg_of (entry_snapshot x) (the (opposite (py_upper (o_side x))))" "opposite (py_upper (o_side x)) \<noteq> None"
      by fastforce
    moreover have "tget (t_orders d) e = Some x" "o_order_role x = Entry" "o_structure_id x = b_structure_id pos"
      using x(1) in_tget [OF assms(3)] by (simp_all add: position_entries_mem)
    moreover have "?g (o_leg_idx x) = Some e" by (rule entry_by_leg_of [OF assms(4) x(1)])
    ultimately show ?thesis using l(2) by auto
  qed
  have res: "reserved_of d' k = of_int (reserved_demand d' k) \<and> reserved_demand d' k = reserved_demand d k + o_qty_filled r"
    if r: "tget (t_orders d) k = Some r" "o_structure_id r = b_structure_id pos" "o_order_role r = Entry" "0 < o_qty_filled r" for k r
    by (rule reserved_after_close [OF legs rec assms(3,4) r])
  obtain p' where "tget (t_positions d') pid = Some p'" "b_state p' = P_closing" using pos' by auto
  then have "initiate_position_close now' pid alert' mode' answer' d' = (d', Inr (Close_skipped P_closing))"
    by (simp add: initiate_position_close_def)
  with pos' new res show ?thesis by (auto simp: ords foldl_tins_old)
qed

text \<open>
  The close does not look at the reservations: with a closing order already in flight on a
  leg, the two together reserve more than the leg ever filled.
\<close>

lemma position_close_over_reserves:
  assumes "initiate_position_close now pid alert mode answer d = (d', Inr (Close_initiated sid n rep))"
    and "tget (t_positions d) pid = Some pos" and "table_ok (t_orders d)"
    and "distinct (map (\<lambda>(k, r). o_leg_idx r) (position_entries d (b_structure_id pos)))"
    and "tget (t_orders d) k = Some r" "o_structure_id r = b_structure_id pos" "o_order_role r = Entry" "0 < o_qty_filled r"
    and "0 < reserved_demand d k"
  shows "of_int (o_qty_filled r) < reserved_of d' k"
proof -
  from initiate_cases [OF assms(1,2)] obtain legs where
    "closing_loop (map (\<lambda>(k, r). entry_snapshot r) (position_entries d (b_structure_id pos))) = Inr legs"
    "record_position_close now pid alert mode pos legs d = (d', sid)" by blast
  from reserved_after_close [OF this assms(3-8)] assms(9) show ?thesis by simp
qed

definition filled_position :: db where
  "filled_position = empty_db\<lparr>
     t_orders := [(1, (new_order_row 0 5 0 Entry ''call'' BUY 2 Filled)\<lparr>o_qty_filled := 2\<rparr>)],
     t_positions := [(3, \<lparr>b_structure_id = 5, b_opened_at = 0, b_entry_premium_usd = 400,
        b_entry_total_cost_usd = 12, b_state = P_open, b_entry_vega_usd_per_volpt = None,
        b_entry_gamma_usd_per_pip2 = None, b_entry_theta_usd_per_day = None, b_closed_at = None,
        b_close_reason = None, b_exit_premium_usd = None, b_exit_total_cost_usd = None,
        b_gross_pnl_usd = None, b_net_pnl_usd = None, b_ib_reconciled_at = None,
        b_ib_qty_total = None, b_ib_qty_diff = None, b_state_updated_at = 0,
        b_entry_spot = None, b_entry_iv_avg = None\<rparr>)]\<rparr>"

theorem position_close_complete_witness:
  "\<exists>d' sid n rep. initiate_position_close 9 3 None ''live'' Engine_error filled_position = (d', Inr (Close_initiated sid n rep)) \<and>
     reserved_of d' 1 = 2 \<and> map_option b_state (tget (t_positions d') 3) = Some P_closing"
proof -
  have entries: "position_entries filled_position 5 = [(1, (new_order_row 0 5 0 Entry ''call'' BUY 2 Filled)\<lparr>o_qty_filled := 2\<rparr>)]"
    by (simp add: position_entries_def filled_position_def twhere_def)
  obtain pos where pos: "tget (t_positions filled_position) 3 = Some pos" "b_structure_id pos = 5" "b_state pos = P_open"
    by (simp add: filled_position_def tget_def)
  have "\<exists>legs. build_closing_legs (map (\<lambda>(k, r). entry_snapshot r) (position_entries filled_position (b_structure_id pos))) = Inr legs"
    unfolding pos(2) entries by (simp add: build_closing_legs_def)
  then obtain legs where legs:
    "build_closing_legs (map (\<lambda>(k, r). entry_snapshot r) (position_entries filled_position (b_structure_id pos))) = Inr legs" ..
  obtain d' sid where rec: "record_position_close 9 3 None ''live'' pos legs filled_position = (d', sid)"
    by (cases "record_position_close 9 3 None ''live'' pos legs filled_position")
  define n rep where "n = length legs" and "rep = Dispatch_error"
  have c: "initiate_position_close 9 3 None ''live'' Engine_error filled_position = (d', Inr (Close_initiated sid n rep))"
    using pos(1,3) legs rec by (simp add: initiate_position_close_def n_def rep_def)
  have ok: "table_ok (t_orders filled_position)" "tget (t_orders filled_position) 1 =
      Some ((new_order_row 0 5 0 Entry ''call'' BUY 2 Filled)\<lparr>o_qty_filled := 2\<rparr>)" "reserved_demand filled_position 1 = 0"
    by (simp_all add: filled_position_def table_ok_def keys_of_def tget_def reserved_demand_def twhere_def)
  have "distinct (map (\<lambda>(k, r). o_leg_idx r) (position_entries filled_position (b_structure_id pos)))"
    unfolding pos(2) entries by simp
  note complete = position_close_complete [OF c pos(1) ok(1) this]
  note grown = complete [THEN conjunct2, THEN conjunct2, THEN conjunct2, THEN conjunct1, THEN spec [of _ 1], THEN spec, THEN mp]
  have "reserved_of d' 1 = 2" using grown [OF conjI [OF ok(2)]] pos(2) ok(3) by simp
  with c complete [THEN conjunct1] show ?thesis by blast
qed

end
