(* ===== verification/Position_Monitor.thy ===== *)
theory Position_Monitor
  imports Position_Pricing Exit_Rules Delta_Hedge Close_Finaliser Position_Close Py_Text
begin

text \<open>
  The position monitor (\<open>api/orchestration/position_monitor.py\<close>): per cycle and open
  position, re-price, attribute the result, record it, evaluate the exit rules with a
  cooldown on alerts, and decide the delta hedge net of what is in flight. What the cycle
  stages for after its commit is kept in the state. The market snapshot read from the cache
  and the rows read from the analytics tables are arguments. A date is its ordinal.
\<close>

section \<open>State and inputs\<close>

record signal_track =
  sg_triggering_pc :: int
  sg_current_z :: flt
  sg_current_label :: string
  sg_entry_z :: flt
  sg_entry_label :: string
  sg_weakening_ratio :: "flt option"
  sg_sign_flipped :: bool
  sg_status :: string

record metric_row =
  mx_position_id :: int
  mx_timestamp :: time
  mx_spot :: flt
  mx_iv_pct :: flt
  mx_pnl_gross :: flt
  mx_pnl_net :: flt
  mx_attribution :: pnl_attribution
  mx_vega :: "flt option"
  mx_gamma :: "flt option"
  mx_theta :: "flt option"
  mx_delta :: "flt option"
  mx_signal :: "signal_track option"

record monitor =
  mo_db :: db
  mo_metrics :: "metric_row list"
  mo_pending_hedge_ids :: "int list"
  mo_pending_close_alerts :: "(int \<times> int \<times> string) list"
  mo_position_updates :: "payload list"
  mo_exit_alerts :: "payload list"

record monitor_config =
  mc_alert_cooldown_s :: flt
  mc_execute_hedge :: bool
  mc_auto_execute :: bool

record monitor_inputs =
  mi_normal :: normal
  mi_icdf :: "flt \<Rightarrow> flt"
  mi_surface :: "surface option"
  mi_spot :: "flt option"
  mi_iv_pct :: "flt option"
  mi_signals :: "(int \<times> current_signal) list"
  mi_regime :: "string option"

section \<open>Reads\<close>

text \<open>\<open>now.date()\<close> as an ordinal; 719163 is 1970-01-01.\<close>

definition day_of :: "time \<Rightarrow> int" where
  "day_of t = \<lfloor>t / 86400\<rfloor> + 719163"

record signal_row =
  pz_symbol :: string
  pz_timestamp :: time
  pz_pc_id :: int
  pz_z_score :: flt
  pz_label :: string

fun first_per_pc :: "signal_row list \<Rightarrow> (int \<times> current_signal) list \<Rightarrow> (int \<times> current_signal) list" where
  "first_per_pc [] out = out"
| "first_per_pc (r # rs) out =
     first_per_pc rs
       (if pz_pc_id r \<in> set (map fst out) then out
        else out @ [(pz_pc_id r, \<lparr>cs_pc_id = pz_pc_id r, cs_z_score = pz_z_score r, cs_label = pz_label r\<rparr>)])"

definition load_current_signals :: "string \<Rightarrow> signal_row list \<Rightarrow> (int \<times> current_signal) list" where
  "load_current_signals sy rows =
     first_per_pc (take 50 (sort_key (\<lambda>r. - pz_timestamp r) (filter (\<lambda>r. pz_symbol r = sy) rows))) []"

definition load_latest_regime :: "string \<Rightarrow> (string \<times> time \<times> string) list \<Rightarrow> string option" where
  "load_latest_regime sy rows =
     (case sort_key (\<lambda>(s, t, l). - t) (filter (\<lambda>(s, t, l). s = sy) rows) of
        [] \<Rightarrow> None | (s, t, l) # _ \<Rightarrow> Some l)"

definition HEDGE_DEFAULTS :: "(string \<times> flt) list" where
  "HEDGE_DEFAULTS = [(''rebalance_threshold_delta'', 5 / 100), (''min_hedge_qty'', 1),
     (''max_hedge_frequency_seconds'', 300), (''hedge_during_close'', 0)]"

definition load_hedge_config :: "db \<Rightarrow> (string \<times> flt) list" where
  "load_hedge_config d =
     rev (map (\<lambda>(k, r). (c_name r, c_value r)) (twhere (\<lambda>r. c_namespace r = ''delta_hedge'') (t_scalars d))) @ HEDGE_DEFAULTS"

definition cfg_value :: "(string \<times> flt) list \<Rightarrow> string \<Rightarrow> flt" where
  "cfg_value cfg n = (case map_of cfg n of None \<Rightarrow> 0 | Some v \<Rightarrow> v)"

definition recent_alert_exists :: "flt \<Rightarrow> db \<Rightarrow> int \<Rightarrow> string \<Rightarrow> time \<Rightarrow> bool" where
  "recent_alert_exists cooldown d pid rule_name now =
     (\<exists>(k, a) \<in> set (t_alerts d). ea_position_id a = pid \<and> ea_rule_triggered a = Some rule_name \<and>
        now - cooldown < ea_timestamp a)"

section \<open>The legs and their mark\<close>

text \<open>\<open>min\<close> over the pillars: the first of the nearest.\<close>

definition PILLARS :: "(string \<times> int) list" where
  "PILLARS = [(''1M'', 30), (''2M'', 60), (''3M'', 90), (''6M'', 180)]"

definition nearest_pillar :: "int \<Rightarrow> string" where
  "nearest_pillar days =
     fst (foldl (\<lambda>b p. if \<bar>snd p - days\<bar> < \<bar>snd b - days\<bar> then p else b) (hd PILLARS) (tl PILLARS))"

definition tenor_from_expiry :: "int \<Rightarrow> time \<Rightarrow> string" where
  "tenor_from_expiry expiry now = nearest_pillar (max 1 (expiry - day_of now))"

definition effective_qty :: "order_row \<Rightarrow> int" where
  "effective_qty r = (if 0 < o_qty_filled r then o_qty_filled r else o_qty r)"

definition leg_of_order :: "time \<Rightarrow> order_row \<Rightarrow> leg_spec option" where
  "leg_of_order now r =
     (case (o_contract_strike r, o_contract_expiry r) of
        (Some k, Some e) \<Rightarrow>
          if effective_qty r \<le> 0 then None
          else Some \<lparr>ls_leg_idx = o_leg_idx r, ls_contract_type = o_contract_type r, ls_strike = k,
                 ls_expiry = ordinal e, ls_tenor = tenor_from_expiry (ordinal e) now, ls_side = o_side r,
                 ls_qty = effective_qty r,
                 ls_fallback_iv = (case o_preview_iv_pct r of None \<Rightarrow> None
                                   | Some v \<Rightarrow> if v = 0 then None else Some (v / 100))\<rparr>
      | _ \<Rightarrow> None)"

definition reprice_position :: "monitor_inputs \<Rightarrow> db \<Rightarrow> int \<Rightarrow> flt \<Rightarrow> time \<Rightarrow> position_mark option" where
  "reprice_position inp d sid spot now =
     (let legs = List.map_filter (\<lambda>(k, r). leg_of_order now r) (position_entries d sid)
      in if legs = [] then None
         else Some (price_position \<lparr>mk_normal = mi_normal inp, mk_icdf = mi_icdf inp, mk_surface = mi_surface inp,
                mk_spot = spot, mk_today = day_of now, mk_multiplier = EUR_FOP_MULTIPLIER\<rparr> legs))"

definition days_remaining :: "structure_row \<Rightarrow> time \<Rightarrow> int" where
  "days_remaining s now = (case s_expiry_date s of None \<Rightarrow> 90 | Some e \<Rightarrow> max 0 (ordinal e - day_of now))"

definition dte_at_entry :: "structure_row \<Rightarrow> time \<Rightarrow> int" where
  "dte_at_entry s opened_at = (case s_expiry_date s of None \<Rightarrow> 90 | Some e \<Rightarrow> max 1 (ordinal e - day_of opened_at))"

section \<open>Valuation\<close>

text \<open>\<open>x or y\<close> on an optional float: 0 counts as missing.\<close>

definition flt_or :: "flt option \<Rightarrow> flt \<Rightarrow> flt" where
  "flt_or x y = (case x of None \<Rightarrow> y | Some v \<Rightarrow> if v = 0 then y else v)"

definition spot_effective :: "monitor_inputs \<Rightarrow> position_row \<Rightarrow> flt" where
  "spot_effective inp p = (case mi_spot inp of None \<Rightarrow> flt_or (b_entry_spot p) (1085 / 1000) | Some s \<Rightarrow> s)"

definition iv_effective :: "monitor_inputs \<Rightarrow> position_row \<Rightarrow> flt" where
  "iv_effective inp p = (case mi_iv_pct inp of None \<Rightarrow> flt_or (b_entry_iv_avg p) 7 | Some v \<Rightarrow> v)"

record valuation =
  va_mark :: flt
  va_vega :: "flt option"
  va_gamma :: "flt option"
  va_theta :: "flt option"
  va_delta :: "flt option"
  va_attribution :: pnl_attribution

definition attribute_from_entry :: "monitor_inputs \<Rightarrow> position_row \<Rightarrow> time \<Rightarrow> flt \<Rightarrow> pnl_attribution" where
  "attribute_from_entry inp p now gross =
     (let s = spot_effective inp p; v = iv_effective inp p
      in attribute_pnl gross (flt_or0 (b_entry_vega_usd_per_volpt p)) (flt_or0 (b_entry_gamma_usd_per_pip2 p))
           (flt_or0 (b_entry_theta_usd_per_day p)) (flt_or (b_entry_iv_avg p) v) v (flt_or (b_entry_spot p) s) s
           ((now - b_opened_at p) / 86400))"

definition live :: "position_mark option \<Rightarrow> bool" where
  "live m = (case m of None \<Rightarrow> False | Some x \<Rightarrow> pm_n_missing x = 0)"

text \<open>A usable mark, or the linear estimate from the entry greeks with the delta unknown.\<close>

definition valuation_of :: "monitor_inputs \<Rightarrow> position_row \<Rightarrow> time \<Rightarrow> position_mark option \<Rightarrow> valuation" where
  "valuation_of inp p now m =
     (case (live m, m) of
        (True, Some x) \<Rightarrow>
          \<lparr>va_mark = pm_mark x, va_vega = Some (pm_vega x), va_gamma = Some (pm_gamma x),
           va_theta = Some (pm_theta x), va_delta = Some (pm_delta x),
           va_attribution = attribute_from_entry inp p now (pm_mark x - b_entry_premium_usd p)\<rparr>
      | _ \<Rightarrow>
          (let a = attribute_from_entry inp p now 0
           in \<lparr>va_mark = b_entry_premium_usd p + (pa_vega_usd a + pa_gamma_usd a + pa_theta_usd a),
               va_vega = b_entry_vega_usd_per_volpt p, va_gamma = b_entry_gamma_usd_per_pip2 p,
               va_theta = b_entry_theta_usd_per_day p, va_delta = None, va_attribution = a\<rparr>))"

section \<open>Signals\<close>

definition signal_status :: "flt \<Rightarrow> bool \<Rightarrow> flt option \<Rightarrow> string" where
  "signal_status current_z flipped ratio =
     (if flipped \<or> \<bar>current_z\<bar> < 1/2 then ''EXIT''
      else case ratio of Some x \<Rightarrow> if x < 1/2 then ''TRIM'' else ''HOLD'' | None \<Rightarrow> ''HOLD'')"

definition track_signal :: "structure_row \<Rightarrow> (int \<times> current_signal) list \<Rightarrow> signal_track option" where
  "track_signal s signals =
     (case (s_triggering_pc s, s_armed_z_score s) of
        (Some pc, Some ez) \<Rightarrow>
          (case map_of signals pc of
             None \<Rightarrow> None
           | Some cur \<Rightarrow>
               let cz = cs_z_score cur;
                   ratio = (if 1 / 10 ^ 9 < \<bar>ez\<bar> then Some (\<bar>cz\<bar> / \<bar>ez\<bar>) else None);
                   flipped = ((0 < ez) \<noteq> (0 < cz))
               in Some \<lparr>sg_triggering_pc = pc, sg_current_z = cz, sg_current_label = cs_label cur,
                    sg_entry_z = ez,
                    sg_entry_label = (if str_or (s_armed_signal_label s) = [] then ''FAIR'' else str_or (s_armed_signal_label s)),
                    sg_weakening_ratio = ratio, sg_sign_flipped = flipped,
                    sg_status = signal_status cz flipped ratio\<rparr>)
      | _ \<Rightarrow> None)"

section \<open>One position\<close>

definition record_metric ::
  "monitor_inputs \<Rightarrow> time \<Rightarrow> int \<Rightarrow> position_row \<Rightarrow> structure_row \<Rightarrow> valuation \<Rightarrow> mtm_result \<Rightarrow> flt \<Rightarrow> monitor \<Rightarrow> monitor" where
  "record_metric inp now pid p s v mtm cost m =
     m\<lparr>mo_position_updates := mo_position_updates m @
         [[(''position_id'', PInt pid), (''structure_id'', PInt (b_structure_id p)),
           (''spot'', PFlt (spot_effective inp p)), (''iv_avg_pct'', PFlt (iv_effective inp p)),
           (''current_pnl_gross_usd'', PFlt (mr_pnl_gross_usd mtm)), (''current_pnl_net_usd'', PFlt (mr_pnl_net_usd mtm)),
           (''current_vega_usd_per_volpt'', p_opt_flt (va_vega v)), (''current_gamma_usd_per_pip2'', p_opt_flt (va_gamma v)),
           (''current_theta_usd_per_day'', p_opt_flt (va_theta v)), (''current_delta_unhedged'', p_opt_flt (va_delta v)),
           (''delta_unknown'', PBool (va_delta v = None)), (''hedge_cost_cumul_usd'', PFlt cost)]],
       mo_metrics := mo_metrics m @
         [\<lparr>mx_position_id = pid, mx_timestamp = now, mx_spot = spot_effective inp p, mx_iv_pct = iv_effective inp p,
           mx_pnl_gross = mr_pnl_gross_usd mtm, mx_pnl_net = mr_pnl_net_usd mtm, mx_attribution = va_attribution v,
           mx_vega = va_vega v, mx_gamma = va_gamma v, mx_theta = va_theta v, mx_delta = va_delta v,
           mx_signal = track_signal s (mi_signals inp)\<rparr>]\<rparr>"

fun action_name :: "exit_action option \<Rightarrow> string" where
  "action_name None = []"
| "action_name (Some EXIT) = ''EXIT''"
| "action_name (Some TRIM) = ''TRIM''"
| "action_name (Some ALERT_ONLY) = ''ALERT_ONLY''"

definition raise_alert :: "monitor_config \<Rightarrow> time \<Rightarrow> int \<Rightarrow> exit_decision \<Rightarrow> monitor \<Rightarrow> monitor" where
  "raise_alert cfg now pid w m =
     (let d = mo_db m; aid = next_id (t_alerts d)
      in m\<lparr>mo_db := d\<lparr>t_alerts := tins \<lparr>ea_position_id = pid, ea_rule_triggered = Some (ed_rule_name w),
               ea_execution_status = None, ea_closing_structure_id = None, ea_timestamp = now,
               ea_action_recommended = action_name (ed_action w), ea_priority = ed_priority w,
               ea_rule_detail = ed_detail w, ea_auto_executed = False\<rparr> (t_alerts d)\<rparr>,
           mo_exit_alerts := mo_exit_alerts m @
             [[(''position_id'', PInt pid), (''alert_id'', PInt aid), (''rule_triggered'', PStr (ed_rule_name w)),
               (''action_recommended'', PStr (action_name (ed_action w))), (''priority'', PInt (ed_priority w)),
               (''rule_detail'', PObj (ed_detail w))]],
           mo_pending_close_alerts := mo_pending_close_alerts m @
             (if ed_action w = Some EXIT \<and> mc_auto_execute cfg then [(pid, aid, ed_rule_name w)] else [])\<rparr>)"

definition alert_step ::
  "monitor_config \<Rightarrow> monitor_inputs \<Rightarrow> time \<Rightarrow> int \<Rightarrow> position_context \<Rightarrow> flt \<Rightarrow> monitor \<Rightarrow> monitor \<times> nat" where
  "alert_step cfg inp now pid ctx pnl m =
     (case pick_winning_decision (evaluate_all_rules EXIT_RULES ctx pnl (mi_signals inp) (mi_regime inp)) of
        None \<Rightarrow> (m, 0)
      | Some w \<Rightarrow>
          if recent_alert_exists (mc_alert_cooldown_s cfg) (mo_db m) pid (ed_rule_name w) now then (m, 0)
          else (raise_alert cfg now pid w m, 1))"

text \<open>The newest hedge of the position, and those in flight.\<close>

definition last_hedge_at :: "db \<Rightarrow> int \<Rightarrow> time option" where
  "last_hedge_at d pid =
     (case sort_key (\<lambda>(k, h). - h_triggered_at h) (twhere (\<lambda>h. h_position_id h = pid) (t_hedges d)) of
        [] \<Rightarrow> None | (k, h) # _ \<Rightarrow> Some (h_triggered_at h))"

definition pending_hedges :: "db \<Rightarrow> int \<Rightarrow> (string \<times> int) list" where
  "pending_hedges d pid =
     map (\<lambda>(k, h). (h_side h, h_hedge_qty h))
       (twhere (\<lambda>h. h_position_id h = pid \<and> h_state h \<in> {H_pending, H_submitted}) (t_hedges d))"

definition hedge_decision_of :: "db \<Rightarrow> int \<Rightarrow> flt option \<Rightarrow> time \<Rightarrow> hedge_decision" where
  "hedge_decision_of d pid delta now =
     (let cfg = load_hedge_config d
      in check_delta_hedge_needed (net_pending_hedge_delta delta (pending_hedges d pid))
           (cfg_value cfg ''rebalance_threshold_delta'') (py_trunc (cfg_value cfg ''min_hedge_qty''))
           (last_hedge_at d pid) (Some now) (cfg_value cfg ''max_hedge_frequency_seconds''))"

definition hedge_row_of :: "int \<Rightarrow> time \<Rightarrow> hedge_decision \<Rightarrow> hedge_row" where
  "hedge_row_of pid now h =
     \<lparr>h_position_id = pid, h_triggered_at = now, h_submitted_at = None, h_submit_claimed_at = None,
      h_filled_at = None, h_delta_imbalance_at_trigger = hd_delta_imbalance h,
      h_rebalance_threshold_used = hd_threshold_used h, h_hedge_qty = hd_hedge_qty h, h_side = hd_side h,
      h_ib_order_id = None, h_fill_price = None, h_commission_usd = None, h_spread_paid_usd = None,
      h_total_cost_usd = None, h_state = H_pending\<rparr>"

definition hedge_step_of :: "monitor_config \<Rightarrow> time \<Rightarrow> int \<Rightarrow> flt option \<Rightarrow> monitor \<Rightarrow> monitor \<times> nat" where
  "hedge_step_of cfg now pid delta m =
     (let d = mo_db m; h = hedge_decision_of d pid delta now in
      if hd_needs_hedge h
      then (m\<lparr>mo_db := d\<lparr>t_hedges := tins (hedge_row_of pid now h) (t_hedges d)\<rparr>,
              mo_pending_hedge_ids := mo_pending_hedge_ids m @
                (if mc_execute_hedge cfg then [next_id (t_hedges d)] else [])\<rparr>, 1)
      else (m, 0))"

definition context_of :: "int \<Rightarrow> position_row \<Rightarrow> structure_row \<Rightarrow> time \<Rightarrow> position_context" where
  "context_of pid p s now =
     \<lparr>pc_position_id = pid, pc_triggering_pc = s_triggering_pc s, pc_entry_z_score = s_armed_z_score s,
      pc_entry_vega = flt_or0 (b_entry_vega_usd_per_volpt p), pc_dte_at_entry = dte_at_entry s (b_opened_at p),
      pc_days_remaining = days_remaining s now\<rparr>"

definition monitor_one ::
  "monitor_config \<Rightarrow> monitor_inputs \<Rightarrow> time \<Rightarrow> int \<Rightarrow> position_row \<Rightarrow> monitor \<Rightarrow> monitor \<times> nat \<times> nat" where
  "monitor_one cfg inp now pid p m =
     (case tget (t_structures (mo_db m)) (b_structure_id p) of
        None \<Rightarrow> (m, 0, 0)
      | Some s \<Rightarrow>
          let spot = spot_effective inp p;
              v = valuation_of inp p now (reprice_position inp (mo_db m) (b_structure_id p) spot now);
              cost = hedge_cost (mo_db m) pid;
              mtm = compute_mtm (b_entry_premium_usd p) (va_mark v) (b_entry_total_cost_usd p) cost spot (iv_effective inp p);
              m1 = record_metric inp now pid p s v mtm cost m;
              (m2, alerts) = alert_step cfg inp now pid (context_of pid p s now) (mr_pnl_gross_usd mtm) m1;
              (m3, hedges) = hedge_step_of cfg now pid (va_delta v) m2
          in (m3, alerts, hedges))"

record cycle_report =
  cy_open_positions :: nat
  cy_alerts :: nat
  cy_hedges :: nat

definition monitor_cycle :: "monitor_config \<Rightarrow> monitor_inputs \<Rightarrow> time \<Rightarrow> monitor \<Rightarrow> monitor \<times> cycle_report" where
  "monitor_cycle cfg inp now m =
     (let ps = twhere (\<lambda>p. b_state p = P_open) (t_positions (mo_db m));
          (m', na, nh) = foldl (\<lambda>(m, na, nh) (pid, p).
             case monitor_one cfg inp now pid p m of (m', a, h) \<Rightarrow> (m', na + a, nh + h)) (m, 0, 0) ps
      in (m', \<lparr>cy_open_positions = length ps, cy_alerts = na, cy_hedges = nh\<rparr>))"

section \<open>Facts\<close>

lemma record_metric_db [simp]: "mo_db (record_metric inp now pid p s v mtm cost m) = mo_db m"
  by (simp add: record_metric_def)

lemma raise_alert_db:
  "t_hedges (mo_db (raise_alert cfg now pid w m)) = t_hedges (mo_db m)"
  "t_structures (mo_db (raise_alert cfg now pid w m)) = t_structures (mo_db m)"
  "t_scalars (mo_db (raise_alert cfg now pid w m)) = t_scalars (mo_db m)"
  "t_orders (mo_db (raise_alert cfg now pid w m)) = t_orders (mo_db m)"
  by (simp_all add: raise_alert_def Let_def)

lemma alert_step_db:
  assumes "alert_step cfg inp now pid ctx pnl m = (m', n)"
  shows "t_hedges (mo_db m') = t_hedges (mo_db m)" "t_structures (mo_db m') = t_structures (mo_db m)"
    "t_scalars (mo_db m') = t_scalars (mo_db m)" "t_orders (mo_db m') = t_orders (mo_db m)"
  using assms by (auto simp: alert_step_def raise_alert_db split: option.splits if_splits)

lemma hedge_step_db:
  assumes "hedge_step_of cfg now pid delta m = (m', n)"
  shows "t_alerts (mo_db m') = t_alerts (mo_db m)" "t_scalars (mo_db m') = t_scalars (mo_db m)"
    "t_structures (mo_db m') = t_structures (mo_db m)" "t_orders (mo_db m') = t_orders (mo_db m)"
  using assms by (auto simp: hedge_step_of_def Let_def split: if_splits)

lemma load_hedge_config_cong: "t_scalars d = t_scalars d' \<Longrightarrow> load_hedge_config d = load_hedge_config d'"
  by (simp add: load_hedge_config_def)

text \<open>The delta a cycle decides on.\<close>

definition monitored_delta :: "monitor_inputs \<Rightarrow> time \<Rightarrow> position_row \<Rightarrow> db \<Rightarrow> flt option" where
  "monitored_delta inp now p d =
     va_delta (valuation_of inp p now (reprice_position inp d (b_structure_id p) (spot_effective inp p) now))"

lemma monitored_delta_unknown:
  "\<not> live (reprice_position inp d (b_structure_id p) (spot_effective inp p) now) \<Longrightarrow> monitored_delta inp now p d = None"
  by (simp add: monitored_delta_def valuation_of_def Let_def)

lemma monitor_one_hedges:
  assumes "monitor_one cfg inp now pid p m = (m', na, nh)" and "tget (t_structures (mo_db m)) (b_structure_id p) = Some s"
  shows "\<exists>m2. hedge_step_of cfg now pid (monitored_delta inp now p (mo_db m)) m2 = (m', nh) \<and>
    t_hedges (mo_db m2) = t_hedges (mo_db m) \<and> t_scalars (mo_db m2) = t_scalars (mo_db m) \<and>
    t_orders (mo_db m2) = t_orders (mo_db m) \<and> t_structures (mo_db m2) = t_structures (mo_db m)"
proof -
  define spot where "spot = spot_effective inp p"
  define v where "v = valuation_of inp p now (reprice_position inp (mo_db m) (b_structure_id p) spot now)"
  define mtm where "mtm = compute_mtm (b_entry_premium_usd p) (va_mark v) (b_entry_total_cost_usd p)
    (hedge_cost (mo_db m) pid) spot (iv_effective inp p)"
  define m1 where "m1 = record_metric inp now pid p s v mtm (hedge_cost (mo_db m) pid) m"
  obtain m2 a where al: "alert_step cfg inp now pid (context_of pid p s now) (mr_pnl_gross_usd mtm) m1 = (m2, a)"
    by (cases "alert_step cfg inp now pid (context_of pid p s now) (mr_pnl_gross_usd mtm) m1")
  have "hedge_step_of cfg now pid (va_delta v) m2 = (m', nh)"
    using assms al by (auto simp: monitor_one_def Let_def spot_def v_def mtm_def m1_def split: prod.splits)
  moreover have "va_delta v = monitored_delta inp now p (mo_db m)" by (simp add: v_def spot_def monitored_delta_def)
  moreover have "mo_db m1 = mo_db m" by (simp add: m1_def)
  ultimately show ?thesis using alert_step_db [OF al] by (intro exI [of _ m2]) simp
qed

lemma pending_hedges_tins:
  "t_hedges d' = tins h (t_hedges d) \<Longrightarrow>
     pending_hedges d' pid = pending_hedges d pid @
       (if h_position_id h = pid \<and> h_state h \<in> {H_pending, H_submitted} then [(h_side h, h_hedge_qty h)] else [])"
  by (simp add: pending_hedges_def twhere_tins)

lemma hedge_step_cases:
  assumes "hedge_step_of cfg now pid delta m = (m', n)"
  obtains (quiet) "n = 0" "t_hedges (mo_db m') = t_hedges (mo_db m)" "\<not> hd_needs_hedge (hedge_decision_of (mo_db m) pid delta now)"
  | (fires) "n = 1" "hd_needs_hedge (hedge_decision_of (mo_db m) pid delta now)"
      "t_hedges (mo_db m') = tins (hedge_row_of pid now (hedge_decision_of (mo_db m) pid delta now)) (t_hedges (mo_db m))"
proof (cases "hd_needs_hedge (hedge_decision_of (mo_db m) pid delta now)")
  case True
  with assms show ?thesis by (intro fires) (auto simp: hedge_step_of_def Let_def)
next
  case False
  with assms show ?thesis by (intro quiet) (auto simp: hedge_step_of_def Let_def)
qed

lemma hedge_row_of_sel [simp]:
  "h_position_id (hedge_row_of pid now h) = pid" "h_state (hedge_row_of pid now h) = H_pending"
  "h_side (hedge_row_of pid now h) = hd_side h" "h_hedge_qty (hedge_row_of pid now h) = hd_hedge_qty h"
  "h_triggered_at (hedge_row_of pid now h) = now"
  by (simp_all add: hedge_row_of_def)

lemma net_pending_append:
  "net_pending_hedge_delta (Some x) (ps @ [p]) = map_option (\<lambda>y. y + hedge_delta p) (net_pending_hedge_delta (Some x) ps)"
  by (simp add: net_pending_hedge_delta_def)

lemma monitored_delta_cong: "t_orders d = t_orders d' \<Longrightarrow> monitored_delta inp now p d = monitored_delta inp now p d'"
  by (simp add: monitored_delta_def reprice_position_def position_entries_def)

text \<open>Nothing more to hedge once the pending hedges leave less than half a contract.\<close>

definition hedged :: "db \<Rightarrow> int \<Rightarrow> flt \<Rightarrow> bool" where
  "hedged d pid x \<longleftrightarrow> (\<exists>y. net_pending_hedge_delta (Some x) (pending_hedges d pid) = Some y \<and> round_half_even y = 0)"

definition min_hedge :: "db \<Rightarrow> int" where
  "min_hedge d = py_trunc (cfg_value (load_hedge_config d) ''min_hedge_qty'')"

lemma hedged_quiet: "hedged d pid x \<Longrightarrow> 1 \<le> min_hedge d \<Longrightarrow> \<not> hd_needs_hedge (hedge_decision_of d pid (Some x) now)"
  by (auto simp: hedged_def hedge_decision_of_def Let_def hedge_fires min_hedge_def)

lemma hedge_step_hedged:
  assumes "hedge_step_of cfg now pid (Some x) m = (m', 1)" and "1 \<le> min_hedge (mo_db m)"
  shows "hedged (mo_db m') pid x"
  using assms(1)
proof (cases rule: hedge_step_cases)
  case quiet
  then show ?thesis by simp
next
  case fires
  let ?h = "hedge_decision_of (mo_db m) pid (Some x) now"
  let ?ps = "pending_hedges (mo_db m) pid"
  obtain y where y: "net_pending_hedge_delta (Some x) ?ps = Some y" by (simp add: net_pending_hedge_delta_def)
  have ps: "pending_hedges (mo_db m') pid = ?ps @ [(hd_side ?h, hd_hedge_qty ?h)]"
    using pending_hedges_tins [OF fires(3), of pid] by simp
  note left = hedge_leaves_half [OF assms(2) [unfolded min_hedge_def] fires(2) [unfolded hedge_decision_of_def y Let_def]]
  have "y + hedge_delta (hd_side ?h, hd_hedge_qty ?h) = hd_residual ?h"
    using left(1) by (simp add: hedge_decision_of_def y Let_def)
  moreover have "round_half_even (hd_residual ?h) = 0" using left(4) by (simp add: hedge_decision_of_def y Let_def)
  ultimately show ?thesis unfolding hedged_def ps net_pending_append y by simp
qed

lemma monitor_one_no_structure:
  "tget (t_structures (mo_db m)) (b_structure_id p) = None \<Longrightarrow> monitor_one cfg inp now pid p m = (m, 0, 0)"
  by (simp add: monitor_one_def)

lemma monitor_one_frame:
  assumes "monitor_one cfg inp now pid p m = (m', na, nh)"
  shows "t_orders (mo_db m') = t_orders (mo_db m)" "t_scalars (mo_db m') = t_scalars (mo_db m)"
proof -
  have "t_orders (mo_db m') = t_orders (mo_db m) \<and> t_scalars (mo_db m') = t_scalars (mo_db m)"
  proof (cases "tget (t_structures (mo_db m)) (b_structure_id p)")
    case None
    with assms show ?thesis by (simp add: monitor_one_no_structure)
  next
    case (Some s)
    from monitor_one_hedges [OF assms Some] obtain m2 where
      "hedge_step_of cfg now pid (monitored_delta inp now p (mo_db m)) m2 = (m', nh)"
      "t_scalars (mo_db m2) = t_scalars (mo_db m)" "t_orders (mo_db m2) = t_orders (mo_db m)" by blast
    with hedge_step_db [of cfg now pid "monitored_delta inp now p (mo_db m)" m2 m' nh] show ?thesis by simp
  qed
  then show "t_orders (mo_db m') = t_orders (mo_db m)" "t_scalars (mo_db m') = t_scalars (mo_db m)" by auto
qed

lemma monitor_one_hedged_quiet:
  assumes "monitor_one cfg inp now pid p m = (m', na, nh)" and "hedged (mo_db m) pid x" and "1 \<le> min_hedge (mo_db m)"
    and "monitored_delta inp now p (mo_db m) = Some x"
  shows "nh = 0 \<and> t_hedges (mo_db m') = t_hedges (mo_db m)"
proof (cases "tget (t_structures (mo_db m)) (b_structure_id p)")
  case None
  with assms(1) show ?thesis by (simp add: monitor_one_no_structure)
next
  case (Some s)
  from monitor_one_hedges [OF assms(1) Some] assms(4) obtain m2 where m2: "hedge_step_of cfg now pid (Some x) m2 = (m', nh)"
    "t_hedges (mo_db m2) = t_hedges (mo_db m)" "t_scalars (mo_db m2) = t_scalars (mo_db m)" by auto
  have "hedged (mo_db m2) pid x" "1 \<le> min_hedge (mo_db m2)"
    using assms(2,3) m2(2,3) load_hedge_config_cong [OF m2(3)]
    by (simp_all add: hedged_def pending_hedges_def min_hedge_def)
  from hedged_quiet [OF this, of now] m2 show ?thesis by (auto elim: hedge_step_cases)
qed

section \<open>Properties\<close>

text \<open>
  C19. One imbalance is hedged once: a hedge is only ever created on a delta that was priced
  in this cycle, and once it is recorded, no later cycle that prices the same delta creates
  another one while it is in flight, whatever the clock, the cooldown, the market inputs and
  the alerts in between.
\<close>

theorem monitor_hedges_once:
  assumes "monitor_one cfg inp now pid p m = (m', na, 1)" and "1 \<le> min_hedge (mo_db m)"
    and "\<forall>(i, t) \<in> set later. monitored_delta i t p (mo_db m) = monitored_delta inp now p (mo_db m)"
  shows "monitored_delta inp now p (mo_db m) \<noteq> None \<and> length (t_hedges (mo_db m')) = length (t_hedges (mo_db m)) + 1 \<and>
    t_hedges (mo_db (foldl (\<lambda>m (i, t). fst (monitor_one cfg i t pid p m)) m' later)) = t_hedges (mo_db m')"
proof -
  obtain s where s: "tget (t_structures (mo_db m)) (b_structure_id p) = Some s"
    using assms(1) monitor_one_no_structure [of m p cfg inp now pid] by (cases "tget (t_structures (mo_db m)) (b_structure_id p)") auto
  from monitor_one_hedges [OF assms(1) s] obtain m2 where
    m2: "hedge_step_of cfg now pid (monitored_delta inp now p (mo_db m)) m2 = (m', 1)"
    "t_hedges (mo_db m2) = t_hedges (mo_db m)" "t_scalars (mo_db m2) = t_scalars (mo_db m)" by blast
  have len: "length (t_hedges (mo_db m')) = length (t_hedges (mo_db m)) + 1"
    and fires: "hd_needs_hedge (hedge_decision_of (mo_db m2) pid (monitored_delta inp now p (mo_db m)) now)"
    using m2 by (auto simp: tins_def elim: hedge_step_cases)
  then obtain x where x: "monitored_delta inp now p (mo_db m) = Some x"
    by (cases "monitored_delta inp now p (mo_db m)")
      (auto simp: hedge_decision_of_def Let_def net_pending_hedge_delta_def check_delta_hedge_needed_def)
  have min: "1 \<le> min_hedge (mo_db m2)"
    using assms(2) load_hedge_config_cong [OF m2(3)] by (simp add: min_hedge_def)
  note frame = monitor_one_frame [OF assms(1)]
  have "hedged (mo_db m') pid x" using hedge_step_hedged [OF m2(1) [unfolded x] min] .
  moreover have "1 \<le> min_hedge (mo_db m')"
    using assms(2) load_hedge_config_cong [OF frame(2)] by (simp add: min_hedge_def)
  moreover have "\<forall>(i, t) \<in> set later. monitored_delta i t p (mo_db m') = Some x"
    using assms(3) x monitored_delta_cong [OF frame(1)] by auto
  ultimately have "t_hedges (mo_db (foldl (\<lambda>m (i, t). fst (monitor_one cfg i t pid p m)) m' later)) = t_hedges (mo_db m')"
  proof (induction later arbitrary: m')
    case (Cons it later)
    obtain i t where it: "it = (i, t)" by (cases it)
    obtain m3 a n where m3: "monitor_one cfg i t pid p m' = (m3, a, n)" by (cases "monitor_one cfg i t pid p m'")
    note frame = monitor_one_frame [OF m3]
    have quiet: "n = 0 \<and> t_hedges (mo_db m3) = t_hedges (mo_db m')"
      by (rule monitor_one_hedged_quiet [OF m3 Cons.prems(1,2)]) (use Cons.prems(3) it in simp)
    have "hedged (mo_db m3) pid x" "1 \<le> min_hedge (mo_db m3)" "\<forall>(i, t) \<in> set later. monitored_delta i t p (mo_db m3) = Some x"
      using Cons.prems quiet load_hedge_config_cong [OF frame(2)] monitored_delta_cong [OF frame(1)]
      by (auto simp: hedged_def pending_hedges_def min_hedge_def)
    from Cons.IH [OF this] quiet m3 it show ?case by simp
  qed simp
  with len x show ?thesis by simp
qed

definition flat_inputs :: monitor_inputs where
  "flat_inputs = \<lparr>mi_normal = \<lparr>n_cdf = (\<lambda>_. 1 / 2), n_pdf = (\<lambda>_. 0)\<rparr>, mi_icdf = (\<lambda>_. 0),
     mi_surface = Some [(''1M'', [(''atm'', (Some (7 / 100), Some (11 / 10)))])], mi_spot = Some (12 / 10),
     mi_iv_pct = Some 7, mi_signals = [], mi_regime = None\<rparr>"

definition watched_position :: position_row where
  "watched_position = snd (hd (t_positions filled_position))"

definition watched_order :: order_row where
  "watched_order = (new_order_row 0 5 0 Entry ''call'' BUY 4 Filled)
     \<lparr>o_contract_strike := Some (11 / 10), o_contract_expiry := Some (Date 1970 1 31), o_qty_filled := 4\<rparr>"

definition watched :: monitor where
  "watched = \<lparr>mo_db = empty_db\<lparr>t_orders := [(1, watched_order)],
       t_structures := [(5, new_structure_row 0 ''vanilla_call'' ''1M'' 4 S_fully_filled)]\<rparr>,
     mo_metrics = [], mo_pending_hedge_ids = [], mo_pending_close_alerts = [], mo_position_updates = [], mo_exit_alerts = []\<rparr>"

lemma watched_delta: "monitored_delta flat_inputs 0 watched_position (mo_db watched) = Some 2"
proof -
  have sid: "b_structure_id watched_position = 5" by (simp add: watched_position_def filled_position_def)
  have spot: "spot_effective flat_inputs watched_position = 12 / 10" by (simp add: spot_effective_def flat_inputs_def)
  have entries: "position_entries (mo_db watched) 5 = [(1, watched_order)]"
    by (simp add: position_entries_def watched_def watched_order_def twhere_def)
  have day: "day_of 0 = 719163" by (simp add: day_of_def)
  have ordl: "ordinal (Date 1970 (Suc 0) 31) = 719193" by (simp add: ordinal_def)
  have tenor: "tenor_from_expiry 719193 0 = ''1M''" by (simp add: tenor_from_expiry_def day nearest_pillar_def PILLARS_def)
  define l where "l = \<lparr>ls_leg_idx = 0, ls_contract_type = ''call'', ls_strike = 11 / 10,
      ls_expiry = 719193, ls_tenor = ''1M'', ls_side = BUY, ls_qty = 4, ls_fallback_iv = None\<rparr>"
  define m where "m = \<lparr>mk_normal = mi_normal flat_inputs, mk_icdf = mi_icdf flat_inputs, mk_surface = mi_surface flat_inputs,
      mk_spot = 12 / 10, mk_today = 719163, mk_multiplier = EUR_FOP_MULTIPLIER\<rparr>"
  have leg: "leg_of_order 0 watched_order = Some l"
    by (simp add: leg_of_order_def watched_order_def effective_qty_def ordl tenor l_def)
  have "py_lower ''call'' = ''call''" by code_simp
  then have right: "leg_right l = ''C''" by (simp add: leg_right_def l_def)
  have iv: "leg_iv m l = (Some (7 / 100), ''single_pillar'', 0)"
    by (simp add: leg_iv_def iv_at_strike_def points_def LABELS_def List.map_filter_simps point_of_def iv_on_points_def
        flat_inputs_def m_def l_def)
  have "bs_delta (mk_normal m) (mk_spot m) (ls_strike l) (years_to_expiry (ls_expiry l) (mk_today m)) (7 / 100) ''C'' = 1 / 2"
    by (simp add: bs_delta_def degenerate_def m_def l_def flat_inputs_def years_to_expiry_def)
  then have "lpr_delta (price_leg m l (7 / 100) ''single_pillar'') = 1 / 2"
    by (simp add: price_leg_def Let_def right)
  moreover have "lpr_qty_signed (price_leg m l (7 / 100) ''single_pillar'') = 4"
    by (simp add: price_leg_def Let_def leg_sign_def l_def)
  ultimately have delta: "pm_delta (price_position m [l]) = 2" "pm_n_missing (price_position m [l]) = 0"
    by (simp_all add: price_position_def add_leg_def iv empty_mark_def Let_def)
  have mark: "reprice_position flat_inputs (mo_db watched) 5 (12 / 10) 0 = Some (price_position m [l])"
    by (simp add: reprice_position_def entries leg day List.map_filter_simps m_def)
  show ?thesis
    unfolding monitored_delta_def sid spot mark using delta by (simp add: valuation_of_def live_def)
qed

lemma watched_hedged: "\<exists>m' na. monitor_one \<lparr>mc_alert_cooldown_s = 300, mc_execute_hedge = False, mc_auto_execute = False\<rparr>
    flat_inputs 0 7 watched_position watched = (m', na, 1)"
proof -
  let ?cfg = "\<lparr>mc_alert_cooldown_s = 300, mc_execute_hedge = False, mc_auto_execute = False\<rparr>"
  obtain m' na nh where one: "monitor_one ?cfg flat_inputs 0 7 watched_position watched = (m', na, nh)"
    by (cases "monitor_one ?cfg flat_inputs 0 7 watched_position watched") auto
  have "b_structure_id watched_position = 5" by (simp add: watched_position_def filled_position_def)
  then obtain s where "tget (t_structures (mo_db watched)) (b_structure_id watched_position) = Some s"
    by (simp add: watched_def tget_def)
  from monitor_one_hedges [OF one this] obtain m2 where m2:
    "hedge_step_of ?cfg 0 7 (monitored_delta flat_inputs 0 watched_position (mo_db watched)) m2 = (m', nh)"
    "t_hedges (mo_db m2) = []" "t_scalars (mo_db m2) = []"
    by (auto simp: watched_def empty_db_def)
  have "hd_needs_hedge (hedge_decision_of (mo_db m2) 7 (Some 2) 0)"
    unfolding hedge_decision_of_def Let_def hedge_fires
    using round_half_even_of_int [of 2]
    by (simp add: m2(2,3) pending_hedges_def twhere_def net_pending_hedge_delta_def last_hedge_at_def in_cooldown_def
        load_hedge_config_def HEDGE_DEFAULTS_def cfg_value_def)
  with m2(1) have "nh = 1" by (auto simp: watched_delta elim: hedge_step_cases)
  with one show ?thesis by blast
qed

theorem monitor_hedges_once_witness:
  "\<exists>m' na. monitor_one \<lparr>mc_alert_cooldown_s = 300, mc_execute_hedge = False, mc_auto_execute = False\<rparr>
     flat_inputs 0 7 watched_position watched = (m', na, 1) \<and>
     t_hedges (mo_db (fst (monitor_one \<lparr>mc_alert_cooldown_s = 300, mc_execute_hedge = False, mc_auto_execute = False\<rparr>
       flat_inputs 0 7 watched_position m'))) = t_hedges (mo_db m')"
proof -
  let ?cfg = "\<lparr>mc_alert_cooldown_s = 300, mc_execute_hedge = False, mc_auto_execute = False\<rparr>"
  from watched_hedged obtain m' na where one: "monitor_one ?cfg flat_inputs 0 7 watched_position watched = (m', na, 1)" by blast
  have "1 \<le> min_hedge (mo_db watched)"
    by (simp add: min_hedge_def load_hedge_config_def cfg_value_def HEDGE_DEFAULTS_def watched_def empty_db_def twhere_def)
  from monitor_hedges_once [OF one this, of "[(flat_inputs, 0)]"] one show ?thesis by simp
qed

text \<open>
  A filled hedge is forgotten: the delta a cycle prices is that of the entry legs alone, and
  only hedges in flight are netted. When the one hedge of a position has been filled and the
  cooldown is over, the unchanged delta asks for the same hedge again.
\<close>

lemma filled_hedge_repeats:
  assumes "t_hedges d = []" and "hd_needs_hedge (hedge_decision_of d pid (Some x) now)"
    and "d' = d\<lparr>t_hedges := [(k, (hedge_row_of pid now (hedge_decision_of d pid (Some x) now))\<lparr>h_state := H_filled\<rparr>)]\<rparr>"
    and "now + cfg_value (load_hedge_config d) ''max_hedge_frequency_seconds'' \<le> now'"
  shows "hd_needs_hedge (hedge_decision_of d' pid (Some x) now') \<and>
    hd_side (hedge_decision_of d' pid (Some x) now') = hd_side (hedge_decision_of d pid (Some x) now) \<and>
    hd_hedge_qty (hedge_decision_of d' pid (Some x) now') = hd_hedge_qty (hedge_decision_of d pid (Some x) now)"
proof -
  have cfg: "load_hedge_config d' = load_hedge_config d" by (rule load_hedge_config_cong) (simp add: assms(3))
  have pend: "pending_hedges d pid = []" "pending_hedges d' pid = []"
    using assms(1,3) by (simp_all add: pending_hedges_def twhere_def)
  have "last_hedge_at d' pid = Some now" "last_hedge_at d pid = None"
    using assms(1,3) by (simp_all add: last_hedge_at_def twhere_def)
  then show ?thesis
    using assms(2,4) by (auto simp: hedge_decision_of_def Let_def cfg pend net_pending_hedge_delta_def
        check_delta_hedge_needed_def in_cooldown_def split: if_splits)
qed

section \<open>Alerts\<close>

text \<open>Two alerts of one rule on one position are at least a cooldown apart.\<close>

definition alerts_spaced :: "flt \<Rightarrow> db \<Rightarrow> bool" where
  "alerts_spaced cooldown d \<longleftrightarrow> sorted_wrt (\<lambda>(i, a) (j, b).
     ea_position_id a = ea_position_id b \<and> ea_rule_triggered a = ea_rule_triggered b \<longrightarrow>
     ea_timestamp a + cooldown \<le> ea_timestamp b) (t_alerts d)"

lemma alert_step_spaced:
  assumes "alert_step cfg inp now pid ctx pnl m = (m', n)" and "alerts_spaced (mc_alert_cooldown_s cfg) (mo_db m)"
  shows "alerts_spaced (mc_alert_cooldown_s cfg) (mo_db m')"
proof (cases "m' = m")
  case False
  obtain w where w: "\<not> recent_alert_exists (mc_alert_cooldown_s cfg) (mo_db m) pid (ed_rule_name w) now"
    "m' = raise_alert cfg now pid w m"
  proof (cases "pick_winning_decision (evaluate_all_rules EXIT_RULES ctx pnl (mi_signals inp) (mi_regime inp))")
    case None
    with assms(1) False show ?thesis by (simp add: alert_step_def)
  next
    case (Some w)
    show ?thesis
      by (rule that [of w])
        (use assms(1) False Some in \<open>simp_all add: alert_step_def split: if_splits\<close>)
  qed
  let ?a = "\<lparr>ea_position_id = pid, ea_rule_triggered = Some (ed_rule_name w), ea_execution_status = None,
      ea_closing_structure_id = None, ea_timestamp = now, ea_action_recommended = action_name (ed_action w),
      ea_priority = ed_priority w, ea_rule_detail = ed_detail w, ea_auto_executed = False\<rparr>"
  have "t_alerts (mo_db m') = t_alerts (mo_db m) @ [(next_id (t_alerts (mo_db m)), ?a)]"
    using w(2) by (simp add: raise_alert_def Let_def tins_def)
  moreover have "ea_timestamp a + mc_alert_cooldown_s cfg \<le> now"
    if "(i, a) \<in> set (t_alerts (mo_db m))" "ea_position_id a = pid" "ea_rule_triggered a = Some (ed_rule_name w)" for i a
    using w(1) that by (fastforce simp: recent_alert_exists_def not_less)
  ultimately show ?thesis
    using assms(2) by (auto simp: alerts_spaced_def sorted_wrt_append)
qed (use assms(2) in simp)

lemma monitor_one_spaced:
  assumes "alerts_spaced (mc_alert_cooldown_s cfg) (mo_db m)"
  shows "alerts_spaced (mc_alert_cooldown_s cfg) (mo_db (fst (monitor_one cfg inp now pid p m)))"
proof (cases "tget (t_structures (mo_db m)) (b_structure_id p)")
  case None
  with assms show ?thesis by (simp add: monitor_one_no_structure)
next
  case (Some s)
  define spot where "spot = spot_effective inp p"
  define v where "v = valuation_of inp p now (reprice_position inp (mo_db m) (b_structure_id p) spot now)"
  define mtm where "mtm = compute_mtm (b_entry_premium_usd p) (va_mark v) (b_entry_total_cost_usd p)
    (hedge_cost (mo_db m) pid) spot (iv_effective inp p)"
  define m1 where "m1 = record_metric inp now pid p s v mtm (hedge_cost (mo_db m) pid) m"
  obtain m2 a where al: "alert_step cfg inp now pid (context_of pid p s now) (mr_pnl_gross_usd mtm) m1 = (m2, a)"
    by (cases "alert_step cfg inp now pid (context_of pid p s now) (mr_pnl_gross_usd mtm) m1")
  obtain m3 h where hs: "hedge_step_of cfg now pid (va_delta v) m2 = (m3, h)" by (cases "hedge_step_of cfg now pid (va_delta v) m2")
  have "monitor_one cfg inp now pid p m = (m3, a, h)"
    using Some al hs by (simp add: monitor_one_def Let_def spot_def v_def mtm_def m1_def)
  moreover have "alerts_spaced (mc_alert_cooldown_s cfg) (mo_db m2)"
    by (rule alert_step_spaced [OF al]) (use assms in \<open>simp add: m1_def\<close>)
  ultimately show ?thesis using hedge_step_db(1) [OF hs] by (simp add: alerts_spaced_def)
qed



end
