(* ===== verification/Tenors.thy ===== *)
theory Tenors
  imports Prelude
begin

text \<open>
  Display tenors (\<open>core/vol/tenors.py\<close>): the listed expiries of a surface re-keyed to the six
  display pillars, interpolation in total variance between them, the snap of a requested
  tenor to a listed one, the z-score over the grid and the bucket of an expiry. A surface
  is a dictionary from labels to rows, a row one from delta labels to cells; a value that is
  not a dictionary is a \<open>Scalar\<close>, and a cell's number that is absent or no number is None.
\<close>

section \<open>Surfaces\<close>

record vol_cell =
  vc_iv :: "flt option"
  vc_strike :: "flt option"
  vc_source :: "string option"
  vc_z :: "flt option"

datatype 'a node = Node 'a | Scalar pval

type_synonym vol_row = "(string \<times> vol_cell node) list"
type_synonym vol_surface = "(string \<times> vol_row node) list"

definition is_meta :: "string \<Rightarrow> bool" where
  "is_meta k = py_startswith k ''_''"

definition node_value :: "'a node \<Rightarrow> 'a option" where
  "node_value n = (case n of Node x \<Rightarrow> Some x | Scalar v \<Rightarrow> None)"

definition rows_of :: "vol_surface \<Rightarrow> (string \<times> vol_row) list" where
  "rows_of s = List.map_filter (\<lambda>(t, n). if is_meta t then None else map_option (Pair t) (node_value n)) s"

definition cells_of :: "vol_row \<Rightarrow> (string \<times> vol_cell) list" where
  "cells_of row = List.map_filter (\<lambda>(d, n). map_option (Pair d) (node_value n)) row"

definition row_ivs :: "vol_row \<Rightarrow> (string \<times> flt) list" where
  "row_ivs row = List.map_filter (\<lambda>(d, c). map_option (Pair d) (vc_iv c)) (cells_of row)"

section \<open>Pillars\<close>

definition DISPLAY_PILLARS :: "string list" where
  "DISPLAY_PILLARS = [''1M'', ''2M'', ''3M'', ''4M'', ''5M'', ''6M'']"

definition PILLAR_TARGET_DTE :: "(string \<times> int) list" where
  "PILLAR_TARGET_DTE = [(''1M'', 30), (''2M'', 60), (''3M'', 90), (''4M'', 120), (''5M'', 150), (''6M'', 180)]"

definition DELTA_PILLARS :: "string list" where
  "DELTA_PILLARS = [''10dp'', ''25dp'', ''atm'', ''25dc'', ''10dc'']"

definition LISTED_TOLERANCE_DAYS :: int where "LISTED_TOLERANCE_DAYS = 12"
definition EXTRAP_MARGIN_DAYS :: int where "EXTRAP_MARGIN_DAYS = 45"

definition LABEL_DTE :: "(string \<times> int) list" where
  "LABEL_DTE = [(''1M'', 30), (''2M'', 60), (''3M'', 90), (''4M'', 120), (''5M'', 150), (''6M'', 180),
     (''9M'', 270), (''1Y'', 365)]"

text \<open>One listed expiry: its days to expiry and its volatility per delta.\<close>

record tenor_anchor =
  an_dte :: int
  an_iv :: "(string \<times> flt) list"

definition interp_iv :: "flt \<Rightarrow> int \<Rightarrow> flt \<Rightarrow> int \<Rightarrow> int \<Rightarrow> flt" where
  "interp_iv iv_lo dte_lo iv_hi dte_hi target =
     (let w_lo = iv_lo * iv_lo * of_int dte_lo;
          w_hi = iv_hi * iv_hi * of_int dte_hi;
          frac = of_int (target - dte_lo) / of_int (dte_hi - dte_lo);
          w = w_lo + (w_hi - w_lo) * frac
      in if 0 < target then sqrt (max w 0 / of_int target) else iv_lo)"

definition interp_smile :: "string list \<Rightarrow> tenor_anchor \<Rightarrow> tenor_anchor \<Rightarrow> int \<Rightarrow> (string \<times> flt) list" where
  "interp_smile deltas lo hi target =
     List.map_filter (\<lambda>d. case (map_of (an_iv lo) d, map_of (an_iv hi) d) of
         (Some a, Some b) \<Rightarrow> Some (d, interp_iv a (an_dte lo) b (an_dte hi) target)
       | _ \<Rightarrow> None) deltas"

text \<open>The source is one of \<open>listed\<close>, \<open>interp\<close>, \<open>missing\<close>.\<close>

definition interpolate_pillar ::
  "tenor_anchor list \<Rightarrow> int \<Rightarrow> string list \<Rightarrow> int \<Rightarrow> int \<Rightarrow> (string \<times> flt) list option \<times> string" where
  "interpolate_pillar anchors target deltas tol margin =
     (if anchors = [] then (None, ''missing'')
      else
        let ordered = sort_key an_dte anchors;
            nearest = arg_min_list (\<lambda>a. \<bar>an_dte a - target\<bar>) ordered;
            lo = filter (\<lambda>a. an_dte a < target) ordered;
            hi = filter (\<lambda>a. target < an_dte a) ordered
        in if \<bar>an_dte nearest - target\<bar> \<le> tol then (Some (an_iv nearest), ''listed'')
           else if lo \<noteq> [] \<and> hi \<noteq> [] then
             (let smile = interp_smile deltas (last lo) (hd hi) target
              in if smile \<noteq> [] then (Some smile, ''interp'') else (None, ''missing''))
           else if lo \<noteq> [] \<and> hi = [] \<and> target - an_dte (last lo) \<le> margin
           then (Some (an_iv (last lo)), ''interp'')
           else (None, ''missing''))"

section \<open>The bucket of an expiry and the snap of a tenor\<close>

definition LADDER_EDGES :: "(int \<times> string) list" where
  "LADDER_EDGES = [(45, ''1M''), (75, ''2M''), (105, ''3M''), (135, ''4M''), (165, ''5M'')]"

fun ladder_label :: "int \<Rightarrow> (int \<times> string) list \<Rightarrow> string" where
  "ladder_label dte [] = ''6M''"
| "ladder_label dte ((edge, label) # es) = (if dte \<le> edge then label else ladder_label dte es)"

text \<open>A date is its ordinal.\<close>

definition tenor_bucket_from_expiry :: "int option \<Rightarrow> int \<Rightarrow> string option" where
  "tenor_bucket_from_expiry expiry today =
     (case expiry of None \<Rightarrow> None | Some e \<Rightarrow> Some (ladder_label (e - today) LADDER_EDGES))"

definition nearest_listed_dte :: "int \<Rightarrow> int list \<Rightarrow> int option" where
  "nearest_listed_dte target dtes = (if dtes = [] then None else Some (arg_min_list (\<lambda>d. \<bar>d - target\<bar>) dtes))"

definition tenor_dte :: "string \<Rightarrow> int option" where
  "tenor_dte tenor = (case map_of PILLAR_TARGET_DTE tenor of Some d \<Rightarrow> Some d | None \<Rightarrow> map_of LABEL_DTE tenor)"

definition row_is_listed :: "vol_row \<Rightarrow> bool" where
  "row_is_listed row =
     (let cells = map snd (cells_of row)
      in list_ex (\<lambda>c. vc_iv c \<noteq> None) cells \<and> \<not> list_ex (\<lambda>c. vc_source c = Some ''interp'') cells)"

definition surface_listed_tenors :: "vol_surface \<Rightarrow> string list" where
  "surface_listed_tenors s = map fst (filter (\<lambda>(t, row). row_is_listed row) (rows_of s))"

definition snap_candidates :: "vol_surface \<Rightarrow> (string \<times> int) list" where
  "snap_candidates s = List.map_filter (\<lambda>t. map_option (Pair t) (tenor_dte t)) (surface_listed_tenors s)"

definition snap_tenor :: "string \<Rightarrow> vol_surface \<Rightarrow> string \<times> bool" where
  "snap_tenor requested s =
     (if requested \<in> set (surface_listed_tenors s) then (requested, False)
      else
        case tenor_dte requested of
          None \<Rightarrow> (requested, False)
        | Some target \<Rightarrow>
            if snap_candidates s = [] then (requested, False)
            else (fst (arg_min_list (\<lambda>(t, d). \<bar>d - target\<bar>) (snap_candidates s)), True))"

section \<open>The display surface\<close>

definition cell_strikes :: "vol_row \<Rightarrow> (string \<times> flt) list" where
  "cell_strikes row =
     List.map_filter (\<lambda>(d, c). case vc_strike c of
         None \<Rightarrow> None | Some k \<Rightarrow> if 0 < k then Some (d, k) else None) (cells_of row)"

definition dated_strikes :: "(string \<times> vol_row) list \<Rightarrow> (int \<times> (string \<times> flt) list) list" where
  "dated_strikes raw =
     filter (\<lambda>(dte, ks). ks \<noteq> [])
       (sort_key fst
         (List.map_filter (\<lambda>(label, row). map_option (\<lambda>dte. (dte, cell_strikes row)) (map_of LABEL_DTE label)) raw))"

definition lerp_strikes :: "int \<times> (string \<times> flt) list \<Rightarrow> int \<times> (string \<times> flt) list \<Rightarrow> int \<Rightarrow> (string \<times> flt) list" where
  "lerp_strikes a b target =
     (let frac = of_int (target - fst a) / of_int (fst b - fst a)
      in List.map_filter (\<lambda>(d, k). case map_of (snd b) d of
             None \<Rightarrow> None
           | Some k' \<Rightarrow> Some (d, py_round 6 (k + (k' - k) * frac))) (snd a))"

text \<open>\<open>hi[0]\<close> raises when every dated row sits at the target.\<close>

definition interp_strikes :: "(string \<times> vol_row) list \<Rightarrow> int \<Rightarrow> (string \<times> flt) list result" where
  "interp_strikes raw target =
     (let dated = dated_strikes raw;
          lo = filter (\<lambda>(dte, ks). dte < target) dated;
          hi = filter (\<lambda>(dte, ks). target < dte) dated
      in if dated = [] then Inr []
         else if lo \<noteq> [] \<and> hi \<noteq> [] then Inr (lerp_strikes (last lo) (hd hi) target)
         else if lo \<noteq> [] then Inr (snd (last lo))
         else if hi \<noteq> [] then Inr (snd (hd hi))
         else Inl IndexError)"

text \<open>The rows with a volatility on a known tenor, and their anchors.\<close>

definition raw_cells :: "vol_surface \<Rightarrow> (string \<times> vol_row) list" where
  "raw_cells s = filter (\<lambda>(label, row). map_of LABEL_DTE label \<noteq> None \<and> row_ivs row \<noteq> []) (rows_of s)"

definition label_dte :: "string \<Rightarrow> int" where
  "label_dte label = (case map_of LABEL_DTE label of None \<Rightarrow> 0 | Some d \<Rightarrow> d)"

definition anchors_of :: "(string \<times> vol_row) list \<Rightarrow> tenor_anchor list" where
  "anchors_of raw = map (\<lambda>(label, row). \<lparr>an_dte = label_dte label, an_iv = row_ivs row\<rparr>) raw"

definition tag_listed :: "vol_row \<Rightarrow> vol_row" where
  "tag_listed row =
     map (\<lambda>(d, n). (d, case n of
         Node c \<Rightarrow> Node (if vc_source c = Some ''interp'' then c else c\<lparr>vc_source := Some ''listed''\<rparr>)
       | Scalar v \<Rightarrow> Scalar v)) row"

definition display_pillar :: "string list \<Rightarrow> int \<Rightarrow> (string \<times> vol_row) list \<Rightarrow> int \<Rightarrow> vol_row option result" where
  "display_pillar deltas tol raw target =
     (let nearest = arg_min_list (\<lambda>(label, row). \<bar>label_dte label - target\<bar>) raw
      in if raw \<noteq> [] \<and> \<bar>label_dte (fst nearest) - target\<bar> \<le> tol then Inr (Some (tag_listed (snd nearest)))
         else
           case interpolate_pillar (anchors_of raw) target deltas tol EXTRAP_MARGIN_DAYS of
             (None, source) \<Rightarrow> Inr None
           | (Some ivs, source) \<Rightarrow>
               (case interp_strikes raw target of
                  Inl e \<Rightarrow> Inl e
                | Inr ks \<Rightarrow> Inr (Some (map (\<lambda>(d, iv). (d, Node
                    \<lparr>vc_iv = Some iv, vc_strike = map_of ks d, vc_source = Some source, vc_z = None\<rparr>)) ivs))))"

definition grid_ivs :: "vol_surface \<Rightarrow> flt list" where
  "grid_ivs s = concat (map (\<lambda>(t, row). map snd (row_ivs row)) (rows_of s))"

definition mean_of :: "flt list \<Rightarrow> flt" where
  "mean_of xs = sum_list xs / of_nat (length xs)"

definition std_of :: "flt list \<Rightarrow> flt" where
  "std_of xs = sqrt (sum_list (map (\<lambda>x. (x - mean_of xs) ^ 2) xs) / of_nat (length xs))"

definition set_z :: "(flt \<Rightarrow> flt) \<Rightarrow> vol_row \<Rightarrow> vol_row" where
  "set_z f row =
     map (\<lambda>(d, n). (d, case n of
         Node c \<Rightarrow> Node (case vc_iv c of None \<Rightarrow> c | Some iv \<Rightarrow> c\<lparr>vc_z := Some (f iv)\<rparr>)
       | Scalar v \<Rightarrow> Scalar v)) row"

definition recompute_surface_z :: "vol_surface \<Rightarrow> vol_surface" where
  "recompute_surface_z s =
     (let ivs = grid_ivs s; m = mean_of ivs; sd = std_of ivs
      in if length ivs < 2 \<or> sd \<le> 0 then s
         else map (\<lambda>(t, n). (t, case n of
                Node row \<Rightarrow> if is_meta t then Node row else Node (set_z (\<lambda>x. (x - m) / sd) row)
              | Scalar v \<Rightarrow> Scalar v)) s)"

definition display_rows :: "string list \<Rightarrow> int \<Rightarrow> (string \<times> vol_row) list \<Rightarrow> (string \<times> vol_row option) list result" where
  "display_rows deltas tol raw =
     map_result (\<lambda>pillar. case map_of PILLAR_TARGET_DTE pillar of
         None \<Rightarrow> Inl (KeyError ''pillar'')
       | Some target \<Rightarrow> (case display_pillar deltas tol raw target of Inl e \<Rightarrow> Inl e | Inr r \<Rightarrow> Inr (pillar, r)))
       DISPLAY_PILLARS"

definition to_display_surface :: "string list \<Rightarrow> int \<Rightarrow> vol_surface \<Rightarrow> vol_surface result" where
  "to_display_surface deltas tol s =
     (case display_rows deltas tol (raw_cells s) of
        Inl e \<Rightarrow> Inl e
      | Inr rows \<Rightarrow>
          Inr (recompute_surface_z
            (filter (\<lambda>(k, v). is_meta k) s @
             List.map_filter (\<lambda>(pillar, r). map_option (\<lambda>row. (pillar, Node row)) r) rows)))"

section \<open>Facts\<close>

lemma arg_min_list_least: "xs \<noteq> [] \<Longrightarrow> y \<in> set xs \<Longrightarrow> f (arg_min_list f xs) \<le> f y"
  by (simp add: f_arg_min_list_f)

lemma tenor_dte_label: "tenor_dte t = map_of LABEL_DTE t"
  by (auto simp: tenor_dte_def PILLAR_TARGET_DTE_def LABEL_DTE_def)

lemma pillar_target: "map_of PILLAR_TARGET_DTE p = Some target \<Longrightarrow> map_of LABEL_DTE p = Some target \<and> p \<in> set DISPLAY_PILLARS"
  by (auto simp: PILLAR_TARGET_DTE_def LABEL_DTE_def DISPLAY_PILLARS_def split: if_splits)

lemma pillar_has_target: "p \<in> set DISPLAY_PILLARS \<Longrightarrow> \<exists>target. map_of PILLAR_TARGET_DTE p = Some target"
  by (auto simp: PILLAR_TARGET_DTE_def DISPLAY_PILLARS_def)

text \<open>Within the tolerance of a pillar's target only the pillar's own label lists.\<close>

lemma label_near_pillar:
  assumes "map_of PILLAR_TARGET_DTE p = Some target" and "map_of LABEL_DTE l = Some d"
    and "\<bar>d - target\<bar> \<le> LISTED_TOLERANCE_DAYS"
  shows "l = p" "d = target"
  using assms by (auto simp: PILLAR_TARGET_DTE_def LABEL_DTE_def LISTED_TOLERANCE_DAYS_def split: if_splits)

lemma display_not_meta: "p \<in> set DISPLAY_PILLARS \<Longrightarrow> \<not> is_meta p"
  by (auto simp: DISPLAY_PILLARS_def is_meta_def py_startswith_def)

lemma map_filter_append: "List.map_filter f (xs @ ys) = List.map_filter f xs @ List.map_filter f ys"
  by (induction xs) (auto simp: List.map_filter_simps split: option.splits)

lemma set_map_filter: "set (List.map_filter f xs) = {y. \<exists>x \<in> set xs. f x = Some y}"
  by (induction xs) (auto simp: List.map_filter_simps split: option.splits)

lemma rows_of_Nil [simp]: "rows_of [] = []"
  by (simp add: rows_of_def List.map_filter_simps)

lemma rows_of_Cons: "rows_of ((t, n) # s) =
    (if is_meta t then rows_of s else case n of Node row \<Rightarrow> (t, row) # rows_of s | Scalar v \<Rightarrow> rows_of s)"
  by (simp add: rows_of_def List.map_filter_simps node_value_def split: node.splits)

lemma rows_of_append: "rows_of (s @ s') = rows_of s @ rows_of s'"
  by (simp add: rows_of_def map_filter_append)

lemma rows_of_meta [simp]: "rows_of (filter (\<lambda>(k, v). is_meta k) s) = []"
  by (induction s) (auto simp: rows_of_Cons)

lemma rows_of_subset: "set (map fst (rows_of s)) \<subseteq> set (map fst s)"
  by (force simp: rows_of_def set_map_filter split: if_splits)

lemma distinct_rows_of: "distinct (map fst s) \<Longrightarrow> distinct (map fst (rows_of s))"
proof (induction s)
  case (Cons x s)
  obtain t n where x: "x = (t, n)" by (cases x)
  with Cons.prems have "t \<notin> set (map fst (rows_of s))" using rows_of_subset [of s] by auto
  with Cons x show ?case by (simp add: rows_of_Cons split: node.splits)
qed simp

lemma cells_map:
  "cells_of (map (\<lambda>(d, n). (d, case n of Node c \<Rightarrow> Node (g c) | Scalar v \<Rightarrow> Scalar v)) row) =
     map (\<lambda>(d, c). (d, g c)) (cells_of row)"
  by (induction row) (auto simp: cells_of_def List.map_filter_simps node_value_def split: node.splits)

lemma row_ivs_map:
  assumes "\<And>c. vc_iv (g c) = vc_iv c"
  shows "row_ivs (map (\<lambda>(d, n). (d, case n of Node c \<Rightarrow> Node (g c) | Scalar v \<Rightarrow> Scalar v)) row) = row_ivs row"
proof -
  have "List.map_filter (\<lambda>(d, c). map_option (Pair d) (vc_iv c)) (map (\<lambda>(d, c). (d, g c)) cs) =
      List.map_filter (\<lambda>(d, c). map_option (Pair d) (vc_iv c)) cs" for cs :: "(string \<times> vol_cell) list"
    by (induction cs) (auto simp: List.map_filter_simps assms split: option.splits)
  then show ?thesis unfolding row_ivs_def cells_map .
qed

lemma row_ivs_tag [simp]: "row_ivs (tag_listed row) = row_ivs row"
  unfolding tag_listed_def by (rule row_ivs_map) simp

lemma row_ivs_set_z [simp]: "row_ivs (set_z f row) = row_ivs row"
  unfolding set_z_def by (rule row_ivs_map) (simp split: option.splits)

definition ivs_at :: "vol_surface \<Rightarrow> string \<Rightarrow> (string \<times> flt) list" where
  "ivs_at s t = (case map_of (rows_of s) t of None \<Rightarrow> [] | Some row \<Rightarrow> row_ivs row)"

definition quoted :: "vol_surface \<Rightarrow> string \<Rightarrow> bool" where
  "quoted s t = (map_of LABEL_DTE t \<noteq> None \<and> ivs_at s t \<noteq> [])"

lemma rows_of_zmap:
  "rows_of (map (\<lambda>(t, n). (t, case n of Node row \<Rightarrow> if is_meta t then Node row else Node (set_z f row)
       | Scalar v \<Rightarrow> Scalar v)) s) = map (\<lambda>(t, row). (t, set_z f row)) (rows_of s)"
  by (induction s) (auto simp: rows_of_Cons split: node.splits)

lemma ivs_at_recompute [simp]: "ivs_at (recompute_surface_z s) t = ivs_at s t"
proof -
  have "map_of (map (\<lambda>(t, row). (t, set_z f row)) rs) t = map_option (set_z f) (map_of rs t)" for f and rs :: "(string \<times> vol_row) list"
    by (induction rs) auto
  then show ?thesis
    by (simp add: recompute_surface_z_def Let_def ivs_at_def rows_of_zmap split: option.splits)
qed

lemma meta_recompute: "is_meta k \<Longrightarrow> map_of (recompute_surface_z s) k = map_of s k"
proof -
  assume k: "is_meta k"
  have "map_of (map (\<lambda>(t, n). (t, case n of Node row \<Rightarrow> if is_meta t then Node row else Node (set_z f row)
       | Scalar v \<Rightarrow> Scalar v)) s) k = map_of s k" for f
    using k by (induction s) (auto split: node.splits)
  then show ?thesis by (simp add: recompute_surface_z_def Let_def)
qed

lemma raw_cells_iff:
  "distinct (map fst s) \<Longrightarrow> (\<exists>row. (t, row) \<in> set (raw_cells s)) \<longleftrightarrow> quoted s t"
  "distinct (map fst s) \<Longrightarrow> (t, row) \<in> set (raw_cells s) \<Longrightarrow> row_ivs row = ivs_at s t \<and> quoted s t"
proof -
  assume "distinct (map fst s)"
  then have m: "(t, row) \<in> set (rows_of s) \<longleftrightarrow> map_of (rows_of s) t = Some row" for row
    using distinct_rows_of by simp
  show "(\<exists>row. (t, row) \<in> set (raw_cells s)) \<longleftrightarrow> quoted s t"
    by (auto simp: raw_cells_def m quoted_def ivs_at_def split: option.splits)
  show "(t, row) \<in> set (raw_cells s) \<Longrightarrow> row_ivs row = ivs_at s t \<and> quoted s t"
    by (auto simp: raw_cells_def m quoted_def ivs_at_def)
qed

section \<open>Snap\<close>

lemma snap_candidates_iff:
  "(t, d) \<in> set (snap_candidates s) \<longleftrightarrow> t \<in> set (surface_listed_tenors s) \<and> map_of LABEL_DTE t = Some d"
  by (auto simp: snap_candidates_def set_map_filter tenor_dte_label)

lemma snap_cases:
  obtains (listed) "requested \<in> set (surface_listed_tenors s)" "snap_tenor requested s = (requested, False)"
  | (stuck) "requested \<notin> set (surface_listed_tenors s)" "snap_tenor requested s = (requested, False)"
      "map_of LABEL_DTE requested = None \<or> snap_candidates s = []"
  | (snapped) target t d where "requested \<notin> set (surface_listed_tenors s)" "map_of LABEL_DTE requested = Some target"
      "snap_tenor requested s = (t, True)" "(t, d) \<in> set (snap_candidates s)"
      "\<And>t' d'. (t', d') \<in> set (snap_candidates s) \<Longrightarrow> \<bar>d - target\<bar> \<le> \<bar>d' - target\<bar>"
proof (cases "requested \<in> set (surface_listed_tenors s)")
  case True
  with listed show ?thesis by (simp add: snap_tenor_def)
next
  case False
  show ?thesis
  proof (cases "map_of LABEL_DTE requested = None \<or> snap_candidates s = []")
    case True
    with False stuck show ?thesis by (auto simp: snap_tenor_def tenor_dte_label split: option.splits)
  next
    case open_cand: False
    then obtain target where target: "map_of LABEL_DTE requested = Some target" by auto
    let ?f = "\<lambda>(t :: string, d). \<bar>d - target\<bar>"
    obtain t d where best: "arg_min_list ?f (snap_candidates s) = (t, d)" by fastforce
    have mem: "(t, d) \<in> set (snap_candidates s)"
      using arg_min_list_in [of "snap_candidates s" ?f] open_cand best by simp
    have least: "\<bar>d - target\<bar> \<le> \<bar>d' - target\<bar>" if "(t', d') \<in> set (snap_candidates s)" for t' d'
      using arg_min_list_least [OF _ that, of ?f] open_cand best by simp
    have "snap_tenor requested s = (t, True)"
      using False target open_cand best by (simp add: snap_tenor_def tenor_dte_label)
    from snapped [OF False target this mem least] show ?thesis .
  qed
qed


section \<open>The display grid\<close>

lemma nearest_listed:
  assumes "map_of PILLAR_TARGET_DTE p = Some target" and "raw \<noteq> []"
    and known: "\<forall>x \<in> set raw. map_of LABEL_DTE (fst x) \<noteq> None"
  defines "nearest \<equiv> arg_min_list (\<lambda>(label, row). \<bar>label_dte label - target\<bar>) raw"
  shows "\<bar>label_dte (fst nearest) - target\<bar> \<le> LISTED_TOLERANCE_DAYS \<longleftrightarrow> p \<in> fst ` set raw"
    and "\<bar>label_dte (fst nearest) - target\<bar> \<le> LISTED_TOLERANCE_DAYS \<Longrightarrow> nearest \<in> set raw \<and> fst nearest = p"
proof -
  have mem: "nearest \<in> set raw" unfolding nearest_def using assms(2) by (rule arg_min_list_in)
  obtain l row where n: "nearest = (l, row)" by (cases nearest)
  with bspec [OF known mem] obtain d where d: "map_of LABEL_DTE l = Some d" by auto
  have near: "\<bar>label_dte (fst nearest) - target\<bar> \<le> LISTED_TOLERANCE_DAYS \<Longrightarrow> fst nearest = p"
    using label_near_pillar(1) [OF assms(1) d] n d by (simp add: label_dte_def)
  then show "\<bar>label_dte (fst nearest) - target\<bar> \<le> LISTED_TOLERANCE_DAYS \<Longrightarrow> nearest \<in> set raw \<and> fst nearest = p"
    using mem by simp
  have "\<bar>label_dte (fst nearest) - target\<bar> \<le> 0" if "(p, r) \<in> set raw" for r
    using arg_min_list_least [OF assms(2) that, of "\<lambda>(label, row). \<bar>label_dte label - target\<bar>"] pillar_target [OF assms(1)] n
    by (simp add: nearest_def label_dte_def split_beta)
  then show "\<bar>label_dte (fst nearest) - target\<bar> \<le> LISTED_TOLERANCE_DAYS \<longleftrightarrow> p \<in> fst ` set raw"
    using near mem n by (fastforce simp: LISTED_TOLERANCE_DAYS_def)
qed

lemma dated_known:
  assumes "(dte, ks) \<in> set (dated_strikes raw)"
  shows "\<exists>l row. (l, row) \<in> set raw \<and> map_of LABEL_DTE l = Some dte"
  using assms by (auto simp: dated_strikes_def set_map_filter)

lemma interp_strikes_ok:
  assumes "map_of PILLAR_TARGET_DTE p = Some target" and "p \<notin> fst ` set raw"
  shows "\<exists>ks. interp_strikes raw target = Inr ks"
proof -
  have ne: "dte \<noteq> target" if "(dte, ks) \<in> set (dated_strikes raw)" for dte ks
  proof
    assume "dte = target"
    with dated_known [OF that] obtain l row where l: "(l, row) \<in> set raw" "map_of LABEL_DTE l = Some target" by blast
    then have "l = p" using label_near_pillar(1) [OF assms(1) l(2)] by (simp add: LISTED_TOLERANCE_DAYS_def)
    with l(1) assms(2) show False by force
  qed
  have "filter (\<lambda>(dte, ks). dte < target) (dated_strikes raw) \<noteq> [] \<or>
      filter (\<lambda>(dte, ks). target < dte) (dated_strikes raw) \<noteq> [] \<or> dated_strikes raw = []"
  proof (cases "dated_strikes raw")
    case (Cons x xs)
    then have "fst x \<noteq> target" using ne [of "fst x" "snd x"] by simp
    with Cons show ?thesis by (cases "fst x < target") (auto simp: split_beta)
  qed simp
  then show ?thesis by (auto simp: interp_strikes_def Let_def)
qed

lemma interpolate_pillar_support:
  assumes "interpolate_pillar anchors target deltas tol margin = (Some ivs, source)" and "ivs \<noteq> []"
    and far: "\<And>a. a \<in> set anchors \<Longrightarrow> tol < \<bar>an_dte a - target\<bar>"
  shows "source = ''interp'' \<and> (\<exists>a \<in> set anchors. an_dte a < target \<and>
      ((\<exists>b \<in> set anchors. target < an_dte b) \<or> target - an_dte a \<le> margin))"
proof -
  let ?o = "sort_key an_dte anchors"
  let ?lo = "filter (\<lambda>a. an_dte a < target) ?o" and ?hi = "filter (\<lambda>a. target < an_dte a) ?o"
  have ne: "anchors \<noteq> []" using assms(1) by (auto simp: interpolate_pillar_def)
  then have "arg_min_list (\<lambda>a. \<bar>an_dte a - target\<bar>) ?o \<in> set ?o"
    by (intro arg_min_list_in) (metis set_empty2 set_sort)
  with far have notnear: "\<not> \<bar>an_dte (arg_min_list (\<lambda>a. \<bar>an_dte a - target\<bar>) ?o) - target\<bar> \<le> tol" by (simp add: not_le)
  have lo: "last ?lo \<in> set anchors \<and> an_dte (last ?lo) < target" if "?lo \<noteq> []"
    using last_in_set [OF that] by auto
  have hi: "hd ?hi \<in> set anchors \<and> target < an_dte (hd ?hi)" if "?hi \<noteq> []"
    using hd_in_set [OF that] by auto
  consider "?lo \<noteq> []" "?hi \<noteq> []" | "?lo \<noteq> []" "?hi = []" | "?lo = []" by blast
  then show ?thesis
  proof cases
    case 1
    with assms(1) ne notnear lo hi show ?thesis
      by (auto simp: interpolate_pillar_def Let_def split: if_splits)
  next
    case 2
    with assms(1) ne notnear lo show ?thesis
      by (auto simp: interpolate_pillar_def Let_def split: if_splits)
  next
    case 3
    with assms(1) ne notnear show ?thesis
      by (auto simp: interpolate_pillar_def Let_def split: if_splits)
  qed
qed


definition supported :: "vol_surface \<Rightarrow> int \<Rightarrow> bool" where
  "supported s target =
     (\<exists>l d. quoted s l \<and> map_of LABEL_DTE l = Some d \<and> d < target \<and>
        ((\<exists>h e. quoted s h \<and> map_of LABEL_DTE h = Some e \<and> target < e) \<or> target - d \<le> EXTRAP_MARGIN_DAYS))"

lemma anchors_of_mem:
  assumes "distinct (map fst s)" and "a \<in> set (anchors_of (raw_cells s))"
  shows "\<exists>l. quoted s l \<and> map_of LABEL_DTE l = Some (an_dte a) \<and> an_iv a = ivs_at s l"
proof -
  from assms(2) obtain l row where lr: "(l, row) \<in> set (raw_cells s)" and a: "a = \<lparr>an_dte = label_dte l, an_iv = row_ivs row\<rparr>"
    by (auto simp: anchors_of_def)
  from raw_cells_iff(2) [OF assms(1) lr] have q: "row_ivs row = ivs_at s l" "quoted s l" by simp_all
  then obtain d where "map_of LABEL_DTE l = Some d" by (auto simp: quoted_def)
  with q a show ?thesis by (intro exI [of _ l]) (simp add: label_dte_def)
qed

lemma row_ivs_nodes:
  "row_ivs (map (\<lambda>(d, iv). (d, Node \<lparr>vc_iv = Some iv, vc_strike = f d, vc_source = x, vc_z = z\<rparr>)) ivs) = ivs"
proof -
  have "cells_of (map (\<lambda>(d, iv). (d, Node \<lparr>vc_iv = Some iv, vc_strike = f d, vc_source = x, vc_z = z\<rparr>)) ivs) =
      map (\<lambda>(d, iv). (d, \<lparr>vc_iv = Some iv, vc_strike = f d, vc_source = x, vc_z = z\<rparr>)) ivs"
    by (induction ivs) (auto simp: cells_of_def List.map_filter_simps node_value_def)
  moreover have "List.map_filter (\<lambda>(d, c). map_option (Pair d) (vc_iv c))
      (map (\<lambda>(d, iv). (d, \<lparr>vc_iv = Some iv, vc_strike = f d, vc_source = x, vc_z = z\<rparr>)) ivs) = ivs"
    by (induction ivs) (auto simp: List.map_filter_simps)
  ultimately show ?thesis by (simp add: row_ivs_def)
qed

lemma display_pillar_spec:
  assumes dist: "distinct (map fst s)" and target: "map_of PILLAR_TARGET_DTE p = Some target"
  shows "\<exists>r. display_pillar deltas LISTED_TOLERANCE_DAYS (raw_cells s) target = Inr r \<and>
    (quoted s p \<longrightarrow> (\<exists>row. r = Some row \<and> row_ivs row = ivs_at s p)) \<and>
    (\<not> quoted s p \<longrightarrow> (\<forall>row. r = Some row \<and> row_ivs row \<noteq> [] \<longrightarrow> supported s target))"
proof -
  let ?raw = "raw_cells s"
  let ?near = "arg_min_list (\<lambda>(label, row). \<bar>label_dte label - target\<bar>) ?raw"
  have known: "\<forall>x \<in> set ?raw. map_of LABEL_DTE (fst x) \<noteq> None" by (auto simp: raw_cells_def)
  have iff: "p \<in> fst ` set ?raw \<longleftrightarrow> quoted s p" using raw_cells_iff(1) [OF dist, of p] by force
  show ?thesis
  proof (cases "quoted s p")
    case True
    then have ne: "?raw \<noteq> []" using iff by auto
    note near = nearest_listed [OF target ne known]
    from near(1) iff True have close: "\<bar>label_dte (fst ?near) - target\<bar> \<le> LISTED_TOLERANCE_DAYS" by simp
    from near(2) [OF this] have mem: "(p, snd ?near) \<in> set ?raw" by (metis prod.collapse)
    have "display_pillar deltas LISTED_TOLERANCE_DAYS ?raw target = Inr (Some (tag_listed (snd ?near)))"
      using ne close by (simp add: display_pillar_def Let_def)
    with True raw_cells_iff(2) [OF dist mem] show ?thesis by simp
  next
    case False
    with iff have notin: "p \<notin> fst ` set ?raw" by simp
    then have far: "\<not> (?raw \<noteq> [] \<and> \<bar>label_dte (fst ?near) - target\<bar> \<le> LISTED_TOLERANCE_DAYS)"
      using nearest_listed(1) [OF target _ known] by blast
    obtain ks where ks: "interp_strikes ?raw target = Inr ks" using interp_strikes_ok [OF target notin] by blast
    obtain o_ivs source where ip: "interpolate_pillar (anchors_of ?raw) target deltas LISTED_TOLERANCE_DAYS EXTRAP_MARGIN_DAYS = (o_ivs, source)"
      by (cases "interpolate_pillar (anchors_of ?raw) target deltas LISTED_TOLERANCE_DAYS EXTRAP_MARGIN_DAYS")
    have dp: "display_pillar deltas LISTED_TOLERANCE_DAYS ?raw target =
      (case o_ivs of None \<Rightarrow> Inr None
       | Some ivs \<Rightarrow> Inr (Some (map (\<lambda>(d, iv). (d, Node
           \<lparr>vc_iv = Some iv, vc_strike = map_of ks d, vc_source = Some source, vc_z = None\<rparr>)) ivs)))"
      unfolding display_pillar_def Let_def if_not_P [OF far] ip ks by (simp split: option.splits)
    show ?thesis
    proof (cases o_ivs)
      case None
      with dp False show ?thesis by simp
    next
      case (Some ivs)
      have afar: "LISTED_TOLERANCE_DAYS < \<bar>an_dte a - target\<bar>" if a: "a \<in> set (anchors_of ?raw)" for a
      proof (rule ccontr)
        assume "\<not> LISTED_TOLERANCE_DAYS < \<bar>an_dte a - target\<bar>"
        with anchors_of_mem [OF dist a] label_near_pillar(1) [OF target] False show False by fastforce
      qed
      have "supported s target" if "ivs \<noteq> []"
      proof -
        from interpolate_pillar_support [OF ip [unfolded Some] that afar] obtain a where
          a: "a \<in> set (anchors_of ?raw)" "an_dte a < target"
            "(\<exists>b \<in> set (anchors_of ?raw). target < an_dte b) \<or> target - an_dte a \<le> EXTRAP_MARGIN_DAYS" by blast
        from anchors_of_mem [OF dist a(1)] obtain l where "quoted s l" "map_of LABEL_DTE l = Some (an_dte a)" by blast
        moreover have "(\<exists>h e. quoted s h \<and> map_of LABEL_DTE h = Some e \<and> target < e) \<or> target - an_dte a \<le> EXTRAP_MARGIN_DAYS"
          using a(3) anchors_of_mem [OF dist] by blast
        ultimately show ?thesis using a(2) unfolding supported_def by blast
      qed
      with dp Some False show ?thesis by (simp add: row_ivs_nodes)
    qed
  qed
qed

lemma map_of_display:
  assumes "\<forall>p \<in> set ps. \<not> is_meta p"
  shows "map_of (rows_of (List.map_filter (\<lambda>(pillar, r). map_option (\<lambda>row. (pillar, Node row)) r) (map (\<lambda>p. (p, g p)) ps))) k =
    (if k \<in> set ps then g k else None)"
  using assms
proof (induction ps)
  case (Cons p ps)
  then show ?case by (cases "g p") (auto simp: List.map_filter_simps rows_of_Cons)
qed (simp add: List.map_filter_simps)

lemma map_of_meta_display:
  assumes "\<forall>p \<in> set ps. \<not> is_meta p" and "is_meta k"
  shows "map_of (filter (\<lambda>(k, v). is_meta k) s @
      List.map_filter (\<lambda>(pillar, r). map_option (\<lambda>row. (pillar, Node row)) r) (map (\<lambda>p. (p, g p)) ps)) k = map_of s k"
proof -
  have "map_of (List.map_filter (\<lambda>(pillar, r). map_option (\<lambda>row. (pillar, Node row)) r) (map (\<lambda>p. (p, g p)) ps)) k = None"
    using assms by (induction ps) (auto simp: List.map_filter_simps split: option.splits)
  moreover have "map_of (filter (\<lambda>(k, v). is_meta k) s) k = map_of s k"
    using assms(2) by (induction s) auto
  ultimately show ?thesis by (simp add: map_add_def split: option.splits)
qed

text \<open>
  The display surface is total and honest: the transformation never raises; a pillar
  whose own tenor is quoted shows exactly the quoted volatilities; any other pillar shows a
  volatility only if quoted expiries bracket it or one lies at most 45 days before it;
  nothing but pillars is shown, and the meta entries are carried through.
\<close>

theorem display_surface_exact:
  assumes "distinct (map fst s)"
  shows "\<exists>out. to_display_surface deltas LISTED_TOLERANCE_DAYS s = Inr out \<and>
    (\<forall>p target. map_of PILLAR_TARGET_DTE p = Some target \<longrightarrow>
       (if quoted s p then ivs_at out p = ivs_at s p
        else ivs_at out p = [] \<or> supported s target)) \<and>
    (\<forall>t. t \<notin> set DISPLAY_PILLARS \<longrightarrow> ivs_at out t = []) \<and>
    (\<forall>k. is_meta k \<longrightarrow> map_of out k = map_of s k)"
proof -
  let ?f = "\<lambda>p. case map_of PILLAR_TARGET_DTE p of None \<Rightarrow> None
     | Some target \<Rightarrow> (case display_pillar deltas LISTED_TOLERANCE_DAYS (raw_cells s) target of Inl e \<Rightarrow> None | Inr r \<Rightarrow> r)"
  have "display_rows deltas LISTED_TOLERANCE_DAYS (raw_cells s) = Inr (map (\<lambda>p. (p, ?f p)) DISPLAY_PILLARS)"
    unfolding display_rows_def
  proof (rule map_result_total)
    fix p assume "p \<in> set DISPLAY_PILLARS"
    then obtain target where t: "map_of PILLAR_TARGET_DTE p = Some target" using pillar_has_target by blast
    from display_pillar_spec [OF assms t, of deltas] t
    show "(case map_of PILLAR_TARGET_DTE p of None \<Rightarrow> Inl (KeyError ''pillar'')
       | Some target \<Rightarrow> case display_pillar deltas LISTED_TOLERANCE_DAYS (raw_cells s) target of
           Inl e \<Rightarrow> Inl e | Inr r \<Rightarrow> Inr (p, r)) = Inr (p, ?f p)" by auto
  qed
  moreover define out where "out = filter (\<lambda>(k, v). is_meta k) s @
      List.map_filter (\<lambda>(pillar, r). map_option (\<lambda>row. (pillar, Node row)) r) (map (\<lambda>p. (p, ?f p)) DISPLAY_PILLARS)"
  ultimately have ok: "to_display_surface deltas LISTED_TOLERANCE_DAYS s = Inr (recompute_surface_z out)"
    by (simp add: to_display_surface_def)
  have nm: "\<forall>p \<in> set DISPLAY_PILLARS. \<not> is_meta p" using display_not_meta by blast
  have at: "ivs_at out k = (if k \<in> set DISPLAY_PILLARS then (case ?f k of None \<Rightarrow> [] | Some row \<Rightarrow> row_ivs row) else [])" for k
    using map_of_display [OF nm, of ?f k] by (simp add: ivs_at_def out_def rows_of_append)
  have pillars: "if quoted s p then ivs_at out p = ivs_at s p else ivs_at out p = [] \<or> supported s target"
    if t: "map_of PILLAR_TARGET_DTE p = Some target" for p target
  proof -
    from display_pillar_spec [OF assms t, of deltas] obtain r where
      r: "display_pillar deltas LISTED_TOLERANCE_DAYS (raw_cells s) target = Inr r"
        "quoted s p \<Longrightarrow> \<exists>row. r = Some row \<and> row_ivs row = ivs_at s p"
        "\<not> quoted s p \<Longrightarrow> \<forall>row. r = Some row \<and> row_ivs row \<noteq> [] \<longrightarrow> supported s target" by blast
    have "ivs_at out p = (case r of None \<Rightarrow> [] | Some row \<Rightarrow> row_ivs row)"
      using pillar_target [OF t] t r(1) by (simp add: at)
    then show ?thesis using r(2,3) by (cases r) auto
  qed
  have others: "ivs_at out t = []" if "t \<notin> set DISPLAY_PILLARS" for t using that by (simp add: at)
  have meta: "map_of (recompute_surface_z out) k = map_of s k" if "is_meta k" for k
    using map_of_meta_display [OF nm that, of s ?f] meta_recompute [OF that, of out] by (simp add: out_def)
  show ?thesis
    unfolding ok ivs_at_recompute
    by (intro exI [of _ "recompute_surface_z out"] conjI allI impI HOL.refl;
      (unfold ivs_at_recompute)?; (rule pillars | rule others | rule meta); assumption)
qed


theorem display_surface_exact_witness:
  "\<exists>out. to_display_surface DELTA_PILLARS LISTED_TOLERANCE_DAYS
     [(''4M'', Node [(''atm'', Node \<lparr>vc_iv = Some (7 / 100), vc_strike = Some (11 / 10), vc_source = Some ''pchip'', vc_z = None\<rparr>)]),
      (''_svi'', Scalar (PBool True))] = Inr out \<and>
   map_of out ''_svi'' = Some (Scalar (PBool True)) \<and> ivs_at out ''6M'' = []"
proof -
  let ?s = "[(''4M'', Node [(''atm'', Node \<lparr>vc_iv = Some (7 / 100), vc_strike = Some (11 / 10), vc_source = Some ''pchip'', vc_z = None\<rparr>)]),
      (''_svi'', Scalar (PBool True))] :: vol_surface"
  have meta: "is_meta ''_svi''" "\<not> is_meta ''4M''" by (simp_all add: is_meta_def py_startswith_def)
  have at: "ivs_at ?s t \<noteq> [] \<Longrightarrow> t = ''4M''" for t
    by (auto simp: ivs_at_def rows_of_Cons meta split: if_splits)
  then have q: "quoted ?s t \<Longrightarrow> t = ''4M''" for t by (simp add: quoted_def)
  then have "\<not> quoted ?s ''6M''" by force
  moreover have "\<not> supported ?s 180"
    using q by (auto simp: supported_def LABEL_DTE_def EXTRAP_MARGIN_DAYS_def dest!: q)
  moreover have "map_of PILLAR_TARGET_DTE ''6M'' = Some 180" by (simp add: PILLAR_TARGET_DTE_def)
  moreover have "distinct (map fst ?s)" by simp
  note display_surface_exact [OF this, of DELTA_PILLARS]
  ultimately show ?thesis using meta(1) by fastforce
qed


text \<open>
  A second pass extrapolates what the first one refused: with one listed expiry at 120 days
  the sixth month is missing, but the fifth month, held flat by the first pass, carries it
  the second time.
\<close>

definition flat_cell :: "string \<Rightarrow> flt option \<Rightarrow> vol_cell node" where
  "flat_cell source k = Node \<lparr>vc_iv = Some (7 / 100), vc_strike = k, vc_source = Some source, vc_z = None\<rparr>"

lemma display_twice_extrapolates:
  "to_display_surface DELTA_PILLARS LISTED_TOLERANCE_DAYS [(''4M'', Node [(''atm'', flat_cell ''pchip'' None)])] =
     Inr [(''4M'', Node [(''atm'', flat_cell ''listed'' None)]), (''5M'', Node [(''atm'', flat_cell ''interp'' None)])]"
  "to_display_surface DELTA_PILLARS LISTED_TOLERANCE_DAYS
      [(''4M'', Node [(''atm'', flat_cell ''listed'' None)]), (''5M'', Node [(''atm'', flat_cell ''interp'' None)])] =
     Inr [(''4M'', Node [(''atm'', flat_cell ''listed'' None)]), (''5M'', Node [(''atm'', flat_cell ''interp'' None)]),
       (''6M'', Node [(''atm'', flat_cell ''interp'' None)])]"
proof -
  note defs = to_display_surface_def display_rows_def DISPLAY_PILLARS_def PILLAR_TARGET_DTE_def display_pillar_def Let_def
    raw_cells_def rows_of_Cons is_meta_def py_startswith_def LABEL_DTE_def row_ivs_def cells_of_def List.map_filter_simps
    node_value_def flat_cell_def label_dte_def LISTED_TOLERANCE_DAYS_def anchors_of_def interpolate_pillar_def
    EXTRAP_MARGIN_DAYS_def interp_strikes_def dated_strikes_def cell_strikes_def tag_listed_def recompute_surface_z_def
    grid_ivs_def std_of_def mean_of_def
  show "to_display_surface DELTA_PILLARS LISTED_TOLERANCE_DAYS [(''4M'', Node [(''atm'', flat_cell ''pchip'' None)])] =
     Inr [(''4M'', Node [(''atm'', flat_cell ''listed'' None)]), (''5M'', Node [(''atm'', flat_cell ''interp'' None)])]"
    by (simp add: defs)
  show "to_display_surface DELTA_PILLARS LISTED_TOLERANCE_DAYS
      [(''4M'', Node [(''atm'', flat_cell ''listed'' None)]), (''5M'', Node [(''atm'', flat_cell ''interp'' None)])] =
     Inr [(''4M'', Node [(''atm'', flat_cell ''listed'' None)]), (''5M'', Node [(''atm'', flat_cell ''interp'' None)]),
       (''6M'', Node [(''atm'', flat_cell ''interp'' None)])]"
    by (simp add: defs)
qed

section \<open>Total variance\<close>

text \<open>The interpolated total variance lies between the two it was interpolated from.\<close>

definition total_variance :: "flt \<Rightarrow> int \<Rightarrow> flt" where
  "total_variance iv dte = iv * iv * of_int dte"

lemma interp_variance_between:
  assumes "0 \<le> dte_lo" "dte_lo < target" "target < dte_hi" "total_variance a dte_lo \<le> total_variance b dte_hi"
  shows "total_variance a dte_lo \<le> total_variance (interp_iv a dte_lo b dte_hi target) target"
    and "total_variance (interp_iv a dte_lo b dte_hi target) target \<le> total_variance b dte_hi"
proof -
  define frac where "frac = (of_int (target - dte_lo) / of_int (dte_hi - dte_lo) :: flt)"
  define w where "w = total_variance a dte_lo + (total_variance b dte_hi - total_variance a dte_lo) * frac"
  have frac: "0 \<le> frac" "frac \<le> 1" using assms(2,3) by (simp_all add: frac_def field_simps)
  have lo: "0 \<le> total_variance a dte_lo" using assms(1) by (simp add: total_variance_def)
  have between: "total_variance a dte_lo \<le> w" "w \<le> total_variance b dte_hi"
    using frac assms(4) mult_left_le [of frac "total_variance b dte_hi - total_variance a dte_lo"]
    by (simp_all add: w_def)
  have "total_variance (interp_iv a dte_lo b dte_hi target) target = w"
    using assms(1,2) lo between(1)
    by (simp add: total_variance_def interp_iv_def Let_def w_def frac_def)
  with between show "total_variance a dte_lo \<le> total_variance (interp_iv a dte_lo b dte_hi target) target"
    "total_variance (interp_iv a dte_lo b dte_hi target) target \<le> total_variance b dte_hi" by simp_all
qed

lemma sorted_last_filter:
  assumes "sorted (map f xs)" and "x \<in> set xs" and "f x < (t :: int)"
  shows "f x \<le> f (last (filter (\<lambda>a. f a < t) xs))"
proof -
  have s: "sorted (map f (filter (\<lambda>a. f a < t) xs))" using sorted_filter [OF assms(1)] .
  have "x \<in> set (filter (\<lambda>a. f a < t) xs)" using assms(2,3) by simp
  then obtain i where i: "i < length (filter (\<lambda>a. f a < t) xs)" "filter (\<lambda>a. f a < t) xs ! i = x"
    by (metis in_set_conv_nth)
  then have ne: "filter (\<lambda>a. f a < t) xs \<noteq> []" by auto
  have "map f (filter (\<lambda>a. f a < t) xs) ! i \<le> map f (filter (\<lambda>a. f a < t) xs) ! (length (filter (\<lambda>a. f a < t) xs) - 1)"
    using i(1) by (intro sorted_nth_mono [OF s]) auto
  then show ?thesis using i ne by (simp add: last_conv_nth)
qed

lemma sorted_hd_filter:
  assumes "sorted (map f xs)" and "x \<in> set xs" and "(t :: int) < f x"
  shows "f (hd (filter (\<lambda>a. t < f a) xs)) \<le> f x"
proof -
  have s: "sorted (map f (filter (\<lambda>a. t < f a) xs))" using sorted_filter [OF assms(1)] .
  have m: "x \<in> set (filter (\<lambda>a. t < f a) xs)" using assms(2,3) by simp
  with s show ?thesis by (cases "filter (\<lambda>a. t < f a) xs") auto
qed

lemma interp_smile_mem:
  assumes "(d, v) \<in> set (interp_smile deltas lo hi target)"
  shows "\<exists>a b. map_of (an_iv lo) d = Some a \<and> map_of (an_iv hi) d = Some b \<and>
    v = interp_iv a (an_dte lo) b (an_dte hi) target"
  using assms by (auto simp: interp_smile_def set_map_filter split: option.splits)

text \<open>
  C33. Interpolation adds no calendar arbitrage: when the total variance of a delta grows with
  the expiry over the listed anchors, the value interpolated for a pillar keeps the order,
  its total variance is at least that of every earlier anchor and at most that of every
  later one.
\<close>

theorem interpolation_keeps_calendar_order:
  assumes "interpolate_pillar anchors target deltas tol margin = (Some ivs, ''interp'')"
    and "(d, v) \<in> set ivs" and "\<forall>x \<in> set anchors. 0 \<le> an_dte x \<and> distinct (map fst (an_iv x))"
    and mono: "\<forall>x \<in> set anchors. \<forall>y \<in> set anchors. \<forall>a b. an_dte x \<le> an_dte y \<and> map_of (an_iv x) d = Some a \<and>
      map_of (an_iv y) d = Some b \<longrightarrow> total_variance a (an_dte x) \<le> total_variance b (an_dte y)"
    and "y \<in> set anchors" and "map_of (an_iv y) d = Some b"
  shows "(an_dte y < target \<longrightarrow> total_variance b (an_dte y) \<le> total_variance v target) \<and>
    (target < an_dte y \<longrightarrow> total_variance v target \<le> total_variance b (an_dte y))"
proof -
  let ?o = "sort_key an_dte anchors"
  let ?lo = "filter (\<lambda>a. an_dte a < target) ?o" and ?hi = "filter (\<lambda>a. target < an_dte a) ?o"
  have ysort: "y \<in> set ?o" using assms(5) by simp
  have lo: "last ?lo \<in> set anchors \<and> an_dte (last ?lo) < target" if "?lo \<noteq> []"
    using last_in_set [OF that] by auto
  have hi: "hd ?hi \<in> set anchors \<and> target < an_dte (hd ?hi)" if "?hi \<noteq> []"
    using hd_in_set [OF that] by auto
  have before: "an_dte y \<le> an_dte (last ?lo)" if "an_dte y < target"
    using sorted_last_filter [of an_dte ?o y target] ysort that by simp
  have after: "an_dte (hd ?hi) \<le> an_dte y" if "target < an_dte y"
    using sorted_hd_filter [of an_dte ?o y target] ysort that by simp
  consider (both) "?lo \<noteq> []" "?hi \<noteq> []" "ivs = interp_smile deltas (last ?lo) (hd ?hi) target"
    | (held) "?lo \<noteq> []" "?hi = []" "ivs = an_iv (last ?lo)"
    using assms(1) by (auto simp: interpolate_pillar_def Let_def split: if_splits)
  then show ?thesis
  proof cases
    case both
    note L = lo [OF both(1)] and H = hi [OF both(2)]
    from interp_smile_mem [OF assms(2) [unfolded both(3)]] obtain p q where
      pq: "map_of (an_iv (last ?lo)) d = Some p" "map_of (an_iv (hd ?hi)) d = Some q"
        and v: "v = interp_iv p (an_dte (last ?lo)) q (an_dte (hd ?hi)) target" by blast
    have "total_variance p (an_dte (last ?lo)) \<le> total_variance q (an_dte (hd ?hi))"
      using mono L H pq by force
    note b = interp_variance_between [OF _ conjunct2 [OF L] conjunct2 [OF H] this, folded v]
    have "total_variance b (an_dte y) \<le> total_variance p (an_dte (last ?lo))" if "an_dte y < target"
      using mono assms(5,6) before [OF that] pq(1) L by blast
    moreover have "total_variance q (an_dte (hd ?hi)) \<le> total_variance b (an_dte y)" if "target < an_dte y"
      using mono assms(5,6) after [OF that] pq(2) H by blast
    ultimately show ?thesis using b assms(3) L by fastforce
  next
    case held
    note L = lo [OF held(1)]
    have dv: "map_of (an_iv (last ?lo)) d = Some v" using assms(2,3) held(3) L by simp
    have "total_variance v (an_dte (last ?lo)) \<le> total_variance v target"
      using L by (intro mult_left_mono [of "of_int (an_dte (last ?lo))" "of_int target" "v * v", folded total_variance_def]) auto
    moreover have "total_variance b (an_dte y) \<le> total_variance v (an_dte (last ?lo))" if "an_dte y < target"
      using mono assms(5,6) before [OF that] dv L by blast
    moreover have "\<not> target < an_dte y" using held(2) ysort by (auto simp: filter_empty_conv)
    ultimately show ?thesis by fastforce
  qed
qed


theorem interpolation_keeps_calendar_order_witness:
  "total_variance 1 30 \<le> total_variance (interp_iv 1 30 2 90 60) 60 \<and>
   interpolate_pillar [\<lparr>an_dte = 90, an_iv = [(''atm'', 2)]\<rparr>, \<lparr>an_dte = 30, an_iv = [(''atm'', 1)]\<rparr>] 60 DELTA_PILLARS 12 45 =
     (Some [(''atm'', interp_iv 1 30 2 90 60)], ''interp'')"
proof -
  let ?as = "[\<lparr>an_dte = 90, an_iv = [(''atm'', 2)]\<rparr>, \<lparr>an_dte = 30, an_iv = [(''atm'', 1)]\<rparr>] :: tenor_anchor list"
  have run: "interpolate_pillar ?as 60 DELTA_PILLARS 12 45 = (Some [(''atm'', interp_iv 1 30 2 90 60)], ''interp'')"
    by (simp add: interpolate_pillar_def Let_def interp_smile_def DELTA_PILLARS_def List.map_filter_simps)
  have mono: "\<forall>x \<in> set ?as. \<forall>y \<in> set ?as. \<forall>a b. an_dte x \<le> an_dte y \<and> map_of (an_iv x) ''atm'' = Some a \<and>
      map_of (an_iv y) ''atm'' = Some b \<longrightarrow> total_variance a (an_dte x) \<le> total_variance b (an_dte y)"
    by (simp add: total_variance_def)
  from interpolation_keeps_calendar_order [OF run _ _ mono, of _ "\<lparr>an_dte = 30, an_iv = [(''atm'', 1)]\<rparr>" 1] run
  show ?thesis by simp
qed

section \<open>Properties of the snap and of the z-scores\<close>

text \<open>
  An order never trades a tenor without a contract when one is listed: the snap keeps a
  listed tenor; otherwise it takes a listed one, at the least distance in days of all listed
  ones, unless none is known; and snapping again changes nothing more.
\<close>

theorem snap_tenor_sound:
  "(case snap_tenor requested s of
      (t, True) \<Rightarrow> t \<in> set (surface_listed_tenors s) \<and> requested \<notin> set (surface_listed_tenors s) \<and>
        (\<exists>d target. map_of LABEL_DTE t = Some d \<and> map_of LABEL_DTE requested = Some target \<and>
           (\<forall>t' d'. t' \<in> set (surface_listed_tenors s) \<and> map_of LABEL_DTE t' = Some d' \<longrightarrow>
              \<bar>d - target\<bar> \<le> \<bar>d' - target\<bar>))
    | (t, False) \<Rightarrow> t = requested \<and>
        (t \<in> set (surface_listed_tenors s) \<or> map_of LABEL_DTE requested = None \<or>
         (\<forall>t' \<in> set (surface_listed_tenors s). map_of LABEL_DTE t' = None))) \<and>
   snap_tenor (fst (snap_tenor requested s)) s = (fst (snap_tenor requested s), False)"
proof (cases rule: snap_cases [of requested s])
  case stuck
  have "map_of LABEL_DTE t' = None" if "snap_candidates s = []" "t' \<in> set (surface_listed_tenors s)" for t'
    using that snap_candidates_iff [of t' _ s] by (cases "map_of LABEL_DTE t'") auto
  with stuck show ?thesis by auto
next
  case (snapped target t d)
  then have t: "t \<in> set (surface_listed_tenors s)" "map_of LABEL_DTE t = Some d" by (simp_all add: snap_candidates_iff)
  have "snap_tenor t s = (t, False)" using t(1) by (simp add: snap_tenor_def)
  moreover have "\<forall>t' d'. t' \<in> set (surface_listed_tenors s) \<and> map_of LABEL_DTE t' = Some d' \<longrightarrow> \<bar>d - target\<bar> \<le> \<bar>d' - target\<bar>"
    using snapped(5) snap_candidates_iff by blast
  ultimately show ?thesis using snapped t by auto
qed simp

theorem snap_tenor_sound_witness:
  "snap_tenor ''6M'' [(''4M'', Node [(''atm'', flat_cell ''listed'' None)]), (''5M'', Node [(''atm'', flat_cell ''interp'' None)])] =
     (''4M'', True) \<and>
   snap_tenor ''4M'' [(''4M'', Node [(''atm'', flat_cell ''listed'' None)]), (''5M'', Node [(''atm'', flat_cell ''interp'' None)])] =
     (''4M'', False)"
proof -
  let ?s = "[(''4M'', Node [(''atm'', flat_cell ''listed'' None)]), (''5M'', Node [(''atm'', flat_cell ''interp'' None)])]"
  have "snap_tenor ''6M'' ?s = (''4M'', True)"
    by (simp add: snap_tenor_def surface_listed_tenors_def rows_of_Cons is_meta_def py_startswith_def row_is_listed_def
        cells_of_def List.map_filter_simps node_value_def flat_cell_def Let_def tenor_dte_def PILLAR_TARGET_DTE_def
        snap_candidates_def del: not_None_eq)
  with snap_tenor_sound [of ?s "''6M''"] show ?thesis by simp
qed

lemma std_of_pos_sum: "0 < std_of xs \<Longrightarrow> sum_list (map (\<lambda>x. ((x - mean_of xs) / std_of xs) ^ 2) xs) = of_nat (length xs)"
proof -
  assume pos: "0 < std_of xs"
  let ?q = "sum_list (map (\<lambda>x. (x - mean_of xs) ^ 2) xs)"
  have n: "0 < real (length xs)" using pos by (cases xs) (auto simp: std_of_def)
  have q: "0 \<le> ?q" by (intro sum_list_nonneg) auto
  have "std_of xs ^ 2 = ?q / of_nat (length xs)" using q by (simp add: std_of_def)
  then have "?q = std_of xs ^ 2 * of_nat (length xs)" using n by (simp add: field_simps)
  moreover have "sum_list (map (\<lambda>x. ((x - mean_of xs) / std_of xs) ^ 2) xs) =
      sum_list (map (\<lambda>x. (x - mean_of xs) ^ 2 * (1 / std_of xs ^ 2)) xs)"
    by (simp add: power_divide)
  moreover have "\<dots> = ?q * (1 / std_of xs ^ 2)" by (simp only: sum_list_mult_const)
  ultimately show ?thesis using pos by simp
qed


lemma std_of_pos_mean: "0 < std_of xs \<Longrightarrow> sum_list (map (\<lambda>x. (x - mean_of xs) / std_of xs) xs) = 0"
proof -
  assume pos: "0 < std_of xs"
  have n: "0 < real (length xs)" using pos by (cases xs) (auto simp: std_of_def)
  have "sum_list (map (\<lambda>x. (x - mean_of xs) / std_of xs) xs) = sum_list (map (\<lambda>x. (x - mean_of xs) * (1 / std_of xs)) xs)"
    by simp
  also have "\<dots> = sum_list (map (\<lambda>x. x - mean_of xs) xs) * (1 / std_of xs)" by (simp only: sum_list_mult_const)
  also have "sum_list (map (\<lambda>x. x - mean_of xs) xs) = sum_list xs - of_nat (length xs) * mean_of xs"
    by (simp add: sum_list_subtractf sum_list_triv)
  also have "\<dots> = 0" using n by (simp add: mean_of_def)
  finally show ?thesis by simp
qed

text \<open>The z-scores of the cells with a volatility, row by row.\<close>

definition grid_zs :: "vol_surface \<Rightarrow> flt option list" where
  "grid_zs s = concat (map (\<lambda>(t, row). List.map_filter (\<lambda>(d, c). if vc_iv c = None then None else Some (vc_z c)) (cells_of row)) (rows_of s))"

lemma row_zs_set:
  "List.map_filter (\<lambda>(d, c). if vc_iv c = None then None else Some (vc_z c)) (cells_of (set_z f row)) =
     map (\<lambda>(d, iv). Some (f iv)) (row_ivs row)"
proof -
  have "List.map_filter (\<lambda>(d, c). if vc_iv c = None then None else Some (vc_z c))
      (map (\<lambda>(d, c). (d, case vc_iv c of None \<Rightarrow> c | Some iv \<Rightarrow> c\<lparr>vc_z := Some (f iv)\<rparr>)) cs) =
    map (\<lambda>(d, iv). Some (f iv)) (List.map_filter (\<lambda>(d, c). map_option (Pair d) (vc_iv c)) cs)"
    for cs :: "(string \<times> vol_cell) list"
    by (induction cs) (auto simp: List.map_filter_simps split: option.splits)
  then show ?thesis unfolding set_z_def row_ivs_def cells_map .
qed

text \<open>
  The z-scores are standard scores of the whole grid: when the volatilities of the grid
  are not all the same, every cell with a volatility gets one, they sum to zero and their
  squares to the number of cells; otherwise the surface is unchanged.
\<close>

theorem surface_z_standardised:
  "if length (grid_ivs s) < 2 \<or> std_of (grid_ivs s) \<le> 0 then recompute_surface_z s = s
   else \<exists>zs. grid_zs (recompute_surface_z s) = map Some zs \<and> length zs = length (grid_ivs s) \<and>
          sum_list zs = 0 \<and> sum_list (map (\<lambda>z. z ^ 2) zs) = of_nat (length zs)"
proof (cases "length (grid_ivs s) < 2 \<or> std_of (grid_ivs s) \<le> 0")
  case True
  then show ?thesis by (auto simp: recompute_surface_z_def Let_def)
next
  case False
  let ?f = "\<lambda>x. (x - mean_of (grid_ivs s)) / std_of (grid_ivs s)"
  let ?zs = "map ?f (grid_ivs s)"
  have "grid_zs (recompute_surface_z s) = concat (map (\<lambda>(t, row). map (\<lambda>(d, iv). Some (?f iv)) (row_ivs row)) (rows_of s))"
    using False row_zs_set [of ?f]
    by (simp add: recompute_surface_z_def Let_def grid_zs_def rows_of_zmap [unfolded case_prod_unfold] case_prod_unfold comp_def)
  also have "\<dots> = map Some ?zs"
    by (simp add: grid_ivs_def map_concat comp_def case_prod_unfold)
  finally have "grid_zs (recompute_surface_z s) = map Some ?zs" .
  moreover have pos: "0 < std_of (grid_ivs s)" using False by simp
  note std_of_pos_mean [OF pos] std_of_pos_sum [OF pos]
  ultimately show ?thesis using False by (simp add: exI [of _ ?zs] comp_def)
qed

end
