(* ===== verification/Trade_Preview.thy ===== *)
theory Trade_Preview
  imports Tenors Units Closing Black_Scholes
begin

text \<open>
  The trade preview (\<open>core/trade_preview.py\<close>, \<open>core/trade_preview_regime.py\<close>): structures built
  from a template or from free legs on a display surface, their pricing and greeks in dollars,
  scenarios, sizing and the checks before a submit. The error function of the standard
  library is the parameter \<open>erf\<close>. A date is its ordinal, \<open>today\<close> the clock of the call. A
  surface entry read here as absent when it is no dictionary would make the code raise; the
  volatility engine writes dictionaries only.
\<close>

section \<open>Black-76 primitives\<close>

definition phi :: "flt \<Rightarrow> flt" where
  "phi x = exp (- (1 / 2) * x * x) / sqrt (2 * pi)"

definition norm_cdf :: "(flt \<Rightarrow> flt) \<Rightarrow> flt \<Rightarrow> flt" where
  "norm_cdf erf x = 1 / 2 * (1 + erf (x / sqrt 2))"

definition pv_price :: "(flt \<Rightarrow> flt) \<Rightarrow> flt \<Rightarrow> flt \<Rightarrow> flt \<Rightarrow> flt \<Rightarrow> string \<Rightarrow> flt" where
  "pv_price erf F K T sigma right =
     (if T \<le> 0 \<or> sigma \<le> 0 \<or> F \<le> 0 \<or> K \<le> 0 then max 0 (if right = ''call'' then F - K else K - F)
      else
        let sqrt_t = sqrt T;
            d1 = (ln (F / K) + 1 / 2 * sigma * sigma * T) / (sigma * sqrt_t);
            d2 = d1 - sigma * sqrt_t
        in if right = ''call'' then F * norm_cdf erf d1 - K * norm_cdf erf d2
           else K * norm_cdf erf (- d2) - F * norm_cdf erf (- d1))"

record raw_greeks =
  rg_delta :: flt
  rg_gamma :: flt
  rg_vega :: flt
  rg_theta :: flt

definition pv_greeks :: "(flt \<Rightarrow> flt) \<Rightarrow> flt \<Rightarrow> flt \<Rightarrow> flt \<Rightarrow> flt \<Rightarrow> string \<Rightarrow> raw_greeks" where
  "pv_greeks erf F K T sigma right =
     (if T \<le> 0 \<or> sigma \<le> 0 \<or> F \<le> 0 \<or> K \<le> 0
      then \<lparr>rg_delta = 0, rg_gamma = 0, rg_vega = 0, rg_theta = 0\<rparr>
      else
        let sqrt_t = sqrt T;
            d1 = (ln (F / K) + 1 / 2 * sigma * sigma * T) / (sigma * sqrt_t);
            delta_call = norm_cdf erf d1
        in \<lparr>rg_delta = (if right = ''call'' then delta_call else delta_call - 1),
            rg_gamma = phi d1 / (F * sigma * sqrt_t),
            rg_vega = F * phi d1 * sqrt_t,
            rg_theta = - F * phi d1 * sigma / (2 * sqrt_t)\<rparr>)"

section \<open>Templates\<close>

text \<open>
  Of a template the parts the builder reads and its display name (ASCII); the descriptive texts
  and the typical signs the catalogue endpoint shows beside them are left out.
\<close>

record template_leg =
  tl_contract_type :: string
  tl_delta_pillar :: string
  tl_tenor_role :: "string option"
  tl_side :: string
  tl_qty_factor :: int
  tl_overridable :: bool

record template =
  te_display :: string
  te_requires_delta_hedge :: bool
  te_vega_sign :: string
  te_in_catalog :: bool
  te_legs :: "template_leg list"

definition tleg :: "string \<Rightarrow> string \<Rightarrow> string \<Rightarrow> int \<Rightarrow> template_leg" where
  "tleg ct pillar side qf = \<lparr>tl_contract_type = ct, tl_delta_pillar = pillar, tl_tenor_role = None, tl_side = side,
     tl_qty_factor = qf, tl_overridable = True\<rparr>"

definition TEMPLATES :: "(string \<times> template) list" where
  "TEMPLATES =
    [(''straddle_atm'', \<lparr>te_display = ''Long straddle ATM'', te_requires_delta_hedge = True, te_vega_sign = ''positive'',
        te_in_catalog = True, te_legs = [tleg ''call'' ''atm'' BUY 1, tleg ''put'' ''atm'' BUY 1]\<rparr>),
     (''short_strangle'', \<lparr>te_display = ''Short OTM strangle'', te_requires_delta_hedge = True, te_vega_sign = ''negative'',
        te_in_catalog = True, te_legs = [tleg ''call'' ''25dc'' SELL 1, tleg ''put'' ''25dp'' SELL 1]\<rparr>),
     (''calendar_long'', \<lparr>te_display = ''Calendar buy long-dated'', te_requires_delta_hedge = True, te_vega_sign = ''positive'',
        te_in_catalog = True, te_legs = [(tleg ''call'' ''atm'' SELL 1)\<lparr>tl_tenor_role := Some ''near''\<rparr>,
          (tleg ''call'' ''atm'' BUY 1)\<lparr>tl_tenor_role := Some ''far''\<rparr>]\<rparr>),
     (''calendar_short'', \<lparr>te_display = ''Calendar sell long-dated'', te_requires_delta_hedge = True, te_vega_sign = ''negative'',
        te_in_catalog = True, te_legs = [(tleg ''call'' ''atm'' BUY 1)\<lparr>tl_tenor_role := Some ''near''\<rparr>,
          (tleg ''call'' ''atm'' SELL 1)\<lparr>tl_tenor_role := Some ''far''\<rparr>]\<rparr>),
     (''long_butterfly_25d'', \<lparr>te_display = ''Long butterfly (10d wings)'', te_requires_delta_hedge = True, te_vega_sign = ''neutral'',
        te_in_catalog = True, te_legs = [tleg ''call'' ''10dc'' BUY 1, (tleg ''call'' ''atm'' SELL 2)\<lparr>tl_overridable := False\<rparr>,
          tleg ''call'' ''10dp'' BUY 1]\<rparr>),
     (''short_butterfly_25d'', \<lparr>te_display = ''Short butterfly (10d wings)'', te_requires_delta_hedge = True, te_vega_sign = ''neutral'',
        te_in_catalog = True, te_legs = [tleg ''call'' ''10dc'' SELL 1, (tleg ''call'' ''atm'' BUY 2)\<lparr>tl_overridable := False\<rparr>,
          tleg ''call'' ''10dp'' SELL 1]\<rparr>),
     (''short_straddle_atm'', \<lparr>te_display = ''Short straddle ATM'', te_requires_delta_hedge = True, te_vega_sign = ''negative'',
        te_in_catalog = False, te_legs = [tleg ''call'' ''atm'' SELL 1, tleg ''put'' ''atm'' SELL 1]\<rparr>),
     (''long_strangle_25d'', \<lparr>te_display = ''Long 25d strangle'', te_requires_delta_hedge = True, te_vega_sign = ''positive'',
        te_in_catalog = False, te_legs = [tleg ''call'' ''25dc'' BUY 1, tleg ''put'' ''25dp'' BUY 1]\<rparr>),
     (''future_buy'', \<lparr>te_display = ''Buy 6E future (delta hedge)'', te_requires_delta_hedge = False, te_vega_sign = ''neutral'',
        te_in_catalog = False, te_legs = [tleg ''future'' ''atm'' BUY 1]\<rparr>),
     (''future_sell'', \<lparr>te_display = ''Sell 6E future (delta hedge)'', te_requires_delta_hedge = False, te_vega_sign = ''neutral'',
        te_in_catalog = False, te_legs = [tleg ''future'' ''atm'' SELL 1]\<rparr>),
     (''vanilla_call'', \<lparr>te_display = ''Long call'', te_requires_delta_hedge = True, te_vega_sign = ''positive'',
        te_in_catalog = False, te_legs = [tleg ''call'' ''atm'' BUY 1]\<rparr>),
     (''short_vanilla_call'', \<lparr>te_display = ''Short call'', te_requires_delta_hedge = True, te_vega_sign = ''negative'',
        te_in_catalog = False, te_legs = [tleg ''call'' ''atm'' SELL 1]\<rparr>),
     (''vanilla_put'', \<lparr>te_display = ''Long put'', te_requires_delta_hedge = True, te_vega_sign = ''positive'',
        te_in_catalog = False, te_legs = [tleg ''put'' ''atm'' BUY 1]\<rparr>),
     (''short_vanilla_put'', \<lparr>te_display = ''Short put'', te_requires_delta_hedge = True, te_vega_sign = ''negative'',
        te_in_catalog = False, te_legs = [tleg ''put'' ''atm'' SELL 1]\<rparr>)]"

definition TENOR_TO_DTE :: "(string \<times> int) list" where
  "TENOR_TO_DTE = [(''1M'', 30), (''2M'', 60), (''3M'', 90), (''4M'', 120), (''5M'', 150), (''6M'', 180)]"

section \<open>Building a structure\<close>

record preview_leg =
  pl_leg_idx :: nat
  pl_contract_type :: string
  pl_tenor :: string
  pl_expiry :: int
  pl_dte :: int
  pl_strike :: "flt option"
  pl_qty_factor :: int
  pl_side :: string
  pl_entry_iv_pct :: "flt option"
  pl_requested_tenor :: "string option"
  pl_snapped :: bool

record preview_structure =
  ps_type :: string
  ps_reference_tenor :: string
  ps_tenor_far :: "string option"
  ps_legs :: "preview_leg list"
  ps_requires_delta_hedge :: bool
  ps_vega_sign :: string
  ps_future_contract_size :: "string option"
  ps_product_label :: "string option"

definition resolve_tenor :: "template_leg \<Rightarrow> string \<Rightarrow> string option \<Rightarrow> string" where
  "resolve_tenor lt near far =
     (if tl_tenor_role lt = Some ''near'' then near
      else if tl_tenor_role lt = Some ''far'' then (if str_or far = [] then near else str_or far)
      else near)"

fun remove_pair :: "char \<Rightarrow> char \<Rightarrow> string \<Rightarrow> string" where
  "remove_pair a b (x # y # cs) =
     (if x = a \<and> y = b then remove_pair a b cs else x # remove_pair a b (y # cs))"
| "remove_pair a b s = s"

definition py_endswith :: "string \<Rightarrow> string \<Rightarrow> bool" where
  "py_endswith s p = py_startswith (rev s) (rev p)"

definition mirror_pillar :: "string \<Rightarrow> string \<Rightarrow> string \<Rightarrow> string" where
  "mirror_pillar override template_pillar contract_type =
     (if override = ''atm'' then ''atm''
      else
        let level = py_strip (remove_pair CHR ''d'' CHR ''p'' (remove_pair CHR ''d'' CHR ''c'' override))
        in if py_endswith template_pillar ''dc'' then level @ ''dc''
           else if py_endswith template_pillar ''dp'' then level @ ''dp''
           else if contract_type = ''call'' then level @ ''dc'' else level @ ''dp'')"

definition cell_at :: "vol_surface \<Rightarrow> string \<Rightarrow> string \<Rightarrow> vol_cell option" where
  "cell_at s tenor pillar =
     (case map_of s tenor of
        Some (Node row) \<Rightarrow> (case map_of row pillar of Some (Node c) \<Rightarrow> Some c | _ \<Rightarrow> None)
      | _ \<Rightarrow> None)"

definition cell_strike :: "vol_cell option \<Rightarrow> flt option" where
  "cell_strike c = (case c of None \<Rightarrow> None | Some x \<Rightarrow> vc_strike x)"

definition cell_iv_pct :: "vol_cell option \<Rightarrow> flt option" where
  "cell_iv_pct c = (case c of None \<Rightarrow> None | Some x \<Rightarrow> map_option (\<lambda>v. v * 100) (vc_iv x))"

definition template_pillar :: "string option \<Rightarrow> template_leg \<Rightarrow> string" where
  "template_pillar override lt =
     (if str_or override \<noteq> [] \<and> tl_overridable lt \<and> tl_contract_type lt \<noteq> ''future''
      then mirror_pillar (str_or override) (tl_delta_pillar lt) (tl_contract_type lt)
      else tl_delta_pillar lt)"

definition leg_of_template ::
  "int \<Rightarrow> string \<Rightarrow> string option \<Rightarrow> vol_surface \<Rightarrow> string option \<Rightarrow> flt option \<Rightarrow> bool \<Rightarrow> nat \<times> template_leg \<Rightarrow> preview_leg" where
  "leg_of_template today near far s delta_override strike_override single x =
     (let (i, lt) = x;
          tenor = resolve_tenor lt near far;
          c = cell_at s tenor (template_pillar delta_override lt);
          dte = (case map_of TENOR_TO_DTE tenor of None \<Rightarrow> 90 | Some d \<Rightarrow> d);
          is_future = (tl_contract_type lt = ''future'')
      in \<lparr>pl_leg_idx = i, pl_contract_type = tl_contract_type lt, pl_tenor = tenor, pl_expiry = today + dte, pl_dte = dte,
          pl_strike = (if is_future then None
                       else if single \<and> strike_override \<noteq> None then strike_override
                       else cell_strike c),
          pl_qty_factor = tl_qty_factor lt, pl_side = tl_side lt,
          pl_entry_iv_pct = (if is_future then None else cell_iv_pct c),
          pl_requested_tenor = None, pl_snapped = False\<rparr>)"

definition build_structure ::
  "int \<Rightarrow> string \<Rightarrow> string \<Rightarrow> string option \<Rightarrow> vol_surface \<Rightarrow> string option \<Rightarrow> flt option \<Rightarrow> string option \<Rightarrow>
   preview_structure result" where
  "build_structure today ty near far s delta_override strike_override csize =
     (case map_of TEMPLATES ty of
        None \<Rightarrow> Inl (ValueError ''unknown structure'')
      | Some tpl \<Rightarrow>
          let single = (length (te_legs tpl) = 1);
              legs = map (leg_of_template today near far s delta_override strike_override single)
                       (enumerate 0 (te_legs tpl));
              is_future_struct = (ty \<in> {''future_buy'', ''future_sell''});
              fcs = (if is_future_struct then Some (if str_or csize = [] then ''full'' else str_or csize) else None);
              hint = (if fcs = Some ''micro'' then Some ''M6E'' else if is_future_struct then Some ''6E'' else None)
          in Inr \<lparr>ps_type = ty, ps_reference_tenor = near, ps_tenor_far = far, ps_legs = legs,
               ps_requires_delta_hedge = te_requires_delta_hedge tpl, ps_vega_sign = te_vega_sign tpl,
               ps_future_contract_size = fcs, ps_product_label = product_label_from_symbol hint (Some ty)\<rparr>)"


section \<open>Free legs\<close>

definition strangle_delta_bucket :: "(flt \<Rightarrow> flt) \<Rightarrow> preview_leg list \<Rightarrow> flt option \<Rightarrow> string" where
  "strangle_delta_bucket erf opts spot =
     (case spot of
        None \<Rightarrow> []
      | Some sp \<Rightarrow>
          let ds = List.map_filter (\<lambda>l. case (pl_strike l, pl_entry_iv_pct l) of
                (Some k, Some iv) \<Rightarrow>
                  Some \<bar>rg_delta (pv_greeks erf sp k (of_int (max (pl_dte l) 0) / 365) (iv / 100) (pl_contract_type l))\<bar>
              | _ \<Rightarrow> None) opts;
              avg = sum_list ds / of_nat (length ds)
          in if ds = [] then [] else if avg < 175 / 1000 then ''10d'' else if avg < 375 / 1000 then ''25d'' else [])"

definition with_bucket :: "string \<Rightarrow> string \<Rightarrow> string" where
  "with_bucket name bucket = (if bucket = [] then name else name @ '' '' @ bucket)"

definition side_word :: "string \<Rightarrow> string" where
  "side_word side = (if side = BUY then ''long'' else ''short'')"

definition leg_set_side :: "preview_leg list \<Rightarrow> string option" where
  "leg_set_side opts =
     (let sides = set (map pl_side opts)
      in if sides = {BUY} then Some ''long'' else if sides = {SELL} then Some ''short'' else None)"

text \<open>The name of the options of a leg set without a future; None when no shape matches.\<close>

definition option_shape :: "(flt \<Rightarrow> flt) \<Rightarrow> preview_leg list \<Rightarrow> flt option \<Rightarrow> string option" where
  "option_shape erf opts spot =
     (let n = length opts;
          types = remdups (map pl_contract_type opts);
          tenors = remdups (map pl_tenor opts);
          strikes = remdups (List.map_filter pl_strike opts);
          both = (set types = {''call'', ''put''});
          bucket = strangle_delta_bucket erf opts spot
      in if n = 1 then Some (side_word (pl_side (hd opts)) @ '' '' @ pl_contract_type (hd opts))
         else if n = 2 \<and> length types = 1 \<and> length tenors = 2 then Some ''calendar''
         else
           case leg_set_side opts of
             Some side \<Rightarrow>
               if n = 2 \<and> both then
                 (if length strikes \<le> 1 then Some (side @ '' straddle'') else Some (with_bucket (side @ '' strangle'') bucket))
               else if n = 2 \<and> length types = 1 then Some (side @ '' vertical spread'')
               else None
           | None \<Rightarrow>
               if n = 2 \<and> both then Some (with_bucket ''risk reversal'' bucket)
               else if n = 2 \<and> length types = 1 \<and> length tenors = 1 then Some (hd types @ '' spread'')
               else if n = 3 \<and> length types = 1 \<and> length (remdups (map pl_side opts)) = 2 then Some ''butterfly''
               else None)"

definition classify_legs :: "(flt \<Rightarrow> flt) \<Rightarrow> preview_leg list \<Rightarrow> flt option \<Rightarrow> string" where
  "classify_legs erf legs spot =
     (let opts = filter (\<lambda>l. pl_contract_type l \<in> {''call'', ''put''}) legs;
          futs = filter (\<lambda>l. pl_contract_type l = ''future'') legs
      in if opts \<noteq> [] \<and> futs = [] then
           (case option_shape erf opts spot of Some name \<Rightarrow> name | None \<Rightarrow> ''custom'')
         else if futs \<noteq> [] \<and> opts = [] then side_word (pl_side (hd futs)) @ '' future''
         else if futs \<noteq> [] then ''custom (options + future)''
         else ''custom'')"

text \<open>The forward at the money of the first short tenor with one; 1.0 when there is none.\<close>

definition spot_from_surface :: "vol_surface \<Rightarrow> flt" where
  "spot_from_surface s =
     (case List.map_filter (\<lambda>t. cell_strike (cell_at s t ''atm'')) [''1M'', ''2M'', ''3M''] of
        [] \<Rightarrow> 1 | k # ks \<Rightarrow> k)"

record leg_request =
  lq_contract_type :: "string option"
  lq_side :: "string option"
  lq_tenor :: "string option"
  lq_delta_pillar :: "string option"
  lq_strike :: "flt option"
  lq_qty_factor :: "int option"
  lq_future_size :: "string option"

text \<open>\<open>x or default\<close> on a text.\<close>

definition str_or_default :: "string \<Rightarrow> string option \<Rightarrow> string" where
  "str_or_default dflt x = (if str_or x = [] then dflt else str_or x)"

definition future_leg :: "int \<Rightarrow> nat \<Rightarrow> string \<Rightarrow> int \<Rightarrow> int \<Rightarrow> string \<Rightarrow> preview_leg" where
  "future_leg today i tenor dte qf side =
     \<lparr>pl_leg_idx = i, pl_contract_type = ''future'', pl_tenor = tenor, pl_expiry = today + dte, pl_dte = dte,
      pl_strike = None, pl_qty_factor = qf, pl_side = side, pl_entry_iv_pct = None, pl_requested_tenor = None,
      pl_snapped = False\<rparr>"

text \<open>An option trades the tenor its request snaps to.\<close>

definition option_leg ::
  "int \<Rightarrow> vol_surface \<Rightarrow> nat \<Rightarrow> string \<Rightarrow> string \<Rightarrow> int \<Rightarrow> int \<Rightarrow> string \<Rightarrow> string \<Rightarrow> flt option \<Rightarrow> preview_leg" where
  "option_leg today s i ct tenor dte qf side pillar strike =
     (let (eff, snapped) = snap_tenor tenor s;
          eff_dte = (case map_of TENOR_TO_DTE eff of None \<Rightarrow> dte | Some d \<Rightarrow> d);
          c = cell_at s eff pillar
      in \<lparr>pl_leg_idx = i, pl_contract_type = ct, pl_tenor = eff, pl_expiry = today + eff_dte, pl_dte = eff_dte,
          pl_strike = (case strike of Some k \<Rightarrow> Some k | None \<Rightarrow> cell_strike c),
          pl_qty_factor = qf, pl_side = side, pl_entry_iv_pct = cell_iv_pct c,
          pl_requested_tenor = (if snapped then Some tenor else None), pl_snapped = snapped\<rparr>)"

text \<open>One leg, and its contract size when it is a future.\<close>

definition leg_of_request :: "int \<Rightarrow> vol_surface \<Rightarrow> nat \<times> leg_request \<Rightarrow> (preview_leg \<times> string option) result" where
  "leg_of_request today s x =
     (let (i, q) = x;
          ct = str_or (lq_contract_type q);
          side = py_upper (str_or (lq_side q));
          tenor = py_upper (str_or_default ''3M'' (lq_tenor q));
          qf = (case lq_qty_factor q of None \<Rightarrow> 1 | Some n \<Rightarrow> n);
          csize = str_or_default ''full'' (lq_future_size q);
          pillar = py_lower (str_or_default ''atm'' (lq_delta_pillar q))
      in if ct \<notin> {''call'', ''put'', ''future''} then Inl (ValueError ''bad contract_type'')
         else if side \<notin> {BUY, SELL} then Inl (ValueError ''bad side'')
         else
           case map_of TENOR_TO_DTE tenor of
             None \<Rightarrow> Inl (ValueError ''unknown tenor'')
           | Some dte \<Rightarrow>
               if qf \<le> 0 then Inl (ValueError ''qty_factor must be > 0'')
               else if ct = ''future'' then
                 (if csize \<notin> {''full'', ''micro''} then Inl (ValueError ''bad future_contract_size'')
                  else Inr (future_leg today i tenor dte qf side, Some csize))
               else if pillar \<notin> set DELTA_PILLARS then Inl (ValueError ''bad delta_pillar'')
               else Inr (option_leg today s i ct tenor dte qf side pillar (lq_strike q), None))"

definition vega_score :: "preview_leg list \<Rightarrow> int" where
  "vega_score legs =
     sum_list (map (\<lambda>l. (if pl_side l = BUY then 1 else - 1) * pl_qty_factor l)
       (filter (\<lambda>l. pl_contract_type l \<in> {''call'', ''put''}) legs))"

text \<open>\<open>sorted(..., key=lambda t: TENOR_TO_DTE[t])\<close> raises for a tenor outside the six.\<close>

definition sorted_tenors :: "preview_leg list \<Rightarrow> string list result" where
  "sorted_tenors legs =
     (let ts = remdups (map pl_tenor legs)
      in if list_ex (\<lambda>t. map_of TENOR_TO_DTE t = None) ts then Inl (KeyError ''tenor'')
         else Inr (sort_key (\<lambda>t. the (map_of TENOR_TO_DTE t)) ts))"

definition build_from_legs :: "(flt \<Rightarrow> flt) \<Rightarrow> int \<Rightarrow> leg_request list \<Rightarrow> vol_surface \<Rightarrow> preview_structure result" where
  "build_from_legs erf today specs s =
     (if specs = [] then Inl (ValueError ''at least one leg required'')
      else
        case map_result (leg_of_request today s) (enumerate 0 specs) of
          Inl e \<Rightarrow> Inl e
        | Inr built \<Rightarrow>
            let legs = map fst built;
                sizes = List.map_filter snd built;
                score = vega_score legs
            in case sorted_tenors legs of
                 Inl e \<Rightarrow> Inl e
               | Inr ts \<Rightarrow>
                   Inr \<lparr>ps_type = ''custom'', ps_reference_tenor = pl_tenor (hd legs),
                     ps_tenor_far = (if 1 < length ts then Some (last ts) else None), ps_legs = legs,
                     ps_requires_delta_hedge = list_ex (\<lambda>l. pl_contract_type l \<in> {''call'', ''put''}) legs,
                     ps_vega_sign = (if 0 < score then ''positive'' else if score < 0 then ''negative'' else ''neutral''),
                     ps_future_contract_size = (case sizes of [] \<Rightarrow> None | z # zs \<Rightarrow> Some z),
                     ps_product_label = Some (classify_legs erf legs (Some (spot_from_surface s)))\<rparr>)"


section \<open>Pricing and greeks in dollars\<close>

record pricing_result =
  pr_leg_prices_usd :: "flt list"
  pr_total_premium_usd :: flt
  pr_breakeven_pips :: "flt option"
  pr_max_loss_usd :: flt
  pr_max_loss_at_expiry_only :: bool

record net_greeks =
  ng_vega :: flt
  ng_gamma :: flt
  ng_theta :: flt
  ng_delta_unhedged :: flt
  ng_delta_post_hedge :: flt

definition side_sign :: "string \<Rightarrow> flt" where
  "side_sign side = (if side = BUY then 1 else - 1)"

text \<open>Strike and volatility of a leg that can be priced: an option with both present and not zero.\<close>

definition priceable :: "preview_leg \<Rightarrow> (flt \<times> flt) option" where
  "priceable l =
     (if pl_contract_type l \<in> {''call'', ''put''} then
        (case (pl_strike l, pl_entry_iv_pct l) of
           (Some k, Some iv) \<Rightarrow> if k \<noteq> 0 \<and> iv \<noteq> 0 then Some (k, iv) else None
         | _ \<Rightarrow> None)
      else None)"

definition leg_years :: "preview_leg \<Rightarrow> flt" where
  "leg_years l = of_int (pl_dte l) / 365"

definition leg_price :: "(flt \<Rightarrow> flt) \<Rightarrow> flt \<Rightarrow> preview_leg \<Rightarrow> flt" where
  "leg_price erf spot l =
     (case priceable l of
        None \<Rightarrow> 0
      | Some (k, iv) \<Rightarrow> pv_price erf spot k (leg_years l) (iv / 100) (pl_contract_type l) * EUR_FOP_MULTIPLIER)"

definition price_structure :: "(flt \<Rightarrow> flt) \<Rightarrow> preview_structure \<Rightarrow> vol_surface \<Rightarrow> pricing_result" where
  "price_structure erf st s =
     (let spot = spot_from_surface s;
          prices = map (leg_price erf spot) (ps_legs st);
          total = sum_list (map (\<lambda>l. side_sign (pl_side l) * leg_price erf spot l * of_int (pl_qty_factor l)) (ps_legs st));
          max_loss = (if 0 < total then \<bar>total\<bar> else 10 ^ 9)
      in \<lparr>pr_leg_prices_usd = prices, pr_total_premium_usd = py_round 4 total, pr_breakeven_pips = None,
          pr_max_loss_usd = py_round 4 max_loss, pr_max_loss_at_expiry_only = (0 < total)\<rparr>)"

definition zero_greeks :: raw_greeks where
  "zero_greeks = \<lparr>rg_delta = 0, rg_gamma = 0, rg_vega = 0, rg_theta = 0\<rparr>"

definition leg_greeks :: "(flt \<Rightarrow> flt) \<Rightarrow> preview_leg \<Rightarrow> flt \<Rightarrow> flt \<Rightarrow> raw_greeks" where
  "leg_greeks erf l spot fut_mult =
     (if pl_contract_type l = ''future''
      then zero_greeks\<lparr>rg_delta := side_sign (pl_side l) * of_int (pl_qty_factor l) * fut_mult * spot\<rparr>
      else
        case priceable l of
          None \<Rightarrow> zero_greeks
        | Some (k, iv) \<Rightarrow>
            let g = pv_greeks erf spot k (leg_years l) (iv / 100) (pl_contract_type l);
                m = side_sign (pl_side l) * of_int (pl_qty_factor l) * EUR_FOP_MULTIPLIER
            in \<lparr>rg_delta = rg_delta g * spot * m, rg_gamma = rg_gamma g * PIP_SIZE ^ 2 * m,
                rg_vega = rg_vega g * VOLPT * m, rg_theta = rg_theta g / 365 * m\<rparr>)"

definition future_mult :: "preview_structure \<Rightarrow> flt" where
  "future_mult st =
     (case map_of FUTURE_MULTIPLIERS (str_or_default ''full'' (ps_future_contract_size st)) of
        None \<Rightarrow> 125000 | Some m \<Rightarrow> of_int m)"

definition greek_total :: "(raw_greeks \<Rightarrow> flt) \<Rightarrow> (flt \<Rightarrow> flt) \<Rightarrow> preview_structure \<Rightarrow> flt \<Rightarrow> flt" where
  "greek_total g erf st spot = sum_list (map (\<lambda>l. g (leg_greeks erf l spot (future_mult st))) (ps_legs st))"

definition compute_net_greeks :: "(flt \<Rightarrow> flt) \<Rightarrow> preview_structure \<Rightarrow> vol_surface \<Rightarrow> net_greeks" where
  "compute_net_greeks erf st s =
     (let spot = spot_from_surface s; delta = greek_total rg_delta erf st spot
      in \<lparr>ng_vega = py_round 4 (greek_total rg_vega erf st spot), ng_gamma = py_round 6 (greek_total rg_gamma erf st spot),
          ng_theta = py_round 4 (greek_total rg_theta erf st spot), ng_delta_unhedged = py_round 4 delta,
          ng_delta_post_hedge = py_round 4 (if ps_requires_delta_hedge st then 0 else delta)\<rparr>)"

record greek_leg_row =
  gl_leg :: preview_leg
  gl_greeks :: raw_greeks

definition compute_legs_greeks :: "(flt \<Rightarrow> flt) \<Rightarrow> preview_structure \<Rightarrow> vol_surface \<Rightarrow> greek_leg_row list" where
  "compute_legs_greeks erf st s =
     (let spot = spot_from_surface s
      in map (\<lambda>l. let g = leg_greeks erf l spot (future_mult st) in
           \<lparr>gl_leg = l, gl_greeks = \<lparr>rg_delta = py_round 4 (rg_delta g), rg_gamma = py_round 6 (rg_gamma g),
              rg_vega = py_round 2 (rg_vega g), rg_theta = py_round 2 (rg_theta g)\<rparr>\<rparr>) (ps_legs st))"

section \<open>Scenarios\<close>

record scenario_config =
  sc_label :: string
  sc_spot_move_pct :: flt
  sc_iv_reprice_volpts :: flt

definition DEFAULT_SCENARIOS :: "scenario_config list" where
  "DEFAULT_SCENARIOS =
    [\<lparr>sc_label = ''favorable'', sc_spot_move_pct = 2, sc_iv_reprice_volpts = 1\<rparr>,
     \<lparr>sc_label = ''neutral'', sc_spot_move_pct = 0, sc_iv_reprice_volpts = 0\<rparr>,
     \<lparr>sc_label = ''adverse'', sc_spot_move_pct = 1 / 2, sc_iv_reprice_volpts = - 1\<rparr>]"

definition DEFAULT_PNL_SPOT_MOVES_PCT :: "flt list" where
  "DEFAULT_PNL_SPOT_MOVES_PCT = [- 2, - 1, 0, 1, 2]"

definition DEFAULT_PNL_IV_MOVES_VOLPTS :: "flt list" where
  "DEFAULT_PNL_IV_MOVES_VOLPTS = [- 2, - 1, - 1 / 2, 0, 1 / 2, 1, 2]"

text \<open>The gamma result of a spot move in percent; gamma is per squared pip.\<close>

definition pnl_gamma :: "net_greeks \<Rightarrow> flt \<Rightarrow> flt \<Rightarrow> flt" where
  "pnl_gamma g spot ds_pct = (let ds_pips = spot * (ds_pct / 100) / PIP_SIZE in 1 / 2 * ng_gamma g * ds_pips ^ 2)"

record pnl_cell =
  gc_div_volpts :: flt
  gc_pnl_usd :: flt
  gc_is_current :: bool

definition compute_pnl_grid :: "vol_surface \<Rightarrow> net_greeks \<Rightarrow> flt list \<Rightarrow> flt list \<Rightarrow> (flt \<times> pnl_cell list) list" where
  "compute_pnl_grid s g spot_moves iv_moves =
     (let sm = (if spot_moves = [] then DEFAULT_PNL_SPOT_MOVES_PCT else spot_moves);
          im = (if iv_moves = [] then DEFAULT_PNL_IV_MOVES_VOLPTS else iv_moves);
          spot = spot_from_surface s
      in map (\<lambda>ds_pct. (ds_pct, map (\<lambda>dv.
            \<lparr>gc_div_volpts = dv, gc_pnl_usd = py_round 0 (pnl_gamma g spot ds_pct + ng_vega g * dv),
             gc_is_current = (ds_pct = 0 \<and> dv = 0)\<rparr>) im)) sm)"

record scenario_result =
  sr_config :: scenario_config
  sr_pnl_gamma_theta_usd :: flt
  sr_pnl_vega_usd :: flt
  sr_pnl_total_usd :: flt

definition simulate_scenarios :: "vol_surface \<Rightarrow> net_greeks \<Rightarrow> scenario_config list \<Rightarrow> scenario_result list" where
  "simulate_scenarios s g grid =
     (let spot = spot_from_surface s
      in map (\<lambda>sc. let pg = pnl_gamma g spot (sc_spot_move_pct sc); pt = ng_theta g * 1;
                       pv = ng_vega g * sc_iv_reprice_volpts sc in
           \<lparr>sr_config = sc, sr_pnl_gamma_theta_usd = py_round 2 (pg + pt), sr_pnl_vega_usd = py_round 2 pv,
            sr_pnl_total_usd = py_round 2 (pg + pt + pv)\<rparr>)
         (if grid = [] then DEFAULT_SCENARIOS else grid))"

section \<open>Regime, sizing and checks\<close>

record regime_payload =
  rp_regime :: "string option"
  rp_label :: "string option"
  rp_event_dampener :: bool

definition raw_regime_label :: "regime_payload option \<Rightarrow> string" where
  "raw_regime_label r =
     (case r of None \<Rightarrow> ''calm''
      | Some p \<Rightarrow> if str_or (rp_regime p) \<noteq> [] then str_or (rp_regime p) else str_or_default ''calm'' (rp_label p))"

definition LIMIT_MULTIPLIERS :: "(string \<times> flt) list" where
  "LIMIT_MULTIPLIERS = [(''calm'', 1), (''stressed'', 7 / 10), (''pre_event'', 0)]"

definition SCALABLE_LIMITS :: "string list" where
  "SCALABLE_LIMITS = [''max_loss_per_trade_pct'', ''max_book_vega_usd'', ''max_book_vega_per_tenor_usd'', ''max_n_open_structures'']"

definition regime_label :: "regime_payload option \<Rightarrow> string" where
  "regime_label r = py_lower (raw_regime_label r)"

definition multiplier_of :: "string \<Rightarrow> flt" where
  "multiplier_of label = (case map_of LIMIT_MULTIPLIERS label of None \<Rightarrow> 1 | Some m \<Rightarrow> m)"

definition apply_regime_to_limits :: "(string \<times> flt) list \<Rightarrow> regime_payload option \<Rightarrow> (string \<times> flt) list" where
  "apply_regime_to_limits limits r =
     (let m = multiplier_of (regime_label r)
      in if m = 1 then limits
         else map (\<lambda>(name, v). (name, if name \<in> set SCALABLE_LIMITS then v * m else v)) limits)"

record sizing_result =
  sz_base_qty :: int
  sz_z_factor :: flt
  sz_book_penalty :: flt
  sz_event_dampener :: flt
  sz_regime_multiplier :: flt
  sz_final_qty_per_leg :: int
  sz_leg_quantities :: "(nat \<times> int) list"
  sz_final_premium_usd :: flt

record sizing_input =
  si_z_score :: flt
  si_total_premium :: flt
  si_book_vega :: flt
  si_vega_neutral :: flt
  si_base_qty :: int
  si_threshold_min :: flt
  si_max_z_multiplier :: flt
  si_book_alpha :: flt
  si_regime :: "regime_payload option"
  si_qty_override :: "int option"

definition z_factor_of :: "sizing_input \<Rightarrow> flt" where
  "z_factor_of i =
     (if 0 < si_threshold_min i then min (\<bar>si_z_score i\<bar> / si_threshold_min i) (si_max_z_multiplier i) else 1)"

definition book_penalty_of :: "sizing_input \<Rightarrow> string \<Rightarrow> flt" where
  "book_penalty_of i vega_sign =
     (if vega_sign = ''positive'' \<and> 0 < si_book_vega i \<or> vega_sign = ''negative'' \<and> si_book_vega i < 0
      then (let ratio = \<bar>si_book_vega i\<bar> / max (si_vega_neutral i) 1 in max (1 / 2) (1 - si_book_alpha i * ratio))
      else 1)"

definition event_dampener_of :: "sizing_input \<Rightarrow> flt" where
  "event_dampener_of i =
     (case si_regime i of None \<Rightarrow> 1 | Some p \<Rightarrow> if rp_event_dampener p then 1 / 2 else 1)"

definition final_qty_of :: "sizing_input \<Rightarrow> string \<Rightarrow> int" where
  "final_qty_of i vega_sign =
     (let rm = multiplier_of (regime_label (si_regime i));
          raw = of_int (si_base_qty i) * z_factor_of i * book_penalty_of i vega_sign * event_dampener_of i * rm;
          q = (if 0 < rm then max 1 (round_half_even raw) else 0)
      in case si_qty_override i of None \<Rightarrow> q | Some n \<Rightarrow> if 0 < n then n else q)"

definition compute_sizing :: "sizing_input \<Rightarrow> preview_structure \<Rightarrow> sizing_result" where
  "compute_sizing i st =
     (let q = final_qty_of i (ps_vega_sign st)
      in \<lparr>sz_base_qty = si_base_qty i, sz_z_factor = py_round 2 (z_factor_of i),
          sz_book_penalty = py_round 2 (book_penalty_of i (ps_vega_sign st)), sz_event_dampener = event_dampener_of i,
          sz_regime_multiplier = multiplier_of (regime_label (si_regime i)), sz_final_qty_per_leg = q,
          sz_leg_quantities = map (\<lambda>l. (pl_leg_idx l, q * pl_qty_factor l)) (ps_legs st),
          sz_final_premium_usd = py_round 2 (si_total_premium i * (of_int q / of_int (max (si_base_qty i) 1)))\<rparr>)"

record check_input =
  ci_regime :: "regime_payload option"
  ci_armed_z :: flt
  ci_current_z :: flt
  ci_threshold_min :: flt
  ci_book_vega :: flt
  ci_structure_vega :: flt
  ci_max_book_vega :: flt
  ci_has_arb_violation :: bool
  ci_min_quoted_size :: int
  ci_min_liquidity :: int

text \<open>Name, verdict and details of a check. The loss and freshness inputs are ignored by the code.\<close>

definition run_pre_submit_checks :: "check_input \<Rightarrow> (string \<times> bool \<times> payload) list" where
  "run_pre_submit_checks c =
     (let label = raw_regime_label (ci_regime c);
          z_flipped = ((0 < ci_armed_z c) \<noteq> (0 < ci_current_z c));
          z_too_weak = (\<bar>ci_current_z c\<bar> < ci_threshold_min c * (7 / 10));
          post_vega = ci_book_vega c + ci_structure_vega c
      in [(''regime_not_pre_event'', py_lower label \<noteq> ''pre_event'', [(''regime'', PStr label)]),
          (''signal_still_actionable'', \<not> (z_flipped \<or> z_too_weak),
            [(''armed_z'', PFlt (ci_armed_z c)), (''current_z'', PFlt (ci_current_z c))]),
          (''vega_under_book_limit'', \<bar>post_vega\<bar> \<le> ci_max_book_vega c,
            [(''post_trade_vega'', PFlt (py_round 2 post_vega)), (''limit'', PFlt (ci_max_book_vega c))]),
          (''no_arb_violation_on_legs'', \<not> ci_has_arb_violation c, []),
          (''minimum_liquidity'', ci_min_liquidity c \<le> ci_min_quoted_size c,
            [(''min_quoted_size'', PInt (ci_min_quoted_size c)), (''limit'', PInt (ci_min_liquidity c))])])"


section \<open>Well-formed structures\<close>

definition wf_leg :: "int \<Rightarrow> nat \<Rightarrow> preview_leg \<Rightarrow> bool" where
  "wf_leg today i l =
     (pl_leg_idx l = i \<and> pl_contract_type l \<in> {''call'', ''put'', ''future''} \<and> pl_side l \<in> {BUY, SELL} \<and>
      0 < pl_qty_factor l \<and> 0 < pl_dte l \<and> pl_expiry l = today + pl_dte l \<and>
      (pl_contract_type l = ''future'' \<longrightarrow> pl_strike l = None \<and> pl_entry_iv_pct l = None) \<and>
      (pl_snapped l \<longleftrightarrow> pl_requested_tenor l \<noteq> None))"

definition has_contract :: "string set \<Rightarrow> preview_leg list \<Rightarrow> bool" where
  "has_contract cts legs = (\<exists>l \<in> set legs. pl_contract_type l \<in> cts)"

definition wf_structure :: "int \<Rightarrow> preview_structure \<Rightarrow> bool" where
  "wf_structure today st =
     (ps_legs st \<noteq> [] \<and> (\<forall>i < length (ps_legs st). wf_leg today i (ps_legs st ! i)) \<and>
      (ps_requires_delta_hedge st \<longleftrightarrow> has_contract {''call'', ''put''} (ps_legs st)) \<and>
      (ps_future_contract_size st \<noteq> None \<longleftrightarrow> has_contract {''future''} (ps_legs st)) \<and>
      ps_future_contract_size st \<in> {None, Some ''full'', Some ''micro''} \<and>
      ps_vega_sign st \<in> {''positive'', ''negative'', ''neutral''} \<and> ps_product_label st \<noteq> None)"

text \<open>The catalogue, checked once.\<close>

lemma templates_ok:
  assumes "map_of TEMPLATES ty = Some tpl"
  shows "te_legs tpl \<noteq> []" and "te_vega_sign tpl \<in> {''positive'', ''negative'', ''neutral''}"
    and "\<forall>lt \<in> set (te_legs tpl). tl_contract_type lt \<in> {''call'', ''put'', ''future''} \<and> tl_side lt \<in> {BUY, SELL} \<and> 0 < tl_qty_factor lt"
    and "te_requires_delta_hedge tpl \<longleftrightarrow> (\<exists>lt \<in> set (te_legs tpl). tl_contract_type lt \<in> {''call'', ''put''})"
    and "ty \<in> {''future_buy'', ''future_sell''} \<longleftrightarrow> (\<exists>lt \<in> set (te_legs tpl). tl_contract_type lt = ''future'')"
    and "product_label_from_symbol hint (Some ty) \<noteq> None"
proof -
  have mem: "(ty, tpl) \<in> set TEMPLATES" using assms by (rule map_of_SomeD)
  have all: "\<forall>(ty, tpl) \<in> set TEMPLATES. te_legs tpl \<noteq> [] \<and> te_vega_sign tpl \<in> {''positive'', ''negative'', ''neutral''} \<and>
      (\<forall>lt \<in> set (te_legs tpl). tl_contract_type lt \<in> {''call'', ''put'', ''future''} \<and> tl_side lt \<in> {BUY, SELL} \<and> 0 < tl_qty_factor lt) \<and>
      (te_requires_delta_hedge tpl \<longleftrightarrow> (\<exists>lt \<in> set (te_legs tpl). tl_contract_type lt \<in> {''call'', ''put''})) \<and>
      (ty \<in> {''future_buy'', ''future_sell''} \<longleftrightarrow> (\<exists>lt \<in> set (te_legs tpl). tl_contract_type lt = ''future''))"
    by (simp add: TEMPLATES_def tleg_def)
  have labels: "\<forall>(ty, tpl) \<in> set TEMPLATES. product_label_from_symbol hint (Some ty) \<noteq> None"
    by (simp add: TEMPLATES_def product_label_from_symbol_def STRUCTURE_TYPE_TO_LABEL_def py_startswith_def)
  show "te_legs tpl \<noteq> []" "te_vega_sign tpl \<in> {''positive'', ''negative'', ''neutral''}"
    "\<forall>lt \<in> set (te_legs tpl). tl_contract_type lt \<in> {''call'', ''put'', ''future''} \<and> tl_side lt \<in> {BUY, SELL} \<and> 0 < tl_qty_factor lt"
    "te_requires_delta_hedge tpl \<longleftrightarrow> (\<exists>lt \<in> set (te_legs tpl). tl_contract_type lt \<in> {''call'', ''put''})"
    "ty \<in> {''future_buy'', ''future_sell''} \<longleftrightarrow> (\<exists>lt \<in> set (te_legs tpl). tl_contract_type lt = ''future'')"
    using bspec [OF all mem] by simp_all
  show "product_label_from_symbol hint (Some ty) \<noteq> None" using bspec [OF labels mem] by simp
qed

lemma leg_of_template_facts:
  "pl_leg_idx (leg_of_template today near far s dp k single (i, lt)) = i"
  "pl_contract_type (leg_of_template today near far s dp k single (i, lt)) = tl_contract_type lt"
  "pl_side (leg_of_template today near far s dp k single (i, lt)) = tl_side lt"
  "pl_qty_factor (leg_of_template today near far s dp k single (i, lt)) = tl_qty_factor lt"
  by (simp_all add: leg_of_template_def Let_def)

lemma TENOR_TO_DTE_pos: "map_of TENOR_TO_DTE t = Some d \<Longrightarrow> 0 < d"
  by (auto simp: TENOR_TO_DTE_def split: if_splits)

lemma leg_of_template_wf:
  assumes "tl_contract_type lt \<in> {''call'', ''put'', ''future''}" "tl_side lt \<in> {BUY, SELL}" "0 < tl_qty_factor lt"
  shows "wf_leg today i (leg_of_template today near far s dp k single (i, lt))"
  using assms TENOR_TO_DTE_pos by (auto simp: wf_leg_def leg_of_template_def Let_def split: option.splits)

lemma has_contract_map: "has_contract cts (map f xs) \<longleftrightarrow> (\<exists>x \<in> set xs. pl_contract_type (f x) \<in> cts)"
  by (auto simp: has_contract_def)

lemma build_structure_wf:
  assumes "build_structure today ty near far s dp k csize = Inr st" and "csize \<in> {None, Some ''full'', Some ''micro''}"
  shows "wf_structure today st"
proof -
  from assms(1) obtain tpl where tpl: "map_of TEMPLATES ty = Some tpl"
    by (auto simp: build_structure_def split: option.splits)
  note ok = templates_ok [OF tpl]
  let ?f = "leg_of_template today near far s dp k (length (te_legs tpl) = 1)"
  have legs: "ps_legs st = map ?f (enumerate 0 (te_legs tpl))"
    and rest: "ps_requires_delta_hedge st = te_requires_delta_hedge tpl" "ps_vega_sign st = te_vega_sign tpl"
      "ps_future_contract_size st = (if ty \<in> {''future_buy'', ''future_sell''} then Some (if str_or csize = [] then ''full'' else str_or csize) else None)"
      "\<exists>hint. ps_product_label st = product_label_from_symbol hint (Some ty)"
    using assms(1) tpl by (auto simp: build_structure_def Let_def)
  have ne: "ps_legs st \<noteq> []" using ok(1) by (cases "te_legs tpl") (simp_all add: legs)
  have wf: "wf_leg today i (ps_legs st ! i)" if i: "i < length (ps_legs st)" for i
  proof -
    from i have lt: "te_legs tpl ! i \<in> set (te_legs tpl)" by (simp add: legs)
    have "ps_legs st ! i = ?f (i, te_legs tpl ! i)" using i by (simp add: legs nth_enumerate_eq)
    with bspec [OF ok(3) lt] leg_of_template_wf [of "te_legs tpl ! i"] show ?thesis by (simp del: insert_iff)
  qed
  have ct: "has_contract cts (ps_legs st) \<longleftrightarrow> (\<exists>lt \<in> set (te_legs tpl). tl_contract_type lt \<in> cts)" for cts
  proof -
    have "map pl_contract_type (map ?f (enumerate 0 xs)) = map tl_contract_type xs" if "?f = f" for xs f
      using that by (intro nth_equalityI) (auto simp: nth_enumerate_eq leg_of_template_facts)
    then have "set (map pl_contract_type (ps_legs st)) = set (map tl_contract_type (te_legs tpl))" using legs by metis
    then have "(\<exists>c \<in> set (map pl_contract_type (ps_legs st)). c \<in> cts) \<longleftrightarrow>
      (\<exists>c \<in> set (map tl_contract_type (te_legs tpl)). c \<in> cts)" by (simp only:)
    then show ?thesis by (simp add: has_contract_def)
  qed
  have fut: "ps_future_contract_size st \<noteq> None \<longleftrightarrow> has_contract {''future''} (ps_legs st)"
    using ok(5) rest(3) unfolding ct by (simp del: insert_iff add: singleton_iff)
  have size: "ps_future_contract_size st \<in> {None, Some ''full'', Some ''micro''}"
    using rest(3) assms(2) by auto
  have hedge: "ps_requires_delta_hedge st \<longleftrightarrow> has_contract {''call'', ''put''} (ps_legs st)"
    unfolding ct rest(1) by (rule ok(4))
  show ?thesis
    unfolding wf_structure_def using ne wf hedge fut size ok(2) rest(2,4) ok(6) by auto
qed


lemma leg_of_request_cases:
  assumes "leg_of_request today s (i, q) = Inr (l, z)"
  obtains (future) tenor dte qf side where "l = future_leg today i tenor dte qf side" "0 < dte" "0 < qf" "side \<in> {BUY, SELL}"
      "z = Some ''full'' \<or> z = Some ''micro''"
  | (option) ct tenor dte qf side pillar k where "l = option_leg today s i ct tenor dte qf side pillar k" "0 < dte" "0 < qf"
      "side \<in> {BUY, SELL}" "ct = ''call'' \<or> ct = ''put''" "z = None"
proof -
  let ?ct = "str_or (lq_contract_type q)" and ?side = "py_upper (str_or (lq_side q))"
  let ?tenor = "py_upper (str_or_default ''3M'' (lq_tenor q))"
  have ct: "?ct \<in> {''call'', ''put'', ''future''}" and side: "?side \<in> {BUY, SELL}"
    by (rule ccontr; use assms in \<open>simp add: leg_of_request_def Let_def del: insert_iff split: if_splits\<close>)+
  obtain dte where dte: "map_of TENOR_TO_DTE ?tenor = Some dte"
    using assms ct side by (cases "map_of TENOR_TO_DTE ?tenor") (simp_all add: leg_of_request_def Let_def del: insert_iff)
  show ?thesis
  proof (cases "?ct = ''future''")
    case True
    with assms ct side dte TENOR_TO_DTE_pos [OF dte] show ?thesis
      by (intro future [of ?tenor dte "case lq_qty_factor q of None \<Rightarrow> 1 | Some n \<Rightarrow> n" ?side])
        (auto simp: leg_of_request_def Let_def split: if_splits)
  next
    case False
    let ?pillar = "py_lower (str_or_default ''atm'' (lq_delta_pillar q))"
    show ?thesis
      by (rule option [of ?ct ?tenor dte "case lq_qty_factor q of None \<Rightarrow> 1 | Some n \<Rightarrow> n" ?side ?pillar "lq_strike q"])
        (use assms ct side dte TENOR_TO_DTE_pos [OF dte] False in \<open>simp_all add: leg_of_request_def Let_def del: insert_iff split: if_splits\<close>,
          use ct False in auto)
  qed
qed

lemma leg_of_request_wf:
  assumes "leg_of_request today s (i, q) = Inr (l, z)"
  shows "wf_leg today i l"
    and "z \<noteq> None \<longleftrightarrow> pl_contract_type l = ''future''" and "z \<in> {None, Some ''full'', Some ''micro''}"
  by (cases rule: leg_of_request_cases [OF assms];
      use TENOR_TO_DTE_pos in \<open>auto simp: wf_leg_def future_leg_def option_leg_def Let_def split: prod.splits option.splits\<close>)+

lemma build_from_legs_wf:
  assumes "build_from_legs erf today specs s = Inr st"
  shows "wf_structure today st"
proof -
  obtain built where built: "map_result (leg_of_request today s) (enumerate 0 specs) = Inr built" and ne: "specs \<noteq> []"
    using assms by (auto simp: build_from_legs_def split: sum.splits if_splits)
  have st: "ps_legs st = map fst built"
      "ps_requires_delta_hedge st = list_ex (\<lambda>l. pl_contract_type l \<in> {''call'', ''put''}) (map fst built)"
      "ps_future_contract_size st = (case List.map_filter snd built of [] \<Rightarrow> None | z # zs \<Rightarrow> Some z)"
      "ps_product_label st \<noteq> None"
      "ps_vega_sign st = (let score = vega_score (map fst built) in
         if 0 < score then ''positive'' else if score < 0 then ''negative'' else ''neutral'')"
    using assms built ne by (auto simp: build_from_legs_def Let_def split: sum.splits)
  then have sign: "ps_vega_sign st \<in> {''positive'', ''negative'', ''neutral''}" by (simp add: Let_def)
  have len: "length built = length specs" using map_result_length [OF built] by simp
  have at: "leg_of_request today s (i, specs ! i) = Inr (built ! i)" if "i < length built" for i
    using map_result_nth [OF built, of i] that len by (simp add: nth_enumerate_eq)
  have leg: "wf_leg today i (fst (built ! i))" "snd (built ! i) \<noteq> None \<longleftrightarrow> pl_contract_type (fst (built ! i)) = ''future''"
      "snd (built ! i) \<in> {None, Some ''full'', Some ''micro''}" if "i < length built" for i
    using leg_of_request_wf [of today s i "specs ! i" "fst (built ! i)" "snd (built ! i)"] at [OF that] by simp_all
  have mem: "snd x \<noteq> None \<longleftrightarrow> pl_contract_type (fst x) = ''future''" "snd x \<in> {None, Some ''full'', Some ''micro''}"
    if "x \<in> set built" for x
  proof -
    from that obtain i where "i < length built" "x = built ! i" by (metis in_set_conv_nth)
    with leg(2,3) show "snd x \<noteq> None \<longleftrightarrow> pl_contract_type (fst x) = ''future''" "snd x \<in> {None, Some ''full'', Some ''micro''}"
      by blast+
  qed
  have fut: "ps_future_contract_size st \<noteq> None \<longleftrightarrow> has_contract {''future''} (ps_legs st)"
  proof -
    have "List.map_filter snd built \<noteq> [] \<longleftrightarrow> set (List.map_filter snd built) \<noteq> {}" by simp
    also have "\<dots> \<longleftrightarrow> (\<exists>x \<in> set built. snd x \<noteq> None)" unfolding set_map_filter by blast
    finally have "List.map_filter snd built \<noteq> [] \<longleftrightarrow> (\<exists>x \<in> set built. snd x \<noteq> None)" .
    moreover have "(case ys of [] \<Rightarrow> None | z # zs \<Rightarrow> Some z) \<noteq> None \<longleftrightarrow> ys \<noteq> []" for ys :: "string list"
      by (cases ys) simp_all
    moreover have "(\<exists>x \<in> set built. snd x \<noteq> None) \<longleftrightarrow> has_contract {''future''} (map fst built)"
      using mem(1) by (simp add: has_contract_def)
    ultimately show ?thesis unfolding st(1,3) by blast
  qed
  have size: "ps_future_contract_size st \<in> {None, Some ''full'', Some ''micro''}"
  proof (cases "List.map_filter snd built")
    case (Cons z zs)
    then have "z \<in> set (List.map_filter snd built)" by simp
    then obtain x where x: "x \<in> set built" "snd x = Some z" unfolding set_map_filter by blast
    show ?thesis using mem(2) [OF x(1)] unfolding st(3) Cons x(2) list.case .
  qed (simp add: st(3))
  have hedge: "ps_requires_delta_hedge st \<longleftrightarrow> has_contract {''call'', ''put''} (ps_legs st)"
    by (simp add: st(1,2) has_contract_def list_ex_iff del: insert_iff)
  have "ps_legs st \<noteq> []" using len ne by (auto simp: st(1))
  then show ?thesis
    unfolding wf_structure_def using leg(1) fut size hedge st(4) sign by (simp add: st(1))
qed

section \<open>Mirror image\<close>

definition flip_leg :: "preview_leg \<Rightarrow> preview_leg" where
  "flip_leg l = l\<lparr>pl_side := (if pl_side l = BUY then SELL else BUY)\<rparr>"

definition flip_structure :: "preview_structure \<Rightarrow> preview_structure" where
  "flip_structure st = st\<lparr>ps_legs := map flip_leg (ps_legs st)\<rparr>"

lemma flip_leg_simps [simp]:
  "pl_contract_type (flip_leg l) = pl_contract_type l" "pl_qty_factor (flip_leg l) = pl_qty_factor l"
  "priceable (flip_leg l) = priceable l" "leg_years (flip_leg l) = leg_years l"
  by (simp_all add: flip_leg_def priceable_def leg_years_def)

lemma leg_price_flip [simp]: "leg_price erf spot (flip_leg l) = leg_price erf spot l"
  by (cases "priceable l") (auto simp: leg_price_def)

lemma side_sign_flip [simp]: "side_sign (pl_side (flip_leg l)) = - side_sign (pl_side l)"
  by (simp add: flip_leg_def side_sign_def)

lemma leg_greeks_flip:
  "g \<in> {rg_delta, rg_gamma, rg_vega, rg_theta} \<Longrightarrow> g (leg_greeks erf (flip_leg l) spot m) = - g (leg_greeks erf l spot m)"
  by (auto simp: leg_greeks_def zero_greeks_def Let_def split: option.splits)

lemma sum_list_neg: "sum_list (map (\<lambda>x. - f x) xs) = - sum_list (map f xs)" for f :: "'a \<Rightarrow> flt"
  by (induction xs) auto

lemma greek_total_flip:
  assumes "g \<in> {rg_delta, rg_gamma, rg_vega, rg_theta}"
  shows "greek_total g erf (flip_structure st) spot = - greek_total g erf st spot"
proof -
  have "future_mult (flip_structure st) = future_mult st" by (simp add: future_mult_def flip_structure_def)
  then show ?thesis
    by (simp add: greek_total_def flip_structure_def comp_def leg_greeks_flip [OF assms] flip: sum_list_neg)
qed


section \<open>Agreement with the desk's greeks\<close>

definition right_of :: "preview_leg \<Rightarrow> string" where
  "right_of l = (if pl_contract_type l = ''call'' then ''C'' else ''P'')"

lemma pv_d1: "(ln (F / K) + 1 / 2 * sigma * sigma * T) / (sigma * sqrt T) = bs_d1 F K T sigma"
  by (simp add: bs_d1_def power2_eq_square mult.assoc)

lemma pv_price_desk:
  assumes "n_cdf N = norm_cdf erf" and "\<not> degenerate F K T sigma"
  shows "pv_price erf F K T sigma right = bs_price N F K T sigma (if right = ''call'' then ''C'' else ''P'')"
  using assms unfolding pv_price_def Let_def pv_d1 by (auto simp: bs_price_def bs_d2_def degenerate_def Let_def)

lemma pv_greeks_desk:
  assumes "n_cdf N = norm_cdf erf" and "n_pdf N = phi" and "\<not> degenerate F K T sigma"
  shows "pv_greeks erf F K T sigma right =
    \<lparr>rg_delta = bs_delta N F K T sigma (if right = ''call'' then ''C'' else ''P''), rg_gamma = bs_gamma N F K T sigma,
     rg_vega = bs_vega N F K T sigma, rg_theta = bs_theta N F K T sigma r * 365\<rparr>"
proof -
  have ne: "\<not> (T \<le> 0 \<or> sigma \<le> 0 \<or> F \<le> 0 \<or> K \<le> 0)" using assms(3) by (auto simp: degenerate_def)
  show ?thesis
    unfolding pv_greeks_def if_not_P [OF ne] Let_def pv_d1
    using assms by (simp add: bs_delta_def bs_gamma_def bs_vega_def bs_theta_def Let_def)
qed

text \<open>
  The preview and the risk desk price alike: for an option leg with a strike and a
  volatility, the preview's premium, delta, vega and theta in dollars are those the desk
  computes for the same signed quantity, and its gamma per squared pip is the desk's gamma
  per pip scaled by one more pip.
\<close>

theorem preview_greeks_agree_with_desk:
  assumes "n_cdf N = norm_cdf erf" and "n_pdf N = phi" and "priceable l = Some (k, iv)"
    and "\<not> degenerate spot k (leg_years l) (iv / 100)"
  shows "leg_price erf spot l = bs_price N spot k (leg_years l) (iv / 100) (right_of l) * EUR_FOP_MULTIPLIER \<and>
    (let p = leg_greeks erf l spot m;
         d = option_greeks N (side_sign (pl_side l) * of_int (pl_qty_factor l)) EUR_FOP_MULTIPLIER spot k (leg_years l) (iv / 100) (right_of l)
     in rg_delta p = pg_delta_usd d \<and> rg_vega p = pg_vega d \<and> rg_theta p = pg_theta d \<and>
        rg_gamma p = pg_gamma d * PIP_SIZE)"
proof -
  have opt: "pl_contract_type l \<noteq> ''future''" using assms(3) by (auto simp: priceable_def split: if_splits)
  have rg: "(if pl_contract_type l = ''call'' then ''C'' else ''P'') = right_of l" by (simp add: right_of_def)
  note pr = pv_price_desk [OF assms(1,4), of "pl_contract_type l", unfolded rg]
  note gr = pv_greeks_desk [OF assms(1,2,4), of "pl_contract_type l" "right_of l", unfolded rg]
  show ?thesis
    using opt by (simp add: leg_price_def leg_greeks_def assms(3) pr gr option_greeks_def Let_def power2_eq_square)
qed

definition atm_call :: preview_leg where
  "atm_call = \<lparr>pl_leg_idx = 0, pl_contract_type = ''call'', pl_tenor = ''3M'', pl_expiry = 90, pl_dte = 90, pl_strike = Some 1,
     pl_qty_factor = 2, pl_side = SELL, pl_entry_iv_pct = Some 7, pl_requested_tenor = None, pl_snapped = False\<rparr>"

definition one_call :: preview_structure where
  "one_call = \<lparr>ps_type = ''custom'', ps_reference_tenor = ''3M'', ps_tenor_far = None, ps_legs = [atm_call],
     ps_requires_delta_hedge = True, ps_vega_sign = ''negative'', ps_future_contract_size = None, ps_product_label = Some ''short call''\<rparr>"

theorem preview_greeks_agree_with_desk_witness:
  "leg_price (\<lambda>x. 0) 1 atm_call =
     bs_price \<lparr>n_cdf = norm_cdf (\<lambda>x. 0), n_pdf = phi\<rparr> 1 1 (90 / 365) (7 / 100) ''C'' * EUR_FOP_MULTIPLIER"
proof -
  have "priceable atm_call = Some (1, 7)" "leg_years atm_call = 90 / 365" "right_of atm_call = ''C''"
    by (simp_all add: priceable_def atm_call_def leg_years_def right_of_def)
  with preview_greeks_agree_with_desk [of "\<lparr>n_cdf = norm_cdf (\<lambda>x. 0), n_pdf = phi\<rparr>" "\<lambda>x. 0" atm_call 1 7 1 125000]
  show ?thesis by (simp add: degenerate_def)
qed

text \<open>
  Selling is the mirror image of buying: flipping the side of every leg negates the
  premium, vega, gamma, theta and delta of the structure, to the last rounded digit.
\<close>

theorem preview_sides_antisymmetric:
  "pr_total_premium_usd (price_structure erf (flip_structure st) s) = - pr_total_premium_usd (price_structure erf st s) \<and>
   pr_leg_prices_usd (price_structure erf (flip_structure st) s) = pr_leg_prices_usd (price_structure erf st s) \<and>
   compute_net_greeks erf (flip_structure st) s =
     (let g = compute_net_greeks erf st s
      in \<lparr>ng_vega = - ng_vega g, ng_gamma = - ng_gamma g, ng_theta = - ng_theta g,
          ng_delta_unhedged = - ng_delta_unhedged g, ng_delta_post_hedge = - ng_delta_post_hedge g\<rparr>)"
proof -
  have "sum_list (map (\<lambda>l. side_sign (pl_side l) * leg_price erf spot l * of_int (pl_qty_factor l)) (map flip_leg ls)) =
      - sum_list (map (\<lambda>l. side_sign (pl_side l) * leg_price erf spot l * of_int (pl_qty_factor l)) ls)" for spot ls
    by (simp add: comp_def flip: sum_list_neg)
  then show ?thesis
    by (simp add: price_structure_def compute_net_greeks_def Let_def greek_total_flip py_round_minus)
      (simp add: flip_structure_def comp_def py_round_minus)
qed

text \<open>
  C32. Everything the preview builds is well formed: a structure from the catalogue or from
  free legs has at least one leg, numbered in order, each with a known contract type and
  side, a positive quantity and tenor and an expiry that many days ahead; futures carry
  neither strike nor volatility; a contract size is set exactly when there is a future, and a
  delta hedge is required exactly when there is an option.
\<close>

theorem built_structures_well_formed:
  assumes "build_structure today ty near far s dp k csize = Inr st \<and> csize \<in> {None, Some ''full'', Some ''micro''} \<or>
    build_from_legs erf today specs s = Inr st"
  shows "wf_structure today st"
  using assms build_structure_wf build_from_legs_wf by blast

theorem built_structures_well_formed_witness:
  "\<exists>st. build_structure 0 ''calendar_long'' ''1M'' (Some ''3M'') [] None None None = Inr st \<and> wf_structure 0 st \<and>
     map pl_tenor (ps_legs st) = [''1M'', ''3M''] \<and> map pl_dte (ps_legs st) = [30, 90]"
proof -
  obtain st where st: "build_structure 0 ''calendar_long'' ''1M'' (Some ''3M'') [] None None None = Inr st"
    "map pl_tenor (ps_legs st) = [''1M'', ''3M'']" "map pl_dte (ps_legs st) = [30, 90]"
    by (simp add: build_structure_def TEMPLATES_def tleg_def Let_def leg_of_template_def resolve_tenor_def TENOR_TO_DTE_def)
  from built_structures_well_formed [of 0 "''calendar_long''" "''1M''" "Some ''3M''" "[]" None None None st] st show ?thesis by auto
qed

section \<open>Sizing\<close>

lemma z_factor_bounds: "0 \<le> si_max_z_multiplier i \<Longrightarrow> 0 \<le> z_factor_of i \<and> z_factor_of i \<le> max 1 (si_max_z_multiplier i)"
  by (auto simp: z_factor_of_def min_le_iff_disj le_max_iff_disj)

lemma book_penalty_bounds:
  assumes "0 \<le> si_book_alpha i"
  shows "1 / 2 \<le> book_penalty_of i v \<and> book_penalty_of i v \<le> 1"
proof -
  define r where "r = si_book_alpha i * (\<bar>si_book_vega i\<bar> / max (si_vega_neutral i) 1)"
  have "0 \<le> r" unfolding r_def using assms by (intro mult_nonneg_nonneg divide_nonneg_pos) auto
  moreover have "book_penalty_of i v = 1 \<or> book_penalty_of i v = max (1 / 2) (1 - r)"
    unfolding book_penalty_of_def Let_def r_def by meson
  ultimately show ?thesis by (auto simp: max_def)
qed

lemma event_dampener_bounds: "1 / 2 \<le> event_dampener_of i \<and> event_dampener_of i \<le> 1"
  by (auto simp: event_dampener_of_def split: option.splits)

lemma multiplier_bounds: "0 \<le> multiplier_of label \<and> multiplier_of label \<le> 1"
  by (auto simp: multiplier_of_def LIMIT_MULTIPLIERS_def)

lemma mult_shrink: "0 \<le> (a :: flt) \<Longrightarrow> 0 \<le> c \<Longrightarrow> c \<le> 1 \<Longrightarrow> a * c \<le> a"
  by (simp add: mult_left_le)

lemma multiplier_zero: "multiplier_of label = 0 \<longleftrightarrow> label = ''pre_event''"
  by (auto simp: multiplier_of_def LIMIT_MULTIPLIERS_def)

text \<open>
  The size stays within its envelope: without an override it is zero exactly in a
  pre-event regime, otherwise at least one and at most the base quantity times the larger of
  one and the cap on the signal, rounded; and every leg gets it times its factor.
\<close>

theorem sizing_bounded:
  assumes "si_qty_override i = None" and "0 \<le> si_base_qty i" and "0 \<le> si_book_alpha i" and "0 \<le> si_max_z_multiplier i"
  shows "(let q = sz_final_qty_per_leg (compute_sizing i st) in
    (if regime_label (si_regime i) = ''pre_event'' then q = 0
     else 1 \<le> q \<and> q \<le> max 1 (round_half_even (of_int (si_base_qty i) * max 1 (si_max_z_multiplier i)))) \<and>
    sz_leg_quantities (compute_sizing i st) = map (\<lambda>l. (pl_leg_idx l, q * pl_qty_factor l)) (ps_legs st))"
proof -
  let ?rm = "multiplier_of (regime_label (si_regime i))"
  let ?b = "of_int (si_base_qty i) :: flt"
  let ?raw = "?b * z_factor_of i * book_penalty_of i (ps_vega_sign st) * event_dampener_of i * ?rm"
  note z = z_factor_bounds [OF assms(4)] and bp = book_penalty_bounds [OF assms(3), of "ps_vega_sign st"]
    and ed = event_dampener_bounds [of i] and rm = multiplier_bounds [of "regime_label (si_regime i)"]
  have b: "0 \<le> ?b" using assms(2) by simp
  have n: "0 \<le> ?b * z_factor_of i" using b z by (simp add: mult_nonneg_nonneg)
  have n2: "0 \<le> ?b * z_factor_of i * book_penalty_of i (ps_vega_sign st)" by (rule mult_nonneg_nonneg [OF n]) (use bp in linarith)
  have n3: "0 \<le> ?b * z_factor_of i * book_penalty_of i (ps_vega_sign st) * event_dampener_of i"
    by (rule mult_nonneg_nonneg [OF n2]) (use ed in linarith)
  have "?raw \<le> ?b * z_factor_of i * book_penalty_of i (ps_vega_sign st) * event_dampener_of i"
    using mult_shrink [OF n3] rm by blast
  also have "\<dots> \<le> ?b * z_factor_of i * book_penalty_of i (ps_vega_sign st)"
    using mult_shrink [OF n2] ed by auto
  also have "\<dots> \<le> ?b * z_factor_of i" using mult_shrink [OF n] bp by auto
  also have "\<dots> \<le> ?b * max 1 (si_max_z_multiplier i)" using b z by (intro mult_left_mono) auto
  finally have le: "round_half_even ?raw \<le> round_half_even (?b * max 1 (si_max_z_multiplier i))"
    by (rule round_half_even_mono)
  have q: "sz_final_qty_per_leg (compute_sizing i st) = (if 0 < ?rm then max 1 (round_half_even ?raw) else 0)"
    using assms(1) by (simp add: compute_sizing_def Let_def final_qty_of_def)
  have pos: "0 < ?rm \<longleftrightarrow> regime_label (si_regime i) \<noteq> ''pre_event''"
    using multiplier_zero [of "regime_label (si_regime i)"] rm by linarith
  show ?thesis
    using le by (auto simp: Let_def q pos compute_sizing_def final_qty_of_def assms(1) le_max_iff_disj)
qed


theorem sizing_bounded_witness:
  "(let i = \<lparr>si_z_score = 4, si_total_premium = 100, si_book_vega = 0, si_vega_neutral = 1000, si_base_qty = 2,
       si_threshold_min = 1, si_max_z_multiplier = 2, si_book_alpha = 1, si_regime = None, si_qty_override = None\<rparr>;
     q = sz_final_qty_per_leg (compute_sizing i one_call)
   in 1 \<le> q \<and> q \<le> 4)"
proof -
  let ?i = "\<lparr>si_z_score = 4, si_total_premium = 100, si_book_vega = 0, si_vega_neutral = 1000, si_base_qty = 2,
       si_threshold_min = 1, si_max_z_multiplier = 2, si_book_alpha = 1, si_regime = None, si_qty_override = None\<rparr>"
  have "regime_label (si_regime ?i) \<noteq> ''pre_event''" by (simp add: regime_label_def raw_regime_label_def) code_simp
  moreover have "round_half_even 4 = 4" using round_half_even_of_int [of 4] by simp
  ultimately show ?thesis using sizing_bounded [of ?i one_call] by (simp add: Let_def)
qed

text \<open>The operator's override is applied after the regime, also where the regime says zero.\<close>

lemma override_ignores_regime: "si_qty_override i = Some n \<Longrightarrow> 0 < n \<Longrightarrow> final_qty_of i v = n"
  by (simp add: final_qty_of_def Let_def)

text \<open>
  A regime only tightens limits: with non-negative limits, every limit of the result is
  at most the original one, the operational thresholds are unchanged and no name is added or
  lost; in a pre-event regime every risk envelope is zero.
\<close>

theorem regime_tightens_limits:
  assumes "\<forall>(name, v) \<in> set limits. 0 \<le> v"
  shows "map fst (apply_regime_to_limits limits r) = map fst limits \<and>
    list_all2 (\<lambda>(name, w) (name', v). name = name' \<and> 0 \<le> w \<and> w \<le> v \<and> (name \<notin> set SCALABLE_LIMITS \<longrightarrow> w = v) \<and>
      (name \<in> set SCALABLE_LIMITS \<and> regime_label r = ''pre_event'' \<longrightarrow> w = 0)) (apply_regime_to_limits limits r) limits"
proof -
  let ?m = "multiplier_of (regime_label r)"
  have e: "apply_regime_to_limits limits r = map (\<lambda>(name, v). (name, if name \<in> set SCALABLE_LIMITS then v * ?m else v)) limits"
  proof (cases "?m = 1")
    case True
    then have "apply_regime_to_limits limits r = limits" by (simp add: apply_regime_to_limits_def)
    moreover have "map (\<lambda>(name, v). (name, if name \<in> set SCALABLE_LIMITS then v * ?m else v)) limits = map (\<lambda>x. x) limits"
      using True by (intro map_cong) auto
    ultimately show ?thesis by simp
  next
    case False
    then show ?thesis by (simp add: apply_regime_to_limits_def Let_def)
  qed
  note m = multiplier_bounds [of "regime_label r"] and z = multiplier_zero [of "regime_label r"]
  have "list_all2 (\<lambda>(name, w) (name', v). name = name' \<and> 0 \<le> w \<and> w \<le> v \<and> (name \<notin> set SCALABLE_LIMITS \<longrightarrow> w = v) \<and>
      (name \<in> set SCALABLE_LIMITS \<and> regime_label r = ''pre_event'' \<longrightarrow> w = 0))
      (map (\<lambda>(name, v). (name, if name \<in> set SCALABLE_LIMITS then v * ?m else v)) ls) ls"
    if "\<forall>(name, v) \<in> set ls. 0 \<le> v" for ls
    using that by (induction ls) (use m z mult_shrink in \<open>auto\<close>)
  with assms show ?thesis unfolding e by (auto simp: case_prod_unfold comp_def)
qed

theorem regime_tightens_limits_witness:
  "apply_regime_to_limits [(''max_book_vega_usd'', 1000), (''min_liquidity_quoted_size'', 5)]
     (Some \<lparr>rp_regime = Some ''PRE_EVENT'', rp_label = None, rp_event_dampener = True\<rparr>) =
     [(''max_book_vega_usd'', 0), (''min_liquidity_quoted_size'', 5)]"
proof -
  let ?l = "[(''max_book_vega_usd'', 1000), (''min_liquidity_quoted_size'', 5)] :: (string \<times> flt) list"
  let ?r = "Some \<lparr>rp_regime = Some ''PRE_EVENT'', rp_label = None, rp_event_dampener = True\<rparr>"
  have "regime_label ?r = ''pre_event''" by (simp add: regime_label_def raw_regime_label_def) code_simp
  moreover have "''max_book_vega_usd'' \<in> set SCALABLE_LIMITS" "''min_liquidity_quoted_size'' \<notin> set SCALABLE_LIMITS"
    by (simp_all add: SCALABLE_LIMITS_def)
  ultimately show ?thesis using regime_tightens_limits [of ?l ?r] by (auto simp: list_all2_Cons2)
qed

section \<open>Scenarios and checks\<close>

text \<open>The grid's centre is flat, and a scenario is its grid cell plus a day of theta.\<close>

lemma pnl_gamma_0 [simp]: "pnl_gamma g spot 0 = 0"
  by (simp add: pnl_gamma_def)

lemma grid_centre:
  "(ds, cells) \<in> set (compute_pnl_grid s g sm im) \<Longrightarrow> c \<in> set cells \<Longrightarrow> gc_is_current c \<Longrightarrow> gc_pnl_usd c = 0"
  by (auto simp: compute_pnl_grid_def Let_def py_round_def)

lemma scenario_vs_grid:
  assumes "sr \<in> set (simulate_scenarios s g grid)"
  shows "sr_pnl_total_usd sr = py_round 2 (pnl_gamma g (spot_from_surface s) (sc_spot_move_pct (sr_config sr)) +
    ng_vega g * sc_iv_reprice_volpts (sr_config sr) + ng_theta g)"
  using assms by (auto simp: simulate_scenarios_def Let_def algebra_simps)

lemma checks_all_pass:
  "(\<forall>(name, ok, details) \<in> set (run_pre_submit_checks c). ok) \<longleftrightarrow>
     regime_label (ci_regime c) \<noteq> ''pre_event'' \<and> (0 < ci_armed_z c \<longleftrightarrow> 0 < ci_current_z c) \<and>
     ci_threshold_min c * (7 / 10) \<le> \<bar>ci_current_z c\<bar> \<and> \<bar>ci_book_vega c + ci_structure_vega c\<bar> \<le> ci_max_book_vega c \<and>
     \<not> ci_has_arb_violation c \<and> ci_min_liquidity c \<le> ci_min_quoted_size c"
  by (auto simp: run_pre_submit_checks_def Let_def regime_label_def)

text \<open>Without a strike at the money below four months everything is priced on a spot of one.\<close>

lemma no_short_strike_prices_at_one: "spot_from_surface [(''4M'', Node [(''atm'', flat_cell ''listed'' (Some (11 / 10)))])] = 1"
  by (simp add: spot_from_surface_def cell_at_def cell_strike_def List.map_filter_simps)


text \<open>A micro and a full future in one structure: both are valued as micro contracts.\<close>

lemma mixed_futures_share_size:
  "\<exists>st. build_from_legs erf 0
      [\<lparr>lq_contract_type = Some ''future'', lq_side = Some BUY, lq_tenor = None, lq_delta_pillar = None, lq_strike = None,
         lq_qty_factor = None, lq_future_size = Some ''micro''\<rparr>,
       \<lparr>lq_contract_type = Some ''future'', lq_side = Some BUY, lq_tenor = None, lq_delta_pillar = None, lq_strike = None,
         lq_qty_factor = None, lq_future_size = Some ''full''\<rparr>] [] = Inr st \<and>
    greek_total rg_delta erf st 1 = 2 * 12500"
proof -
  have up: "py_upper ''3M'' = ''3M''" by code_simp
  show ?thesis
    by (simp add: build_from_legs_def leg_of_request_def Let_def str_or_default_def TENOR_TO_DTE_def up future_leg_def
        sorted_tenors_def vega_score_def greek_total_def leg_greeks_def future_mult_def FUTURE_MULTIPLIERS_def side_sign_def
        List.map_filter_simps zero_greeks_def)
qed

end
