(* ===== verification/Preview_Desk.thy ===== *)
theory Preview_Desk
  imports Trade_Preview Book_Ops Pretrade
begin

text \<open>
  The previews a trader composes (\<open>api/routers/trade.py\<close>, creation, reading and
  cancelling, and \<open>api/orchestration/trade_preview_expirer.py\<close>). The desk is the
  database of the engine, the \<open>trade_preview\<close> table (\<open>vw_\<close>), the regime snapshots
  (\<open>gx_\<close>) and the submit locks held in Redis. A preview's JSON payload is the record
  \<open>pp_\<close>; the surface read from Redis with its age, the clock, today's ordinal, the random
  identifier and the error function are arguments.
\<close>

section \<open>Dates from ordinals\<close>

text \<open>\<open>date.fromordinal\<close>: the standard library's cycles of 400, 100, 4 and 1 years.\<close>

definition days_before_month :: "nat \<Rightarrow> int" where
  "days_before_month m = [0, 0, 31, 59, 90, 120, 151, 181, 212, 243, 273, 304, 334] ! m"

definition month_of_day :: "bool \<Rightarrow> int \<Rightarrow> nat \<times> int" where
  "month_of_day leap n =
     (let m = nat ((n + 50) div 32);
          before = (\<lambda>k. days_before_month k + (if 2 < k \<and> leap then 1 else 0))
      in if before m > n then (m - 1, n - before (m - 1) + 1) else (m, n - before m + 1))"

definition date_of_ordinal :: "int \<Rightarrow> date" where
  "date_of_ordinal k =
     (let n0 = k - 1; n400 = n0 div 146097; r400 = n0 mod 146097;
          n100 = r400 div 36524; r100 = r400 mod 36524;
          n4 = r100 div 1461; r4 = r100 mod 1461;
          n1 = r4 div 365; r1 = r4 mod 365;
          y = n400 * 400 + 1 + n100 * 100 + n4 * 4 + n1
      in if n1 = 4 \<or> n100 = 4 then Date (nat (y - 1)) 12 31
         else case month_of_day (n1 = 3 \<and> (n4 \<noteq> 24 \<or> n100 = 3)) r1 of
                (m, dd) \<Rightarrow> Date (nat y) m (nat dd))"

section \<open>The desk\<close>

record payload_leg =
  py_leg_idx :: nat
  py_contract_type :: string
  py_tenor :: string
  py_expiry :: "date option"
  py_dte :: int
  py_strike :: "flt option"
  py_qty_factor :: int
  py_qty :: int
  py_side :: string
  py_entry_iv_pct :: "flt option"
  py_requested_tenor :: "string option"
  py_snapped :: bool
  py_entry_price_usd :: flt

record preview_payload =
  pp_preview_id :: string
  pp_created_at :: time
  pp_expires_at :: time
  pp_type :: string
  pp_type_template :: string
  pp_reference_tenor :: string
  pp_tenor_far :: "string option"
  pp_requires_delta_hedge :: bool
  pp_vega_sign :: string
  pp_future_contract_size :: "string option"
  pp_ib_symbol :: "string option"
  pp_future_multiplier_eur :: "int option"
  pp_legs :: "payload_leg list"
  pp_greeks_net :: net_greeks
  pp_per_unit :: net_greeks
  pp_pricing :: pricing_result
  pp_premium_per_contract_usd :: flt
  pp_commission_usd :: flt
  pp_total_trade_cost_usd :: flt
  pp_scenarios :: "scenario_result list"
  pp_legs_greeks :: "greek_leg_row list"
  pp_pnl_grid :: "(flt \<times> pnl_cell list) list"
  pp_sizing :: sizing_result
  pp_checks :: "(string \<times> bool \<times> payload) list"
  pp_state :: string
  pp_blocking_reasons :: "string list"
  pp_surface_age_seconds :: flt
  pp_spot :: flt

record preview_row =
  vw_preview_id :: string
  vw_expires_at :: time
  vw_pca_signal_id :: "int option"
  vw_triggering_pc :: "int option"
  vw_armed_z_score :: "flt option"
  vw_armed_signal_label :: "string option"
  vw_structure_type :: string
  vw_product_label :: "string option"
  vw_reference_tenor :: string
  vw_payload :: preview_payload
  vw_state :: string
  vw_user_action :: "string option"
  vw_user_action_at :: "time option"

record regime_row =
  gx_symbol :: string
  gx_timestamp :: time
  gx_label :: string
  gx_event_dampener :: bool

record desk =
  dk_db :: db
  dk_previews :: "preview_row table"
  dk_regimes :: "regime_row list"
  dk_locks :: "string list"

definition preview_by_id :: "string \<Rightarrow> desk \<Rightarrow> (int \<times> preview_row) option" where
  "preview_by_id pid k = (case twhere (\<lambda>v. vw_preview_id v = pid) (dk_previews k) of [] \<Rightarrow> None | x # xs \<Rightarrow> Some x)"

definition upd_preview :: "int \<Rightarrow> (preview_row \<Rightarrow> preview_row) \<Rightarrow> desk \<Rightarrow> desk" where
  "upd_preview i f k = k\<lparr>dk_previews := tupd i f (dk_previews k)\<rparr>"

section \<open>What a preview reads\<close>

definition load_limits :: "db \<Rightarrow> (string \<times> flt) list" where
  "load_limits d = map (\<lambda>(i, r). (c_name r, c_value r)) (twhere (\<lambda>r. c_namespace r = ''risk'' \<and> c_is_active r) (t_scalars d))"

definition load_book :: "time \<Rightarrow> string \<Rightarrow> flt \<Rightarrow> db \<Rightarrow> snapshot_row" where
  "load_book now sy capital_default d =
     (case current_snapshot sy d of
        Some r \<Rightarrow> r
      | None \<Rightarrow> \<lparr>bs_symbol = sy, bs_timestamp = now, bs_total_vega_usd = 0, bs_total_gamma_usd = 0,
           bs_total_theta_usd = 0, bs_total_delta = 0, bs_n_open_structures = 0, bs_n_open_legs = 0,
           bs_notional_engaged_usd = 0, bs_capital_total_usd = Some capital_default, bs_margin_used_usd = Some 0,
           bs_is_current = True\<rparr>)"

definition load_regime :: "string \<Rightarrow> desk \<Rightarrow> regime_payload option" where
  "load_regime sy k =
     (case sort_key (\<lambda>r. - gx_timestamp r) (filter (\<lambda>r. gx_symbol r = sy) (dk_regimes k)) of
        [] \<Rightarrow> None
      | r # rs \<Rightarrow> Some \<lparr>rp_regime = None, rp_label = Some (gx_label r), rp_event_dampener = gx_event_dampener r\<rparr>)"

text \<open>The surface used when Redis has none.\<close>

definition synthetic_surface :: vol_surface where
  "synthetic_surface =
     map (\<lambda>(tenor, atm). (tenor, Node
         (map (\<lambda>(dl, smile, offset). (dl, Node \<lparr>vc_iv = Some (atm + smile / 100), vc_strike = Some (1085 / 1000 + offset),
              vc_source = None, vc_z = None\<rparr>))
           [(''10dp'', 6 / 10, - 2 / 100), (''25dp'', 2 / 10, - 1 / 100), (''atm'', 0, 0), (''25dc'', 1 / 10, 1 / 100),
            (''10dc'', 45 / 100, 2 / 100 :: flt)])))
       [(''1M'', 68 / 1000), (''2M'', 69 / 1000), (''3M'', 70 / 1000), (''4M'', 705 / 10000), (''5M'', 71 / 1000),
        (''6M'', 715 / 10000)]"

section \<open>Creating a preview\<close>

record preview_request =
  rq_legs :: "leg_request list option"
  rq_structure_type :: "string option"
  rq_tenor :: "string option"
  rq_tenor_far :: "string option"
  rq_qty :: "int option"
  rq_delta_pillar :: "string option"
  rq_strike_override :: "flt option"
  rq_override_tenor :: "string option"
  rq_override_far_tenor :: "string option"
  rq_future_contract_size :: "string option"

text \<open>A \<open>ValueError\<close> of the builders is answered with status 400; any other exception escapes.\<close>

definition value_error_400 :: "string \<Rightarrow> 'a result \<Rightarrow> 'a result" where
  "value_error_400 what r = (case r of Inl (ValueError m) \<Rightarrow> Inl (HTTPException 400 what) | _ \<Rightarrow> r)"

definition template_tenors :: "preview_request \<Rightarrow> string \<times> string option" where
  "template_tenors q =
     (let near = py_upper (str_or_default ''3M'' (rq_tenor q));
          far = (if str_or (rq_tenor_far q) = [] then None else Some (py_upper (str_or (rq_tenor_far q))));
          near1 = (if str_or (rq_override_tenor q) = [] then near else py_upper (str_or (rq_override_tenor q)));
          far1 = (if str_or (rq_override_far_tenor q) = [] then far else Some (py_upper (str_or (rq_override_far_tenor q))))
      in (near1, far1))"

definition requested_structure :: "(flt \<Rightarrow> flt) \<Rightarrow> int \<Rightarrow> preview_request \<Rightarrow> vol_surface \<Rightarrow> preview_structure result" where
  "requested_structure erf today q s =
     (case rq_legs q of
        Some specs \<Rightarrow> value_error_400 ''invalid legs'' (build_from_legs erf today specs s)
      | None \<Rightarrow>
          (case rq_structure_type q of
             None \<Rightarrow> Inl (HTTPException 400 ''legs or structure_type required'')
           | Some ty \<Rightarrow>
               (case template_tenors q of
                  (near, far) \<Rightarrow>
                    value_error_400 ''unknown structure''
                      (build_structure today ty near far s (rq_delta_pillar q) (rq_strike_override q)
                         (rq_future_contract_size q)))))"

fun strip_first_prefix :: "string list \<Rightarrow> string \<Rightarrow> string" where
  "strip_first_prefix [] s = s"
| "strip_first_prefix (p # ps) s = (if py_startswith s p then drop (length p) s else strip_first_prefix ps s)"

fun strip_first_suffix :: "string list \<Rightarrow> string \<Rightarrow> string" where
  "strip_first_suffix [] s = s"
| "strip_first_suffix (p # ps) s =
     (if py_endswith s p then take (length s - length p) s else strip_first_suffix ps s)"

definition bare_product :: "string \<Rightarrow> string" where
  "bare_product s =
     (let s1 = strip_first_prefix [''long_'', ''short_''] s;
          s2 = strip_first_suffix [''_atm'', ''_25d'', ''_10d''] s1;
          s3 = strip_first_suffix [''_long'', ''_short''] s2
      in if s3 \<in> {''future_buy'', ''future_sell''} then ''future'' else s3)"

definition display_structure_type :: "preview_request \<Rightarrow> preview_structure \<Rightarrow> string" where
  "display_structure_type q st =
     (if rq_legs q \<noteq> None then str_or_default ''custom'' (ps_product_label st) else bare_product (ps_type st))"

definition base_qty_eff :: "(string \<times> flt) list \<Rightarrow> int option \<Rightarrow> int" where
  "base_qty_eff ls q =
     (case q of
        Some n \<Rightarrow> if n = 0 then py_trunc (setting_or ls ''base_qty'' 10) else n
      | None \<Rightarrow> py_trunc (setting_or ls ''base_qty'' 10))"

definition manual_sizing :: "(string \<times> flt) list \<Rightarrow> regime_payload option \<Rightarrow> int \<Rightarrow> flt \<Rightarrow> preview_structure \<Rightarrow> sizing_result" where
  "manual_sizing ls regime base premium st =
     compute_sizing \<lparr>si_z_score = 3 / 2, si_total_premium = premium, si_book_vega = 0,
       si_vega_neutral = setting_or ls ''book_vega_neutral_threshold'' 2000, si_base_qty = base,
       si_threshold_min = setting_or ls ''z_threshold_min'' (3 / 2), si_max_z_multiplier = 1, si_book_alpha = 0,
       si_regime = regime, si_qty_override = Some base\<rparr> st"

definition scale_leg_greeks :: "int \<Rightarrow> greek_leg_row \<Rightarrow> greek_leg_row" where
  "scale_leg_greeks base r =
     (let m = max base 1; g = gl_greeks r
      in \<lparr>gl_leg = (gl_leg r)\<lparr>pl_qty_factor := pl_qty_factor (gl_leg r) * m\<rparr>,
          gl_greeks = \<lparr>rg_delta = rg_delta g * of_int m, rg_gamma = rg_gamma g * of_int m,
                       rg_vega = rg_vega g * of_int m, rg_theta = rg_theta g * of_int m\<rparr>\<rparr>)"

definition manual_checks ::
  "(string \<times> flt) list \<Rightarrow> regime_payload option \<Rightarrow> flt \<Rightarrow> net_greeks \<Rightarrow> sizing_result \<Rightarrow> (string \<times> bool \<times> payload) list" where
  "manual_checks ls regime book_vega g sz =
     run_pre_submit_checks
       \<lparr>ci_regime = regime, ci_armed_z = 2, ci_current_z = 2, ci_threshold_min = setting_or ls ''z_threshold_min'' (3 / 2),
        ci_book_vega = book_vega,
        ci_structure_vega = ng_vega g * (of_int (sz_final_qty_per_leg sz) / of_int (max (sz_base_qty sz) 1)),
        ci_max_book_vega = setting_or ls ''max_book_vega_usd'' 5000, ci_has_arb_violation = False,
        ci_min_quoted_size = 99, ci_min_liquidity = py_trunc (setting_or ls ''min_liquidity_quoted_size'' 10)\<rparr>"

definition FUTURE_COMMISSION_USD :: "(string \<times> flt) list" where
  "FUTURE_COMMISSION_USD = [(''full'', 240 / 100), (''micro'', 60 / 100)]"

definition commission_per_contract :: "(string \<times> flt) list \<Rightarrow> preview_structure \<Rightarrow> flt result" where
  "commission_per_contract ls st =
     (if str_or (ps_future_contract_size st) = [] then Inr (setting_or ls ''commission_per_contract_usd'' 2)
      else case map_of FUTURE_COMMISSION_USD (str_or (ps_future_contract_size st)) of
             None \<Rightarrow> Inl (KeyError (str_or (ps_future_contract_size st)))
           | Some c \<Rightarrow> Inr c)"

definition total_contracts :: "sizing_result \<Rightarrow> int" where
  "total_contracts sz = sum_list (map (\<lambda>(i, n). \<bar>n\<bar>) (sz_leg_quantities sz))"

definition premium_per_contract :: "flt \<Rightarrow> preview_structure \<Rightarrow> pricing_result \<Rightarrow> sizing_result \<Rightarrow> flt" where
  "premium_per_contract rate st pr sz =
     (if str_or (ps_future_contract_size st) \<noteq> [] then rate
      else if sz_base_qty sz = 0 then 0
      else pr_total_premium_usd pr / of_int (max (sz_base_qty sz) 1))"

definition payload_leg_of :: "pricing_result \<Rightarrow> sizing_result \<Rightarrow> preview_leg \<Rightarrow> payload_leg" where
  "payload_leg_of pr sz l =
     \<lparr>py_leg_idx = pl_leg_idx l, py_contract_type = pl_contract_type l, py_tenor = pl_tenor l,
      py_expiry = Some (date_of_ordinal (pl_expiry l)), py_dte = pl_dte l, py_strike = pl_strike l,
      py_qty_factor = pl_qty_factor l,
      py_qty = (case map_of (rev (sz_leg_quantities sz)) (pl_leg_idx l) of None \<Rightarrow> 0 | Some n \<Rightarrow> n),
      py_side = pl_side l, py_entry_iv_pct = pl_entry_iv_pct l, py_requested_tenor = pl_requested_tenor l,
      py_snapped = pl_snapped l,
      py_entry_price_usd =
        (if pl_leg_idx l < length (pr_leg_prices_usd pr) then pr_leg_prices_usd pr ! pl_leg_idx l else 0)\<rparr>"

definition scale_net :: "int \<Rightarrow> net_greeks \<Rightarrow> net_greeks" where
  "scale_net base g =
     \<lparr>ng_vega = py_round 4 (ng_vega g * of_int base), ng_gamma = py_round 6 (ng_gamma g * of_int base),
      ng_theta = py_round 4 (ng_theta g * of_int base),
      ng_delta_unhedged = py_round 4 (ng_delta_unhedged g * of_int base),
      ng_delta_post_hedge = py_round 4 (ng_delta_post_hedge g * of_int base)\<rparr>"

definition size_choice :: "'a \<Rightarrow> 'a \<Rightarrow> preview_structure \<Rightarrow> 'a option" where
  "size_choice full micro st =
     (if ps_future_contract_size st = Some ''full'' then Some full
      else if ps_future_contract_size st = Some ''micro'' then Some micro else None)"

definition preview_validity :: "(string \<times> flt) list \<Rightarrow> int" where
  "preview_validity ls = py_trunc (setting_or ls ''preview_validity_seconds'' 120)"

definition payload_of ::
  "(flt \<Rightarrow> flt) \<Rightarrow> time \<Rightarrow> string \<Rightarrow> (string \<times> flt) list \<Rightarrow> regime_payload option \<Rightarrow> flt \<Rightarrow> preview_request \<Rightarrow>
   vol_surface \<Rightarrow> flt \<Rightarrow> preview_structure \<Rightarrow> flt \<Rightarrow> preview_payload" where
  "payload_of erf now pid ls regime book_vega q s age st rate =
     (let pr = price_structure erf st s; g = compute_net_greeks erf st s;
          sz = manual_sizing ls regime (base_qty_eff ls (rq_qty q)) (pr_total_premium_usd pr) st;
          checks = manual_checks ls regime book_vega g sz;
          blocking = map fst (filter (\<lambda>(name, passed, details). \<not> passed) checks);
          commission = of_int (total_contracts sz) * rate
      in \<lparr>pp_preview_id = pid, pp_created_at = now, pp_expires_at = now + of_int (preview_validity ls),
          pp_type = display_structure_type q st, pp_type_template = ps_type st,
          pp_reference_tenor = ps_reference_tenor st, pp_tenor_far = ps_tenor_far st,
          pp_requires_delta_hedge = ps_requires_delta_hedge st, pp_vega_sign = ps_vega_sign st,
          pp_future_contract_size = ps_future_contract_size st, pp_ib_symbol = size_choice ''6E'' ''M6E'' st,
          pp_future_multiplier_eur = size_choice 125000 12500 st,
          pp_legs = map (payload_leg_of pr sz) (ps_legs st),
          pp_greeks_net = scale_net (sz_base_qty sz) g, pp_per_unit = g, pp_pricing = pr,
          pp_premium_per_contract_usd = py_round 4 (premium_per_contract rate st pr sz),
          pp_commission_usd = py_round 2 commission,
          pp_total_trade_cost_usd = py_round 2 (\<bar>sz_final_premium_usd sz\<bar> + commission),
          pp_scenarios = simulate_scenarios s g [],
          pp_legs_greeks = map (scale_leg_greeks (sz_base_qty sz)) (compute_legs_greeks erf st s),
          pp_pnl_grid = compute_pnl_grid s g [] [], pp_sizing = sz, pp_checks = checks,
          pp_state = (if blocking = [] then ''valid_for_submit'' else ''blocked''),
          pp_blocking_reasons = blocking, pp_surface_age_seconds = age, pp_spot = spot_from_surface s\<rparr>)"

definition row_of_preview :: "preview_request \<Rightarrow> preview_structure \<Rightarrow> preview_payload \<Rightarrow> preview_row" where
  "row_of_preview q st p =
     \<lparr>vw_preview_id = pp_preview_id p, vw_expires_at = pp_expires_at p, vw_pca_signal_id = None,
      vw_triggering_pc = None, vw_armed_z_score = None, vw_armed_signal_label = None,
      vw_structure_type = pp_type p,
      vw_product_label =
        (if rq_legs q \<noteq> None then ps_product_label st else product_label_from_symbol None (Some (pp_type p))),
      vw_reference_tenor = ps_reference_tenor st, vw_payload = p, vw_state = pp_state p,
      vw_user_action = None, vw_user_action_at = None\<rparr>"

definition create_preview ::
  "(flt \<Rightarrow> flt) \<Rightarrow> int \<Rightarrow> time \<Rightarrow> string \<Rightarrow> string \<Rightarrow> (vol_surface \<times> flt) option \<Rightarrow> preview_request \<Rightarrow> desk \<Rightarrow>
   desk \<times> preview_payload result" where
  "create_preview erf today now pid sy redis_surface q k =
     (if rq_legs q = None \<and> rq_structure_type q = None
      then (k, Inl (HTTPException 400 ''legs or structure_type required''))
      else
        let regime = load_regime sy k;
            ls = apply_regime_to_limits (load_limits (dk_db k)) regime;
            book = load_book now sy (setting_or ls ''starting_capital_usd'' 100000) (dk_db k);
            sa = (case redis_surface of None \<Rightarrow> (synthetic_surface, 0) | Some x \<Rightarrow> x)
        in case requested_structure erf today q (fst sa) of
             Inl e \<Rightarrow> (k, Inl e)
           | Inr st \<Rightarrow>
               (case commission_per_contract ls st of
                  Inl e \<Rightarrow> (k, Inl e)
                | Inr rate \<Rightarrow>
                    let p = payload_of erf now pid ls regime (bs_total_vega_usd book) q (fst sa) (snd sa) st rate
                    in if preview_by_id pid k \<noteq> None then (k, Inl (IntegrityError ''trade_preview.preview_id''))
                       else (k\<lparr>dk_previews := tins (row_of_preview q st p) (dk_previews k)\<rparr>, Inr p)))"

section \<open>Reading, cancelling and expiring\<close>

text \<open>The payload with the row's current state and action in place of the stored ones.\<close>

definition get_preview :: "string \<Rightarrow> desk \<Rightarrow> (preview_payload \<times> string option) result" where
  "get_preview pid k =
     (case preview_by_id pid k of
        None \<Rightarrow> Inl (HTTPException 404 ''preview not found'')
      | Some (i, v) \<Rightarrow> Inr ((vw_payload v)\<lparr>pp_state := vw_state v\<rparr>, vw_user_action v))"

definition cancel_preview :: "time \<Rightarrow> string \<Rightarrow> desk \<Rightarrow> desk \<times> unit result" where
  "cancel_preview now pid k =
     (case preview_by_id pid k of
        None \<Rightarrow> (k, Inl (HTTPException 404 ''preview not found''))
      | Some (i, v) \<Rightarrow>
          if vw_user_action v \<noteq> None then (k, Inl (HTTPException 400 ''already actioned''))
          else (upd_preview i (\<lambda>r. r\<lparr>vw_user_action := Some ''cancelled'', vw_user_action_at := Some now,
                                  vw_state := ''cancelled''\<rparr>) k, Inr ()))"

definition expirable :: "time \<Rightarrow> preview_row \<Rightarrow> bool" where
  "expirable now v = (vw_expires_at v < now \<and> vw_state v \<in> {''valid_for_submit'', ''blocked''})"

definition expire_previews :: "time \<Rightarrow> desk \<Rightarrow> desk \<times> nat" where
  "expire_previews now k =
     (k\<lparr>dk_previews := tupd_where (\<lambda>i v. expirable now v) (\<lambda>v. v\<lparr>vw_state := ''expired''\<rparr>) (dk_previews k)\<rparr>,
      length (twhere (expirable now) (dk_previews k)))"

end
