(* ===== verification/Trade_Submit.thy ===== *)
theory Trade_Submit
  imports Preview_Desk Pretrade Revalidation Fills_Handler Position_Close
begin

text \<open>
  The submit of a previewed trade (\<open>api/routers/trade.py\<close>): admission under the Redis
  lock, the checks, and the two paths, live (orders recorded as pending, then handed to the
  execution engine) and mock (orders, fills and position booked at the preview's prices).
  The lock server, the broker flag, the latest signal, the reads of the pre-trade gate and
  the answer of the engine are the environment \<open>sv_\<close>. Every audited refusal commits its
  event; an exception before the commit leaves the tables as they were.
\<close>

section \<open>The environment and the lock\<close>

record submit_request =
  sb_preview_id :: "string option"
  sb_execution_mode :: "string option"

record submit_env =
  sv_now :: time
  sv_redis :: bool
  sv_ib_row :: "bool option"
  sv_latest_z :: "flt option"
  sv_gate :: gate_world
  sv_engine :: dispatch_answer
  sv_trace :: "string option"

record submit_answer =
  ans_structure_id :: int
  ans_position_id :: "int option"
  ans_n_orders :: nat
  ans_execution_mode :: string
  ans_state :: structure_state
  ans_premium_usd :: "flt option"
  ans_commission_usd :: "flt option"
  ans_entry_cost_usd :: "flt option"
  ans_fully_filled_at :: "time option"

datatype submit_lock_state = Lock_acquired | Lock_held | Lock_unavailable

definition acquire_preview_lock :: "bool \<Rightarrow> string \<Rightarrow> desk \<Rightarrow> submit_lock_state \<times> desk" where
  "acquire_preview_lock redis pid k =
     (if \<not> redis then (Lock_unavailable, k)
      else if pid \<in> set (dk_locks k) then (Lock_held, k)
      else (Lock_acquired, k\<lparr>dk_locks := pid # dk_locks k\<rparr>))"

definition release_preview_lock :: "bool \<Rightarrow> string \<Rightarrow> desk \<Rightarrow> desk" where
  "release_preview_lock redis pid k = (if redis then k\<lparr>dk_locks := removeAll pid (dk_locks k)\<rparr> else k)"

definition fetch_ib_connected :: "bool option \<Rightarrow> bool" where
  "fetch_ib_connected r = (case r of None \<Rightarrow> False | Some b \<Rightarrow> b)"

definition post_execution_engine :: "dispatch_answer \<Rightarrow> unit result" where
  "post_execution_engine a =
     (case a of
        Engine_status st \<Rightarrow> if 400 \<le> st then Inl (HTTPException 502 ''execution_engine_failed'') else Inr ()
      | Engine_error \<Rightarrow> Inl (HTTPException 502 ''execution_engine_unreachable''))"

text \<open>The start of the handler: the body's fields and the lock.\<close>

definition submit_admit :: "submit_env \<Rightarrow> submit_request \<Rightarrow> desk \<Rightarrow> desk \<times> (string \<times> string) result" where
  "submit_admit env q k =
     (if str_or (sb_preview_id q) = [] then (k, Inl (HTTPException 400 ''preview_id required''))
      else
        let pid = str_or (sb_preview_id q);
            mode = py_lower (case sb_execution_mode q of None \<Rightarrow> ''mock'' | Some m \<Rightarrow> m)
        in if mode \<noteq> ''mock'' \<and> mode \<noteq> ''live'' then (k, Inl (HTTPException 400 ''invalid execution_mode''))
           else case acquire_preview_lock (sv_redis env) pid k of
                  (Lock_acquired, k') \<Rightarrow> (k', Inr (pid, mode))
                | (Lock_held, k') \<Rightarrow> (k', Inl (HTTPException 409 ''submit already in progress''))
                | (Lock_unavailable, k') \<Rightarrow> (k', Inl (HTTPException 503 ''submit_lock_unavailable'')))"

section \<open>The checks\<close>

definition audit_block :: "payload \<Rightarrow> desk \<Rightarrow> desk" where
  "audit_block pl k =
     k\<lparr>dk_db := add_event \<lparr>ev_event_type = ''submission_blocked'', ev_severity = Sev_warning, ev_structure_id = None,
                   ev_order_id = None, ev_position_id = None, ev_payload = pl\<rparr> (dk_db k)\<rparr>"

text \<open>The signal's current value: the armed one when no newer row is found.\<close>

definition current_z_of :: "flt option \<Rightarrow> preview_row \<Rightarrow> flt option" where
  "current_z_of latest v =
     (case vw_armed_z_score v of
        None \<Rightarrow> None
      | Some z \<Rightarrow> (case (if vw_pca_signal_id v = None then None else latest) of None \<Rightarrow> Some z | Some c \<Rightarrow> Some c))"

definition revalidation_of :: "submit_env \<Rightarrow> desk \<Rightarrow> preview_row \<Rightarrow> revalidation_input" where
  "revalidation_of env k v =
     (let ls = load_limits (dk_db k)
      in \<lparr>rv_preview_state = vw_state v, rv_preview_user_action = vw_user_action v,
          rv_preview_expires_at = vw_expires_at v, rv_now = sv_now env, rv_armed_z = vw_armed_z_score v,
          rv_current_z = current_z_of (sv_latest_z env) v, rv_z_threshold_min = setting_or ls ''z_threshold_min'' (3 / 2),
          rv_surface_age_seconds = pp_surface_age_seconds (vw_payload v),
          rv_max_iv_age_seconds = setting_or ls ''max_iv_data_age_seconds'' 120,
          rv_current_regime = map_option (\<lambda>r. regime_label (Some r)) (load_regime ''EURUSD'' k)\<rparr>)"

text \<open>What the pre-trade gate reads of the payload; \<open>surface_meta\<close> is never in it.\<close>

definition gate_view :: "preview_payload \<Rightarrow> preview" where
  "gate_view p =
     \<lparr>pv_greeks_net = Some (Some (ng_vega (pp_greeks_net p)), Some (ng_gamma (pp_greeks_net p)),
                             Some (ng_delta_unhedged (pp_greeks_net p))),
      pv_leg_qtys = map (\<lambda>l. Some (of_int (py_qty l))) (pp_legs p),
      pv_future_multiplier_eur = map_option of_int (pp_future_multiplier_eur p),
      pv_future_contract_size = pp_future_contract_size p, pv_spot = Some (pp_spot p),
      pv_surface_age_seconds = Some (pp_surface_age_seconds p), pv_butterfly_ok = None\<rparr>"

text \<open>The gate reads the same tables, unless its read fails.\<close>

definition gate_world_of :: "submit_env \<Rightarrow> desk \<Rightarrow> gate_world" where
  "gate_world_of env k =
     (sv_gate env)\<lparr>gw_db := map_option (\<lambda>x. dk_db k) (gw_db (sv_gate env)),
                   gw_limits := map_option (\<lambda>x. load_limits (dk_db k)) (gw_limits (sv_gate env))\<rparr>"

definition submit_gate :: "submit_env \<Rightarrow> string \<Rightarrow> desk \<Rightarrow> preview_row \<Rightarrow> gate_result" where
  "submit_gate env mode k v = run_pretrade_gate (sv_now env) (gate_world_of env k) (gate_view (vw_payload v)) (mode = ''live'')"

text \<open>Everything between the lock and the first row of the trade.\<close>

definition submit_checks :: "submit_env \<Rightarrow> string \<Rightarrow> string \<Rightarrow> desk \<Rightarrow> desk \<times> (int \<times> preview_row) result" where
  "submit_checks env mode pid k =
     (case preview_by_id pid k of
        None \<Rightarrow> (k, Inl (HTTPException 404 ''preview not found''))
      | Some (i, v) \<Rightarrow>
          if mode = ''live'' \<and> \<not> fetch_ib_connected (sv_ib_row env)
          then (audit_block [(''preview_id'', PStr pid)] k, Inl (HTTPException 503 ''ib_disconnected''))
          else
            let r = revalidate_preview (revalidation_of env k v)
            in if \<not> rv_passed r
               then (audit_block (rv_details r) k, Inl (HTTPException 400 ''revalidation_failed''))
               else if pp_legs (vw_payload v) = [] then (k, Inl (HTTPException 400 ''preview has no legs''))
               else
                 let g = submit_gate env mode k v
                 in if \<not> gr_passed g
                    then (audit_block [(''preview_id'', PStr pid), (''failures'', PStrs (gr_failures g)),
                                       (''details'', PObj (gr_details g))] k,
                          Inl (HTTPException 400 ''pretrade_gate_failed''))
                    else (k, Inr (i, v)))"

section \<open>The structure\<close>

definition first_expiry :: "payload_leg list \<Rightarrow> date option" where
  "first_expiry legs = (case List.map_filter py_expiry legs of [] \<Rightarrow> None | e # es \<Rightarrow> Some e)"

definition submitted_structure :: "time \<Rightarrow> string \<Rightarrow> preview_row \<Rightarrow> structure_row" where
  "submitted_structure now mode v =
     (new_structure_row now (vw_structure_type v) (vw_reference_tenor v) (sz_base_qty (pp_sizing (vw_payload v))) S_submitted)
       \<lparr>s_product_label := product_label_from_symbol None (Some (vw_structure_type v)),
        s_expiry_date := first_expiry (pp_legs (vw_payload v)), s_execution_mode := mode,
        s_triggering_pc := vw_triggering_pc v, s_armed_z_score := vw_armed_z_score v,
        s_armed_signal_label := vw_armed_signal_label v, s_preview_id := Some (vw_preview_id v),
        s_pca_signal_id := vw_pca_signal_id v\<rparr>"

text \<open>\<open>preview_id\<close> is UNIQUE; NULLs do not collide.\<close>

definition submitted_ids :: "db \<Rightarrow> string list" where
  "submitted_ids d = List.map_filter (\<lambda>(i, s). s_preview_id s) (t_structures d)"

definition insert_structure :: "structure_row \<Rightarrow> db \<Rightarrow> db result" where
  "insert_structure s d =
     (if \<exists>pid \<in> set (submitted_ids d). s_preview_id s = Some pid
      then Inl (IntegrityError ''trade_structure.preview_id'')
      else Inr (d\<lparr>t_structures := tins s (t_structures d)\<rparr>))"

definition mark_submitted :: "time \<Rightarrow> preview_row \<Rightarrow> preview_row" where
  "mark_submitted now v = v\<lparr>vw_user_action := Some ''submitted'', vw_user_action_at := Some now, vw_state := ''submitted''\<rparr>"

section \<open>The live path\<close>

definition MARKETABLE_LIMIT_BUFFER :: flt where "MARKETABLE_LIMIT_BUFFER = 1 / 4"

definition FUTURE_IB_SYMBOLS :: "(string \<times> string) list" where
  "FUTURE_IB_SYMBOLS = [(''full'', ''EUR''), (''micro'', ''M6E'')]"

definition future_symbol :: "preview_payload \<Rightarrow> string" where
  "future_symbol p = (case map_of FUTURE_IB_SYMBOLS (str_or (pp_future_contract_size p)) of None \<Rightarrow> ''EUR'' | Some s \<Rightarrow> s)"

text \<open>Price points for an option; for a future the preview's spot, or 1 when it is not positive.\<close>

definition live_price :: "preview_payload \<Rightarrow> payload_leg \<Rightarrow> flt" where
  "live_price p l =
     (if py_contract_type l \<noteq> ''future'' then py_entry_price_usd l / EUR_FOP_MULTIPLIER
      else if 0 < pp_spot p then pp_spot p else 1)"

text \<open>The marketable limit, on the 0.0001 grid; None is a market order.\<close>

definition live_limit :: "payload_leg \<Rightarrow> flt \<Rightarrow> flt option" where
  "live_limit l price =
     (if py_contract_type l = ''future'' \<or> \<not> 0 < price then None
      else
        let lp = py_round 4 (if py_side l = BUY then price * (1 + MARKETABLE_LIMIT_BUFFER)
                             else price * (1 - MARKETABLE_LIMIT_BUFFER))
        in if 0 < lp then Some lp else None)"

definition live_order :: "time \<Rightarrow> string option \<Rightarrow> int \<Rightarrow> preview_payload \<Rightarrow> nat \<times> payload_leg \<Rightarrow> order_row" where
  "live_order now trace sid p = (\<lambda>(i, l).
     let price = live_price p l; lp = live_limit l price
     in (new_order_row now sid (int i) Entry (py_contract_type l) (py_side l) (py_qty l) Pending)
          \<lparr>o_contract_symbol := (if py_contract_type l = ''future'' then future_symbol p else ''EUR''),
           o_contract_expiry := py_expiry l, o_contract_strike := py_strike l,
           o_order_type := (if lp = None then ''MKT'' else ''LMT''), o_limit_price := lp,
           o_preview_iv_pct := py_entry_iv_pct l, o_preview_price := Some price, o_trace_id := trace\<rparr>)"

definition add_live_orders :: "time \<Rightarrow> string option \<Rightarrow> int \<Rightarrow> preview_payload \<Rightarrow> db \<Rightarrow> db" where
  "add_live_orders now trace sid p d =
     d\<lparr>t_orders := foldl (\<lambda>t x. tins (live_order now trace sid p x) t) (t_orders d) (enumerate 0 (pp_legs p))\<rparr>"

definition submission_event :: "int \<Rightarrow> event_row" where
  "submission_event sid = structure_event sid ''submission_attempt'' Sev_info []"

definition live_path :: "submit_env \<Rightarrow> int \<Rightarrow> int \<Rightarrow> preview_row \<Rightarrow> desk \<Rightarrow> desk \<times> submit_answer result" where
  "live_path env sid i v k =
     (let p = vw_payload v;
          d = add_live_orders (sv_now env) (sv_trace env) sid p (dk_db k);
          k' = upd_preview i (mark_submitted (sv_now env)) (k\<lparr>dk_db := d\<rparr>)
      in case post_execution_engine (sv_engine env) of
           Inl e \<Rightarrow> (k', Inl e)
         | Inr u \<Rightarrow>
             (k', Inr \<lparr>ans_structure_id = sid, ans_position_id = None, ans_n_orders = length (pp_legs p),
                ans_execution_mode = ''live'', ans_state = S_submitted, ans_premium_usd = None, ans_commission_usd = None,
                ans_entry_cost_usd = None, ans_fully_filled_at = None\<rparr>))"

section \<open>The mock path\<close>

definition mock_price :: "payload_leg \<Rightarrow> flt" where
  "mock_price l = py_entry_price_usd l / EUR_FOP_MULTIPLIER"

definition mock_limit :: "flt \<Rightarrow> payload_leg \<Rightarrow> flt" where
  "mock_limit tol l = (case compute_limit_price (mock_price l) (py_side l) tol of Inl e \<Rightarrow> mock_price l | Inr lp \<Rightarrow> lp)"

definition mock_tag :: "string \<Rightarrow> int \<Rightarrow> nat \<Rightarrow> string" where
  "mock_tag prefix sid i = prefix @ int_str sid @ ''_'' @ int_str (int i)"

definition mock_order :: "time \<Rightarrow> string option \<Rightarrow> flt \<Rightarrow> flt \<Rightarrow> int \<Rightarrow> nat \<times> payload_leg \<Rightarrow> order_row" where
  "mock_order now trace rate tol sid = (\<lambda>(i, l).
     (new_order_row now sid (int i) Entry (py_contract_type l) (py_side l) (py_qty l) Filled)
       \<lparr>o_ib_order_id := Some (mock_tag ''mock_'' sid i), o_ib_perm_id := Some (mock_tag ''mock_perm_'' sid i),
        o_contract_expiry := py_expiry l, o_contract_strike := py_strike l, o_limit_price := Some (mock_limit tol l),
        o_preview_iv_pct := py_entry_iv_pct l, o_preview_price := Some (mock_price l), o_submitted_at := Some now,
        o_acknowledged_at := Some now, o_fully_filled_at := Some now, o_qty_filled := py_qty l,
        o_avg_fill_price := Some (mock_price l), o_slippage_per_contract := Some 0, o_total_slippage_usd := Some 0,
        o_total_commission_usd := Some (of_int (py_qty l) * rate), o_trace_id := trace\<rparr>)"

definition mock_fill :: "time \<Rightarrow> flt \<Rightarrow> int \<Rightarrow> int \<Rightarrow> nat \<times> payload_leg \<Rightarrow> fill_row" where
  "mock_fill now rate sid oid = (\<lambda>(i, l).
     \<lparr>f_order_id = oid, f_ib_execution_id = mock_tag ''mock_exec_'' sid i, f_timestamp = now, f_qty_filled = py_qty l,
      f_fill_price = mock_price l, f_commission_usd = of_int (py_qty l) * rate, f_currency = None,
      f_exchange = Some ''MOCK'', f_side = py_side l, f_trace_id = None\<rparr>)"

definition add_mock_leg :: "time \<Rightarrow> string option \<Rightarrow> flt \<Rightarrow> flt \<Rightarrow> int \<Rightarrow> db \<Rightarrow> nat \<times> payload_leg \<Rightarrow> db" where
  "add_mock_leg now trace rate tol sid d x =
     (let oid = next_id (t_orders d)
      in d\<lparr>t_orders := tins (mock_order now trace rate tol sid x) (t_orders d),
           t_fills := tins (mock_fill now rate sid oid x) (t_fills d)\<rparr>)"

definition mock_premium :: "payload_leg list \<Rightarrow> flt" where
  "mock_premium legs = sum_list (map (\<lambda>l. side_sign (py_side l) * py_entry_price_usd l * of_int (py_qty l)) legs)"

definition mock_commission :: "flt \<Rightarrow> payload_leg list \<Rightarrow> flt" where
  "mock_commission rate legs = sum_list (map (\<lambda>l. of_int (py_qty l) * rate) legs)"

definition fill_structure :: "time \<Rightarrow> flt \<Rightarrow> payload_leg list \<Rightarrow> structure_row \<Rightarrow> structure_row" where
  "fill_structure now rate legs s =
     s\<lparr>s_state := S_fully_filled, s_fully_filled_at := Some now, s_first_fill_at := Some now,
       s_total_premium_paid_usd := Some (py_round 4 (mock_premium legs)), s_total_slippage_usd := Some (py_round 4 0),
       s_total_commission_usd := Some (py_round 2 (mock_commission rate legs)),
       s_total_entry_cost_usd := Some (py_round 2 (0 + mock_commission rate legs))\<rparr>"

definition mock_position :: "time \<Rightarrow> int \<Rightarrow> structure_row \<Rightarrow> net_greeks \<Rightarrow> position_row" where
  "mock_position now sid s g =
     (new_position now sid s)\<lparr>b_entry_vega_usd_per_volpt := Some (ng_vega g),
        b_entry_gamma_usd_per_pip2 := Some (ng_gamma g), b_entry_theta_usd_per_day := Some (ng_theta g)\<rparr>"

definition mock_path :: "submit_env \<Rightarrow> int \<Rightarrow> structure_row \<Rightarrow> int \<Rightarrow> preview_row \<Rightarrow> desk \<Rightarrow> desk \<times> submit_answer result" where
  "mock_path env sid s i v k =
     (let now = sv_now env; p = vw_payload v; legs = pp_legs p; ls = load_limits (dk_db k);
          rate = setting_or ls ''commission_per_contract_usd'' 2; tol = setting_or ls ''slippage_tolerance_pct'' (1 / 2);
          d1 = foldl (add_mock_leg now (sv_trace env) rate tol sid) (dk_db k) (enumerate 0 legs);
          s' = fill_structure now rate legs s;
          d2 = upd_structure sid (\<lambda>x. s') d1;
          bid = next_id (t_positions d2);
          d3 = d2\<lparr>t_positions := tins (mock_position now sid s' (pp_greeks_net p)) (t_positions d2)\<rparr>;
          d4 = add_event (structure_event sid ''structure_filled'' Sev_info
                 [(''position_id'', PInt bid), (''premium_usd'', p_opt_flt (s_total_premium_paid_usd s'))]) d3;
          k' = upd_preview i (mark_submitted now) (k\<lparr>dk_db := refresh_book_state now ''EURUSD'' 100000 d4\<rparr>)
      in (k', Inr \<lparr>ans_structure_id = sid, ans_position_id = Some bid, ans_n_orders = length legs,
            ans_execution_mode = ''mock'', ans_state = s_state s', ans_premium_usd = s_total_premium_paid_usd s',
            ans_commission_usd = s_total_commission_usd s', ans_entry_cost_usd = s_total_entry_cost_usd s',
            ans_fully_filled_at = s_fully_filled_at s'\<rparr>))"

section \<open>The submit\<close>

definition submit_body :: "submit_env \<Rightarrow> string \<Rightarrow> string \<Rightarrow> desk \<Rightarrow> desk \<times> submit_answer result" where
  "submit_body env mode pid k =
     (case submit_checks env mode pid k of
        (k1, Inl e) \<Rightarrow> (k1, Inl e)
      | (k1, Inr (i, v)) \<Rightarrow>
          let s = submitted_structure (sv_now env) mode v; sid = next_id (t_structures (dk_db k1))
          in case insert_structure s (dk_db k1) of
               Inl e \<Rightarrow> (k1, Inl e)
             | Inr d \<Rightarrow>
                 let k2 = k1\<lparr>dk_db := add_event (submission_event sid) d\<rparr>
                 in if mode = ''live'' then live_path env sid i v k2 else mock_path env sid s i v k2)"

text \<open>The wrapper: the lock is dropped on every exception, a duplicate is 409, the rest 500.\<close>

definition wrap_error :: "py_error \<Rightarrow> py_error" where
  "wrap_error e =
     (case e of
        HTTPException st tag \<Rightarrow> e
      | IntegrityError c \<Rightarrow> HTTPException 409 ''preview_already_submitted''
      | _ \<Rightarrow> HTTPException 500 ''trade_submit_unhandled_exception'')"

definition on_submit_error :: "submit_env \<Rightarrow> string option \<Rightarrow> desk \<Rightarrow> desk" where
  "on_submit_error env pid k = (if str_or pid = [] then k else release_preview_lock (sv_redis env) (str_or pid) k)"

definition submit_preview :: "submit_env \<Rightarrow> submit_request \<Rightarrow> desk \<Rightarrow> desk \<times> submit_answer result" where
  "submit_preview env q k =
     (case submit_admit env q k of
        (k1, Inl e) \<Rightarrow> (on_submit_error env (sb_preview_id q) k1, Inl (wrap_error e))
      | (k1, Inr (pid, mode)) \<Rightarrow>
          (case submit_body env mode pid k1 of
             (k2, Inl e) \<Rightarrow> (on_submit_error env (sb_preview_id q) k2, Inl (wrap_error e))
           | (k2, Inr a) \<Rightarrow> (k2, Inr a)))"

end
