(* ===== verification/Preview_Lifecycle.thy ===== *)
theory Preview_Lifecycle
  imports Trade_Submit
begin

text \<open>
  What happens to a preview over any interleaving of requests: requests are admitted under
  the lock, run their body as one transaction (the preview row is read FOR UPDATE), fail and
  release, while previews are created, cancelled and expired, locks run out and the engine
  writes its own rows. The abstract specification is an automaton per preview.
\<close>

section \<open>The worlds and their steps\<close>

type_synonym world = "desk \<times> (string \<times> string) list"

inductive desk_step :: "world \<Rightarrow> world \<Rightarrow> bool" where
  Create: "create_preview erf today now pid sy surf q k = (k', r) \<Longrightarrow> desk_step (k, fl) (k', fl)"
| Admit: "submit_admit env q k = (k', Inr pm) \<Longrightarrow> desk_step (k, fl) (k', pm # fl)"
| Refuse: "submit_admit env q k = (k', Inl e) \<Longrightarrow> desk_step (k, fl) (on_submit_error env (sb_preview_id q) k', fl)"
| Body: "submit_body env mode pid k = (k', Inr a) \<Longrightarrow> (pid, mode) \<in> set fl \<Longrightarrow>
    desk_step (k, fl) (k', remove1 (pid, mode) fl)"
| Body_error: "submit_body env mode pid k = (k', Inl e) \<Longrightarrow> (pid, mode) \<in> set fl \<Longrightarrow>
    desk_step (k, fl) (on_submit_error env (Some pid) k', remove1 (pid, mode) fl)"
| Lock_expires: "desk_step (k, fl) (k\<lparr>dk_locks := removeAll pid (dk_locks k)\<rparr>, fl)"
| Cancel: "cancel_preview now pid k = (k', r) \<Longrightarrow> desk_step (k, fl) (k', fl)"
| Expire: "desk_step (k, fl) (fst (expire_previews now k), fl)"
| Engine: "submitted_ids d' = submitted_ids (dk_db k) \<Longrightarrow> desk_step (k, fl) (k\<lparr>dk_db := d', dk_regimes := rg\<rparr>, fl)"

inductive_cases desk_stepE: "desk_step (k, fl) w'"

text \<open>A desk before its first preview, with no request under way.\<close>

definition initial_world :: "world \<Rightarrow> bool" where
  "initial_world w = (dk_previews (fst w) = [] \<and> submitted_ids (dk_db (fst w)) = [] \<and> snd w = [])"

section \<open>The abstract specification\<close>

datatype lifecycle = Life_absent | Life_open | Life_blocked | Life_expired | Life_submitted | Life_cancelled

inductive life_step :: "lifecycle \<Rightarrow> lifecycle \<Rightarrow> bool" where
  "life_step Life_absent Life_open"
| "life_step Life_absent Life_blocked"
| "life_step Life_open Life_submitted"
| "life_step Life_open Life_cancelled"
| "life_step Life_open Life_expired"
| "life_step Life_blocked Life_cancelled"
| "life_step Life_blocked Life_expired"
| "life_step Life_expired Life_cancelled"

inductive_simps life_step_simps: "life_step a b"

definition life_of_state :: "string \<Rightarrow> lifecycle" where
  "life_of_state s =
     (if s = ''valid_for_submit'' then Life_open else if s = ''blocked'' then Life_blocked
      else if s = ''expired'' then Life_expired else if s = ''submitted'' then Life_submitted else Life_cancelled)"

definition life :: "string \<Rightarrow> desk \<Rightarrow> lifecycle" where
  "life pid k = (case preview_by_id pid k of None \<Rightarrow> Life_absent | Some (i, v) \<Rightarrow> life_of_state (vw_state v))"

definition n_structures :: "string \<Rightarrow> desk \<Rightarrow> nat" where
  "n_structures pid k = count_list (submitted_ids (dk_db k)) pid"

text \<open>The row's action follows its state.\<close>

definition row_ok :: "preview_row \<Rightarrow> bool" where
  "row_ok v =
     (vw_state v \<in> {''valid_for_submit'', ''blocked'', ''expired'', ''submitted'', ''cancelled''} \<and>
      vw_user_action v = (if vw_state v = ''submitted'' then Some ''submitted''
                          else if vw_state v = ''cancelled'' then Some ''cancelled'' else None))"

definition preview_ids :: "desk \<Rightarrow> string list" where
  "preview_ids k = map (\<lambda>(i, v). vw_preview_id v) (dk_previews k)"

definition desk_inv :: "desk \<Rightarrow> bool" where
  "desk_inv k =
     (table_ok (dk_previews k) \<and> distinct (preview_ids k) \<and> (\<forall>(i, v) \<in> set (dk_previews k). row_ok v) \<and>
      (\<forall>pid. n_structures pid k = (if life pid k = Life_submitted then 1 else 0)))"

section \<open>Lookups\<close>

lemma find_filter: "(case filter P xs of [] \<Rightarrow> None | x # ys \<Rightarrow> Some x) = List.find P xs"
  by (induction xs) simp_all

lemma preview_by_id_find:
  "preview_by_id pid k = List.find (\<lambda>(i, v). vw_preview_id v = pid) (dk_previews k)"
  unfolding preview_by_id_def twhere_def by (rule find_filter)

lemma preview_by_id_Some:
  assumes "preview_by_id pid k = Some (i, v)"
  shows "(i, v) \<in> set (dk_previews k)" "vw_preview_id v = pid"
proof -
  from assms obtain j where "j < length (dk_previews k)" "dk_previews k ! j = (i, v)" "vw_preview_id v = pid"
    by (auto simp: preview_by_id_find find_Some_iff)
  then show "(i, v) \<in> set (dk_previews k)" "vw_preview_id v = pid" by (metis nth_mem, simp)
qed

lemma preview_by_id_None: "preview_by_id pid k = None \<longleftrightarrow> pid \<notin> set (preview_ids k)"
  unfolding preview_by_id_find find_None_iff preview_ids_def by force

lemma preview_by_id_cong: "dk_previews k' = dk_previews k \<Longrightarrow> preview_by_id pid k' = preview_by_id pid k"
  by (simp add: preview_by_id_def)

lemma life_cong: "dk_previews k' = dk_previews k \<Longrightarrow> life pid k' = life pid k"
  unfolding life_def preview_by_id_def by simp

lemma submitted_ids_tins: "submitted_ids (d\<lparr>t_structures := tins s t\<rparr>) =
    submitted_ids (d\<lparr>t_structures := t\<rparr>) @ (case s_preview_id s of None \<Rightarrow> [] | Some p \<Rightarrow> [p])"
  by (simp add: submitted_ids_def tins_def map_filter_append List.map_filter_simps split: option.split)

lemma submitted_ids_tupd:
  "(\<And>s. s_preview_id (f s) = s_preview_id s) \<Longrightarrow>
     submitted_ids (d\<lparr>t_structures := tupd i f t\<rparr>) = submitted_ids (d\<lparr>t_structures := t\<rparr>)"
  by (induction t) (auto simp: submitted_ids_def tupd_def List.map_filter_simps split: option.splits if_splits)

lemma submitted_ids_cong: "t_structures d' = t_structures d \<Longrightarrow> submitted_ids d' = submitted_ids d"
  by (simp add: submitted_ids_def)

section \<open>The effect of a submit\<close>

lemma upd_preview_sel [simp]:
  "dk_db (upd_preview i f k) = dk_db k" "dk_locks (upd_preview i f k) = dk_locks k"
  "dk_regimes (upd_preview i f k) = dk_regimes k" "dk_previews (upd_preview i f k) = tupd i f (dk_previews k)"
  by (simp_all add: upd_preview_def)

lemma audit_block_sel [simp]:
  "dk_previews (audit_block pl k) = dk_previews k" "dk_locks (audit_block pl k) = dk_locks k"
  "dk_regimes (audit_block pl k) = dk_regimes k"
  by (simp_all add: audit_block_def)

lemma release_sel [simp]:
  "dk_db (on_submit_error env p k) = dk_db k" "dk_previews (on_submit_error env p k) = dk_previews k"
  "dk_regimes (on_submit_error env p k) = dk_regimes k"
  by (simp_all add: on_submit_error_def release_preview_lock_def)

lemma add_event_structures [simp]: "t_structures (add_event e d) = t_structures d"
  by (simp add: add_event_def)

lemma submitted_ids_simps [simp]:
  "submitted_ids (add_event e d) = submitted_ids d"
  "submitted_ids (refresh_book_state now sy cap d) = submitted_ids d"
  "submitted_ids (add_live_orders now tr sid p d) = submitted_ids d"
  "submitted_ids (d\<lparr>t_positions := ps\<rparr>) = submitted_ids d"
  by (simp_all add: submitted_ids_def refresh_book_state_def Let_def add_live_orders_def)

lemma submitted_structure_sel [simp]:
  "s_preview_id (submitted_structure now mode v) = Some (vw_preview_id v)"
  by (simp add: submitted_structure_def)

lemma fill_structure_sel [simp]: "s_preview_id (fill_structure now rate legs s) = s_preview_id s"
  by (simp add: fill_structure_def)

lemma mock_legs_structures: "t_structures (foldl (add_mock_leg now tr rate tol sid) d xs) = t_structures d"
  by (induction xs arbitrary: d) (simp_all add: add_mock_leg_def Let_def)

lemma submitted_ids_replace:
  assumes "t_structures d = tins s t" "s_preview_id s' = s_preview_id s"
  shows "submitted_ids (upd_structure (next_id t) (\<lambda>x. s') d) = submitted_ids d"
proof -
  have "t_structures (upd_structure (next_id t) (\<lambda>x. s') d) = tins s' t"
    using tupd_tins_fresh [of t "\<lambda>x. s'" s] by (simp add: upd_structure_def assms(1))
  then show ?thesis
    by (simp add: submitted_ids_def assms tins_def map_filter_append List.map_filter_simps)
qed

lemma mock_path_effect:
  assumes "mock_path env (next_id t) s i v k = (k', r)" "t_structures (dk_db k) = tins s t"
  shows "dk_previews k' = tupd i (mark_submitted (sv_now env)) (dk_previews k) \<and> dk_locks k' = dk_locks k \<and>
    dk_regimes k' = dk_regimes k \<and> submitted_ids (dk_db k') = submitted_ids (dk_db k) \<and> is_ok r"
proof -
  have "submitted_ids (upd_structure (next_id t) (\<lambda>x. fill_structure now rate legs s) (foldl (add_mock_leg now tr rate tol sid) (dk_db k) xs)) =
      submitted_ids (dk_db k)" for now rate legs tr tol sid xs
    by (subst submitted_ids_replace [where s = s])
      (simp_all add: mock_legs_structures assms(2) submitted_ids_cong [OF mock_legs_structures])
  then show ?thesis using assms(1) by (auto simp: mock_path_def Let_def)
qed

lemma live_path_effect:
  assumes "live_path env sid i v k = (k', r)"
  shows "dk_previews k' = tupd i (mark_submitted (sv_now env)) (dk_previews k) \<and> dk_locks k' = dk_locks k \<and>
    dk_regimes k' = dk_regimes k \<and> submitted_ids (dk_db k') = submitted_ids (dk_db k) \<and>
    (is_ok r \<or> (\<exists>tag. r = Inl (HTTPException 502 tag)))"
  using assms
  by (auto simp: live_path_def Let_def post_execution_engine_def split: sum.splits dispatch_answer.splits if_splits)

definition no_booking :: "desk \<Rightarrow> desk \<Rightarrow> bool" where
  "no_booking k k' =
     (dk_previews k' = dk_previews k \<and> dk_regimes k' = dk_regimes k \<and>
      (dk_db k' = dk_db k \<or> (\<exists>e. ev_event_type e = ''submission_blocked'' \<and> dk_db k' = add_event e (dk_db k))))"

lemma no_booking_simps [simp]: "no_booking k k" "no_booking k (audit_block pl k)"
proof -
  show "no_booking k k" by (simp add: no_booking_def)
  have "\<exists>e. ev_event_type e = ''submission_blocked'' \<and> dk_db (audit_block pl k) = add_event e (dk_db k)"
    by (rule exI [of _ "\<lparr>ev_event_type = ''submission_blocked'', ev_severity = Sev_warning, ev_structure_id = None,
          ev_order_id = None, ev_position_id = None, ev_payload = pl\<rparr>"]) (simp add: audit_block_def)
  then show "no_booking k (audit_block pl k)" by (simp add: no_booking_def)
qed

lemma submit_checks_cases:
  assumes "submit_checks env mode pid k = (k', r)"
  shows "dk_locks k' = dk_locks k \<and>
    (case r of
       Inl e \<Rightarrow> no_booking k k' \<and> (\<exists>st tag. e = HTTPException st tag \<and> st \<in> {400, 404, 503})
     | Inr (i, v) \<Rightarrow> k' = k \<and> preview_by_id pid k = Some (i, v) \<and> rv_passed (revalidate_preview (revalidation_of env k v)) \<and>
         pp_legs (vw_payload v) \<noteq> [] \<and> gr_passed (submit_gate env mode k v) \<and>
         (mode = ''live'' \<longrightarrow> fetch_ib_connected (sv_ib_row env)))"
  using assms unfolding submit_checks_def Let_def
  by (auto split: option.splits if_splits)

lemma revalidated_open:
  assumes "rv_passed (revalidate_preview (revalidation_of env k v))"
  shows "vw_user_action v = None" "vw_state v = ''valid_for_submit''"
  using assms by (auto simp: revalidate_preview_def revalidation_of_def rv_fail_def Let_def split: option.splits if_splits)

text \<open>A submit is refused without a row of the trade, or it is recorded whole.\<close>

definition recorded :: "string \<Rightarrow> time \<Rightarrow> desk \<Rightarrow> desk \<Rightarrow> bool" where
  "recorded pid now k k' =
     (\<exists>i v. preview_by_id pid k = Some (i, v) \<and> vw_state v = ''valid_for_submit'' \<and> vw_user_action v = None \<and>
        dk_previews k' = tupd i (mark_submitted now) (dk_previews k) \<and>
        pid \<notin> set (submitted_ids (dk_db k)) \<and> submitted_ids (dk_db k') = submitted_ids (dk_db k) @ [pid])"

lemma submit_body_cases:
  assumes "submit_body env mode pid k = (k', r)"
  shows "dk_locks k' = dk_locks k"
    and "(no_booking k k' \<and> (\<exists>st tag. r = Inl (HTTPException st tag) \<and> st \<in> {400, 404, 503})) \<or>
         (k' = k \<and> (\<exists>c. r = Inl (IntegrityError c)) \<and> pid \<in> set (submitted_ids (dk_db k)) \<and>
            (\<exists>i v. preview_by_id pid k = Some (i, v) \<and> vw_state v = ''valid_for_submit'')) \<or>
         (recorded pid (sv_now env) k k' \<and> (is_ok r \<or> (mode = ''live'' \<and> (\<exists>tag. r = Inl (HTTPException 502 tag)))))"
proof -
  obtain k1 c where c: "submit_checks env mode pid k = (k1, c)" by fastforce
  note cc = submit_checks_cases [OF c]
  have "dk_locks k' = dk_locks k \<and>
     ((no_booking k k' \<and> (\<exists>st tag. r = Inl (HTTPException st tag) \<and> st \<in> {400, 404, 503})) \<or>
      (k' = k \<and> (\<exists>c. r = Inl (IntegrityError c)) \<and> pid \<in> set (submitted_ids (dk_db k)) \<and>
         (\<exists>i v. preview_by_id pid k = Some (i, v) \<and> vw_state v = ''valid_for_submit'')) \<or>
      (recorded pid (sv_now env) k k' \<and> (is_ok r \<or> (mode = ''live'' \<and> (\<exists>tag. r = Inl (HTTPException 502 tag))))))"
  proof (cases c)
    case (Inl e)
    then have "k' = k1" "r = Inl e" using assms c by (auto simp: submit_body_def)
    then show ?thesis using cc Inl by auto
  next
    case (Inr iv)
    obtain i v where iv: "iv = (i, v)" by fastforce
    from cc Inr iv have k1: "k1 = k" and pv: "preview_by_id pid k = Some (i, v)"
      and rv: "rv_passed (revalidate_preview (revalidation_of env k v))" by auto
    have pid: "vw_preview_id v = pid" using preview_by_id_Some [OF pv] by simp
    let ?s = "submitted_structure (sv_now env) mode v" and ?t = "t_structures (dk_db k)"
    show ?thesis
    proof (cases "pid \<in> set (submitted_ids (dk_db k))")
      case True
      then have "insert_structure ?s (dk_db k) = Inl (IntegrityError ''trade_structure.preview_id'')"
        by (auto simp: insert_structure_def pid)
      then have "k' = k" "r = Inl (IntegrityError ''trade_structure.preview_id'')"
        using assms c Inr iv k1 by (auto simp: submit_body_def Let_def)
      then show ?thesis using True pv revalidated_open [OF rv] by auto
    next
      case False
      define d where "d = dk_db k\<lparr>t_structures := tins ?s ?t\<rparr>"
      define k2 where "k2 = k\<lparr>dk_db := add_event (submission_event (next_id ?t)) d\<rparr>"
      have ins: "insert_structure ?s (dk_db k) = Inr d" using False by (auto simp: insert_structure_def pid d_def)
      have ids: "submitted_ids (dk_db k2) = submitted_ids (dk_db k) @ [pid]"
        by (simp add: k2_def d_def submitted_ids_tins pid)
      have sel: "dk_previews k2 = dk_previews k" "dk_locks k2 = dk_locks k" "t_structures (dk_db k2) = tins ?s ?t"
        by (simp_all add: k2_def d_def)
      have run: "(if mode = ''live'' then live_path env (next_id ?t) i v k2 else mock_path env (next_id ?t) ?s i v k2) = (k', r)"
        using assms c Inr iv k1 ins by (auto simp: submit_body_def Let_def k2_def split: if_splits)
      have "dk_previews k' = tupd i (mark_submitted (sv_now env)) (dk_previews k) \<and> dk_locks k' = dk_locks k \<and>
          submitted_ids (dk_db k') = submitted_ids (dk_db k) @ [pid] \<and>
          (is_ok r \<or> (mode = ''live'' \<and> (\<exists>tag. r = Inl (HTTPException 502 tag))))"
      proof (cases "mode = ''live''")
        case True
        with run live_path_effect [of env "next_id ?t" i v k2 k' r] ids sel show ?thesis by auto
      next
        case False
        with run mock_path_effect [of env ?t ?s i v k2 k' r, OF _ sel(3)] ids sel show ?thesis by auto
      qed
      then show ?thesis using False pv revalidated_open [OF rv] by (auto simp: recorded_def)
    qed
  qed
  then show "dk_locks k' = dk_locks k" and
    "(no_booking k k' \<and> (\<exists>st tag. r = Inl (HTTPException st tag) \<and> st \<in> {400, 404, 503})) \<or>
      (k' = k \<and> (\<exists>c. r = Inl (IntegrityError c)) \<and> pid \<in> set (submitted_ids (dk_db k)) \<and>
         (\<exists>i v. preview_by_id pid k = Some (i, v) \<and> vw_state v = ''valid_for_submit'')) \<or>
      (recorded pid (sv_now env) k k' \<and> (is_ok r \<or> (mode = ''live'' \<and> (\<exists>tag. r = Inl (HTTPException 502 tag)))))"
    by blast+
qed

section \<open>The simulation\<close>

lemma find_map_snd:
  assumes "\<And>i v. Q (i, g i v) = Q (i, v)"
  shows "List.find Q (map (\<lambda>(i, v). (i, g i v)) xs) = map_option (\<lambda>(i, v). (i, g i v)) (List.find Q xs)"
  by (induction xs) (auto simp: assms)

lemma preview_by_id_upd:
  assumes "dk_previews k' = tupd_where P f (dk_previews k)" "\<And>v. vw_preview_id (f v) = vw_preview_id v"
  shows "preview_by_id pid k' = map_option (\<lambda>(i, v). (i, if P i v then f v else v)) (preview_by_id pid k)"
  unfolding preview_by_id_find assms(1) tupd_where_def by (rule find_map_snd) (simp add: assms(2))

definition simulates :: "desk \<Rightarrow> desk \<Rightarrow> bool" where
  "simulates k k' = (\<forall>pid. life pid k' = life pid k \<or> life_step (life pid k) (life pid k'))"

lemma upd_simulates:
  assumes inv: "desk_inv k" and p: "dk_previews k' = tupd_where P f (dk_previews k)"
    and id: "\<And>v. vw_preview_id (f v) = vw_preview_id v"
    and f: "\<And>i v. (i, v) \<in> set (dk_previews k) \<Longrightarrow> P i v \<Longrightarrow>
        row_ok (f v) \<and> life_step (life_of_state (vw_state v)) (life_of_state (vw_state (f v)))"
    and n: "\<And>pid. n_structures pid k' =
        n_structures pid k + (if life pid k \<noteq> Life_submitted \<and> life pid k' = Life_submitted then 1 else 0)"
  shows "desk_inv k' \<and> simulates k k'"
proof -
  have sim: "life pid k' = life pid k \<or> life_step (life pid k) (life pid k')" for pid
  proof (cases "preview_by_id pid k")
    case (Some x)
    then show ?thesis using f preview_by_id_Some(1) [of pid k "fst x" "snd x"]
      by (cases x) (auto simp: life_def preview_by_id_upd [OF p id])
  qed (simp add: life_def preview_by_id_upd [OF p id])
  have "table_ok (dk_previews k')" "preview_ids k' = preview_ids k"
    using inv by (auto simp: desk_inv_def table_ok_def keys_of_def preview_ids_def p tupd_where_def case_prod_unfold id
        comp_def)
  moreover have "\<forall>(i, v) \<in> set (dk_previews k'). row_ok v"
    using inv f by (auto simp: desk_inv_def p tupd_where_def)
  moreover have "n_structures pid k' = (if life pid k' = Life_submitted then 1 else 0)" for pid
    using inv n [of pid] sim [of pid] by (auto simp: desk_inv_def life_step_simps split: if_splits)
  ultimately show ?thesis using inv sim by (simp add: desk_inv_def simulates_def)
qed

lemma same_simulates:
  assumes "desk_inv k" "dk_previews k' = dk_previews k" "submitted_ids (dk_db k') = submitted_ids (dk_db k)"
  shows "desk_inv k' \<and> simulates k k'"
  using assms life_cong [OF assms(2)]
  by (simp add: desk_inv_def simulates_def n_structures_def preview_ids_def)

lemma tupd_where_of: "tupd i f t = tupd_where (\<lambda>j v. j = i) f t"
  by (simp add: tupd_def tupd_where_def)

lemma recorded_simulates:
  assumes inv: "desk_inv k" and r: "recorded pid now k k'"
  shows "desk_inv k' \<and> simulates k k' \<and> life pid k' = Life_submitted"
proof -
  from r obtain i v where pv: "preview_by_id pid k = Some (i, v)" and st: "vw_state v = ''valid_for_submit''"
    and p: "dk_previews k' = tupd_where (\<lambda>j w. j = i) (mark_submitted now) (dk_previews k)"
    and ids: "submitted_ids (dk_db k') = submitted_ids (dk_db k) @ [pid]"
    by (auto simp: recorded_def tupd_where_of)
  have id: "\<And>v. vw_preview_id (mark_submitted now v) = vw_preview_id v" by (simp add: mark_submitted_def)
  note look = preview_by_id_upd [OF p id]
  have new: "life pid k = Life_open" "life pid k' = Life_submitted"
    by (simp_all add: life_def pv look st life_of_state_def mark_submitted_def)
  have other: "life p k' = life p k" if "p \<noteq> pid" for p
  proof (cases "preview_by_id p k")
    case (Some x)
    obtain j w where x: "x = (j, w)" by fastforce
    have "j \<noteq> i"
    proof
      assume "j = i"
      then have "w = v" using inv preview_by_id_Some(1) [OF Some [unfolded x]] preview_by_id_Some(1) [OF pv]
        by (auto simp: desk_inv_def table_ok_def keys_of_def intro: eq_key_imp_eq_value)
      then show False using that preview_by_id_Some(2) [OF Some [unfolded x]] preview_by_id_Some(2) [OF pv] by simp
    qed
    then show ?thesis by (simp add: life_def look Some x)
  qed (simp add: life_def look)
  have "desk_inv k' \<and> simulates k k'"
  proof (rule upd_simulates [OF inv p id])
    fix j w assume "(j, w) \<in> set (dk_previews k)" "j = i"
    then have "w = v" using inv preview_by_id_Some(1) [OF pv]
      by (auto simp: desk_inv_def table_ok_def keys_of_def intro: eq_key_imp_eq_value)
    then show "row_ok (mark_submitted now w) \<and>
        life_step (life_of_state (vw_state w)) (life_of_state (vw_state (mark_submitted now w)))"
      by (simp add: row_ok_def mark_submitted_def life_of_state_def st life_step.intros)
  next
    fix p
    show "n_structures p k' = n_structures p k + (if life p k \<noteq> Life_submitted \<and> life p k' = Life_submitted then 1 else 0)"
      using new other [of p] by (cases "p = pid") (auto simp: n_structures_def ids)
  qed
  then show ?thesis using new by simp
qed

lemma cancel_simulates:
  assumes inv: "desk_inv k" and c: "cancel_preview now pid k = (k', r)"
  shows "desk_inv k' \<and> simulates k k'"
proof (cases "\<exists>i v. preview_by_id pid k = Some (i, v) \<and> vw_user_action v = None")
  case False
  with c have "k' = k" by (auto simp: cancel_preview_def split: option.splits if_splits)
  then show ?thesis using inv same_simulates by simp
next
  case True
  then obtain i v where pv: "preview_by_id pid k = Some (i, v)" and ua: "vw_user_action v = None" by blast
  define f where "f = (\<lambda>r :: preview_row. r\<lparr>vw_user_action := Some ''cancelled'', vw_user_action_at := Some now, vw_state := ''cancelled''\<rparr>)"
  have k': "k' = upd_preview i f k" using c pv ua by (simp add: cancel_preview_def f_def)
  have p: "dk_previews k' = tupd_where (\<lambda>j w. j = i) f (dk_previews k)" by (simp add: k' tupd_where_of)
  have id: "\<And>v. vw_preview_id (f v) = vw_preview_id v" by (simp add: f_def)
  show ?thesis
  proof (rule upd_simulates [OF inv p id])
    fix j w assume w: "(j, w) \<in> set (dk_previews k)" "j = i"
    then have "w = v" using inv preview_by_id_Some(1) [OF pv]
      by (auto simp: desk_inv_def table_ok_def keys_of_def intro: eq_key_imp_eq_value)
    moreover have "row_ok v" using inv preview_by_id_Some(1) [OF pv] by (auto simp: desk_inv_def)
    ultimately show "row_ok (f w) \<and> life_step (life_of_state (vw_state w)) (life_of_state (vw_state (f w)))"
      using ua by (auto simp: row_ok_def f_def life_of_state_def life_step_simps split: if_splits)
  next
    fix q
    have "\<not> (life q k \<noteq> Life_submitted \<and> life q k' = Life_submitted)"
      by (auto simp: life_def preview_by_id_upd [OF p id] f_def life_of_state_def split: option.splits if_splits)
    moreover have "n_structures q k' = n_structures q k" by (simp add: n_structures_def k')
    ultimately show "n_structures q k' = n_structures q k + (if life q k \<noteq> Life_submitted \<and> life q k' = Life_submitted then 1 else 0)"
      by (simp only: if_False add_0_right)
  qed
qed

lemma expire_simulates:
  assumes inv: "desk_inv k"
  shows "desk_inv (fst (expire_previews now k)) \<and> simulates k (fst (expire_previews now k))"
proof -
  let ?k = "fst (expire_previews now k)" and ?f = "\<lambda>v :: preview_row. v\<lparr>vw_state := ''expired''\<rparr>"
  have p: "dk_previews ?k = tupd_where (\<lambda>i v. expirable now v) ?f (dk_previews k)" by (simp add: expire_previews_def)
  show ?thesis
  proof (rule upd_simulates [OF inv p])
    fix i v assume "(i, v) \<in> set (dk_previews k)" "expirable now v"
    then show "row_ok (?f v) \<and> life_step (life_of_state (vw_state v)) (life_of_state (vw_state (?f v)))"
      using inv by (auto simp: desk_inv_def expirable_def row_ok_def life_of_state_def life_step_simps)
  next
    fix q
    have "\<not> (life q k \<noteq> Life_submitted \<and> life q ?k = Life_submitted)"
      unfolding life_def preview_by_id_upd [OF p, simplified]
      by (auto simp: life_of_state_def split: option.splits if_splits)
    moreover have "n_structures q ?k = n_structures q k" by (simp add: n_structures_def expire_previews_def)
    ultimately show "n_structures q ?k = n_structures q k + (if life q k \<noteq> Life_submitted \<and> life q ?k = Life_submitted then 1 else 0)"
      by (simp only: if_False add_0_right)
  qed simp
qed

lemma payload_of_sel:
  "pp_preview_id (payload_of erf now pid ls regime bv q s age st rate) = pid"
  "pp_state (payload_of erf now pid ls regime bv q s age st rate) \<in> {''valid_for_submit'', ''blocked''}"
  by (simp_all add: payload_of_def Let_def)

lemma create_preview_cases:
  assumes c: "create_preview erf today now pid sy surf q k = (k', r)"
  shows "(k' = k \<and> \<not> is_ok r) \<or>
    (\<exists>st p. preview_by_id pid k = None \<and> r = Inr p \<and> pp_preview_id p = pid \<and>
       pp_state p \<in> {''valid_for_submit'', ''blocked''} \<and>
       k' = k\<lparr>dk_previews := tins (row_of_preview q st p) (dk_previews k)\<rparr>)"
proof -
  define regime ls book sa where "regime = load_regime sy k" and "ls = apply_regime_to_limits (load_limits (dk_db k)) regime"
    and "book = load_book now sy (setting_or ls ''starting_capital_usd'' 100000) (dk_db k)"
    and "sa = (case surf of None \<Rightarrow> (synthetic_surface, 0) | Some x \<Rightarrow> x)"
  note c = c [unfolded create_preview_def Let_def, folded regime_def, folded ls_def, folded book_def sa_def]
  consider (short) "rq_legs q = None \<and> rq_structure_type q = None"
    | (bad) e where "\<not> (rq_legs q = None \<and> rq_structure_type q = None)" "requested_structure erf today q (fst sa) = Inl e"
    | (rate) st e where "\<not> (rq_legs q = None \<and> rq_structure_type q = None)" "requested_structure erf today q (fst sa) = Inr st"
        "commission_per_contract ls st = Inl e"
    | (ok) st rate where "\<not> (rq_legs q = None \<and> rq_structure_type q = None)" "requested_structure erf today q (fst sa) = Inr st"
        "commission_per_contract ls st = Inr rate"
    by (metis (no_types) sum.exhaust)
  then show ?thesis
  proof cases
    case short
    with c show ?thesis by auto
  next
    case bad
    with c show ?thesis by auto
  next
    case rate
    with c show ?thesis by auto
  next
    case ok
    define p where "p = payload_of erf now pid ls regime (bs_total_vega_usd book) q (fst sa) (snd sa) st rate"
    have p: "pp_preview_id p = pid" "pp_state p \<in> {''valid_for_submit'', ''blocked''}"
      by (simp_all only: p_def payload_of_sel)
    have "(if preview_by_id pid k \<noteq> None then (k, Inl (IntegrityError ''trade_preview.preview_id''))
           else (k\<lparr>dk_previews := tins (row_of_preview q st p) (dk_previews k)\<rparr>, Inr p)) = (k', r)"
      using c ok by (auto simp: p_def split: if_splits)
    then show ?thesis using p by (cases "preview_by_id pid k = None") auto
  qed
qed

lemma create_simulates:
  assumes inv: "desk_inv k" and c: "create_preview erf today now pid sy surf q k = (k', r)"
  shows "desk_inv k' \<and> simulates k k'"
proof (cases "k' = k")
  case True
  then show ?thesis using inv same_simulates by simp
next
  case False
  then obtain st p where p: "pp_preview_id p = pid" "pp_state p \<in> {''valid_for_submit'', ''blocked''}"
    and new: "preview_by_id pid k = None" and k': "k' = k\<lparr>dk_previews := tins (row_of_preview q st p) (dk_previews k)\<rparr>"
    using create_preview_cases [OF c] by blast
  define v where "v = row_of_preview q st p"
  have v: "vw_preview_id v = pid" "row_ok v" "life_of_state (vw_state v) \<in> {Life_open, Life_blocked}"
    using p by (auto simp: v_def row_of_preview_def row_ok_def life_of_state_def)
  have find: "preview_by_id x k' = (case preview_by_id x k of None \<Rightarrow> if x = pid then Some (next_id (dk_previews k), v) else None | Some y \<Rightarrow> Some y)" for x
    using v by (simp add: preview_by_id_find k' tins_def find_append v_def split: option.split)
  have life: "life x k' = (if x = pid then life_of_state (vw_state v) else life x k)" for x
    using new by (auto simp: life_def find split: option.split)
  have absent: "life pid k = Life_absent" by (simp add: life_def new)
  have sim: "simulates k k'" using v absent by (auto simp: simulates_def life life_step.intros)
  have "n_structures x k' = (if life x k' = Life_submitted then 1 else 0)" for x
    unfolding life using inv absent v by (auto simp: desk_inv_def n_structures_def k')
  moreover have "distinct (preview_ids k')" using inv new v
    by (simp add: desk_inv_def preview_by_id_None preview_ids_def k' tins_def v_def)
  ultimately show ?thesis using inv sim v(2) by (auto simp: desk_inv_def k' table_ok_tins set_tins v_def)
qed

lemma body_simulates:
  assumes "desk_inv k" "submit_body env mode pid k = (k', r)"
  shows "desk_inv k' \<and> simulates k k'"
  using submit_body_cases(2) [OF assms(2)] recorded_simulates [OF assms(1)] same_simulates [OF assms(1), of k']
  by (auto simp: no_booking_def)

lemma admit_sel:
  assumes "submit_admit env q k = (k', r)"
  shows "dk_previews k' = dk_previews k" "dk_db k' = dk_db k" "dk_regimes k' = dk_regimes k"
  using assms by (auto simp: submit_admit_def acquire_preview_lock_def Let_def split: if_splits)

lemma desk_step_simulates:
  assumes "desk_step w w'" "desk_inv (fst w)"
  shows "desk_inv (fst w') \<and> simulates (fst w) (fst w')"
  using assms
proof (induction rule: desk_step.induct)
  case (Create erf today now pid sy surf q k k' r fl)
  then show ?case using create_simulates by simp
next
  case (Admit env q k k' pm fl)
  then show ?case using same_simulates [of k k'] admit_sel [OF Admit(1)] by simp
next
  case (Refuse env q k k' e fl)
  then show ?case using same_simulates [of k "on_submit_error env (sb_preview_id q) k'"] admit_sel [OF Refuse(1)] by simp
next
  case (Body env mode pid k k' a fl)
  then show ?case using body_simulates by simp
next
  case (Body_error env mode pid k k' e fl)
  then have "desk_inv k' \<and> simulates k k'" using body_simulates by simp
  moreover have "life x (on_submit_error env (Some pid) k') = life x k'" for x by (rule life_cong) simp
  ultimately show ?case using same_simulates [of k' "on_submit_error env (Some pid) k'"] by (simp add: simulates_def)
next
  case (Lock_expires k fl pid)
  then show ?case using same_simulates [of k "k\<lparr>dk_locks := removeAll pid (dk_locks k)\<rparr>"] by simp
next
  case (Cancel now pid k k' r fl)
  then show ?case using cancel_simulates by simp
next
  case (Expire k fl now)
  then show ?case using expire_simulates by simp
next
  case (Engine d' k fl rg)
  then show ?case using same_simulates [of k "k\<lparr>dk_db := d', dk_regimes := rg\<rparr>"] by simp
qed

lemma reachable_inv:
  assumes "desk_step\<^sup>*\<^sup>* w0 w" "initial_world w0"
  shows "desk_inv (fst w)"
  using assms(1)
proof (induction rule: rtranclp_induct)
  case base
  have "life pid (fst w0) = Life_absent" for pid
    using assms(2) by (simp add: life_def preview_by_id_def twhere_def initial_world_def)
  then show ?case using assms(2)
    by (simp add: initial_world_def desk_inv_def table_ok_def keys_of_def preview_ids_def n_structures_def)
next
  case (step w w')
  then show ?case using desk_step_simulates by blast
qed

lemma double_submit:
  assumes inv: "desk_inv k" and b: "submit_body env mode pid k = (k', r)"
  shows "(\<nexists>c. r = Inl (IntegrityError c)) \<and> (is_ok r \<longrightarrow> life pid k = Life_open \<and> life pid k' = Life_submitted) \<and>
    (life pid k \<noteq> Life_open \<longrightarrow> no_booking k k')"
proof -
  have opened: "life pid k = Life_open" if "preview_by_id pid k = Some (i, v)" "vw_state v = ''valid_for_submit''" for i v
    using that by (simp add: life_def life_of_state_def)
  have free: "pid \<notin> set (submitted_ids (dk_db k))" if "life pid k = Life_open"
  proof -
    have "n_structures pid k = 0" using inv that by (simp add: desk_inv_def)
    then show ?thesis by (simp add: n_structures_def count_list_0_iff)
  qed
  have rec: "life pid k = Life_open \<and> life pid k' = Life_submitted" if "recorded pid (sv_now env) k k'"
    using that opened recorded_simulates [OF inv that] by (auto simp: recorded_def)
  show ?thesis using submit_body_cases(2) [OF b] opened free rec by (auto simp: is_ok_def)
qed

lemma submit_preview_error:
  assumes s: "submit_preview env q k = (k', Inl e)"
  shows "(\<exists>st tag. e = HTTPException st tag \<and>
      (st \<in> {400, 404, 409, 503} \<and> no_booking k k' \<or>
       st = 502 \<and> py_lower (case sb_execution_mode q of None \<Rightarrow> ''mock'' | Some m \<Rightarrow> m) = ''live'' \<and>
         recorded (str_or (sb_preview_id q)) (sv_now env) k k')) \<and>
    (sv_redis env \<and> str_or (sb_preview_id q) \<noteq> [] \<longrightarrow> str_or (sb_preview_id q) \<notin> set (dk_locks k'))"
proof -
  let ?pid = "str_or (sb_preview_id q)" and ?mode = "py_lower (case sb_execution_mode q of None \<Rightarrow> ''mock'' | Some m \<Rightarrow> m)"
  have rel: "sv_redis env \<and> ?pid \<noteq> [] \<longrightarrow> ?pid \<notin> set (dk_locks (on_submit_error env (sb_preview_id q) k1))" for k1
    by (simp add: on_submit_error_def release_preview_lock_def)
  obtain k1 c where a: "submit_admit env q k = (k1, c)" by fastforce
  note same = admit_sel [OF a]
  show ?thesis
  proof (cases c)
    case (Inl e1)
    then have k': "k' = on_submit_error env (sb_preview_id q) k1" "e = wrap_error e1"
      using s a by (auto simp: submit_preview_def)
    obtain st tag where e1: "e1 = HTTPException st tag" "st \<in> {400, 409, 503}"
      using a Inl by (auto simp: submit_admit_def acquire_preview_lock_def Let_def split: if_splits)
    have "no_booking k k'" using same by (simp add: k' no_booking_def)
    moreover have "e = HTTPException st tag" by (simp add: k' e1 wrap_error_def)
    ultimately show ?thesis using rel [of k1] e1(2) k'(1) by blast
  next
    case (Inr pm)
    then have pm: "pm = (?pid, ?mode)"
      using a by (auto simp: submit_admit_def acquire_preview_lock_def Let_def split: if_splits)
    obtain k2 r where b: "submit_body env ?mode ?pid k1 = (k2, r)" by fastforce
    obtain e1 where e1: "r = Inl e1" "k' = on_submit_error env (sb_preview_id q) k2" "e = wrap_error e1"
      using s a Inr pm b by (cases r) (auto simp: submit_preview_def)
    have rec: "recorded ?pid (sv_now env) k k'" if "recorded ?pid (sv_now env) k1 k2"
      using that same by (simp add: recorded_def e1 preview_by_id_def)
    have no: "no_booking k k'" if "no_booking k1 k2" using that same by (simp add: no_booking_def e1)
    have "\<exists>st tag. e = HTTPException st tag \<and>
        (st \<in> {400, 404, 409, 503} \<and> no_booking k k' \<or> st = 502 \<and> ?mode = ''live'' \<and> recorded ?pid (sv_now env) k k')"
      using submit_body_cases(2) [OF b] rec no e1 by (auto simp: wrap_error_def)
    then show ?thesis using rel [of k2] e1(2) by blast
  qed
qed

section \<open>An example\<close>

definition example_desk :: desk where
  "example_desk = \<lparr>dk_db = empty_db, dk_previews = [], dk_regimes = [], dk_locks = []\<rparr>"

definition example_request :: preview_request where
  "example_request = \<lparr>rq_legs = None, rq_structure_type = Some ''future_buy'', rq_tenor = None, rq_tenor_far = None,
     rq_qty = Some 1, rq_delta_pillar = None, rq_strike_override = None, rq_override_tenor = None,
     rq_override_far_tenor = None, rq_future_contract_size = None\<rparr>"

definition example_env :: submit_env where
  "example_env = \<lparr>sv_now = 50, sv_redis = True, sv_ib_row = Some True, sv_latest_z = None, sv_gate = example_world,
     sv_engine = Engine_status 200, sv_trace = None\<rparr>"

definition created_desk :: "(flt \<Rightarrow> flt) \<Rightarrow> desk" where
  "created_desk erf = fst (create_preview erf 739000 0 ''tp_1'' ''EURUSD'' None example_request example_desk)"

definition example_future :: preview_structure where
  "example_future = \<lparr>ps_type = ''future_buy'', ps_reference_tenor = ''3M'', ps_tenor_far = None,
     ps_legs = [future_leg 739000 0 ''3M'' 90 1 BUY], ps_requires_delta_hedge = False, ps_vega_sign = ''neutral'',
     ps_future_contract_size = Some ''full'', ps_product_label = Some ''Future - 6E''\<rparr>"

lemma example_structure: "requested_structure erf 739000 example_request synthetic_surface = Inr example_future"
proof -
  have "build_structure 739000 ''future_buy'' ''3M'' None synthetic_surface None None None = Inr example_future"
    by code_simp
  moreover have "template_tenors example_request = (''3M'', None)" by code_simp
  ultimately show ?thesis by (simp add: requested_structure_def example_request_def value_error_400_def)
qed

lemma example_payload_state:
  "pp_state (payload_of erf now pid [] None 0 q s age example_future rate) = ''valid_for_submit''"
proof -
  have "ng_vega (compute_net_greeks erf example_future s) = 0"
    by (simp add: compute_net_greeks_def Let_def greek_total_def example_future_def leg_greeks_def future_leg_def zero_greeks_def)
  then show ?thesis
    by (simp add: payload_of_def Let_def manual_checks_def run_pre_submit_checks_def raw_regime_label_def setting_or_def
        py_lower_def char_lower_def py_trunc_def)
qed

lemma created_open: "life ''tp_1'' (created_desk erf) = Life_open"
proof -
  have empty: "load_limits (dk_db example_desk) = []" "load_regime sy example_desk = None"
    "preview_by_id pid example_desk = None" "current_snapshot sy (dk_db example_desk) = None" for sy pid
    by (simp_all add: load_limits_def load_regime_def preview_by_id_def current_snapshot_def example_desk_def empty_db_def
        twhere_def)
  have lims: "apply_regime_to_limits [] None = []"
    by (simp add: apply_regime_to_limits_def Let_def)
  have rate: "commission_per_contract [] example_future = Inr (12 / 5)"
    by (simp add: commission_per_contract_def example_future_def str_or_def FUTURE_COMMISSION_USD_def)
  define p where "p = payload_of erf 0 ''tp_1'' [] None 0 example_request synthetic_surface 0 example_future (12 / 5)"
  have "created_desk erf = example_desk\<lparr>dk_previews := tins (row_of_preview example_request example_future p) []\<rparr>"
    using example_structure
    by (simp add: created_desk_def create_preview_def empty lims rate load_book_def Let_def p_def)
      (simp add: example_request_def example_desk_def)
  moreover have "pp_preview_id p = ''tp_1''" "pp_state p = ''valid_for_submit''"
    by (simp_all add: p_def payload_of_sel example_payload_state)
  ultimately show ?thesis
    by (simp add: life_def preview_by_id_find tins_def row_of_preview_def life_of_state_def)
qed

section \<open>Properties\<close>


text \<open>
  C10. One structure per preview, whatever happened to the lock: in every reachable world the
  body of a submit never meets the UNIQUE constraint, books only a preview that is still open
  and leaves it submitted, and for any other preview changes nothing but the audit trail.
\<close>

theorem one_structure_per_preview:
  assumes "initial_world w0" "desk_step\<^sup>*\<^sup>* w0 w" "submit_body env mode pid (fst w) = (k', r)"
  shows "(\<nexists>c. r = Inl (IntegrityError c)) \<and>
    (is_ok r \<longrightarrow> life pid (fst w) = Life_open \<and> life pid k' = Life_submitted) \<and>
    (life pid (fst w) \<noteq> Life_open \<longrightarrow> no_booking (fst w) k')"
  by (rule double_submit [OF reachable_inv [OF assms(2,1)] assms(3)])


lemma created_reachable:
  "initial_world (example_desk, [])" "desk_step (example_desk, []) (created_desk erf, [])"
  by (simp add: initial_world_def example_desk_def submitted_ids_def empty_db_def List.map_filter_simps)
    (unfold created_desk_def, rule desk_step.Create [OF prod.collapse [symmetric]])

lemma created_run: "desk_step\<^sup>*\<^sup>* (example_desk, []) (created_desk erf, [])"
  using created_reachable(2) by (rule r_into_rtranclp)

definition cancelled_desk :: desk where
  "cancelled_desk = fst (cancel_preview 10 ''tp_1'' (created_desk (\<lambda>x. 0)))"

lemma cancel_open:
  "desk_step (created_desk (\<lambda>x. 0), []) (cancelled_desk, [])" "life ''tp_1'' cancelled_desk = Life_cancelled"
proof -
  let ?k = "created_desk (\<lambda>x. 0)"
  show "desk_step (?k, []) (cancelled_desk, [])"
    unfolding cancelled_desk_def by (rule desk_step.Cancel [OF prod.collapse [symmetric]])
  have inv: "desk_inv ?k" using reachable_inv [of "(example_desk, [])" "(?k, [])"] created_reachable by auto
  obtain i v where pv: "preview_by_id ''tp_1'' ?k = Some (i, v)" "life_of_state (vw_state v) = Life_open"
    using created_open [of "\<lambda>x. 0"] by (auto simp: life_def split: option.splits)
  have "vw_user_action v = None" using inv preview_by_id_Some(1) [OF pv(1)] pv(2)
    by (auto simp: desk_inv_def row_ok_def life_of_state_def split: if_splits)
  then show "life ''tp_1'' cancelled_desk = Life_cancelled"
    by (simp add: cancelled_desk_def cancel_preview_def pv life_def preview_by_id_upd tupd_where_of life_of_state_def)
qed


theorem one_structure_per_preview_witness:
  "no_booking cancelled_desk (fst (submit_body example_env ''mock'' ''tp_1'' cancelled_desk)) \<and>
   \<not> is_ok (snd (submit_body example_env ''mock'' ''tp_1'' cancelled_desk))"
proof -
  have reach: "desk_step\<^sup>*\<^sup>* (example_desk, []) (cancelled_desk, [])"
    using created_reachable(2) cancel_open(1) by (meson converse_rtranclp_into_rtranclp rtranclp.rtrancl_refl)
  show ?thesis
    using one_structure_per_preview [OF created_reachable(1) reach, of example_env "''mock''" "''tp_1''"
        "fst (submit_body example_env ''mock'' ''tp_1'' cancelled_desk)" "snd (submit_body example_env ''mock'' ''tp_1'' cancelled_desk)"]
      cancel_open(2) by simp
qed

definition unknown_submit :: submit_request where
  "unknown_submit = \<lparr>sb_preview_id = Some ''tp_9'', sb_execution_mode = Some ''LIVE''\<rparr>"

lemma unknown_submit_404: "submit_preview example_env unknown_submit example_desk =
    (example_desk, Inl (HTTPException 404 ''preview not found''))"
proof -
  have "submit_admit example_env unknown_submit example_desk = (example_desk\<lparr>dk_locks := [''tp_9'']\<rparr>, Inr (''tp_9'', ''live''))"
    by code_simp
  moreover have "submit_body example_env ''live'' ''tp_9'' (example_desk\<lparr>dk_locks := [''tp_9'']\<rparr>) =
      (example_desk\<lparr>dk_locks := [''tp_9'']\<rparr>, Inl (HTTPException 404 ''preview not found''))"
    by (simp add: submit_body_def submit_checks_def preview_by_id_def twhere_def example_desk_def)
  ultimately show ?thesis
    by (simp add: submit_preview_def unknown_submit_def str_or_def on_submit_error_def release_preview_lock_def
        example_env_def wrap_error_def example_desk_def)
qed


text \<open>
  The lock does not keep requests apart: the refusal of a second request drops the lock of
  the first, so a third is admitted beside it.
\<close>

lemma refused_duplicate_releases_lock:
  assumes "sv_redis env" "pid \<noteq> []" "pid \<in> set (dk_locks k)" "q = \<lparr>sb_preview_id = Some pid, sb_execution_mode = None\<rparr>"
  shows "submit_preview env q k =
    (k\<lparr>dk_locks := removeAll pid (dk_locks k)\<rparr>, Inl (HTTPException 409 ''submit already in progress''))"
  using assms by (simp add: submit_preview_def submit_admit_def str_or_def py_lower_def char_lower_def
      acquire_preview_lock_def on_submit_error_def release_preview_lock_def wrap_error_def Let_def)

lemma two_requests_admitted:
  "desk_step\<^sup>*\<^sup>* (example_desk, []) (example_desk\<lparr>dk_locks := [''tp_1'']\<rparr>, [(''tp_1'', ''mock''), (''tp_1'', ''mock'')])"
proof -
  let ?q = "\<lparr>sb_preview_id = Some ''tp_1'', sb_execution_mode = None\<rparr>" and ?locked = "example_desk\<lparr>dk_locks := [''tp_1'']\<rparr>"
  note defs = submit_admit_def str_or_def py_lower_def char_lower_def acquire_preview_lock_def example_env_def Let_def
  have free: "submit_admit example_env ?q example_desk = (?locked, Inr (''tp_1'', ''mock''))"
    by (simp add: defs example_desk_def)
  have held: "submit_admit example_env ?q ?locked = (?locked, Inl (HTTPException 409 ''submit already in progress''))"
    by (simp add: defs)
  have drop: "on_submit_error example_env (sb_preview_id ?q) ?locked = example_desk"
    by (simp add: on_submit_error_def str_or_def release_preview_lock_def example_env_def example_desk_def)
  have "desk_step (example_desk, []) (?locked, [(''tp_1'', ''mock'')])" by (rule desk_step.Admit [OF free])
  moreover have "desk_step (?locked, [(''tp_1'', ''mock'')]) (example_desk, [(''tp_1'', ''mock'')])"
    using desk_step.Refuse [OF held, of "[(''tp_1'', ''mock'')]"] by (simp only: drop)
  moreover have "desk_step (example_desk, [(''tp_1'', ''mock'')]) (?locked, [(''tp_1'', ''mock''), (''tp_1'', ''mock'')])"
    by (rule desk_step.Admit [OF free])
  ultimately show ?thesis by (meson converse_rtranclp_into_rtranclp rtranclp.rtrancl_refl)
qed

end
