(* ===== verification/Trade_Submit_Correctness.thy ===== *)
theory Trade_Submit_Correctness
  imports Preview_Lifecycle
begin

text \<open>
  What a recorded submit leaves in the tables: the pending orders of the live path with
  their limit prices, and the booking of the mock path, which agrees with the totals the
  fills handler would compute from the same orders.
\<close>

section \<open>The live orders\<close>

lemma foldl_tins_rows: "map snd (foldl (\<lambda>t x. tins (g x) t) t xs) = map snd t @ map g xs"
  by (induction xs arbitrary: t) (simp_all add: tins_def)

text \<open>
  A marketable limit for a price in points: on the 0.0001 grid, within half a step of the
  price moved by the buffer, and across the price from two steps up.
\<close>

definition marketable :: "string \<Rightarrow> flt \<Rightarrow> flt \<Rightarrow> bool" where
  "marketable side price lp =
     (0 < lp \<and> (\<exists>n. lp = of_int n / 10000) \<and>
      \<bar>lp - price * (if side = BUY then 5 / 4 else 3 / 4)\<bar> \<le> 1 / 20000 \<and>
      (2 / 10000 \<le> price \<longrightarrow> (if side = BUY then price \<le> lp else lp \<le> price)))"

lemma live_limit_marketable:
  assumes "live_limit l price = Some lp"
  shows "py_contract_type l \<noteq> ''future'' \<and> marketable (py_side l) price lp"
proof -
  define x where "x = price * (if py_side l = BUY then 5 / 4 else 3 / 4)"
  have lp: "lp = py_round 4 x" "0 < lp" "py_contract_type l \<noteq> ''future''"
    using assms by (auto simp: live_limit_def Let_def MARKETABLE_LIMIT_BUFFER_def x_def split: if_splits)
  have close: "\<bar>lp - x\<bar> \<le> 1 / 20000" using py_round_close [of 4 x] by (simp add: lp(1))
  moreover have "\<exists>n. lp = of_int n / 10000" using py_round_grid [of 4 x] by (simp add: lp(1))
  moreover have "2 / 10000 \<le> price \<longrightarrow> (if py_side l = BUY then price \<le> lp else lp \<le> price)"
  proof -
    have "x - 1 / 20000 \<le> lp" "lp \<le> x + 1 / 20000" using close by linarith+
    then show ?thesis unfolding x_def by (cases "py_side l = BUY") auto
  qed
  ultimately show ?thesis using lp(2,3) unfolding marketable_def x_def [symmetric] by blast
qed

definition pending_leg_order :: "int \<Rightarrow> preview_payload \<Rightarrow> nat \<Rightarrow> order_row \<Rightarrow> bool" where
  "pending_leg_order sid p n r =
     (let l = pp_legs p ! n
      in o_structure_id r = sid \<and> o_leg_idx r = int n \<and> o_order_role r = Entry \<and> o_state r = Pending \<and>
         o_qty_filled r = 0 \<and> o_ib_order_id r = None \<and> o_contract_type r = py_contract_type l \<and>
         o_contract_expiry r = py_expiry l \<and> o_contract_strike r = py_strike l \<and>
         o_side r = py_side l \<and> o_qty r = py_qty l \<and>
         (case o_limit_price r of
            None \<Rightarrow> o_order_type r = ''MKT''
          | Some lp \<Rightarrow> o_order_type r = ''LMT'' \<and> py_contract_type l \<noteq> ''future'' \<and>
              marketable (py_side l) (py_entry_price_usd l / EUR_FOP_MULTIPLIER) lp))"

lemma live_order_pending:
  assumes "n < length (pp_legs p)"
  shows "pending_leg_order sid p n (live_order now trace sid p (n, pp_legs p ! n))"
proof (cases "live_limit (pp_legs p ! n) (live_price p (pp_legs p ! n))")
  case None
  then show ?thesis by (simp add: pending_leg_order_def live_order_def Let_def)
next
  case (Some lp)
  from live_limit_marketable [OF Some] have "py_contract_type (pp_legs p ! n) \<noteq> ''future''"
    "marketable (py_side (pp_legs p ! n)) (py_entry_price_usd (pp_legs p ! n) / EUR_FOP_MULTIPLIER) lp"
    by (auto simp: live_price_def)
  then show ?thesis using Some by (simp add: pending_leg_order_def live_order_def Let_def)
qed

lemma submit_body_recorded:
  assumes "submit_body env mode pid k = (k', r)" "preview_by_id pid k = Some (i, v)"
    and "is_ok r \<or> r = Inl (HTTPException 502 tag)"
  shows "(if mode = ''live''
      then live_path env (next_id (t_structures (dk_db k))) i v
        (k\<lparr>dk_db := add_event (submission_event (next_id (t_structures (dk_db k))))
             (dk_db k\<lparr>t_structures := tins (submitted_structure (sv_now env) mode v) (t_structures (dk_db k))\<rparr>)\<rparr>)
      else mock_path env (next_id (t_structures (dk_db k))) (submitted_structure (sv_now env) mode v) i v
        (k\<lparr>dk_db := add_event (submission_event (next_id (t_structures (dk_db k))))
             (dk_db k\<lparr>t_structures := tins (submitted_structure (sv_now env) mode v) (t_structures (dk_db k))\<rparr>)\<rparr>)) = (k', r)"
proof -
  obtain k1 c where c: "submit_checks env mode pid k = (k1, c)" by fastforce
  note cc = submit_checks_cases [OF c]
  show ?thesis
  proof (cases c)
    case (Inl e)
    then have "r = Inl e" using assms(1) c by (auto simp: submit_body_def)
    then show ?thesis using cc Inl assms(3) by auto
  next
    case (Inr iv)
    with cc assms(2) have iv: "iv = (i, v)" "k1 = k" by (auto split: prod.splits)
    show ?thesis
      using assms(1,3) c Inr iv by (auto simp: submit_body_def Let_def insert_structure_def split: if_splits)
  qed
qed

section \<open>The mock booking\<close>

lemma totals_sum: "totals_of rs =
    \<lparr>st_premium = sum_list (map order_premium rs), st_commission = sum_list (map (flt_or0 \<circ> o_total_commission_usd) rs),
     st_slippage = sum_list (map (\<lambda>r. flt_or0 (o_total_slippage_usd r) * order_multiplier r) rs),
     st_first = fold (\<lambda>r a. opt_merge min a (o_fully_filled_at r)) rs None,
     st_last = fold (\<lambda>r a. opt_merge max a (o_fully_filled_at r)) rs None\<rparr>"
proof -
  have "foldl add_order t rs =
    \<lparr>st_premium = st_premium t + sum_list (map order_premium rs),
     st_commission = st_commission t + sum_list (map (flt_or0 \<circ> o_total_commission_usd) rs),
     st_slippage = st_slippage t + sum_list (map (\<lambda>r. flt_or0 (o_total_slippage_usd r) * order_multiplier r) rs),
     st_first = fold (\<lambda>r a. opt_merge min a (o_fully_filled_at r)) rs (st_first t),
     st_last = fold (\<lambda>r a. opt_merge max a (o_fully_filled_at r)) rs (st_last t)\<rparr>" for t
    by (induction rs arbitrary: t) (simp_all add: add_order_def)
  then show ?thesis by (simp add: totals_of_def)
qed

lemma fold_same_time:
  assumes "\<And>r. r \<in> set rs \<Longrightarrow> o_fully_filled_at r = Some now" "a \<in> {None, Some now}" "\<And>x. f x x = x"
  shows "rs \<noteq> [] \<longrightarrow> fold (\<lambda>r a. opt_merge f a (o_fully_filled_at r)) rs a = Some now"
  using assms(1,2)
proof (induction rs arbitrary: a)
  case (Cons r rs)
  have "opt_merge f a (o_fully_filled_at r) = Some now" using Cons.prems assms(3) by (auto simp: opt_merge_def)
  then show ?case using Cons.IH [of "Some now"] Cons.prems by (cases rs) auto
qed simp

text \<open>A payload's futures carry no premium.\<close>

definition futures_free :: "payload_leg list \<Rightarrow> bool" where
  "futures_free legs = (\<forall>l \<in> set legs. py_contract_type l = ''future'' \<longrightarrow> py_entry_price_usd l = 0)"

lemma mock_order_sel [simp]:
  "o_fully_filled_at (mock_order now tr rate tol sid x) = Some now" "o_total_slippage_usd (mock_order now tr rate tol sid x) = Some 0"
  "o_total_commission_usd (mock_order now tr rate tol sid x) = Some (of_int (py_qty (snd x)) * rate)"
  "o_structure_id (mock_order now tr rate tol sid x) = sid" "o_order_role (mock_order now tr rate tol sid x) = Entry"
  "o_state (mock_order now tr rate tol sid x) = Filled" "o_qty_filled (mock_order now tr rate tol sid x) = py_qty (snd x)"
  "o_qty (mock_order now tr rate tol sid x) = py_qty (snd x)" "o_side (mock_order now tr rate tol sid x) = py_side (snd x)"
  "o_avg_fill_price (mock_order now tr rate tol sid x) = Some (mock_price (snd x))"
  "o_contract_type (mock_order now tr rate tol sid x) = py_contract_type (snd x)"
  by (simp_all add: mock_order_def case_prod_unfold)

lemma mock_totals:
  assumes "legs \<noteq> []" "futures_free legs"
  shows "complete_row now (totals_of (map (mock_order now tr rate tol sid) (enumerate 0 legs))) s = fill_structure now rate legs s"
proof -
  let ?rs = "map (mock_order now tr rate tol sid) (enumerate 0 legs)"
  have prem: "order_premium (mock_order now tr rate tol sid x) =
      side_sign (py_side (snd x)) * py_entry_price_usd (snd x) * of_int (py_qty (snd x))"
    if "x \<in> set (enumerate 0 legs)" for x
  proof -
    have "snd x \<in> set (map snd (enumerate 0 legs))" unfolding set_map using that by (rule imageI)
    then have "snd x \<in> set legs" by (simp only: map_snd_enumerate)
    then show ?thesis using assms(2)
      by (auto simp: order_premium_def side_sign_def mock_price_def futures_free_def EUR_FOP_MULTIPLIER_def flt_or0_def)
  qed
  have snd_sum: "sum_list (map (\<lambda>x. g (snd x)) (enumerate 0 legs)) = sum_list (map g legs)" for g :: "payload_leg \<Rightarrow> flt"
  proof -
    have "map (\<lambda>x. g (snd x)) (enumerate 0 legs) = map g (map snd (enumerate 0 legs))" by (simp only: map_map comp_def)
    then show ?thesis by (simp only: map_snd_enumerate)
  qed
  have "sum_list (map order_premium ?rs) = mock_premium legs"
    unfolding mock_premium_def snd_sum [symmetric] using prem by (simp add: comp_def cong: map_cong)
  moreover have "sum_list (map (flt_or0 \<circ> o_total_commission_usd) ?rs) = mock_commission rate legs"
    unfolding mock_commission_def snd_sum [symmetric] by (simp add: comp_def flt_or0_def)
  moreover have "sum_list (map (\<lambda>r. flt_or0 (o_total_slippage_usd r) * order_multiplier r) ?rs) = 0"
    by (simp add: comp_def flt_or0_def)
  moreover have "fold (\<lambda>r a. opt_merge f a (o_fully_filled_at r)) ?rs None = Some now" if "\<And>x. f x x = x" for f
  proof -
    have "?rs \<noteq> []" using assms(1) by (cases legs) simp_all
    moreover have "o_fully_filled_at r = Some now" if "r \<in> set ?rs" for r using that by auto
    ultimately show ?thesis using fold_same_time [of ?rs now None f] that by blast
  qed
  ultimately show ?thesis by (simp add: complete_row_def totals_sum fill_structure_def time_or_def)
qed

text \<open>Each order of the mock path has exactly its own fill.\<close>

definition filled_by :: "int \<times> order_row \<Rightarrow> int \<times> fill_row \<Rightarrow> bool" where
  "filled_by x y =
     (f_order_id (snd y) = fst x \<and> f_qty_filled (snd y) = o_qty_filled (snd x) \<and>
      Some (f_fill_price (snd y)) = o_avg_fill_price (snd x) \<and> f_side (snd y) = o_side (snd x) \<and>
      Some (f_commission_usd (snd y)) = o_total_commission_usd (snd x))"

lemma mock_legs_rows:
  "\<exists>os fs. t_orders (foldl (add_mock_leg now tr rate tol sid) d xs) = t_orders d @ os \<and>
     t_fills (foldl (add_mock_leg now tr rate tol sid) d xs) = t_fills d @ fs \<and>
     map snd os = map (mock_order now tr rate tol sid) xs \<and> list_all2 filled_by os fs"
proof (induction xs arbitrary: d)
  case (Cons x xs)
  let ?d = "add_mock_leg now tr rate tol sid d x"
  from Cons.IH [of ?d] obtain os fs where
    "t_orders (foldl (add_mock_leg now tr rate tol sid) ?d xs) = t_orders ?d @ os"
    "t_fills (foldl (add_mock_leg now tr rate tol sid) ?d xs) = t_fills ?d @ fs"
    "map snd os = map (mock_order now tr rate tol sid) xs" "list_all2 filled_by os fs" by blast
  note ih = this
  let ?o = "(next_id (t_orders d), mock_order now tr rate tol sid x)"
    and ?f = "(next_id (t_fills d), mock_fill now rate sid (next_id (t_orders d)) x)"
  have rows: "t_orders ?d = t_orders d @ [?o]" "t_fills ?d = t_fills d @ [?f]"
    by (simp_all add: add_mock_leg_def Let_def tins_def)
  have own: "filled_by ?o ?f" by (simp add: filled_by_def mock_fill_def case_prod_unfold)
  show ?case
    by (rule exI [of _ "?o # os"], rule exI [of _ "?f # fs"]) (use ih rows own in simp)
qed simp

lemma mock_legs_frame:
  "t_legs (foldl (add_mock_leg now tr rate tol sid) d xs) = t_legs d \<and>
   t_positions (foldl (add_mock_leg now tr rate tol sid) d xs) = t_positions d"
  by (induction xs arbitrary: d) (simp_all add: add_mock_leg_def Let_def)

lemma live_path_tables:
  assumes "live_path env sid i v k = (k', r)"
  shows "map snd (t_orders (dk_db k')) =
      map snd (t_orders (dk_db k)) @ map (live_order (sv_now env) (sv_trace env) sid (vw_payload v)) (enumerate 0 (pp_legs (vw_payload v)))"
    "t_structures (dk_db k') = t_structures (dk_db k)" "t_fills (dk_db k') = t_fills (dk_db k)"
    "t_positions (dk_db k') = t_positions (dk_db k)"
proof -
  have "dk_db k' = add_live_orders (sv_now env) (sv_trace env) sid (vw_payload v) (dk_db k)"
    using assms by (auto simp: live_path_def Let_def split: sum.splits)
  then show "map snd (t_orders (dk_db k')) =
      map snd (t_orders (dk_db k)) @ map (live_order (sv_now env) (sv_trace env) sid (vw_payload v)) (enumerate 0 (pp_legs (vw_payload v)))"
    "t_structures (dk_db k') = t_structures (dk_db k)" "t_fills (dk_db k') = t_fills (dk_db k)"
    "t_positions (dk_db k') = t_positions (dk_db k)"
    by (simp_all add: add_live_orders_def foldl_tins_rows)
qed

lemma refresh_frame [simp]:
  "t_orders (refresh_book_state now sy cap d) = t_orders d" "t_fills (refresh_book_state now sy cap d) = t_fills d"
  "t_structures (refresh_book_state now sy cap d) = t_structures d" "t_positions (refresh_book_state now sy cap d) = t_positions d"
  "t_legs (refresh_book_state now sy cap d) = t_legs d"
  by (simp_all add: refresh_book_state_def Let_def)

section \<open>Properties\<close>

text \<open>
  C12. A live submit that is recorded (accepted by the engine or not) adds one order per leg
  of the preview and nothing to the fills and positions: pending, unfilled, unclaimed, with
  the leg's contract, side and quantity; a limit is on the 0.0001 grid, within half a step of
  the premium plus or minus the 25 percent buffer and, from a premium of two steps, on the
  crossing side of it; futures and legs without a premium are market orders. The structure
  carries the preview's id.
\<close>

theorem live_submit_orders_exact:
  assumes "submit_body env ''live'' pid k = (k', r)" "preview_by_id pid k = Some (i, v)"
    and "is_ok r \<or> r = Inl (HTTPException 502 tag)"
  shows "\<exists>new. map snd (t_orders (dk_db k')) = map snd (t_orders (dk_db k)) @ new \<and>
      length new = length (pp_legs (vw_payload v)) \<and>
      (\<forall>n < length new. pending_leg_order (next_id (t_structures (dk_db k))) (vw_payload v) n (new ! n)) \<and>
      t_structures (dk_db k') = tins (submitted_structure (sv_now env) ''live'' v) (t_structures (dk_db k)) \<and>
      t_fills (dk_db k') = t_fills (dk_db k) \<and> t_positions (dk_db k') = t_positions (dk_db k)"
proof -
  let ?sid = "next_id (t_structures (dk_db k))" and ?p = "vw_payload v"
  let ?new = "map (live_order (sv_now env) (sv_trace env) ?sid ?p) (enumerate 0 (pp_legs ?p))"
  note run = submit_body_recorded [OF assms, simplified]
  note tables = live_path_tables [OF run, simplified]
  have "pending_leg_order ?sid ?p n (?new ! n)" if "n < length ?new" for n
    using live_order_pending [of n ?p] that by (simp add: nth_enumerate_eq)
  then show ?thesis using tables by (intro exI [of _ ?new]) (simp add: add_event_def)
qed

text \<open>
  C13. A mock submit books the trade as the live cascade would: one filled order per leg, each
  with exactly its own fill, the structure's row is the one the fills handler computes from
  those orders, and one open position with its premium, cost and the preview's greeks. The
  mock path never projects a leg: \<open>leg_position\<close> is untouched.
\<close>

theorem mock_submit_books_exact:
  assumes "submit_body env ''mock'' pid k = (k', Inr a)" "preview_by_id pid k = Some (i, v)"
    and "pp_legs (vw_payload v) \<noteq> []" "futures_free (pp_legs (vw_payload v))"
  shows "\<exists>os fs s. t_orders (dk_db k') = t_orders (dk_db k) @ os \<and> t_fills (dk_db k') = t_fills (dk_db k) @ fs \<and>
      length os = length (pp_legs (vw_payload v)) \<and> list_all2 filled_by os fs \<and>
      (\<forall>(oid, r) \<in> set os. o_structure_id r = ans_structure_id a \<and> o_state r = Filled \<and> o_qty_filled r = o_qty r) \<and>
      s = complete_row (sv_now env) (totals_of (map snd os)) (submitted_structure (sv_now env) ''mock'' v) \<and>
      t_structures (dk_db k') = tins s (t_structures (dk_db k)) \<and>
      t_positions (dk_db k') =
        tins (mock_position (sv_now env) (ans_structure_id a) s (pp_greeks_net (vw_payload v))) (t_positions (dk_db k)) \<and>
      t_legs (dk_db k') = t_legs (dk_db k)"
proof -
  define s0 sid p d0 where "s0 = submitted_structure (sv_now env) ''mock'' v" and "sid = next_id (t_structures (dk_db k))"
    and "p = vw_payload v" and "d0 = add_event (submission_event sid) (dk_db k\<lparr>t_structures := tins s0 (t_structures (dk_db k))\<rparr>)"
  define rate tol where "rate = setting_or (load_limits d0) ''commission_per_contract_usd'' 2"
    and "tol = setting_or (load_limits d0) ''slippage_tolerance_pct'' (1 / 2)"
  define s where "s = fill_structure (sv_now env) rate (pp_legs p) s0"
  define d1 where "d1 = foldl (add_mock_leg (sv_now env) (sv_trace env) rate tol sid) d0 (enumerate 0 (pp_legs p))"
  have run: "mock_path env sid s0 i v (k\<lparr>dk_db := d0\<rparr>) = (k', Inr a)"
    using submit_body_recorded [OF assms(1,2)] by (simp add: s0_def sid_def d0_def)
  have sid: "ans_structure_id a = sid" using run by (auto simp: mock_path_def Let_def)
  have tables: "t_orders (dk_db k') = t_orders d1" "t_fills (dk_db k') = t_fills d1" "t_legs (dk_db k') = t_legs d1"
    "t_structures (dk_db k') = tupd sid (\<lambda>x. s) (t_structures d1)"
    "t_positions (dk_db k') = tins (mock_position (sv_now env) sid s (pp_greeks_net p)) (t_positions d1)"
    using run by (auto simp: mock_path_def Let_def d1_def s_def rate_def tol_def p_def upd_structure_def add_event_def)
  obtain os fs where rows: "t_orders d1 = t_orders d0 @ os" "t_fills d1 = t_fills d0 @ fs" "list_all2 filled_by os fs"
    "map snd os = map (mock_order (sv_now env) (sv_trace env) rate tol sid) (enumerate 0 (pp_legs p))"
    using mock_legs_rows [of "sv_now env" "sv_trace env" rate tol sid d0 "enumerate 0 (pp_legs p)"] unfolding d1_def by blast
  have d0: "t_orders d0 = t_orders (dk_db k)" "t_fills d0 = t_fills (dk_db k)" "t_legs d0 = t_legs (dk_db k)"
    "t_positions d0 = t_positions (dk_db k)" "t_structures d0 = tins s0 (t_structures (dk_db k))"
    by (simp_all add: d0_def add_event_def)
  have frame: "t_legs d1 = t_legs d0" "t_positions d1 = t_positions d0" "t_structures d1 = t_structures d0"
    using mock_legs_frame mock_legs_structures by (simp_all add: d1_def)
  have "s = complete_row (sv_now env) (totals_of (map snd os)) s0"
    using mock_totals [OF assms(3,4)] by (simp add: s_def rows(4) p_def)
  moreover have "length os = length (pp_legs p)" using rows(4) by (metis length_map length_enumerate)
  moreover have "t_structures (dk_db k') = tins s (t_structures (dk_db k))"
    using tupd_tins_fresh [of "t_structures (dk_db k)" "\<lambda>x. s" s0] by (simp add: tables frame d0 sid_def)
  moreover have "\<forall>(oid, r) \<in> set os. o_structure_id r = sid \<and> o_state r = Filled \<and> o_qty_filled r = o_qty r"
  proof (rule ballI, clarify)
    fix oid r assume "(oid, r) \<in> set os"
    then have "r \<in> set (map snd os)" by force
    then show "o_structure_id r = sid \<and> o_state r = Filled \<and> o_qty_filled r = o_qty r" unfolding rows(4) by auto
  qed
  ultimately show ?thesis using tables frame d0 rows(1,2,3) unfolding sid p_def s0_def
    by (intro exI [of _ os] exI [of _ fs] exI [of _ s] conjI) simp_all
qed

section \<open>A preview ready to submit\<close>

definition no_greeks :: net_greeks where
  "no_greeks = \<lparr>ng_vega = 0, ng_gamma = 0, ng_theta = 0, ng_delta_unhedged = 0, ng_delta_post_hedge = 0\<rparr>"

definition ready_leg :: payload_leg where
  "ready_leg = \<lparr>py_leg_idx = 0, py_contract_type = ''call'', py_tenor = ''3M'', py_expiry = Some (Date 2026 9 4), py_dte = 90,
     py_strike = Some (11 / 10), py_qty_factor = 1, py_qty = 2, py_side = BUY, py_entry_iv_pct = Some 7,
     py_requested_tenor = None, py_snapped = False, py_entry_price_usd = 1000\<rparr>"

definition ready_payload :: preview_payload where
  "ready_payload = \<lparr>pp_preview_id = ''tp_2'', pp_created_at = 90, pp_expires_at = 210, pp_type = ''vanilla_call'',
     pp_type_template = ''vanilla_call'', pp_reference_tenor = ''3M'', pp_tenor_far = None, pp_requires_delta_hedge = True,
     pp_vega_sign = ''positive'', pp_future_contract_size = None, pp_ib_symbol = None, pp_future_multiplier_eur = None,
     pp_legs = [ready_leg], pp_greeks_net = no_greeks, pp_per_unit = no_greeks,
     pp_pricing = \<lparr>pr_leg_prices_usd = [1000], pr_total_premium_usd = 1000, pr_breakeven_pips = None, pr_max_loss_usd = 1000,
       pr_max_loss_at_expiry_only = True\<rparr>,
     pp_premium_per_contract_usd = 1000, pp_commission_usd = 4, pp_total_trade_cost_usd = 2004, pp_scenarios = [],
     pp_legs_greeks = [], pp_pnl_grid = [],
     pp_sizing = \<lparr>sz_base_qty = 2, sz_z_factor = 1, sz_book_penalty = 1, sz_event_dampener = 1, sz_regime_multiplier = 1,
       sz_final_qty_per_leg = 2, sz_leg_quantities = [(0, 2)], sz_final_premium_usd = 1000\<rparr>,
     pp_checks = [], pp_state = ''valid_for_submit'', pp_blocking_reasons = [], pp_surface_age_seconds = 10, pp_spot = 1\<rparr>"

definition ready_row :: preview_row where
  "ready_row = \<lparr>vw_preview_id = ''tp_2'', vw_expires_at = 210, vw_pca_signal_id = None, vw_triggering_pc = None,
     vw_armed_z_score = None, vw_armed_signal_label = None, vw_structure_type = ''vanilla_call'',
     vw_product_label = Some ''Vanilla Call'', vw_reference_tenor = ''3M'', vw_payload = ready_payload,
     vw_state = ''valid_for_submit'', vw_user_action = None, vw_user_action_at = None\<rparr>"

definition ready_desk :: desk where
  "ready_desk = \<lparr>dk_db = empty_db, dk_previews = [(1, ready_row)], dk_regimes = [], dk_locks = []\<rparr>"

definition ready_env :: submit_env where
  "ready_env = \<lparr>sv_now = 100, sv_redis = True, sv_ib_row = Some True, sv_latest_z = None, sv_gate = example_world,
     sv_engine = Engine_status 200, sv_trace = None\<rparr>"

lemma ready_preview: "preview_by_id ''tp_2'' ready_desk = Some (1, ready_row)"
  by (simp add: preview_by_id_find ready_desk_def ready_row_def)

lemma ready_gate: "gr_passed (submit_gate ready_env mode ready_desk ready_row)"
proof -
  have w: "gate_world_of ready_env ready_desk = example_world"
    by (simp add: gate_world_of_def ready_env_def example_world_def ready_desk_def)
  have env: "allowed_symbols None = [''EUR'', ''M6E'']" by code_simp
  have req: "required_account_type None = ''paper''" by code_simp
  have "\<not> is_halted empty_db" by (simp add: is_halted_def flag_row_def empty_db_def)
  then have halt: "\<not> hs_halted (get_halt empty_db)" by (simp add: get_halt_def Let_def split: option.split)
  have "gr_passed (run_pretrade_gate 100 example_world (gate_view ready_payload) live)" for live
    unfolding run_pretrade_gate_def evaluate_pretrade_passed check_halt_ok check_symbols_ok check_account_ok check_ages_ok
      check_caps_ok example_caps
    by (simp add: gate_inputs_of_def example_world_def env req leg_symbols_def setting_or_def risk_heartbeat_age_s_def
        DEFAULT_MAX_RISK_HEARTBEAT_AGE_S_def book_of_mirror_def gate_spot_def trade_greeks_from_preview_def within_caps_def
        EUR_FOP_MULTIPLIER_def PIP_SIZE_def gate_view_def ready_payload_def no_greeks_def ready_leg_def halt
        check_arbitrage_def or_none_def Let_def flt_or0_def)
  then show ?thesis by (simp add: submit_gate_def w) (simp add: ready_env_def ready_row_def)
qed

lemma ready_checks: "submit_checks ready_env mode ''tp_2'' ready_desk = (ready_desk, Inr (1, ready_row))"
proof -
  have "rv_passed (revalidate_preview (revalidation_of ready_env ready_desk ready_row))"
    by (simp add: revalidate_preview_def revalidation_of_def ready_env_def ready_row_def ready_desk_def load_regime_def
        current_z_of_def Let_def)
  moreover have "pp_legs (vw_payload ready_row) \<noteq> []" "fetch_ib_connected (sv_ib_row ready_env)"
    by (simp_all add: ready_row_def ready_payload_def ready_env_def fetch_ib_connected_def)
  ultimately show ?thesis using ready_gate [of mode] by (simp add: submit_checks_def ready_preview Let_def)
qed

lemma ready_insert: "insert_structure s (dk_db ready_desk) = Inr (dk_db ready_desk\<lparr>t_structures := tins s []\<rparr>)"
  by (simp add: insert_structure_def ready_desk_def empty_db_def submitted_ids_def List.map_filter_simps)

lemma ready_ok: "is_ok (snd (submit_body ready_env mode ''tp_2'' ready_desk))"
  by (simp add: submit_body_def ready_checks Let_def ready_insert live_path_def mock_path_def post_execution_engine_def)
    (simp add: ready_env_def)

theorem live_submit_orders_exact_witness:
  "\<exists>r. map snd (t_orders (dk_db (fst (submit_body ready_env ''live'' ''tp_2'' ready_desk)))) = [r] \<and>
     o_state r = Pending \<and> o_side r = BUY \<and> o_qty r = 2"
proof -
  obtain new where "map snd (t_orders (dk_db (fst (submit_body ready_env ''live'' ''tp_2'' ready_desk)))) = new"
    "length new = 1" "pending_leg_order 1 ready_payload 0 (new ! 0)"
    using live_submit_orders_exact [OF prod.collapse [symmetric] ready_preview, of ready_env] ready_ok [of "''live''"]
    by (auto simp: ready_desk_def ready_row_def ready_payload_def empty_db_def next_id_def)
  then show ?thesis
    by (cases new) (auto simp: pending_leg_order_def ready_payload_def ready_leg_def Let_def)
qed

theorem mock_submit_books_exact_witness:
  "\<exists>s. t_structures (dk_db (fst (submit_body ready_env ''mock'' ''tp_2'' ready_desk))) = [(1, s)] \<and>
     s_state s = S_fully_filled \<and> length (t_fills (dk_db (fst (submit_body ready_env ''mock'' ''tp_2'' ready_desk)))) = 1"
proof -
  obtain a where a: "submit_body ready_env ''mock'' ''tp_2'' ready_desk =
      (fst (submit_body ready_env ''mock'' ''tp_2'' ready_desk), Inr a)"
    using ready_ok [of "''mock''"] by (metis is_ok_def prod.collapse sum.case_eq_if sum.collapse(2) old.sum.simps(5))
  have legs: "pp_legs (vw_payload ready_row) \<noteq> []" "futures_free (pp_legs (vw_payload ready_row))"
    by (simp_all add: ready_row_def ready_payload_def futures_free_def ready_leg_def)
  show ?thesis
    using mock_submit_books_exact [OF a ready_preview legs] list_all2_lengthD
    by (fastforce simp: ready_desk_def empty_db_def ready_row_def ready_payload_def tins_def next_id_def complete_row_def)
qed

end
