(* ===== verification/Preview_Correctness.thy ===== *)
theory Preview_Correctness
  imports Trade_Submit_Correctness
begin

text \<open>
  What a created preview holds: quantities, greeks, premium and verdict for the requested
  size, and where the checks and the gate read it on another scale than it is written.
\<close>

text \<open>The request model admits only the two contract sizes.\<close>

definition valid_size :: "preview_request \<Rightarrow> bool" where
  "valid_size q = (rq_future_contract_size q \<in> {None, Some ''full'', Some ''micro''})"

lemma requested_wf:
  assumes "requested_structure erf today q s = Inr st" "valid_size q"
  shows "wf_structure today st"
  using assms build_from_legs_wf build_structure_wf
  by (fastforce simp: valid_size_def requested_structure_def value_error_400_def split: option.splits prod.splits sum.splits py_error.splits)

lemma manual_sizing_pos:
  assumes "0 < n"
  shows "sz_final_qty_per_leg (manual_sizing ls regime n premium st) = n" "sz_base_qty (manual_sizing ls regime n premium st) = n"
    "sz_leg_quantities (manual_sizing ls regime n premium st) = map (\<lambda>l. (pl_leg_idx l, n * pl_qty_factor l)) (ps_legs st)"
  using assms by (simp_all add: manual_sizing_def compute_sizing_def final_qty_of_def Let_def)

text \<open>The check of the book's vega sees the vega of one unit, whatever the size.\<close>

lemma vega_check_ignores_size:
  assumes "0 < n"
  shows "manual_checks ls regime bv g (manual_sizing ls regime n premium st) =
    manual_checks ls regime bv g (manual_sizing ls regime 1 premium st)"
  using assms by (simp add: manual_checks_def manual_sizing_pos)

lemma wf_legs_index:
  assumes "wf_structure today st" "i < length (ps_legs st)"
  shows "pl_leg_idx (ps_legs st ! i) = i"
  using assms by (auto simp: wf_structure_def wf_leg_def)

lemma payload_leg_facts:
  assumes wf: "wf_structure today st" and n: "0 < n" and l: "l \<in> set (ps_legs st)"
  shows "py_qty (payload_leg_of (price_structure erf st s) (manual_sizing ls regime n prem st) l) = n * pl_qty_factor l"
    "py_entry_price_usd (payload_leg_of (price_structure erf st s) (manual_sizing ls regime n prem st) l) =
       leg_price erf (spot_from_surface s) l" "0 < pl_qty_factor l" "pl_side l \<in> {BUY, SELL}"
proof -
  from l obtain i where i: "i < length (ps_legs st)" "l = ps_legs st ! i" by (auto simp: in_set_conv_nth)
  have idx: "pl_leg_idx l = i" using wf_legs_index [OF wf i(1)] i by simp
  have leg: "wf_leg today i l" using wf i by (auto simp: wf_structure_def)
  then show "0 < pl_qty_factor l" "pl_side l \<in> {BUY, SELL}" by (auto simp: wf_leg_def)
  have dist: "distinct (map pl_leg_idx (ps_legs st))"
    using wf_legs_index [OF wf] by (auto simp: distinct_conv_nth)
  have "map_of (rev (map (\<lambda>l. (pl_leg_idx l, n * pl_qty_factor l)) (ps_legs st))) (pl_leg_idx l) = Some (n * pl_qty_factor l)"
  proof (rule map_of_is_SomeI)
    show "distinct (map fst (rev (map (\<lambda>l. (pl_leg_idx l, n * pl_qty_factor l)) (ps_legs st))))"
      using dist by (simp add: comp_def flip: rev_map)
    show "(pl_leg_idx l, n * pl_qty_factor l) \<in> set (rev (map (\<lambda>l. (pl_leg_idx l, n * pl_qty_factor l)) (ps_legs st)))"
      unfolding set_rev set_map using l by (rule imageI)
  qed
  then show "py_qty (payload_leg_of (price_structure erf st s) (manual_sizing ls regime n prem st) l) = n * pl_qty_factor l"
    by (simp add: payload_leg_of_def manual_sizing_pos [OF n])
  show "py_entry_price_usd (payload_leg_of (price_structure erf st s) (manual_sizing ls regime n prem st) l) =
       leg_price erf (spot_from_surface s) l"
    by (simp add: payload_leg_of_def price_structure_def Let_def idx i(1) i(2) [symmetric])
qed

lemma payload_of_positive:
  assumes wf: "wf_structure today st" and n: "0 < n" and q: "rq_qty q = Some n"
    and p_def: "p = payload_of erf now pid ls regime bv q s age st rate"
  shows "(\<forall>l \<in> set (pp_legs p). py_qty l = n * py_qty_factor l \<and> 0 < py_qty l \<and> py_side l \<in> {BUY, SELL})"
    and "pp_greeks_net p = scale_net n (pp_per_unit p)"
    and "\<bar>mock_premium (pp_legs p) - of_int n * pr_total_premium_usd (pp_pricing p)\<bar> \<le> of_int n / 20000"
    and "futures_free (pp_legs p)"
    and "pp_state p = ''valid_for_submit'' \<longleftrightarrow> (\<forall>(name, passed, details) \<in> set (pp_checks p). passed)"
proof -
  have b: "base_qty_eff ls (rq_qty q) = n" using n by (simp add: base_qty_eff_def q)
  let ?leg = "payload_leg_of (price_structure erf st s) (manual_sizing ls regime n (pr_total_premium_usd (price_structure erf st s)) st)"
  have legs: "pp_legs p = map ?leg (ps_legs st)" by (simp add: p_def payload_of_def Let_def b)
  note facts = payload_leg_facts [OF wf n]
  have sel: "py_qty_factor (?leg l) = pl_qty_factor l" "py_side (?leg l) = pl_side l"
    "py_contract_type (?leg l) = pl_contract_type l" for l by (simp_all add: payload_leg_of_def)
  show "(\<forall>l \<in> set (pp_legs p). py_qty l = n * py_qty_factor l \<and> 0 < py_qty l \<and> py_side l \<in> {BUY, SELL})"
    using facts n by (auto simp: legs sel)
  show "pp_greeks_net p = scale_net n (pp_per_unit p)"
    by (simp add: p_def payload_of_def Let_def b manual_sizing_pos [OF n])
  let ?t = "sum_list (map (\<lambda>l. side_sign (pl_side l) * leg_price erf (spot_from_surface s) l * of_int (pl_qty_factor l)) (ps_legs st))"
  have "mock_premium (pp_legs p) = sum_list (map (\<lambda>l. of_int n * (side_sign (pl_side l) * leg_price erf (spot_from_surface s) l * of_int (pl_qty_factor l))) (ps_legs st))"
    unfolding mock_premium_def legs map_map by (intro arg_cong [where f = sum_list] map_cong) (simp_all add: facts sel)
  then have prem: "mock_premium (pp_legs p) = of_int n * ?t" by (simp add: sum_list_const_mult)
  have "\<bar>?t - py_round 4 ?t\<bar> \<le> 1 / 20000" using py_round_close [of 4 ?t] by (simp add: abs_minus_commute)
  then have "of_int n * \<bar>?t - py_round 4 ?t\<bar> \<le> of_int n * (1 / 20000)" using n by (intro mult_left_mono) auto
  moreover have "\<bar>of_int n * ?t - of_int n * py_round 4 ?t\<bar> = of_int n * \<bar>?t - py_round 4 ?t\<bar>"
    using n by (simp add: abs_mult flip: right_diff_distrib)
  moreover have "pr_total_premium_usd (pp_pricing p) = py_round 4 ?t"
    by (simp add: p_def payload_of_def Let_def price_structure_def)
  ultimately show "\<bar>mock_premium (pp_legs p) - of_int n * pr_total_premium_usd (pp_pricing p)\<bar> \<le> of_int n / 20000"
    unfolding prem by simp
  show "futures_free (pp_legs p)"
    using facts(2) by (auto simp: futures_free_def legs sel leg_price_def priceable_def)
  show "pp_state p = ''valid_for_submit'' \<longleftrightarrow> (\<forall>(name, passed, details) \<in> set (pp_checks p). passed)"
    by (force simp: p_def payload_of_def Let_def filter_empty_conv)
qed

lemma create_preview_payload:
  assumes c: "create_preview erf today now pid sy surf q k = (k', Inr p)"
  obtains st s age bv ls regime rate where "p = payload_of erf now pid ls regime bv q s age st rate"
    "requested_structure erf today q s = Inr st" "preview_by_id pid k = None"
    "k' = k\<lparr>dk_previews := tins (row_of_preview q st p) (dk_previews k)\<rparr>"
proof -
  define regime ls sa where "regime = load_regime sy k" and "ls = apply_regime_to_limits (load_limits (dk_db k)) regime"
    and "sa = (case surf of None \<Rightarrow> (synthetic_surface, 0) | Some x \<Rightarrow> x)"
  define bv where "bv = bs_total_vega_usd (load_book now sy (setting_or ls ''starting_capital_usd'' 100000) (dk_db k))"
  note c = c [unfolded create_preview_def Let_def, folded regime_def, folded ls_def, folded bv_def sa_def]
  show ?thesis
  proof (cases "requested_structure erf today q (fst sa)")
    case (Inl e)
    with c show ?thesis by (auto split: if_splits)
  next
    case (Inr st)
    show ?thesis
    proof (cases "commission_per_contract ls st")
      case (Inl e)
      with c Inr show ?thesis by (auto split: if_splits)
    next
      case (Inr rate)
      note st = \<open>requested_structure erf today q (fst sa) = Inr st\<close>
      have p: "p = payload_of erf now pid ls regime bv q (fst sa) (snd sa) st rate"
        using c st Inr by (auto split: if_splits)
      have new: "preview_by_id pid k = None"
        using c st Inr by (cases "preview_by_id pid k") (auto split: if_splits)
      have "k' = k\<lparr>dk_previews := tins (row_of_preview q st p) (dk_previews k)\<rparr>"
        using c st Inr by (auto split: if_splits)
      with p st new show ?thesis using that by metis
    qed
  qed
qed

section \<open>Properties\<close>

text \<open>
  C14. A preview created for n lots holds n times each leg's weight, the greeks of one unit
  scaled by n, leg prices whose booking premium is n times the quoted unit premium up to the
  rounding of that quote, and no premium on a future; it is valid for submit exactly when
  every check passed, and it is stored untouched under its id.
\<close>

theorem created_preview_consistent:
  assumes "create_preview erf today now pid sy surf q k = (k', Inr p)" "valid_size q" "rq_qty q = Some n" "0 < n"
  shows "(\<forall>l \<in> set (pp_legs p). py_qty l = n * py_qty_factor l \<and> 0 < py_qty l \<and> py_side l \<in> {BUY, SELL}) \<and>
    pp_greeks_net p = scale_net n (pp_per_unit p) \<and>
    \<bar>mock_premium (pp_legs p) - of_int n * pr_total_premium_usd (pp_pricing p)\<bar> \<le> of_int n / 20000 \<and>
    futures_free (pp_legs p) \<and>
    (pp_state p = ''valid_for_submit'' \<longleftrightarrow> (\<forall>(name, passed, details) \<in> set (pp_checks p). passed)) \<and>
    (\<exists>i v. preview_by_id pid k' = Some (i, v) \<and> vw_payload v = p \<and> vw_state v = pp_state p \<and> vw_user_action v = None)"
proof -
  from create_preview_payload [OF assms(1)] obtain st s age bv ls regime rate where
    p: "p = payload_of erf now pid ls regime bv q s age st rate" and st: "requested_structure erf today q s = Inr st"
    and new: "preview_by_id pid k = None" and k': "k' = k\<lparr>dk_previews := tins (row_of_preview q st p) (dk_previews k)\<rparr>"
    by metis
  note facts = payload_of_positive [OF requested_wf [OF st assms(2)] assms(4,3) p]
  have "pp_preview_id p = pid" by (simp add: p payload_of_sel)
  then have "preview_by_id pid k' = Some (next_id (dk_previews k), row_of_preview q st p)"
    using new by (simp add: preview_by_id_find k' tins_def find_append row_of_preview_def)
  then have "\<exists>i v. preview_by_id pid k' = Some (i, v) \<and> vw_payload v = p \<and> vw_state v = pp_state p \<and> vw_user_action v = None"
    by (simp add: row_of_preview_def)
  with facts show ?thesis by blast
qed

lemma created_example: "\<exists>p. create_preview erf 739000 0 ''tp_1'' ''EURUSD'' None example_request example_desk = (created_desk erf, Inr p)"
proof -
  have "created_desk erf \<noteq> example_desk"
    using created_open [of erf] by (auto simp: life_def preview_by_id_def twhere_def example_desk_def)
  moreover obtain r where r: "create_preview erf 739000 0 ''tp_1'' ''EURUSD'' None example_request example_desk = (created_desk erf, r)"
    by (metis created_desk_def prod.collapse)
  ultimately show ?thesis using create_preview_cases [OF r] by metis
qed

theorem created_preview_consistent_witness:
  "\<exists>p. create_preview (\<lambda>x. 0) 739000 0 ''tp_1'' ''EURUSD'' None example_request example_desk = (created_desk (\<lambda>x. 0), Inr p) \<and>
     pp_greeks_net p = scale_net 1 (pp_per_unit p) \<and> futures_free (pp_legs p)"
proof -
  obtain p where p: "create_preview (\<lambda>x. 0) 739000 0 ''tp_1'' ''EURUSD'' None example_request example_desk = (created_desk (\<lambda>x. 0), Inr p)"
    using created_example by blast
  have "valid_size example_request" "rq_qty example_request = Some 1"
    by (simp_all add: valid_size_def example_request_def)
  from created_preview_consistent [OF p this] p show ?thesis by auto
qed

section \<open>Scales that do not agree\<close>

text \<open>
  A negative quantity is accepted: the legs are for one unit, the greeks the trader and the
  gate see are those of the opposite position.
\<close>

lemma negative_size_one_lot:
  assumes "n < 0"
  shows "sz_final_qty_per_leg (manual_sizing ls None n premium st) = 1 \<and> sz_base_qty (manual_sizing ls None n premium st) = n"
proof -
  define i where "i = \<lparr>si_z_score = 3 / 2, si_total_premium = premium, si_book_vega = 0,
       si_vega_neutral = setting_or ls ''book_vega_neutral_threshold'' 2000, si_base_qty = n,
       si_threshold_min = setting_or ls ''z_threshold_min'' (3 / 2), si_max_z_multiplier = 1, si_book_alpha = 0,
       si_regime = None, si_qty_override = Some n\<rparr>"
  have one: "multiplier_of (regime_label None) = 1" by code_simp
  have "0 \<le> z_factor_of i" by (simp add: z_factor_of_def i_def)
  then have "of_int n * z_factor_of i \<le> 0" using assms by (simp add: mult_nonpos_nonneg)
  then have "round_half_even (of_int n * z_factor_of i) \<le> 0" by (rule round_half_even_nonpos)
  then have "final_qty_of i (ps_vega_sign st) = 1"
    using assms one by (simp add: final_qty_of_def Let_def i_def book_penalty_of_def event_dampener_of_def)
  then show ?thesis by (simp add: manual_sizing_def compute_sizing_def i_def)
qed

text \<open>
  The gate takes \<open>delta_unhedged\<close>, which is dollars already, for contracts: one future at a
  spot of 1 counts as 125000 times its delta.
\<close>

lemma gate_scales_delta_twice:
  assumes "pp_legs p \<noteq> []"
  shows "map_option tg_delta_usd (trade_greeks_from_preview (gate_view p) (Some spot)) =
    Some (ng_delta_unhedged (pp_greeks_net p) * EUR_FOP_MULTIPLIER * spot)"
  using assms by (simp add: trade_greeks_from_preview_def gate_view_def Let_def flt_or0_def)

lemma future_delta_is_dollars:
  "ng_delta_unhedged (compute_net_greeks erf example_future s) = py_round 4 (125000 * spot_from_surface s)"
  by (simp add: compute_net_greeks_def Let_def greek_total_def example_future_def leg_greeks_def future_leg_def
      zero_greeks_def side_sign_def future_mult_def str_or_default_def str_or_def FUTURE_MULTIPLIERS_def)

text \<open>The stripped names resolve to a product label for the vanilla templates only.\<close>

lemma bare_label_lost:
  "map fst (filter (\<lambda>(ty, t). product_label_from_symbol None (Some (bare_product ty)) \<noteq> None) TEMPLATES) =
     filter (\<lambda>ty. bare_product ty \<in> {''vanilla_call'', ''vanilla_put''}) (map fst TEMPLATES)"
  by code_simp

end
