(* ===== verification/Order_Executor.thy ===== *)
theory Order_Executor
  imports Prelude Py_Text
begin

text \<open>
  The wrapper around the broker library (\<open>engines/execution/order_executor.py\<close>). The
  library's session is a record: its positions and portfolio feeds, the account values it
  streams and its trades. Its answers to a request (connection, quote, qualification) are
  arguments; a request that times out or raises is None. Session hooks are counted, not run.
\<close>

section \<open>The session\<close>

record broker_contract =
  bc_symbol :: string
  bc_sec_type :: string
  bc_exchange :: string
  bc_currency :: string
  bc_expiry :: string
  bc_strike :: flt
  bc_right :: string
  bc_local_symbol :: string
  bc_con_id :: int
  bc_trading_class :: string

record broker_position =
  bp_account :: "string option"
  bp_contract :: broker_contract
  bp_position :: flt
  bp_avg_cost :: "flt option"
  bp_average_cost :: "flt option"

record broker_trade =
  bt_order_id :: int
  bt_perm_id :: int
  bt_contract :: broker_contract
  bt_action :: string
  bt_quantity :: flt
  bt_limit :: "flt option"
  bt_order_ref :: "string option"
  bt_status :: string
  bt_filled :: flt
  bt_remaining :: flt
  bt_avg_fill_price :: flt
  bt_cancel_requested :: bool

record account_value =
  av_account :: string
  av_tag :: string
  av_value :: "flt option"
  av_currency :: string

record broker_session =
  se_connected :: bool
  se_positions :: "broker_position list"
  se_portfolio :: "broker_position list"
  se_account_values :: "account_value list"
  se_open_trades :: "broker_trade list"
  se_next_order_id :: int
  se_error_hooks :: nat
  se_disconnect_hooks :: nat

record executor =
  ex_ib :: "broker_session option"
  ex_on_error :: bool
  ex_on_disconnected :: bool

text \<open>\<open>OrderExecutorUnavailable\<close> is a \<open>RuntimeError\<close>.\<close>

definition unavailable :: py_error where "unavailable = RuntimeError ''OrderExecutorUnavailable''"

definition is_connected :: "executor \<Rightarrow> bool" where
  "is_connected x = (case ex_ib x of None \<Rightarrow> False | Some b \<Rightarrow> se_connected b)"

definition ensure :: "executor \<Rightarrow> broker_session result" where
  "ensure x = (case ex_ib x of None \<Rightarrow> Inl unavailable | Some b \<Rightarrow> if se_connected b then Inr b else Inl unavailable)"

definition wire_hooks :: "executor \<Rightarrow> broker_session \<Rightarrow> broker_session" where
  "wire_hooks x b =
     b\<lparr>se_error_hooks := se_error_hooks b + (if ex_on_error x then 1 else 0),
       se_disconnect_hooks := se_disconnect_hooks b + (if ex_on_disconnected x then 1 else 0)\<rparr>"

definition wire_session_events :: "executor \<Rightarrow> executor" where
  "wire_session_events x = x\<lparr>ex_ib := map_option (wire_hooks x) (ex_ib x)\<rparr>"

text \<open>A new session, or None for a connect that timed out or was refused.\<close>

definition connect :: "broker_session option \<Rightarrow> executor \<Rightarrow> executor" where
  "connect answer x =
     (if is_connected x then x
      else x\<lparr>ex_ib := map_option (wire_hooks x) answer\<rparr>)"

definition disconnect :: "executor \<Rightarrow> executor" where
  "disconnect x = x\<lparr>ex_ib := None\<rparr>"

definition replay_executions :: "'f list option \<Rightarrow> executor \<Rightarrow> 'f list" where
  "replay_executions answer x =
     (if \<not> is_connected x then [] else case answer of None \<Rightarrow> [] | Some fs \<Rightarrow> fs)"

definition account_is_reporting :: "executor \<Rightarrow> bool" where
  "account_is_reporting x =
     (case ensure x of Inl e \<Rightarrow> False | Inr b \<Rightarrow> se_account_values b \<noteq> [] \<or> se_portfolio b \<noteq> [])"

definition open_trades :: "executor \<Rightarrow> broker_trade list" where
  "open_trades x = (case ensure x of Inl e \<Rightarrow> [] | Inr b \<Rightarrow> se_open_trades b)"

section \<open>Reads\<close>

definition or_None :: "string \<Rightarrow> string option" where
  "or_None s = (if s = [] then None else Some s)"

definition nonzero :: "flt \<Rightarrow> flt option" where
  "nonzero v = (if v = 0 then None else Some v)"

record trade_view =
  tv_order_id :: int
  tv_perm_id :: int
  tv_symbol :: string
  tv_sec_type :: string
  tv_expiry :: "string option"
  tv_strike :: "flt option"
  tv_right :: "string option"
  tv_local_symbol :: string
  tv_con_id :: int
  tv_side :: string
  tv_qty :: flt
  tv_limit_price :: "flt option"
  tv_status :: string
  tv_filled :: flt
  tv_remaining :: flt
  tv_avg_fill_price :: "flt option"
  tv_order_ref :: "string option"

text \<open>A market order's limit is the library's unset value, here None.\<close>

definition trade_to_dict :: "broker_trade \<Rightarrow> trade_view" where
  "trade_to_dict t =
     (let c = bt_contract t
      in \<lparr>tv_order_id = bt_order_id t, tv_perm_id = bt_perm_id t, tv_symbol = bc_symbol c, tv_sec_type = bc_sec_type c,
          tv_expiry = or_None (bc_expiry c), tv_strike = nonzero (bc_strike c), tv_right = or_None (bc_right c),
          tv_local_symbol = bc_local_symbol c, tv_con_id = bc_con_id c, tv_side = bt_action t, tv_qty = bt_quantity t,
          tv_limit_price = (case bt_limit t of None \<Rightarrow> None | Some p \<Rightarrow> nonzero p), tv_status = bt_status t,
          tv_filled = bt_filled t, tv_remaining = bt_remaining t, tv_avg_fill_price = nonzero (bt_avg_fill_price t),
          tv_order_ref = (case bt_order_ref t of None \<Rightarrow> None | Some r \<Rightarrow> or_None r)\<rparr>)"

definition list_open_orders :: "executor \<Rightarrow> trade_view list result" where
  "list_open_orders x = (case ensure x of Inl e \<Rightarrow> Inl e | Inr b \<Rightarrow> Inr (map trade_to_dict (se_open_trades b)))"

definition CURRENCY_TAGS_KEEP :: "string list" where
  "CURRENCY_TAGS_KEEP = [''CashBalance'', ''NetLiquidationByCurrency'', ''UnrealizedPnL'', ''RealizedPnL'', ''FuturesPNL'', ''ExchangeRate'']"

definition removeprefix :: "string \<Rightarrow> string \<Rightarrow> string" where
  "removeprefix p s = (if py_startswith s p then drop (length p) s else s)"

type_synonym nested = "(string \<times> (string \<times> flt) list) list"

text \<open>\<open>d.setdefault(a, {})[b] = v\<close> on insertion-ordered dictionaries.\<close>

definition set_nested :: "string \<Rightarrow> string \<Rightarrow> flt \<Rightarrow> nested \<Rightarrow> nested" where
  "set_nested a b v d = AList.update a (AList.update b v (case map_of d a of None \<Rightarrow> [] | Some m \<Rightarrow> m)) d"

definition value_tag :: "account_value \<Rightarrow> string" where
  "value_tag a = removeprefix ''$LEDGER-'' (av_tag a)"

definition value_currency :: "account_value \<Rightarrow> string" where
  "value_currency a = (if av_currency a = [] then ''BASE'' else av_currency a)"

definition index_value :: "nested \<times> nested \<times> string option \<Rightarrow> account_value \<Rightarrow> nested \<times> nested \<times> string option" where
  "index_value st a =
     (case st of (by_tag, by_cur, account) \<Rightarrow>
        (case av_value a of
           None \<Rightarrow> st
         | Some v \<Rightarrow>
             (set_nested (value_tag a) (value_currency a) v by_tag, set_nested (value_currency a) (value_tag a) v by_cur,
              if account = None \<and> av_account a \<noteq> [] then Some (av_account a) else account)))"

definition pick_currency :: "(string \<times> flt) list \<Rightarrow> flt" where
  "pick_currency m =
     (case map_of m ''BASE'' of
        Some v \<Rightarrow> v
      | None \<Rightarrow> (case map_of m ''USD'' of Some v \<Rightarrow> v | None \<Rightarrow> snd (hd m)))"

record account_view =
  sm_account :: "string option"
  sm_tags :: "(string \<times> flt) list"
  sm_by_currency :: nested

definition kept_tags :: "(string \<times> flt) list \<Rightarrow> (string \<times> flt) list" where
  "kept_tags m = List.map_filter (\<lambda>t. map_option (Pair t) (map_of m t)) CURRENCY_TAGS_KEEP"

definition account_summary :: "executor \<Rightarrow> account_view result" where
  "account_summary x =
     (case ensure x of
        Inl e \<Rightarrow> Inl e
      | Inr b \<Rightarrow>
          (case foldl index_value ([], [], None) (se_account_values b) of
             (by_tag, by_cur, account) \<Rightarrow>
               Inr \<lparr>sm_account = account, sm_tags = map (\<lambda>(t, m). (t, pick_currency m)) by_tag,
                    sm_by_currency =
                      filter (\<lambda>(c, m). m \<noteq> [])
                        (map (\<lambda>(c, m). (c, kept_tags m)) (filter (\<lambda>(c, m). c \<noteq> ''BASE'') by_cur))\<rparr>))"

record position_view =
  ov_account :: "string option"
  ov_symbol :: string
  ov_sec_type :: string
  ov_expiry :: "string option"
  ov_strike :: "flt option"
  ov_right :: "string option"
  ov_exchange :: string
  ov_currency :: string
  ov_local_symbol :: string
  ov_con_id :: int
  ov_position :: flt
  ov_avg_cost :: flt

definition position_to_dict :: "broker_position \<Rightarrow> position_view" where
  "position_to_dict p =
     (let c = bp_contract p
      in \<lparr>ov_account = bp_account p, ov_symbol = bc_symbol c, ov_sec_type = bc_sec_type c, ov_expiry = or_None (bc_expiry c),
          ov_strike = nonzero (bc_strike c), ov_right = or_None (bc_right c), ov_exchange = bc_exchange c,
          ov_currency = bc_currency c, ov_local_symbol = bc_local_symbol c, ov_con_id = bc_con_id c,
          ov_position = bp_position p,
          ov_avg_cost = flt_or0 (case bp_avg_cost p of None \<Rightarrow> bp_average_cost p | Some v \<Rightarrow> Some v)\<rparr>)"

definition raw_positions :: "broker_session \<Rightarrow> broker_position list" where
  "raw_positions b =
     (if se_positions b = [] then filter (\<lambda>p. 0 < \<bar>bp_position p\<bar>) (se_portfolio b) else se_positions b)"

definition list_positions :: "executor \<Rightarrow> position_view list result" where
  "list_positions x = (case ensure x of Inl e \<Rightarrow> Inl e | Inr b \<Rightarrow> Inr (map position_to_dict (raw_positions b)))"

section \<open>Orders\<close>

text \<open>What a quote request brings back; a field that is missing or not a number is None.\<close>

record quote =
  qo_bid :: "flt option"
  qo_ask :: "flt option"
  qo_market :: "flt option"

definition pos_num :: "flt option \<Rightarrow> flt option" where
  "pos_num v = (case v of None \<Rightarrow> None | Some x \<Rightarrow> if 0 < x then Some x else None)"

definition or_else :: "'a option \<Rightarrow> 'a option \<Rightarrow> 'a option" where
  "or_else a b = (case a of None \<Rightarrow> b | Some x \<Rightarrow> Some x)"

definition OPT_TICK :: flt where "OPT_TICK = 1 / 10000"

definition marketable_close_price :: "quote option \<Rightarrow> string \<Rightarrow> flt option" where
  "marketable_close_price q side =
     (let bid = (case q of None \<Rightarrow> None | Some t \<Rightarrow> pos_num (qo_bid t));
          ask = (case q of None \<Rightarrow> None | Some t \<Rightarrow> pos_num (qo_ask t));
          mkt = (case q of None \<Rightarrow> None | Some t \<Rightarrow> pos_num (qo_market t))
      in if py_upper side = BUY
         then (case or_else ask mkt of None \<Rightarrow> None | Some r \<Rightarrow> Some (py_round 6 (of_int \<lceil>r / OPT_TICK\<rceil> * OPT_TICK)))
         else (case or_else bid mkt of
                 None \<Rightarrow> None
               | Some r \<Rightarrow> let lp = of_int \<lfloor>r / OPT_TICK\<rfloor> * OPT_TICK in if 0 < lp then Some (py_round 6 lp) else None))"

text \<open>\<open>ib.placeOrder\<close>: the session has one more trade.\<close>

definition place_at_ib :: "broker_contract \<Rightarrow> string \<Rightarrow> flt \<Rightarrow> flt option \<Rightarrow> string option \<Rightarrow> broker_session \<Rightarrow> broker_session \<times> broker_trade" where
  "place_at_ib c side qty lp ref b =
     (let t = \<lparr>bt_order_id = se_next_order_id b, bt_perm_id = 0, bt_contract = c, bt_action = side, bt_quantity = qty,
               bt_limit = lp, bt_order_ref = ref, bt_status = ''PendingSubmit'', bt_filled = 0, bt_remaining = qty,
               bt_avg_fill_price = 0, bt_cancel_requested = False\<rparr>
      in (b\<lparr>se_open_trades := se_open_trades b @ [t], se_next_order_id := se_next_order_id b + 1\<rparr>, t))"

definition falsy_price :: "flt option \<Rightarrow> flt option" where
  "falsy_price lp = (case lp of None \<Rightarrow> None | Some p \<Rightarrow> nonzero p)"

record order_request =
  oq_symbol :: string
  oq_sec_type :: string
  oq_side :: string
  oq_qty :: int
  oq_limit_price :: "flt option"
  oq_expiry :: "string option"
  oq_strike :: "flt option"
  oq_right :: "string option"
  oq_exchange :: string
  oq_currency :: string
  oq_trading_class :: "string option"

definition contract_of_request :: "order_request \<Rightarrow> broker_contract" where
  "contract_of_request q =
     \<lparr>bc_symbol = oq_symbol q, bc_sec_type = oq_sec_type q, bc_exchange = oq_exchange q, bc_currency = oq_currency q,
      bc_expiry = str_or (oq_expiry q), bc_strike = flt_or0 (oq_strike q), bc_right = str_or (oq_right q),
      bc_local_symbol = [], bc_con_id = 0, bc_trading_class = str_or (oq_trading_class q)\<rparr>"

text \<open>\<open>qualify\<close> is the answer of \<open>qualifyContractsAsync\<close>, [] when the contract is unknown.\<close>

definition place_order_trade ::
  "(broker_contract \<Rightarrow> broker_contract list) \<Rightarrow> order_request \<Rightarrow> string option \<Rightarrow> executor \<Rightarrow> executor \<times> broker_trade result" where
  "place_order_trade qualify q ref x =
     (case ensure x of
        Inl e \<Rightarrow> (x, Inl e)
      | Inr b \<Rightarrow>
          (case qualify (contract_of_request q) of
             [] \<Rightarrow> (x, Inl (ValueError ''Contract not qualified by IB''))
           | c # cs \<Rightarrow>
               (case place_at_ib c (oq_side q) (of_int (oq_qty q)) (falsy_price (oq_limit_price q)) ref b of
                  (b', t) \<Rightarrow> (x\<lparr>ex_ib := Some b'\<rparr>, Inr t))))"

definition cancel_order :: "int \<Rightarrow> executor \<Rightarrow> executor \<times> trade_view option result" where
  "cancel_order oid x =
     (case ensure x of
        Inl e \<Rightarrow> (x, Inl e)
      | Inr b \<Rightarrow>
          (case List.find (\<lambda>t. bt_order_id t = oid) (se_open_trades b) of
             None \<Rightarrow> (x, Inr None)
           | Some t \<Rightarrow>
               (x\<lparr>ex_ib := Some (b\<lparr>se_open_trades :=
                   map (\<lambda>u. if bt_order_id u = oid then u\<lparr>bt_cancel_requested := True\<rparr> else u) (se_open_trades b)\<rparr>)\<rparr>,
                Inr (Some (trade_to_dict t)))))"

definition reverse_side :: "flt \<Rightarrow> string" where
  "reverse_side pos = (if 0 < pos then SELL else BUY)"

definition close_position :: "int \<Rightarrow> flt \<Rightarrow> string option \<Rightarrow> executor \<Rightarrow> executor \<times> trade_view result" where
  "close_position con_id lp ref x =
     (case ensure x of
        Inl e \<Rightarrow> (x, Inl e)
      | Inr b \<Rightarrow>
          (case List.find (\<lambda>p. bc_con_id (bp_contract p) = con_id) (se_positions b) of
             None \<Rightarrow> (x, Inl (ValueError ''No live position''))
           | Some p \<Rightarrow>
               if bp_position p = 0 then (x, Inl (ValueError ''quantity is zero''))
               else
                 (case place_at_ib (bp_contract p) (reverse_side (bp_position p)) \<bar>bp_position p\<bar> (Some lp) ref b of
                    (b', t) \<Rightarrow> (x\<lparr>ex_ib := Some b'\<rparr>, Inr (trade_to_dict t)))))"

text \<open>The contract to route the close on: qualified again when its exchange is missing.\<close>

definition close_contract :: "(broker_contract \<Rightarrow> broker_contract list) \<Rightarrow> broker_contract \<Rightarrow> broker_contract result" where
  "close_contract qualify c =
     (if bc_exchange c \<noteq> [] then Inr c
      else case qualify c of [] \<Rightarrow> Inl (ValueError ''Contract could not be qualified for close'') | d # ds \<Rightarrow> Inr d)"

definition close_limit :: "quote option \<Rightarrow> broker_contract \<Rightarrow> string \<Rightarrow> flt option \<Rightarrow> flt option" where
  "close_limit q c side limit_price =
     (if bc_sec_type c = ''FOP'' then falsy_price (or_else (marketable_close_price q side) limit_price)
      else limit_price)"

definition close_held ::
  "(broker_contract \<Rightarrow> broker_contract list) \<Rightarrow> quote option \<Rightarrow> int option \<Rightarrow> flt option \<Rightarrow> string option \<Rightarrow> broker_position \<Rightarrow>
   broker_session \<Rightarrow> (broker_session \<times> broker_trade) result" where
  "close_held qualify q qty limit_price ref p b =
     (let held = \<bar>bp_position p\<bar>; cq = (case qty of None \<Rightarrow> held | Some n \<Rightarrow> of_int n)
      in if held = 0 then Inl (ValueError ''quantity is zero'')
         else if cq \<le> 0 then Inl (ValueError ''close qty must be > 0'')
         else if held < cq then Inl (ValueError ''close qty exceeds open qty'')
         else
           let side = reverse_side (bp_position p)
           in case close_contract qualify (bp_contract p) of
                Inl e \<Rightarrow> Inl e
              | Inr c \<Rightarrow> Inr (place_at_ib c side cq (close_limit q c side limit_price) ref b))"

definition close_position_by_symbol ::
  "(broker_contract \<Rightarrow> broker_contract list) \<Rightarrow> quote option \<Rightarrow> string \<Rightarrow> int option \<Rightarrow> flt option \<Rightarrow> string option \<Rightarrow>
   executor \<Rightarrow> executor \<times> broker_trade result" where
  "close_position_by_symbol qualify q local_symbol qty limit_price ref x =
     (case ensure x of
        Inl e \<Rightarrow> (x, Inl e)
      | Inr b \<Rightarrow>
          (case List.find (\<lambda>p. bc_local_symbol (bp_contract p) = local_symbol) (se_positions b) of
             None \<Rightarrow> (x, Inl (ValueError ''No live position''))
           | Some p \<Rightarrow>
               (case close_held qualify q qty limit_price ref p b of
                  Inl e \<Rightarrow> (x, Inl e)
                | Inr (b', t) \<Rightarrow> (x\<lparr>ex_ib := Some b'\<rparr>, Inr t))))"

section \<open>Closing orders\<close>

text \<open>The position once the whole order has filled.\<close>

definition after_fill :: "flt \<Rightarrow> broker_trade \<Rightarrow> flt" where
  "after_fill pos t = pos + (if bt_action t = BUY then bt_quantity t else - bt_quantity t)"

lemma ensure_Inr: "ensure x = Inr b \<longleftrightarrow> ex_ib x = Some b \<and> se_connected b"
  by (auto simp: ensure_def split: option.splits)

lemma place_at_ib_sel:
  assumes "place_at_ib c side qty lp ref b = (b', t)"
  shows "se_open_trades b' = se_open_trades b @ [t]" "se_positions b' = se_positions b" "bt_action t = side"
    "bt_quantity t = qty" "bt_limit t = lp" "bt_contract t = c" "bt_order_ref t = ref" "bt_order_id t = se_next_order_id b"
  using assms by (auto simp: place_at_ib_def Let_def)

lemma close_held_spec:
  assumes "close_held qualify q qty lp ref p b = Inr (b', t)"
  shows "\<exists>c cq. cq = (case qty of None \<Rightarrow> \<bar>bp_position p\<bar> | Some n \<Rightarrow> of_int n) \<and> 0 < cq \<and> cq \<le> \<bar>bp_position p\<bar> \<and>
    close_contract qualify (bp_contract p) = Inr c \<and>
    place_at_ib c (reverse_side (bp_position p)) cq (close_limit q c (reverse_side (bp_position p)) lp) ref b = (b', t)"
  using assms unfolding close_held_def Let_def by (force split: if_splits sum.splits)

lemma close_by_symbol_cases:
  assumes "close_position_by_symbol qualify q sy qty lp ref x = (x', r)"
  shows "(x' = x \<and> \<not> is_ok r) \<or>
    (\<exists>b p b' t. ex_ib x = Some b \<and> List.find (\<lambda>p. bc_local_symbol (bp_contract p) = sy) (se_positions b) = Some p \<and>
       close_held qualify q qty lp ref p b = Inr (b', t) \<and> x' = x\<lparr>ex_ib := Some b'\<rparr> \<and> r = Inr t)"
proof (cases "ensure x")
  case (Inr b)
  show ?thesis
  proof (cases "List.find (\<lambda>p. bc_local_symbol (bp_contract p) = sy) (se_positions b)")
    case (Some p)
    show ?thesis
    proof (cases "close_held qualify q qty lp ref p b")
      case (Inl e)
      then show ?thesis using assms \<open>ensure x = Inr b\<close> Some by (auto simp: close_position_by_symbol_def)
    next
      case (Inr y)
      then show ?thesis using assms \<open>ensure x = Inr b\<close> Some
        by (cases y) (auto simp: close_position_by_symbol_def ensure_Inr)
    qed
  qed (use assms Inr in \<open>auto simp: close_position_by_symbol_def\<close>)
qed (use assms in \<open>auto simp: close_position_by_symbol_def\<close>)

lemma reverse_reduces:
  assumes "0 < qty" "qty \<le> \<bar>pos\<bar>" "bt_action t = reverse_side pos" "bt_quantity t = qty"
  shows "\<bar>after_fill pos t\<bar> = \<bar>pos\<bar> - qty \<and> 0 \<le> after_fill pos t * pos"
  using assms by (auto simp: after_fill_def reverse_side_def abs_if mult_nonneg_nonneg mult_nonpos_nonpos split: if_splits)

section \<open>Prices\<close>

text \<open>A price between a reference and the next tick on its far side.\<close>

lemma tick_up: "r \<le> of_int \<lceil>r / OPT_TICK\<rceil> * OPT_TICK \<and> of_int \<lceil>r / OPT_TICK\<rceil> * OPT_TICK < r + OPT_TICK"
proof -
  have "r * 10000 \<le> of_int \<lceil>r * 10000\<rceil>" "of_int \<lceil>r * 10000\<rceil> < r * 10000 + 1" by linarith+
  then show ?thesis by (simp add: OPT_TICK_def)
qed

lemma tick_down: "r - OPT_TICK < of_int \<lfloor>r / OPT_TICK\<rfloor> * OPT_TICK \<and> of_int \<lfloor>r / OPT_TICK\<rfloor> * OPT_TICK \<le> r"
proof -
  have "of_int \<lfloor>r * 10000\<rfloor> \<le> r * 10000" "r * 10000 < of_int \<lfloor>r * 10000\<rfloor> + 1" by linarith+
  then show ?thesis by (simp add: OPT_TICK_def)
qed

text \<open>Rounding to six decimals keeps a price on the tick grid.\<close>

lemma round_tick: "py_round 6 (of_int n * OPT_TICK) = of_int n * OPT_TICK"
proof -
  have "of_int n * OPT_TICK * 10 ^ 6 = of_int (n * 100)" by (simp add: OPT_TICK_def)
  then show ?thesis unfolding py_round_def by (simp only: round_half_even_of_int) (simp add: OPT_TICK_def)
qed

section \<open>The account summary\<close>

lemma map_of_update: "map_of (AList.update k v m) = (map_of m)(k \<mapsto> v)"
  by (simp add: update_conv')

definition last_value :: "string \<Rightarrow> string \<Rightarrow> account_value list \<Rightarrow> flt option" where
  "last_value t c vs =
     (case rev (List.map_filter av_value (filter (\<lambda>a. value_tag a = t \<and> value_currency a = c) vs)) of [] \<Rightarrow> None | v # _ \<Rightarrow> Some v)"

lemma last_value_snoc:
  "last_value t c (vs @ [a]) =
     (case av_value a of None \<Rightarrow> last_value t c vs
      | Some v \<Rightarrow> if value_tag a = t \<and> value_currency a = c then Some v else last_value t c vs)"
  by (auto simp: last_value_def List.map_filter_def split: option.split)

definition nested_at :: "nested \<Rightarrow> string \<Rightarrow> string \<rightharpoonup> flt" where
  "nested_at d t = map_of (case map_of d t of None \<Rightarrow> [] | Some m \<Rightarrow> m)"

lemma nested_at_set: "nested_at (set_nested a b v d) t = (if t = a then (nested_at d t)(b \<mapsto> v) else nested_at d t)"
  by (auto simp: nested_at_def set_nested_def map_of_update split: option.split)

lemma index_value_snoc:
  "fst (foldl index_value s0 (vs @ [a])) =
     (case av_value a of
        None \<Rightarrow> fst (foldl index_value s0 vs)
      | Some v \<Rightarrow> set_nested (value_tag a) (value_currency a) v (fst (foldl index_value s0 vs)))"
  by (simp add: index_value_def case_prod_unfold split: option.split)

lemma by_tag_values: "nested_at (fst (foldl index_value ([], [], None) vs)) t c = last_value t c vs"
proof (induction vs rule: rev_induct)
  case Nil
  then show ?case by (simp add: nested_at_def last_value_def List.map_filter_simps)
next
  case (snoc a vs)
  then show ?case
    unfolding index_value_snoc last_value_snoc by (auto simp: nested_at_set split: option.split)
qed

lemma update_mem: "(t, m) \<in> set (AList.update k v l) \<Longrightarrow> (t, m) \<in> set l \<or> m = v"
  by (induction l) (auto split: if_splits)

lemma nested_nonempty: "(t, m) \<in> set (fst (foldl index_value ([], [], None) vs)) \<Longrightarrow> m \<noteq> []"
proof (induction vs arbitrary: t m rule: rev_induct)
  case (snoc a vs)
  let ?bt = "fst (foldl index_value ([], [], None) vs)"
  show ?case
  proof (cases "av_value a")
    case None
    then show ?thesis using snoc.prems snoc.IH unfolding index_value_snoc by simp
  next
    case (Some v)
    have "(t, m) \<in> set (set_nested (value_tag a) (value_currency a) v ?bt)"
      using snoc.prems unfolding index_value_snoc Some by simp
    then have "(t, m) \<in> set ?bt \<or> m = AList.update (value_currency a) v (case map_of ?bt (value_tag a) of None \<Rightarrow> [] | Some m \<Rightarrow> m)"
      unfolding set_nested_def by (rule update_mem)
    then show ?thesis using snoc.IH [of t m] by (metis AList.update_nonempty)
  qed
qed simp

section \<open>Properties\<close>

text \<open>
  C17. A close by symbol either changes nothing and raises, or sends exactly one order, on
  the side that reduces the position the broker reports and for the requested quantity (all
  of it by default), never more than is held: filled in full, the position shrinks by that
  quantity and does not change sign.
\<close>

theorem close_orders_reduce:
  assumes "close_position_by_symbol qualify q sy qty lp ref x = (x', r)"
  shows "(x' = x \<and> \<not> is_ok r) \<or>
    (\<exists>b p b' t. ex_ib x = Some b \<and> p \<in> set (se_positions b) \<and> bc_local_symbol (bp_contract p) = sy \<and> r = Inr t \<and>
       ex_ib x' = Some b' \<and> se_open_trades b' = se_open_trades b @ [t] \<and> bt_order_ref t = ref \<and>
       bt_quantity t = (case qty of None \<Rightarrow> \<bar>bp_position p\<bar> | Some n \<Rightarrow> of_int n) \<and> 0 < bt_quantity t \<and>
       \<bar>after_fill (bp_position p) t\<bar> = \<bar>bp_position p\<bar> - bt_quantity t \<and> 0 \<le> after_fill (bp_position p) t * bp_position p)"
proof (cases "x' = x \<and> \<not> is_ok r")
  case False
  then obtain b p b' t where b: "ex_ib x = Some b" and p: "List.find (\<lambda>p. bc_local_symbol (bp_contract p) = sy) (se_positions b) = Some p"
    and held: "close_held qualify q qty lp ref p b = Inr (b', t)" and x': "x' = x\<lparr>ex_ib := Some b'\<rparr>" "r = Inr t"
    using close_by_symbol_cases [OF assms] by blast
  obtain c where c: "0 < (case qty of None \<Rightarrow> \<bar>bp_position p\<bar> | Some n \<Rightarrow> of_int n)"
    "(case qty of None \<Rightarrow> \<bar>bp_position p\<bar> | Some n \<Rightarrow> of_int n) \<le> \<bar>bp_position p\<bar>"
    "place_at_ib c (reverse_side (bp_position p)) (case qty of None \<Rightarrow> \<bar>bp_position p\<bar> | Some n \<Rightarrow> of_int n)
       (close_limit q c (reverse_side (bp_position p)) lp) ref b = (b', t)"
    using close_held_spec [OF held] by blast
  note sel = place_at_ib_sel [OF c(3)]
  have "p \<in> set (se_positions b)" "bc_local_symbol (bp_contract p) = sy"
    using p by (auto simp: find_Some_iff in_set_conv_nth)
  then show ?thesis using reverse_reduces [OF c(1,2) sel(3,4)] sel c(1) b x' by auto
qed simp

definition example_broker :: broker_session where
  "example_broker = \<lparr>se_connected = True,
     se_positions = [\<lparr>bp_account = None,
        bp_contract = \<lparr>bc_symbol = ''EUR'', bc_sec_type = ''FOP'', bc_exchange = ''CME'', bc_currency = ''USD'', bc_expiry = ''20260904'',
          bc_strike = 11 / 10, bc_right = ''C'', bc_local_symbol = ''EUUU6 C1100'', bc_con_id = 7, bc_trading_class = ''EUU''\<rparr>,
        bp_position = - 3, bp_avg_cost = None, bp_average_cost = None\<rparr>],
     se_portfolio = [], se_account_values = [], se_open_trades = [], se_next_order_id = 1, se_error_hooks = 0, se_disconnect_hooks = 0\<rparr>"

definition example_executor :: executor where
  "example_executor = \<lparr>ex_ib = Some example_broker, ex_on_error = False, ex_on_disconnected = False\<rparr>"

theorem close_orders_reduce_witness:
  "\<exists>x' t. close_position_by_symbol (\<lambda>c. []) None ''EUUU6 C1100'' (Some 2) (Some 1) None example_executor = (x', Inr t) \<and>
     bt_quantity t = 2 \<and> after_fill (- 3) t = - 1"
proof -
  define r where "r = close_position_by_symbol (\<lambda>c. []) None ''EUUU6 C1100'' (Some 2) (Some 1) None example_executor"
  have r: "close_position_by_symbol (\<lambda>c. []) None ''EUUU6 C1100'' (Some 2) (Some 1) None example_executor = (fst r, snd r)"
    by (simp add: r_def)
  have "is_ok (snd r)"
    by (simp add: r_def close_position_by_symbol_def example_executor_def ensure_def example_broker_def close_held_def
        close_contract_def place_at_ib_def Let_def)
  then obtain b p t where b: "ex_ib example_executor = Some b" "p \<in> set (se_positions b)" "snd r = Inr t" "bt_quantity t = 2"
    "\<bar>after_fill (bp_position p) t\<bar> = \<bar>bp_position p\<bar> - bt_quantity t" "0 \<le> after_fill (bp_position p) t * bp_position p"
    using close_orders_reduce [OF r] by auto
  have "bp_position p = - 3" using b(1,2) by (auto simp: example_executor_def example_broker_def)
  then have "after_fill (- 3) t = - 1" using b(4-6) by (auto simp: abs_if mult_le_0_iff split: if_splits)
  then show ?thesis using r b(3,4) by metis
qed

text \<open>
  A marketable close is on the tick grid and at the touch: a buy at the ask or the first tick
  above it, a sell at the bid or the first tick below; the market price stands in for a
  missing side.
\<close>

theorem close_price_at_touch:
  assumes "marketable_close_price q side = Some lp"
  shows "\<exists>t n. q = Some t \<and> lp = of_int n * OPT_TICK \<and> 0 < lp \<and>
    (if py_upper side = BUY
     then (\<exists>r. or_else (pos_num (qo_ask t)) (pos_num (qo_market t)) = Some r \<and> r \<le> lp \<and> lp < r + OPT_TICK)
     else (\<exists>r. or_else (pos_num (qo_bid t)) (pos_num (qo_market t)) = Some r \<and> r - OPT_TICK < lp \<and> lp \<le> r))"
proof -
  obtain t where t: "q = Some t" using assms by (cases q) (auto simp: marketable_close_price_def or_else_def Let_def split: if_splits)
  have pos: "or_else (pos_num a) (pos_num b) = Some r \<Longrightarrow> 0 < r" for a b r
    by (auto simp: or_else_def pos_num_def split: option.splits if_splits)
  show ?thesis
  proof (cases "py_upper side = BUY")
    case True
    then obtain r where r: "or_else (pos_num (qo_ask t)) (pos_num (qo_market t)) = Some r" "lp = of_int \<lceil>r / OPT_TICK\<rceil> * OPT_TICK"
      using assms by (auto simp: marketable_close_price_def t Let_def round_tick split: option.splits)
    then show ?thesis using tick_up [of r] pos [OF r(1)] True t by auto
  next
    case False
    then obtain r where r: "or_else (pos_num (qo_bid t)) (pos_num (qo_market t)) = Some r" "lp = of_int \<lfloor>r / OPT_TICK\<rfloor> * OPT_TICK" "0 < lp"
      using assms by (auto simp: marketable_close_price_def t Let_def round_tick split: option.splits if_splits)
    then show ?thesis using tick_down [of r] False t by auto
  qed
qed

theorem close_price_at_touch_witness:
  "\<exists>n. marketable_close_price (Some \<lparr>qo_bid = Some (1 / 100), qo_ask = None, qo_market = None\<rparr>) SELL = Some (of_int n * OPT_TICK)"
proof -
  let ?q = "Some \<lparr>qo_bid = Some (1 / 100), qo_ask = None, qo_market = None\<rparr>"
  have "marketable_close_price ?q SELL = Some (1 / 100)"
    using round_half_even_of_int [of 10000]
    by (simp add: marketable_close_price_def pos_num_def or_else_def OPT_TICK_def Let_def py_round_def)
  from close_price_at_touch [OF this] this show ?thesis by auto
qed

text \<open>
  Every account tag takes its last value in the base currency; without one, the last in
  dollars; without one, the last of some other currency.
\<close>

theorem account_tag_priority:
  assumes "account_summary x = Inr s" "(t, v) \<in> set (sm_tags s)" "ex_ib x = Some b"
  shows "(case last_value t ''BASE'' (se_account_values b) of
       Some w \<Rightarrow> v = w
     | None \<Rightarrow> (case last_value t ''USD'' (se_account_values b) of
         Some w \<Rightarrow> v = w
       | None \<Rightarrow> (\<exists>c. last_value t c (se_account_values b) = Some v)))"
proof -
  let ?bt = "fst (foldl index_value ([], [], None) (se_account_values b))"
  have "sm_tags s = map (\<lambda>(t, m). (t, pick_currency m)) ?bt"
    using assms(1,3) by (auto simp: account_summary_def ensure_def case_prod_unfold split: if_splits)
  then obtain m where m: "(t, m) \<in> set ?bt" "v = pick_currency m" using assms(2) by auto
  have dist: "distinct (map fst (fst (foldl index_value ([], [], None) vs)))" for vs
    by (induction vs rule: rev_induct)
      (auto simp: index_value_snoc set_nested_def distinct_update split: option.split simp del: foldl_append foldl_Cons)
  then have "map_of ?bt t = Some m" using m(1) by (simp add: map_of_is_SomeI)
  then have look: "map_of m c = last_value t c (se_account_values b)" for c
    using by_tag_values [of "se_account_values b" t c] by (simp add: nested_at_def)
  have "m \<noteq> []" by (rule nested_nonempty [OF m(1)])
  then obtain k w rest where "m = (k, w) # rest" by (cases m) auto
  then have "map_of m k = Some w" "snd (hd m) = w" by simp_all
  then show ?thesis unfolding m(2) pick_currency_def look by (auto split: option.split)
qed

theorem account_tag_priority_witness:
  "account_summary (example_executor\<lparr>ex_ib := Some (example_broker\<lparr>se_account_values :=
       [\<lparr>av_account = ''DU1'', av_tag = ''NetLiquidation'', av_value = Some 9, av_currency = ''USD''\<rparr>,
        \<lparr>av_account = ''DU1'', av_tag = ''NetLiquidation'', av_value = Some 10, av_currency = ''BASE''\<rparr>]\<rparr>)\<rparr>) =
     Inr \<lparr>sm_account = Some ''DU1'', sm_tags = [(''NetLiquidation'', 10)], sm_by_currency = []\<rparr>"
  (is "account_summary ?x = Inr ?s")
proof -
  have s: "account_summary ?x = Inr \<lparr>sm_account = Some ''DU1'',
      sm_tags = [(''NetLiquidation'', v)], sm_by_currency = []\<rparr>" if "v = 10" for v
    using that
    by (simp add: account_summary_def ensure_def example_executor_def example_broker_def index_value_def value_tag_def
        removeprefix_def py_startswith_def value_currency_def set_nested_def pick_currency_def kept_tags_def
        CURRENCY_TAGS_KEEP_def List.map_filter_simps)
  show ?thesis using account_tag_priority [OF s [OF HOL.refl], of "''NetLiquidation''" 10] s [OF HOL.refl] by simp
qed

text \<open>
  Where the two feeds differ: a position known from the portfolio only is listed, but its
  close is refused as unknown.
\<close>

lemma portfolio_only_not_closable:
  assumes "ex_ib x = Some b" "se_connected b" "se_positions b = []" "p \<in> set (se_portfolio b)" "bp_position p \<noteq> 0"
  shows "\<exists>vs. list_positions x = Inr vs \<and> position_to_dict p \<in> set vs"
    "close_position_by_symbol qualify q (bc_local_symbol (bp_contract p)) None lp ref x = (x, Inl (ValueError ''No live position''))"
  using assms by (auto simp: list_positions_def ensure_def raw_positions_def close_position_by_symbol_def)

text \<open>The operator's limit gives way to a live quote on options, and a limit of 0 is a market order.\<close>

lemma option_limit_overridden:
  assumes "bc_sec_type c = ''FOP''" "marketable_close_price q side = Some p" "p \<noteq> 0"
  shows "close_limit q c side (Some lp) = Some p"
  using assms by (simp add: close_limit_def or_else_def falsy_price_def nonzero_def)

lemma zero_limit_is_market: "falsy_price (Some 0) = None"
  by (simp add: falsy_price_def nonzero_def)

end
