(* ===== verification/Heartbeat.thy ===== *)
theory Heartbeat
  imports Order_Executor Fills_Handler
begin

text \<open>
  The two watchers of the execution engine (\<open>engines/execution/ib_heartbeat.py\<close>): the row
  that says whether the broker is connected and what the account holds, refreshed every ten
  seconds, and the alert on orders that stay working for too long. The endless loops are
  lists of cycles. Trade events carry no time in the store, so the times of the stuck alerts
  are kept beside it.
\<close>

section \<open>The connection row\<close>

record ib_state_row =
  ic_broker :: string
  ic_is_connected :: bool
  ic_last_heartbeat :: time
  ic_last_disconnect_at :: "time option"
  ic_n_disconnects_24h :: int
  ic_account_id :: "string option"
  ic_account_type :: "string option"
  ic_available_funds_usd :: "flt option"
  ic_buying_power_usd :: "flt option"
  ic_margin_used_usd :: "flt option"

definition new_ib_state :: "time \<Rightarrow> ib_state_row" where
  "new_ib_state now = \<lparr>ic_broker = ''IB'', ic_is_connected = False, ic_last_heartbeat = now, ic_last_disconnect_at = None,
     ic_n_disconnects_24h = 0, ic_account_id = None, ic_account_type = None, ic_available_funds_usd = None,
     ic_buying_power_usd = None, ic_margin_used_usd = None\<rparr>"

text \<open>The tags of a summary are numbers, so a tag is its value or absent.\<close>

definition pick_float :: "account_view \<Rightarrow> string \<Rightarrow> flt option" where
  "pick_float s tag = map_of (sm_tags s) tag"

definition account_type_of :: "string \<Rightarrow> string option \<Rightarrow> string option" where
  "account_type_of acct previous =
     (let first = py_upper (take 1 acct)
      in if first = ''D'' then Some ''paper''
         else if first = ''U'' \<or> first = ''F'' then Some ''live'' else previous)"

definition write_summary :: "account_view \<Rightarrow> ib_state_row \<Rightarrow> ib_state_row" where
  "write_summary s r =
     (let acct = (if str_or (sm_account s) = [] then ic_account_id r else sm_account s)
      in r\<lparr>ic_account_id := acct,
           ic_account_type := (if str_or acct = [] then ic_account_type r else account_type_of (str_or acct) (ic_account_type r)),
           ic_available_funds_usd := pick_float s ''AvailableFunds'', ic_buying_power_usd := pick_float s ''BuyingPower'',
           ic_margin_used_usd := pick_float s ''MaintMarginReq''\<rparr>)"

definition beat_row :: "time \<Rightarrow> bool \<Rightarrow> account_view option \<Rightarrow> ib_state_row \<Rightarrow> ib_state_row" where
  "beat_row now conn summary r =
     (let r1 = r\<lparr>ic_is_connected := conn, ic_last_heartbeat := now\<rparr>;
          r2 = (case summary of None \<Rightarrow> r1 | Some s \<Rightarrow> if conn then write_summary s r1 else r1)
      in if ic_is_connected r \<and> \<not> conn
         then r2\<lparr>ic_last_disconnect_at := Some now, ic_n_disconnects_24h := ic_n_disconnects_24h r + 1\<rparr>
         else r2)"

definition broker_row :: "ib_state_row table \<Rightarrow> (int \<times> ib_state_row) option" where
  "broker_row t = (case twhere (\<lambda>r. ic_broker r = ''IB'') t of [] \<Rightarrow> None | x # xs \<Rightarrow> Some x)"

definition update_heartbeat_row :: "time \<Rightarrow> bool \<Rightarrow> account_view option \<Rightarrow> ib_state_row table \<Rightarrow> ib_state_row table" where
  "update_heartbeat_row now conn summary t =
     (let t1 = (if broker_row t = None then tins (new_ib_state now) t else t)
      in case broker_row t1 of None \<Rightarrow> t1 | Some (k, r) \<Rightarrow> tupd k (beat_row now conn summary) t1)"

text \<open>One turn of the loop: the summary is asked for when connected; its failure is no summary.\<close>

definition heartbeat_cycle :: "time \<Rightarrow> executor \<Rightarrow> ib_state_row table \<Rightarrow> ib_state_row table" where
  "heartbeat_cycle now x t =
     update_heartbeat_row now (is_connected x)
       (if is_connected x then (case account_summary x of Inl e \<Rightarrow> None | Inr s \<Rightarrow> Some s) else None) t"

definition mark_disconnected :: "time \<Rightarrow> ib_state_row table \<Rightarrow> ib_state_row table" where
  "mark_disconnected now t =
     tupd_where (\<lambda>k r. ic_broker r = ''IB'')
       (\<lambda>r. r\<lparr>ic_is_connected := False, ic_last_heartbeat := now, ic_last_disconnect_at := Some now\<rparr>) t"

section \<open>Stuck orders\<close>

definition STUCK_STATES :: "order_state list" where "STUCK_STATES = [Submitted, Acknowledged]"

definition find_stuck_orders :: "time \<Rightarrow> flt \<Rightarrow> db \<Rightarrow> (int \<times> order_row) list" where
  "find_stuck_orders now after d =
     twhere (\<lambda>r. o_state r \<in> set STUCK_STATES \<and> (case o_submitted_at r of None \<Rightarrow> False | Some t \<Rightarrow> t < now - after)) (t_orders d)"

record watcher =
  wt_db :: db
  wt_alerts :: "(int \<times> time) list"

definition already_alerted_recently :: "(int \<times> time) list \<Rightarrow> int \<Rightarrow> time \<Rightarrow> flt \<Rightarrow> bool" where
  "already_alerted_recently alerts oid now window = (\<exists>(k, ts) \<in> set alerts. k = oid \<and> now - window \<le> ts)"

definition stuck_alert :: "int \<Rightarrow> order_row \<Rightarrow> flt \<Rightarrow> event_row" where
  "stuck_alert oid r age =
     \<lparr>ev_event_type = ''stuck_order_alert'', ev_severity = Sev_critical, ev_structure_id = Some (o_structure_id r),
      ev_order_id = Some oid, ev_position_id = None,
      ev_payload = [(''order_id'', PInt oid), (''structure_id'', PInt (o_structure_id r)), (''state'', PStr (state_name (o_state r))),
        (''age_seconds'', PFlt age),
        (''ib_order_id'', p_opt_str (o_ib_order_id r))]\<rparr>"

definition watch_order :: "time \<Rightarrow> flt \<Rightarrow> watcher \<Rightarrow> int \<times> order_row \<Rightarrow> watcher" where
  "watch_order now window w = (\<lambda>(oid, r).
     if already_alerted_recently (wt_alerts w) oid now window then w
     else w\<lparr>wt_db := add_event (stuck_alert oid r (case o_submitted_at r of None \<Rightarrow> 0 | Some t \<Rightarrow> now - t)) (wt_db w),
            wt_alerts := wt_alerts w @ [(oid, now)]\<rparr>)"

definition stuck_order_cycle :: "flt \<Rightarrow> flt \<Rightarrow> watcher \<Rightarrow> time \<Rightarrow> watcher" where
  "stuck_order_cycle after window w now = foldl (watch_order now window) w (find_stuck_orders now after (wt_db w))"

section \<open>What the connection row says\<close>

text \<open>Only a beat that finds the broker gone after one that found it there counts a disconnect.\<close>

lemma beat_row_counts:
  "ic_n_disconnects_24h (beat_row now conn summary r)
     = ic_n_disconnects_24h r + (if ic_is_connected r \<and> \<not> conn then 1 else 0)"
  "ic_is_connected (beat_row now conn summary r) = conn"
  "ic_last_heartbeat (beat_row now conn summary r) = now"
  by (auto simp: beat_row_def write_summary_def Let_def split: option.splits)

definition run_beats :: "(time \<times> bool \<times> account_view option) list \<Rightarrow> ib_state_row \<Rightarrow> ib_state_row" where
  "run_beats bs r = foldl (\<lambda>r (now, conn, summary). beat_row now conn summary r) r bs"

fun falls :: "bool \<Rightarrow> bool list \<Rightarrow> nat" where
  "falls was [] = 0"
| "falls was (c # cs) = (if was \<and> \<not> c then 1 else 0) + falls c cs"

lemma disconnects_count_all:
  "ic_n_disconnects_24h (run_beats bs r)
     = ic_n_disconnects_24h r + int (falls (ic_is_connected r) (map (fst \<circ> snd) bs))"
  by (induction bs arbitrary: r) (auto simp: run_beats_def beat_row_counts)

section \<open>The watcher of stuck orders\<close>

lemma watch_order_db [simp]:
  "t_orders (wt_db (watch_order now window w x)) = t_orders (wt_db w)"
  by (cases x) (simp add: watch_order_def)

lemma watch_orders_db [simp]:
  "t_orders (wt_db (foldl (watch_order now window) w xs)) = t_orders (wt_db w)"
  by (induction xs arbitrary: w) auto

text \<open>Alerts of one order, newest last, are more than the window apart.\<close>

definition alerts_spaced :: "flt \<Rightarrow> (int \<times> time) list \<Rightarrow> bool" where
  "alerts_spaced window as \<longleftrightarrow>
     sorted_wrt (\<lambda>a b. snd a \<le> snd b \<and> (fst a = fst b \<longrightarrow> snd a < snd b - window)) as"

lemma watch_order_spaced:
  assumes "alerts_spaced window (wt_alerts w)" "\<forall>a \<in> set (wt_alerts w). snd a \<le> now"
  shows "alerts_spaced window (wt_alerts (watch_order now window w x)) \<and>
    (\<forall>a \<in> set (wt_alerts (watch_order now window w x)). snd a \<le> now)"
  using assms by (cases x)
    (auto simp: watch_order_def alerts_spaced_def sorted_wrt_append already_alerted_recently_def not_le split: prod.splits if_splits;
     force)

lemma watch_orders_spaced:
  assumes "alerts_spaced window (wt_alerts w)" "\<forall>a \<in> set (wt_alerts w). snd a \<le> now"
  shows "alerts_spaced window (wt_alerts (foldl (watch_order now window) w xs)) \<and>
    (\<forall>a \<in> set (wt_alerts (foldl (watch_order now window) w xs)). snd a \<le> now)"
  using assms
proof (induction xs arbitrary: w)
  case (Cons x xs)
  show ?case using Cons.IH [of "watch_order now window w x"] watch_order_spaced [OF Cons.prems, of x]
    unfolding foldl_Cons by blast
qed simp

lemma watch_order_keeps:
  "set (wt_alerts w) \<subseteq> set (wt_alerts (watch_order now window w x))"
  by (cases x) (auto simp: watch_order_def)

lemma watch_orders_keep:
  "set (wt_alerts w) \<subseteq> set (wt_alerts (foldl (watch_order now window) w xs))"
  by (induction xs arbitrary: w) (use watch_order_keeps in \<open>fastforce+\<close>)

lemma watch_order_alerts:
  assumes "0 \<le> window"
  shows "\<exists>ts. (oid, ts) \<in> set (wt_alerts (watch_order now window w (oid, r))) \<and> now - window \<le> ts"
  using assms by (auto simp: watch_order_def already_alerted_recently_def)

lemma watch_orders_alert:
  assumes "0 \<le> window" "(oid, r) \<in> set xs"
  shows "\<exists>ts. (oid, ts) \<in> set (wt_alerts (foldl (watch_order now window) w xs)) \<and> now - window \<le> ts"
  using assms(2)
proof (induction xs arbitrary: w)
  case (Cons x xs)
  show ?case
  proof (cases "x = (oid, r)")
    case True
    then obtain ts where "(oid, ts) \<in> set (wt_alerts (watch_order now window w x))" "now - window \<le> ts"
      using watch_order_alerts [OF assms(1)] by blast
    then show ?thesis using watch_orders_keep [of "watch_order now window w x" now window xs] by auto
  next
    case False
    then show ?thesis using Cons by auto
  qed
qed simp

text \<open>Between two cycles the engine changes the store; the watcher runs on what it finds.\<close>

definition run_watcher :: "flt \<Rightarrow> flt \<Rightarrow> (db \<times> time) list \<Rightarrow> watcher \<Rightarrow> watcher" where
  "run_watcher after window cs w = foldl (\<lambda>w (d, now). stuck_order_cycle after window (w\<lparr>wt_db := d\<rparr>) now) w cs"

lemma run_watcher_spaced:
  assumes "alerts_spaced window (wt_alerts w)" "\<forall>a \<in> set (wt_alerts w). \<forall>t \<in> snd ` set cs. snd a \<le> t"
    "sorted (map snd cs)"
  shows "alerts_spaced window (wt_alerts (run_watcher after window cs w))"
  using assms
proof (induction cs arbitrary: w)
  case (Cons c cs)
  obtain d now where c: "c = (d, now)" by (cases c)
  let ?w = "stuck_order_cycle after window (w\<lparr>wt_db := d\<rparr>) now"
  have *: "alerts_spaced window (wt_alerts ?w) \<and> (\<forall>a \<in> set (wt_alerts ?w). snd a \<le> now)"
    unfolding stuck_order_cycle_def by (rule watch_orders_spaced) (use Cons.prems c in auto)
  then have "alerts_spaced window (wt_alerts (run_watcher after window cs ?w))"
    using Cons.prems(3) by (intro Cons.IH) (fastforce simp: c)+
  then show ?case by (simp add: run_watcher_def c)
qed (simp add: run_watcher_def)

text \<open>
  C21. The stuck-order watcher alerts without spamming and never acts on an order: through any
  number of cycles, whatever the engine does to the store in between, two alerts of one order are
  more than the deduplication window apart; after a cycle every order that has been working for
  too long has an alert no older than the window; and a cycle leaves every order row as it was.
\<close>

theorem stuck_orders_alerted:
  assumes "0 \<le> window" "sorted (map snd (cs @ [(d, now)]))"
    and w_def: "w = run_watcher after window (cs @ [(d, now)]) \<lparr>wt_db = d0, wt_alerts = []\<rparr>"
  shows "alerts_spaced window (wt_alerts w) \<and> t_orders (wt_db w) = t_orders d \<and>
    (\<forall>(oid, r) \<in> set (find_stuck_orders now after d). \<exists>ts. (oid, ts) \<in> set (wt_alerts w) \<and> now - window \<le> ts)"
proof (intro conjI)
  show "alerts_spaced window (wt_alerts w)"
    unfolding w_def by (rule run_watcher_spaced) (use assms(2) in \<open>auto simp: alerts_spaced_def\<close>)
  show "t_orders (wt_db w) = t_orders d" by (simp add: w_def run_watcher_def stuck_order_cycle_def)
  show "\<forall>(oid, r) \<in> set (find_stuck_orders now after d). \<exists>ts. (oid, ts) \<in> set (wt_alerts w) \<and> now - window \<le> ts"
    using watch_orders_alert [OF assms(1)] by (auto simp: w_def run_watcher_def stuck_order_cycle_def)
qed

definition stuck_example :: db where
  "stuck_example = empty_db\<lparr>t_orders := [(1, (new_order_row 0 9 0 Entry ''put'' BUY 10 Submitted)\<lparr>o_submitted_at := Some 0\<rparr>)]\<rparr>"

theorem stuck_orders_alerted_witness:
  "let w = run_watcher 600 600 [(stuck_example, 700), (stuck_example, 760), (stuck_example, 1400)] \<lparr>wt_db = empty_db, wt_alerts = []\<rparr>
   in alerts_spaced 600 (wt_alerts w) \<and> (\<exists>ts. (1, ts) \<in> set (wt_alerts w) \<and> 800 \<le> ts)"
proof -
  define w where "w = run_watcher 600 600 ([(stuck_example, 700), (stuck_example, 760)] @ [(stuck_example, 1400)])
    \<lparr>wt_db = empty_db, wt_alerts = []\<rparr>"
  have "\<exists>r. (1, r) \<in> set (find_stuck_orders 1400 600 stuck_example)"
    by (simp add: find_stuck_orders_def twhere_def stuck_example_def STUCK_STATES_def new_order_row_def)
  moreover have "alerts_spaced 600 (wt_alerts w) \<and> t_orders (wt_db w) = t_orders stuck_example \<and>
    (\<forall>(oid, r) \<in> set (find_stuck_orders 1400 600 stuck_example). \<exists>ts. (oid, ts) \<in> set (wt_alerts w) \<and> 1400 - 600 \<le> ts)"
    by (rule stuck_orders_alerted [OF _ _ w_def]) simp_all
  ultimately have "alerts_spaced 600 (wt_alerts w) \<and> (\<exists>ts. (1, ts) \<in> set (wt_alerts w) \<and> 800 \<le> ts)"
    by auto
  then show ?thesis by (simp add: w_def)
qed

end
