(* ===== verification/Db_Writer.thy ===== *)
theory Db_Writer
  imports Prelude Py_Text
begin

text \<open>
  The database writer (\<open>persistence/writer.py\<close>, \<open>engines/db_writer/service.py\<close>): frames from
  the bus are queued, collected in batches and inserted, one transaction per table, with
  \<open>ON CONFLICT DO NOTHING\<close> on the natural key; row errors fall back to single rows and to the
  dead letter, transient errors to retries. How the database answers the successive
  transactions is a list in the store, and which statements it accepts is the argument
  \<open>accepts\<close>; nothing is assumed of either. The text of a dead letter's error is left out.
\<close>

section \<open>Rows and tables\<close>

datatype cell = C_null | C_str string | C_num flt | C_time time

type_synonym row = "(string \<times> cell) list"

definition TABLE_MODELS :: "string list" where
  "TABLE_MODELS = [''account_history'', ''feature_history'', ''pca_signal_history'', ''open_position'', ''open_position_history'',
     ''regime_snapshot_history'', ''pca_surface_snapshot_history'', ''vol_surface_history'']"

definition IDEMPOTENT_TABLES :: "(string \<times> string list) list" where
  "IDEMPOTENT_TABLES = [(''vol_surface_history'', [''timestamp'', ''underlying'']), (''open_position'', [''id'']),
     (''feature_history'', [''symbol'', ''timestamp'']), (''regime_snapshot_history'', [''symbol'', ''timestamp'']),
     (''pca_surface_snapshot_history'', [''symbol'', ''timestamp'']),
     (''pca_signal_history'', [''symbol'', ''timestamp'', ''pca_model_id'', ''pc_id''])]"

text \<open>Two rows conflict on a key none of whose columns is null.\<close>

definition conflicts :: "string \<Rightarrow> row \<Rightarrow> row \<Rightarrow> bool" where
  "conflicts t r r' =
     (case map_of IDEMPOTENT_TABLES t of
        None \<Rightarrow> False
      | Some ks \<Rightarrow> list_all (\<lambda>c. map_of r c = map_of r' c \<and> map_of r c \<noteq> None \<and> map_of r c \<noteq> Some C_null) ks)"

definition present :: "(string \<times> row) list \<Rightarrow> string \<times> row \<Rightarrow> bool" where
  "present db e = (\<exists>e' \<in> set db. fst e' = fst e \<and> conflicts (fst e) (snd e) (snd e'))"

definition insert_row :: "(string \<times> row) list \<Rightarrow> string \<times> row \<Rightarrow> (string \<times> row) list" where
  "insert_row db e = (if present db e then db else db @ [e])"

definition insert_rows :: "(string \<times> row) list \<Rightarrow> (string \<times> row) list \<Rightarrow> (string \<times> row) list" where
  "insert_rows db es = foldl insert_row db es"

section \<open>Transactions\<close>

text \<open>A transaction succeeds, fails before its commit, fails after it, or raises something else.\<close>

datatype answer = Txn_ok | Txn_lost | Txn_in_doubt | Txn_crash

datatype failure = Transient | Row_error | Other_error

record store =
  ws_rows :: "(string \<times> row) list"
  ws_dead :: "(string \<times> row) list"
  ws_logged :: "(string \<times> row) list"
  ws_waits :: "nat list"
  ws_answers :: "answer list"

definition next_answer :: "store \<Rightarrow> answer \<times> store" where
  "next_answer s = (case ws_answers s of [] \<Rightarrow> (Txn_ok, s) | a # as \<Rightarrow> (a, s\<lparr>ws_answers := as\<rparr>))"

definition txn_insert :: "(string \<Rightarrow> row list \<Rightarrow> bool) \<Rightarrow> string \<Rightarrow> row list \<Rightarrow> store \<Rightarrow> store \<times> (failure + unit)" where
  "txn_insert accepts t rs s =
     (case next_answer s of (a, s1) \<Rightarrow>
        let s2 = s1\<lparr>ws_rows := insert_rows (ws_rows s1) (map (Pair t) rs)\<rparr>
        in case a of
             Txn_lost \<Rightarrow> (s1, Inl Transient)
           | Txn_crash \<Rightarrow> (s1, Inl Other_error)
           | Txn_ok \<Rightarrow> if accepts t rs then (s2, Inr ()) else (s1, Inl Row_error)
           | Txn_in_doubt \<Rightarrow> if accepts t rs then (s2, Inl Transient) else (s1, Inl Row_error))"

definition dead_letter :: "string \<times> row \<Rightarrow> store \<Rightarrow> store" where
  "dead_letter e s =
     (case next_answer s of (a, s1) \<Rightarrow>
        let parked = (take 64 (fst e), snd e)
        in case a of
             Txn_ok \<Rightarrow> s1\<lparr>ws_dead := ws_dead s1 @ [parked]\<rparr>
           | Txn_in_doubt \<Rightarrow> s1\<lparr>ws_dead := ws_dead s1 @ [parked], ws_logged := ws_logged s1 @ [e]\<rparr>
           | _ \<Rightarrow> s1\<lparr>ws_logged := ws_logged s1 @ [e]\<rparr>)"

fun write_rows_one_by_one :: "(string \<Rightarrow> row list \<Rightarrow> bool) \<Rightarrow> string \<Rightarrow> row list \<Rightarrow> store \<Rightarrow> store \<times> (failure + nat)" where
  "write_rows_one_by_one accepts t [] s = (s, Inr 0)"
| "write_rows_one_by_one accepts t (r # rs) s =
     (case txn_insert accepts t [r] s of
        (s1, Inr u) \<Rightarrow>
          (case write_rows_one_by_one accepts t rs s1 of (s2, res) \<Rightarrow> (s2, case res of Inl e \<Rightarrow> Inl e | Inr n \<Rightarrow> Inr (Suc n)))
      | (s1, Inl e) \<Rightarrow> if e = Row_error then write_rows_one_by_one accepts t rs (dead_letter (t, r) s1) else (s1, Inl e))"

section \<open>A batch\<close>

definition sort_event :: "store \<times> (string \<times> row list) list \<Rightarrow> string \<times> row \<Rightarrow> store \<times> (string \<times> row list) list" where
  "sort_event sg e =
     (case sg of (s, groups) \<Rightarrow>
        if fst e \<in> set TABLE_MODELS
        then (s, AList.update (fst e) ((case map_of groups (fst e) of None \<Rightarrow> [] | Some rs \<Rightarrow> rs) @ [snd e]) groups)
        else (dead_letter e s, groups))"

fun write_tables :: "(string \<Rightarrow> row list \<Rightarrow> bool) \<Rightarrow> (string \<times> row list) list \<Rightarrow> store \<Rightarrow> store \<times> (failure + (string \<times> nat) list)" where
  "write_tables accepts [] s = (s, Inr [])"
| "write_tables accepts ((t, rs) # gs) s =
     (case (case txn_insert accepts t rs s of
              (s1, Inr u) \<Rightarrow> (s1, Inr (length rs))
            | (s1, Inl e) \<Rightarrow> if e = Row_error then write_rows_one_by_one accepts t rs s1 else (s1, Inl e)) of
        (s1, Inl e) \<Rightarrow> (s1, Inl e)
      | (s1, Inr n) \<Rightarrow>
          (case write_tables accepts gs s1 of (s2, res) \<Rightarrow> (s2, case res of Inl e \<Rightarrow> Inl e | Inr w \<Rightarrow> Inr ((t, n) # w))))"

definition write_batch :: "(string \<Rightarrow> row list \<Rightarrow> bool) \<Rightarrow> (string \<times> row) list \<Rightarrow> store \<Rightarrow> store \<times> (failure + (string \<times> nat) list)" where
  "write_batch accepts batch s =
     (case foldl sort_event (s, []) batch of (s1, groups) \<Rightarrow> write_tables accepts groups s1)"

text \<open>\<open>n\<close> attempts are left of \<open>range(retry_attempts)\<close>; with none at all the batch is skipped.\<close>

fun retry_loop :: "(string \<Rightarrow> row list \<Rightarrow> bool) \<Rightarrow> nat \<Rightarrow> nat \<Rightarrow> (string \<times> row) list \<Rightarrow> store \<Rightarrow> store \<times> (failure + unit)" where
  "retry_loop accepts attempt 0 batch s = (s, Inr ())"
| "retry_loop accepts attempt (Suc n) batch s =
     (case write_batch accepts batch s of
        (s1, Inr w) \<Rightarrow> (s1, Inr ())
      | (s1, Inl e) \<Rightarrow>
          if e = Transient \<and> n \<noteq> 0 then retry_loop accepts (Suc attempt) n batch (s1\<lparr>ws_waits := ws_waits s1 @ [2 ^ attempt]\<rparr>)
          else (s1, Inl e))"

definition write_batch_with_retries :: "(string \<Rightarrow> row list \<Rightarrow> bool) \<Rightarrow> nat \<Rightarrow> (string \<times> row) list \<Rightarrow> store \<Rightarrow> store \<times> (failure + unit)" where
  "write_batch_with_retries accepts retry_attempts batch s = retry_loop accepts 0 retry_attempts batch s"

section \<open>Inserting twice\<close>

definition keyed :: "string \<times> row \<Rightarrow> bool" where
  "keyed e = conflicts (fst e) (snd e) (snd e)"

lemma present_insert_row: "present db e \<Longrightarrow> present (insert_row db e') e"
  by (auto simp: present_def insert_row_def)

lemma present_insert_rows: "present db e \<Longrightarrow> present (insert_rows db es) e"
  by (induction es arbitrary: db) (auto simp: insert_rows_def present_insert_row)

lemma insert_row_present: "keyed e \<Longrightarrow> present (insert_row db e) e"
  by (auto simp: insert_row_def present_def keyed_def)

lemma insert_rows_append: "insert_rows db (xs @ ys) = insert_rows (insert_rows db xs) ys"
  by (simp add: insert_rows_def)

lemma insert_rows_present:
  assumes "e \<in> set es" "keyed e"
  shows "present (insert_rows db es) e"
  using assms
proof (induction es rule: rev_induct)
  case (snoc x xs)
  then show ?case
    by (auto simp: insert_rows_append insert_rows_def insert_row_present present_insert_row)
qed simp

lemma insert_rows_absorb: "\<forall>e \<in> set es. present db e \<Longrightarrow> insert_rows db es = db"
  by (induction es) (auto simp: insert_rows_def insert_row_def)

lemma insert_rows_prefix:
  assumes "\<forall>e \<in> set es. keyed e"
  shows "insert_rows (insert_rows db (take k es)) (take k' es) = insert_rows db (take (max k k') es)"
proof -
  have in_es: "x \<in> set es" if "x \<in> set (take n es)" for x n using that by (rule in_set_takeD)
  have absorbed: "insert_rows (insert_rows db (take k es)) ys = insert_rows db (take k es)" if "set ys \<subseteq> set (take k es)" for ys
    using that assms in_es by (intro insert_rows_absorb) (auto intro!: insert_rows_present)
  show ?thesis
  proof (cases "k' \<le> k")
    case True
    then show ?thesis using absorbed [of "take k' es"] set_take_subset_set_take [OF True, of es] by (simp add: max_def)
  next
    case False
    then have "take k' es = take k es @ take (k' - k) (drop k es)"
      by (metis le_add_diff_inverse nat_le_linear take_add)
    then show ?thesis using absorbed [of "take k es"] False by (simp add: insert_rows_append max_def)
  qed
qed

lemma insert_rows_keeps: "set db \<subseteq> set (insert_rows db es)"
  by (induction es arbitrary: db) (fastforce simp: insert_rows_def insert_row_def)+

lemma insert_rows_settles: "e \<in> set es \<Longrightarrow> e \<in> set (insert_rows db es) \<or> present (insert_rows db es) e"
proof (induction es rule: rev_induct)
  case (snoc x xs)
  then show ?case
    by (auto simp: insert_rows_append insert_rows_def insert_row_def present_def)
qed simp

section \<open>What a batch writes\<close>

definition effective :: "(string \<Rightarrow> row list \<Rightarrow> bool) \<Rightarrow> string \<Rightarrow> row list \<Rightarrow> (string \<times> row) list" where
  "effective accepts t rs = map (Pair t) (if accepts t rs then rs else filter (\<lambda>r. accepts t [r]) rs)"

definition advances :: "(string \<times> row) list \<Rightarrow> bool \<Rightarrow> store \<Rightarrow> store \<Rightarrow> bool" where
  "advances es full s s' \<longleftrightarrow>
     (\<exists>k \<le> length es. (full \<longrightarrow> k = length es) \<and> ws_rows s' = insert_rows (ws_rows s) (take k es))"

lemma advances_Nil: "ws_rows s' = ws_rows s \<Longrightarrow> advances [] c s s'"
  by (simp add: advances_def insert_rows_def)

lemma advances_all: "ws_rows s' = insert_rows (ws_rows s) es \<Longrightarrow> advances es c s s'"
  unfolding advances_def by (intro exI [of _ "length es"]) simp

lemma advances_none: "ws_rows s' = ws_rows s \<Longrightarrow> advances es False s s'"
  unfolding advances_def by (intro exI [of _ 0]) (simp add: insert_rows_def)

lemma advances_append:
  assumes "advances xs True s s1" "advances ys c s1 s2"
  shows "advances (xs @ ys) c s s2"
proof -
  obtain k where "k \<le> length ys" "c \<longrightarrow> k = length ys" "ws_rows s2 = insert_rows (ws_rows s1) (take k ys)"
    using assms(2) by (auto simp: advances_def)
  moreover have "ws_rows s1 = insert_rows (ws_rows s) xs" using assms(1) by (auto simp: advances_def)
  ultimately show ?thesis
    unfolding advances_def by (intro exI [of _ "length xs + k"]) (simp add: insert_rows_append)
qed

lemma advances_stop:
  assumes "advances xs False s s1"
  shows "advances (xs @ ys) False s s1"
proof -
  obtain k where k: "k \<le> length xs" "ws_rows s1 = insert_rows (ws_rows s) (take k xs)" using assms by (auto simp: advances_def)
  then show ?thesis unfolding advances_def by (intro exI [of _ k]) simp
qed

lemma next_answer_rows:
  "next_answer s = (a, s1) \<Longrightarrow> ws_rows s1 = ws_rows s \<and> ws_dead s1 = ws_dead s \<and> ws_logged s1 = ws_logged s"
  by (auto simp: next_answer_def split: list.splits)

lemma dead_letter_rows [simp]: "ws_rows (dead_letter e s) = ws_rows s"
  by (cases "next_answer s") (auto simp: dead_letter_def Let_def next_answer_rows split: answer.splits)

lemma txn_insert_cases:
  assumes "txn_insert accepts t rs s = (s', res)"
  shows "res = Inr () \<and> accepts t rs \<and> ws_rows s' = insert_rows (ws_rows s) (map (Pair t) rs) \<or>
    res = Inl Row_error \<and> \<not> accepts t rs \<and> ws_rows s' = ws_rows s \<or>
    (\<exists>e. res = Inl e \<and> e \<noteq> Row_error) \<and>
      (ws_rows s' = ws_rows s \<or> accepts t rs \<and> ws_rows s' = insert_rows (ws_rows s) (map (Pair t) rs))"
  using assms by (cases "next_answer s") (auto simp: txn_insert_def Let_def next_answer_rows split: answer.splits if_splits)

lemma one_by_one_advances:
  assumes "write_rows_one_by_one accepts t rs s = (s', res)"
  shows "advances (map (Pair t) (filter (\<lambda>r. accepts t [r]) rs)) (\<not> isl res) s s'"
  using assms
proof (induction rs arbitrary: s s' res)
  case Nil
  then show ?case by (auto intro: advances_Nil)
next
  case (Cons r rs)
  obtain s1 r1 where t: "txn_insert accepts t [r] s = (s1, r1)" by (cases "txn_insert accepts t [r] s") auto
  obtain s2 r2 where w: "write_rows_one_by_one accepts t rs s1 = (s2, r2)" by (cases "write_rows_one_by_one accepts t rs s1") auto
  let ?es = "map (Pair t) (filter (\<lambda>r. accepts t [r]) rs)"
  consider (ok) "r1 = Inr ()" "accepts t [r]" "ws_rows s1 = insert_rows (ws_rows s) [(t, r)]"
    | (bad) "r1 = Inl Row_error" "\<not> accepts t [r]" "ws_rows s1 = ws_rows s"
    | (stop) e where "r1 = Inl e" "e \<noteq> Row_error" "ws_rows s1 = ws_rows s \<or> accepts t [r] \<and> ws_rows s1 = insert_rows (ws_rows s) [(t, r)]"
    using txn_insert_cases [OF t] by auto
  then show ?case
  proof cases
    case ok
    have "s' = s2" "isl res = isl r2" using Cons.prems by (auto simp: t w ok split: sum.splits)
    then have "advances ([(t, r)] @ ?es) (\<not> isl res) s s'"
      using advances_append [OF advances_all [OF ok(3)] Cons.IH [OF w]] by simp
    then show ?thesis using ok(2) by simp
  next
    case bad
    have "write_rows_one_by_one accepts t rs (dead_letter (t, r) s1) = (s', res)" using Cons.prems by (simp add: t bad)
    from Cons.IH [OF this] show ?thesis using bad by (simp add: advances_def)
  next
    case stop
    have res: "s' = s1" "res = Inl e" using Cons.prems by (simp_all add: t stop)
    show ?thesis
    proof (cases "ws_rows s1 = ws_rows s")
      case True
      then show ?thesis using res by (simp add: advances_none)
    next
      case False
      then have "accepts t [r]" "ws_rows s1 = insert_rows (ws_rows s) [(t, r)]" using stop(3) by auto
      then show ?thesis using res advances_stop [OF advances_all, of s1 s "[(t, r)]" ?es] by simp
    qed
  qed
qed

definition groups_of :: "(string \<times> row list) list \<Rightarrow> (string \<times> row) list \<Rightarrow> (string \<times> row list) list" where
  "groups_of gs batch =
     foldl (\<lambda>gs e. if fst e \<in> set TABLE_MODELS
                     then AList.update (fst e) ((case map_of gs (fst e) of None \<Rightarrow> [] | Some rs \<Rightarrow> rs) @ [snd e]) gs else gs) gs batch"

lemma sort_events_groups: "snd (foldl sort_event (s, gs) batch) = groups_of gs batch"
proof (induction batch arbitrary: s gs)
  case (Cons e batch)
  show ?case
    using Cons.IH [of "fst (sort_event (s, gs) e)" "snd (sort_event (s, gs) e)"]
    by (simp add: groups_of_def sort_event_def)
qed (simp add: groups_of_def)

lemma sort_events_rows: "ws_rows (fst (foldl sort_event (s, gs) batch)) = ws_rows s"
proof (induction batch arbitrary: s gs)
  case (Cons e batch)
  show ?case using Cons.IH [of "fst (sort_event (s, gs) e)" "snd (sort_event (s, gs) e)"] by (simp add: sort_event_def)
qed simp

definition flat_of :: "(string \<Rightarrow> row list \<Rightarrow> bool) \<Rightarrow> (string \<times> row list) list \<Rightarrow> (string \<times> row) list" where
  "flat_of accepts gs = concat (map (\<lambda>(t, rs). effective accepts t rs) gs)"

lemma table_advances:
  assumes "(case txn_insert accepts t rs s of
              (s1, Inr u) \<Rightarrow> (s1, Inr (length rs))
            | (s1, Inl e) \<Rightarrow> if e = Row_error then write_rows_one_by_one accepts t rs s1 else (s1, Inl e)) = (s', res)"
  shows "advances (effective accepts t rs) (\<not> isl res) s s'"
proof -
  obtain s1 r1 where t: "txn_insert accepts t rs s = (s1, r1)" by (cases "txn_insert accepts t rs s") auto
  consider (ok) "r1 = Inr ()" "accepts t rs" "ws_rows s1 = insert_rows (ws_rows s) (map (Pair t) rs)"
    | (bad) "r1 = Inl Row_error" "\<not> accepts t rs" "ws_rows s1 = ws_rows s"
    | (stop) e where "r1 = Inl e" "e \<noteq> Row_error" "ws_rows s1 = ws_rows s \<or> accepts t rs \<and> ws_rows s1 = insert_rows (ws_rows s) (map (Pair t) rs)"
    using txn_insert_cases [OF t] by auto
  then show ?thesis
  proof cases
    case ok
    then show ?thesis using assms by (auto simp: t effective_def intro: advances_all)
  next
    case bad
    have "write_rows_one_by_one accepts t rs s1 = (s', res)" using assms by (simp add: t bad)
    from one_by_one_advances [OF this] show ?thesis using bad by (simp add: advances_def effective_def)
  next
    case stop
    then have "s' = s1" "res = Inl e" using assms by (simp_all add: t)
    then show ?thesis using stop(3) by (auto simp: effective_def intro: advances_none advances_all)
  qed
qed

lemma tables_advance:
  assumes "write_tables accepts gs s = (s', res)"
  shows "advances (flat_of accepts gs) (\<not> isl res) s s'"
  using assms
proof (induction accepts gs s arbitrary: s' res rule: write_tables.induct)
  case (1 accepts s)
  then show ?case by (auto simp: flat_of_def intro: advances_Nil)
next
  case (2 accepts t rs gs s)
  obtain s1 r1 where t: "(case txn_insert accepts t rs s of
              (s1, Inr u) \<Rightarrow> (s1, Inr (length rs))
            | (s1, Inl e) \<Rightarrow> if e = Row_error then write_rows_one_by_one accepts t rs s1 else (s1, Inl e)) = (s1, r1)" (is "?step = _")
    by (cases ?step) auto
  note adv = table_advances [OF t]
  show ?case
  proof (cases r1)
    case (Inl e)
    then have "s' = s1" "res = Inl e" using "2.prems" by (simp_all only: write_tables.simps t) simp_all
    then show ?thesis using adv Inl by (simp add: flat_of_def advances_stop)
  next
    case (Inr n)
    obtain s2 r2 where w: "write_tables accepts gs s1 = (s2, r2)" by (cases "write_tables accepts gs s1") auto
    have "s' = s2" "isl res = isl r2"
      using "2.prems" unfolding write_tables.simps t by (auto simp: Inr w split: sum.splits)
    moreover have "advances (flat_of accepts gs) (\<not> isl r2) s1 s2" by (rule "2.IH" [OF t [symmetric] Inr w])
    ultimately show ?thesis using advances_append [of "effective accepts t rs" s s1] adv Inr by (simp add: flat_of_def)
  qed
qed

lemma batch_advances:
  assumes "write_batch accepts batch s = (s', res)"
  shows "advances (flat_of accepts (groups_of [] batch)) (\<not> isl res) s s'"
proof -
  obtain s1 gs where f: "foldl sort_event (s, []) batch = (s1, gs)" by (cases "foldl sort_event (s, []) batch") auto
  have "gs = groups_of [] batch" "ws_rows s1 = ws_rows s"
    using sort_events_groups [of s "[]" batch] sort_events_rows [of s "[]" batch] by (simp_all add: f)
  moreover have "write_tables accepts gs s1 = (s', res)" using assms by (simp add: write_batch_def f)
  ultimately show ?thesis using tables_advance by (fastforce simp: advances_def)
qed

lemma retries_advance:
  assumes "retry_loop accepts a n batch s = (s', res)" "\<forall>e \<in> set (flat_of accepts (groups_of [] batch)). keyed e" "0 < n"
  shows "advances (flat_of accepts (groups_of [] batch)) (\<not> isl res) s s'"
  using assms(1,3)
proof (induction n arbitrary: a s)
  case (Suc n)
  let ?es = "flat_of accepts (groups_of [] batch)"
  obtain s1 r1 where w: "write_batch accepts batch s = (s1, r1)" by (cases "write_batch accepts batch s") auto
  note adv = batch_advances [OF w]
  show ?case
  proof (cases "r1 = Inl Transient \<and> n \<noteq> 0")
    case False
    then have "s' = s1" "isl res = isl r1" using Suc.prems by (auto simp: w split: sum.splits if_splits)
    then show ?thesis using adv by simp
  next
    case True
    let ?s2 = "s1\<lparr>ws_waits := ws_waits s1 @ [2 ^ a]\<rparr>"
    have "retry_loop accepts (Suc a) n batch ?s2 = (s', res)" using Suc.prems True by (simp add: w)
    from Suc.IH [OF this] True obtain k where k: "k \<le> length ?es" "\<not> isl res \<longrightarrow> k = length ?es"
      "ws_rows s' = insert_rows (ws_rows s1) (take k ?es)" by (auto simp: advances_def)
    obtain j where "j \<le> length ?es" "ws_rows s1 = insert_rows (ws_rows s) (take j ?es)"
      using adv True by (auto simp: advances_def)
    then show ?thesis
      unfolding advances_def using k insert_rows_prefix [OF assms(2), of "ws_rows s" j k]
      by (intro exI [of _ "max j k"]) auto
  qed
qed simp

lemma update_pair_mem: "(t, m) \<in> set (AList.update k v l) \<Longrightarrow> (t, m) \<in> set l \<or> (t = k \<and> m = v)"
  by (induction l) (auto split: if_splits)

lemma groups_of_mem:
  assumes "(t, rs) \<in> set (groups_of gs batch)" "r \<in> set rs"
  shows "(t, r) \<in> set batch \<and> t \<in> set TABLE_MODELS \<or> (\<exists>rs'. (t, rs') \<in> set gs \<and> r \<in> set rs')"
  using assms
proof (induction batch arbitrary: gs)
  case (Cons e batch)
  let ?gs = "if fst e \<in> set TABLE_MODELS
     then AList.update (fst e) ((case map_of gs (fst e) of None \<Rightarrow> [] | Some rs \<Rightarrow> rs) @ [snd e]) gs else gs"
  have "(t, rs) \<in> set (groups_of ?gs batch)" using Cons.prems(1) by (simp only: groups_of_def foldl_Cons)
  from Cons.IH [OF this Cons.prems(2)] show ?case
  proof (elim disjE exE conjE)
    fix rs' assume rs': "(t, rs') \<in> set ?gs" "r \<in> set rs'"
    show ?thesis
    proof (cases "(t, rs') \<in> set gs")
      case False
      then have "fst e \<in> set TABLE_MODELS" "t = fst e" "rs' = (case map_of gs (fst e) of None \<Rightarrow> [] | Some rs \<Rightarrow> rs) @ [snd e]"
        using rs'(1) by (auto dest: update_pair_mem split: if_splits)
      then show ?thesis using rs'(2) by (cases e) (auto split: option.splits dest: map_of_SomeD)
    qed (use rs'(2) in blast)
  qed (auto)
qed (auto simp: groups_of_def)

lemma flat_of_mem:
  assumes "e \<in> set (flat_of accepts (groups_of [] batch))"
  shows "e \<in> set batch \<and> fst e \<in> set TABLE_MODELS"
proof -
  obtain t rs where g: "(t, rs) \<in> set (groups_of [] batch)" "e \<in> set (effective accepts t rs)"
    using assms by (auto simp: flat_of_def)
  then obtain r where "r \<in> set rs" "e = (t, r)" by (auto simp: effective_def split: if_splits)
  then show ?thesis using groups_of_mem [OF g(1)] by auto
qed

section \<open>A database that answers\<close>

lemma calm_txn: "ws_answers s = [] \<Longrightarrow> txn_insert accepts t rs s = (s', res) \<Longrightarrow>
    ws_answers s' = [] \<and> (res = Inr () \<or> res = Inl Row_error)"
  by (auto simp: txn_insert_def next_answer_def Let_def split: if_splits)

lemma calm_dead_letter [simp]: "ws_answers s = [] \<Longrightarrow> ws_answers (dead_letter e s) = []"
  by (simp add: dead_letter_def next_answer_def)

lemma calm_rows: "ws_answers s = [] \<Longrightarrow> write_rows_one_by_one accepts t rs s = (s', res) \<Longrightarrow> ws_answers s' = [] \<and> \<not> isl res"
proof (induction rs arbitrary: s s' res)
  case (Cons r rs)
  obtain s1 r1 where t: "txn_insert accepts t [r] s = (s1, r1)" by (cases "txn_insert accepts t [r] s") auto
  have s1: "ws_answers s1 = []" "r1 = Inr () \<or> r1 = Inl Row_error" using calm_txn [OF Cons.prems(1) t] by auto
  obtain s2 r2 where w: "write_rows_one_by_one accepts t rs s1 = (s2, r2)" by (cases "write_rows_one_by_one accepts t rs s1") auto
  obtain s3 r3 where w': "write_rows_one_by_one accepts t rs (dead_letter (t, r) s1) = (s3, r3)"
    by (cases "write_rows_one_by_one accepts t rs (dead_letter (t, r) s1)") auto
  show ?case
    using s1(2) Cons.prems(2) Cons.IH [OF s1(1) w] Cons.IH [OF calm_dead_letter [OF s1(1)] w']
    by (auto simp: t w w' split: sum.splits)
qed auto

lemma calm_tables: "ws_answers s = [] \<Longrightarrow> write_tables accepts gs s = (s', res) \<Longrightarrow> \<not> isl res"
proof (induction gs arbitrary: s s' res)
  case (Cons g gs)
  obtain t rs where g: "g = (t, rs)" by (cases g)
  obtain s1 r1 where t: "txn_insert accepts t rs s = (s1, r1)" by (cases "txn_insert accepts t rs s") auto
  have s1: "ws_answers s1 = []" "r1 = Inr () \<or> r1 = Inl Row_error" using calm_txn [OF Cons.prems(1) t] by auto
  obtain s2 r2 where w: "write_rows_one_by_one accepts t rs s1 = (s2, r2)" by (cases "write_rows_one_by_one accepts t rs s1") auto
  have s2: "ws_answers s2 = []" "\<not> isl r2" using calm_rows [OF s1(1) w] by auto
  obtain n where n: "r2 = Inr n" using s2(2) by (cases r2) auto
  obtain s3 r3 where a: "write_tables accepts gs s1 = (s3, r3)" by (cases "write_tables accepts gs s1") auto
  obtain s4 r4 where b: "write_tables accepts gs s2 = (s4, r4)" by (cases "write_tables accepts gs s2") auto
  show ?case
    using s1(2) Cons.prems(2) Cons.IH [OF s1(1) a] Cons.IH [OF s2(1) b]
    by (auto simp: g t w n a b split: sum.splits)
qed auto

lemma calm_batch_total: "\<not> isl (snd (write_batch accepts batch (s\<lparr>ws_answers := []\<rparr>)))"
proof -
  have a: "ws_answers (fst (foldl sort_event (s, gs) batch)) = []" if "ws_answers s = []" for s gs
    using that
  proof (induction batch arbitrary: s gs)
    case (Cons e batch)
    show ?case
      using Cons.IH [of "fst (sort_event (s, gs) e)" "snd (sort_event (s, gs) e)"] Cons.prems by (simp add: sort_event_def)
  qed simp
  obtain s1 gs where f: "foldl sort_event (s\<lparr>ws_answers := []\<rparr>, []) batch = (s1, gs)"
    by (cases "foldl sort_event (s\<lparr>ws_answers := []\<rparr>, []) batch") auto
  obtain s2 r where w: "write_tables accepts gs s1 = (s2, r)" by (cases "write_tables accepts gs s1") auto
  have "ws_answers s1 = []" using a [of "s\<lparr>ws_answers := []\<rparr>" "[]"] by (simp add: f)
  then show ?thesis using calm_tables [OF _ w] by (simp add: write_batch_def f w)
qed


section \<open>No event is lost unseen\<close>

text \<open>An event is settled when its row or one of the same key is stored, or it is parked, or logged in full.\<close>

definition settled :: "store \<Rightarrow> string \<times> row \<Rightarrow> bool" where
  "settled s e \<longleftrightarrow> e \<in> set (ws_rows s) \<or> present (ws_rows s) e \<or> (take 64 (fst e), snd e) \<in> set (ws_dead s) \<or> e \<in> set (ws_logged s)"

definition grows :: "store \<Rightarrow> store \<Rightarrow> bool" where
  "grows s s' \<longleftrightarrow> set (ws_rows s) \<subseteq> set (ws_rows s') \<and> set (ws_dead s) \<subseteq> set (ws_dead s') \<and> set (ws_logged s) \<subseteq> set (ws_logged s')"

lemma grows_refl [simp]: "grows s s"
  by (simp add: grows_def)

lemma grows_trans [trans]: "grows s1 s2 \<Longrightarrow> grows s2 s3 \<Longrightarrow> grows s1 s3"
  by (auto simp: grows_def)

lemma settled_grows: "settled s e \<Longrightarrow> grows s s' \<Longrightarrow> settled s' e"
  by (auto simp: settled_def grows_def present_def)

lemma dead_letter_settles: "grows s (dead_letter e s) \<and> settled (dead_letter e s) e"
  by (cases "next_answer s") (auto simp: dead_letter_def Let_def grows_def settled_def next_answer_rows split: answer.splits)

lemma txn_insert_grows:
  assumes "txn_insert accepts t rs s = (s', res)"
  shows "grows s s' \<and> (res = Inr () \<longrightarrow> (\<forall>r \<in> set rs. settled s' (t, r)))"
proof -
  have g: "grows s s'"
    using assms insert_rows_keeps [of "ws_rows s" "map (Pair t) rs"]
    by (cases "next_answer s") (auto simp: txn_insert_def Let_def grows_def next_answer_rows split: answer.splits if_splits)
  have "settled s' (t, r)" if "res = Inr ()" "r \<in> set rs" for r
    using txn_insert_cases [OF assms] insert_rows_settles [of "(t, r)" "map (Pair t) rs" "ws_rows s"] that
    by (auto simp: settled_def)
  then show ?thesis using g by blast
qed

lemma one_by_one_settles:
  assumes "write_rows_one_by_one accepts t rs s = (s', res)"
  shows "grows s s' \<and> (\<not> isl res \<longrightarrow> (\<forall>r \<in> set rs. settled s' (t, r)))"
  using assms
proof (induction rs arbitrary: s s' res)
  case (Cons r rs)
  obtain s1 r1 where t: "txn_insert accepts t [r] s = (s1, r1)" by (cases "txn_insert accepts t [r] s") auto
  note g1 = txn_insert_grows [OF t]
  have step: ?case if g: "grows s s2" "settled s2 (t, r)"
    and w: "write_rows_one_by_one accepts t rs s2 = (s', res')" "isl res' = isl res" for s2 res'
    using Cons.IH [OF w(1)] g w(2) grows_trans settled_grows by fastforce
  show ?case
  proof (cases r1)
    case (Inr u)
    obtain s2 r2 where w: "write_rows_one_by_one accepts t rs s1 = (s2, r2)" by (cases "write_rows_one_by_one accepts t rs s1") auto
    have "s' = s2" "isl r2 = isl res" using Cons.prems by (auto simp: t Inr w split: sum.splits)
    then show ?thesis using step [of s1 r2] g1 Inr w by simp
  next
    case (Inl e)
    show ?thesis
    proof (cases "e = Row_error")
      case True
      have "write_rows_one_by_one accepts t rs (dead_letter (t, r) s1) = (s', res)" using Cons.prems by (simp add: t Inl True)
      then show ?thesis using step dead_letter_settles [of s1 "(t, r)"] g1 grows_trans by blast
    next
      case False
      then show ?thesis using Cons.prems g1 by (auto simp: t Inl)
    qed
  qed
qed simp

lemma tables_settle:
  assumes "write_tables accepts gs s = (s', res)"
  shows "grows s s' \<and> (\<not> isl res \<longrightarrow> (\<forall>(t, rs) \<in> set gs. \<forall>r \<in> set rs. settled s' (t, r)))"
  using assms
proof (induction gs arbitrary: s s' res)
  case (Cons g gs)
  obtain t rs where g: "g = (t, rs)" by (cases g)
  obtain s1 r1 where t: "txn_insert accepts t rs s = (s1, r1)" by (cases "txn_insert accepts t rs s") auto
  note g1 = txn_insert_grows [OF t]
  have step: ?case if g: "grows s s2" "\<forall>r \<in> set rs. settled s2 (t, r)"
    and w: "write_tables accepts gs s2 = (s', res')" "isl res' = isl res" for s2 res'
  proof -
    have "grows s2 s'" "\<not> isl res \<Longrightarrow> \<forall>(t, rs) \<in> set gs. \<forall>r \<in> set rs. settled s' (t, r)"
      using Cons.IH [OF w(1)] w(2) by auto
    then show ?thesis using g settled_grows grows_trans \<open>g = (t, rs)\<close> by fastforce
  qed
  show ?case
  proof (cases r1)
    case (Inr u)
    obtain s2 r2 where w: "write_tables accepts gs s1 = (s2, r2)" by (cases "write_tables accepts gs s1") auto
    have "s' = s2" "isl r2 = isl res" using Cons.prems by (auto simp: g t Inr w split: sum.splits)
    then show ?thesis using step [of s1 r2] g1 Inr w by simp
  next
    case (Inl e)
    show ?thesis
    proof (cases "e = Row_error")
      case True
      obtain s2 r2 where o: "write_rows_one_by_one accepts t rs s1 = (s2, r2)" by (cases "write_rows_one_by_one accepts t rs s1") auto
      have g2: "grows s s2" "\<not> isl r2 \<Longrightarrow> \<forall>r \<in> set rs. settled s2 (t, r)"
        using one_by_one_settles [OF o] g1 grows_trans by blast+
      show ?thesis
      proof (cases r2)
        case (Inl e)
        then show ?thesis using Cons.prems g2 by (auto simp: g t \<open>r1 = Inl _\<close> True o)
      next
        case (Inr m)
        obtain s3 r3 where w: "write_tables accepts gs s2 = (s3, r3)" by (cases "write_tables accepts gs s2") auto
        have "s' = s3" "isl r3 = isl res" using Cons.prems by (auto simp: g t Inr \<open>r1 = Inl _\<close> True o w split: sum.splits)
        then show ?thesis using step [of s2 r3] g2 Inr w by simp
      qed
    next
      case False
      then show ?thesis using Cons.prems g1 by (auto simp: g t Inl)
    qed
  qed
qed simp

lemma groups_at:
  assumes "t \<in> set TABLE_MODELS"
  shows "(case map_of (groups_of gs batch) t of None \<Rightarrow> [] | Some rs \<Rightarrow> rs)
    = (case map_of gs t of None \<Rightarrow> [] | Some rs \<Rightarrow> rs) @ map snd (filter (\<lambda>e. fst e = t) batch)"
proof (induction batch arbitrary: gs)
  case (Cons e batch)
  let ?gs = "if fst e \<in> set TABLE_MODELS
     then AList.update (fst e) ((case map_of gs (fst e) of None \<Rightarrow> [] | Some rs \<Rightarrow> rs) @ [snd e]) gs else gs"
  have "groups_of gs (e # batch) = groups_of ?gs batch" by (simp only: groups_of_def foldl_Cons)
  then show ?case using Cons.IH [of ?gs] assms by (auto simp: update_conv' split: option.split)
qed (simp add: groups_of_def)

lemma sort_events_settle:
  "grows s (fst (foldl sort_event (s, gs) batch)) \<and>
   (\<forall>e \<in> set batch. fst e \<notin> set TABLE_MODELS \<longrightarrow> settled (fst (foldl sort_event (s, gs) batch)) e)"
proof (induction batch arbitrary: s gs)
  case (Cons e batch)
  let ?s = "fst (sort_event (s, gs) e)" let ?gs = "snd (sort_event (s, gs) e)"
  have "grows s ?s" "fst e \<notin> set TABLE_MODELS \<Longrightarrow> settled ?s e"
    using dead_letter_settles [of s e] by (auto simp: sort_event_def)
  then show ?case using Cons.IH [of ?s ?gs] grows_trans settled_grows by fastforce
qed simp

lemma batch_settles:
  assumes "write_batch accepts batch s = (s', res)"
  shows "grows s s' \<and> (\<not> isl res \<longrightarrow> (\<forall>e \<in> set batch. settled s' e))"
proof -
  obtain s1 gs where f: "foldl sort_event (s, []) batch = (s1, gs)" by (cases "foldl sort_event (s, []) batch") auto
  have gs: "gs = groups_of [] batch" using sort_events_groups [of s "[]" batch] by (simp add: f)
  have s1: "grows s s1" "\<forall>e \<in> set batch. fst e \<notin> set TABLE_MODELS \<longrightarrow> settled s1 e"
    using sort_events_settle [of s "[]" batch] by (simp_all add: f)
  have w: "write_tables accepts gs s1 = (s', res)" using assms by (simp add: write_batch_def f)
  note ts = tables_settle [OF w]
  have "settled s' e" if "e \<in> set batch" "\<not> isl res" for e
  proof (cases "fst e \<in> set TABLE_MODELS")
    case True
    have "snd e \<in> set (case map_of gs (fst e) of None \<Rightarrow> [] | Some rs \<Rightarrow> rs)"
      using groups_at [OF True, of "[]" batch] that(1) by (force simp: gs)
    then obtain rs where "(fst e, rs) \<in> set gs" "snd e \<in> set rs"
      by (cases "map_of gs (fst e)") (auto dest: map_of_SomeD)
    then show ?thesis using ts that(2) by fastforce
  next
    case False
    then show ?thesis using s1(2) that(1) ts settled_grows by blast
  qed
  then show ?thesis using ts s1(1) grows_trans by blast
qed

lemma retries_settle:
  assumes "retry_loop accepts a n batch s = (s', res)"
  shows "grows s s' \<and> (0 < n \<and> \<not> isl res \<longrightarrow> (\<forall>e \<in> set batch. settled s' e))"
  using assms
proof (induction n arbitrary: a s)
  case (Suc n)
  obtain s1 r1 where w: "write_batch accepts batch s = (s1, r1)" by (cases "write_batch accepts batch s") auto
  note b = batch_settles [OF w]
  show ?case
  proof (cases "r1 = Inl Transient \<and> n \<noteq> 0")
    case False
    then have "s' = s1" "isl res = isl r1" using Suc.prems by (auto simp: w split: sum.splits if_splits)
    then show ?thesis using b by simp
  next
    case True
    let ?s2 = "s1\<lparr>ws_waits := ws_waits s1 @ [2 ^ a]\<rparr>"
    have "retry_loop accepts (Suc a) n batch ?s2 = (s', res)" using Suc.prems True by (simp add: w)
    from Suc.IH [OF this] True b show ?thesis by (auto simp: grows_def)
  qed
qed auto

section \<open>The writer and its queue\<close>

text \<open>
  A frame off the bus, parsed: no data, one that is not an object with a table and a payload,
  or an event. \<open>fromiso\<close> is \<open>datetime.fromisoformat\<close>. The last two fields of the writer are
  bookkeeping of the model: what was accepted, and the batches that were given up.
\<close>

datatype frame = No_data | Malformed | Frame string row

definition DATETIME_FIELDS :: "string list" where
  "DATETIME_FIELDS = [''timestamp'', ''opened_at'', ''closed_at'', ''ts'']"

definition iso_text :: "string \<Rightarrow> string" where
  "iso_text v = (if v \<noteq> [] \<and> v ! (length v - 1) = CHR ''Z''
     then concat (map (\<lambda>c. if c = CHR ''Z'' then ''+00:00'' else [c]) v) else v)"

definition coerce_field :: "(string \<Rightarrow> time option) \<Rightarrow> row \<Rightarrow> string \<Rightarrow> row" where
  "coerce_field fromiso r k =
     (case map_of r k of
        Some (C_str v) \<Rightarrow> (case fromiso (iso_text v) of None \<Rightarrow> r | Some t \<Rightarrow> AList.update k (C_time t) r)
      | _ \<Rightarrow> r)"

definition coerce_datetime_fields :: "(string \<Rightarrow> time option) \<Rightarrow> row \<Rightarrow> row" where
  "coerce_datetime_fields fromiso r = foldl (coerce_field fromiso) r DATETIME_FIELDS"

definition QUEUE_MAX_SIZE :: nat where "QUEUE_MAX_SIZE = 10000"
definition BATCH_SIZE_MAX :: nat where "BATCH_SIZE_MAX = 100"
definition RETRY_ATTEMPTS :: nat where "RETRY_ATTEMPTS = 3"

record writer =
  wr_queue :: "(string \<times> row) list"
  wr_store :: store
  wr_refused :: nat
  wr_accepted :: "(string \<times> row) list"
  wr_dropped :: "(string \<times> row) list"

definition enqueue :: "(string \<Rightarrow> time option) \<Rightarrow> frame \<Rightarrow> writer \<Rightarrow> writer" where
  "enqueue fromiso f w =
     (case f of
        No_data \<Rightarrow> w
      | Malformed \<Rightarrow> w
      | Frame t p \<Rightarrow>
          let e = (t, coerce_datetime_fields fromiso p)
          in if length (wr_queue w) < QUEUE_MAX_SIZE
             then w\<lparr>wr_queue := wr_queue w @ [e], wr_accepted := wr_accepted w @ [e]\<rparr>
             else w\<lparr>wr_refused := wr_refused w + 1\<rparr>)"

text \<open>\<open>n\<close> events arrive before the timeout of the collection.\<close>

definition collect_batch :: "nat \<Rightarrow> (string \<times> row) list \<Rightarrow> (string \<times> row) list \<times> (string \<times> row) list" where
  "collect_batch n q = (take (min n BATCH_SIZE_MAX) q, drop (min n BATCH_SIZE_MAX) q)"

definition write_or_drop :: "(string \<Rightarrow> row list \<Rightarrow> bool) \<Rightarrow> (string \<times> row) list \<Rightarrow> writer \<Rightarrow> writer" where
  "write_or_drop accepts batch w =
     (case write_batch_with_retries accepts RETRY_ATTEMPTS batch (wr_store w) of
        (s, Inr u) \<Rightarrow> w\<lparr>wr_store := s\<rparr>
      | (s, Inl e) \<Rightarrow> w\<lparr>wr_store := s, wr_dropped := wr_dropped w @ batch\<rparr>)"

definition run_cycle :: "(string \<Rightarrow> row list \<Rightarrow> bool) \<Rightarrow> nat \<Rightarrow> writer \<Rightarrow> writer" where
  "run_cycle accepts n w =
     (case collect_batch n (wr_queue w) of (batch, rest) \<Rightarrow>
        if batch = [] then w else write_or_drop accepts batch (w\<lparr>wr_queue := rest\<rparr>))"

function chunks :: "nat \<Rightarrow> 'a list \<Rightarrow> 'a list list" where
  "chunks n xs = (if xs = [] \<or> n = 0 then [] else take n xs # chunks n (drop n xs))"
  by auto
termination by (relation "measure (\<lambda>(n, xs). length xs)") auto

declare chunks.simps [simp del]

text \<open>\<open>n\<close> events are drained before the deadline of the shutdown.\<close>

definition shutdown :: "(string \<Rightarrow> row list \<Rightarrow> bool) \<Rightarrow> nat \<Rightarrow> writer \<Rightarrow> writer" where
  "shutdown accepts n w =
     foldl (\<lambda>w c. write_or_drop accepts c w) (w\<lparr>wr_queue := drop n (wr_queue w)\<rparr>) (chunks BATCH_SIZE_MAX (take n (wr_queue w)))"

datatype writer_event = Got frame | Cycle nat | Stop nat

definition writer_step :: "(string \<Rightarrow> time option) \<Rightarrow> (string \<Rightarrow> row list \<Rightarrow> bool) \<Rightarrow> writer \<Rightarrow> writer_event \<Rightarrow> writer" where
  "writer_step fromiso accepts w ev =
     (case ev of Got f \<Rightarrow> enqueue fromiso f w | Cycle n \<Rightarrow> run_cycle accepts n w | Stop n \<Rightarrow> shutdown accepts n w)"

definition new_writer :: "store \<Rightarrow> writer" where
  "new_writer s = \<lparr>wr_queue = [], wr_store = s, wr_refused = 0, wr_accepted = [], wr_dropped = []\<rparr>"

section \<open>The queue loses nothing\<close>

definition handled :: "writer \<Rightarrow> string \<times> row \<Rightarrow> bool" where
  "handled w e \<longleftrightarrow> settled (wr_store w) e \<or> e \<in> set (wr_dropped w)"

lemma write_or_drop_effect:
  "wr_queue (write_or_drop accepts b w) = wr_queue w \<and> wr_accepted (write_or_drop accepts b w) = wr_accepted w \<and>
   (\<forall>e. handled w e \<or> e \<in> set b \<longrightarrow> handled (write_or_drop accepts b w) e)"
proof -
  obtain s r where w: "write_batch_with_retries accepts RETRY_ATTEMPTS b (wr_store w) = (s, r)"
    by (cases "write_batch_with_retries accepts RETRY_ATTEMPTS b (wr_store w)") auto
  have g: "grows (wr_store w) s" "\<not> isl r \<Longrightarrow> \<forall>e \<in> set b. settled s e"
    using retries_settle [OF w [unfolded write_batch_with_retries_def]] by (simp_all add: RETRY_ATTEMPTS_def)
  show ?thesis using g settled_grows by (cases r) (auto simp: write_or_drop_def w handled_def)
qed

lemma write_chunks_effect:
  "wr_queue (foldl (\<lambda>w c. write_or_drop accepts c w) w cs) = wr_queue w \<and>
   wr_accepted (foldl (\<lambda>w c. write_or_drop accepts c w) w cs) = wr_accepted w \<and>
   (\<forall>e. handled w e \<or> e \<in> set (concat cs) \<longrightarrow> handled (foldl (\<lambda>w c. write_or_drop accepts c w) w cs) e)"
proof (induction cs arbitrary: w)
  case (Cons c cs)
  show ?case using Cons.IH [of "write_or_drop accepts c w"] write_or_drop_effect [of accepts c w] by auto
qed simp

lemma concat_chunks: "0 < n \<Longrightarrow> concat (chunks n xs) = xs"
proof (induction n xs rule: chunks.induct)
  case (1 n xs)
  then show ?case by (subst chunks.simps) auto
qed

lemma chunks_bounded: "c \<in> set (chunks n xs) \<Longrightarrow> c \<noteq> [] \<and> length c \<le> n"
proof (induction n xs rule: chunks.induct)
  case (1 n xs)
  then show ?case by (subst (asm) (2) chunks.simps) (auto split: if_splits)
qed

definition accounted :: "writer \<Rightarrow> bool" where
  "accounted w \<longleftrightarrow> length (wr_queue w) \<le> QUEUE_MAX_SIZE \<and>
     (\<exists>done. wr_accepted w = done @ wr_queue w \<and> (\<forall>e \<in> set done. handled w e))"

lemma enqueue_accounted: "accounted w \<Longrightarrow> accounted (enqueue fromiso f w)"
  by (cases f) (auto simp: enqueue_def accounted_def handled_def Let_def)

lemma handled_queue [simp]: "handled (w\<lparr>wr_queue := q\<rparr>) e = handled w e"
  by (simp add: handled_def)

text \<open>Taking a part off the queue and writing it keeps the account.\<close>

lemma written_accounted:
  assumes "accounted w" "wr_queue w = b @ rest"
    and "wr_queue w' = rest" "wr_accepted w' = wr_accepted w" "\<forall>e. handled w e \<or> e \<in> set b \<longrightarrow> handled w' e"
  shows "accounted w'"
proof -
  obtain settled_so_far where d: "wr_accepted w = settled_so_far @ wr_queue w" "\<forall>e \<in> set settled_so_far. handled w e"
    using assms(1) by (auto simp: accounted_def)
  have "wr_accepted w' = (settled_so_far @ b) @ wr_queue w'" using d assms by simp
  moreover have "\<forall>e \<in> set (settled_so_far @ b). handled w' e" using d(2) assms(5) by auto
  moreover have "length (wr_queue w') \<le> QUEUE_MAX_SIZE" using assms(1-3) by (simp add: accounted_def)
  ultimately show ?thesis unfolding accounted_def by blast
qed

lemma run_cycle_accounted:
  assumes "accounted w"
  shows "accounted (run_cycle accepts n w)"
proof (cases "take (min n BATCH_SIZE_MAX) (wr_queue w) = []")
  case True
  then have "run_cycle accepts n w = w" unfolding run_cycle_def collect_batch_def by (simp only: prod.case if_True simp_thms)
  then show ?thesis using assms by simp
next
  case False
  let ?k = "min n BATCH_SIZE_MAX"
  let ?b = "take ?k (wr_queue w)" let ?w1 = "w\<lparr>wr_queue := drop ?k (wr_queue w)\<rparr>"
  have "run_cycle accepts n w = write_or_drop accepts ?b ?w1"
    unfolding run_cycle_def collect_batch_def by (simp only: prod.case if_False False simp_thms)
  then show ?thesis
    using write_or_drop_effect [of accepts ?b ?w1]
    by (intro written_accounted [OF assms, of ?b "drop ?k (wr_queue w)"]) auto
qed

lemma shutdown_accounted:
  assumes "accounted w"
  shows "accounted (shutdown accepts n w)"
proof -
  let ?w1 = "w\<lparr>wr_queue := drop n (wr_queue w)\<rparr>"
  have "concat (chunks BATCH_SIZE_MAX (take n (wr_queue w))) = take n (wr_queue w)"
    by (rule concat_chunks) (simp add: BATCH_SIZE_MAX_def)
  then show ?thesis
    using write_chunks_effect [of accepts ?w1 "chunks BATCH_SIZE_MAX (take n (wr_queue w))"]
    by (intro written_accounted [OF assms, of "take n (wr_queue w)" "drop n (wr_queue w)"]) (auto simp: shutdown_def)
qed

lemma writer_run_accounted: "accounted w \<Longrightarrow> accounted (foldl (writer_step fromiso accepts) w evs)"
proof (induction evs arbitrary: w)
  case (Cons ev evs)
  have "accounted (writer_step fromiso accepts w ev)"
    using Cons.prems enqueue_accounted run_cycle_accounted shutdown_accounted by (cases ev) (simp_all add: writer_step_def)
  then show ?case using Cons.IH by simp
qed simp

text \<open>
  C23. Nothing accepted disappears: through any sequence of frames, write cycles and shutdowns, and
  whatever the database answers, the queue stays within its bound, events leave it in the order
  they came, and every event that left is stored (or a row of its key is), in the dead letter,
  logged in full, or in a batch that was reported as dropped after all its attempts.
\<close>

theorem writer_accounts_for_all:
  "\<exists>done. wr_accepted (foldl (writer_step fromiso accepts) (new_writer s) evs)
       = done @ wr_queue (foldl (writer_step fromiso accepts) (new_writer s) evs) \<and>
     length (wr_queue (foldl (writer_step fromiso accepts) (new_writer s) evs)) \<le> 10000 \<and>
     (\<forall>e \<in> set done. handled (foldl (writer_step fromiso accepts) (new_writer s) evs) e)"
proof -
  have "accounted (new_writer s)" by (simp add: accounted_def new_writer_def)
  from writer_run_accounted [OF this, of fromiso accepts evs] show ?thesis
    by (auto simp: accounted_def QUEUE_MAX_SIZE_def)
qed

text \<open>The keys of the idempotent tables stay unique.\<close>

definition unique_keys :: "(string \<times> row) list \<Rightarrow> bool" where
  "unique_keys db = sorted_wrt (\<lambda>a b. \<not> (fst a = fst b \<and> conflicts (fst b) (snd b) (snd a))) db"

lemma insert_rows_unique: "unique_keys db \<Longrightarrow> unique_keys (insert_rows db es)"
  by (induction es arbitrary: db)
    (auto simp: insert_rows_def insert_row_def unique_keys_def present_def sorted_wrt_append)

section \<open>Limits of the retries\<close>

text \<open>
  Three attempts wait twice, one and two seconds: the wait of four seconds of the comment is
  never reached. An event of an unknown table is parked again by every attempt. With no
  attempt at all a batch is reported as written.
\<close>

definition surface_row :: row where
  "surface_row = [(''timestamp'', C_time 5), (''underlying'', C_str ''EUR'')]"

definition signal_row :: row where
  "signal_row = [(''symbol'', C_str ''EUR''), (''timestamp'', C_time 5)]"

definition example_batch :: "(string \<times> row) list" where
  "example_batch = [(''vol_surface_history'', surface_row), (''nowhere'', surface_row), (''regime_snapshot_history'', signal_row)]"

definition empty_store :: "answer list \<Rightarrow> store" where
  "empty_store as = \<lparr>ws_rows = [], ws_dead = [], ws_logged = [], ws_waits = [], ws_answers = as\<rparr>"

lemmas writer_eval = write_batch_with_retries_def RETRY_ATTEMPTS_def numeral_3_eq_3 write_batch_def example_batch_def sort_event_def
  TABLE_MODELS_def dead_letter_def next_answer_def empty_store_def txn_insert_def insert_rows_def insert_row_def present_def
  conflicts_def IDEMPOTENT_TABLES_def surface_row_def signal_row_def Let_def

lemma unknown_table_parked_twice:
  "write_batch_with_retries (\<lambda>t rs. True) RETRY_ATTEMPTS example_batch (empty_store [Txn_ok, Txn_ok, Txn_in_doubt])
     = (\<lparr>ws_rows = [(''vol_surface_history'', surface_row), (''regime_snapshot_history'', signal_row)],
         ws_dead = [(''nowhere'', surface_row), (''nowhere'', surface_row)], ws_logged = [], ws_waits = [1], ws_answers = []\<rparr>, Inr ())"
  by (simp add: writer_eval)

lemma three_attempts_two_waits:
  "write_batch_with_retries (\<lambda>t rs. True) RETRY_ATTEMPTS [(''vol_surface_history'', surface_row)]
       (empty_store [Txn_lost, Txn_lost, Txn_lost])
     = (\<lparr>ws_rows = [], ws_dead = [], ws_logged = [], ws_waits = [1, 2], ws_answers = []\<rparr>, Inl Transient)"
  by (simp add: writer_eval)

lemma no_attempt_no_write: "write_batch_with_retries accepts 0 batch s = (s, Inr ())"
  by (simp add: write_batch_with_retries_def)


theorem writer_accounts_for_all_witness:
  "\<exists>done. wr_accepted (foldl (writer_step (\<lambda>v. None) (\<lambda>t rs. True)) (new_writer (empty_store []))
        [Got (Frame ''vol_surface_history'' surface_row), Cycle 1]) = done \<and> length done = 1 \<and>
     (\<forall>e \<in> set done. handled (foldl (writer_step (\<lambda>v. None) (\<lambda>t rs. True)) (new_writer (empty_store []))
        [Got (Frame ''vol_surface_history'' surface_row), Cycle 1]) e)"
proof -
  let ?w = "foldl (writer_step (\<lambda>v. None) (\<lambda>t rs. True)) (new_writer (empty_store [])) [Got (Frame ''vol_surface_history'' surface_row), Cycle 1]"
  have q: "wr_queue ?w = [] \<and> length (wr_accepted ?w) = 1"
    by (simp add: writer_step_def enqueue_def QUEUE_MAX_SIZE_def new_writer_def run_cycle_def collect_batch_def BATCH_SIZE_MAX_def
        write_or_drop_def Let_def split: prod.split sum.split)
  show ?thesis
    using writer_accounts_for_all [of "\<lambda>v. None" "\<lambda>t rs. True" "empty_store []"
        "[Got (Frame ''vol_surface_history'' surface_row), Cycle 1]"] q by force
qed

end
