(* ===== verification/Attribution.thy ===== *)
theory Attribution
  imports Contracts Tenors Units "HOL-Library.Char_ord" "HOL-Library.List_Lexorder"
begin

text \<open>
  P&L attribution (\<open>core/risk/attribution.py\<close>, \<open>persistence/rollups.py\<close>): the Taylor terms of
  each leg over a window, the pivot of the terms by tenor, structure or wing, and the row per
  window the analytics engine stores. The two SQL statements are modelled on the lists of
  positions and of their snapshots; of two snapshots with one time the first is taken.
\<close>

section \<open>The terms of a leg\<close>

record attrib_terms =
  at_actual :: "flt option"
  at_delta :: "flt option"
  at_gamma :: "flt option"
  at_vega :: "flt option"
  at_theta :: "flt option"
  at_residual :: "flt option"

definition no_terms :: attrib_terms where
  "no_terms = \<lparr>at_actual = None, at_delta = None, at_gamma = None, at_vega = None, at_theta = None, at_residual = None\<rparr>"

definition both :: "('a \<Rightarrow> 'b \<Rightarrow> 'c) \<Rightarrow> 'a option \<Rightarrow> 'b option \<Rightarrow> 'c option" where
  "both f a b = (case a of None \<Rightarrow> None | Some x \<Rightarrow> (case b of None \<Rightarrow> None | Some y \<Rightarrow> Some (f x y)))"

definition anchor :: "'a option \<Rightarrow> 'a option \<Rightarrow> 'a option" where
  "anchor at_start current = (case at_start of None \<Rightarrow> current | Some v \<Rightarrow> Some v)"

record taylor_input =
  ti_pnl_now :: "flt option"
  ti_pnl_then :: "flt option"
  ti_spot_now :: "flt option"
  ti_spot_then :: "flt option"
  ti_iv_now :: "flt option"
  ti_iv_then :: "flt option"
  ti_delta :: "flt option"
  ti_gamma :: "flt option"
  ti_vega :: "flt option"
  ti_theta :: "flt option"
  ti_t_then :: "time option"
  ti_delta_then :: "flt option"
  ti_gamma_then :: "flt option"
  ti_vega_then :: "flt option"
  ti_theta_then :: "flt option"
  ti_gamma_scale :: flt

definition taylor_terms :: "time \<Rightarrow> taylor_input \<Rightarrow> attrib_terms" where
  "taylor_terms now t =
     (let actual = both (-) (ti_pnl_now t) (ti_pnl_then t);
          dspot = both (-) (ti_spot_now t) (ti_spot_then t);
          div_pts = both (-) (ti_iv_now t) (ti_iv_then t);
          dt_days = map_option (\<lambda>u. (now - u) / 86400) (ti_t_then t);
          delta_pnl = both (*) (anchor (ti_delta_then t) (ti_delta t)) dspot;
          gamma_pnl = both (\<lambda>g ds. 1 / 2 * g * ti_gamma_scale t * ds * ds) (anchor (ti_gamma_then t) (ti_gamma t)) dspot;
          vega_pnl = both (*) (anchor (ti_vega_then t) (ti_vega t)) div_pts;
          theta_pnl = both (*) (anchor (ti_theta_then t) (ti_theta t)) dt_days;
          explained = both (+) (both (+) (both (+) delta_pnl gamma_pnl) vega_pnl) theta_pnl
      in \<lparr>at_actual = actual, at_delta = delta_pnl, at_gamma = gamma_pnl, at_vega = vega_pnl, at_theta = theta_pnl,
          at_residual = both (-) actual explained\<rparr>)"

definition round_terms :: "attrib_terms \<Rightarrow> attrib_terms" where
  "round_terms a =
     \<lparr>at_actual = map_option (py_round 2) (at_actual a), at_delta = map_option (py_round 2) (at_delta a),
      at_gamma = map_option (py_round 2) (at_gamma a), at_vega = map_option (py_round 2) (at_vega a),
      at_theta = map_option (py_round 2) (at_theta a), at_residual = map_option (py_round 2) (at_residual a)\<rparr>"

definition decompose_row :: "time \<Rightarrow> taylor_input \<Rightarrow> attrib_terms" where
  "decompose_row now t =
     (if at_actual (taylor_terms now t) = None then no_terms else round_terms (taylor_terms now t))"

definition iv_fraction_to_pts :: "flt option \<Rightarrow> flt option" where
  "iv_fraction_to_pts iv = map_option (\<lambda>v. v * 100) iv"

section \<open>The pivot\<close>

record attrib_row =
  ar_id :: int
  ar_source :: string
  ar_structure :: "string option"
  ar_product_label :: "string option"
  ar_side :: "string option"
  ar_tenor :: "string option"
  ar_attrib_tenor :: "string option"
  ar_trade_id :: "int option"
  ar_contract_id :: "int option"
  ar_nominal_eur :: "flt option"
  ar_iv :: "flt option"
  ar_structure_type :: "string option"
  ar_wing :: string
  ar_terms :: attrib_terms

definition filter_source :: "string \<Rightarrow> attrib_row list \<Rightarrow> attrib_row list" where
  "filter_source source rows = (if source = ''all'' then rows else filter (\<lambda>r. ar_source r = source) rows)"

datatype attrib_col = Actual_pnl | Delta_pnl | Gamma_pnl | Vega_pnl | Theta_pnl

definition ATTRIB_TERMS :: "attrib_col list" where "ATTRIB_TERMS = [Delta_pnl, Gamma_pnl, Vega_pnl, Theta_pnl]"

fun col_of :: "attrib_col \<Rightarrow> attrib_terms \<Rightarrow> flt option" where
  "col_of Actual_pnl a = at_actual a"
| "col_of Delta_pnl a = at_delta a"
| "col_of Gamma_pnl a = at_gamma a"
| "col_of Vega_pnl a = at_vega a"
| "col_of Theta_pnl a = at_theta a"

datatype group_key = By_tenor | By_structure | By_wing

definition ATTRIB_TENOR_LADDER :: "string list" where
  "ATTRIB_TENOR_LADDER = [''1M'', ''2M'', ''3M'', ''4M'', ''5M'', ''6M'']"

definition ATTRIB_WING_ORDER :: "string list" where
  "ATTRIB_WING_ORDER = [''Put wing'', ''Body (ATM)'', ''Call wing'', ''Future / delta-1'', ''other'']"

definition group_label :: "group_key \<Rightarrow> attrib_row \<Rightarrow> string" where
  "group_label k r =
     (let v = (case k of By_tenor \<Rightarrow> str_or (ar_attrib_tenor r) | By_structure \<Rightarrow> str_or (ar_structure_type r) | By_wing \<Rightarrow> ar_wing r)
      in if v = [] then ''other'' else v)"

type_synonym bucket = "attrib_col \<Rightarrow> flt option"

definition add_terms :: "attrib_terms \<Rightarrow> bucket \<Rightarrow> bucket" where
  "add_terms a b = (\<lambda>c. case col_of c a of None \<Rightarrow> b c | Some v \<Rightarrow> Some (flt_or0 (b c) + v))"

definition bucket_at :: "(string \<times> bucket) list \<Rightarrow> string \<Rightarrow> bucket" where
  "bucket_at bs l = (case map_of bs l of None \<Rightarrow> (\<lambda>c. None) | Some b \<Rightarrow> b)"

definition add_to_bucket :: "group_key \<Rightarrow> (string \<times> bucket) list \<Rightarrow> attrib_row \<Rightarrow> (string \<times> bucket) list" where
  "add_to_bucket k bs r = AList.update (group_label k r) (add_terms (ar_terms r) (bucket_at bs (group_label k r))) bs"

record attrib_group =
  gr_label :: string
  gr_cols :: bucket
  gr_residual :: "flt option"

definition bucket_residual :: "bucket \<Rightarrow> flt option" where
  "bucket_residual b =
     (case b Actual_pnl of
        None \<Rightarrow> None
      | Some a \<Rightarrow> if list_all (\<lambda>c. b c \<noteq> None) ATTRIB_TERMS then Some (a - sum_list (map (\<lambda>c. flt_or0 (b c)) ATTRIB_TERMS)) else None)"

definition mk_group :: "string \<Rightarrow> bucket \<Rightarrow> attrib_group" where
  "mk_group l b = \<lparr>gr_label = l, gr_cols = (\<lambda>c. map_option (py_round 2) (b c)), gr_residual = map_option (py_round 2) (bucket_residual b)\<rparr>"

definition group_order :: "group_key \<Rightarrow> (string \<times> bucket) list \<Rightarrow> string list" where
  "group_order k bs =
     (let labels = map fst bs;
          head = (case k of
              By_tenor \<Rightarrow> filter (\<lambda>t. t \<in> set labels) ATTRIB_TENOR_LADDER
            | By_wing \<Rightarrow> filter (\<lambda>w. w \<in> set labels) ATTRIB_WING_ORDER
            | By_structure \<Rightarrow> sort_key (\<lambda>g. - \<bar>flt_or0 (bucket_at bs g Actual_pnl)\<bar>) labels)
      in head @ sort (filter (\<lambda>g. g \<notin> set head) labels))"

definition total_of :: "flt option list \<Rightarrow> flt option" where
  "total_of xs = (let vals = List.map_filter (\<lambda>x. x) xs in if vals = [] then None else Some (py_round 2 (sum_list vals)))"

definition attribution_groups :: "group_key \<Rightarrow> attrib_row list \<Rightarrow> attrib_group list \<times> bucket \<times> flt option" where
  "attribution_groups k rows =
     (let bs = foldl (add_to_bucket k) [] rows;
          groups = map (\<lambda>l. mk_group l (bucket_at bs l)) (group_order k bs)
      in (groups, \<lambda>c. total_of (map (\<lambda>g. gr_cols g c) groups), total_of (map gr_residual groups)))"

definition attribution_totals :: "attrib_row list \<Rightarrow> bucket \<times> flt option" where
  "attribution_totals rows =
     (\<lambda>c. total_of (map (\<lambda>r. col_of c (ar_terms r)) rows), total_of (map (\<lambda>r. at_residual (ar_terms r)) rows))"

text \<open>
  A cached candle is its opening time in ms and its close, missing where the field is absent or
  not a number; such candles are passed over.
\<close>

type_synonym candle = "flt option \<times> flt option"

fun later_bar :: "flt \<Rightarrow> (flt \<times> flt) option \<Rightarrow> candle \<Rightarrow> (flt \<times> flt) option" where
  "later_bar cutoff_ms best (Some t, Some c) =
     (if t \<le> cutoff_ms \<and> (case best of None \<Rightarrow> True | Some (bt, bc) \<Rightarrow> bt < t) then Some (t, c) else best)"
| "later_bar cutoff_ms best (None, c) = best"
| "later_bar cutoff_ms best (t, None) = best"

definition spot_at_or_before :: "candle list \<Rightarrow> time \<Rightarrow> flt option" where
  "spot_at_or_before bars cutoff = map_option snd (foldl (later_bar (cutoff * 1000)) None bars)"

datatype attribution_view =
  Pivot_view group_key "attrib_group list" bucket "flt option"
| Legs_view bucket "flt option" "attrib_row list"

definition assemble_attribution :: "attrib_row list \<Rightarrow> string \<Rightarrow> group_key option \<Rightarrow> attribution_view" where
  "assemble_attribution per_position source group_by =
     (let rows = filter_source source per_position
      in case group_by of
           Some k \<Rightarrow> (case attribution_groups k rows of (groups, totals, residual) \<Rightarrow> Pivot_view k groups totals residual)
         | None \<Rightarrow> (case attribution_totals rows of (totals, residual) \<Rightarrow> Legs_view totals residual rows))"

section \<open>The inputs\<close>

record snap =
  sn_time :: time
  sn_pnl :: "flt option"
  sn_spot :: "flt option"
  sn_iv :: "flt option"
  sn_delta :: "flt option"
  sn_gamma :: "flt option"
  sn_vega :: "flt option"
  sn_theta :: "flt option"

definition latest_snap :: "(snap \<Rightarrow> bool) \<Rightarrow> int \<Rightarrow> (int \<times> snap) list \<Rightarrow> snap option" where
  "latest_snap P pid history =
     foldl (\<lambda>best (k, s). if k = pid \<and> P s \<and> (case best of None \<Rightarrow> True | Some b \<Rightarrow> sn_time b < sn_time s) then Some s else best)
       None history"

record live_position =
  lp_id :: int
  lp_structure :: "string option"
  lp_product_label :: "string option"
  lp_side :: "string option"
  lp_tenor :: "string option"
  lp_expiry :: "int option"
  lp_trade_id :: "int option"
  lp_contract_id :: "int option"
  lp_nominal_eur :: "flt option"
  lp_structure_type :: "string option"
  lp_now :: snap

record booked_row =
  bk_id :: int
  bk_state :: string
  bk_product_label :: "string option"
  bk_tenor :: "string option"
  bk_expiry :: "int option"
  bk_structure_type :: "string option"

definition is_euro_future :: "live_position \<Rightarrow> bool" where
  "is_euro_future p = py_startswith (str_or (lp_structure p)) ''6E''"

definition max_by_id :: "live_position list \<Rightarrow> live_position option" where
  "max_by_id ps = foldl (\<lambda>best p. case best of None \<Rightarrow> Some p | Some b \<Rightarrow> if lp_id b < lp_id p then Some p else best) None ps"

definition later_snap :: "snap option \<Rightarrow> snap option \<Rightarrow> snap option" where
  "later_snap best s =
     (case s of None \<Rightarrow> best | Some x \<Rightarrow> (case best of None \<Rightarrow> Some x | Some b \<Rightarrow> if sn_time b < sn_time x then Some x else best))"

definition underlying_forward :: "time \<Rightarrow> live_position list \<Rightarrow> (int \<times> snap) list \<Rightarrow> flt option \<times> flt option" where
  "underlying_forward cutoff ps history =
     (case max_by_id (filter (\<lambda>p. is_euro_future p \<and> sn_spot (lp_now p) \<noteq> None) ps) of
        None \<Rightarrow> (None, None)
      | Some p \<Rightarrow>
          (sn_spot (lp_now p),
           case foldl later_snap None
                  (map (\<lambda>q. latest_snap (\<lambda>s. sn_time s \<le> cutoff \<and> sn_spot s \<noteq> None) (lp_id q) history) (filter is_euro_future ps)) of
             None \<Rightarrow> None
           | Some s \<Rightarrow> sn_spot s))"

definition wing :: "string option \<Rightarrow> flt option \<Rightarrow> string" where
  "wing local_symbol forward =
     (case parse_local_symbol local_symbol of
        None \<Rightarrow> ''other''
      | Some spec \<Rightarrow>
          (case cs_strike spec of
             None \<Rightarrow> ''Future / delta-1''
           | Some k \<Rightarrow>
               if cs_instrument_type spec = FUTURE then ''Future / delta-1''
               else (case forward of
                       None \<Rightarrow> ''other''
                     | Some f \<Rightarrow>
                         if f \<le> 0 then ''other''
                         else let m = k / f - 1
                              in if \<bar>m\<bar> \<le> 5 / 1000 then ''Body (ATM)'' else if m < 0 then ''Put wing'' else ''Call wing'')))"

text \<open>A dollar delta over a spot that is missing or zero is not a delta.\<close>

definition per_spot :: "flt option \<Rightarrow> flt option \<Rightarrow> flt option" where
  "per_spot d spot = (case spot of None \<Rightarrow> None | Some s \<Rightarrow> if s = 0 then None else map_option (\<lambda>v. v / s) d)"

definition snap_field :: "(snap \<Rightarrow> flt option) \<Rightarrow> snap option \<Rightarrow> flt option" where
  "snap_field f s = (case s of None \<Rightarrow> None | Some x \<Rightarrow> f x)"

definition live_is_future :: "live_position \<Rightarrow> bool" where
  "live_is_future p = (py_startswith (py_lower (str_or (lp_product_label p))) ''future'' \<or> is_euro_future p)"

definition live_input :: "flt option \<Rightarrow> flt option \<Rightarrow> live_position \<Rightarrow> snap option \<Rightarrow> taylor_input" where
  "live_input forward forward_then p t1 =
     (let cur = lp_now p; fut = live_is_future p;
          spot_now = (if fut then sn_spot cur else forward);
          spot_then = (if fut then snap_field sn_spot t1 else forward_then);
          flat = (\<lambda>v. if fut then Some 0 else v)
      in \<lparr>ti_pnl_now = sn_pnl cur, ti_pnl_then = snap_field sn_pnl t1, ti_spot_now = spot_now, ti_spot_then = spot_then,
          ti_iv_now = flat (iv_fraction_to_pts (sn_iv cur)), ti_iv_then = flat (iv_fraction_to_pts (snap_field sn_iv t1)),
          ti_delta = per_spot (sn_delta cur) spot_now, ti_gamma = flat (sn_gamma cur), ti_vega = flat (sn_vega cur),
          ti_theta = flat (sn_theta cur), ti_t_then = map_option sn_time t1,
          ti_delta_then = per_spot (snap_field sn_delta t1) spot_then, ti_gamma_then = flat (snap_field sn_gamma t1),
          ti_vega_then = flat (snap_field sn_vega t1), ti_theta_then = flat (snap_field sn_theta t1),
          ti_gamma_scale = (if fut then 1 else 1 / PIP_SIZE)\<rparr>)"

definition live_row :: "time \<Rightarrow> int \<Rightarrow> time \<Rightarrow> flt option \<Rightarrow> flt option \<Rightarrow> (int \<times> snap) list \<Rightarrow> live_position \<Rightarrow> attrib_row" where
  "live_row now today cutoff forward forward_then history p =
     \<lparr>ar_id = lp_id p, ar_source = ''ib_live'', ar_structure = lp_structure p, ar_product_label = lp_product_label p,
      ar_side = lp_side p, ar_tenor = lp_tenor p, ar_attrib_tenor = tenor_bucket_from_expiry (lp_expiry p) today,
      ar_trade_id = lp_trade_id p, ar_contract_id = lp_contract_id p, ar_nominal_eur = lp_nominal_eur p, ar_iv = sn_iv (lp_now p),
      ar_structure_type = lp_structure_type p, ar_wing = wing (lp_structure p) forward,
      ar_terms = decompose_row now (live_input forward forward_then p (latest_snap (\<lambda>s. sn_time s \<le> cutoff) (lp_id p) history))\<rparr>"

definition booked_input :: "snap option \<Rightarrow> snap option \<Rightarrow> taylor_input" where
  "booked_input cur t1 =
     \<lparr>ti_pnl_now = snap_field sn_pnl cur, ti_pnl_then = snap_field sn_pnl t1, ti_spot_now = snap_field sn_spot cur,
      ti_spot_then = snap_field sn_spot t1, ti_iv_now = snap_field sn_iv cur, ti_iv_then = snap_field sn_iv t1,
      ti_delta = snap_field sn_delta cur, ti_gamma = snap_field sn_gamma cur, ti_vega = snap_field sn_vega cur,
      ti_theta = snap_field sn_theta cur, ti_t_then = map_option sn_time t1, ti_delta_then = snap_field sn_delta t1,
      ti_gamma_then = snap_field sn_gamma t1, ti_vega_then = snap_field sn_vega t1, ti_theta_then = snap_field sn_theta t1,
      ti_gamma_scale = 1 / (PIP_SIZE * PIP_SIZE)\<rparr>"

definition booked_attrib_row :: "time \<Rightarrow> int \<Rightarrow> time \<Rightarrow> (int \<times> snap) list \<Rightarrow> booked_row \<Rightarrow> attrib_row" where
  "booked_attrib_row now today cutoff metrics b =
     \<lparr>ar_id = bk_id b, ar_source = ''booked'', ar_structure = None, ar_product_label = bk_product_label b, ar_side = None,
      ar_tenor = bk_tenor b, ar_attrib_tenor = tenor_bucket_from_expiry (bk_expiry b) today, ar_trade_id = None,
      ar_contract_id = None, ar_nominal_eur = None, ar_iv = None, ar_structure_type = bk_structure_type b, ar_wing = ''other'',
      ar_terms = decompose_row now
        (booked_input (latest_snap (\<lambda>s. True) (bk_id b) metrics) (latest_snap (\<lambda>s. sn_time s \<le> cutoff) (bk_id b) metrics))\<rparr>"

record book_view =
  bv_live :: "live_position list"
  bv_live_history :: "(int \<times> snap) list"
  bv_booked :: "booked_row list"
  bv_metrics :: "(int \<times> snap) list"

record attribution_result =
  rs_lookback_hours :: int
  rs_computed_at :: time
  rs_window_start :: time
  rs_forward_source :: string
  rs_per_position :: "attrib_row list"

definition pick_forward :: "(flt option \<times> flt option) option \<Rightarrow> flt option \<times> flt option \<Rightarrow> (flt option \<times> flt option) \<times> string" where
  "pick_forward fallback fwd =
     (case fwd of (f, ft) \<Rightarrow>
        if f \<noteq> None \<and> ft \<noteq> None then ((f, ft), ''future_mark'')
        else (case (case fallback of None \<Rightarrow> (None, None) | Some b \<Rightarrow> b) of (fb, fbt) \<Rightarrow>
          let f1 = anchor f fb; ft1 = anchor ft fbt
          in ((f1, ft1),
              if f1 = None \<or> ft1 = None then ''none''
              else if f = None \<and> fb \<noteq> None \<or> ft = None \<and> fbt \<noteq> None then ''spot_cache'' else ''future_mark'')))"

text \<open>\<open>today_of\<close> is the date of a time, an ordinal.\<close>

definition today_of :: "time \<Rightarrow> int" where "today_of now = \<lfloor>now / 86400\<rfloor>"

definition compute_attribution :: "time \<Rightarrow> int \<Rightarrow> (flt option \<times> flt option) option \<Rightarrow> book_view \<Rightarrow> attribution_result" where
  "compute_attribution now lookback fallback v =
     (let cutoff = now - of_int lookback * 3600
      in case pick_forward fallback (underlying_forward cutoff (bv_live v) (bv_live_history v)) of ((f, ft), src) \<Rightarrow>
           \<lparr>rs_lookback_hours = lookback, rs_computed_at = now, rs_window_start = cutoff, rs_forward_source = src,
            rs_per_position = map (live_row now (today_of now) cutoff f ft (bv_live_history v)) (bv_live v)
              @ map (booked_attrib_row now (today_of now) cutoff (bv_metrics v)) (filter (\<lambda>b. bk_state b = ''open'') (bv_booked v))\<rparr>)"

section \<open>The stored windows\<close>

definition ATTRIBUTION_MAX_AGE_S :: flt where "ATTRIBUTION_MAX_AGE_S = 15 * 60"

definition DEFAULT_LOOKBACKS_H :: "int list" where "DEFAULT_LOOKBACKS_H = [1, 4, 24, 72, 168]"

type_synonym attribution_table = "(int \<times> attribution_result) list"

definition write_attribution_latest :: "attribution_result \<Rightarrow> attribution_table \<Rightarrow> attribution_table" where
  "write_attribution_latest r t =
     AList.update (rs_lookback_hours r) (r\<lparr>rs_forward_source := take 20 (rs_forward_source r)\<rparr>) t"

definition read_attribution_latest :: "int \<Rightarrow> flt \<Rightarrow> time \<Rightarrow> attribution_table \<Rightarrow> attribution_result option" where
  "read_attribution_latest lookback max_age now t =
     (case map_of t lookback of None \<Rightarrow> None | Some r \<Rightarrow> if max_age < now - rs_computed_at r then None else Some r)"

definition refresh_attribution ::
  "time \<Rightarrow> int list \<Rightarrow> (time \<Rightarrow> (flt option \<times> flt option) option) \<Rightarrow> book_view \<Rightarrow> attribution_table \<Rightarrow> attribution_table" where
  "refresh_attribution now lookbacks fallback_for v t =
     foldl (\<lambda>t lb. write_attribution_latest (compute_attribution now lb (fallback_for (now - of_int lb * 3600)) v) t) t lookbacks"

section \<open>The terms add up\<close>

lemma both_Some [simp]: "both f a b = Some z \<longleftrightarrow> (\<exists>x y. a = Some x \<and> b = Some y \<and> z = f x y)"
  by (auto simp: both_def split: option.splits)

lemma cents_close: "\<bar>py_round 2 x - x\<bar> \<le> 1 / 200"
  using py_round_close [of 2 x] by simp

lemma residual_exact:
  assumes "at_residual (taylor_terms now t) = Some r"
  shows "\<exists>a d g v th. at_actual (taylor_terms now t) = Some a \<and> at_delta (taylor_terms now t) = Some d \<and>
    at_gamma (taylor_terms now t) = Some g \<and> at_vega (taylor_terms now t) = Some v \<and> at_theta (taylor_terms now t) = Some th \<and>
    a = d + g + v + th + r"
  using assms by (auto simp: taylor_terms_def Let_def)

lemma terms_give_residual:
  assumes "at_actual (taylor_terms now t) = Some a" "at_delta (taylor_terms now t) = Some d"
    "at_gamma (taylor_terms now t) = Some g" "at_vega (taylor_terms now t) = Some v" "at_theta (taylor_terms now t) = Some th"
  shows "at_residual (taylor_terms now t) = Some (a - (d + g + v + th))"
proof -
  have "at_residual (taylor_terms now t) = both (-) (at_actual (taylor_terms now t))
      (both (+) (both (+) (both (+) (at_delta (taylor_terms now t)) (at_gamma (taylor_terms now t))) (at_vega (taylor_terms now t)))
        (at_theta (taylor_terms now t)))"
    by (simp add: taylor_terms_def Let_def)
  then show ?thesis unfolding assms by (simp add: both_def)
qed

text \<open>
  The decomposition of a leg foots: a residual is reported exactly when the actual P&L and all
  four terms are, and then actual and terms plus residual differ by the rounding of the six
  numbers to cents only; a leg whose P&L over the window cannot be measured gets no term at all.
\<close>

theorem decomposition_foots:
  "(at_residual (decompose_row now t) \<noteq> None \<longleftrightarrow>
     at_actual (decompose_row now t) \<noteq> None \<and> (\<forall>c \<in> set ATTRIB_TERMS. col_of c (decompose_row now t) \<noteq> None)) \<and>
   (at_actual (decompose_row now t) = None \<longrightarrow> decompose_row now t = no_terms) \<and>
   (\<forall>r. at_residual (decompose_row now t) = Some r \<longrightarrow>
      \<bar>flt_or0 (at_actual (decompose_row now t)) - (sum_list (map (\<lambda>c. flt_or0 (col_of c (decompose_row now t))) ATTRIB_TERMS) + r)\<bar> \<le> 3 / 100)"
proof (cases "at_actual (taylor_terms now t)")
  case None
  then show ?thesis by (simp add: decompose_row_def no_terms_def ATTRIB_TERMS_def)
next
  case (Some a)
  let ?t = "taylor_terms now t"
  have d: "decompose_row now t = round_terms ?t" using Some by (simp add: decompose_row_def)
  have foot: "\<bar>py_round 2 a - (py_round 2 d + (py_round 2 g + (py_round 2 v + py_round 2 th)) + py_round 2 r)\<bar> \<le> 3 / 100"
    if "a = d + g + v + th + r" for d g v th r
    using that cents_close [of a] cents_close [of d] cents_close [of g] cents_close [of v] cents_close [of th] cents_close [of r]
    by linarith
  have iff: "at_residual ?t \<noteq> None \<longleftrightarrow> at_delta ?t \<noteq> None \<and> at_gamma ?t \<noteq> None \<and> at_vega ?t \<noteq> None \<and> at_theta ?t \<noteq> None"
    using terms_give_residual [OF Some] residual_exact [of now t] by blast
  have "\<bar>flt_or0 (at_actual (round_terms ?t)) - (sum_list (map (\<lambda>c. flt_or0 (col_of c (round_terms ?t))) ATTRIB_TERMS) + r)\<bar> \<le> 3 / 100"
    if r: "at_residual (round_terms ?t) = Some r" for r
  proof -
    obtain r0 where r0: "at_residual ?t = Some r0" "r = py_round 2 r0" using r by (auto simp: round_terms_def)
    obtain a' d g v th where e: "at_actual ?t = Some a'" "at_delta ?t = Some d" "at_gamma ?t = Some g" "at_vega ?t = Some v"
      "at_theta ?t = Some th" "a' = d + g + v + th + r0" using residual_exact [OF r0(1)] by blast
    then have "a = d + g + v + th + r0" using Some by simp
    then show ?thesis using foot e Some by (simp add: round_terms_def ATTRIB_TERMS_def r0(2))
  qed
  then show ?thesis using iff Some by (auto simp: d round_terms_def ATTRIB_TERMS_def)
qed

section \<open>The pivot partitions the legs\<close>

definition measured :: "attrib_col \<Rightarrow> attrib_row list \<Rightarrow> flt list" where
  "measured c rows = List.map_filter (\<lambda>r. col_of c (ar_terms r)) rows"

definition sum_measured :: "attrib_col \<Rightarrow> attrib_row list \<Rightarrow> flt option" where
  "sum_measured c rows = (if measured c rows = [] then None else Some (sum_list (measured c rows)))"

lemma measured_simps [simp]:
  "measured c [] = []"
  "measured c (rs @ [r]) = measured c rs @ (case col_of c (ar_terms r) of None \<Rightarrow> [] | Some v \<Rightarrow> [v])"
  by (simp_all add: measured_def map_filter_append List.map_filter_simps split: option.split)

lemma add_terms_sum:
  "add_terms (ar_terms r) (\<lambda>c. sum_measured c rs) = (\<lambda>c. sum_measured c (rs @ [r]))"
  by (rule ext) (auto simp: add_terms_def sum_measured_def split: option.split)

abbreviation buckets_of :: "group_key \<Rightarrow> attrib_row list \<Rightarrow> (string \<times> bucket) list" where
  "buckets_of k rows \<equiv> foldl (add_to_bucket k) [] rows"

lemma bucket_at_update: "bucket_at (AList.update l b bs) l' = (if l' = l then b else bucket_at bs l')"
  by (simp add: bucket_at_def update_conv')

lemma add_to_bucket_at:
  "bucket_at (add_to_bucket k bs r) l =
     (if l = group_label k r then add_terms (ar_terms r) (bucket_at bs l) else bucket_at bs l)"
  by (simp add: add_to_bucket_def bucket_at_update)

lemma bucket_sums:
  "bucket_at (buckets_of k rows) l = (\<lambda>c. sum_measured c (filter (\<lambda>r. group_label k r = l) rows))"
proof (induction rows arbitrary: l rule: rev_induct)
  case Nil
  then show ?case by (simp add: bucket_at_def sum_measured_def)
next
  case (snoc r rows)
  then show ?case by (auto simp: add_to_bucket_at add_terms_sum)
qed

lemma bucket_labels:
  "distinct (map fst (buckets_of k rows)) \<and> set (map fst (buckets_of k rows)) = group_label k ` set rows"
  by (induction rows rule: rev_induct) (auto simp: add_to_bucket_def distinct_update dom_update)

lemma ladders_distinct: "distinct ATTRIB_TENOR_LADDER" "distinct ATTRIB_WING_ORDER"
  by (simp_all add: ATTRIB_TENOR_LADDER_def ATTRIB_WING_ORDER_def)

lemma group_order_labels:
  assumes "distinct (map fst bs)"
  shows "distinct (group_order k bs) \<and> set (group_order k bs) = set (map fst bs)"
  using assms ladders_distinct by (cases k) (auto simp: group_order_def Let_def)

lemma sum_list_single: "distinct ls \<Longrightarrow> sum_list (map (\<lambda>l. if a = l then x else (0::flt)) ls) = (if a \<in> set ls then x else 0)"
  by (induction ls) auto

lemma sum_over_labels:
  fixes f :: "attrib_row \<Rightarrow> flt"
  assumes "distinct ls" "lab ` set rows \<subseteq> set ls"
  shows "sum_list (map (\<lambda>l. sum_list (map f (filter (\<lambda>r. lab r = l) rows))) ls) = sum_list (map f rows)"
  using assms(2)
proof (induction rows)
  case (Cons r rows)
  have one: "sum_list (map (\<lambda>l. if lab r = l then x else (0::flt)) ls) = x" for x
    using Cons.prems by (simp add: sum_list_single [OF assms(1)])
  have "sum_list (map (\<lambda>l. sum_list (map f (filter (\<lambda>r. lab r = l) (r # rows)))) ls)
      = sum_list (map (\<lambda>l. (if lab r = l then f r else 0) + sum_list (map f (filter (\<lambda>r. lab r = l) rows))) ls)"
    by (rule arg_cong [of _ _ sum_list], rule map_cong) auto
  then show ?case using Cons one [of "f r"] by (simp add: sum_list_addf)
qed simp

lemma sum_measured_or0: "flt_or0 (sum_measured c rows) = sum_list (map (\<lambda>r. flt_or0 (col_of c (ar_terms r))) rows)"
proof -
  have "sum_list (measured c rows) = sum_list (map (\<lambda>r. flt_or0 (col_of c (ar_terms r))) rows)"
    by (induction rows rule: rev_induct) (auto split: option.split)
  then show ?thesis by (auto simp: sum_measured_def)
qed

text \<open>A total of rounded parts is within half a cent per part, and half a cent, of the parts.\<close>

lemma total_close:
  "\<bar>flt_or0 (total_of (map (map_option (py_round 2)) xs)) - sum_list (map flt_or0 xs)\<bar> \<le> (real (length xs) + 1) / 200"
proof -
  let ?ys = "map (map_option (py_round 2)) xs"
  have parts: "\<bar>sum_list (map flt_or0 ?ys) - sum_list (map flt_or0 xs)\<bar> \<le> real (length xs) / 200"
  proof (induction xs)
    case (Cons x xs)
    have "\<bar>flt_or0 (map_option (py_round 2) x) - flt_or0 x\<bar> \<le> 1 / 200" using cents_close by (cases x) auto
    then show ?case using Cons.IH unfolding abs_le_iff by (simp add: add_divide_distrib)
  qed simp
  have vals: "sum_list (List.map_filter (\<lambda>x. x) ys) = sum_list (map flt_or0 ys)" for ys :: "flt option list"
    by (induction ys) (auto simp: List.map_filter_simps split: option.split)
  have empty: "sum_list (map flt_or0 ys) = 0" if "List.map_filter (\<lambda>x. x) ys = []" for ys :: "flt option list"
    using vals [of ys] that by simp
  have "\<bar>flt_or0 (total_of ?ys) - sum_list (map flt_or0 ?ys)\<bar> \<le> 1 / 200"
    using cents_close [of "sum_list (map flt_or0 ?ys)"] empty [of ?ys] by (auto simp: total_of_def Let_def vals)
  then show ?thesis using parts unfolding abs_le_iff by (simp add: add_divide_distrib)
qed

text \<open>
  C34. The pivot neither loses nor doubles a leg: each label of the book has exactly one group; a
  column of a group is the rounded sum over the legs of its label that carry the term, and empty
  when none does; the totals agree with the sum over all legs up to the rounding of the groups.
\<close>

theorem groups_partition_legs:
  assumes "attribution_groups k rows = (groups, totals, residual)"
  shows "distinct (map gr_label groups) \<and> set (map gr_label groups) = group_label k ` set rows \<and>
    (\<forall>g \<in> set groups. \<forall>c. gr_cols g c = map_option (py_round 2) (sum_measured c (filter (\<lambda>r. group_label k r = gr_label g) rows))) \<and>
    (\<forall>c. \<bar>flt_or0 (totals c) - sum_list (map (\<lambda>r. flt_or0 (col_of c (ar_terms r))) rows)\<bar> \<le> (real (length groups) + 1) / 200)"
proof -
  let ?bs = "buckets_of k rows" let ?ls = "group_order k ?bs"
  let ?cell = "\<lambda>c l. sum_measured c (filter (\<lambda>r. group_label k r = l) rows)"
  have ls: "distinct ?ls" "set ?ls = group_label k ` set rows"
    using group_order_labels [of ?bs k] bucket_labels [of k rows] by auto
  have gs: "groups = map (\<lambda>l. mk_group l (bucket_at ?bs l)) ?ls" and ts: "totals c = total_of (map (\<lambda>g. gr_cols g c) groups)" for c
    using assms by (auto simp: attribution_groups_def Let_def)
  have labels: "map gr_label groups = ?ls" by (simp add: gs mk_group_def comp_def)
  have cols: "gr_cols (mk_group l (bucket_at ?bs l)) c = map_option (py_round 2) (?cell c l)" for l c
    by (simp add: mk_group_def bucket_sums)
  have total: "\<bar>flt_or0 (totals c) - sum_list (map (\<lambda>r. flt_or0 (col_of c (ar_terms r))) rows)\<bar> \<le> (real (length groups) + 1) / 200" for c
  proof -
    have "totals c = total_of (map (map_option (py_round 2)) (map (?cell c) ?ls))"
      by (simp add: ts gs cols comp_def)
    moreover have "sum_list (map flt_or0 (map (?cell c) ?ls)) = sum_list (map (\<lambda>r. flt_or0 (col_of c (ar_terms r))) rows)"
      unfolding map_map comp_def sum_measured_or0 by (rule sum_over_labels) (use ls in auto)
    moreover have "length groups = length (map (?cell c) ?ls)" by (simp add: gs)
    ultimately show ?thesis using total_close [of "map (?cell c) ?ls"] by presburger
  qed
  have "\<forall>g \<in> set groups. \<forall>c. gr_cols g c = map_option (py_round 2) (?cell c (gr_label g))"
    using cols by (auto simp: gs) (simp add: mk_group_def)
  then show ?thesis using ls labels total by simp
qed

definition leg_with :: "string \<Rightarrow> flt option \<Rightarrow> flt option \<Rightarrow> flt option \<Rightarrow> attrib_row" where
  "leg_with w actual delta vega =
     \<lparr>ar_id = 0, ar_source = ''ib_live'', ar_structure = None, ar_product_label = None, ar_side = None, ar_tenor = None,
      ar_attrib_tenor = None, ar_trade_id = None, ar_contract_id = None, ar_nominal_eur = None, ar_iv = None,
      ar_structure_type = None, ar_wing = w,
      ar_terms = \<lparr>at_actual = actual, at_delta = delta, at_gamma = Some 0, at_vega = vega, at_theta = Some 0, at_residual = None\<rparr>\<rparr>"

text \<open>
  A group keeps a residual as soon as one of its legs carries each term: the whole move of a leg
  whose vega term is unknown is then reported as unexplained.
\<close>

definition half_measured :: "attrib_row list" where
  "half_measured = [leg_with ''Call wing'' (Some 10) (Some 4) (Some 6), leg_with ''Call wing'' (Some 7) (Some 0) None]"

lemma residual_absorbs_missing_term:
  "map gr_residual (fst (attribution_groups By_wing half_measured)) = [Some 7]"
  using round_half_even_of_int [of 700]
  by (simp add: attribution_groups_def half_measured_def leg_with_def add_to_bucket_def group_label_def bucket_at_def
      group_order_def ATTRIB_WING_ORDER_def mk_group_def bucket_residual_def ATTRIB_TERMS_def add_terms_def Let_def py_round_def)

theorem groups_partition_legs_witness:
  "map gr_label (fst (attribution_groups By_wing half_measured)) = [''Call wing''] \<and>
   gr_cols (hd (fst (attribution_groups By_wing half_measured))) Actual_pnl = Some 17"
proof -
  obtain groups totals residual where e: "attribution_groups By_wing half_measured = (groups, totals, residual)"
    by (cases "attribution_groups By_wing half_measured") auto
  note p = groups_partition_legs [OF e]
  have l: "group_label By_wing ` set half_measured = {''Call wing''}"
    by (simp add: half_measured_def leg_with_def group_label_def)
  have d: "distinct (map gr_label groups)" "set (map gr_label groups) = {''Call wing''}"
    using conjunct1 [OF p] conjunct1 [OF conjunct2 [OF p]] unfolding l by blast+
  have "length (map gr_label groups) = card {''Call wing''}" using distinct_card [OF d(1)] unfolding d(2) by simp
  then have "length groups = 1" by simp
  then obtain g where g: "groups = [g]" by (cases groups) auto
  have lab: "gr_label g = ''Call wing''" using d(2) g by simp
  have "gr_cols g Actual_pnl = map_option (py_round 2)
      (sum_measured Actual_pnl (filter (\<lambda>r. group_label By_wing r = gr_label g) half_measured))"
    using conjunct1 [OF conjunct2 [OF conjunct2 [OF p]]] unfolding g by (meson list.set_intros(1))
  also have "\<dots> = Some 17" using round_half_even_of_int [of 1700]
    by (simp add: lab half_measured_def leg_with_def group_label_def sum_measured_def measured_def List.map_filter_simps py_round_def)
  finally show ?thesis using lab by (simp add: e g)
qed

definition example_taylor :: taylor_input where
  "example_taylor = \<lparr>ti_pnl_now = Some 10, ti_pnl_then = Some 2, ti_spot_now = Some 3, ti_spot_then = Some 1,
     ti_iv_now = Some 5, ti_iv_then = Some 4, ti_delta = None, ti_gamma = Some 1, ti_vega = Some 2, ti_theta = Some 1,
     ti_t_then = Some 0, ti_delta_then = Some 1, ti_gamma_then = None, ti_vega_then = None, ti_theta_then = None, ti_gamma_scale = 1\<rparr>"

theorem decomposition_foots_witness:
  "\<exists>r. at_residual (decompose_row 86400 example_taylor) = Some r \<and>
     \<bar>flt_or0 (at_actual (decompose_row 86400 example_taylor))
       - (sum_list (map (\<lambda>c. flt_or0 (col_of c (decompose_row 86400 example_taylor))) ATTRIB_TERMS) + r)\<bar> \<le> 3 / 100"
proof -
  have "at_actual (decompose_row 86400 example_taylor) \<noteq> None \<and>
      (\<forall>c \<in> set ATTRIB_TERMS. col_of c (decompose_row 86400 example_taylor) \<noteq> None)"
    by (simp add: decompose_row_def taylor_terms_def example_taylor_def anchor_def both_def round_terms_def ATTRIB_TERMS_def Let_def)
  then show ?thesis using decomposition_foots [of 86400 example_taylor] by blast
qed

section \<open>The stored windows\<close>

lemma pick_forward_short: "length (snd (pick_forward fallback fwd)) \<le> 20"
  by (auto simp: pick_forward_def Let_def split: prod.split)

lemma compute_attribution_sel [simp]:
  "rs_lookback_hours (compute_attribution now lb fb v) = lb" "rs_computed_at (compute_attribution now lb fb v) = now"
  "take 20 (rs_forward_source (compute_attribution now lb fb v)) = rs_forward_source (compute_attribution now lb fb v)"
  using pick_forward_short [of fb "underlying_forward (now - of_int lb * 3600) (bv_live v) (bv_live_history v)"]
  by (auto simp: compute_attribution_def Let_def split: prod.split)

lemma refresh_at:
  "map_of (refresh_attribution now lbs fbs v t) lb =
     (if lb \<in> set lbs then Some (compute_attribution now lb (fbs (now - of_int lb * 3600)) v) else map_of t lb)"
proof (induction lbs rule: rev_induct)
  case (snoc l lbs)
  have id: "r\<lparr>rs_forward_source := rs_forward_source r\<rparr> = r" for r :: attribution_result by simp
  have "refresh_attribution now (lbs @ [l]) fbs v t =
      AList.update l (compute_attribution now l (fbs (now - of_int l * 3600)) v) (refresh_attribution now lbs fbs v t)"
    by (simp add: refresh_attribution_def write_attribution_latest_def id)
  then show ?case using snoc by (auto simp: update_conv')
qed (simp add: refresh_attribution_def)

text \<open>
  What the engine stores is what the api reads: after a refresh, and until the row is a quarter
  of an hour old, the stored window of every lookback is the attribution computed at the refresh;
  after that it reads as missing.
\<close>

theorem attribution_read_back:
  assumes "lb \<in> set lookbacks"
  shows "read_attribution_latest lb ATTRIBUTION_MAX_AGE_S later (refresh_attribution now lookbacks fallback_for v t)
    = (if later - now \<le> 900 then Some (compute_attribution now lb (fallback_for (now - of_int lb * 3600)) v) else None)"
  using assms by (simp add: read_attribution_latest_def refresh_at ATTRIBUTION_MAX_AGE_S_def)

theorem attribution_read_back_witness:
  "read_attribution_latest 24 ATTRIBUTION_MAX_AGE_S 1000 (refresh_attribution 0 DEFAULT_LOOKBACKS_H (\<lambda>c. None)
     \<lparr>bv_live = [], bv_live_history = [], bv_booked = [], bv_metrics = []\<rparr> []) = None"
proof -
  have "24 \<in> set DEFAULT_LOOKBACKS_H" by (simp add: DEFAULT_LOOKBACKS_H_def)
  from attribution_read_back [OF this] show ?thesis by simp
qed

text \<open>The fallback spot is the close of the last candle that opened by the cutoff, whatever the order of the candles.\<close>

lemma later_bar_spec:
  assumes "foldl (later_bar m) best bars = Some (t, c)"
  shows "(best = Some (t, c) \<or> (Some t, Some c) \<in> set bars \<and> t \<le> m)
    \<and> (\<forall>t' c'. (Some t', Some c') \<in> set bars \<longrightarrow> t' \<le> m \<longrightarrow> t' \<le> t) \<and> (\<forall>t' c'. best = Some (t', c') \<longrightarrow> t' \<le> t)"
  using assms
proof (induction bars arbitrary: best)
  case (Cons b bs)
  from Cons.IH [of "later_bar m best b"] Cons.prems show ?case
    by (cases "(m, best, b)" rule: later_bar.cases) (auto split: if_splits option.splits prod.splits; force)+
qed auto

lemma later_bar_none: "foldl (later_bar m) best bars = None \<longleftrightarrow> best = None \<and> (\<forall>t c. (Some t, Some c) \<in> set bars \<longrightarrow> m < t)"
proof (induction bars arbitrary: best)
  case (Cons b bs)
  show ?case
    using Cons.IH [of "later_bar m best b"]
    by (cases "(m, best, b)" rule: later_bar.cases) (auto split: if_splits option.splits prod.splits)
qed simp

lemma spot_before_latest:
  "spot_at_or_before bars cutoff = Some c \<Longrightarrow>
     \<exists>t. (Some t, Some c) \<in> set bars \<and> t \<le> cutoff * 1000 \<and> (\<forall>t' c'. (Some t', Some c') \<in> set bars \<longrightarrow> t' \<le> cutoff * 1000 \<longrightarrow> t' \<le> t)"
  unfolding spot_at_or_before_def by (auto dest: later_bar_spec)

end
