(* ===== verification/Daily_Rollup.thy ===== *)
theory Daily_Rollup
  imports Prelude
begin

text \<open>
  The daily net-liquidation series (\<open>persistence/rollups.py\<close>): one row per UTC day that has
  account samples, refreshed for a rolling window by the analytics engine. A day is the number
  of its date since the epoch, a time is in seconds. The two ways of reading the samples of a
  window, the SQL of PostgreSQL and the fold used on SQLite, are both modelled.
\<close>

type_synonym day = int

definition day_of :: "time \<Rightarrow> day" where "day_of t = \<lfloor>t / 86400\<rfloor>"

type_synonym sample = "time \<times> flt option"

record day_sample =
  ds_day :: day
  ds_open :: flt
  ds_first_at :: time
  ds_close :: flt
  ds_last_at :: time
  ds_n :: int

section \<open>The samples of a window\<close>

text \<open>The samples with a value, oldest first.\<close>

definition window_samples :: "day \<Rightarrow> day \<Rightarrow> sample list \<Rightarrow> (time \<times> flt) list" where
  "window_samples lo hi history =
     sort_key fst (List.map_filter (\<lambda>(t, v). case v of None \<Rightarrow> None | Some x \<Rightarrow> if lo \<le> day_of t \<and> day_of t \<le> hi then Some (t, x) else None) history)"

definition add_day_sample :: "(day \<times> day_sample) list \<Rightarrow> time \<times> flt \<Rightarrow> (day \<times> day_sample) list" where
  "add_day_sample by_day s =
     (case s of (t, v) \<Rightarrow>
        let d = (case map_of by_day (day_of t) of
                   None \<Rightarrow> \<lparr>ds_day = day_of t, ds_open = v, ds_first_at = t, ds_close = v, ds_last_at = t, ds_n = 0\<rparr>
                 | Some d \<Rightarrow> d)
        in AList.update (day_of t) (d\<lparr>ds_close := v, ds_last_at := t, ds_n := ds_n d + 1\<rparr>) by_day)"

definition daily_samples_portable :: "sample list \<Rightarrow> day \<Rightarrow> day \<Rightarrow> day_sample list" where
  "daily_samples_portable history lo hi =
     (let by_day = foldl add_day_sample [] (window_samples lo hi history)
      in List.map_filter (map_of by_day) (sort (map fst by_day)))"

text \<open>\<open>ORDER BY timestamp ASC / DESC LIMIT 1\<close> over the samples of the day, and their count.\<close>

fun earliest :: "(time \<times> flt) list \<Rightarrow> (time \<times> flt) option" where
  "earliest [] = None"
| "earliest (x # xs) = (case earliest xs of None \<Rightarrow> Some x | Some y \<Rightarrow> Some (if fst y < fst x then y else x))"

fun latest_of :: "(time \<times> flt) list \<Rightarrow> (time \<times> flt) option" where
  "latest_of [] = None"
| "latest_of (x # xs) = (case latest_of xs of None \<Rightarrow> Some x | Some y \<Rightarrow> Some (if fst x < fst y then y else x))"

definition day_values :: "sample list \<Rightarrow> day \<Rightarrow> (time \<times> flt) list" where
  "day_values history d =
     List.map_filter (\<lambda>(t, v). case v of None \<Rightarrow> None | Some x \<Rightarrow> if day_of t = d then Some (t, x) else None) history"

definition day_sample_pg :: "sample list \<Rightarrow> day \<Rightarrow> day_sample option" where
  "day_sample_pg history d =
     (let vs = day_values history d
      in case earliest vs of None \<Rightarrow> None
         | Some a \<Rightarrow> (case latest_of vs of None \<Rightarrow> None
             | Some z \<Rightarrow> Some \<lparr>ds_day = d, ds_open = snd a, ds_first_at = fst a, ds_close = snd z, ds_last_at = fst z, ds_n = int (length vs)\<rparr>))"

definition daily_samples_pg :: "sample list \<Rightarrow> day \<Rightarrow> day \<Rightarrow> day_sample list" where
  "daily_samples_pg history lo hi = List.map_filter (day_sample_pg history) [lo..hi]"

definition realized_by_day :: "(time \<times> flt) list \<Rightarrow> day \<Rightarrow> day \<Rightarrow> (day \<times> flt \<times> int) list" where
  "realized_by_day closes lo hi =
     foldl (\<lambda>out (t, pnl).
              case (case map_of out (day_of t) of None \<Rightarrow> (0, 0) | Some p \<Rightarrow> p) of (acc, n) \<Rightarrow>
                AList.update (day_of t) (acc + pnl, n + 1) out)
       [] (filter (\<lambda>(t, pnl). lo \<le> day_of t \<and> day_of t \<le> hi) closes)"

section \<open>The table\<close>

record daily_row =
  dr_open :: flt
  dr_close :: flt
  dr_mtm :: "flt option"
  dr_realized :: flt
  dr_n_closed :: int
  dr_n_samples :: int
  dr_first_at :: time
  dr_last_at :: time
  dr_computed_at :: time

type_synonym daily_table = "(day \<times> daily_row) list"

definition by_date :: "daily_table \<Rightarrow> daily_table" where
  "by_date t = sort_key fst t"

definition last_before :: "day \<Rightarrow> daily_table \<Rightarrow> (day \<times> daily_row) option" where
  "last_before d t = (case rev (filter (\<lambda>x. fst x < d) (by_date t)) of [] \<Rightarrow> None | x # xs \<Rightarrow> Some x)"

fun daily_rows :: "time \<Rightarrow> (day \<times> flt \<times> int) list \<Rightarrow> flt option \<Rightarrow> day_sample list \<Rightarrow> daily_table" where
  "daily_rows now realized prev_close [] = []"
| "daily_rows now realized prev_close (s # ss) =
     (case (case map_of realized (ds_day s) of None \<Rightarrow> (0, 0) | Some p \<Rightarrow> p) of (r_usd, n_closed) \<Rightarrow>
        (ds_day s, \<lparr>dr_open = ds_open s, dr_close = ds_close s, dr_mtm = map_option (\<lambda>p. ds_close s - p) prev_close,
           dr_realized = py_round 2 r_usd, dr_n_closed = n_closed, dr_n_samples = ds_n s, dr_first_at = ds_first_at s,
           dr_last_at = ds_last_at s, dr_computed_at = now\<rparr>)
        # daily_rows now realized (Some (ds_close s)) ss)"

definition upsert_daily :: "daily_table \<Rightarrow> daily_table \<Rightarrow> daily_table" where
  "upsert_daily rows t = foldl (\<lambda>t (d, r). AList.update d r t) t rows"

definition BACKFILL_DAYS :: int where "BACKFILL_DAYS = 400"
definition ROLLING_DAYS :: int where "ROLLING_DAYS = 3"

definition refresh_portfolio_daily :: "int option \<Rightarrow> time \<Rightarrow> sample list \<Rightarrow> (time \<times> flt) list \<Rightarrow> daily_table \<Rightarrow> daily_table" where
  "refresh_portfolio_daily days now history closes t =
     (let today = day_of now;
          n = (case days of Some k \<Rightarrow> k | None \<Rightarrow> if t \<noteq> [] then ROLLING_DAYS else BACKFILL_DAYS);
          start = today - (n - 1);
          samples = daily_samples_pg history start today
      in if samples = [] then t
         else upsert_daily
                (daily_rows now (realized_by_day closes start today) (map_option (\<lambda>x. dr_close (snd x)) (last_before start t)) samples) t)"

definition read_portfolio_daily :: "time \<Rightarrow> int \<Rightarrow> daily_table \<Rightarrow> daily_table" where
  "read_portfolio_daily now days t = filter (\<lambda>x. day_of now - (days - 1) \<le> fst x) (by_date t)"

definition read_nav_series :: "time \<Rightarrow> int \<Rightarrow> daily_table \<Rightarrow> (day \<times> flt) list \<times> time option" where
  "read_nav_series now days t =
     (let rows = read_portfolio_daily now days t
      in (map (\<lambda>(d, r). (d, dr_close r)) rows, if rows = [] then None else Some (Max (set (map (\<lambda>(d, r). dr_computed_at r) rows)))))"

definition read_close_before :: "time \<Rightarrow> daily_table \<Rightarrow> (day \<times> daily_row) option" where
  "read_close_before cutoff t = last_before (day_of cutoff) t"

section \<open>The two readings agree\<close>

lemma earliest_None [simp]: "earliest xs = None \<longleftrightarrow> xs = []"
  by (cases xs) (auto split: option.splits)

lemma latest_None [simp]: "latest_of xs = None \<longleftrightarrow> xs = []"
  by (cases xs) (auto split: option.splits)

lemma earliest_in: "earliest xs = Some x \<Longrightarrow> x \<in> set xs \<and> (\<forall>y \<in> set xs. fst x \<le> fst y)"
proof (induction xs arbitrary: x)
  case (Cons a xs)
  show ?case
  proof (cases "earliest xs")
    case None
    then show ?thesis using Cons.prems by simp
  next
    case (Some y)
    have x: "x = (if fst y < fst a then y else a)" using Cons.prems unfolding earliest.simps Some by simp
    have "y \<in> set xs" "\<forall>z \<in> set xs. fst y \<le> fst z" using Cons.IH [OF Some] by simp_all
    then show ?thesis by (fastforce simp: x)
  qed
qed simp

lemma latest_in: "latest_of xs = Some x \<Longrightarrow> x \<in> set xs \<and> (\<forall>y \<in> set xs. fst y \<le> fst x)"
proof (induction xs arbitrary: x)
  case (Cons a xs)
  show ?case
  proof (cases "latest_of xs")
    case None
    then show ?thesis using Cons.prems by simp
  next
    case (Some y)
    have x: "x = (if fst a < fst y then y else a)" using Cons.prems unfolding latest_of.simps Some by simp
    have "y \<in> set xs" "\<forall>z \<in> set xs. fst z \<le> fst y" using Cons.IH [OF Some] by simp_all
    then show ?thesis by (fastforce simp: x)
  qed
qed simp

lemma by_day_at:
  "map_of (foldl add_day_sample [] ws) d =
     (let f = filter (\<lambda>x. day_of (fst x) = d) ws
      in if f = [] then None
         else Some \<lparr>ds_day = d, ds_open = snd (hd f), ds_first_at = fst (hd f), ds_close = snd (last f), ds_last_at = fst (last f),
                    ds_n = int (length f)\<rparr>)"
proof (induction ws rule: rev_induct)
  case (snoc x ws)
  show ?case
  proof (cases "day_of (fst x) = d")
    case True
    then show ?thesis using snoc
      by (cases "filter (\<lambda>x. day_of (fst x) = d) ws = []")
        (auto simp: add_day_sample_def case_prod_unfold update_conv' Let_def)
  next
    case False
    then show ?thesis using snoc by (auto simp: add_day_sample_def case_prod_unfold update_conv' Let_def)
  qed
qed simp

lemma by_day_keys: "distinct (map fst (foldl add_day_sample [] ws)) \<and> fst ` set (foldl add_day_sample [] ws) = (day_of \<circ> fst) ` set ws"
  by (induction ws rule: rev_induct)
    (auto simp: add_day_sample_def case_prod_unfold distinct_update dom_update Let_def)

definition valued :: "sample list \<Rightarrow> (time \<times> flt) list" where
  "valued history = List.map_filter (\<lambda>(t, v). map_option (Pair t) v) history"

lemma valued_filter:
  "List.map_filter (\<lambda>(t, v). case v of None \<Rightarrow> None | Some x \<Rightarrow> if P t then Some (t, x) else None) history
     = filter (\<lambda>x. P (fst x)) (valued history)"
  by (induction history) (auto simp: valued_def List.map_filter_simps split: option.split)

lemma window_day:
  assumes "lo \<le> d" "d \<le> hi"
  shows "set (filter (\<lambda>x. day_of (fst x) = d) (window_samples lo hi history)) = set (day_values history d)"
    and "length (filter (\<lambda>x. day_of (fst x) = d) (window_samples lo hi history)) = length (day_values history d)"
    and "sorted (map fst (filter (\<lambda>x. day_of (fst x) = d) (window_samples lo hi history)))"
proof -
  let ?vs = "valued history" let ?w = "window_samples lo hi history"
  have w: "?w = sort_key fst (filter (\<lambda>x. lo \<le> day_of (fst x) \<and> day_of (fst x) \<le> hi) ?vs)"
    by (simp only: window_samples_def valued_filter)
  have v: "day_values history d = filter (\<lambda>x. day_of (fst x) = d) ?vs" by (simp only: day_values_def valued_filter)
  have m: "mset (filter (\<lambda>x. day_of (fst x) = d) ?w) = mset (day_values history d)"
    unfolding w v mset_filter mset_sort filter_filter_mset using assms by (auto intro!: filter_mset_cong)
  show "set (filter (\<lambda>x. day_of (fst x) = d) ?w) = set (day_values history d)" using mset_eq_setD [OF m] .
  show "length (filter (\<lambda>x. day_of (fst x) = d) ?w) = length (day_values history d)" using mset_eq_length [OF m] .
  show "sorted (map fst (filter (\<lambda>x. day_of (fst x) = d) ?w))" unfolding w by (rule sorted_filter) simp
qed

lemma sorted_ends:
  assumes "sorted (map fst f)" "f \<noteq> []" "x \<in> set f"
  shows "fst (hd f) \<le> fst x" "fst x \<le> fst (last f)"
proof -
  obtain n where n: "n < length f" "f ! n = x" using assms(3) by (auto simp: in_set_conv_nth)
  have *: "fst (f ! i) \<le> fst (f ! j)" if "i \<le> j" "j < length f" for i j
    using sorted_nth_mono [OF assms(1) that(1)] that by simp
  show "fst (hd f) \<le> fst x" using *[of 0 n] n assms(2) by (simp add: hd_conv_nth)
  show "fst x \<le> fst (last f)" using *[of n "length f - 1"] n assms(2) by (simp add: last_conv_nth)
qed

lemma day_sample_agrees:
  assumes "lo \<le> d" "d \<le> hi" "inj_on fst (set (valued history))"
  shows "map_of (foldl add_day_sample [] (window_samples lo hi history)) d = day_sample_pg history d"
proof -
  let ?f = "filter (\<lambda>x. day_of (fst x) = d) (window_samples lo hi history)" let ?v = "day_values history d"
  note w = window_day [OF assms(1,2), of history]
  have v_sub: "set ?v \<subseteq> set (valued history)" unfolding day_values_def valued_filter by auto
  show ?thesis
  proof (cases "?v = []")
    case True
    then have "?f = []" using w(2) by (metis length_0_conv)
    then show ?thesis using True unfolding by_day_at day_sample_pg_def Let_def by simp
  next
    case False
    then have ne: "?f \<noteq> []" using w(2) by (metis length_0_conv)
    obtain a z where a: "earliest ?v = Some a" and z: "latest_of ?v = Some z" using False by (metis earliest_None latest_None not_Some_eq)
    have mem: "hd ?f \<in> set ?v" "last ?f \<in> set ?v" using w(1) ne hd_in_set last_in_set by blast+
    have in_f: "a \<in> set ?f" "z \<in> set ?f" using earliest_in [OF a] latest_in [OF z] w(1) by auto
    have "fst (hd ?f) = fst a" using earliest_in [OF a] mem(1) sorted_ends(1) [OF w(3) ne in_f(1)] by (meson order_antisym)
    then have "hd ?f = a" using assms(3) mem(1) earliest_in [OF a] v_sub by (meson inj_onD subsetD)
    moreover have "fst (last ?f) = fst z" using latest_in [OF z] mem(2) sorted_ends(2) [OF w(3) ne in_f(2)] by (meson order_antisym)
    then have "last ?f = z" using assms(3) mem(2) latest_in [OF z] v_sub by (meson inj_onD subsetD)
    ultimately show ?thesis using ne a z w(2) unfolding by_day_at day_sample_pg_def Let_def by simp
  qed
qed

lemma map_filter_dom: "List.map_filter f xs = List.map_filter f (filter (\<lambda>x. f x \<noteq> None) xs)"
  by (induction xs) (auto simp: List.map_filter_simps split: option.split)

lemma map_filter_cong: "(\<And>x. x \<in> set xs \<Longrightarrow> f x = g x) \<Longrightarrow> List.map_filter f xs = List.map_filter g xs"
  by (induction xs) (auto simp: List.map_filter_simps split: option.split)

text \<open>
  The SQL and the fold give the same rows: when no two samples of the account carry one time, for
  every window, also days without samples and samples without a value.
\<close>

theorem daily_samples_agree:
  assumes "inj_on fst (set (valued history))"
  shows "daily_samples_portable history lo hi = daily_samples_pg history lo hi"
proof -
  let ?b = "foldl add_day_sample [] (window_samples lo hi history)"
  have in_window: "lo \<le> d \<and> d \<le> hi" if "map_of ?b d \<noteq> None" for d
  proof -
    have "d \<in> (day_of \<circ> fst) ` set (window_samples lo hi history)" using that by_day_keys by (metis map_of_eq_None_iff)
    then show ?thesis unfolding window_samples_def valued_filter by auto
  qed
  have eq: "map_of ?b d = day_sample_pg history d" if "lo \<le> d" "d \<le> hi" for d
    by (rule day_sample_agrees [OF that assms])
  have keys: "sort (map fst ?b) = filter (\<lambda>d. day_sample_pg history d \<noteq> None) [lo..hi]"
  proof (rule sorted_distinct_set_unique)
    show "distinct (sort (map fst ?b))" using by_day_keys by simp
    have "set (map fst ?b) = {d. map_of ?b d \<noteq> None}" by (auto simp: map_of_eq_None_iff)
    also have "\<dots> = {d. lo \<le> d \<and> d \<le> hi \<and> day_sample_pg history d \<noteq> None}" using in_window eq by metis
    finally have "set (map fst ?b) = {d. lo \<le> d \<and> d \<le> hi \<and> day_sample_pg history d \<noteq> None}" .
    then show "set (sort (map fst ?b)) = set (filter (\<lambda>d. day_sample_pg history d \<noteq> None) [lo..hi])" by auto
  qed (simp_all add: sorted_filter [where f = id, simplified])
  have "daily_samples_portable history lo hi = List.map_filter (map_of ?b) (filter (\<lambda>d. day_sample_pg history d \<noteq> None) [lo..hi])"
    by (simp only: daily_samples_portable_def Let_def keys)
  also have "\<dots> = List.map_filter (day_sample_pg history) (filter (\<lambda>d. day_sample_pg history d \<noteq> None) [lo..hi])"
    by (rule map_filter_cong) (auto simp: eq)
  also have "\<dots> = daily_samples_pg history lo hi" unfolding daily_samples_pg_def by (rule map_filter_dom [symmetric])
  finally show ?thesis .
qed

theorem daily_samples_agree_witness:
  "daily_samples_portable [(10, Some 5), (90000, Some 7), (20, Some 6)] 0 1 = daily_samples_pg [(10, Some 5), (90000, Some 7), (20, Some 6)] 0 1"
  by (rule daily_samples_agree) (simp add: valued_def List.map_filter_simps)

section \<open>The chain of daily results\<close>

fun chained :: "flt option \<Rightarrow> daily_table \<Rightarrow> bool" where
  "chained prev [] \<longleftrightarrow> True"
| "chained prev (x # xs) \<longleftrightarrow> dr_mtm (snd x) = map_option (\<lambda>p. dr_close (snd x) - p) prev \<and> chained (Some (dr_close (snd x))) xs"

definition end_close :: "flt option \<Rightarrow> daily_table \<Rightarrow> flt option" where
  "end_close prev xs = (if xs = [] then prev else Some (dr_close (snd (last xs))))"

lemma chained_append: "chained prev (xs @ ys) \<longleftrightarrow> chained prev xs \<and> chained (end_close prev xs) ys"
  by (induction xs arbitrary: prev) (auto simp: end_close_def)

lemma daily_rows_chained: "chained prev (daily_rows now realized prev ss)"
  by (induction ss arbitrary: prev) (auto split: prod.split)

lemma daily_rows_days: "map fst (daily_rows now realized prev ss) = map ds_day ss"
  by (induction ss arbitrary: prev) (auto split: prod.split)

lemma samples_days: "map ds_day (daily_samples_pg history lo hi) = filter (\<lambda>d. day_values history d \<noteq> []) [lo..hi]"
proof -
  have one: "day_sample_pg history d = None \<longleftrightarrow> day_values history d = []" "day_sample_pg history d = Some s \<Longrightarrow> ds_day s = d" for d s
    by (auto simp: day_sample_pg_def Let_def split: option.splits)
  have "map ds_day (List.map_filter (day_sample_pg history) ds) = filter (\<lambda>d. day_values history d \<noteq> []) ds" for ds
    using one by (induction ds) (auto simp: List.map_filter_simps split: option.split, metis not_Some_eq)
  then show ?thesis by (simp add: daily_samples_pg_def)
qed

lemma upsert_map_of: "map_of (upsert_daily rows t) d = (case map_of (rev rows) d of None \<Rightarrow> map_of t d | Some r \<Rightarrow> Some r)"
  by (induction rows rule: rev_induct) (auto simp: upsert_daily_def update_conv' split: prod.split)

lemma upsert_distinct: "distinct (map fst t) \<Longrightarrow> distinct (map fst (upsert_daily rows t))"
  by (induction rows rule: rev_induct) (auto simp: upsert_daily_def distinct_update split: prod.split)

lemma by_date_sorted: "sorted (map fst (by_date t))" "distinct (map fst t) \<Longrightarrow> distinct (map fst (by_date t))"
  "set (by_date t) = set t" "distinct (map fst t) \<Longrightarrow> map_of (by_date t) = map_of t"
proof -
  show d: "distinct (map fst t) \<Longrightarrow> distinct (map fst (by_date t))"
    unfolding by_date_def by (metis distinct_map distinct_sort set_sort)
  show "map_of (by_date t) = map_of t" if t: "distinct (map fst t)"
  proof (rule ext)
    fix k
    have "map_of (by_date t) k = Some v \<longleftrightarrow> map_of t k = Some v" for v
      using map_of_eq_Some_iff [OF d [OF t]] map_of_eq_Some_iff [OF t] by (simp add: by_date_def)
    then show "map_of (by_date t) k = map_of t k" by (metis not_None_eq)
  qed
qed (simp_all add: by_date_def)

definition daily_ok :: "sample list \<Rightarrow> day \<Rightarrow> daily_table \<Rightarrow> bool" where
  "daily_ok history today t \<longleftrightarrow> distinct (map fst t) \<and> chained None (by_date t) \<and>
     (\<forall>d \<in> fst ` set t. d \<le> today \<and> day_values history d \<noteq> [])"

lemma sorted_split:
  "sorted (map fst xs) \<Longrightarrow> xs = filter (\<lambda>x. fst x < s) xs @ filter (\<lambda>x. \<not> fst x < (s :: day)) xs"
proof (induction xs)
  case (Cons x xs)
  show ?case
  proof (cases "fst x < s")
    case False
    then have none: "\<forall>y \<in> set (x # xs). \<not> fst y < s" using Cons.prems by fastforce
    then have "filter (\<lambda>x. fst x < s) (x # xs) = []" by (simp only: filter_empty_conv)
    moreover have "filter (\<lambda>x. \<not> fst x < s) (x # xs) = x # xs" using none by (simp only: filter_id_conv)
    ultimately show ?thesis by simp
  qed (use Cons in simp)
qed simp

lemma last_before_close:
  "map_option (\<lambda>x. dr_close (snd x)) (last_before s t) = end_close None (filter (\<lambda>x. fst x < s) (by_date t))"
  by (cases "filter (\<lambda>x. fst x < s) (by_date t)" rule: rev_cases) (auto simp: last_before_def end_close_def)

lemma upserted_view:
  assumes ok: "daily_ok history today t" and rows: "map fst rows = filter (\<lambda>d. day_values history d \<noteq> []) [start..today]"
  shows "by_date (upsert_daily rows t) = filter (\<lambda>x. fst x < start) (by_date t) @ rows"
proof -
  let ?old = "filter (\<lambda>x. fst x < start) (by_date t)"
  have t: "distinct (map fst t)" using ok by (simp add: daily_ok_def)
  have u: "distinct (map fst (upsert_daily rows t))" by (rule upsert_distinct [OF t])
  have days: "start \<le> d" if "d \<in> set (map fst rows)" for d using that unfolding rows by auto
  have dr: "distinct (map fst rows)" "sorted (map fst rows)" by (simp_all add: rows sorted_filter [where f = id, simplified])
  have late: "start \<le> fst x" if "x \<in> set rows" for x using days that by (metis imageI list.set_map)
  have dn: "distinct (map fst (?old @ rows))"
    using dr late by_date_sorted(2) [OF t] by (auto simp: distinct_map_filter dest!: late)
  have sorted: "sorted (map fst (?old @ rows))"
    using dr late by_date_sorted(1) [of t] by (fastforce simp: sorted_append sorted_filter)
  note old_at = map_of_filter [where P = "\<lambda>k. k < start" and xs = "by_date t"]
  have new: "map_of (upsert_daily rows t) d = map_of (?old @ rows) d" for d
  proof (cases "d \<in> fst ` set rows")
    case True
    then have "start \<le> d" using late by auto
    then have "map_of ?old d = None" by (simp add: old_at restrict_map_def)
    moreover have "map_of (rev rows) d = map_of rows d"
      using map_of_inject_set [of "rev rows" rows] dr(1) by (simp add: rev_map [symmetric])
    moreover obtain r where "map_of rows d = Some r" using True by (metis map_of_eq_None_iff not_None_eq)
    ultimately show ?thesis by (simp add: upsert_map_of map_add_def)
  next
    case False
    then have none: "map_of rows d = None" "map_of (rev rows) d = None" by (auto simp: map_of_eq_None_iff)
    have "map_of t d = map_of ?old d"
    proof (cases "d < start")
      case True
      then show ?thesis using by_date_sorted(4) [OF t] by (simp add: old_at)
    next
      case later: False
      have "d \<notin> fst ` set t"
      proof
        assume "d \<in> fst ` set t"
        then have "d \<in> set (filter (\<lambda>d. day_values history d \<noteq> []) [start..today])" using ok later by (auto simp: daily_ok_def)
        then show False using False arg_cong [OF rows, of set] by simp
      qed
      then show ?thesis using later by (simp add: old_at restrict_map_def map_of_eq_None_iff)
    qed
    then show ?thesis using none by (simp add: upsert_map_of map_add_def split: option.split)
  qed
  show ?thesis
  proof (rule map_sorted_distinct_set_unique [of fst])
    show "set (by_date (upsert_daily rows t)) = set (?old @ rows)"
      using new map_of_eq_Some_iff [OF u] map_of_eq_Some_iff [OF dn] unfolding by_date_sorted(3) by (metis surj_pair subsetI subset_antisym)
    show "inj_on fst (set (by_date (upsert_daily rows t)) \<union> set (?old @ rows))"
      using \<open>set (by_date (upsert_daily rows t)) = set (?old @ rows)\<close> dn by (simp only: distinct_map Un_absorb)
  qed (use dn sorted by_date_sorted(1) by_date_sorted(2) [OF u] in auto)
qed

lemma refresh_ok:
  assumes ok: "daily_ok history (day_of now) t"
  shows "daily_ok history (day_of now) (refresh_portfolio_daily days now history closes t)"
proof -
  define start where "start = day_of now - ((case days of Some k \<Rightarrow> k | None \<Rightarrow> if t \<noteq> [] then ROLLING_DAYS else BACKFILL_DAYS) - 1)"
  define samples where "samples = daily_samples_pg history start (day_of now)"
  define rows where "rows = daily_rows now (realized_by_day closes start (day_of now)) (map_option (\<lambda>x. dr_close (snd x)) (last_before start t)) samples"
  have r: "refresh_portfolio_daily days now history closes t = (if samples = [] then t else upsert_daily rows t)"
    by (simp only: refresh_portfolio_daily_def Let_def start_def samples_def rows_def)
  show ?thesis
  proof (cases "samples = []")
    case False
    have days: "map fst rows = filter (\<lambda>d. day_values history d \<noteq> []) [start..day_of now]"
      by (simp only: rows_def daily_rows_days samples_def samples_days)
    note view = upserted_view [OF ok days]
    let ?old = "filter (\<lambda>x. fst x < start) (by_date t)"
    have t: "distinct (map fst t)" using ok by (simp add: daily_ok_def)
    have split: "by_date t = ?old @ filter (\<lambda>x. \<not> fst x < start) (by_date t)" by (rule sorted_split [OF by_date_sorted(1)])
    have "chained None (by_date t)" using ok by (simp add: daily_ok_def)
    then have "chained None (?old @ filter (\<lambda>x. \<not> fst x < start) (by_date t))" using split by simp
    then have "chained None ?old" unfolding chained_append by (rule conjunct1)
    moreover have "chained (end_close None ?old) rows" unfolding rows_def last_before_close by (rule daily_rows_chained)
    ultimately have ch: "chained None (by_date (upsert_daily rows t))" unfolding view chained_append by (rule conjI)
    have keys: "fst ` set (upsert_daily rows t) = fst ` set ?old \<union> set (map fst rows)"
      using arg_cong [OF view, of set] unfolding by_date_sorted(3) by (simp add: image_Un)
    have "\<forall>d \<in> fst ` set (upsert_daily rows t). d \<le> day_of now \<and> day_values history d \<noteq> []"
      using ok unfolding keys days by (auto simp: daily_ok_def by_date_sorted(3))
    then show ?thesis using ch upsert_distinct [OF t, of rows] False by (simp add: r daily_ok_def)
  qed (simp add: r ok)
qed

text \<open>The engine refreshes over a history that only gains samples, at times that do not go back.\<close>

fun refreshes :: "(int option \<times> time \<times> sample list \<times> (time \<times> flt) list) list \<Rightarrow> daily_table \<Rightarrow> daily_table" where
  "refreshes [] t = t"
| "refreshes ((days, now, history, closes) # xs) t = refreshes xs (refresh_portfolio_daily days now history closes t)"

fun appended :: "time \<Rightarrow> sample list \<Rightarrow> (int option \<times> time \<times> sample list \<times> (time \<times> flt) list) list \<Rightarrow> bool" where
  "appended before old [] \<longleftrightarrow> True"
| "appended before old ((days, now, history, closes) # xs) \<longleftrightarrow>
     before \<le> now \<and> set old \<subseteq> set history \<and> appended now history xs"

lemma in_valued: "x \<in> set (valued h) \<longleftrightarrow> (fst x, Some (snd x)) \<in> set h"
  by (induction h) (cases x, auto simp: valued_def List.map_filter_simps split: option.splits)+

lemma day_values_grow:
  assumes "set h \<subseteq> set h'" "day_values h d \<noteq> []"
  shows "day_values h' d \<noteq> []"
proof -
  have mem: "x \<in> set (day_values g d) \<longleftrightarrow> (fst x, Some (snd x)) \<in> set g \<and> day_of (fst x) = d" for x g
    unfolding day_values_def valued_filter by (simp add: in_valued)
  obtain x where "x \<in> set (day_values h d)" using assms(2) by (meson hd_in_set)
  then have "x \<in> set (day_values h' d)" unfolding mem using assms(1) by blast
  then show ?thesis by auto
qed

lemma daily_ok_later:
  assumes "daily_ok h (day_of now) t" "set h \<subseteq> set h'" "now \<le> now'"
  shows "daily_ok h' (day_of now') t"
proof -
  have "day_of now \<le> day_of now'" using assms(3) by (simp add: day_of_def floor_mono divide_right_mono)
  then show ?thesis using assms(1) day_values_grow [OF assms(2)] by (fastforce simp: daily_ok_def)
qed

lemma refreshes_ok: "daily_ok h (day_of now) t \<Longrightarrow> appended now h xs \<Longrightarrow> \<exists>h' now'. daily_ok h' (day_of now') (refreshes xs t)"
proof (induction xs arbitrary: h now t)
  case (Cons x xs)
  obtain days now' h' closes where x: "x = (days, now', h', closes)" by (cases x) auto
  have "daily_ok h' (day_of now') (refresh_portfolio_daily days now' h' closes t)"
    by (rule refresh_ok, rule daily_ok_later [OF Cons.prems(1)]) (use Cons.prems(2) x in auto)
  then show ?case using Cons.IH Cons.prems(2) by (simp add: x)
qed auto

lemma chain_sum:
  "chained (Some p) xs \<Longrightarrow> sum_list (map (\<lambda>x. flt_or0 (dr_mtm (snd x))) xs) = flt_or0 (end_close (Some p) xs) - p"
proof (induction xs arbitrary: p)
  case (Cons x xs)
  then show ?case by (cases xs rule: rev_cases) (auto simp: end_close_def)
qed (simp add: end_close_def)

lemma daily_chain:
  assumes "appended now0 [] xs" "by_date (refreshes xs []) = before @ x # rest"
  shows "dr_mtm (snd x) = (if before = [] then None else Some (dr_close (snd x) - dr_close (snd (last before)))) \<and>
    sum_list (map (\<lambda>y. flt_or0 (dr_mtm (snd y))) rest) = dr_close (snd (last (x # rest))) - dr_close (snd x)"
proof -
  have "daily_ok [] (day_of now0) []" by (simp add: daily_ok_def by_date_def)
  then obtain h now where "daily_ok h (day_of now) (refreshes xs [])" using refreshes_ok assms(1) by blast
  then have "chained None (before @ x # rest)" using assms(2) by (simp add: daily_ok_def)
  then have c: "chained (end_close None before) (x # rest)" unfolding chained_append by (rule conjunct2)
  then have "chained (Some (dr_close (snd x))) rest" by simp
  from chain_sum [OF this] c show ?thesis by (auto simp: end_close_def)
qed



end
