(* ===== verification/Structures.thy ===== *)
theory Structures
  imports Black_Scholes
begin

text \<open>
  The option structures of a signal (\<open>engines/execution/structures.py\<close>): straddle, risk
  reversal, butterfly and calendar, their legs on a volatility surface and their net greeks.
  The module has a pricer of its own; its distribution function goes through \<open>math.erf\<close> and is
  the parameter \<open>cdf\<close>, its density is the formula of the source.
\<close>

section \<open>The pricer of the module\<close>

definition phi :: "flt \<Rightarrow> flt" where
  "phi x = exp (- 1/2 * x * x) / sqrt (2 * pi)"

definition structure_d1 :: "flt \<Rightarrow> flt \<Rightarrow> flt \<Rightarrow> flt \<Rightarrow> flt" where
  "structure_d1 F K T sigma = (ln (F / K) + 1/2 * sigma * sigma * T) / (sigma * sqrt T)"

definition structure_price :: "(flt \<Rightarrow> flt) \<Rightarrow> flt \<Rightarrow> flt \<Rightarrow> flt \<Rightarrow> flt \<Rightarrow> string \<Rightarrow> flt" where
  "structure_price cdf F K T sigma right =
     (if T \<le> 0 \<or> sigma \<le> 0 \<or> F \<le> 0 \<or> K \<le> 0 then max 0 (if right = ''CALL'' then F - K else K - F)
      else let d1 = structure_d1 F K T sigma; d2 = d1 - sigma * sqrt T
           in if right = ''CALL'' then F * cdf d1 - K * cdf d2 else K * cdf (- d2) - F * cdf (- d1))"

record net_greeks =
  ng_vega :: flt
  ng_gamma :: flt
  ng_theta :: flt
  ng_delta :: flt

definition no_greeks :: net_greeks where
  "no_greeks = \<lparr>ng_vega = 0, ng_gamma = 0, ng_theta = 0, ng_delta = 0\<rparr>"

text \<open>The greeks do not test the forward and the strike: the logarithm of their ratio may raise.\<close>

definition structure_greeks :: "(flt \<Rightarrow> flt) \<Rightarrow> flt \<Rightarrow> flt \<Rightarrow> flt \<Rightarrow> flt \<Rightarrow> string \<Rightarrow> net_greeks result" where
  "structure_greeks cdf F K T sigma right =
     (if T \<le> 0 \<or> sigma \<le> 0 then Inr no_greeks
      else if K = 0 then Inl ZeroDivisionError
      else if F / K \<le> 0 then Inl (ValueError ''math domain error'')
      else let d1 = structure_d1 F K T sigma; pdf = phi d1
           in Inr \<lparr>ng_vega = F * pdf * sqrt T / 100, ng_gamma = pdf / (F * sigma * sqrt T),
                   ng_theta = - (F * pdf * sigma) / (2 * sqrt T) / 365,
                   ng_delta = (if right = ''CALL'' then cdf d1 else cdf d1 - 1)\<rparr>)"

section \<open>Legs\<close>

record structure_leg =
  sl_instrument :: string
  sl_side :: string
  sl_qty :: int
  sl_strike :: "flt option"
  sl_tenor :: string
  sl_iv :: "flt option"
  sl_premium :: flt

definition TENOR_YEARS :: "(string \<times> flt) list" where
  "TENOR_YEARS = [(''1M'', 1/12), (''2M'', 2/12), (''3M'', 3/12), (''4M'', 4/12), (''5M'', 5/12), (''6M'', 6/12)]"

text \<open>A surface gives each tenor its pillars, each a volatility and a strike when they are numbers.\<close>

type_synonym pillars = "(string \<times> (string \<times> flt option \<times> flt option) list) list"

definition pillar_iv_strike :: "pillars \<Rightarrow> string \<Rightarrow> string \<Rightarrow> (flt \<times> flt) option" where
  "pillar_iv_strike surface tenor label =
     (case map_of (case map_of surface tenor of None \<Rightarrow> [] | Some row \<Rightarrow> row) label of
        Some (Some iv, Some k) \<Rightarrow> Some (iv, k)
      | _ \<Rightarrow> None)"

datatype option_structure =
    StraddleATM string string int
  | RiskReversal25d string string int
  | Butterfly25d string string int
  | CalendarSpread string string string int

definition option_leg :: "(flt \<Rightarrow> flt) \<Rightarrow> flt \<Rightarrow> string \<Rightarrow> string \<Rightarrow> int \<Rightarrow> string \<Rightarrow> flt \<Rightarrow> flt \<times> flt \<Rightarrow> structure_leg" where
  "option_leg cdf F right side qty tenor T q =
     \<lparr>sl_instrument = right, sl_side = side, sl_qty = qty, sl_strike = Some (snd q), sl_tenor = tenor, sl_iv = Some (fst q),
      sl_premium = structure_price cdf F (snd q) T (fst q) right\<rparr>"

definition hedge_leg :: "string \<Rightarrow> flt \<Rightarrow> structure_leg list" where
  "hedge_leg tenor delta =
     (let hedge_qty = - round_half_even delta
      in if hedge_qty \<noteq> 0
         then [\<lparr>sl_instrument = ''FUT'', sl_side = (if hedge_qty < 0 then SELL else BUY), sl_qty = \<bar>hedge_qty\<bar>, sl_strike = None,
                sl_tenor = tenor, sl_iv = None, sl_premium = 0\<rparr>]
         else [])"

definition other_side :: "string \<Rightarrow> string" where
  "other_side side = (if side = BUY then SELL else BUY)"

fun legs :: "(flt \<Rightarrow> flt) \<Rightarrow> flt \<Rightarrow> pillars \<Rightarrow> option_structure \<Rightarrow> structure_leg list" where
  "legs cdf F surface (StraddleATM tenor side qty) =
     (case (pillar_iv_strike surface tenor ''atm'', map_of TENOR_YEARS tenor) of
        (Some atm, Some T) \<Rightarrow>
          [option_leg cdf F ''CALL'' side qty tenor T atm, option_leg cdf F ''PUT'' side qty tenor T atm] @ hedge_leg tenor 0
      | _ \<Rightarrow> [])"
| "legs cdf F surface (RiskReversal25d tenor direction qty) =
     (case (pillar_iv_strike surface tenor ''25dc'', pillar_iv_strike surface tenor ''25dp'', map_of TENOR_YEARS tenor) of
        (Some c, Some p, Some T) \<Rightarrow>
          [option_leg cdf F ''CALL'' (if direction = ''LONG_CALL'' then BUY else SELL) qty tenor T c,
           option_leg cdf F ''PUT'' (if direction = ''LONG_CALL'' then SELL else BUY) qty tenor T p]
      | _ \<Rightarrow> [])"
| "legs cdf F surface (Butterfly25d tenor side qty) =
     (case (pillar_iv_strike surface tenor ''atm'', pillar_iv_strike surface tenor ''25dc'', pillar_iv_strike surface tenor ''25dp'',
            map_of TENOR_YEARS tenor) of
        (Some atm, Some c, Some p, Some T) \<Rightarrow>
          [option_leg cdf F ''CALL'' side qty tenor T c, option_leg cdf F ''PUT'' side qty tenor T p,
           option_leg cdf F ''CALL'' (other_side side) (2 * qty) tenor T atm]
      | _ \<Rightarrow> [])"
| "legs cdf F surface (CalendarSpread near far side qty) =
     (case (pillar_iv_strike surface near ''atm'', pillar_iv_strike surface far ''atm'', map_of TENOR_YEARS near, map_of TENOR_YEARS far) of
        (Some n, Some f, Some Tn, Some Tf) \<Rightarrow>
          [option_leg cdf F ''CALL'' (other_side side) qty near Tn n, option_leg cdf F ''CALL'' side qty far Tf f]
      | _ \<Rightarrow> [])"

section \<open>Net greeks\<close>

definition leg_sign :: "structure_leg \<Rightarrow> flt" where
  "leg_sign l = (if sl_side l = BUY then 1 else - 1)"

definition scaled :: "flt \<Rightarrow> net_greeks \<Rightarrow> net_greeks" where
  "scaled k g = \<lparr>ng_vega = k * ng_vega g, ng_gamma = k * ng_gamma g, ng_theta = k * ng_theta g, ng_delta = k * ng_delta g\<rparr>"

definition plus_greeks :: "net_greeks \<Rightarrow> net_greeks \<Rightarrow> net_greeks" where
  "plus_greeks a b =
     \<lparr>ng_vega = ng_vega a + ng_vega b, ng_gamma = ng_gamma a + ng_gamma b, ng_theta = ng_theta a + ng_theta b, ng_delta = ng_delta a + ng_delta b\<rparr>"

text \<open>What one leg adds; a leg without strike, volatility or known tenor adds nothing.\<close>

definition leg_adds :: "(flt \<Rightarrow> flt) \<Rightarrow> flt \<Rightarrow> structure_leg \<Rightarrow> net_greeks result" where
  "leg_adds cdf F l =
     (if sl_instrument l = ''FUT'' then Inr (no_greeks\<lparr>ng_delta := leg_sign l * of_int (sl_qty l)\<rparr>)
      else case (sl_strike l, sl_iv l, map_of TENOR_YEARS (sl_tenor l)) of
             (Some K, Some iv, Some T) \<Rightarrow>
               (case structure_greeks cdf F K T iv (if sl_instrument l = ''CALL'' then ''CALL'' else ''PUT'') of
                  Inl e \<Rightarrow> Inl e
                | Inr g \<Rightarrow> Inr (scaled (leg_sign l * of_int (sl_qty l)) g))
           | _ \<Rightarrow> Inr no_greeks)"

fun sum_greeks :: "(flt \<Rightarrow> flt) \<Rightarrow> flt \<Rightarrow> structure_leg list \<Rightarrow> net_greeks \<Rightarrow> net_greeks result" where
  "sum_greeks cdf F [] acc = Inr acc"
| "sum_greeks cdf F (l # ls) acc =
     (case leg_adds cdf F l of Inl e \<Rightarrow> Inl e | Inr g \<Rightarrow> sum_greeks cdf F ls (plus_greeks acc g))"

definition structure_net_greeks :: "(flt \<Rightarrow> flt) \<Rightarrow> flt \<Rightarrow> pillars \<Rightarrow> option_structure \<Rightarrow> net_greeks result" where
  "structure_net_greeks cdf F surface s = sum_greeks cdf F (legs cdf F surface s) no_greeks"

definition signal_to_structure :: "string \<Rightarrow> string \<Rightarrow> string option \<Rightarrow> option_structure option" where
  "signal_to_structure pc_label tenor direction =
     (let side = (if direction = Some ''EXPENSIVE'' then SELL else BUY)
      in if pc_label = ''level'' then Some (StraddleATM tenor side 10)
         else if pc_label = ''term_slope'' then Some (CalendarSpread ''1M'' tenor side 10)
         else if pc_label = ''smile'' then Some (Butterfly25d tenor side 10)
         else if pc_label = ''skew'' then Some (RiskReversal25d tenor (if side = BUY then ''LONG_CALL'' else ''LONG_PUT'') 10)
         else None)"

section \<open>Both pricers\<close>

definition with_phi :: "(flt \<Rightarrow> flt) \<Rightarrow> normal" where
  "with_phi cdf = \<lparr>n_cdf = cdf, n_pdf = phi\<rparr>"

definition short_right :: "string \<Rightarrow> string" where
  "short_right right = (if right = ''CALL'' then ''C'' else ''P'')"

text \<open>
  On live options the pricer of the structures is the desk's own: the same price and delta, the
  vega per volatility point, the gamma per unit of spot squared and the theta per day.
\<close>

theorem structure_pricer_agrees:
  assumes "0 < F" "0 < K" "0 < T" "0 < sigma"
  shows "structure_price cdf F K T sigma right = bs_price (with_phi cdf) F K T sigma (short_right right) \<and>
    structure_greeks cdf F K T sigma right =
      Inr \<lparr>ng_vega = bs_vega (with_phi cdf) F K T sigma * VOLPT, ng_gamma = bs_gamma (with_phi cdf) F K T sigma,
           ng_theta = bs_theta (with_phi cdf) F K T sigma (short_right right),
           ng_delta = bs_delta (with_phi cdf) F K T sigma (short_right right)\<rparr>"
proof -
  have d: "structure_d1 F K T sigma = bs_d1 F K T sigma" by (simp add: structure_d1_def bs_d1_def power2_eq_square mult.assoc)
  have live: "\<not> degenerate F K T sigma" by (rule degenerate_live [OF assms])
  have pos: "\<not> (T \<le> 0 \<or> sigma \<le> 0 \<or> F \<le> 0 \<or> K \<le> 0)" "K \<noteq> 0" "\<not> F / K \<le> 0" using assms by (auto simp: field_simps)
  show ?thesis
    using pos live assms
    by (simp add: structure_price_def structure_greeks_def d bs_price_def bs_d2_def with_phi_def short_right_def Let_def
        bs_vega_def bs_gamma_def bs_theta_def bs_delta_def VOLPT_def)
qed

theorem structure_pricer_agrees_witness:
  "structure_price (\<lambda>x. 1/2) 2 1 1 1 ''PUT'' = bs_price (with_phi (\<lambda>x. 1/2)) 2 1 1 1 ''P''"
  using structure_pricer_agrees [of 2 1 1 1 "\<lambda>x. 1/2" "''PUT''"] by (simp add: short_right_def)

text \<open>They part where nothing is left to live: an expired option is worth its intrinsic value here, nothing there.\<close>

lemma expired_prices_differ:
  "structure_price cdf 2 1 0 sigma ''CALL'' = 1 \<and> bs_price N 2 1 0 sigma ''C'' = 0"
  by (simp add: structure_price_def bs_price_def degenerate_def)

lemma greeks_raise: "0 < T \<Longrightarrow> 0 < sigma \<Longrightarrow> 0 < K \<Longrightarrow> structure_greeks cdf 0 K T sigma right = Inl (ValueError ''math domain error'')"
  by (simp add: structure_greeks_def)

lemma straddle_never_hedged: "hedge_leg tenor 0 = []"
  by (simp add: hedge_leg_def)

section \<open>The other side of a structure\<close>

fun reverse_structure :: "option_structure \<Rightarrow> option_structure" where
  "reverse_structure (StraddleATM t s q) = StraddleATM t (other_side s) q"
| "reverse_structure (RiskReversal25d t d q) = RiskReversal25d t (if d = ''LONG_CALL'' then ''LONG_PUT'' else ''LONG_CALL'') q"
| "reverse_structure (Butterfly25d t s q) = Butterfly25d t (other_side s) q"
| "reverse_structure (CalendarSpread n f s q) = CalendarSpread n f (other_side s) q"

fun sides_ok :: "option_structure \<Rightarrow> bool" where
  "sides_ok (StraddleATM t s q) = (s \<in> {BUY, SELL})"
| "sides_ok (RiskReversal25d t d q) = (d \<in> {''LONG_CALL'', ''LONG_PUT''})"
| "sides_ok (Butterfly25d t s q) = (s \<in> {BUY, SELL})"
| "sides_ok (CalendarSpread n f s q) = (s \<in> {BUY, SELL})"

definition reverse_leg :: "structure_leg \<Rightarrow> structure_leg" where
  "reverse_leg l = l\<lparr>sl_side := other_side (sl_side l)\<rparr>"

lemma legs_reverse: "sides_ok s \<Longrightarrow> legs cdf F surface (reverse_structure s) = map reverse_leg (legs cdf F surface s)"
  by (cases s) (auto simp: reverse_leg_def option_leg_def other_side_def hedge_leg_def split: option.split)

lemma legs_sides: "sides_ok s \<Longrightarrow> l \<in> set (legs cdf F surface s) \<Longrightarrow> sl_side l \<in> {BUY, SELL}"
  by (cases s) (auto simp: option_leg_def other_side_def hedge_leg_def split: option.splits)

lemma leg_adds_reverse:
  assumes "sl_side l \<in> {BUY, SELL}"
  shows "leg_adds cdf F (reverse_leg l) = (case leg_adds cdf F l of Inl e \<Rightarrow> Inl e | Inr g \<Rightarrow> Inr (scaled (- 1) g))"
proof -
  have "leg_sign (reverse_leg l) = - leg_sign l" using assms by (auto simp: leg_sign_def reverse_leg_def other_side_def)
  then show ?thesis
    by (auto simp: leg_adds_def reverse_leg_def scaled_def no_greeks_def split: option.split sum.split)
qed

lemma sum_greeks_reverse:
  assumes "\<forall>l \<in> set ls. sl_side l \<in> {BUY, SELL}"
  shows "sum_greeks cdf F (map reverse_leg ls) (scaled (- 1) acc) =
    (case sum_greeks cdf F ls acc of Inl e \<Rightarrow> Inl e | Inr g \<Rightarrow> Inr (scaled (- 1) g))"
  using assms
proof (induction ls arbitrary: acc)
  case (Cons l ls)
  have dist: "plus_greeks (scaled (- 1) acc) (scaled (- 1) g) = scaled (- 1) (plus_greeks acc g)" for g
    by (simp add: plus_greeks_def scaled_def)
  show ?case using Cons by (cases "leg_adds cdf F l") (simp_all add: leg_adds_reverse dist)
qed simp

text \<open>
  Buying and selling are mirror images: the reversed structure has the same contracts on the
  opposite sides, it prices or raises exactly when the structure does, and its net greeks are
  the negatives, so holding both leaves nothing.
\<close>

theorem reversed_structure_cancels:
  assumes "sides_ok s"
  shows "legs cdf F surface (reverse_structure s) = map reverse_leg (legs cdf F surface s) \<and>
    structure_net_greeks cdf F surface (reverse_structure s) =
      (case structure_net_greeks cdf F surface s of Inl e \<Rightarrow> Inl e | Inr g \<Rightarrow> Inr (scaled (- 1) g))"
proof -
  have "scaled (- 1) no_greeks = no_greeks" by (simp add: scaled_def no_greeks_def)
  then show ?thesis
    using sum_greeks_reverse [of "legs cdf F surface s" cdf F no_greeks] legs_sides [OF assms] legs_reverse [OF assms]
    by (simp add: structure_net_greeks_def)
qed

theorem reversed_structure_cancels_witness:
  "legs (\<lambda>x. 1/2) 1 [(''1M'', [(''atm'', Some 1, Some 1)])] (StraddleATM ''1M'' SELL 10)
     = map reverse_leg (legs (\<lambda>x. 1/2) 1 [(''1M'', [(''atm'', Some 1, Some 1)])] (StraddleATM ''1M'' BUY 10))"
  using reversed_structure_cancels [of "StraddleATM ''1M'' BUY 10"] by (simp add: other_side_def)

text \<open>A signal on the one-month slope buys and sells one contract: the calendar has equal ends.\<close>

lemma flat_calendar: "signal_to_structure ''term_slope'' ''1M'' d = Some (CalendarSpread ''1M'' ''1M'' (if d = Some ''EXPENSIVE'' then SELL else BUY) 10)"
  by (simp add: signal_to_structure_def)

end
