(* ===== verification/Portfolio_Stats.thy ===== *)
theory Portfolio_Stats
  imports Daily_Rollup Exec_DB
begin

text \<open>
  The statistics of the portfolio panel (\<open>api/routers/portfolio_panel.py\<close>): quantiles and
  value at risk of a P&L distribution, its histogram, Sharpe ratio and drawdowns of the daily
  closes, the cash and valuation breakdowns. The square root of a power of one half is \<open>sqrt\<close>.
\<close>

section \<open>Quantiles\<close>

definition percentile :: "flt list \<Rightarrow> flt \<Rightarrow> flt option" where
  "percentile s q =
     (if s = [] then None
      else let rank = q * real (length s - 1);
               lo = nat \<lfloor>rank\<rfloor>;
               hi = min (lo + 1) (length s - 1)
           in Some (s ! lo + (rank - real lo) * (s ! hi - s ! lo)))"

definition VAR_MAX_GAP_DAYS :: int where "VAR_MAX_GAP_DAYS = 3"
definition VAR_MIN_OBS :: nat where "VAR_MIN_OBS = 5"

record var_stats =
  vs_var_95 :: flt
  vs_var_99 :: flt
  vs_es_99 :: flt
  vs_n :: flt

definition var_stats_of :: "flt list \<Rightarrow> var_stats option" where
  "var_stats_of deltas =
     (if length deltas < VAR_MIN_OBS then None
      else let s = sort deltas
           in case (percentile s (5/100), percentile s (1/100)) of
                (Some v95, Some v99) \<Rightarrow>
                  let losses = filter (\<lambda>x. x \<le> v99) s
                  in Some \<lparr>vs_var_95 = v95, vs_var_99 = v99,
                           vs_es_99 = (if losses \<noteq> [] then sum_list losses / real (length losses) else v99),
                           vs_n = real (length deltas)\<rparr>
              | _ \<Rightarrow> None)"

section \<open>Histogram\<close>

fun bit_length :: "nat \<Rightarrow> nat" where
  "bit_length n = (if n = 0 then 0 else Suc (bit_length (n div 2)))"

declare bit_length.simps [simp del]

record bin =
  bn_lo :: flt
  bn_hi :: flt
  bn_count :: nat

definition bin_index :: "nat \<Rightarrow> flt \<Rightarrow> flt \<Rightarrow> flt \<Rightarrow> nat" where
  "bin_index nbins lo width v = min (nbins - 1) (nat \<lfloor>(v - lo) / width\<rfloor>)"

definition bin_counts :: "nat \<Rightarrow> flt \<Rightarrow> flt \<Rightarrow> flt list \<Rightarrow> nat list" where
  "bin_counts nbins lo width values =
     foldl (\<lambda>cs v. let i = bin_index nbins lo width v in cs[i := cs ! i + 1]) (replicate nbins 0) values"

definition histogram :: "flt list \<Rightarrow> int \<Rightarrow> bin list" where
  "histogram values nbins =
     (if length values < 2 then []
      else let lo = Min (set values); hi = Max (set values)
           in if hi \<le> lo then []
              else let n = (if nbins \<le> 0 then max 5 (min 21 (1 + bit_length (length values))) else nat nbins);
                       width = (hi - lo) / real n;
                       counts = bin_counts n lo width values
                   in map (\<lambda>i. \<lparr>bn_lo = py_round 2 (lo + real i * width), bn_hi = py_round 2 (lo + real (i + 1) * width),
                                bn_count = counts ! i\<rparr>) [0..<n])"

section \<open>Sharpe ratio and drawdowns\<close>

fun returns :: "flt list \<Rightarrow> flt list" where
  "returns (a # b # xs) = (if a \<noteq> 0 then [(b - a) / a] else []) @ returns (b # xs)"
| "returns _ = []"

definition mean :: "flt list \<Rightarrow> flt" where
  "mean xs = sum_list xs / real (length xs)"

definition sharpe_of :: "flt list \<Rightarrow> flt option" where
  "sharpe_of rets =
     (if rets = [] then None
      else let m = mean rets; std = sqrt (sum_list (map (\<lambda>x. (x - m) ^ 2) rets) / real (length rets))
           in if 0 < std then Some (m / std * sqrt 252) else None)"

fun drawdown_loop :: "flt \<Rightarrow> flt \<Rightarrow> flt list \<Rightarrow> flt" where
  "drawdown_loop peak max_dd [] = max_dd"
| "drawdown_loop peak max_dd (v # vs) =
     (let p = max peak v in drawdown_loop p (if 0 < p then min max_dd ((v - p) / p) else max_dd) vs)"

definition sharpe_and_drawdown :: "flt list \<Rightarrow> flt option \<times> flt option \<times> flt option" where
  "sharpe_and_drawdown nl =
     (if length nl < 3 then (None, None, None)
      else let run_peak = Max (set nl)
           in (sharpe_of (returns nl), Some (drawdown_loop (hd nl) 0 nl),
               if 0 < run_peak then Some ((last nl - run_peak) / run_peak) else None))"

section \<open>Freshness, cash and valuation\<close>

definition freshness :: "time \<Rightarrow> time option \<Rightarrow> string" where
  "freshness now reference =
     (case reference of
        None \<Rightarrow> ''missing''
      | Some t \<Rightarrow> if now - t < 300 then ''fresh'' else if now - t < 3600 then ''stale'' else ''missing'')"

text \<open>A stored balance: the broker's tags, a bare number, or something that is not one.\<close>

datatype balance = Tags "(string \<times> flt option) list" | Number flt | Unparseable

definition currency_cash :: "balance option \<Rightarrow> flt" where
  "currency_cash b =
     (case b of
        Some (Tags ts) \<Rightarrow> flt_or0 (case map_of ts ''CashBalance'' of None \<Rightarrow> None | Some v \<Rightarrow> v)
      | Some (Number v) \<Rightarrow> v
      | _ \<Rightarrow> 0)"

type_synonym balances = "(string \<times> balance) list"

record cash_row =
  cr_ccy :: string
  cr_settled :: flt
  cr_rate :: "flt option"
  cr_usd_value :: "flt option"

definition cash_row_of :: "flt option \<Rightarrow> string \<times> balance \<Rightarrow> cash_row" where
  "cash_row_of eurusd cb =
     (case cb of (ccy, b) \<Rightarrow>
        let settled = currency_cash (Some b);
            ru = (if ccy = ''USD'' then (Some 1, Some settled)
                  else if ccy = ''EUR'' then (case eurusd of Some r \<Rightarrow> (Some r, Some (settled * r)) | None \<Rightarrow> (None, None))
                  else (None, None))
        in \<lparr>cr_ccy = ccy, cr_settled = settled, cr_rate = fst ru, cr_usd_value = map_option (py_round 2) (snd ru)\<rparr>)"

text \<open>Largest value first, unconvertible currencies last: the sort is stable.\<close>

definition sort_cash :: "cash_row list \<Rightarrow> cash_row list" where
  "sort_cash rows =
     sort_key (\<lambda>r. - flt_or0 (cr_usd_value r)) (filter (\<lambda>r. cr_usd_value r \<noteq> None) rows) @ filter (\<lambda>r. cr_usd_value r = None) rows"

definition cash_holdings :: "flt option \<Rightarrow> balances option \<Rightarrow> cash_row list \<times> flt" where
  "cash_holdings eurusd currencies =
     (let rows = sort_cash (map (cash_row_of eurusd) (case currencies of None \<Rightarrow> [] | Some cs \<Rightarrow> cs))
      in (rows, py_round 2 (sum_list (List.map_filter cr_usd_value rows))))"

record valuation_point =
  vp_timestamp :: time
  vp_net_liq :: "flt option"
  vp_usd :: "flt option"
  vp_eur :: "flt option"
  vp_contracts :: "flt option"

text \<open>The while loop over the spots up to the time of a snapshot.\<close>

fun advance_spot :: "time \<Rightarrow> flt option \<Rightarrow> (time \<times> flt) list \<Rightarrow> flt option \<times> (time \<times> flt) list" where
  "advance_spot ts spot [] = (spot, [])"
| "advance_spot ts spot ((t, x) # xs) = (if t \<le> ts then advance_spot ts (Some x) xs else (spot, (t, x) # xs))"

definition valuation_parts :: "flt option \<Rightarrow> balances option \<Rightarrow> flt option \<Rightarrow> (flt \<times> flt \<times> flt) option" where
  "valuation_parts net_liq ccy spot =
     (case (net_liq, ccy, spot) of
        (Some nl, Some cs, Some sp) \<Rightarrow>
          let usd = currency_cash (map_of cs ''USD''); eur = currency_cash (map_of cs ''EUR'') * sp
          in Some (usd, eur, nl - usd - eur)
      | _ \<Rightarrow> None)"

definition valuation_point_of :: "time \<Rightarrow> flt option \<Rightarrow> (flt \<times> flt \<times> flt) option \<Rightarrow> valuation_point" where
  "valuation_point_of ts net_liq parts =
     \<lparr>vp_timestamp = ts, vp_net_liq = map_option (py_round 2) net_liq, vp_usd = map_option (\<lambda>(u, e, c). py_round 2 u) parts,
      vp_eur = map_option (\<lambda>(u, e, c). py_round 2 e) parts, vp_contracts = map_option (\<lambda>(u, e, c). py_round 2 c) parts\<rparr>"

fun valuation_series :: "flt option \<Rightarrow> balances option \<Rightarrow> (time \<times> flt) list \<Rightarrow> (time \<times> flt option \<times> balances option) list \<Rightarrow> valuation_point list" where
  "valuation_series spot last_ccy spots [] = []"
| "valuation_series spot last_ccy spots ((ts, net_liq, currencies) # acct) =
     (case advance_spot ts spot spots of (spot', rest) \<Rightarrow>
        let ccy = (case currencies of None \<Rightarrow> last_ccy | Some cs \<Rightarrow> if cs = [] then last_ccy else Some cs)
        in valuation_point_of ts net_liq (valuation_parts net_liq ccy spot') # valuation_series spot' ccy rest acct)"

section \<open>Daily P&L, value at risk and the headline statistics\<close>

record daily_point =
  dp_day :: day
  dp_mtm :: flt
  dp_realized :: flt
  dp_cumulative :: flt
  dp_n_closed :: int
  dp_net_liq_close :: flt

fun daily_points :: "flt \<Rightarrow> daily_table \<Rightarrow> daily_point list" where
  "daily_points cum [] = []"
| "daily_points cum ((d, r) # rs) =
     (let mtm = flt_or0 (dr_mtm r); c = cum + mtm
      in \<lparr>dp_day = d, dp_mtm = py_round 2 mtm, dp_realized = py_round 2 (dr_realized r), dp_cumulative = py_round 2 c,
          dp_n_closed = dr_n_closed r, dp_net_liq_close = dr_close r\<rparr> # daily_points c rs)"

definition daily_pnl :: "time \<Rightarrow> int \<Rightarrow> daily_table \<Rightarrow> daily_point list \<times> flt" where
  "daily_pnl now days t =
     (let rows = read_portfolio_daily now days t
      in (daily_points 0 rows, py_round 2 (foldl (\<lambda>c (d, r). c + flt_or0 (dr_mtm r)) 0 rows)))"

fun gap_deltas :: "int \<Rightarrow> (day \<times> flt) list \<Rightarrow> flt list" where
  "gap_deltas max_gap ((d, v) # (d', v') # nav) =
     (if d' - d \<le> max_gap then [v' - v] else []) @ gap_deltas max_gap ((d', v') # nav)"
| "gap_deltas max_gap _ = []"

record var_report =
  vr_method :: string
  vr_n_days :: nat
  vr_mean_daily :: "flt option"
  vr_var_95 :: "flt option"
  vr_var_99 :: "flt option"
  vr_es_99 :: "flt option"
  vr_hist :: "bin list"

definition var_report_of :: "string \<Rightarrow> flt list \<Rightarrow> var_report" where
  "var_report_of how pnl =
     (let stats = var_stats_of pnl
      in \<lparr>vr_method = how, vr_n_days = length pnl, vr_mean_daily = (if pnl = [] then None else Some (py_round 2 (mean pnl))),
          vr_var_95 = map_option (\<lambda>s. py_round 2 (vs_var_95 s)) stats, vr_var_99 = map_option (\<lambda>s. py_round 2 (vs_var_99 s)) stats,
          vr_es_99 = map_option (\<lambda>s. py_round 2 (vs_es_99 s)) stats, vr_hist = histogram pnl 0\<rparr>)"

definition setting_int :: "(string \<times> flt) list \<Rightarrow> string \<Rightarrow> int \<Rightarrow> int" where
  "setting_int pf k dflt = (case map_of pf k of None \<Rightarrow> dflt | Some v \<Rightarrow> if v < 0 then \<lceil>v\<rceil> else \<lfloor>v\<rfloor>)"

text \<open>\<open>sim\<close> is the P&L vector of the replayed market moves, None when there is no book or no bars.\<close>

definition value_at_risk :: "time \<Rightarrow> flt list option \<Rightarrow> (string \<times> flt) list \<Rightarrow> daily_table \<Rightarrow> var_report" where
  "value_at_risk now sim pf t =
     (case sim of
        Some pnl \<Rightarrow> var_report_of ''historical-simulation'' pnl
      | None \<Rightarrow> var_report_of ''account-history''
          (gap_deltas (setting_int pf ''var_max_gap_days'' VAR_MAX_GAP_DAYS)
             (fst (read_nav_series now (setting_int pf ''var_lookback_days'' 504) t))))"

record portfolio_stats =
  ps_sharpe :: "flt option"
  ps_max_drawdown_pct :: "flt option"
  ps_current_drawdown_pct :: "flt option"
  ps_hit_rate :: "flt option"
  ps_n_closed :: nat
  ps_n_reconciled_flat :: nat
  ps_cum_realized :: flt
  ps_net_liq_change :: "flt option"
  ps_n_days :: nat

definition portfolio_stats_of :: "time \<Rightarrow> daily_table \<Rightarrow> position_row table \<Rightarrow> portfolio_stats" where
  "portfolio_stats_of now t positions =
     (let nl = map (\<lambda>(d, r). dr_close r) (read_portfolio_daily now 365 t);
          closed = map snd (twhere (\<lambda>p. b_state p = P_closed) positions);
          booked = List.map_filter b_net_pnl_usd closed;
          n = length booked
      in case sharpe_and_drawdown nl of (sharpe, max_dd, current_dd) \<Rightarrow>
           \<lparr>ps_sharpe = map_option (py_round 3) sharpe, ps_max_drawdown_pct = map_option (\<lambda>x. py_round 2 (x * 100)) max_dd,
            ps_current_drawdown_pct = map_option (\<lambda>x. py_round 2 (x * 100)) current_dd,
            ps_hit_rate = (if n = 0 then None else Some (py_round 4 (real (length (filter (\<lambda>x. 0 < x) booked)) / real n))),
            ps_n_closed = n,
            ps_n_reconciled_flat = length (filter (\<lambda>p. b_close_reason p = Some ''reconciled_flat_at_ib'') closed),
            ps_cum_realized = py_round 2 (sum_list booked),
            ps_net_liq_change = (if 2 \<le> length nl then Some (py_round 2 (last nl - hd nl)) else None), ps_n_days = length nl\<rparr>)"

section \<open>Quantiles are monotone\<close>

lemma percentile_rank:
  assumes "s \<noteq> []" "0 \<le> q" "q \<le> 1"
  defines "r \<equiv> q * real (length s - 1)"
  shows "0 \<le> r" "r \<le> real (length s - 1)" "nat \<lfloor>r\<rfloor> \<le> length s - 1" "real (nat \<lfloor>r\<rfloor>) \<le> r" "r < real (nat \<lfloor>r\<rfloor>) + 1"
proof -
  show r: "0 \<le> r" using assms by (simp add: r_def)
  show b: "r \<le> real (length s - 1)" using assms(3) mult_right_mono [of q 1 "real (length s - 1)"] by (simp add: r_def)
  show "real (nat \<lfloor>r\<rfloor>) \<le> r" using r by simp
  then show "nat \<lfloor>r\<rfloor> \<le> length s - 1" using b by linarith
  show "r < real (nat \<lfloor>r\<rfloor>) + 1" using r by linarith
qed

lemma interpolate_between:
  fixes a b x :: flt
  assumes "a \<le> b" "0 \<le> x" "x \<le> 1"
  shows "a \<le> a + x * (b - a)" "a + x * (b - a) \<le> b"
proof -
  have "x * (b - a) \<le> 1 * (b - a)" using assms by (intro mult_right_mono) auto
  then show "a \<le> a + x * (b - a)" "a + x * (b - a) \<le> b" using assms by auto
qed

lemma percentile_mono:
  assumes s: "sorted s" "s \<noteq> []" and q: "0 \<le> q" "q \<le> p" "p \<le> 1"
  shows "\<exists>a b. percentile s q = Some a \<and> percentile s p = Some b \<and> a \<le> b \<and> hd s \<le> a \<and> b \<le> last s"
proof -
  let ?n = "length s - 1"
  define rq rp where "rq = q * real ?n" and "rp = p * real ?n"
  define lq lp where "lq = nat \<lfloor>rq\<rfloor>" and "lp = nat \<lfloor>rp\<rfloor>"
  have ranks: "rq \<le> rp" using q(2) by (simp add: rq_def rp_def mult_right_mono)
  have Q: "lq \<le> ?n" "real lq \<le> rq" "rq < real lq + 1"
    using percentile_rank [of s q] s(2) q by (simp_all add: rq_def lq_def)
  have P: "lp \<le> ?n" "real lp \<le> rp" "rp < real lp + 1" "rp \<le> real ?n"
    using percentile_rank [of s p] s(2) q by (simp_all add: rp_def lp_def)
  have len: "?n < length s" using s(2) by simp
  have up: "s ! i \<le> s ! j" if "i \<le> j" "j \<le> ?n" for i j using sorted_nth_mono [OF s(1) that(1)] that(2) len by linarith
  define a where "a = s ! lq + (rq - real lq) * (s ! min (lq + 1) ?n - s ! lq)"
  define b where "b = s ! lp + (rp - real lp) * (s ! min (lp + 1) ?n - s ! lp)"
  have a: "percentile s q = Some a" and b: "percentile s p = Some b"
    using s(2) by (simp_all add: percentile_def a_def b_def Let_def rq_def rp_def lq_def lp_def)
  have ua: "s ! lq \<le> s ! min (lq + 1) ?n" and ub: "s ! lp \<le> s ! min (lp + 1) ?n" by (rule up; use Q(1) P(1) in simp)+
  have A: "s ! lq \<le> a" "a \<le> s ! min (lq + 1) ?n"
    using interpolate_between [OF ua, of "rq - real lq"] Q by (simp_all add: a_def)
  have B: "s ! lp \<le> b" "b \<le> s ! min (lp + 1) ?n"
    using interpolate_between [OF ub, of "rp - real lp"] P by (simp_all add: b_def)
  have "a \<le> b"
  proof (cases "lq = lp")
    case True
    have "(rq - real lq) * (s ! min (lq + 1) ?n - s ! lq) \<le> (rp - real lp) * (s ! min (lp + 1) ?n - s ! lp)"
      unfolding True using ranks ub by (intro mult_right_mono) auto
    then show ?thesis by (simp add: a_def b_def True)
  next
    case False
    then have "lq + 1 \<le> lp" using ranks Q(2) P(3) by linarith
    then have "s ! min (lq + 1) ?n \<le> s ! lp" using P(1) by (intro up) auto
    then show ?thesis using A(2) B(1) by linarith
  qed
  moreover have "hd s \<le> a" using A(1) up [of 0 lq] Q(1) s(2) by (simp add: hd_conv_nth)
  moreover have "b \<le> last s" using B(2) up [of "min (lp + 1) ?n" ?n] s(2) by (simp add: last_conv_nth)
  ultimately show ?thesis using a b by blast
qed

text \<open>
  The risk numbers are ordered: from five observations on, the expected shortfall is at most the
  99% value at risk, which is at most the 95% one, and all lie between the worst and the best
  day; with fewer there is no number.
\<close>

theorem var_stats_ordered:
  "(length deltas < 5 \<longrightarrow> var_stats_of deltas = None) \<and>
   (5 \<le> length deltas \<longrightarrow> (\<exists>s. var_stats_of deltas = Some s \<and> Min (set deltas) \<le> vs_es_99 s \<and>
      vs_es_99 s \<le> vs_var_99 s \<and> vs_var_99 s \<le> vs_var_95 s \<and> vs_var_95 s \<le> Max (set deltas)))"
proof (cases "length deltas < 5")
  case False
  let ?s = "sort deltas"
  have nd: "deltas \<noteq> []" using False by auto
  have ne: "?s \<noteq> []" by (metis nd set_empty set_sort)
  obtain v99 v95 where v: "percentile ?s (1/100) = Some v99" "percentile ?s (5/100) = Some v95" "v99 \<le> v95"
    "hd ?s \<le> v99" "v95 \<le> last ?s"
    using percentile_mono [of ?s "1/100" "5/100"] ne by auto
  have hd_min: "\<forall>x \<in> set ?s. hd ?s \<le> x"
    using ne(1) sorted_sort [of deltas] by (cases ?s) (auto simp del: sorted_sort)
  define losses where "losses = filter (\<lambda>x. x \<le> v99) ?s"
  have l: "losses \<noteq> []" using v(4) ne(1) hd_in_set [OF ne(1)] by (auto simp: losses_def filter_empty_conv)
  have bounds: "real (length losses) * hd ?s \<le> sum_list losses \<and> sum_list losses \<le> real (length losses) * v99"
  proof -
    have "\<forall>x \<in> set losses. hd ?s \<le> x \<and> x \<le> v99" using hd_min by (auto simp: losses_def)
    then show ?thesis by (induction losses) (auto simp: algebra_simps)
  qed
  then have es: "hd ?s \<le> sum_list losses / real (length losses)" "sum_list losses / real (length losses) \<le> v99"
    using l by (auto simp: field_simps)
  have "hd ?s = Min (set deltas)" using hd_min hd_in_set [OF ne(1)] by (intro Min_eqI [symmetric]) auto
  moreover have "last ?s \<le> Max (set deltas)" using last_in_set [OF ne(1)] by (intro Max_ge) auto
  ultimately show ?thesis
    using v es l False by (auto simp: var_stats_of_def VAR_MIN_OBS_def Let_def losses_def)
qed (simp add: var_stats_of_def VAR_MIN_OBS_def)

theorem var_stats_ordered_witness:
  "\<exists>s. var_stats_of [3, -1, 4, -1, 5] = Some s \<and> -1 \<le> vs_es_99 s \<and> vs_es_99 s \<le> vs_var_95 s"
proof -
  have "5 \<le> length [3, -1, 4, -1, 5 :: flt]" by simp
  then obtain s where s: "var_stats_of [3, -1, 4, -1, 5] = Some s" "Min (set [3, -1, 4, -1, 5]) \<le> vs_es_99 s" "vs_es_99 s \<le> vs_var_99 s"
    "vs_var_99 s \<le> vs_var_95 s"
    using var_stats_ordered [of "[3, -1, 4, -1, 5]"] by blast
  then show ?thesis by (intro exI [of _ s]) simp
qed

section \<open>The histogram counts every value once\<close>

lemma bin_counts_snoc:
  "bin_counts n lo w (vs @ [v]) = (bin_counts n lo w vs)[bin_index n lo w v := bin_counts n lo w vs ! bin_index n lo w v + 1]"
  by (simp add: bin_counts_def Let_def)

lemma bin_counts_length [simp]: "length (bin_counts n lo w vs) = n"
  by (induction vs rule: rev_induct) (simp_all add: bin_counts_snoc, simp add: bin_counts_def)

lemma bin_counts_at:
  assumes "i < n"
  shows "bin_counts n lo w vs ! i = length (filter (\<lambda>v. bin_index n lo w v = i) vs)"
proof (induction vs rule: rev_induct)
  case Nil
  then show ?case using assms by (simp add: bin_counts_def)
next
  case (snoc v vs)
  have "bin_index n lo w v < n" using assms by (simp add: bin_index_def)
  then show ?case using snoc assms by (auto simp: bin_counts_snoc nth_list_update)
qed

lemma sum_of_counts:
  assumes "\<forall>v \<in> set vs. f v < (n :: nat)"
  shows "sum_list (map (\<lambda>i. length (filter (\<lambda>v. f v = i) vs)) [0..<n]) = length vs"
  using assms
proof (induction vs)
  case (Cons v vs)
  have "sum_list (map (\<lambda>i. length (filter (\<lambda>v. f v = i) (v # vs))) [0..<n])
      = sum_list (map (\<lambda>i. (if f v = i then 1 else 0) + length (filter (\<lambda>v. f v = i) vs)) [0..<n])"
    by (rule arg_cong [of _ _ sum_list], rule map_cong) auto
  also have "\<dots> = sum_list (map (\<lambda>i. if f v = i then 1 else 0) [0..<n]) + length vs"
    using Cons by (simp add: sum_list_addf)
  also have "sum_list (map (\<lambda>i. if f v = i then 1 else (0::nat)) [0..<n]) = 1"
    using Cons.prems by (simp add: sum_list_sum_nth atLeast0LessThan)
  finally show ?case by simp
qed simp

lemma bin_index_spec:
  assumes "0 < n" "0 < w" "lo \<le> v" "v \<le> lo + real n * w"
  shows "lo + real (bin_index n lo w v) * w \<le> v" "v \<le> lo + real (bin_index n lo w v + 1) * w"
    "bin_index n lo w v < n - 1 \<Longrightarrow> v < lo + real (bin_index n lo w v + 1) * w"
proof -
  define x where "x = (v - lo) / w"
  have x: "0 \<le> x" "x \<le> real n" "v = lo + x * w" using assms by (simp_all add: x_def field_simps)
  define k where "k = nat \<lfloor>x\<rfloor>"
  have k: "real k \<le> x" "x < real k + 1" using x(1) unfolding k_def by linarith+
  have i: "bin_index n lo w v = min (n - 1) k" by (simp add: bin_index_def k_def x_def)
  have "real (min (n - 1) k) \<le> x" using k by linarith
  then show "lo + real (bin_index n lo w v) * w \<le> v" unfolding i using assms(2) by (simp add: x(3))
  have "x \<le> real (min (n - 1) k) + 1" using k x(2) assms(1) by (auto simp: min_def)
  then have "x * w \<le> (real (min (n - 1) k) + 1) * w" using assms(2) by (intro mult_right_mono) auto
  then show "v \<le> lo + real (bin_index n lo w v + 1) * w" unfolding i by (simp add: x(3) add.commute)
  assume "bin_index n lo w v < n - 1"
  then have "min (n - 1) k = k" unfolding i by simp
  then show "v < lo + real (bin_index n lo w v + 1) * w" unfolding i using k(2) assms(2) by (simp add: x(3) add.commute)
qed

text \<open>
  The histogram is a partition of the sample: with at least two different values it has the
  number of bins asked for (5 to 21 by default), their counts add up to the number of values, and
  the count of a bin is the number of values between its edges, the upper edge belonging to the
  next bin except for the last.
\<close>

theorem histogram_partitions:
  assumes "2 \<le> length values" "Min (set values) < Max (set values)"
    and n_def: "n = (if nbins \<le> 0 then max 5 (min 21 (1 + bit_length (length values))) else nat nbins)"
    and edge_def: "\<And>i. edge i = Min (set values) + real i * ((Max (set values) - Min (set values)) / real n)"
  shows "length (histogram values nbins) = n \<and> sum_list (map bn_count (histogram values nbins)) = length values \<and>
    (\<forall>i < n. bn_lo (histogram values nbins ! i) = py_round 2 (edge i) \<and> bn_hi (histogram values nbins ! i) = py_round 2 (edge (i + 1)) \<and>
       bn_count (histogram values nbins ! i)
         = length (filter (\<lambda>v. edge i \<le> v \<and> (v < edge (i + 1) \<or> i = n - 1 \<and> v \<le> edge (i + 1))) values))"
proof -
  let ?lo = "Min (set values)" let ?hi = "Max (set values)"
  define w where "w = (?hi - ?lo) / real n"
  have n: "0 < n" by (auto simp: n_def)
  have w: "0 < w" "?hi = ?lo + real n * w" using assms(2) n by (simp_all add: w_def)
  have e: "edge i = ?lo + real i * w" for i by (simp add: edge_def w_def)
  have h: "histogram values nbins = map (\<lambda>i. \<lparr>bn_lo = py_round 2 (edge i), bn_hi = py_round 2 (edge (i + 1)),
      bn_count = bin_counts n ?lo w values ! i\<rparr>) [0..<n]"
    using assms(1,2) unfolding histogram_def e by (simp add: Let_def w_def n_def)
  have v: "?lo \<le> v" "v \<le> ?lo + real n * w" if "v \<in> set values" for v
    using that w(2) by (metis List.finite_set Min_le, metis List.finite_set Max_ge)
  have count: "bin_counts n ?lo w values ! i = length (filter (\<lambda>v. bin_index n ?lo w v = i) values)" if "i < n" for i
    by (rule bin_counts_at [OF that])
  have idx: "bin_index n ?lo w v = i \<longleftrightarrow> edge i \<le> v \<and> (v < edge (i + 1) \<or> i = n - 1 \<and> v \<le> edge (i + 1))"
    if i: "i < n" and x: "v \<in> set values" for i v
  proof
    assume "bin_index n ?lo w v = i"
    then show "edge i \<le> v \<and> (v < edge (i + 1) \<or> i = n - 1 \<and> v \<le> edge (i + 1))"
      using bin_index_spec [OF n w(1) v [OF x]] i unfolding e by fastforce
  next
    assume r: "edge i \<le> v \<and> (v < edge (i + 1) \<or> i = n - 1 \<and> v \<le> edge (i + 1))"
    then have b: "real i \<le> (v - ?lo) / w" "(v - ?lo) / w \<le> real i + 1" using w(1) by (auto simp: e field_simps)
    show "bin_index n ?lo w v = i"
    proof (cases "i = n - 1")
      case True
      have "int i \<le> \<lfloor>(v - ?lo) / w\<rfloor>" using b(1) by (simp add: le_floor_iff)
      then have "i \<le> nat \<lfloor>(v - ?lo) / w\<rfloor>" by linarith
      then show ?thesis using True by (simp add: bin_index_def)
    next
      case False
      then have "(v - ?lo) / w < real i + 1" using r w(1) by (auto simp: e field_simps)
      then have "\<lfloor>(v - ?lo) / w\<rfloor> = int i" using b(1) by (simp add: floor_eq_iff)
      then show ?thesis using i by (simp add: bin_index_def)
    qed
  qed
  have "sum_list (map bn_count (histogram values nbins)) = sum_list (map (\<lambda>i. length (filter (\<lambda>v. bin_index n ?lo w v = i) values)) [0..<n])"
    unfolding h map_map by (rule arg_cong [of _ _ sum_list], rule map_cong) (auto simp: count)
  also have "\<dots> = length values" by (rule sum_of_counts) (use n in \<open>auto simp: bin_index_def\<close>)
  finally have "sum_list (map bn_count (histogram values nbins)) = length values" .
  moreover have "length (filter (\<lambda>v. bin_index n ?lo w v = i) values)
      = length (filter (\<lambda>v. edge i \<le> v \<and> (v < edge (i + 1) \<or> i = n - 1 \<and> v \<le> edge (i + 1))) values)" if "i < n" for i
    using idx [OF that] by (intro arg_cong [of _ _ length] filter_cong) auto
  ultimately show ?thesis by (simp add: h count)
qed

theorem histogram_partitions_witness:
  "sum_list (map bn_count (histogram [1, 2, 5] 4)) = 3"
  using histogram_partitions [of "[1, 2, 5]", OF _ _ HOL.refl HOL.refl, of 4] by simp

text \<open>The default number of bins is not Sturges' rule of the comment on powers of two: 8 values ask for 4, not 5.\<close>

lemma bit_length_8: "1 + bit_length 8 = 5" "1 + \<lceil>log 2 8\<rceil> = 4"
proof -
  have "log 2 8 = (3::real)" using log_pow_cancel [of 2 3] by simp
  then show "1 + \<lceil>log 2 8\<rceil> = 4" by simp
qed (simp add: bit_length.simps)

section \<open>Drawdowns\<close>

lemma drawdown_loop_spec:
  assumes "0 < p" "\<forall>v \<in> set vs. 0 < v"
  shows "drawdown_loop p m vs \<le> m \<and>
    (\<forall>j < length vs. drawdown_loop p m vs \<le> (vs ! j - p) / p) \<and>
    (\<forall>j < length vs. \<forall>i \<le> j. drawdown_loop p m vs \<le> (vs ! j - vs ! i) / vs ! i) \<and>
    (drawdown_loop p m vs = m \<or> (\<exists>j < length vs. drawdown_loop p m vs = (vs ! j - p) / p \<or>
      (\<exists>i \<le> j. drawdown_loop p m vs = (vs ! j - vs ! i) / vs ! i)))"
  using assms
proof (induction vs arbitrary: p m)
  case (Cons v vs)
  define P where "P = max p v"
  define D where "D = drawdown_loop P (min m ((v - P) / P)) vs"
  have pos: "0 < P" "0 < v" "\<forall>v \<in> set vs. 0 < v" using Cons.prems by (auto simp: P_def)
  have d: "drawdown_loop p m (v # vs) = D" using pos(1) by (simp add: D_def P_def Let_def)
  note IH = Cons.IH [OF pos(1,3), of "min m ((v - P) / P)", folded D_def]
  have IH1: "D \<le> min m ((v - P) / P)" by (rule conjunct1 [OF IH])
  have IH2: "D \<le> (vs ! j - P) / P" if "j < length vs" for j using conjunct1 [OF conjunct2 [OF IH]] that by blast
  have IH3: "D \<le> (vs ! j - vs ! i) / vs ! i" if "j < length vs" "i \<le> j" for i j
    using conjunct1 [OF conjunct2 [OF conjunct2 [OF IH]]] that by blast
  have IH4: "D = min m ((v - P) / P) \<or> (\<exists>j < length vs. D = (vs ! j - P) / P \<or> (\<exists>i \<le> j. D = (vs ! j - vs ! i) / vs ! i))"
    by (rule conjunct2 [OF conjunct2 [OF conjunct2 [OF IH]]])
  have lower: "(x - P) / P \<le> (x - q) / q" if "0 < x" "0 < q" "q \<le> P" for x q
  proof -
    have "x / P \<le> x / q" using that pos(1) by (intro divide_left_mono) auto
    then show ?thesis using that pos(1) by (simp add: diff_divide_distrib)
  qed
  have le_m: "D \<le> m" "D \<le> (v - P) / P" using IH1 by (simp_all only: min.bounded_iff)
  have all_p: "D \<le> ((v # vs) ! j - P) / P" if "j < length (v # vs)" for j using that IH2 le_m(2) by (cases j) simp_all
  have x_pos: "0 < (v # vs) ! j" if "j < length (v # vs)" for j using that Cons.prems(2) nth_mem by blast
  have to_p: "D \<le> ((v # vs) ! j - p) / p" if "j < length (v # vs)" for j
    by (rule order_trans [OF all_p [OF that] lower [OF x_pos [OF that] Cons.prems(1)]]) (simp add: P_def)
  have to_v: "D \<le> ((v # vs) ! j - v) / v" if "j < length (v # vs)" for j
    by (rule order_trans [OF all_p [OF that] lower [OF x_pos [OF that] pos(2)]]) (simp add: P_def)
  have pairs: "D \<le> ((v # vs) ! j - (v # vs) ! i) / (v # vs) ! i" if j: "j < length (v # vs)" "i \<le> j" for i j
  proof (cases i)
    case 0
    then show ?thesis using to_v [OF j(1)] by simp
  next
    case (Suc i')
    then obtain j' where "j = Suc j'" "i' \<le> j'" "j' < length vs" using j by (cases j) auto
    then show ?thesis using IH3 [of j' i'] Suc by simp
  qed
  let ?fall = "\<lambda>j. D = ((v # vs) ! j - p) / p \<or> (\<exists>i \<le> j. D = ((v # vs) ! j - (v # vs) ! i) / (v # vs) ! i)"
  have peak: "P = v \<or> P = p" by (simp add: P_def max_def)
  have reached: "?fall j" if "D = ((v # vs) ! j - P) / P" for j
    using peak
  proof
    assume "P = v"
    then have "D = ((v # vs) ! j - (v # vs) ! 0) / (v # vs) ! 0" using that by simp
    then show ?thesis by blast
  next
    assume "P = p"
    then show ?thesis using that by simp
  qed
  have deep: "?fall (Suc j)" if "D = (vs ! j - vs ! i) / vs ! i" "i \<le> j" for i j
  proof -
    have "D = ((v # vs) ! Suc j - (v # vs) ! Suc i) / (v # vs) ! Suc i" using that(1) by simp
    moreover have "Suc i \<le> Suc j" using that(2) by simp
    ultimately show ?thesis by blast
  qed
  have "D = m \<or> D = (v - P) / P \<or> (\<exists>j < length vs. D = (vs ! j - P) / P \<or> (\<exists>i \<le> j. D = (vs ! j - vs ! i) / vs ! i))"
    using IH4 unfolding min_def by (simp only: split: if_splits) blast+
  then have "D = m \<or> (\<exists>j < length (v # vs). ?fall j)"
  proof (elim disjE exE conjE)
    assume "D = (v - P) / P"
    then have "?fall 0" by (intro reached) simp
    then show ?thesis by (intro disjI2 exI [of _ 0]) simp
  next
    fix j assume "j < length vs" "D = (vs ! j - P) / P"
    then have "?fall (Suc j)" by (intro reached) simp
    then show ?thesis using \<open>j < length vs\<close> by (intro disjI2 exI [of _ "Suc j"]) simp
  next
    fix j i assume "j < length vs" "i \<le> j" "D = (vs ! j - vs ! i) / vs ! i"
    then have "?fall (Suc j)" by (intro deep)
    then show ?thesis using \<open>j < length vs\<close> by (intro disjI2 exI [of _ "Suc j"]) simp
  qed simp
  then show ?case unfolding d using le_m(1) to_p pairs by blast
qed simp

text \<open>
  The drawdowns are the ones of the curve: on positive closes the maximal drawdown is the worst
  fall from an earlier to a later day, zero or attained, the current one the fall from the
  highest close to the last, and they satisfy -1 < maximal \<le> current \<le> 0.
\<close>

theorem drawdowns_exact:
  assumes "3 \<le> length nl" "\<forall>v \<in> set nl. 0 < v"
  shows "\<exists>sharpe d c. sharpe_and_drawdown nl = (sharpe, Some d, Some c) \<and> - 1 < d \<and> d \<le> c \<and> c \<le> 0 \<and>
    c = (last nl - Max (set nl)) / Max (set nl) \<and>
    (\<forall>j < length nl. \<forall>i \<le> j. d \<le> (nl ! j - nl ! i) / nl ! i) \<and>
    (d = 0 \<or> (\<exists>j < length nl. \<exists>i \<le> j. d = (nl ! j - nl ! i) / nl ! i))"
proof -
  have ne: "nl \<noteq> []" using assms(1) by auto
  define d where "d = drawdown_loop (hd nl) 0 nl"
  define c where "c = (last nl - Max (set nl)) / Max (set nl)"
  have hd0: "hd nl = nl ! 0" using ne by (simp add: hd_conv_nth)
  have "0 < hd nl" using assms(2) ne by simp
  note loop = drawdown_loop_spec [OF this assms(2), of 0, folded d_def]
  have spec: "\<forall>j < length nl. \<forall>i \<le> j. d \<le> (nl ! j - nl ! i) / nl ! i"
    by (rule conjunct1 [OF conjunct2 [OF conjunct2 [OF loop]]])
  have reached: "d = 0 \<or> (\<exists>j < length nl. \<exists>i \<le> j. d = (nl ! j - nl ! i) / nl ! i)"
    using conjunct2 [OF conjunct2 [OF conjunct2 [OF loop]]] unfolding hd0
  proof (elim disjE exE conjE)
    fix j assume "j < length nl" "d = (nl ! j - nl ! 0) / nl ! 0"
    then show ?thesis using le0 [of j] by blast
  qed blast+
  have "Max (set nl) \<in> set nl" using ne by simp
  then obtain k where k: "k < length nl" "nl ! k = Max (set nl)" by (auto simp: in_set_conv_nth)
  have M: "0 < Max (set nl)" using \<open>Max (set nl) \<in> set nl\<close> assms(2) by blast
  have "d \<le> (nl ! (length nl - 1) - nl ! k) / nl ! k" using spec k(1) ne by auto
  then have "d \<le> c" using k(2) ne by (simp add: c_def last_conv_nth)
  moreover have "c \<le> 0" using M ne by (simp add: c_def divide_nonpos_pos)
  moreover have "- 1 < d"
    using reached
  proof (elim disjE exE conjE)
    fix j i assume j: "j < length nl" "i \<le> j" "d = (nl ! j - nl ! i) / nl ! i"
    have "0 < nl ! j" "0 < nl ! i" using assms(2) j by auto
    moreover from this have "d = nl ! j / nl ! i - 1" using j(3) by (simp add: diff_divide_distrib)
    ultimately show ?thesis by simp
  qed simp
  moreover have "sharpe_and_drawdown nl = (sharpe_of (returns nl), Some d, Some c)"
    using assms(1) M by (simp add: sharpe_and_drawdown_def d_def c_def Let_def)
  ultimately show ?thesis using spec reached c_def by blast
qed

theorem drawdowns_exact_witness:
  "\<exists>sharpe d c. sharpe_and_drawdown [2, 4, 1, 3] = (sharpe, Some d, Some c) \<and> - 1 < d \<and> d \<le> - 3 / 4 \<and> c = - 1 / 4"
proof -
  obtain sharpe d c where r: "sharpe_and_drawdown [2, 4, 1, 3] = (sharpe, Some d, Some c)" "- 1 < d"
    "c = (last [2, 4, 1, 3] - Max (set [2, 4, 1, 3])) / Max (set [2, 4, 1, 3 :: flt])"
    "\<forall>j < length [2, 4, 1, 3 :: flt]. \<forall>i \<le> j. d \<le> ([2, 4, 1, 3] ! j - [2, 4, 1, 3] ! i) / [2, 4, 1, 3] ! i"
    using drawdowns_exact [of "[2, 4, 1, 3]"] by auto
  have "d \<le> ([2, 4, 1, 3] ! 2 - [2, 4, 1, 3] ! 1) / [2, 4, 1, 3] ! 1" using r(4) [rule_format, of 2 1] by simp
  then show ?thesis using r by (intro exI [of _ sharpe] exI [of _ d] exI [of _ c]) simp
qed

section \<open>The valuation stacks to the net liquidation value\<close>

definition spot_before :: "flt option \<Rightarrow> (time \<times> flt) list \<Rightarrow> time \<Rightarrow> flt option" where
  "spot_before seed spots ts =
     (let earlier = filter (\<lambda>x. fst x \<le> ts) spots in if earlier = [] then seed else Some (snd (last earlier)))"

fun last_known :: "balances option \<Rightarrow> balances option list \<Rightarrow> balances option" where
  "last_known b [] = b"
| "last_known b (x # xs) = last_known (case x of None \<Rightarrow> b | Some cs \<Rightarrow> if cs = [] then b else Some cs) xs"

lemma advance_spot_filter:
  "sorted (map fst spots) \<Longrightarrow> advance_spot ts spot spots = (spot_before spot spots ts, filter (\<lambda>x. ts < fst x) spots)"
proof (induction spots arbitrary: spot)
  case (Cons s spots)
  obtain t x where s: "s = (t, x)" by (cases s)
  show ?case
  proof (cases "t \<le> ts")
    case True
    then show ?thesis using Cons by (auto simp: s spot_before_def Let_def)
  next
    case False
    have later: "\<forall>y \<in> set (s # spots). \<not> fst y \<le> ts" using Cons.prems False by (fastforce simp: s)
    then have none: "filter (\<lambda>y. fst y \<le> ts) (s # spots) = []" and all: "filter (\<lambda>y. ts < fst y) (s # spots) = s # spots"
      by (simp_all only: filter_empty_conv filter_id_conv not_le)
    show ?thesis using False unfolding spot_before_def none all by (simp add: s)
  qed
qed (simp add: spot_before_def)

lemma spot_before_rest:
  assumes "ts \<le> ts'" "sorted (map fst spots)"
  shows "spot_before (spot_before seed spots ts) (filter (\<lambda>x. ts < fst x) spots) ts' = spot_before seed spots ts'"
proof -
  have parts: "filter (\<lambda>x. fst x \<le> ts') spots = filter (\<lambda>x. fst x \<le> ts) spots @ filter (\<lambda>x. fst x \<le> ts') (filter (\<lambda>x. ts < fst x) spots)"
    using assms(2)
  proof (induction spots)
    case (Cons s spots)
    show ?case
    proof (cases "fst s \<le> ts")
      case True
      then show ?thesis using Cons assms(1) by auto
    next
      case False
      then have "\<forall>y \<in> set (s # spots). \<not> fst y \<le> ts" using Cons.prems by fastforce
      then have "filter (\<lambda>y. fst y \<le> ts) (s # spots) = []" "filter (\<lambda>y. ts < fst y) (s # spots) = s # spots"
        by (simp_all only: filter_empty_conv filter_id_conv not_le)
      then show ?thesis by simp
    qed
  qed simp
  show ?thesis
    by (cases "filter (\<lambda>x. fst x \<le> ts') (filter (\<lambda>x. ts < fst x) spots) = []") (simp_all add: spot_before_def parts Let_def)
qed

lemma sorted_rest: "sorted (map fst xs) \<Longrightarrow> sorted (map fst (filter P xs))"
  by (rule sorted_filter)

text \<open>
  The valuation chart is exact: on snapshots and spots in time order, every snapshot is split with
  the last spot at or before it (the seed before the first) and the last breakdown that was not
  empty; when both are known, dollar cash, euro cash and contracts add up to the net liquidation
  value up to the rounding of the four numbers, otherwise no part is shown.
\<close>

theorem valuation_exact:
  assumes "sorted (map fst spots)" "sorted (map fst acct)" "i < length acct" "acct ! i = (ts, net_liq, currencies)"
  shows "valuation_series seed ccy spots acct ! i = valuation_point_of ts net_liq
      (valuation_parts net_liq (last_known ccy (map (\<lambda>a. snd (snd a)) (take (i + 1) acct))) (spot_before seed spots ts)) \<and>
    length (valuation_series seed ccy spots acct) = length acct \<and>
    (case valuation_series seed ccy spots acct ! i of p \<Rightarrow>
       (vp_usd p = None \<and> vp_eur p = None \<and> vp_contracts p = None) \<or>
       (\<exists>u e c n. vp_usd p = Some u \<and> vp_eur p = Some e \<and> vp_contracts p = Some c \<and> vp_net_liq p = Some n \<and> \<bar>u + e + c - n\<bar> \<le> 2 / 100))"
proof -
  have point: "valuation_series seed ccy spots acct ! i = valuation_point_of ts net_liq
      (valuation_parts net_liq (last_known ccy (map (\<lambda>a. snd (snd a)) (take (i + 1) acct))) (spot_before seed spots ts))"
    using assms
  proof (induction acct arbitrary: seed ccy spots i)
    case (Cons a acct)
    obtain t nl cur where a: "a = (t, nl, cur)" by (cases a) auto
    let ?ccy = "case cur of None \<Rightarrow> ccy | Some cs \<Rightarrow> if cs = [] then ccy else Some cs"
    let ?rest = "filter (\<lambda>x. t < fst x) spots"
    have step: "valuation_series seed ccy spots (a # acct) =
        valuation_point_of t nl (valuation_parts nl ?ccy (spot_before seed spots t)) # valuation_series (spot_before seed spots t) ?ccy ?rest acct"
      by (simp only: a valuation_series.simps advance_spot_filter [OF Cons.prems(1)] prod.case Let_def)
    show ?case
    proof (cases i)
      case 0
      then show ?thesis using Cons.prems(4) unfolding step by (simp add: a)
    next
      case (Suc j)
      have later: "t \<le> ts" using Cons.prems(2-4) Suc by (force simp: a dest: nth_mem)
      have "valuation_series (spot_before seed spots t) ?ccy ?rest acct ! j = valuation_point_of ts net_liq
          (valuation_parts net_liq (last_known ?ccy (map (\<lambda>a. snd (snd a)) (take (j + 1) acct))) (spot_before (spot_before seed spots t) ?rest ts))"
        using Cons.prems Suc by (intro Cons.IH sorted_rest) auto
      then show ?thesis unfolding step by (simp add: Suc a spot_before_rest [OF later Cons.prems(1)])
    qed
  qed simp
  have len: "length (valuation_series s c xs acct) = length acct" for s c xs
  proof (induction acct arbitrary: s c xs)
    case (Cons a acct)
    then show ?case by (cases a) (simp add: Let_def split: prod.split)
  qed simp
  have cents: "\<bar>py_round 2 x - x\<bar> \<le> 1 / 200" for x using py_round_close [of 2 x] by simp
  let ?parts = "valuation_parts net_liq (last_known ccy (map (\<lambda>a. snd (snd a)) (take (i + 1) acct))) (spot_before seed spots ts)"
  have stack: "\<bar>py_round 2 u + py_round 2 e + py_round 2 c - py_round 2 n\<bar> \<le> 2 / 100" if "n = u + e + c" for u e c n
    using that cents [of u] cents [of e] cents [of c] cents [of n] by linarith
  show ?thesis
  proof (cases ?parts)
    case None
    then show ?thesis unfolding point len by (simp add: valuation_point_of_def)
  next
    case (Some x)
    obtain u e c where x: "x = (u, e, c)" by (cases x) auto
    have "\<exists>n. net_liq = Some n \<and> n = u + e + c" using Some by (auto simp: x valuation_parts_def Let_def split: option.splits)
    then show ?thesis using stack unfolding point len Some x by (auto simp: valuation_point_of_def)
  qed
qed

theorem valuation_exact_witness:
  "valuation_series (Some 1) None [(5, 2)] [(4, Some 10, Some [(''USD'', Number 3)]), (6, Some 20, None)] ! 1
     = valuation_point_of 6 (Some 20) (Some (3, 0, 17))"
  using valuation_exact [of "[(5, 2)]" "[(4, Some 10, Some [(''USD'', Number 3)]), (6, Some 20, None)]" 1 6 "Some 20" None "Some 1" None]
  by (simp add: valuation_parts_def currency_cash_def spot_before_def)

section \<open>The daily results foot to the equity curve\<close>

lemma daily_total:
  "foldl (\<lambda>c (d, r). c + flt_or0 (dr_mtm r)) c rows = c + sum_list (map (\<lambda>x. flt_or0 (dr_mtm (snd x))) rows)"
  by (induction rows arbitrary: c) auto

text \<open>
  The total of the daily P&L panel is the change of the net liquidation value: after any refreshes
  of the rollup, over any window, it is the last close minus the close before the window (minus
  the first close when nothing precedes the window).
\<close>

theorem daily_pnl_foots:
  assumes "appended now0 [] xs" "read_portfolio_daily now days (refreshes xs []) = x # rest"
  shows "snd (daily_pnl now days (refreshes xs [])) =
    py_round 2 (dr_close (snd (last (x # rest))) -
      (case last_before (day_of now - (days - 1)) (refreshes xs []) of None \<Rightarrow> dr_close (snd x) | Some b \<Rightarrow> dr_close (snd b)))"
proof -
  let ?t = "refreshes xs []" let ?start = "day_of now - (days - 1)"
  let ?before = "filter (\<lambda>x. fst x < ?start) (by_date ?t)"
  have split: "by_date ?t = ?before @ x # rest"
    using sorted_split [OF by_date_sorted(1), of ?t ?start] assms(2) by (simp add: read_portfolio_daily_def not_less)
  note chain = daily_chain [OF assms(1) split]
  have sum: "snd (daily_pnl now days ?t) = py_round 2 (flt_or0 (dr_mtm (snd x)) + sum_list (map (\<lambda>y. flt_or0 (dr_mtm (snd y))) rest))"
    by (simp add: daily_pnl_def Let_def assms(2) daily_total)
  show ?thesis
  proof (cases "?before = []")
    case True
    then have "last_before ?start ?t = None" by (simp add: last_before_def)
    then show ?thesis using chain True by (simp add: sum)
  next
    case False
    then have "last_before ?start ?t = Some (last ?before)" by (auto simp: last_before_def last_rev hd_rev [symmetric] neq_Nil_conv split: list.split)
    then show ?thesis using chain False by (simp add: sum)
  qed
qed

theorem daily_pnl_foots_witness:
  "\<exists>x y. read_portfolio_daily 90001 5 (refreshes [(Some 2, 90000, [(10, Some 5)], []), (Some 2, 90001, [(10, Some 5), (90000, Some 7)], [])] []) = [x, y] \<and>
     snd (daily_pnl 90001 5 (refreshes [(Some 2, 90000, [(10, Some 5)], []), (Some 2, 90001, [(10, Some 5), (90000, Some 7)], [])] [])) = 2"
proof -
  let ?xs = "[(Some 2, 90000, [(10, Some 5)], []), (Some 2, 90001, [(10, Some 5), (90000, Some 7)], [])]"
  have d: "day_of 10 = 0" "day_of 90000 = 1" "day_of 90001 = 1" by (simp_all add: day_of_def floor_eq_iff)
  have u: "[0..1::int] = [0, 1]" by (simp add: upto.simps)
  have e: "\<exists>x y. by_date (refreshes ?xs []) = [x, y] \<and> fst x = 0 \<and> fst y = 1 \<and> dr_close (snd x) = 5 \<and> dr_close (snd y) = 7"
    by (simp add: refresh_portfolio_daily_def Let_def d u daily_samples_pg_def day_sample_pg_def day_values_def List.map_filter_simps
        upsert_daily_def by_date_def realized_by_day_def)
  then obtain x y where v: "by_date (refreshes ?xs []) = [x, y]" "fst x = 0" "fst y = 1" "dr_close (snd x) = 5" "dr_close (snd y) = 7" by blast
  have r: "read_portfolio_daily 90001 5 (refreshes ?xs []) = [x, y]" using v by (simp add: read_portfolio_daily_def d)
  have n: "last_before (day_of 90001 - (5 - 1)) (refreshes ?xs []) = None" using v by (simp add: last_before_def d)
  have "appended 0 [] ?xs" by simp
  from daily_pnl_foots [OF this r] have "snd (daily_pnl 90001 5 (refreshes ?xs [])) = py_round 2 2" unfolding n using v by simp
  then show ?thesis using r py_round_of_int [of 2 2] by simp
qed

section \<open>Cash\<close>

text \<open>The total of the cash panel is the sum of what was converted, and no currency is lost by the sort.\<close>

lemma cash_total:
  assumes "cash_holdings eurusd (Some cs) = (rows, tot)"
  shows "mset rows = mset (map (cash_row_of eurusd) cs)"
    and "tot = py_round 2 (sum_list (List.map_filter cr_usd_value rows))"
proof -
  have "rows = sort_cash (map (cash_row_of eurusd) cs)" using assms by (auto simp: cash_holdings_def Let_def)
  then show "mset rows = mset (map (cash_row_of eurusd) cs)" by (simp add: sort_cash_def)
  show "tot = py_round 2 (sum_list (List.map_filter cr_usd_value rows))" using assms by (auto simp: cash_holdings_def Let_def)
qed

end
