(* ===== verification/Portfolio_Risk.thy ===== *)
theory Portfolio_Risk
  imports Stress Contracts
begin

text \<open>
  The risk panels of the portfolio router (\<open>api/routers/portfolio_panel.py\<close>) and the factor
  value at risk (\<open>core/risk/var_factors.py\<close>): the book resolved to revaluation baselines, the
  stress grid, the greeks ladder, the scenario charts and the pin risk rows. A date is its
  ordinal. The pricer never raises on the inputs of the pin risk rows, so their \<open>except\<close> branch
  has no counterpart.
\<close>

section \<open>The book\<close>

record risk_position =
  rp_id :: int
  rp_structure :: "string option"
  rp_product_label :: "string option"
  rp_trade_id :: "int option"
  rp_package_id :: "int option"
  rp_side :: string
  rp_quantity :: flt
  rp_market_price :: "flt option"
  rp_expiry :: "int option"
  rp_iv :: "flt option"
  rp_pnl :: "flt option"
  rp_delta :: "flt option"
  rp_vega :: "flt option"
  rp_vanna :: "flt option"
  rp_volga :: "flt option"

definition truthy :: "flt option \<Rightarrow> bool" where
  "truthy x = (case x of None \<Rightarrow> False | Some v \<Rightarrow> v \<noteq> 0)"

definition spec_of :: "risk_position \<Rightarrow> contract_spec option" where
  "spec_of p = parse_local_symbol (rp_structure p)"

fun first_some :: "('a \<Rightarrow> 'b option) \<Rightarrow> 'a list \<Rightarrow> 'b option" where
  "first_some f [] = None"
| "first_some f (x # xs) = (case f x of None \<Rightarrow> first_some f xs | Some y \<Rightarrow> Some y)"

definition future_mark :: "risk_position \<Rightarrow> flt option" where
  "future_mark p =
     (case spec_of p of
        None \<Rightarrow> None
      | Some s \<Rightarrow> if cs_instrument_type s = FUTURE \<and> truthy (rp_market_price p) then rp_market_price p else None)"

text \<open>Without a future the spot is a strike; the panels do not ask for the same option.\<close>

definition book_strike :: "risk_position \<Rightarrow> flt option" where
  "book_strike p =
     (case spec_of p of
        None \<Rightarrow> None
      | Some s \<Rightarrow> if truthy (rp_market_price p) \<and> truthy (rp_iv p) \<and> truthy (cs_strike s) then cs_strike s else None)"

definition panel_strike :: "risk_position \<Rightarrow> flt option" where
  "panel_strike p =
     (case spec_of p of
        None \<Rightarrow> None
      | Some s \<Rightarrow> if cs_option_type s \<noteq> None \<and> truthy (cs_strike s) \<and> truthy (rp_market_price p) then cs_strike s else None)"

definition book_spot :: "risk_position list \<Rightarrow> (flt \<times> string) option" where
  "book_spot ps =
     (case first_some future_mark ps of
        Some m \<Rightarrow> Some (m, ''future_mark'')
      | None \<Rightarrow> map_option (\<lambda>k. (k, ''strike_proxy'')) (first_some book_strike ps))"

definition panel_spot :: "risk_position list \<Rightarrow> flt option" where
  "panel_spot ps =
     (case first_some future_mark ps of Some m \<Rightarrow> Some m | None \<Rightarrow> first_some panel_strike ps)"

definition qty_signed :: "risk_position \<Rightarrow> flt" where
  "qty_signed p = rp_quantity p * (if rp_side p = BUY then 1 else -1)"

definition years_left :: "int \<Rightarrow> int \<Rightarrow> flt" where
  "years_left today e = max (1 / 1000) (of_int (e - today) / 365)"

definition right_of :: "contract_spec \<Rightarrow> string" where
  "right_of s = (if cs_option_type s = Some CALL then ''C'' else ''P'')"

definition future_baseline :: "contract_spec \<Rightarrow> risk_position \<Rightarrow> resolved_position" where
  "future_baseline s p =
     \<lparr>rs_type = ''FUTURE'', rs_qty_signed = qty_signed p, rs_mult = cs_multiplier s, rs_K = 0, rs_T = 0, rs_iv = 0,
      rs_right = [], rs_price_base = 0\<rparr>"

definition option_baseline :: "normal \<Rightarrow> flt \<Rightarrow> int \<Rightarrow> contract_spec \<Rightarrow> flt \<Rightarrow> int \<Rightarrow> flt \<Rightarrow> risk_position \<Rightarrow> resolved_position" where
  "option_baseline N spot today s k e iv p =
     \<lparr>rs_type = ''OPTION'', rs_qty_signed = qty_signed p, rs_mult = cs_multiplier s, rs_K = k, rs_T = years_left today e,
      rs_iv = iv, rs_right = right_of s, rs_price_base = bs_price N spot k (years_left today e) iv (right_of s)\<rparr>"

definition baseline_of :: "normal \<Rightarrow> flt \<Rightarrow> int \<Rightarrow> risk_position \<Rightarrow> resolved_position option" where
  "baseline_of N spot today p =
     (case spec_of p of
        None \<Rightarrow> None
      | Some s \<Rightarrow>
          if cs_instrument_type s = FUTURE then Some (future_baseline s p)
          else (case (cs_option_type s, cs_strike s, rp_expiry p, rp_iv p) of
                  (Some ot, Some k, Some e, Some iv) \<Rightarrow>
                    if k \<noteq> 0 \<and> iv \<noteq> 0 then Some (option_baseline N spot today s k e iv p) else None
                | _ \<Rightarrow> None))"

definition baselines :: "normal \<Rightarrow> flt \<Rightarrow> int \<Rightarrow> risk_position list \<Rightarrow> (int \<times> resolved_position) list" where
  "baselines N spot today ps = List.map_filter (\<lambda>p. map_option (Pair (rp_id p)) (baseline_of N spot today p)) ps"

definition resolve_book :: "normal \<Rightarrow> int \<Rightarrow> risk_position list \<Rightarrow> (flt \<times> (int \<times> resolved_position) list \<times> string) option" where
  "resolve_book N today ps =
     (case book_spot ps of None \<Rightarrow> None | Some (spot, src) \<Rightarrow> Some (spot, baselines N spot today ps, src))"

section \<open>Stress grid and ladder\<close>

datatype axis = Ax_spot | Ax_vol | Ax_time | Ax_skew | Ax_fly

definition STRESS_SPOT_BPS :: "flt list" where "STRESS_SPOT_BPS = [-200, -100, -50, 0, 50, 100, 200]"

fun stress_bins :: "axis \<Rightarrow> flt list" where
  "stress_bins Ax_vol = [3, 1, 0, -1, -3]"
| "stress_bins Ax_time = [40, 20, 10, 5, 0]"
| "stress_bins Ax_skew = [2, 1, 0, -1, -2]"
| "stress_bins Ax_fly = [2, 1, 0, -1, -2]"
| "stress_bins Ax_spot = []"

fun ladder_bins :: "axis \<Rightarrow> flt list" where
  "ladder_bins Ax_spot = [-400, -200, 0, 200, 400]"
| "ladder_bins Ax_vol = [-3, -1, 0, 1, 3]"
| "ladder_bins Ax_time = [0, 5, 10, 20, 40]"
| "ladder_bins Ax_skew = [-2, -1, 0, 1, 2]"
| "ladder_bins Ax_fly = [-2, -1, 0, 1, 2]"

definition no_shock :: scenario where
  "no_shock = \<lparr>sc_dspot_bp = 0, sc_dvol_vp = 0, sc_dt_days = 0, sc_dskew_vp = 0, sc_dfly_vp = 0\<rparr>"

fun shock_on :: "axis \<Rightarrow> flt \<Rightarrow> scenario \<Rightarrow> scenario" where
  "shock_on Ax_spot v s = s\<lparr>sc_dspot_bp := v\<rparr>"
| "shock_on Ax_vol v s = s\<lparr>sc_dvol_vp := v\<rparr>"
| "shock_on Ax_time v s = s\<lparr>sc_dt_days := v\<rparr>"
| "shock_on Ax_skew v s = s\<lparr>sc_dskew_vp := v\<rparr>"
| "shock_on Ax_fly v s = s\<lparr>sc_dfly_vp := v\<rparr>"

definition stress_cell :: "normal \<Rightarrow> resolved_position list \<Rightarrow> flt \<Rightarrow> axis \<Rightarrow> stress_output \<Rightarrow> flt \<Rightarrow> flt \<Rightarrow> flt" where
  "stress_cell N book spot ax out row dspot = py_round 2 (reval_book N book spot (shock_on Ax_spot dspot (shock_on ax row no_shock)) out)"

definition stress_grid :: "normal \<Rightarrow> int \<Rightarrow> axis \<Rightarrow> stress_output \<Rightarrow> risk_position list \<Rightarrow> flt list list" where
  "stress_grid N today ax out ps =
     (case resolve_book N today ps of
        None \<Rightarrow> []
      | Some (spot, book, src) \<Rightarrow> map (\<lambda>row. map (stress_cell N (map snd book) spot ax out row) STRESS_SPOT_BPS) (stress_bins ax))"

record ladder_row =
  lr_axis_value :: flt
  lr_pnl :: flt
  lr_delta_usd :: flt
  lr_gamma :: flt
  lr_vega :: flt
  lr_hedge_delta :: flt
  lr_spot :: "flt option"

definition ladder_row_of :: "normal \<Rightarrow> resolved_position list \<Rightarrow> flt \<Rightarrow> axis \<Rightarrow> flt \<Rightarrow> ladder_row" where
  "ladder_row_of N book spot ax b =
     (let out_at = reval_book N book spot (shock_on ax b no_shock); delta = out_at Out_delta * spot
      in \<lparr>lr_axis_value = b, lr_pnl = py_round 2 (out_at Out_pnl), lr_delta_usd = py_round 2 delta, lr_gamma = py_round 2 (out_at Out_gamma),
          lr_vega = py_round 2 (out_at Out_vega), lr_hedge_delta = - py_round 2 delta,
          lr_spot = (if ax = Ax_spot then Some (py_round 5 (spot * (1 + b / 10000))) else None)\<rparr>)"

definition greeks_ladder :: "normal \<Rightarrow> int \<Rightarrow> axis \<Rightarrow> risk_position list \<Rightarrow> ladder_row list" where
  "greeks_ladder N today ax ps =
     (case resolve_book N today ps of
        None \<Rightarrow> []
      | Some (spot, book, src) \<Rightarrow> map (ladder_row_of N (map snd book) spot ax) (ladder_bins ax))"

section \<open>Scenario charts\<close>

definition SCENARIO_SPOT_STEPS_PCT :: "flt list" where
  "SCENARIO_SPOT_STEPS_PCT = [-5, -4, -3, -2, -3/2, -1, -1/2, -1/4, 0, 1/4, 1/2, 1, 3/2, 2, 3, 4, 5]"

definition SCENARIO_IV_STEPS_VOLPT :: "flt list" where
  "SCENARIO_IV_STEPS_VOLPT = [-5, -4, -3, -2, -1, -1/2, 0, 1/2, 1, 2, 3, 4, 5]"

definition npv_base :: "flt \<Rightarrow> resolved_position \<Rightarrow> flt" where
  "npv_base spot p =
     (if rs_type p = ''FUTURE'' then rs_qty_signed p * rs_mult p * spot else rs_qty_signed p * rs_mult p * rs_price_base p)"

definition scenario_one :: "normal \<Rightarrow> flt \<Rightarrow> flt \<Rightarrow> flt \<Rightarrow> stress_output \<Rightarrow> resolved_position \<Rightarrow> flt" where
  "scenario_one N spot0 spot_now iv_shift out p =
     (let qm = rs_qty_signed p * rs_mult p in
      if rs_type p = ''FUTURE''
      then (case out of Out_pnl \<Rightarrow> qm * spot_now - npv_base spot0 p | Out_delta \<Rightarrow> qm | _ \<Rightarrow> 0)
      else let sigma = max (1 / 1000) (rs_iv p + iv_shift) in
        (case out of
           Out_pnl \<Rightarrow> qm * bs_price N spot_now (rs_K p) (rs_T p) sigma (rs_right p) - npv_base spot0 p
         | Out_delta \<Rightarrow> qm * bs_delta N spot_now (rs_K p) (rs_T p) sigma (rs_right p)
         | Out_gamma \<Rightarrow> qm * bs_gamma N spot_now (rs_K p) (rs_T p) sigma * (1 / 10000)
         | Out_vega \<Rightarrow> qm * bs_vega N spot_now (rs_K p) (rs_T p) sigma * (1 / 100)
         | Out_theta \<Rightarrow> qm * bs_theta N spot_now (rs_K p) (rs_T p) sigma (rs_right p) / 365
         | _ \<Rightarrow> 0))"

definition scenario_total :: "normal \<Rightarrow> flt \<Rightarrow> flt \<Rightarrow> flt \<Rightarrow> resolved_position list \<Rightarrow> stress_output \<Rightarrow> flt" where
  "scenario_total N spot0 spot_now iv_shift book out = sum_list (map (scenario_one N spot0 spot_now iv_shift out) book)"

record scenario_row =
  sr_step :: flt
  sr_spot :: "flt option"
  sr_pnl :: flt
  sr_delta_usd :: flt
  sr_gamma :: flt
  sr_vega :: flt
  sr_theta :: flt

definition scenario_row_of :: "normal \<Rightarrow> flt \<Rightarrow> resolved_position list \<Rightarrow> flt \<Rightarrow> flt option \<Rightarrow> flt \<Rightarrow> flt \<Rightarrow> scenario_row" where
  "scenario_row_of N spot0 book step shown spot_now iv_shift =
     (let total = scenario_total N spot0 spot_now iv_shift book
      in \<lparr>sr_step = step, sr_spot = shown, sr_pnl = py_round 2 (total Out_pnl), sr_delta_usd = py_round 2 (total Out_delta),
          sr_gamma = py_round 2 (total Out_gamma), sr_vega = py_round 2 (total Out_vega), sr_theta = py_round 2 (total Out_theta)\<rparr>)"

record scenario_panel =
  sp_current_spot :: "flt option"
  sp_iv_avg_pct :: "flt option"
  sp_by_spot :: "scenario_row list"
  sp_by_iv :: "scenario_row list"
  sp_n_positions :: nat

definition scenarios :: "normal \<Rightarrow> int \<Rightarrow> risk_position list \<Rightarrow> scenario_panel" where
  "scenarios N today ps =
     (case panel_spot ps of
        None \<Rightarrow> \<lparr>sp_current_spot = None, sp_iv_avg_pct = None, sp_by_spot = [], sp_by_iv = [], sp_n_positions = 0\<rparr>
      | Some spot \<Rightarrow>
          let book = map snd (baselines N spot today ps); ivs = map rs_iv (filter (\<lambda>p. rs_type p \<noteq> ''FUTURE'') book)
          in \<lparr>sp_current_spot = Some (py_round 5 spot),
              sp_iv_avg_pct = (if ivs = [] then None else Some (py_round 2 (sum_list ivs / real (length ivs) * 100))),
              sp_by_spot = map (\<lambda>st. let shocked = spot * (1 + st / 100) in scenario_row_of N spot book st (Some (py_round 5 shocked)) shocked 0)
                SCENARIO_SPOT_STEPS_PCT,
              sp_by_iv = map (\<lambda>st. scenario_row_of N spot book st None spot (st / 100)) SCENARIO_IV_STEPS_VOLPT,
              sp_n_positions = length book\<rparr>)"

section \<open>Pin risk\<close>

definition BREACH_BPS :: flt where "BREACH_BPS = 50"

record pin_row =
  pr_id :: int
  pr_trade_id :: "int option"
  pr_structure :: "string option"
  pr_product_label :: "string option"
  pr_side :: string
  pr_option_type :: option_type
  pr_strike :: flt
  pr_expiry :: int
  pr_dte_days :: int
  pr_qty :: flt
  pr_distance_pips :: flt
  pr_pnl_now :: "flt option"
  pr_delta_usd :: "flt option"
  pr_at_pin :: flt
  pr_breach_up :: flt
  pr_breach_dn :: flt

definition pin_move :: "normal \<Rightarrow> flt \<Rightarrow> resolved_position \<Rightarrow> flt \<Rightarrow> flt" where
  "pin_move N spot b x =
     (let npv = (\<lambda>F. bs_price N F (rs_K b) (rs_T b) (rs_iv b) (rs_right b) * (rs_qty_signed b * rs_mult b)) in npv x - npv spot)"

definition pin_row_of :: "normal \<Rightarrow> flt \<Rightarrow> int \<Rightarrow> risk_position \<Rightarrow> pin_row option" where
  "pin_row_of N spot today p =
     (case spec_of p of
        None \<Rightarrow> None
      | Some s \<Rightarrow> (case (cs_option_type s, cs_strike s, rp_expiry p, rp_iv p) of
            (Some ot, Some k, Some e, Some iv) \<Rightarrow>
              if k \<noteq> 0 \<and> iv \<noteq> 0 then
                let b = option_baseline N spot today s k e iv p; breach_step = k * BREACH_BPS / 10000
                in Some \<lparr>pr_id = rp_id p, pr_trade_id = rp_trade_id p, pr_structure = rp_structure p, pr_product_label = rp_product_label p,
                     pr_side = rp_side p, pr_option_type = ot, pr_strike = k, pr_expiry = e, pr_dte_days = e - today, pr_qty = rp_quantity p,
                     pr_distance_pips = py_round 1 ((spot - k) * 10000), pr_pnl_now = rp_pnl p, pr_delta_usd = rp_delta p,
                     pr_at_pin = py_round 2 (pin_move N spot b k), pr_breach_up = py_round 2 (pin_move N spot b (k + breach_step)),
                     pr_breach_dn = py_round 2 (pin_move N spot b (k - breach_step))\<rparr>
              else None
          | _ \<Rightarrow> None))"

definition pin_risk :: "normal \<Rightarrow> int \<Rightarrow> risk_position list \<Rightarrow> pin_row list" where
  "pin_risk N today ps =
     (case panel_spot ps of
        None \<Rightarrow> []
      | Some spot \<Rightarrow> sort_key pr_dte_days (List.map_filter (pin_row_of N spot today) ps))"

section \<open>Value at risk by factor\<close>

datatype risk_factor = F_spot | F_level | F_skew | F_curv

definition RISK_FACTORS :: "risk_factor list" where "RISK_FACTORS = [F_spot, F_level, F_skew, F_curv]"

fun DEFAULT_SHOCKS :: "risk_factor \<Rightarrow> flt" where
  "DEFAULT_SHOCKS F_spot = 150"
| "DEFAULT_SHOCKS F_level = 3/2"
| "DEFAULT_SHOCKS F_skew = 3/5"
| "DEFAULT_SHOCKS F_curv = 2/5"

fun factor_axis :: "risk_factor \<Rightarrow> axis" where
  "factor_axis F_spot = Ax_spot"
| "factor_axis F_level = Ax_vol"
| "factor_axis F_skew = Ax_skew"
| "factor_axis F_curv = Ax_fly"

definition factor_loss :: "normal \<Rightarrow> resolved_position list \<Rightarrow> flt \<Rightarrow> risk_factor \<Rightarrow> flt \<Rightarrow> flt" where
  "factor_loss N book spot f s = - reval_book N book spot (shock_on (factor_axis f) s no_shock) Out_pnl"

definition factor_var_breakdown :: "normal \<Rightarrow> resolved_position list \<Rightarrow> flt \<Rightarrow> (risk_factor \<times> flt) list" where
  "factor_var_breakdown N book spot =
     map (\<lambda>f. (f, py_round 2 (max (max 0 (factor_loss N book spot f (DEFAULT_SHOCKS f))) (factor_loss N book spot f (- DEFAULT_SHOCKS f)))))
       RISK_FACTORS"

definition var_factors :: "normal \<Rightarrow> int \<Rightarrow> risk_position list \<Rightarrow> (risk_factor \<times> flt) list" where
  "var_factors N today ps =
     (case resolve_book N today ps of
        None \<Rightarrow> []
      | Some (spot, book, src) \<Rightarrow> if book = [] then [] else factor_var_breakdown N (map snd book) spot)"

section \<open>The resolved book\<close>

text \<open>A decoded symbol is a future exactly when it has no right; its strike is then missing too.\<close>

lemma spec_kinds:
  "parse_local_symbol ls = Some s \<Longrightarrow> (cs_instrument_type s = FUTURE \<longleftrightarrow> cs_option_type s = None) \<and> (cs_option_type s = None \<longleftrightarrow> cs_strike s = None)"
  unfolding parse_local_symbol_def by (auto simp: Let_def split: option.splits)

lemma instrument_cases: "k \<noteq> FUTURE \<longleftrightarrow> k = OPTION" by (cases k) auto

lemma years_left_pos: "1 / 1000 \<le> years_left today e" by (simp add: years_left_def)

lemma years_left_ten: "1 / 10000 \<le> years_left today e" using years_left_pos [of today e] by simp

lemma baseline_cases:
  assumes "baseline_of N spot today p = Some b"
  obtains (future) s where "spec_of p = Some s" "cs_instrument_type s = FUTURE" "b = future_baseline s p"
  | (option) s ot k e iv where "spec_of p = Some s" "cs_instrument_type s = OPTION" "cs_option_type s = Some ot" "cs_strike s = Some k"
      "rp_expiry p = Some e" "rp_iv p = Some iv" "k \<noteq> 0" "iv \<noteq> 0" "b = option_baseline N spot today s k e iv p"
  using assms unfolding baseline_of_def by (auto simp: instrument_cases split: option.splits if_splits)

lemma baseline_marked: "baseline_of N spot today p = Some b \<Longrightarrow> marked_at N spot b \<and> (rs_type b = ''FUTURE'' \<or> 1 / 1000 \<le> rs_T b)"
  using years_left_pos [of today] years_left_ten [of today] by (elim baseline_cases) (simp_all add: future_baseline_def option_baseline_def marked_at_def)

lemma baselines_marked:
  "b \<in> set (map snd (baselines N spot today ps)) \<Longrightarrow> marked_at N spot b \<and> (rs_type b = ''FUTURE'' \<or> 1 / 1000 \<le> rs_T b)"
proof -
  assume "b \<in> set (map snd (baselines N spot today ps))"
  then obtain p where "baseline_of N spot today p = Some b"
    unfolding baselines_def by (induction ps) (auto simp: List.map_filter_simps split: option.splits)
  then show ?thesis by (rule baseline_marked)
qed

lemma resolved_spot: "resolve_book N today ps = Some (spot, book, src) \<longleftrightarrow> book_spot ps = Some (spot, src) \<and> book = baselines N spot today ps"
  by (auto simp: resolve_book_def split: option.splits)

lemma mark_is_panel_spot: "book_spot ps = Some (spot, ''future_mark'') \<Longrightarrow> panel_spot ps = Some spot"
  by (auto simp: book_spot_def panel_spot_def split: option.splits)

section \<open>The panels agree\<close>

lemma shock_fields [simp]:
  "sc_dspot_bp (shock_on Ax_spot v s) = v" "sc_dvol_vp (shock_on Ax_spot v s) = sc_dvol_vp s" "sc_dt_days (shock_on Ax_spot v s) = sc_dt_days s"
  "sc_dskew_vp (shock_on Ax_spot v s) = sc_dskew_vp s" "sc_dfly_vp (shock_on Ax_spot v s) = sc_dfly_vp s"
  by simp_all

lemma no_shock_fields [simp]:
  "sc_dspot_bp no_shock = 0" "sc_dvol_vp no_shock = 0" "sc_dt_days no_shock = 0" "sc_dskew_vp no_shock = 0" "sc_dfly_vp no_shock = 0"
  by (simp_all add: no_shock_def)

lemma scenario_is_reval:
  assumes "marked_at N spot b" "rs_type b = ''FUTURE'' \<or> 1 / 1000 \<le> rs_T b \<and> 1 / 1000 \<le> rs_iv b"
    and "out \<in> {Out_pnl, Out_delta, Out_gamma, Out_vega, Out_theta}"
  shows "scenario_one N spot (spot * (1 + v / 10000)) 0 out b =
    reval_one N spot (shock_on Ax_spot v no_shock) out b / (if out = Out_theta then 365 else 1)"
proof (cases "rs_type b = ''FUTURE''")
  case True
  with assms(3) show ?thesis by (auto simp: scenario_one_def reval_one_def npv_base_def Let_def algebra_simps)
next
  case False
  with assms(2) have t: "max (1 / 10000) (rs_T b) = rs_T b" "max (1 / 1000) (rs_iv b) = rs_iv b" "\<not> rs_iv b \<le> 0" by auto
  have iv: "shocked_iv b F (shock_on Ax_spot v no_shock) = rs_iv b" for F by (simp add: shocked_iv_def)
  from False assms(3) show ?thesis
    unfolding scenario_one_def reval_one_def npv_base_def Let_def iv
    by (cases out) (simp_all add: t greek_of_def GAMMA_PER_PIP_def VEGA_PER_VOLPT_def right_diff_distrib del: shock_on.simps)
qed

lemma scenario_total_is_reval:
  assumes "\<forall>b \<in> set book. marked_at N spot b \<and> (rs_type b = ''FUTURE'' \<or> 1 / 1000 \<le> rs_T b \<and> 1 / 1000 \<le> rs_iv b)"
    and "out \<in> {Out_pnl, Out_delta, Out_gamma, Out_vega, Out_theta}"
  shows "scenario_total N spot (spot * (1 + v / 10000)) 0 book out =
    reval_book N book spot (shock_on Ax_spot v no_shock) out / (if out = Out_theta then 365 else 1)"
proof -
  let ?c = "if out = Out_theta then 365 else 1 :: flt"
  have "map (scenario_one N spot (spot * (1 + v / 10000)) 0 out) book = map (\<lambda>b. reval_one N spot (shock_on Ax_spot v no_shock) out b * inverse ?c) book"
  proof (intro map_cong HOL.refl)
    fix b assume "b \<in> set book"
    with assms(1) have "marked_at N spot b" "rs_type b = ''FUTURE'' \<or> 1 / 1000 \<le> rs_T b \<and> 1 / 1000 \<le> rs_iv b" by blast+
    from scenario_is_reval [OF this assms(2)]
    show "scenario_one N spot (spot * (1 + v / 10000)) 0 out b = reval_one N spot (shock_on Ax_spot v no_shock) out b * inverse ?c"
      unfolding divide_inverse .
  qed
  then show ?thesis unfolding scenario_total_def reval_book_sum by (simp only: sum_list_mult_const divide_inverse)
qed

lemma no_move: "shock_on Ax_spot 0 no_shock = shock_scenario (0, 0)" "shock_on ax 0 no_shock = no_shock"
  by (simp_all add: no_shock_def shock_scenario_def, cases ax, simp_all add: no_shock_def)

lemma marked_flat: "\<forall>b \<in> set book. marked_at N spot b \<Longrightarrow> reval_book N book spot no_shock Out_pnl = 0"
proof (cases "book = []")
  case False
  assume "\<forall>b \<in> set book. marked_at N spot b"
  then have "map (reval_one N spot no_shock Out_pnl) book = map (\<lambda>_. 0) book"
    by (intro map_cong HOL.refl) (auto simp: reval_one_def Let_def marked_at_def shocked_iv_def max_absorb2)
  then show ?thesis unfolding reval_book_sum by (simp only: sum_list_0)
qed (simp add: reval_book_def)


section \<open>A small book\<close>

definition held :: "string \<Rightarrow> flt \<Rightarrow> flt option \<Rightarrow> flt option \<Rightarrow> risk_position" where
  "held ls qty mark iv =
     \<lparr>rp_id = 1, rp_structure = Some ls, rp_product_label = None, rp_trade_id = None, rp_package_id = None, rp_side = BUY, rp_quantity = qty,
      rp_market_price = mark, rp_expiry = Some 390, rp_iv = iv, rp_pnl = None, rp_delta = None, rp_vega = None, rp_vanna = None, rp_volga = None\<rparr>"

lemma parse_future: "parse_local_symbol (Some ''6EZ6'') =
    Some \<lparr>cs_symbol = ''EUR'', cs_instrument_type = FUTURE, cs_multiplier = 125000, cs_strike = None, cs_option_type = None\<rparr>"
proof -
  have "opt_match ''6EZ6'' = None" "fut_match ''6EZ6'' = Some ''6E''" by code_simp+
  then show ?thesis by (simp add: parse_local_symbol_def multiplier_for_def MULTIPLIERS_def)
qed

lemma parse_calls:
  "parse_local_symbol (Some ''EUUZ6 C1100'') =
    Some \<lparr>cs_symbol = ''EUR'', cs_instrument_type = OPTION, cs_multiplier = 125000, cs_strike = Some (11 / 10), cs_option_type = Some CALL\<rparr>"
  "parse_local_symbol (Some ''EUUZ6 C1200'') =
    Some \<lparr>cs_symbol = ''EUR'', cs_instrument_type = OPTION, cs_multiplier = 125000, cs_strike = Some (12 / 10), cs_option_type = Some CALL\<rparr>"
proof -
  have "opt_match ''EUUZ6 C1100'' = Some (CHR ''C'', ''1100'')" "digits_int ''1100'' = 1100"
    "opt_match ''EUUZ6 C1200'' = Some (CHR ''C'', ''1200'')" "digits_int ''1200'' = 1200" by code_simp+
  then show "parse_local_symbol (Some ''EUUZ6 C1100'') =
      Some \<lparr>cs_symbol = ''EUR'', cs_instrument_type = OPTION, cs_multiplier = 125000, cs_strike = Some (11 / 10), cs_option_type = Some CALL\<rparr>"
    "parse_local_symbol (Some ''EUUZ6 C1200'') =
      Some \<lparr>cs_symbol = ''EUR'', cs_instrument_type = OPTION, cs_multiplier = 125000, cs_strike = Some (12 / 10), cs_option_type = Some CALL\<rparr>"
    by (simp_all add: parse_local_symbol_def multiplier_for_def MULTIPLIERS_def)
qed

definition hedged_call :: "risk_position list" where
  "hedged_call = [held ''6EZ6'' 1 (Some (11 / 10)) None, held ''EUUZ6 C1200'' 2 (Some (1 / 100)) (Some (8 / 100))]"

lemma hedged_call_spot: "book_spot hedged_call = Some (11 / 10, ''future_mark'')"
  by (simp add: book_spot_def hedged_call_def future_mark_def spec_of_def held_def parse_future truthy_def)

lemma hedged_call_book: "map snd (baselines N spot today hedged_call) =
    [future_baseline \<lparr>cs_symbol = ''EUR'', cs_instrument_type = FUTURE, cs_multiplier = 125000, cs_strike = None, cs_option_type = None\<rparr> (hd hedged_call),
     option_baseline N spot today \<lparr>cs_symbol = ''EUR'', cs_instrument_type = OPTION, cs_multiplier = 125000, cs_strike = Some (12 / 10), cs_option_type = Some CALL\<rparr>
       (12 / 10) 390 (8 / 100) (hd (tl hedged_call))]"
  by (simp add: baselines_def hedged_call_def baseline_of_def spec_of_def held_def parse_future parse_calls List.map_filter_simps)


text \<open>The panels ask for different options when no future is held, so one book is priced at two spots.\<close>

lemma spot_proxies_disagree:
  "book_spot [held ''EUUZ6 C1100'' 1 (Some 1) None, held ''EUUZ6 C1200'' 1 (Some 1) (Some (8 / 100))] = Some (12 / 10, ''strike_proxy'')"
  "panel_spot [held ''EUUZ6 C1100'' 1 (Some 1) None, held ''EUUZ6 C1200'' 1 (Some 1) (Some (8 / 100))] = Some (11 / 10)"
  by (simp_all add: book_spot_def panel_spot_def future_mark_def book_strike_def panel_strike_def spec_of_def held_def parse_calls truthy_def)

text \<open>The theta of the scenarios divides the theta per day of the pricer by 365 again.\<close>

lemma scenario_theta_divided_twice:
  assumes "resolve_book N today ps = Some (spot, book, src)"
    and "\<forall>b \<in> set (map snd book). rs_type b = ''FUTURE'' \<or> 1 / 1000 \<le> rs_iv b"
  shows "scenario_total N spot spot 0 (map snd book) Out_theta = reval_book N (map snd book) spot no_shock Out_theta / 365"
proof -
  have b: "book = baselines N spot today ps" using assms(1) by (simp add: resolved_spot)
  have ok: "\<forall>b \<in> set (map snd book). marked_at N spot b \<and> (rs_type b = ''FUTURE'' \<or> 1 / 1000 \<le> rs_T b \<and> 1 / 1000 \<le> rs_iv b)"
    using assms(2) baselines_marked [of _ N spot today ps] unfolding b by blast
  from scenario_total_is_reval [OF ok, of Out_theta 0] show ?thesis by (simp add: no_shock_def)
qed

text \<open>A volatility shock of the whole volatility leaves the option out of the P&L instead of pricing it at its intrinsic value.\<close>

lemma drained_vol_has_no_pnl:
  "rs_type b \<noteq> ''FUTURE'' \<Longrightarrow> rs_iv b * 100 \<le> - v \<Longrightarrow> reval_one N spot (shock_on Ax_vol v no_shock) Out_pnl b = 0"
  by (simp add: reval_one_def shocked_iv_def Let_def)

section \<open>Stress grid, pin risk and factors\<close>

lemma all_futures_pnl:
  "\<forall>b \<in> set book. rs_type b = ''FUTURE'' \<Longrightarrow>
     reval_book N book spot s Out_pnl = sum_list (map (\<lambda>b. rs_qty_signed b * rs_mult b) book) * (spot * sc_dspot_bp s / 10000)"
proof -
  assume f: "\<forall>b \<in> set book. rs_type b = ''FUTURE''"
  have "map (reval_one N spot s Out_pnl) book = map (\<lambda>b. rs_qty_signed b * rs_mult b * (spot * sc_dspot_bp s / 10000)) book"
    using f by (intro map_cong HOL.refl) (auto simp: reval_one_def Let_def algebra_simps)
  then show ?thesis unfolding reval_book_sum by (simp only: sum_list_mult_const)
qed

text \<open>
  The stress grid is anchored and complete: on a book with a spot it has one row per bin and one
  column per spot move, the cell without any move shows no P&L, and on a book of futures every
  row is the exposure times the move, whatever the second axis.
\<close>

theorem stress_grid_anchored:
  assumes "resolve_book N today ps = Some (spot, book, src)" "ax \<noteq> Ax_spot"
    and "i < length (stress_bins ax)" "j < length STRESS_SPOT_BPS"
  shows "length (stress_grid N today ax out ps) = 5 \<and> length (stress_grid N today ax out ps ! i) = 7 \<and>
    (stress_bins ax ! i = 0 \<and> STRESS_SPOT_BPS ! j = 0 \<longrightarrow> stress_grid N today ax Out_pnl ps ! i ! j = 0) \<and>
    ((\<forall>b \<in> set (map snd book). rs_type b = ''FUTURE'') \<longrightarrow> stress_grid N today ax Out_pnl ps ! i ! j =
       py_round 2 (sum_list (map (\<lambda>b. rs_qty_signed b * rs_mult b) (map snd book)) * (spot * STRESS_SPOT_BPS ! j / 10000)))"
proof -
  have b: "book = baselines N spot today ps" using assms(1) by (simp add: resolved_spot)
  have five: "length (stress_bins ax) = 5" using assms(2) by (cases ax) auto
  have cell: "stress_grid N today ax o' ps ! i ! j = stress_cell N (map snd book) spot ax o' (stress_bins ax ! i) (STRESS_SPOT_BPS ! j)" for o'
    using assms(3,4) by (simp add: stress_grid_def assms(1))
  have row: "length (stress_grid N today ax out ps ! i) = 7"
    using assms(3) by (simp add: stress_grid_def assms(1) STRESS_SPOT_BPS_def)
  have flat: "reval_book N (map snd book) spot no_shock Out_pnl = 0"
    using baselines_marked unfolding b by (intro marked_flat) blast
  have still: "shock_on Ax_spot 0 no_shock = no_shock" by (rule no_move)
  have move: "sc_dspot_bp (shock_on Ax_spot v (shock_on ax w no_shock)) = v" for v w by (rule shock_fields)
  have len: "length (stress_grid N today ax out ps) = 5" using five by (simp add: stress_grid_def assms(1))
  have zero: "stress_grid N today ax Out_pnl ps ! i ! j = 0" if "stress_bins ax ! i = 0" "STRESS_SPOT_BPS ! j = 0"
    unfolding cell stress_cell_def that no_move(2) still flat by simp
  have lin: "stress_grid N today ax Out_pnl ps ! i ! j =
      py_round 2 (sum_list (map (\<lambda>b. rs_qty_signed b * rs_mult b) (map snd book)) * (spot * STRESS_SPOT_BPS ! j / 10000))"
    if "\<forall>b \<in> set (map snd book). rs_type b = ''FUTURE''"
    unfolding cell stress_cell_def all_futures_pnl [OF that] move by (rule HOL.refl)
  show ?thesis using len row zero lin by blast
qed

theorem stress_grid_anchored_witness:
  "length (stress_grid logistic 360 Ax_skew Out_vega hedged_call) = 5 \<and> stress_grid logistic 360 Ax_skew Out_pnl hedged_call ! 2 ! 3 = 0"
proof -
  have b: "resolve_book logistic 360 hedged_call = Some (11 / 10, baselines logistic (11 / 10) 360 hedged_call, ''future_mark'')"
    by (simp add: resolved_spot hedged_call_spot)
  have "2 < length (stress_bins Ax_skew)" "3 < length STRESS_SPOT_BPS" "stress_bins Ax_skew ! 2 = 0" "STRESS_SPOT_BPS ! 3 = 0"
    by (simp_all add: STRESS_SPOT_BPS_def)
  with stress_grid_anchored [OF b, of Ax_skew 2 3] show ?thesis by blast
qed

lemma move_to: "spot \<noteq> 0 \<Longrightarrow> spot * (1 + (x / spot - 1) * 10000 / 10000) = (x :: flt)" by (simp add: field_simps)

lemma pin_move_is_reval:
  assumes "marked_at N spot b" "rs_type b = ''OPTION''" "1 / 1000 \<le> rs_T b" "spot \<noteq> 0"
  shows "pin_move N spot b x = reval_book N [b] spot (shock_on Ax_spot ((x / spot - 1) * 10000) no_shock) Out_pnl"
proof -
  have t: "max (1 / 10000) (rs_T b) = rs_T b" using assms(3) by simp
  have base: "rs_price_base b = bs_price N spot (rs_K b) (rs_T b) (rs_iv b) (rs_right b)" using assms(1,2) by (simp add: marked_at_def)
  have iv: "shocked_iv b F (shock_on Ax_spot v no_shock) = rs_iv b" for F v by (simp add: shocked_iv_def)
  have dead: "bs_price N F (rs_K b) (rs_T b) (rs_iv b) (rs_right b) = 0" if "rs_iv b \<le> 0" for F
    using that by (simp add: bs_price_def degenerate_def)
  have one: "reval_book N [b] spot s out = reval_one N spot s out b" for s out by (simp add: reval_book_sum)
  show ?thesis
    unfolding one pin_move_def reval_one_def Let_def iv shock_fields move_to [OF assms(4)]
    using assms(2) dead by (simp add: t base left_diff_distrib right_diff_distrib mult.commute)
qed

lemma pin_row_exists: "(pin_row_of N spot today p \<noteq> None) = (case baseline_of N spot today p of None \<Rightarrow> False | Some b \<Rightarrow> rs_type b \<noteq> ''FUTURE'')"
proof (cases "spec_of p")
  case (Some s)
  have k: "(cs_instrument_type s = FUTURE) = (cs_option_type s = None)" "(cs_option_type s = None) = (cs_strike s = None)"
    using spec_kinds Some unfolding spec_of_def by blast+
  show ?thesis
    using k by (auto simp: pin_row_of_def baseline_of_def Some Let_def future_baseline_def option_baseline_def split: option.splits)
qed (simp add: pin_row_of_def baseline_of_def)

lemma pin_row_moves:
  assumes "pin_row_of N spot today p = Some r"
  shows "\<exists>b. baseline_of N spot today p = Some b \<and> rs_type b = ''OPTION'' \<and> rs_K b = pr_strike r \<and> pr_id r = rp_id p \<and>
    pr_at_pin r = py_round 2 (pin_move N spot b (pr_strike r)) \<and>
    pr_breach_up r = py_round 2 (pin_move N spot b (pr_strike r * (1 + BREACH_BPS / 10000))) \<and>
    pr_breach_dn r = py_round 2 (pin_move N spot b (pr_strike r * (1 - BREACH_BPS / 10000)))"
proof -
  obtain s where s: "spec_of p = Some s" using assms by (auto simp: pin_row_of_def split: option.splits)
  have k: "(cs_instrument_type s = FUTURE) = (cs_option_type s = None)" using spec_kinds s unfolding spec_of_def by blast
  obtain ot st e iv where o: "cs_option_type s = Some ot" "cs_strike s = Some st" "rp_expiry p = Some e" "rp_iv p = Some iv" "st \<noteq> 0" "iv \<noteq> 0"
    using assms by (auto simp: pin_row_of_def s split: option.splits if_splits)
  have b: "baseline_of N spot today p = Some (option_baseline N spot today s st e iv p)"
    using k by (simp add: baseline_of_def s o)
  have m: "st + st * BREACH_BPS / 10000 = st * (1 + BREACH_BPS / 10000)" "st - st * BREACH_BPS / 10000 = st * (1 - BREACH_BPS / 10000)"
    by (simp_all add: algebra_simps)
  show ?thesis
    using assms by (intro exI [of _ "option_baseline N spot today s st e iv p"])
      (simp only: b, auto simp: pin_row_of_def s o Let_def option_baseline_def m)
qed

lemma map_filter_members: "y \<in> set (List.map_filter f xs) \<longleftrightarrow> (\<exists>x \<in> set xs. f x = Some y)"
  by (induction xs) (auto simp: List.map_filter_simps split: option.splits)

lemma length_map_filter: "length (List.map_filter f xs) = length (filter (\<lambda>x. f x \<noteq> None) xs)"
  by (induction xs) (auto simp: List.map_filter_simps split: option.splits)

lemma option_count:
  "length (filter (\<lambda>b. rs_type b \<noteq> ''FUTURE'') (map snd (baselines N spot today ps))) = length (filter (\<lambda>p. pin_row_of N spot today p \<noteq> None) ps)"
  by (induction ps) (auto simp: baselines_def List.map_filter_simps pin_row_exists simp del: not_None_eq split: option.splits)

text \<open>
  The pin risk rows are the options of the book, each once and the next to expire first, and
  their figures are revaluations: the P&L at the strike and at half a percent on either side is
  the stress engine's, for the move of the spot that leads there.
\<close>

theorem pin_risk_is_reval:
  assumes "panel_spot ps = Some spot" "spot \<noteq> 0"
  shows "sorted (map pr_dte_days (pin_risk N today ps)) \<and>
    length (pin_risk N today ps) = length (filter (\<lambda>b. rs_type b \<noteq> ''FUTURE'') (map snd (baselines N spot today ps))) \<and>
    (\<forall>r \<in> set (pin_risk N today ps). \<exists>p \<in> set ps. \<exists>b. baseline_of N spot today p = Some b \<and> pr_id r = rp_id p \<and> rs_K b = pr_strike r \<and>
       (\<forall>(x, v) \<in> {(pr_strike r, pr_at_pin r), (pr_strike r * (1 + BREACH_BPS / 10000), pr_breach_up r), (pr_strike r * (1 - BREACH_BPS / 10000), pr_breach_dn r)}.
          v = py_round 2 (reval_book N [b] spot (shock_on Ax_spot ((x / spot - 1) * 10000) no_shock) Out_pnl)))"
proof (intro conjI ballI)
  fix r assume "r \<in> set (pin_risk N today ps)"
  then obtain p where p: "p \<in> set ps" "pin_row_of N spot today p = Some r"
    by (auto simp: pin_risk_def assms(1) map_filter_members)
  from pin_row_moves [OF p(2)] obtain b where b: "baseline_of N spot today p = Some b" "rs_type b = ''OPTION''" "rs_K b = pr_strike r" "pr_id r = rp_id p"
    and m: "pr_at_pin r = py_round 2 (pin_move N spot b (pr_strike r))"
      "pr_breach_up r = py_round 2 (pin_move N spot b (pr_strike r * (1 + BREACH_BPS / 10000)))"
      "pr_breach_dn r = py_round 2 (pin_move N spot b (pr_strike r * (1 - BREACH_BPS / 10000)))" by blast
  have "marked_at N spot b" "1 / 1000 \<le> rs_T b" using baseline_marked [OF b(1)] b(2) by auto
  note eq = pin_move_is_reval [OF this(1) b(2) this(2) assms(2)]
  show "\<exists>p \<in> set ps. \<exists>b. baseline_of N spot today p = Some b \<and> pr_id r = rp_id p \<and> rs_K b = pr_strike r \<and>
       (\<forall>(x, v) \<in> {(pr_strike r, pr_at_pin r), (pr_strike r * (1 + BREACH_BPS / 10000), pr_breach_up r), (pr_strike r * (1 - BREACH_BPS / 10000), pr_breach_dn r)}.
          v = py_round 2 (reval_book N [b] spot (shock_on Ax_spot ((x / spot - 1) * 10000) no_shock) Out_pnl))"
    using p(1) b m by (intro bexI [of _ p] exI [of _ b]) (simp_all only: eq [symmetric], blast)
next
  show "length (pin_risk N today ps) = length (filter (\<lambda>b. rs_type b \<noteq> ''FUTURE'') (map snd (baselines N spot today ps)))"
    unfolding option_count by (simp add: pin_risk_def assms(1) length_map_filter del: not_None_eq)
qed (simp add: pin_risk_def assms(1))

theorem pin_risk_is_reval_witness:
  "length (pin_risk logistic 360 hedged_call) = 1"
proof -
  have "panel_spot hedged_call = Some (11 / 10)" by (rule mark_is_panel_spot [OF hedged_call_spot])
  from pin_risk_is_reval [OF this, where today = 360 and N = logistic]
  have "length (pin_risk logistic 360 hedged_call) =
      length (filter (\<lambda>b. rs_type b \<noteq> ''FUTURE'') (map snd (baselines logistic (11 / 10) 360 hedged_call)))" by simp
  then show ?thesis unfolding hedged_call_book by (simp add: future_baseline_def option_baseline_def)
qed

text \<open>
  The factor figures are worst cases: none is negative, each covers the loss of the book under
  the adverse move of its factor in both directions up to half a cent, and a book of futures has
  only spot risk, the loss of the adverse spot move.
\<close>

theorem factor_var_covers:
  assumes "(f, v) \<in> set (factor_var_breakdown N book spot)" "s \<in> {DEFAULT_SHOCKS f, - DEFAULT_SHOCKS f}"
  shows "0 \<le> v \<and> factor_loss N book spot f s \<le> v + 1 / 200 \<and>
    ((\<forall>b \<in> set book. rs_type b = ''FUTURE'') \<longrightarrow>
       v = (if f = F_spot then py_round 2 (\<bar>sum_list (map (\<lambda>b. rs_qty_signed b * rs_mult b) book) * spot\<bar> * 150 / 10000) else 0))"
proof -
  let ?l = "\<lambda>s. factor_loss N book spot f s" let ?u = "DEFAULT_SHOCKS f"
  let ?w = "max (max 0 (?l ?u)) (?l (- ?u))"
  have v: "v = py_round 2 ?w" using assms(1) by (auto simp: factor_var_breakdown_def)
  have pos: "0 \<le> v" unfolding v by (rule py_round_nonneg) simp
  have "?l s \<le> ?w" using assms(2) by auto
  moreover have "x \<le> py_round 2 x + 1 / 200" for x using py_round_close [of 2 x] unfolding abs_le_iff by (simp add: algebra_simps)
  then have "?w \<le> v + 1 / 200" unfolding v .
  ultimately have cover: "?l s \<le> v + 1 / 200" by (rule order_trans)
  have fut: "v = (if f = F_spot then py_round 2 (\<bar>sum_list (map (\<lambda>b. rs_qty_signed b * rs_mult b) book) * spot\<bar> * 150 / 10000) else 0)"
    if all: "\<forall>b \<in> set book. rs_type b = ''FUTURE''"
  proof -
    let ?e = "sum_list (map (\<lambda>b. rs_qty_signed b * rs_mult b) book)"
    have l: "?l w = - (?e * (spot * sc_dspot_bp (shock_on (factor_axis f) w no_shock) / 10000))" for w
      unfolding factor_loss_def all_futures_pnl [OF all] by (rule HOL.refl)
    show ?thesis
    proof (cases "f = F_spot")
      case True
      define x where "x = ?e * spot"
      have "?l 150 = - (x * 150 / 10000)" "?l (- 150) = x * 150 / 10000" unfolding l x_def by (simp_all add: True)
      then have "?w = \<bar>x\<bar> * 150 / 10000" by (simp add: True abs_if max_def)
      then have "?w = \<bar>?e * spot\<bar> * 150 / 10000" unfolding x_def .
      then show ?thesis unfolding v using True by (simp only: if_True simp_thms)
    next
      case False
      then have "?l w = 0" for w unfolding l by (cases f) simp_all
      then show ?thesis using False by (simp add: v)
    qed
  qed
  show ?thesis using pos cover fut by blast
qed

theorem factor_var_covers_witness:
  "\<exists>v. (F_spot, v) \<in> set (factor_var_breakdown logistic [one_future] 1) \<and> v = py_round 2 3750"
proof -
  obtain v where v: "(F_spot, v) \<in> set (factor_var_breakdown logistic [one_future] 1)"
    by (auto simp: factor_var_breakdown_def RISK_FACTORS_def)
  from factor_var_covers [OF this, of 150] have "v = py_round 2 3750" by (simp add: one_future_def)
  with v show ?thesis by blast
qed

end
