(* ===== verification/Greek_History.thy ===== *)
theory Greek_History
  imports Attribution
begin

text \<open>
  The time series of the performance panel (\<open>api/routers/portfolio_panel.py\<close>): the net greeks of
  the book per time bucket and the cumulated Taylor terms between buckets. The history is the
  list of stored snapshots; of two snapshots of a bucket with one time the first is taken, and of
  two futures in a bucket the one with the larger id.
\<close>

section \<open>Buckets\<close>

record greek_snap =
  gk_time :: time
  gk_price :: "flt option"
  gk_iv :: "flt option"
  gk_delta :: "flt option"
  gk_gamma :: "flt option"
  gk_vega :: "flt option"
  gk_theta :: "flt option"

text \<open>Lookback and bucket width of a window, in seconds.\<close>

definition WINDOW_SPECS :: "(string \<times> flt \<times> int) list" where
  "WINDOW_SPECS =
     [(''1d'', 1 * 86400, 60), (''7d'', 7 * 86400, 300), (''30d'', 30 * 86400, 1800), (''1y'', 365 * 86400, 14400),
      (''all'', 3650 * 86400, 86400)]"

definition bucket_ts :: "int \<Rightarrow> time \<Rightarrow> time" where
  "bucket_ts width t = of_int (\<lfloor>t / of_int width\<rfloor> * width)"

type_synonym snap_history = "(int \<times> greek_snap) list"

definition window_rows :: "time \<Rightarrow> snap_history \<Rightarrow> snap_history" where
  "window_rows cutoff history = filter (\<lambda>(k, s). cutoff \<le> gk_time s) history"

definition bucket_list :: "int \<Rightarrow> snap_history \<Rightarrow> time list" where
  "bucket_list width rows = sorted_list_of_set (set (map (\<lambda>(k, s). bucket_ts width (gk_time s)) rows))"

definition bucket_ids :: "snap_history \<Rightarrow> int list" where
  "bucket_ids rows = remdups (map fst rows)"

text \<open>\<open>DISTINCT ON (bucket_ts, position_id) .. ORDER BY timestamp DESC\<close>.\<close>

definition bucket_snap :: "int \<Rightarrow> snap_history \<Rightarrow> int \<Rightarrow> time \<Rightarrow> greek_snap option" where
  "bucket_snap width rows k b =
     foldl (\<lambda>best (i, s). if i = k \<and> bucket_ts width (gk_time s) = b \<and> (case best of None \<Rightarrow> True | Some x \<Rightarrow> gk_time x < gk_time s)
       then Some s else best) None rows"

definition position_snaps :: "int \<Rightarrow> snap_history \<Rightarrow> int \<Rightarrow> (time \<times> greek_snap) list" where
  "position_snaps width rows k = List.map_filter (\<lambda>b. map_option (Pair b) (bucket_snap width rows k b)) (bucket_list width rows)"

record greek_point =
  gp_timestamp :: time
  gp_delta :: flt
  gp_gamma :: flt
  gp_vega :: flt
  gp_theta :: flt

definition bucket_sum :: "int \<Rightarrow> snap_history \<Rightarrow> (greek_snap \<Rightarrow> flt option) \<Rightarrow> time \<Rightarrow> flt" where
  "bucket_sum width rows f b =
     sum_list (map (\<lambda>k. case bucket_snap width rows k b of None \<Rightarrow> 0 | Some s \<Rightarrow> flt_or0 (f s)) (bucket_ids rows))"

definition greeks_history :: "time \<Rightarrow> flt \<times> int \<Rightarrow> snap_history \<Rightarrow> greek_point list" where
  "greeks_history now spec history =
     (let rows = window_rows (now - fst spec) history; total = bucket_sum (snd spec) rows
      in map (\<lambda>b. \<lparr>gp_timestamp = b, gp_delta = total gk_delta b, gp_gamma = total gk_gamma b, gp_vega = total gk_vega b,
                   gp_theta = total gk_theta b\<rparr>) (bucket_list (snd spec) rows))"

section \<open>Cumulated Taylor terms\<close>

datatype greek_term = G_delta | G_gamma | G_vega | G_theta

text \<open>What one leg adds between two of its snapshots; a term whose inputs are missing adds nothing.\<close>

fun interval_term :: "(time \<Rightarrow> flt option) \<Rightarrow> greek_term \<Rightarrow> time \<times> greek_snap \<Rightarrow> time \<times> greek_snap \<Rightarrow> flt" where
  "interval_term fwd G_delta (t0, s0) (t1, s1) = flt_or0 (both (*) (gk_delta s0) (both (-) (fwd t1) (fwd t0)))"
| "interval_term fwd G_gamma (t0, s0) (t1, s1) = flt_or0 (both (\<lambda>g ds. 1 / 2 * g * ds * ds) (gk_gamma s0) (both (-) (fwd t1) (fwd t0)))"
| "interval_term fwd G_vega (t0, s0) (t1, s1) = flt_or0 (both (*) (gk_vega s0) (both (-) (gk_iv s1) (gk_iv s0)))"
| "interval_term fwd G_theta (t0, s0) (t1, s1) = flt_or0 (map_option (\<lambda>th. th * ((t1 - t0) / 86400)) (gk_theta s0))"

definition pairwise :: "'a list \<Rightarrow> ('a \<times> 'a) list" where
  "pairwise xs = zip xs (drop 1 xs)"

definition leg_increment :: "(time \<Rightarrow> flt option) \<Rightarrow> greek_term \<Rightarrow> time \<Rightarrow> (time \<times> greek_snap) list \<Rightarrow> flt" where
  "leg_increment fwd g b snaps =
     sum_list (map (\<lambda>(x, y). interval_term fwd g x y) (filter (\<lambda>(x, y). fst y = b) (pairwise (sort_key fst snaps))))"

definition increment :: "(time \<Rightarrow> flt option) \<Rightarrow> (time \<times> greek_snap) list list \<Rightarrow> greek_term \<Rightarrow> time \<Rightarrow> flt" where
  "increment fwd legs g b = sum_list (map (leg_increment fwd g b) legs)"

type_synonym taylor_point = "time \<times> (greek_term \<Rightarrow> flt)"

fun cumulate :: "(greek_term \<Rightarrow> time \<Rightarrow> flt) \<Rightarrow> (greek_term \<Rightarrow> flt) \<Rightarrow> time list \<Rightarrow> taylor_point list" where
  "cumulate inc cum [] = []"
| "cumulate inc cum (b # bs) =
     (let c = (\<lambda>g. cum g + inc g b) in (b, \<lambda>g. py_round 2 (c g)) # cumulate inc c bs)"

definition taylor_pnl_series :: "(time \<times> greek_snap) list list \<Rightarrow> (time \<Rightarrow> flt option) \<Rightarrow> time list \<Rightarrow> taylor_point list" where
  "taylor_pnl_series legs fwd buckets = cumulate (increment fwd legs) (\<lambda>g. 0) buckets"

text \<open>The price of the future in the buckets that have one, carried forward over the others.\<close>

fun fill_forward :: "(time \<Rightarrow> flt option) \<Rightarrow> flt option \<Rightarrow> time list \<Rightarrow> (time \<times> flt option) list" where
  "fill_forward marks carried [] = []"
| "fill_forward marks carried (b # bs) =
     (let v = (case marks b of None \<Rightarrow> carried | Some p \<Rightarrow> Some p) in (b, v) # fill_forward marks v bs)"

definition future_marks :: "int \<Rightarrow> (int \<Rightarrow> bool) \<Rightarrow> snap_history \<Rightarrow> time \<Rightarrow> flt option" where
  "future_marks width is_future rows b =
     foldl (\<lambda>m k. case bucket_snap width rows k b of None \<Rightarrow> m | Some s \<Rightarrow> (case gk_price s of None \<Rightarrow> m | Some p \<Rightarrow> Some p))
       None (filter is_future (sorted_list_of_set (set (map fst rows))))"

text \<open>The stored gamma is per pip; the term takes it per unit of spot.\<close>

definition per_spot_gamma :: "greek_snap \<Rightarrow> greek_snap" where
  "per_spot_gamma s = s\<lparr>gk_gamma := map_option (\<lambda>g. g / PIP_SIZE) (gk_gamma s)\<rparr>"

definition greek_pnl_history :: "time \<Rightarrow> flt \<times> int \<Rightarrow> (int \<times> string option) list \<Rightarrow> snap_history \<Rightarrow> taylor_point list" where
  "greek_pnl_history now spec book history =
     (let rows = filter (\<lambda>(k, s). k \<in> fst ` set book) (window_rows (now - fst spec) history);
          is_future = (\<lambda>k. case map_of book k of None \<Rightarrow> False | Some ls \<Rightarrow> py_startswith (str_or ls) ''6E'');
          buckets = bucket_list (snd spec) rows;
          fwd = (\<lambda>b. case map_of (fill_forward (future_marks (snd spec) is_future rows) None buckets) b of None \<Rightarrow> None | Some v \<Rightarrow> v);
          legs = map (\<lambda>k. map (\<lambda>(b, s). (b, per_spot_gamma s)) (position_snaps (snd spec) rows k)) (bucket_ids rows)
      in taylor_pnl_series legs fwd buckets)"

section \<open>The cumulated terms foot\<close>

text \<open>The unrounded value of a point.\<close>

definition cumulated :: "(greek_term \<Rightarrow> time \<Rightarrow> flt) \<Rightarrow> greek_term \<Rightarrow> time list \<Rightarrow> flt" where
  "cumulated inc g bs = sum_list (map (inc g) bs)"

lemma cumulate_nth:
  "i < length bs \<Longrightarrow> cumulate inc cum bs ! i = (bs ! i, \<lambda>g. py_round 2 (cum g + cumulated inc g (take (Suc i) bs)))"
proof (induction bs arbitrary: i cum)
  case (Cons b bs)
  show ?case by (cases i) (use Cons in \<open>auto simp: Let_def cumulated_def add.assoc\<close>)
qed simp

lemma cumulate_length [simp]: "length (cumulate inc cum bs) = length bs"
  by (induction bs arbitrary: cum) (simp_all add: Let_def)

lemma sum_by_bucket:
  "distinct bs \<Longrightarrow> \<forall>y \<in> set ys. f y \<in> set bs \<Longrightarrow>
     sum_list (map (\<lambda>b. sum_list (map h (filter (\<lambda>y. f y = b) ys))) bs) = sum_list (map h ys :: flt list)"
proof (induction ys)
  case (Cons y ys)
  have "sum_list (map (\<lambda>b. sum_list (map h (filter (\<lambda>z. f z = b) (y # ys)))) bs) =
      sum_list (map (\<lambda>b. (if f y = b then h y else 0) + sum_list (map h (filter (\<lambda>z. f z = b) ys))) bs)"
    by (intro arg_cong [where f = sum_list] map_cong HOL.refl) simp
  also have "\<dots> = sum_list (map (\<lambda>b. if f y = b then h y else 0) bs) + sum_list (map h ys)"
    using Cons by (simp add: sum_list_addf)
  also have "sum_list (map (\<lambda>b. if f y = b then h y else 0) bs) = h y"
    using sum_list_single [OF Cons.prems(1), of "f y" "h y"] Cons.prems(2) by simp
  finally show ?case by simp
qed simp

lemma pairwise_mem: "p \<in> set (pairwise xs) \<Longrightarrow> fst p \<in> set xs \<and> snd p \<in> set xs"
  unfolding pairwise_def by (cases p) (metis fst_conv in_set_dropD set_zip_leftD set_zip_rightD snd_conv)

lemma leg_total:
  assumes "distinct bs" "fst ` set snaps \<subseteq> set bs"
  shows "sum_list (map (\<lambda>b. leg_increment fwd g b snaps) bs) =
    sum_list (map (\<lambda>(x, y). interval_term fwd g x y) (pairwise (sort_key fst snaps)))"
proof -
  have "\<forall>p \<in> set (pairwise (sort_key fst snaps)). fst (snd p) \<in> set bs"
  proof
    fix p assume "p \<in> set (pairwise (sort_key fst snaps))"
    then have "snd p \<in> set snaps" using pairwise_mem by fastforce
    then show "fst (snd p) \<in> set bs" using assms(2) by auto
  qed
  from sum_by_bucket [OF assms(1) this, of "\<lambda>p. interval_term fwd g (fst p) (snd p)"]
  show ?thesis by (simp add: leg_increment_def case_prod_unfold)
qed

lemma telescope:
  "xs \<noteq> [] \<Longrightarrow> sum_list (map (\<lambda>(x, y). (f y - f x :: flt)) (pairwise xs)) = f (last xs) - f (hd xs)"
proof (induction xs rule: induct_list012)
  case (3 x y zs)
  then show ?case by (simp add: pairwise_def)
qed (simp_all add: pairwise_def)

lemma increments_total:
  assumes "distinct bs" "\<forall>leg \<in> set legs. fst ` set leg \<subseteq> set bs"
  shows "cumulated (increment fwd legs) g bs =
    sum_list (map (\<lambda>leg. sum_list (map (\<lambda>(x, y). interval_term fwd g x y) (pairwise (sort_key fst leg)))) legs)"
  using assms(2)
proof (induction legs)
  case (Cons leg legs)
  have "cumulated (increment fwd (leg # legs)) g bs = sum_list (map (\<lambda>b. leg_increment fwd g b leg) bs) + cumulated (increment fwd legs) g bs"
    by (simp add: cumulated_def sum_list_addf [symmetric]) (simp add: increment_def [abs_def])
  with Cons leg_total [OF assms(1), of leg fwd g] show ?case by simp
qed (simp add: cumulated_def increment_def [abs_def])

text \<open>
  The series has one point per bucket, each the sum of all increments up to its bucket, so the
  last one carries every interval of every leg exactly once; nothing of a leg falls between two
  buckets.
\<close>

theorem taylor_series_foots:
  assumes "distinct buckets" "\<forall>leg \<in> set legs. fst ` set leg \<subseteq> set buckets" "i < length buckets"
  shows "length (taylor_pnl_series legs fwd buckets) = length buckets \<and>
    taylor_pnl_series legs fwd buckets ! i =
      (buckets ! i, \<lambda>g. py_round 2 (cumulated (increment fwd legs) g (take (Suc i) buckets))) \<and>
    snd (last (taylor_pnl_series legs fwd buckets)) g =
      py_round 2 (sum_list (map (\<lambda>leg. sum_list (map (\<lambda>(x, y). interval_term fwd g x y) (pairwise (sort_key fst leg)))) legs))"
proof -
  let ?s = "taylor_pnl_series legs fwd buckets"
  have len: "length ?s = length buckets" by (simp add: taylor_pnl_series_def)
  have at: "?s ! j = (buckets ! j, \<lambda>g. py_round 2 (cumulated (increment fwd legs) g (take (Suc j) buckets)))" if "j < length buckets" for j
    using that by (simp add: taylor_pnl_series_def cumulate_nth)
  have nd: "?s \<noteq> []" "length buckets - 1 < length buckets" using assms(3) len by auto
  have "take (Suc (length buckets - 1)) buckets = buckets" using assms(3) by simp
  then have "snd (last ?s) g = py_round 2 (cumulated (increment fwd legs) g buckets)"
    using at [OF nd(2)] by (simp add: last_conv_nth [OF nd(1)] len)
  then show ?thesis using len at [OF assms(3)] increments_total [OF assms(1,2), of fwd g] by simp
qed

definition steady_leg :: "(time \<times> greek_snap) list" where
  "steady_leg = map (\<lambda>(t, iv). (t, \<lparr>gk_time = t, gk_price = None, gk_iv = Some iv, gk_delta = Some 10, gk_gamma = None, gk_vega = Some 4,
     gk_theta = Some (- 2)\<rparr>)) [(0, 8), (86400, 9), (172800, 7)]"

definition steady_buckets :: "time list" where "steady_buckets = [0, 86400, 172800]"

lemma steady_sorted: "sort_key fst steady_leg = steady_leg" "fst ` set steady_leg = set steady_buckets"
  by (simp_all add: steady_leg_def steady_buckets_def)

theorem taylor_series_foots_witness:
  "snd (last (taylor_pnl_series [steady_leg] (\<lambda>b. None) steady_buckets)) G_theta = - 4"
proof -
  have "distinct steady_buckets" "\<forall>leg \<in> set [steady_leg]. fst ` set leg \<subseteq> set steady_buckets" "0 < length steady_buckets"
    using steady_sorted(2) by (simp_all add: steady_buckets_def)
  from taylor_series_foots [OF this, of "\<lambda>b. None" G_theta] show ?thesis
    using py_round_of_int [of 2 "- 4"] by (simp add: steady_sorted) (simp add: steady_leg_def pairwise_def)
qed

text \<open>
  With greeks that do not change the series does not depend on the sampling: at the end the
  delta, vega and theta terms are the greek times the whole move of the forward, of the leg's
  volatility and of the clock, however many snapshots lie between.
\<close>

theorem steady_greeks_telescope:
  assumes "distinct buckets" "fst ` set leg \<subseteq> set buckets" "leg \<noteq> []"
    and "\<forall>x \<in> set leg. gk_delta (snd x) = Some d \<and> gk_vega (snd x) = Some v \<and> gk_theta (snd x) = Some th \<and>
      gk_iv (snd x) = Some (iv x) \<and> fwd (fst x) = Some (F (fst x))"
    and "hd (sort_key fst leg) = x0" "last (sort_key fst leg) = x1"
  shows "snd (last (taylor_pnl_series [leg] fwd buckets)) =
    (\<lambda>g. case g of G_delta \<Rightarrow> py_round 2 (d * (F (fst x1) - F (fst x0))) | G_vega \<Rightarrow> py_round 2 (v * (iv x1 - iv x0))
       | G_theta \<Rightarrow> py_round 2 (th * ((fst x1 - fst x0) / 86400))
       | G_gamma \<Rightarrow> snd (last (taylor_pnl_series [leg] fwd buckets)) G_gamma)"
proof
  fix g
  let ?xs = "sort_key fst leg"
  have ne: "?xs \<noteq> []" using assms(3) by (metis set_empty set_sort)
  have pos: "0 < length buckets" using assms(2,3) by (cases buckets) (auto simp: neq_Nil_conv)
  have all: "\<forall>leg' \<in> set [leg]. fst ` set leg' \<subseteq> set buckets" using assms(2) by simp
  have in_leg: "x \<in> set leg \<and> y \<in> set leg" if "(x, y) \<in> set (pairwise ?xs)" for x y
    using pairwise_mem [OF that] by simp
  have sum: "sum_list (map (\<lambda>(x, y). interval_term fwd g x y) (pairwise ?xs)) = h x1 - h x0"
    if "\<And>x y. x \<in> set leg \<Longrightarrow> y \<in> set leg \<Longrightarrow> interval_term fwd g x y = h y - h x" for h :: "time \<times> greek_snap \<Rightarrow> flt"
  proof -
    have "map (\<lambda>(x, y). interval_term fwd g x y) (pairwise ?xs) = map (\<lambda>(x, y). h y - h x) (pairwise ?xs)"
      using in_leg that by (intro map_cong HOL.refl) auto
    from arg_cong [OF this, of sum_list] telescope [OF ne, of h] show ?thesis unfolding assms(5,6) by (rule trans)
  qed
  have end_value: "snd (last (taylor_pnl_series [leg] fwd buckets)) g = py_round 2 (h x1 - h x0)"
    if "\<And>x y. x \<in> set leg \<Longrightarrow> y \<in> set leg \<Longrightarrow> interval_term fwd g x y = h y - h x" for h :: "time \<times> greek_snap \<Rightarrow> flt"
  proof -
    have "snd (last (taylor_pnl_series [leg] fwd buckets)) g = py_round 2 (cumulated (increment fwd [leg]) g buckets)"
    proof -
      let ?s = "taylor_pnl_series [leg] fwd buckets"
      have "?s \<noteq> []" "length ?s = length buckets" using pos by (auto simp: taylor_pnl_series_def simp flip: length_greater_0_conv)
      then have "last ?s = ?s ! (length buckets - 1)" by (simp add: last_conv_nth)
      then show ?thesis using pos by (simp add: taylor_pnl_series_def cumulate_nth)
    qed
    then show ?thesis using increments_total [OF assms(1) all, of fwd g] sum [OF that] by simp
  qed
  have parts: "gk_delta s = Some d" "gk_vega s = Some v" "gk_theta s = Some th" "gk_iv s = Some (iv (t, s))" "fwd t = Some (F t)"
    if "(t, s) \<in> set leg" for t s
    using assms(4) that by force+
  show "snd (last (taylor_pnl_series [leg] fwd buckets)) g =
    (case g of G_delta \<Rightarrow> py_round 2 (d * (F (fst x1) - F (fst x0))) | G_vega \<Rightarrow> py_round 2 (v * (iv x1 - iv x0))
       | G_theta \<Rightarrow> py_round 2 (th * ((fst x1 - fst x0) / 86400))
       | G_gamma \<Rightarrow> snd (last (taylor_pnl_series [leg] fwd buckets)) G_gamma)"
  proof (cases g)
    case G_delta
    have "interval_term fwd g x y = d * F (fst y) - d * F (fst x)" if "x \<in> set leg" "y \<in> set leg" for x y
      using parts that by (cases x; cases y) (simp add: G_delta both_def right_diff_distrib)
    from end_value [OF this] show ?thesis by (simp add: G_delta right_diff_distrib)
  next
    case G_vega
    have "interval_term fwd g x y = v * iv y - v * iv x" if "x \<in> set leg" "y \<in> set leg" for x y
      using parts that by (cases x; cases y) (simp add: G_vega both_def right_diff_distrib)
    from end_value [OF this] show ?thesis by (simp add: G_vega right_diff_distrib)
  next
    case G_theta
    have "interval_term fwd g x y = th * (fst y / 86400) - th * (fst x / 86400)" if "x \<in> set leg" "y \<in> set leg" for x y
      using parts that by (cases x; cases y) (simp add: G_theta right_diff_distrib diff_divide_distrib)
    from end_value [OF this] show ?thesis by (simp add: G_theta right_diff_distrib diff_divide_distrib)
  qed simp
qed

theorem steady_greeks_telescope_witness:
  "snd (last (taylor_pnl_series [steady_leg] (\<lambda>b. Some b) steady_buckets)) G_vega = - 4"
proof -
  let ?iv = "\<lambda>x :: time \<times> greek_snap. case gk_iv (snd x) of Some v \<Rightarrow> v | None \<Rightarrow> 0"
  have b: "distinct steady_buckets" "fst ` set steady_leg \<subseteq> set steady_buckets" "steady_leg \<noteq> []"
    using steady_sorted(2) by (simp_all add: steady_buckets_def) (simp add: steady_leg_def)
  have g: "\<forall>x \<in> set steady_leg. gk_delta (snd x) = Some 10 \<and> gk_vega (snd x) = Some 4 \<and> gk_theta (snd x) = Some (- 2) \<and>
      gk_iv (snd x) = Some (?iv x) \<and> Some (fst x) = Some (fst x)" by (simp add: steady_leg_def)
  from fun_cong [OF steady_greeks_telescope [where F = "\<lambda>t. t" and fwd = "\<lambda>b. Some b" and iv = ?iv, OF b g HOL.refl HOL.refl], of G_vega]
  have "snd (last (taylor_pnl_series [steady_leg] (\<lambda>b. Some b) steady_buckets)) G_vega =
      py_round 2 (4 * (?iv (last (sort_key fst steady_leg)) - ?iv (hd (sort_key fst steady_leg))))" by (simp only: greek_term.case)
  then show ?thesis unfolding steady_sorted using py_round_of_int [of 2 "- 4"] by (simp add: steady_leg_def)
qed

section \<open>The series and the attribution\<close>

text \<open>
  The same leg, forward and volatilities over one interval: the gamma term is the attribution's,
  but the delta term is the spot times as large, since the dollar delta is taken for a delta, and
  the vega term a hundred times too small, since the volatility is a fraction and the vega per
  point.
\<close>

lemma greek_pnl_units_differ:
  fixes s0 s1 :: greek_snap
  assumes "gk_delta s0 = Some d" "gk_gamma s0 = Some gm" "gk_vega s0 = Some v" "gk_iv s0 = Some i0" "gk_iv s1 = Some i1"
    and "sn_delta t1 = Some d" "sn_gamma t1 = Some gm" "sn_vega t1 = Some v" "sn_iv t1 = Some i0" "sn_iv (lp_now p) = Some i1"
    and "\<not> live_is_future p" "f0 \<noteq> 0" "fwd b0 = Some f0" "fwd b1 = Some f1"
  shows "\<exists>dp gp vp. at_delta (taylor_terms now (live_input (Some f1) (Some f0) p (Some t1))) = Some dp \<and>
    at_gamma (taylor_terms now (live_input (Some f1) (Some f0) p (Some t1))) = Some gp \<and>
    at_vega (taylor_terms now (live_input (Some f1) (Some f0) p (Some t1))) = Some vp \<and>
    interval_term fwd G_delta (b0, s0) (b1, s1) = f0 * dp \<and>
    interval_term fwd G_gamma (b0, per_spot_gamma s0) (b1, s1) = gp \<and>
    interval_term fwd G_vega (b0, s0) (b1, s1) = vp / 100"
proof (intro exI conjI)
  show "at_delta (taylor_terms now (live_input (Some f1) (Some f0) p (Some t1))) = Some (d / f0 * (f1 - f0))"
    "at_gamma (taylor_terms now (live_input (Some f1) (Some f0) p (Some t1))) = Some (1 / 2 * gm * (1 / PIP_SIZE) * (f1 - f0) * (f1 - f0))"
    "at_vega (taylor_terms now (live_input (Some f1) (Some f0) p (Some t1))) = Some (v * (i1 * 100 - i0 * 100))"
    using assms by (simp_all add: taylor_terms_def live_input_def Let_def per_spot_def snap_field_def anchor_def iv_fraction_to_pts_def)
qed (use assms in \<open>simp_all add: both_def per_spot_gamma_def PIP_SIZE_def field_simps\<close>)

end
