(* ===== verification/Risk_Breakdown.thy ===== *)
theory Risk_Breakdown
  imports Portfolio_Risk Portfolio_Stats Attribution
begin

text \<open>
  Where the risk of the book sits: the component value at risk of the positions
  (\<open>core/risk/marginal_var.py\<close>), the projection of the vega on the factor model
  (\<open>core/risk/vega_pca.py\<close>), the tenor buckets and the replay of the market moves, with the
  endpoints of \<open>api/routers/portfolio_panel.py\<close> that report them. The arrays are lists; the
  statistics of numpy (linear quantile, sample variance and covariance) are written out.
\<close>

section \<open>Component value at risk\<close>

definition MIN_DAYS :: nat where "MIN_DAYS = 5"

definition loss_var :: "flt list \<Rightarrow> flt \<Rightarrow> flt" where
  "loss_var series conf = (case percentile (sort series) (1 - conf) of None \<Rightarrow> 0 | Some q \<Rightarrow> max 0 (- q))"

definition cov :: "flt list \<Rightarrow> flt list \<Rightarrow> flt" where
  "cov xs ys = sum_list (map (\<lambda>(x, y). (x - mean xs) * (y - mean ys)) (zip xs ys)) / (real (length xs) - 1)"

record position_var =
  pv_id :: int
  pv_standalone :: flt
  pv_component :: flt
  pv_pct :: flt

record component_result =
  cv_portfolio_var :: flt
  cv_diversification_pct :: flt
  cv_n_days :: nat
  cv_positions :: "position_var list"

type_synonym pnl_series = "(int \<times> flt list) list"

definition common_length :: "pnl_series \<Rightarrow> nat" where
  "common_length series = Min ((\<lambda>(k, v). length v) ` set series)"

definition right_aligned :: "nat \<Rightarrow> pnl_series \<Rightarrow> pnl_series" where
  "right_aligned n series = map (\<lambda>(k, v). (k, drop (length v - n) v)) series"

definition portfolio_series :: "nat \<Rightarrow> pnl_series \<Rightarrow> flt list" where
  "portfolio_series n mat = map (\<lambda>i. sum_list (map (\<lambda>(k, v). v ! i) mat)) [0..<n]"

definition spread :: "flt list \<Rightarrow> flt" where
  "spread pf = (if cov pf pf = 0 then 1 else cov pf pf)"

definition component :: "flt \<Rightarrow> flt list \<Rightarrow> flt list \<Rightarrow> flt" where
  "component var_p pf col = var_p * cov col pf / spread pf"

definition position_var_of :: "flt \<Rightarrow> flt \<Rightarrow> flt list \<Rightarrow> int \<times> flt list \<Rightarrow> position_var" where
  "position_var_of conf var_p pf kv =
     (let comp = component var_p pf (snd kv)
      in \<lparr>pv_id = fst kv, pv_standalone = py_round 2 (loss_var (snd kv) conf), pv_component = py_round 2 comp,
          pv_pct = (if var_p \<noteq> 0 then py_round 1 (100 * comp / var_p) else 0)\<rparr>)"

definition no_components :: "nat \<Rightarrow> component_result" where
  "no_components n = \<lparr>cv_portfolio_var = 0, cv_diversification_pct = 0, cv_n_days = n, cv_positions = []\<rparr>"

definition component_var :: "pnl_series \<Rightarrow> flt \<Rightarrow> component_result" where
  "component_var series_by_id conf =
     (let ids = filter (\<lambda>(k, v). v \<noteq> []) series_by_id; n = common_length ids in
      if ids = [] then no_components 0
      else if n < MIN_DAYS then no_components n
      else let mat = right_aligned n ids; pf = portfolio_series n mat; var_p = loss_var pf conf;
               standalone_sum = sum_list (map (\<lambda>(k, v). loss_var v conf) mat)
           in \<lparr>cv_portfolio_var = py_round 2 var_p,
               cv_diversification_pct = (if standalone_sum \<noteq> 0 then py_round 1 (100 * (1 - var_p / standalone_sum)) else 0),
               cv_n_days = n, cv_positions = map (position_var_of conf var_p pf) mat\<rparr>)"

section \<open>Replay of the market moves\<close>

definition HIST_SIM_MIN_SCENARIOS :: nat where "HIST_SIM_MIN_SCENARIOS = 60"

text \<open>The bar cache is None when it is empty, unreachable or not JSON; a bar without a close is passed over.\<close>

definition daily_closes :: "flt option list option \<Rightarrow> flt list" where
  "daily_closes cache = (case cache of None \<Rightarrow> [] | Some rows \<Rightarrow> List.map_filter (\<lambda>c. if truthy c then c else None) rows)"

definition hist_sim :: "normal \<Rightarrow> int \<Rightarrow> risk_position list \<Rightarrow> flt option list option \<Rightarrow> (flt list \<times> pnl_series) option result" where
  "hist_sim N today ps cache =
     (case resolve_book N today ps of
        None \<Rightarrow> Inr None
      | Some (spot, book, src) \<Rightarrow>
          if book = [] then Inr None
          else (case market_shocks (daily_closes cache) RV_WINDOW of
                  Inl e \<Rightarrow> Inl e
                | Inr shocks \<Rightarrow>
                    if length shocks < HIST_SIM_MIN_SCENARIOS then Inr None
                    else let by_position = simulate_pnl_by_position N (map snd book) spot shocks
                         in (case portfolio_pnl by_position of
                               Inl e \<Rightarrow> Inl e
                             | Inr pnl \<Rightarrow> Inr (Some (pnl, zip (map fst book) by_position)))))"

definition pnl_sample_days :: "(time \<times> flt) list \<Rightarrow> day list" where
  "pnl_sample_days xs = sorted_list_of_set (set (map (\<lambda>(t, v). day_of t) xs))"

text \<open>The last P&L of each day of a position, oldest first, and the changes between them.\<close>

definition daily_last :: "(time \<times> flt) list \<Rightarrow> flt list" where
  "daily_last xs = List.map_filter (\<lambda>d. map_option snd (latest_of (filter (\<lambda>(t, v). day_of t = d) xs))) (pnl_sample_days xs)"

fun changes :: "flt list \<Rightarrow> flt list" where
  "changes (a # b # xs) = (b - a) # changes (b # xs)"
| "changes _ = []"

definition history_series :: "time \<Rightarrow> (int \<times> time \<times> flt option) list \<Rightarrow> pnl_series" where
  "history_series now history =
     (let recent = List.map_filter (\<lambda>(k, t, v). if now - 120 * 86400 \<le> t then map_option (\<lambda>x. (k, t, x)) v else None) history;
          cum = map (\<lambda>k. (k, daily_last (map snd (filter (\<lambda>(i, tv). i = k) recent)))) (sorted_list_of_set (set (map fst recent)))
      in map (\<lambda>(k, v). (k, changes v)) (filter (\<lambda>(k, v). 2 \<le> length v) cum))"

datatype trade_tag = Trade_tag int | Package_tag int

definition trade_tag_of :: "risk_position \<Rightarrow> trade_tag option" where
  "trade_tag_of p =
     (case rp_trade_id p of
        Some t \<Rightarrow> Some (Trade_tag t)
      | None \<Rightarrow> map_option Package_tag (rp_package_id p))"

definition dominant_factor :: "risk_position \<Rightarrow> risk_factor" where
  "dominant_factor p =
     fst (foldl (\<lambda>best c. if snd best < snd c then c else best) (F_spot, \<bar>flt_or0 (rp_delta p)\<bar>)
       [(F_level, \<bar>flt_or0 (rp_vega p)\<bar>), (F_skew, \<bar>flt_or0 (rp_vanna p)\<bar>), (F_curv, \<bar>flt_or0 (rp_volga p)\<bar>)])"

record marginal_row =
  mg_var :: position_var
  mg_label :: "string option"
  mg_trade :: "trade_tag option"
  mg_factor :: risk_factor

definition marginal_row_of :: "risk_position list \<Rightarrow> position_var \<Rightarrow> marginal_row" where
  "marginal_row_of ps v =
     (case find (\<lambda>p. rp_id p = pv_id v) ps of
        None \<Rightarrow> \<lparr>mg_var = v, mg_label = Some (zero_pad 0 (pv_id v)), mg_trade = None, mg_factor = F_spot\<rparr>
      | Some p \<Rightarrow>
          \<lparr>mg_var = v, mg_label = (if str_or (rp_product_label p) = [] then rp_structure p else rp_product_label p),
           mg_trade = trade_tag_of p, mg_factor = dominant_factor p\<rparr>)"

record marginal_report =
  mr_positions :: "marginal_row list"
  mr_total :: "(flt \<times> flt) option"
  mr_n_days :: nat
  mr_method :: string

definition marginal_var ::
  "normal \<Rightarrow> int \<Rightarrow> time \<Rightarrow> risk_position list \<Rightarrow> flt option list option \<Rightarrow> (int \<times> time \<times> flt option) list \<Rightarrow> marginal_report result" where
  "marginal_var N today now ps cache history =
     (if ps = [] then Inr \<lparr>mr_positions = [], mr_total = None, mr_n_days = 0, mr_method = ''historical-simulation''\<rparr>
      else (case hist_sim N today ps cache of
              Inl e \<Rightarrow> Inl e
            | Inr sim \<Rightarrow>
                let sm = (case sim of Some (pnl, by_id) \<Rightarrow> (by_id, ''historical-simulation'') | None \<Rightarrow> (history_series now history, ''account-history''));
                    res = component_var (fst sm) (99 / 100); rows = map (marginal_row_of ps) (cv_positions res)
                in Inr \<lparr>mr_positions = rows,
                        mr_total = (if rows = [] then None else Some (cv_portfolio_var res, cv_diversification_pct res)),
                        mr_n_days = cv_n_days res, mr_method = snd sm\<rparr>))"

section \<open>Vega on the factor model\<close>

definition N_CELLS :: nat where "N_CELLS = 30"

definition tenor_index :: "flt \<Rightarrow> nat" where
  "tenor_index dte_days = nat (min 5 (max 0 (round_half_even (dte_days / 30) - 1)))"

definition delta_index :: "flt \<Rightarrow> nat" where
  "delta_index d =
     (let ad = \<bar>d\<bar> in
      if 375 / 1000 \<le> ad then 2
      else if d < 0 then (if 175 / 1000 \<le> ad then 1 else 0)
      else (if 175 / 1000 \<le> ad then 3 else 4))"

definition cell_index :: "flt \<Rightarrow> flt \<Rightarrow> nat" where
  "cell_index dte_days d = tenor_index dte_days * 5 + delta_index d"

definition option_vega :: "normal \<Rightarrow> flt \<Rightarrow> resolved_position \<Rightarrow> flt" where
  "option_vega N spot b = bs_vega N spot (rs_K b) (rs_T b) (rs_iv b) * rs_qty_signed b * rs_mult b * (1 / 100)"

definition option_cell :: "normal \<Rightarrow> flt \<Rightarrow> resolved_position \<Rightarrow> nat" where
  "option_cell N spot b = cell_index (rs_T b * 365) (bs_delta N spot (rs_K b) (rs_T b) (rs_iv b) (rs_right b))"

definition vega_cells :: "normal \<Rightarrow> flt \<Rightarrow> resolved_position list \<Rightarrow> flt list" where
  "vega_cells N spot opts =
     foldl (\<lambda>cs b. cs[option_cell N spot b := cs ! option_cell N spot b + option_vega N spot b]) (replicate N_CELLS 0) opts"

text \<open>Loadings of different lengths are no array: numpy raises.\<close>

definition project_vega :: "flt list \<Rightarrow> flt list list \<Rightarrow> flt list \<Rightarrow> nat \<Rightarrow> flt list result" where
  "project_vega cells loadings stds n_pc =
     (case loadings of
        [] \<Rightarrow> Inr []
      | l # ls \<Rightarrow>
          if \<exists>q \<in> set ls. length q \<noteq> length l then Inl (ValueError ''inhomogeneous shape'')
          else if length cells \<noteq> length l \<or> length stds \<noteq> length cells then Inr []
          else Inr (map (\<lambda>q. sum_list (map (\<lambda>i. cells ! i * stds ! i * q ! i) [0..<length cells])) (take n_pc loadings)))"

definition vega_pca :: "normal \<Rightarrow> int \<Rightarrow> (flt list list \<times> flt list) option \<Rightarrow> risk_position list \<Rightarrow> flt list result" where
  "vega_pca N today model ps =
     (let cells = (case resolve_book N today ps of
                     None \<Rightarrow> replicate N_CELLS 0
                   | Some (spot, book, src) \<Rightarrow> vega_cells N spot (filter (\<lambda>b. rs_type b = ''OPTION'') (map snd book)))
      in case model of
           None \<Rightarrow> Inr []
         | Some (loadings, stds) \<Rightarrow> (case project_vega cells loadings stds 3 of Inl e \<Rightarrow> Inl e | Inr proj \<Rightarrow> Inr (map (py_round 2) proj)))"

section \<open>Tenor buckets\<close>

definition TENOR_BUCKETS :: "(string \<times> int \<times> int) list" where
  "TENOR_BUCKETS =
     [(''1M'', 0, 30), (''2M'', 31, 60), (''3M'', 61, 90), (''4M'', 91, 120), (''6M'', 121, 180), (''>6M'', 181, 10000)]"

definition bucket_of :: "int \<Rightarrow> string option" where
  "bucket_of dte = map_option fst (find (\<lambda>(l, lo, hi). lo \<le> dte \<and> dte \<le> hi) TENOR_BUCKETS)"

definition dated_options :: "int \<Rightarrow> risk_position list \<Rightarrow> (int \<times> risk_position) list" where
  "dated_options today ps =
     List.map_filter (\<lambda>p. case rp_expiry p of
         None \<Rightarrow> None
       | Some e \<Rightarrow> if py_startswith (str_or (rp_structure p)) ''EUU'' \<and> today \<le> e then Some (max 0 (e - today), p) else None) ps"

record tenor_risk =
  tb_bucket :: string
  tb_vega :: flt
  tb_vanna :: flt
  tb_volga :: flt
  tb_n :: nat

definition in_bucket :: "string \<Rightarrow> (int \<times> risk_position) list \<Rightarrow> risk_position list" where
  "in_bucket l rows = map snd (filter (\<lambda>(dte, p). bucket_of dte = Some l) rows)"

definition vega_per_tenor :: "int \<Rightarrow> risk_position list \<Rightarrow> (string \<times> flt \<times> nat) list" where
  "vega_per_tenor today ps =
     map (\<lambda>(l, lo, hi). let xs = List.map_filter rp_vega (in_bucket l (dated_options today ps)) in (l, py_round 2 (sum_list xs), length xs))
       TENOR_BUCKETS"

definition risk_per_tenor :: "int \<Rightarrow> risk_position list \<Rightarrow> tenor_risk list" where
  "risk_per_tenor today ps =
     map (\<lambda>(l, lo, hi). let xs = in_bucket l (dated_options today ps) in
         \<lparr>tb_bucket = l, tb_vega = py_round 2 (sum_list (map (\<lambda>p. flt_or0 (rp_vega p)) xs)),
          tb_vanna = py_round 2 (sum_list (map (\<lambda>p. flt_or0 (rp_vanna p)) xs)),
          tb_volga = py_round 2 (sum_list (map (\<lambda>p. flt_or0 (rp_volga p)) xs)), tb_n = length xs\<rparr>)
       TENOR_BUCKETS"

section \<open>The components add up\<close>

lemma cov_nth:
  assumes "length xs = n" "length ys = n"
  shows "cov xs ys = sum_list (map (\<lambda>i. (xs ! i - mean xs) * (ys ! i - mean ys)) [0..<n]) / (real n - 1)"
proof -
  have "map (\<lambda>(x, y). (x - mean xs) * (y - mean ys)) (zip xs ys) = map (\<lambda>i. (xs ! i - mean xs) * (ys ! i - mean ys)) [0..<n]"
    by (rule nth_equalityI) (use assms in auto)
  then show ?thesis using assms(1) by (simp add: cov_def)
qed

lemma sum_list_upt: "length xs = n \<Longrightarrow> sum_list (map ((!) xs) [0..<n]) = sum_list xs"
  by (metis map_nth)

lemma mean_add:
  assumes "length xs = n" "length zs = n"
  shows "mean (map (\<lambda>i. xs ! i + zs ! i) [0..<n]) = mean xs + mean zs"
  using sum_list_upt [OF assms(1)] sum_list_upt [OF assms(2)]
  by (simp add: mean_def sum_list_addf assms add_divide_distrib)

lemma cov_add:
  assumes "length xs = n" "length zs = n" "length ys = n"
  shows "cov (map (\<lambda>i. xs ! i + zs ! i) [0..<n]) ys = cov xs ys + cov zs ys"
proof -
  let ?ws = "map (\<lambda>i. xs ! i + zs ! i) [0..<n]"
  have "map (\<lambda>i. (?ws ! i - mean ?ws) * (ys ! i - mean ys)) [0..<n] =
      map (\<lambda>i. (xs ! i - mean xs) * (ys ! i - mean ys) + (zs ! i - mean zs) * (ys ! i - mean ys)) [0..<n]"
    unfolding mean_add [OF assms(1,2)] by (intro map_cong HOL.refl) (simp add: algebra_simps)
  then show ?thesis using assms by (simp only: cov_nth [where n = n] length_map length_upt diff_zero sum_list_addf add_divide_distrib)
qed

lemma portfolio_Cons: "portfolio_series n (kv # mat) = map (\<lambda>i. snd kv ! i + portfolio_series n mat ! i) [0..<n]"
  by (auto simp: portfolio_series_def case_prod_unfold)

lemma portfolio_length [simp]: "length (portfolio_series n mat) = n" by (simp add: portfolio_series_def)

lemma cov_total:
  assumes "\<forall>kv \<in> set mat. length (snd kv) = n" "length ys = n"
  shows "sum_list (map (\<lambda>kv. cov (snd kv) ys) mat) = cov (portfolio_series n mat) ys"
  using assms(1)
proof (induction mat)
  case Nil
  have "portfolio_series n [] = replicate n 0" by (simp add: portfolio_series_def map_replicate_trivial)
  moreover have "cov (replicate n 0) ys = 0"
  proof -
    have z: "map (\<lambda>i. (replicate n 0 ! i - mean (replicate n 0)) * (ys ! i - mean ys)) [0..<n] = map (\<lambda>i. 0) [0..<n]"
      by (intro map_cong HOL.refl) (simp add: mean_def sum_list_replicate)
    show ?thesis unfolding cov_nth [OF length_replicate assms(2)] z by simp
  qed
  ultimately show ?case by simp
next
  case (Cons kv mat)
  then show ?case using cov_add [of "snd kv" n "portfolio_series n mat" ys] assms(2) by (simp add: portfolio_Cons)
qed

lemma cov_zero_constant:
  assumes "cov pf pf = 0" "1 < length pf" "x \<in> set pf"
  shows "x = mean pf"
proof -
  let ?f = "\<lambda>i. (pf ! i - mean pf) * (pf ! i - mean pf)"
  have "sum_list (map ?f [0..<length pf]) = 0"
    using assms(1,2) unfolding cov_nth [OF HOL.refl HOL.refl] by simp
  moreover have "\<forall>y \<in> set (map ?f [0..<length pf]). 0 \<le> y" by simp
  ultimately have z: "\<forall>y \<in> set (map ?f [0..<length pf]). y = 0"
    using sum_list_nonneg_eq_0_iff [of "map ?f [0..<length pf]"] by blast
  obtain i where i: "i < length pf" "x = pf ! i" using assms(3) by (auto simp: in_set_conv_nth)
  then have "?f i \<in> set (map ?f [0..<length pf])" unfolding set_map by (intro imageI) simp
  then have "?f i = 0" using z by blast
  then show ?thesis using i(2) by simp
qed

lemma rounded_sum: "\<bar>sum_list (map (py_round 2) xs) - sum_list xs\<bar> \<le> real (length xs) / 200"
proof (induction xs)
  case (Cons x xs)
  then show ?case using py_round_close [of 2 x] unfolding abs_le_iff by (simp add: add_divide_distrib)
qed simp

definition with_history :: "pnl_series \<Rightarrow> pnl_series" where
  "with_history series = filter (\<lambda>(k, v). v \<noteq> []) series"

lemma right_aligned_length:
  assumes "kv \<in> set (right_aligned (common_length s) s)"
  shows "length (snd kv) = common_length s"
proof -
  obtain k v where v: "(k, v) \<in> set s" "kv = (k, drop (length v - common_length s) v)" using assms by (auto simp: right_aligned_def)
  have "common_length s \<le> length v" unfolding common_length_def by (rule Min_le) (use v(1) in force)+
  then show ?thesis using v(2) by simp
qed

lemma component_unfold:
  assumes "cv_positions (component_var series conf) \<noteq> []"
  shows "\<exists>ids n mat pf. ids = with_history series \<and> n = common_length ids \<and> mat = right_aligned n ids \<and> pf = portfolio_series n mat \<and>
    5 \<le> n \<and> cv_n_days (component_var series conf) = n \<and> cv_portfolio_var (component_var series conf) = py_round 2 (loss_var pf conf) \<and>
    cv_positions (component_var series conf) = map (position_var_of conf (loss_var pf conf) pf) mat"
  using assms by (auto simp: component_var_def Let_def with_history_def no_components_def MIN_DAYS_def split: if_splits)

text \<open>
  The components are an Euler allocation: they name each position with a history once and, unless
  every day of the portfolio is the same, add up to the portfolio's value at risk but for the
  rounding of the figures to cents.
\<close>

theorem component_var_euler:
  assumes "component_var series conf = r" "cv_positions r \<noteq> []"
    and "x \<in> set (portfolio_series (cv_n_days r) (right_aligned (cv_n_days r) (with_history series)))"
    and "y \<in> set (portfolio_series (cv_n_days r) (right_aligned (cv_n_days r) (with_history series)))" "x \<noteq> y"
  shows "map pv_id (cv_positions r) = map fst (with_history series) \<and> 0 \<le> cv_portfolio_var r \<and>
    \<bar>sum_list (map pv_component (cv_positions r)) - cv_portfolio_var r\<bar> \<le> (real (length (cv_positions r)) + 1) / 200"
proof -
  obtain ids n mat pf where d: "ids = with_history series" "n = common_length ids" "mat = right_aligned n ids" "pf = portfolio_series n mat"
    "5 \<le> n" "cv_n_days r = n" "cv_portfolio_var r = py_round 2 (loss_var pf conf)" "cv_positions r = map (position_var_of conf (loss_var pf conf) pf) mat"
    using component_unfold [of series conf] assms(1,2) by auto
  have lens: "\<forall>kv \<in> set mat. length (snd kv) = n" using right_aligned_length [of _ ids] unfolding d(2,3) by blast
  have pf: "length pf = n" unfolding d(4) by simp
  have "x \<in> set pf" "y \<in> set pf" using assms(3,4) unfolding d(4,3,1,6) by auto
  then have nz: "cov pf pf \<noteq> 0" using cov_zero_constant [of pf x] cov_zero_constant [of pf y] assms(5) d(5) pf by fastforce
  let ?v = "loss_var pf conf"
  let ?cs = "map (\<lambda>kv. component ?v pf (snd kv)) mat"
  have "?cs = map (\<lambda>kv. cov (snd kv) pf * (?v / cov pf pf)) mat" using nz by (simp add: component_def spread_def)
  then have "sum_list ?cs = cov pf pf * (?v / cov pf pf)"
    using cov_total [OF lens pf] unfolding d(4) [symmetric] by (simp only: sum_list_mult_const)
  then have total: "sum_list ?cs = ?v" using nz by simp
  have comps: "map pv_component (cv_positions r) = map (py_round 2) ?cs" by (simp add: d(8) position_var_of_def Let_def)
  have "\<bar>py_round 2 ?v - ?v\<bar> \<le> 1 / 200" using py_round_close [of 2 ?v] by simp
  then have "\<bar>sum_list (map pv_component (cv_positions r)) - cv_portfolio_var r\<bar> \<le> (real (length (cv_positions r)) + 1) / 200"
    using rounded_sum [of ?cs] unfolding comps total d(7) abs_le_iff by (simp add: d(8) add_divide_distrib)
  moreover have "map pv_id (cv_positions r) = map fst (with_history series)"
    by (simp add: d(8) position_var_of_def Let_def) (simp add: d(1,3) right_aligned_def position_var_of_def Let_def case_prod_unfold comp_def)
  moreover have "0 \<le> ?v" by (auto simp: loss_var_def split: option.splits)
  ultimately show ?thesis using py_round_nonneg [of ?v 2] by (simp add: d(7))
qed

text \<open>A book that loses the same amount every day has a value at risk, of which no position gets a share.\<close>

lemma constant_loss_unallocated:
  "cv_portfolio_var (component_var [(1, [- 10, - 10, - 10, - 10, - 10])] (99 / 100)) = 10 \<and>
   map pv_component (cv_positions (component_var [(1, [- 10, - 10, - 10, - 10, - 10])] (99 / 100))) = [0]"
proof -
  let ?l = "[- 10, - 10, - 10, - 10, - 10 :: flt]"
  have "portfolio_series (Suc (Suc (Suc (Suc (Suc 0))))) [(1 :: int, ?l)] = ?l" by (simp add: portfolio_series_def upt_rec)
  moreover have "loss_var ?l (99 / 100) = 10" by (simp add: loss_var_def percentile_def Let_def)
  moreover have "cov ?l ?l = 0" by (simp add: cov_def mean_def)
  ultimately show ?thesis using py_round_of_int [of 2 10]
    by (simp add: component_var_def Let_def common_length_def right_aligned_def MIN_DAYS_def position_var_of_def component_def)
qed

theorem component_var_euler_witness:
  "\<bar>sum_list (map pv_component (cv_positions (component_var [(1, [- 1, 2, - 3, 4, - 5]), (2, [1, 1, 1, 1, 1])] (99 / 100))))
     - cv_portfolio_var (component_var [(1, [- 1, 2, - 3, 4, - 5]), (2, [1, 1, 1, 1, 1])] (99 / 100))\<bar> \<le> 3 / 200"
proof -
  let ?s = "[(1, [- 1, 2, - 3, 4, - 5]), (2, [1, 1, 1, 1, 1])] :: pnl_series"
  let ?r = "component_var ?s (99 / 100)"
  have n: "cv_n_days ?r = Suc (Suc (Suc (Suc (Suc 0))))" "length (cv_positions ?r) = 2"
    by (simp_all add: component_var_def Let_def common_length_def MIN_DAYS_def right_aligned_def)
  have pf: "portfolio_series (cv_n_days ?r) (right_aligned (cv_n_days ?r) (with_history ?s)) = [0, 3, - 2, 5, - 4]"
    unfolding n by (simp add: with_history_def right_aligned_def portfolio_series_def upt_rec)
  from n(2) have "cv_positions ?r \<noteq> []" by auto
  from component_var_euler [OF HOL.refl this, of 0 3] show ?thesis unfolding pf n(2) by simp
qed

section \<open>One value at risk, two endpoints\<close>

lemma hist_sim_series:
  assumes "hist_sim N today ps cache = Inr (Some (pnl, by_id))"
  shows "\<exists>n. 60 \<le> n \<and> by_id \<noteq> [] \<and> (\<forall>kv \<in> set by_id. length (snd kv) = n) \<and> pnl = portfolio_series n by_id"
proof -
  obtain spot book src where b: "resolve_book N today ps = Some (spot, book, src)" "book \<noteq> []"
    using assms by (auto simp: hist_sim_def split: option.splits if_splits)
  obtain shocks where sh: "market_shocks (daily_closes cache) RV_WINDOW = Inr shocks" "60 \<le> length shocks"
    using assms b by (auto simp: hist_sim_def HIST_SIM_MIN_SCENARIOS_def Let_def split: sum.splits if_splits)
  let ?rows = "simulate_pnl_by_position N (map snd book) spot shocks"
  have len: "\<forall>q \<in> set ?rows. length q = length shocks" and rows: "length ?rows = length book" "?rows \<noteq> []"
    using b(2) by (auto simp: simulate_pnl_by_position_def)
  have p: "portfolio_pnl ?rows = Inr (map (\<lambda>i. sum_list (map (\<lambda>q. q ! i) ?rows)) [0..<length shocks])"
    by (rule portfolio_pnl_rows [OF len rows(2)])
  have r: "by_id = zip (map fst book) ?rows" "pnl = map (\<lambda>i. sum_list (map (\<lambda>q. q ! i) ?rows)) [0..<length shocks]"
    using assms b sh p by (auto simp: hist_sim_def HIST_SIM_MIN_SCENARIOS_def Let_def)
  have snds: "map snd by_id = ?rows" unfolding r(1) by (rule map_snd_zip) (simp add: rows)
  have "pnl = portfolio_series (length shocks) by_id"
    unfolding r(2) portfolio_series_def snds [symmetric] by (simp add: case_prod_unfold comp_def)
  moreover have "\<forall>kv \<in> set by_id. length (snd kv) = length shocks" using len unfolding snds [symmetric] by auto
  moreover have "by_id \<noteq> []" using snds rows(2) by auto
  ultimately show ?thesis using sh(2) by blast
qed

lemma aligned_series:
  assumes "s \<noteq> []" "\<forall>kv \<in> set s. length (snd kv) = n" "0 < n"
  shows "filter (\<lambda>(k, v). v \<noteq> []) s = s" "common_length s = n" "right_aligned n s = s"
proof -
  show "filter (\<lambda>(k, v). v \<noteq> []) s = s" using assms(2,3) by (intro filter_True) fastforce
  have "(\<lambda>(k, v). length v) ` set s = {n}" using assms(1,2) by (auto simp: image_iff) (metis case_prod_beta list.set_intros(1) neq_Nil_conv snd_conv)
  then show "common_length s = n" by (simp add: common_length_def)
  show "right_aligned n s = s" unfolding right_aligned_def using assms(2) by (intro map_idI) auto
qed

text \<open>
  The 99\% figure of the value-at-risk panel and the total of the component panel are one number:
  when the market moves are replayed, the loss decomposed over the positions is the figure the
  first panel shows, with its sign turned and no gain counted, over the same scenarios.
\<close>

theorem var_panels_agree:
  assumes "hist_sim N today ps cache = Inr (Some (pnl, by_id))" "marginal_var N today now ps cache history = Inr m" "ps \<noteq> []"
  shows "\<exists>v d. vr_var_99 (value_at_risk now (Some pnl) pf t) = Some v \<and> mr_total m = Some (max 0 (- v), d) \<and>
    mr_n_days m = vr_n_days (value_at_risk now (Some pnl) pf t) \<and> mr_method m = vr_method (value_at_risk now (Some pnl) pf t)"
proof -
  obtain n where n: "60 \<le> n" "by_id \<noteq> []" "\<forall>kv \<in> set by_id. length (snd kv) = n" "pnl = portfolio_series n by_id"
    using hist_sim_series [OF assms(1)] by blast
  note al = aligned_series [OF n(2,3)]
  have len: "length pnl = n" unfolding n(4) by simp
  have ne: "sort pnl \<noteq> []" using len n(1) by (metis length_sort list.size(3) not_numeral_le_zero)
  obtain q99 q95 where q: "percentile (sort pnl) (1 / 100) = Some q99" "percentile (sort pnl) (5 / 100) = Some q95"
    using ne by (simp add: percentile_def Let_def)
  have v: "vr_var_99 (value_at_risk now (Some pnl) pf t) = Some (py_round 2 q99)"
    using q len n(1) by (simp add: value_at_risk_def var_report_of_def var_stats_of_def VAR_MIN_OBS_def Let_def)
  have loss: "loss_var pnl (99 / 100) = max 0 (- q99)" using q(1) by (simp add: loss_var_def)
  have c: "cv_positions (component_var by_id (99 / 100)) \<noteq> []" "cv_n_days (component_var by_id (99 / 100)) = n"
    "cv_portfolio_var (component_var by_id (99 / 100)) = py_round 2 (max 0 (- q99))"
    using n(1,2) al loss by (simp_all add: component_var_def Let_def MIN_DAYS_def n(4) [symmetric])
  have rnd: "py_round 2 (max 0 (- q99)) = max 0 (- py_round 2 q99)"
    using py_round_nonneg [of q99 2] py_round_nonneg [of "- q99" 2] by (cases "0 \<le> q99") (auto simp: max_def py_round_minus)
  have "m = \<lparr>mr_positions = map (marginal_row_of ps) (cv_positions (component_var by_id (99 / 100))),
      mr_total = Some (max 0 (- py_round 2 q99), cv_diversification_pct (component_var by_id (99 / 100))), mr_n_days = n,
      mr_method = ''historical-simulation''\<rparr>"
    using assms(2,3) c by (simp add: marginal_var_def assms(1) Let_def rnd)
  moreover have "vr_n_days (value_at_risk now (Some pnl) pf t) = n" "vr_method (value_at_risk now (Some pnl) pf t) = ''historical-simulation''"
    using len by (simp_all add: value_at_risk_def var_report_of_def Let_def)
  ultimately show ?thesis using v by simp
qed

text \<open>The replay runs as soon as the book resolves and 82 positive closes are cached.\<close>

lemma hist_sim_runs:
  assumes "resolve_book N today ps = Some (spot, book, src)" "book \<noteq> []" "\<forall>c \<in> set (daily_closes cache). 0 < c" "82 \<le> length (daily_closes cache)"
  shows "\<exists>pnl by_id. hist_sim N today ps cache = Inr (Some (pnl, by_id))"
proof -
  have "2 \<le> RV_WINDOW" by (simp add: RV_WINDOW_def)
  from market_shocks_complete [OF assms(3) this] obtain shocks where sh: "market_shocks (daily_closes cache) RV_WINDOW = Inr shocks"
    "length shocks = length (daily_closes cache) - 1 - RV_WINDOW" by blast
  then have n: "\<not> length shocks < HIST_SIM_MIN_SCENARIOS" using assms(4) by (simp add: RV_WINDOW_def HIST_SIM_MIN_SCENARIOS_def)
  let ?rows = "simulate_pnl_by_position N (map snd book) spot shocks"
  have "\<forall>q \<in> set ?rows. length q = length shocks" "?rows \<noteq> []" using assms(2) by (auto simp: simulate_pnl_by_position_def)
  from portfolio_pnl_rows [OF this] obtain pnl where "portfolio_pnl ?rows = Inr pnl" by blast
  then show ?thesis using n assms(2) by (simp add: hist_sim_def assms(1) sh(1) Let_def)
qed

theorem var_panels_agree_witness:
  "\<exists>pnl by_id m v d. hist_sim logistic 360 hedged_call (Some (replicate 82 (Some 1))) = Inr (Some (pnl, by_id)) \<and>
     marginal_var logistic 360 0 hedged_call (Some (replicate 82 (Some 1))) [] = Inr m \<and>
     vr_var_99 (value_at_risk 0 (Some pnl) [] []) = Some v \<and> mr_total m = Some (max 0 (- v), d)"
proof -
  let ?cache = "Some (replicate 82 (Some 1)) :: flt option list option"
  have closes: "daily_closes ?cache = replicate 82 1"
  proof -
    have "List.map_filter (\<lambda>c. if truthy c then c else None) (replicate n (Some 1)) = replicate n (1 :: flt)" for n
      by (induction n) (simp_all add: List.map_filter_simps truthy_def)
    then show ?thesis by (simp add: daily_closes_def)
  qed
  have b: "resolve_book logistic 360 hedged_call = Some (11 / 10, baselines logistic (11 / 10) 360 hedged_call, ''future_mark'')"
    by (simp add: resolved_spot hedged_call_spot)
  have "map snd (baselines logistic (11 / 10) 360 hedged_call) \<noteq> []" unfolding hedged_call_book by simp
  then have ne: "baselines logistic (11 / 10) 360 hedged_call \<noteq> []" by auto
  have "\<forall>c \<in> set (daily_closes ?cache). 0 < c" "82 \<le> length (daily_closes ?cache)" unfolding closes by simp_all
  from hist_sim_runs [OF b ne this] obtain pnl by_id where h: "hist_sim logistic 360 hedged_call ?cache = Inr (Some (pnl, by_id))" by blast
  have hc: "hedged_call \<noteq> []" by (simp add: hedged_call_def)
  obtain m where m: "marginal_var logistic 360 0 hedged_call ?cache [] = Inr m" using hc by (simp add: marginal_var_def h Let_def)
  from var_panels_agree [OF h m hc, where pf = "[]" and t = "[]"] h m show ?thesis by blast
qed

section \<open>Vega by cell\<close>

lemma cell_index_bound: "cell_index dte d < N_CELLS"
proof -
  have "tenor_index dte \<le> 5" by (simp add: tenor_index_def)
  moreover have "delta_index d \<le> 4" by (simp add: delta_index_def Let_def)
  ultimately show ?thesis by (simp add: cell_index_def N_CELLS_def)
qed

lemma vega_cells_snoc:
  "vega_cells N spot (opts @ [b]) =
     (vega_cells N spot opts)[option_cell N spot b := vega_cells N spot opts ! option_cell N spot b + option_vega N spot b]"
  by (simp add: vega_cells_def)

lemma vega_cells_length [simp]: "length (vega_cells N spot opts) = N_CELLS"
  by (induction opts rule: rev_induct) (simp_all add: vega_cells_snoc, simp add: vega_cells_def)

lemma cell_product:
  "sum_list (map (\<lambda>i. vega_cells N spot opts ! i * w i) [0..<N_CELLS]) = sum_list (map (\<lambda>b. option_vega N spot b * w (option_cell N spot b)) opts)"
proof (induction opts rule: rev_induct)
  case Nil
  have "map (\<lambda>i. vega_cells N spot [] ! i * w i) [0..<N_CELLS] = map (\<lambda>i. 0) [0..<N_CELLS]"
    by (intro map_cong HOL.refl) (simp add: vega_cells_def)
  then show ?case by (simp only: sum_list_0) simp
next
  case (snoc b opts)
  let ?c = "option_cell N spot b"
  have c: "?c \<in> set [0..<N_CELLS]" unfolding option_cell_def using cell_index_bound by simp
  have "map (\<lambda>i. vega_cells N spot (opts @ [b]) ! i * w i) [0..<N_CELLS] =
      map (\<lambda>i. vega_cells N spot opts ! i * w i + (if ?c = i then option_vega N spot b * w ?c else 0)) [0..<N_CELLS]"
    by (intro map_cong HOL.refl) (auto simp: vega_cells_snoc algebra_simps)
  then have "sum_list (map (\<lambda>i. vega_cells N spot (opts @ [b]) ! i * w i) [0..<N_CELLS]) =
      sum_list (map (\<lambda>i. vega_cells N spot opts ! i * w i) [0..<N_CELLS]) +
      sum_list (map (\<lambda>i. if ?c = i then option_vega N spot b * w ?c else 0) [0..<N_CELLS])"
    by (simp only: sum_list_addf)
  also have "sum_list (map (\<lambda>i. if ?c = i then option_vega N spot b * w ?c else 0) [0..<N_CELLS]) = option_vega N spot b * w ?c"
    using sum_list_single [OF distinct_upt, of ?c "option_vega N spot b * w ?c" 0 N_CELLS] c by simp
  finally show ?case using snoc by simp
qed

text \<open>
  The projection charges every option to exactly its own cell: each factor's figure is the sum
  over the options of their vega times the loading and the deviation of the cell the option
  falls in, and with loadings of another size there is no figure at all.
\<close>

theorem vega_projection_by_option:
  assumes "loadings \<noteq> []" "\<forall>q \<in> set loadings. length q = m" "length stds = N_CELLS"
  shows "project_vega (vega_cells N spot opts) loadings stds n_pc =
    Inr (if m = N_CELLS
         then map (\<lambda>q. sum_list (map (\<lambda>b. option_vega N spot b * (stds ! option_cell N spot b * q ! option_cell N spot b)) opts)) (take n_pc loadings)
         else [])"
proof -
  obtain l ls where l: "loadings = l # ls" "length l = m" "\<not> (\<exists>q \<in> set ls. length q \<noteq> length l)" using assms(1,2) by (cases loadings) auto
  have "(\<Sum>i\<leftarrow>[0..<N_CELLS]. vega_cells N spot opts ! i * stds ! i * q ! i) =
      sum_list (map (\<lambda>b. option_vega N spot b * (stds ! option_cell N spot b * q ! option_cell N spot b)) opts)" for q
    using cell_product [of N spot opts "\<lambda>i. stds ! i * q ! i"] by (simp add: mult.assoc)
  then show ?thesis using l assms(3) by (simp add: project_vega_def)
qed

theorem vega_projection_by_option_witness:
  "project_vega (vega_cells logistic 1 []) [replicate N_CELLS 1] (replicate N_CELLS 1) 3 = Inr [0]"
  using vega_projection_by_option [of "[replicate N_CELLS 1]" N_CELLS "replicate N_CELLS 1" logistic 1 "[]" 3] by simp

text \<open>The body of the smile takes every delta of at least 0.375, deep in-the-money options too.\<close>

lemma deep_delta_is_atm: "delta_index (9 / 10) = delta_index (1 / 2)" by (simp add: delta_index_def)

section \<open>Tenor buckets\<close>

lemma bucket_cases:
  assumes "0 \<le> dte" "dte \<le> 10000"
  shows "\<exists>l. bucket_of dte = Some l \<and> l \<in> set (map fst TENOR_BUCKETS)"
  using assms by (auto simp: bucket_of_def TENOR_BUCKETS_def)

lemma buckets_distinct: "distinct (map fst TENOR_BUCKETS)" by (simp add: TENOR_BUCKETS_def)

lemma bucket_partition:
  assumes "\<forall>(dte, p) \<in> set rows. 0 \<le> dte \<and> dte \<le> 10000"
  shows "sum_list (map (\<lambda>l. sum_list (map h (in_bucket l rows))) (map fst TENOR_BUCKETS)) = (sum_list (map (\<lambda>(dte, p). h p) rows) :: flt)"
  using assms
proof (induction rows)
  case (Cons r rows)
  obtain dte p where r: "r = (dte, p)" by (cases r)
  obtain l where l: "bucket_of dte = Some l" "l \<in> set (map fst TENOR_BUCKETS)" using bucket_cases [of dte] Cons.prems r by auto
  have "sum_list (map (\<lambda>k. sum_list (map h (in_bucket k (r # rows)))) (map fst TENOR_BUCKETS)) =
      sum_list (map (\<lambda>k. (if l = k then h p else 0) + sum_list (map h (in_bucket k rows))) (map fst TENOR_BUCKETS))"
    by (intro arg_cong [where f = sum_list] map_cong HOL.refl) (simp add: in_bucket_def r l)
  also have "\<dots> = sum_list (map (\<lambda>k. if l = k then h p else 0) (map fst TENOR_BUCKETS)) +
      sum_list (map (\<lambda>k. sum_list (map h (in_bucket k rows))) (map fst TENOR_BUCKETS))" by (rule sum_list_addf)
  also have "sum_list (map (\<lambda>k. if l = k then h p else 0) (map fst TENOR_BUCKETS)) = h p"
    unfolding sum_list_single [OF buckets_distinct] using l(2) by simp
  finally show ?case using Cons by (simp add: r)
qed (simp add: in_bucket_def TENOR_BUCKETS_def)

lemma dated_range: "(dte, p) \<in> set (dated_options today ps) \<Longrightarrow> 0 \<le> dte"
  by (auto simp: dated_options_def map_filter_members split: option.splits if_splits)

text \<open>
  The tenor panel covers the dated options: when none expires beyond the last bucket, every
  option counts in exactly one bucket and the bucket vegas are the vega of the book up to the
  rounding of the six figures.
\<close>

theorem tenor_buckets_cover:
  assumes "\<forall>(dte, p) \<in> set (dated_options today ps). dte \<le> 10000"
  shows "sum_list (map tb_n (risk_per_tenor today ps)) = length (dated_options today ps) \<and>
    \<bar>sum_list (map tb_vega (risk_per_tenor today ps)) - sum_list (map (\<lambda>(dte, p). flt_or0 (rp_vega p)) (dated_options today ps))\<bar> \<le> 6 / 200"
proof
  let ?rows = "dated_options today ps" let ?b = "map fst TENOR_BUCKETS"
  have ok: "\<forall>(dte, p) \<in> set ?rows. 0 \<le> dte \<and> dte \<le> 10000" using assms dated_range by fast
  have ns: "map tb_n (risk_per_tenor today ps) = map (\<lambda>l. length (in_bucket l ?rows)) ?b"
    by (simp add: risk_per_tenor_def Let_def case_prod_unfold comp_def)
  have "real (sum_list (map (\<lambda>l. length (in_bucket l ?rows)) ?b)) = sum_list (map (\<lambda>l. sum_list (map (\<lambda>p. 1) (in_bucket l ?rows))) ?b)"
    by (simp add: sum_list_triv comp_def flip: sum_list_of_nat)
  also have "\<dots> = real (length ?rows)" unfolding bucket_partition [OF ok] by (simp add: case_prod_unfold sum_list_triv)
  finally show "sum_list (map tb_n (risk_per_tenor today ps)) = length ?rows" unfolding ns by simp
  let ?vs = "map (\<lambda>l. sum_list (map (\<lambda>p. flt_or0 (rp_vega p)) (in_bucket l ?rows))) ?b"
  have "map tb_vega (risk_per_tenor today ps) = map (py_round 2) ?vs"
    by (simp add: risk_per_tenor_def Let_def case_prod_unfold comp_def)
  moreover have "length ?vs = 6" by (simp add: TENOR_BUCKETS_def)
  ultimately show "\<bar>sum_list (map tb_vega (risk_per_tenor today ps)) - sum_list (map (\<lambda>(dte, p). flt_or0 (rp_vega p)) ?rows)\<bar> \<le> 6 / 200"
    using rounded_sum [of ?vs] bucket_partition [OF ok, of "\<lambda>p. flt_or0 (rp_vega p)"] by simp
qed

theorem tenor_buckets_cover_witness:
  "sum_list (map tb_n (risk_per_tenor 360 hedged_call)) = 1"
proof -
  have d: "dated_options 360 hedged_call = [(30, hd (tl hedged_call))]"
    by (simp add: dated_options_def hedged_call_def held_def List.map_filter_simps py_startswith_def)
  have "\<forall>(dte, p) \<in> set (dated_options 360 hedged_call). dte \<le> 10000" unfolding d by simp
  from tenor_buckets_cover [OF this] show ?thesis unfolding d by simp
qed

end
