(* ===== verification/Risk_Engine.thy ===== *)
theory Risk_Engine
  imports Black_Scholes Iv_Lookup Contracts "HOL-Library.AList"
begin

text \<open>
  The risk engine (\<open>engines/risk/engine.py\<close>) with the vectorised pricer
  (\<open>core/risk/greeks.py\<close>) and the retention of the history tables
  (\<open>persistence/retention.py\<close>): one cycle from the inputs it reads to the rows it writes and the
  message it publishes, and the cycles of a run. The inverse normal distribution and the root
  finder are parameters; the Redis hashes are association lists of the values that parse.
\<close>

section \<open>The book\<close>

record marks =
  mk_market_price :: "flt option"
  mk_pnl :: "flt option"
  mk_delta :: "flt option"
  mk_gamma :: "flt option"
  mk_vega :: "flt option"
  mk_theta :: "flt option"
  mk_iv :: "flt option"
  mk_vanna :: "flt option"
  mk_volga :: "flt option"

definition no_marks :: marks where
  "no_marks = \<lparr>mk_market_price = None, mk_pnl = None, mk_delta = None, mk_gamma = None, mk_vega = None, mk_theta = None, mk_iv = None,
     mk_vanna = None, mk_volga = None\<rparr>"

record live_row =
  lr_structure :: string
  lr_product_label :: "string option"
  lr_contract_id :: "int option"
  lr_trade_id :: "int option"
  lr_package_id :: "int option"
  lr_side :: string
  lr_tenor :: "string option"
  lr_expiry :: "int option"
  lr_quantity :: "flt option"
  lr_nominal_eur :: "flt option"
  lr_entry_price :: "flt option"
  lr_marks :: marks

type_synonym live_table = "(int \<times> live_row) list"

text \<open>A history row is its time, the position's id and the copy of the live row.\<close>

type_synonym 'r dated_table = "(time \<times> 'r) list"
type_synonym snap_table = "(int \<times> live_row) dated_table"

record loaded =
  ld_id :: int
  ld_symbol :: string
  ld_type :: instrument_type
  ld_quantity :: flt
  ld_strike :: "flt option"
  ld_right :: "string option"
  ld_T :: flt
  ld_tenor :: string
  ld_cost :: flt
  ld_multiplier :: flt

definition days_to_tenor_bucket :: "int \<Rightarrow> string" where
  "days_to_tenor_bucket days =
     (if days \<le> 30 then ''1M'' else if days \<le> 60 then ''2M'' else if days \<le> 90 then ''3M'' else if days \<le> 120 then ''4M''
      else if days \<le> 150 then ''5M'' else ''6M'')"

definition load_position :: "int \<Rightarrow> int \<times> live_row \<Rightarrow> loaded option" where
  "load_position today r =
     (case parse_local_symbol (Some (lr_structure (snd r))) of
        None \<Rightarrow> None
      | Some s \<Rightarrow>
          let qty = flt_or0 (lr_quantity (snd r)); dte = (case lr_expiry (snd r) of None \<Rightarrow> 0 | Some e \<Rightarrow> e - today)
          in Some \<lparr>ld_id = fst r, ld_symbol = cs_symbol s, ld_type = cs_instrument_type s,
                   ld_quantity = (if lr_side (snd r) = BUY then qty else - qty), ld_strike = cs_strike s,
                   ld_right = map_option (\<lambda>ot. case ot of CALL \<Rightarrow> ''C'' | PUT \<Rightarrow> ''P'') (cs_option_type s),
                   ld_T = of_int (max dte 0) / 365, ld_tenor = days_to_tenor_bucket dte, ld_cost = flt_or0 (lr_entry_price (snd r)),
                   ld_multiplier = cs_multiplier s\<rparr>)"

definition load_positions_from_db :: "int \<Rightarrow> live_table \<Rightarrow> loaded list" where
  "load_positions_from_db today t = List.map_filter (load_position today) t"

section \<open>Volatility and greeks\<close>

definition FALLBACK_IV :: flt where "FALLBACK_IV = 8 / 100"

definition iv_for :: "(flt \<Rightarrow> flt) \<Rightarrow> surface \<Rightarrow> string \<Rightarrow> flt \<Rightarrow> flt \<Rightarrow> flt \<Rightarrow> flt option" where
  "iv_for icdf surf tenor strike F T = map_option iv_iv (iv_at_strike icdf (Some surf) tenor strike (Some F) (Some T))"

definition mult_of :: "loaded \<Rightarrow> flt" where
  "mult_of p = (if ld_multiplier p \<noteq> 0 then ld_multiplier p else multiplier_for (Some (ld_symbol p)))"

text \<open>An option the pricer can value: its right, strike and time.\<close>

definition priced_option :: "loaded \<Rightarrow> (string \<times> flt) option" where
  "priced_option p =
     (case ld_right p of
        None \<Rightarrow> None
      | Some r \<Rightarrow> let k = flt_or0 (ld_strike p) in if k \<le> 0 \<or> ld_T p \<le> 0 then None else Some (r, k))"

definition iv_or_fallback :: "(flt \<Rightarrow> flt) \<Rightarrow> surface \<Rightarrow> loaded \<Rightarrow> flt \<Rightarrow> flt \<Rightarrow> flt" where
  "iv_or_fallback icdf surf p k F = (case iv_for icdf surf (ld_tenor p) k F (ld_T p) of None \<Rightarrow> FALLBACK_IV | Some v \<Rightarrow> v)"

definition greeks_of :: "normal \<Rightarrow> (flt \<Rightarrow> flt) \<Rightarrow> flt \<Rightarrow> surface \<Rightarrow> loaded \<Rightarrow> position_greeks option" where
  "greeks_of N icdf F surf p =
     (if ld_type p = FUTURE then Some (future_greeks (ld_quantity p) (mult_of p) F)
      else (case priced_option p of
              None \<Rightarrow> None
            | Some (r, k) \<Rightarrow> Some (option_greeks N (ld_quantity p) (mult_of p) F k (ld_T p) (iv_or_fallback icdf surf p k F) r)))"

definition falls_back :: "(flt \<Rightarrow> flt) \<Rightarrow> flt \<Rightarrow> surface \<Rightarrow> loaded \<Rightarrow> bool" where
  "falls_back icdf F surf p =
     (ld_type p \<noteq> FUTURE \<and> (case priced_option p of None \<Rightarrow> False | Some (r, k) \<Rightarrow> iv_for icdf surf (ld_tenor p) k F (ld_T p) = None))"

record book_greeks =
  bg_greeks :: position_greeks
  bg_spot :: flt
  bg_n_positions :: nat
  bg_n_priced :: nat
  bg_fallback_legs :: nat

definition aggregate_greeks :: "normal \<Rightarrow> (flt \<Rightarrow> flt) \<Rightarrow> loaded list \<Rightarrow> flt \<Rightarrow> surface \<Rightarrow> book_greeks" where
  "aggregate_greeks N icdf ps F surf =
     (let items = List.map_filter (greeks_of N icdf F surf) ps
      in \<lparr>bg_greeks = sum_greeks items, bg_spot = F, bg_n_positions = length ps, bg_n_priced = length items,
          bg_fallback_legs = length (filter (falls_back icdf F surf) ps)\<rparr>)"

section \<open>P&L curve\<close>

definition PNL_CHART_POINTS :: nat where "PNL_CHART_POINTS = 120"
definition PNL_CHART_RANGE_PCT :: flt where "PNL_CHART_RANGE_PCT = 2 / 100"

definition linspace :: "flt \<Rightarrow> flt \<Rightarrow> nat \<Rightarrow> flt list" where
  "linspace lo hi n = map (\<lambda>i. lo + real i * ((hi - lo) / real (n - 1))) [0..<n]"

text \<open>Over an array the forwards are not checked; over positive ones it is the scalar pricer.\<close>

definition bs_price_vec :: "normal \<Rightarrow> flt list \<Rightarrow> flt \<Rightarrow> flt \<Rightarrow> flt \<Rightarrow> string \<Rightarrow> flt list" where
  "bs_price_vec N Fs K T sigma right =
     (if sigma \<le> 0 \<or> T \<le> 0 \<or> K \<le> 0 then map (\<lambda>F. 0) Fs
      else map (\<lambda>F. let d1 = bs_d1 F K T sigma; d2 = bs_d2 F K T sigma in
             if right = ''C'' then F * n_cdf N d1 - K * n_cdf N d2 else K * n_cdf N (- d2) - F * n_cdf N (- d1)) Fs)"

definition curve_of :: "normal \<Rightarrow> (flt \<Rightarrow> flt) \<Rightarrow> flt \<Rightarrow> surface \<Rightarrow> flt list \<Rightarrow> loaded \<Rightarrow> flt list" where
  "curve_of N icdf F surf spots p =
     (case ld_right p of
        None \<Rightarrow> if ld_type p = FUTURE then map (\<lambda>s. (s - ld_cost p) * ld_quantity p) spots else map (\<lambda>s. 0) spots
      | Some r \<Rightarrow>
          (case priced_option p of
             None \<Rightarrow> map (\<lambda>s. 0) spots
           | Some (r, k) \<Rightarrow>
               map (\<lambda>v. (v - ld_cost p) * ld_quantity p) (bs_price_vec N spots k (ld_T p) (iv_or_fallback icdf surf p k F) r)))"

definition compute_pnl_curve :: "normal \<Rightarrow> (flt \<Rightarrow> flt) \<Rightarrow> loaded list \<Rightarrow> flt \<Rightarrow> surface \<Rightarrow> (flt \<times> flt) list" where
  "compute_pnl_curve N icdf ps F surf =
     (let spots = linspace (F * (1 - PNL_CHART_RANGE_PCT)) (F * (1 + PNL_CHART_RANGE_PCT)) PNL_CHART_POINTS;
          add = (\<lambda>pnls p. map (\<lambda>(a, b). a + b) (zip pnls (curve_of N icdf F surf spots p)))
      in zip spots (foldl add (replicate PNL_CHART_POINTS 0) ps))"

section \<open>Snapshots\<close>

type_synonym brentq = "(flt \<Rightarrow> flt) \<Rightarrow> flt \<Rightarrow> flt \<Rightarrow> flt option"

record hashes =
  hs_option_marks :: "(int \<times> flt) list"
  hs_contract_marks :: "(int \<times> flt) list"
  hs_unrealized_pnl :: "(int \<times> flt) list"

text \<open>The surface, then the volatility implied by the option's mark, then the constant.\<close>

definition snapshot_iv :: "normal \<Rightarrow> brentq \<Rightarrow> (flt \<Rightarrow> flt) \<Rightarrow> surface \<Rightarrow> (int \<times> flt) list \<Rightarrow> flt \<Rightarrow> loaded \<Rightarrow> string \<Rightarrow> flt \<Rightarrow> flt" where
  "snapshot_iv N brentq icdf surf option_marks F p r k =
     (case iv_for icdf surf (ld_tenor p) k F (ld_T p) of
        Some v \<Rightarrow> v
      | None \<Rightarrow>
          (case map_of option_marks (ld_id p) of
             None \<Rightarrow> FALLBACK_IV
           | Some m \<Rightarrow> (case bs_implied_vol N brentq m F k (ld_T p) r (1 / 10000) 5 of None \<Rightarrow> FALLBACK_IV | Some v \<Rightarrow> v)))"

definition cents :: "flt option \<Rightarrow> flt option" where "cents = map_option (py_round 2)"

definition marks_of ::
  "normal \<Rightarrow> brentq \<Rightarrow> (flt \<Rightarrow> flt) \<Rightarrow> surface \<Rightarrow> hashes \<Rightarrow> flt \<Rightarrow> loaded \<Rightarrow> marks" where
  "marks_of N brentq icdf surf h F p =
     (let mult = mult_of p; cost = ld_cost p;
          own = (\<lambda>pnl. case map_of (hs_unrealized_pnl h) (ld_id p) of Some v \<Rightarrow> Some v | None \<Rightarrow> pnl);
          price = map_option (py_round 8) (map_of (hs_contract_marks h) (ld_id p));
          row = (\<lambda>pnl iv (g :: position_greeks). \<lparr>mk_market_price = price, mk_pnl = cents (own (if cost \<noteq> 0 then Some pnl else None)),
             mk_delta = Some (py_round 2 (pg_delta_usd g)), mk_gamma = Some (py_round 2 (pg_gamma g)), mk_vega = Some (py_round 2 (pg_vega g)),
             mk_theta = Some (py_round 2 (pg_theta g)), mk_iv = map_option (py_round 5) iv,
             mk_vanna = Some (py_round 2 (pg_vanna g)), mk_volga = Some (py_round 2 (pg_volga g))\<rparr>)
      in if ld_type p = FUTURE then row ((F - cost) * ld_quantity p * mult) None (future_greeks (ld_quantity p) mult F)
         else (case priced_option p of
                 None \<Rightarrow> no_marks\<lparr>mk_market_price := price, mk_pnl := cents (own None)\<rparr>
               | Some (r, k) \<Rightarrow>
                   let iv = snapshot_iv N brentq icdf surf (hs_option_marks h) F p r k
                   in row ((bs_price N F k (ld_T p) iv r - cost) * ld_quantity p * mult) (Some iv)
                        (option_greeks N (ld_quantity p) mult F k (ld_T p) iv r)))"

definition persist_one ::
  "normal \<Rightarrow> brentq \<Rightarrow> (flt \<Rightarrow> flt) \<Rightarrow> surface \<Rightarrow> hashes \<Rightarrow> flt \<Rightarrow> time \<Rightarrow> live_table \<times> snap_table \<Rightarrow> loaded \<Rightarrow> live_table \<times> snap_table" where
  "persist_one N brentq icdf surf h F now w p =
     (case w of (t, hist) \<Rightarrow>
        (case map_of t (ld_id p) of
           None \<Rightarrow> (t, hist)
         | Some r \<Rightarrow> let r' = r\<lparr>lr_marks := marks_of N brentq icdf surf h F p\<rparr> in (AList.update (ld_id p) r' t, hist @ [(now, ld_id p, r')])))"

definition persist_position_snapshots ::
  "normal \<Rightarrow> brentq \<Rightarrow> (flt \<Rightarrow> flt) \<Rightarrow> surface \<Rightarrow> hashes \<Rightarrow> flt \<Rightarrow> time \<Rightarrow> loaded list \<Rightarrow> live_table \<times> snap_table \<Rightarrow> live_table \<times> snap_table" where
  "persist_position_snapshots N brentq icdf surf h F now ps w = foldl (persist_one N brentq icdf surf h F now) w ps"

section \<open>A cycle\<close>

text \<open>What the spot key holds.\<close>

datatype spot_value = No_spot | Plain_spot flt | Quote_spot "flt option" "flt option" | Bad_spot

definition read_spot :: "spot_value \<Rightarrow> flt option" where
  "read_spot v =
     (case v of
        Plain_spot x \<Rightarrow> Some x
      | Quote_spot mid bid \<Rightarrow> (case mid of Some m \<Rightarrow> if m \<noteq> 0 then Some m else bid | None \<Rightarrow> bid)
      | _ \<Rightarrow> None)"

record portfolio_item =
  pf_symbol :: "string option"
  pf_sec_type :: "string option"
  pf_market_price :: "flt option"

definition is_eur_future :: "portfolio_item \<Rightarrow> bool" where
  "is_eur_future p = (pf_symbol p = Some ''EUR'' \<and> (pf_sec_type p = Some ''FUT'' \<or> pf_sec_type p = Some ''CONTFUT'') \<and>
     (case pf_market_price p of None \<Rightarrow> False | Some m \<Rightarrow> m \<noteq> 0))"

definition spot_from_portfolio :: "portfolio_item list \<Rightarrow> flt option" where
  "spot_from_portfolio items = (case find is_eur_future items of None \<Rightarrow> None | Some p \<Rightarrow> pf_market_price p)"

definition HISTORY_PERSIST_CYCLES :: nat where "HISTORY_PERSIST_CYCLES = 15"
definition HISTORY_RETENTION_DAYS :: int where "HISTORY_RETENTION_DAYS = 90"
definition PRUNE_EVERY_CYCLES :: nat where "PRUNE_EVERY_CYCLES = 43200"

record cycle_input =
  ci_now :: time
  ci_spot :: spot_value
  ci_portfolio :: "portfolio_item list"
  ci_surface :: "surface option"
  ci_hashes :: hashes
  ci_db_up :: bool
  ci_prune_up :: bool
  ci_publish_up :: bool

record risk_world =
  rw_cycle :: nat
  rw_since_prune :: nat
  rw_live :: live_table
  rw_history :: snap_table
  rw_published :: "(book_greeks \<times> (flt \<times> flt) list option) list"

definition cycle_spot :: "cycle_input \<Rightarrow> flt option" where
  "cycle_spot c = (case read_spot (ci_spot c) of Some x \<Rightarrow> Some x | None \<Rightarrow> spot_from_portfolio (ci_portfolio c))"

text \<open>\<open>ci_db_up\<close> is false when the write of the snapshots fails: its transaction leaves nothing.\<close>

definition run_cycle :: "normal \<Rightarrow> brentq \<Rightarrow> (flt \<Rightarrow> flt) \<Rightarrow> cycle_input \<Rightarrow> risk_world \<Rightarrow> risk_world \<times> bool" where
  "run_cycle N brentq icdf c w =
     (let w = w\<lparr>rw_cycle := rw_cycle w + 1\<rparr> in
      case cycle_spot c of
        None \<Rightarrow> (w, False)
      | Some F \<Rightarrow>
          let surf = (case ci_surface c of None \<Rightarrow> [] | Some s \<Rightarrow> s);
              ps = load_positions_from_db \<lfloor>ci_now c / 86400\<rfloor> (rw_live w);
              greeks = aggregate_greeks N icdf ps F surf;
              curve = (if ps = [] then None else Some (compute_pnl_curve N icdf ps F surf));
              w' = (if ps \<noteq> [] \<and> (rw_cycle w - 1) mod HISTORY_PERSIST_CYCLES = 0 \<and> ci_db_up c
                    then (case persist_position_snapshots N brentq icdf surf (ci_hashes c) F (ci_now c) ps (rw_live w, rw_history w) of
                            (t, hist) \<Rightarrow> w\<lparr>rw_live := t, rw_history := hist\<rparr>)
                    else w)
          in if ci_publish_up c then (w'\<lparr>rw_published := rw_published w' @ [(greeks, curve)]\<rparr>, True) else (w', False))"

section \<open>Retention\<close>

text \<open>
  Every table is pruned in a transaction of its own; \<open>ok\<close> says which transactions succeed. A
  specification names the table and says which rows something else refers to.
\<close>

definition allowed_tables :: "string list" where
  "allowed_tables = [''open_position_history'', ''account_history'', ''vol_surface_history'', ''pca_signal_history'']"

definition prune_table :: "time \<Rightarrow> ('r \<Rightarrow> bool) \<Rightarrow> 'r dated_table \<Rightarrow> 'r dated_table" where
  "prune_table cutoff referenced rows = filter (\<lambda>(t, r). cutoff \<le> t \<or> referenced r) rows"

definition prune_one ::
  "time \<Rightarrow> (string \<Rightarrow> bool) \<Rightarrow> (string \<times> 'r dated_table) list \<Rightarrow> string \<times> ('r \<Rightarrow> bool) \<Rightarrow> (string \<times> 'r dated_table) list \<times> nat option" where
  "prune_one cutoff ok db spec =
     (if fst spec \<notin> set allowed_tables \<or> \<not> ok (fst spec) then (db, None)
      else (case map_of db (fst spec) of
              None \<Rightarrow> (db, None)
            | Some rows \<Rightarrow>
                let kept = prune_table cutoff (snd spec) rows
                in (AList.update (fst spec) kept db, Some (length rows - length kept))))"

fun run_retention ::
  "time \<Rightarrow> (string \<Rightarrow> bool) \<Rightarrow> (string \<times> ('r \<Rightarrow> bool)) list \<Rightarrow> (string \<times> 'r dated_table) list \<Rightarrow>
     (string \<times> 'r dated_table) list \<times> (string \<times> nat option) list" where
  "run_retention cutoff ok [] db = (db, [])"
| "run_retention cutoff ok (spec # specs) db =
     (case prune_one cutoff ok db spec of
        (db', n) \<Rightarrow> (case run_retention cutoff ok specs db' of (db'', summary) \<Rightarrow> (db'', (fst spec, n) # summary)))"

text \<open>One turn of the loop: the retention once at the start and then daily, and the cycle.\<close>

definition loop_turn :: "normal \<Rightarrow> brentq \<Rightarrow> (flt \<Rightarrow> flt) \<Rightarrow> cycle_input \<Rightarrow> risk_world \<Rightarrow> risk_world" where
  "loop_turn N brentq icdf c w =
     (let w1 = (if PRUNE_EVERY_CYCLES \<le> rw_since_prune w
                then w\<lparr>rw_since_prune := 0,
                       rw_history := (if ci_prune_up c then prune_table (ci_now c - of_int HISTORY_RETENTION_DAYS * 86400) (\<lambda>r. False) (rw_history w)
                                      else rw_history w)\<rparr>
                else w)
      in fst (run_cycle N brentq icdf c (w1\<lparr>rw_since_prune := rw_since_prune w1 + 1\<rparr>)))"

definition started :: "live_table \<Rightarrow> snap_table \<Rightarrow> risk_world" where
  "started t hist = \<lparr>rw_cycle = 0, rw_since_prune = PRUNE_EVERY_CYCLES, rw_live = t, rw_history = hist, rw_published = []\<rparr>"

fun turns :: "normal \<Rightarrow> brentq \<Rightarrow> (flt \<Rightarrow> flt) \<Rightarrow> cycle_input list \<Rightarrow> risk_world \<Rightarrow> risk_world" where
  "turns N brentq icdf [] w = w"
| "turns N brentq icdf (c # cs) w = turns N brentq icdf cs (loop_turn N brentq icdf c w)"

section \<open>The snapshots mirror the live rows\<close>

lemmas update_facts = update_conv' map_of_eq_None_iff

text \<open>One position: its row, when it exists, takes the marks and is copied to the history.\<close>

definition marked :: "(loaded \<Rightarrow> marks) \<Rightarrow> loaded \<Rightarrow> live_table \<Rightarrow> live_row option" where
  "marked mk p t = map_option (\<lambda>r. r\<lparr>lr_marks := mk p\<rparr>) (map_of t (ld_id p))"

lemma persist_one_row:
  "map_of (fst (persist_one N brentq icdf surf h F now (t, hist) p)) =
     (map_of t)(ld_id p := marked (marks_of N brentq icdf surf h F) p t)"
  "snd (persist_one N brentq icdf surf h F now (t, hist) p) =
     hist @ (case marked (marks_of N brentq icdf surf h F) p t of None \<Rightarrow> [] | Some r \<Rightarrow> [(now, ld_id p, r)])"
  by (auto simp: persist_one_def marked_def Let_def update_conv' split: option.splits)

lemma persist_rows:
  assumes "distinct (map ld_id ps)" and "\<forall>p\<in>set ps. ld_id p \<in> dom (map_of t)"
  shows "map_of (fst (persist_position_snapshots N brentq icdf surf h F now ps (t, hist))) =
      map_of t ++ map_of (map (\<lambda>p. (ld_id p, the (marked (marks_of N brentq icdf surf h F) p t))) ps) \<and>
    snd (persist_position_snapshots N brentq icdf surf h F now ps (t, hist)) =
      hist @ map (\<lambda>p. (now, ld_id p, the (marked (marks_of N brentq icdf surf h F) p t))) ps"
  using assms
proof (induction ps arbitrary: t hist)
  case Nil
  then show ?case by (simp add: persist_position_snapshots_def)
next
  case (Cons p ps)
  let ?mk = "marks_of N brentq icdf surf h F"
  obtain t' hist' where w: "persist_one N brentq icdf surf h F now (t, hist) p = (t', hist')" by fastforce
  obtain r where r: "marked ?mk p t = Some r" using Cons.prems(2) by (auto simp: marked_def)
  have t': "map_of t' = (map_of t)(ld_id p \<mapsto> r)" and hist': "hist' = hist @ [(now, ld_id p, r)]"
    using persist_one_row [of N brentq icdf surf h F now t hist p] w r by simp_all
  have same: "marked ?mk q t' = marked ?mk q t" if "q \<in> set ps" for q
  proof -
    have "ld_id q \<noteq> ld_id p" using that Cons.prems(1) by (auto simp: image_iff)
    then show ?thesis by (simp add: marked_def t')
  qed
  have map_same: "map (\<lambda>q. f q (the (marked ?mk q t'))) ps = map (\<lambda>q. f q (the (marked ?mk q t))) ps"
    for f :: "loaded \<Rightarrow> live_row \<Rightarrow> 'z"
    by (rule map_cong [OF HOL.refl]) (simp add: same)
  have step: "persist_position_snapshots N brentq icdf surf h F now (p # ps) (t, hist) =
      persist_position_snapshots N brentq icdf surf h F now ps (t', hist')"
    by (simp add: persist_position_snapshots_def w)
  have fresh: "ld_id p \<notin> dom (map_of (map (\<lambda>q. (ld_id q, the (marked ?mk q t))) ps))"
    using Cons.prems(1) by (auto simp: dom_map_of_conv_image_fst image_iff)
  have here: "distinct (map ld_id ps)" "\<forall>q\<in>set ps. ld_id q \<in> dom (map_of t')"
    using Cons.prems by (auto simp: t')
  have ih: "map_of (fst (persist_position_snapshots N brentq icdf surf h F now ps (t', hist'))) =
        map_of t' ++ map_of (map (\<lambda>q. (ld_id q, the (marked ?mk q t))) ps)"
      "snd (persist_position_snapshots N brentq icdf surf h F now ps (t', hist')) =
        hist' @ map (\<lambda>q. (now, ld_id q, the (marked ?mk q t))) ps"
    using Cons.IH [OF here, of hist'] unfolding map_same [of "\<lambda>q x. (ld_id q, x)"] map_same [of "\<lambda>q x. (now, ld_id q, x)"]
    by blast+
  have "map_of t' ++ m = (map_of t ++ m)(ld_id p \<mapsto> r)" if "ld_id p \<notin> dom m" for m
    using that by (auto simp: t' map_add_def fun_eq_iff split: option.splits)
  then show ?case using ih fresh by (simp add: step r hist' fun_eq_iff map_add_def)
qed

lemma loaded_ids:
  "load_position today r = Some p \<Longrightarrow> ld_id p = fst r"
  by (auto simp: load_position_def Let_def split: option.splits)

lemma loaded_book:
  assumes "distinct (map fst t)" and "ps = load_positions_from_db today t"
  shows "distinct (map ld_id ps)" "\<forall>p\<in>set ps. ld_id p \<in> dom (map_of t)"
proof -
  have sub: "set (map ld_id (List.map_filter (load_position today) u)) \<subseteq> fst ` set u" for u
    by (induction u) (auto simp: List.map_filter_simps loaded_ids split: option.splits)
  have "distinct (map ld_id (List.map_filter (load_position today) u))" if "distinct (map fst u)" for u
    using that
  proof (induction u)
    case (Cons r u)
    then show ?case using sub [of u] by (auto simp: List.map_filter_simps loaded_ids split: option.splits)
  qed (simp add: List.map_filter_simps)
  then show "distinct (map ld_id ps)" using assms by (simp add: load_positions_from_db_def)
  show "\<forall>p\<in>set ps. ld_id p \<in> dom (map_of t)"
    using sub [of t] assms(2) by (auto simp: load_positions_from_db_def dom_map_of_conv_image_fst)
qed

text \<open>
  What a persisted pass leaves: every loaded position has exactly one new history row, stamped
  with the pass, and it is the position's live row after the pass; a live row differs from what it was by
  its marks only, rows of positions that do not parse are untouched, and no earlier history row changes.
\<close>

theorem snapshot_mirrors_live:
  assumes "distinct (map fst t)" and "ps = load_positions_from_db today t"
    and "persist_position_snapshots N brentq icdf surf h F now ps (t, hist) = (t', hist')"
  shows "dom (map_of t') = dom (map_of t) \<and>
    (\<exists>rows. hist' = hist @ rows \<and> map (\<lambda>(when, k, r). k) rows = map ld_id ps \<and>
       (\<forall>(when, k, r)\<in>set rows. when = now \<and> map_of t' k = Some r)) \<and>
    (\<forall>k r. map_of t k = Some r \<longrightarrow>
       (case find (\<lambda>p. ld_id p = k) ps of
          None \<Rightarrow> map_of t' k = Some r
        | Some p \<Rightarrow> map_of t' k = Some (r\<lparr>lr_marks := marks_of N brentq icdf surf h F p\<rparr>)))"
proof -
  let ?mk = "marks_of N brentq icdf surf h F"
  let ?new = "map (\<lambda>p. (ld_id p, the (marked ?mk p t))) ps"
  note ids = loaded_book [OF assms(1,2)]
  have t': "map_of t' = map_of t ++ map_of ?new"
    and hist': "hist' = hist @ map (\<lambda>p. (now, ld_id p, the (marked ?mk p t))) ps"
    using persist_rows [OF ids, of N brentq icdf surf h F now hist] assms(3) by simp_all
  have new: "map_of ?new (ld_id p) = Some (the (marked ?mk p t))" if "p \<in> set ps" for p
    using that ids(1) by (intro map_of_is_SomeI) (auto simp: comp_def)
  have doms: "dom (map_of t') = dom (map_of t)"
    using ids(2) by (auto simp: t' dom_map_add dom_map_of_conv_image_fst)
  have at_k: "case find (\<lambda>p. ld_id p = k) ps of None \<Rightarrow> map_of t' k = Some r
      | Some p \<Rightarrow> map_of t' k = Some (r\<lparr>lr_marks := ?mk p\<rparr>)" if r: "map_of t k = Some r" for k r
  proof (cases "find (\<lambda>p. ld_id p = k) ps")
    case None
    then have "map_of ?new k = None" by (auto simp: find_None_iff map_of_eq_None_iff)
    then show ?thesis using None r by (simp add: t' map_add_def)
  next
    case (Some p)
    then have "p \<in> set ps" "ld_id p = k" by (auto simp: find_Some_iff)
    then show ?thesis using Some r new [of p] by (simp add: t' marked_def)
  qed
  have rows: "\<exists>rows. hist' = hist @ rows \<and> map (\<lambda>(when, k, r). k) rows = map ld_id ps \<and>
       (\<forall>(when, k, r)\<in>set rows. when = now \<and> map_of t' k = Some r)"
    by (intro exI [of _ "map (\<lambda>p. (now, ld_id p, the (marked ?mk p t))) ps"]) (auto simp: hist' t' comp_def dest: new)
  show ?thesis using doms rows at_k by blast
qed

section \<open>What is published and what is persisted\<close>

lemma sum_close:
  fixes a b :: "'x \<Rightarrow> flt"
  assumes "\<forall>x\<in>set xs. \<bar>a x - b x\<bar> \<le> c"
  shows "\<bar>sum_list (map a xs) - sum_list (map b xs)\<bar> \<le> real (length xs) * c"
  using assms
proof (induction xs)
  case (Cons x xs)
  then have "\<bar>a x - b x\<bar> \<le> c" "\<bar>sum_list (map a xs) - sum_list (map b xs)\<bar> \<le> real (length xs) * c" by simp_all
  then show ?case unfolding abs_le_iff by (simp add: algebra_simps)
qed simp

definition greek_or0 :: "(position_greeks \<Rightarrow> flt) \<Rightarrow> position_greeks option \<Rightarrow> flt" where
  "greek_or0 f g = (case g of None \<Rightarrow> 0 | Some x \<Rightarrow> f x)"

lemma sum_greeks_fields:
  "pg_delta_usd (sum_greeks gs) = sum_list (map pg_delta_usd gs)"
  "pg_delta_eur (sum_greeks gs) = sum_list (map pg_delta_eur gs)"
  "pg_gamma (sum_greeks gs) = sum_list (map pg_gamma gs)"
  "pg_vega (sum_greeks gs) = sum_list (map pg_vega gs)"
  "pg_theta (sum_greeks gs) = sum_list (map pg_theta gs)"
  "pg_vanna (sum_greeks gs) = sum_list (map pg_vanna gs)"
  "pg_volga (sum_greeks gs) = sum_list (map pg_volga gs)"
  by (simp_all add: sum_greeks_def ZERO_def)

lemma sum_over_priced:
  "sum_list (map f (List.map_filter g ps)) = sum_list (map (\<lambda>p. greek_or0 f (g p)) ps)"
  by (induction ps) (auto simp: List.map_filter_simps greek_or0_def split: option.splits)

lemma cent_close: "\<bar>py_round 2 x - x\<bar> \<le> 1 / 200"
  using py_round_close [of 2 x] by simp

lemma marks_are_rounded:
  assumes "\<not> falls_back icdf F surf p" and "m = marks_of N brentq icdf surf h F p" and "g = greeks_of N icdf F surf p"
  shows "mk_delta m = map_option (\<lambda>x. py_round 2 (pg_delta_usd x)) g" "mk_gamma m = map_option (\<lambda>x. py_round 2 (pg_gamma x)) g"
    "mk_vega m = map_option (\<lambda>x. py_round 2 (pg_vega x)) g" "mk_theta m = map_option (\<lambda>x. py_round 2 (pg_theta x)) g"
    "mk_vanna m = map_option (\<lambda>x. py_round 2 (pg_vanna x)) g" "mk_volga m = map_option (\<lambda>x. py_round 2 (pg_volga x)) g"
proof -
  have "mk_delta m = map_option (\<lambda>x. py_round 2 (pg_delta_usd x)) g \<and> mk_gamma m = map_option (\<lambda>x. py_round 2 (pg_gamma x)) g \<and>
    mk_vega m = map_option (\<lambda>x. py_round 2 (pg_vega x)) g \<and> mk_theta m = map_option (\<lambda>x. py_round 2 (pg_theta x)) g \<and>
    mk_vanna m = map_option (\<lambda>x. py_round 2 (pg_vanna x)) g \<and> mk_volga m = map_option (\<lambda>x. py_round 2 (pg_volga x)) g"
  proof (cases "ld_type p = FUTURE")
    case True
    then show ?thesis by (simp add: assms(2,3) marks_of_def Let_def greeks_of_def)
  next
    case option: False
    show ?thesis
    proof (cases "priced_option p")
      case None
      with option show ?thesis by (simp add: assms(2,3) marks_of_def Let_def greeks_of_def no_marks_def)
    next
      case (Some rk)
      obtain r k where rk: "rk = (r, k)" by fastforce
      obtain v where "iv_for icdf surf (ld_tenor p) k F (ld_T p) = Some v"
        using assms(1) option Some rk by (auto simp: falls_back_def)
      with option Some rk show ?thesis
        by (simp add: assms(2,3) marks_of_def Let_def greeks_of_def snapshot_iv_def iv_or_fallback_def)
    qed
  qed
  then show "mk_delta m = map_option (\<lambda>x. py_round 2 (pg_delta_usd x)) g" "mk_gamma m = map_option (\<lambda>x. py_round 2 (pg_gamma x)) g"
    "mk_vega m = map_option (\<lambda>x. py_round 2 (pg_vega x)) g" "mk_theta m = map_option (\<lambda>x. py_round 2 (pg_theta x)) g"
    "mk_vanna m = map_option (\<lambda>x. py_round 2 (pg_vanna x)) g" "mk_volga m = map_option (\<lambda>x. py_round 2 (pg_volga x)) g" by blast+
qed

lemma rounded_close: "\<bar>flt_or0 (map_option (\<lambda>x. py_round 2 (f x)) g) - greek_or0 f g\<bar> \<le> 1 / 200"
proof (cases g)
  case (Some x)
  then show ?thesis using cent_close [of "f x"] by (simp only: greek_or0_def option.simps flt_or0_simps)
qed (simp add: greek_or0_def)

text \<open>
  C36. The published book is the sum of the persisted positions: when the surface places every option,
  the book greeks of the message and the sums of the marks written in the same cycle differ by at most half a
  cent per position, for delta, gamma, vega, theta, vanna and volga.
\<close>

theorem published_is_persisted:
  assumes "distinct (map fst t)" and "ps = load_positions_from_db today t"
    and "\<forall>p\<in>set ps. \<not> falls_back icdf F surf p"
  shows "let agg = bg_greeks (aggregate_greeks N icdf ps F surf);
      rows = drop (length hist) (snd (persist_position_snapshots N brentq icdf surf h F now ps (t, hist)));
      total = (\<lambda>f. sum_list (map (\<lambda>(when, k, r). flt_or0 (f (lr_marks r))) rows));
      tol = real (length ps) / 200
    in \<bar>total mk_delta - pg_delta_usd agg\<bar> \<le> tol \<and> \<bar>total mk_gamma - pg_gamma agg\<bar> \<le> tol \<and>
       \<bar>total mk_vega - pg_vega agg\<bar> \<le> tol \<and> \<bar>total mk_theta - pg_theta agg\<bar> \<le> tol \<and>
       \<bar>total mk_vanna - pg_vanna agg\<bar> \<le> tol \<and> \<bar>total mk_volga - pg_volga agg\<bar> \<le> tol"
proof -
  let ?mk = "marks_of N brentq icdf surf h F"
  note ids = loaded_book [OF assms(1,2)]
  have rows: "drop (length hist) (snd (persist_position_snapshots N brentq icdf surf h F now ps (t, hist))) =
      map (\<lambda>p. (now, ld_id p, the (marked ?mk p t))) ps"
    using persist_rows [OF ids, of N brentq icdf surf h F now hist] by simp
  have marks: "lr_marks (the (marked ?mk p t)) = ?mk p" if "p \<in> set ps" for p
    using that ids(2) by (auto simp: marked_def)
  have total: "sum_list (map (\<lambda>(when, k, r). flt_or0 (f (lr_marks r))) (map (\<lambda>p. (now, ld_id p, the (marked ?mk p t))) ps)) =
      sum_list (map (\<lambda>p. flt_or0 (f (?mk p))) ps)" for f :: "marks \<Rightarrow> flt option"
    by (rule arg_cong [where f = sum_list]) (simp add: marks)
  have "real (length ps) / 200 = real (length ps) * (1 / 200)" by simp
  moreover have "\<not> falls_back icdf F surf p" if "p \<in> set ps" for p using that assms(3) by blast
  ultimately have close: "\<bar>sum_list (map (\<lambda>p. flt_or0 (f (?mk p))) ps) - sum_list (map (\<lambda>p. greek_or0 k (greeks_of N icdf F surf p)) ps)\<bar>
      \<le> real (length ps) / 200"
    if "\<And>p. p \<in> set ps \<Longrightarrow> f (?mk p) = map_option (\<lambda>x. py_round 2 (k x)) (greeks_of N icdf F surf p)" for f k
    using sum_close [of ps "\<lambda>p. flt_or0 (f (?mk p))" "\<lambda>p. greek_or0 k (greeks_of N icdf F surf p)" "1 / 200"] that rounded_close
    by simp
  show ?thesis
    unfolding Let_def rows total
    by (simp only: aggregate_greeks_def Let_def book_greeks.simps sum_greeks_fields sum_over_priced)
      (intro conjI close marks_are_rounded [OF _ HOL.refl HOL.refl]; use assms(3) in blast)
qed

text \<open>
  Without a surface the two part: the aggregate values every option at the constant, the snapshot at
  the volatility its mark implies.
\<close>

lemma empty_surface_two_vols:
  assumes "ld_type p \<noteq> FUTURE" and "priced_option p = Some (r, k)" and "map_of (hs_option_marks h) (ld_id p) = Some m"
    and "bs_implied_vol N brentq m F k (ld_T p) r (1 / 10000) 5 = Some v"
  shows "greeks_of N icdf F [] p = Some (option_greeks N (ld_quantity p) (mult_of p) F k (ld_T p) (8 / 100) r) \<and>
    mk_iv (marks_of N brentq icdf [] h F p) = Some (py_round 5 v) \<and>
    mk_vega (marks_of N brentq icdf [] h F p) = Some (py_round 2 (pg_vega (option_greeks N (ld_quantity p) (mult_of p) F k (ld_T p) v r)))"
  using assms
  by (simp add: greeks_of_def iv_or_fallback_def iv_for_def iv_at_strike_def FALLBACK_IV_def marks_of_def Let_def snapshot_iv_def)

text \<open>The curve of a future is per unit: it has no contract multiplier, the persisted profit has.\<close>

lemma curve_omits_multiplier:
  assumes "ld_type p = FUTURE" and "ld_right p = None" and "ld_cost p \<noteq> 0"
    and "map_of (hs_unrealized_pnl h) (ld_id p) = None"
  shows "curve_of N icdf F surf [F] p = [(F - ld_cost p) * ld_quantity p] \<and>
    mk_pnl (marks_of N brentq icdf surf h F p) = Some (py_round 2 ((F - ld_cost p) * ld_quantity p * mult_of p))"
  using assms by (simp add: curve_of_def marks_of_def Let_def cents_def)

section \<open>The cadence of a run\<close>

text \<open>
  A cycle changes the database only when it is the first of fifteen, it has a price, the book is not empty
  and the write commits; then it appends one row per loaded position. A cycle without a price changes and
  publishes nothing, and the others publish exactly one message, unless publishing fails.
\<close>

theorem cycle_writes_on_cadence:
  assumes "run_cycle N brentq icdf c w = (w', sent)" and "distinct (map fst (rw_live w))"
    and "ps = load_positions_from_db \<lfloor>ci_now c / 86400\<rfloor> (rw_live w)"
  shows "rw_cycle w' = rw_cycle w + 1 \<and>
    length (rw_history w') = length (rw_history w) +
      (if rw_cycle w mod 15 = 0 \<and> cycle_spot c \<noteq> None \<and> ci_db_up c then length ps else 0) \<and>
    (rw_cycle w mod 15 \<noteq> 0 \<or> cycle_spot c = None \<or> \<not> ci_db_up c \<longrightarrow> rw_live w' = rw_live w \<and> rw_history w' = rw_history w) \<and>
    length (rw_published w') = length (rw_published w) + (if sent then 1 else 0) \<and>
    (sent \<longleftrightarrow> cycle_spot c \<noteq> None \<and> ci_publish_up c)"
proof (cases "cycle_spot c")
  case None
  then show ?thesis using assms(1) by (auto simp: run_cycle_def Let_def)
next
  case (Some F)
  let ?surf = "case ci_surface c of None \<Rightarrow> [] | Some s \<Rightarrow> s"
  obtain t hist where p: "persist_position_snapshots N brentq icdf ?surf (ci_hashes c) F (ci_now c) ps (rw_live w, rw_history w) = (t, hist)"
    by fastforce
  have len: "length hist = length (rw_history w) + length ps"
    using persist_rows [OF loaded_book [OF assms(2,3)], of N brentq icdf ?surf "ci_hashes c" F "ci_now c" "rw_history w"] p
    by simp
  show ?thesis using assms(1) Some p len
    by (cases "ps = []"; cases "rw_cycle w mod 15 = 0"; cases "ci_db_up c"; cases "ci_publish_up c")
      (auto simp: run_cycle_def Let_def assms(3)[symmetric] HISTORY_PERSIST_CYCLES_def)
qed

section \<open>Retention keeps what it must\<close>

lemma prune_one_table:
  assumes "prune_one cutoff ok db spec = (db', n)"
  shows "map_of db' name = (if name = fst spec \<and> n \<noteq> None then map_option (prune_table cutoff (snd spec)) (map_of db name)
      else map_of db name) \<and>
    (n \<noteq> None \<longleftrightarrow> fst spec \<in> set allowed_tables \<and> ok (fst spec) \<and> map_of db (fst spec) \<noteq> None)"
  using assms by (auto simp: prune_one_def Let_def update_conv' split: if_splits option.splits)

lemma retention_others:
  "run_retention cutoff ok specs db = (db', summary) \<Longrightarrow> name \<notin> fst ` set specs \<Longrightarrow> map_of db' name = map_of db name"
proof (induction specs arbitrary: db summary)
  case (Cons spec specs)
  obtain d n where d: "prune_one cutoff ok db spec = (d, n)" by fastforce
  then show ?case using Cons prune_one_table [OF d, of name] by (auto split: prod.splits)
qed simp

text \<open>
  Retention prunes each table on its own: when the specified tables are distinct, a table is pruned exactly if it
  is specified, allowed, present and its own transaction succeeds, whatever happens to the others; it
  keeps, in order, exactly the rows that are not older than the cutoff or that something refers to, and the
  summary has an entry for every specified table, a failure exactly where nothing was pruned.
\<close>

theorem retention_per_table:
  assumes "run_retention cutoff ok specs db = (db', summary)" and "distinct (map fst specs)"
  shows "map fst summary = map fst specs \<and>
    (\<forall>name. map_of db' name =
       (case map_of specs name of
          Some referenced \<Rightarrow>
            if name \<in> set allowed_tables \<and> ok name then map_option (prune_table cutoff referenced) (map_of db name) else map_of db name
        | None \<Rightarrow> map_of db name)) \<and>
    (\<forall>(name, n)\<in>set summary. n = None \<longleftrightarrow> name \<notin> set allowed_tables \<or> \<not> ok name \<or> map_of db name = None)"
  using assms
proof (induction specs arbitrary: db summary)
  case (Cons spec specs)
  obtain name referenced where sp: "spec = (name, referenced)" by fastforce
  obtain d n where d: "prune_one cutoff ok db spec = (d, n)" by fastforce
  obtain sm where sm: "run_retention cutoff ok specs d = (db', sm)" "summary = (name, n) # sm"
    using Cons.prems(1) d sp by (auto split: prod.splits)
  have dist: "distinct (map fst specs)" "name \<notin> fst ` set specs" using Cons.prems(2) sp by auto
  note ih = Cons.IH [OF sm(1) dist(1)]
  note ih_names = ih [THEN conjunct1] and ih_tables = ih [THEN conjunct2, THEN conjunct1]
    and ih_fails = ih [THEN conjunct2, THEN conjunct2]
  have other: "map_of d x = map_of db x" if "x \<noteq> name" for x
    using prune_one_table [OF d, of x] that sp by simp
  have here: "map_of db' name = map_of d name" by (rule retention_others [OF sm(1) dist(2)])
  have names: "map fst summary = map fst (spec # specs)" using ih_names sm(2) sp by simp
  have tables: "map_of db' x =
       (case map_of (spec # specs) x of
          Some ref \<Rightarrow> if x \<in> set allowed_tables \<and> ok x then map_option (prune_table cutoff ref) (map_of db x) else map_of db x
        | None \<Rightarrow> map_of db x)" for x
  proof (cases "x = name")
    case True
    then show ?thesis using prune_one_table [OF d, of name] here sp by (cases "map_of db name") auto
  next
    case False
    then show ?thesis using ih_tables other sp by (auto split: option.splits)
  qed
  have entry: "m = None \<longleftrightarrow> x \<notin> set allowed_tables \<or> \<not> ok x \<or> map_of db x = None" if "(x, m) \<in> set summary" for x m
  proof (cases "(x, m) = (name, n)")
    case True
    then show ?thesis using prune_one_table [OF d, of name] sp by auto
  next
    case False
    then have in_sm: "(x, m) \<in> set sm" using that sm(2) by auto
    have "fst (x, m) \<in> set (map fst sm)" using in_sm unfolding set_map by (rule imageI)
    moreover have "map fst sm = map fst specs" by (rule ih_names)
    ultimately have "x \<in> fst ` set specs" by simp
    then have "x \<noteq> name" using dist(2) by blast
    moreover have "m = None \<longleftrightarrow> x \<notin> set allowed_tables \<or> \<not> ok x \<or> map_of d x = None"
      using bspec [OF ih_fails in_sm] by simp
    ultimately show ?thesis using other by simp
  qed
  have fails: "\<forall>(x, m)\<in>set summary. m = None \<longleftrightarrow> x \<notin> set allowed_tables \<or> \<not> ok x \<or> map_of db x = None"
  proof (rule ballI)
    fix e assume "e \<in> set summary"
    then show "case e of (x, m) \<Rightarrow> m = None \<longleftrightarrow> x \<notin> set allowed_tables \<or> \<not> ok x \<or> map_of db x = None"
      using entry [of "fst e" "snd e"] by (simp add: case_prod_beta)
  qed
  show ?case by (intro conjI allI names tables fails)
qed simp

text \<open>A book of one future and no surface.\<close>

definition one_future :: live_table where
  "one_future = [(1, \<lparr>lr_structure = ''6EU6'', lr_product_label = None, lr_contract_id = None, lr_trade_id = None, lr_package_id = None,
     lr_side = BUY, lr_tenor = None, lr_expiry = None, lr_quantity = Some 2, lr_nominal_eur = None, lr_entry_price = Some 1,
     lr_marks = no_marks\<rparr>)]"

lemma one_future_symbol: "map_option cs_instrument_type (parse_local_symbol (Some ''6EU6'')) = Some FUTURE"
  by code_simp

theorem published_is_persisted_witness:
  "let ps = load_positions_from_db 0 one_future; agg = bg_greeks (aggregate_greeks logistic (\<lambda>p. p) ps 1 []);
      rows = snd (persist_position_snapshots logistic (\<lambda>f a b. None) (\<lambda>p. p) []
        \<lparr>hs_option_marks = [], hs_contract_marks = [], hs_unrealized_pnl = []\<rparr> 1 0 ps (one_future, []))
    in \<bar>sum_list (map (\<lambda>(when, k, r). flt_or0 (mk_delta (lr_marks r))) rows) - pg_delta_usd agg\<bar> \<le> real (length ps) / 200"
proof -
  have "\<forall>p\<in>set (load_positions_from_db 0 one_future). \<not> falls_back (\<lambda>p. p) 1 [] p"
    using one_future_symbol
    by (auto simp: load_positions_from_db_def one_future_def List.map_filter_simps load_position_def falls_back_def Let_def)
  moreover have "distinct (map fst one_future)" by (simp add: one_future_def)
  ultimately show ?thesis
    using published_is_persisted [where t = one_future and ps = "load_positions_from_db 0 one_future" and today = 0 and icdf = "\<lambda>p. p"
        and F = 1 and surf = "[]" and hist = "[]" and N = logistic and brentq = "\<lambda>f a b. None" and now = 0
        and h = "\<lparr>hs_option_marks = [], hs_contract_marks = [], hs_unrealized_pnl = []\<rparr>"]
    by (simp add: Let_def)
qed

end
