(* ===== verification/Config_Service.thy ===== *)
theory Config_Service
  imports Greek_Limits "HOL-Library.AList" "HOL-Library.Monad_Syntax"
begin

text \<open>
  Configuration. The versioned trading configuration (\<open>api/orchestration/config_service.py\<close>,
  \<open>core/config/vol_params.py\<close>) with its routes (\<open>api/routers/admin.py\<close>), also when requests
  interleave, and the policy settings per domain (\<open>core/config_catalog.py\<close>). \<open>parse\<close> stands for the
  typed reading of a JSON object by the schema library (defaults for missing fields, unknown ones
  ignored); the constraints the classes declare are \<open>config_ok\<close>. Row times are left out.
\<close>

section \<open>JSON documents and the deep merge\<close>

datatype json = JNull | JBool bool | JInt int | JNum flt | JStr string | JList "json list" | JObj "(string \<times> json) list"

type_synonym object = "(string \<times> json) list"

lemma size_entry: "size_prod (\<lambda>_. 0) size = (\<lambda>kv :: string \<times> json. Suc (size (snd kv)))"
  by (auto simp: fun_eq_iff)

text \<open>A Python dict keeps the place of a key that is assigned again: \<open>AList.update\<close>.\<close>

function deep_merge :: "object \<Rightarrow> object \<Rightarrow> object"
  and merge_value :: "json option \<Rightarrow> json \<Rightarrow> json" where
  "deep_merge base [] = base"
| "deep_merge base ((k, v) # patch) = deep_merge (AList.update k (merge_value (map_of base k) v) base) patch"
| "merge_value old v =
     (case (old, v) of
        (Some (JObj b), JObj p) \<Rightarrow> JObj (deep_merge b p)
      | _ \<Rightarrow> v)"
  by pat_completeness auto
termination
  by (relation "measure (case_sum (\<lambda>(b, p). size_list (\<lambda>x. Suc (size (snd x))) p) (\<lambda>(old, v). size v))")
    (auto simp: size_entry)

declare merge_value.simps [simp del]

fun get_path :: "json \<Rightarrow> string list \<Rightarrow> json option" where
  "get_path j [] = Some j"
| "get_path (JObj kvs) (k # ks) = (case map_of kvs k of None \<Rightarrow> None | Some j \<Rightarrow> get_path j ks)"
| "get_path _ (k # ks) = None"

definition is_obj :: "json \<Rightarrow> bool" where
  "is_obj j = (case j of JObj kvs \<Rightarrow> True | _ \<Rightarrow> False)"

text \<open>No key twice, on any level, as in every Python dict.\<close>

fun unique_keys :: "json \<Rightarrow> bool" where
  "unique_keys (JObj kvs) = (distinct (map fst kvs) \<and> (\<forall>kv\<in>set kvs. unique_keys (snd kv)))"
| "unique_keys _ = True"

text \<open>The path leaves the document at a key it does not have, not at a value.\<close>

fun misses :: "json \<Rightarrow> string list \<Rightarrow> bool" where
  "misses (JObj kvs) (k # ks) = (case map_of kvs k of None \<Rightarrow> True | Some j \<Rightarrow> misses j ks)"
| "misses _ _ = False"

lemma merge_value_simps:
  "merge_value (Some (JObj b)) (JObj p) = JObj (deep_merge b p)"
  "\<not> is_obj v \<Longrightarrow> merge_value old v = v"
  "old = None \<or> (\<exists>j. old = Some j \<and> \<not> is_obj j) \<Longrightarrow> merge_value old v = v"
proof -
  show "merge_value (Some (JObj b)) (JObj p) = JObj (deep_merge b p)" by (simp add: merge_value.simps)
  show "merge_value old v = v" if "\<not> is_obj v"
    using that by (cases v) (simp_all add: merge_value.simps is_obj_def split: option.splits json.splits)
  have "merge_value (Some j) v = v" if "\<not> is_obj j" for j
    using that by (cases j) (simp_all add: merge_value.simps is_obj_def)
  then show "old = None \<or> (\<exists>j. old = Some j \<and> \<not> is_obj j) \<Longrightarrow> merge_value old v = v"
    by (auto simp: merge_value.simps)
qed

lemma merge_lookup:
  "distinct (map fst patch) \<Longrightarrow>
     map_of (deep_merge base patch) k =
       (case map_of patch k of None \<Rightarrow> map_of base k | Some v \<Rightarrow> Some (merge_value (map_of base k) v))"
proof (induction patch arbitrary: base)
  case (Cons kv patch)
  obtain k' v where kv: "kv = (k', v)" by fastforce
  have "map_of patch k' = None" using Cons.prems kv by (auto simp: map_of_eq_None_iff)
  then show ?case using Cons kv by (cases "k = k'") (simp_all add: update_conv' split: option.splits)
qed simp

lemma unique_member: "unique_keys (JObj p) \<Longrightarrow> map_of p k = Some j \<Longrightarrow> unique_keys j"
  using map_of_SomeD [of p k j] by fastforce

lemma missed_path: "misses j path \<Longrightarrow> get_path j path = None"
  by (induction j path rule: misses.induct) (auto split: option.splits)

text \<open>
  The merge by paths: a value of the patch stands where the patch puts it, and a path that the patch does not
  reach leads where it led before.
\<close>

theorem merge_by_paths:
  assumes "unique_keys (JObj patch)"
  shows "(\<forall>path v. get_path (JObj patch) path = Some v \<and> \<not> is_obj v \<longrightarrow> get_path (JObj (deep_merge base patch)) path = Some v) \<and>
    (\<forall>path. misses (JObj patch) path \<longrightarrow> get_path (JObj (deep_merge base patch)) path = get_path (JObj base) path)"
proof (intro conjI allI impI)
  fix path v
  assume "get_path (JObj patch) path = Some v \<and> \<not> is_obj v"
  then show "get_path (JObj (deep_merge base patch)) path = Some v" using assms
  proof (induction path arbitrary: base patch)
    case Nil
    then show ?case by (auto simp: is_obj_def)
  next
    case (Cons k ks)
    obtain j where j: "map_of patch k = Some j" "get_path j ks = Some v" using Cons.prems(1) by (auto split: option.splits)
    have d: "distinct (map fst patch)" and u: "unique_keys j" using Cons.prems(2) unique_member [OF _ j(1)] by simp_all
    show ?case
    proof (cases "\<exists>b q. map_of base k = Some (JObj b) \<and> j = JObj q")
      case True
      then obtain b q where bq: "map_of base k = Some (JObj b)" "j = JObj q" by blast
      then show ?thesis using Cons.IH [of q b] Cons.prems(1) j u merge_lookup [OF d, of base k]
        by (simp add: merge_value_simps)
    next
      case False
      then have "merge_value (map_of base k) j = j"
        by (auto simp: merge_value.simps split: option.splits json.splits)
      then show ?thesis using j merge_lookup [OF d, of base k] by simp
    qed
  qed
next
  fix path
  assume "misses (JObj patch) path"
  then show "get_path (JObj (deep_merge base patch)) path = get_path (JObj base) path" using assms
  proof (induction path arbitrary: base patch)
    case (Cons k ks)
    have d: "distinct (map fst patch)" using Cons.prems(2) by simp
    show ?case
    proof (cases "map_of patch k")
      case None
      then show ?thesis using merge_lookup [OF d, of base k] by simp
    next
      case (Some j)
      have u: "unique_keys j" and m: "misses j ks" using Cons.prems unique_member [OF _ Some] Some by simp_all
      obtain q where q: "j = JObj q" "ks \<noteq> []" using m by (cases j; cases ks) auto
      show ?thesis
      proof (cases "\<exists>b. map_of base k = Some (JObj b)")
        case True
        then obtain b where b: "map_of base k = Some (JObj b)" by blast
        then show ?thesis using Cons.IH [of q b] u m q Some merge_lookup [OF d, of base k]
          by (simp add: merge_value_simps)
      next
        case False
        then have "merge_value (map_of base k) j = j"
          by (auto simp: merge_value.simps split: option.splits json.splits)
        moreover have "get_path j ks = None" by (rule missed_path [OF m])
        moreover have "get_path x ks = None" if "\<not> is_obj x" for x
          using that q(2) by (cases x; cases ks) (auto simp: is_obj_def)
        ultimately show ?thesis using Some False merge_lookup [OF d, of base k]
          by (auto simp: is_obj_def split: option.splits json.splits)
      qed
    qed
  qed simp
qed

theorem merge_by_paths_witness:
  "get_path (JObj (deep_merge [(''sizing'', JObj [(''base_size'', JInt 10), (''alpha_book'', JNum 1)])]
      [(''sizing'', JObj [(''base_size'', JInt 20)])])) [''sizing'', ''base_size''] = Some (JInt 20)"
  by (rule merge_by_paths [THEN conjunct1, rule_format]) (simp_all add: is_obj_def)

text \<open>Sending the same patch twice changes nothing the second time.\<close>

lemma merge_settled:
  "(\<forall>(k, v)\<in>set patch. \<exists>x. map_of base k = Some x \<and> merge_value (Some x) v = x) \<Longrightarrow> deep_merge base patch = base"
proof (induction patch)
  case (Cons kv patch)
  obtain k v where kv: "kv = (k, v)" by fastforce
  obtain x where x: "map_of base k = Some x" "merge_value (Some x) v = x" using Cons.prems kv by auto
  have "AList.update k x base = base" using x(1) by (induction base) auto
  then show ?case using Cons x kv by simp
qed simp

theorem merge_idempotent: "unique_keys (JObj patch) \<Longrightarrow> deep_merge (deep_merge base patch) patch = deep_merge base patch"
proof -
  have value_case: "unique_keys v \<Longrightarrow> merge_value (Some (merge_value old v)) v = merge_value old v" for old v
  proof (induction "size v" arbitrary: old v rule: less_induct)
    case less
    show ?case
    proof (cases v)
      case (JObj p)
      have d: "distinct (map fst p)" using less.prems JObj by simp
      have inner: "deep_merge (deep_merge b p) p = deep_merge b p" for b
      proof (rule merge_settled, safe)
        fix k w assume kw: "(k, w) \<in> set p"
        then have "map_of p k = Some w" using d by simp
        moreover have "size w < size v" using JObj kw
          by (auto simp: size_entry dest!: size_list_estimation' [of _ _ "size w" "\<lambda>x. Suc (size (snd x))"])
        moreover have "unique_keys w" using less.prems JObj kw by fastforce
        ultimately show "\<exists>x. map_of (deep_merge b p) k = Some x \<and> merge_value (Some x) w = x"
          using merge_lookup [OF d, of b k] less.hyps [of w "map_of b k"] by simp
      qed
      have self: "deep_merge p p = p"
      proof (rule merge_settled, safe)
        fix k w assume kw: "(k, w) \<in> set p"
        then have "map_of p k = Some w" using d by simp
        moreover have "size w < size v" using JObj kw
          by (auto simp: size_entry dest!: size_list_estimation' [of _ _ "size w" "\<lambda>x. Suc (size (snd x))"])
        moreover have "unique_keys w" using less.prems JObj kw by fastforce
        ultimately show "\<exists>x. map_of p k = Some x \<and> merge_value (Some x) w = x"
          using less.hyps [of w None] by (simp add: merge_value.simps)
      qed
      show ?thesis using JObj inner self
        by (auto simp: merge_value.simps split: option.splits json.splits)
    qed (simp_all add: merge_value_simps is_obj_def)
  qed
  assume u: "unique_keys (JObj patch)"
  show ?thesis using value_case [OF u, of "Some (JObj base)"] by (simp add: merge_value_simps)
qed

section \<open>The schema\<close>

record regime_config =
  gmm_components :: int
  regime_labels :: "string \<times> string \<times> string"
  event_dampener_horizon_days :: int
  vol_of_vol_window_days :: int
  stressed_sizing_multiplier :: flt

record signal_config =
  z_threshold_arm :: flt
  z_threshold_strong :: flt
  z_threshold_extreme :: flt
  pca_rolling_months :: int
  variance_explained_min :: flt

record sizing_config =
  base_size :: int
  alpha_book :: flt
  book_rejection_threshold :: flt
  event_dampener_multiplier :: flt
  max_loss_pct_capital :: flt

record exit_rules_config =
  z_flip_exit_threshold :: flt
  time_remaining_min_ratio :: flt
  stop_loss_vega_multiplier :: flt
  time_to_expiry_force_exit_days :: int

record surface_config =
  tenors_days :: "int list"
  delta_pillars :: "int list"
  svi_rmse_max_warn :: flt
  butterfly_check_grid :: int
  ssvi_vs_svi_tolerance :: flt

record calibration_config =
  w1_walk_forward_months :: int
  w1_clip_min :: flt
  w1_clip_max :: flt
  vrp_train_split :: flt
  vrp_mae_improvement_threshold :: flt
  har_components :: "int \<times> int \<times> int"
  ewma_lambda_fair_smile :: flt

record hedge_config =
  hedge_mode :: string
  threshold_delta :: flt
  scheduled_interval_minutes :: int

record structures_config =
  pc1_structure :: string
  pc2_structure :: string
  pc3_skew_structure :: string
  pc3_convex_structure :: string
  default_tenor_days :: int

record config =
  cf_regime :: regime_config
  cf_signal :: signal_config
  cf_sizing :: sizing_config
  cf_exit_rules :: exit_rules_config
  cf_surface :: surface_config
  cf_calibration :: calibration_config
  cf_delta_hedge :: hedge_config
  cf_structures :: structures_config

definition default_config :: config where
  "default_config =
     \<lparr>cf_regime = \<lparr>gmm_components = 3, regime_labels = (''calm'', ''stressed'', ''pre_event''), event_dampener_horizon_days = 5,
        vol_of_vol_window_days = 20, stressed_sizing_multiplier = 7 / 10\<rparr>,
      cf_signal = \<lparr>z_threshold_arm = 15 / 10, z_threshold_strong = 2, z_threshold_extreme = 3, pca_rolling_months = 3,
        variance_explained_min = 85 / 100\<rparr>,
      cf_sizing = \<lparr>base_size = 10, alpha_book = 2 / 10, book_rejection_threshold = 8 / 10, event_dampener_multiplier = 5 / 10,
        max_loss_pct_capital = 2 / 100\<rparr>,
      cf_exit_rules = \<lparr>z_flip_exit_threshold = 5 / 10, time_remaining_min_ratio = 3 / 10, stop_loss_vega_multiplier = 3,
        time_to_expiry_force_exit_days = 7\<rparr>,
      cf_surface = \<lparr>tenors_days = [30, 60, 90, 120, 150, 180], delta_pillars = [10, 25, 50, 75, 90], svi_rmse_max_warn = 3 / 1000,
        butterfly_check_grid = 100, ssvi_vs_svi_tolerance = 2 / 10\<rparr>,
      cf_calibration = \<lparr>w1_walk_forward_months = 12, w1_clip_min = 0, w1_clip_max = 1, vrp_train_split = 7 / 10,
        vrp_mae_improvement_threshold = 2 / 10, har_components = (1, 5, 22), ewma_lambda_fair_smile = 94 / 100\<rparr>,
      cf_delta_hedge = \<lparr>hedge_mode = ''threshold'', threshold_delta = 5 / 100, scheduled_interval_minutes = 60\<rparr>,
      cf_structures = \<lparr>pc1_structure = ''straddle_atm'', pc2_structure = ''calendar_spread'', pc3_skew_structure = ''risk_reversal_25d'',
        pc3_convex_structure = ''butterfly_25d'', default_tenor_days = 90\<rparr>\<rparr>"

definition in_range :: "'n :: linorder \<Rightarrow> 'n \<Rightarrow> 'n \<Rightarrow> bool" where
  "in_range lo hi x = (lo \<le> x \<and> x \<le> hi)"

definition regime_ok :: "regime_config \<Rightarrow> bool" where
  "regime_ok c = (in_range 2 6 (gmm_components c) \<and>
     (case regime_labels c of (a, b, d) \<Rightarrow> {a, b, d} \<subseteq> {''calm'', ''stressed'', ''pre_event''}) \<and>
     in_range 1 30 (event_dampener_horizon_days c) \<and> in_range 5 90 (vol_of_vol_window_days c) \<and>
     in_range (1 / 10) 1 (stressed_sizing_multiplier c))"

definition signal_ok :: "signal_config \<Rightarrow> bool" where
  "signal_ok c = (in_range (5 / 10) 3 (z_threshold_arm c) \<and> in_range (15 / 10) 4 (z_threshold_strong c) \<and>
     in_range (25 / 10) 5 (z_threshold_extreme c) \<and> in_range 1 12 (pca_rolling_months c) \<and>
     in_range (6 / 10) (99 / 100) (variance_explained_min c) \<and>
     z_threshold_arm c < z_threshold_strong c \<and> z_threshold_strong c < z_threshold_extreme c)"

definition sizing_ok :: "sizing_config \<Rightarrow> bool" where
  "sizing_ok c = (in_range 1 1000 (base_size c) \<and> in_range 0 1 (alpha_book c) \<and> in_range (3 / 10) 1 (book_rejection_threshold c) \<and>
     in_range (1 / 10) 1 (event_dampener_multiplier c) \<and> in_range (1 / 1000) (1 / 10) (max_loss_pct_capital c))"

definition exit_rules_ok :: "exit_rules_config \<Rightarrow> bool" where
  "exit_rules_ok c = (in_range 0 1 (z_flip_exit_threshold c) \<and> in_range (1 / 10) (5 / 10) (time_remaining_min_ratio c) \<and>
     in_range 1 10 (stop_loss_vega_multiplier c) \<and> in_range 1 30 (time_to_expiry_force_exit_days c))"

definition surface_ok :: "surface_config \<Rightarrow> bool" where
  "surface_ok c = (tenors_days c \<noteq> [] \<and> (\<forall>t\<in>set (tenors_days c). 0 < t) \<and> tenors_days c = sort (tenors_days c) \<and>
     delta_pillars c \<noteq> [] \<and> (\<forall>p\<in>set (delta_pillars c). 0 < p \<and> p < 100) \<and> delta_pillars c = sort (delta_pillars c) \<and>
     in_range (1 / 10000) (1 / 100) (svi_rmse_max_warn c) \<and> in_range 20 500 (butterfly_check_grid c) \<and>
     in_range (5 / 100) (5 / 10) (ssvi_vs_svi_tolerance c))"

definition calibration_ok :: "calibration_config \<Rightarrow> bool" where
  "calibration_ok c = (in_range 3 36 (w1_walk_forward_months c) \<and> in_range 0 (5 / 10) (w1_clip_min c) \<and> in_range (5 / 10) 1 (w1_clip_max c) \<and>
     in_range (5 / 10) (9 / 10) (vrp_train_split c) \<and> in_range 0 1 (vrp_mae_improvement_threshold c) \<and>
     in_range (5 / 10) (999 / 1000) (ewma_lambda_fair_smile c) \<and> w1_clip_min c < w1_clip_max c)"

definition delta_hedge_ok :: "hedge_config \<Rightarrow> bool" where
  "delta_hedge_ok c = (hedge_mode c \<in> {''static'', ''threshold'', ''scheduled''} \<and> in_range (1 / 100) (5 / 10) (threshold_delta c) \<and>
     in_range 5 1440 (scheduled_interval_minutes c))"

definition structure_kinds :: "string set" where
  "structure_kinds = {''straddle_atm'', ''calendar_spread'', ''risk_reversal_25d'', ''butterfly_25d''}"

definition structures_ok :: "structures_config \<Rightarrow> bool" where
  "structures_ok c = ({pc1_structure c, pc2_structure c, pc3_skew_structure c, pc3_convex_structure c} \<subseteq> structure_kinds \<and>
     in_range 7 365 (default_tenor_days c))"

definition config_ok :: "config \<Rightarrow> bool" where
  "config_ok c = (regime_ok (cf_regime c) \<and> signal_ok (cf_signal c) \<and> sizing_ok (cf_sizing c) \<and> exit_rules_ok (cf_exit_rules c) \<and>
     surface_ok (cf_surface c) \<and> calibration_ok (cf_calibration c) \<and> delta_hedge_ok (cf_delta_hedge c) \<and>
     structures_ok (cf_structures c))"

lemmas config_ok_defs = config_ok_def regime_ok_def signal_ok_def sizing_ok_def exit_rules_ok_def surface_ok_def calibration_ok_def
  delta_hedge_ok_def structures_ok_def structure_kinds_def in_range_def

lemma default_config_ok: "config_ok default_config"
  by (simp add: default_config_def config_ok_defs)

text \<open>\<open>model_dump\<close>, with tuples as JSON lists.\<close>

definition dump :: "config \<Rightarrow> object" where
  "dump c =
     (let r = cf_regime c; s = cf_signal c; z = cf_sizing c; e = cf_exit_rules c; f = cf_surface c; k = cf_calibration c;
          h = cf_delta_hedge c; t = cf_structures c in
      [(''regime'', JObj [(''gmm_components'', JInt (gmm_components r)),
          (''regime_labels'', (case regime_labels r of (a, b, d) \<Rightarrow> JList [JStr a, JStr b, JStr d])),
          (''event_dampener_horizon_days'', JInt (event_dampener_horizon_days r)),
          (''vol_of_vol_window_days'', JInt (vol_of_vol_window_days r)),
          (''stressed_sizing_multiplier'', JNum (stressed_sizing_multiplier r))]),
       (''signal'', JObj [(''z_threshold_arm'', JNum (z_threshold_arm s)), (''z_threshold_strong'', JNum (z_threshold_strong s)),
          (''z_threshold_extreme'', JNum (z_threshold_extreme s)), (''pca_rolling_months'', JInt (pca_rolling_months s)),
          (''variance_explained_min'', JNum (variance_explained_min s))]),
       (''sizing'', JObj [(''base_size'', JInt (base_size z)), (''alpha_book'', JNum (alpha_book z)),
          (''book_rejection_threshold'', JNum (book_rejection_threshold z)),
          (''event_dampener_multiplier'', JNum (event_dampener_multiplier z)), (''max_loss_pct_capital'', JNum (max_loss_pct_capital z))]),
       (''exit_rules'', JObj [(''z_flip_exit_threshold'', JNum (z_flip_exit_threshold e)),
          (''time_remaining_min_ratio'', JNum (time_remaining_min_ratio e)),
          (''stop_loss_vega_multiplier'', JNum (stop_loss_vega_multiplier e)),
          (''time_to_expiry_force_exit_days'', JInt (time_to_expiry_force_exit_days e))]),
       (''surface'', JObj [(''tenors_days'', JList (map JInt (tenors_days f))), (''delta_pillars'', JList (map JInt (delta_pillars f))),
          (''svi_rmse_max_warn'', JNum (svi_rmse_max_warn f)), (''butterfly_check_grid'', JInt (butterfly_check_grid f)),
          (''ssvi_vs_svi_tolerance'', JNum (ssvi_vs_svi_tolerance f))]),
       (''calibration'', JObj [(''w1_walk_forward_months'', JInt (w1_walk_forward_months k)), (''w1_clip_min'', JNum (w1_clip_min k)),
          (''w1_clip_max'', JNum (w1_clip_max k)), (''vrp_train_split'', JNum (vrp_train_split k)),
          (''vrp_mae_improvement_threshold'', JNum (vrp_mae_improvement_threshold k)),
          (''har_components'', (case har_components k of (a, b, d) \<Rightarrow> JList [JInt a, JInt b, JInt d])),
          (''ewma_lambda_fair_smile'', JNum (ewma_lambda_fair_smile k))]),
       (''delta_hedge'', JObj [(''mode'', JStr (hedge_mode h)), (''threshold_delta'', JNum (threshold_delta h)),
          (''scheduled_interval_minutes'', JInt (scheduled_interval_minutes h))]),
       (''structures'', JObj [(''pc1_structure'', JStr (pc1_structure t)), (''pc2_structure'', JStr (pc2_structure t)),
          (''pc3_skew_structure'', JStr (pc3_skew_structure t)), (''pc3_convex_structure'', JStr (pc3_convex_structure t)),
          (''default_tenor_days'', JInt (default_tenor_days t))])])"

type_synonym parser = "object \<Rightarrow> config option"

definition model_validate :: "parser \<Rightarrow> object \<Rightarrow> config option" where
  "model_validate parse j = (case parse j of None \<Rightarrow> None | Some c \<Rightarrow> if config_ok c then Some c else None)"

text \<open>What the library documents: reading back what it dumped gives the same object.\<close>

definition reads_dumps :: "parser \<Rightarrow> bool" where
  "reads_dumps parse \<longleftrightarrow> (\<forall>c. config_ok c \<longrightarrow> parse (dump c) = Some c)"

section \<open>The service\<close>

record vol_row =
  vr_version :: int
  vr_config :: object
  vr_by :: "string option"
  vr_comment :: "string option"

record config_record =
  cr_version :: int
  cr_config :: config
  cr_by :: "string option"
  cr_comment :: "string option"

record config_world =
  cw_rows :: "vol_row list"
  cw_published :: "(int \<times> config) list"

text \<open>\<open>order_by(desc(version)).limit(1)\<close> and \<open>coalesce(max(version), 0)\<close>.\<close>

definition newest :: "vol_row list \<Rightarrow> vol_row option" where
  "newest rows = (case rev (sort_key vr_version rows) of [] \<Rightarrow> None | r # rs \<Rightarrow> Some r)"

definition max_version :: "vol_row list \<Rightarrow> int" where
  "max_version rows = (if rows = [] then 0 else Max (vr_version ` set rows))"

definition row_to_record :: "parser \<Rightarrow> vol_row \<Rightarrow> config_record result" where
  "row_to_record parse r =
     (case (if vr_config r = [] then Some default_config else model_validate parse (vr_config r)) of
        None \<Rightarrow> Inl (ValueError ''ValidationError'')
      | Some c \<Rightarrow> Inr \<lparr>cr_version = vr_version r, cr_config = c, cr_by = vr_by r, cr_comment = vr_comment r\<rparr>)"

definition get_current :: "parser \<Rightarrow> vol_row list \<Rightarrow> config_record result" where
  "get_current parse rows =
     (case newest rows of
        None \<Rightarrow> Inr \<lparr>cr_version = 0, cr_config = default_config, cr_by = None, cr_comment = Some ''no rows yet, returning pydantic defaults''\<rparr>
      | Some r \<Rightarrow> row_to_record parse r)"

text \<open>Commit first, then the message; when it cannot be sent the row stays.\<close>

definition publish_and_answer ::
  "parser \<Rightarrow> bool \<Rightarrow> vol_row \<Rightarrow> config result \<Rightarrow> config_world \<Rightarrow> config_world \<times> config_record result" where
  "publish_and_answer parse pub_ok row validated w =
     (case validated of
        Inl e \<Rightarrow> (w, Inl e)
      | Inr c \<Rightarrow> if pub_ok then (w\<lparr>cw_published := cw_published w @ [(vr_version row, c)]\<rparr>, row_to_record parse row)
                 else (w, Inl (ConnectionError ''publish'')))"

definition merged_config :: "parser \<Rightarrow> vol_row list \<Rightarrow> object \<Rightarrow> config result" where
  "merged_config parse rows patch =
     (case get_current parse rows of
        Inl e \<Rightarrow> Inl e
      | Inr cur \<Rightarrow>
          (case model_validate parse (deep_merge (dump (cr_config cur)) patch) of
             None \<Rightarrow> Inl (ValueError ''ValidationError'')
           | Some c \<Rightarrow> Inr c))"

definition update_config ::
  "parser \<Rightarrow> bool \<Rightarrow> object \<Rightarrow> string option \<Rightarrow> string option \<Rightarrow> config_world \<Rightarrow> config_world \<times> config_record result" where
  "update_config parse pub_ok patch user comment w =
     (case merged_config parse (cw_rows w) patch of
        Inl e \<Rightarrow> (w, Inl e)
      | Inr c \<Rightarrow>
          let row = \<lparr>vr_version = max_version (cw_rows w) + 1, vr_config = dump c, vr_by = user, vr_comment = comment\<rparr>
          in publish_and_answer parse pub_ok row (Inr c) (w\<lparr>cw_rows := cw_rows w @ [row]\<rparr>))"

definition config_history :: "parser \<Rightarrow> nat \<Rightarrow> vol_row list \<Rightarrow> config_record list result" where
  "config_history parse n rows = map_result (row_to_record parse) (take n (rev (sort_key vr_version rows)))"

text \<open>The comment falls back to a note with the version, here given as \<open>remark\<close>.\<close>

definition revert_config ::
  "parser \<Rightarrow> bool \<Rightarrow> int \<Rightarrow> string option \<Rightarrow> string option \<Rightarrow> string \<Rightarrow> config_world \<Rightarrow> config_world \<times> config_record result" where
  "revert_config parse pub_ok target user comment remark w =
     (case find (\<lambda>r. vr_version r = target) (cw_rows w) of
        None \<Rightarrow> (w, Inl (ValueError ''version not found''))
      | Some t \<Rightarrow>
          let row = \<lparr>vr_version = max_version (cw_rows w) + 1, vr_config = vr_config t, vr_by = user,
                     vr_comment = (if comment = None \<or> comment = Some [] then Some remark else comment)\<rparr>;
              validated = (if vr_config t = [] then Inr default_config
                           else (case model_validate parse (vr_config t) of None \<Rightarrow> Inl (ValueError ''ValidationError'') | Some c \<Rightarrow> Inr c))
          in publish_and_answer parse pub_ok row validated (w\<lparr>cw_rows := cw_rows w @ [row]\<rparr>))"

text \<open>The routes: a schema violation on update is 422, a failed revert 404 (the schema's error is a \<open>ValueError\<close> too).\<close>

definition route_update :: "config_world \<times> config_record result \<Rightarrow> config_world \<times> config_record result" where
  "route_update out = (case out of (w, Inl (ValueError e)) \<Rightarrow> (w, Inl (HTTPException 422 e)) | _ \<Rightarrow> out)"

definition route_revert :: "config_world \<times> config_record result \<Rightarrow> config_world \<times> config_record result" where
  "route_revert out = (case out of (w, Inl (ValueError e)) \<Rightarrow> (w, Inl (HTTPException 404 e)) | _ \<Rightarrow> out)"

datatype config_request = Update object "string option" "string option" | Revert int "string option" "string option" string

fun serve :: "parser \<Rightarrow> bool \<times> config_request \<Rightarrow> config_world \<Rightarrow> config_world" where
  "serve parse (pub, Update p u c) w = fst (route_update (update_config parse pub p u c w))"
| "serve parse (pub, Revert v u c remark) w = fst (route_revert (revert_config parse pub v u c remark w))"

definition serve_all :: "parser \<Rightarrow> (bool \<times> config_request) list \<Rightarrow> config_world \<Rightarrow> config_world" where
  "serve_all parse rqs w = foldl (\<lambda>w rq. serve parse rq w) w rqs"

section \<open>Versions only grow\<close>

definition numbered :: "vol_row list \<Rightarrow> bool" where
  "numbered rows \<longleftrightarrow> map vr_version rows = map (\<lambda>i. int i + 1) [0..<length rows]"

definition holds_config :: "vol_row \<Rightarrow> bool" where
  "holds_config r \<longleftrightarrow> (\<exists>c. config_ok c \<and> vr_config r = dump c)"

lemma dump_nonempty [simp]: "dump c \<noteq> []"
  by (simp add: dump_def Let_def)

lemma numbered_versions:
  assumes "numbered rows"
  shows "sort_key vr_version rows = rows" "max_version rows = int (length rows)"
proof -
  have "sorted (map (\<lambda>i. int i + 1) [0..<n])" for n by (simp add: sorted_iff_nth_mono)
  then show "sort_key vr_version rows = rows"
    using assms by (intro sort_key_id_if_sorted) (simp add: numbered_def)
  have set: "vr_version ` set rows = (\<lambda>i. int i + 1) ` {0..<length rows}"
    using arg_cong [where f = set, OF assms [unfolded numbered_def]] by simp
  show "max_version rows = int (length rows)"
  proof (cases rows)
    case (Cons r rs)
    have "Max ((\<lambda>i. int i + 1) ` {0..<length rows}) = int (length rows - 1) + 1"
      by (intro Max_eqI) (use Cons in auto)
    then show ?thesis using Cons set by (simp add: max_version_def)
  qed (simp add: max_version_def)
qed

lemma numbered_append:
  assumes "numbered rows"
  shows "numbered (rows @ [r]) \<longleftrightarrow> vr_version r = max_version rows + 1"
  using assms numbered_versions(2) [OF assms] by (simp add: numbered_def)

lemma newest_numbered: "numbered rows \<Longrightarrow> newest rows = (if rows = [] then None else Some (last rows))"
  using numbered_versions(1) [of rows] by (cases rows rule: rev_cases) (simp_all add: newest_def)

lemma held_config:
  assumes "reads_dumps parse" and "holds_config r"
  obtains c where "config_ok c" "vr_config r = dump c" "model_validate parse (vr_config r) = Some c"
    "row_to_record parse r = Inr \<lparr>cr_version = vr_version r, cr_config = c, cr_by = vr_by r, cr_comment = vr_comment r\<rparr>"
  using assms by (auto simp: holds_config_def reads_dumps_def row_to_record_def model_validate_def)

lemma current_ok:
  assumes "reads_dumps parse" and "numbered rows" and "\<forall>r\<in>set rows. holds_config r"
  shows "\<exists>rec. get_current parse rows = Inr rec \<and> config_ok (cr_config rec) \<and> cr_version rec = int (length rows)"
proof (cases rows rule: rev_cases)
  case Nil
  then show ?thesis by (simp add: get_current_def newest_def default_config_ok)
next
  case (snoc rs r)
  have "holds_config r" using assms(3) snoc by simp
  then obtain c where "config_ok c"
    "row_to_record parse r = Inr \<lparr>cr_version = vr_version r, cr_config = c, cr_by = vr_by r, cr_comment = vr_comment r\<rparr>"
    by (rule held_config [OF assms(1)])
  moreover have "newest rows = Some r" using newest_numbered [OF assms(2)] snoc by simp
  moreover have "vr_version r = int (length rows)" using assms(2) snoc by (simp add: numbered_def)
  ultimately show ?thesis by (simp add: get_current_def)
qed

definition world_ok :: "config_world \<Rightarrow> bool" where
  "world_ok w \<longleftrightarrow> numbered (cw_rows w) \<and> (\<forall>r\<in>set (cw_rows w). holds_config r) \<and>
     (\<forall>(v, c)\<in>set (cw_published w). \<exists>r\<in>set (cw_rows w). vr_version r = v \<and> vr_config r = dump c)"

lemma publish_adds:
  assumes "publish_and_answer parse pub row x w = (w', res)"
  shows "cw_rows w' = cw_rows w \<and>
    (cw_published w' = cw_published w \<or> (\<exists>c. x = Inr c \<and> cw_published w' = cw_published w @ [(vr_version row, c)]))"
  using assms by (auto simp: publish_and_answer_def split: sum.splits if_splits)

lemma published_mono:
  "(\<exists>r\<in>set rows. vr_version r = v \<and> vr_config r = d) \<Longrightarrow> \<exists>r\<in>set (rows @ [x]). vr_version r = v \<and> vr_config r = d"
  by auto

lemma world_ok_add:
  assumes "world_ok w" and "vr_version row = max_version (cw_rows w) + 1" and "config_ok c" and "vr_config row = dump c"
    and "publish_and_answer parse pub row (Inr c) (w\<lparr>cw_rows := cw_rows w @ [row]\<rparr>) = (w', res)"
  shows "world_ok w' \<and> cw_rows w' = cw_rows w @ [row]"
proof -
  have rows: "cw_rows w' = cw_rows w @ [row]"
    and pub: "set (cw_published w') \<subseteq> insert (vr_version row, c) (set (cw_published w))"
    using publish_adds [OF assms(5)] by auto
  have "numbered (cw_rows w')" "\<forall>r\<in>set (cw_rows w'). holds_config r"
    using assms(1-4) numbered_append [of "cw_rows w" row] by (auto simp: rows world_ok_def holds_config_def)
  moreover have "\<exists>r\<in>set (cw_rows w'). vr_version r = v \<and> vr_config r = dump d" if "(v, d) \<in> set (cw_published w')" for v d
  proof (cases "(v, d) = (vr_version row, c)")
    case True
    then show ?thesis using assms(4) by (simp add: rows)
  next
    case False
    then have "(v, d) \<in> set (cw_published w)" using that pub by blast
    then show ?thesis unfolding rows using assms(1) by (intro published_mono) (auto simp: world_ok_def)
  qed
  ultimately show ?thesis using rows by (auto simp: world_ok_def)
qed

lemma world_ok_added:
  assumes "world_ok w" and "config_ok c" and "row = \<lparr>vr_version = max_version (cw_rows w) + 1, vr_config = dump c, vr_by = u, vr_comment = k\<rparr>"
  shows "world_ok (fst (publish_and_answer parse pub row (Inr c) (w\<lparr>cw_rows := cw_rows w @ [row]\<rparr>))) \<and>
    cw_rows (fst (publish_and_answer parse pub row (Inr c) (w\<lparr>cw_rows := cw_rows w @ [row]\<rparr>))) = cw_rows w @ [row]"
proof -
  obtain w' res where out: "publish_and_answer parse pub row (Inr c) (w\<lparr>cw_rows := cw_rows w @ [row]\<rparr>) = (w', res)" by fastforce
  have "vr_version row = max_version (cw_rows w) + 1" "vr_config row = dump c" using assms(3) by simp_all
  then show ?thesis using world_ok_add [OF assms(1) _ assms(2) _ out] unfolding out by simp
qed

lemma serve_ok:
  assumes "reads_dumps parse" and "world_ok w"
  shows "world_ok (serve parse rq w) \<and> (\<exists>added. cw_rows (serve parse rq w) = cw_rows w @ added)"
proof (cases "(parse, rq, w)" rule: serve.cases)
  case (1 _ pub p u c _)
  then have rq: "rq = (pub, Update p u c)" by simp
  have same: "fst (route_update out) = fst out" for out
    by (auto simp: route_update_def split: prod.splits sum.splits py_error.splits)
  show ?thesis
  proof (cases "merged_config parse (cw_rows w) p")
    case (Inl e)
    then show ?thesis using assms(2) by (simp add: rq same update_config_def)
  next
    case (Inr cfg)
    have "config_ok cfg"
      using Inr by (auto simp: merged_config_def model_validate_def split: sum.splits option.splits if_splits)
    then show ?thesis
      using Inr world_ok_added [OF assms(2) _ HOL.refl, of cfg parse pub u c]
      by (simp add: rq same update_config_def Let_def)
  qed
next
  case (2 _ pub v u c remark _)
  then have rq: "rq = (pub, Revert v u c remark)" by simp
  have same: "fst (route_revert out) = fst out" for out
    by (auto simp: route_revert_def split: prod.splits sum.splits py_error.splits)
  show ?thesis
  proof (cases "find (\<lambda>r. vr_version r = v) (cw_rows w)")
    case None
    then show ?thesis using assms(2) by (simp add: rq same revert_config_def)
  next
    case (Some t)
    then have "holds_config t" using assms(2) by (auto simp: world_ok_def find_Some_iff)
    then obtain cfg where cfg: "config_ok cfg" "vr_config t = dump cfg" "model_validate parse (vr_config t) = Some cfg"
      by (rule held_config [OF assms(1)])
    then show ?thesis
      using Some world_ok_added [OF assms(2) _ HOL.refl, of cfg parse pub u "if c = None \<or> c = Some [] then Some remark else c"]
      by (simp add: rq same revert_config_def Let_def)
  qed
qed

lemma serve_all_ok:
  assumes "reads_dumps parse" and "world_ok w"
  shows "world_ok (serve_all parse rqs w) \<and> (\<exists>added. cw_rows (serve_all parse rqs w) = cw_rows w @ added)"
  using assms(2)
proof (induction rqs arbitrary: w)
  case (Cons rq rqs)
  note step = serve_ok [OF assms(1) Cons.prems, of rq]
  show ?case using Cons.IH [OF step [THEN conjunct1]] step by (auto simp: serve_all_def)
qed (simp add: serve_all_def)

definition no_configs :: config_world where
  "no_configs = \<lparr>cw_rows = [], cw_published = []\<rparr>"


text \<open>A strict reader: every field is there and of its type. It satisfies the hypothesis.\<close>

definition field_int :: "object \<Rightarrow> string \<Rightarrow> int option" where
  "field_int j k = (case map_of j k of Some (JInt i) \<Rightarrow> Some i | _ \<Rightarrow> None)"
definition field_num :: "object \<Rightarrow> string \<Rightarrow> flt option" where
  "field_num j k = (case map_of j k of Some (JNum x) \<Rightarrow> Some x | _ \<Rightarrow> None)"
definition field_str :: "object \<Rightarrow> string \<Rightarrow> string option" where
  "field_str j k = (case map_of j k of Some (JStr x) \<Rightarrow> Some x | _ \<Rightarrow> None)"
definition field_obj :: "object \<Rightarrow> string \<Rightarrow> object option" where
  "field_obj j k = (case map_of j k of Some (JObj x) \<Rightarrow> Some x | _ \<Rightarrow> None)"

definition the_ints :: "json list \<Rightarrow> int list" where
  "the_ints js = List.map_filter (\<lambda>j. case j of JInt i \<Rightarrow> Some i | _ \<Rightarrow> None) js"

definition field_ints :: "object \<Rightarrow> string \<Rightarrow> int list option" where
  "field_ints j k = (case map_of j k of Some (JList xs) \<Rightarrow> Some (the_ints xs) | _ \<Rightarrow> None)"

definition strict_regime :: "object \<Rightarrow> regime_config option" where
  "strict_regime j = do {
     a \<leftarrow> field_int j ''gmm_components'';
     ls \<leftarrow> (case map_of j ''regime_labels'' of Some (JList [JStr x, JStr y, JStr z]) \<Rightarrow> Some (x, y, z) | _ \<Rightarrow> None);
     b \<leftarrow> field_int j ''event_dampener_horizon_days''; c \<leftarrow> field_int j ''vol_of_vol_window_days'';
     d \<leftarrow> field_num j ''stressed_sizing_multiplier'';
     Some \<lparr>gmm_components = a, regime_labels = ls, event_dampener_horizon_days = b, vol_of_vol_window_days = c, stressed_sizing_multiplier = d\<rparr> }"

definition strict_signal :: "object \<Rightarrow> signal_config option" where
  "strict_signal j = do {
     a \<leftarrow> field_num j ''z_threshold_arm''; b \<leftarrow> field_num j ''z_threshold_strong''; c \<leftarrow> field_num j ''z_threshold_extreme'';
     d \<leftarrow> field_int j ''pca_rolling_months''; e \<leftarrow> field_num j ''variance_explained_min'';
     Some \<lparr>z_threshold_arm = a, z_threshold_strong = b, z_threshold_extreme = c, pca_rolling_months = d, variance_explained_min = e\<rparr> }"

definition strict_sizing :: "object \<Rightarrow> sizing_config option" where
  "strict_sizing j = do {
     a \<leftarrow> field_int j ''base_size''; b \<leftarrow> field_num j ''alpha_book''; c \<leftarrow> field_num j ''book_rejection_threshold'';
     d \<leftarrow> field_num j ''event_dampener_multiplier''; e \<leftarrow> field_num j ''max_loss_pct_capital'';
     Some \<lparr>base_size = a, alpha_book = b, book_rejection_threshold = c, event_dampener_multiplier = d, max_loss_pct_capital = e\<rparr> }"

definition strict_exit_rules :: "object \<Rightarrow> exit_rules_config option" where
  "strict_exit_rules j = do {
     a \<leftarrow> field_num j ''z_flip_exit_threshold''; b \<leftarrow> field_num j ''time_remaining_min_ratio'';
     c \<leftarrow> field_num j ''stop_loss_vega_multiplier''; d \<leftarrow> field_int j ''time_to_expiry_force_exit_days'';
     Some \<lparr>z_flip_exit_threshold = a, time_remaining_min_ratio = b, stop_loss_vega_multiplier = c, time_to_expiry_force_exit_days = d\<rparr> }"

definition strict_surface :: "object \<Rightarrow> surface_config option" where
  "strict_surface j = do {
     a \<leftarrow> field_ints j ''tenors_days''; b \<leftarrow> field_ints j ''delta_pillars''; c \<leftarrow> field_num j ''svi_rmse_max_warn'';
     d \<leftarrow> field_int j ''butterfly_check_grid''; e \<leftarrow> field_num j ''ssvi_vs_svi_tolerance'';
     Some \<lparr>tenors_days = a, delta_pillars = b, svi_rmse_max_warn = c, butterfly_check_grid = d, ssvi_vs_svi_tolerance = e\<rparr> }"

definition strict_calibration :: "object \<Rightarrow> calibration_config option" where
  "strict_calibration j = do {
     a \<leftarrow> field_int j ''w1_walk_forward_months''; b \<leftarrow> field_num j ''w1_clip_min''; c \<leftarrow> field_num j ''w1_clip_max'';
     d \<leftarrow> field_num j ''vrp_train_split''; e \<leftarrow> field_num j ''vrp_mae_improvement_threshold'';
     h \<leftarrow> (case map_of j ''har_components'' of Some (JList [JInt x, JInt y, JInt z]) \<Rightarrow> Some (x, y, z) | _ \<Rightarrow> None);
     f \<leftarrow> field_num j ''ewma_lambda_fair_smile'';
     Some \<lparr>w1_walk_forward_months = a, w1_clip_min = b, w1_clip_max = c, vrp_train_split = d, vrp_mae_improvement_threshold = e,
       har_components = h, ewma_lambda_fair_smile = f\<rparr> }"

definition strict_hedge :: "object \<Rightarrow> hedge_config option" where
  "strict_hedge j = do {
     a \<leftarrow> field_str j ''mode''; b \<leftarrow> field_num j ''threshold_delta''; c \<leftarrow> field_int j ''scheduled_interval_minutes'';
     Some \<lparr>hedge_mode = a, threshold_delta = b, scheduled_interval_minutes = c\<rparr> }"

definition strict_structures :: "object \<Rightarrow> structures_config option" where
  "strict_structures j = do {
     a \<leftarrow> field_str j ''pc1_structure''; b \<leftarrow> field_str j ''pc2_structure''; c \<leftarrow> field_str j ''pc3_skew_structure'';
     d \<leftarrow> field_str j ''pc3_convex_structure''; e \<leftarrow> field_int j ''default_tenor_days'';
     Some \<lparr>pc1_structure = a, pc2_structure = b, pc3_skew_structure = c, pc3_convex_structure = d, default_tenor_days = e\<rparr> }"

definition strict_read :: parser where
  "strict_read j = do {
     a \<leftarrow> Option.bind (field_obj j ''regime'') strict_regime; b \<leftarrow> Option.bind (field_obj j ''signal'') strict_signal;
     c \<leftarrow> Option.bind (field_obj j ''sizing'') strict_sizing; d \<leftarrow> Option.bind (field_obj j ''exit_rules'') strict_exit_rules;
     e \<leftarrow> Option.bind (field_obj j ''surface'') strict_surface; f \<leftarrow> Option.bind (field_obj j ''calibration'') strict_calibration;
     g \<leftarrow> Option.bind (field_obj j ''delta_hedge'') strict_hedge; h \<leftarrow> Option.bind (field_obj j ''structures'') strict_structures;
     Some \<lparr>cf_regime = a, cf_signal = b, cf_sizing = c, cf_exit_rules = d, cf_surface = e, cf_calibration = f, cf_delta_hedge = g,
       cf_structures = h\<rparr> }"

lemmas field_defs = field_int_def field_num_def field_str_def field_obj_def field_ints_def

lemma the_ints_map [simp]: "the_ints (map JInt xs) = xs"
  by (induction xs) (simp_all add: the_ints_def List.map_filter_simps)

lemma strict_read_dump: "strict_read (dump c) = Some c"
proof (cases c)
  case (fields r s z e f k h t)
  have secs: "field_obj (dump c) ''regime'' \<bind> strict_regime = Some r" "field_obj (dump c) ''signal'' \<bind> strict_signal = Some s"
    "field_obj (dump c) ''sizing'' \<bind> strict_sizing = Some z" "field_obj (dump c) ''exit_rules'' \<bind> strict_exit_rules = Some e"
    "field_obj (dump c) ''surface'' \<bind> strict_surface = Some f" "field_obj (dump c) ''calibration'' \<bind> strict_calibration = Some k"
    "field_obj (dump c) ''delta_hedge'' \<bind> strict_hedge = Some h" "field_obj (dump c) ''structures'' \<bind> strict_structures = Some t"
    by (simp_all add: dump_def Let_def field_defs fields strict_regime_def strict_signal_def strict_sizing_def strict_exit_rules_def
        strict_surface_def strict_calibration_def strict_hedge_def strict_structures_def split: prod.split)
  show ?thesis by (simp add: strict_read_def secs) (simp add: fields)
qed

lemma strict_reads_dumps: "reads_dumps strict_read"
  by (simp add: reads_dumps_def strict_read_dump)


section \<open>Revert\<close>

text \<open>
  A revert to a stored version makes its configuration the current one under a new number and changes no
  earlier row; to a version that was never stored it is refused with 404 and stores nothing.
\<close>

theorem revert_restores:
  assumes "reads_dumps parse" and "w = serve_all parse rqs no_configs"
    and "route_revert (revert_config parse pub v user comment remark w) = (w', res)"
  shows "(case find (\<lambda>r. vr_version r = v) (cw_rows w) of
      None \<Rightarrow> w' = w \<and> res = Inl (HTTPException 404 ''version not found'')
    | Some t \<Rightarrow>
        (\<exists>row. cw_rows w' = cw_rows w @ [row] \<and> vr_config row = vr_config t) \<and>
        (\<exists>rec c. get_current parse (cw_rows w') = Inr rec \<and> vr_config t = dump c \<and> cr_config rec = c \<and>
           cr_version rec = int (length (cw_rows w)) + 1 \<and> (pub \<longrightarrow> res = Inr rec) \<and> (\<not> pub \<longrightarrow> res = Inl (ConnectionError ''publish''))))"
proof -
  have "world_ok no_configs" by (simp add: world_ok_def numbered_def no_configs_def)
  then have ok: "world_ok w" using serve_all_ok [OF assms(1), of no_configs rqs] assms(2) by simp
  show ?thesis
  proof (cases "find (\<lambda>r. vr_version r = v) (cw_rows w)")
    case None
    then show ?thesis using assms(3) by (simp add: revert_config_def route_revert_def)
  next
    case (Some t)
    then have "holds_config t" using ok by (auto simp: world_ok_def find_Some_iff)
    then obtain c where c: "config_ok c" "vr_config t = dump c" "model_validate parse (vr_config t) = Some c"
      by (rule held_config [OF assms(1)])
    define row where "row = \<lparr>vr_version = max_version (cw_rows w) + 1, vr_config = dump c, vr_by = user,
      vr_comment = (if comment = None \<or> comment = Some [] then Some remark else comment)\<rparr>"
    have num: "numbered (cw_rows w)" using ok by (simp add: world_ok_def)
    have new: "newest (cw_rows w @ [row]) = Some row"
      using newest_numbered [of "cw_rows w @ [row]"] numbered_append [OF num, of row] by (simp add: row_def)
    have "holds_config row" using c(1) by (auto simp: holds_config_def row_def)
    then obtain d where d: "vr_config row = dump d" "model_validate parse (vr_config row) = Some d" "row_to_record parse row =
        Inr \<lparr>cr_version = vr_version row, cr_config = d, cr_by = vr_by row, cr_comment = vr_comment row\<rparr>"
      by (rule held_config [OF assms(1)])
    have same: "d = c" using d(2) c(2,3) by (simp add: row_def)
    have out: "(w', res) = (if pub then (w\<lparr>cw_rows := cw_rows w @ [row], cw_published := cw_published w @ [(vr_version row, c)]\<rparr>, row_to_record parse row)
        else (w\<lparr>cw_rows := cw_rows w @ [row]\<rparr>, Inl (ConnectionError ''publish'')))"
      using assms(3) Some c d(3)
      by (simp add: revert_config_def Let_def row_def [symmetric] publish_and_answer_def route_revert_def split: if_splits)
    have rows: "cw_rows w' = cw_rows w @ [row]" using out by (auto split: if_splits)
    have "get_current parse (cw_rows w') = row_to_record parse row" using new by (simp add: rows get_current_def)
    moreover have "vr_version row = int (length (cw_rows w)) + 1" by (simp add: row_def numbered_versions(2) [OF num])
    ultimately show ?thesis using Some c(2) d(3) same rows out by (auto simp: row_def split: if_splits)
  qed
qed

theorem revert_restores_witness:
  "fst (route_revert (revert_config strict_read True 7 None None ''again'' no_configs)) = no_configs"
proof -
  obtain w' res where out: "route_revert (revert_config strict_read True 7 None None ''again'' no_configs) = (w', res)" by fastforce
  moreover have "no_configs = serve_all strict_read [] no_configs" by (simp add: serve_all_def)
  ultimately show ?thesis using revert_restores [OF strict_reads_dumps, of no_configs "[]" True 7 None None "''again''" w' res]
    by (simp add: no_configs_def)
qed

text \<open>
  The row is stored before it is validated: a revert to a row that today's schema refuses answers
  404 but becomes the current version, and from then on every update is refused.
\<close>

lemma revert_stores_before_it_validates:
  assumes "numbered (cw_rows w)" and "find (\<lambda>r. vr_version r = v) (cw_rows w) = Some t"
    and "vr_config t \<noteq> []" and "model_validate parse (vr_config t) = None"
    and "route_revert (revert_config parse pub v user comment remark w) = (w', res)"
  shows "res = Inl (HTTPException 404 ''ValidationError'') \<and> length (cw_rows w') = length (cw_rows w) + 1 \<and>
    route_update (update_config parse pub patch user comment w') = (w', Inl (HTTPException 422 ''ValidationError''))"
proof -
  define row where "row = \<lparr>vr_version = max_version (cw_rows w) + 1, vr_config = vr_config t, vr_by = user,
    vr_comment = (if comment = None \<or> comment = Some [] then Some remark else comment)\<rparr>"
  have new: "newest (cw_rows w @ [row]) = Some row"
    using newest_numbered [of "cw_rows w @ [row]"] numbered_append [OF assms(1), of row] by (simp add: row_def)
  have out: "w' = w\<lparr>cw_rows := cw_rows w @ [row]\<rparr>" "res = Inl (HTTPException 404 ''ValidationError'')"
    using assms(2-5) by (simp_all add: revert_config_def Let_def row_def publish_and_answer_def route_revert_def)
  have "row_to_record parse row = Inl (ValueError ''ValidationError'')"
    using assms(3,4) by (simp add: row_to_record_def row_def)
  then show ?thesis
    using new by (simp add: out update_config_def merged_config_def get_current_def route_update_def)
qed

section \<open>Requests that interleave\<close>

text \<open>
  An update reads the current row, then the highest version, then stores; other requests run in between. The
  version is the primary key, so a store under a taken number fails.
\<close>

datatype phase = Fresh object | Prepared config | Numbered config int | Stored int | Conflict | Refused

type_synonym race = "vol_row list \<times> (nat \<Rightarrow> phase)"

definition bare_row :: "config \<Rightarrow> int \<Rightarrow> vol_row" where
  "bare_row c n = \<lparr>vr_version = n, vr_config = dump c, vr_by = None, vr_comment = None\<rparr>"

inductive race_config :: "parser \<Rightarrow> race \<Rightarrow> race \<Rightarrow> bool" for parse where
  prepare: "ph i = Fresh patch \<Longrightarrow> merged_config parse rows patch = Inr c \<Longrightarrow> race_config parse (rows, ph) (rows, ph(i := Prepared c))"
| refuse: "ph i = Fresh patch \<Longrightarrow> merged_config parse rows patch = Inl e \<Longrightarrow> race_config parse (rows, ph) (rows, ph(i := Refused))"
| number: "ph i = Prepared c \<Longrightarrow> race_config parse (rows, ph) (rows, ph(i := Numbered c (max_version rows + 1)))"
| store: "ph i = Numbered c n \<Longrightarrow> n \<notin> vr_version ` set rows \<Longrightarrow>
    race_config parse (rows, ph) (rows @ [bare_row c n], ph(i := Stored n))"
| conflict: "ph i = Numbered c n \<Longrightarrow> n \<in> vr_version ` set rows \<Longrightarrow> race_config parse (rows, ph) (rows, ph(i := Conflict))"

definition race_ok :: "race \<Rightarrow> bool" where
  "race_ok s = (case s of (rows, ph) \<Rightarrow> numbered rows \<and> (\<forall>r\<in>set rows. holds_config r) \<and>
     (\<forall>i c. ph i = Prepared c \<longrightarrow> config_ok c) \<and>
     (\<forall>i c n. ph i = Numbered c n \<longrightarrow> config_ok c \<and> 1 \<le> n \<and> n \<le> int (length rows) + 1) \<and>
     (\<forall>i n. ph i = Stored n \<longrightarrow> 1 \<le> n \<and> n \<le> int (length rows)) \<and>
     (\<forall>i j n. ph i = Stored n \<and> ph j = Stored n \<longrightarrow> i = j))"

lemma numbered_set: "numbered rows \<Longrightarrow> vr_version ` set rows = {1..int (length rows)}"
proof -
  assume "numbered rows"
  then have "set (map vr_version rows) = set (map (\<lambda>i. int i + 1) [0..<length rows])" by (simp only: numbered_def)
  then have "vr_version ` set rows = (\<lambda>i. int i + 1) ` {0..<length rows}" by simp
  also have "\<dots> = {1..int (length rows)}"
  proof (intro equalityI subsetI)
    fix x assume "x \<in> {1..int (length rows)}"
    then show "x \<in> (\<lambda>i. int i + 1) ` {0..<length rows}" by (intro image_eqI [of _ _ "nat (x - 1)"]) auto
  qed auto
  finally show ?thesis .
qed

lemma race_step_ok: "race_config parse s s' \<Longrightarrow> race_ok s \<Longrightarrow> race_ok s'"
proof (induction rule: race_config.induct)
  case (prepare ph i patch rows c)
  then have "config_ok c" by (auto simp: merged_config_def model_validate_def split: sum.splits option.splits if_splits)
  with prepare show ?case by (auto simp: race_ok_def)
next
  case (number ph i c rows)
  then have "max_version rows = int (length rows)" by (simp add: race_ok_def numbered_versions)
  with number show ?case by (auto simp: race_ok_def)
next
  case (store ph i c n rows)
  then have "numbered rows" "1 \<le> n" "n \<le> int (length rows) + 1" "config_ok c" by (auto simp: race_ok_def)
  then have n: "n = int (length rows) + 1" "numbered (rows @ [bare_row c n])" "holds_config (bare_row c n)"
    using store(2) numbered_set [of rows] numbered_append [of rows "bare_row c n"] numbered_versions(2) [of rows]
    by (auto simp: bare_row_def holds_config_def)
  with store show ?case by (fastforce simp: race_ok_def)
qed (auto simp: race_ok_def)

text \<open>
  However updates interleave, the versions stay 1, 2, 3 and so on, every row holds a configuration inside its
  bounds, and every request that was told its version has a row of its own under that number.
\<close>

theorem racing_updates_keep_versions:
  assumes "(race_config parse)\<^sup>*\<^sup>* ([], \<lambda>i. Fresh (patches i)) (rows, ph)"
  shows "map vr_version rows = map (\<lambda>i. int i + 1) [0..<length rows] \<and>
    (\<forall>r\<in>set rows. \<exists>c. config_ok c \<and> vr_config r = dump c) \<and>
    (\<forall>i n. ph i = Stored n \<longrightarrow> (\<exists>!r. r \<in> set rows \<and> vr_version r = n)) \<and>
    (\<forall>i j n. ph i = Stored n \<and> ph j = Stored n \<longrightarrow> i = j)"
proof -
  have "race_ok ([], \<lambda>i. Fresh (patches i))" by (simp add: race_ok_def numbered_def)
  with assms have ok: "race_ok (rows, ph)" by (induction rule: rtranclp_induct) (auto intro: race_step_ok)
  then have num: "numbered rows" by (simp add: race_ok_def)
  have "distinct (map vr_version rows)" using num by (simp add: numbered_def distinct_map inj_on_def)
  then have inj: "inj_on vr_version (set rows)" by (simp add: distinct_map)
  have "\<exists>!r. r \<in> set rows \<and> vr_version r = n" if "ph i = Stored n" for i n
  proof -
    have "n \<in> vr_version ` set rows" using ok that by (auto simp: race_ok_def numbered_set)
    then show ?thesis using inj by (auto simp: inj_on_def)
  qed
  then show ?thesis using ok by (auto simp: race_ok_def numbered_def holds_config_def)
qed

text \<open>
  But an update can be lost: the second request read the configuration before the first stored its
  own and the number after, and both succeed.
\<close>

lemma update_lost:
  assumes "reads_dumps parse" and "merged_config parse [] p = Inr a" and "merged_config parse [] q = Inr b"
  shows "\<exists>rows ph. (race_config parse)\<^sup>*\<^sup>* ([], \<lambda>i. Fresh (if i = 0 then p else q)) (rows, ph) \<and>
    ph 0 = Stored 1 \<and> ph 1 = Stored 2 \<and> (\<exists>rec. get_current parse rows = Inr rec \<and> cr_config rec = b)"
proof -
  let ?ph = "\<lambda>i::nat. Fresh (if i = 0 then p else q)"
  let ?rows = "[bare_row a 1, bare_row b 2]"
  let ?s1 = "?ph(0 := Prepared a)" and ?s2 = "?ph(0 := Prepared a, 1 := Prepared b)"
  let ?s3 = "?s2(0 := Numbered a 1)" and ?s4 = "?s2(0 := Numbered a 1, 0 := Stored 1)"
  let ?s5 = "?s4(1 := Numbered b 2)" and ?s6 = "?s4(1 := Numbered b 2, 1 := Stored 2)"
  have "race_config parse ([], ?ph) ([], ?s1)" by (rule prepare [where patch = p]) (simp_all add: assms(2))
  moreover have "race_config parse ([], ?s1) ([], ?s2)" by (rule prepare [where patch = q]) (simp_all add: assms(3))
  moreover have "race_config parse ([], ?s2) ([], ?s3)" using number [of ?s2 0 a parse "[]"] by (simp add: max_version_def)
  moreover have "race_config parse ([], ?s3) ([] @ [bare_row a 1], ?s4)" by (rule store) simp_all
  moreover have "race_config parse ([] @ [bare_row a 1], ?s4) ([bare_row a 1], ?s5)"
    using number [of ?s4 1 b parse "[bare_row a 1]"] by (simp add: max_version_def bare_row_def)
  moreover have "race_config parse ([bare_row a 1], ?s5) ([bare_row a 1] @ [bare_row b 2], ?s6)"
    by (rule store) (simp_all add: bare_row_def)
  ultimately have "(race_config parse)\<^sup>*\<^sup>* ([], ?ph) ([bare_row a 1] @ [bare_row b 2], ?s6)"
    by (meson converse_rtranclp_into_rtranclp rtranclp.rtrancl_refl)
  moreover have "config_ok b"
    using assms(3) by (auto simp: merged_config_def model_validate_def split: sum.splits option.splits if_splits)
  then have "row_to_record parse (bare_row b 2) = Inr \<lparr>cr_version = 2, cr_config = b, cr_by = None, cr_comment = None\<rparr>"
    using assms(1) by (simp add: row_to_record_def bare_row_def reads_dumps_def model_validate_def)
  then have "\<exists>rec. get_current parse ?rows = Inr rec \<and> cr_config rec = b"
    by (simp add: get_current_def newest_def bare_row_def)
  ultimately show ?thesis by (intro exI [of _ ?rows] exI [of _ ?s6]) simp
qed

section \<open>Policy settings by domain\<close>

record config_param =
  cp_name :: string
  cp_namespace :: string
  cp_default :: flt
  cp_unit :: string
  cp_description :: string

text \<open>Descriptions are shortened to their ASCII start.\<close>

definition CONFIG_META :: "(string \<times> string \<times> string) list" where
  "CONFIG_META =
     [(''alpha'', ''frac_capital'', ''Daily stress-loss appetite''), (''beta_delta'', ''weight'', ''Share of the delta axis''),
      (''beta_vega'', ''weight'', ''Share of the vega axis''), (''beta_gamma'', ''weight'', ''Share of the gamma axis''),
      (''beta_cross'', ''weight'', ''Share of the cross greeks''), (''shock_spot'', ''frac_spot'', ''1-day spot stress''),
      (''shock_vol'', ''vol_pts'', ''1-day vol stress''), (''nav_hwm_floor'', ''fraction'', ''nav_base floor''),
      (''nav_halflife_days'', ''days'', ''EWMA half-life'')]"

definition greek_params :: "config_param list" where
  "greek_params = map (\<lambda>(name, d).
     (case map_of CONFIG_META name of
        None \<Rightarrow> \<lparr>cp_name = name, cp_namespace = ''greek_limits'', cp_default = d, cp_unit = [], cp_description = []\<rparr>
      | Some (u, t) \<Rightarrow> \<lparr>cp_name = name, cp_namespace = ''greek_limits'', cp_default = d, cp_unit = u, cp_description = t\<rparr>)) CONFIG_DEFAULTS"

definition knob :: "string \<Rightarrow> string \<Rightarrow> flt \<Rightarrow> string \<Rightarrow> string \<Rightarrow> config_param" where
  "knob name ns d u t = \<lparr>cp_name = name, cp_namespace = ns, cp_default = d, cp_unit = u, cp_description = t\<rparr>"

definition DOMAINS :: "(string \<times> config_param list) list" where
  "DOMAINS =
     [(''risk'', greek_params),
      (''trade'',
        [knob ''base_qty'' ''risk'' 10 ''count'' ''Base position size'',
         knob ''max_n_open_structures'' ''risk'' 8 ''count'' ''Max simultaneous open structures'',
         knob ''max_loss_per_trade_pct'' ''risk'' 2 ''pct_capital'' ''Max loss per trade (% of capital)'',
         knob ''book_vega_neutral_threshold'' ''risk'' 2000 ''usd'' ''Vega above this triggers the book penalty'',
         knob ''book_alpha'' ''risk'' (3 / 10) ''weight'' ''Book penalty exponent (0..1)'',
         knob ''max_book_vega_usd'' ''risk'' 5000 ''usd'' ''Max total book vega'',
         knob ''max_book_vega_per_tenor_usd'' ''risk'' 2000 ''usd'' ''Max vega per single tenor'',
         knob ''starting_capital_usd'' ''risk'' 100000 ''usd'' ''Bootstrap capital for the first preview'',
         knob ''min_liquidity_quoted_size'' ''risk'' 10 ''count'' ''Minimum quoted size on legs'',
         knob ''preview_validity_seconds'' ''risk'' 120 ''count'' ''Trade-preview validity (seconds)'']),
      (''signal'',
        [knob ''z_threshold_min'' ''risk'' (15 / 10) ''count'' ''Min |z| considered actionable'',
         knob ''max_z_multiplier'' ''risk'' 2 ''count'' ''Cap on the z-score sizing factor'',
         knob ''max_iv_data_age_seconds'' ''risk'' 120 ''count'' ''IV data must be fresher than this (seconds)'']),
      (''portfolio'',
        [knob ''var_lookback_days'' ''portfolio'' 504 ''days'' ''Window for the historical-VaR net-liq series'',
         knob ''var_max_gap_days'' ''portfolio'' 3 ''days'' ''Max day-gap that still counts as a 1-day P&L delta''])]"

definition param :: "string \<Rightarrow> string \<Rightarrow> config_param option" where
  "param domain name = (case map_of DOMAINS domain of None \<Rightarrow> None | Some ps \<Rightarrow> find (\<lambda>p. cp_name p = name) ps)"

text \<open>None when the value is allowed; the message names the bound. No value here is NaN.\<close>

definition validate_param :: "config_param \<Rightarrow> flt \<Rightarrow> string option" where
  "validate_param p x =
     (if cp_unit p \<in> {''weight'', ''fraction''} \<and> \<not> (0 \<le> x \<and> x \<le> 1) then Some (cp_name p @ '' must be in [0, 1]'')
      else if cp_unit p \<in> {''frac_capital'', ''frac_spot''} \<and> \<not> (0 < x \<and> x \<le> 1) then Some (cp_name p @ '' must be in (0, 1]'')
      else if cp_unit p \<in> {''pct_capital'', ''pct''} \<and> \<not> (0 \<le> x \<and> x \<le> 100) then Some (cp_name p @ '' must be in [0, 100]'')
      else if cp_unit p \<in> {''usd'', ''count'', ''vol_pts''} \<and> x < 0 then Some (cp_name p @ '' must be >= 0'')
      else if cp_unit p = ''days'' \<and> x < 1 then Some (cp_name p @ '' must be >= 1'')
      else None)"

record scalar_row =
  sr_namespace :: string
  sr_name :: string
  sr_value :: flt
  sr_unit :: "string option"
  sr_description :: "string option"
  sr_is_active :: bool
  sr_updated_by :: "string option"

record setting =
  se_param :: config_param
  se_value :: flt
  se_is_default :: bool
  se_updated_by :: "string option"

definition scalar_of :: "scalar_row list \<Rightarrow> string \<Rightarrow> string \<Rightarrow> scalar_row option" where
  "scalar_of rows ns name = find (\<lambda>r. sr_namespace r = ns \<and> sr_name r = name) rows"

definition setting_of :: "scalar_row list \<Rightarrow> config_param \<Rightarrow> setting" where
  "setting_of rows p =
     (case scalar_of rows (cp_namespace p) (cp_name p) of
        None \<Rightarrow> \<lparr>se_param = p, se_value = cp_default p, se_is_default = True, se_updated_by = None\<rparr>
      | Some r \<Rightarrow> \<lparr>se_param = p, se_value = sr_value r, se_is_default = False, se_updated_by = sr_updated_by r\<rparr>)"

definition domain_payload :: "string \<Rightarrow> scalar_row list \<Rightarrow> setting list" where
  "domain_payload domain rows = (case map_of DOMAINS domain of None \<Rightarrow> [] | Some ps \<Rightarrow> map (setting_of rows) ps)"

definition upsert_scalar :: "config_param \<Rightarrow> flt \<Rightarrow> string \<Rightarrow> scalar_row list \<Rightarrow> scalar_row list" where
  "upsert_scalar p x user rows =
     (case scalar_of rows (cp_namespace p) (cp_name p) of
        Some _ \<Rightarrow> map (\<lambda>r. if sr_namespace r = cp_namespace p \<and> sr_name r = cp_name p then r\<lparr>sr_value := x, sr_updated_by := Some user\<rparr> else r) rows
      | None \<Rightarrow> rows @ [\<lparr>sr_namespace = cp_namespace p, sr_name = cp_name p, sr_value = x, sr_unit = Some (cp_unit p),
                         sr_description = Some (cp_description p), sr_is_active = True, sr_updated_by = Some user\<rparr>])"

fun apply_settings :: "string \<Rightarrow> string \<Rightarrow> scalar_row list \<Rightarrow> (string \<times> flt) list \<Rightarrow> scalar_row list result" where
  "apply_settings domain user rows [] = Inr rows"
| "apply_settings domain user rows ((name, x) # us) =
     (case param domain name of
        None \<Rightarrow> Inl (HTTPException 422 ''unknown param'')
      | Some p \<Rightarrow>
          (case validate_param p x of
             Some err \<Rightarrow> Inl (HTTPException 422 err)
           | None \<Rightarrow> apply_settings domain user (upsert_scalar p x user rows) us))"

text \<open>A refusal leaves the session without a commit, so the table is what it was.\<close>

definition put_domain_settings ::
  "string \<Rightarrow> string \<Rightarrow> (string \<times> flt) list \<Rightarrow> scalar_row list \<Rightarrow> scalar_row list \<times> setting list result" where
  "put_domain_settings domain user updates rows =
     (if map_of DOMAINS domain = None then (rows, Inl (HTTPException 404 ''unknown settings domain''))
      else if updates = [] then (rows, Inl (HTTPException 422 ''no updates provided''))
      else (case apply_settings domain user rows updates of
              Inl e \<Rightarrow> (rows, Inl e)
            | Inr rows' \<Rightarrow> (rows', Inr (domain_payload domain rows'))))"

lemma param_name: "param domain name = Some p \<Longrightarrow> cp_name p = name"
  by (auto simp: param_def find_Some_iff split: option.splits)

lemma greek_namespace: "p \<in> set greek_params \<Longrightarrow> cp_namespace p = ''greek_limits''"
  by (auto simp: greek_params_def split: option.splits prod.splits)

lemma domain_namespace:
  "param domain name = Some p \<Longrightarrow> param domain other = Some q \<Longrightarrow> cp_namespace p = cp_namespace q"
proof -
  have one: "\<exists>ns. \<forall>p\<in>set ps. cp_namespace p = ns" if "(domain, ps) \<in> set DOMAINS" for domain ps
    using that greek_namespace by (auto simp: DOMAINS_def knob_def)
  assume "param domain name = Some p" "param domain other = Some q"
  then obtain ps where "(domain, ps) \<in> set DOMAINS" "p \<in> set ps" "q \<in> set ps"
    by (auto simp: param_def find_Some_iff dest: map_of_SomeD split: option.splits)
  then show ?thesis using one by metis
qed

lemma find_map_kept: "(\<And>r. P (f r) = P r) \<Longrightarrow> find P (map f rs) = map_option f (find P rs)"
  by (induction rs) auto

lemma find_appended: "find P (xs @ [y]) = (case find P xs of Some x \<Rightarrow> Some x | None \<Rightarrow> if P y then Some y else None)"
  by (induction xs) auto

lemma scalar_found: "scalar_of rows ns name = Some r \<Longrightarrow> sr_namespace r = ns \<and> sr_name r = name"
  by (auto simp: scalar_of_def find_Some_iff)

lemma scalar_upsert:
  "scalar_of (upsert_scalar p x user rows) ns name =
     (if ns = cp_namespace p \<and> name = cp_name p
      then Some (case scalar_of rows ns name of
                   Some r \<Rightarrow> r\<lparr>sr_value := x, sr_updated_by := Some user\<rparr>
                 | None \<Rightarrow> \<lparr>sr_namespace = ns, sr_name = name, sr_value = x, sr_unit = Some (cp_unit p),
                            sr_description = Some (cp_description p), sr_is_active = True, sr_updated_by = Some user\<rparr>)
      else scalar_of rows ns name)"
proof (cases "scalar_of rows (cp_namespace p) (cp_name p)")
  case None
  then show ?thesis by (auto simp: upsert_scalar_def scalar_of_def find_appended split: option.splits)
next
  case (Some r)
  let ?f = "\<lambda>r. if sr_namespace r = cp_namespace p \<and> sr_name r = cp_name p then r\<lparr>sr_value := x, sr_updated_by := Some user\<rparr> else r"
  have "scalar_of (upsert_scalar p x user rows) ns name = map_option ?f (scalar_of rows ns name)"
    unfolding upsert_scalar_def scalar_of_def using Some [unfolded scalar_of_def] by (simp, intro find_map_kept) auto
  then show ?thesis
    using Some scalar_found [of rows ns name] by (cases "scalar_of rows ns name") auto
qed

text \<open>
  A settings request is all or nothing: a refused one changes no row. An accepted one had every name in the
  catalogue and every value inside its unit's bounds; afterwards each named setting reads the sent value,
  stamped with the user, and every other setting of every namespace reads as before.
\<close>

theorem settings_put_exact:
  assumes "put_domain_settings domain user updates rows = (rows', res)" and "distinct (map fst updates)"
  shows "case res of
      Inl e \<Rightarrow> rows' = rows
    | Inr shown \<Rightarrow>
        (\<forall>(name, x)\<in>set updates. \<exists>p. param domain name = Some p \<and> validate_param p x = None \<and>
           se_value (setting_of rows' p) = x \<and> se_updated_by (setting_of rows' p) = Some user) \<and>
        (\<forall>q. (\<forall>(name, x)\<in>set updates. \<exists>p. param domain name = Some p \<and> (cp_namespace q, cp_name q) \<noteq> (cp_namespace p, name)) \<longrightarrow>
           setting_of rows' q = setting_of rows q) \<and>
        shown = domain_payload domain rows'"
proof (cases res)
  case (Inl e)
  then show ?thesis using assms(1) by (auto simp: put_domain_settings_def split: if_splits sum.splits)
next
  case (Inr shown)
  have run: "apply_settings domain user rows updates = Inr rows'" "shown = domain_payload domain rows'"
    using assms(1) Inr by (auto simp: put_domain_settings_def split: if_splits sum.splits)
  have "(\<forall>(name, x)\<in>set us. \<exists>p. param domain name = Some p \<and> validate_param p x = None \<and>
           (\<exists>r. scalar_of rows' (cp_namespace p) name = Some r \<and> sr_value r = x \<and> sr_updated_by r = Some user)) \<and>
        (\<forall>ns k. (\<forall>(name, x)\<in>set us. \<exists>p. param domain name = Some p \<and> (ns, k) \<noteq> (cp_namespace p, name)) \<longrightarrow>
           scalar_of rows' ns k = scalar_of rs ns k)"
    if "apply_settings domain user rs us = Inr rows'" "distinct (map fst us)" for rs us
    using that
  proof (induction us arbitrary: rs)
    case (Cons u us)
    obtain name x where u: "u = (name, x)" by fastforce
    obtain p where p: "param domain name = Some p" "validate_param p x = None"
        "apply_settings domain user (upsert_scalar p x user rs) us = Inr rows'"
      using Cons.prems(1) u by (auto split: option.splits)
    have nm: "cp_name p = name" by (rule param_name [OF p(1)])
    have dist: "distinct (map fst us)" "name \<notin> fst ` set us" using Cons.prems(2) u by auto
    note ih = Cons.IH [OF p(3) dist(1)]
    have kept: "scalar_of rows' ns k = scalar_of (upsert_scalar p x user rs) ns k"
      if "\<forall>(n, y)\<in>set us. \<exists>q. param domain n = Some q \<and> (ns, k) \<noteq> (cp_namespace q, n)" for ns k
      using ih [THEN conjunct2] that by blast
    have known: "\<exists>q. param domain n = Some q" if "(n, y) \<in> set us" for n y using ih that by blast
    have "scalar_of rows' (cp_namespace p) name = scalar_of (upsert_scalar p x user rs) (cp_namespace p) name"
    proof (rule kept, safe)
      fix n y assume "(n, y) \<in> set us"
      then show "\<exists>q. param domain n = Some q \<and> (cp_namespace p, name) \<noteq> (cp_namespace q, n)"
        using known dist(2) by force
    qed
    then have own: "\<exists>r. scalar_of rows' (cp_namespace p) name = Some r \<and> sr_value r = x \<and> sr_updated_by r = Some user"
      by (simp add: scalar_upsert nm split: option.splits)
    have other: "scalar_of rows' ns k = scalar_of rs ns k"
      if "\<forall>(n, y)\<in>set (u # us). \<exists>q. param domain n = Some q \<and> (ns, k) \<noteq> (cp_namespace q, n)" for ns k
    proof -
      have "\<not> (ns = cp_namespace p \<and> k = name)" using that p(1) by (simp add: u)
      then show ?thesis using kept [of ns k] that by (simp only: u scalar_upsert nm if_False) simp
    qed
    have all: "\<exists>p. param domain n = Some p \<and> validate_param p y = None \<and>
        (\<exists>r. scalar_of rows' (cp_namespace p) n = Some r \<and> sr_value r = y \<and> sr_updated_by r = Some user)"
      if "(n, y) \<in> set (u # us)" for n y
    proof (cases "(n, y) = (name, x)")
      case True
      then show ?thesis using own p(1,2) by simp
    next
      case False
      then have "(n, y) \<in> set us" using that u by auto
      then show ?thesis using bspec [OF ih [THEN conjunct1]] by fastforce
    qed
    show ?case
    proof (intro conjI allI impI ballI)
      fix e assume "e \<in> set (u # us)"
      then show "case e of (n, y) \<Rightarrow> \<exists>p. param domain n = Some p \<and> validate_param p y = None \<and>
        (\<exists>r. scalar_of rows' (cp_namespace p) n = Some r \<and> sr_value r = y \<and> sr_updated_by r = Some user)"
        using all [of "fst e" "snd e"] by (simp add: case_prod_beta)
    qed (rule other)
  qed simp
  note exact = this [OF run(1) assms(2)]
  have upd: "\<exists>p. param domain name = Some p \<and> validate_param p x = None \<and>
           se_value (setting_of rows' p) = x \<and> se_updated_by (setting_of rows' p) = Some user" if "(name, x) \<in> set updates" for name x
    using bspec [OF exact [THEN conjunct1] that] by (auto simp: setting_of_def param_name)
  have "\<forall>(name, x)\<in>set updates. \<exists>p. param domain name = Some p \<and> validate_param p x = None \<and>
           se_value (setting_of rows' p) = x \<and> se_updated_by (setting_of rows' p) = Some user"
  proof (rule ballI)
    fix e assume "e \<in> set updates"
    then show "case e of (name, x) \<Rightarrow> \<exists>p. param domain name = Some p \<and> validate_param p x = None \<and>
           se_value (setting_of rows' p) = x \<and> se_updated_by (setting_of rows' p) = Some user"
      using upd [of "fst e" "snd e"] by (simp add: case_prod_beta)
  qed
  moreover have "setting_of rows' q = setting_of rows q"
    if "\<forall>(name, x)\<in>set updates. \<exists>p. param domain name = Some p \<and> (cp_namespace q, cp_name q) \<noteq> (cp_namespace p, name)" for q
    using exact [THEN conjunct2, THEN spec, THEN spec, THEN mp, OF that] by (simp add: setting_of_def)
  ultimately show ?thesis using Inr run(2) by simp
qed

lemma base_qty_param: "param ''trade'' ''base_qty'' = Some (knob ''base_qty'' ''risk'' 10 ''count'' ''Base position size'')"
  by (simp add: param_def DOMAINS_def knob_def)

theorem settings_put_exact_witness:
  "\<exists>p. param ''trade'' ''base_qty'' = Some p \<and>
     se_value (setting_of (fst (put_domain_settings ''trade'' ''desk'' [(''base_qty'', 12)] [])) p) = 12"
proof -
  obtain rows' res where out: "put_domain_settings ''trade'' ''desk'' [(''base_qty'', 12)] [] = (rows', res)" by fastforce
  then have "\<exists>shown. res = Inr shown"
    by (auto simp: put_domain_settings_def base_qty_param validate_param_def knob_def DOMAINS_def)
  then show ?thesis using settings_put_exact [OF out] by (auto simp: out)
qed

end
