(* ===== verification/Regime.thy ===== *)
theory Regime
  imports Iv_Lookup
begin

text \<open>
  The market regime: the premium table and the classifier (\<open>core/vol/vrp.py\<close>), the snapshot of a
  cycle and the trading gate (\<open>core/vol/regime_engine.py\<close>) and the table of joint patterns
  (\<open>core/regime_patterns.py\<close>). A surface is the association list of \<open>Iv_Lookup\<close>.
\<close>

section \<open>Premium and classifier\<close>

definition VRP_DEFAULTS :: "(string \<times> (string \<times> flt) list) list" where
  "VRP_DEFAULTS =
     [(''calm'', [(''1M'', 6 / 10), (''2M'', 7 / 10), (''3M'', 8 / 10), (''4M'', 9 / 10), (''5M'', 1), (''6M'', 11 / 10)]),
      (''stressed'', [(''1M'', 15 / 10), (''2M'', 16 / 10), (''3M'', 18 / 10), (''4M'', 19 / 10), (''5M'', 2), (''6M'', 21 / 10)]),
      (''pre_event'', [(''1M'', 25 / 10), (''2M'', 22 / 10), (''3M'', 2), (''4M'', 19 / 10), (''5M'', 18 / 10), (''6M'', 18 / 10)])]"

definition vrp_bucket :: "string \<Rightarrow> (string \<times> flt) list" where
  "vrp_bucket regime = (case map_of VRP_DEFAULTS regime of Some b \<Rightarrow> b | None \<Rightarrow> (case map_of VRP_DEFAULTS ''calm'' of Some b \<Rightarrow> b | None \<Rightarrow> []))"

definition predict_vrp :: "string \<Rightarrow> string \<Rightarrow> flt" where
  "predict_vrp tenor regime = (case map_of (vrp_bucket regime) tenor of Some v \<Rightarrow> v | None \<Rightarrow> 8 / 10)"

definition q_measure_from_p :: "flt \<Rightarrow> string \<Rightarrow> string \<Rightarrow> flt \<times> flt" where
  "q_measure_from_p sigma_p tenor regime = (sigma_p + predict_vrp tenor regime, predict_vrp tenor regime)"

definition above :: "flt \<Rightarrow> flt option \<Rightarrow> bool" where
  "above x v = (case v of None \<Rightarrow> False | Some y \<Rightarrow> x < y)"

definition detect_regime :: "flt option \<Rightarrow> flt option \<Rightarrow> flt option \<Rightarrow> string" where
  "detect_regime level vov slope =
     (if above 10 level then ''stressed''
      else if above 1 vov then ''stressed''
      else if above (4 / 10) vov then ''pre_event''
      else ''calm'')"

section \<open>Statistics of a feature\<close>

definition avg :: "flt list \<Rightarrow> flt" where
  "avg xs = sum_list xs / real (length xs)"

definition squares :: "flt list \<Rightarrow> flt" where
  "squares xs = sum_list (map (\<lambda>x. (x - avg xs) ^ 2) xs)"

definition MIN_OBS_ZSCORE :: nat where "MIN_OBS_ZSCORE = 30"

definition compute_rolling_zscore :: "flt option \<Rightarrow> flt list \<Rightarrow> flt option" where
  "compute_rolling_zscore x hist =
     (case x of
        None \<Rightarrow> None
      | Some v \<Rightarrow>
          if length hist < MIN_OBS_ZSCORE then None
          else let sd = sqrt (squares hist / real (max (length hist - 1) 1))
               in if sd \<le> 0 then None else Some (py_round 4 ((v - avg hist) / sd)))"

definition qualify :: "flt option \<Rightarrow> string \<Rightarrow> string option" where
  "qualify z kind =
     (case z of
        None \<Rightarrow> None
      | Some v \<Rightarrow>
          if kind = ''level'' then Some (if v < -1 then ''low'' else if 1 < v then ''high'' else ''normal'')
          else Some (if v < -1 then ''inverted'' else if 1 < v then ''steep'' else ''flat''))"

definition atm_pct :: "surface \<Rightarrow> string \<Rightarrow> flt option" where
  "atm_pct surf tenor =
     (case map_of surf tenor of
        None \<Rightarrow> None
      | Some smile \<Rightarrow> (case map_of smile ''atm'' of Some (Some iv, k) \<Rightarrow> Some (py_round 4 (iv * 100)) | _ \<Rightarrow> None))"

definition rounded :: "flt option \<Rightarrow> nat \<Rightarrow> flt option" where
  "rounded x n = map_option (py_round n) x"

definition vol_of_vol :: "flt list \<Rightarrow> flt option" where
  "vol_of_vol hist = (if 20 \<le> length hist then Some (py_round 4 (sqrt (squares hist / real (length hist - 1)))) else None)"

section \<open>The snapshot\<close>

record feature_obs =
  fo_vol_level :: "flt option"
  fo_vol_of_vol :: "flt option"
  fo_term_slope :: "flt option"

record next_event =
  ne_type :: "string option"
  ne_at :: "string option"
  ne_days :: "flt option"

record feature_view =
  fv_value :: "flt option"
  fv_z :: "flt option"
  fv_qualifier :: "string option"

record regime_payload =
  pl_label :: string
  pl_method :: string
  pl_probabilities :: "(string \<times> flt) list option"
  pl_vol_level :: feature_view
  pl_vol_of_vol :: feature_view
  pl_term_slope :: feature_view
  pl_event_type :: "string option"
  pl_event_at :: "string option"
  pl_days_remaining :: "flt option"
  pl_event_dampener :: bool
  pl_vrp_expected :: "(string \<times> flt) list"

record snapshot_row =
  sn_label :: string
  sn_method :: string
  sn_vol_level_pct :: "flt option"
  sn_vol_of_vol_pct :: "flt option"
  sn_term_slope_pct :: "flt option"
  sn_vol_level_z :: "flt option"
  sn_vol_of_vol_z :: "flt option"
  sn_term_slope_z :: "flt option"
  sn_p_calm :: "flt option"
  sn_p_stressed :: "flt option"
  sn_p_pre_event :: "flt option"
  sn_event_dampener :: bool
  sn_days_to_next_event :: "flt option"
  sn_next_event_type :: "string option"

record feature_row =
  fr_iv_1m :: "flt option"
  fr_iv_3m :: "flt option"
  fr_iv_6m :: "flt option"
  fr_rv_yz :: "flt option"
  fr_vol_of_vol :: "flt option"
  fr_term_slope :: "flt option"
  fr_vol_level_z90 :: "flt option"
  fr_vol_of_vol_z90 :: "flt option"
  fr_term_slope_z90 :: "flt option"

definition EVENT_DAMPENER_DAYS :: flt where "EVENT_DAMPENER_DAYS = 5"

definition VRP_TENORS :: "string list" where
  "VRP_TENORS = [''1M'', ''2M'', ''3M'', ''4M'', ''5M'', ''6M'']"

definition term_slope :: "surface \<Rightarrow> flt option" where
  "term_slope surf = (case (atm_pct surf ''6M'', atm_pct surf ''1M'') of (Some b, Some a) \<Rightarrow> Some (b - a) | _ \<Rightarrow> None)"

definition dampened :: "next_event option \<Rightarrow> bool" where
  "dampened ev = (case ev of None \<Rightarrow> False | Some e \<Rightarrow> (case ne_days e of None \<Rightarrow> False | Some d \<Rightarrow> d < EVENT_DAMPENER_DAYS))"

definition gmm_prob :: "(string \<times> flt) list option \<Rightarrow> string \<Rightarrow> flt option" where
  "gmm_prob gmm label = (case gmm of None \<Rightarrow> None | Some ps \<Rightarrow> map_of ps label)"

text \<open>Arguments in the order of the code; the symbol and the time are left out.\<close>

definition compute_regime_snapshot ::
  "surface \<Rightarrow> flt option \<Rightarrow> flt list \<Rightarrow> feature_obs list \<Rightarrow> next_event option \<Rightarrow> (string \<Rightarrow> string \<Rightarrow> flt option) \<Rightarrow>
     (string \<times> flt) list option \<Rightarrow> regime_payload \<times> snapshot_row \<times> feature_row" where
  "compute_regime_snapshot surf rv_yz iv_3m_hist rows ev vrp_lookup gmm =
     (let level = atm_pct surf ''3M''; slope = term_slope surf; vov = vol_of_vol iv_3m_hist;
          z_level = compute_rolling_zscore level (List.map_filter fo_vol_level rows);
          z_vov = compute_rolling_zscore vov (List.map_filter fo_vol_of_vol rows);
          z_slope = compute_rolling_zscore slope (List.map_filter fo_term_slope rows);
          label = detect_regime level vov slope; method = ''threshold_heuristic'';
          days = Option.bind ev ne_days; kind = Option.bind ev ne_type; damp = dampened ev
      in (\<lparr>pl_label = label, pl_method = method, pl_probabilities = None,
           pl_vol_level = \<lparr>fv_value = rounded level 2, fv_z = z_level, fv_qualifier = qualify z_level ''level''\<rparr>,
           pl_vol_of_vol = \<lparr>fv_value = rounded vov 2, fv_z = z_vov, fv_qualifier = qualify z_vov ''level''\<rparr>,
           pl_term_slope = \<lparr>fv_value = rounded slope 2, fv_z = z_slope, fv_qualifier = qualify z_slope ''slope''\<rparr>,
           pl_event_type = kind, pl_event_at = Option.bind ev ne_at, pl_days_remaining = rounded days 2, pl_event_dampener = damp,
           pl_vrp_expected = List.map_filter (\<lambda>t. map_option (\<lambda>v. (t, v)) (vrp_lookup label t)) VRP_TENORS\<rparr>,
          \<lparr>sn_label = label, sn_method = method, sn_vol_level_pct = level, sn_vol_of_vol_pct = vov, sn_term_slope_pct = slope,
           sn_vol_level_z = z_level, sn_vol_of_vol_z = z_vov, sn_term_slope_z = z_slope,
           sn_p_calm = gmm_prob gmm ''calm'', sn_p_stressed = gmm_prob gmm ''stressed'', sn_p_pre_event = gmm_prob gmm ''pre_event'',
           sn_event_dampener = damp, sn_days_to_next_event = days, sn_next_event_type = kind\<rparr>,
          \<lparr>fr_iv_1m = atm_pct surf ''1M'', fr_iv_3m = level, fr_iv_6m = atm_pct surf ''6M'', fr_rv_yz = rv_yz,
           fr_vol_of_vol = vov, fr_term_slope = slope, fr_vol_level_z90 = z_level, fr_vol_of_vol_z90 = z_vov, fr_term_slope_z90 = z_slope\<rparr>))"

section \<open>The gate\<close>

record gate =
  ga_authorized :: bool
  ga_reason :: string
  ga_size_mult :: flt

definition STABILITY_CYCLES :: nat where "STABILITY_CYCLES = 3"

definition gate_decision :: "string \<Rightarrow> bool \<Rightarrow> string list \<Rightarrow> gate" where
  "gate_decision label dampener history_labels =
     (let recent = take STABILITY_CYCLES history_labels in
      if length recent < STABILITY_CYCLES \<or> (\<exists>x\<in>set recent. x \<noteq> label)
      then \<lparr>ga_authorized = False, ga_reason = ''regime_unstable'', ga_size_mult = 0\<rparr>
      else if dampener then \<lparr>ga_authorized = True, ga_reason = ''event_dampener_active'', ga_size_mult = 5 / 10\<rparr>
      else if label = ''pre_event'' then \<lparr>ga_authorized = False, ga_reason = ''regime_pre_event'', ga_size_mult = 0\<rparr>
      else if label = ''stressed'' then \<lparr>ga_authorized = True, ga_reason = ''regime_stressed'', ga_size_mult = 7 / 10\<rparr>
      else if label = ''calm'' then \<lparr>ga_authorized = True, ga_reason = ''regime_calm'', ga_size_mult = 1\<rparr>
      else \<lparr>ga_authorized = False, ga_reason = ''regime_unknown:'' @ label, ga_size_mult = 0\<rparr>)"



text \<open>A near event opens the gate in the very regime that is blocked without it.\<close>

lemma dampener_reopens_pre_event:
  "\<not> ga_authorized (gate_decision ''pre_event'' False [''pre_event'', ''pre_event'', ''pre_event'']) \<and>
   ga_authorized (gate_decision ''pre_event'' True [''pre_event'', ''pre_event'', ''pre_event''])"
  by (simp add: gate_decision_def STABILITY_CYCLES_def)

section \<open>What a snapshot says\<close>

lemma avg_affine: "hist \<noteq> [] \<Longrightarrow> avg (map (\<lambda>x. a * x + b) hist) = a * avg hist + b"
  by (simp add: avg_def sum_list_addf sum_list_const_mult sum_list_triv add_divide_distrib)

lemma squares_affine: "squares (map (\<lambda>x. a * x + b) hist) = a ^ 2 * squares hist"
proof (cases "hist = []")
  case False
  have "(a * x + b - (a * avg hist + b)) ^ 2 = a ^ 2 * (x - avg hist) ^ 2" for x by (simp add: algebra_simps power2_eq_square)
  then show ?thesis
    using False by (simp add: squares_def avg_affine comp_def sum_list_const_mult)
qed (simp add: squares_def)

text \<open>
  The z-score does not depend on the unit or the origin of the feature: rescaling the value and
  its history alike by a positive factor and an offset leaves it unchanged, also whether there is one.
\<close>

theorem zscore_unit_free:
  assumes "0 < a"
  shows "compute_rolling_zscore (Some (a * v + b)) (map (\<lambda>x. a * x + b) hist) = compute_rolling_zscore (Some v) hist"
proof (cases "length hist < MIN_OBS_ZSCORE")
  case False
  then have ne: "hist \<noteq> []" by (auto simp: MIN_OBS_ZSCORE_def)
  have sd: "sqrt (a ^ 2 * squares hist / n) = a * sqrt (squares hist / n)" for n
    using assms by (simp add: real_sqrt_mult real_sqrt_divide)
  show ?thesis
  proof (cases "sqrt (squares hist / real (max (length hist - 1) 1)) \<le> 0")
    case True
    then show ?thesis using False assms
      by (simp add: compute_rolling_zscore_def Let_def squares_affine sd mult_le_0_iff del: real_sqrt_le_0_iff)
  next
    case pos: False
    have "(a * v + b - (a * avg hist + b)) / (a * s) = (v - avg hist) / s" for s
      using assms by (simp add: right_diff_distrib [symmetric])
    then show ?thesis using False pos assms ne
      by (simp add: compute_rolling_zscore_def Let_def squares_affine sd avg_affine mult_le_0_iff del: real_sqrt_le_0_iff)
  qed
qed (simp add: compute_rolling_zscore_def)

theorem zscore_unit_free_witness:
  "compute_rolling_zscore (Some (100 * (1 / 2) + 0)) (map (\<lambda>x. 100 * x + 0) [1, 2, 3]) = compute_rolling_zscore (Some (1 / 2)) [1, 2, 3]"
  by (rule zscore_unit_free) simp

text \<open>
  The payload, the stored row and the feature row of a cycle tell one story: one label, the classifier's;
  the same z-scores; the stored values, rounded to two digits in the payload; the same event and
  dampener; the probabilities only in the row. With the default table the expected premium has all six tenors.
\<close>

theorem snapshot_consistent:
  assumes "compute_regime_snapshot surf rv iv_hist rows ev vrp gmm = (pl, sn, fr)"
  shows "pl_label pl = sn_label sn \<and> sn_label sn = detect_regime (sn_vol_level_pct sn) (sn_vol_of_vol_pct sn) (sn_term_slope_pct sn) \<and>
    sn_label sn \<in> {''calm'', ''stressed'', ''pre_event''} \<and>
    fv_z (pl_vol_level pl) = sn_vol_level_z sn \<and> fv_z (pl_vol_of_vol pl) = sn_vol_of_vol_z sn \<and> fv_z (pl_term_slope pl) = sn_term_slope_z sn \<and>
    fv_value (pl_vol_level pl) = map_option (py_round 2) (sn_vol_level_pct sn) \<and>
    fv_value (pl_vol_of_vol pl) = map_option (py_round 2) (sn_vol_of_vol_pct sn) \<and>
    fv_value (pl_term_slope pl) = map_option (py_round 2) (sn_term_slope_pct sn) \<and>
    fr_iv_3m fr = sn_vol_level_pct sn \<and> fr_vol_of_vol fr = sn_vol_of_vol_pct sn \<and> fr_term_slope fr = sn_term_slope_pct sn \<and>
    pl_event_dampener pl = sn_event_dampener sn \<and>
    (sn_event_dampener sn \<longleftrightarrow> (\<exists>d. sn_days_to_next_event sn = Some d \<and> d < 5)) \<and>
    pl_probabilities pl = None \<and>
    (\<forall>t v. (t, v) \<in> set (pl_vrp_expected pl) \<longrightarrow> vrp (sn_label sn) t = Some v) \<and>
    (vrp = (\<lambda>r t. Option.bind (map_of VRP_DEFAULTS r) (\<lambda>b. map_of b t)) \<longrightarrow>
       map fst (pl_vrp_expected pl) = VRP_TENORS \<and> (\<forall>t v. (t, v) \<in> set (pl_vrp_expected pl) \<longrightarrow> v = predict_vrp t (sn_label sn)))"
proof -
  let ?level = "atm_pct surf ''3M''" and ?slope = "term_slope surf" and ?vov = "vol_of_vol iv_hist"
  let ?label = "detect_regime ?level ?vov ?slope"
  let ?exp = "List.map_filter (\<lambda>t. map_option (\<lambda>v. (t, v)) (vrp ?label t)) VRP_TENORS"
  have pl: "pl_label pl = ?label" "pl_event_dampener pl = dampened ev" "pl_probabilities pl = None" "pl_vrp_expected pl = ?exp"
      "fv_value (pl_vol_level pl) = rounded ?level 2" "fv_value (pl_vol_of_vol pl) = rounded ?vov 2"
      "fv_value (pl_term_slope pl) = rounded ?slope 2"
      "fv_z (pl_vol_level pl) = sn_vol_level_z sn" "fv_z (pl_vol_of_vol pl) = sn_vol_of_vol_z sn" "fv_z (pl_term_slope pl) = sn_term_slope_z sn"
    and sn: "sn_label sn = ?label" "sn_vol_level_pct sn = ?level" "sn_vol_of_vol_pct sn = ?vov" "sn_term_slope_pct sn = ?slope"
      "sn_event_dampener sn = dampened ev" "sn_days_to_next_event sn = Option.bind ev ne_days"
    and fr: "fr_iv_3m fr = ?level" "fr_vol_of_vol fr = ?vov" "fr_term_slope fr = ?slope"
    using assms by (auto simp: compute_regime_snapshot_def Let_def)
  have labels: "?label \<in> {''calm'', ''stressed'', ''pre_event''}" by (simp add: detect_regime_def)
  have damp: "dampened ev \<longleftrightarrow> (\<exists>d. Option.bind ev ne_days = Some d \<and> d < 5)"
    by (auto simp: dampened_def EVENT_DAMPENER_DAYS_def split: option.splits)
  have exp: "vrp ?label t = Some v" if "(t, v) \<in> set ?exp" for t v
    using that by (auto simp: List.map_filter_def)
  have full: "map fst ?exp = VRP_TENORS \<and> (\<forall>t v. (t, v) \<in> set ?exp \<longrightarrow> v = predict_vrp t ?label)"
    if v: "vrp = (\<lambda>r t. Option.bind (map_of VRP_DEFAULTS r) (\<lambda>b. map_of b t))"
    using labels unfolding v
    by (elim insertE emptyE)
      (auto simp: List.map_filter_simps VRP_TENORS_def VRP_DEFAULTS_def predict_vrp_def vrp_bucket_def)
  show ?thesis unfolding pl sn fr rounded_def using labels damp exp full by blast
qed

section \<open>Joint patterns\<close>

record regime_pattern =
  rp_pattern :: string
  rp_regime_id :: int
  rp_regime_name :: string
  rp_family :: string
  rp_action_default :: string
  rp_asymmetry_note :: string
  rp_intensity_count :: nat

type_synonym base_entry = "(string \<times> string \<times> string) \<times> int \<times> string \<times> string \<times> string \<times> string"

definition BASE_PATTERNS :: "base_entry list" where
  "BASE_PATTERNS =
     [((''-'', ''0'', ''+''), 1, ''sleep_deep_steep_contango'', ''A_low_vol'', ''monitor_complacency'', ''long_short_dated_vol_carry_negative''),
      ((''-'', ''0'', ''0''), 2, ''calm_baseline'', ''A_low_vol'', ''no_action'', ''no_signal''),
      ((''-'', ''+'', ''0''), 3, ''stable_level_agitated'', ''A_low_vol'', ''long_vega_long_vomma'', ''precursor_breakout''),
      ((''-'', ''0'', ''-''), 4, ''flat_slope_low_level'', ''A_low_vol'', ''calendar_spread_event_play'', ''event_driven_local''),
      ((''-'', ''+'', ''-''), 5, ''flat_slope_agitated'', ''A_low_vol'', ''event_play_high_uncertainty'', ''volga_exposure''),
      ((''0'', ''0'', ''0''), 6, ''pure_noise_baseline'', ''B_normal_vol'', ''no_action_vol_driven'', ''depend_on_other_signals''),
      ((''0'', ''+'', ''0''), 7, ''hidden_volatility'', ''B_normal_vol'', ''relative_value_vol_spreads'', ''dispersion_between_tenors''),
      ((''0'', ''0'', ''+''), 8, ''steep_slope_normal_level'', ''B_normal_vol'', ''calendar_spread_long_short'', ''convex_decay_with_event''),
      ((''0'', ''0'', ''-''), 9, ''incipient_local_stress'', ''B_normal_vol'', ''size_reduce_monitor'', ''transition_to_stressed''),
      ((''0'', ''+'', ''+''), 10, ''cross_product_divergence'', ''B_normal_vol'', ''short_short_long_long_hedged_gamma'', ''terminal_cycle_repricing''),
      ((''+'', ''0'', ''0''), 11, ''elevated_calm'', ''C_high_vol'', ''structural_hot_regime'', ''new_setpoint_no_divergence''),
      ((''+'', ''+'', ''0''), 12, ''active_stress_normal_slope'', ''C_high_vol'', ''reduced_sizing'', ''resolution_phase_unstable''),
      ((''+'', ''+'', ''-''), 13, ''full_stress'', ''C_high_vol'', ''no_directional_vol_focus_microstructure'', ''active_crisis''),
      ((''+'', ''0'', ''-''), 14, ''elevated_calm_inverted_curve'', ''C_high_vol'', ''convergence_trade_patient'', ''exit_of_stress''),
      ((''+'', ''+'', ''+''), 15, ''stressed_contango_persists'', ''C_high_vol'', ''observation_only'', ''pre_crisis_signature'')]"

definition expansion :: "string \<Rightarrow> string list" where
  "expansion b = (if b = ''-'' then [''--'', ''-''] else if b = ''0'' then [''0''] else if b = ''+'' then [''+'', ''++''] else [])"

definition joint :: "string \<Rightarrow> string \<Rightarrow> string \<Rightarrow> string" where
  "joint bl bv bs = ''('' @ bl @ '','' @ bv @ '','' @ bs @ '')''"

definition extreme :: "string \<Rightarrow> bool" where
  "extreme b = (b = ''++'' \<or> b = ''--'')"

definition enriched :: "base_entry \<Rightarrow> string \<times> string \<times> string \<Rightarrow> regime_pattern" where
  "enriched e b =
     (case (e, b) of ((_, rid, name, family, action, hint), (bl, bv, bs)) \<Rightarrow>
        \<lparr>rp_pattern = joint bl bv bs, rp_regime_id = rid, rp_regime_name = name, rp_family = family, rp_action_default = action,
         rp_asymmetry_note = hint, rp_intensity_count = length (filter extreme [bl, bv, bs])\<rparr>)"

definition unmapped_extreme :: regime_pattern where
  "unmapped_extreme = \<lparr>rp_pattern = ''unmapped_extreme'', rp_regime_id = 99, rp_regime_name = ''unmapped_extreme'', rp_family = ''Z_fallback'',
     rp_action_default = ''observation_only_log_for_review'', rp_asymmetry_note = ''tail_combination_unseen_in_15_base_regimes'',
     rp_intensity_count = 0\<rparr>"

definition expanded :: "base_entry \<Rightarrow> (string \<times> string \<times> string) list" where
  "expanded e = (case e of ((l, v, s), _) \<Rightarrow> concat (map (\<lambda>bl. concat (map (\<lambda>bv. map (\<lambda>bs. (bl, bv, bs)) (expansion s)) (expansion v))) (expansion l)))"

definition add_pattern :: "base_entry \<Rightarrow> (string \<times> regime_pattern) list \<Rightarrow> string \<times> string \<times> string \<Rightarrow> (string \<times> regime_pattern) list" where
  "add_pattern e out b =
     (let k = (case b of (bl, bv, bs) \<Rightarrow> joint bl bv bs) in if map_of out k \<noteq> None then out else out @ [(k, enriched e b)])"

definition build_pattern_dict :: "(string \<times> regime_pattern) list" where
  "build_pattern_dict =
     foldl (\<lambda>out e. foldl (add_pattern e) out (expanded e)) [] BASE_PATTERNS @ [(''unmapped_extreme'', unmapped_extreme)]"

definition lookup_regime :: "string \<Rightarrow> regime_pattern" where
  "lookup_regime pattern = (case map_of build_pattern_dict pattern of Some r \<Rightarrow> r | None \<Rightarrow> unmapped_extreme)"

definition ALL_BUCKETS :: "string list" where "ALL_BUCKETS = [''--'', ''-'', ''0'', ''+'', ''++'']"

text \<open>The bucket without its intensity.\<close>

definition collapse :: "string \<Rightarrow> string" where
  "collapse b = (if b = ''--'' then ''-'' else if b = ''++'' then ''+'' else b)"

definition regime_of :: "string \<Rightarrow> string \<Rightarrow> string \<Rightarrow> regime_pattern" where
  "regime_of bl bv bs =
     (case find (\<lambda>e. fst e = (collapse bl, collapse bv, collapse bs)) BASE_PATTERNS of
        None \<Rightarrow> unmapped_extreme
      | Some e \<Rightarrow> enriched e (bl, bv, bs))"

lemma patterns_of_entry:
  "map_of (foldl (add_pattern e) out bs) k =
     (case map_of out k of Some r \<Rightarrow> Some r | None \<Rightarrow> map_of (map (\<lambda>b. (case b of (x, y, z) \<Rightarrow> joint x y z, enriched e b)) bs) k)"
proof (induction bs arbitrary: out)
  case (Cons b bs)
  show ?case using Cons [of "add_pattern e out b"]
    by (auto simp: add_pattern_def Let_def map_add_Some_iff split: option.splits prod.splits if_splits)
qed (simp split: option.split)

definition entry_patterns :: "base_entry \<Rightarrow> (string \<times> regime_pattern) list" where
  "entry_patterns e = map (\<lambda>b. (case b of (x, y, z) \<Rightarrow> joint x y z, enriched e b)) (expanded e)"

lemma patterns_of_entries:
  "map_of (foldl (\<lambda>out e. foldl (add_pattern e) out (expanded e)) out es) k =
     (case map_of out k of Some r \<Rightarrow> Some r | None \<Rightarrow> map_of (concat (map entry_patterns es)) k)"
proof (induction es arbitrary: out)
  case (Cons e es)
  show ?case using Cons [of "foldl (add_pattern e) out (expanded e)"]
    by (auto simp: patterns_of_entry entry_patterns_def [of e] map_add_def split: option.splits)
qed (simp split: option.split)

lemma lookup_flat:
  "lookup_regime k = (case map_of (concat (map entry_patterns BASE_PATTERNS)) k of Some r \<Rightarrow> r | None \<Rightarrow> unmapped_extreme)"
  using patterns_of_entries [of "[]" BASE_PATTERNS k]
  by (auto simp: lookup_regime_def build_pattern_dict_def map_add_def split: option.splits)

lemma bucket_no_comma: "b \<in> set ALL_BUCKETS \<Longrightarrow> CHR '','' \<notin> set b \<and> CHR '')'' \<notin> set b"
  by (auto simp: ALL_BUCKETS_def)

lemma split_at_mark: "c \<notin> set xs \<Longrightarrow> c \<notin> set ys \<Longrightarrow> xs @ c # r = ys @ c # r' \<longleftrightarrow> xs = ys \<and> r = r'"
proof (induction xs arbitrary: ys)
  case Nil
  then show ?case by (cases ys) auto
next
  case (Cons x xs)
  then show ?case by (cases ys) auto
qed

lemma joint_inj:
  assumes "set [bl, bv, bs, bl', bv', bs'] \<subseteq> set ALL_BUCKETS"
  shows "joint bl bv bs = joint bl' bv' bs' \<longleftrightarrow> (bl, bv, bs) = (bl', bv', bs')"
  using assms bucket_no_comma by (simp add: joint_def split_at_mark)

lemma expansion_iff:
  "b \<in> set ALL_BUCKETS \<Longrightarrow> s \<in> {''-'', ''0'', ''+''} \<Longrightarrow> b \<in> set (expansion s) \<longleftrightarrow> collapse b = s"
  by (auto simp: ALL_BUCKETS_def expansion_def collapse_def)

lemma expansion_buckets: "set (expansion s) \<subseteq> set ALL_BUCKETS"
  by (auto simp: expansion_def ALL_BUCKETS_def)

lemma expanded_iff: "(bl, bv, bs) \<in> set (expanded e) \<longleftrightarrow>
    (case e of ((l, v, s), _) \<Rightarrow> bl \<in> set (expansion l) \<and> bv \<in> set (expansion v) \<and> bs \<in> set (expansion s))"
  by (auto simp: expanded_def split: prod.splits)

lemma map_of_keyed: "inj_on J (insert x (set xs)) \<Longrightarrow> map_of (map (\<lambda>b. (J b, g b)) xs) (J x) = (if x \<in> set xs then Some (g x) else None)"
  by (induction xs) (auto simp: inj_on_def)

lemma entry_lookup:
  assumes "set [bl, bv, bs] \<subseteq> set ALL_BUCKETS" and "e \<in> set BASE_PATTERNS"
  shows "map_of (entry_patterns e) (joint bl bv bs) =
    (if fst e = (collapse bl, collapse bv, collapse bs) then Some (enriched e (bl, bv, bs)) else None)"
proof -
  obtain l v s x where e: "e = ((l, v, s), x)" by (metis surj_pair)
  have base: "{l, v, s} \<subseteq> {''-'', ''0'', ''+''}" using assms(2) by (auto simp: e BASE_PATTERNS_def)
  let ?J = "\<lambda>b. case b of (x, y, z) \<Rightarrow> joint x y z"
  have "inj_on ?J (insert (bl, bv, bs) (set (expanded e)))"
  proof (rule inj_onI)
    fix x y
    assume mem: "x \<in> insert (bl, bv, bs) (set (expanded e))" "y \<in> insert (bl, bv, bs) (set (expanded e))" and eq: "?J x = ?J y"
    obtain a b c a' b' c' where xy: "x = (a, b, c)" "y = (a', b', c')" by (metis surj_pair)
    have "set [a, b, c, a', b', c'] \<subseteq> set ALL_BUCKETS"
      using mem assms(1) expansion_buckets by (auto simp: expanded_iff e xy)
    then show "x = y" using eq by (simp add: joint_inj xy)
  qed
  from map_of_keyed [OF this, of "enriched e"]
  have "map_of (entry_patterns e) (joint bl bv bs) = (if (bl, bv, bs) \<in> set (expanded e) then Some (enriched e (bl, bv, bs)) else None)"
    by (simp add: entry_patterns_def)
  moreover have "(bl, bv, bs) \<in> set (expanded e) \<longleftrightarrow> fst e = (collapse bl, collapse bv, collapse bs)"
    using assms(1) base by (auto simp: expanded_iff e expansion_iff)
  ultimately show ?thesis by simp
qed

text \<open>
  The table of joint patterns, expanded to five buckets per feature, answers for every combination what the
  fifteen base regimes say of its signs: the regime of the pattern without intensities, with the number of
  extreme buckets counted, and the fallback exactly when no base regime has those signs.
\<close>

theorem pattern_is_base_regime:
  assumes "set [bl, bv, bs] \<subseteq> set ALL_BUCKETS"
  shows "lookup_regime (joint bl bv bs) = regime_of bl bv bs"
proof -
  have "map_of (concat (map entry_patterns es)) (joint bl bv bs) =
      map_option (\<lambda>e. enriched e (bl, bv, bs)) (find (\<lambda>e. fst e = (collapse bl, collapse bv, collapse bs)) es)"
    if "set es \<subseteq> set BASE_PATTERNS" for es
    using that
  proof (induction es)
    case (Cons e es)
    then show ?case using entry_lookup [OF assms, of e] by (simp add: map_add_def split: option.split)
  qed simp
  then show ?thesis by (simp add: lookup_flat regime_of_def split: option.split)
qed

theorem pattern_is_base_regime_witness: "rp_regime_name (lookup_regime (joint ''++'' ''+'' ''--'')) = ''full_stress''"
proof -
  have same: "lookup_regime (joint ''++'' ''+'' ''--'') = regime_of ''++'' ''+'' ''--''"
    by (rule pattern_is_base_regime) (simp add: ALL_BUCKETS_def)
  have name: "rp_regime_name (regime_of ''++'' ''+'' ''--'') = ''full_stress''" by code_simp
  show ?thesis unfolding same by (rule name)
qed

text \<open>A volatility of volatility on the low side maps to the fallback for extremes although no bucket is extreme.\<close>

lemma mild_pattern_unmapped: "rp_regime_id (regime_of ''0'' ''-'' ''0'') = 99 \<and> \<not> extreme ''0'' \<and> \<not> extreme ''-''"
  by code_simp

end
