(* ===== verification/Regime_Features.thy ===== *)
theory Regime_Features
  imports Regime Portfolio_Stats
begin

text \<open>
  The feature table of the regime panel: the enrichment of a feature
  (\<open>core/vol/feature_enrichment.py\<close>, stamped by \<open>feature_enrichment_stamp.py\<close>), the payload with its
  baseline and synthesis (\<open>api/orchestration/regime_features.py\<close>) and the regime routes
  (\<open>api/routers/regime.py\<close>). The quantile of numpy is \<open>percentile\<close> of \<open>Portfolio_Stats\<close>.
\<close>

section \<open>Enrichment\<close>

definition bucket_normal_fallback :: "flt \<Rightarrow> string" where
  "bucket_normal_fallback z =
     (if z \<le> -2 then ''--'' else if z \<le> -1 then ''-'' else if z < 1 then ''0'' else if z < 2 then ''+'' else ''++'')"

definition quantile :: "flt list \<Rightarrow> flt \<Rightarrow> flt" where
  "quantile xs q = (case percentile (sort xs) q of None \<Rightarrow> 0 | Some v \<Rightarrow> v)"

definition bucket :: "flt \<Rightarrow> flt list \<Rightarrow> string" where
  "bucket z hist =
     (if length hist < 10 then bucket_normal_fallback z
      else if z \<le> quantile hist (25 / 1000) then ''--''
      else if z \<le> quantile hist (16 / 100) then ''-''
      else if z < quantile hist (84 / 100) then ''0''
      else if z < quantile hist (975 / 1000) then ''+''
      else ''++'')"

text \<open>Both lists have the same length where it is called.\<close>

definition delta_z_1h :: "flt list \<Rightarrow> flt list \<Rightarrow> flt option result" where
  "delta_z_1h minutes zs =
     (if length minutes \<noteq> length zs then Inl (ValueError ''same length'')
      else if length zs < 12 then Inr None
      else let t = map (\<lambda>m. m / 60) minutes;
               tc = map (\<lambda>x. x - avg t) t;
               denom = sum_list (map (\<lambda>x. x * x) tc)
           in if denom < 1 / 10 ^ 12 then Inr None
              else Inr (Some (sum_list (map (\<lambda>(x, y). x * (y - avg zs)) (zip tc zs)) / denom)))"

definition pct :: "flt \<Rightarrow> flt list \<Rightarrow> int option" where
  "pct x hist =
     (if hist = [] then None
      else let strict = length (filter (\<lambda>v. v < x) hist); weak = length (filter (\<lambda>v. v \<le> x) hist);
               rank = real (strict + weak) / 2
           in Some (round_half_even (100 * rank / real (length hist))))"

definition signal :: "flt \<Rightarrow> int option \<Rightarrow> string" where
  "signal z p =
     (if \<bar>z\<bar> < 1 then ''noise''
      else if \<bar>z\<bar> < 15 / 10 then ''weak''
      else if \<bar>z\<bar> < 25 / 10 \<and> (case p of None \<Rightarrow> False | Some v \<Rightarrow> 1 < v \<and> v < 99) then ''strong''
      else ''tail'')"

datatype feature = Vol_level | Vol_of_vol | Term_slope

definition FEATURES :: "feature list" where "FEATURES = [Vol_level, Vol_of_vol, Term_slope]"

definition delta_sign :: "feature \<Rightarrow> flt" where
  "delta_sign f = (if f = Term_slope then -1 else 1)"

definition DELTA_THRESHOLD :: flt where "DELTA_THRESHOLD = 30 / 100"

definition interpret_delta :: "feature \<Rightarrow> flt \<Rightarrow> string" where
  "interpret_delta f delta =
     (let eff = delta_sign f * delta in
      if DELTA_THRESHOLD < eff then ''underpriced'' else if eff < - DELTA_THRESHOLD then ''overpriced'' else ''aligned'')"

section \<open>Stored snapshots\<close>

record stamps =
  st_bucket :: "string option"
  st_pct :: "int option"
  st_signal :: "string option"
  st_delta :: "flt option"

record stored =
  so_time :: time
  so_value :: "feature \<Rightarrow> flt option"
  so_z :: "feature \<Rightarrow> flt option"
  so_stamps :: "feature \<Rightarrow> stamps"
  so_label :: string
  so_dampener :: bool
  so_days :: "flt option"
  so_event :: "string option"
  so_p_calm :: "flt option"
  so_p_stressed :: "flt option"
  so_p_pre_event :: "flt option"

definition slope_of :: "(time \<times> flt) list \<Rightarrow> flt option" where
  "slope_of pts =
     (if length pts < 12 then None
      else (case delta_z_1h (map (\<lambda>(t, z). (t - fst (hd pts)) / 60) pts) (map snd pts) of Inl e \<Rightarrow> None | Inr s \<Rightarrow> s))"

text \<open>The stamp of one feature on the row of the cycle; \<open>now\<close> is given, as the engine does.\<close>

definition stamp_feature :: "time \<Rightarrow> flt option \<Rightarrow> flt option \<Rightarrow> flt list \<Rightarrow> flt list \<Rightarrow> (time \<times> flt) list \<Rightarrow> stamps" where
  "stamp_feature now z v z_hist v_hist recent =
     (let p = Option.bind v (\<lambda>x. pct x v_hist) in
      \<lparr>st_bucket = map_option (\<lambda>x. bucket x z_hist) z, st_pct = p, st_signal = map_option (\<lambda>x. signal x p) z,
       st_delta = (if z = None \<or> recent = [] then None else slope_of (filter (\<lambda>(t, y). now - 60 * 60 \<le> t) recent))\<rparr>)"

section \<open>Baseline\<close>

definition trunc :: "flt \<Rightarrow> int" where
  "trunc x = (if 0 \<le> x then \<lfloor>x\<rfloor> else \<lceil>x\<rceil>)"

definition DAYS_BUCKETS :: "(int \<times> int \<times> int) list" where
  "DAYS_BUCKETS = [(0, 1, 0), (2, 3, 1), (4, 5, 2), (6, 10, 3)]"

definition days_bucket :: "flt option \<Rightarrow> int" where
  "days_bucket d =
     (case d of
        None \<Rightarrow> 4
      | Some x \<Rightarrow> (case find (\<lambda>(lo, hi, i). lo \<le> trunc x \<and> trunc x \<le> hi) DAYS_BUCKETS of None \<Rightarrow> 4 | Some (lo, hi, i) \<Rightarrow> i))"

definition tod_bucket :: "time \<Rightarrow> string" where
  "tod_bucket t =
     (let h = \<lfloor>t / 3600\<rfloor> mod 24 in
      if 7 \<le> h \<and> h < 12 then ''london_open'' else if 12 \<le> h \<and> h < 16 then ''overlap''
      else if 16 \<le> h \<and> h < 22 then ''ny_close'' else ''asia'')"

definition event_key :: "string option \<Rightarrow> string" where
  "event_key e = (case e of None \<Rightarrow> ''none'' | Some s \<Rightarrow> if s = [] then ''none'' else py_upper s)"

record baseline =
  ba_mu :: flt
  ba_sigma :: flt
  ba_n_obs :: nat
  ba_status :: string
  ba_context :: "string \<times> int \<times> string"
  ba_relaxation :: string

definition context_of :: "stored \<Rightarrow> string \<times> int \<times> string" where
  "context_of r = (event_key (so_event r), days_bucket (so_days r), tod_bucket (so_time r))"

definition same_event :: "stored \<Rightarrow> stored \<Rightarrow> bool" where
  "same_event a b = (event_key (so_event a) = event_key (so_event b))"
definition same_days :: "stored \<Rightarrow> stored \<Rightarrow> bool" where
  "same_days a b = (days_bucket (so_days a) = days_bucket (so_days b))"
definition same_tod :: "stored \<Rightarrow> stored \<Rightarrow> bool" where
  "same_tod a b = (tod_bucket (so_time a) = tod_bucket (so_time b))"

definition z_values :: "(stored \<Rightarrow> bool) \<Rightarrow> feature \<Rightarrow> stored list \<Rightarrow> flt list" where
  "z_values keep f hist = List.map_filter (\<lambda>r. so_z r f) (filter keep hist)"

definition levels :: "stored \<Rightarrow> (string \<times> (stored \<Rightarrow> bool)) list" where
  "levels latest =
     [(''exact'', \<lambda>r. same_event r latest \<and> same_days r latest \<and> same_tod r latest),
      (''event_days'', \<lambda>r. same_event r latest \<and> same_days r latest),
      (''event'', \<lambda>r. same_event r latest),
      (''unconditional'', \<lambda>r. True)]"

definition MIN_OBS_VALID :: nat where "MIN_OBS_VALID = 20"

definition baseline_at :: "stored \<Rightarrow> string \<Rightarrow> flt list \<Rightarrow> baseline" where
  "baseline_at latest name zs =
     (let n = length zs; var = (if 1 < n then squares zs / real n else 0) in
      \<lparr>ba_mu = avg zs, ba_sigma = sqrt var, ba_n_obs = n, ba_status = (if MIN_OBS_VALID \<le> n then ''valid'' else ''approx''),
       ba_context = context_of latest, ba_relaxation = name\<rparr>)"

fun try_levels :: "feature \<Rightarrow> stored \<Rightarrow> stored list \<Rightarrow> (string \<times> (stored \<Rightarrow> bool)) list \<Rightarrow> baseline" where
  "try_levels f latest hist [] =
     \<lparr>ba_mu = 0, ba_sigma = 1, ba_n_obs = 0, ba_status = ''approx'', ba_context = context_of latest, ba_relaxation = ''cold_start''\<rparr>"
| "try_levels f latest hist ((name, keep) # rest) =
     (let zs = z_values keep f hist in
      if length zs = 0 then try_levels f latest hist rest
      else if MIN_OBS_VALID \<le> length zs \<or> name = ''unconditional'' then baseline_at latest name zs
      else try_levels f latest hist rest)"

definition lookup_baseline :: "feature \<Rightarrow> stored \<Rightarrow> stored list \<Rightarrow> baseline" where
  "lookup_baseline f latest hist = try_levels f latest hist (levels latest)"

section \<open>The payload\<close>

record table_row =
  tr_name :: feature
  tr_value :: "flt option"
  tr_z :: "flt option"
  tr_bucket :: "string option"
  tr_delta :: "flt option"
  tr_pct :: "int option"
  tr_signal :: "string option"
  tr_expected :: baseline
  tr_vs_expected :: "string option"

definition first_of :: "'x option \<Rightarrow> 'x option \<Rightarrow> 'x option" where
  "first_of a b = (case a of None \<Rightarrow> b | Some x \<Rightarrow> a)"

definition live_delta :: "feature \<Rightarrow> stored \<Rightarrow> stored list \<Rightarrow> flt option" where
  "live_delta f latest hist =
     slope_of (map (\<lambda>r. (so_time r, flt_or0 (so_z r f))) (filter (\<lambda>r. so_time latest - 60 * 60 \<le> so_time r) hist))"

definition build_feature_row :: "stored \<Rightarrow> stored list \<Rightarrow> feature \<Rightarrow> table_row" where
  "build_feature_row latest hist f =
     (let v = so_value latest f; z = so_z latest f; s = so_stamps latest f;
          bk = first_of (st_bucket s) (map_option (\<lambda>x. bucket x (z_values (\<lambda>r. True) f hist)) z);
          p = first_of (st_pct s) (Option.bind v (\<lambda>x. pct x (List.map_filter (\<lambda>r. so_value r f) hist)));
          sig = first_of (st_signal s) (map_option (\<lambda>x. signal x p) z);
          dz = first_of (st_delta s) (Option.bind z (\<lambda>x. live_delta f latest hist));
          ex = lookup_baseline f latest hist
      in \<lparr>tr_name = f, tr_value = rounded v 2, tr_z = rounded z 2, tr_bucket = bk, tr_delta = rounded dz 2, tr_pct = p, tr_signal = sig,
          tr_expected = ex, tr_vs_expected = map_option (\<lambda>x. interpret_delta f (x - ba_mu ex)) z\<rparr>)"

text \<open>The regime of the synthesis, with the keys the code gives it.\<close>

datatype field = Text string | Number int

definition regime_payload_of :: "string \<Rightarrow> (string \<times> field) list" where
  "regime_payload_of pattern =
     (let r = lookup_regime pattern in
      [(''id'', Number (rp_regime_id r)), (''name'', Text (rp_regime_name r)), (''family'', Text (rp_family r)),
       (''action_default'', Text (rp_action_default r)), (''asymmetry_note'', Text (rp_asymmetry_note r)),
       (''intensity_count'', Number (int (rp_intensity_count r)))])"

definition CRITICAL_PATTERNS :: "string list" where
  "CRITICAL_PATTERNS = [''(++,++,--)'', ''(++,++,-)'', ''(--,++,++)'']"

text \<open>The sign of the product is written x.\<close>

definition build_action :: "string option \<Rightarrow> (string \<times> field) list option \<Rightarrow> string option \<Rightarrow> string option \<Rightarrow> bool \<Rightarrow> string" where
  "build_action pattern regime dominant_signal vs_expected damp =
     (let base = (if damp then ''size x 0.5'' else ''size x 1.0'');
          modifier =
            (if vs_expected = Some ''underpriced'' \<and> dominant_signal = Some ''strong'' then ''asymmetric calendar''
             else if dominant_signal = Some ''tail'' then ''alert''
             else if (case pattern of None \<Rightarrow> False | Some p \<Rightarrow> p \<in> set CRITICAL_PATTERNS) then ''stop''
             else if (case regime of None \<Rightarrow> False | Some r \<Rightarrow> map_of r ''regime_name'' = Some (Text ''unmapped_extreme'')) then ''alert''
             else ''monitor'')
      in base @ '' + '' @ modifier)"

record synthesis =
  sy_joint_pattern :: "string option"
  sy_regime :: "(string \<times> field) list option"
  sy_dominant :: "feature option"
  sy_vs_expected :: "(feature \<times> flt \<times> string) option"
  sy_action :: string

text \<open>\<open>max(d, key=d.get)\<close>: the first of the largest.\<close>

fun first_max :: "('k \<times> flt) list \<Rightarrow> ('k \<times> flt) option" where
  "first_max [] = None"
| "first_max (kv # rest) = (case first_max rest of None \<Rightarrow> Some kv | Some b \<Rightarrow> if snd kv < snd b then Some b else Some kv)"

definition row_named :: "table_row list \<Rightarrow> feature \<Rightarrow> table_row option" where
  "row_named rows f = find (\<lambda>r. tr_name r = f) rows"

definition filled :: "string option \<Rightarrow> bool" where
  "filled s = (case s of None \<Rightarrow> False | Some x \<Rightarrow> x \<noteq> [])"

definition build_synthesis :: "table_row list \<Rightarrow> stored \<Rightarrow> synthesis" where
  "build_synthesis rows latest =
     (let bk = (\<lambda>f. Option.bind (row_named rows f) tr_bucket);
          pattern = (if filled (bk Vol_level) \<and> filled (bk Vol_of_vol) \<and> filled (bk Term_slope)
                     then Some (joint (str_or (bk Vol_level)) (str_or (bk Vol_of_vol)) (str_or (bk Term_slope))) else None);
          regime = map_option regime_payload_of pattern;
          dominant = map_option fst (first_max (List.map_filter (\<lambda>r. map_option (\<lambda>z. (tr_name r, \<bar>z\<bar>)) (tr_z r)) rows));
          vs = Option.bind dominant (\<lambda>f. Option.bind (row_named rows f) (\<lambda>r. map_option
                 (\<lambda>z. let delta = z - ba_mu (tr_expected r) in (f, py_round 2 delta, interpret_delta f delta)) (tr_z r)))
      in \<lparr>sy_joint_pattern = pattern, sy_regime = regime, sy_dominant = dominant, sy_vs_expected = vs,
          sy_action = build_action pattern regime (Option.bind dominant (\<lambda>f. Option.bind (row_named rows f) tr_signal))
            (map_option (\<lambda>(f, d, l). l) vs) (so_dampener latest)\<rparr>)"

text \<open>The newest snapshot and the ninety days up to it; \<open>snaps\<close> are the symbol's, oldest first.\<close>

definition build_features_payload :: "stored list \<Rightarrow> (table_row list \<times> synthesis) option" where
  "build_features_payload snaps =
     (if snaps = [] then None
      else let latest = last snaps;
               hist = filter (\<lambda>r. so_time latest - 90 * 86400 \<le> so_time r \<and> so_time r \<le> so_time latest) snaps;
               rows = map (build_feature_row latest hist) FEATURES
           in Some (rows, build_synthesis rows latest))"

section \<open>Routes\<close>

record state_view =
  sv_label :: string
  sv_dampener :: bool
  sv_gate :: gate
  sv_probabilities :: "(string \<times> flt) list option"

definition probabilities :: "stored \<Rightarrow> (string \<times> flt) list option" where
  "probabilities r =
     (case (so_p_calm r, so_p_stressed r, so_p_pre_event r) of
        (Some a, Some b, Some c) \<Rightarrow> Some [(''calm'', a), (''stressed'', b), (''pre_event'', c)]
      | _ \<Rightarrow> None)"

text \<open>\<open>order_by(desc(timestamp)).limit(n)\<close> of the symbol's rows, oldest first.\<close>

definition newest_first :: "nat \<Rightarrow> stored list \<Rightarrow> stored list" where
  "newest_first n snaps = take n (rev snaps)"

definition regime_state :: "stored list \<Rightarrow> state_view result" where
  "regime_state snaps =
     (case newest_first 3 snaps of
        [] \<Rightarrow> Inl (HTTPException 404 ''no regime snapshots'')
      | latest # older \<Rightarrow>
          Inr \<lparr>sv_label = so_label latest, sv_dampener = so_dampener latest,
               sv_gate = gate_decision (so_label latest) (so_dampener latest) (map so_label (latest # older)),
               sv_probabilities = probabilities latest\<rparr>)"

record event_row =
  ev_type :: string
  ev_impact :: string
  ev_region :: string
  ev_at :: time

definition fetch_next :: "time \<Rightarrow> (event_row \<Rightarrow> bool) \<Rightarrow> event_row list \<Rightarrow> (event_row \<times> flt) option" where
  "fetch_next now P evs =
     (case sort_key ev_at (filter (\<lambda>e. now < ev_at e \<and> P e) evs) of [] \<Rightarrow> None | e # es \<Rightarrow> Some (e, py_round 4 ((ev_at e - now) / 86400)))"

definition fetch_next_events :: "time \<Rightarrow> event_row list \<Rightarrow> (event_row \<times> flt) option \<times> (event_row \<times> flt) option" where
  "fetch_next_events now evs = (fetch_next now (\<lambda>e. True) evs, fetch_next now (\<lambda>e. ev_impact e = ''high'') evs)"

text \<open>The days of the report are day numbers; a count is kept per day and per pair of labels.\<close>

fun bump :: "'k \<Rightarrow> ('k \<times> nat) list \<Rightarrow> ('k \<times> nat) list" where
  "bump k [] = [(k, 1)]"
| "bump k ((j, n) # rest) = (if j = k then (j, n + 1) # rest else (j, n) # bump k rest)"

record flip_count =
  fc_by_day :: "((int \<times> string \<times> string) \<times> nat) list"
  fc_total :: nat
  fc_calm_pre_event :: nat
  fc_prev :: "string option"

definition count_flip :: "flip_count \<Rightarrow> time \<times> string \<Rightarrow> flip_count" where
  "count_flip c r =
     (case r of (t, label) \<Rightarrow>
        (case fc_prev c of
           None \<Rightarrow> c\<lparr>fc_prev := Some label\<rparr>
         | Some prev \<Rightarrow>
             if prev \<noteq> label
             then c\<lparr>fc_by_day := bump (\<lfloor>t / 86400\<rfloor>, prev, label) (fc_by_day c), fc_total := fc_total c + 1,
                    fc_calm_pre_event := fc_calm_pre_event c + (if {prev, label} = {''calm'', ''pre_event''} then 1 else 0),
                    fc_prev := Some label\<rparr>
             else c\<lparr>fc_prev := Some label\<rparr>))"

record transitions_view =
  tv_n_snapshots :: nat
  tv_counts :: flip_count
  tv_per_day :: flt
  tv_warning :: bool

definition transitions :: "time \<Rightarrow> nat \<Rightarrow> stored list \<Rightarrow> transitions_view" where
  "transitions now days snaps =
     (let rows = map (\<lambda>r. (so_time r, so_label r)) (filter (\<lambda>r. now - real days * 86400 < so_time r) snaps);
          c = foldl count_flip \<lparr>fc_by_day = [], fc_total = 0, fc_calm_pre_event = 0, fc_prev = None\<rparr> rows;
          per_day = real (fc_calm_pre_event c) / real (max days 1)
      in \<lparr>tv_n_snapshots = length rows, tv_counts = c, tv_per_day = py_round 2 per_day, tv_warning = (5 < per_day)\<rparr>)"

record shadow_view =
  sw_n_total :: nat
  sw_n_with_gmm :: nat
  sw_agreement :: "flt option"
  sw_by_label :: "((string \<times> string) \<times> nat) list"
  sw_ready :: bool

definition gmm_argmax :: "stored \<Rightarrow> string option" where
  "gmm_argmax r = Option.bind (probabilities r) (\<lambda>ps. map_option fst (first_max ps))"

definition gmm_shadow :: "nat \<Rightarrow> stored list \<Rightarrow> shadow_view" where
  "gmm_shadow n snaps =
     (let rows = newest_first n snaps;
          pairs = List.map_filter (\<lambda>r. map_option (\<lambda>g. (so_label r, g)) (gmm_argmax r)) rows;
          agree = length (filter (\<lambda>(l, g). g = l) pairs);
          ratio = real agree / real (length pairs)
      in if pairs = [] then \<lparr>sw_n_total = length rows, sw_n_with_gmm = 0, sw_agreement = None, sw_by_label = [], sw_ready = False\<rparr>
         else \<lparr>sw_n_total = length rows, sw_n_with_gmm = length pairs, sw_agreement = Some (py_round 4 ratio),
               sw_by_label = foldl (\<lambda>m k. bump k m) [] pairs, sw_ready = (1000 \<le> length pairs \<and> 70 / 100 \<le> ratio)\<rparr>)"

section \<open>What the enrichment promises\<close>

definition bucket_rank :: "string \<Rightarrow> nat" where
  "bucket_rank b = length (takeWhile (\<lambda>x. x \<noteq> b) ALL_BUCKETS)"

lemma bucket_ranks: "bucket_rank ''--'' = 0" "bucket_rank ''-'' = 1" "bucket_rank ''0'' = 2" "bucket_rank ''+'' = 3" "bucket_rank ''++'' = 4"
  by (simp_all add: bucket_rank_def ALL_BUCKETS_def)

text \<open>
  Bucketing keeps the order: against one history a larger z-score never falls in a lower bucket,
  with the empirical cut-offs and with the fallback, and the answer is always one of the five buckets.
\<close>

theorem bucket_keeps_order:
  assumes "z \<le> z'"
  shows "bucket_rank (bucket z hist) \<le> bucket_rank (bucket z' hist) \<and> bucket z hist \<in> set ALL_BUCKETS"
proof (cases "length hist < 10")
  case True
  then show ?thesis using assms by (simp add: bucket_def bucket_normal_fallback_def bucket_ranks ALL_BUCKETS_def)
next
  case False
  define a b c d where "a = quantile hist (25 / 1000)" and "b = quantile hist (16 / 100)"
    and "c = quantile hist (84 / 100)" and "d = quantile hist (975 / 1000)"
  have "bucket x hist = (if x \<le> a then ''--'' else if x \<le> b then ''-'' else if x < c then ''0'' else if x < d then ''+'' else ''++'')" for x
    using False by (simp add: bucket_def a_def b_def c_def d_def)
  then show ?thesis using assms by (auto simp: bucket_ranks ALL_BUCKETS_def)
qed

theorem bucket_keeps_order_witness: "bucket_rank (bucket 0 []) \<le> bucket_rank (bucket 3 [])"
  using bucket_keeps_order [of 0 3 "[]"] by simp

text \<open>The percentile is between 0 and 100 and grows with the value.\<close>

lemma count_mono: "(\<And>v. P v \<Longrightarrow> Q v) \<Longrightarrow> length (filter P xs) \<le> length (filter Q xs)"
  by (induction xs) auto

theorem percentile_bounds:
  assumes "x \<le> y" and "pct x hist = Some p" and "pct y hist = Some q"
  shows "0 \<le> p \<and> p \<le> q \<and> q \<le> 100"
proof -
  have ne: "hist \<noteq> []" using assms(2) by (auto simp: pct_def split: if_splits)
  define rank where "rank v = real (length (filter (\<lambda>u. u < v) hist) + length (filter (\<lambda>u. u \<le> v) hist)) / 2" for v
  have p: "p = round_half_even (100 * rank x / real (length hist))" and q: "q = round_half_even (100 * rank y / real (length hist))"
    using assms(2,3) by (auto simp: pct_def rank_def Let_def split: if_splits)
  have "length (filter (\<lambda>u. u < x) hist) \<le> length (filter (\<lambda>u. u < y) hist)"
    "length (filter (\<lambda>u. u \<le> x) hist) \<le> length (filter (\<lambda>u. u \<le> y) hist)" using assms(1) by (auto intro: count_mono)
  then have "rank x \<le> rank y" by (simp add: rank_def)
  moreover have "rank y \<le> real (length hist)"
  proof -
    have "real (length (filter (\<lambda>u. u < y) hist)) + real (length (filter (\<lambda>u. u \<le> y) hist)) \<le> real (length hist) + real (length hist)"
      by (rule add_mono) simp_all
    then show ?thesis unfolding rank_def of_nat_add by simp
  qed
  moreover have "0 \<le> rank x" by (simp add: rank_def)
  ultimately have "0 \<le> 100 * rank x / real (length hist)" "100 * rank x / real (length hist) \<le> 100 * rank y / real (length hist)"
      "100 * rank y / real (length hist) \<le> 100"
    using ne by (simp_all add: divide_right_mono pos_divide_le_eq)
  then show ?thesis
    using round_half_even_mono [of 0 "100 * rank x / real (length hist)"] round_half_even_mono [of "100 * rank y / real (length hist)" 100]
      round_half_even_mono [of "100 * rank x / real (length hist)" "100 * rank y / real (length hist)"]
      round_half_even_of_int [of 100]
    by (simp add: p q)
qed

theorem percentile_bounds_witness: "0 \<le> the (pct 1 [1, 2, 3]) \<and> the (pct 1 [1, 2, 3]) \<le> the (pct 2 [1, 2, 3]) \<and> the (pct 2 [1, 2, 3]) \<le> 100"
  using percentile_bounds [of 1 2 "[1, 2, 3]" "the (pct 1 [1, 2, 3])" "the (pct 2 [1, 2, 3])"] by (simp add: pct_def Let_def)

text \<open>
  The slope is exact on a line: for a z-score that moves by \<open>b\<close> per hour it answers \<open>b\<close>, whatever the
  spacing of the points, from twelve points on that do not coincide.
\<close>

lemma sum_list_zip_map: "sum_list (map (\<lambda>(x, y). g x y) (zip (map f xs) (map h xs))) = sum_list (map (\<lambda>x. g (f x) (h x)) xs)"
  by (induction xs) auto

theorem slope_exact_on_line:
  assumes "12 \<le> length minutes" and "1 / 10 ^ 12 \<le> squares (map (\<lambda>m. m / 60) minutes)"
  shows "delta_z_1h minutes (map (\<lambda>m. a + b * (m / 60)) minutes) = Inr (Some b)"
proof -
  let ?t = "map (\<lambda>m. m / 60) minutes"
  have ne: "minutes \<noteq> []" using assms(1) by auto
  have zs: "map (\<lambda>m. a + b * (m / 60)) minutes = map (\<lambda>x. b * x + a) ?t" by (simp add: add.commute)
  have denom: "sum_list (map (\<lambda>x. x * x) (map (\<lambda>x. x - avg ?t) ?t)) = squares ?t"
    by (simp add: squares_def comp_def power2_eq_square)
  have "sum_list (map (\<lambda>(x, y). x * (y - avg (map (\<lambda>x. b * x + a) ?t))) (zip (map (\<lambda>x. x - avg ?t) ?t) (map (\<lambda>x. b * x + a) ?t))) =
      sum_list (map (\<lambda>x. (x - avg ?t) * (b * x + a - (b * avg ?t + a))) ?t)"
    using ne by (subst avg_affine, simp, subst sum_list_zip_map, simp)
  also have "\<dots> = sum_list (map (\<lambda>x. b * (x - avg ?t) ^ 2) ?t)"
    by (rule arg_cong [where f = sum_list], rule map_cong [OF HOL.refl]) (simp add: algebra_simps power2_eq_square)
  also have "\<dots> = b * squares ?t" 
    using sum_list_const_mult [of b "\<lambda>x. (x - avg ?t) ^ 2" ?t] by (simp only: squares_def)
  finally have num: "sum_list (map (\<lambda>(x, y). x * (y - avg (map (\<lambda>x. b * x + a) ?t)))
      (zip (map (\<lambda>x. x - avg ?t) ?t) (map (\<lambda>x. b * x + a) ?t))) = b * squares ?t" .
  have "squares ?t \<noteq> 0" using assms(2) by (smt (verit) zero_less_power divide_pos_pos zero_less_one zero_less_numeral)
  then show ?thesis using assms unfolding zs delta_z_1h_def Let_def num denom by simp
qed

theorem slope_exact_on_line_witness:
  "delta_z_1h (map (\<lambda>i. 60 * real i) [0..<12]) (map (\<lambda>m. 1 + 2 * (m / 60)) (map (\<lambda>i. 60 * real i) [0..<12])) = Inr (Some 2)"
  by (rule slope_exact_on_line) (simp_all add: squares_def avg_def upt_rec power2_eq_square)

section \<open>The baseline\<close>

lemma squares_nonneg: "0 \<le> squares xs"
  by (auto simp: squares_def intro!: sum_list_nonneg)

lemma try_levels_cases:
  "(\<exists>name keep. (name, keep) \<in> set ls \<and> z_values keep f hist \<noteq> [] \<and> try_levels f latest hist ls = baseline_at latest name (z_values keep f hist)) \<or>
   (ba_relaxation (try_levels f latest hist ls) = ''cold_start'' \<and> ba_n_obs (try_levels f latest hist ls) = 0 \<and>
    ba_status (try_levels f latest hist ls) = ''approx'' \<and> ba_sigma (try_levels f latest hist ls) = 1)"
proof (induction ls)
  case (Cons l ls)
  then show ?case by (cases l) (auto simp: Let_def)
qed simp

text \<open>
  A feature always has a baseline: it is the mean and spread of the observations of one context level, it is
  called valid exactly from twenty observations on, the most specific level with twenty wins, and only
  when the history has no z-score at all is it the cold start.
\<close>

theorem baseline_always_there:
  assumes "b = lookup_baseline f latest hist"
  shows "0 \<le> ba_sigma b \<and> (ba_status b = ''valid'' \<longleftrightarrow> 20 \<le> ba_n_obs b) \<and> ba_context b = context_of latest \<and>
    (ba_relaxation b = ''cold_start'' \<longleftrightarrow> z_values (\<lambda>r. True) f hist = []) \<and>
    (\<forall>name keep. (name, keep) \<in> set (levels latest) \<and> ba_relaxation b = name \<longrightarrow>
       ba_n_obs b = length (z_values keep f hist) \<and> ba_mu b = avg (z_values keep f hist)) \<and>
    (20 \<le> length (z_values (\<lambda>r. same_event r latest \<and> same_days r latest \<and> same_tod r latest) f hist) \<longrightarrow> ba_relaxation b = ''exact'')"
proof -
  let ?ex = "z_values (\<lambda>r. same_event r latest \<and> same_days r latest \<and> same_tod r latest) f hist"
  let ?ed = "z_values (\<lambda>r. same_event r latest \<and> same_days r latest) f hist"
  let ?ev = "z_values (\<lambda>r. same_event r latest) f hist"
  let ?un = "z_values (\<lambda>r. True) f hist"
  have b: "b = (if ?ex \<noteq> [] \<and> 20 \<le> length ?ex then baseline_at latest ''exact'' ?ex
      else if ?ed \<noteq> [] \<and> 20 \<le> length ?ed then baseline_at latest ''event_days'' ?ed
      else if ?ev \<noteq> [] \<and> 20 \<le> length ?ev then baseline_at latest ''event'' ?ev
      else if ?un \<noteq> [] then baseline_at latest ''unconditional'' ?un
      else try_levels f latest hist [])"
    unfolding assms lookup_baseline_def levels_def by (simp add: MIN_OBS_VALID_def Let_def)
  have at: "0 \<le> ba_sigma (baseline_at latest name zs)" "ba_status (baseline_at latest name zs) = ''valid'' \<longleftrightarrow> 20 \<le> ba_n_obs (baseline_at latest name zs)"
      "ba_context (baseline_at latest name zs) = context_of latest" "ba_relaxation (baseline_at latest name zs) = name"
      "ba_n_obs (baseline_at latest name zs) = length zs" "ba_mu (baseline_at latest name zs) = avg zs" for name zs
    by (simp_all add: baseline_at_def Let_def MIN_OBS_VALID_def squares_nonneg)
  have sub: "?un = [] \<Longrightarrow> z_values keep f hist = []" for keep
    by (auto simp: z_values_def List.map_filter_def filter_empty_conv)
  consider (exact) "?ex \<noteq> []" "20 \<le> length ?ex" "b = baseline_at latest ''exact'' ?ex"
    | (event_days) "\<not> (20 \<le> length ?ex)" "?ed \<noteq> []" "b = baseline_at latest ''event_days'' ?ed"
    | (event) "\<not> (20 \<le> length ?ex)" "?ev \<noteq> []" "b = baseline_at latest ''event'' ?ev"
    | (all) "\<not> (20 \<le> length ?ex)" "?un \<noteq> []" "b = baseline_at latest ''unconditional'' ?un"
    | (cold) "\<not> (20 \<le> length ?ex)" "?un = []" "b = try_levels f latest hist []"
    using b by (smt (verit) list.size(3) not_numeral_le_zero)
  then show ?thesis
    by cases (auto simp: at levels_def dest: sub)
qed

section \<open>The routes\<close>

text \<open>The label changes between neighbouring rows.\<close>

fun changes_of :: "string option \<Rightarrow> (time \<times> string) list \<Rightarrow> (int \<times> string \<times> string) list" where
  "changes_of prev [] = []"
| "changes_of None ((t, l) # rest) = changes_of (Some l) rest"
| "changes_of (Some p) ((t, l) # rest) = (if p \<noteq> l then (\<lfloor>t / 86400\<rfloor>, p, l) # changes_of (Some l) rest else changes_of (Some l) rest)"

lemma bump_counts: "distinct (map fst m) \<Longrightarrow> map_of (bump k m) j = (if j = k then Some (case map_of m k of None \<Rightarrow> 1 | Some n \<Rightarrow> n + 1) else map_of m j)"
proof (induction m)
  case (Cons e m)
  obtain i n where "e = (i, n)" by fastforce
  then show ?case using Cons by (cases "i = k"; cases "j = i") simp_all
qed simp

lemma bump_keys: "fst ` set (bump k m) = insert k (fst ` set m)"
proof (induction m)
  case (Cons e m)
  obtain j n where "e = (j, n)" by fastforce
  then show ?case using Cons by (cases "j = k") (simp_all add: insert_commute)
qed simp

lemma bump_distinct: "distinct (map fst m) \<Longrightarrow> distinct (map fst (bump k m))"
proof (induction m)
  case (Cons e m)
  obtain j n where "e = (j, n)" by fastforce
  then show ?case using Cons by (cases "j = k") (simp_all add: bump_keys)
qed simp

lemma counted_run:
  assumes "distinct (map fst m)"
  shows "distinct (map fst (foldl (\<lambda>m k. bump k m) m ks)) \<and>
    map_of (foldl (\<lambda>m k. bump k m) m ks) j =
      (if j \<in> set ks then Some ((case map_of m j of None \<Rightarrow> 0 | Some n \<Rightarrow> n) + count_list ks j) else map_of m j)"
  using assms
proof (induction ks arbitrary: m)
  case (Cons k ks)
  show ?case using Cons.IH [OF bump_distinct [OF Cons.prems, of k]]
    by (auto simp: bump_counts [OF Cons.prems] split: option.splits)
qed simp

lemma flips_run:
  "foldl count_flip c rows =
     (let ch = changes_of (fc_prev c) rows in
      c\<lparr>fc_by_day := foldl (\<lambda>m k. bump k m) (fc_by_day c) ch, fc_total := fc_total c + length ch,
        fc_calm_pre_event := fc_calm_pre_event c + length (filter (\<lambda>(d, a, b). {a, b} = {''calm'', ''pre_event''}) ch),
        fc_prev := (if rows = [] then fc_prev c else Some (snd (last rows)))\<rparr>)"
proof (induction rows arbitrary: c)
  case (Cons r rows)
  obtain t l where r: "r = (t, l)" by fastforce
  note ih = Cons [of "count_flip c r"]
  show ?case
  proof (cases "fc_prev c")
    case None
    then have step: "count_flip c r = c\<lparr>fc_prev := Some l\<rparr>" by (simp add: r count_flip_def)
    show ?thesis using ih unfolding step by (simp add: r None step [unfolded r] Let_def)
  next
    case (Some p)
    show ?thesis
    proof (cases "p = l")
      case True
      then have step: "count_flip c r = c\<lparr>fc_prev := Some l\<rparr>" using Some by (simp add: r count_flip_def)
      show ?thesis using ih unfolding step by (simp add: r Some True step [unfolded r] Let_def)
    next
      case False
      then have step: "count_flip c r = c\<lparr>fc_by_day := bump (\<lfloor>t / 86400\<rfloor>, p, l) (fc_by_day c), fc_total := fc_total c + 1,
          fc_calm_pre_event := fc_calm_pre_event c + (if {p, l} = {''calm'', ''pre_event''} then 1 else 0), fc_prev := Some l\<rparr>"
        using Some by (simp add: r count_flip_def)
      show ?thesis using ih unfolding step by (simp add: r Some False step [unfolded r] Let_def)
    qed
  qed
qed simp

text \<open>
  The transition report counts every label change of the window once: the total is the number of neighbours that
  differ, the entry of a day and a pair of labels is how often that pair changed on that day, and the
  warning comes on above five flips between calm and pre-event a day, of which there are no more than changes.
\<close>

theorem transitions_counted_once:
  assumes "v = transitions now days snaps"
    and "ch = changes_of None (map (\<lambda>r. (so_time r, so_label r)) (filter (\<lambda>r. now - real days * 86400 < so_time r) snaps))"
  shows "fc_total (tv_counts v) = length ch \<and> distinct (map fst (fc_by_day (tv_counts v))) \<and>
    (\<forall>k. map_of (fc_by_day (tv_counts v)) k = (if k \<in> set ch then Some (count_list ch k) else None)) \<and>
    fc_calm_pre_event (tv_counts v) \<le> fc_total (tv_counts v) \<and>
    (tv_warning v \<longleftrightarrow> 5 * max days 1 < fc_calm_pre_event (tv_counts v))"
proof -
  have c: "fc_by_day (tv_counts v) = foldl (\<lambda>m k. bump k m) [] ch" "fc_total (tv_counts v) = length ch"
      "fc_calm_pre_event (tv_counts v) = length (filter (\<lambda>(d, a, b). {a, b} = {''calm'', ''pre_event''}) ch)"
    unfolding assms transitions_def Let_def flips_run by simp_all
  have "tv_warning v \<longleftrightarrow> 5 < real (fc_calm_pre_event (tv_counts v)) / real (max days 1)"
    by (simp add: assms(1) transitions_def Let_def)
  also have "\<dots> \<longleftrightarrow> 5 * real (max days 1) < real (fc_calm_pre_event (tv_counts v))" by (simp add: less_divide_eq)
  also have "\<dots> \<longleftrightarrow> 5 * max days 1 < fc_calm_pre_event (tv_counts v)"
    unfolding of_nat_less_iff [symmetric, where 'a = real] of_nat_mult by simp
  finally have warn: "tv_warning v \<longleftrightarrow> 5 * max days 1 < fc_calm_pre_event (tv_counts v)" .
  show ?thesis
    unfolding warn unfolding c using counted_run [of "[]" ch] by simp
qed

text \<open>With the default window of 500 snapshots the shadow model can never be ready: the gate asks for 1000.\<close>

lemma default_window_never_ready: "n < 1000 \<Longrightarrow> \<not> sw_ready (gmm_shadow n snaps)"
proof -
  assume "n < 1000"
  have "length (List.map_filter g xs) \<le> length xs" for g :: "stored \<Rightarrow> (string \<times> string) option" and xs
    by (induction xs) (auto simp: List.map_filter_simps split: option.splits)
  then have "length (List.map_filter (\<lambda>r. map_option (\<lambda>g. (so_label r, g)) (gmm_argmax r)) (newest_first n snaps)) \<le> length (newest_first n snaps)"
    by blast
  also have "\<dots> \<le> n" by (simp add: newest_first_def)
  finally have "length (List.map_filter (\<lambda>r. map_option (\<lambda>g. (so_label r, g)) (gmm_argmax r)) (newest_first n snaps)) \<le> n" .
  then show ?thesis using \<open>n < 1000\<close> by (simp add: gmm_shadow_def Let_def)
qed

text \<open>
  The branch for unmapped extremes is dead: the payload has the regime's name under \<open>name\<close>, the decision
  looks for \<open>regime_name\<close>.
\<close>

lemma unmapped_alert_dead: "build_action pattern (Some (regime_payload_of q)) sig vs damp = build_action pattern None sig vs damp"
  by (simp add: build_action_def regime_payload_of_def Let_def)

text \<open>The state of the panel authorises nothing before the third snapshot.\<close>

lemma young_desk_blocked: "length snaps < 3 \<Longrightarrow> regime_state snaps = Inr v \<Longrightarrow> \<not> ga_authorized (sv_gate v)"
  by (auto simp: regime_state_def newest_first_def gate_decision_def STABILITY_CYCLES_def Let_def split: list.splits)

text \<open>
  The stamp leaves a missing z-score out of the hour, the live computation of the same column puts 0 in its
  place: twelve equal scores after a missing one are flat for the first and rising for the second.
\<close>

lemma missing_score_bends_the_slope:
  "slope_of (map (\<lambda>i. (300 * real i, 1)) [1..<13]) = Some 0"
  "slope_of (map (\<lambda>i. (300 * real i, if i = 0 then 0 else 1)) [0..<13]) \<noteq> Some 0"
  by (simp_all add: slope_of_def delta_z_1h_def avg_def Let_def upt_rec)

end
