(* ===== verification/Signals.thy ===== *)
theory Signals
  imports Regime Tables Py_Text
begin

text \<open>
  The factor signals: the rules of \<open>core/vol/pca_engine.py\<close>, the projection of a cycle
  (\<open>engines/vol/engine.py\<close>, \<open>_compute_pca_signals\<close>) and the state and refit routes
  (\<open>api/routers/signals.py\<close>). Vectors and matrices are lists; the singular value decomposition of
  numpy is the parameter \<open>svd\<close>: singular values, largest first, and right singular vectors.
\<close>

type_synonym vec = "flt list"
type_synonym matrix = "vec list"

section \<open>Rules of the factor model\<close>

definition TENORS :: "string list" where "TENORS = [''1M'', ''2M'', ''3M'', ''4M'', ''5M'', ''6M'']"
definition DELTAS :: "string list" where "DELTAS = [''10dp'', ''25dp'', ''atm'', ''25dc'', ''10dc'']"
definition N_FEATURES :: nat where "N_FEATURES = length TENORS * length DELTAS"

definition MIN_VARIANCE_EXPLAINED :: "(nat \<times> flt) list" where
  "MIN_VARIANCE_EXPLAINED = [(1, 60 / 100), (2, 15 / 100), (3, 5 / 100)]"
definition WEAK :: flt where "WEAK = 1"
definition MODERATE :: flt where "MODERATE = 15 / 10"
definition STRONG :: flt where "STRONG = 2"
definition EXTREME :: flt where "EXTREME = 3"
definition MIN_N_OBS_HARD :: int where "MIN_N_OBS_HARD = 30"
definition MIN_CUMULATIVE_VARIANCE :: flt where "MIN_CUMULATIVE_VARIANCE = 85 / 100"

definition iv_pct_at :: "surface \<Rightarrow> string \<times> string \<Rightarrow> flt option" where
  "iv_pct_at surf td =
     (case map_of surf (fst td) of
        None \<Rightarrow> None
      | Some smile \<Rightarrow> (case map_of smile (snd td) of Some (Some iv, k) \<Rightarrow> Some (iv * 100) | _ \<Rightarrow> None))"

definition grid :: "(string \<times> string) list" where
  "grid = concat (map (\<lambda>t. map (\<lambda>d. (t, d)) DELTAS) TENORS)"

definition all_some :: "'x option list \<Rightarrow> 'x list option" where
  "all_some xs = (if None \<in> set xs then None else Some (map the xs))"

definition feature_vector_from_surface :: "surface \<Rightarrow> vec option" where
  "feature_vector_from_surface surf = all_some (map (iv_pct_at surf) grid)"

definition dot :: "vec \<Rightarrow> vec \<Rightarrow> flt" where
  "dot a b = sum_list (map (\<lambda>(x, y). x * y) (zip a b))"

definition norm_of :: "vec \<Rightarrow> flt" where "norm_of a = sqrt (dot a a)"

definition std1 :: "flt list \<Rightarrow> flt" where
  "std1 xs = sqrt (squares xs / real (length xs - 1))"

definition col :: "matrix \<Rightarrow> nat \<Rightarrow> vec" where
  "col X j = map (\<lambda>r. r ! j) X"

definition standardise :: "vec \<Rightarrow> vec \<Rightarrow> vec \<Rightarrow> vec" where
  "standardise means stds x = map (\<lambda>(v, m, s). (v - m) / s) (zip x (zip means stds))"

record pca_fit =
  pf_means :: vec
  pf_stds :: vec
  pf_loadings :: matrix
  pf_eigenvalues :: vec
  pf_var_ratio :: vec
  pf_n_obs :: int

definition fit_pca_svd :: "(matrix \<Rightarrow> vec \<times> matrix) \<Rightarrow> matrix \<Rightarrow> nat \<Rightarrow> pca_fit result" where
  "fit_pca_svd svd X n =
     (if \<exists>r\<in>set X. length r \<noteq> N_FEATURES then Inl (ValueError ''shape'')
      else if length X < n + 1 then Inl (ValueError ''too few obs'')
      else let means = map (\<lambda>j. avg (col X j)) [0..<N_FEATURES];
               stds = map (\<lambda>j. let s = std1 (col X j) in if s \<le> 0 then 1 else s) [0..<N_FEATURES];
               (S, Vt) = svd (map (standardise means stds) X);
               scale = real (max (length X - 1) 1);
               eig = map (\<lambda>s. s ^ 2 / scale) (take n S);
               total = sum_list (map (\<lambda>s. s ^ 2) S) / scale
           in Inr \<lparr>pf_means = means, pf_stds = stds, pf_loadings = take n Vt, pf_eigenvalues = eig,
                   pf_var_ratio = (if 0 < total then map (\<lambda>e. e / total) eig else map (\<lambda>e. 0) eig), pf_n_obs = int (length X)\<rparr>)"

text \<open>Not a number is None.\<close>

definition cosine :: "vec \<Rightarrow> vec \<Rightarrow> flt" where
  "cosine a b = (let denom = norm_of a * norm_of b in if 0 < denom then dot a b / denom else 0)"

definition correct_one :: "vec \<Rightarrow> vec \<Rightarrow> vec \<times> flt option \<times> bool" where
  "correct_one a b = (let c = cosine a b in if c < 0 then (map uminus a, Some (- c), True) else (a, Some c, False))"

fun correct_rows :: "matrix \<Rightarrow> matrix \<Rightarrow> (vec \<times> flt option \<times> bool) list" where
  "correct_rows (a # as) (b # bs) = correct_one a b # correct_rows as bs"
| "correct_rows as [] = map (\<lambda>a. (a, None, False)) as"
| "correct_rows [] bs = []"

definition sign_correct_loadings :: "matrix \<Rightarrow> matrix option \<Rightarrow> matrix \<times> flt option list \<times> bool list" where
  "sign_correct_loadings new reference =
     (let rows = correct_rows new (case reference of None \<Rightarrow> [] | Some r \<Rightarrow> r)
      in (map fst rows, map (fst \<circ> snd) rows, map (snd \<circ> snd) rows))"

definition project :: "vec \<Rightarrow> vec \<Rightarrow> vec \<Rightarrow> matrix \<Rightarrow> vec" where
  "project x means stds loadings = map (\<lambda>l. dot l (standardise means stds x)) loadings"

definition zscore_against :: "flt \<Rightarrow> flt list \<Rightarrow> flt" where
  "zscore_against v hist =
     (if length hist < 5 then 0
      else let sigma = std1 hist in if sigma \<le> 0 then 0 else (v - avg hist) / sigma)"

definition classify_label :: "flt \<Rightarrow> string" where
  "classify_label z = (if \<bar>z\<bar> < MODERATE then ''FAIR'' else if 0 < z then ''EXPENSIVE'' else ''CHEAP'')"

definition classify_strength :: "flt \<Rightarrow> string option" where
  "classify_strength a =
     (if EXTREME \<le> a then Some ''extreme'' else if STRONG \<le> a then Some ''strong'' else if MODERATE \<le> a then Some ''moderate''
      else if WEAK \<le> a then Some ''weak'' else None)"

record actionable_flag =
  af_actionable :: bool
  af_reason :: "string option"
  af_strength :: "string option"

definition refused :: "string \<Rightarrow> actionable_flag" where
  "refused r = \<lparr>af_actionable = False, af_reason = Some r, af_strength = None\<rparr>"

definition actionable_check :: "nat \<Rightarrow> flt \<Rightarrow> string \<Rightarrow> bool \<Rightarrow> flt \<Rightarrow> bool \<Rightarrow> int \<Rightarrow> flt \<Rightarrow> actionable_flag" where
  "actionable_check pc z label steady variance persistent n_obs cumulative =
     (if n_obs < MIN_N_OBS_HARD then refused ''low_n_obs''
      else if cumulative < MIN_CUMULATIVE_VARIANCE then refused ''low_total_variance''
      else if \<not> steady then refused (''loadings_unstable_pc'' @ nat_str pc)
      else if variance < (case map_of MIN_VARIANCE_EXPLAINED pc of None \<Rightarrow> 0 | Some v \<Rightarrow> v) then refused (''low_variance_pc'' @ nat_str pc)
      else if \<bar>z\<bar> < WEAK then refused ''signal_below_threshold''
      else if label = ''FAIR'' then refused ''label_fair''
      else if \<not> persistent then refused ''signal_not_persistent''
      else \<lparr>af_actionable = True, af_reason = None, af_strength = classify_strength \<bar>z\<bar>\<rparr>)"

definition REASON_CATEGORY :: "(string \<times> string) list" where
  "REASON_CATEGORY =
     [(''loadings_unstable_pc1'', ''stability''), (''loadings_unstable_pc2'', ''stability''), (''loadings_unstable_pc3'', ''stability''),
      (''low_variance_pc1'', ''variance''), (''low_variance_pc2'', ''variance''), (''low_variance_pc3'', ''variance''),
      (''low_total_variance'', ''variance''), (''signal_below_threshold'', ''magnitude''), (''label_fair'', ''magnitude''),
      (''signal_not_persistent'', ''persistence''), (''low_n_obs'', ''n_obs'')]"

definition reason_category :: "string option \<Rightarrow> string option" where
  "reason_category r = map_option (\<lambda>x. case map_of REASON_CATEGORY x of None \<Rightarrow> ''other'' | Some c \<Rightarrow> c) r"

text \<open>\<open>check_coherence\<close> on the labels of the first two factors, if they are there.\<close>

definition contradicting :: "string option \<Rightarrow> string option \<Rightarrow> bool" where
  "contradicting a b = (case (a, b) of (Some x, Some y) \<Rightarrow> {x, y} = {''CHEAP'', ''EXPENSIVE''} | _ \<Rightarrow> False)"

definition pc3_sub_metrics :: "vec \<Rightarrow> flt \<times> flt" where
  "pc3_sub_metrics x =
     (avg (map (\<lambda>i. x ! (5 * i + 3) - x ! (5 * i + 1)) [0..<6]),
      avg (map (\<lambda>i. x ! (5 * i) + x ! (5 * i + 4) - 2 * x ! (5 * i + 2)) [0..<6]))"

definition is_persistent :: "flt list \<Rightarrow> bool" where
  "is_persistent zs =
     (3 \<le> length zs \<and> (\<forall>z\<in>set (take 3 zs). \<not> \<bar>z\<bar> < WEAK) \<and>
      card (set (map (\<lambda>z. if 0 < z then (1 :: int) else - 1) (take 3 zs))) = 1)"

section \<open>A cycle\<close>

record pca_model =
  md_means :: vec
  md_stds :: vec
  md_loadings :: matrix
  md_var_ratio :: vec
  md_n_obs :: int
  md_cosines :: "flt option list"
  md_active :: bool
  md_superseded_by :: "int option"
  md_version :: string

record signal =
  sg_pc :: nat
  sg_raw :: flt
  sg_z :: flt
  sg_label :: string
  sg_actionable :: bool
  sg_reason :: "string option"
  sg_sub :: "(flt \<times> flt) option"

definition nth_or :: "'x \<Rightarrow> 'x list \<Rightarrow> nat \<Rightarrow> 'x" where
  "nth_or d xs i = (if i < length xs then xs ! i else d)"

definition stable_pc :: "flt option list \<Rightarrow> nat \<Rightarrow> bool" where
  "stable_pc cosines pc = (case nth_or None cosines (pc - 1) of None \<Rightarrow> True | Some c \<Rightarrow> 85 / 100 \<le> c)"

text \<open>The gates both writers of signals apply; \<open>zs\<close> are the scores of the factor, newest first.\<close>

definition gated_signal :: "flt option list \<Rightarrow> vec \<Rightarrow> int \<Rightarrow> nat \<Rightarrow> flt \<Rightarrow> flt list \<Rightarrow> (flt \<times> flt) option \<Rightarrow> signal" where
  "gated_signal cosines var_ratio n_obs pc raw zs sub =
     (let z = hd zs; label = classify_label z;
          flag = actionable_check pc z label (stable_pc cosines pc) (nth_or 0 var_ratio (pc - 1)) (is_persistent zs) n_obs
                   (sum_list (take 3 var_ratio))
      in \<lparr>sg_pc = pc, sg_raw = raw, sg_z = z, sg_label = label, sg_actionable = af_actionable flag, sg_reason = af_reason flag,
          sg_sub = (if pc = 3 then sub else None)\<rparr>)"

text \<open>\<open>hist\<close> holds the stored scores of the model, newest first: factor, raw, z.\<close>

definition compute_pca_signals :: "vec \<Rightarrow> pca_model \<Rightarrow> (nat \<times> flt \<times> flt) list \<Rightarrow> flt list \<Rightarrow> flt list \<Rightarrow> signal list" where
  "compute_pca_signals x model hist skews convexes =
     (let raws = project x (md_means model) (md_stds model) (md_loadings model);
          sub = (case pc3_sub_metrics x of (s, c) \<Rightarrow> (py_round 2 (zscore_against s skews), py_round 2 (zscore_against c convexes)))
      in map (\<lambda>pc. let raw = nth_or 0 raws (pc - 1);
                       old = filter (\<lambda>(p, r, z). p = pc) hist;
                       z = zscore_against raw (map (\<lambda>(p, r, z). r) old)
                   in gated_signal (md_cosines model) (md_var_ratio model) (md_n_obs model) pc raw (z # map (\<lambda>(p, r, z). z) old) (Some sub))
           [1, 2, 3])"

section \<open>Refit\<close>

record hourly =
  ho_time :: time
  ho_symbol :: string
  ho_ivs :: "flt option list"

record signal_row =
  sr_time :: time
  sr_symbol :: string
  sr_model :: int
  sr_signal :: signal

record pca_store =
  ps_models :: "pca_model table"
  ps_signals :: "signal_row table"
  ps_hourly :: "hourly list"
  ps_references :: "int list"

definition N_COMPONENTS :: nat where "N_COMPONENTS = 6"
definition MIN_OBS_FOR_FIT :: nat where "MIN_OBS_FOR_FIT = N_COMPONENTS"

definition or_one :: "flt \<Rightarrow> flt" where "or_one x = (if x = 0 then 1 else x)"

definition zcolumn :: "flt list \<Rightarrow> flt list" where
  "zcolumn xs = (let s = std1 xs; sigma = (if s \<le> 0 then 1 else s) in map (\<lambda>x. (x - avg xs) / sigma) xs)"

text \<open>One payload per snapshot and factor, with the snapshot's index.\<close>

definition compute_backfill_rows :: "matrix \<Rightarrow> vec \<Rightarrow> vec \<Rightarrow> matrix \<Rightarrow> vec \<Rightarrow> flt option list \<Rightarrow> int \<Rightarrow> (nat \<times> signal) list" where
  "compute_backfill_rows X means stds loadings var_ratio cosines n_obs =
     (let raw = map (\<lambda>x. project x means stds loadings) X;
          z = (\<lambda>idx. zcolumn (col raw idx));
          skew = map (\<lambda>x. fst (pc3_sub_metrics x)) X; conv = map (\<lambda>x. snd (pc3_sub_metrics x)) X
      in concat (map (\<lambda>t. map (\<lambda>pc.
           (t, gated_signal cosines var_ratio n_obs pc (raw ! t ! (pc - 1)) (take 3 (rev (take (t + 1) (z (pc - 1)))))
                 (Some ((skew ! t - avg skew) / or_one (std1 skew), (conv ! t - avg conv) / or_one (std1 conv))))) [1, 2, 3]) [0..<length X]))"

definition active_model :: "pca_model table \<Rightarrow> (int \<times> pca_model) option" where
  "active_model ms = find (\<lambda>(i, m). md_active m) ms"

definition clean_rows :: "string \<Rightarrow> hourly list \<Rightarrow> (time \<times> vec) list" where
  "clean_rows symbol rows = List.map_filter (\<lambda>r. map_option (\<lambda>v. (ho_time r, v)) (all_some (ho_ivs r))) (sort_key ho_time (filter (\<lambda>r. ho_symbol r = symbol) rows))"

definition insert_signals :: "(time \<times> string \<times> int \<times> signal) list \<Rightarrow> signal_row table \<Rightarrow> signal_row table" where
  "insert_signals rows t =
     foldl (\<lambda>t (when, symbol, mid, s). tins \<lparr>sr_time = when, sr_symbol = symbol, sr_model = mid, sr_signal = s\<rparr> t) t rows"

definition demote :: "int option \<Rightarrow> int \<Rightarrow> pca_model table \<Rightarrow> pca_model table" where
  "demote prev new_id ms = (case prev of None \<Rightarrow> ms | Some i \<Rightarrow> tupd i (\<lambda>m. m\<lparr>md_active := False, md_superseded_by := Some new_id\<rparr>) ms)"

definition promote :: "int \<Rightarrow> pca_model table \<Rightarrow> pca_model table" where
  "promote new_id ms = tupd new_id (\<lambda>m. m\<lparr>md_active := True\<rparr>) ms"

text \<open>The rows of the symbol that other models wrote; one that a preview or a structure refers to cannot be deleted.\<close>

definition superseded_rows :: "string \<Rightarrow> int \<Rightarrow> signal_row table \<Rightarrow> (int \<times> signal_row) list" where
  "superseded_rows symbol new_id t = twhere (\<lambda>r. sr_symbol r = symbol \<and> sr_model r \<noteq> new_id) t"

text \<open>One transaction: an exception leaves the store as it was.\<close>

definition perform_refit :: "(matrix \<Rightarrow> vec \<times> matrix) \<Rightarrow> string \<Rightarrow> string \<Rightarrow> pca_store \<Rightarrow> pca_store \<times> int result" where
  "perform_refit svd symbol version s =
     (let clean = clean_rows symbol (ps_hourly s); X = map snd clean; prev = active_model (ps_models s) in
      if length (filter (\<lambda>r. ho_symbol r = symbol) (ps_hourly s)) < MIN_OBS_FOR_FIT then (s, Inl (HTTPException 400 ''need more snapshots''))
      else if length X < MIN_OBS_FOR_FIT then (s, Inl (HTTPException 400 ''clean snapshots''))
      else (case fit_pca_svd svd X N_COMPONENTS of
              Inl e \<Rightarrow> (s, Inl e)
            | Inr fit \<Rightarrow>
                let (corrected, cosines, flips) = sign_correct_loadings (pf_loadings fit) (map_option (md_loadings \<circ> snd) prev);
                    new = \<lparr>md_means = pf_means fit, md_stds = pf_stds fit, md_loadings = corrected, md_var_ratio = pf_var_ratio fit,
                           md_n_obs = pf_n_obs fit, md_cosines = take 3 cosines, md_active = False, md_superseded_by = None, md_version = version\<rparr>;
                    new_id = next_id (ps_models s);
                    models = promote new_id (demote (map_option fst prev) new_id (tins new (ps_models s)));
                    payloads = compute_backfill_rows X (pf_means fit) (pf_stds fit) corrected (pf_var_ratio fit) (take 3 cosines) (pf_n_obs fit);
                    signals = insert_signals (map (\<lambda>(t, g). (fst (clean ! t), symbol, new_id, g)) payloads) (ps_signals s);
                    dead = superseded_rows symbol new_id signals
                in if \<exists>e\<in>set (ps_models s). md_version (snd e) = version then (s, Inl (IntegrityError ''version''))
                   else if \<exists>d\<in>set dead. fst d \<in> set (ps_references s) then (s, Inl (IntegrityError ''pca_signal_id''))
                   else (s\<lparr>ps_models := models, ps_signals := filter (\<lambda>(i, r). \<not> (sr_symbol r = symbol \<and> sr_model r \<noteq> new_id)) signals\<rparr>, Inr new_id)))"

section \<open>State\<close>

record pca_state =
  pt_state :: string
  pt_signals :: "(nat \<times> signal \<times> string option) list"
  pt_stable :: "bool list"
  pt_coherent :: bool

text \<open>The newest row of each factor under the model.\<close>

definition newest_row :: "string \<Rightarrow> int \<Rightarrow> nat \<Rightarrow> signal_row table \<Rightarrow> signal_row option" where
  "newest_row symbol mid pc t =
     (case rev (sort_key sr_time (map snd (twhere (\<lambda>r. sr_symbol r = symbol \<and> sr_model r = mid \<and> sg_pc (sr_signal r) = pc) t))) of
        [] \<Rightarrow> None | r # rs \<Rightarrow> Some r)"

definition pca_state_of :: "string \<Rightarrow> pca_store \<Rightarrow> pca_state" where
  "pca_state_of symbol s =
     (case active_model (ps_models s) of
        None \<Rightarrow> \<lparr>pt_state = ''bootstrap'', pt_signals = [], pt_stable = [], pt_coherent = True\<rparr>
      | Some (mid, m) \<Rightarrow>
          let rows = List.map_filter (\<lambda>pc. newest_row symbol mid pc (ps_signals s)) [1, 2, 3];
              label = (\<lambda>pc. map_option (\<lambda>r. sg_label (sr_signal r)) (find (\<lambda>r. sg_pc (sr_signal r) = pc) rows))
          in \<lparr>pt_state = ''stable'', pt_signals = map (\<lambda>r. (sg_pc (sr_signal r), sr_signal r, reason_category (sg_reason (sr_signal r)))) rows,
              pt_stable = map (stable_pc (md_cosines m)) [1, 2, 3], pt_coherent = (\<not> contradicting (label 1) (label 2))\<rparr>)"

definition ready_to_refit :: "string \<Rightarrow> pca_store \<Rightarrow> bool" where
  "ready_to_refit symbol s = (MIN_OBS_FOR_FIT \<le> length (filter (\<lambda>r. ho_symbol r = symbol) (ps_hourly s)))"

section \<open>What the gates let through\<close>

text \<open>
  A signal is actionable only through all gates at once: enough observations, enough variance in total and of
  the factor, stable loadings, a score of at least 1.5 in size and three scores of one sign in a row; whenever
  it is not, there is a reason, and its label is the side of its score.
\<close>

theorem actionable_needs_all_gates:
  "(sg_actionable (gated_signal cosines var n pc raw zs sub) \<longleftrightarrow>
      30 \<le> n \<and> 85 / 100 \<le> sum_list (take 3 var) \<and> stable_pc cosines pc \<and>
      (case map_of MIN_VARIANCE_EXPLAINED pc of None \<Rightarrow> 0 | Some v \<Rightarrow> v) \<le> nth_or 0 var (pc - 1) \<and>
      15 / 10 \<le> \<bar>hd zs\<bar> \<and> is_persistent zs) \<and>
   (sg_reason (gated_signal cosines var n pc raw zs sub) = None \<longleftrightarrow> sg_actionable (gated_signal cosines var n pc raw zs sub)) \<and>
   sg_label (gated_signal cosines var n pc raw zs sub) = (if \<bar>hd zs\<bar> < 15 / 10 then ''FAIR'' else if 0 < hd zs then ''EXPENSIVE'' else ''CHEAP'')"
  by (auto simp: gated_signal_def Let_def actionable_check_def refused_def classify_label_def MIN_N_OBS_HARD_def
      MIN_CUMULATIVE_VARIANCE_def MODERATE_def WEAK_def not_less)

text \<open>The strength weak is never given: a score below 1.5 is fair, and a fair signal is refused.\<close>

lemma weak_never_actionable:
  "af_strength (actionable_check pc z (classify_label z) st var p n cum) \<noteq> Some ''weak''"
  by (auto simp: actionable_check_def refused_def classify_label_def classify_strength_def EXTREME_def STRONG_def MODERATE_def WEAK_def)

text \<open>With six factors a fit needs seven observations; the route lets six through.\<close>

lemma six_snapshots_are_not_enough:
  "length X = MIN_OBS_FOR_FIT \<Longrightarrow> \<exists>e. fit_pca_svd svd X N_COMPONENTS = Inl e"
  by (simp add: fit_pca_svd_def MIN_OBS_FOR_FIT_def N_COMPONENTS_def)

section \<open>Signs of the loadings\<close>

lemma dot_minus: "dot (map uminus a) b = - dot a b"
proof (induction a arbitrary: b)
  case (Cons x a)
  show ?case
  proof (cases b)
    case (Cons y b')
    then show ?thesis using Cons.IH [of b'] by (simp add: dot_def)
  qed (simp add: dot_def)
qed (simp add: dot_def)

lemma norm_minus: "norm_of (map uminus a) = norm_of a"
proof -
  have "dot (map uminus a) (map uminus a) = dot a a" by (induction a) (simp_all add: dot_def)
  then show ?thesis by (simp add: norm_of_def)
qed

lemma cosine_minus: "cosine (map uminus a) b = - cosine a b"
  by (simp add: cosine_def Let_def norm_minus dot_minus)

lemma corrected_one:
  assumes "correct_one a b = (x, c, flip)"
  shows "(x = a \<or> x = map uminus a) \<and> c = Some (cosine x b) \<and> 0 \<le> cosine x b \<and> correct_one x b = (x, c, False)"
  using assms by (auto simp: correct_one_def Let_def cosine_minus split: if_splits)

lemma correct_rows_nth:
  "length (correct_rows as bs) = length as \<and>
   (\<forall>i < length as. correct_rows as bs ! i = (if i < length bs then correct_one (as ! i) (bs ! i) else (as ! i, None, False)))"
  by (induction as bs rule: correct_rows.induct) (auto simp: nth_Cons split: nat.splits)

text \<open>
  Sign correction only turns vectors around: each corrected vector is the new one or its negative, none points
  away from the reference, the reported similarities are those of the corrected vectors, and correcting
  again changes nothing.
\<close>

theorem sign_correction_settles:
  assumes "sign_correct_loadings new (Some reference) = (C, cosines, flips)"
  shows "length C = length new \<and>
    (\<forall>i < length new. C ! i = new ! i \<or> C ! i = map uminus (new ! i)) \<and>
    (\<forall>i < min (length new) (length reference). cosines ! i = Some (cosine (C ! i) (reference ! i)) \<and> 0 \<le> cosine (C ! i) (reference ! i)) \<and>
    sign_correct_loadings C (Some reference) = (C, cosines, replicate (length C) False)"
proof -
  define rows where "rows = correct_rows new reference"
  have C: "C = map fst rows" "cosines = map (fst \<circ> snd) rows" using assms by (simp_all add: sign_correct_loadings_def rows_def Let_def)
  have len: "length rows = length new" and row: "rows ! i = (if i < length reference then correct_one (new ! i) (reference ! i) else (new ! i, None, False))"
    if "i < length new" for i
    using correct_rows_nth [of new reference] that by (simp_all add: rows_def)
  have lenC: "length C = length new" using correct_rows_nth [of new reference] by (simp add: C rows_def)
  have one: "(C ! i = new ! i \<or> C ! i = map uminus (new ! i)) \<and>
      (i < length reference \<longrightarrow> cosines ! i = Some (cosine (C ! i) (reference ! i)) \<and> 0 \<le> cosine (C ! i) (reference ! i)) \<and>
      correct_rows C reference ! i = (C ! i, cosines ! i, False)" if i: "i < length new" for i
  proof -
    have again: "correct_rows C reference ! i = (if i < length reference then correct_one (C ! i) (reference ! i) else (C ! i, None, False))"
      using correct_rows_nth [of C reference] i lenC by simp
    have nth: "C ! i = fst (rows ! i)" "cosines ! i = fst (snd (rows ! i))" using len [OF i] i by (simp_all add: C)
    show ?thesis
    proof (cases "i < length reference")
      case True
      obtain x c f where x: "correct_one (new ! i) (reference ! i) = (x, c, f)" using prod_cases3 by blast
      then show ?thesis using corrected_one [OF x] True row [OF i] nth again by auto
    next
      case False
      then show ?thesis using row [OF i] nth again by simp
    qed
  qed
  have all: "correct_rows C reference = map (\<lambda>i. (C ! i, cosines ! i, False)) [0..<length C]"
    using correct_rows_nth [of C reference] one lenC by (intro nth_equalityI) auto
  have "sign_correct_loadings C (Some reference) = (C, cosines, replicate (length C) False)"
  proof -
    have lenc: "length cosines = length C" using lenC correct_rows_nth [of new reference] by (simp add: C(2) rows_def)
    have "map (\<lambda>i. cosines ! i) [0..<length C] = cosines" using map_nth [of cosines] unfolding lenc .
    then show ?thesis using all map_nth [of C]
      by (simp add: sign_correct_loadings_def comp_def map_replicate_const)
  qed
  then show ?thesis using lenC one by auto
qed

section \<open>The backfill\<close>

lemma backfill_index:
  "map (\<lambda>(t, g). (t, sg_pc g)) (compute_backfill_rows X means stds L var cosines n) =
     concat (map (\<lambda>t. [(t, 1), (t, 2), (t, 3)]) [0..<length X])"
  by (simp add: compute_backfill_rows_def Let_def map_concat comp_def gated_signal_def)

text \<open>The scores of a factor over the window sum to zero.\<close>

lemma zcolumn_centred: "sum_list (zcolumn xs) = 0"
proof (cases "xs = []")
  case False
  define s where "s = (if std1 xs \<le> 0 then 1 else std1 xs)"
  have "sum_list (map (\<lambda>x. (x - a) / s) ys) = (sum_list ys - real (length ys) * a) / s" for a s and ys :: "flt list"
    by (induction ys) (simp_all add: add_divide_distrib diff_divide_distrib algebra_simps)
  then show ?thesis using False by (simp add: zcolumn_def Let_def avg_def)
qed (simp add: zcolumn_def)

section \<open>A refit\<close>

definition signal_row_of :: "time \<times> string \<times> int \<times> signal \<Rightarrow> signal_row" where
  "signal_row_of e = (case e of (when, symbol, mid, g) \<Rightarrow> \<lparr>sr_time = when, sr_symbol = symbol, sr_model = mid, sr_signal = g\<rparr>)"

lemma inserted_signals: "\<exists>ext. insert_signals rows t = t @ ext \<and> map snd ext = map signal_row_of rows"
proof (induction rows arbitrary: t)
  case (Cons e rows)
  obtain ext where "insert_signals rows (tins (signal_row_of e) t) = tins (signal_row_of e) t @ ext" "map snd ext = map signal_row_of rows"
    using Cons by blast
  then show ?case
    by (intro exI [of _ "(next_id t, signal_row_of e) # ext"]) (cases e, simp add: insert_signals_def tins_def signal_row_of_def)
qed (simp add: insert_signals_def)

lemma payload_count: "length (compute_backfill_rows X means stds L var cosines n) = 3 * length X"
proof -
  have three: "length (concat (map (\<lambda>t. [(t, a), (t, b), (t, c)]) ts)) = 3 * length ts" for ts :: "nat list" and a b c :: nat
    by (induction ts) simp_all
  show ?thesis
    using arg_cong [where f = length, OF backfill_index [of X means stds L var cosines n]]
    by (simp only: three length_map length_upt diff_zero)
qed

text \<open>The models after the switch: the new one is active, every other active one was the previous and is not any more.\<close>

lemma switched_models:
  assumes "table_ok ms" and "length (filter (md_active \<circ> snd) ms) \<le> 1" and "\<not> md_active new"
  shows "map fst (filter (md_active \<circ> snd) (promote (next_id ms) (demote (map_option fst (active_model ms)) (next_id ms) (tins new ms)))) = [next_id ms]"
proof -
  let ?n = "next_id ms"
  have fresh: "?n \<notin> set (keys_of ms)" by (rule next_id_notin)
  have demoted: "filter (md_active \<circ> snd) (demote (map_option fst (active_model ms)) ?n ms) = []"
  proof (cases "active_model ms")
    case None
    then have "filter (md_active \<circ> snd) ms = []"
      by (auto simp: active_model_def find_None_iff filter_empty_conv)
    then show ?thesis using None by (simp add: demote_def)
  next
    case (Some e)
    obtain i m where e: "e = (i, m)" by fastforce
    have im: "(i, m) \<in> set ms" "md_active m" using Some e by (auto simp: active_model_def find_Some_iff in_set_conv_nth)
    have only: "j = i" if "(j, r) \<in> set ms" "md_active r" for j r
    proof (rule ccontr)
      assume "j \<noteq> i"
      then have "{(i, m), (j, r)} \<subseteq> set (filter (md_active \<circ> snd) ms)" using im that by auto
      then have "card {(i, m), (j, r)} \<le> length (filter (md_active \<circ> snd) ms)"
        by (meson card_length card_mono finite_set order_trans)
      then show False using assms(2) \<open>j \<noteq> i\<close> by simp
    qed
    show ?thesis using only e Some by (auto simp: demote_def tupd_def filter_empty_conv split: if_splits)
  qed
  have split: "demote p ?n (tins new ms) = demote p ?n ms @ [(?n, new)]" if "p \<noteq> Some ?n" for p
    using that by (cases p) (auto simp: demote_def tupd_def tins_def)
  have "map_option fst (active_model ms) \<noteq> Some ?n"
  proof
    assume "map_option fst (active_model ms) = Some ?n"
    then obtain m where "find (\<lambda>(i, m). md_active m) ms = Some (?n, m)" by (auto simp: active_model_def)
    then have "(?n, m) \<in> set ms" unfolding find_Some_iff by (metis nth_mem)
    then show False using fresh by (force simp: keys_of_def)
  qed
  then have d: "demote (map_option fst (active_model ms)) ?n (tins new ms) = demote (map_option fst (active_model ms)) ?n ms @ [(?n, new)]"
    by (rule split)
  have keys: "?n \<notin> set (keys_of (demote p ?n ms))" for p using fresh by (cases p) (simp_all add: demote_def)
  have "promote ?n (xs @ [(?n, new)]) = xs @ [(?n, new\<lparr>md_active := True\<rparr>)]" if "?n \<notin> set (keys_of xs)" for xs
    using that tupd_absent [OF that, of "\<lambda>m. m\<lparr>md_active := True\<rparr>"] by (simp add: promote_def tupd_def)
  from this [OF keys] show ?thesis unfolding d by (simp add: demoted)
qed

text \<open>
  C40. A refit is all or nothing. When it fails the store is as before. When it succeeds exactly the new model is active,
  the symbol's signals are the new model's, three per complete snapshot, and the signals of other symbols are
  untouched. It cannot succeed while a preview or a structure refers to a signal of the symbol.
\<close>

theorem refit_replaces:
  assumes "perform_refit svd symbol version s = (s', res)"
    and "table_ok (ps_models s)" and "length (filter (md_active \<circ> snd) (ps_models s)) \<le> 1"
    and "\<forall>(i, r)\<in>set (ps_signals s). sr_model r \<in> set (keys_of (ps_models s))"
  shows "case res of
      Inl e \<Rightarrow> s' = s
    | Inr mid \<Rightarrow>
        map fst (filter (md_active \<circ> snd) (ps_models s')) = [mid] \<and>
        (\<forall>(i, r)\<in>set (ps_signals s'). sr_symbol r = symbol \<longrightarrow> sr_model r = mid) \<and>
        length (twhere (\<lambda>r. sr_symbol r = symbol) (ps_signals s')) = 3 * length (clean_rows symbol (ps_hourly s)) \<and>
        twhere (\<lambda>r. sr_symbol r \<noteq> symbol) (ps_signals s') = twhere (\<lambda>r. sr_symbol r \<noteq> symbol) (ps_signals s) \<and>
        (\<forall>(i, r)\<in>set (ps_signals s). sr_symbol r = symbol \<longrightarrow> i \<notin> set (ps_references s))"
proof (cases res)
  case (Inl e)
  then show ?thesis using assms(1)
    by (auto simp: perform_refit_def Let_def split: if_splits sum.splits prod.splits)
next
  case (Inr mid)
  let ?n = "next_id (ps_models s)"
  obtain new payloads where
      new: "\<not> md_active new" "ps_models s' = promote ?n (demote (map_option fst (active_model (ps_models s))) ?n (tins new (ps_models s)))"
    and pay: "length payloads = 3 * length (clean_rows symbol (ps_hourly s))"
    and sig: "ps_signals s' = filter (\<lambda>(i, r). \<not> (sr_symbol r = symbol \<and> sr_model r \<noteq> ?n))
        (insert_signals (map (\<lambda>(t, g). (fst (clean_rows symbol (ps_hourly s) ! t), symbol, ?n, g)) payloads) (ps_signals s))"
    and ref: "\<forall>d\<in>set (superseded_rows symbol ?n
        (insert_signals (map (\<lambda>(t, g). (fst (clean_rows symbol (ps_hourly s) ! t), symbol, ?n, g)) payloads) (ps_signals s))).
        fst d \<notin> set (ps_references s)"
    and mid: "mid = ?n"
  proof -
    assume fact: "\<And>new payloads. \<lbrakk>\<not> md_active new;
        ps_models s' = promote ?n (demote (map_option fst (active_model (ps_models s))) ?n (tins new (ps_models s)));
        length payloads = 3 * length (clean_rows symbol (ps_hourly s));
        ps_signals s' = filter (\<lambda>(i, r). \<not> (sr_symbol r = symbol \<and> sr_model r \<noteq> ?n))
        (insert_signals (map (\<lambda>(t, g). (fst (clean_rows symbol (ps_hourly s) ! t), symbol, ?n, g)) payloads) (ps_signals s));
        \<forall>d\<in>set (superseded_rows symbol ?n
        (insert_signals (map (\<lambda>(t, g). (fst (clean_rows symbol (ps_hourly s) ! t), symbol, ?n, g)) payloads) (ps_signals s))).
        fst d \<notin> set (ps_references s); mid = ?n\<rbrakk> \<Longrightarrow> thesis"
    show thesis
      using assms(1) Inr unfolding perform_refit_def Let_def
      by (auto split: if_splits sum.splits prod.splits intro!: fact simp: payload_count)
  qed
  obtain ext where ext: "insert_signals (map (\<lambda>(t, g). (fst (clean_rows symbol (ps_hourly s) ! t), symbol, ?n, g)) payloads) (ps_signals s) =
      ps_signals s @ ext"
    "map snd ext = map signal_row_of (map (\<lambda>(t, g). (fst (clean_rows symbol (ps_hourly s) ! t), symbol, ?n, g)) payloads)"
    using inserted_signals by blast
  have rows: "sr_symbol r = symbol \<and> sr_model r = ?n" if "(i, r) \<in> set ext" for i r
  proof -
    have "snd (i, r) \<in> set (map snd ext)" using that unfolding set_map by (rule imageI)
    then show ?thesis unfolding ext(2) by (auto simp: signal_row_of_def)
  qed
  have fresh: "?n \<notin> set (keys_of (ps_models s))" by (rule next_id_notin)
  have old: "sr_model r \<noteq> ?n" if "(i, r) \<in> set (ps_signals s)" for i r
    using assms(4) fresh that by fastforce
  have old': "filter (\<lambda>(i, r). \<not> (sr_symbol r = symbol \<and> sr_model r \<noteq> ?n)) (ps_signals s) = twhere (\<lambda>r. sr_symbol r \<noteq> symbol) (ps_signals s)"
    unfolding twhere_def by (rule filter_cong [OF HOL.refl]) (use old in auto)
  have ext': "filter (\<lambda>(i, r). \<not> (sr_symbol r = symbol \<and> sr_model r \<noteq> ?n)) ext = ext"
    using rows by (auto simp: filter_id_conv)
  have s': "ps_signals s' = twhere (\<lambda>r. sr_symbol r \<noteq> symbol) (ps_signals s) @ ext"
    unfolding sig ext(1) filter_append old' ext' ..
  have sel: "twhere (\<lambda>r. sr_symbol r = symbol) ext = ext" "twhere (\<lambda>r. sr_symbol r \<noteq> symbol) ext = []"
    using rows by (auto simp: twhere_def filter_id_conv filter_empty_conv)
  have len: "length ext = 3 * length (clean_rows symbol (ps_hourly s))"
    using arg_cong [where f = length, OF ext(2)] pay by simp
  have one: "map fst (filter (md_active \<circ> snd) (ps_models s')) = [mid]"
    unfolding new(2) mid by (rule switched_models [OF assms(2,3) new(1)])
  have mine: "\<forall>(i, r)\<in>set (ps_signals s'). sr_symbol r = symbol \<longrightarrow> sr_model r = mid"
    unfolding s' mid using rows by auto
  have count: "length (twhere (\<lambda>r. sr_symbol r = symbol) (ps_signals s')) = 3 * length (clean_rows symbol (ps_hourly s))"
  proof -
    have "twhere (\<lambda>r. sr_symbol r = symbol) (twhere (\<lambda>r. sr_symbol r \<noteq> symbol) (ps_signals s)) = []"
      by (auto simp: twhere_def filter_empty_conv)
    moreover have app: "twhere (\<lambda>r. sr_symbol r = symbol) (xs @ ys) =
        twhere (\<lambda>r. sr_symbol r = symbol) xs @ twhere (\<lambda>r. sr_symbol r = symbol) ys" for xs ys
      by (simp add: twhere_def)
    ultimately show ?thesis unfolding s' app using len by (simp only: sel append_Nil)
  qed
  have others: "twhere (\<lambda>r. sr_symbol r \<noteq> symbol) (ps_signals s') = twhere (\<lambda>r. sr_symbol r \<noteq> symbol) (ps_signals s)"
    unfolding s' using sel by (simp add: twhere_def)
  have free: "\<forall>(i, r)\<in>set (ps_signals s). sr_symbol r = symbol \<longrightarrow> i \<notin> set (ps_references s)"
  proof (rule ballI, clarify)
    fix i r assume r: "(i, r) \<in> set (ps_signals s)" "symbol = sr_symbol r" "i \<in> set (ps_references s)"
    then have "(i, r) \<in> set (superseded_rows symbol ?n (ps_signals s @ ext))"
      using old [OF r(1)] by (simp add: superseded_rows_def twhere_def)
    from bspec [OF ref [unfolded ext(1)] this] show False using r(3) by simp
  qed
  show ?thesis using Inr one mine count others free by simp
qed

lemma refit_replaces_witness:
  "let m0 = \<lparr>md_means = [], md_stds = [], md_loadings = [], md_var_ratio = [], md_n_obs = 7, md_cosines = [], md_active = True,
             md_superseded_by = None, md_version = ''v0''\<rparr>;
       sig = \<lparr>sg_pc = 1, sg_raw = 0, sg_z = 0, sg_label = ''FAIR'', sg_actionable = False, sg_reason = None, sg_sub = None\<rparr>;
       hour = (\<lambda>h. \<lparr>ho_time = h, ho_symbol = ''EURUSD'', ho_ivs = replicate 30 (Some h)\<rparr>);
       s = \<lparr>ps_models = [(1, m0)], ps_signals = [(1, \<lparr>sr_time = 0, sr_symbol = ''EURUSD'', sr_model = 1, sr_signal = sig\<rparr>)],
            ps_hourly = map hour [1, 2, 3, 4, 5, 6, 7], ps_references = []\<rparr>;
       svd = (\<lambda>X. ([], []));
       s' = fst (perform_refit svd ''EURUSD'' ''v1'' s)
   in snd (perform_refit svd ''EURUSD'' ''v1'' s) = Inr 2 \<and>
      map fst (filter (md_active \<circ> snd) (ps_models s')) = [2] \<and>
      length (twhere (\<lambda>r. sr_symbol r = ''EURUSD'') (ps_signals s')) = 21"
proof -
  define m0 where "m0 = \<lparr>md_means = [], md_stds = [], md_loadings = [], md_var_ratio = [], md_n_obs = 7, md_cosines = [], md_active = True,
             md_superseded_by = None, md_version = ''v0''\<rparr>"
  define sig where "sig = \<lparr>sg_pc = 1, sg_raw = 0, sg_z = 0, sg_label = ''FAIR'', sg_actionable = False, sg_reason = None, sg_sub = None\<rparr>"
  define hour where "hour = (\<lambda>h. \<lparr>ho_time = h, ho_symbol = ''EURUSD'', ho_ivs = replicate 30 (Some h)\<rparr>)"
  define s where "s = \<lparr>ps_models = [(1, m0)], ps_signals = [(1, \<lparr>sr_time = 0, sr_symbol = ''EURUSD'', sr_model = 1, sr_signal = sig\<rparr>)],
            ps_hourly = map hour [1, 2, 3, 4, 5, 6, 7], ps_references = []\<rparr>"
  define svd :: "matrix \<Rightarrow> vec \<times> matrix" where "svd = (\<lambda>X. ([], []))"
  have one: "all_some (ho_ivs (hour h)) = Some (replicate 30 h)" "ho_symbol (hour h) = ''EURUSD''" "ho_time (hour h) = h" for h
    by (simp_all add: hour_def all_some_def)
  have clean: "clean_rows ''EURUSD'' (ps_hourly s) = map (\<lambda>h. (h, replicate 30 h)) [1, 2, 3, 4, 5, 6, 7]"
    by (simp add: clean_rows_def s_def one map_filter_simps)
  have len: "length (filter (\<lambda>r. ho_symbol r = ''EURUSD'') (ps_hourly s)) = 7" by (simp add: s_def one)
  obtain fit where fit: "fit_pca_svd svd (map (snd \<circ> (\<lambda>h. (h, replicate 30 h))) [1, 2, 3, 4, 5, 6, 7]) N_COMPONENTS = Inr fit"
    by (auto simp: fit_pca_svd_def N_FEATURES_def TENORS_def DELTAS_def N_COMPONENTS_def svd_def Let_def)
  have run: "snd (perform_refit svd ''EURUSD'' ''v1'' s) = Inr 2"
    using fit unfolding perform_refit_def Let_def clean len map_map
    by (simp add: MIN_OBS_FOR_FIT_def N_COMPONENTS_def s_def m0_def next_id_def keys_of_def split: prod.split)
  obtain s' where s': "perform_refit svd ''EURUSD'' ''v1'' s = (s', Inr 2)" using run by (metis prod.collapse)
  have "table_ok (ps_models s)" "length (filter (md_active \<circ> snd) (ps_models s)) \<le> 1"
    "\<forall>(i, r)\<in>set (ps_signals s). sr_model r \<in> set (keys_of (ps_models s))"
    by (simp_all add: s_def table_ok_def keys_of_def)
  from refit_replaces [OF s' this] show ?thesis
    unfolding Let_def m0_def [symmetric] sig_def [symmetric] hour_def [symmetric] s_def [symmetric] svd_def [symmetric]
    by (simp add: s' clean)
qed

text \<open>
  So once a trade refers to a signal, no refit of that symbol succeeds again.
\<close>

lemma referenced_signal_blocks_refit:
  assumes "perform_refit svd symbol version s = (s', res)" and "(i, r) \<in> set (ps_signals s)" and "sr_symbol r = symbol"
    and "i \<in> set (ps_references s)" and "sr_model r \<in> set (keys_of (ps_models s))"
  shows "s' = s \<and> (\<exists>e. res = Inl e)"
proof -
  have n: "sr_model r \<noteq> next_id (ps_models s)" using assms(5) next_id_notin by metis
  have "(i, r) \<in> set (superseded_rows symbol (next_id (ps_models s)) (insert_signals rows (ps_signals s)))" for rows
    using inserted_signals [of rows "ps_signals s"] n assms(2,3) by (auto simp: superseded_rows_def)
  then have "\<exists>d\<in>set (superseded_rows symbol (next_id (ps_models s)) (insert_signals rows (ps_signals s))). fst d \<in> set (ps_references s)" for rows
    using assms(4) by force
  then show ?thesis using assms(1) unfolding perform_refit_def Let_def
    by (auto split: if_splits sum.splits prod.splits)
qed

end
