(* ===== verification/Spec2Isabelle.thy ===== *)
theory Spec2Isabelle
  imports Ledger Revalidation Fills_Correctness Order_Reconciler Reaper Live_Submit Rollback_Runner Closing Position_Reconciler
    Halt Shared_Utils Delta_Hedge Exit_Rules Pretrade Greek_Limits Black_Scholes Iv_Lookup Position_Pricing Stress
    Spot_Orders Hedge_Executor Position_Sync Ib_Connection Ib_Session Manual_Close Position_Close Position_Monitor Tenors Trade_Preview
    Preview_Correctness Order_Executor Heartbeat Db_Writer Attribution Daily_Rollup Structures Portfolio_Stats Portfolio_Risk Greek_History Risk_Breakdown Risk_Engine Config_Service
    Regime_Features Signals
begin

text \<open>
  Verification library of the FX volatility trading system, for its order core and the risk
  and pricing rules it rests on. Paths below are relative to \<open>src/src/\<close>.

  The program. Services share one database (\<open>persistence/models.py\<close>). The API arms trades,
  checks them (\<open>core/execution/revalidation.py\<close>, \<open>core/risk/pretrade.py\<close>) and asks the
  execution engine (\<open>engines/execution\<close>) to submit them; the engine places orders at
  Interactive Brokers, books the status and fill events that come back, repairs what was
  missed (reconciler, reaper, rollback, mirror sync, rehydration after a reconnect) and
  keeps three views of one truth: the fills, the legs and contracts computed from them, and
  the mirror of the broker's positions. Monitoring re-prices positions, applies exit rules
  and hedges delta against limits derived from the capital.

  Foundations. \<open>Prelude\<close>: floats as exact reals, timestamps as seconds, Python exceptions
  as values of \<open>py_error\<close>, a result as \<open>py_error + 'a\<close>, the collections of simplification
  rules. \<open>Py_Text\<close>: the string functions the code calls. \<open>Tables\<close>: a table as the list of
  its rows with their keys, and the interface \<open>keyed_store\<close> with its interpretation.
  \<open>Exec_DB\<close>: the rows of the execution engine's tables and the store of all of them.

  Orders. \<open>Order_States\<close> (\<open>core/execution/order_states.py\<close>, \<open>reaper_policy.py\<close>): the
  life cycle, as interpretations of the interfaces \<open>absorbing_fsm\<close> and \<open>ranked_fsm\<close>.
  \<open>Fills\<close>, \<open>Projection\<close>, \<open>Reservation\<close>, \<open>Rollback\<close>, \<open>Reconciliation\<close>, \<open>Revalidation\<close>,
  \<open>Contract_Builder\<close> (\<open>core/execution\<close>) are its pure rules; \<open>Ledger\<close>, \<open>Units\<close>,
  \<open>Contracts\<close>, \<open>Closing\<close> those of \<open>core/ledger.py\<close>, \<open>core/units.py\<close>,
  \<open>shared/contracts.py\<close> and \<open>core/positions/closing.py\<close>. \<open>Book_Ops\<close> holds the writers of
  legs, reservations and book states (\<open>persistence\<close>).

  Engine. \<open>Fills_Handler\<close> is the handler of status, execution, commission and combo events
  with the cascade into its structure; \<open>Fills_Correctness\<close> proves that any two deliveries of
  the same executions agree, through the interface \<open>idempotent_log\<close>. \<open>Placement\<close> is the
  claim protocol with its interleavings, \<open>Claim_Protocol\<close> its interface, provided by order
  rows and by hedge rows. \<open>Live_Submit\<close>, \<open>Hedge_Executor\<close>, \<open>Spot_Orders\<close> and
  \<open>Rollback_Runner\<close> are the four ways an order is placed; \<open>Close_Finaliser\<close> books the result
  of a close; \<open>Order_Reconciler\<close>, \<open>Reaper\<close>, \<open>Position_Reconciler\<close> and \<open>Position_Sync\<close> are
  the repair loops; \<open>Halt\<close> is the kill switch; \<open>Ib_Connection\<close> connects with backoff;
  \<open>Ib_Session\<close> is the gate the order routes ask and the passes that open it.

  Routes and monitoring. \<open>Manual_Close\<close> is the close of a position and the close and cancel of
  a trade as the operator asks for them (\<open>api/routers/positions.py\<close>, \<open>trades.py\<close>);
  \<open>Position_Close\<close> the automatic one (\<open>api/orchestration/position_close.py\<close>);
  \<open>Position_Monitor\<close> the cycle that re-prices, alerts and hedges
  (\<open>api/orchestration/position_monitor.py\<close>). \<open>Tenors\<close> (\<open>core/vol/tenors.py\<close>) re-keys a
  volatility surface to the display pillars; \<open>Trade_Preview\<close> (\<open>core/trade_preview.py\<close>) builds
  structures on it, prices and sizes them. \<open>Preview_Desk\<close> and \<open>Trade_Submit\<close>
  (\<open>api/routers/trade.py\<close>) store a preview and turn it into orders; \<open>Preview_Lifecycle\<close> is
  the step relation of all requests on the desk and the automaton it refines,
  \<open>Trade_Submit_Correctness\<close> and \<open>Preview_Correctness\<close> say what a submit and a preview hold.

  Rules around the engine. \<open>Pretrade\<close> and \<open>Greek_Limits\<close> (\<open>core/risk/pretrade.py\<close>,
  \<open>greek_limits.py\<close> and their collection in \<open>api/orchestration\<close>), \<open>Delta_Hedge\<close>,
  \<open>Exit_Rules\<close> and \<open>Position_Pricing\<close> (\<open>core/positions\<close>), \<open>Black_Scholes\<close>
  (\<open>core/pricing/bs.py\<close>, \<open>core/risk/greek_scaling.py\<close>), \<open>Iv_Lookup\<close>
  (\<open>core/vol/iv_lookup.py\<close>), \<open>Stress\<close> (\<open>core/risk/stress.py\<close>, \<open>hist_var.py\<close>) and
  \<open>Shared_Utils\<close> (market hours, backoff).

  Broker session, watchers and writer. \<open>Order_Executor\<close> is the wrapper around the broker
  library as far as its own rules go (closes by symbol, limits, quotes), \<open>Heartbeat\<close> the
  connection row and the alert on stuck orders, \<open>Db_Writer\<close> (\<open>persistence/writer.py\<close>,
  \<open>engines/db_writer\<close>) the queue, batches, retries and dead letter of the asynchronous writes.
  \<open>Structures\<close> (\<open>engines/execution/structures.py\<close>) builds the structures of a signal.

  Risk and portfolio. \<open>Risk_Engine\<close> (\<open>engines/risk/engine.py\<close>, \<open>core/risk/greeks.py\<close>,
  \<open>persistence/retention.py\<close>) is the risk cycle that writes position greeks and publishes the
  book; \<open>Daily_Rollup\<close> and \<open>Attribution\<close> (\<open>persistence/rollups.py\<close>,
  \<open>core/risk/attribution.py\<close>) are the daily result and its Taylor terms. The panel
  (\<open>api/routers/portfolio_panel.py\<close>) is split into \<open>Portfolio_Stats\<close>, \<open>Portfolio_Risk\<close>,
  \<open>Greek_History\<close> and \<open>Risk_Breakdown\<close>, the last with \<open>core/risk/marginal_var.py\<close> and
  \<open>vega_pca.py\<close>.

  Regime, signals, configuration. \<open>Regime\<close> (\<open>core/vol/regime_engine.py\<close>, \<open>vrp.py\<close>,
  \<open>core/regime_patterns.py\<close>) classifies the market and gates trading on it;
  \<open>Regime_Features\<close> stamps and shows the features of a regime; \<open>Signals\<close>
  (\<open>core/vol/pca_engine.py\<close>, \<open>api/routers/signals.py\<close>) is the factor model with its signals and
  its refit, where the singular value decomposition is a parameter; \<open>Config_Service\<close>
  (\<open>api/orchestration/config_service.py\<close>, \<open>core/config\<close>, \<open>api/routers/admin.py\<close>) the
  versioned configuration with its updates and reverts.

  How state is modelled. An operation on the database is a function on the store that
  returns it updated; a raise or an early return is a branch. Every session of the code
  commits as a whole, so an operation is atomic between its commits; where the code commits
  in the middle and can then fail, the model returns the store of that moment. Interleaving
  is a step relation where it matters: the placement claims (\<open>race_step\<close>), the session
  callbacks that fire during a running pass (\<open>engine_step\<close>) and the requests on the previews
  (\<open>desk_step\<close>). What the broker answers, the
  time and the prices are arguments of the operations.

  What the lemmas show. Each theory first proves the laws of its operations, then the
  properties, numbered C1 onward in the text before each: the book converges to the fills
  under any delivery; nothing is placed twice; an order moves only on evidence; reservations
  and breaks equal what the fills imply; closes flatten; limits hold and fail closed; prices
  and greeks agree with each other; no write is lost unreported; the daily results chain; a
  configuration version never changes; a refit of the factors is all or nothing. Some lemmas record where the code falls short of its
  comments: their names are \<open>mirror_quantity_ignored\<close>, \<open>reaper_demotes_filled_structure\<close>,
  \<open>unqualified_unwind_not_retried\<close>, \<open>held_position_closed\<close>, \<open>tiny_sell_becomes_market\<close>,
  \<open>missing_counted_twice\<close>, \<open>gate_opens_during_pass\<close>, \<open>watchdog_silent_recovery\<close>,
  \<open>rejected_close_keeps_reservation\<close>, \<open>straddle_second_leg_refused\<close>,
  \<open>position_close_over_reserves\<close>, \<open>filled_hedge_repeats\<close>, \<open>display_twice_extrapolates\<close>,
  \<open>no_short_strike_prices_at_one\<close>, \<open>override_ignores_regime\<close>, \<open>mixed_futures_share_size\<close>,
  \<open>refused_duplicate_releases_lock\<close>, \<open>two_requests_admitted\<close>, \<open>vega_check_ignores_size\<close>,
  \<open>negative_size_one_lot\<close>, \<open>gate_scales_delta_twice\<close>, \<open>bare_label_lost\<close>,
  \<open>portfolio_only_not_closable\<close>, \<open>zero_limit_is_market\<close>, \<open>option_limit_overridden\<close>,
  \<open>disconnects_count_all\<close>, \<open>unknown_table_parked_twice\<close>, \<open>three_attempts_two_waits\<close>,
  \<open>residual_absorbs_missing_term\<close>, \<open>flat_calendar\<close>, \<open>greeks_raise\<close>,
  \<open>straddle_never_hedged\<close>, \<open>drained_vol_has_no_pnl\<close>, \<open>scenario_theta_divided_twice\<close>,
  \<open>spot_proxies_disagree\<close>, \<open>greek_pnl_units_differ\<close>, \<open>constant_loss_unallocated\<close>,
  \<open>deep_delta_is_atm\<close>, \<open>curve_omits_multiplier\<close>, \<open>empty_surface_two_vols\<close>,
  \<open>update_lost\<close>, \<open>revert_stores_before_it_validates\<close>, \<open>mild_pattern_unmapped\<close>,
  \<open>unmapped_alert_dead\<close>, \<open>default_window_never_ready\<close>, \<open>missing_score_bends_the_slope\<close>,
  \<open>six_snapshots_are_not_enough\<close>, \<open>weak_never_actionable\<close> and
  \<open>referenced_signal_blocks_refit\<close>.

  Bounds. Floats are exact reals: no rounding error, NaN or infinity; where the code rounds
  to n digits the model does. Python's integers are unbounded, as here. There is no fuel:
  loops recurse on their data, and the retry loop of \<open>Ib_Connection\<close>, which may be told never
  to stop, is a partial function that is proved to return.

  Not modelled. Logging, metrics, tracing and the message bus (pure output). Routing,
  authentication, web sockets, the developer routes and request parsing of the HTTP API. The
  broker library, whose answers are arguments, and the start-up wiring of the services
  (\<open>engines/execution/main.py\<close>). The endless loops around the passes. The market data
  engine, the events scheduler and most of the volatility engine: calibration (SVI, SSVI, GARCH,
  HAR, mixture models) over numpy and scipy is approximate by intent and rests on code outside
  the repository. Storage of analytics, authentication and market data.
\<close>

end
